(* ===== verification/Hosted_Prelude.thy ===== *)
theory Hosted_Prelude
  imports Main "HOL-Library.Word"
begin

unbundle bit_operations_syntax

text \<open>
  Shared types, little-endian byte helpers and list lemmas of the development.

  The C program moves octets, so a buffer is a list of 8-bit words; \<open>uint16_t\<close> and \<open>uint32_t\<close>
  keep their widths. A null pointer is \<open>None\<close>. The error codes are those of
  \<open>host/core/include/h_public/h_types.h\<close>.
\<close>

named_theorems hosted_simps \<open>rewrite rules that carry the component proofs\<close>
named_theorems hosted_defs \<open>definitions of protocol constants\<close>

type_synonym u8 = "8 word"
type_synonym u16 = "16 word"
type_synonym u32 = "32 word"
type_synonym bytes = "8 word list"

section \<open>Error codes\<close>

datatype h_err =
    H_OK
  | H_FAIL
  | H_ERR_INVALID_ARG
  | H_ERR_NO_MEM
  | H_ERR_TIMEOUT
  | H_ERR_NOT_SUP
  | H_ERR_INVALID_STATE
  | H_ERR_BUSY

primrec h_err_code :: "h_err \<Rightarrow> int" where
  "h_err_code H_OK = 0"
| "h_err_code H_FAIL = -1"
| "h_err_code H_ERR_INVALID_ARG = -2"
| "h_err_code H_ERR_NO_MEM = -3"
| "h_err_code H_ERR_TIMEOUT = -4"
| "h_err_code H_ERR_NOT_SUP = -5"
| "h_err_code H_ERR_INVALID_STATE = -6"
| "h_err_code H_ERR_BUSY = -7"

lemma h_err_code_inj: "h_err_code a = h_err_code b \<longleftrightarrow> a = b"
  by (cases a; cases b) simp_all

section \<open>Interface types\<close>

datatype esp_hosted_if_type =
    ESP_INVALID_IF
  | ESP_STA_IF
  | ESP_AP_IF
  | ESP_SERIAL_IF
  | ESP_HCI_IF
  | ESP_PRIV_IF
  | ESP_TEST_IF
  | ESP_ETH_IF
  | ESP_MAX_IF

primrec if_code :: "esp_hosted_if_type \<Rightarrow> u8" where
  "if_code ESP_INVALID_IF = 0"
| "if_code ESP_STA_IF = 1"
| "if_code ESP_AP_IF = 2"
| "if_code ESP_SERIAL_IF = 3"
| "if_code ESP_HCI_IF = 4"
| "if_code ESP_PRIV_IF = 5"
| "if_code ESP_TEST_IF = 6"
| "if_code ESP_ETH_IF = 7"
| "if_code ESP_MAX_IF = 8"

section \<open>Little-endian bytes\<close>

definition lo8 :: "u16 \<Rightarrow> u8" where
  "lo8 w = ucast (w AND 0xFF)"

definition hi8 :: "u16 \<Rightarrow> u8" where
  "hi8 w = ucast (drop_bit 8 w AND 0xFF)"

definition le16 :: "u8 \<Rightarrow> u8 \<Rightarrow> u16" where
  "le16 l h = push_bit 8 (ucast h) + ucast l"

definition le32_bytes :: "u32 \<Rightarrow> bytes" where
  "le32_bytes w = [ucast (w AND 0xFF), ucast (drop_bit 8 w AND 0xFF),
                   ucast (drop_bit 16 w AND 0xFF), ucast (drop_bit 24 w AND 0xFF)]"

definition le32 :: "u8 \<Rightarrow> u8 \<Rightarrow> u8 \<Rightarrow> u8 \<Rightarrow> u32" where
  "le32 a b c d = ucast a + push_bit 8 (ucast b) + push_bit 16 (ucast c) + push_bit 24 (ucast d)"

lemma unat_u8_less: "unat (w :: u8) < 256"
  using unsigned_less [of w, where ?'a = nat] by simp

lemma unat_u16_less: "unat (w :: u16) < 65536"
  using unsigned_less [of w, where ?'a = nat] by simp

lemma unat_lo8: "unat (lo8 w) = unat w mod 256"
proof -
  have "lo8 w = ucast (take_bit 8 w)"
    by (simp add: lo8_def take_bit_eq_mask mask_eq_exp_minus_1)
  moreover have "unat (take_bit 8 w) = unat w mod 256"
    by (simp add: unsigned_take_bit_eq) (simp add: take_bit_eq_mod)
  ultimately show ?thesis
    by (simp add: unsigned_ucast_eq) (simp add: take_bit_eq_mod)
qed

lemma unat_hi8: "unat (hi8 w) = unat w div 256"
proof -
  have "unat w div 256 < 256"
    using unat_u16_less [of w] by linarith
  moreover have "hi8 w = ucast (take_bit 8 (drop_bit 8 w))"
    by (simp only: hi8_def take_bit_eq_mask mask_eq_exp_minus_1) simp
  then have "unat (hi8 w) = unat w div 256 mod 256"
    using unat_u16_less [of w]
    by (simp only: unsigned_ucast_eq unsigned_take_bit_eq unsigned_drop_bit_eq)
      (simp add: take_bit_eq_mod drop_bit_eq_div)
  ultimately show ?thesis by simp
qed

lemma unat_ucast_u8_u16 [simp]: "unat (ucast (l :: u8) :: u16) = unat l"
  using unat_u8_less [of l] by (simp add: unsigned_ucast_eq take_bit_eq_mod)

lemma unat_ucast_u8_u32 [simp]: "unat (ucast (l :: u8) :: u32) = unat l"
  using unat_u8_less [of l] by (simp add: unsigned_ucast_eq take_bit_eq_mod)

lemma unat_le16: "unat (le16 l h) = unat l + 256 * unat h"
proof -
  have l: "unat l < 256" and h: "unat h < 256"
    by (rule unat_u8_less)+
  have p: "unat (push_bit 8 (ucast h :: u16)) = 256 * unat h"
    using h by (simp only: unsigned_push_bit_eq unat_ucast_u8_u16)
      (simp add: take_bit_eq_mod push_bit_eq_mult)
  have "unat (le16 l h) = (unat (push_bit 8 (ucast h :: u16)) + unat (ucast l :: u16)) mod 65536"
    by (simp only: le16_def unat_word_ariths) simp
  also have "\<dots> = (256 * unat h + unat l) mod 65536"
    by (simp only: p unat_ucast_u8_u16)
  finally show ?thesis using l h by simp
qed

lemma le16_split [simp, hosted_simps]: "le16 (lo8 w) (hi8 w) = w"
  by (rule word_unat_eq_iff [THEN iffD2]) (simp add: unat_le16 unat_lo8 unat_hi8 mult.commute)

lemma lo8_le16 [simp, hosted_simps]: "lo8 (le16 l h) = l"
proof -
  have "unat l < 256" by (rule unat_u8_less)
  then show ?thesis by (simp add: word_unat_eq_iff unat_lo8 unat_le16)
qed

lemma hi8_le16 [simp, hosted_simps]: "hi8 (le16 l h) = h"
proof -
  have "unat l < 256" by (rule unat_u8_less)
  then show ?thesis by (simp add: word_unat_eq_iff unat_hi8 unat_le16)
qed

lemma unat_byte32: "unat (ucast (drop_bit k (w :: u32) AND 0xFF) :: u8) = unat w div 2 ^ k mod 256"
proof -
  have "(ucast (drop_bit k w AND 0xFF) :: u8) = ucast (take_bit 8 (drop_bit k w))"
    by (simp only: take_bit_eq_mask mask_eq_exp_minus_1) simp
  moreover have "unat w < 4294967296" using unsigned_less [of w, where ?'a = nat] by simp
  ultimately show ?thesis
    by (simp only: unsigned_ucast_eq unsigned_take_bit_eq unsigned_drop_bit_eq)
      (simp add: take_bit_eq_mod drop_bit_eq_div)
qed

lemma unat_push32:
  "unat b < 256 \<Longrightarrow> k \<le> 24 \<Longrightarrow> unat (push_bit k (ucast (b :: u8) :: u32)) = 2 ^ k * unat b"
proof -
  assume b: "unat b < 256" and k: "k \<le> 24"
  have "2 ^ k * unat b < 2 ^ k * 256" using b by simp
  also have "\<dots> \<le> 2 ^ 24 * 256" using k by (intro mult_right_mono power_increasing) auto
  finally have l: "2 ^ k * unat b < 2 ^ 32" by simp
  then show "unat (push_bit k (ucast b :: u32)) = 2 ^ k * unat b"
    by (simp only: unsigned_push_bit_eq unat_ucast_u8_u32)
      (simp add: take_bit_eq_mod push_bit_eq_mult mult.commute)
qed

lemma unat_le32: "unat (le32 a b c d) = unat a + 256 * unat b + 65536 * unat c + 16777216 * unat d"
proof -
  have l: "unat a < 256" "unat b < 256" "unat c < 256" "unat d < 256" by (rule unat_u8_less)+
  have p: "unat (push_bit 8 (ucast b :: u32)) = 256 * unat b" "unat (push_bit 16 (ucast c :: u32)) = 65536 * unat c"
      "unat (push_bit 24 (ucast d :: u32)) = 16777216 * unat d"
    using unat_push32 [OF l(2), of 8] unat_push32 [OF l(3), of 16] unat_push32 [OF l(4), of 24] by simp_all
  show ?thesis
    using l by (simp only: le32_def unat_word_ariths p unat_ucast_u8_u32) simp
qed

lemma le32_le32_bytes: "le32_bytes w = [a, b, c, d] \<Longrightarrow> le32 a b c d = w"
proof -
  assume "le32_bytes w = [a, b, c, d]"
  then have u: "unat a = unat w mod 256" "unat b = unat w div 2 ^ 8 mod 256" "unat c = unat w div 2 ^ 16 mod 256"
      "unat d = unat w div 2 ^ 24 mod 256"
    using unat_byte32 [of 0 w] unat_byte32 [of 8 w] unat_byte32 [of 16 w] unat_byte32 [of 24 w]
    by (simp_all add: le32_bytes_def)
  define n where "n = unat w"
  have "n < 4294967296" using unsigned_less [of w, where ?'a = nat] by (simp add: n_def)
  then have top: "n div 16777216 mod 256 = n div 16777216" and "n = n mod (16777216 * 256)" by simp_all
  note this(2)
  also have "\<dots> = 16777216 * (n div 16777216 mod 256) + n mod 16777216" by (rule mod_mult2_eq)
  also have "n mod 16777216 = n mod (65536 * 256)" by simp
  also have "\<dots> = 65536 * (n div 65536 mod 256) + n mod 65536" by (rule mod_mult2_eq)
  also have "n mod 65536 = n mod (256 * 256)" by simp
  also have "\<dots> = 256 * (n div 256 mod 256) + n mod 256" by (rule mod_mult2_eq)
  finally have "n mod 256 + 256 * (n div 256 mod 256) + 65536 * (n div 65536 mod 256) +
      16777216 * (n div 16777216 mod 256) = n" by linarith
  then have "unat (le32 a b c d) = unat w" using top unfolding n_def by (simp only: unat_le32 u) simp
  then show ?thesis by (simp add: word_unat_eq_iff)
qed

section \<open>Lists\<close>

lemma take_length_append [simp]: "n = length xs \<Longrightarrow> take n (xs @ ys) = xs"
  by simp

lemma drop_length_append [simp]: "n = length xs \<Longrightarrow> drop n (xs @ ys) = ys"
  by simp

lemma take_drop_append1: "m + s \<le> length xs \<Longrightarrow> take s (drop m (xs @ ys)) = take s (drop m xs)"
  by simp

lemma take_drop_take: "m + s \<le> n \<Longrightarrow> take s (drop m (take n xs)) = take s (drop m xs)"
  by (simp add: drop_take min_def)

lemma unat_of_nat_u16: "n < 65536 \<Longrightarrow> unat (of_nat n :: u16) = n"
  by (simp add: unat_of_nat)

lemma sum_list_update_diff:
  fixes f :: "'a \<Rightarrow> 'b::comm_ring_1"
  assumes "i < length xs"
  shows "sum_list (map f (xs[i := x])) = sum_list (map f xs) - f (xs ! i) + f x"
  using assms
proof (induction xs arbitrary: i)
  case Nil
  then show ?case by simp
next
  case (Cons y ys)
  then show ?case by (cases i) (simp_all add: algebra_simps)
qed

end
