(* ===== verification/Payload_Header.thy ===== *)
theory Payload_Header
  imports Hosted_Prelude
begin

unbundle bit_operations_syntax

text \<open>
  The 12-byte transport header \<open>struct esp_payload_header\<close> of
  \<open>src/common/esp_hosted_header.h\<close> and the checksum loop of
  \<open>src/common/transport/esp_hosted_transport.h\<close>.

  The bit fields keep their widths (4, 4, 2 and 6 bits). \<open>encode_header\<close> is the memory image the
  packed struct has on the little-endian targets of the program, \<open>decode_header\<close> is the cast of a
  received buffer to \<open>struct esp_payload_header *\<close>: it fails when the buffer is shorter than the
  struct, where the C code would read out of bounds.
\<close>

section \<open>The header\<close>

record esp_payload_header =
  ph_if_type :: "4 word"
  ph_if_num :: "4 word"
  ph_flags :: u8
  ph_len :: u16
  ph_offset :: u16
  ph_checksum :: u16
  ph_seq_num :: u16
  ph_throttle_cmd :: "2 word"
  ph_reserved2 :: "6 word"
  ph_pkt_type :: u8

abbreviation (input) MORE_FRAGMENT :: u8 where "MORE_FRAGMENT \<equiv> 1"
abbreviation (input) FLAG_WAKEUP_PKT :: u8 where "FLAG_WAKEUP_PKT \<equiv> 2"
abbreviation (input) FLAG_POWER_SAVE_STARTED :: u8 where "FLAG_POWER_SAVE_STARTED \<equiv> 4"
abbreviation (input) FLAG_POWER_SAVE_STOPPED :: u8 where "FLAG_POWER_SAVE_STOPPED \<equiv> 8"

abbreviation (input) HDR_SIZE :: nat where "HDR_SIZE \<equiv> 12"

text \<open>\<open>memset(h, 0, sizeof(struct esp_payload_header))\<close>.\<close>

definition zero_header :: esp_payload_header where
  "zero_header = \<lparr>ph_if_type = 0, ph_if_num = 0, ph_flags = 0, ph_len = 0, ph_offset = 0,
     ph_checksum = 0, ph_seq_num = 0, ph_throttle_cmd = 0, ph_reserved2 = 0, ph_pkt_type = 0\<rparr>"

definition nibbles :: "4 word \<Rightarrow> 4 word \<Rightarrow> u8" where
  "nibbles l h = of_nat (unat l + 16 * unat h)"

definition lo_nibble :: "u8 \<Rightarrow> 4 word" where
  "lo_nibble b = of_nat (unat b mod 16)"

definition hi_nibble :: "u8 \<Rightarrow> 4 word" where
  "hi_nibble b = of_nat (unat b div 16)"

definition throttle_byte :: "2 word \<Rightarrow> 6 word \<Rightarrow> u8" where
  "throttle_byte l h = of_nat (unat l + 4 * unat h)"

definition throttle_of :: "u8 \<Rightarrow> 2 word" where
  "throttle_of b = of_nat (unat b mod 4)"

definition reserved_of :: "u8 \<Rightarrow> 6 word" where
  "reserved_of b = of_nat (unat b div 4)"

definition encode_header :: "esp_payload_header \<Rightarrow> bytes" where
  "encode_header h =
     [nibbles (ph_if_type h) (ph_if_num h), ph_flags h,
      lo8 (ph_len h), hi8 (ph_len h), lo8 (ph_offset h), hi8 (ph_offset h),
      lo8 (ph_checksum h), hi8 (ph_checksum h), lo8 (ph_seq_num h), hi8 (ph_seq_num h),
      throttle_byte (ph_throttle_cmd h) (ph_reserved2 h), ph_pkt_type h]"

fun decode_header :: "bytes \<Rightarrow> esp_payload_header option" where
  "decode_header (b0 # b1 # b2 # b3 # b4 # b5 # b6 # b7 # b8 # b9 # b10 # b11 # _) =
     Some \<lparr>ph_if_type = lo_nibble b0, ph_if_num = hi_nibble b0, ph_flags = b1,
       ph_len = le16 b2 b3, ph_offset = le16 b4 b5, ph_checksum = le16 b6 b7,
       ph_seq_num = le16 b8 b9, ph_throttle_cmd = throttle_of b10,
       ph_reserved2 = reserved_of b10, ph_pkt_type = b11\<rparr>"
| "decode_header _ = None"

text \<open>Assignments through the cast pointer: the twelve header bytes are rewritten in place.\<close>

definition put_header :: "esp_payload_header \<Rightarrow> bytes \<Rightarrow> bytes" where
  "put_header h buf = encode_header h @ drop HDR_SIZE buf"

section \<open>The buffer handle\<close>

text \<open>
  \<open>interface_buffer_handle_t\<close>, the descriptor that travels between the layers. \<open>bh_priv\<close> names the
  allocated object (\<open>0\<close> for null), \<open>bh_free\<close> says whether \<open>free_buf_handle\<close> is set, \<open>bh_payload\<close> is the
  memory at \<open>payload\<close>.
\<close>

record interface_buffer_handle =
  bh_priv :: nat
  bh_if_type :: u8
  bh_if_num :: u8
  bh_payload :: "bytes option"
  bh_flag :: u8
  bh_payload_len :: u16
  bh_seq_num :: u16
  bh_zcopy :: u8
  bh_free :: bool

definition zero_handle :: interface_buffer_handle where
  "zero_handle = \<lparr>bh_priv = 0, bh_if_type = 0, bh_if_num = 0, bh_payload = None, bh_flag = 0,
     bh_payload_len = 0, bh_seq_num = 0, bh_zcopy = 0, bh_free = False\<rparr>"

text \<open>\<open>H_FREE_PTR_WITH_FUNC (h->free_buf_handle, h->priv_buffer_handle)\<close>: frees and clears the pointer.\<close>

definition free_handle :: "interface_buffer_handle \<Rightarrow> interface_buffer_handle \<times> nat list" where
  "free_handle h = (if bh_free h \<and> bh_priv h \<noteq> 0 then (h\<lparr>bh_priv := 0\<rparr>, [bh_priv h]) else (h, []))"

section \<open>Checksum\<close>

lemma unat_suc_less:
  fixes i len :: u16
  assumes "i < len"
  shows "unat (i + 1) = Suc (unat i)"
proof -
  have "unat i < unat len" using assms by (simp add: word_less_nat_alt)
  then have "unat i + 1 < 65536" using unat_u16_less [of len] by linarith
  then show ?thesis by (simp add: unat_word_ariths)
qed

text \<open>
  \<open>compute_checksum\<close> with its \<open>uint16_t\<close> accumulator and index. A read past the end of the buffer is
  \<open>None\<close>.
\<close>

function compute_checksum_loop :: "bytes \<Rightarrow> u16 \<Rightarrow> u16 \<Rightarrow> u16 \<Rightarrow> u16 option" where
  "compute_checksum_loop buf len i checksum =
     (if i < len then
        (if unat i < length buf
         then compute_checksum_loop buf len (i + 1) (checksum + ucast (buf ! unat i))
         else None)
      else Some checksum)"
  by pat_completeness auto

termination
proof (relation "measure (\<lambda>(buf, len, i, checksum). unat len - unat i)")
  fix buf :: bytes and len i checksum :: u16
  assume "i < len" "unat i < length buf"
  then have "unat i < unat len" and "unat (i + 1) = Suc (unat i)"
    by (simp_all add: word_less_nat_alt unat_suc_less)
  then show "((buf, len, i + 1, checksum + ucast (buf ! unat i)), (buf, len, i, checksum))
        \<in> measure (\<lambda>(buf, len, i, checksum). unat len - unat i)"
    by simp
qed simp

declare compute_checksum_loop.simps [simp del]

definition compute_checksum :: "bytes \<Rightarrow> u16 \<Rightarrow> u16 option" where
  "compute_checksum buf len = compute_checksum_loop buf len 0 0"

text \<open>The reference: the sum of the octets modulo \<open>2 ^ 16\<close>.\<close>

definition octet_sum :: "bytes \<Rightarrow> u16" where
  "octet_sum bs = sum_list (map ucast bs)"

section \<open>Lemmas\<close>

lemma unat_u4_less: "unat (w :: 4 word) < 16"
  using unsigned_less [of w, where ?'a = nat] by simp

lemma unat_u2_less: "unat (w :: 2 word) < 4"
  using unsigned_less [of w, where ?'a = nat] by simp

lemma unat_u6_less: "unat (w :: 6 word) < 64"
  using unsigned_less [of w, where ?'a = nat] by simp

lemma unat_nibbles: "unat (nibbles l h) = unat l + 16 * unat h"
  using unat_u4_less [of l] unat_u4_less [of h]
  by (simp only: nibbles_def unat_of_nat) simp

lemma unat_throttle_byte: "unat (throttle_byte l h) = unat l + 4 * unat h"
  using unat_u2_less [of l] unat_u6_less [of h]
  by (simp only: throttle_byte_def unat_of_nat) simp

lemma nibble_roundtrip [simp]:
  "lo_nibble (nibbles l h) = l" "hi_nibble (nibbles l h) = h"
  "throttle_of (throttle_byte t r) = t" "reserved_of (throttle_byte t r) = r"
  using unat_u4_less [of l] unat_u2_less [of t]
  by (simp_all add: lo_nibble_def hi_nibble_def throttle_of_def reserved_of_def unat_nibbles
      unat_throttle_byte)

lemma nibbles_split [simp]: "nibbles (lo_nibble b) (hi_nibble b) = b"
proof -
  have "unat (hi_nibble b) = unat b div 16"
    using unat_u8_less [of b] by (simp add: hi_nibble_def unat_of_nat)
  moreover have "unat (lo_nibble b) = unat b mod 16"
    by (simp add: lo_nibble_def unat_of_nat)
  ultimately show ?thesis
    by (simp add: word_unat_eq_iff unat_nibbles)
qed

lemma throttle_byte_split [simp]: "throttle_byte (throttle_of b) (reserved_of b) = b"
proof -
  have "unat (reserved_of b) = unat b div 4"
    using unat_u8_less [of b] by (simp add: reserved_of_def unat_of_nat)
  moreover have "unat (throttle_of b) = unat b mod 4"
    by (simp add: throttle_of_def unat_of_nat)
  ultimately show ?thesis
    by (simp add: word_unat_eq_iff unat_throttle_byte)
qed

lemma length_encode_header [simp]: "length (encode_header h) = HDR_SIZE"
  by (simp add: encode_header_def)

lemma decode_encode [simp]: "decode_header (encode_header h @ rest) = Some h"
  by (simp add: encode_header_def)

lemma decode_encode_nil [simp]: "decode_header (encode_header h) = Some h"
  using decode_encode [of h "[]"] by simp

lemma decode_header_SomeD:
  assumes "decode_header bs = Some h"
  shows "HDR_SIZE \<le> length bs" and "take HDR_SIZE bs = encode_header h"
  using assms by (induction bs rule: decode_header.induct) (auto simp: encode_header_def)

lemma decode_header_None_iff: "decode_header bs = None \<longleftrightarrow> length bs < HDR_SIZE"
  by (induction bs rule: decode_header.induct) auto

lemma decode_header_split:
  "decode_header bs = Some h \<Longrightarrow> bs = encode_header h @ drop HDR_SIZE bs"
  by (metis append_take_drop_id decode_header_SomeD(2))

lemma length_put_header [simp]: "HDR_SIZE \<le> length buf \<Longrightarrow> length (put_header h buf) = length buf"
  by (simp add: put_header_def)

lemma decode_put_header [simp]: "decode_header (put_header h buf) = Some h"
  by (simp add: put_header_def)

lemma drop_put_header [simp]: "drop HDR_SIZE (put_header h buf) = drop HDR_SIZE buf"
  by (simp add: put_header_def)

lemma octet_sum_append [simp]: "octet_sum (xs @ ys) = octet_sum xs + octet_sum ys"
  by (simp add: octet_sum_def)

lemma octet_sum_Cons [simp]: "octet_sum (x # xs) = ucast x + octet_sum xs"
  by (simp add: octet_sum_def)

lemma octet_sum_Nil [simp]: "octet_sum [] = 0"
  by (simp add: octet_sum_def)

lemma compute_checksum_loop_sum:
  assumes "unat len \<le> length buf"
  shows "compute_checksum_loop buf len i acc =
     Some (acc + octet_sum (drop (unat i) (take (unat len) buf)))"
  using assms
proof (induction buf len i acc rule: compute_checksum_loop.induct)
  case (1 buf len i acc)
  show ?case
  proof (cases "i < len")
    case True
    then have lt: "unat i < unat len" by (simp add: word_less_nat_alt)
    then have "drop (unat i) (take (unat len) buf) =
        buf ! unat i # drop (Suc (unat i)) (take (unat len) buf)"
      using 1(2) by (simp add: Cons_nth_drop_Suc [symmetric])
    moreover have "compute_checksum_loop buf len i acc =
        compute_checksum_loop buf len (i + 1) (acc + ucast (buf ! unat i))"
      using True lt 1(2) by (subst compute_checksum_loop.simps) simp
    ultimately show ?thesis
      using 1(1) [OF True] lt 1(2) True by (simp add: unat_suc_less)
  next
    case False
    then have "unat len \<le> unat i" by (simp add: word_less_nat_alt)
    then show ?thesis
      using False by (subst compute_checksum_loop.simps) simp
  qed
qed

lemma compute_checksum_eq:
  "unat len \<le> length buf \<Longrightarrow> compute_checksum buf len = Some (octet_sum (take (unat len) buf))"
  by (simp add: compute_checksum_def compute_checksum_loop_sum)

lemma octet_sum_of_nat: "octet_sum bs = of_nat (sum_list (map unat bs))"
  by (induction bs) (simp_all add: word_unat_eq_iff unat_word_ariths unat_of_nat)

lemma compute_checksum_loop_short:
  "unat i \<le> length buf \<Longrightarrow> length buf < unat len \<Longrightarrow> compute_checksum_loop buf len i acc = None"
proof (induction buf len i acc rule: compute_checksum_loop.induct)
  case (1 buf len i acc)
  then have lt: "i < len" by (simp add: word_less_nat_alt)
  then show ?case
    using 1 by (subst compute_checksum_loop.simps) (simp add: unat_suc_less)
qed

lemma compute_checksum_short: "\<not> unat len \<le> length buf \<Longrightarrow> compute_checksum buf len = None"
  by (simp add: compute_checksum_def compute_checksum_loop_short)

lemma octet_sum_update:
  assumes "i < length bs"
  shows "octet_sum (bs[i := b]) = octet_sum bs - ucast (bs ! i) + ucast b"
  using sum_list_update_diff [OF assms, of "ucast :: u8 \<Rightarrow> u16" b] by (simp add: octet_sum_def)

lemma octet_sum_update_eq_iff:
  assumes "i < length bs"
  shows "octet_sum (bs[i := b]) = octet_sum bs \<longleftrightarrow> b = bs ! i"
proof
  assume "octet_sum (bs[i := b]) = octet_sum bs"
  then have "(ucast b :: u16) = ucast (bs ! i)"
    by (simp add: octet_sum_update [OF assms])
  then have "unat (ucast b :: u16) = unat (ucast (bs ! i) :: u16)" by simp
  then show "b = bs ! i" by (simp add: word_unat_eq_iff)
qed (simp add: octet_sum_update [OF assms])

lemma octet_sum_header_checksum:
  "octet_sum (encode_header (h\<lparr>ph_checksum := c\<rparr>)) =
   octet_sum (encode_header (h\<lparr>ph_checksum := 0\<rparr>)) + ucast (lo8 c) + ucast (hi8 c)"
proof -
  have "lo8 0 = 0" "hi8 0 = 0" by (simp_all add: word_unat_eq_iff unat_lo8 unat_hi8)
  then show ?thesis by (simp add: encode_header_def)
qed

text \<open>The way every transmitter seals a frame and every receiver checks it.\<close>

definition seal_frame :: "esp_payload_header \<Rightarrow> bytes \<Rightarrow> bytes" where
  "seal_frame h payload =
     (let h0 = h\<lparr>ph_checksum := 0\<rparr>
      in encode_header (h0\<lparr>ph_checksum := octet_sum (encode_header h0 @ payload)\<rparr>) @ payload)"

lemma length_seal_frame [simp]: "length (seal_frame h p) = HDR_SIZE + length p"
  by (simp add: seal_frame_def Let_def)

lemma decode_seal_frame:
  "decode_header (seal_frame h p) =
     Some (h\<lparr>ph_checksum := octet_sum (encode_header (h\<lparr>ph_checksum := 0\<rparr>) @ p)\<rparr>)"
  by (simp add: seal_frame_def Let_def)

lemma drop_seal_frame [simp]: "drop HDR_SIZE (seal_frame h p) = p"
  by (simp add: seal_frame_def Let_def)

section \<open>Properties\<close>

text \<open>
  The memory image of a header is twelve octets, reading it back (whatever follows it in the
  buffer) gives the same header, and a buffer decodes to a header exactly when its first twelve
  octets are that header's image.
\<close>
lemma header_roundtrip:
  "length (encode_header h) = 12 \<and>
   decode_header (encode_header h @ rest) = Some h \<and>
   (decode_header bs = Some h \<longleftrightarrow> take 12 bs = encode_header h)"
  by (auto simp: decode_header_SomeD(2))
    (metis append_take_drop_id decode_encode)

text \<open>
  The checksum loop never reads outside a buffer of at least \<open>len\<close> octets, terminates, and
  returns the sum of those octets modulo \<open>2 ^ 16\<close>; on a shorter buffer it reads out of bounds.
\<close>
lemma compute_checksum_correct:
  "compute_checksum buf len =
     (if unat len \<le> length buf
      then Some (of_nat (sum_list (map unat (take (unat len) buf)))) else None)"
  by (simp add: compute_checksum_eq octet_sum_of_nat compute_checksum_short)

end
