(* ===== verification/Mempool.thy ===== *)
theory Mempool
  imports Hosted_Prelude "HOL-Library.Multiset"
begin

unbundle bit_operations_syntax

text \<open>
  The fixed-block allocator: \<open>src/common/mempool/mempool_ll.c\<close> (the intrusive free list) and
  \<open>src/common/mempool/mempool.c\<close> (the pool object the transports use).

  Memory is an explicit store from addresses to cell values, because the free list lives inside
  the blocks it manages: the \<open>mb_next\<close> pointer of a free block is the cell at the block's address.
  Address \<open>0\<close> is the null pointer. Poisoning, guards and \<open>OS_MEMPOOL_CHECK\<close> are compiled out in
  the default configuration and are not modelled; critical sections make each operation atomic.

  The locale \<open>block_pool\<close> states what a client relies on; its client theorem (blocks are never
  handed out twice, nothing is lost) is proved once and interpreted on \<open>os_memblock_get\<close> and
  \<open>os_memblock_put\<close>.
\<close>

section \<open>The contract of a block pool\<close>

locale block_pool =
  fixes get :: "'s \<Rightarrow> 'b option \<times> 's"
    and put :: "'b \<Rightarrow> 's \<Rightarrow> 's"
    and free :: "'s \<Rightarrow> 'b list"
    and blocks :: "'s \<Rightarrow> 'b set"
    and inv :: "'s \<Rightarrow> bool"
    and env :: "'b \<Rightarrow> 's \<Rightarrow> 's \<Rightarrow> bool"
  assumes finite_blocks: "inv s \<Longrightarrow> finite (blocks s)"
    and free_distinct: "inv s \<Longrightarrow> distinct (free s)"
    and free_blocks: "inv s \<Longrightarrow> set (free s) \<subseteq> blocks s"
    and get_empty: "inv s \<Longrightarrow> free s = [] \<Longrightarrow> get s = (None, s)"
    and get_some: "inv s \<Longrightarrow> free s = b # bs \<Longrightarrow>
      \<exists>s'. get s = (Some b, s') \<and> inv s' \<and> free s' = bs \<and> blocks s' = blocks s"
    and put_ok: "inv s \<Longrightarrow> b \<in> blocks s \<Longrightarrow> b \<notin> set (free s) \<Longrightarrow>
      inv (put b s) \<and> free (put b s) = b # free s \<and> blocks (put b s) = blocks s"
    and env_ok: "inv s \<Longrightarrow> b \<in> blocks s \<Longrightarrow> b \<notin> set (free s) \<Longrightarrow> env b s s' \<Longrightarrow>
      inv s' \<and> free s' = free s \<and> blocks s' = blocks s"
begin

text \<open>
  A client that releases only blocks it holds, and writes (\<open>env\<close>) only to them. The second component is the multiset of blocks it
  holds; \<open>Alloc\<close> that fails leaves both unchanged.
\<close>

inductive client :: "'s \<times> 'b multiset \<Rightarrow> 's \<times> 'b multiset \<Rightarrow> bool" where
  client_refl: "client c c"
| client_alloc: "client c (s, held) \<Longrightarrow> get s = (Some b, s') \<Longrightarrow> client c (s', add_mset b held)"
| client_fail: "client c (s, held) \<Longrightarrow> get s = (None, s') \<Longrightarrow> client c (s', held)"
| client_free: "client c (s, held) \<Longrightarrow> b \<in># held \<Longrightarrow> client c (put b s, held - {#b#})"
| client_write: "client c (s, held) \<Longrightarrow> b \<in># held \<Longrightarrow> env b s s' \<Longrightarrow> client c (s', held)"

definition accounted :: "'s \<times> 'b multiset \<Rightarrow> bool" where
  "accounted c = (inv (fst c) \<and> mset (free (fst c)) + snd c = mset_set (blocks (fst c)))"

lemma accounted_held:
  assumes "accounted (s, held)" "b \<in># held"
  shows "b \<in> blocks s" "b \<notin> set (free s)" "count held b = 1"
proof -
  have fin: "finite (blocks s)" and eq: "mset (free s) + held = mset_set (blocks s)"
    using assms by (auto simp: accounted_def finite_blocks)
  have "b \<in># mset_set (blocks s)" using assms(2) by (simp flip: eq)
  then show blk: "b \<in> blocks s" using fin by simp
  have "count (mset (free s)) b + count held b = 1"
    using arg_cong [OF eq, of "\<lambda>m. count m b"] fin blk by simp
  moreover have "1 \<le> count held b" using assms(2) by simp
  ultimately have "count held b = 1" "count (mset (free s)) b = 0" by linarith+
  then show "b \<notin> set (free s)" "count held b = 1"
    by (simp_all add: count_eq_zero_iff)
qed

lemma accounted_alloc:
  assumes "accounted (s, held)" "get s = (Some b, s')"
  shows "accounted (s', add_mset b held)" "b \<notin># held" "blocks s' = blocks s"
proof -
  have inv: "inv s" using assms by (simp add: accounted_def)
  show acc: "accounted (s', add_mset b held)" and "blocks s' = blocks s"
    using assms inv get_empty [OF inv] get_some [OF inv]
    by (cases "free s"; force simp: accounted_def)+
  then show "b \<notin># held"
    using accounted_held(3) [OF acc, of b] by (simp add: count_eq_zero_iff)
qed

lemma accounted_fail:
  assumes "accounted (s, held)" "get s = (None, s')"
  shows "s' = s" "held = mset_set (blocks s)"
proof -
  have inv: "inv s" using assms by (simp add: accounted_def)
  then have fr: "free s = []"
    using assms(2) get_some [OF inv] by (cases "free s") fastforce+
  then show "s' = s" "held = mset_set (blocks s)"
    using assms get_empty [OF inv fr] by (auto simp: accounted_def)
qed

lemma accounted_put:
  assumes "accounted (s, held)" "b \<in># held"
  shows "accounted (put b s, held - {#b#})" "blocks (put b s) = blocks s"
proof -
  have inv: "inv s" "mset (free s) + held = mset_set (blocks s)"
    using assms(1) by (simp_all add: accounted_def)
  note p = put_ok [OF inv(1) accounted_held(1,2) [OF assms]]
  have "mset (b # free s) + (held - {#b#}) = mset_set (blocks s)"
    using assms(2) inv(2) by (metis insert_DiffM mset.simps(2) union_mset_add_mset_left union_mset_add_mset_right)
  then show "accounted (put b s, held - {#b#})" "blocks (put b s) = blocks s"
    using p by (simp_all add: accounted_def)
qed

lemma client_accounted:
  assumes "client c c'" "accounted c"
  shows "accounted c' \<and> blocks (fst c') = blocks (fst c)"
  using assms
proof (induction rule: client.induct)
  case (client_alloc c s held b s')
  then show ?case using accounted_alloc [of s held b s'] by simp
next
  case (client_fail c s held s')
  then show ?case using accounted_fail [of s held s'] by simp
next
  case (client_free c s held b)
  then show ?case using accounted_put [of s held b] by simp
next
  case (client_write c s held b s')
  then have acc: "accounted (s, held)" by simp
  then show ?case
    using client_write env_ok [of s b s'] accounted_held(1,2) [OF acc client_write.hyps(2)]
    by (simp add: accounted_def)
qed simp

lemma client_no_double_grant:
  assumes "client (s0, {#}) (s, held)" "inv s0" "set (free s0) = blocks s0"
  shows "(\<forall>b. count held b \<le> 1) \<and>
    (case get s of (Some b, _) \<Rightarrow> b \<in> blocks s0 \<and> b \<notin># held
     | (None, _) \<Rightarrow> set_mset held = blocks s0)"
proof -
  have "mset (free s0) = mset_set (blocks s0)"
    using assms free_distinct by (metis mset_set_set)
  then have "accounted (s0, {#})" using assms by (simp add: accounted_def)
  from client_accounted [OF assms(1) this]
  have acc: "accounted (s, held)" and blk: "blocks s = blocks s0" by simp_all
  have one: "count held b \<le> 1" for b
    using accounted_held(3) [OF acc, of b] by (cases "b \<in># held") (auto simp: not_in_iff)
  obtain r s' where g: "get s = (r, s')" by fastforce
  show ?thesis
  proof (cases r)
    case None
    then have "set_mset held = blocks s"
      using accounted_fail(2) [OF acc] g acc
      by (simp add: accounted_def finite_blocks)
    then show ?thesis using one g None blk by simp
  next
    case (Some b)
    note al = accounted_alloc [OF acc, of b s']
    have "b \<in> blocks s'"
      using accounted_held(1) [of s' "add_mset b held" b] al(1) g Some by simp
    then show ?thesis using one g Some blk al(2,3) by simp
  qed
qed

end

section \<open>Constants and data\<close>

datatype os_error =
    OS_OK | OS_ENOMEM | OS_EINVAL | OS_INVALID_PARM | OS_MEM_NOT_ALIGNED | OS_BAD_MUTEX
  | OS_TIMEOUT | OS_ERR_IN_ISR | OS_ERR_PRIV | OS_NOT_STARTED | OS_ENOENT | OS_EBUSY | OS_ERROR

definition os_align :: "nat \<Rightarrow> nat" where
  "os_align n = (if n mod 4 = 0 then n else n + (4 - n mod 4))"

record os_mempool =
  mp_block_size :: u32
  mp_num_blocks :: u16
  mp_num_free :: u16
  mp_min_free :: u16
  mp_flags :: u8
  mp_membuf_addr :: nat
  mp_first :: nat

text \<open>
  The allocator's state: the store, the \<open>struct os_mempool\<close> objects by address, and the global
  \<open>STAILQ\<close> of registered pools.
\<close>

record ll_state =
  ll_mem :: "nat \<Rightarrow> nat"
  ll_pool :: "nat \<Rightarrow> os_mempool"
  ll_list :: "nat list"

definition true_block_size :: "os_mempool \<Rightarrow> nat" where
  "true_block_size p = os_align (unat (mp_block_size p))"

section \<open>Operations of \<open>mempool_ll.c\<close>\<close>

text \<open>The loop that chains the blocks; the counter is \<open>blocks - i\<close>.\<close>

fun chain_blocks :: "nat \<Rightarrow> nat \<Rightarrow> nat \<Rightarrow> (nat \<Rightarrow> nat) \<Rightarrow> nat \<Rightarrow> nat" where
  "chain_blocks 0 tbs block_ptr mem = mem(block_ptr := 0)"
| "chain_blocks (Suc n) tbs block_ptr mem =
     chain_blocks n tbs (block_ptr + tbs) (mem(block_ptr := block_ptr + tbs))"

definition os_mempool_init_internal ::
  "nat \<Rightarrow> u16 \<Rightarrow> u32 \<Rightarrow> nat \<Rightarrow> u8 \<Rightarrow> ll_state \<Rightarrow> os_error \<times> ll_state" where
  "os_mempool_init_internal mp blocks block_size membuf flags st =
     (if mp = 0 \<or> block_size = 0 then (OS_INVALID_PARM, st)
      else if membuf = 0 \<and> blocks \<noteq> 0 then (OS_INVALID_PARM, st)
      else if membuf \<noteq> 0 \<and> membuf mod 4 \<noteq> 0 then (OS_MEM_NOT_ALIGNED, st)
      else
        let p = \<lparr>mp_block_size = block_size, mp_num_blocks = blocks, mp_num_free = blocks,
                 mp_min_free = blocks, mp_flags = flags, mp_membuf_addr = membuf,
                 mp_first = membuf\<rparr>;
            mem = (if 0 < blocks
                   then chain_blocks (unat blocks - 1) (true_block_size p) membuf (ll_mem st)
                   else ll_mem st)
        in (OS_OK, \<lparr>ll_mem = mem, ll_pool = (ll_pool st)(mp := p), ll_list = ll_list st @ [mp]\<rparr>))"

definition os_mempool_init ::
  "nat \<Rightarrow> u16 \<Rightarrow> u32 \<Rightarrow> nat \<Rightarrow> ll_state \<Rightarrow> os_error \<times> ll_state" where
  "os_mempool_init mp blocks block_size membuf st =
     os_mempool_init_internal mp blocks block_size membuf 0 st"

text \<open>The first occurrence is unlinked; the search fails when the pool is not registered.\<close>

definition os_mempool_unregister :: "nat \<Rightarrow> ll_state \<Rightarrow> os_error \<times> ll_state" where
  "os_mempool_unregister mp st =
     (if mp \<notin> set (ll_list st) then (OS_INVALID_PARM, st)
      else (OS_OK, st\<lparr>ll_list := remove1 mp (ll_list st)\<rparr>))"

definition os_memblock_get :: "nat \<Rightarrow> ll_state \<Rightarrow> nat \<times> ll_state" where
  "os_memblock_get mp st =
     (if mp = 0 then (0, st)
      else let p = ll_pool st mp in
        if mp_num_free p = 0 then (0, st)
        else
          let block = mp_first p;
              nf = mp_num_free p - 1;
              p' = p\<lparr>mp_first := ll_mem st block, mp_num_free := nf,
                     mp_min_free := (if nf < mp_min_free p then nf else mp_min_free p)\<rparr>
          in (block, st\<lparr>ll_pool := (ll_pool st)(mp := p')\<rparr>))"

definition os_memblock_put_from_cb :: "nat \<Rightarrow> nat \<Rightarrow> ll_state \<Rightarrow> os_error \<times> ll_state" where
  "os_memblock_put_from_cb mp block st =
     (let p = ll_pool st mp in
      (OS_OK, st\<lparr>ll_mem := (ll_mem st)(block := mp_first p),
        ll_pool := (ll_pool st)(mp := p\<lparr>mp_first := block, mp_num_free := mp_num_free p + 1\<rparr>)\<rparr>))"

text \<open>
  \<open>put_cb\<close> is the put callback of an extended pool (\<open>None\<close> for a null pointer); the pools that
  \<open>os_mempool_init\<close> makes are not extended.
\<close>

definition os_memblock_put ::
  "(nat \<Rightarrow> nat \<Rightarrow> ll_state \<Rightarrow> os_error \<times> ll_state) option \<Rightarrow> nat \<Rightarrow> nat \<Rightarrow> ll_state \<Rightarrow>
   os_error \<times> ll_state" where
  "os_memblock_put put_cb mp block st =
     (if mp = 0 \<or> block = 0 then (OS_INVALID_PARM, st)
      else if mp_flags (ll_pool st mp) AND 1 \<noteq> 0 then
        (case put_cb of Some cb \<Rightarrow> cb mp block st
         | None \<Rightarrow> os_memblock_put_from_cb mp block st)
      else os_memblock_put_from_cb mp block st)"

section \<open>Invariant\<close>

text \<open>\<open>slist mem p as\<close>: following \<open>mb_next\<close> from \<open>p\<close> visits exactly the addresses \<open>as\<close>.\<close>

fun slist :: "(nat \<Rightarrow> nat) \<Rightarrow> nat \<Rightarrow> nat list \<Rightarrow> bool" where
  "slist mem p [] = (p = 0)"
| "slist mem p (a # as) = (p = a \<and> a \<noteq> 0 \<and> slist mem (mem a) as)"

text \<open>The free list as an executable walk of at most \<open>n\<close> links.\<close>

fun walk :: "nat \<Rightarrow> (nat \<Rightarrow> nat) \<Rightarrow> nat \<Rightarrow> nat list" where
  "walk 0 mem p = []"
| "walk (Suc n) mem p = (if p = 0 then [] else p # walk n mem (mem p))"

definition free_list :: "nat \<Rightarrow> ll_state \<Rightarrow> nat list" where
  "free_list mp st = walk (unat (mp_num_free (ll_pool st mp))) (ll_mem st) (mp_first (ll_pool st mp))"

definition block_addrs :: "os_mempool \<Rightarrow> nat list" where
  "block_addrs p = map (\<lambda>k. mp_membuf_addr p + k * true_block_size p) [0..<unat (mp_num_blocks p)]"

definition pool_blocks :: "nat \<Rightarrow> ll_state \<Rightarrow> nat set" where
  "pool_blocks mp st = set (block_addrs (ll_pool st mp))"

definition pool_inv :: "nat \<Rightarrow> ll_state \<Rightarrow> bool" where
  "pool_inv mp st = (let p = ll_pool st mp; fl = free_list mp st in
     mp \<noteq> 0 \<and> mp_membuf_addr p \<noteq> 0 \<and> mp_block_size p \<noteq> 0 \<and> mp_flags p = 0 \<and>
     slist (ll_mem st) (mp_first p) fl \<and> length fl = unat (mp_num_free p) \<and>
     distinct fl \<and> set fl \<subseteq> pool_blocks mp st \<and> mp_min_free p \<le> mp_num_free p)"

section \<open>Lemmas\<close>

lemma slist_upd [simp]: "a \<notin> set as \<Longrightarrow> slist (mem(a := v)) p as = slist mem p as"
  by (induction as arbitrary: p) auto

lemma slist_cong: "(\<And>a. a \<in> set as \<Longrightarrow> mem' a = mem a) \<Longrightarrow> slist mem' p as = slist mem p as"
  by (induction as arbitrary: p) auto

lemma walk_slist: "slist mem p as \<Longrightarrow> length as = n \<Longrightarrow> walk n mem p = as"
  by (induction as arbitrary: p n) auto

lemma os_align_ge: "n \<le> os_align n"
  using mod_less_divisor [of 4 n] by (auto simp: os_align_def)

lemma os_align_pos: "0 < n \<Longrightarrow> 0 < os_align n"
  using os_align_ge [of n] by linarith

lemma os_align_dvd: "4 dvd os_align n"
proof -
  have "(n + (4 - n mod 4)) mod 4 = 0" if "n mod 4 \<noteq> 0"
    using that by presburger
  then show ?thesis by (simp add: os_align_def dvd_eq_mod_eq_0)
qed

lemma unat_pos: "w \<noteq> 0 \<Longrightarrow> 0 < unat (w :: 'a::len word)"
  by (simp add: unat_gt_0)

lemma unat_pred: "w \<noteq> 0 \<Longrightarrow> unat (w - 1 :: 'a::len word) = unat w - 1"
  using unat_minus_one by blast

lemma length_block_addrs [simp]: "length (block_addrs p) = unat (mp_num_blocks p)"
  by (simp add: block_addrs_def)

lemma distinct_block_addrs:
  "mp_block_size p \<noteq> 0 \<Longrightarrow> distinct (block_addrs p)"
  using os_align_pos [OF unat_pos, of "mp_block_size p"]
  by (auto simp: block_addrs_def distinct_map inj_on_def true_block_size_def)

lemma chain_blocks_other:
  "0 < tbs \<Longrightarrow> a < bp \<Longrightarrow> chain_blocks n tbs bp mem a = mem a"
  by (induction n arbitrary: bp mem) auto

lemma slist_chain_blocks:
  assumes "0 < tbs" "bp \<noteq> 0"
  shows "slist (chain_blocks n tbs bp mem) bp (map (\<lambda>k. bp + k * tbs) [0..<Suc n])"
  using assms(2)
proof (induction n arbitrary: bp mem)
  case 0
  then show ?case by simp
next
  case (Suc n)
  have "map (\<lambda>k. bp + k * tbs) [0..<Suc (Suc n)] =
      bp # map (\<lambda>k. (bp + tbs) + k * tbs) [0..<Suc n]"
    unfolding map_upt_Suc by (simp add: algebra_simps)
  moreover have "chain_blocks (Suc n) tbs bp mem bp = bp + tbs"
    using assms(1) by (simp add: chain_blocks_other)
  ultimately show ?case
    using Suc.prems Suc.IH [of "bp + tbs" "mem(bp := bp + tbs)"]
    by (simp only: chain_blocks.simps slist.simps) simp
qed

lemma pool_inv_free_bound:
  assumes "pool_inv mp st"
  shows "unat (mp_num_free (ll_pool st mp)) \<le> unat (mp_num_blocks (ll_pool st mp))"
proof -
  have "length (free_list mp st) = card (set (free_list mp st))"
    using assms by (simp add: pool_inv_def Let_def distinct_card)
  also have "\<dots> \<le> card (pool_blocks mp st)"
    using assms by (intro card_mono) (auto simp: pool_inv_def Let_def pool_blocks_def)
  also have "\<dots> \<le> unat (mp_num_blocks (ll_pool st mp))"
    using card_length [of "block_addrs (ll_pool st mp)"] by (simp add: pool_blocks_def)
  finally show ?thesis
    using assms by (simp add: pool_inv_def Let_def)
qed

lemma pool_invI:
  assumes "mp \<noteq> 0" "mp_membuf_addr (ll_pool st mp) \<noteq> 0" "mp_block_size (ll_pool st mp) \<noteq> 0"
    "mp_flags (ll_pool st mp) = 0" "slist (ll_mem st) (mp_first (ll_pool st mp)) fl"
    "length fl = unat (mp_num_free (ll_pool st mp))" "distinct fl" "set fl \<subseteq> pool_blocks mp st"
    "mp_min_free (ll_pool st mp) \<le> mp_num_free (ll_pool st mp)"
  shows "pool_inv mp st \<and> free_list mp st = fl"
  using assms by (simp add: pool_inv_def Let_def free_list_def walk_slist)

lemma os_mempool_init_inv:
  assumes "mp \<noteq> 0" "block_size \<noteq> 0" "membuf \<noteq> 0" "membuf mod 4 = 0"
    and "os_mempool_init mp blocks block_size membuf st = (e, st')"
  shows "e = OS_OK" "blocks \<noteq> 0 \<Longrightarrow> pool_inv mp st'"
    "blocks \<noteq> 0 \<Longrightarrow> free_list mp st' = block_addrs (ll_pool st' mp)"
proof -
  define p where "p = \<lparr>mp_block_size = block_size, mp_num_blocks = blocks, mp_num_free = blocks,
    mp_min_free = blocks, mp_flags = 0, mp_membuf_addr = membuf, mp_first = membuf\<rparr>"
  have st': "e = OS_OK" "ll_pool st' mp = p"
    "blocks \<noteq> 0 \<Longrightarrow>
     ll_mem st' = chain_blocks (unat blocks - 1) (true_block_size p) membuf (ll_mem st)"
    using assms by (auto simp: os_mempool_init_def os_mempool_init_internal_def p_def Let_def
        word_greater_zero_iff)
  then show "e = OS_OK" by simp
  have "pool_inv mp st' \<and> free_list mp st' = block_addrs p" if "blocks \<noteq> 0"
  proof (rule pool_invI)
    have tbs: "0 < true_block_size p"
      using assms(2) by (simp add: p_def true_block_size_def os_align_pos unat_gt_0)
    have "block_addrs p = map (\<lambda>k. membuf + k * true_block_size p) [0..<Suc (unat blocks - 1)]"
      using unat_pos [OF that] by (simp add: block_addrs_def p_def)
    then show "slist (ll_mem st') (mp_first (ll_pool st' mp)) (block_addrs p)"
      using st' that slist_chain_blocks [OF tbs assms(3)] by (simp add: p_def)
    show "distinct (block_addrs p)"
      using assms(2) by (intro distinct_block_addrs) (simp add: p_def)
  qed (use assms st' in \<open>simp_all add: p_def pool_blocks_def\<close>)
  then show "blocks \<noteq> 0 \<Longrightarrow> pool_inv mp st'"
    "blocks \<noteq> 0 \<Longrightarrow> free_list mp st' = block_addrs (ll_pool st' mp)"
    by (simp_all add: st')
qed

lemma free_list_ConsD:
  assumes "pool_inv mp st" "free_list mp st = b # bs"
  shows "mp_first (ll_pool st mp) = b" "b \<noteq> 0" "slist (ll_mem st) (ll_mem st b) bs"
    "unat (mp_num_free (ll_pool st mp)) = Suc (length bs)" "b \<notin> set bs" "distinct bs"
    "b \<in> pool_blocks mp st" "set bs \<subseteq> pool_blocks mp st"
  using assms by (auto simp: pool_inv_def Let_def)

lemma os_memblock_get_empty:
  assumes "pool_inv mp st" "free_list mp st = []"
  shows "os_memblock_get mp st = (0, st)"
  using assms by (auto simp: pool_inv_def Let_def os_memblock_get_def unat_eq_zero)

lemma os_memblock_get_some:
  assumes "pool_inv mp st" "free_list mp st = b # bs"
  shows "\<exists>st'. os_memblock_get mp st = (b, st') \<and> pool_inv mp st' \<and> free_list mp st' = bs \<and>
    pool_blocks mp st' = pool_blocks mp st \<and> ll_mem st' = ll_mem st"
proof -
  note fl = free_list_ConsD [OF assms]
  let ?p = "ll_pool st mp"
  have nz: "mp_num_free ?p \<noteq> 0" using fl(4) by auto
  have mp: "mp \<noteq> 0" using assms by (simp add: pool_inv_def Let_def)
  obtain st' where g: "os_memblock_get mp st = (b, st')"
    and st': "st' = st\<lparr>ll_pool := (ll_pool st)(mp := ?p\<lparr>mp_first := ll_mem st b,
       mp_num_free := mp_num_free ?p - 1, mp_min_free := (if mp_num_free ?p - 1 < mp_min_free ?p
         then mp_num_free ?p - 1 else mp_min_free ?p)\<rparr>)\<rparr>"
    using nz mp fl(1) by (simp add: os_memblock_get_def Let_def)
  have blk: "pool_blocks mp st' = pool_blocks mp st"
    by (simp add: st' pool_blocks_def block_addrs_def true_block_size_def)
  have "pool_inv mp st' \<and> free_list mp st' = bs"
    by (rule pool_invI)
      (use assms(1) fl nz blk in \<open>simp_all add: st' pool_inv_def Let_def unat_pred not_less\<close>)
  with g blk show ?thesis by (auto simp: st')
qed

lemma os_memblock_put_ok:
  assumes "pool_inv mp st" "b \<in> pool_blocks mp st" "b \<notin> set (free_list mp st)"
  shows "\<exists>st'. os_memblock_put cb mp b st = (OS_OK, st') \<and> pool_inv mp st' \<and>
    free_list mp st' = b # free_list mp st \<and> pool_blocks mp st' = pool_blocks mp st"
proof -
  let ?p = "ll_pool st mp"
  let ?fl = "free_list mp st"
  have inv: "mp \<noteq> 0" "mp_membuf_addr ?p \<noteq> 0" "mp_block_size ?p \<noteq> 0" "mp_flags ?p = 0"
    "slist (ll_mem st) (mp_first ?p) ?fl" "length ?fl = unat (mp_num_free ?p)" "distinct ?fl"
    "set ?fl \<subseteq> pool_blocks mp st" "mp_min_free ?p \<le> mp_num_free ?p"
    using assms(1) by (simp_all add: pool_inv_def Let_def)
  have b0: "b \<noteq> 0" using assms(2) inv(2) by (auto simp: pool_blocks_def block_addrs_def)
  have "card (set (b # ?fl)) \<le> card (pool_blocks mp st)"
    using assms(2) inv(8) by (intro card_mono) (auto simp: pool_blocks_def)
  also have "\<dots> \<le> unat (mp_num_blocks ?p)"
    using card_length [of "block_addrs ?p"] by (simp add: pool_blocks_def)
  finally have "Suc (unat (mp_num_free ?p)) \<le> unat (mp_num_blocks ?p)"
    using assms(3) inv(6,7) by (simp add: distinct_card)
  then have nf: "unat (mp_num_free ?p + 1) = Suc (unat (mp_num_free ?p))"
    using unat_u16_less [of "mp_num_blocks ?p"] by (simp add: unat_word_ariths)
  define st' where "st' = st\<lparr>ll_mem := (ll_mem st)(b := mp_first ?p),
    ll_pool := (ll_pool st)(mp := ?p\<lparr>mp_first := b, mp_num_free := mp_num_free ?p + 1\<rparr>)\<rparr>"
  have put: "os_memblock_put cb mp b st = (OS_OK, st')"
    using inv(1,4) b0 by (simp add: os_memblock_put_def os_memblock_put_from_cb_def Let_def st'_def)
  have blk: "pool_blocks mp st' = pool_blocks mp st"
    by (simp add: st'_def pool_blocks_def block_addrs_def true_block_size_def)
  have "mp_min_free ?p \<le> mp_num_free ?p + 1"
    using inv(9) nf by (simp add: word_le_nat_alt)
  then have "pool_inv mp st' \<and> free_list mp st' = b # ?fl"
    by (intro pool_invI) (use inv assms b0 blk nf in \<open>simp_all add: st'_def\<close>)
  with put blk show ?thesis by auto
qed

text \<open>
  A write of the client into a block it owns: only cells of the block's \<open>mp_block_size\<close> octets
  change.
\<close>

definition block_write :: "nat \<Rightarrow> nat \<Rightarrow> ll_state \<Rightarrow> ll_state \<Rightarrow> bool" where
  "block_write mp b st st' =
     (\<exists>f. st' = st\<lparr>ll_mem := \<lambda>a. if b \<le> a \<and> a < b + unat (mp_block_size (ll_pool st mp))
                               then f a else ll_mem st a\<rparr>)"

lemma block_disjoint:
  assumes "a \<in> set (block_addrs p)" "b \<in> set (block_addrs p)" "b \<le> a"
    "a < b + unat (mp_block_size p)"
  shows "a = b"
proof -
  obtain i j where a: "a = mp_membuf_addr p + i * true_block_size p"
    and b: "b = mp_membuf_addr p + j * true_block_size p"
    using assms(1,2) by (auto simp: block_addrs_def)
  have "unat (mp_block_size p) \<le> true_block_size p"
    by (simp add: true_block_size_def os_align_ge)
  then have lt: "i * true_block_size p < Suc j * true_block_size p"
    using assms(4) a b by simp
  then have "i < Suc j" by (rule mult_less_cancel2 [THEN iffD1, THEN conjunct2])
  then have "i \<le> j" by simp
  have "j * true_block_size p \<le> i * true_block_size p"
    using assms(3) a b by simp
  moreover have "0 < true_block_size p" using lt by (cases "true_block_size p") simp_all
  ultimately have "j \<le> i" by simp
  with \<open>i \<le> j\<close> show ?thesis using a b by simp
qed

lemma block_write_inv:
  assumes inv: "pool_inv mp s" and b: "b \<in> pool_blocks mp s" "b \<notin> set (free_list mp s)"
    and w: "block_write mp b s s'"
  shows "pool_inv mp s' \<and> free_list mp s' = free_list mp s \<and> pool_blocks mp s' = pool_blocks mp s"
proof -
  obtain f where s': "s' = s\<lparr>ll_mem := \<lambda>a. if b \<le> a \<and> a < b + unat (mp_block_size (ll_pool s mp))
      then f a else ll_mem s a\<rparr>"
    using w by (auto simp: block_write_def)
  have blk: "pool_blocks mp s' = pool_blocks mp s"
    by (simp add: s' pool_blocks_def)
  have "ll_mem s' a = ll_mem s a" if "a \<in> set (free_list mp s)" for a
    using that b inv block_disjoint [of a "ll_pool s mp" b]
    by (auto simp: s' pool_blocks_def pool_inv_def Let_def)
  then have "slist (ll_mem s') (mp_first (ll_pool s mp)) (free_list mp s)"
    using inv by (simp add: pool_inv_def Let_def cong: slist_cong)
  then have "pool_inv mp s' \<and> free_list mp s' = free_list mp s"
    by (intro pool_invI) (use inv blk in \<open>simp_all add: s' pool_inv_def Let_def\<close>)
  with blk show ?thesis by simp
qed

text \<open>The pool at address \<open>mp\<close>, seen through the contract.\<close>

definition ptr_get :: "nat \<Rightarrow> ll_state \<Rightarrow> nat option \<times> ll_state" where
  "ptr_get mp st = (case os_memblock_get mp st of (b, st') \<Rightarrow> (if b = 0 then None else Some b, st'))"

definition ptr_put :: "nat \<Rightarrow> nat \<Rightarrow> ll_state \<Rightarrow> ll_state" where
  "ptr_put mp b st = snd (os_memblock_put None mp b st)"

interpretation llp: block_pool "ptr_get mp" "ptr_put mp" "free_list mp" "pool_blocks mp"
  "pool_inv mp" "block_write mp" for mp
proof (standard, goal_cases)
  case (1 s)
  then show ?case by (simp add: pool_blocks_def)
next
  case (2 s)
  then show ?case by (simp add: pool_inv_def Let_def)
next
  case (3 s)
  then show ?case by (simp add: pool_inv_def Let_def)
next
  case (4 s)
  then show ?case by (simp add: ptr_get_def os_memblock_get_empty)
next
  case (5 s b bs)
  then show ?case
    using os_memblock_get_some [of mp s b bs] free_list_ConsD(2) [of mp s b bs]
    by (auto simp: ptr_get_def)
next
  case (6 s b)
  then obtain s' where "os_memblock_put None mp b s = (OS_OK, s')"
    and "pool_inv mp s' \<and> free_list mp s' = b # free_list mp s \<and> pool_blocks mp s' = pool_blocks mp s"
    using os_memblock_put_ok by blast
  then show ?case by (simp only: ptr_put_def snd_conv)
next
  case (7 s b s')
  then show ?case by (rule block_write_inv)
qed

section \<open>The pool object of \<open>mempool.c\<close>\<close>

primrec os_error_code :: "os_error \<Rightarrow> int" where
  "os_error_code OS_OK = 0"
| "os_error_code OS_ENOMEM = 1"
| "os_error_code OS_EINVAL = 2"
| "os_error_code OS_INVALID_PARM = 3"
| "os_error_code OS_MEM_NOT_ALIGNED = 4"
| "os_error_code OS_BAD_MUTEX = 5"
| "os_error_code OS_TIMEOUT = 6"
| "os_error_code OS_ERR_IN_ISR = 7"
| "os_error_code OS_ERR_PRIV = 8"
| "os_error_code OS_NOT_STARTED = 9"
| "os_error_code OS_ENOENT = 10"
| "os_error_code OS_EBUSY = 11"
| "os_error_code OS_ERROR = 12"

record hosted_mempool =
  hm_pool :: nat
  hm_heap :: nat
  hm_static_heap :: bool
  hm_num_blocks :: nat
  hm_block_size :: nat
  hm_alignment :: nat

text \<open>\<open>cf_fns\<close>: all four memory functions of the configuration are non-null.\<close>

record hosted_mempool_config =
  cf_pre_mem :: nat
  cf_pre_size :: nat
  cf_num_blocks :: nat
  cf_block_size :: nat
  cf_align :: nat
  cf_fns :: bool

text \<open>\<open>OS_MEMPOOL_BYTES\<close> and \<open>MEMPOOL_ALIGNED\<close>, in 32-bit \<open>size_t\<close> arithmetic.\<close>

definition mempool_bytes :: "nat \<Rightarrow> nat \<Rightarrow> nat" where
  "mempool_bytes n blksize = (4 * (((blksize + 3) mod 2 ^ 32 div 4) * n)) mod 2 ^ 32"

definition mempool_aligned :: "nat \<Rightarrow> nat \<Rightarrow> nat" where
  "mempool_aligned val align = (val + align - (val AND (align - 1))) mod 2 ^ 32"

definition is_mempool_aligned :: "nat \<Rightarrow> nat \<Rightarrow> bool" where
  "is_mempool_aligned val align = (val AND (align - 1) = 0)"

text \<open>
  \<open>new\<close> and \<open>pool\<close> are the results of the two \<open>calloc\<close> calls and \<open>malloc\<close> the allocator, each \<open>0\<close> on
  failure. The last component of the result is the sequence of pointers given to \<open>free\<close>
  (\<open>MEMPOOL_FREE\<close> skips null). \<open>os_mempool_get_ops\<close> returns the address of a static structure.
\<close>

definition hosted_mempool_create ::
  "hosted_mempool_config option \<Rightarrow> nat \<Rightarrow> nat \<Rightarrow> (nat \<Rightarrow> nat) \<Rightarrow> ll_state \<Rightarrow>
   hosted_mempool option \<times> ll_state \<times> nat list" where
  "hosted_mempool_create config new pool malloc st =
     (case config of None \<Rightarrow> (None, st, [])
      | Some cf \<Rightarrow>
        if \<not> cf_fns cf then (None, st, [])
        else if new = 0 then (None, st, [])
        else if pool = 0 then (None, st, [new])
        else
          let bytes = mempool_bytes (cf_num_blocks cf) (cf_block_size cf);
              pre = (cf_pre_mem cf \<noteq> 0);
              heap = (if pre then cf_pre_mem cf else malloc (mempool_aligned bytes (cf_align cf)))
          in
          if \<not> pre \<and> heap = 0 then (None, st, [new, pool])
          else if pre \<and> cf_pre_size cf < bytes then (None, st, [new, pool])
          else if pre \<and> \<not> is_mempool_aligned (cf_pre_mem cf) (cf_align cf) then (None, st, [new, pool])
          else
            (case os_mempool_init pool (of_nat (cf_num_blocks cf)) (of_nat (cf_block_size cf)) heap st of
               (e, st') \<Rightarrow>
                 if e \<noteq> OS_OK then (None, st', [new, pool] @ (if pre then [] else [heap]))
                 else (Some \<lparr>hm_pool = pool, hm_heap = heap, hm_static_heap = pre,
                    hm_num_blocks = cf_num_blocks cf, hm_block_size = cf_block_size cf,
                    hm_alignment = cf_align cf\<rparr>, st', [])))"

definition hosted_mempool_destroy ::
  "(nat \<times> hosted_mempool) option \<Rightarrow> ll_state \<Rightarrow> ll_state \<times> nat list" where
  "hosted_mempool_destroy mempool st =
     (case mempool of None \<Rightarrow> (st, [])
      | Some (addr, hm) \<Rightarrow>
          (snd (os_mempool_unregister (hm_pool hm) st),
           filter (\<lambda>a. a \<noteq> 0) ([hm_pool hm] @ (if hm_static_heap hm then [] else [hm_heap hm]) @ [addr])))"

definition mem_zero :: "nat \<Rightarrow> nat \<Rightarrow> (nat \<Rightarrow> nat) \<Rightarrow> nat \<Rightarrow> nat" where
  "mem_zero b n mem = (\<lambda>a. if b \<le> a \<and> a < b + n then 0 else mem a)"

definition hosted_mempool_alloc ::
  "hosted_mempool option \<Rightarrow> nat \<Rightarrow> bool \<Rightarrow> ll_state \<Rightarrow> nat \<times> ll_state" where
  "hosted_mempool_alloc mempool nbytes need_memset st =
     (case mempool of None \<Rightarrow> (0, st)
      | Some hm \<Rightarrow>
          if nbytes > hm_block_size hm then (0, st)
          else (case os_memblock_get (hm_pool hm) st of
            (mem, st') \<Rightarrow>
              if mem \<noteq> 0 \<and> need_memset then (mem, st'\<lparr>ll_mem := mem_zero mem nbytes (ll_mem st')\<rparr>)
              else (mem, st')))"

definition hosted_mempool_free :: "hosted_mempool option \<Rightarrow> nat \<Rightarrow> ll_state \<Rightarrow> int \<times> ll_state" where
  "hosted_mempool_free mempool mem st =
     (if mem = 0 then (0, st)
      else case mempool of None \<Rightarrow> (-1, st)
      | Some hm \<Rightarrow> (case os_memblock_put None (hm_pool hm) mem st of (e, st') \<Rightarrow> (os_error_code e, st')))"

text \<open>
  Histories of a pool: any sequence of allocations (with any size and any \<open>need_memset\<close>), frees of
  held blocks, and writes into held blocks.
\<close>

inductive mempool_run :: "hosted_mempool \<Rightarrow> ll_state \<Rightarrow> ll_state \<times> nat multiset \<Rightarrow> bool"
  for hm st0 where
  run_start: "mempool_run hm st0 (st0, {#})"
| run_alloc: "mempool_run hm st0 (st, held) \<Longrightarrow> hosted_mempool_alloc (Some hm) n z st = (b, st') \<Longrightarrow>
    mempool_run hm st0 (st', if b = 0 then held else add_mset b held)"
| run_free: "mempool_run hm st0 (st, held) \<Longrightarrow> b \<in># held \<Longrightarrow>
    hosted_mempool_free (Some hm) b st = (rc, st') \<Longrightarrow> mempool_run hm st0 (st', held - {#b#})"
| run_write: "mempool_run hm st0 (st, held) \<Longrightarrow> b \<in># held \<Longrightarrow> b \<le> a \<Longrightarrow> a < b + hm_block_size hm \<Longrightarrow>
    mempool_run hm st0 (st\<lparr>ll_mem := (ll_mem st)(a := v)\<rparr>, held)"

definition block_size_ok :: "hosted_mempool \<Rightarrow> ll_state \<Rightarrow> bool" where
  "block_size_ok hm st = (hm_block_size hm = unat (mp_block_size (ll_pool st (hm_pool hm))))"

lemma mp_block_size_get:
  "mp_block_size (ll_pool (snd (os_memblock_get mp st)) q) = mp_block_size (ll_pool st q)"
  by (simp add: os_memblock_get_def Let_def)

lemma mp_block_size_put:
  "mp_block_size (ll_pool (snd (os_memblock_put None mp b st)) q) = mp_block_size (ll_pool st q)"
  by (simp add: os_memblock_put_def os_memblock_put_from_cb_def Let_def)

lemma mem_zero_write:
  "n \<le> unat (mp_block_size (ll_pool st mp)) \<Longrightarrow>
   block_write mp b st (st\<lparr>ll_mem := mem_zero b n (ll_mem st)\<rparr>)"
  unfolding block_write_def mem_zero_def
  by (rule exI [of _ "\<lambda>a. if a < b + n then 0 else ll_mem st a"]) (auto intro!: arg_cong [of _ _ "\<lambda>m. st\<lparr>ll_mem := m\<rparr>"])

lemma cell_write:
  "b \<le> a \<Longrightarrow> a < b + unat (mp_block_size (ll_pool st mp)) \<Longrightarrow>
   block_write mp b st (st\<lparr>ll_mem := (ll_mem st)(a := v)\<rparr>)"
  unfolding block_write_def
  by (rule exI [of _ "(ll_mem st)(a := v)"]) (auto intro!: arg_cong [of _ _ "\<lambda>m. st\<lparr>ll_mem := m\<rparr>"])

lemma mempool_run_client:
  assumes "mempool_run hm st0 c" "block_size_ok hm st0"
  shows "block_size_ok hm (fst c) \<and> llp.client (hm_pool hm) (st0, {#}) c"
  using assms
proof (induction rule: mempool_run.induct)
  case run_start
  then show ?case by (simp add: llp.client_refl)
next
  case (run_alloc st held n z b st')
  then have bs: "block_size_ok hm st" and cl: "llp.client (hm_pool hm) (st0, {#}) (st, held)"
    by simp_all
  obtain m s1 where g: "os_memblock_get (hm_pool hm) st = (m, s1)" by fastforce
  then have pg: "ptr_get (hm_pool hm) st = (if m = 0 then None else Some m, s1)"
    by (simp add: ptr_get_def)
  have bs1: "block_size_ok hm s1"
    using bs mp_block_size_get [of "hm_pool hm" st "hm_pool hm"] g by (simp add: block_size_ok_def)
  show ?case
  proof (cases "n > hm_block_size hm \<or> m = 0")
    case True
    then have "b = 0 \<and> (st' = st \<or> (m = 0 \<and> st' = s1))"
      using run_alloc.hyps g by (auto simp: hosted_mempool_alloc_def split: if_splits)
    then show ?thesis
      using bs bs1 cl llp.client_fail [OF cl, of s1] pg by auto
  next
    case False
    then have st': "b = m" "st' = (if z then s1\<lparr>ll_mem := mem_zero m n (ll_mem s1)\<rparr> else s1)"
      using run_alloc.hyps g by (auto simp: hosted_mempool_alloc_def split: if_splits)
    have c1: "llp.client (hm_pool hm) (st0, {#}) (s1, add_mset m held)"
      using False pg by (intro llp.client_alloc [OF cl]) simp
    moreover have "n \<le> unat (mp_block_size (ll_pool s1 (hm_pool hm)))"
      using False bs1 by (simp add: block_size_ok_def)
    ultimately show ?thesis
      using False st' bs1 llp.client_write [OF c1 _ mem_zero_write, of m n]
      by (auto simp: block_size_ok_def)
  qed
next
  case (run_free st held b rc st')
  have "st' = ptr_put (hm_pool hm) b st \<or> st' = st" and "b \<noteq> 0 \<Longrightarrow> st' = ptr_put (hm_pool hm) b st"
    using run_free.hyps by (auto simp: hosted_mempool_free_def ptr_put_def split: if_splits prod.splits)
  moreover have "ptr_put (hm_pool hm) 0 st = st"
    by (simp add: ptr_put_def os_memblock_put_def)
  ultimately have st': "st' = ptr_put (hm_pool hm) b st" by (cases "b = 0") auto
  moreover have "block_size_ok hm (ptr_put (hm_pool hm) b st) = block_size_ok hm st"
    by (simp add: block_size_ok_def ptr_put_def mp_block_size_put)
  ultimately show ?case
    using run_free llp.client_free [of "hm_pool hm" _ st held b] by simp
next
  case (run_write st held b a v)
  then show ?case
    using llp.client_write [OF _ _ cell_write, of "hm_pool hm" _ st held b a v]
    by (simp add: block_size_ok_def)
qed

lemma hosted_mempool_create_SomeD:
  assumes "hosted_mempool_create (Some cf) new pool malloc st = (Some hm, st', freed)"
  shows "freed = []" "pool \<noteq> 0" "hm_pool hm = pool" "hm_heap hm \<noteq> 0"
    "hm_block_size hm = cf_block_size cf"
    "hm_heap hm = (if cf_pre_mem cf \<noteq> 0 then cf_pre_mem cf
       else malloc (mempool_aligned (mempool_bytes (cf_num_blocks cf) (cf_block_size cf)) (cf_align cf)))"
    "cf_pre_mem cf \<noteq> 0 \<Longrightarrow> mempool_bytes (cf_num_blocks cf) (cf_block_size cf) \<le> cf_pre_size cf"
    "os_mempool_init pool (of_nat (cf_num_blocks cf)) (of_nat (cf_block_size cf)) (hm_heap hm) st
       = (OS_OK, st')"
  using assms
  by (auto simp: hosted_mempool_create_def Let_def not_less split: if_splits prod.splits)

lemma os_mempool_init_OK:
  assumes "os_mempool_init mp blocks block_size membuf st = (OS_OK, st')"
  shows "mp \<noteq> 0" "block_size \<noteq> 0" "membuf \<noteq> 0 \<Longrightarrow> membuf mod 4 = 0"
    "mp_block_size (ll_pool st' mp) = block_size" "mp_num_blocks (ll_pool st' mp) = blocks"
    "mp_membuf_addr (ll_pool st' mp) = membuf"
  using assms
  by (auto simp: os_mempool_init_def os_mempool_init_internal_def Let_def split: if_splits)

lemma create_pool_inv:
  assumes "hosted_mempool_create (Some cf) new pool malloc st = (Some hm, st', freed)"
    and "0 < cf_num_blocks cf" "cf_num_blocks cf < 2 ^ 16" "cf_block_size cf < 2 ^ 32"
  shows "pool_inv pool st'" "free_list pool st' = block_addrs (ll_pool st' pool)"
    "block_size_ok hm st'"
proof -
  note D = hosted_mempool_create_SomeD [OF assms(1)]
  note I = os_mempool_init_OK [OF D(8)]
  have "unat (of_nat (cf_num_blocks cf) :: u16) = cf_num_blocks cf"
    using assms(3) by (simp add: unat_of_nat)
  then have "(of_nat (cf_num_blocks cf) :: u16) \<noteq> 0" using assms(2) by auto
  then show "pool_inv pool st'" "free_list pool st' = block_addrs (ll_pool st' pool)"
    using os_mempool_init_inv(2,3) [OF I(1,2) D(4) I(3) [OF D(4)] D(8)] by simp_all
  have "unat (of_nat (cf_block_size cf) :: u32) = cf_block_size cf"
    using assms(4) by (simp add: unat_of_nat)
  then show "block_size_ok hm st'"
    using D(3,5) I(4) by (simp add: block_size_ok_def)
qed

lemma mempool_bytes_eq:
  assumes "4 * ((bs + 3) div 4) * n < 2 ^ 32" "bs + 3 < 2 ^ 32"
  shows "mempool_bytes n bs = n * os_align bs"
proof -
  have "4 * ((bs + 3) div 4) = os_align bs"
    unfolding os_align_def by presburger
  moreover from this have "4 * ((bs + 3) div 4 * n) = n * os_align bs"
    by (metis mult.assoc mult.commute)
  moreover have "4 * ((bs + 3) mod 2 ^ 32 div 4 * n) = 4 * ((bs + 3) div 4 * n)"
    using assms(2) by simp
  ultimately show ?thesis
    using assms(1) unfolding mempool_bytes_def by (metis mod_less mult.commute)
qed

lemma and_mask_le: "(val :: nat) AND m \<le> m"
proof -
  have "int (val AND m) \<le> int m"
    by (simp add: of_nat_and_eq AND_upper2)
  then show ?thesis by simp
qed

lemma mempool_aligned_ge:
  assumes "0 < align" "val + align < 2 ^ 32"
  shows "val \<le> mempool_aligned val align"
proof -
  have "val AND (align - 1) < align" using and_mask_le [of val "align - 1"] assms(1) by linarith
  moreover from this have "val + align - (val AND (align - 1)) < 2 ^ 32" using assms(2) by linarith
  ultimately show ?thesis by (simp add: mempool_aligned_def)
qed

section \<open>Properties\<close>

text \<open>
  C8: when \<open>hosted_mempool_create\<close> succeeds, the free list of the new pool holds all of its blocks,
  the pool invariant holds, and every block is 4-aligned and lies, with the block size the caller
  asked for, inside the memory that was allocated (or inside the caller's preallocated buffer).
\<close>
theorem mempool_create_sound:
  assumes "hosted_mempool_create (Some cf) new pool malloc st = (Some hm, st', freed)"
    and "0 < cf_num_blocks cf" "cf_num_blocks cf < 2 ^ 16" "0 < cf_align cf"
    and "4 * ((cf_block_size cf + 3) div 4) * cf_num_blocks cf + cf_align cf < 2 ^ 32"
    and "cf_block_size cf + 3 < 2 ^ 32"
  shows "pool_inv pool st' \<and> length (free_list pool st') = cf_num_blocks cf \<and>
    (\<forall>b \<in> set (free_list pool st'). b mod 4 = 0 \<and> hm_heap hm \<le> b \<and>
       b + cf_block_size cf \<le> hm_heap hm +
         (if cf_pre_mem cf \<noteq> 0 then cf_pre_size cf
          else mempool_aligned (mempool_bytes (cf_num_blocks cf) (cf_block_size cf)) (cf_align cf)))"
proof -
  note D = hosted_mempool_create_SomeD [OF assms(1)]
  note I = os_mempool_init_OK [OF D(8)]
  let ?n = "cf_num_blocks cf" and ?bs = "cf_block_size cf"
  have n: "unat (of_nat ?n :: u16) = ?n" and bs: "unat (of_nat ?bs :: u32) = ?bs"
    using assms(3,6) by (simp_all add: unat_of_nat)
  have bytes: "mempool_bytes ?n ?bs = ?n * os_align ?bs"
    using assms(5,6) by (intro mempool_bytes_eq) linarith+
  let ?cap = "if cf_pre_mem cf \<noteq> 0 then cf_pre_size cf
          else mempool_aligned (mempool_bytes ?n ?bs) (cf_align cf)"
  have eq4: "4 * ((?bs + 3) div 4) = os_align ?bs"
    unfolding os_align_def by presburger
  then have "mempool_bytes ?n ?bs + cf_align cf < 2 ^ 32"
    using assms(5) by (simp add: bytes mult.commute)
  then have "mempool_bytes ?n ?bs \<le> mempool_aligned (mempool_bytes ?n ?bs) (cf_align cf)"
    using assms(4) by (intro mempool_aligned_ge)
  then have cap: "?n * os_align ?bs \<le> ?cap"
    using D(7) bytes by simp
  have inv: "pool_inv pool st'" and fl: "free_list pool st' = block_addrs (ll_pool st' pool)"
    using create_pool_inv(1,2) [OF assms(1,2,3)] assms(6) by simp_all
  have "b mod 4 = 0 \<and> hm_heap hm \<le> b \<and> b + ?bs \<le> hm_heap hm + ?cap"
    if bm: "b \<in> set (free_list pool st')" for b
  proof -
    obtain k where k: "k < ?n" "b = hm_heap hm + k * os_align ?bs"
      using bm I(4,5,6) by (auto simp: fl block_addrs_def true_block_size_def n bs)
    have "4 dvd b" using k(2) I(3) D(4) os_align_dvd by (simp add: dvd_eq_mod_eq_0 [symmetric])
    moreover have "Suc k * os_align ?bs \<le> ?n * os_align ?bs"
      using k(1) by (intro mult_le_mono1) simp
    then have "k * os_align ?bs + ?bs \<le> ?n * os_align ?bs"
      using os_align_ge [of ?bs] by simp
    ultimately show ?thesis using k(2) cap by (simp add: dvd_eq_mod_eq_0)
  qed
  then show ?thesis using inv fl I(5) by (simp add: n)
qed

definition demo_cfg :: hosted_mempool_config where
  "demo_cfg = \<lparr>cf_pre_mem = 0, cf_pre_size = 0, cf_num_blocks = 2, cf_block_size = 6,
     cf_align = 64, cf_fns = True\<rparr>"

definition demo_ll :: ll_state where
  "demo_ll = \<lparr>ll_mem = (\<lambda>_. 7),
     ll_pool = (\<lambda>_. \<lparr>mp_block_size = 0, mp_num_blocks = 0, mp_num_free = 0, mp_min_free = 0,
       mp_flags = 0, mp_membuf_addr = 0, mp_first = 0\<rparr>), ll_list = []\<rparr>"

definition demo_hm :: hosted_mempool where
  "demo_hm = \<lparr>hm_pool = 200, hm_heap = 1000, hm_static_heap = False, hm_num_blocks = 2,
     hm_block_size = 6, hm_alignment = 64\<rparr>"

definition demo_ll' :: ll_state where
  "demo_ll' = snd (os_mempool_init 200 2 6 1000 demo_ll)"

lemma demo_create:
  "hosted_mempool_create (Some demo_cfg) 100 200 (\<lambda>_. 1000) demo_ll = (Some demo_hm, demo_ll', [])"
  by (simp add: hosted_mempool_create_def demo_cfg_def demo_hm_def demo_ll'_def Let_def
      os_mempool_init_def os_mempool_init_internal_def)

theorem mempool_create_sound_witness:
  "pool_inv 200 demo_ll' \<and> length (free_list 200 demo_ll') = 2 \<and>
   list_all (\<lambda>b. b mod 4 = 0 \<and> 1000 \<le> b \<and>
      b + 6 \<le> 1000 + mempool_aligned (mempool_bytes 2 6) 64) (free_list 200 demo_ll')"
  using mempool_create_sound [OF demo_create] by (simp add: demo_cfg_def demo_hm_def list_all_iff)

text \<open>
  C3: in every history of a pool made by \<open>hosted_mempool_create\<close> (allocations of any size, with or
  without clearing, frees of held blocks, arbitrary writes into held blocks) no block is held twice;
  a further allocation that fits the block size returns a block of the pool that nobody holds, and
  it returns null only when every block of the pool is held.
\<close>
theorem mempool_exclusive:
  assumes "hosted_mempool_create (Some cf) new pool malloc st0 = (Some hm, st1, freed)"
    and "0 < cf_num_blocks cf" "cf_num_blocks cf < 2 ^ 16" "cf_block_size cf < 2 ^ 32"
    and "mempool_run hm st1 (st, held)"
    and "nbytes \<le> cf_block_size cf" "hosted_mempool_alloc (Some hm) nbytes z st = (b, st')"
  shows "(\<forall>a. count held a \<le> 1) \<and>
    (if b = 0 then set_mset held = pool_blocks pool st1 else b \<in> pool_blocks pool st1 \<and> b \<notin># held)"
proof -
  note D = hosted_mempool_create_SomeD [OF assms(1)]
  note P = create_pool_inv [OF assms(1-4)]
  have "llp.client pool (st1, {#}) (st, held)"
    using mempool_run_client [OF assms(5) P(3)] D(3) by simp
  then have main: "(\<forall>a. count held a \<le> 1) \<and>
    (case ptr_get pool st of (Some b, _) \<Rightarrow> b \<in> pool_blocks pool st1 \<and> b \<notin># held
     | (None, _) \<Rightarrow> set_mset held = pool_blocks pool st1)"
    using P(1,2) by (intro llp.client_no_double_grant) (simp_all add: pool_blocks_def)
  have "b = fst (os_memblock_get pool st)"
    using assms(6,7) D(3,5) by (auto simp: hosted_mempool_alloc_def split: prod.splits if_splits)
  then show ?thesis
    using main by (cases "os_memblock_get pool st") (auto simp: ptr_get_def)
qed

lemma demo_run:
  "mempool_run demo_hm demo_ll' (snd (os_memblock_get 200 demo_ll'), {#1000#})"
proof -
  have "hosted_mempool_alloc (Some demo_hm) 4 False demo_ll' =
      (1000, snd (os_memblock_get 200 demo_ll'))"
    by (simp add: hosted_mempool_alloc_def demo_hm_def demo_ll'_def demo_ll_def os_memblock_get_def
        os_mempool_init_def os_mempool_init_internal_def Let_def)
  from run_alloc [OF run_start this] show ?thesis by simp
qed

theorem mempool_exclusive_witness:
  "(\<forall>a. count {#1000 :: nat#} a \<le> 1) \<and> 1008 \<in> pool_blocks 200 demo_ll' \<and> (1008 :: nat) \<notin># {#1000#}"
proof -
  have "hosted_mempool_alloc (Some demo_hm) 6 False (snd (os_memblock_get 200 demo_ll')) =
      (1008, snd (os_memblock_get 200 (snd (os_memblock_get 200 demo_ll'))))"
    by (simp add: hosted_mempool_alloc_def demo_hm_def demo_ll'_def demo_ll_def os_memblock_get_def
        os_mempool_init_def os_mempool_init_internal_def Let_def true_block_size_def os_align_def)
  from mempool_exclusive [OF demo_create _ _ _ demo_run _ this] show ?thesis
    by (simp add: demo_cfg_def)
qed

text \<open>
  A failed \<open>hosted_mempool_create\<close> leaks nothing and frees nothing twice: it gives back to
  \<open>free\<close> exactly the non-null results of the allocations it made, never the caller's preallocated
  buffer, and leaves the allocator's state unchanged.
\<close>
lemma mempool_create_failure:
  "case hosted_mempool_create (Some cf) new pool malloc st of
     (Some hm, st', freed) \<Rightarrow> freed = []
   | (None, st', freed) \<Rightarrow> st' = st \<and> freed = filter (\<lambda>a. a \<noteq> 0)
       (if \<not> cf_fns cf then [] else if new = 0 then [] else if pool = 0 then [new]
        else [new, pool] @ (if cf_pre_mem cf = 0 then
          [malloc (mempool_aligned (mempool_bytes (cf_num_blocks cf) (cf_block_size cf)) (cf_align cf))]
          else []))"
  by (simp add: hosted_mempool_create_def Let_def os_mempool_init_def os_mempool_init_internal_def)

end
