(* ===== verification/Osal_Queue.thy ===== *)
theory Osal_Queue
  imports Hosted_Prelude "HOL-Library.Signed_Division"
begin

text \<open>
  The message queue of the JL operating-system port (\<open>src/host/port/jl/h_osal.c\<close>): a ring buffer of
  fixed-size items guarded by a mutex, with a counting semaphore for the receivers.

  \<open>fifo_queue\<close> is the contract the rest of the host relies on through the \<open>h_queue_*\<close> functions; the
  client theorem (first in, first out, nothing lost or duplicated) is proved there once and
  interpreted on the ring buffer. The blocking primitives of the operating system are outside the
  sources: their return values, the clock and what other tasks do to the queue while a sender waits
  are arguments of the definitions.
\<close>

section \<open>The contract\<close>

datatype 'a queue_op = Send 'a | Recv | Reset

locale fifo_queue =
  fixes enq :: "'a \<Rightarrow> 'q \<Rightarrow> h_err \<times> 'q"
    and deq :: "'q \<Rightarrow> h_err \<times> 'a option \<times> 'q"
    and reset :: "'q \<Rightarrow> 'q"
    and items :: "'q \<Rightarrow> 'a list"
    and cap :: "'q \<Rightarrow> nat"
    and item_ok :: "'q \<Rightarrow> 'a \<Rightarrow> bool"
    and inv :: "'q \<Rightarrow> bool"
  assumes items_bound: "inv q \<Longrightarrow> length (items q) \<le> cap q"
    and enq_ok: "inv q \<Longrightarrow> item_ok q x \<Longrightarrow> length (items q) < cap q \<Longrightarrow>
      \<exists>q'. enq x q = (H_OK, q') \<and> inv q' \<and> items q' = items q @ [x] \<and> cap q' = cap q \<and>
        item_ok q' = item_ok q"
    and enq_full: "inv q \<Longrightarrow> length (items q) = cap q \<Longrightarrow> enq x q = (H_ERR_TIMEOUT, q)"
    and deq_ok: "inv q \<Longrightarrow> items q = x # xs \<Longrightarrow>
      \<exists>q'. deq q = (H_OK, Some x, q') \<and> inv q' \<and> items q' = xs \<and> cap q' = cap q \<and>
        item_ok q' = item_ok q"
    and deq_empty: "inv q \<Longrightarrow> items q = [] \<Longrightarrow> deq q = (H_ERR_TIMEOUT, None, q)"
    and reset_ok: "inv q \<Longrightarrow> inv (reset q) \<and> items (reset q) = [] \<and> cap (reset q) = cap q \<and>
        item_ok (reset q) = item_ok q"
begin

text \<open>
  A run accumulates the accepted items (since the last reset) and the received ones; the
  specification is a bounded list.
\<close>

fun run :: "'a queue_op list \<Rightarrow> 'q \<times> 'a list \<times> 'a list \<Rightarrow> 'q \<times> 'a list \<times> 'a list" where
  "run [] c = c"
| "run (Send x # ops) (q, sent, got) =
     (case enq x q of (e, q') \<Rightarrow> run ops (q', if e = H_OK then sent @ [x] else sent, got))"
| "run (Recv # ops) (q, sent, got) =
     (case deq q of (e, r, q') \<Rightarrow> run ops (q', sent, case r of None \<Rightarrow> got | Some x \<Rightarrow> got @ [x]))"
| "run (Reset # ops) (q, sent, got) = run ops (reset q, got, got)"

lemma enq_cases:
  assumes "inv q" "item_ok q x" "enq x q = (e, q')"
  shows "inv q' \<and> cap q' = cap q \<and> item_ok q' = item_ok q \<and>
    (if e = H_OK then items q' = items q @ [x] else e = H_ERR_TIMEOUT \<and> q' = q)"
proof (cases "length (items q) < cap q")
  case True
  then show ?thesis using enq_ok [OF assms(1,2)] assms(3) by auto
next
  case False
  then have "length (items q) = cap q" using items_bound [OF assms(1)] by simp
  then show ?thesis using enq_full [OF assms(1)] assms by simp
qed

lemma deq_cases:
  assumes "inv q" "deq q = (e, r, q')"
  shows "inv q' \<and> cap q' = cap q \<and> item_ok q' = item_ok q \<and>
    items q = (case r of None \<Rightarrow> [] | Some x \<Rightarrow> [x]) @ items q' \<and> (e = H_OK \<longleftrightarrow> r \<noteq> None)"
  using deq_ok [OF assms(1)] deq_empty [OF assms(1)] assms
  by (cases "items q") auto

lemma run_fifo:
  assumes "run ops (q, got @ items q, got) = (q', sent', got')" "inv q"
    and "\<And>x. Send x \<in> set ops \<Longrightarrow> item_ok q x"
  shows "inv q' \<and> sent' = got' @ items q' \<and> cap q' = cap q"
  using assms
proof (induction ops arbitrary: q got)
  case Nil
  then show ?case by auto
next
  case (Cons op ops)
  show ?case
  proof (cases op)
    case (Send x)
    obtain e q1 where e: "enq x q = (e, q1)" by fastforce
    have ok: "item_ok q x" using Cons.prems Send by simp
    note c = enq_cases [OF Cons.prems(2) ok e]
    have "run ops (q1, got @ items q1, got) = (q', sent', got')"
      using Cons.prems(1) Send e c by (auto split: if_splits)
    moreover have "item_ok q1 y" if "Send y \<in> set ops" for y
      using Cons.prems(3) [of y] that c by simp
    ultimately show ?thesis using Cons.IH [of q1 got] c by simp
  next
    case Recv
    obtain e r q1 where d: "deq q = (e, r, q1)" by (metis prod_cases3)
    note c = deq_cases [OF Cons.prems(2) d]
    let ?got = "case r of None \<Rightarrow> got | Some x \<Rightarrow> got @ [x]"
    have "run ops (q1, ?got @ items q1, ?got) = (q', sent', got')"
      using Cons.prems(1) Recv d c by (cases r) auto
    moreover have "item_ok q1 y" if "Send y \<in> set ops" for y
      using Cons.prems(3) [of y] that c by simp
    ultimately show ?thesis using Cons.IH [of q1 ?got] c by simp
  next
    case Reset
    have "run ops (reset q, got @ items (reset q), got) = (q', sent', got')"
      using Cons.prems(1,2) Reset by (simp add: reset_ok)
    moreover have "item_ok (reset q) y" if "Send y \<in> set ops" for y
      using Cons.prems(2,3) that by (simp add: reset_ok)
    ultimately show ?thesis using Cons.IH [of "reset q" got] Cons.prems(2) reset_ok [of q] by simp
  qed
qed

end

section \<open>The ring buffer\<close>

text \<open>
  \<open>q_sem\<close> is the count of the semaphore. The counters are \<open>uint32_t\<close>: the size product of
  \<open>malloc\<close> and the decrement of \<open>count\<close> wrap, the other expressions stay below the capacity.
\<close>

record jl_queue =
  q_buf :: bytes
  q_item_size :: nat
  q_capacity :: nat
  q_head :: nat
  q_tail :: nat
  q_count :: nat
  q_sem :: nat

text \<open>
  \<open>jl_ms_to_ticks\<close>; \<open>tps\<close> is \<open>OS_TICKS_PER_SEC\<close> of the operating system. The product is an \<open>int32_t\<close> and wraps around;
  the division truncates.
\<close>

definition jl_ms_to_ticks :: "int \<Rightarrow> int \<Rightarrow> int" where
  "jl_ms_to_ticks tps timeout_ms =
     (if timeout_ms < 0 then 0 else if timeout_ms = 0 then 1 else sint (word_of_int (timeout_ms * tps + 999) :: u32) sdiv 1000)"

text \<open>
  \<open>m1\<close> and \<open>m2\<close>: the two allocations succeed (\<open>m2\<close> sees the requested size); \<open>os\<close>: the mutex and the
  semaphore are created. The initial contents of the buffer are \<open>fill\<close>.
\<close>

definition jl_queue_create ::
  "bool \<Rightarrow> (nat \<Rightarrow> bool) \<Rightarrow> bool \<Rightarrow> u8 \<Rightarrow> nat \<Rightarrow> nat \<Rightarrow> bool \<Rightarrow> h_err \<times> jl_queue option" where
  "jl_queue_create m1 m2 os fill count item_size out =
     (if \<not> out \<or> count = 0 \<or> item_size = 0 then (H_ERR_INVALID_ARG, None)
      else if \<not> m1 then (H_ERR_NO_MEM, None)
      else if \<not> m2 ((count * item_size) mod 2 ^ 32) then (H_ERR_NO_MEM, None)
      else if \<not> os then (H_FAIL, None)
      else (H_OK, Some \<lparr>q_buf = replicate ((count * item_size) mod 2 ^ 32) fill,
              q_item_size = item_size, q_capacity = count,
              q_head = 0, q_tail = 0, q_count = 0, q_sem = 0\<rparr>))"

definition slot :: "jl_queue \<Rightarrow> nat \<Rightarrow> bytes" where
  "slot q i = take (q_item_size q) (drop (i * q_item_size q) (q_buf q))"

definition put_slot :: "jl_queue \<Rightarrow> nat \<Rightarrow> bytes \<Rightarrow> bytes" where
  "put_slot q i item = take (i * q_item_size q) (q_buf q) @ take (q_item_size q) item @
     drop (i * q_item_size q + q_item_size q) (q_buf q)"

text \<open>The critical section of \<open>jl_queue_send\<close> once there is room, with the semaphore post.\<close>

definition jl_queue_push :: "bytes \<Rightarrow> jl_queue \<Rightarrow> jl_queue" where
  "jl_queue_push item q = q\<lparr>q_buf := put_slot q (q_tail q) item,
     q_tail := (q_tail q + 1) mod q_capacity q, q_count := q_count q + 1, q_sem := q_sem q + 1\<rparr>"

text \<open>
  The loop of \<open>jl_queue_send\<close>. Each element of the third argument is one iteration: the result of
  \<open>os_mutex_pend\<close>, what the other tasks did to the queue since the previous iteration, and the
  clock read after it. \<open>None\<close>: still waiting when the given iterations are used up.
\<close>

fun jl_queue_send_loop ::
  "int \<Rightarrow> int \<Rightarrow> u32 \<Rightarrow> (int \<times> (jl_queue \<Rightarrow> jl_queue) \<times> u32) list \<Rightarrow> bytes \<Rightarrow> jl_queue \<Rightarrow>
   (h_err \<times> jl_queue) option" where
  "jl_queue_send_loop tps timeout_ms start_ms [] item q = None"
| "jl_queue_send_loop tps timeout_ms start_ms ((ret, others, now) # its) item q =
     (let q = others q in
      if ret \<noteq> 0 then
        Some (if jl_ms_to_ticks tps timeout_ms = 1 then H_ERR_TIMEOUT else H_FAIL, q)
      else if q_count q < q_capacity q then Some (H_OK, jl_queue_push item q)
      else if timeout_ms = 0 then Some (H_ERR_TIMEOUT, q)
      else if timeout_ms > 0 \<and> now - start_ms \<ge> of_int timeout_ms then Some (H_ERR_TIMEOUT, q)
      else jl_queue_send_loop tps timeout_ms start_ms its item q)"

definition jl_queue_send ::
  "int \<Rightarrow> int \<Rightarrow> u32 \<Rightarrow> (int \<times> (jl_queue \<Rightarrow> jl_queue) \<times> u32) list \<Rightarrow> bytes option \<Rightarrow> jl_queue option \<Rightarrow>
   (h_err \<times> jl_queue option) option" where
  "jl_queue_send tps timeout_ms start_ms its item q =
     (case (q, item) of
        (Some jq, Some it) \<Rightarrow>
          map_option (map_prod id Some) (jl_queue_send_loop tps timeout_ms start_ms its it jq)
      | _ \<Rightarrow> Some (H_ERR_INVALID_ARG, q))"

text \<open>
  \<open>jl_queue_recv\<close> takes the semaphore first and the mutex second; another task may run between the
  two, so they are two steps. \<open>os_sem_pend\<close> returns non-zero when it timed out; it can return zero
  only when the count is positive.
\<close>

definition jl_queue_recv_pend :: "jl_queue \<Rightarrow> int \<times> jl_queue" where
  "jl_queue_recv_pend q = (if q_sem q = 0 then (1, q) else (0, q\<lparr>q_sem := q_sem q - 1\<rparr>))"

definition jl_queue_recv_take :: "int \<Rightarrow> jl_queue \<Rightarrow> h_err \<times> bytes option \<times> jl_queue" where
  "jl_queue_recv_take ret q =
     (if ret \<noteq> 0 then (H_FAIL, None, q\<lparr>q_sem := q_sem q + 1\<rparr>)
      else (H_OK, Some (slot q (q_head q)),
            q\<lparr>q_head := (q_head q + 1) mod q_capacity q,
              q_count := (q_count q + 2 ^ 32 - 1) mod 2 ^ 32\<rparr>))"

definition jl_queue_recv ::
  "int \<Rightarrow> int \<Rightarrow> (jl_queue \<Rightarrow> jl_queue) \<Rightarrow> int \<Rightarrow> bool \<Rightarrow> jl_queue option \<Rightarrow>
   h_err \<times> bytes option \<times> jl_queue option" where
  "jl_queue_recv tps timeout_ms others mret item q =
     (case q of None \<Rightarrow> (H_ERR_INVALID_ARG, None, q)
      | Some jq \<Rightarrow>
          if \<not> item then (H_ERR_INVALID_ARG, None, q)
          else (case jl_queue_recv_pend jq of (ret, jq1) \<Rightarrow>
            if ret \<noteq> 0 then
              (if jl_ms_to_ticks tps timeout_ms = 1 then H_ERR_TIMEOUT else H_FAIL, None, Some jq1)
            else (case jl_queue_recv_take mret (others jq1) of (e, r, jq2) \<Rightarrow> (e, r, Some jq2))))"

definition jl_queue_msg_waiting :: "jl_queue option \<Rightarrow> nat" where
  "jl_queue_msg_waiting q = (case q of None \<Rightarrow> 0 | Some jq \<Rightarrow> q_count jq)"

definition jl_queue_reset :: "jl_queue option \<Rightarrow> h_err \<times> jl_queue option" where
  "jl_queue_reset q =
     (case q of None \<Rightarrow> (H_ERR_INVALID_ARG, None)
      | Some jq \<Rightarrow> (H_OK, Some (jq\<lparr>q_head := 0, q_tail := 0, q_count := 0, q_sem := 0\<rparr>)))"

section \<open>Invariant and abstraction\<close>

definition queue_items :: "jl_queue \<Rightarrow> bytes list" where
  "queue_items q = map (\<lambda>k. slot q ((q_head q + k) mod q_capacity q)) [0..<q_count q]"

definition queue_inv :: "jl_queue \<Rightarrow> bool" where
  "queue_inv q = (0 < q_capacity q \<and> 0 < q_item_size q \<and> q_capacity q < 2 ^ 32 \<and>
     length (q_buf q) = q_capacity q * q_item_size q \<and> q_head q < q_capacity q \<and>
     q_count q \<le> q_capacity q \<and> q_tail q = (q_head q + q_count q) mod q_capacity q \<and>
     q_sem q = q_count q)"

text \<open>The operations with a zero timeout and nobody interfering, as the contract sees them.\<close>

definition ring_enq :: "bytes \<Rightarrow> jl_queue \<Rightarrow> h_err \<times> jl_queue" where
  "ring_enq item q = (case jl_queue_send_loop 100 0 0 [(0, id, 0)] item q of
     Some r \<Rightarrow> r | None \<Rightarrow> (H_FAIL, q))"

definition ring_deq :: "jl_queue \<Rightarrow> h_err \<times> bytes option \<times> jl_queue" where
  "ring_deq q = (case jl_queue_recv 100 0 id 0 True (Some q) of (e, r, q') \<Rightarrow>
     (e, r, case q' of Some jq \<Rightarrow> jq | None \<Rightarrow> q))"

definition ring_reset :: "jl_queue \<Rightarrow> jl_queue" where
  "ring_reset q = (case snd (jl_queue_reset (Some q)) of Some jq \<Rightarrow> jq | None \<Rightarrow> q)"

definition ring_item_ok :: "jl_queue \<Rightarrow> bytes \<Rightarrow> bool" where
  "ring_item_ok q x = (length x = q_item_size q)"

section \<open>Lemmas\<close>

lemma slot_bound: "i < c \<Longrightarrow> i * s + s \<le> c * (s :: nat)"
  using mult_le_mono1 [of "Suc i" c s] by simp

lemma slot_put_slot:
  assumes "length (q_buf q) = q_capacity q * q_item_size q" "i < q_capacity q" "j < q_capacity q"
    "length x = q_item_size q"
  shows "take (q_item_size q) (drop (i * q_item_size q) (put_slot q j x)) =
     (if i = j then x else slot q i)"
proof -
  let ?s = "q_item_size q" and ?b = "q_buf q"
  have li: "i * ?s + ?s \<le> length ?b" and lj: "j * ?s + ?s \<le> length ?b"
    using slot_bound assms by simp_all
  have tj: "length (take (j * ?s) ?b) = j * ?s" using lj by simp
  consider "i = j" | "i < j" | "j < i" by linarith
  then show ?thesis
  proof cases
    case 1
    then show ?thesis using tj assms(4) by (simp add: put_slot_def)
  next
    case 2
    then have le: "i * ?s + ?s \<le> j * ?s" using slot_bound by blast
    then show ?thesis
      using 2 tj take_drop_append1 [of "i * ?s" ?s "take (j * ?s) ?b"]
        take_drop_take [of "i * ?s" ?s "j * ?s" ?b]
      by (simp add: put_slot_def slot_def)
  next
    case 3
    then have le: "j * ?s + ?s \<le> i * ?s" using slot_bound by blast
    then have "drop (i * ?s) (put_slot q j x) = drop (i * ?s) ?b"
      using tj assms(4) lj 3 by (simp add: put_slot_def)
    then show ?thesis using 3 by (simp add: slot_def)
  qed
qed

lemma length_put_slot:
  assumes "length (q_buf q) = q_capacity q * q_item_size q" "j < q_capacity q"
    "length x = q_item_size q"
  shows "length (put_slot q j x) = length (q_buf q)"
  using slot_bound [OF assms(2), of "q_item_size q"] assms by (simp add: put_slot_def)

lemma mod_shift_inj:
  assumes "(h + k) mod c = (h + n) mod c" "k < n" "n < (c :: nat)"
  shows False
proof -
  have "c dvd (h + n) - (h + k)"
    using assms(1,2) by (intro mod_eq_dvd_iff_nat [THEN iffD1]) auto
  then show False using assms(2,3) by (simp add: nat_dvd_not_less)
qed

lemma queue_push_correct:
  assumes "queue_inv q" "q_count q < q_capacity q" "length x = q_item_size q"
  shows "queue_inv (jl_queue_push x q) \<and> queue_items (jl_queue_push x q) = queue_items q @ [x]"
proof -
  let ?q = "jl_queue_push x q" and ?c = "q_capacity q" and ?n = "q_count q"
  have inv: "0 < ?c" "length (q_buf q) = ?c * q_item_size q" "q_tail q = (q_head q + ?n) mod ?c"
    using assms(1) by (simp_all add: queue_inv_def)
  then have t: "q_tail q < ?c" by simp
  have sl: "slot ?q i = (if i = q_tail q then x else slot q i)" if "i < ?c" for i
    using slot_put_slot [OF inv(2) that t assms(3)] by (simp add: slot_def jl_queue_push_def)
  have "slot ?q ((q_head q + k) mod ?c) = slot q ((q_head q + k) mod ?c)" if "k < ?n" for k
    using sl [of "(q_head q + k) mod ?c"] inv that assms(2)
      mod_shift_inj [of "q_head q" k ?c ?n] by auto
  then have "queue_items ?q = queue_items q @ [x]"
    using sl [of "q_tail q"] t inv(3) by (simp add: queue_items_def jl_queue_push_def)
  moreover have "queue_inv ?q"
    using assms length_put_slot [OF inv(2) t assms(3)] inv(3)
    by (simp add: queue_inv_def jl_queue_push_def mod_Suc_eq)
  ultimately show ?thesis by simp
qed

lemma queue_take_correct:
  assumes "queue_inv q" "queue_items q = x # xs"
  shows "\<exists>q'. ring_deq q = (H_OK, Some x, q') \<and> queue_inv q' \<and> queue_items q' = xs \<and>
    q_capacity q' = q_capacity q \<and> q_item_size q' = q_item_size q"
proof -
  have inv: "0 < q_capacity q" "q_head q < q_capacity q" "q_count q \<le> q_capacity q"
    "q_capacity q < 2 ^ 32" "q_tail q = (q_head q + q_count q) mod q_capacity q" "q_sem q = q_count q"
    using assms(1) by (simp_all add: queue_inv_def)
  obtain n where n: "q_count q = Suc n"
    using assms(2) by (cases "q_count q") (auto simp: queue_items_def)
  define q' where "q' = q\<lparr>q_sem := n, q_head := (q_head q + 1) mod q_capacity q, q_count := n\<rparr>"
  have sl: "slot q' = slot q" by (simp add: slot_def q'_def fun_eq_iff)
  have its: "queue_items q = slot q (q_head q) # queue_items q'"
    unfolding queue_items_def n map_upt_Suc
    using inv(2) by (simp add: sl) (simp add: q'_def mod_simps)
  have "(q_count q + 2 ^ 32 - 1) mod 2 ^ 32 = n"
    using n inv(3,4) by simp
  then have "ring_deq q = (H_OK, Some (slot q (q_head q)), q')"
    using inv(6) n
    by (simp add: ring_deq_def jl_queue_recv_def jl_queue_recv_pend_def jl_queue_recv_take_def
        q'_def slot_def)
  moreover have "queue_inv q'"
    using assms(1) n inv(5) by (simp add: queue_inv_def q'_def mod_simps)
  ultimately show ?thesis
    using its assms(2) by (auto simp: q'_def)
qed

interpretation ring: fifo_queue ring_enq ring_deq ring_reset queue_items q_capacity ring_item_ok queue_inv
proof (standard, goal_cases)
  case (1 q)
  then show ?case by (simp add: queue_items_def queue_inv_def)
next
  case (2 q x)
  then have "q_count q < q_capacity q" by (simp add: queue_items_def)
  moreover have "ring_enq x q = (H_OK, jl_queue_push x q)"
    using calculation by (simp add: ring_enq_def)
  ultimately show ?case
    using queue_push_correct [of q x] 2
    by (simp add: ring_item_ok_def fun_eq_iff) (simp add: jl_queue_push_def)
next
  case (3 q x)
  then show ?case by (simp add: ring_enq_def queue_items_def)
next
  case (4 q x xs)
  then show ?case
    using queue_take_correct [of q x xs] by (auto simp: ring_item_ok_def fun_eq_iff)
next
  case (5 q)
  then have "q_sem q = 0" by (simp add: queue_items_def queue_inv_def)
  then show ?case
    by (simp add: ring_deq_def jl_queue_recv_def jl_queue_recv_pend_def jl_ms_to_ticks_def)
next
  case (6 q)
  then show ?case
    by (simp add: ring_reset_def jl_queue_reset_def queue_inv_def queue_items_def ring_item_ok_def
        fun_eq_iff)
qed

section \<open>Properties\<close>

text \<open>
  C4: the ring buffer is a bounded FIFO. From a queue made by \<open>jl_queue_create\<close>, after any sequence
  of non-blocking sends of items of the right size, receives and resets, the items accepted since
  the last reset are exactly those already received followed by those still in the ring, in order,
  and the ring's invariant holds.
\<close>
theorem jl_queue_fifo:
  assumes "jl_queue_create m1 m2 os fill count item_size out = (H_OK, Some q)"
    and "count * item_size < 2 ^ 32"
    and "\<forall>x. Send x \<in> set ops \<longrightarrow> length x = item_size"
    and "ring.run ops (q, [], []) = (q', sent, got)"
  shows "sent = got @ queue_items q' \<and> length (queue_items q') \<le> count \<and> queue_inv q'"
proof -
  have q: "queue_inv q" "queue_items q = []" "q_capacity q = count" "q_item_size q = item_size"
    using assms(1,2)
    by (auto simp: jl_queue_create_def queue_inv_def queue_items_def split: if_splits)
      (metis One_nat_def Suc_leI le_trans linorder_not_less mult.right_neutral mult_le_mono2)
  have "queue_inv q' \<and> sent = got @ queue_items q' \<and> q_capacity q' = q_capacity q"
    by (rule ring.run_fifo [of ops q "[]"]) (use q assms(3,4) in \<open>auto simp: ring_item_ok_def\<close>)
  then show ?thesis using ring.items_bound [of q'] q(3) by simp
qed

theorem jl_queue_fifo_witness:
  "\<exists>q' sent got.
     ring.run [Send [1, 2], Send [3, 4], Recv, Send [5, 6], Send [7, 8]]
       (the (snd (jl_queue_create True (\<lambda>_. True) True 0 2 2 True)), [], []) = (q', sent, got) \<and>
     sent = [[1, 2], [3, 4], [5, 6]] \<and> got = [[1, 2]] \<and> sent = got @ queue_items q'"
proof -
  let ?ops = "[Send [1, 2], Send [3, 4], Recv, Send [5, 6], Send [7, 8 :: u8]]"
  let ?q = "the (snd (jl_queue_create True (\<lambda>_. True) True 0 2 2 True))"
  have c: "jl_queue_create True (\<lambda>_. True) True 0 2 2 True = (H_OK, Some ?q)"
    by (simp add: jl_queue_create_def)
  obtain q' sent got where r: "ring.run ?ops (?q, [], []) = (q', sent, got)"
    by (metis prod_cases3)
  have "sent = got @ queue_items q'"
    using jl_queue_fifo [OF c _ _ r] by auto
  moreover have "sent = [[1, 2], [3, 4], [5, 6]] \<and> got = [[1, 2]]"
    using r by (simp add: jl_queue_create_def ring_enq_def ring_deq_def jl_queue_push_def
        jl_queue_recv_def jl_queue_recv_pend_def jl_queue_recv_take_def put_slot_def slot_def)
  ultimately show ?thesis using r by blast
qed

text \<open>
  C9: a sender with a non-negative timeout does not wait for ever. Once the clock of some iteration
  shows that the timeout has elapsed, \<open>jl_queue_send\<close> has returned, whatever the other tasks did to
  the ring meanwhile (as long as they keep its invariant), and it leaves a well-formed ring: with
  the item appended when the result is \<open>H_OK\<close>.
\<close>
theorem jl_queue_send_returns:
  assumes "0 \<le> timeout_ms" "of_int timeout_ms \<le> now - start_ms"
    and "\<forall>q. queue_inv q \<longrightarrow> (\<forall>it \<in> set (its @ [(ret, others, now)]).
       queue_inv (fst (snd it) q) \<and> q_item_size (fst (snd it) q) = q_item_size q)"
    and "queue_inv q" "length item = q_item_size q"
  shows "\<exists>e q'. jl_queue_send_loop tps timeout_ms start_ms (its @ [(ret, others, now)]) item q = Some (e, q') \<and>
    queue_inv q' \<and> e \<in> {H_OK, H_ERR_TIMEOUT, H_FAIL} \<and>
    (e = H_OK \<longrightarrow> (\<exists>q0. queue_inv q0 \<and> queue_items q' = queue_items q0 @ [item]))"
  using assms
proof (induction its arbitrary: q)
  case Nil
  then have "queue_inv (others q)" "q_item_size (others q) = q_item_size q" by auto
  then show ?case
    using Nil.prems queue_push_correct [of "others q" item]
    by (auto simp: Let_def)
next
  case (Cons it its)
  obtain r oth n where it: "it = (r, oth, n)" by (metis prod_cases3)
  have o: "queue_inv (oth q)" "q_item_size (oth q) = q_item_size q"
    using Cons.prems(3,4) it by auto
  have "\<exists>e q'. jl_queue_send_loop tps timeout_ms start_ms (its @ [(ret, others, now)]) item (oth q) = Some (e, q') \<and>
    queue_inv q' \<and> e \<in> {H_OK, H_ERR_TIMEOUT, H_FAIL} \<and>
    (e = H_OK \<longrightarrow> (\<exists>q0. queue_inv q0 \<and> queue_items q' = queue_items q0 @ [item]))"
    using Cons.IH [of "oth q"] Cons.prems o by simp
  then show ?case
    using o Cons.prems(5) queue_push_correct [of "oth q" item] by (auto simp: it Let_def)
qed

definition demo_ring :: jl_queue where
  "demo_ring = \<lparr>q_buf = [9, 9], q_item_size = 2, q_capacity = 1, q_head = 0, q_tail = 0,
     q_count = 1, q_sem = 1\<rparr>"

theorem jl_queue_send_returns_witness:
  "jl_queue_send_loop 100 5 0 ([(0, id, 3)] @ [(0, id, 5)]) [1, 2] demo_ring = Some (H_ERR_TIMEOUT, demo_ring)"
proof -
  have "\<exists>e q'. jl_queue_send_loop 100 5 0 ([(0, id, 3)] @ [(0, id, 5)]) [1, 2] demo_ring = Some (e, q') \<and>
    queue_inv q' \<and> e \<in> {H_OK, H_ERR_TIMEOUT, H_FAIL} \<and>
    (e = H_OK \<longrightarrow> (\<exists>q0. queue_inv q0 \<and> queue_items q' = queue_items q0 @ [[1, 2]]))"
    by (rule jl_queue_send_returns) (auto simp: demo_ring_def queue_inv_def)
  then show ?thesis by (simp add: demo_ring_def Let_def)
qed

text \<open>
  \<open>jl_queue_recv\<close> takes the semaphore before the mutex, and \<open>jl_queue_reset\<close> can run in between.
  The receiver then returns \<open>H_OK\<close> with an item of the reset queue and leaves the unsigned counter at
  \<open>2 ^ 32 - 1\<close>, so that the ring's invariant is lost and every later send reports a full queue.
\<close>

lemma jl_queue_reset_race:
  assumes "queue_inv q" "0 < q_count q"
  shows "\<exists>q'. jl_queue_recv tps timeout_ms ring_reset 0 True (Some q) = (H_OK, Some (slot q 0), Some q') \<and>
    q_count q' = 2 ^ 32 - 1 \<and> \<not> queue_inv q' \<and>
    jl_queue_send_loop tps 0 start_ms [(0, id, now)] item q' = Some (H_ERR_TIMEOUT, q')"
proof -
  have "0 < q_sem q" "q_capacity q \<le> 2 ^ 32 - 1"
    using assms by (simp_all add: queue_inv_def)
  then show ?thesis
    by (simp add: jl_queue_recv_def jl_queue_recv_pend_def jl_queue_recv_take_def ring_reset_def
        jl_queue_reset_def slot_def queue_inv_def)
qed

end
