(* ===== verification/Osal_Timer.thy ===== *)
theory Osal_Timer
  imports Hosted_Prelude "HOL-Library.Monad_Syntax"
begin

text \<open>
  The timers of the JL operating-system port (\<open>src/host/port/jl/h_osal.c\<close>): a wrapper object whose
  state decides who frees it, the caller of \<open>jl_timer_stop\<close> or the expiry wrapper.

  The world of one timer handle is its wrapper object, whether that object is still allocated, how
  often it was freed, and the system timers armed for it, each with its kind: periodic ones are deleted with
  \<open>sys_timer_del\<close>, one-shot ones with \<open>sys_timeout_del\<close> (\<open>sys_timer_add\<close> and \<open>sys_timeout_add\<close> are
  outside the sources; the identifier they return is an argument). Every access to the wrapper after
  it was freed is undefined behaviour and makes the operation \<open>None\<close>.
\<close>

section \<open>State\<close>

datatype jl_timer_state =
  JL_TIMER_IDLE | JL_TIMER_ARMED | JL_TIMER_IN_CALLBACK | JL_TIMER_DEFER_FREE | JL_TIMER_STOPPED

record jl_timer =
  tm_cb :: bool
  tm_id :: nat
  tm_periodic :: bool
  tm_period_ms :: nat
  tm_state :: jl_timer_state

record timer_world =
  tw_timer :: jl_timer
  tw_alive :: bool
  tw_frees :: nat
  tw_sys :: "(bool \<times> nat) set"

text \<open>What a user callback may do with its own timer.\<close>

datatype timer_call =
    Call_Start nat nat bool
  | Call_Stop
  | Call_Delete

section \<open>Operations\<close>


definition jl_timer_stop_sys :: "timer_world \<Rightarrow> timer_world option" where
  "jl_timer_stop_sys w =
     (if \<not> tw_alive w then None
      else if tm_id (tw_timer w) = 0 then Some w
      else Some (w\<lparr>tw_sys := tw_sys w - {(tm_periodic (tw_timer w), tm_id (tw_timer w))}, tw_timer := (tw_timer w)\<lparr>tm_id := 0\<rparr>\<rparr>))"

definition jl_timer_free :: "timer_world \<Rightarrow> timer_world option" where
  "jl_timer_free w = (if \<not> tw_alive w then None else Some (w\<lparr>tw_alive := False, tw_frees := tw_frees w + 1\<rparr>))"

definition set_state :: "jl_timer_state \<Rightarrow> timer_world \<Rightarrow> timer_world option" where
  "set_state s w = (if \<not> tw_alive w then None else Some (w\<lparr>tw_timer := (tw_timer w)\<lparr>tm_state := s\<rparr>\<rparr>))"

definition jl_timer_release :: "timer_world \<Rightarrow> timer_world option" where
  "jl_timer_release w =
     (if \<not> tw_alive w then None
      else case tm_state (tw_timer w) of
        JL_TIMER_DEFER_FREE \<Rightarrow> jl_timer_free w
      | JL_TIMER_STOPPED \<Rightarrow> jl_timer_free w
      | JL_TIMER_IN_CALLBACK \<Rightarrow>
          if \<not> tm_periodic (tw_timer w) then set_state JL_TIMER_STOPPED w \<bind> jl_timer_free
          else set_state JL_TIMER_ARMED w
      | _ \<Rightarrow> Some w)"

text \<open>\<open>tid\<close> is what \<open>sys_timer_add\<close> or \<open>sys_timeout_add\<close> returns, \<open>0\<close> on failure.\<close>

definition jl_timer_start ::
  "nat \<Rightarrow> nat \<Rightarrow> bool \<Rightarrow> bool \<Rightarrow> timer_world \<Rightarrow> (h_err \<times> timer_world) option" where
  "jl_timer_start tid period_ms periodic cb w =
     (if \<not> cb \<or> period_ms = 0 then Some (H_ERR_INVALID_ARG, w)
      else if \<not> tw_alive w then None
      else do {
        w1 \<leftarrow> (if tm_state (tw_timer w) = JL_TIMER_ARMED then jl_timer_stop_sys w else Some w);
        let w2 = w1\<lparr>tw_timer := \<lparr>tm_cb = cb, tm_id = tid, tm_periodic = periodic,
                      tm_period_ms = period_ms, tm_state = JL_TIMER_ARMED\<rparr>\<rparr>;
        if tid = 0 then Some (H_FAIL, w2\<lparr>tw_timer := (tw_timer w2)\<lparr>tm_state := JL_TIMER_IDLE\<rparr>\<rparr>)
        else Some (H_OK, w2\<lparr>tw_sys := insert (periodic, tid) (tw_sys w2)\<rparr>)
      })"

definition jl_timer_stop :: "timer_world \<Rightarrow> (h_err \<times> timer_world) option" where
  "jl_timer_stop w =
     (if \<not> tw_alive w then None
      else map_option (Pair H_OK) (case tm_state (tw_timer w) of
        JL_TIMER_IDLE \<Rightarrow> jl_timer_free w
      | JL_TIMER_STOPPED \<Rightarrow> Some w
      | JL_TIMER_IN_CALLBACK \<Rightarrow> jl_timer_stop_sys w \<bind> set_state JL_TIMER_DEFER_FREE
      | JL_TIMER_ARMED \<Rightarrow> jl_timer_stop_sys w \<bind> set_state JL_TIMER_STOPPED \<bind> jl_timer_free
      | JL_TIMER_DEFER_FREE \<Rightarrow> Some w))"

definition jl_timer_delete :: "timer_world \<Rightarrow> (h_err \<times> timer_world) option" where
  "jl_timer_delete w = jl_timer_stop w"

text \<open>The user callback: a script of calls on its own handle.\<close>

primrec do_call :: "timer_call \<Rightarrow> timer_world \<Rightarrow> timer_world option" where
  "do_call (Call_Start tid p per) w = map_option snd (jl_timer_start tid p per True w)"
| "do_call Call_Stop w = map_option snd (jl_timer_stop w)"
| "do_call Call_Delete w = map_option snd (jl_timer_delete w)"

primrec user_cb :: "timer_call list \<Rightarrow> timer_world \<Rightarrow> timer_world option" where
  "user_cb [] w = Some w"
| "user_cb (c # cs) w = do_call c w \<bind> user_cb cs"

definition jl_timer_wrapper :: "timer_call list \<Rightarrow> timer_world \<Rightarrow> timer_world option" where
  "jl_timer_wrapper script w = do {
     w1 \<leftarrow> set_state JL_TIMER_IN_CALLBACK w;
     w2 \<leftarrow> (if tm_cb (tw_timer w1) then user_cb script w1 else Some w1);
     jl_timer_release w2
   }"

text \<open>
  The system timer expires: a one-shot system timer is consumed, a periodic one stays armed, and the
  wrapper runs.
\<close>

definition timer_fire :: "timer_call list \<Rightarrow> timer_world \<Rightarrow> timer_world option" where
  "timer_fire script w =
     jl_timer_wrapper script
       (if tm_periodic (tw_timer w) then w else w\<lparr>tw_sys := tw_sys w - {(False, tm_id (tw_timer w))}\<rparr>)"


section \<open>Lifecycle\<close>


text \<open>
  Between operations a live wrapper is idle with no system timer, or armed with exactly its own; a
  freed one has no system timer that could still fire into it, and was freed once.
\<close>

definition timer_inv :: "timer_world \<Rightarrow> bool" where
  "timer_inv w =
     (if tw_alive w then tw_frees w = 0 \<and>
        (case tm_state (tw_timer w) of
           JL_TIMER_IDLE \<Rightarrow> tm_id (tw_timer w) = 0 \<and> tw_sys w = {}
         | JL_TIMER_ARMED \<Rightarrow> tm_id (tw_timer w) \<noteq> 0 \<and> tw_sys w = {(tm_periodic (tw_timer w), tm_id (tw_timer w))} \<and> tm_cb (tw_timer w)
         | _ \<Rightarrow> False)
      else tw_frees w = 1 \<and> tw_sys w = {})"

lemmas timer_ops = jl_timer_stop_sys_def jl_timer_free_def set_state_def









section \<open>Properties\<close>





text \<open>
  A callback that restarts its own timer and then stops it frees the wrapper while the expiry
  wrapper is still running: \<open>jl_timer_stop\<close> sees the state \<open>ARMED\<close>, frees at once, and
  \<open>jl_timer_release\<close> then reads the freed object.
\<close>
lemma timer_restart_stop_uaf:
  assumes "timer_inv w" "tw_alive w" "tm_state (tw_timer w) = JL_TIMER_ARMED" "tid \<noteq> 0" "p \<noteq> 0"
  shows "timer_fire [Call_Start tid p per, Call_Stop] w = None"
  using assms
  by (auto simp: timer_inv_def timer_fire_def jl_timer_wrapper_def jl_timer_start_def jl_timer_stop_def
      jl_timer_release_def timer_ops Let_def)

end
