(* ===== verification/Serial_Tlv.thy ===== *)
theory Serial_Tlv
  imports Hosted_Prelude "HOL-Library.Monad_Syntax"
begin

text \<open>
  The TLV framing of the control channel: an endpoint-name element followed by a data element, each
  with a type octet and a 16-bit little-endian length.

  Host side: \<open>serial_compose_tlv\<close> and \<open>h_serial_if_send\<close> (\<open>src/host/core/src/h_serial_if.c\<close>),
  \<open>parse_tlv\<close> (\<open>src/host/drivers/virtual_serial_if/serial_if.c\<close>). Slave side: \<open>parse_tlv\<close>,
  \<open>compose_tlv\<close> and \<open>rpc_req_handler\<close> (\<open>src/slave/main/protocomm_pserial.c\<close>).

  Every read and write of a buffer is bounds checked in the model: an access outside the object is
  \<open>None\<close>. The locale \<open>message_codec\<close> is the contract between the two ends; it is interpreted on both
  directions.
\<close>

section \<open>Memory access\<close>

definition peek :: "bytes \<Rightarrow> nat \<Rightarrow> u8 option" where
  "peek buf i = (if i < length buf then Some (buf ! i) else None)"

text \<open>\<open>memcpy (&buf[i], data, n)\<close>.\<close>

definition poke :: "nat \<Rightarrow> bytes \<Rightarrow> bytes \<Rightarrow> bytes option" where
  "poke i data buf =
     (if i + length data \<le> length buf then Some (take i buf @ data @ drop (i + length data) buf)
      else None)"

text \<open>The first \<open>n\<close> octets at offset \<open>i\<close>.\<close>

definition mem_slice :: "bytes \<Rightarrow> nat \<Rightarrow> nat \<Rightarrow> bytes option" where
  "mem_slice buf i n = (if i + n \<le> length buf then Some (take n (drop i buf)) else None)"

section \<open>Constants\<close>

text \<open>\<open>RPC_EP_NAME_RSP\<close> is \<open>RPCRsp\<close>, \<open>RPC_EP_NAME_EVT\<close> is \<open>RPCEvt\<close>.\<close>

definition ep_rsp :: bytes where
  "ep_rsp = [0x52, 0x50, 0x43, 0x52, 0x73, 0x70]"

definition ep_evt :: bytes where
  "ep_evt = [0x52, 0x50, 0x43, 0x45, 0x76, 0x74]"

abbreviation (input) TLV_T_EPNAME :: u8 where "TLV_T_EPNAME \<equiv> 1"
abbreviation (input) TLV_T_DATA :: u8 where "TLV_T_DATA \<equiv> 2"

section \<open>Host: compose\<close>

text \<open>The copy loop of the endpoint name; \<open>count\<close> is a \<open>uint16_t\<close>.\<close>

fun copy_ep :: "bytes \<Rightarrow> bytes \<times> u16 \<Rightarrow> (bytes \<times> u16) option" where
  "copy_ep [] (buf, count) = Some (buf, count)"
| "copy_ep (c # cs) (buf, count) = do { buf \<leftarrow> poke (unat count) [c] buf; copy_ep cs (buf, count + 1) }"

definition serial_compose_tlv :: "bytes \<Rightarrow> bytes \<Rightarrow> u16 \<Rightarrow> (bytes \<times> u16) option" where
  "serial_compose_tlv buf data data_length = do {
     let ep_length = (of_nat (length ep_rsp) :: u16);
     buf \<leftarrow> poke 0 [TLV_T_EPNAME] buf;
     buf \<leftarrow> poke 1 [lo8 ep_length] buf;
     buf \<leftarrow> poke 2 [hi8 ep_length] buf;
     (buf, count) \<leftarrow> copy_ep ep_rsp (buf, 3);
     buf \<leftarrow> poke (unat count) [TLV_T_DATA] buf;
     buf \<leftarrow> poke (unat (count + 1)) [lo8 data_length] buf;
     buf \<leftarrow> poke (unat (count + 2)) [hi8 data_length] buf;
     d \<leftarrow> mem_slice data 0 (unat data_length);
     buf \<leftarrow> poke (unat (count + 3)) d buf;
     Some (buf, count + 3 + data_length)
   }"

text \<open>
  \<open>h_serial_if_send\<close>. \<open>ready\<close>: \<open>g_serial_handle\<close> is non-null; \<open>mem\<close>: \<open>h_calloc\<close> succeeds;
  \<open>drv_write buf count s\<close> is \<open>h_control_serial_drv_write\<close> on the state \<open>s\<close> and returns the error and
  \<open>out_count\<close>. Ownership of the buffer passes to \<open>drv_write\<close>. \<open>buf_len\<close> is a \<open>uint16_t\<close>: the sum wraps.
\<close>

definition h_serial_if_send ::
  "bool \<Rightarrow> bool \<Rightarrow> (bytes \<Rightarrow> nat \<Rightarrow> 's \<Rightarrow> (h_err \<times> nat \<times> 's) option) \<Rightarrow> bytes option \<Rightarrow> u16 \<Rightarrow> 's \<Rightarrow>
   (h_err \<times> 's) option" where
  "h_serial_if_send ready mem drv_write data len s =
     (case data of None \<Rightarrow> Some (H_ERR_INVALID_ARG, s)
      | Some d \<Rightarrow>
        if len = 0 \<or> \<not> ready then Some (H_ERR_INVALID_ARG, s)
        else
          let buf_len = (1 + 2 + of_nat (length ep_rsp) + 1 + 2 + len :: u16) in
          if \<not> mem then Some (H_ERR_NO_MEM, s)
          else do {
            (buf, count) \<leftarrow> serial_compose_tlv (replicate (unat buf_len) 0) d len;
            if count = 0 then Some (H_FAIL, s)
            else do {
              (e, out_count, s) \<leftarrow> drv_write buf (unat count) s;
              if e \<noteq> H_OK then Some (H_FAIL, s)
              else if out_count \<noteq> unat count then Some (H_FAIL, s)
              else Some (H_OK, s)
            }
          })"

section \<open>Host: parse\<close>

text \<open>
  \<open>strncmp (s, ep, strlen (ep)) == 0\<close> for a name without null characters: octets are read until the
  first difference.
\<close>

fun strn_eq :: "bytes \<Rightarrow> bytes \<Rightarrow> bool option" where
  "strn_eq s [] = Some True"
| "strn_eq [] (e # es) = None"
| "strn_eq (c # s) (e # es) = (if c = e then strn_eq s es else Some False)"

text \<open>\<open>Some (Some n)\<close>: \<open>SUCCESS\<close> with \<open>*pro_len = n\<close>; \<open>Some None\<close>: \<open>FAILURE\<close>.\<close>

definition parse_tlv :: "bytes \<Rightarrow> u16 option option" where
  "parse_tlv data = do {
     t \<leftarrow> peek data 0;
     if t \<noteq> TLV_T_EPNAME then Some None
     else do {
       l \<leftarrow> peek data 1;
       h \<leftarrow> peek data 2;
       if unat (le16 l h) \<noteq> length ep_rsp then Some None
       else do {
         e1 \<leftarrow> strn_eq (drop 3 data) ep_rsp;
         ok \<leftarrow> (if e1 then Some True else strn_eq (drop 3 data) ep_evt);
         if \<not> ok then Some None
         else do {
           t \<leftarrow> peek data (3 + length ep_rsp);
           if t \<noteq> TLV_T_DATA then Some None
           else do {
             l \<leftarrow> peek data (4 + length ep_rsp);
             h \<leftarrow> peek data (5 + length ep_rsp);
             Some (Some (le16 l h))
           }
         }
       }
     }
   }"

section \<open>Slave: parse\<close>

datatype esp_err = ESP_OK | ESP_FAIL | ESP_ERR_NO_MEM | ESP_ERR_INVALID_ARG | ESP_ERR_OTHER int

text \<open>
  One element: \<open>b\<close> is the offset of \<open>*buf\<close> in the object, \<open>total_len\<close> a \<open>size_t\<close> whose decrement wraps.
  The result is type, length, offset of the value, and the new \<open>*buf\<close> and \<open>*total_len\<close>; \<open>Some None\<close> is
  \<open>ESP_FAIL\<close>.
\<close>

definition slave_parse_tlv ::
  "bytes \<Rightarrow> nat \<Rightarrow> u32 \<Rightarrow> (u8 \<times> nat \<times> nat \<times> nat \<times> u32) option option" where
  "slave_parse_tlv buf b total_len =
     (if total_len = 0 then Some None
      else do {
        t \<leftarrow> peek buf b;
        l \<leftarrow> peek buf (b + 1);
        h \<leftarrow> peek buf (b + 2);
        let len = unat (le16 l h);
        Some (Some (t, len, b + 3, b + 1 + 2 + len, total_len - of_nat (len + 1 + 2)))
      })"

abbreviation (input) EPNAME_MAX :: nat where "EPNAME_MAX \<equiv> 16"

text \<open>
  The loop of \<open>rpc_req_handler\<close>; the accumulator is the \<open>epname\<close> array and the data pointer (offset
  and length). The offset grows with every element and reads are inside the object, so the loop
  ends.
\<close>

function tlv_loop :: "bytes \<Rightarrow> nat \<Rightarrow> u32 \<Rightarrow> bytes \<times> (nat \<times> nat) option \<Rightarrow>
    (esp_err + bytes \<times> (nat \<times> nat) option) option" where
  "tlv_loop buf b total_len (epname, data) =
     (case slave_parse_tlv buf b total_len of
        None \<Rightarrow> None
      | Some None \<Rightarrow> Some (Inr (epname, data))
      | Some (Some (t, len, ptr, b', total_len')) \<Rightarrow>
          if t = TLV_T_EPNAME then
            (if len \<ge> EPNAME_MAX - 1 then Some (Inl ESP_FAIL)
             else (case mem_slice buf ptr len of None \<Rightarrow> None
               | Some name \<Rightarrow> (case poke 0 name epname of None \<Rightarrow> None
                   | Some epname' \<Rightarrow> tlv_loop buf b' total_len' (epname', data))))
          else if t = TLV_T_DATA then tlv_loop buf b' total_len' (epname, Some (ptr, len))
          else Some (Inl ESP_FAIL))"
  by pat_completeness auto
termination
  by (relation "measure (\<lambda>(buf, b, tl, acc). length buf - b)")
    (auto simp: slave_parse_tlv_def peek_def Let_def split: if_splits bind_splits)

declare tlv_loop.simps [simp del]

definition c_string :: "bytes \<Rightarrow> bytes" where
  "c_string a = takeWhile (\<lambda>c. c \<noteq> 0) a"

text \<open>What \<open>rpc_req_handler\<close> hands to \<open>protocomm_req_handle\<close>: endpoint name and data.\<close>

definition rpc_req_decode :: "bytes \<Rightarrow> u32 \<Rightarrow> (esp_err + bytes \<times> bytes) option" where
  "rpc_req_decode inp in_len = do {
     r \<leftarrow> tlv_loop inp 0 in_len (replicate EPNAME_MAX 0, None);
     case r of
       Inl e \<Rightarrow> Some (Inl e)
     | Inr (epname, data) \<Rightarrow>
         (case data of None \<Rightarrow> Some (Inl ESP_FAIL)
          | Some (ptr, len) \<Rightarrow>
              if len = 0 \<or> c_string epname = [] then Some (Inl ESP_FAIL)
              else map_option (\<lambda>d. Inr (c_string epname, d)) (mem_slice inp ptr len))
   }"

section \<open>Slave: compose and request handler\<close>

text \<open>
  \<open>compose_tlv\<close>: the length field keeps the low 16 bits of \<open>*outlen\<close>. \<open>mem\<close>: \<open>calloc\<close> succeeds. On
  success \<open>*out\<close> is freed and replaced; on failure it is left as it is.
\<close>

definition slave_compose_tlv :: "bool \<Rightarrow> bytes \<Rightarrow> bytes \<Rightarrow> (esp_err \<times> bytes) option" where
  "slave_compose_tlv mem epname out =
     (if \<not> mem then Some (ESP_FAIL, out)
      else do {
        let ep_len = (of_nat (length epname) :: u16);
        let outlen = length out;
        let buf_len = (of_nat (1 + 2 + unat ep_len + 1 + 2 + outlen) :: u32);
        let buf = replicate (unat buf_len) 0;
        buf \<leftarrow> poke 0 [TLV_T_EPNAME] buf;
        buf \<leftarrow> poke 1 [lo8 ep_len] buf;
        buf \<leftarrow> poke 2 [hi8 ep_len] buf;
        buf \<leftarrow> poke 3 epname buf;
        let len = (3 + of_nat (length epname) :: u16);
        buf \<leftarrow> poke (unat len) [TLV_T_DATA] buf;
        buf \<leftarrow> poke (unat (len + 1)) [lo8 (of_nat outlen)] buf;
        buf \<leftarrow> poke (unat (len + 2)) [hi8 (of_nat outlen)] buf;
        buf \<leftarrow> poke (unat (len + 3)) out buf;
        Some (ESP_OK, buf)
      })"

text \<open>
  \<open>rpc_req_handler\<close> and \<open>rpc_evt_handler\<close>. \<open>req_handle\<close> is \<open>protocomm_req_handle\<close> (endpoint, session,
  data), \<open>xmit\<close> the transmit function; both are outside this file and act on the state \<open>'s\<close>.
\<close>

definition rpc_reply ::
  "bool \<Rightarrow> bytes \<Rightarrow> (bytes \<Rightarrow> 's \<Rightarrow> esp_err \<times> 's) \<Rightarrow> esp_err \<times> bytes \<times> 's \<Rightarrow> (esp_err \<times> 's) option" where
  "rpc_reply mem ep xmit r =
     (case r of (ret, out, s) \<Rightarrow>
        if ret \<noteq> ESP_OK then Some (ESP_FAIL, s)
        else do {
          (ret, out) \<leftarrow> slave_compose_tlv mem ep out;
          if ret \<noteq> ESP_OK then Some (ESP_FAIL, s)
          else (case xmit out s of (ret, s) \<Rightarrow> Some (if ret \<noteq> ESP_OK then ESP_FAIL else ESP_OK, s))
        })"

definition rpc_req_handler ::
  "bool \<Rightarrow> (bytes \<Rightarrow> int \<Rightarrow> bytes \<Rightarrow> 's \<Rightarrow> esp_err \<times> bytes \<times> 's) \<Rightarrow> (bytes \<Rightarrow> 's \<Rightarrow> esp_err \<times> 's) \<Rightarrow>
   bytes \<Rightarrow> u32 \<Rightarrow> 's \<Rightarrow> (esp_err \<times> 's) option" where
  "rpc_req_handler mem req_handle xmit inp in_len s = do {
     r \<leftarrow> rpc_req_decode inp in_len;
     case r of
       Inl e \<Rightarrow> Some (e, s)
     | Inr (ep, d) \<Rightarrow> rpc_reply mem ep_rsp xmit (req_handle ep 0 d s)
   }"

definition rpc_evt_handler ::
  "bool \<Rightarrow> (bytes \<Rightarrow> int \<Rightarrow> bytes \<Rightarrow> 's \<Rightarrow> esp_err \<times> bytes \<times> 's) \<Rightarrow> (bytes \<Rightarrow> 's \<Rightarrow> esp_err \<times> 's) \<Rightarrow>
   bytes \<Rightarrow> int \<Rightarrow> 's \<Rightarrow> (esp_err \<times> 's) option" where
  "rpc_evt_handler mem req_handle xmit inp msg_id s =
     rpc_reply mem ep_evt xmit (req_handle ep_evt msg_id inp s)"

section \<open>Lemmas\<close>

text \<open>The image of a message: what both composers produce.\<close>

definition tlv_image :: "bytes \<Rightarrow> bytes \<Rightarrow> bytes" where
  "tlv_image ep d = TLV_T_EPNAME # lo8 (of_nat (length ep)) # hi8 (of_nat (length ep)) # ep @
     TLV_T_DATA # lo8 (of_nat (length d)) # hi8 (of_nat (length d)) # d"

lemma length_ep [simp]: "length ep_rsp = 6" "length ep_evt = 6"
  by (simp_all add: ep_rsp_def ep_evt_def)

lemma length_tlv_image [simp]: "length (tlv_image ep d) = 6 + length ep + length d"
  by (simp add: tlv_image_def)

text \<open>A buffer whose first octets \<open>P\<close> have been written.\<close>

definition filled :: "bytes \<Rightarrow> bytes \<Rightarrow> bytes" where
  "filled buf P = P @ drop (length P) buf"

lemma filled_Nil: "filled buf [] = buf"
  by (simp add: filled_def)

lemma filled_all: "length P = length buf \<Longrightarrow> filled buf P = P"
  by (simp add: filled_def)

lemma poke_filled:
  "i = length P \<Longrightarrow> length P + length d \<le> length buf \<Longrightarrow>
   poke i d (filled buf P) = Some (filled buf (P @ d))"
  by (simp add: poke_def filled_def add.commute)

lemma copy_ep_filled:
  "unat count = length P \<Longrightarrow> length P + length ep \<le> length buf \<Longrightarrow> length P + length ep < 65536 \<Longrightarrow>
   copy_ep ep (filled buf P, count) = Some (filled buf (P @ ep), count + of_nat (length ep))"
proof (induction ep arbitrary: P count)
  case (Cons c cs)
  have "unat (count + 1) = length (P @ [c])"
    using Cons.prems by (simp add: unat_word_ariths)
  then show ?case
    using Cons.prems Cons.IH [of "count + 1" "P @ [c]"]
    by (simp add: poke_filled add.assoc)
qed simp

lemma mem_slice_all: "mem_slice xs 0 (length xs) = Some xs"
  by (simp add: mem_slice_def)

lemma serial_compose_tlv_image:
  assumes "length d < 65524" "length buf = 12 + length d"
  shows "serial_compose_tlv buf d (of_nat (length d)) =
    Some (tlv_image ep_rsp d, of_nat (12 + length d))"
proof -
  have u: "unat (of_nat (length d) :: u16) = length d" using assms by (simp add: unat_of_nat_u16)
  have "serial_compose_tlv (filled buf []) d (of_nat (length d)) =
    Some (filled buf (tlv_image ep_rsp d), of_nat (12 + length d))"
    using assms u
    by (simp add: serial_compose_tlv_def poke_filled copy_ep_filled mem_slice_all tlv_image_def)
  then show ?thesis using assms by (simp add: filled_Nil filled_all)
qed

lemma slave_compose_tlv_image:
  assumes "length ep < 16" "length d < 2 ^ 32 - 22"
  shows "slave_compose_tlv True ep d = Some (ESP_OK, tlv_image ep d)"
proof -
  let ?buf = "replicate (6 + length ep + length d) (0 :: u8)"
  have ue: "unat (of_nat (length ep) :: u16) = length ep"
    "unat (3 + of_nat (length ep) :: u16) = 3 + length ep"
    "unat (3 + of_nat (length ep) + 1 :: u16) = 4 + length ep"
    "unat (3 + of_nat (length ep) + 2 :: u16) = 5 + length ep"
    "unat (3 + of_nat (length ep) + 3 :: u16) = 6 + length ep"
    using assms by (simp_all add: unat_of_nat_u16 unat_word_ariths)
  have ub: "unat (of_nat (1 + 2 + length ep + 1 + 2 + length d) :: u32) = 6 + length ep + length d"
    using assms by (simp only: unat_of_nat) simp
  have "slave_compose_tlv True ep d =
    Some (ESP_OK, filled ?buf (tlv_image ep d))"
    unfolding slave_compose_tlv_def Let_def ue ub
    by (subst (2) filled_Nil [symmetric])
      (simp add: poke_filled tlv_image_def)
  then show ?thesis by (simp add: filled_all)
qed

lemma peek_simps [simp]:
  "peek (x # xs) 0 = Some x" "peek (x # xs) (Suc n) = peek xs n" "peek [] n = None"
  by (simp_all add: peek_def)

lemma peek_append: "peek (xs @ ys) n = (if n < length xs then Some (xs ! n) else peek ys (n - length xs))"
  by (auto simp: peek_def nth_append)

lemma peek_None: "length xs \<le> n \<Longrightarrow> peek xs n = None"
  by (simp add: peek_def)

lemma strn_eq_refl: "strn_eq (ep @ r) ep = Some True"
  by (induction ep) auto

lemma strn_eq_rsp_evt: "strn_eq (ep_evt @ r) ep_rsp = Some False"
  by (simp add: ep_evt_def ep_rsp_def)

lemma parse_tlv_image:
  assumes "ep = ep_rsp \<or> ep = ep_evt" "length d < 65536" "12 \<le> n"
  shows "parse_tlv (take n (tlv_image ep d)) = Some (Some (of_nat (length d)))"
proof -
  have l: "length ep = 6" using assms(1) by auto
  have n: "n = 12 + (n - 12)" using assms(3) by simp
  have "take n (tlv_image ep d) = 1 # lo8 6 # hi8 6 # ep @
      2 # lo8 (of_nat (length d)) # hi8 (of_nat (length d)) # take (n - 12) d"
    by (subst n) (simp add: tlv_image_def l numeral_eq_Suc)
  moreover have "unat (le16 (lo8 6) (hi8 6)) = 6" by simp
  ultimately show ?thesis
    using assms(1) l
    by (auto simp: parse_tlv_def peek_append strn_eq_refl strn_eq_rsp_evt numeral_eq_Suc)
qed

lemma mem_slice_append: "i = length xs \<Longrightarrow> n = length d \<Longrightarrow> mem_slice (xs @ d @ r) i n = Some d"
  by (simp add: mem_slice_def)

lemma slave_parse_at:
  assumes "buf = pre @ t # lo8 l # hi8 l # rest" "b = length pre" "total_len \<noteq> 0"
  shows "slave_parse_tlv buf b total_len =
    Some (Some (t, unat l, b + 3, b + 1 + 2 + unat l, total_len - of_nat (unat l + 1 + 2)))"
  using assms by (simp add: slave_parse_tlv_def peek_append Let_def numeral_2_eq_2)

lemma tlv_loop_name:
  assumes "slave_parse_tlv buf b n = Some (Some (1, len, ptr, b', n'))" "len < 15"
    "mem_slice buf ptr len = Some name" "poke 0 name e = Some e'"
  shows "tlv_loop buf b n (e, dt) = tlv_loop buf b' n' (e', dt)"
  using assms by (subst tlv_loop.simps) simp

lemma tlv_loop_data:
  assumes "slave_parse_tlv buf b n = Some (Some (2, len, ptr, b', n'))"
  shows "tlv_loop buf b n (e, dt) = tlv_loop buf b' n' (e, Some (ptr, len))"
  using assms by (subst tlv_loop.simps) simp

lemma tlv_loop_end: "slave_parse_tlv buf b n = Some None \<Longrightarrow> tlv_loop buf b n (e, dt) = Some (Inr (e, dt))"
  by (subst tlv_loop.simps) simp

lemma tlv_loop_oob: "slave_parse_tlv buf b n = None \<Longrightarrow> tlv_loop buf b n (e, dt) = None"
  by (subst tlv_loop.simps) simp

lemma poke_zero: "length d \<le> length buf \<Longrightarrow> poke 0 d buf = Some (d @ drop (length d) buf)"
  by (simp add: poke_def)

lemma c_string_pad:
  "0 \<notin> set ep \<Longrightarrow> c_string (ep @ replicate n 0) = ep"
  by (auto simp: c_string_def takeWhile_append)

lemma rpc_req_decode_image:
  assumes ep: "ep \<noteq> []" "length ep < 15" "0 \<notin> set ep" and d: "d \<noteq> []" "length d < 65536"
  shows "rpc_req_decode (tlv_image ep d) (of_nat (6 + length ep + length d)) = Some (Inr (ep, d))"
proof -
  let ?buf = "tlv_image ep d" and ?le = "length ep" and ?ld = "length d"
  have ue: "unat (of_nat ?le :: u16) = ?le" and ud: "unat (of_nat ?ld :: u16) = ?ld"
    using ep d by (simp_all add: unat_of_nat_u16)
  have big: "6 + ?le + ?ld < 2 ^ 32" "0 < ?ld" using ep d by auto
  have t0: "(of_nat (6 + ?le + ?ld) :: u32) \<noteq> 0"
    using big by (simp add: word_unat_eq_iff unat_of_nat del: of_nat_add)
  have t1: "(of_nat (3 + ?ld) :: u32) \<noteq> 0"
    using big by (simp add: word_unat_eq_iff unat_of_nat del: of_nat_add)
  have p1: "slave_parse_tlv ?buf 0 (of_nat (6 + ?le + ?ld)) =
      Some (Some (1, ?le, 3, 3 + ?le, of_nat (3 + ?ld)))"
    using slave_parse_at [of ?buf "[]" 1 "of_nat ?le" _ 0, OF _ _ t0] ue
    by (simp add: tlv_image_def algebra_simps)
  have p2: "slave_parse_tlv ?buf (3 + ?le) (of_nat (3 + ?ld)) =
      Some (Some (2, ?ld, 6 + ?le, 6 + ?le + ?ld, 0))"
    using slave_parse_at [of ?buf "1 # lo8 (of_nat ?le) # hi8 (of_nat ?le) # ep" 2 "of_nat ?ld" d
        "3 + ?le", OF _ _ t1] ud
    by (simp add: tlv_image_def algebra_simps)
  have p3: "slave_parse_tlv ?buf b 0 = Some None" for b
    by (simp add: slave_parse_tlv_def)
  have s1: "mem_slice ?buf 3 ?le = Some ep"
    using mem_slice_append [of 3 "[1, lo8 (of_nat ?le), hi8 (of_nat ?le)]" ?le ep] by (simp add: tlv_image_def)
  have s2: "mem_slice ?buf (6 + ?le) ?ld = Some d"
    using mem_slice_append [of "6 + ?le" "1 # lo8 (of_nat ?le) # hi8 (of_nat ?le) # ep @
      [2, lo8 (of_nat ?ld), hi8 (of_nat ?ld)]" ?ld d "[]"] by (simp add: tlv_image_def)
  have "tlv_loop ?buf 0 (of_nat (6 + ?le + ?ld)) (replicate 16 0, None) =
      Some (Inr (ep @ replicate (16 - ?le) 0, Some (6 + ?le, ?ld)))"
    using ep tlv_loop_name [OF p1 ep(2) s1 poke_zero] tlv_loop_data [OF p2] tlv_loop_end [OF p3]
    by (simp only: length_replicate drop_replicate)
  then show ?thesis
    using ep d by (simp add: rpc_req_decode_def c_string_pad s2)
qed

lemma ep_names [simp]:
  "ep_rsp \<noteq> []" "0 \<notin> set ep_rsp" "ep_evt \<noteq> []" "0 \<notin> set ep_evt"
  by (simp_all add: ep_rsp_def ep_evt_def)

section \<open>The contract between the two ends\<close>

locale message_codec =
  fixes encode :: "bytes \<Rightarrow> bytes option"
    and decode :: "bytes \<Rightarrow> bytes option"
    and max_len :: nat
  assumes codec: "m \<noteq> [] \<Longrightarrow> length m \<le> max_len \<Longrightarrow>
    \<exists>b. encode m = Some b \<and> decode b = Some m \<and> length b = length m + 12"
begin

lemma encode_total: "m \<noteq> [] \<Longrightarrow> length m \<le> max_len \<Longrightarrow> encode m \<noteq> None"
  using codec by blast

lemma encode_inj:
  assumes "encode m = encode m'" "m \<noteq> []" "m' \<noteq> []" "length m \<le> max_len" "length m' \<le> max_len"
  shows "m = m'"
  using codec [of m] codec [of m'] assms by auto

lemma decode_encoded:
  assumes "encode m = Some b" "m \<noteq> []" "length m \<le> max_len"
  shows "decode b = Some m" "length b = length m + 12"
  using codec [of m] assms by auto

end

text \<open>Host to slave: \<open>serial_compose_tlv\<close> against the decoding of \<open>rpc_req_handler\<close>.\<close>

definition req_encode :: "bytes \<Rightarrow> bytes option" where
  "req_encode m = map_option fst
     (serial_compose_tlv (replicate (unat (12 + of_nat (length m) :: u16)) 0) m (of_nat (length m)))"

definition req_decode :: "bytes \<Rightarrow> bytes option" where
  "req_decode b = (case rpc_req_decode b (of_nat (length b)) of
     Some (Inr (ep, d)) \<Rightarrow> if ep = ep_rsp then Some d else None | _ \<Rightarrow> None)"

lemma unat_12_add: "n < 65524 \<Longrightarrow> unat (12 + of_nat n :: u16) = 12 + n"
  by (simp add: unat_word_ariths unat_of_nat)

lemma req_encode_image: "length m < 65524 \<Longrightarrow> req_encode m = Some (tlv_image ep_rsp m)"
  by (simp add: req_encode_def unat_12_add serial_compose_tlv_image)

lemma req_decode_image: "m \<noteq> [] \<Longrightarrow> length m < 65536 \<Longrightarrow> req_decode (tlv_image ep_rsp m) = Some m"
  using rpc_req_decode_image [of ep_rsp m] by (simp add: req_decode_def)

interpretation req: message_codec req_encode req_decode 65523
  by unfold_locales (simp add: req_encode_image req_decode_image)

section \<open>Properties\<close>

text \<open>
  A request of 1 to 65523 octets that \<open>h_serial_if_send\<close> accepts is written to the serial driver
  as one TLV buffer of twelve octets more, inside the buffer it allocated, and \<open>rpc_req_handler\<close> on
  the slave, given that buffer, calls the request handler with the endpoint \<open>RPCRsp\<close> and exactly
  those octets.
\<close>
lemma tlv_request_roundtrip:
  assumes "d \<noteq> []" "length d < 65524"
  shows "h_serial_if_send True True drv_write (Some d) (of_nat (length d)) s =
      map_option (\<lambda>(e, out_count, s'). (if e = H_OK \<and> out_count = 12 + length d then H_OK else H_FAIL, s'))
        (drv_write (tlv_image ep_rsp d) (12 + length d) s) \<and>
    rpc_req_handler mem req_handle xmit (tlv_image ep_rsp d) (of_nat (12 + length d)) s' =
      rpc_reply mem ep_rsp xmit (req_handle ep_rsp 0 d s')"
proof -
  have u: "unat (of_nat (length d) :: u16) = length d"
    "unat (of_nat (12 + length d) :: u16) = 12 + length d"
    using assms by (simp_all only: unat_of_nat) simp_all
  have l: "length (replicate (unat (12 + of_nat (length d) :: u16)) (0 :: u8)) = 12 + length d"
    using assms by (simp add: unat_12_add)
  have nz: "(of_nat (length d) :: u16) \<noteq> 0" "(of_nat (12 + length d) :: u16) \<noteq> 0"
    using assms u by auto
  have "h_serial_if_send True True drv_write (Some d) (of_nat (length d)) s =
      map_option (\<lambda>(e, out_count, s'). (if e = H_OK \<and> out_count = 12 + length d then H_OK else H_FAIL, s'))
        (drv_write (tlv_image ep_rsp d) (12 + length d) s)"
    using nz serial_compose_tlv_image [OF assms(2) l] u(2)
    by (cases "drv_write (tlv_image ep_rsp d) (12 + length d) s")
      (auto simp: h_serial_if_send_def Let_def)
  moreover have "rpc_req_handler mem req_handle xmit (tlv_image ep_rsp d) (of_nat (12 + length d)) s' =
      rpc_reply mem ep_rsp xmit (req_handle ep_rsp 0 d s')"
    using rpc_req_decode_image [of ep_rsp d] assms by (simp add: rpc_req_handler_def)
  ultimately show ?thesis by blast
qed

text \<open>
  The slave's element parser trusts the length field. A data element that claims more octets
  than the message holds makes the remaining length underflow, and the next element is read outside
  the received buffer.
\<close>
lemma slave_tlv_overread:
  assumes "length v < unat len"
  shows "rpc_req_decode (2 # lo8 len # hi8 len # v) (of_nat (3 + length v)) = None"
proof -
  let ?buf = "2 # lo8 len # hi8 len # v"
  have lt: "length v < 65536" using assms unat_u16_less [of len] by linarith
  then have t0: "(of_nat (3 + length v) :: u32) \<noteq> 0"
    by (simp add: word_unat_eq_iff unat_of_nat del: of_nat_add)
  have "(of_nat (3 + length v) :: u32) \<noteq> of_nat (unat len + 3)"
    using assms lt unat_u16_less [of len]
    by (simp add: word_unat_eq_iff unat_of_nat del: of_nat_add)
  then have t1: "(of_nat (3 + length v) :: u32) - of_nat (unat len + 1 + 2) \<noteq> 0"
    by (simp add: add.commute)
  have p1: "slave_parse_tlv ?buf 0 (of_nat (3 + length v)) =
      Some (Some (2, unat len, 3, 3 + unat len, of_nat (3 + length v) - of_nat (unat len + 1 + 2)))"
    using slave_parse_at [of ?buf "[]" 2 len v 0, OF _ _ t0] by simp
  have p2: "slave_parse_tlv ?buf (3 + unat len) (of_nat (3 + length v) - of_nat (unat len + 1 + 2)) = None"
    using assms t1 by (simp only: slave_parse_tlv_def if_False) (simp add: peek_None)
  have "tlv_loop ?buf 0 (of_nat (3 + length v)) (e, None) = None" for e
    by (simp only: tlv_loop_data [OF p1] tlv_loop_oob [OF p2])
  then show ?thesis by (simp add: rpc_req_decode_def)
qed

end
