(* ===== verification/Serial_LL.thy ===== *)
theory Serial_LL
  imports Payload_Header Serial_Tlv
begin

unbundle bit_operations_syntax

text \<open>
  The host's serial link: fragmentation (\<open>serial_ll_write\<close>) and reassembly (\<open>serial_ll_rx_handler\<close>) of
  \<open>src/host/drivers/serial/serial_ll_if.c\<close> with the interface table, and the control serial adapter
  of the JL port (\<open>src/host/port/jl/h_control_serial_adapter.c\<close>) with the session functions of
  \<open>src/host/core/src/h_serial_if.c\<close>.

  Heap objects are named by positive numbers; operations report the sequence of objects they free.
  The accumulation buffer \<open>r.data\<close> is null, live (with its contents) or freed; using it once freed
  is \<open>None\<close>. The results of the allocator and of the queue are arguments.

  The locale \<open>fragment_link\<close> is the contract between a fragmenting sender and a reassembling
  receiver; the theorem about message sequences is proved there once and interpreted on both
  directions of the link (here and in the theory of the slave).
\<close>

section \<open>Fragmentation contract\<close>

locale fragment_link =
  fixes fragments :: "bytes \<Rightarrow> 'f list"
    and collect :: "'f \<Rightarrow> 'r \<Rightarrow> 'r"
    and delivered :: "'r \<Rightarrow> bytes list"
    and idle :: "'r \<Rightarrow> bool"
    and max_len :: nat
  assumes message: "idle r \<Longrightarrow> m \<noteq> [] \<Longrightarrow> length m \<le> max_len \<Longrightarrow>
    idle (fold collect (fragments m) r) \<and>
    delivered (fold collect (fragments m) r) = delivered r @ [m]"
begin

lemma message_sequence:
  assumes "idle r" "\<forall>m \<in> set ms. m \<noteq> [] \<and> length m \<le> max_len"
  shows "idle (fold collect (concat (map fragments ms)) r) \<and>
    delivered (fold collect (concat (map fragments ms)) r) = delivered r @ ms"
  using assms
proof (induction ms arbitrary: r)
  case (Cons m ms)
  then show ?case using message [of r m] by simp
qed simp

end

text \<open>
  The reference fragmentation: pieces of at most \<open>n\<close> octets, all but the last flagged with
  \<open>MORE_FRAGMENT\<close>.
\<close>

function frags :: "nat \<Rightarrow> bytes \<Rightarrow> (bytes \<times> bool) list" where
  "frags n m = (if n = 0 \<or> length m \<le> n then [(m, False)] else (take n m, True) # frags n (drop n m))"
  by pat_completeness auto
termination
  by (relation "measure (\<lambda>(n, m). length m)") auto

declare frags.simps [simp del]

lemma frags_short: "length m \<le> n \<Longrightarrow> frags n m = [(m, False)]"
  by (subst frags.simps) simp

lemma frags_long: "0 < n \<Longrightarrow> n < length m \<Longrightarrow> frags n m = (take n m, True) # frags n (drop n m)"
  by (subst frags.simps) simp

lemma frags_induct [consumes 1, case_names short long]:
  assumes "0 < n" "\<And>m. length m \<le> n \<Longrightarrow> P m"
    "\<And>m. 0 < n \<Longrightarrow> n < length m \<Longrightarrow> P (drop n m) \<Longrightarrow> P m"
  shows "P m"
proof (induction m rule: length_induct)
  case (1 m)
  then show ?case using assms by (cases "length m \<le> n") (auto simp: not_le)
qed

lemma frags_concat: "0 < n \<Longrightarrow> concat (map fst (frags n m)) = m"
  by (induction m rule: frags_induct) (simp_all add: frags_short frags_long)

lemma frags_bound: "0 < n \<Longrightarrow> f \<in> set (frags n m) \<Longrightarrow> length (fst f) \<le> n"
  by (induction m rule: frags_induct) (auto simp: frags_short frags_long)

section \<open>State of \<open>serial_ll_if.c\<close>\<close>

datatype serial_ll_state = SL_INIT | SL_ACTIVE | SL_DESTROY

record serial_hdl =
  sh_if_num :: nat
  sh_queue :: "interface_buffer_handle list option"
  sh_state :: serial_ll_state
  sh_cb :: bool
  sh_freed :: bool

datatype rx_ptr = R_Null | R_Live bytes | R_Freed

record serial_ll =
  sl_handle :: "nat \<Rightarrow> serial_hdl option"
  sl_conn_num :: nat
  sl_rlen :: nat
  sl_rdata :: rx_ptr

abbreviation (input) MAX_SERIAL_INTF :: nat where "MAX_SERIAL_INTF \<equiv> 2"
abbreviation (input) MAX_FRAGMENTABLE_PAYLOAD_SIZE :: nat where
  "MAX_FRAGMENTABLE_PAYLOAD_SIZE \<equiv> 8192"

section \<open>Interface table\<close>

text \<open>\<open>serial_ll_init\<close>: \<open>mem\<close> is the result of \<open>h_malloc\<close>. The result is the slot of the new handle.\<close>

definition serial_ll_init :: "bool \<Rightarrow> bool \<Rightarrow> serial_ll \<Rightarrow> nat option \<times> serial_ll" where
  "serial_ll_init mem cb st =
     (if sl_conn_num st + 1 < MAX_SERIAL_INTF then
        (if \<not> mem then (None, st)
         else (Some (sl_conn_num st),
           st\<lparr>sl_handle := (sl_handle st)(sl_conn_num st \<mapsto>
                \<lparr>sh_if_num = sl_conn_num st, sh_queue = None, sh_state = SL_INIT, sh_cb = cb,
                 sh_freed = False\<rparr>),
              sl_conn_num := sl_conn_num st + 1\<rparr>))
      else (None, st))"

definition get_serial_ll_handle :: "nat \<Rightarrow> serial_ll \<Rightarrow> serial_hdl option" where
  "get_serial_ll_handle iface_num st =
     (if iface_num < MAX_SERIAL_INTF then
        (case sl_handle st iface_num of
           Some h \<Rightarrow> if sh_state h = SL_ACTIVE then Some h else None
         | None \<Rightarrow> None)
      else None)"

text \<open>
  \<open>serial_ll_close\<close>: the queue is drained with \<open>free_buf_handle\<close> and deleted, the last connection is
  removed from the table and the handle is freed. The second result lists the freed buffers.
\<close>

definition serial_ll_close :: "nat \<Rightarrow> serial_ll \<Rightarrow> (int \<times> serial_ll \<times> nat list) option" where
  "serial_ll_close k st =
     (case sl_handle st k of
        None \<Rightarrow> None
      | Some h \<Rightarrow>
          if sh_freed h then None
          else
            let freed = (case sh_queue h of None \<Rightarrow> [] | Some q \<Rightarrow>
                           concat (map (\<lambda>b. snd (free_handle b)) q));
                tbl = (sl_handle st)(k \<mapsto> h\<lparr>sh_state := SL_DESTROY, sh_queue := None, sh_freed := True\<rparr>);
                n = sl_conn_num st
            in Some (0,
              (if n > 0 then st\<lparr>sl_conn_num := n - 1, sl_handle := tbl(n - 1 := None)\<rparr>
               else st\<lparr>sl_handle := tbl\<rparr>), freed))"

text \<open>
  \<open>serial_ll_open\<close>: \<open>mem\<close> says whether \<open>h_queue_create\<close> made a queue. When it did not, the handle of an interface that
  was open keeps the pointer to its deleted queue, which the next test reads: \<open>None\<close>.
\<close>

definition serial_ll_open :: "bool \<Rightarrow> nat option \<Rightarrow> serial_ll \<Rightarrow> (int \<times> serial_ll \<times> nat list) option" where
  "serial_ll_open mem hdl st =
     (case hdl of None \<Rightarrow> Some (-1, st, [])
      | Some k \<Rightarrow>
        (case sl_handle st k of None \<Rightarrow> None
         | Some h \<Rightarrow>
             if sh_freed h then None
             else if \<not> mem then
               if sh_queue h \<noteq> None then None
               else map_option (\<lambda>(_, st', fr). (-1, st', fr))
                 (serial_ll_close k st)
             else Some (0, st\<lparr>sl_handle := (sl_handle st)(k \<mapsto> h\<lparr>sh_queue := Some [], sh_state := SL_ACTIVE\<rparr>)\<rparr>, [])))"

section \<open>Transmit\<close>

text \<open>
  The loop of \<open>serial_ll_write\<close>. \<open>tx frag flags last s\<close> is \<open>h_transmit\<close>: \<open>last\<close> says that the call
  carries \<open>buf_to_free\<close>. \<open>max_payload\<close> is \<open>MAX_PAYLOAD_SIZE\<close>. The second result says whether the
  loop itself freed \<open>wbuffer\<close>.
\<close>

function serial_ll_write_loop ::
  "nat \<Rightarrow> (bytes \<Rightarrow> u8 \<Rightarrow> bool \<Rightarrow> 's \<Rightarrow> h_err \<times> 's) \<Rightarrow> bytes \<Rightarrow> nat \<Rightarrow> nat \<Rightarrow> 's \<Rightarrow> h_err \<times> bool \<times> 's" where
  "serial_ll_write_loop max_payload tx wbuffer offset remaining_len s =
     (if 0 < remaining_len \<and> 0 < max_payload then
        let frag_len = (if remaining_len > max_payload then max_payload else remaining_len);
            more = (remaining_len > max_payload);
            flags = (if more then MORE_FRAGMENT else 0)
        in (case tx (take frag_len (drop offset wbuffer)) flags (\<not> more) s of
          (ret, s') \<Rightarrow>
            if ret \<noteq> H_OK then (ret, more, s')
            else serial_ll_write_loop max_payload tx wbuffer (offset + frag_len) (remaining_len - frag_len) s')
      else (H_OK, False, s))"
  by pat_completeness auto
termination
  by (relation "measure (\<lambda>(mp, tx, w, off, rem, s). rem)") auto

declare serial_ll_write_loop.simps [simp del]

definition serial_ll_write ::
  "nat \<Rightarrow> (bytes \<Rightarrow> u8 \<Rightarrow> bool \<Rightarrow> 's \<Rightarrow> h_err \<times> 's) \<Rightarrow> serial_hdl option \<Rightarrow> bytes option \<Rightarrow> u16 \<Rightarrow> 's \<Rightarrow>
   h_err \<times> bool \<times> 's" where
  "serial_ll_write max_payload tx hdl wbuffer wlen s =
     (if (case hdl of None \<Rightarrow> True | Some h \<Rightarrow> sh_state h \<noteq> SL_ACTIVE) then (H_FAIL, wbuffer \<noteq> None, s)
      else case wbuffer of
        None \<Rightarrow> (H_FAIL, False, s)
      | Some w \<Rightarrow>
          if wlen = 0 then (H_FAIL, True, s)
          else if unat wlen > MAX_FRAGMENTABLE_PAYLOAD_SIZE then (H_FAIL, True, s)
          else serial_ll_write_loop max_payload tx w 0 (unat wlen) s)"

section \<open>Receive\<close>

text \<open>\<open>SERIAL_ALLOC_REALLOC_RDATA\<close> and the copy behind it: \<open>None\<close> undefined, \<open>Some None\<close> no memory.\<close>

definition rdata_append :: "bool \<Rightarrow> bytes \<Rightarrow> serial_ll \<Rightarrow> serial_ll option option" where
  "rdata_append mem payload st =
     (case sl_rdata st of
        R_Freed \<Rightarrow> None
      | R_Null \<Rightarrow>
          if \<not> mem then Some None
          else if sl_rlen st \<noteq> 0 then None
          else Some (Some (st\<lparr>sl_rdata := R_Live payload, sl_rlen := length payload\<rparr>))
      | R_Live d \<Rightarrow>
          if \<not> mem then Some None
          else Some (Some (st\<lparr>sl_rdata := R_Live (take (sl_rlen st) d @ payload),
                 sl_rlen := sl_rlen st + length payload\<rparr>)))"

text \<open>
  The cleanup labels: \<open>new\<close> is \<open>new_buf_handle\<close>. \<open>h_free (r.data)\<close> does not clear the pointer.
\<close>

definition serial_buff_cleanup ::
  "interface_buffer_handle \<Rightarrow> interface_buffer_handle \<Rightarrow> nat list \<Rightarrow> serial_ll \<Rightarrow>
   (int \<times> interface_buffer_handle \<times> serial_ll \<times> nat list \<times> nat) option" where
  "serial_buff_cleanup h new fr st =
     (case free_handle h of (h', f1) \<Rightarrow>
      case free_handle new of (_, f2) \<Rightarrow>
      case sl_rdata st of
        R_Freed \<Rightarrow> None
      | R_Null \<Rightarrow> Some (-1, h', st\<lparr>sl_rlen := 0\<rparr>, fr @ f1 @ f2, 0)
      | R_Live _ \<Rightarrow> Some (-1, h', st\<lparr>sl_rlen := 0, sl_rdata := R_Freed\<rparr>, fr @ f1 @ f2, 0))"

text \<open>
  \<open>serial_ll_rx_handler\<close>. \<open>mem\<close>: the (re)allocation of \<open>r.data\<close> succeeds; \<open>serial_buf\<close>: the new
  buffer, \<open>0\<close> when \<open>h_malloc\<close> fails; \<open>qok\<close>: \<open>h_queue_send\<close> succeeds. The result is the return value,
  the caller's descriptor as the handler leaves it, the state, the freed objects and the number of
  calls of \<open>serial_rx_callback\<close>.
\<close>

definition serial_ll_rx_handler ::
  "bool \<Rightarrow> nat \<Rightarrow> bool \<Rightarrow> interface_buffer_handle option \<Rightarrow> serial_ll \<Rightarrow>
   (int \<times> interface_buffer_handle \<times> serial_ll \<times> nat list \<times> nat) option" where
  "serial_ll_rx_handler mem serial_buf qok buf_handle st =
     (case buf_handle of None \<Rightarrow> None
      | Some h \<Rightarrow>
        if bh_payload_len h = 0 then serial_buff_cleanup h zero_handle [] st
        else (case get_serial_ll_handle (unat (bh_if_num h)) st of
          None \<Rightarrow> serial_buff_cleanup h zero_handle [] st
        | Some hdl \<Rightarrow>
          (case bh_payload h of None \<Rightarrow> None
           | Some p \<Rightarrow>
             (case rdata_append mem (take (unat (bh_payload_len h)) p) st of
                None \<Rightarrow> None
              | Some None \<Rightarrow> serial_buff_cleanup h zero_handle [] (st\<lparr>sl_rdata := R_Null\<rparr>)
              | Some (Some st1) \<Rightarrow>
                if bh_flag h AND MORE_FRAGMENT \<noteq> 0 then Some (0, h, st1, [], 0)
                else if serial_buf = 0 then serial_buff_cleanup h zero_handle [] st1
                else
                  let data = (case sl_rdata st1 of R_Live d \<Rightarrow> d | _ \<Rightarrow> []);
                      new = zero_handle\<lparr>bh_if_type := if_code ESP_SERIAL_IF, bh_if_num := bh_if_num h,
                              bh_payload_len := of_nat (sl_rlen st1), bh_payload := Some data,
                              bh_priv := serial_buf, bh_free := True\<rparr>;
                      st2 = st1\<lparr>sl_rlen := 0, sl_rdata := R_Null\<rparr>
                  in if \<not> qok then serial_buff_cleanup h new [] st2
                     else
                       let st3 = st2\<lparr>sl_handle := (sl_handle st2)(unat (bh_if_num h) \<mapsto>
                                   hdl\<lparr>sh_queue := map_option (\<lambda>q. q @ [new]) (sh_queue hdl)\<rparr>)\<rparr>
                       in if sh_cb hdl then Some (0, h, st3, [], 1)
                          else serial_buff_cleanup h new [] st3))))"

text \<open>\<open>serial_ll_read\<close>: the head of the queue; an empty queue is a receive that fails.\<close>

definition serial_ll_read :: "nat option \<Rightarrow> serial_ll \<Rightarrow> (bytes \<times> u16) option \<times> serial_ll" where
  "serial_ll_read hdl st =
     (case hdl of None \<Rightarrow> (None, st)
      | Some k \<Rightarrow> (case sl_handle st k of None \<Rightarrow> (None, st)
        | Some h \<Rightarrow>
            if sh_state h \<noteq> SL_ACTIVE then (None, st)
            else (case sh_queue h of
                Some (b # q) \<Rightarrow>
                  (let st' = st\<lparr>sl_handle := (sl_handle st)(k \<mapsto> h\<lparr>sh_queue := Some q\<rparr>)\<rparr> in
                   case bh_payload b of
                     Some p \<Rightarrow> if bh_payload_len b = 0 then (None, st') else (Some (p, bh_payload_len b), st')
                   | None \<Rightarrow> (None, st'))
              | _ \<Rightarrow> (None, st))))"

section \<open>Lemmas: transmit\<close>

lemma write_loop_done: "serial_ll_write_loop mp tx w off 0 s = (H_OK, False, s)"
  by (subst serial_ll_write_loop.simps) simp

lemma write_loop_step:
  assumes "0 < mp" "0 < n"
  shows "serial_ll_write_loop mp tx w off n s =
    (case tx (take (min n mp) (drop off w)) (if n > mp then 1 else 0) (n \<le> mp) s of
       (ret, s') \<Rightarrow> if ret \<noteq> H_OK then (ret, n > mp, s')
         else serial_ll_write_loop mp tx w (off + min n mp) (n - min n mp) s')"
  using assms by (subst serial_ll_write_loop.simps) (auto simp: Let_def min_def not_less split: prod.splits)

text \<open>One call of \<open>h_transmit\<close> for a piece of the reference fragmentation.\<close>

definition tx_piece :: "(bytes \<Rightarrow> u8 \<Rightarrow> bool \<Rightarrow> 's \<Rightarrow> h_err \<times> 's) \<Rightarrow> bytes \<times> bool \<Rightarrow> 's \<Rightarrow> h_err \<times> 's" where
  "tx_piece tx f s = tx (fst f) (if snd f then 1 else 0) (\<not> snd f) s"

lemma write_loop_frags:
  assumes mp: "0 < mp" and ok: "\<And>f fl l s. fst (tx f fl l s) = H_OK" and "m \<noteq> []"
  shows "serial_ll_write_loop mp tx (pre @ m) (length pre) (length m) s =
    (H_OK, False, fold (\<lambda>f s. snd (tx_piece tx f s)) (frags mp m) s)"
  using mp assms(3)
proof (induction m arbitrary: pre s rule: frags_induct)
  case (short m)
  obtain s' where "tx m 0 True s = (H_OK, s')" using ok [of m 0 True s] by (cases "tx m 0 True s") simp
  then show ?case
    using mp short
    by (subst write_loop_step) (simp_all add: write_loop_done frags_short tx_piece_def min_def)
next
  case (long m)
  obtain s' where t: "tx (take mp m) 1 False s = (H_OK, s')"
    using ok [of "take mp m" 1 False s] by (cases "tx (take mp m) 1 False s") simp
  have "serial_ll_write_loop mp tx ((pre @ take mp m) @ drop mp m) (length (pre @ take mp m))
      (length (drop mp m)) s' = (H_OK, False, fold (\<lambda>f s. snd (tx_piece tx f s)) (frags mp (drop mp m)) s')"
    by (rule long.IH) (use long in simp)
  then show ?case
    using mp long t by (subst write_loop_step) (simp_all add: frags_long tx_piece_def min_def)
qed

section \<open>Lemmas: receive\<close>

definition frag_handle :: "nat \<Rightarrow> bytes \<times> bool \<Rightarrow> interface_buffer_handle" where
  "frag_handle buf f = zero_handle\<lparr>bh_priv := buf, bh_free := True, bh_if_type := if_code ESP_SERIAL_IF,
     bh_payload := Some (fst f), bh_payload_len := of_nat (length (fst f)),
     bh_flag := (if snd f then 1 else 0)\<rparr>"

definition rx_frag :: "bytes \<times> bool \<Rightarrow> serial_ll \<Rightarrow> serial_ll" where
  "rx_frag f st = (case serial_ll_rx_handler True 1 True (Some (frag_handle 2 f)) st of
     Some (_, _, st', _, _) \<Rightarrow> st' | None \<Rightarrow> st)"

definition rx_acc :: "bytes \<Rightarrow> serial_ll \<Rightarrow> bool" where
  "rx_acc d st = (sl_rlen st = length d \<and> (sl_rdata st = R_Live d \<or> d = [] \<and> sl_rdata st = R_Null))"

definition rx_link :: "serial_ll \<Rightarrow> serial_hdl \<Rightarrow> bool" where
  "rx_link st h = (sl_handle st 0 = Some h \<and> sh_state h = SL_ACTIVE \<and> sh_cb h \<and> \<not> sh_freed h \<and>
     sh_queue h \<noteq> None)"

definition rx_idle :: "serial_ll \<Rightarrow> bool" where
  "rx_idle st = (sl_rlen st = 0 \<and> sl_rdata st = R_Null \<and>
     (case sl_handle st 0 of Some h \<Rightarrow> rx_link st h | None \<Rightarrow> False))"

definition rx_delivered :: "serial_ll \<Rightarrow> bytes list" where
  "rx_delivered st = (case sl_handle st 0 of
     Some h \<Rightarrow> map (\<lambda>b. take (unat (bh_payload_len b)) (the (bh_payload b))) (the (sh_queue h))
   | None \<Rightarrow> [])"

lemma rdata_append_acc:
  "rx_acc d st \<Longrightarrow> rdata_append True p st =
     Some (Some (st\<lparr>sl_rdata := R_Live (d @ p), sl_rlen := length d + length p\<rparr>))"
  by (auto simp: rx_acc_def rdata_append_def)

lemma rx_frag_more:
  assumes "rx_link st h" "rx_acc d st" "p \<noteq> []" "length p < 65536"
  shows "serial_ll_rx_handler mem b qok (Some (frag_handle i (p, True))) st =
     (if mem then Some (0, frag_handle i (p, True), st\<lparr>sl_rdata := R_Live (d @ p), sl_rlen := length d + length p\<rparr>, [], 0)
      else serial_ll_rx_handler mem b qok (Some (frag_handle i (p, True))) st)"
  using assms rdata_append_acc [OF assms(2), of p]
  by (auto simp: serial_ll_rx_handler_def frag_handle_def zero_handle_def get_serial_ll_handle_def
      rx_link_def unat_of_nat_u16 word_unat_eq_iff)

lemma rx_frag_last:
  assumes "rx_link st h" "rx_acc d st" "p \<noteq> []" "length p < 65536" "b \<noteq> 0"
  shows "serial_ll_rx_handler True b True (Some (frag_handle i (p, False))) st =
     Some (0, frag_handle i (p, False),
       st\<lparr>sl_rdata := R_Null, sl_rlen := 0, sl_handle := (sl_handle st)(0 \<mapsto>
         h\<lparr>sh_queue := Some (the (sh_queue h) @ [zero_handle\<lparr>bh_if_type := if_code ESP_SERIAL_IF,
           bh_payload_len := of_nat (length d + length p), bh_payload := Some (d @ p), bh_priv := b,
           bh_free := True\<rparr>])\<rparr>)\<rparr>, [], 1)"
  using assms rdata_append_acc [OF assms(2), of p]
  by (auto simp: serial_ll_rx_handler_def frag_handle_def zero_handle_def get_serial_ll_handle_def
      rx_link_def unat_of_nat_u16 word_unat_eq_iff Let_def)

lemma rx_frags:
  assumes "0 < n" "n < 65536" "rx_link st h" "rx_acc d st" "m \<noteq> []" "length d + length m < 65536"
  shows "let st' = fold rx_frag (frags n m) st in rx_idle st' \<and> rx_delivered st' = rx_delivered st @ [d @ m]"
  using assms
proof (induction m arbitrary: d st rule: frags_induct)
  case (short m)
  have "\<exists>q. sh_queue h = Some q" using short.prems(2) by (auto simp: rx_link_def)
  then show ?case
    using short rx_frag_last [OF short.prems(2,3,4), of 1 2]
    by (auto simp: frags_short rx_frag_def rx_idle_def rx_delivered_def rx_link_def unat_of_nat_u16 zero_handle_def
        simp flip: of_nat_add)
next
  case (long m)
  let ?p = "take n m"
  let ?st = "st\<lparr>sl_rdata := R_Live (d @ ?p), sl_rlen := length d + length ?p\<rparr>"
  have p: "?p \<noteq> []" "length ?p < 65536" using long by auto
  have "rx_frag (?p, True) st = ?st"
    using rx_frag_more [OF long.prems(2,3) p, of True 1 True 2] by (simp add: rx_frag_def)
  moreover have "rx_link ?st h" "rx_acc (d @ ?p) ?st" "rx_delivered ?st = rx_delivered st"
    using long.prems by (simp_all add: rx_link_def rx_acc_def rx_delivered_def)
  moreover have "drop n m \<noteq> []" "length (d @ ?p) + length (drop n m) < 65536" using long by simp_all
  ultimately show ?case
    using long(3) [of ?st "d @ ?p"] long.prems(1) long.hyps by (simp add: frags_long)
qed

interpretation host_rx: fragment_link "frags 1500" rx_frag rx_delivered rx_idle 65535
proof (standard, goal_cases)
  case (1 r m)
  then obtain h where "rx_link r h" by (auto simp: rx_idle_def split: option.splits)
  moreover have "rx_acc [] r" using 1 by (simp add: rx_idle_def rx_acc_def)
  ultimately show ?case using rx_frags [of 1500 r h "[]" m] 1 by (simp add: Let_def)
qed

section \<open>The control serial adapter\<close>

text \<open>
  \<open>cs_open\<close>: \<open>g_serial_handle\<close> of \<open>h_serial_if.c\<close>; \<open>cs_drv\<close>: \<open>g_serial_drv_handle\<close>; \<open>cs_if\<close>:
  \<open>serial_ll_if_g\<close> (the slot of the handle); \<open>cs_sem\<close>: \<open>read_semaphore\<close> with its count.
\<close>

record ctrl_serial =
  cs_open :: bool
  cs_drv :: bool
  cs_if :: "nat option"
  cs_sem :: "nat option"
  cs_ll :: serial_ll

definition h_control_serial_drv_open :: "bool \<Rightarrow> ctrl_serial \<Rightarrow> bool \<times> ctrl_serial" where
  "h_control_serial_drv_open mem cs =
     (if cs_drv cs then (True, cs) else if \<not> mem then (False, cs) else (True, cs\<lparr>cs_drv := True\<rparr>))"

definition h_control_serial_drv_close :: "bool \<Rightarrow> ctrl_serial \<Rightarrow> h_err \<times> ctrl_serial" where
  "h_control_serial_drv_close handle cs =
     (if \<not> handle then (H_ERR_INVALID_ARG, cs) else (H_OK, cs\<lparr>cs_drv := False\<rparr>))"

text \<open>
  The result is the error, \<open>*out_count\<close>, whether the adapter or the link freed the buffer, and the
  transport's state.
\<close>

definition h_control_serial_drv_write ::
  "nat \<Rightarrow> (bytes \<Rightarrow> u8 \<Rightarrow> bool \<Rightarrow> 's \<Rightarrow> h_err \<times> 's) \<Rightarrow> bool \<Rightarrow> bytes option \<Rightarrow> nat \<Rightarrow> ctrl_serial \<Rightarrow> 's \<Rightarrow>
   h_err \<times> nat \<times> bool \<times> 's" where
  "h_control_serial_drv_write max_payload tx handle buf in_count cs s =
     (if \<not> handle \<or> buf = None \<or> in_count = 0 then (H_ERR_INVALID_ARG, 0, False, s)
      else (case cs_if cs of
          None \<Rightarrow> (H_ERR_INVALID_ARG, 0, True, s)
        | Some k \<Rightarrow>
            (case serial_ll_write max_payload tx (sl_handle (cs_ll cs) k) buf (of_nat in_count) s of
               (ret, fr, s') \<Rightarrow>
                 if ret \<noteq> H_OK then (H_FAIL, 0, fr, s') else (H_OK, in_count, fr, s'))))"

text \<open>
  The tail of \<open>h_control_serial_drv_read\<close>, from the length check on: \<open>mem1\<close> and \<open>mem2\<close> are the two
  allocations. \<open>Some None\<close> is a null result.
\<close>

definition control_read_decode :: "bool \<Rightarrow> bool \<Rightarrow> bytes \<Rightarrow> u16 \<Rightarrow> bytes option option" where
  "control_read_decode mem1 mem2 read_buf rx_buf_len =
     (let init_read_len = 1 + 2 + length ep_rsp + 1 + 2 in
      if unat rx_buf_len < init_read_len then Some None
      else if \<not> mem1 then Some None
      else do {
        buf \<leftarrow> mem_slice read_buf 0 init_read_len;
        r \<leftarrow> parse_tlv buf;
        case r of
          None \<Rightarrow> Some None
        | Some payload_len \<Rightarrow>
            if payload_len = 0 then Some None
            else if unat rx_buf_len < init_read_len + unat payload_len then Some None
            else if \<not> mem2 then Some None
            else map_option Some (mem_slice read_buf init_read_len (unat payload_len))
      })"

text \<open>
  \<open>h_control_serial_drv_read\<close>: \<open>None\<close> while the semaphore has no count (the call blocks).
\<close>

definition h_control_serial_drv_read ::
  "bool \<Rightarrow> bool \<Rightarrow> bool \<Rightarrow> ctrl_serial \<Rightarrow> (bytes option \<times> ctrl_serial) option" where
  "h_control_serial_drv_read mem1 mem2 handle cs =
     (if \<not> handle then Some (None, cs)
      else (case cs_sem cs of
          None \<Rightarrow> Some (None, cs)
        | Some 0 \<Rightarrow> None
        | Some (Suc n) \<Rightarrow>
            let cs1 = cs\<lparr>cs_sem := Some n\<rparr> in
            (case cs_if cs of
               None \<Rightarrow> Some (None, cs1)
             | Some k \<Rightarrow>
                 (case serial_ll_read (Some k) (cs_ll cs) of
                    (r, ll) \<Rightarrow>
                      (case r of
                         None \<Rightarrow> Some (None, cs1\<lparr>cs_ll := ll\<rparr>)
                       | Some (read_buf, rlen) \<Rightarrow>
                           map_option (\<lambda>d. (d, cs1\<lparr>cs_ll := ll\<rparr>))
                             (control_read_decode mem1 mem2 read_buf rlen))))))"

text \<open>\<open>sem\<close>, \<open>mem\<close> and \<open>qok\<close>: creation of the semaphore, of the handle and of its queue.\<close>

definition h_control_serial_platform_init ::
  "bool \<Rightarrow> bool \<Rightarrow> bool \<Rightarrow> ctrl_serial \<Rightarrow> (h_err \<times> ctrl_serial) option" where
  "h_control_serial_platform_init sem mem qok cs =
     (if \<not> sem then Some (H_FAIL, cs)
      else (case serial_ll_init mem True (cs_ll cs) of
          (None, ll) \<Rightarrow> Some (H_FAIL, cs\<lparr>cs_sem := None, cs_if := None, cs_ll := ll\<rparr>)
        | (Some k, ll) \<Rightarrow> do {
            (e, ll, _) \<leftarrow> serial_ll_open qok (Some k) ll;
            if e \<noteq> 0 then do {
              (_, ll, _) \<leftarrow> serial_ll_close k ll;
              Some (H_FAIL, cs\<lparr>cs_sem := None, cs_if := None, cs_ll := ll\<rparr>)
            } else Some (H_OK, cs\<lparr>cs_sem := Some 0, cs_if := Some k, cs_ll := ll\<rparr>)
          }))"

definition h_control_serial_platform_deinit :: "ctrl_serial \<Rightarrow> (h_err \<times> ctrl_serial) option" where
  "h_control_serial_platform_deinit cs = do {
     cs1 \<leftarrow> (case cs_if cs of
        None \<Rightarrow> Some cs
      | Some k \<Rightarrow> map_option (\<lambda>(_, ll, _). cs\<lparr>cs_ll := ll, cs_if := None\<rparr>) (serial_ll_close k (cs_ll cs)));
     Some (H_OK, cs1\<lparr>cs_sem := None\<rparr>)
   }"

definition h_serial_if_init ::
  "bool \<Rightarrow> bool \<Rightarrow> bool \<Rightarrow> bool \<Rightarrow> ctrl_serial \<Rightarrow> (h_err \<times> ctrl_serial) option" where
  "h_serial_if_init dmem sem mem qok cs =
     (if cs_open cs then Some (H_OK, cs)
      else (case h_control_serial_drv_open dmem cs of
        (ok, cs1) \<Rightarrow>
          if \<not> ok then Some (H_FAIL, cs1)
          else do {
            (e, cs2) \<leftarrow> h_control_serial_platform_init sem mem qok (cs1\<lparr>cs_open := True\<rparr>);
            if e \<noteq> H_OK then
              Some (H_FAIL, (snd (h_control_serial_drv_close True cs2))\<lparr>cs_open := False\<rparr>)
            else Some (H_OK, cs2)
          }))"

definition h_serial_if_is_ready :: "ctrl_serial \<Rightarrow> bool" where
  "h_serial_if_is_ready cs = cs_open cs"

definition h_serial_if_deinit :: "ctrl_serial \<Rightarrow> ctrl_serial option" where
  "h_serial_if_deinit cs =
     (if cs_open cs then do {
        (_, cs1) \<leftarrow> h_control_serial_platform_deinit cs;
        Some ((snd (h_control_serial_drv_close True cs1))\<lparr>cs_open := False\<rparr>)
      } else Some cs)"

section \<open>The response codec\<close>

definition rsp_encode :: "bytes \<Rightarrow> bytes \<Rightarrow> bytes option" where
  "rsp_encode ep m = (case slave_compose_tlv True ep m of Some (ESP_OK, b) \<Rightarrow> Some b | _ \<Rightarrow> None)"

definition rsp_decode :: "bytes \<Rightarrow> bytes option" where
  "rsp_decode b = (case control_read_decode True True b (of_nat (length b)) of Some r \<Rightarrow> r | None \<Rightarrow> None)"

lemma tlv_image_drop:
  "length ep = 6 \<Longrightarrow> drop 12 (tlv_image ep d) = d"
  by (simp add: tlv_image_def numeral_eq_Suc)

lemma control_read_decode_image:
  assumes "ep = ep_rsp \<or> ep = ep_evt" "d \<noteq> []" "length d < 65524"
  shows "control_read_decode True True (tlv_image ep d) (of_nat (12 + length d)) = Some (Some d)"
proof -
  have l: "length ep = 6" using assms(1) by auto
  have u: "unat (of_nat (12 + length d) :: u16) = 12 + length d" "unat (of_nat (length d) :: u16) = length d"
    using assms(3) by (simp_all only: unat_of_nat) simp_all
  have nz: "(of_nat (length d) :: u16) \<noteq> 0" using u(2) assms(2) by auto
  have "parse_tlv (take 12 (tlv_image ep d)) = Some (Some (of_nat (length d)))"
    using assms by (intro parse_tlv_image) simp_all
  then show ?thesis
    using l u nz by (simp add: control_read_decode_def mem_slice_def tlv_image_drop del: of_nat_add)
qed

lemma rsp_codec:
  assumes "ep = ep_rsp \<or> ep = ep_evt" "m \<noteq> []" "length m \<le> 65523"
  shows "\<exists>b. rsp_encode ep m = Some b \<and> rsp_decode b = Some m \<and> length b = length m + 12"
proof -
  have l: "length ep = 6" using assms(1) by auto
  then have "rsp_encode ep m = Some (tlv_image ep m)"
    using assms by (simp add: rsp_encode_def slave_compose_tlv_image)
  moreover have "rsp_decode (tlv_image ep m) = Some m"
    using control_read_decode_image [of ep m] assms l by (simp add: rsp_decode_def)
  ultimately show ?thesis using l by simp
qed

interpretation rsp: message_codec "rsp_encode ep_rsp" rsp_decode 65523
  by unfold_locales (rule rsp_codec; simp)

interpretation evt: message_codec "rsp_encode ep_evt" rsp_decode 65523
  by unfold_locales (rule rsp_codec; simp)

section \<open>Properties\<close>

definition tx_rec :: "bytes \<Rightarrow> u8 \<Rightarrow> bool \<Rightarrow> (bytes \<times> u8 \<times> bool) list \<Rightarrow> h_err \<times> (bytes \<times> u8 \<times> bool) list" where
  "tx_rec f fl final s = (H_OK, s @ [(f, fl, final)])"

lemma fold_tx_rec:
  "fold (\<lambda>f s. snd (tx_piece tx_rec f s)) fs s =
   s @ map (\<lambda>(p, mf). (p, if mf then 1 else 0, \<not> mf)) fs"
  by (induction fs arbitrary: s) (auto simp: tx_piece_def tx_rec_def)

text \<open>
  A message of 1 to 8192 octets written to an active link is handed to the transport as pieces
  of at most \<open>MAX_PAYLOAD_SIZE\<close> octets whose concatenation is the message; all but the last carry
  \<open>MORE_FRAGMENT\<close>, and exactly the last carries the buffer to free.
\<close>
lemma serial_write_fragments:
  assumes "sh_state h = SL_ACTIVE" "m \<noteq> []" "length m \<le> 8192" "0 < max_payload"
  shows "\<exists>fs. serial_ll_write max_payload tx_rec (Some h) (Some m) (of_nat (length m)) [] =
      (H_OK, False, map (\<lambda>p. (p, 1, False)) (butlast fs) @ [(last fs, 0, True)]) \<and>
    concat fs = m \<and> fs \<noteq> [] \<and> (\<forall>p \<in> set fs. length p \<le> max_payload)"
proof -
  have u: "unat (of_nat (length m) :: u16) = length m" using assms(3) by (simp add: unat_of_nat_u16)
  then have nz: "(of_nat (length m) :: u16) \<noteq> 0" using assms(2) by auto
  have "serial_ll_write_loop max_payload tx_rec m 0 (length m) [] =
      (H_OK, False, fold (\<lambda>f s. snd (tx_piece tx_rec f s)) (frags max_payload m) [])"
    using assms write_loop_frags [of max_payload tx_rec m "[]" "[]"] by (simp add: tx_rec_def)
  then have w: "serial_ll_write max_payload tx_rec (Some h) (Some m) (of_nat (length m)) [] =
      (H_OK, False, map (\<lambda>(p, mf). (p, if mf then 1 else 0, \<not> mf)) (frags max_payload m))"
    using assms u nz by (simp add: serial_ll_write_def fold_tx_rec)
  have fl: "map (\<lambda>(p, mf). (p, if mf then 1 else 0, \<not> mf)) (frags max_payload m) =
      map (\<lambda>p. (p, 1 :: u8, False)) (butlast (map fst (frags max_payload m))) @
      [(last (map fst (frags max_payload m)), 0, True)] \<and> frags max_payload m \<noteq> []"
    using assms(4) by (induction m rule: frags_induct) (auto simp: frags_short frags_long)
  show ?thesis
    using w fl frags_concat [OF assms(4)] frags_bound [OF assms(4)]
    by (intro exI [of _ "map fst (frags max_payload m)"]) auto
qed

definition demo_hdl :: serial_hdl where
  "demo_hdl = \<lparr>sh_if_num = 0, sh_queue = Some [], sh_state = SL_ACTIVE, sh_cb = True, sh_freed = False\<rparr>"

text \<open>
  C11: when messages of 1 to 65535 octets are fragmented in pieces of at most 1500 octets (as the
  slave does) and the pieces are given in order to \<open>serial_ll_rx_handler\<close> on an idle, active link with
  memory available, the serial queue receives exactly those messages, whole and in order, and the
  link is idle again.
\<close>
theorem host_reassembly:
  assumes "rx_idle st" "\<forall>m \<in> set ms. m \<noteq> [] \<and> length m \<le> 65535"
  shows "rx_idle (fold rx_frag (concat (map (frags 1500) ms)) st) \<and>
    rx_delivered (fold rx_frag (concat (map (frags 1500) ms)) st) = rx_delivered st @ ms"
  using assms by (rule host_rx.message_sequence)

definition demo_ll_state :: serial_ll where
  "demo_ll_state = \<lparr>sl_handle = [0 \<mapsto> demo_hdl], sl_conn_num = 1, sl_rlen = 0, sl_rdata = R_Null\<rparr>"

theorem host_reassembly_witness:
  "rx_delivered (fold rx_frag (concat (map (frags 1500) [[1, 2, 3], [4]])) demo_ll_state) = [[1, 2, 3], [4]]"
  using host_reassembly [of demo_ll_state "[[1, 2, 3], [4]]"]
  by (simp add: demo_ll_state_def demo_hdl_def rx_idle_def rx_link_def rx_delivered_def)

text \<open>
  After the last fragment of a message is lost to a failed allocation, \<open>r.data\<close> has been freed
  but still points to the old object, and the next fragment that arrives on the active link is
  appended to freed memory.
\<close>

lemma serial_rx_dangling:
  assumes "rx_link st h" "rx_acc d st" "p \<noteq> []" "length p < 65536" "p' \<noteq> []" "length p' < 65536"
  shows "\<exists>h' st' fr. serial_ll_rx_handler True 0 True (Some (frag_handle i (p, False))) st =
      Some (-1, h', st', fr, 0) \<and>
    serial_ll_rx_handler True b True (Some (frag_handle j (p', mf))) st' = None"
  using assms rdata_append_acc [OF assms(2), of p]
  by (auto simp: serial_ll_rx_handler_def frag_handle_def zero_handle_def get_serial_ll_handle_def
      rx_link_def unat_of_nat_u16 word_unat_eq_iff serial_buff_cleanup_def free_handle_def
      rdata_append_def)

definition ctrl_closed :: "ctrl_serial \<Rightarrow> bool" where
  "ctrl_closed cs = (\<not> cs_open cs \<and> \<not> cs_drv cs \<and> cs_if cs = None \<and> cs_sem cs = None \<and>
     sl_conn_num (cs_ll cs) = 0 \<and> sl_handle (cs_ll cs) 0 = None)"

lemmas ctrl_defs = h_serial_if_init_def h_serial_if_deinit_def h_control_serial_drv_open_def
  h_control_serial_drv_close_def h_control_serial_platform_init_def
  h_control_serial_platform_deinit_def serial_ll_init_def serial_ll_open_def serial_ll_close_def

text \<open>
  Opening and closing the control channel is a clean cycle. From a closed channel, and when the
  queue of the link can be created, \<open>h_serial_if_init\<close> succeeds exactly when its other resources can
  be created; when it fails the channel is closed with no handle, no semaphore and no connection
  slot in use; when it succeeds the link is active and \<open>h_serial_if_deinit\<close> closes it again.
\<close>
lemma serial_if_cycle:
  assumes "ctrl_closed cs"
  shows "\<exists>e cs'. h_serial_if_init dmem sem mem True cs = Some (e, cs') \<and>
    (if dmem \<and> sem \<and> mem
     then e = H_OK \<and> h_serial_if_is_ready cs' \<and> (\<exists>h. get_serial_ll_handle 0 (cs_ll cs') = Some h \<and> sh_queue h = Some []) \<and>
       (\<exists>cs''. h_serial_if_deinit cs' = Some cs'' \<and> ctrl_closed cs'')
     else e = H_FAIL \<and> ctrl_closed cs')"
  using assms
  by (auto simp: ctrl_closed_def ctrl_defs h_serial_if_is_ready_def get_serial_ll_handle_def Let_def)

definition demo_ctrl :: ctrl_serial where
  "demo_ctrl = \<lparr>cs_open = False, cs_drv = False, cs_if = None, cs_sem = None,
     cs_ll = \<lparr>sl_handle = (\<lambda>_. None), sl_conn_num = 0, sl_rlen = 0, sl_rdata = R_Null\<rparr>\<rparr>"

text \<open>
  When the queue of the link cannot be created, \<open>serial_ll_open\<close> has already closed and freed the
  handle before it returns the error, and \<open>h_control_serial_platform_init\<close> closes the same handle a
  second time: the opening of a closed channel then works on freed memory.
\<close>

lemma serial_if_double_close:
  assumes "ctrl_closed cs"
  shows "h_serial_if_init True True True False cs = None"
  using assms by (auto simp: ctrl_closed_def ctrl_defs Let_def)

end
