(* ===== verification/Uart_Frame.thy ===== *)
theory Uart_Frame
  imports Serial_LL
begin

unbundle bit_operations_syntax

text \<open>
  The UART transport of the JL port (\<open>src/host/port/jl/h_transport_task.c\<close>): building a frame,
  queueing it, reading frames back from the byte stream, and dispatching them.

  The receive side reads from a list of bus events: a chunk of octets, a read that returns nothing, a
  read error, or the moment the transport is told to stop (\<open>g_rx_running\<close> becomes false). A list that
  ends is a bus that stays silent: the reader is then still waiting and the result is \<open>None\<close>.

  The locale \<open>byte_source\<close> is what the frame reader needs of the bus: an exact read of \<open>n\<close> octets when
  they are available. It is interpreted on \<open>jl_uart_read_fully\<close> for any chunking of the stream.
\<close>

abbreviation (input) MAX_UART_BUFFER_SIZE :: nat where "MAX_UART_BUFFER_SIZE \<equiv> 1600"
abbreviation (input) MAX_PAYLOAD_SIZE :: nat where "MAX_PAYLOAD_SIZE \<equiv> 1588"
abbreviation (input) H_STOP_SENTINEL :: u8 where "H_STOP_SENTINEL \<equiv> 0xFF"

section \<open>Transmit\<close>

text \<open>The objects the transmit path can free: its own frame buffer, the payload, the private handle.\<close>

datatype tx_free = F_Send | F_Payload | F_Priv

text \<open>
  \<open>jl_uart_write_packet\<close>. \<open>mem\<close>: the frame buffer can be allocated; \<open>bus_write\<close> returns the number of
  octets written. The result is the return value, the frame given to the bus (if any) and what was
  freed; \<open>None\<close> is an access outside the payload or the frame buffer. \<open>len\<close> is a \<open>uint16_t\<close>.
\<close>

definition jl_uart_write_packet ::
  "bool \<Rightarrow> (bytes \<Rightarrow> nat) \<Rightarrow> interface_buffer_handle option \<Rightarrow> (h_err \<times> bytes list \<times> tx_free list) option" where
  "jl_uart_write_packet mem bus_write buf_handle =
     (case buf_handle of None \<Rightarrow> Some (H_FAIL, [], [])
      | Some bh \<Rightarrow>
        let len = bh_payload_len bh; zc = (bh_zcopy bh \<noteq> 0) in
        if bh_flag bh = 0 \<and> len = 0 then Some (H_FAIL, [], [])
        else if \<not> zc \<and> \<not> mem then Some (H_FAIL, [], [])
        else if unat len > MAX_PAYLOAD_SIZE then
          Some (H_FAIL, [], if \<not> zc then [F_Send] else if bh_free bh then [F_Payload] else [])
        else do {
          sendbuf \<leftarrow> (if zc then bh_payload bh else Some (replicate MAX_UART_BUFFER_SIZE 0));
          let hdr = zero_header\<lparr>ph_len := len, ph_offset := of_nat HDR_SIZE,
                      ph_if_type := ucast (bh_if_type bh), ph_if_num := ucast (bh_if_num bh),
                      ph_seq_num := bh_seq_num bh, ph_flags := bh_flag bh\<rparr>;
          (hdr, len, sendbuf) \<leftarrow>
            (if ph_if_type hdr = ucast (if_code ESP_HCI_IF) \<and> \<not> zc then do {
               p \<leftarrow> bh_payload bh;
               t \<leftarrow> peek p 0;
               let len = len - 1;
               d \<leftarrow> mem_slice p 1 (unat len);
               sendbuf \<leftarrow> poke HDR_SIZE d sendbuf;
               Some (hdr\<lparr>ph_pkt_type := t, ph_len := len\<rparr>, len, sendbuf)
             } else if \<not> zc then do {
               d \<leftarrow> (if len = 0 then Some [] else bh_payload bh \<bind> (\<lambda>p. mem_slice p 0 (unat len)));
               sendbuf \<leftarrow> poke HDR_SIZE d sendbuf;
               Some (hdr, len, sendbuf)
             } else Some (hdr, len, sendbuf));
          _ \<leftarrow> mem_slice sendbuf 0 HDR_SIZE;
          let sendbuf = put_header hdr sendbuf;
          checksum \<leftarrow> compute_checksum sendbuf (of_nat (HDR_SIZE + unat len));
          let sendbuf = put_header (hdr\<lparr>ph_checksum := checksum\<rparr>) sendbuf;
          frame \<leftarrow> mem_slice sendbuf 0 (unat len + HDR_SIZE);
          Some (if bus_write frame \<noteq> unat len + HDR_SIZE then H_FAIL else H_OK, [frame],
                if \<not> zc then [F_Send] else [])
        })"

text \<open>
  \<open>esp_hosted_tx\<close>: \<open>queue\<close> is \<open>g_tx_queue\<close> (\<open>None\<close> when it does not exist), \<open>qok\<close> the result of the
  blocking send.
\<close>

definition esp_hosted_tx ::
  "bool \<Rightarrow> interface_buffer_handle \<Rightarrow> interface_buffer_handle list option \<Rightarrow>
   h_err \<times> interface_buffer_handle list option" where
  "esp_hosted_tx qok bh queue =
     (case queue of None \<Rightarrow> (H_FAIL, None)
      | Some q \<Rightarrow> if \<not> qok then (H_FAIL, Some q) else (H_OK, Some (q @ [bh])))"

text \<open>
  \<open>jl_uart_tx_task\<close> on the items the queue delivers: the frames sent and what is freed, in order. The
  stop sentinel ends the task.
\<close>

fun jl_uart_tx_task ::
  "(nat \<Rightarrow> bool) \<Rightarrow> (bytes \<Rightarrow> nat) \<Rightarrow> nat \<Rightarrow> interface_buffer_handle list \<Rightarrow> (bytes list \<times> tx_free list) option" where
  "jl_uart_tx_task mem bus_write i [] = Some ([], [])"
| "jl_uart_tx_task mem bus_write i (bh # q) =
     (if bh_zcopy bh = H_STOP_SENTINEL then Some ([], [])
      else do {
        (_, fs, fr) \<leftarrow> jl_uart_write_packet (mem i) bus_write (Some bh);
        (fs', fr') \<leftarrow> jl_uart_tx_task mem bus_write (i + 1) q;
        Some (fs @ fs', fr @ (if bh_free bh \<and> bh_priv bh \<noteq> 0 then [F_Priv] else []) @ fr')
      })"

section \<open>The byte source\<close>

locale byte_source =
  fixes read :: "nat \<Rightarrow> 's \<Rightarrow> (bytes \<times> 's) option"
    and avail :: "'s \<Rightarrow> bytes"
    and ready :: "'s \<Rightarrow> bool"
  assumes read_exact: "ready s \<Longrightarrow> n \<le> length (avail s) \<Longrightarrow>
    \<exists>s'. read n s = Some (take n (avail s), s') \<and> avail s' = drop n (avail s) \<and> ready s'"
begin

lemma read_block:
  assumes "ready s" "avail s = xs @ ys"
  shows "\<exists>s'. read (length xs) s = Some (xs, s') \<and> avail s' = ys \<and> ready s'"
  using read_exact [OF assms(1), of "length xs"] assms(2) by simp

lemma read_header_payload:
  assumes "ready s" "avail s = hdr @ payload @ rest"
  shows "\<exists>s1 s2. read (length hdr) s = Some (hdr, s1) \<and> read (length payload) s1 = Some (payload, s2) \<and>
    ready s1 \<and> avail s2 = rest \<and> ready s2"
proof -
  obtain s1 where s1: "read (length hdr) s = Some (hdr, s1)" "avail s1 = payload @ rest" "ready s1"
    using read_block [of s hdr "payload @ rest"] assms by blast
  then show ?thesis using read_block [of s1 payload rest] by blast
qed

end

section \<open>Receive\<close>

datatype uart_ev = U_Data bytes | U_Idle | U_Err | U_Stop

text \<open>\<open>jl_uart_read_fully\<close>: \<open>n\<close> octets are still missing, \<open>acc\<close> is what was read so far.\<close>

fun jl_uart_read_fully :: "nat \<Rightarrow> bytes \<Rightarrow> uart_ev list \<Rightarrow> (h_err \<times> bytes \<times> uart_ev list) option" where
  "jl_uart_read_fully 0 acc evs = Some (H_OK, acc, evs)"
| "jl_uart_read_fully (Suc n) acc [] = None"
| "jl_uart_read_fully (Suc n) acc (U_Stop # evs) = Some (H_FAIL, acc, U_Stop # evs)"
| "jl_uart_read_fully (Suc n) acc (U_Err # evs) = Some (H_FAIL, acc, evs)"
| "jl_uart_read_fully (Suc n) acc (U_Idle # evs) = jl_uart_read_fully (Suc n) acc evs"
| "jl_uart_read_fully (Suc n) acc (U_Data bs # evs) =
     (if length bs \<le> Suc n then jl_uart_read_fully (Suc n - length bs) (acc @ bs) evs
      else Some (H_OK, acc @ take (Suc n) bs, U_Data (drop (Suc n) bs) # evs))"

definition jl_uart_validate_header :: "esp_payload_header \<Rightarrow> u16 option" where
  "jl_uart_validate_header h =
     (if ph_len h = 0 \<or> unat (ph_len h) > MAX_PAYLOAD_SIZE \<or> unat (ph_offset h) \<noteq> HDR_SIZE then None
      else if unat (ph_if_type h) \<ge> unat (if_code ESP_MAX_IF) then None
      else Some (ph_len h))"

text \<open>\<open>jl_uart_bus_flush_input\<close>: what has been received so far is dropped.\<close>

fun is_data :: "uart_ev \<Rightarrow> bool" where
  "is_data (U_Data _) = True"
| "is_data _ = False"

definition flush_input :: "uart_ev list \<Rightarrow> uart_ev list" where
  "flush_input evs = dropWhile is_data evs"

text \<open>The checksum test on the received packet, with the field cleared.\<close>

definition jl_checksum_ok :: "esp_payload_header \<Rightarrow> bytes \<Rightarrow> bool option" where
  "jl_checksum_ok hdr rx_packet = do {
     c \<leftarrow> compute_checksum (put_header (hdr\<lparr>ph_checksum := 0\<rparr>) rx_packet) (of_nat (length rx_packet));
     Some (c = ph_checksum hdr)
   }"

fun stopped :: "uart_ev list \<Rightarrow> bool" where
  "stopped (U_Stop # _) = True"
| "stopped _ = False"

fun ev_size :: "uart_ev list \<Rightarrow> nat" where
  "ev_size [] = 0"
| "ev_size (U_Data bs # evs) = 1 + length bs + ev_size evs"
| "ev_size (_ # evs) = 1 + ev_size evs"

lemma read_fully_size:
  assumes "jl_uart_read_fully n acc evs = Some (e, bs, evs')" "0 < n"
  shows "ev_size evs' \<le> ev_size evs \<and> (ev_size evs' < ev_size evs \<or> stopped evs')"
  using assms
proof (induction n acc evs rule: jl_uart_read_fully.induct)
  case (6 n acc bs evs)
  then show ?case
    by (cases "Suc n - length bs") (auto split: if_splits)
qed auto

lemma flush_size: "ev_size (flush_input evs) \<le> ev_size evs"
  by (induction evs rule: ev_size.induct) (auto simp: flush_input_def)

text \<open>
  \<open>jl_uart_read_packet\<close>. \<open>mem i\<close> is the result of the \<open>i\<close>-th allocation. The result is the header and
  payload, or \<open>None\<close> when the transport stops.
\<close>

function jl_uart_read_packet ::
  "(nat \<Rightarrow> bool) \<Rightarrow> nat \<Rightarrow> uart_ev list \<Rightarrow> ((esp_payload_header \<times> bytes) option \<times> uart_ev list) option" where
  "jl_uart_read_packet mem i evs =
     (if stopped evs then Some (None, evs)
      else case jl_uart_read_fully HDR_SIZE [] evs of
        None \<Rightarrow> None
      | Some (e, hb, evs1) \<Rightarrow>
          if stopped evs1 \<and> e \<noteq> H_OK then Some (None, evs1)
          else if e \<noteq> H_OK then jl_uart_read_packet mem i evs1
          else (case decode_header hb of None \<Rightarrow> None
            | Some hdr \<Rightarrow>
              (case jl_uart_validate_header hdr of
                 None \<Rightarrow> if stopped evs1 then Some (None, evs1) else jl_uart_read_packet mem i (flush_input evs1)
               | Some payload_len \<Rightarrow>
                   if \<not> mem i then (if stopped evs1 then Some (None, evs1) else jl_uart_read_packet mem (i + 1) (flush_input evs1))
                   else (case jl_uart_read_fully (unat payload_len) [] evs1 of
                      None \<Rightarrow> None
                    | Some (e, payload, evs2) \<Rightarrow>
                        if stopped evs2 \<and> e \<noteq> H_OK then Some (None, evs2)
                        else if e \<noteq> H_OK then jl_uart_read_packet mem (i + 1) evs2
                        else (case jl_checksum_ok hdr (hb @ payload) of
                           None \<Rightarrow> None
                         | Some True \<Rightarrow> Some (Some (hdr, payload), evs2)
                         | Some False \<Rightarrow>
                             if stopped evs2 then Some (None, evs2)
                             else jl_uart_read_packet mem (i + 1) (flush_input evs2))))))"
  by pat_completeness auto
termination
proof (relation "measure (\<lambda>(mem, i, evs). ev_size evs)", goal_cases)
  case 1
  then show ?case by simp
qed (auto dest!: read_fully_size intro: le_less_trans [OF flush_size] simp: jl_uart_validate_header_def
    unat_gt_0 split: if_splits)

declare jl_uart_read_packet.simps [simp del]

section \<open>Lemmas: the byte stream\<close>

fun ev_bytes :: "uart_ev list \<Rightarrow> bytes" where
  "ev_bytes [] = []"
| "ev_bytes (U_Data bs # evs) = bs @ ev_bytes evs"
| "ev_bytes (_ # evs) = ev_bytes evs"

fun ev_clean :: "uart_ev list \<Rightarrow> bool" where
  "ev_clean [] = True"
| "ev_clean (U_Err # evs) = False"
| "ev_clean (U_Stop # evs) = False"
| "ev_clean (_ # evs) = ev_clean evs"

definition uart_read :: "nat \<Rightarrow> uart_ev list \<Rightarrow> (bytes \<times> uart_ev list) option" where
  "uart_read n evs = (case jl_uart_read_fully n [] evs of
     Some (H_OK, bs, evs') \<Rightarrow> Some (bs, evs') | _ \<Rightarrow> None)"

lemma read_fully_exact:
  assumes "ev_clean evs" "n \<le> length (ev_bytes evs)"
  shows "\<exists>evs'. jl_uart_read_fully n acc evs = Some (H_OK, acc @ take n (ev_bytes evs), evs') \<and>
    ev_bytes evs' = drop n (ev_bytes evs) \<and> ev_clean evs'"
  using assms
proof (induction n acc evs rule: jl_uart_read_fully.induct)
  case (6 n acc bs evs)
  show ?case
  proof (cases "length bs \<le> Suc n")
    case True
    then show ?thesis using 6 by auto
  next
    case False
    then show ?thesis using 6 by simp
  qed
qed auto

interpretation uart: byte_source uart_read ev_bytes ev_clean
  by unfold_locales (use read_fully_exact [of _ _ "[]"] in \<open>fastforce simp: uart_read_def\<close>)

lemma uart_readD: "uart_read n evs = Some (bs, evs') \<Longrightarrow> jl_uart_read_fully n [] evs = Some (H_OK, bs, evs')"
  by (auto simp: uart_read_def split: option.splits h_err.splits)

lemma clean_not_stopped: "ev_clean evs \<Longrightarrow> \<not> stopped evs"
  by (induction evs rule: ev_clean.induct) auto

section \<open>Lemmas: frames\<close>

definition frame_ok :: "esp_payload_header \<Rightarrow> bytes \<Rightarrow> bool" where
  "frame_ok h p = (p \<noteq> [] \<and> length p \<le> MAX_PAYLOAD_SIZE \<and> ph_len h = of_nat (length p) \<and>
     ph_offset h = 12 \<and> unat (ph_if_type h) < 8)"

abbreviation (input) sealed :: "esp_payload_header \<Rightarrow> bytes \<Rightarrow> esp_payload_header" where
  "sealed h p \<equiv> h\<lparr>ph_checksum := octet_sum (encode_header (h\<lparr>ph_checksum := 0\<rparr>) @ p)\<rparr>"

lemma seal_frame_split: "seal_frame h p = encode_header (sealed h p) @ p"
  by (simp add: seal_frame_def Let_def)

lemma validate_frame_ok:
  assumes "frame_ok h p"
  shows "jl_uart_validate_header (sealed h p) = Some (of_nat (length p))"
    and "unat (of_nat (length p) :: u16) = length p"
proof -
  show u: "unat (of_nat (length p) :: u16) = length p"
    using assms by (simp add: frame_ok_def unat_of_nat_u16)
  then have "(of_nat (length p) :: u16) \<noteq> 0" using assms by (auto simp: frame_ok_def)
  then show "jl_uart_validate_header (sealed h p) = Some (of_nat (length p))"
    using assms u by (simp add: frame_ok_def jl_uart_validate_header_def)
qed

lemma jl_checksum_ok_eq:
  assumes "length bs < 65536" "take 12 bs = encode_header h" "12 \<le> length bs"
  shows "jl_checksum_ok h bs = Some (octet_sum (encode_header (h\<lparr>ph_checksum := 0\<rparr>) @ drop 12 bs) = ph_checksum h)"
proof -
  have "unat (of_nat (length bs) :: u16) = length bs" using assms(1) by (simp add: unat_of_nat_u16)
  then show ?thesis
    using assms(3) by (simp add: jl_checksum_ok_def compute_checksum_eq put_header_def)
qed

lemma jl_checksum_sealed:
  "length p \<le> 1588 \<Longrightarrow> jl_checksum_ok (sealed h p) (seal_frame h p) = Some True"
  by (subst jl_checksum_ok_eq) (simp_all add: seal_frame_split)

lemma read_packet_frame:
  assumes "frame_ok h p" "mem i" "ev_clean evs" "ev_bytes evs = seal_frame h p @ rest"
  shows "\<exists>evs'. jl_uart_read_packet mem i evs = Some (Some (sealed h p, p), evs') \<and>
    ev_bytes evs' = rest \<and> ev_clean evs'"
proof -
  obtain e1 e2 where
    "uart_read (length (encode_header (sealed h p))) evs = Some (encode_header (sealed h p), e1)"
    "uart_read (length p) e1 = Some (p, e2)" and e: "ev_clean e1" "ev_bytes e2 = rest" "ev_clean e2"
    using uart.read_header_payload [OF assms(3), of "encode_header (sealed h p)" p rest] assms(4)
    by (auto simp: seal_frame_split)
  then have r: "jl_uart_read_fully 12 [] evs = Some (H_OK, encode_header (sealed h p), e1)"
    "jl_uart_read_fully (length p) [] e1 = Some (H_OK, p, e2)"
    by (simp_all add: uart_readD)
  have "jl_checksum_ok (sealed h p) (encode_header (sealed h p) @ p) = Some True"
    using jl_checksum_sealed [of p h] assms(1) by (simp add: seal_frame_split frame_ok_def)
  then have "jl_uart_read_packet mem i evs = Some (Some (sealed h p, p), e2)"
    using r validate_frame_ok [OF assms(1)] assms(2) clean_not_stopped [OF assms(3)]
    by (subst jl_uart_read_packet.simps) simp
  with e show ?thesis by blast
qed




text \<open>The frame the transmitter builds for a plain (copied, not Bluetooth) packet.\<close>

definition tx_header :: "interface_buffer_handle \<Rightarrow> esp_payload_header" where
  "tx_header bh = zero_header\<lparr>ph_len := bh_payload_len bh, ph_offset := 12,
     ph_if_type := ucast (bh_if_type bh), ph_if_num := ucast (bh_if_num bh),
     ph_seq_num := bh_seq_num bh, ph_flags := bh_flag bh\<rparr>"

definition plain_packet :: "interface_buffer_handle \<Rightarrow> bytes \<Rightarrow> bool" where
  "plain_packet bh p = (bh_payload bh = Some p \<and> bh_payload_len bh = of_nat (length p) \<and> p \<noteq> [] \<and>
     length p \<le> MAX_PAYLOAD_SIZE \<and> bh_zcopy bh = 0 \<and>
     (ucast (bh_if_type bh) :: 4 word) \<noteq> ucast (if_code ESP_HCI_IF))"

lemma write_packet_plain:
  assumes "plain_packet bh p"
  shows "jl_uart_write_packet True bus_write (Some bh) =
    Some (if bus_write (seal_frame (tx_header bh) p) \<noteq> length p + 12 then H_FAIL else H_OK,
          [seal_frame (tx_header bh) p], [F_Send])"
proof -
  have u: "unat (of_nat (length p) :: u16) = length p"
    "unat (of_nat (12 + length p) :: u16) = 12 + length p"
    using assms by (simp_all only: unat_of_nat) (simp_all add: plain_packet_def)
  then have nz: "(of_nat (length p) :: u16) \<noteq> 0" using assms by (auto simp: plain_packet_def)
  let ?h = "tx_header bh"
  let ?buf = "put_header ?h (replicate 12 0 @ p @ replicate (1588 - length p) 0)"
  have c0: "?h\<lparr>ph_checksum := 0\<rparr> = ?h" by (simp add: tx_header_def zero_header_def)
  have pk: "poke 12 p (replicate 1600 0) = Some (replicate 12 0 @ p @ replicate (1588 - length p) 0)"
    using assms by (simp add: poke_def plain_packet_def min_def)
  have ck: "compute_checksum ?buf (of_nat (12 + length p)) = Some (octet_sum (encode_header ?h @ p))"
    using u assms by (subst compute_checksum_eq) (simp_all add: put_header_def plain_packet_def)
  have fr: "mem_slice (put_header (?h\<lparr>ph_checksum := octet_sum (encode_header ?h @ p)\<rparr>) ?buf) 0 (length p + 12) =
      Some (seal_frame ?h p)"
    using assms c0 by (simp add: mem_slice_def put_header_def seal_frame_split plain_packet_def)
  have th: "zero_header\<lparr>ph_len := of_nat (length p), ph_offset := 12, ph_if_type := ucast (bh_if_type bh),
      ph_if_num := ucast (bh_if_num bh), ph_seq_num := bh_seq_num bh, ph_flags := bh_flag bh\<rparr> = ?h"
    using assms by (simp add: tx_header_def plain_packet_def)
  have sl: "mem_slice p 0 (length p) = Some p" "mem_slice (replicate 12 0 @ p @ replicate (1588 - length p) 0) 0 12 =
      Some (replicate 12 0)"
    by (simp_all add: mem_slice_def)
  have ty: "ph_if_type ?h \<noteq> 4" using assms by (simp add: tx_header_def plain_packet_def)
  show ?thesis
    using assms u nz ty
    by (simp add: jl_uart_write_packet_def Let_def plain_packet_def sl pk th ck fr
        del: of_nat_add octet_sum_append)
qed

section \<open>The receive task\<close>

text \<open>The packets delivered by \<open>n\<close> turns of the loop of \<open>jl_uart_rx_task\<close> (all allocations succeed).\<close>

fun read_packets :: "nat \<Rightarrow> uart_ev list \<Rightarrow> ((esp_payload_header \<times> bytes) list \<times> uart_ev list) option" where
  "read_packets 0 evs = Some ([], evs)"
| "read_packets (Suc n) evs =
     (case jl_uart_read_packet (\<lambda>_. True) 0 evs of
        Some (Some pk, evs') \<Rightarrow> map_option (map_prod ((#) pk) id) (read_packets n evs')
      | _ \<Rightarrow> None)"

record jl_rx =
  jr_serial :: serial_ll
  jr_priv :: "bytes list"
  jr_chan :: "(u8 \<times> bytes) list"
  jr_frees :: "nat list"

text \<open>
  The body of the loop after a packet was read into the object \<open>pkt\<close>. \<open>mem\<close>, \<open>sbuf\<close>, \<open>qok\<close> are the
  outcomes inside \<open>serial_ll_rx_handler\<close>; \<open>copy\<close> is the copy for a network channel (\<open>0\<close> on failure);
  \<open>chan t\<close> is the registered receive function of interface \<open>t\<close>, which returns non-zero when it does
  not take the copy.
\<close>

definition rx_handle :: "nat \<Rightarrow> esp_payload_header \<Rightarrow> bytes \<Rightarrow> interface_buffer_handle" where
  "rx_handle pkt hdr payload = zero_handle\<lparr>bh_if_type := ucast (ph_if_type hdr),
     bh_if_num := ucast (ph_if_num hdr), bh_payload := Some payload,
     bh_payload_len := of_nat (length payload), bh_flag := ph_flags hdr, bh_seq_num := ph_seq_num hdr,
     bh_priv := pkt, bh_free := True\<rparr>"

definition jl_rx_dispatch ::
  "bool \<Rightarrow> nat \<Rightarrow> bool \<Rightarrow> nat \<Rightarrow> (u8 \<Rightarrow> (bytes \<Rightarrow> int) option) \<Rightarrow> nat \<Rightarrow> esp_payload_header \<Rightarrow> bytes \<Rightarrow>
   jl_rx \<Rightarrow> jl_rx option" where
  "jl_rx_dispatch mem sbuf qok copy chan pkt hdr payload st =
     (let bh = rx_handle pkt hdr payload; t = bh_if_type bh in do {
        (bh, st) \<leftarrow>
          (if t = if_code ESP_SERIAL_IF then
             (case serial_ll_rx_handler mem sbuf qok (Some bh) (jr_serial st) of
                None \<Rightarrow> None
              | Some (_, bh', ll, fr, _) \<Rightarrow> Some (bh', st\<lparr>jr_serial := ll, jr_frees := jr_frees st @ fr\<rparr>))
           else if t = if_code ESP_PRIV_IF then Some (bh, st\<lparr>jr_priv := jr_priv st @ [payload]\<rparr>)
           else if t = if_code ESP_STA_IF \<or> t = if_code ESP_AP_IF then
             (case chan t of
                None \<Rightarrow> Some (bh, st)
              | Some rx \<Rightarrow>
                  if copy = 0 then Some (bh, st)
                  else Some (bh, st\<lparr>jr_chan := jr_chan st @ [(t, payload)],
                         jr_frees := jr_frees st @ (if rx payload \<noteq> 0 then [copy] else [])\<rparr>))
           else Some (bh, st));
        Some (st\<lparr>jr_frees := jr_frees st @ snd (free_handle bh)\<rparr>)
      })"

lemma serial_rx_frees:
  assumes "serial_ll_rx_handler mem sbuf qok (Some h) st = Some (r, h', st', fr, n)"
    "bh_free h" "bh_priv h = pkt" "pkt \<noteq> 0" "sbuf \<noteq> pkt"
  shows "count_list (fr @ snd (free_handle h')) pkt = 1"
  using assms
  by (auto simp: serial_ll_rx_handler_def serial_buff_cleanup_def free_handle_def zero_handle_def Let_def
      split: if_splits option.splits rx_ptr.splits prod.splits)

section \<open>Properties\<close>

text \<open>
  C5: whatever sequence of plain packets the transmit task takes from its queue, the frames it puts
  on the wire are read back by the receive task as the same headers and payloads, in the same order,
  however the octet stream is cut into chunks and whatever follows it.
\<close>
theorem uart_stream_roundtrip:
  assumes "list_all2 plain_packet bhs ps" "\<forall>bh \<in> set bhs. unat (bh_if_type bh) < 8"
    and "jl_uart_tx_task (\<lambda>_. True) bus_write i bhs = Some (frames, frees)"
    and "ev_clean evs" "ev_bytes evs = concat frames @ rest"
  shows "\<exists>evs'. read_packets (length bhs) evs =
      Some (map (\<lambda>(bh, p). (sealed (tx_header bh) p, p)) (zip bhs ps), evs') \<and> ev_bytes evs' = rest"
  using assms
proof (induction bhs ps arbitrary: i frames frees evs rule: list_all2_induct)
  case Nil
  then show ?case by simp
next
  case (Cons bh bhs p ps)
  note w = write_packet_plain [OF Cons.hyps(1), of bus_write]
  obtain fs' fr' where t: "jl_uart_tx_task (\<lambda>_. True) bus_write (i + 1) bhs = Some (fs', fr')"
    and f: "frames = seal_frame (tx_header bh) p # fs'"
    using Cons.prems(2) w Cons.hyps(1) by (auto simp: plain_packet_def bind_eq_Some_conv)
  have ty: "unat (ucast (bh_if_type bh) :: 4 word) < 8"
    using Cons.prems(1) by (simp add: unsigned_ucast_eq take_bit_eq_mod)
  then have ok: "frame_ok (tx_header bh) p"
    using Cons.hyps(1) by (simp add: frame_ok_def plain_packet_def tx_header_def)
  obtain evs1 where r: "jl_uart_read_packet (\<lambda>_. True) 0 evs = Some (Some (sealed (tx_header bh) p, p), evs1)"
    "ev_bytes evs1 = concat fs' @ rest" "ev_clean evs1"
    using read_packet_frame [OF ok, of "\<lambda>_. True" 0 evs "concat fs' @ rest"] Cons.prems f by auto
  show ?case
    using Cons.IH [OF _ t r(3,2)] Cons.prems(1) r(1) by auto
qed

definition demo_bh :: "interface_buffer_handle" where
  "demo_bh = zero_handle\<lparr>bh_if_type := 1, bh_payload := Some [7, 8, 9], bh_payload_len := 3\<rparr>"

theorem uart_stream_roundtrip_witness:
  "\<exists>evs'. read_packets (length [demo_bh]) [U_Data (take 5 (seal_frame (tx_header demo_bh) [7, 8, 9])), U_Idle,
      U_Data (drop 5 (seal_frame (tx_header demo_bh) [7, 8, 9]))] =
    Some (map (\<lambda>(bh, p). (sealed (tx_header bh) p, p)) (zip [demo_bh] [[7, 8, 9]]), evs') \<and> ev_bytes evs' = []"
proof -
  have pl: "plain_packet demo_bh [7, 8, 9]"
    by (simp add: plain_packet_def demo_bh_def zero_handle_def)
  then have a: "list_all2 plain_packet [demo_bh] [[7, 8, 9]]" by simp
  have t: "jl_uart_tx_task (\<lambda>_. True) length 0 [demo_bh] =
      Some ([seal_frame (tx_header demo_bh) [7, 8, 9]], [F_Send])"
    using write_packet_plain [OF pl, of length] by (simp add: demo_bh_def zero_handle_def)
  show ?thesis
    by (rule uart_stream_roundtrip [OF a _ t]) (simp_all add: demo_bh_def zero_handle_def)
qed




text \<open>
  Every received packet's buffer is given back exactly once, whichever interface it is for and
  whether the serial handler keeps, queues or discards it: the error paths of the handler free the
  buffer and clear the caller's pointer, and the receive task frees it otherwise.
\<close>
lemma rx_buffer_freed_once:
  assumes "jl_rx_dispatch mem sbuf qok copy chan pkt hdr payload st = Some st'"
    and "pkt \<noteq> 0" "sbuf \<noteq> pkt" "copy \<noteq> pkt"
  shows "\<exists>fr. jr_frees st' = jr_frees st @ fr \<and> count_list fr pkt = 1"
proof (cases "bh_if_type (rx_handle pkt hdr payload) = if_code ESP_SERIAL_IF")
  case True
  then obtain r h' ll fr n where
    s: "serial_ll_rx_handler mem sbuf qok (Some (rx_handle pkt hdr payload)) (jr_serial st) = Some (r, h', ll, fr, n)"
    and f: "jr_frees st' = jr_frees st @ fr @ snd (free_handle h')"
    using assms(1) by (auto simp: jl_rx_dispatch_def Let_def split: option.splits)
  have "count_list (fr @ snd (free_handle h')) pkt = 1"
    using serial_rx_frees [OF s] assms by (simp add: rx_handle_def)
  then show ?thesis using f by blast
next
  case False
  then show ?thesis
    using assms
    by (auto simp: jl_rx_dispatch_def Let_def free_handle_def rx_handle_def
        split: option.splits if_splits)
qed

definition demo_rx :: jl_rx where
  "demo_rx = \<lparr>jr_serial = demo_ll_state, jr_priv = [], jr_chan = [], jr_frees = []\<rparr>"

text \<open>
  An oversized zero-copy packet is freed twice: \<open>jl_uart_write_packet\<close> releases the payload when
  it rejects the length, and the transmit task releases the private handle afterwards, which for a
  zero-copy packet is the same object.
\<close>

lemma tx_oversize_double_free:
  assumes "bh_zcopy bh \<noteq> 0" "bh_zcopy bh \<noteq> 0xFF" "unat (bh_payload_len bh) > 1588" "bh_free bh" "bh_priv bh \<noteq> 0"
  shows "jl_uart_tx_task mem bus_write i [bh] = Some ([], [F_Payload, F_Priv])"
proof -
  have "bh_payload_len bh \<noteq> 0" using assms(3) by auto
  then show ?thesis using assms by (simp add: jl_uart_write_packet_def Let_def)
qed

end
