(* ===== verification/Rpc_Core.thy ===== *)
theory Rpc_Core
  imports Payload_Header "HOL-Library.Monad_Syntax"
begin

text \<open>
  The remote procedure call core of the host (\<open>src/host/core/src/h_rpc_core.c\<close>): request identifiers,
  the tables that link responses to waiting callers or callbacks, the transmit and receive handling,
  the timeout of asynchronous requests, and the life cycle of the library.

  Requests and semaphores live in explicit stores, so that a release is visible: \<open>None\<close> stands for a use
  or a release of an object that no longer exists, for a call of a null function pointer, and for a wait
  that never ends. The conversion of message bodies (\<open>compose_rpc_req\<close>, \<open>rpc_parse_rsp\<close>,
  \<open>rpc_parse_evt\<close>), the serial link and the allocator enter through their results, which are arguments.
\<close>

section \<open>State\<close>

text \<open>\<open>cc_cb\<close>: the response callback (\<open>0\<close>: a synchronous request); \<open>cc_buf\<close>: the buffer to release after sending.\<close>

record ctrl_cmd =
  cc_msg_id :: int
  cc_uid :: u32
  cc_cb :: nat
  cc_sem :: nat
  cc_buf :: nat

record rpc_rsp =
  rs_msg_id :: int
  rs_uid :: u32
  rs_status :: int

record sync_rsp =
  sy_uid :: u32
  sy_sem :: nat

record async_rsp =
  as_uid :: u32
  as_cb :: nat
  as_timer :: nat
  as_req :: nat

text \<open>
  \<open>rc_heap\<close>: the live requests by address. \<open>rc_sems\<close>: the live response semaphores with their counts.
  \<open>rc_timers\<close>: the armed timers with the request they carry. \<open>rc_rxq\<close>, \<open>rc_txq\<close>, \<open>rc_tx_sem\<close>: the two queues and
  the count of \<open>rpc_tx_sem\<close>. \<open>rc_called\<close>: the callbacks called so far with their argument. \<open>rc_sent\<close>: the
  identifiers of the requests given to the serial link. \<open>rc_frees\<close>: application buffers released. The
  \<open>rc_has\<close> fields say which objects of the library exist.
\<close>

record rpc_core =
  rc_state :: nat
  rc_uid :: u32
  rc_sync :: "sync_rsp list"
  rc_async :: "async_rsp list"
  rc_evt :: "int \<Rightarrow> nat"
  rc_heap :: "nat \<Rightarrow> ctrl_cmd option"
  rc_sems :: "nat \<Rightarrow> nat option"
  rc_timers :: "nat \<Rightarrow> nat option"
  rc_txq :: "nat list"
  rc_tx_sem :: nat
  rc_rxq :: "rpc_rsp list"
  rc_called :: "(nat \<times> rpc_rsp) list"
  rc_sent :: "u32 list"
  rc_frees :: "nat list"
  rc_has_sem :: bool
  rc_has_serial :: bool
  rc_has_rxq :: bool
  rc_has_txq :: bool
  rc_has_mutex :: bool
  rc_threads :: nat

abbreviation (input) RPC_LIB_STATE_INACTIVE :: nat where "RPC_LIB_STATE_INACTIVE \<equiv> 0"
abbreviation (input) RPC_LIB_STATE_INIT :: nat where "RPC_LIB_STATE_INIT \<equiv> 1"
abbreviation (input) RPC_LIB_STATE_READY :: nat where "RPC_LIB_STATE_READY \<equiv> 2"

abbreviation (input) CALLBACK_AVAILABLE :: int where "CALLBACK_AVAILABLE \<equiv> 0"
abbreviation (input) CALLBACK_SET_SUCCESS :: int where "CALLBACK_SET_SUCCESS \<equiv> 0"
abbreviation (input) CALLBACK_NOT_REGISTERED :: int where "CALLBACK_NOT_REGISTERED \<equiv> -1"
abbreviation (input) MSG_ID_OUT_OF_ORDER :: int where "MSG_ID_OUT_OF_ORDER \<equiv> -2"

abbreviation (input) RPC_ID_Req_Base :: int where "RPC_ID_Req_Base \<equiv> 256"
abbreviation (input) RPC_ID_Resp_Base :: int where "RPC_ID_Resp_Base \<equiv> 512"
abbreviation (input) RPC_ID_Resp_Max :: int where "RPC_ID_Resp_Max \<equiv> 653"
abbreviation (input) RPC_ID_Event_Base :: int where "RPC_ID_Event_Base \<equiv> 768"
abbreviation (input) RPC_ID_Event_Max :: int where "RPC_ID_Event_Max \<equiv> 790"

text \<open>The status codes are consecutive from \<open>RPC_ERR_BASE\<close>; here they count from \<open>0\<close>.\<close>

abbreviation (input) RPC_ERR_MEMORY_FAILURE :: int where "RPC_ERR_MEMORY_FAILURE \<equiv> 6"
abbreviation (input) RPC_ERR_PROTOBUF_ENCODE :: int where "RPC_ERR_PROTOBUF_ENCODE \<equiv> 9"
abbreviation (input) RPC_ERR_PROTOBUF_DECODE :: int where "RPC_ERR_PROTOBUF_DECODE \<equiv> 10"
abbreviation (input) RPC_ERR_SET_ASYNC_CB :: int where "RPC_ERR_SET_ASYNC_CB \<equiv> 11"
abbreviation (input) RPC_ERR_TRANSPORT_SEND :: int where "RPC_ERR_TRANSPORT_SEND \<equiv> 12"

definition is_rpc_lib_ready :: "rpc_core \<Rightarrow> bool" where
  "is_rpc_lib_ready st = (rc_state st \<ge> RPC_LIB_STATE_READY)"

definition is_rpc_lib_inactive :: "rpc_core \<Rightarrow> bool" where
  "is_rpc_lib_inactive st = (rc_state st = RPC_LIB_STATE_INACTIVE)"

section \<open>Objects\<close>

definition h_free_req :: "nat \<Rightarrow> rpc_core \<Rightarrow> rpc_core option" where
  "h_free_req p st =
     (if p = 0 then Some st
      else case rc_heap st p of None \<Rightarrow> None
        | Some _ \<Rightarrow> Some (st\<lparr>rc_heap := (rc_heap st)(p := None)\<rparr>))"

definition h_sem_give :: "nat \<Rightarrow> rpc_core \<Rightarrow> (int \<times> rpc_core) option" where
  "h_sem_give s st =
     (if s = 0 then Some (h_err_code H_ERR_INVALID_ARG, st)
      else case rc_sems st s of None \<Rightarrow> None
        | Some n \<Rightarrow> Some (h_err_code H_OK, st\<lparr>rc_sems := (rc_sems st)(s \<mapsto> n + 1)\<rparr>))"

text \<open>\<open>tmo\<close> is the error the port returns when the time is up.\<close>

definition h_sem_take :: "int \<Rightarrow> nat \<Rightarrow> rpc_core \<Rightarrow> (int \<times> rpc_core) option" where
  "h_sem_take tmo s st =
     (if s = 0 then Some (h_err_code H_ERR_INVALID_ARG, st)
      else case rc_sems st s of None \<Rightarrow> None
        | Some 0 \<Rightarrow> Some (tmo, st)
        | Some (Suc n) \<Rightarrow> Some (0, st\<lparr>rc_sems := (rc_sems st)(s \<mapsto> n)\<rparr>))"

definition h_sem_delete :: "nat \<Rightarrow> rpc_core \<Rightarrow> rpc_core option" where
  "h_sem_delete s st =
     (if s = 0 then Some st
      else case rc_sems st s of None \<Rightarrow> None
        | Some _ \<Rightarrow> Some (st\<lparr>rc_sems := (rc_sems st)(s := None)\<rparr>))"

text \<open>The release hook of the application buffer of request \<open>p\<close>; the pointer is cleared.\<close>

definition free_app_buf :: "nat \<Rightarrow> rpc_core \<Rightarrow> rpc_core option" where
  "free_app_buf p st = do {
     req \<leftarrow> rc_heap st p;
     if cc_buf req = 0 then Some st
     else Some (st\<lparr>rc_frees := rc_frees st @ [cc_buf req], rc_heap := (rc_heap st)(p \<mapsto> req\<lparr>cc_buf := 0\<rparr>)\<rparr>)
   }"

text \<open>The first slot of a table that satisfies a condition: every search loop of the file.\<close>

fun first_slot :: "('a \<Rightarrow> bool) \<Rightarrow> 'a list \<Rightarrow> nat option" where
  "first_slot P [] = None"
| "first_slot P (x # xs) = (if P x then Some 0 else map_option Suc (first_slot P xs))"

section \<open>Events\<close>

definition is_event_callback_registered :: "int \<Rightarrow> rpc_core \<Rightarrow> int" where
  "is_event_callback_registered event st =
     (if event \<le> RPC_ID_Event_Base \<or> event \<ge> RPC_ID_Event_Max then MSG_ID_OUT_OF_ORDER
      else if rc_evt st (event - RPC_ID_Event_Base) \<noteq> 0 then CALLBACK_AVAILABLE
      else CALLBACK_NOT_REGISTERED)"

definition set_event_callback :: "int \<Rightarrow> nat \<Rightarrow> rpc_core \<Rightarrow> int \<times> rpc_core" where
  "set_event_callback event cb st =
     (if event \<le> RPC_ID_Event_Base \<or> event \<ge> RPC_ID_Event_Max then (MSG_ID_OUT_OF_ORDER, st)
      else (CALLBACK_SET_SUCCESS, st\<lparr>rc_evt := (rc_evt st)(event - RPC_ID_Event_Base := cb)\<rparr>))"

definition reset_event_callback :: "int \<Rightarrow> rpc_core \<Rightarrow> int \<times> rpc_core" where
  "reset_event_callback event st = set_event_callback event 0 st"

definition call_event_callback :: "rpc_rsp \<Rightarrow> rpc_core \<Rightarrow> rpc_core" where
  "call_event_callback e st =
     (if rs_msg_id e \<le> RPC_ID_Event_Base \<or> rs_msg_id e \<ge> RPC_ID_Event_Max then st
      else if rc_evt st (rs_msg_id e - RPC_ID_Event_Base) \<noteq> 0
      then st\<lparr>rc_called := rc_called st @ [(rc_evt st (rs_msg_id e - RPC_ID_Event_Base), e)]\<rparr>
      else st)"

section \<open>Asynchronous requests\<close>

definition expected_rsp_id :: "ctrl_cmd \<Rightarrow> int" where
  "expected_rsp_id req = cc_msg_id req - RPC_ID_Req_Base + RPC_ID_Resp_Base"

definition rsp_in_range :: "rpc_rsp \<Rightarrow> bool" where
  "rsp_in_range r = (RPC_ID_Resp_Base \<le> rs_msg_id r \<and> rs_msg_id r < RPC_ID_Resp_Max)"

definition is_async_resp_callback_available :: "rpc_rsp \<Rightarrow> rpc_core \<Rightarrow> int" where
  "is_async_resp_callback_available r st =
     (if \<not> rsp_in_range r then MSG_ID_OUT_OF_ORDER
      else case first_slot (\<lambda>a. as_uid a = rs_uid r) (rc_async st) of
             None \<Rightarrow> CALLBACK_NOT_REGISTERED | Some _ \<Rightarrow> CALLBACK_AVAILABLE)"

definition set_async_resp_callback :: "nat \<Rightarrow> nat \<Rightarrow> nat \<Rightarrow> rpc_core \<Rightarrow> (int \<times> rpc_core) option" where
  "set_async_resp_callback p cb timer st = do {
     req \<leftarrow> rc_heap st p;
     if expected_rsp_id req \<ge> RPC_ID_Resp_Max then Some (MSG_ID_OUT_OF_ORDER, st)
     else case first_slot (\<lambda>a. as_uid a = 0) (rc_async st) of
         None \<Rightarrow> Some (CALLBACK_NOT_REGISTERED, st)
       | Some i \<Rightarrow> Some (CALLBACK_SET_SUCCESS, st\<lparr>rc_async := (rc_async st)
           [i := \<lparr>as_uid = cc_uid req, as_cb = cb, as_timer = timer, as_req = p\<rparr>]\<rparr>)
   }"

text \<open>The slot keeps the address of the request it has released.\<close>

definition clear_async_resp_callback :: "nat \<Rightarrow> rpc_core \<Rightarrow> rpc_core option" where
  "clear_async_resp_callback i st =
     (let a = rc_async st ! i in
      if as_uid a = 0 then Some st
      else do {
        let st = (if as_timer a \<noteq> 0 then st\<lparr>rc_timers := (rc_timers st)(as_timer a := None)\<rparr> else st);
        st \<leftarrow> h_free_req (as_req a) st;
        Some (st\<lparr>rc_async := (rc_async st)[i := a\<lparr>as_uid := 0, as_cb := 0, as_timer := 0\<rparr>]\<rparr>)
      })"

definition call_async_resp_callback :: "rpc_rsp \<Rightarrow> rpc_core \<Rightarrow> rpc_core option" where
  "call_async_resp_callback r st =
     (if \<not> rsp_in_range r then Some st
      else case first_slot (\<lambda>a. as_uid a = rs_uid r) (rc_async st) of
          None \<Rightarrow> Some st
        | Some i \<Rightarrow>
            if as_cb (rc_async st ! i) = 0 then None
            else clear_async_resp_callback i
                   (st\<lparr>rc_called := rc_called st @ [(as_cb (rc_async st ! i), r)]\<rparr>))"


section \<open>Synchronous requests\<close>

definition is_sync_resp_sem_available :: "u32 \<Rightarrow> rpc_core \<Rightarrow> int" where
  "is_sync_resp_sem_available uid st =
     (case first_slot (\<lambda>s. sy_uid s = uid) (rc_sync st) of
        None \<Rightarrow> CALLBACK_NOT_REGISTERED | Some _ \<Rightarrow> CALLBACK_AVAILABLE)"

definition post_sync_resp_sem :: "rpc_rsp \<Rightarrow> rpc_core \<Rightarrow> (int \<times> rpc_core) option" where
  "post_sync_resp_sem r st =
     (if \<not> rsp_in_range r then Some (MSG_ID_OUT_OF_ORDER, st)
      else case first_slot (\<lambda>s. sy_uid s = rs_uid r) (rc_sync st) of
          None \<Rightarrow> Some (CALLBACK_NOT_REGISTERED, st)
        | Some i \<Rightarrow> h_sem_give (sy_sem (rc_sync st ! i)) st)"

text \<open>\<open>sem\<close>: the semaphore \<open>h_sem_create\<close> returns (\<open>0\<close>: it fails).\<close>

definition set_sync_resp_sem :: "nat \<Rightarrow> nat \<Rightarrow> rpc_core \<Rightarrow> (int \<times> rpc_core) option" where
  "set_sync_resp_sem sem p st = do {
     req \<leftarrow> rc_heap st p;
     st \<leftarrow> h_sem_delete (cc_sem req) st;
     if expected_rsp_id req \<ge> RPC_ID_Resp_Max then Some (MSG_ID_OUT_OF_ORDER, st)
     else if cc_cb req = 0 then
       (if sem = 0 then Some (CALLBACK_NOT_REGISTERED, st)
        else
          let st = st\<lparr>rc_sems := (rc_sems st)(sem \<mapsto> 0), rc_heap := (rc_heap st)(p \<mapsto> req\<lparr>cc_sem := sem\<rparr>)\<rparr> in
          case first_slot (\<lambda>s. sy_uid s = 0) (rc_sync st) of
            None \<Rightarrow> Some (CALLBACK_NOT_REGISTERED, st)
          | Some i \<Rightarrow> Some (CALLBACK_SET_SUCCESS,
              st\<lparr>rc_sync := (rc_sync st)[i := \<lparr>sy_uid = cc_uid req, sy_sem = sem\<rparr>]\<rparr>))
     else Some (CALLBACK_NOT_REGISTERED, st)
   }"

text \<open>The end of the wait: the semaphore was given, or the time is up (\<open>tmo\<close>, not 0).\<close>

definition wait_for_sync_response :: "int \<Rightarrow> nat \<Rightarrow> rpc_core \<Rightarrow> (int \<times> rpc_core) option" where
  "wait_for_sync_response tmo p st = do {
     req \<leftarrow> rc_heap st p;
     if expected_rsp_id req \<ge> RPC_ID_Resp_Max then Some (MSG_ID_OUT_OF_ORDER, st)
     else case first_slot (\<lambda>s. sy_uid s = cc_uid req) (rc_sync st) of
         None \<Rightarrow> Some (MSG_ID_OUT_OF_ORDER, st)
       | Some i \<Rightarrow> do {
           let s = sy_sem (rc_sync st ! i);
           (ret, st) \<leftarrow> h_sem_take tmo s st;
           st \<leftarrow> h_sem_delete s st;
           Some (ret, st\<lparr>rc_sync := (rc_sync st)[i := \<lparr>sy_uid = 0, sy_sem = 0\<rparr>]\<rparr>)
         }
   }"

definition get_response :: "int \<Rightarrow> nat \<Rightarrow> rpc_core \<Rightarrow> (rpc_rsp option \<times> rpc_core) option" where
  "get_response tmo p st = do {
     (ret, st) \<leftarrow> wait_for_sync_response tmo p st;
     if ret \<noteq> 0 then Some (None, st)
     else case rc_rxq st of [] \<Rightarrow> None
       | r # q \<Rightarrow> Some (Some r, st\<lparr>rc_rxq := q\<rparr>)
   }"

definition rpc_wait_and_parse_sync_resp :: "int \<Rightarrow> nat \<Rightarrow> rpc_core \<Rightarrow> (rpc_rsp option \<times> rpc_core) option" where
  "rpc_wait_and_parse_sync_resp tmo p st = do {
     (r, st) \<leftarrow> get_response tmo p st;
     st \<leftarrow> h_free_req p st;
     Some (r, st)
   }"

section \<open>Sending\<close>

definition next_uid :: "u32 \<Rightarrow> u32" where
  "next_uid uid = (let uid = uid + 1 in if uid = 0 then uid + 1 else uid)"

definition send_req_fail :: "nat \<Rightarrow> rpc_core \<Rightarrow> (h_err \<times> rpc_core) option" where
  "send_req_fail p st = do {
     req \<leftarrow> rc_heap st p;
     st \<leftarrow> h_sem_delete (cc_sem req) st;
     st \<leftarrow> free_app_buf p st;
     st \<leftarrow> h_free_req p st;
     Some (H_FAIL, st)
   }"

text \<open>\<open>q\<close>: \<open>h_queue_send\<close> succeeds (it waits for room).\<close>

definition rpc_send_req :: "nat \<Rightarrow> bool \<Rightarrow> nat \<Rightarrow> rpc_core \<Rightarrow> (h_err \<times> rpc_core) option" where
  "rpc_send_req sem q p st =
     (if p = 0 then Some (H_FAIL, st)
      else do {
        req \<leftarrow> rc_heap st p;
        let uid = next_uid (rc_uid st);
        let st = st\<lparr>rc_uid := uid, rc_heap := (rc_heap st)(p \<mapsto> req\<lparr>cc_uid := uid\<rparr>)\<rparr>;
        (ret, st) \<leftarrow> (if cc_cb req = 0 then set_sync_resp_sem sem p st else Some (0, st));
        if ret \<noteq> 0 then send_req_fail p st
        else if \<not> q then send_req_fail p st
        else Some (H_OK, st\<lparr>rc_txq := rc_txq st @ [p], rc_tx_sem := rc_tx_sem st + 1\<rparr>)
      })"

text \<open>The failure path of \<open>process_rpc_tx_msg\<close>. The response it builds leaves \<open>uid\<close> at zero.\<close>

definition rpc_tx_fail :: "int \<Rightarrow> bool \<Rightarrow> nat \<Rightarrow> rpc_core \<Rightarrow> (h_err \<times> rpc_core) option" where
  "rpc_tx_fail failure_status rmem p st = do {
     req \<leftarrow> rc_heap st p;
     let r = \<lparr>rs_msg_id = expected_rsp_id req mod 65536, rs_uid = 0, rs_status = failure_status\<rparr>;
     st \<leftarrow> (if \<not> rmem then Some st
            else if cc_cb req \<noteq> 0 then Some (st\<lparr>rc_called := rc_called st @ [(cc_cb req, r)]\<rparr>)
            else do {
              let st = st\<lparr>rc_rxq := rc_rxq st @ [r]\<rparr>;
              if is_sync_resp_sem_available (rs_uid r) st = CALLBACK_AVAILABLE
              then map_option snd (post_sync_resp_sem r st) else Some st
            });
     st \<leftarrow> free_app_buf p st;
     st \<leftarrow> (if cc_cb req \<noteq> 0 \<and> first_slot (\<lambda>a. as_uid a = cc_uid req) (rc_async st) = None
            then h_free_req p st else Some st);
     Some (H_FAIL, st)
   }"

text \<open>
  \<open>compose\<close>: the failure status of \<open>compose_rpc_req\<close> (\<open>None\<close>: success); \<open>tx_len\<close>: the packed size; \<open>mem\<close>: the
  message buffer is available; \<open>timer\<close>: the timer created and started (\<open>0\<close>: a failure); \<open>send\<close>:
  \<open>h_serial_if_send\<close> succeeds.
\<close>

definition process_rpc_tx_msg ::
  "int option \<Rightarrow> nat \<Rightarrow> bool \<Rightarrow> nat \<Rightarrow> bool \<Rightarrow> bool \<Rightarrow> nat \<Rightarrow> rpc_core \<Rightarrow> (h_err \<times> rpc_core) option" where
  "process_rpc_tx_msg compose tx_len mem timer send rmem p st = do {
     req \<leftarrow> rc_heap st p;
     case compose of
       Some status \<Rightarrow> rpc_tx_fail status rmem p st
     | None \<Rightarrow>
         if tx_len = 0 then rpc_tx_fail RPC_ERR_PROTOBUF_ENCODE rmem p st
         else if \<not> mem then rpc_tx_fail RPC_ERR_MEMORY_FAILURE rmem p st
         else if cc_cb req \<noteq> 0 \<and> timer = 0 then rpc_tx_fail 0 rmem p st
         else do {
           (ret, st) \<leftarrow> (if cc_cb req \<noteq> 0
              then set_async_resp_callback p (cc_cb req) timer (st\<lparr>rc_timers := (rc_timers st)(timer \<mapsto> p)\<rparr>)
              else Some (0, st));
           if ret < 0 then rpc_tx_fail RPC_ERR_SET_ASYNC_CB rmem p st
           else if \<not> send then rpc_tx_fail RPC_ERR_TRANSPORT_SEND rmem p st
           else do {
             st \<leftarrow> free_app_buf p (st\<lparr>rc_sent := rc_sent st @ [cc_uid req]\<rparr>);
             Some (H_OK, st)
           }
         }
   }"

text \<open>One turn of \<open>rpc_tx_thread\<close> once the library is ready.\<close>

definition rpc_tx_step ::
  "int option \<Rightarrow> nat \<Rightarrow> bool \<Rightarrow> nat \<Rightarrow> bool \<Rightarrow> bool \<Rightarrow> rpc_core \<Rightarrow> rpc_core option" where
  "rpc_tx_step compose tx_len mem timer send rmem st =
     (if \<not> is_rpc_lib_ready st then Some st
      else if rc_tx_sem st = 0 then None
      else
        let st = st\<lparr>rc_tx_sem := rc_tx_sem st - 1\<rparr> in
        case rc_txq st of [] \<Rightarrow> None
        | p # q \<Rightarrow>
            let st = st\<lparr>rc_txq := q\<rparr> in
            if p = 0 then Some st
            else map_option snd (process_rpc_tx_msg compose tx_len mem timer send rmem p st))"

section \<open>Receiving\<close>

datatype rpc_type = RPC_Req | RPC_Resp | RPC_Event | RPC_Invalid

record rpc_msg =
  pm_type :: rpc_type
  pm_msg_id :: int
  pm_uid :: u32

text \<open>
  \<open>process_rpc_rx_msg\<close>: \<open>amem\<close>: the application structure is available; \<open>parse\<close>: the result of the body
  conversion, a status or \<open>None\<close> for a failure; \<open>q\<close>: the receive queue takes the response.
\<close>

definition process_rpc_rx_msg ::
  "bool \<Rightarrow> int option \<Rightarrow> bool \<Rightarrow> rpc_msg option \<Rightarrow> rpc_core \<Rightarrow> (int \<times> rpc_core) option" where
  "process_rpc_rx_msg amem parse q msg st =
     (case msg of None \<Rightarrow> Some (h_err_code H_FAIL, st)
      | Some pm \<Rightarrow>
        (case pm_type pm of
           RPC_Event \<Rightarrow>
             if is_event_callback_registered (pm_msg_id pm) st = CALLBACK_AVAILABLE then
               (if \<not> amem then Some (RPC_ERR_PROTOBUF_DECODE, st)
                else case parse of None \<Rightarrow> Some (RPC_ERR_PROTOBUF_DECODE, st)
                  | Some status \<Rightarrow>
                      Some (0, call_event_callback
                        \<lparr>rs_msg_id = pm_msg_id pm, rs_uid = pm_uid pm, rs_status = status\<rparr> st))
             else Some (RPC_ERR_PROTOBUF_DECODE, st)
         | RPC_Resp \<Rightarrow>
             if \<not> amem then Some (RPC_ERR_PROTOBUF_DECODE, st)
             else (case parse of None \<Rightarrow> Some (RPC_ERR_PROTOBUF_DECODE, st)
               | Some status \<Rightarrow>
                   let r = \<lparr>rs_msg_id = pm_msg_id pm, rs_uid = pm_uid pm, rs_status = status\<rparr> in
                   if is_async_resp_callback_available r st = CALLBACK_AVAILABLE then
                     map_option (\<lambda>st. (0, st)) (call_async_resp_callback r st)
                   else if \<not> q then Some (RPC_ERR_PROTOBUF_DECODE, st)
                   else
                     let st = st\<lparr>rc_rxq := rc_rxq st @ [r]\<rparr> in
                     if is_sync_resp_sem_available (rs_uid r) st = CALLBACK_AVAILABLE
                     then map_option (\<lambda>x. (0, snd x)) (post_sync_resp_sem r st)
                     else Some (0, st))
         | _ \<Rightarrow> Some (RPC_ERR_PROTOBUF_DECODE, st)))"

section \<open>Life cycle\<close>

definition cleanup_async :: "nat \<Rightarrow> rpc_core \<Rightarrow> rpc_core option" where
  "cleanup_async i st = do {
     let a = rc_async st ! i;
     let st = (if as_timer a \<noteq> 0 then st\<lparr>rc_timers := (rc_timers st)(as_timer a := None)\<rparr> else st);
     st \<leftarrow> h_free_req (as_req a) st;
     Some (st\<lparr>rc_async := (rc_async st)[i := \<lparr>as_uid = 0, as_cb = 0, as_timer = 0, as_req = 0\<rparr>]\<rparr>)
   }"

definition cleanup_sync :: "nat \<Rightarrow> rpc_core \<Rightarrow> rpc_core option" where
  "cleanup_sync i st = do {
     st \<leftarrow> h_sem_delete (sy_sem (rc_sync st ! i)) st;
     Some (st\<lparr>rc_sync := (rc_sync st)[i := \<lparr>sy_uid = 0, sy_sem = 0\<rparr>]\<rparr>)
   }"

fun for_slots :: "(nat \<Rightarrow> 's \<Rightarrow> 's option) \<Rightarrow> nat list \<Rightarrow> 's \<Rightarrow> 's option" where
  "for_slots f [] st = Some st"
| "for_slots f (i # is) st = do { st \<leftarrow> f i st; for_slots f is st }"

definition cleanup_sync_async_timer_table :: "rpc_core \<Rightarrow> rpc_core option" where
  "cleanup_sync_async_timer_table st = do {
     st \<leftarrow> for_slots cleanup_async [0..<length (rc_async st)] st;
     for_slots cleanup_sync [0..<length (rc_sync st)] st
   }"

text \<open>\<open>cancel\<close>: the threads can be deleted.\<close>

definition rpc_core_deinit :: "bool \<Rightarrow> rpc_core \<Rightarrow> (h_err \<times> rpc_core) option" where
  "rpc_core_deinit cancel st =
     (if is_rpc_lib_inactive st then Some (H_OK, st)
      else do {
        let st = st\<lparr>rc_state := RPC_LIB_STATE_INACTIVE, rc_rxq := [], rc_has_rxq := False\<rparr>;
        st \<leftarrow> for_slots h_free_req (rc_txq st) st;
        let st = st\<lparr>rc_txq := [], rc_has_txq := False, rc_has_sem := False, rc_tx_sem := 0\<rparr>;
        st \<leftarrow> cleanup_sync_async_timer_table st;
        let st = st\<lparr>rc_threads := (if cancel then 0 else rc_threads st), rc_has_mutex := False, rc_has_serial := False\<rparr>;
        Some (if cancel then H_OK else H_FAIL, st)
      })"

text \<open>The arguments say which creations succeed, in the order of the code.\<close>

definition rpc_core_init ::
  "bool \<Rightarrow> bool \<Rightarrow> bool \<Rightarrow> bool \<Rightarrow> bool \<Rightarrow> bool \<Rightarrow> bool \<Rightarrow> rpc_core \<Rightarrow> (h_err \<times> rpc_core) option" where
  "rpc_core_init sem serial rxq txq mutex thr1 thr2 st =
     (let fail = (\<lambda>st. map_option (\<lambda>x. (H_FAIL, snd x)) (rpc_core_deinit True st)) in
      if \<not> sem then fail st
      else let st = st\<lparr>rc_has_sem := True\<rparr> in
      if \<not> serial then fail st
      else let st = st\<lparr>rc_has_serial := True\<rparr> in
      if \<not> rxq then fail st
      else let st = st\<lparr>rc_has_rxq := True\<rparr> in
      if \<not> txq then fail st
      else let st = st\<lparr>rc_has_txq := True\<rparr> in
      if \<not> mutex then fail st
      else let st = st\<lparr>rc_has_mutex := True\<rparr> in
      if \<not> thr1 then fail st
      else let st = st\<lparr>rc_threads := 1\<rparr> in
      if \<not> thr2 then fail st
      else Some (H_OK, st\<lparr>rc_threads := 2, rc_state := RPC_LIB_STATE_INIT\<rparr>))"

definition rpc_core_start :: "rpc_core \<Rightarrow> h_err \<times> rpc_core" where
  "rpc_core_start st = (H_OK, st\<lparr>rc_state := RPC_LIB_STATE_READY\<rparr>)"

definition rpc_core_stop :: "rpc_core \<Rightarrow> h_err \<times> rpc_core" where
  "rpc_core_stop st = (if is_rpc_lib_inactive st then (H_OK, st) else (H_OK, st\<lparr>rc_state := RPC_LIB_STATE_INIT\<rparr>))"

section \<open>Lemmas\<close>

lemma first_slot_SomeD:
  "first_slot P xs = Some i \<Longrightarrow> i < length xs \<and> P (xs ! i) \<and> (\<forall>j<i. \<not> P (xs ! j))"
proof (induction xs arbitrary: i)
  case Nil
  then show ?case by simp
next
  case (Cons x xs)
  show ?case
  proof (cases "P x")
    case True
    then show ?thesis using Cons.prems by simp
  next
    case False
    then obtain k where "first_slot P xs = Some k" "i = Suc k" using Cons.prems by auto
    then show ?thesis using Cons.IH [of k] False by (auto simp: nth_Cons split: nat.splits)
  qed
qed

lemma first_slot_None: "first_slot P xs = None \<longleftrightarrow> (\<forall>x\<in>set xs. \<not> P x)"
  by (induction xs) auto

lemma first_slot_SomeI:
  assumes "i < length xs" "P (xs ! i)" "\<And>j. j < i \<Longrightarrow> \<not> P (xs ! j)"
  shows "first_slot P xs = Some i"
  using assms
proof (induction xs arbitrary: i)
  case Nil
  then show ?case by simp
next
  case (Cons x xs)
  show ?case
  proof (cases i)
    case 0
    then show ?thesis using Cons.prems(2) by simp
  next
    case (Suc k)
    have "\<not> P x" using Cons.prems(3) [of 0] Suc by simp
    moreover have "\<not> P (xs ! j)" if "j < k" for j using Cons.prems(3) [of "Suc j"] that Suc by simp
    ultimately show ?thesis using Cons.IH [of k] Cons.prems(1,2) Suc by simp
  qed
qed

lemma first_slot_update:
  assumes "i < length xs" "P v" "\<forall>x\<in>set xs. \<not> P x"
  shows "first_slot P (xs[i := v]) = Some i"
  using assms by (intro first_slot_SomeI) (auto simp: nth_list_update)

lemma first_slot_exists: "\<exists>x\<in>set xs. P x \<Longrightarrow> \<exists>i. first_slot P xs = Some i"
  using first_slot_None [of P xs] by (cases "first_slot P xs") auto

text \<open>Identifiers.\<close>

lemma next_uid_nz [simp]: "next_uid u \<noteq> 0"
  by (simp add: next_uid_def Let_def)

lemma unat_next_uid:
  assumes "u \<noteq> 0"
  shows "unat (next_uid u) = unat u mod (2 ^ 32 - 1) + 1"
proof (cases "u + 1 = 0")
  case True
  then have "u = - 1" by (simp add: eq_neg_iff_add_eq_0)
  then have "unat u = 2 ^ 32 - 1" by (simp add: unsigned_minus_1_eq_mask mask_eq_exp_minus_1)
  then show ?thesis using True by (simp add: next_uid_def)
next
  case False
  then have s: "unat (u + 1) = unat u + 1" by (metis unatSuc add.commute Suc_eq_plus1)
  moreover have "unat (u + 1) < 2 ^ 32" using unsigned_less [of "u + 1", where ?'a = nat] by simp
  ultimately show ?thesis using False by (simp add: next_uid_def)
qed

lemma unat_next_uid_funpow:
  assumes "u \<noteq> 0"
  shows "unat ((next_uid ^^ k) u) = (unat u - 1 + k) mod (2 ^ 32 - 1) + 1 \<and> (next_uid ^^ k) u \<noteq> 0"
proof (induction k)
  case 0
  have "0 < unat u" using assms by (simp add: unat_gt_0)
  moreover have "unat u < 2 ^ 32" using unsigned_less [of u, where ?'a = nat] by simp
  ultimately show ?case using assms by simp
next
  case (Suc k)
  then have nz: "(next_uid ^^ k) u \<noteq> 0" by simp
  have "unat (next_uid ((next_uid ^^ k) u)) = ((unat u - 1 + k) mod (2 ^ 32 - 1) + 1) mod (2 ^ 32 - 1) + 1"
    using unat_next_uid [OF nz] Suc by simp
  then show ?case by (simp add: mod_simps)
qed

section \<open>A synchronous call\<close>

text \<open>
  The sequence of a call: the request is queued, sent by the transmit thread, the message \<open>pm\<close> arrives, and
  the caller takes its result. \<open>sem\<close> is the new semaphore, \<open>status\<close> the decoded status.
\<close>

definition sync_call :: "nat \<Rightarrow> int \<Rightarrow> int \<Rightarrow> rpc_msg \<Rightarrow> nat \<Rightarrow> rpc_core \<Rightarrow> (rpc_rsp option \<times> rpc_core) option" where
  "sync_call sem tmo status pm p st = do {
     (e, st) \<leftarrow> rpc_send_req sem True p st;
     st \<leftarrow> rpc_tx_step None 1 True 0 True True st;
     (c, st) \<leftarrow> process_rpc_rx_msg True (Some status) True (Some pm) st;
     rpc_wait_and_parse_sync_resp tmo p st
   }"

text \<open>The library is ready, nothing is being sent, \<open>p\<close> is a new synchronous request and a slot is free.\<close>

definition can_call :: "nat \<Rightarrow> nat \<Rightarrow> rpc_core \<Rightarrow> bool" where
  "can_call sem p st =
     (p \<noteq> 0 \<and> sem \<noteq> 0 \<and> rc_sems st sem = None \<and> is_rpc_lib_ready st \<and> rc_txq st = [] \<and> rc_tx_sem st = 0 \<and>
      (case rc_heap st p of None \<Rightarrow> False
       | Some req \<Rightarrow> cc_cb req = 0 \<and> cc_sem req = 0 \<and> cc_buf req = 0 \<and> cc_msg_id req < 397) \<and>
      list_ex (\<lambda>s. sy_uid s = 0) (rc_sync st) \<and>
      list_all (\<lambda>s. sy_uid s \<noteq> next_uid (rc_uid st)) (rc_sync st) \<and>
      list_all (\<lambda>a. as_uid a \<noteq> next_uid (rc_uid st)) (rc_async st))"

lemma can_call_obtains:
  assumes "can_call sem p st"
  obtains req i where "rc_heap st p = Some req" "cc_cb req = 0" "cc_sem req = 0" "cc_buf req = 0" "cc_msg_id req < 397"
    "first_slot (\<lambda>s. sy_uid s = 0) (rc_sync st) = Some i" "i < length (rc_sync st)"
    "\<forall>s\<in>set (rc_sync st). sy_uid s \<noteq> next_uid (rc_uid st)" "\<forall>a\<in>set (rc_async st). as_uid a \<noteq> next_uid (rc_uid st)"
    "p \<noteq> 0" "sem \<noteq> 0" "rc_sems st sem = None" "is_rpc_lib_ready st" "rc_txq st = []" "rc_tx_sem st = 0"
proof -
  obtain req where r: "rc_heap st p = Some req" using assms by (auto simp: can_call_def split: option.splits)
  have "\<exists>s\<in>set (rc_sync st). sy_uid s = 0" using assms by (simp add: can_call_def list_ex_iff)
  from first_slot_exists [of "rc_sync st" "\<lambda>s. sy_uid s = 0", OF this]
  obtain i where i: "first_slot (\<lambda>s. sy_uid s = 0) (rc_sync st) = Some i" by blast
  show ?thesis
    by (rule that [of req i]) (use assms r i first_slot_SomeD [OF i] in \<open>simp_all add: can_call_def list_all_iff\<close>)
qed

text \<open>After the request was queued: its semaphore is registered in the first free slot.\<close>

lemma sync_queued:
  assumes "can_call sem p st"
  shows "\<exists>req i. rc_heap st p = Some req \<and> first_slot (\<lambda>s. sy_uid s = 0) (rc_sync st) = Some i \<and> i < length (rc_sync st) \<and>
    cc_cb req = 0 \<and> cc_buf req = 0 \<and> cc_msg_id req < 397 \<and>
    rpc_send_req sem True p st = Some (H_OK, st\<lparr>rc_uid := next_uid (rc_uid st),
       rc_heap := (rc_heap st)(p \<mapsto> req\<lparr>cc_uid := next_uid (rc_uid st), cc_sem := sem\<rparr>),
       rc_sems := (rc_sems st)(sem \<mapsto> 0),
       rc_sync := (rc_sync st)[i := \<lparr>sy_uid = next_uid (rc_uid st), sy_sem = sem\<rparr>],
       rc_txq := [p], rc_tx_sem := 1\<rparr>)"
proof -
  from assms obtain req i where a: "rc_heap st p = Some req" "cc_cb req = 0" "cc_sem req = 0" "cc_buf req = 0"
    "cc_msg_id req < 397" "first_slot (\<lambda>s. sy_uid s = 0) (rc_sync st) = Some i" "i < length (rc_sync st)"
    "p \<noteq> 0" "sem \<noteq> 0" "rc_sems st sem = None" "rc_txq st = []" "rc_tx_sem st = 0"
    by (rule can_call_obtains)
  have e: "expected_rsp_id (req\<lparr>cc_uid := next_uid (rc_uid st)\<rparr>) < 653" using a(5) by (simp add: expected_rsp_id_def)
  show ?thesis
    using a e
    by (intro exI [of _ req] exI [of _ i]) (simp add: rpc_send_req_def set_sync_resp_sem_def h_sem_delete_def Let_def)
qed

text \<open>And after it was sent.\<close>

lemma sync_sent:
  assumes "can_call sem p st"
  shows "\<exists>req i st1. rc_heap st p = Some req \<and> first_slot (\<lambda>s. sy_uid s = 0) (rc_sync st) = Some i \<and> i < length (rc_sync st) \<and>
    rpc_send_req sem True p st = Some (H_OK, st1) \<and>
    rpc_tx_step None 1 True 0 True True st1 = Some (st\<lparr>rc_uid := next_uid (rc_uid st),
       rc_heap := (rc_heap st)(p \<mapsto> req\<lparr>cc_uid := next_uid (rc_uid st), cc_sem := sem\<rparr>),
       rc_sems := (rc_sems st)(sem \<mapsto> 0),
       rc_sync := (rc_sync st)[i := \<lparr>sy_uid = next_uid (rc_uid st), sy_sem = sem\<rparr>],
       rc_sent := rc_sent st @ [next_uid (rc_uid st)]\<rparr>)"
proof -
  from sync_queued [OF assms] obtain req i where a: "rc_heap st p = Some req"
    "first_slot (\<lambda>s. sy_uid s = 0) (rc_sync st) = Some i" "i < length (rc_sync st)" "cc_cb req = 0" "cc_buf req = 0"
    and send: "rpc_send_req sem True p st = Some (H_OK, st\<lparr>rc_uid := next_uid (rc_uid st),
       rc_heap := (rc_heap st)(p \<mapsto> req\<lparr>cc_uid := next_uid (rc_uid st), cc_sem := sem\<rparr>),
       rc_sems := (rc_sems st)(sem \<mapsto> 0),
       rc_sync := (rc_sync st)[i := \<lparr>sy_uid = next_uid (rc_uid st), sy_sem = sem\<rparr>],
       rc_txq := [p], rc_tx_sem := 1\<rparr>)" (is "_ = Some (H_OK, ?st1)")
    by blast
  have r1: "is_rpc_lib_ready ?st1" "p \<noteq> 0" "rc_txq st = []" "rc_tx_sem st = 0"
    using assms by (auto simp: is_rpc_lib_ready_def can_call_def)
  have "rpc_tx_step None 1 True 0 True True ?st1 =
      Some (?st1\<lparr>rc_tx_sem := 0, rc_txq := [], rc_sent := rc_sent ?st1 @ [next_uid (rc_uid st)]\<rparr>)"
    using r1(1,2) a by (simp add: rpc_tx_step_def process_rpc_tx_msg_def free_app_buf_def Let_def)
  then show ?thesis
    using a(1-3) send r1(3,4) by (intro exI [of _ req] exI [of _ i] exI [of _ ?st1]) simp
qed

definition rsp_of :: "rpc_msg \<Rightarrow> int \<Rightarrow> rpc_rsp" where
  "rsp_of pm status = \<lparr>rs_msg_id = pm_msg_id pm, rs_uid = pm_uid pm, rs_status = status\<rparr>"

definition good_rsp :: "u32 \<Rightarrow> rpc_msg \<Rightarrow> bool" where
  "good_rsp u pm = (pm_type pm = RPC_Resp \<and> 512 \<le> pm_msg_id pm \<and> pm_msg_id pm < 653 \<and> pm_uid pm = u)"

lemma rx_sync_posted:
  assumes "good_rsp u pm" "\<forall>a\<in>set (rc_async st). as_uid a \<noteq> u"
    "first_slot (\<lambda>s. sy_uid s = u) (rc_sync st) = Some i" "sy_sem (rc_sync st ! i) = s" "s \<noteq> 0" "rc_sems st s = Some n"
  shows "process_rpc_rx_msg True (Some status) True (Some pm) st =
    Some (0, st\<lparr>rc_rxq := rc_rxq st @ [rsp_of pm status], rc_sems := (rc_sems st)(s \<mapsto> n + 1)\<rparr>)"
proof -
  have "first_slot (\<lambda>a. as_uid a = u) (rc_async st) = None" using assms(2) by (simp add: first_slot_None)
  then show ?thesis
    using assms(1,3-)
    by (simp add: good_rsp_def process_rpc_rx_msg_def is_async_resp_callback_available_def rsp_in_range_def Let_def
        is_sync_resp_sem_available_def post_sync_resp_sem_def h_sem_give_def rsp_of_def)
qed

lemma rx_sync_dropped:
  assumes "good_rsp u pm" "\<forall>a\<in>set (rc_async st). as_uid a \<noteq> u" "\<forall>s\<in>set (rc_sync st). sy_uid s \<noteq> u"
  shows "process_rpc_rx_msg True (Some status) True (Some pm) st =
    Some (0, st\<lparr>rc_rxq := rc_rxq st @ [rsp_of pm status]\<rparr>)"
proof -
  have "first_slot (\<lambda>a. as_uid a = u) (rc_async st) = None" "first_slot (\<lambda>s. sy_uid s = u) (rc_sync st) = None"
    using assms(2,3) by (simp_all add: first_slot_None)
  then show ?thesis
    using assms(1)
    by (simp add: good_rsp_def process_rpc_rx_msg_def is_async_resp_callback_available_def rsp_in_range_def Let_def
        is_sync_resp_sem_available_def rsp_of_def)
qed

lemma wait_given:
  assumes "rc_heap st p = Some req" "cc_msg_id req < 397" "p \<noteq> 0"
    "first_slot (\<lambda>s. sy_uid s = cc_uid req) (rc_sync st) = Some i" "sy_sem (rc_sync st ! i) = s" "s \<noteq> 0"
    "rc_sems st s = Some (Suc n)" "rc_rxq st = r # q"
  shows "rpc_wait_and_parse_sync_resp tmo p st = Some (Some r, st\<lparr>rc_sems := (rc_sems st)(s := None),
    rc_sync := (rc_sync st)[i := \<lparr>sy_uid = 0, sy_sem = 0\<rparr>], rc_rxq := q, rc_heap := (rc_heap st)(p := None)\<rparr>)"
  using assms
  by (simp add: rpc_wait_and_parse_sync_resp_def get_response_def wait_for_sync_response_def expected_rsp_id_def
      h_sem_take_def h_sem_delete_def h_free_req_def Let_def)

lemma wait_timeout:
  assumes "rc_heap st p = Some req" "cc_msg_id req < 397" "p \<noteq> 0" "tmo \<noteq> 0"
    "first_slot (\<lambda>s. sy_uid s = cc_uid req) (rc_sync st) = Some i" "sy_sem (rc_sync st ! i) = s" "s \<noteq> 0"
    "rc_sems st s = Some 0"
  shows "rpc_wait_and_parse_sync_resp tmo p st = Some (None, st\<lparr>rc_sems := (rc_sems st)(s := None),
    rc_sync := (rc_sync st)[i := \<lparr>sy_uid = 0, sy_sem = 0\<rparr>], rc_heap := (rc_heap st)(p := None)\<rparr>)"
  using assms
  by (simp add: rpc_wait_and_parse_sync_resp_def get_response_def wait_for_sync_response_def expected_rsp_id_def
      h_sem_take_def h_sem_delete_def h_free_req_def Let_def)

text \<open>The state between the transmission and the response, with what the following steps need of it.\<close>

lemma sync_sent_obtains:
  assumes "can_call sem p st"
  obtains req i st1 st2 where "rpc_send_req sem True p st = Some (H_OK, st1)"
    "rpc_tx_step None 1 True 0 True True st1 = Some st2"
    "rc_heap st2 p = Some req" "cc_msg_id req < 397" "cc_uid req = next_uid (rc_uid st)" "p \<noteq> 0" "sem \<noteq> 0"
    "first_slot (\<lambda>s. sy_uid s = next_uid (rc_uid st)) (rc_sync st2) = Some i" "sy_sem (rc_sync st2 ! i) = sem"
    "rc_sems st2 sem = Some 0" "\<forall>a\<in>set (rc_async st2). as_uid a \<noteq> next_uid (rc_uid st)"
    "i < length (rc_sync st)"
    "\<forall>s\<in>set ((rc_sync st2)[i := \<lparr>sy_uid = 0, sy_sem = 0\<rparr>]). sy_uid s \<noteq> next_uid (rc_uid st)"
    "st2 = st\<lparr>rc_uid := next_uid (rc_uid st), rc_heap := (rc_heap st)(p \<mapsto> req), rc_sems := (rc_sems st)(sem \<mapsto> 0),
       rc_sync := (rc_sync st)[i := \<lparr>sy_uid = next_uid (rc_uid st), sy_sem = sem\<rparr>],
       rc_sent := rc_sent st @ [next_uid (rc_uid st)]\<rparr>"
proof -
  from sync_sent [OF assms] obtain req i st1 where s: "rc_heap st p = Some req" "i < length (rc_sync st)"
    "rpc_send_req sem True p st = Some (H_OK, st1)"
    "rpc_tx_step None 1 True 0 True True st1 = Some (st\<lparr>rc_uid := next_uid (rc_uid st),
       rc_heap := (rc_heap st)(p \<mapsto> req\<lparr>cc_uid := next_uid (rc_uid st), cc_sem := sem\<rparr>),
       rc_sems := (rc_sems st)(sem \<mapsto> 0),
       rc_sync := (rc_sync st)[i := \<lparr>sy_uid = next_uid (rc_uid st), sy_sem = sem\<rparr>],
       rc_sent := rc_sent st @ [next_uid (rc_uid st)]\<rparr>)"
    by blast
  from assms have c: "\<forall>s\<in>set (rc_sync st). sy_uid s \<noteq> next_uid (rc_uid st)"
    "\<forall>a\<in>set (rc_async st). as_uid a \<noteq> next_uid (rc_uid st)" "p \<noteq> 0" "sem \<noteq> 0" "cc_msg_id req < 397"
    using s(1) by (auto simp: can_call_def list_all_iff)
  have z: "sy_uid t \<noteq> next_uid (rc_uid st)" if "t \<in> set ((rc_sync st)[i := \<lparr>sy_uid = 0, sy_sem = 0\<rparr>])" for t
  proof -
    have "t \<in> insert \<lparr>sy_uid = 0, sy_sem = 0\<rparr> (set (rc_sync st))" using that set_update_subset_insert by fast
    then show ?thesis using c(1) next_uid_nz [of "rc_uid st"] by auto
  qed
  show ?thesis
    by (rule that [OF s(3,4), of "req\<lparr>cc_uid := next_uid (rc_uid st), cc_sem := sem\<rparr>" i])
      (use c s(2) z in \<open>simp_all add: first_slot_update\<close>)
qed

lemma sync_call_result:
  assumes "can_call sem p st" "good_rsp (next_uid (rc_uid st)) pm"
  shows "\<exists>st'. sync_call sem tmo status pm p st = Some (Some (hd (rc_rxq st @ [rsp_of pm status])), st') \<and>
    rc_rxq st' = tl (rc_rxq st @ [rsp_of pm status]) \<and> rc_heap st' = (rc_heap st)(p := None) \<and>
    rc_sems st' = rc_sems st \<and> rc_sent st' = rc_sent st @ [next_uid (rc_uid st)] \<and>
    list_all (\<lambda>s. sy_uid s \<noteq> next_uid (rc_uid st)) (rc_sync st') \<and> rc_called st' = rc_called st \<and> rc_tx_sem st' = 0"
proof -
  from assms(1) obtain req i st1 st2 where s: "rpc_send_req sem True p st = Some (H_OK, st1)"
    "rpc_tx_step None 1 True 0 True True st1 = Some st2"
    "rc_heap st2 p = Some req" "cc_msg_id req < 397" "cc_uid req = next_uid (rc_uid st)" "p \<noteq> 0" "sem \<noteq> 0"
    "first_slot (\<lambda>s. sy_uid s = next_uid (rc_uid st)) (rc_sync st2) = Some i" "sy_sem (rc_sync st2 ! i) = sem"
    "rc_sems st2 sem = Some 0" "\<forall>a\<in>set (rc_async st2). as_uid a \<noteq> next_uid (rc_uid st)"
    "i < length (rc_sync st)"
    "\<forall>s\<in>set ((rc_sync st2)[i := \<lparr>sy_uid = 0, sy_sem = 0\<rparr>]). sy_uid s \<noteq> next_uid (rc_uid st)"
    and st2: "st2 = st\<lparr>rc_uid := next_uid (rc_uid st), rc_heap := (rc_heap st)(p \<mapsto> req), rc_sems := (rc_sems st)(sem \<mapsto> 0),
       rc_sync := (rc_sync st)[i := \<lparr>sy_uid = next_uid (rc_uid st), sy_sem = sem\<rparr>],
       rc_sent := rc_sent st @ [next_uid (rc_uid st)]\<rparr>"
    by (rule sync_sent_obtains)
  define st3 where "st3 = st2\<lparr>rc_rxq := rc_rxq st2 @ [rsp_of pm status], rc_sems := (rc_sems st2)(sem \<mapsto> 1)\<rparr>"
  have rx: "process_rpc_rx_msg True (Some status) True (Some pm) st2 = Some (0, st3)"
    using rx_sync_posted [OF assms(2) s(11,8,9,7,10)] by (simp add: st3_def)
  obtain r q where rq: "rc_rxq st @ [rsp_of pm status] = r # q" by (cases "rc_rxq st") auto
  have w: "rpc_wait_and_parse_sync_resp tmo p st3 = Some (Some r, st3\<lparr>rc_sems := (rc_sems st3)(sem := None),
    rc_sync := (rc_sync st3)[i := \<lparr>sy_uid = 0, sy_sem = 0\<rparr>], rc_rxq := q, rc_heap := (rc_heap st3)(p := None)\<rparr>)"
    using s rq by (intro wait_given [of st3 p req i sem 0]) (simp_all add: st3_def st2)
  have sems: "(rc_sems st)(sem := None) = rc_sems st" and tx: "rc_tx_sem st = 0"
    using assms(1) by (auto simp: can_call_def)
  have "sync_call sem tmo status pm p st = rpc_wait_and_parse_sync_resp tmo p st3"
    using s(1,2) rx by (simp add: sync_call_def)
  then show ?thesis
    using w rq s(13) sems tx by (simp add: st3_def st2 list_all_iff)
qed

text \<open>A request whose response comes after the caller has given up.\<close>

definition late_call :: "nat \<Rightarrow> int \<Rightarrow> int \<Rightarrow> rpc_msg \<Rightarrow> nat \<Rightarrow> rpc_core \<Rightarrow> (rpc_rsp option \<times> rpc_core) option" where
  "late_call sem tmo status pm p st = do {
     (e, st) \<leftarrow> rpc_send_req sem True p st;
     st \<leftarrow> rpc_tx_step None 1 True 0 True True st;
     (r, st) \<leftarrow> rpc_wait_and_parse_sync_resp tmo p st;
     (c, st) \<leftarrow> process_rpc_rx_msg True (Some status) True (Some pm) st;
     Some (r, st)
   }"

lemma late_call_result:
  assumes "can_call sem p st" "good_rsp (next_uid (rc_uid st)) pm" "tmo \<noteq> 0"
  shows "\<exists>st'. late_call sem tmo status pm p st = Some (None, st') \<and> rc_rxq st' = rc_rxq st @ [rsp_of pm status]"
proof -
  from assms(1) obtain req i st1 st2 where s: "rpc_send_req sem True p st = Some (H_OK, st1)"
    "rpc_tx_step None 1 True 0 True True st1 = Some st2"
    "rc_heap st2 p = Some req" "cc_msg_id req < 397" "cc_uid req = next_uid (rc_uid st)" "p \<noteq> 0" "sem \<noteq> 0"
    "first_slot (\<lambda>s. sy_uid s = next_uid (rc_uid st)) (rc_sync st2) = Some i" "sy_sem (rc_sync st2 ! i) = sem"
    "rc_sems st2 sem = Some 0" "\<forall>a\<in>set (rc_async st2). as_uid a \<noteq> next_uid (rc_uid st)"
    "i < length (rc_sync st)"
    "\<forall>s\<in>set ((rc_sync st2)[i := \<lparr>sy_uid = 0, sy_sem = 0\<rparr>]). sy_uid s \<noteq> next_uid (rc_uid st)"
    and st2: "st2 = st\<lparr>rc_uid := next_uid (rc_uid st), rc_heap := (rc_heap st)(p \<mapsto> req), rc_sems := (rc_sems st)(sem \<mapsto> 0),
       rc_sync := (rc_sync st)[i := \<lparr>sy_uid = next_uid (rc_uid st), sy_sem = sem\<rparr>],
       rc_sent := rc_sent st @ [next_uid (rc_uid st)]\<rparr>"
    by (rule sync_sent_obtains)
  define st3 where "st3 = st2\<lparr>rc_sems := (rc_sems st2)(sem := None),
    rc_sync := (rc_sync st2)[i := \<lparr>sy_uid = 0, sy_sem = 0\<rparr>], rc_heap := (rc_heap st2)(p := None)\<rparr>"
  have w: "rpc_wait_and_parse_sync_resp tmo p st2 = Some (None, st3)"
    unfolding st3_def using s assms(3) by (intro wait_timeout [of st2 p req tmo i sem]) simp_all
  have rx: "process_rpc_rx_msg True (Some status) True (Some pm) st3 =
      Some (0, st3\<lparr>rc_rxq := rc_rxq st3 @ [rsp_of pm status]\<rparr>)"
    using s(11,13) by (intro rx_sync_dropped [OF assms(2)]) (simp_all add: st3_def)
  show ?thesis
    using s(1,2) w rx by (simp add: late_call_def) (simp add: st3_def st2)
qed


text \<open>A synchronous request that cannot be sent.\<close>

definition idle_slots :: "rpc_core \<Rightarrow> bool" where
  "idle_slots st = list_all (\<lambda>s. sy_uid s = 0 \<longrightarrow> sy_sem s = 0) (rc_sync st)"

lemma tx_fail_sync:
  assumes "rc_heap st p = Some req" "cc_cb req = 0" "cc_buf req = 0" "idle_slots st"
  shows "rpc_tx_fail status True p st =
    Some (H_FAIL, st\<lparr>rc_rxq := rc_rxq st @ [\<lparr>rs_msg_id = expected_rsp_id req mod 65536, rs_uid = 0, rs_status = status\<rparr>]\<rparr>)"
proof -
  have "sy_sem (rc_sync st ! i) = 0" if "first_slot (\<lambda>s. sy_uid s = 0) (rc_sync st) = Some i" for i
    using first_slot_SomeD [OF that] assms(4) by (simp add: idle_slots_def list_all_length)
  then show ?thesis
    using assms
    by (auto simp: rpc_tx_fail_def Let_def is_sync_resp_sem_available_def post_sync_resp_sem_def h_sem_give_def
        free_app_buf_def split: option.splits)
qed

text \<open>The tables after an asynchronous request was sent, answered or timed out.\<close>

definition can_call_async :: "nat \<Rightarrow> nat \<Rightarrow> rpc_core \<Rightarrow> bool" where
  "can_call_async timer p st =
     (p \<noteq> 0 \<and> timer \<noteq> 0 \<and>
      (case rc_heap st p of None \<Rightarrow> False
       | Some req \<Rightarrow> cc_cb req \<noteq> 0 \<and> cc_buf req = 0 \<and> cc_msg_id req < 397 \<and> cc_uid req \<noteq> 0 \<and>
           list_all (\<lambda>s. sy_uid s \<noteq> cc_uid req) (rc_sync st) \<and> list_all (\<lambda>a. as_uid a \<noteq> cc_uid req) (rc_async st)) \<and>
      list_ex (\<lambda>a. as_uid a = 0) (rc_async st))"

lemma async_sent:
  assumes "can_call_async timer p st" "rc_heap st p = Some req"
  shows "\<exists>i<length (rc_async st). process_rpc_tx_msg None 1 True timer True rmem p st = Some (H_OK, st\<lparr>
      rc_timers := (rc_timers st)(timer \<mapsto> p), rc_sent := rc_sent st @ [cc_uid req],
      rc_async := (rc_async st)[i := \<lparr>as_uid = cc_uid req, as_cb = cc_cb req, as_timer = timer, as_req = p\<rparr>]\<rparr>)"
proof -
  have "\<exists>a\<in>set (rc_async st). as_uid a = 0" using assms(1) by (simp add: can_call_async_def list_ex_iff)
  from first_slot_exists [of "rc_async st" "\<lambda>a. as_uid a = 0", OF this]
  obtain i where i: "first_slot (\<lambda>a. as_uid a = 0) (rc_async st) = Some i" by blast
  have a: "cc_cb req \<noteq> 0" "cc_buf req = 0" "cc_msg_id req < 397" "timer \<noteq> 0"
    using assms by (auto simp: can_call_async_def)
  show ?thesis
    using first_slot_SomeD [OF i] i a assms(2)
    by (intro exI [of _ i])
      (simp add: process_rpc_tx_msg_def set_async_resp_callback_def expected_rsp_id_def free_app_buf_def)
qed

lemma async_update_fresh:
  assumes "\<forall>a\<in>set xs. as_uid a \<noteq> u" "as_uid v \<noteq> u"
  shows "\<forall>a\<in>set (xs[i := v]). as_uid a \<noteq> u"
proof
  fix a assume "a \<in> set (xs[i := v])"
  then have "a \<in> insert v (set xs)" using set_update_subset_insert by fast
  then show "as_uid a \<noteq> u" using assms by auto
qed

lemma clear_async_slot:
  assumes "i < length (rc_async st)" "rc_async st ! i = a" "as_uid a \<noteq> 0" "as_timer a \<noteq> 0" "as_req a = p" "p \<noteq> 0"
    "rc_heap st p = Some req"
  shows "clear_async_resp_callback i st = Some (st\<lparr>rc_timers := (rc_timers st)(as_timer a := None),
     rc_heap := (rc_heap st)(p := None), rc_async := (rc_async st)[i := a\<lparr>as_uid := 0, as_cb := 0, as_timer := 0\<rparr>]\<rparr>)"
  using assms by (simp add: clear_async_resp_callback_def h_free_req_def Let_def)

lemma async_answered:
  assumes "can_call_async timer p st" "rc_heap st p = Some req" "good_rsp (cc_uid req) pm"
    and st1: "process_rpc_tx_msg None 1 True timer True rmem p st = Some (H_OK, st1)"
  shows "\<exists>st2 i. process_rpc_rx_msg True (Some status) True (Some pm) st1 = Some (0, st2) \<and>
    rc_called st2 = rc_called st @ [(cc_cb req, rsp_of pm status)] \<and> rc_heap st2 = (rc_heap st)(p := None) \<and>
    rc_timers st2 timer = None \<and> rc_rxq st2 = rc_rxq st \<and> rc_sync st2 = rc_sync st \<and>
    (\<forall>a\<in>set (rc_async st2). as_uid a \<noteq> cc_uid req) \<and>
    i < length (rc_async st2) \<and> as_req (rc_async st2 ! i) = p \<and> rc_state st2 = rc_state st"
proof -
  let ?a = "\<lparr>as_uid = cc_uid req, as_cb = cc_cb req, as_timer = timer, as_req = p\<rparr>"
  obtain i where i: "i < length (rc_async st)" and e: "st1 = st\<lparr>rc_timers := (rc_timers st)(timer \<mapsto> p),
      rc_sent := rc_sent st @ [cc_uid req], rc_async := (rc_async st)[i := ?a]\<rparr>"
    using async_sent [OF assms(1,2), of rmem] st1 by auto
  have c: "p \<noteq> 0" "timer \<noteq> 0" "cc_cb req \<noteq> 0" "cc_uid req \<noteq> 0" "\<forall>a\<in>set (rc_async st). as_uid a \<noteq> cc_uid req"
    using assms(1,2) by (auto simp: can_call_async_def list_all_iff)
  have fs: "first_slot (\<lambda>a. as_uid a = cc_uid req) ((rc_async st)[i := ?a]) = Some i"
    using c(5) i by (intro first_slot_update) auto
  let ?st = "st1\<lparr>rc_called := rc_called st @ [(cc_cb req, rsp_of pm status)]\<rparr>"
  have cl: "clear_async_resp_callback i ?st = Some (?st\<lparr>rc_timers := (rc_timers ?st)(timer := None),
     rc_heap := (rc_heap ?st)(p := None),
     rc_async := (rc_async ?st)[i := ?a\<lparr>as_uid := 0, as_cb := 0, as_timer := 0\<rparr>]\<rparr>)"
    using clear_async_slot [of i ?st ?a p req] i c assms(2) by (simp add: e)
  have "process_rpc_rx_msg True (Some status) True (Some pm) st1 =
      map_option (Pair 0) (clear_async_resp_callback i ?st)"
    using assms(3) fs c i
    by (simp add: process_rpc_rx_msg_def good_rsp_def is_async_resp_callback_available_def rsp_in_range_def Let_def
        call_async_resp_callback_def rsp_of_def e)
  then show ?thesis
    using cl async_update_fresh [OF c(5), of "?a\<lparr>as_uid := 0, as_cb := 0, as_timer := 0\<rparr>" i] c(4) i
    by (intro exI [of _ "?st\<lparr>rc_timers := (rc_timers ?st)(timer := None), rc_heap := (rc_heap ?st)(p := None),
          rc_async := (rc_async ?st)[i := ?a\<lparr>as_uid := 0, as_cb := 0, as_timer := 0\<rparr>]\<rparr>"] exI [of _ i])
      (simp add: e)
qed


lemma for_slots_free_heap:
  "for_slots h_free_req ps st = Some st' \<Longrightarrow> rc_heap st p = None \<Longrightarrow> rc_heap st' p = None \<and> rc_async st' = rc_async st"
proof (induction ps arbitrary: st)
  case Nil
  then show ?case by simp
next
  case (Cons q ps)
  from Cons.prems obtain st1 where st1: "h_free_req q st = Some st1" "for_slots h_free_req ps st1 = Some st'"
    by (auto simp: bind_eq_Some_conv)
  have "rc_heap st1 p = None" "rc_async st1 = rc_async st"
    using st1(1) Cons.prems(2) by (auto simp: h_free_req_def split: if_splits option.splits)
  then show ?case using Cons.IH [OF st1(2)] by simp
qed

lemma cleanup_double_free:
  assumes "i \<in> set js" "as_req (rc_async st ! i) = p" "p \<noteq> 0" "rc_heap st p = None"
  shows "for_slots cleanup_async js st = None"
  using assms
proof (induction js arbitrary: st)
  case Nil
  then show ?case by simp
next
  case (Cons j js)
  show ?case
  proof (cases "cleanup_async j st")
    case None
    then show ?thesis by simp
  next
    case (Some st1)
    have "j \<noteq> i"
      using Some Cons.prems by (auto simp: cleanup_async_def h_free_req_def Let_def split: if_splits)
    moreover have "rc_heap st1 p = None" "rc_async st1 ! i = rc_async st ! i" if "j \<noteq> i"
      using Some Cons.prems(4) that
      by (auto simp: cleanup_async_def h_free_req_def Let_def bind_eq_Some_conv split: if_splits option.splits)
    ultimately show ?thesis using Cons.IH [of st1] Cons.prems Some by auto
  qed
qed

section \<open>Properties\<close>

text \<open>
  C14: the identifiers given to successive requests are never zero, and two requests have different
  identifiers unless a multiple of 2^32 - 1 requests lies between them, also across the roll-over.
\<close>
theorem rpc_uid_unique:
  assumes "0 < i" "i < j" "j - i < 2 ^ 32 - 1"
  shows "(next_uid ^^ i) u \<noteq> 0 \<and> (next_uid ^^ i) u \<noteq> (next_uid ^^ j) u"
proof -
  let ?v = "(next_uid ^^ i) u"
  have nz: "?v \<noteq> 0" using assms(1) by (cases i) simp_all
  have j: "(next_uid ^^ j) u = (next_uid ^^ (j - i)) ?v"
    using assms(2) by (metis funpow_add comp_apply le_add_diff_inverse2 less_imp_le)
  have "unat ((next_uid ^^ (j - i)) ?v) = (unat ?v - 1 + (j - i)) mod (2 ^ 32 - 1) + 1"
    using unat_next_uid_funpow [OF nz, of "j - i"] by simp
  moreover have "(x + d) mod n \<noteq> x" if "0 < d" "d < n" "x < n" for x d n :: nat
    using that by (cases "x + d < n") (auto simp: mod_if)
  moreover have "unat ?v < 2 ^ 32" using unsigned_less [of ?v, where ?'a = nat] by simp
  moreover have "0 < unat ?v" using nz by (simp add: unat_gt_0)
  ultimately have "unat ((next_uid ^^ (j - i)) ?v) \<noteq> unat ?v"
    using assms(2,3) by (metis (no_types, lifting) Suc_eq_plus1 Suc_pred diff_Suc_1 less_diff_conv zero_less_diff)
  then show ?thesis using nz j by metis
qed

theorem rpc_uid_unique_witness: "(next_uid ^^ 1) (-1) \<noteq> (next_uid ^^ 2) (-1)"
  using rpc_uid_unique [of 1 2 "-1"] by simp

text \<open>
  C6: a synchronous call on a ready library with an empty receive queue returns the response that carries
  its identifier, and leaves nothing behind: the request and its semaphore are released, its table slot is
  free and the receive queue is empty again.
\<close>
theorem rpc_sync_call:
  assumes "can_call sem p st" "good_rsp (next_uid (rc_uid st)) pm" "rc_rxq st = []"
  shows "\<exists>st'. sync_call sem tmo status pm p st = Some (Some (rsp_of pm status), st') \<and>
    rc_rxq st' = [] \<and> rc_heap st' = (rc_heap st)(p := None) \<and> rc_sems st' = rc_sems st \<and>
    rc_sent st' = rc_sent st @ [next_uid (rc_uid st)] \<and>
    list_all (\<lambda>s. sy_uid s \<noteq> next_uid (rc_uid st)) (rc_sync st')"
  using sync_call_result [OF assms(1,2), of tmo status] assms(3) by auto

definition demo_rc :: rpc_core where
  "demo_rc = \<lparr>rc_state = 2, rc_uid = 0, rc_sync = replicate 5 \<lparr>sy_uid = 0, sy_sem = 0\<rparr>,
     rc_async = replicate 5 \<lparr>as_uid = 0, as_cb = 0, as_timer = 0, as_req = 0\<rparr>, rc_evt = (\<lambda>_. 0),
     rc_heap = [10 \<mapsto> \<lparr>cc_msg_id = 257, cc_uid = 0, cc_cb = 0, cc_sem = 0, cc_buf = 0\<rparr>,
       11 \<mapsto> \<lparr>cc_msg_id = 258, cc_uid = 0, cc_cb = 0, cc_sem = 0, cc_buf = 0\<rparr>,
       12 \<mapsto> \<lparr>cc_msg_id = 259, cc_uid = 7, cc_cb = 3, cc_sem = 0, cc_buf = 0\<rparr>],
     rc_sems = (\<lambda>_. None), rc_timers = (\<lambda>_. None), rc_txq = [], rc_tx_sem = 0, rc_rxq = [], rc_called = [],
     rc_sent = [], rc_frees = [], rc_has_sem = True, rc_has_serial = True, rc_has_rxq = True, rc_has_txq = True,
     rc_has_mutex = True, rc_threads = 2\<rparr>"

lemma demo_can_call: "can_call 20 10 demo_rc"
  by (simp add: can_call_def demo_rc_def is_rpc_lib_ready_def next_uid_def list_ex_iff list_all_iff)

theorem rpc_sync_call_witness:
  "\<exists>st'. sync_call 20 (-4) 0 \<lparr>pm_type = RPC_Resp, pm_msg_id = 513, pm_uid = 1\<rparr> 10 demo_rc =
     Some (Some \<lparr>rs_msg_id = 513, rs_uid = 1, rs_status = 0\<rparr>, st') \<and> rc_heap st' 10 = None"
  using rpc_sync_call [OF demo_can_call, of "\<lparr>pm_type = RPC_Resp, pm_msg_id = 513, pm_uid = 1\<rparr>" "-4" 0]
  by (auto simp: good_rsp_def rsp_of_def next_uid_def demo_rc_def)

text \<open>
  When the response to a synchronous call arrives after the caller has timed out, it stays in the
  shared receive queue, and the next synchronous call returns that stale response instead of its own,
  which in turn is left for the call after it.
\<close>
lemma rpc_late_response:
  assumes "can_call sem p st" "good_rsp (next_uid (rc_uid st)) pm" "rc_rxq st = []" "tmo \<noteq> 0"
    and "late_call sem tmo status pm p st = Some (r, st4)" "can_call sem2 p2 st4" "good_rsp (next_uid (rc_uid st4)) pm2"
  shows "r = None \<and> (\<exists>st5. sync_call sem2 tmo2 status2 pm2 p2 st4 = Some (Some (rsp_of pm status), st5) \<and>
    rc_rxq st5 = [rsp_of pm2 status2])"
proof -
  have "r = None" "rc_rxq st4 = [rsp_of pm status]"
    using late_call_result [OF assms(1,2,4), of status] assms(3,5) by auto
  then show ?thesis using sync_call_result [OF assms(6,7), of tmo2 status2] by auto
qed




text \<open>
  A synchronous request that cannot be sent is not reported to its caller: the failure response is
  queued without the identifier of the request, so its semaphore is not given, the caller waits until it
  times out, and the failure response remains in the queue.
\<close>
lemma rpc_sync_send_failure:
  assumes "can_call sem p st" "idle_slots st" "tmo \<noteq> 0"
  shows "\<exists>st1 st2 st3 r. rpc_send_req sem True p st = Some (H_OK, st1) \<and>
    rpc_tx_step None 1 True 0 False True st1 = Some st2 \<and>
    rs_status r = 12 \<and> rs_uid r = 0 \<and> rc_sems st2 sem = Some 0 \<and>
    rpc_wait_and_parse_sync_resp tmo p st2 = Some (None, st3) \<and> rc_rxq st3 = rc_rxq st @ [r]"
proof -
  from sync_queued [OF assms(1)] obtain req i where a: "rc_heap st p = Some req"
    "i < length (rc_sync st)" "cc_cb req = 0" "cc_buf req = 0" "cc_msg_id req < 397"
    and send: "rpc_send_req sem True p st = Some (H_OK, st\<lparr>rc_uid := next_uid (rc_uid st),
       rc_heap := (rc_heap st)(p \<mapsto> req\<lparr>cc_uid := next_uid (rc_uid st), cc_sem := sem\<rparr>),
       rc_sems := (rc_sems st)(sem \<mapsto> 0),
       rc_sync := (rc_sync st)[i := \<lparr>sy_uid = next_uid (rc_uid st), sy_sem = sem\<rparr>],
       rc_txq := [p], rc_tx_sem := 1\<rparr>)" (is "_ = Some (H_OK, ?st1)")
    by blast
  let ?req = "req\<lparr>cc_uid := next_uid (rc_uid st), cc_sem := sem\<rparr>"
  let ?st1' = "?st1\<lparr>rc_tx_sem := 0, rc_txq := []\<rparr>"
  let ?r = "\<lparr>rs_msg_id = expected_rsp_id ?req mod 65536, rs_uid = 0, rs_status = 12\<rparr>"
  have c: "p \<noteq> 0" "sem \<noteq> 0" "is_rpc_lib_ready ?st1" "\<forall>s\<in>set (rc_sync st). sy_uid s \<noteq> next_uid (rc_uid st)"
    using assms(1) by (auto simp: can_call_def is_rpc_lib_ready_def list_all_iff)
  have "set ((rc_sync st)[i := \<lparr>sy_uid = next_uid (rc_uid st), sy_sem = sem\<rparr>]) \<subseteq>
      insert \<lparr>sy_uid = next_uid (rc_uid st), sy_sem = sem\<rparr> (set (rc_sync st))" by (rule set_update_subset_insert)
  then have idle: "idle_slots ?st1'" using assms(2) by (auto simp: idle_slots_def list_all_iff)
  have "rpc_tx_step None 1 True 0 False True ?st1 = map_option snd (rpc_tx_fail 12 True p ?st1')"
    using c(1,3) a by (simp add: rpc_tx_step_def process_rpc_tx_msg_def Let_def)
  then have tx: "rpc_tx_step None 1 True 0 False True ?st1 = Some (?st1'\<lparr>rc_rxq := rc_rxq ?st1' @ [?r]\<rparr>)"
    using tx_fail_sync [of ?st1' p ?req 12] idle a by simp
  have fs: "first_slot (\<lambda>s. sy_uid s = next_uid (rc_uid st))
      ((rc_sync st)[i := \<lparr>sy_uid = next_uid (rc_uid st), sy_sem = sem\<rparr>]) = Some i"
    using c(4) a(2) by (intro first_slot_update) auto
  have w: "\<exists>st3. rpc_wait_and_parse_sync_resp tmo p (?st1'\<lparr>rc_rxq := rc_rxq ?st1' @ [?r]\<rparr>) = Some (None, st3) \<and>
      rc_rxq st3 = rc_rxq st @ [?r]"
    by (subst wait_timeout [of _ p ?req tmo i sem]) (use fs a(2,5) c(1,2) assms(3) in simp_all)
  show ?thesis using send tx w by fastforce
qed

text \<open>
  Once any asynchronous request has been answered, shutting the library down releases that request a
  second time, because the table slot keeps its address.
\<close>

lemma rpc_deinit_double_free:
  assumes "can_call_async timer p st" "rc_heap st p = Some req" "good_rsp (cc_uid req) pm" "rc_state st \<noteq> 0"
    and "process_rpc_tx_msg None 1 True timer True rmem p st = Some (H_OK, st1)"
    and "process_rpc_rx_msg True (Some status) True (Some pm) st1 = Some (0, st2)"
  shows "rpc_core_deinit cancel st2 = None"
proof -
  obtain i where i: "i < length (rc_async st2)" "as_req (rc_async st2 ! i) = p" "rc_heap st2 p = None" "rc_state st2 \<noteq> 0"
    using async_answered [OF assms(1-3,5), of status] assms(4,6) by fastforce
  have p: "p \<noteq> 0" using assms(1) by (simp add: can_call_async_def)
  define st3 where "st3 = st2\<lparr>rc_state := 0, rc_rxq := [], rc_has_rxq := False\<rparr>"
  have h3: "rc_heap st3 p = None" "rc_async st3 = rc_async st2" using i(3) by (simp_all add: st3_def)
  show ?thesis
  proof (cases "for_slots h_free_req (rc_txq st3) st3")
    case None
    then show ?thesis using i(4) by (simp add: rpc_core_deinit_def is_rpc_lib_inactive_def Let_def st3_def [symmetric])
  next
    case (Some st4)
    have "for_slots cleanup_async [0..<length (rc_async st4)]
        (st4\<lparr>rc_txq := [], rc_has_txq := False, rc_has_sem := False, rc_tx_sem := 0\<rparr>) = None"
      using for_slots_free_heap [OF Some h3(1)] h3(2) i(1,2) p by (intro cleanup_double_free [of i _ _ p]) simp_all
    then show ?thesis
      using i(4) Some
      by (simp add: rpc_core_deinit_def is_rpc_lib_inactive_def Let_def st3_def [symmetric] cleanup_sync_async_timer_table_def)
  qed
qed

text \<open>
  A failed initialisation releases nothing: the clean-up it calls returns at once because the library is
  still inactive.
\<close>

lemma rpc_init_failure_leaks:
  assumes "rc_state st = 0" "\<not> (sem \<and> serial \<and> rxq \<and> txq \<and> mutex \<and> thr1 \<and> thr2)" "sem"
  shows "\<exists>st'. rpc_core_init sem serial rxq txq mutex thr1 thr2 st = Some (H_FAIL, st') \<and> rc_has_sem st' \<and>
    (serial \<longrightarrow> rc_has_serial st') \<and> (serial \<and> rxq \<longrightarrow> rc_has_rxq st')"
  using assms by (auto simp: rpc_core_init_def rpc_core_deinit_def is_rpc_lib_inactive_def Let_def)

text \<open>
  A response with identifier zero matches a free slot of the asynchronous table and calls its null callback.
\<close>

lemma rpc_uid0_null_call:
  assumes "pm_type pm = RPC_Resp" "512 \<le> pm_msg_id pm" "pm_msg_id pm < 653" "pm_uid pm = 0"
    "first_slot (\<lambda>a. as_uid a = 0) (rc_async st) = Some i" "as_cb (rc_async st ! i) = 0"
  shows "process_rpc_rx_msg True (Some status) q (Some pm) st = None"
  using assms
  by (simp add: process_rpc_rx_msg_def is_async_resp_callback_available_def rsp_in_range_def call_async_resp_callback_def
      Let_def)

end
