(* ===== verification/Nw_Split.thy ===== *)
theory Nw_Split
  imports Serial_Tlv
begin

unbundle bit_operations_syntax

text \<open>
  The network-split router of the co-processor (\<open>src/slave/main/nw_split_router.c\<close>): the lists of ports
  reserved for the host, the cached lookups of local ports, and the decision which TCP/IP stack gets a
  received frame.

  A frame is the octet list the WiFi driver delivers; the layouts of the Ethernet, IPv4, TCP, UDP, ICMP and
  ARP headers are those of the protocols. The port classes of the TCP/IP stack, its tables of open ports and
  the clock are arguments. \<open>None\<close> stands for a read outside the frame.
\<close>

section \<open>State\<close>

datatype hosted_l2_bridge = SLAVE_LWIP_BRIDGE | HOST_LWIP_BRIDGE | BOTH_LWIP_BRIDGE | INVALID_BRIDGE

record port_cache =
  pc_time :: "64 word"
  pc_result :: bool
  pc_port :: u16

record nw_split =
  ns_tcp_src :: "u16 list"
  ns_tcp_dst :: "u16 list"
  ns_udp_src :: "u16 list"
  ns_udp_dst :: "u16 list"
  ns_init :: "string set"
  ns_tcp_cache :: port_cache
  ns_udp_cache :: port_cache

section \<open>Reserved ports\<close>

definition is_digit :: "char \<Rightarrow> bool" where
  "is_digit c = (48 \<le> (of_char c :: nat) \<and> (of_char c :: nat) \<le> 57)"

definition atoi :: "string \<Rightarrow> nat" where
  "atoi s = foldl (\<lambda>a c. 10 * a + (of_char c - 48)) 0 s"

text \<open>
  The loop of \<open>init_allowed_ports\<close> with the six-character buffer \<open>buf\<close> and its index; \<open>acc\<close> is the array
  filled so far.
\<close>

fun ports_loop :: "nat \<Rightarrow> string \<Rightarrow> string \<Rightarrow> nat \<Rightarrow> u16 list \<Rightarrow> string \<times> nat \<times> u16 list" where
  "ports_loop max_ports [] buf idx acc = (buf, idx, acc)"
| "ports_loop max_ports (c # cs) buf idx acc =
     (if length acc \<ge> max_ports then (buf, idx, acc)
      else if is_digit c then
        ports_loop max_ports cs (buf[idx := c]) (if idx + 1 \<ge> 5 then 4 else idx + 1) acc
      else if c = CHR '','' \<and> idx > 0 then
        ports_loop max_ports cs buf 0 (acc @ [of_nat (atoi (take idx buf))])
      else ports_loop max_ports cs buf idx acc)"

definition parse_ports :: "nat \<Rightarrow> string \<Rightarrow> u16 list" where
  "parse_ports max_ports s =
     (case ports_loop max_ports s (replicate 6 (CHR 0x00)) 0 [] of
        (buf, idx, acc) \<Rightarrow> if idx > 0 then acc @ [of_nat (atoi (take idx buf))] else acc)"

text \<open>\<open>done\<close> are the list names already initialised; such a list stays as it is.\<close>

definition init_allowed_ports :: "string \<Rightarrow> nat \<Rightarrow> string \<Rightarrow> string set \<Rightarrow> u16 list \<Rightarrow> u16 list \<times> string set" where
  "init_allowed_ports ports_str max_ports port_type done old =
     (if port_type \<in> done then (old, done)
      else if ports_str = [] then ([], done)
      else (parse_ports max_ports ports_str, insert port_type done))"

definition nw_split_config_host_static_port_fwd_rules ::
  "string \<Rightarrow> string \<Rightarrow> string \<Rightarrow> string \<Rightarrow> nw_split \<Rightarrow> nw_split" where
  "nw_split_config_host_static_port_fwd_rules tcp_src tcp_dst udp_src udp_dst ns =
     (let ns = (if tcp_src \<noteq> [] then
              case init_allowed_ports tcp_src 10 ''tcp_src'' (ns_init ns) (ns_tcp_src ns) of
                (l, d) \<Rightarrow> ns\<lparr>ns_tcp_src := l, ns_init := d\<rparr> else ns);
          ns = (if tcp_dst \<noteq> [] then
              case init_allowed_ports tcp_dst 10 ''tcp_dst'' (ns_init ns) (ns_tcp_dst ns) of
                (l, d) \<Rightarrow> ns\<lparr>ns_tcp_dst := l, ns_init := d\<rparr> else ns);
          ns = (if udp_src \<noteq> [] then
              case init_allowed_ports udp_src 10 ''udp_src'' (ns_init ns) (ns_udp_src ns) of
                (l, d) \<Rightarrow> ns\<lparr>ns_udp_src := l, ns_init := d\<rparr> else ns)
      in if udp_dst \<noteq> [] then
           case init_allowed_ports udp_dst 10 ''udp_dst'' (ns_init ns) (ns_udp_dst ns) of
             (l, d) \<Rightarrow> ns\<lparr>ns_udp_dst := l, ns_init := d\<rparr> else ns)"

section \<open>Local ports\<close>

text \<open>
  \<open>is_local_tcp_port_open\<close> and \<open>is_local_udp_port_open\<close>: \<open>now\<close> is the time in units of 1024 microseconds, \<open>open\<close> the
  stack's current answer.
\<close>

definition is_local_port_open :: "64 word \<Rightarrow> (u16 \<Rightarrow> bool) \<Rightarrow> u16 \<Rightarrow> port_cache \<Rightarrow> bool \<times> port_cache" where
  "is_local_port_open now open port c =
     (if pc_port c = port \<and> now - pc_time c < 1000 then (pc_result c, c\<lparr>pc_time := now\<rparr>)
      else (open port, \<lparr>pc_time = now, pc_result = open port, pc_port = port\<rparr>))"

section \<open>Routing\<close>

definition peek16 :: "bytes \<Rightarrow> nat \<Rightarrow> u16 option" where
  "peek16 buf i = do { h \<leftarrow> peek buf i; l \<leftarrow> peek buf (i + 1); Some (le16 l h) }"

definition wakeup_host_string :: bytes where
  "wakeup_host_string = map (\<lambda>c. of_nat (of_char c)) ''wakeup-host''"

definition host_mqtt_wakeup_triggered :: "bytes \<Rightarrow> nat \<Rightarrow> u16 \<Rightarrow> bool option" where
  "host_mqtt_wakeup_triggered frame pos payload_length =
     (if unat payload_length \<ge> length wakeup_host_string
      then map_option (\<lambda>p. p = wakeup_host_string) (mem_slice frame pos (length wakeup_host_string))
      else Some False)"

text \<open>
  \<open>re_saving\<close>: the host is in power save; \<open>re_default\<close>: the configured default stack; \<open>re_tcph_flags\<close>: the macro
  \<open>TCPH_FLAGS\<close> of the TCP/IP stack on the header field in host order.
\<close>

record route_env =
  re_default :: hosted_l2_bridge
  re_saving :: bool
  re_remote_tcp :: "u16 \<Rightarrow> bool"
  re_local_tcp :: "u16 \<Rightarrow> bool"
  re_remote_udp :: "u16 \<Rightarrow> bool"
  re_local_udp :: "u16 \<Rightarrow> bool"
  re_now :: "64 word"
  re_tcp_open :: "u16 \<Rightarrow> bool"
  re_udp_open :: "u16 \<Rightarrow> bool"
  re_tcph_flags :: "u16 \<Rightarrow> u16"

abbreviation (input) MQTT_PORT :: u16 where "MQTT_PORT \<equiv> 1883"
abbreviation (input) DEFAULT_IPERF_PORT :: u16 where "DEFAULT_IPERF_PORT \<equiv> 5001"
abbreviation (input) DHCP_CLIENT_PORT :: u16 where "DHCP_CLIENT_PORT \<equiv> 68"

text \<open>The TCP branch; \<open>tcp\<close> is the offset of the TCP header.\<close>

definition route_tcp :: "route_env \<Rightarrow> bytes \<Rightarrow> nat \<Rightarrow> nw_split \<Rightarrow> (hosted_l2_bridge \<times> nw_split) option" where
  "route_tcp e frame tcp ns = do {
     dst_port \<leftarrow> peek16 frame (tcp + 2);
     src_port \<leftarrow> peek16 frame tcp;
     if src_port \<in> set (ns_tcp_src ns) \<or> dst_port \<in> set (ns_tcp_dst ns) then Some (HOST_LWIP_BRIDGE, ns)
     else do {
       let (iperf, ns) =
         (if dst_port = DEFAULT_IPERF_PORT then
            (case is_local_port_open (re_now e) (re_tcp_open e) dst_port (ns_tcp_cache ns) of
               (found, c) \<Rightarrow>
                 (if found then Some SLAVE_LWIP_BRIDGE else if \<not> re_saving e then Some HOST_LWIP_BRIDGE else None,
                  ns\<lparr>ns_tcp_cache := c\<rparr>))
          else (None, ns));
       case iperf of
         Some r \<Rightarrow> Some (r, ns)
       | None \<Rightarrow>
           if re_remote_tcp e dst_port then
             (if re_saving e then
                (if src_port = MQTT_PORT then do {
                   flags \<leftarrow> peek16 frame (tcp + 12);
                   wnd \<leftarrow> peek16 frame (tcp + 14);
                   wake \<leftarrow> host_mqtt_wakeup_triggered frame (tcp + unat (drop_bit 12 (re_tcph_flags e flags)) * 4) wnd;
                   Some (if wake then HOST_LWIP_BRIDGE else INVALID_BRIDGE, ns)
                 } else Some (INVALID_BRIDGE, ns))
              else Some (HOST_LWIP_BRIDGE, ns))
           else if re_local_tcp e dst_port then Some (SLAVE_LWIP_BRIDGE, ns)
           else Some (re_default e, ns)
     }
   }"

definition route_udp :: "route_env \<Rightarrow> bytes \<Rightarrow> nat \<Rightarrow> nw_split \<Rightarrow> (hosted_l2_bridge \<times> nw_split) option" where
  "route_udp e frame udp ns = do {
     dst_port \<leftarrow> peek16 frame (udp + 2);
     src_port \<leftarrow> peek16 frame udp;
     if src_port \<in> set (ns_udp_src ns) \<or> dst_port \<in> set (ns_udp_dst ns) then Some (HOST_LWIP_BRIDGE, ns)
     else do {
       let (iperf, ns) =
         (if dst_port = DEFAULT_IPERF_PORT then
            (case is_local_port_open (re_now e) (re_udp_open e) dst_port (ns_udp_cache ns) of
               (found, c) \<Rightarrow>
                 (if found then Some SLAVE_LWIP_BRIDGE else if \<not> re_saving e then Some HOST_LWIP_BRIDGE else None,
                  ns\<lparr>ns_udp_cache := c\<rparr>))
          else (None, ns));
       case iperf of
         Some r \<Rightarrow> Some (r, ns)
       | None \<Rightarrow>
           if dst_port = DHCP_CLIENT_PORT then Some (BOTH_LWIP_BRIDGE, ns)
           else if re_remote_udp e dst_port then
             Some (if re_saving e then INVALID_BRIDGE else HOST_LWIP_BRIDGE, ns)
           else if re_local_udp e dst_port then Some (SLAVE_LWIP_BRIDGE, ns)
           else Some (re_default e, ns)
     }
   }"

definition nw_split_filter_and_route_packet ::
  "route_env \<Rightarrow> bytes \<Rightarrow> nw_split \<Rightarrow> (hosted_l2_bridge \<times> nw_split) option" where
  "nw_split_filter_and_route_packet e frame ns = do {
     d0 \<leftarrow> peek frame 0;
     if d0 AND 1 \<noteq> 0 then Some (SLAVE_LWIP_BRIDGE, ns)
     else do {
       ty \<leftarrow> peek16 frame 12;
       if ty = 0x0800 then do {
         proto \<leftarrow> peek frame (14 + 9);
         if proto = 6 then do {
           vhl \<leftarrow> peek frame 14;
           route_tcp e frame (14 + unat (vhl AND 0xF) * 4) ns
         } else if proto = 17 then do {
           vhl \<leftarrow> peek frame 14;
           route_udp e frame (14 + unat (vhl AND 0xF) * 4) ns
         } else if proto = 1 then do {
           vhl \<leftarrow> peek frame 14;
           t \<leftarrow> peek frame (14 + unat (vhl AND 0xF) * 4);
           if t = 8 then Some (SLAVE_LWIP_BRIDGE, ns)
           else if t = 0 then Some (if re_saving e then SLAVE_LWIP_BRIDGE else BOTH_LWIP_BRIDGE, ns)
           else Some (re_default e, ns)
         } else Some (re_default e, ns)
       } else if ty = 0x0806 then do {
         op \<leftarrow> peek16 frame (14 + 6);
         if op = 1 then Some (SLAVE_LWIP_BRIDGE, ns)
         else Some (if re_saving e then SLAVE_LWIP_BRIDGE else BOTH_LWIP_BRIDGE, ns)
       } else Some (re_default e, ns)
     }
   }"

section \<open>Lemmas: port lists\<close>

definition digit :: "nat \<Rightarrow> char" where
  "digit d = char_of (48 + d)"

fun dec :: "nat \<Rightarrow> string" where
  "dec n = (if n < 10 then [digit n] else dec (n div 10) @ [digit (n mod 10)])"

declare dec.simps [simp del]

lemma of_digit: "d < 10 \<Longrightarrow> (of_char (digit d) :: nat) = 48 + d"
  by (simp add: digit_def)

lemma dec_digits: "c \<in> set (dec n) \<Longrightarrow> is_digit c"
proof (induction n rule: dec.induct)
  case (1 n)
  show ?case
  proof (cases "n < 10")
    case True
    then have "c = digit n" using 1(2) by (simp add: dec.simps)
    then show ?thesis using True by (simp add: is_digit_def of_digit)
  next
    case False
    then have "c \<in> set (dec (n div 10)) \<or> c = digit (n mod 10)" using 1(2) by (subst (asm) dec.simps) auto
    then show ?thesis using 1(1) [OF False] by (auto simp: is_digit_def of_digit)
  qed
qed

lemma atoi_dec: "atoi (dec n) = n"
proof (induction n rule: dec.induct)
  case (1 n)
  show ?case
  proof (cases "n < 10")
    case True
    then show ?thesis by (simp add: dec.simps atoi_def of_digit)
  next
    case False
    then have "atoi (dec n) = 10 * atoi (dec (n div 10)) + n mod 10"
      by (subst dec.simps) (simp add: atoi_def of_digit)
    then show ?thesis using 1 [OF False] by simp
  qed
qed

lemma dec_nonempty [simp]: "dec n \<noteq> []"
  by (subst dec.simps) simp

lemma length_dec: "0 < k \<Longrightarrow> n < 10 ^ k \<Longrightarrow> length (dec n) \<le> k"
proof (induction k arbitrary: n)
  case 0
  then show ?case by simp
next
  case (Suc k)
  show ?case
  proof (cases "n < 10")
    case True
    then show ?thesis by (simp add: dec.simps)
  next
    case False
    then have "0 < k" "n div 10 < 10 ^ k" using Suc.prems(2) by (cases k; simp)+
    then have "length (dec (n div 10)) \<le> k" by (rule Suc.IH)
    then show ?thesis using False by (subst dec.simps) simp
  qed
qed

text \<open>Up to four digits in a row land in the buffer as they are.\<close>

lemma ports_loop_digits:
  assumes "list_all is_digit ds" "length ds + idx \<le> 4" "length buf = 6" "length acc < max_ports"
  shows "\<exists>buf'. ports_loop max_ports (ds @ cs) buf idx acc = ports_loop max_ports cs buf' (idx + length ds) acc \<and>
    length buf' = 6 \<and> take (idx + length ds) buf' = take idx buf @ ds"
  using assms
proof (induction ds arbitrary: buf idx)
  case Nil
  then show ?case by auto
next
  case (Cons d ds)
  have "\<exists>buf'. ports_loop max_ports (ds @ cs) (buf[idx := d]) (idx + 1) acc =
      ports_loop max_ports cs buf' (idx + 1 + length ds) acc \<and> length buf' = 6 \<and>
      take (idx + 1 + length ds) buf' = take (idx + 1) (buf[idx := d]) @ ds"
    using Cons by (intro Cons.IH) simp_all
  moreover have "take (idx + 1) (buf[idx := d]) = take idx buf @ [d]"
    using Cons.prems by (simp add: take_Suc_conv_app_nth)
  moreover have "ports_loop max_ports ((d # ds) @ cs) buf idx acc = ports_loop max_ports (ds @ cs) (buf[idx := d]) (idx + 1) acc"
    using Cons.prems by simp
  ultimately show ?case by simp
qed

fun join_ports :: "nat list \<Rightarrow> string" where
  "join_ports [] = []"
| "join_ports [p] = dec p"
| "join_ports (p # q # ps) = dec p @ CHR '','' # join_ports (q # ps)"

lemma comma_not_digit: "\<not> is_digit (CHR '','')"
  by (simp add: is_digit_def)

lemma ports_loop_full: "length acc \<ge> max_ports \<Longrightarrow> ports_loop max_ports cs buf idx acc = (buf, idx, acc)"
  by (cases cs) simp_all

definition finish_ports :: "string \<times> nat \<times> u16 list \<Rightarrow> u16 list" where
  "finish_ports r = (case r of (buf, idx, acc) \<Rightarrow> if idx > 0 then acc @ [of_nat (atoi (take idx buf))] else acc)"

lemma ports_loop_join:
  assumes "ps \<noteq> []" "\<forall>p\<in>set ps. p < 10000" "length buf = 6" "length acc < max_ports"
  shows "finish_ports (ports_loop max_ports (join_ports ps) buf 0 acc) = take max_ports (acc @ map of_nat ps)"
  using assms
proof (induction ps arbitrary: buf acc rule: join_ports.induct)
  case 1
  then show ?case by simp
next
  case (2 p)
  have d: "list_all is_digit (dec p)" "length (dec p) \<le> 4" "0 < length (dec p)"
    using 2 length_dec [of 4 p] by (auto simp: list_all_iff dec_digits)
  obtain buf' where "ports_loop max_ports (dec p @ []) buf 0 acc = (buf', length (dec p), acc)"
    "take (length (dec p)) buf' = dec p"
    using ports_loop_digits [of "dec p" 0 buf acc max_ports "[]"] d 2 by auto
  then show ?case using d 2 by (simp add: finish_ports_def atoi_dec)
next
  case (3 p q ps)
  have d: "list_all is_digit (dec p)" "length (dec p) \<le> 4" "0 < length (dec p)"
    using 3 length_dec [of 4 p] by (auto simp: list_all_iff dec_digits)
  obtain buf' where b: "ports_loop max_ports (dec p @ CHR '','' # join_ports (q # ps)) buf 0 acc =
      ports_loop max_ports (CHR '','' # join_ports (q # ps)) buf' (length (dec p)) acc"
    "length buf' = 6" "take (length (dec p)) buf' = dec p"
    using ports_loop_digits [of "dec p" 0 buf acc max_ports "CHR '','' # join_ports (q # ps)"] d 3 by auto
  have s: "ports_loop max_ports (CHR '','' # join_ports (q # ps)) buf' (length (dec p)) acc =
      ports_loop max_ports (join_ports (q # ps)) buf' 0 (acc @ [of_nat p])"
    using 3(5) d(3) b(3) comma_not_digit by (simp add: atoi_dec)
  show ?case
  proof (cases "length acc + 1 < max_ports")
    case True
    then have "finish_ports (ports_loop max_ports (join_ports (q # ps)) buf' 0 (acc @ [of_nat p])) =
        take max_ports ((acc @ [of_nat p]) @ map of_nat (q # ps))"
      using 3 b(2) by (intro 3(1)) auto
    then show ?thesis using b(1) s by simp
  next
    case False
    then have "ports_loop max_ports (join_ports (q # ps)) buf' 0 (acc @ [of_nat p]) = (buf', 0, acc @ [of_nat p])"
      by (intro ports_loop_full) simp
    moreover have "max_ports = length acc + 1" using False 3(5) by simp
    ultimately show ?thesis using b(1) s by (simp add: finish_ports_def)
  qed
qed

text \<open>A fifth digit overwrites nothing but is cut off: the index is moved back below it.\<close>

lemma five_digit_port:
  assumes "10000 \<le> n" "n < 100000" "0 < max_ports"
  shows "parse_ports max_ports (dec n) = [of_nat (n div 10)]"
proof -
  have e: "dec n = dec (n div 10) @ [digit (n mod 10)]" using assms by (subst dec.simps) simp
  have le: "length (dec (n div 10)) \<le> 4" using length_dec [of 4 "n div 10"] assms by simp
  have ge: "4 \<le> length (dec (n div 10))"
  proof -
    let ?m = "n div 10"
    have "1000 \<le> ?m" "1000 \<le> ?m" using assms by auto
    then have "dec ?m = dec (?m div 1000) @ [digit (?m div 100 mod 10), digit (?m div 10 mod 10), digit (?m mod 10)]"
      by (subst dec.simps, subst dec.simps, subst dec.simps) (auto simp: div_mult2_eq [symmetric])
    then show ?thesis by (cases "dec (?m div 1000)") auto
  qed
  have d: "list_all is_digit (dec (n div 10))" by (auto simp: list_all_iff dec_digits)
  obtain buf' where b: "ports_loop max_ports (dec (n div 10) @ [digit (n mod 10)]) (replicate 6 (CHR 0x00)) 0 [] =
      ports_loop max_ports [digit (n mod 10)] buf' 4 []" "length buf' = 6" "take 4 buf' = dec (n div 10)"
  proof -
    have l: "0 + length (dec (n div 10)) = 4" using le ge by simp
    have p: "length (dec (n div 10)) + 0 \<le> 4" "length (replicate 6 (CHR 0x00)) = 6" "length ([] :: u16 list) < max_ports"
      using le assms(3) by simp_all
    have "take 0 (replicate 6 (CHR 0x00)) @ dec (n div 10) = dec (n div 10)" by simp
    with ports_loop_digits [OF d p, of "[digit (n mod 10)]"] show ?thesis unfolding l using that by metis
  qed
  have "is_digit (digit (n mod 10))" by (simp add: is_digit_def of_digit)
  then show ?thesis
    using b assms(3) by (simp add: parse_ports_def e atoi_dec)
qed

section \<open>Lemmas: routing\<close>

lemma peek16_Some: "i + 1 < length buf \<Longrightarrow> peek16 buf i = Some (le16 (buf ! (i + 1)) (buf ! i))"
  by (simp add: peek16_def peek_def)

text \<open>The sequence of lookups of one port at the times and with the answers of \<open>qs\<close>.\<close>

primrec lookups :: "u16 \<Rightarrow> (64 word \<times> (u16 \<Rightarrow> bool)) list \<Rightarrow> port_cache \<Rightarrow> bool list" where
  "lookups port [] c = []"
| "lookups port (q # qs) c = (case is_local_port_open (fst q) (snd q) port c of (r, c') \<Rightarrow> r # lookups port qs c')"

primrec close_times :: "64 word \<Rightarrow> (64 word \<times> (u16 \<Rightarrow> bool)) list \<Rightarrow> bool" where
  "close_times t [] = True"
| "close_times t (q # qs) = (fst q - t < 1000 \<and> close_times (fst q) qs)"

text \<open>
  Every hit renews the time of the cached answer, so an answer lives as long as the port is asked for at
  least once a second, whatever the stack's table says.
\<close>

lemma port_cache_never_expires:
  assumes "close_times (pc_time c) qs" "pc_port c = port"
  shows "lookups port qs c = replicate (length qs) (pc_result c)"
  using assms
proof (induction qs arbitrary: c)
  case Nil
  then show ?case by simp
next
  case (Cons q qs)
  then show ?case using Cons.IH [of "c\<lparr>pc_time := fst q\<rparr>"] by (simp add: is_local_port_open_def)
qed

text \<open>
  With the flags macro of the TCP/IP stack, which keeps only the six flag bits, the length of the TCP header
  comes out as zero, and the text is compared with the header itself: the wake-up message is never found.
\<close>

lemma mqtt_wakeup_never:
  assumes "\<And>x. re_tcph_flags e x = x AND 0x3F" "re_saving e" "re_remote_tcp e dst" "dst \<noteq> 5001"
    and "peek16 frame tcp = Some 1883" "peek16 frame (tcp + 2) = Some dst" "tcp + 20 \<le> length frame"
    and "1883 \<notin> set (ns_tcp_src ns)" "dst \<notin> set (ns_tcp_dst ns)"
  shows "route_tcp e frame tcp ns = Some (INVALID_BRIDGE, ns)"
proof -
  have z: "drop_bit 12 (x AND 0x3F) = 0" for x :: u16
  proof (rule bit_eqI)
    fix k assume "possible_bit TYPE(u16) k"
    have "\<not> bit (0x3F :: u16) (12 + k)" by (simp add: bit_numeral_rec numeral_eq_Suc)
    then show "bit (drop_bit 12 (x AND 0x3F)) k = bit 0 k" by (simp add: bit_drop_bit_eq bit_and_iff)
  qed
  have b: "frame ! tcp = 0x07"
  proof -
    have "le16 (frame ! (tcp + 1)) (frame ! tcp) = 1883" using assms(5,7) by (simp add: peek16_Some)
    then have "frame ! tcp = hi8 1883" using hi8_le16 by metis
    then show ?thesis by (simp add: hi8_def)
  qed
  have w: "hd wakeup_host_string = 0x77" "wakeup_host_string \<noteq> []" "length wakeup_host_string = 11"
    by (simp_all add: wakeup_host_string_def)
  have "take 11 (drop tcp frame) \<noteq> wakeup_host_string"
  proof
    assume "take 11 (drop tcp frame) = wakeup_host_string"
    then have "hd (take 11 (drop tcp frame)) = 0x77" using w(1) by simp
    then show False using b assms(7) by (simp add: hd_drop_conv_nth)
  qed
  then have t: "host_mqtt_wakeup_triggered frame tcp wnd = Some False" for wnd
    using assms(7) w(3) by (simp add: host_mqtt_wakeup_triggered_def mem_slice_def)
  obtain fl wnd where "peek16 frame (tcp + 12) = Some fl" "peek16 frame (tcp + 14) = Some wnd"
    using assms(7) by (simp add: peek16_Some)
  then show ?thesis
    using assms t by (simp add: route_tcp_def z)
qed

text \<open>Which TCP and UDP packets reach a sleeping host.\<close>

lemma route_tcp_saving:
  assumes "route_tcp e frame tcp ns = Some (r, ns')" "re_saving e" "re_default e = SLAVE_LWIP_BRIDGE"
    and "r = HOST_LWIP_BRIDGE \<or> r = BOTH_LWIP_BRIDGE"
  shows "\<exists>src dst. peek16 frame tcp = Some src \<and> peek16 frame (tcp + 2) = Some dst \<and>
    (src \<in> set (ns_tcp_src ns) \<or> dst \<in> set (ns_tcp_dst ns) \<or> src = 1883 \<and> re_remote_tcp e dst)"
proof (rule ccontr)
  assume n: "\<not> ?thesis"
  obtain dst src where p: "peek16 frame (tcp + 2) = Some dst" "peek16 frame tcp = Some src"
    using assms(1) by (auto simp: route_tcp_def bind_eq_Some_conv)
  then have q: "src \<notin> set (ns_tcp_src ns)" "dst \<notin> set (ns_tcp_dst ns)" "src \<noteq> 1883 \<or> \<not> re_remote_tcp e dst"
    using n by auto
  obtain found c where f: "is_local_port_open (re_now e) (re_tcp_open e) dst (ns_tcp_cache ns) = (found, c)" by fastforce
  have "route_tcp e frame tcp ns = Some (r, ns')" by (rule assms(1))
  then have "r = SLAVE_LWIP_BRIDGE \<or> r = INVALID_BRIDGE"
    using p q f assms(2,3)
    by (cases "dst = 5001"; cases found; cases "re_remote_tcp e dst"; cases "re_local_tcp e dst")
      (auto simp: route_tcp_def)
  then show False using assms(4) by auto
qed

lemma route_udp_saving:
  assumes "route_udp e frame udp ns = Some (r, ns')" "re_saving e" "re_default e = SLAVE_LWIP_BRIDGE"
    and "r = HOST_LWIP_BRIDGE \<or> r = BOTH_LWIP_BRIDGE"
  shows "\<exists>src dst. peek16 frame udp = Some src \<and> peek16 frame (udp + 2) = Some dst \<and>
    (src \<in> set (ns_udp_src ns) \<or> dst \<in> set (ns_udp_dst ns) \<or> dst = 68)"
  using assms
  by (auto simp: route_udp_def bind_eq_Some_conv Let_def split: if_splits prod.splits option.splits)

section \<open>Properties\<close>

text \<open>
  A comma-separated list of ports below 10000 is parsed to exactly those ports, in order, up to the
  capacity of the table.
\<close>
lemma allowed_ports_parsed:
  assumes "ps \<noteq> []" "\<forall>p\<in>set ps. p < 10000" "0 < max_ports" "port_type \<notin> done"
  shows "init_allowed_ports (join_ports ps) max_ports port_type done old =
    (take max_ports (map of_nat ps), insert port_type done)"
proof -
  have "join_ports ps \<noteq> []" using assms(1) by (induction ps rule: join_ports.induct) simp_all
  then show ?thesis
    using ports_loop_join [OF assms(1,2), of "replicate 6 (CHR 0x00)" "[]" max_ports] assms(3,4)
    by (simp add: init_allowed_ports_def parse_ports_def finish_ports_def)
qed

text \<open>
  C15: while the host is in power save and the default stack is the co-processor's, a unicast frame is handed
  to the host only if it is a TCP packet of a reserved port or an MQTT packet for one of the host's ports, or a
  UDP packet of a reserved port or a DHCP answer, the ports being those of the header behind the IP header.
\<close>
theorem nw_split_power_save:
  assumes "nw_split_filter_and_route_packet e frame ns = Some (r, ns')" "re_saving e" "re_default e = SLAVE_LWIP_BRIDGE"
    and "r = HOST_LWIP_BRIDGE \<or> r = BOTH_LWIP_BRIDGE"
  shows "\<exists>vhl proto src dst. peek frame 14 = Some vhl \<and> peek frame 23 = Some proto \<and>
    peek16 frame (14 + unat (vhl AND 0xF) * 4) = Some src \<and> peek16 frame (16 + unat (vhl AND 0xF) * 4) = Some dst \<and>
    (proto = 6 \<and> (src \<in> set (ns_tcp_src ns) \<or> dst \<in> set (ns_tcp_dst ns) \<or> src = 1883 \<and> re_remote_tcp e dst) \<or>
     proto = 17 \<and> (src \<in> set (ns_udp_src ns) \<or> dst \<in> set (ns_udp_dst ns) \<or> dst = 68))"
proof -
  from assms obtain vhl proto where h: "peek frame 14 = Some vhl" "peek frame 23 = Some proto"
    and "proto = 6 \<and> route_tcp e frame (14 + unat (vhl AND 0xF) * 4) ns = Some (r, ns') \<or>
      proto = 17 \<and> route_udp e frame (14 + unat (vhl AND 0xF) * 4) ns = Some (r, ns')" (is "?t \<or> ?u")
    by (auto simp: nw_split_filter_and_route_packet_def bind_eq_Some_conv split: if_splits)
  from this(3) show ?thesis
  proof
    assume "?t"
    with route_tcp_saving [OF _ assms(2-4)] h show ?thesis by fastforce
  next
    assume "?u"
    with route_udp_saving [OF _ assms(2-4)] h show ?thesis by fastforce
  qed
qed

text \<open>
  While the host is awake, a unicast TCP or UDP packet (other than the iperf and DHCP ports) whose
  headers are inside the frame goes to the host if one of its ports is reserved or its destination port
  belongs to the host, to the co-processor's stack if the port is local, and to the default stack otherwise;
  the decision reads nothing outside the frame and changes no state.
\<close>
lemma nw_split_awake_route:
  assumes "\<not> re_saving e" "frame ! 0 AND 1 = 0" "peek16 frame 12 = Some 0x800" "frame ! 23 = 6 \<or> frame ! 23 = 17"
    and "off = 14 + unat (frame ! 14 AND 0xF) * 4" "off + 4 \<le> length frame" "24 \<le> length frame"
    and "peek16 frame off = Some src" "peek16 frame (off + 2) = Some dst" "dst \<noteq> 5001" "dst \<noteq> 68"
  shows "nw_split_filter_and_route_packet e frame ns = Some (
    if frame ! 23 = 6 then
      (if src \<in> set (ns_tcp_src ns) \<or> dst \<in> set (ns_tcp_dst ns) \<or> re_remote_tcp e dst then HOST_LWIP_BRIDGE
       else if re_local_tcp e dst then SLAVE_LWIP_BRIDGE else re_default e)
    else
      (if src \<in> set (ns_udp_src ns) \<or> dst \<in> set (ns_udp_dst ns) \<or> re_remote_udp e dst then HOST_LWIP_BRIDGE
       else if re_local_udp e dst then SLAVE_LWIP_BRIDGE else re_default e), ns)"
proof -
  have "0 < length frame" "14 < length frame" "23 < length frame" using assms(7) by linarith+
  then have p: "peek frame 0 = Some (frame ! 0)" "peek frame 14 = Some (frame ! 14)" "peek frame 23 = Some (frame ! 23)"
    by (simp_all add: peek_def)
  show ?thesis
    using assms p by (auto simp: nw_split_filter_and_route_packet_def route_tcp_def route_udp_def)
qed

definition demo_env :: "bool \<Rightarrow> route_env" where
  "demo_env saving = \<lparr>re_default = SLAVE_LWIP_BRIDGE, re_saving = saving, re_remote_tcp = (\<lambda>p. p \<ge> 49152),
     re_local_tcp = (\<lambda>p. p < 49152), re_remote_udp = (\<lambda>p. p \<ge> 49152), re_local_udp = (\<lambda>p. p < 49152), re_now = 0,
     re_tcp_open = (\<lambda>_. False), re_udp_open = (\<lambda>_. False), re_tcph_flags = (\<lambda>x. x AND 0x3F)\<rparr>"

definition demo_frame_tcp :: bytes where
  "demo_frame_tcp = replicate 12 2 @ [8, 0] @ [0x45] @ replicate 8 0 @ [6] @ replicate 10 0 @ [0, 80, 200, 10]"

definition demo_ns :: nw_split where
  "demo_ns = \<lparr>ns_tcp_src = [80], ns_tcp_dst = [], ns_udp_src = [], ns_udp_dst = [], ns_init = {},
     ns_tcp_cache = \<lparr>pc_time = 0, pc_result = False, pc_port = 0\<rparr>,
     ns_udp_cache = \<lparr>pc_time = 0, pc_result = False, pc_port = 0\<rparr>\<rparr>"

lemma demo_frame_eval:
  "demo_frame_tcp = [2, 2, 2, 2, 2, 2, 2, 2, 2, 2, 2, 2, 8, 0, 0x45, 0, 0, 0, 0, 0, 0, 0, 0, 6, 0, 0, 0, 0, 0, 0, 0, 0, 0, 0,
     0, 80, 200, 10]"
  by (simp add: demo_frame_tcp_def numeral_eq_Suc)

theorem nw_split_power_save_witness:
  "\<exists>vhl proto src dst. peek demo_frame_tcp 14 = Some vhl \<and> peek demo_frame_tcp 23 = Some proto \<and>
    peek16 demo_frame_tcp (14 + unat (vhl AND 0xF) * 4) = Some src \<and>
    peek16 demo_frame_tcp (16 + unat (vhl AND 0xF) * 4) = Some dst \<and>
    (proto = 6 \<and> (src \<in> set (ns_tcp_src demo_ns) \<or> dst \<in> set (ns_tcp_dst demo_ns) \<or>
        src = 1883 \<and> re_remote_tcp (demo_env True) dst) \<or>
     proto = 17 \<and> (src \<in> set (ns_udp_src demo_ns) \<or> dst \<in> set (ns_udp_dst demo_ns) \<or> dst = 68))"
proof (rule nw_split_power_save)
  show "nw_split_filter_and_route_packet (demo_env True) demo_frame_tcp demo_ns = Some (HOST_LWIP_BRIDGE, demo_ns)"
    by (simp add: nw_split_filter_and_route_packet_def demo_frame_eval peek16_def peek_def route_tcp_def le16_def
        demo_ns_def)
qed (simp_all add: demo_env_def)

end
