(* ===== verification/Slave_Core.thy ===== *)
theory Slave_Core
  imports Uart_Frame
begin

unbundle bit_operations_syntax

text \<open>
  The main module of the co-processor (\<open>src/slave/main/esp_hosted_coprocessor.c\<close>): reassembly of
  control messages from the host, dispatch of received packets, the configuration event, the
  transmit path to the host and the data-path state machine.

  The priority queues are compiled out (\<open>BYPASS_TX_PRIORITY_Q\<close> is 1): \<open>send_to_host_queue\<close> processes
  the packet at once. The WiFi driver, the bus driver's \<open>write\<close> and the power-save predicates are
  outside this module: their answers are arguments and the calls are recorded.
\<close>

section \<open>State\<close>

datatype if_state = IF_DEINIT | IF_DEACTIVE | IF_ACTIVE

datatype host_interrupt =
  ESP_OPEN_DATA_PATH | ESP_CLOSE_DATA_PATH | ESP_RESET | ESP_POWER_SAVE_ON | ESP_POWER_SAVE_OFF

text \<open>
  \<open>sc_valid\<close>, \<open>sc_cur_seq\<close>, \<open>sc_len\<close>, \<open>sc_data\<close>: the reassembly buffer \<open>r\<close>. \<open>sc_reqs\<close>: the copies handed
  to the request queue. \<open>sc_wifi\<close>: packets given to the WiFi driver (\<open>True\<close> for the station).
  \<open>sc_written\<close>: packets given to the bus. \<open>sc_frees\<close>: buffers released. \<open>sc_sem\<close>: count of
  \<open>host_reset_sem\<close>. \<open>sc_alerts\<close>: power-save alert tasks started.
\<close>

record slave_core =
  sc_valid :: bool
  sc_cur_seq :: u16
  sc_len :: nat
  sc_data :: bytes
  sc_reqs :: "bytes list"
  sc_datapath :: bool
  sc_if :: "if_state option"
  sc_high :: u8
  sc_low :: u8
  sc_sta :: bool
  sc_ap :: bool
  sc_wifi :: "(bool \<times> bytes) list"
  sc_written :: "interface_buffer_handle list"
  sc_frees :: "nat list"
  sc_seq :: u16
  sc_sem :: nat
  sc_alerts :: "host_interrupt list"

abbreviation (input) R_SIZE :: nat where "R_SIZE \<equiv> 8192"

section \<open>Control messages from the host\<close>

text \<open>
  \<open>parse_protobuf_req\<close>, that is \<open>protocomm_pserial_data_ready\<close> with the reassembled octets: \<open>mem\<close> is the
  allocation of the copy. The queue send waits for room.
\<close>

definition parse_protobuf_req :: "bool \<Rightarrow> slave_core \<Rightarrow> slave_core" where
  "parse_protobuf_req mem st =
     (if sc_len st \<noteq> 0 \<and> \<not> mem then st
      else st\<lparr>sc_reqs := sc_reqs st @ [take (sc_len st) (sc_data st)]\<rparr>)"

definition serial_read_data :: "nat \<Rightarrow> slave_core \<Rightarrow> bytes \<times> nat \<times> slave_core" where
  "serial_read_data len st =
     (let len = min len (sc_len st) in
      if sc_valid st then
        (take len (sc_data st), len, st\<lparr>sc_valid := False, sc_len := 0, sc_cur_seq := 0\<rparr>)
      else ([], len, st))"

text \<open>
  \<open>process_serial_rx_pkt\<close>. \<open>reader\<close>: the request task reads the previous message while this function
  waits for \<open>r.valid\<close> to clear; otherwise it waits for ever (\<open>None\<close>). \<open>rem_buff_size\<close> is computed before
  the wait, as in the code.
\<close>

definition process_serial_rx_pkt :: "bool \<Rightarrow> bool \<Rightarrow> bytes \<Rightarrow> slave_core \<Rightarrow> slave_core option" where
  "process_serial_rx_pkt mem reader buf st = do {
     header \<leftarrow> decode_header buf;
     let payload_len = unat (ph_len header);
     let rem_buff_size = R_SIZE - sc_len st;
     st \<leftarrow> (if \<not> sc_valid st then Some st
            else if reader then Some (snd (snd (serial_read_data (sc_len st) st))) else None);
     let st = (if sc_len st = 0 then st\<lparr>sc_cur_seq := ph_seq_num header\<rparr> else st);
     if ph_seq_num header \<noteq> sc_cur_seq st then Some (parse_protobuf_req mem (st\<lparr>sc_valid := True\<rparr>))
     else do {
       let n = min payload_len rem_buff_size;
       payload \<leftarrow> mem_slice buf (unat (ph_offset header)) n;
       data \<leftarrow> poke (sc_len st) payload (sc_data st);
       let st = st\<lparr>sc_data := data, sc_len := sc_len st + n\<rparr>;
       if ph_flags header AND MORE_FRAGMENT = 0 then Some (parse_protobuf_req mem (st\<lparr>sc_valid := True\<rparr>))
       else Some st
     }
   }"

section \<open>Configuration from the host\<close>

abbreviation (input) HOST_CAPABILITIES :: u8 where "HOST_CAPABILITIES \<equiv> 0x44"
abbreviation (input) RCVD_ESP_FIRMWARE_CHIP_ID :: u8 where "RCVD_ESP_FIRMWARE_CHIP_ID \<equiv> 0x45"
abbreviation (input) SLV_CONFIG_TEST_RAW_TP :: u8 where "SLV_CONFIG_TEST_RAW_TP \<equiv> 0x46"
abbreviation (input) SLV_CONFIG_THROTTLE_HIGH_THRESHOLD :: u8 where "SLV_CONFIG_THROTTLE_HIGH_THRESHOLD \<equiv> 0x47"
abbreviation (input) SLV_CONFIG_THROTTLE_LOW_THRESHOLD :: u8 where "SLV_CONFIG_THROTTLE_LOW_THRESHOLD \<equiv> 0x48"
abbreviation (input) ESP_PRIV_EVENT_INIT :: u8 where "ESP_PRIV_EVENT_INIT \<equiv> 0x22"

text \<open>
  The loop of \<open>host_to_slave_reconfig\<close> at offset \<open>pos\<close> with the 8-bit counter \<open>len_left\<close>. Only the two
  thresholds change the state; the other tags are logged (the value octet of the known tags is read).
\<close>

function reconfig_loop :: "bytes \<Rightarrow> nat \<Rightarrow> u8 \<Rightarrow> slave_core \<Rightarrow> slave_core option" where
  "reconfig_loop buf pos len_left st =
     (if len_left = 0 then Some st
      else case (peek buf pos, peek buf (pos + 1)) of
        (Some tag, Some tag_len) \<Rightarrow>
          (if tag = RCVD_ESP_FIRMWARE_CHIP_ID \<or> tag = SLV_CONFIG_TEST_RAW_TP \<or>
              tag = SLV_CONFIG_THROTTLE_HIGH_THRESHOLD \<or> tag = SLV_CONFIG_THROTTLE_LOW_THRESHOLD
           then (case peek buf (pos + 2) of
               None \<Rightarrow> None
             | Some v \<Rightarrow>
                 reconfig_loop buf (pos + (unat tag_len + 2)) (len_left - (tag_len + 2))
                   (if tag = SLV_CONFIG_THROTTLE_HIGH_THRESHOLD then st\<lparr>sc_high := v\<rparr>
                    else if tag = SLV_CONFIG_THROTTLE_LOW_THRESHOLD then st\<lparr>sc_low := v\<rparr> else st))
           else reconfig_loop buf (pos + (unat tag_len + 2)) (len_left - (tag_len + 2)) st)
      | _ \<Rightarrow> None)"
  by pat_completeness auto
termination
  by (relation "measure (\<lambda>(buf, pos, l, st). length buf - pos)") (auto simp: peek_def split: if_splits)

declare reconfig_loop.simps [simp del]

text \<open>\<open>None\<close> also stands for the failed assertion on events of more than 64 octets.\<close>

definition host_to_slave_reconfig :: "bytes \<Rightarrow> u16 \<Rightarrow> slave_core \<Rightarrow> slave_core option" where
  "host_to_slave_reconfig evt_buf len st =
     (if unat len > 64 then None else reconfig_loop evt_buf 0 (ucast len) st)"

definition process_priv_pkt :: "bytes \<Rightarrow> u16 \<Rightarrow> slave_core \<Rightarrow> slave_core option" where
  "process_priv_pkt payload payload_len st =
     (if payload_len = 0 then Some st
      else do {
        event_type \<leftarrow> peek payload 0;
        if event_type = ESP_PRIV_EVENT_INIT then do {
          event_len \<leftarrow> peek payload 1;
          host_to_slave_reconfig (drop 2 payload) (ucast event_len) st
        } else Some st
      })"

section \<open>Dispatch\<close>

text \<open>The station transmit loop: \<open>ret i\<close> is non-zero when attempt \<open>i\<close> fails; \<open>n\<close> attempts are left.\<close>

fun wifi_sta_tx :: "(nat \<Rightarrow> int) \<Rightarrow> nat \<Rightarrow> nat \<Rightarrow> bytes \<Rightarrow> slave_core \<Rightarrow> slave_core" where
  "wifi_sta_tx ret i 0 p st = st"
| "wifi_sta_tx ret i (Suc n) p st =
     (let st = st\<lparr>sc_wifi := sc_wifi st @ [(True, p)]\<rparr> in
      if ret i \<noteq> 0 then wifi_sta_tx ret (i + 1) n p st else st)"

abbreviation (input) MAX_WIFI_STA_TX_RETRY :: nat where "MAX_WIFI_STA_TX_RETRY \<equiv> 2"

text \<open>\<open>retry\<close> is the option \<open>CONFIG_ESP_HOSTED_WIFI_TX_RETRY_ENABLED\<close>; Bluetooth and raw throughput are off.\<close>

definition process_rx_pkt ::
  "bool \<Rightarrow> bool \<Rightarrow> bool \<Rightarrow> (nat \<Rightarrow> int) \<Rightarrow> interface_buffer_handle \<Rightarrow> slave_core \<Rightarrow> slave_core option" where
  "process_rx_pkt mem reader retry ret bh st = do {
     buf \<leftarrow> bh_payload bh;
     header \<leftarrow> decode_header buf;
     let payload_len = ph_len header;
     st \<leftarrow>
       (if bh_if_type bh = if_code ESP_STA_IF \<and> sc_sta st then
          map_option (\<lambda>p. wifi_sta_tx ret 0 (if retry then MAX_WIFI_STA_TX_RETRY else 1) p st)
            (mem_slice buf (unat (ph_offset header)) (unat payload_len))
        else if bh_if_type bh = if_code ESP_AP_IF \<and> sc_ap st then
          map_option (\<lambda>p. st\<lparr>sc_wifi := sc_wifi st @ [(False, p)]\<rparr>)
            (mem_slice buf (unat (ph_offset header)) (unat payload_len))
        else if bh_if_type bh = if_code ESP_SERIAL_IF then process_serial_rx_pkt mem reader buf st
        else if bh_if_type bh = if_code ESP_PRIV_IF then
          process_priv_pkt (drop (unat (ph_offset header)) buf) payload_len st
        else Some st);
     Some (st\<lparr>sc_frees := sc_frees st @ snd (free_handle bh)\<rparr>)
   }"

section \<open>To the host\<close>

text \<open>
  \<open>process_tx_pkt\<close>. \<open>ready\<close>: the bus has a \<open>write\<close> operation; \<open>ps\<close>: \<open>is_host_power_saving\<close>; \<open>needed\<close>:
  \<open>is_host_wakeup_needed\<close> of the packet; \<open>awake\<close>: the result of \<open>wakeup_host\<close>.
\<close>

definition process_tx_pkt ::
  "bool \<Rightarrow> bool \<Rightarrow> (interface_buffer_handle \<Rightarrow> bool) \<Rightarrow> bool \<Rightarrow> interface_buffer_handle \<Rightarrow> slave_core \<Rightarrow> slave_core" where
  "process_tx_pkt ready ps needed awake bh st =
     (let st1 =
        (if \<not> sc_datapath st \<or> \<not> ready then st
         else if ps \<and> needed bh then
           (if awake then st\<lparr>sc_written := sc_written st @ [bh\<lparr>bh_flag := bh_flag bh OR FLAG_WAKEUP_PKT\<rparr>]\<rparr>
            else st)
         else st\<lparr>sc_written := sc_written st @ [bh]\<rparr>)
      in st1\<lparr>sc_frees := sc_frees st1 @ snd (free_handle bh)\<rparr>)"

definition send_to_host_queue ::
  "bool \<Rightarrow> bool \<Rightarrow> (interface_buffer_handle \<Rightarrow> bool) \<Rightarrow> bool \<Rightarrow> interface_buffer_handle \<Rightarrow> slave_core \<Rightarrow> slave_core" where
  "send_to_host_queue ready ps needed awake bh st = process_tx_pkt ready ps needed awake bh st"

abbreviation (input) ETH_DATA_LEN :: nat where "ETH_DATA_LEN \<equiv> 1500"

text \<open>
  The \<open>do\<close> loop of \<open>serial_write_data\<close> at offset \<open>pos\<close>; \<open>buf\<close> names the object \<open>data\<close>. The sequence
  number is a static \<open>uint16_t\<close> that is incremented for every fragment.
\<close>

function serial_write_loop ::
  "(interface_buffer_handle \<Rightarrow> slave_core \<Rightarrow> slave_core) \<Rightarrow> nat \<Rightarrow> bytes \<Rightarrow> nat \<Rightarrow> nat \<Rightarrow> slave_core \<Rightarrow> slave_core" where
  "serial_write_loop send buf data pos left_len st =
     (let st = st\<lparr>sc_seq := sc_seq st + 1\<rparr>;
          final = (left_len \<le> ETH_DATA_LEN);
          frag_len = (if final then left_len else ETH_DATA_LEN);
          bh = zero_handle\<lparr>bh_if_type := if_code ESP_SERIAL_IF, bh_seq_num := sc_seq st,
                 bh_flag := (if final then 0 else MORE_FRAGMENT),
                 bh_priv := (if final then buf else 0), bh_free := final,
                 bh_payload := Some (drop pos data), bh_payload_len := of_nat frag_len\<rparr>;
          st = send bh st
      in if left_len - frag_len = 0 then st
         else serial_write_loop send buf data (pos + frag_len) (left_len - frag_len) st)"
  by pat_completeness auto
termination
  by (relation "measure (\<lambda>(send, buf, data, pos, left, st). left)") auto

declare serial_write_loop.simps [simp del]

definition serial_write_data ::
  "(interface_buffer_handle \<Rightarrow> slave_core \<Rightarrow> slave_core) \<Rightarrow> nat \<Rightarrow> bytes \<Rightarrow> nat \<Rightarrow> slave_core \<Rightarrow> esp_err \<times> slave_core" where
  "serial_write_data send buf data len st = (ESP_OK, serial_write_loop send buf data 0 len st)"

section \<open>Data path\<close>

text \<open>\<open>event_handler\<close>: \<open>None\<close> is the dereference of a null \<open>if_handle\<close>; the semaphore exists.\<close>

definition event_handler :: "host_interrupt \<Rightarrow> slave_core \<Rightarrow> slave_core option" where
  "event_handler val st =
     (case val of
        ESP_OPEN_DATA_PATH \<Rightarrow>
          (case sc_if st of
             None \<Rightarrow> Some st
           | Some _ \<Rightarrow> Some (st\<lparr>sc_if := Some IF_ACTIVE, sc_datapath := True, sc_sem := 1\<rparr>))
      | ESP_CLOSE_DATA_PATH \<Rightarrow>
          Some (st\<lparr>sc_datapath := False,
                   sc_if := (case sc_if st of Some IF_ACTIVE \<Rightarrow> Some IF_DEACTIVE | s \<Rightarrow> s)\<rparr>)
      | ESP_POWER_SAVE_ON \<Rightarrow> Some (st\<lparr>sc_alerts := sc_alerts st @ [ESP_POWER_SAVE_ON]\<rparr>)
      | ESP_POWER_SAVE_OFF \<Rightarrow>
          (case sc_if st of
             None \<Rightarrow> None
           | Some _ \<Rightarrow> Some (st\<lparr>sc_datapath := True, sc_if := Some IF_ACTIVE,
                                sc_alerts := sc_alerts st @ [ESP_POWER_SAVE_OFF]\<rparr>))
      | ESP_RESET \<Rightarrow> Some st)"

section \<open>Lemmas: reassembly\<close>

text \<open>
  A control fragment as the bus driver delivers it: the host's sequence number stays 0, and the
  checksum field has been cleared by the check.
\<close>

definition slave_hdr :: "bytes \<times> bool \<Rightarrow> esp_payload_header" where
  "slave_hdr f = zero_header\<lparr>ph_len := of_nat (length (fst f)), ph_offset := 12,
     ph_if_type := ucast (if_code ESP_SERIAL_IF), ph_flags := (if snd f then 1 else 0)\<rparr>"

definition slave_frame :: "bytes \<times> bool \<Rightarrow> bytes" where
  "slave_frame f = encode_header (slave_hdr f) @ fst f"

text \<open>One fragment arrives, and the request task reads a completed message before the next one.\<close>

definition slave_collect :: "bytes \<times> bool \<Rightarrow> slave_core \<Rightarrow> slave_core" where
  "slave_collect f st = (case process_serial_rx_pkt True True (slave_frame f) st of
     Some st' \<Rightarrow> if sc_valid st' then snd (snd (serial_read_data (sc_len st') st')) else st'
   | None \<Rightarrow> st)"

definition sacc :: "bytes \<Rightarrow> slave_core \<Rightarrow> bool" where
  "sacc d st = (\<not> sc_valid st \<and> sc_len st = length d \<and> length (sc_data st) = R_SIZE \<and>
     take (length d) (sc_data st) = d \<and> (d = [] \<or> sc_cur_seq st = 0))"

lemma decode_slave_frame: "decode_header (slave_frame f) = Some (slave_hdr f)"
  by (simp add: slave_frame_def)

lemma slice_slave_frame:
  "n \<le> length (fst f) \<Longrightarrow> mem_slice (slave_frame f) 12 n = Some (take n (fst f))"
  by (simp add: mem_slice_def slave_frame_def)

text \<open>The state after a fragment was stored, with room computed from the accumulated length.\<close>

lemma serial_rx_store:
  assumes "sacc d st" "length p < 65536" "length d + length p \<le> R_SIZE"
  shows "\<exists>data. process_serial_rx_pkt mem reader (slave_frame (p, mf)) st =
      Some ((if mf then id else (\<lambda>s. parse_protobuf_req mem (s\<lparr>sc_valid := True\<rparr>)))
        (st\<lparr>sc_cur_seq := 0, sc_data := data, sc_len := length d + length p\<rparr>)) \<and>
    length data = R_SIZE \<and> take (length d + length p) data = d @ p"
proof -
  have u: "unat (of_nat (length p) :: u16) = length p" using assms(2) by (simp add: unat_of_nat_u16)
  define data where "data = take (length d) (sc_data st) @ p @ drop (length d + length p) (sc_data st)"
  have pk: "poke (length d) p (sc_data st) = Some data" and dl: "length data = R_SIZE"
    "take (length d + length p) data = d @ p"
    using assms by (auto simp: poke_def data_def sacc_def)
  have sq: "st\<lparr>sc_cur_seq := 0\<rparr> = st" if "d \<noteq> []"
    using assms(1) that by (simp add: sacc_def)
  show ?thesis
    using assms pk dl u sq
    by (intro exI [of _ data])
      (auto simp: process_serial_rx_pkt_def decode_slave_frame slice_slave_frame sacc_def slave_hdr_def zero_header_def
        Let_def min_def)
qed

lemma slave_collect_more:
  assumes "sacc d st" "p \<noteq> []" "length p < 65536" "length d + length p \<le> R_SIZE"
  shows "sacc (d @ p) (slave_collect (p, True) st)" "sc_reqs (slave_collect (p, True) st) = sc_reqs st"
  using serial_rx_store [OF assms(1,3,4), of True True True] assms(1)
  by (auto simp: slave_collect_def sacc_def)

lemma slave_collect_last:
  assumes "sacc d st" "p \<noteq> []" "length p < 65536" "length d + length p \<le> R_SIZE"
  shows "sacc [] (slave_collect (p, False) st)" "sc_reqs (slave_collect (p, False) st) = sc_reqs st @ [d @ p]"
  using serial_rx_store [OF assms(1,3,4), of True True False] assms(1)
  by (auto simp: slave_collect_def sacc_def parse_protobuf_req_def serial_read_data_def Let_def)

lemma slave_collect_frags:
  assumes "0 < n" "n < 65536" "sacc d st" "m \<noteq> []" "length d + length m \<le> R_SIZE"
  shows "sacc [] (fold slave_collect (frags n m) st) \<and>
    sc_reqs (fold slave_collect (frags n m) st) = sc_reqs st @ [d @ m]"
  using assms
proof (induction m arbitrary: d st rule: frags_induct)
  case (short m)
  then show ?case using slave_collect_last [of d st m] by (simp add: frags_short)
next
  case (long m)
  have p: "take n m \<noteq> []" "length (take n m) < 65536" "length d + length (take n m) \<le> R_SIZE"
    using long by auto
  note c = slave_collect_more [OF long.prems(2) p]
  show ?case
    using long.IH [OF long.prems(1) c(1)] c(2) long by (simp add: frags_long)
qed

interpretation slave_rx: fragment_link "frags 1588" slave_collect sc_reqs "sacc []" 8192
  by unfold_locales (use slave_collect_frags [of 1588 "[]"] in auto)

section \<open>Lemmas: transmit\<close>

text \<open>A bus that is up and a host that is awake.\<close>

abbreviation (input) send_open :: "interface_buffer_handle \<Rightarrow> slave_core \<Rightarrow> slave_core" where
  "send_open \<equiv> send_to_host_queue True False (\<lambda>_. False) True"

definition handle_frag :: "interface_buffer_handle \<Rightarrow> bytes \<times> bool" where
  "handle_frag bh = (take (unat (bh_payload_len bh)) (the (bh_payload bh)), bh_flag bh AND MORE_FRAGMENT \<noteq> 0)"

lemma eth_len_pos: "0 < (1500 :: nat)"
  by simp

lemma serial_write_loop_frags:
  assumes "sc_datapath st" "buf \<noteq> 0"
  shows "\<exists>bhs. sc_written (serial_write_loop send_open buf (pre @ m) (length pre) (length m) st) =
      sc_written st @ bhs \<and> map handle_frag bhs = frags 1500 m \<and>
    map bh_seq_num bhs = map (\<lambda>k. sc_seq st + of_nat (Suc k)) [0..<length bhs] \<and>
    sc_frees (serial_write_loop send_open buf (pre @ m) (length pre) (length m) st) = sc_frees st @ [buf] \<and>
    (\<forall>bh \<in> set bhs. bh_if_type bh = if_code ESP_SERIAL_IF \<and> bh_if_num bh = 0 \<and> bh_payload bh \<noteq> None \<and>
       unat (bh_payload_len bh) \<le> length (the (bh_payload bh)))"
  using eth_len_pos assms(1)
proof (induction m arbitrary: pre st rule: frags_induct)
  case (short m)
  let ?bh = "zero_handle\<lparr>bh_if_type := if_code ESP_SERIAL_IF, bh_seq_num := sc_seq st + 1,
      bh_priv := buf, bh_free := True, bh_payload := Some m, bh_payload_len := of_nat (length m)\<rparr>"
  have u: "unat (of_nat (length m) :: u16) = length m" using short by (simp add: unat_of_nat_u16)
  show ?case
    using short assms(2) u
    by (subst (1 2) serial_write_loop.simps, intro exI [of _ "[?bh]"])
      (simp add: Let_def send_to_host_queue_def process_tx_pkt_def free_handle_def zero_handle_def
        handle_frag_def frags_short)
next
  case (long m)
  let ?bh = "zero_handle\<lparr>bh_if_type := if_code ESP_SERIAL_IF, bh_seq_num := sc_seq st + 1,
      bh_flag := 1, bh_payload := Some m, bh_payload_len := 1500\<rparr>"
  let ?st = "st\<lparr>sc_seq := sc_seq st + 1, sc_written := sc_written st @ [?bh]\<rparr>"
  have step: "serial_write_loop send_open buf (pre @ m) (length pre) (length m) st =
      serial_write_loop send_open buf ((pre @ take 1500 m) @ drop 1500 m) (length (pre @ take 1500 m))
        (length (drop 1500 m)) ?st"
    using long
    by (subst serial_write_loop.simps)
      (simp add: Let_def send_to_host_queue_def process_tx_pkt_def free_handle_def zero_handle_def)
  obtain bhs where b: "sc_written (serial_write_loop send_open buf (pre @ m) (length pre) (length m) st) =
      sc_written ?st @ bhs" "map handle_frag bhs = frags 1500 (drop 1500 m)"
    "map bh_seq_num bhs = map (\<lambda>k. sc_seq ?st + of_nat (Suc k)) [0..<length bhs]"
    "sc_frees (serial_write_loop send_open buf (pre @ m) (length pre) (length m) st) = sc_frees st @ [buf]"
    "\<forall>bh \<in> set bhs. bh_if_type bh = if_code ESP_SERIAL_IF \<and> bh_if_num bh = 0 \<and> bh_payload bh \<noteq> None \<and>
       unat (bh_payload_len bh) \<le> length (the (bh_payload bh))"
    using long.IH [of ?st "pre @ take 1500 m"] long.prems step by auto
  have "handle_frag ?bh = (take 1500 m, True)"
    by (simp add: handle_frag_def zero_handle_def)
  moreover have "map (\<lambda>k. sc_seq st + of_nat (Suc k)) [0..<length (?bh # bhs)] =
      (sc_seq st + 1) # map (\<lambda>k. sc_seq ?st + of_nat (Suc k)) [0..<length bhs]"
    by (simp add: map_upt_Suc del: upt_Suc)
  ultimately show ?case
    using b long by (intro exI [of _ "?bh # bhs"]) (simp add: frags_long zero_handle_def)
qed

section \<open>Data-path runs\<close>

primrec event_run :: "host_interrupt list \<Rightarrow> slave_core \<Rightarrow> slave_core option" where
  "event_run [] st = Some st"
| "event_run (e # es) st = event_handler e st \<bind> event_run es"

definition path_inv :: "slave_core \<Rightarrow> bool" where
  "path_inv st = (sc_if st \<noteq> None \<and> (sc_datapath st \<longleftrightarrow> sc_if st = Some IF_ACTIVE))"

lemma event_handler_inv:
  "path_inv st \<Longrightarrow> \<exists>st'. event_handler e st = Some st' \<and> path_inv st'"
  by (cases e) (auto simp: event_handler_def path_inv_def split: option.splits if_state.splits)

lemma event_run_inv: "path_inv st \<Longrightarrow> \<exists>st'. event_run es st = Some st' \<and> path_inv st'"
proof (induction es arbitrary: st)
  case (Cons e es)
  then show ?case using event_handler_inv [OF Cons.prems, of e] by auto
qed simp

section \<open>Properties\<close>

text \<open>
  C13: the slave reassembles control messages. When messages of 1 to 8192 octets are cut by the host
  in pieces of at most 1588 octets, framed, and received in order, with the request task reading each
  complete message before the next frame is processed, the request queue receives exactly those
  messages, whole and in order, and the reassembly buffer never overflows.
\<close>
theorem slave_reassembly:
  assumes "sacc [] st" "\<forall>m \<in> set ms. m \<noteq> [] \<and> length m \<le> 8192"
  shows "sacc [] (fold slave_collect (concat (map (frags 1588) ms)) st) \<and>
    sc_reqs (fold slave_collect (concat (map (frags 1588) ms)) st) = sc_reqs st @ ms"
  using assms by (rule slave_rx.message_sequence)

definition demo_slave :: slave_core where
  "demo_slave = \<lparr>sc_valid = False, sc_cur_seq = 0, sc_len = 0, sc_data = replicate 8192 0, sc_reqs = [],
     sc_datapath = False, sc_if = Some IF_DEACTIVE, sc_high = 0, sc_low = 0, sc_sta = False, sc_ap = False,
     sc_wifi = [], sc_written = [], sc_frees = [], sc_seq = 0, sc_sem = 0, sc_alerts = []\<rparr>"

theorem slave_reassembly_witness:
  "sc_reqs (fold slave_collect (concat (map (frags 1588) [[1, 2, 3], [4]])) demo_slave) = [[1, 2, 3], [4]]"
  using slave_reassembly [of demo_slave "[[1, 2, 3], [4]]"] by (simp add: demo_slave_def sacc_def)

text \<open>
  When a frame arrives while the previous message is still unread, the room in the reassembly
  buffer was computed before the wait. A message that fits the empty buffer is then cut to
  \<open>8192 - len\<close> octets, where \<open>len\<close> is the length of the previous message.
\<close>
lemma slave_reassembly_stale:
  assumes "sc_valid st" "sc_len st < 8192" "length (sc_data st) = 8192"
    and "8192 - sc_len st < length p" "length p \<le> 1588"
  shows "\<exists>st'. process_serial_rx_pkt True True (slave_frame (p, False)) st = Some st' \<and>
    sc_reqs st' = sc_reqs st @ [take (8192 - sc_len st) p]"
proof -
  let ?n = "8192 - sc_len st"
  have u: "unat (of_nat (length p) :: u16) = length p" using assms(5) by (simp add: unat_of_nat_u16)
  have pk: "poke 0 (take ?n p) (sc_data st) = Some (take ?n p @ drop ?n (sc_data st))"
    using assms by (simp add: poke_def min_def)
  have sl: "mem_slice (slave_frame (p, False)) 12 ?n = Some (take ?n p)"
    using assms(4) by (subst slice_slave_frame) simp_all
  show ?thesis
    using assms pk u sl
    by (simp add: process_serial_rx_pkt_def decode_slave_frame slave_hdr_def zero_header_def serial_read_data_def
        Let_def min_def parse_protobuf_req_def)
qed

text \<open>
  A response written with \<open>serial_write_data\<close> over an open data path leaves the slave as fragments
  of at most 1500 octets with consecutive sequence numbers, whose payloads and \<open>MORE_FRAGMENT\<close> flags
  are the reference fragmentation of the response; the response buffer is released exactly once.
\<close>
lemma slave_response_fragments:
  assumes "sc_datapath st" "buf \<noteq> 0"
  shows "\<exists>bhs st'. serial_write_data (send_to_host_queue True False (\<lambda>_. False) True) buf m (length m) st = (ESP_OK, st') \<and>
    sc_written st' = sc_written st @ bhs \<and> map handle_frag bhs = frags 1500 m \<and>
    map bh_seq_num bhs = map (\<lambda>k. sc_seq st + of_nat (Suc k)) [0..<length bhs] \<and>
    sc_frees st' = sc_frees st @ [buf]"
  using serial_write_loop_frags [OF assms, of "[]" m] by (auto simp: serial_write_data_def)

text \<open>
  The data path and the bus interface stay in step. From a slave whose interface exists and whose
  data path is open exactly when the interface is active, any sequence of host interrupts is handled
  without touching a null handle and keeps that relation.
\<close>
lemma datapath_invariant:
  assumes "path_inv st"
  shows "\<exists>st'. event_run es st = Some st' \<and> sc_if st' \<noteq> None \<and>
    (sc_datapath st' \<longleftrightarrow> sc_if st' = Some IF_ACTIVE)"
  using event_run_inv [OF assms, of es] by (auto simp: path_inv_def)

end
