(* ===== verification/Power_Save.thy ===== *)
theory Power_Save
  imports Slave_Core
begin

text \<open>
  Power save of the host, on both sides: the co-processor's module \<open>src/slave/main/host_power_save.c\<close> (alerts
  from the host, the wake-up pulse on a GPIO, the binary semaphore that says the host is awake) and the host's
  \<open>src/host/drivers/power_save/power_save_drv.c\<close> (entering and leaving deep sleep, the reset interrupt and the
  timer that starts a sleep).

  The build options modelled are \<open>H_HOST_PS_ALLOWED\<close> and \<open>H_HOST_PS_DEEP_SLEEP_ALLOWED\<close>, without which both
  files are empty. \<open>None\<close> is a failed assertion, a null dereference or a call that does not return. GPIO and
  clock readings and the results of platform calls are arguments. Callbacks are numbers, 0 being the null
  pointer, and their calls are recorded.
\<close>

section \<open>The co-processor's state\<close>

datatype ps_call = PS_Cb nat | PS_Gpio bool | PS_Bus_Deinit | PS_Bus_Init

record ps_callbacks =
  on_prepare_cb :: nat
  on_ready_cb :: nat
  off_prepare_cb :: nat
  off_ready_cb :: nat

record ps_config =
  pc_enable :: bool
  pc_gpio :: int
  pc_level :: bool
  pc_callbacks :: ps_callbacks

record host_ps =
  hp_config :: ps_config
  hp_on :: bool
  hp_sem :: "nat option"
  hp_log :: "ps_call list"

type_synonym ps_state = "host_ps \<times> slave_core"

definition no_callbacks :: ps_callbacks where
  "no_callbacks = \<lparr>on_prepare_cb = 0, on_ready_cb = 0, off_prepare_cb = 0, off_ready_cb = 0\<rparr>"

text \<open>\<open>wakeup_gpio\<close> and \<open>wakeup_level\<close> are the constants \<open>H_HOST_WAKE_UP_GPIO\<close> and \<open>H_HOST_WAKEUP_GPIO_LEVEL\<close>.\<close>

definition default_ps_config :: "bool \<Rightarrow> int \<Rightarrow> bool \<Rightarrow> ps_config" where
  "default_ps_config enable wakeup_gpio wakeup_level =
     \<lparr>pc_enable = enable, pc_gpio = wakeup_gpio, pc_level = wakeup_level, pc_callbacks = no_callbacks\<rparr>"

definition ps_log :: "ps_call \<Rightarrow> host_ps \<Rightarrow> host_ps" where
  "ps_log e h = h\<lparr>hp_log := hp_log h @ [e]\<rparr>"

definition call_cb :: "nat \<Rightarrow> host_ps \<Rightarrow> host_ps" where
  "call_cb f h = (if f \<noteq> 0 then ps_log (PS_Cb f) h else h)"

definition set_host_wakeup_gpio :: "host_ps \<Rightarrow> host_ps" where
  "set_host_wakeup_gpio h = ps_log (PS_Gpio (pc_level (hp_config h))) h"

definition reset_host_wakeup_gpio :: "host_ps \<Rightarrow> host_ps" where
  "reset_host_wakeup_gpio h = ps_log (PS_Gpio (\<not> pc_level (hp_config h))) h"

text \<open>A binary semaphore: giving a given semaphore changes nothing.\<close>

definition sem_give :: "host_ps \<Rightarrow> host_ps" where
  "sem_give h = h\<lparr>hp_sem := map_option (\<lambda>_. 1) (hp_sem h)\<rparr>"

definition sem_take :: "host_ps \<Rightarrow> bool \<times> host_ps" where
  "sem_take h = (case hp_sem h of Some (Suc n) \<Rightarrow> (True, h\<lparr>hp_sem := Some n\<rparr>) | _ \<Rightarrow> (False, h))"

section \<open>The co-processor's operations\<close>

definition configure_host_wakeup_gpio :: "esp_err \<Rightarrow> esp_err \<Rightarrow> esp_err \<Rightarrow> bool \<Rightarrow> esp_err" where
  "configure_host_wakeup_gpio config pulldown pullup level =
     (if config \<noteq> ESP_OK then config else if level then pulldown else pullup)"

text \<open>\<open>flow_ctl\<close>: the packet carries flow control (\<open>wifi_flow_ctrl_en\<close>, on the SPI, SPI-HD and UART buses).\<close>

definition is_host_wakeup_needed :: "bool \<Rightarrow> interface_buffer_handle \<Rightarrow> bool" where
  "is_host_wakeup_needed flow_ctl bh =
     (if flow_ctl then True
      else if bh_payload bh = None then False
      else if bh_if_type bh = if_code ESP_SERIAL_IF then True
      else if bh_if_type bh = if_code ESP_HCI_IF then True
      else if bh_if_type bh = if_code ESP_PRIV_IF then True
      else if bh_if_type bh = if_code ESP_TEST_IF then True
      else if bh_if_type bh = if_code ESP_STA_IF then True
      else if bh_if_type bh = if_code ESP_AP_IF then True
      else False)"

text \<open>\<open>gpio_ret\<close>: the result of \<open>configure_host_wakeup_gpio\<close>; \<open>sem_ok\<close>: the semaphore can be created.\<close>

definition host_power_save_init ::
  "int \<Rightarrow> bool \<Rightarrow> esp_err \<Rightarrow> bool \<Rightarrow> ps_config option \<Rightarrow> host_ps \<Rightarrow> (esp_err \<times> host_ps) option" where
  "host_power_save_init wakeup_gpio wakeup_level gpio_ret sem_ok config h =
     (let h = h\<lparr>hp_config := (case config of Some c \<Rightarrow> c | None \<Rightarrow> default_ps_config True wakeup_gpio wakeup_level)\<rparr>
      in if \<not> pc_enable (hp_config h) then Some (ESP_OK, h)
         else if pc_gpio (hp_config h) = -1 then None
         else if gpio_ret \<noteq> ESP_OK then Some (gpio_ret, h)
         else
           let h = reset_host_wakeup_gpio h
           in (case hp_sem h of
                 Some _ \<Rightarrow> Some (ESP_OK, h)
               | None \<Rightarrow> if \<not> sem_ok then None else Some (ESP_OK, sem_give (h\<lparr>hp_sem := Some 0\<rparr>))))"

text \<open>\<open>None\<close>: the semaphore is waited for without a timeout, and nobody gives it.\<close>

definition host_power_save_deinit :: "host_ps \<Rightarrow> host_ps option" where
  "host_power_save_deinit h =
     map_option (\<lambda>h. h\<lparr>hp_config := (hp_config h)\<lparr>pc_callbacks := no_callbacks\<rparr>\<rparr>)
       (case hp_sem h of
          None \<Rightarrow> Some h
        | Some _ \<Rightarrow> (case sem_take h of (taken, h) \<Rightarrow> if taken then Some ((sem_give h)\<lparr>hp_sem := None\<rparr>) else None))"

definition host_power_save_set_callbacks :: "ps_callbacks option \<Rightarrow> host_ps \<Rightarrow> int \<times> host_ps" where
  "host_power_save_set_callbacks new_callbacks h =
     (case new_callbacks of
        None \<Rightarrow> (-1, h)
      | Some c \<Rightarrow> (0, h\<lparr>hp_config := (hp_config h)\<lparr>pc_callbacks := c\<rparr>\<rparr>))"

definition is_host_power_saving :: "host_ps \<Rightarrow> bool" where
  "is_host_power_saving h = hp_on h"

text \<open>
  \<open>dei\<close>: the \<open>deinit\<close> operation of the bus driver, if the interface has one; the interface is \<open>sc_if\<close> of the
  main module.
\<close>

definition host_power_save_alert ::
  "(slave_core \<Rightarrow> slave_core) option \<Rightarrow> host_interrupt \<Rightarrow> ps_state \<Rightarrow> ps_state option" where
  "host_power_save_alert dei ps_evt s =
     (case s of (h, c) \<Rightarrow>
        let cbs = pc_callbacks (hp_config h) in
        if \<not> pc_enable (hp_config h) then Some (h, c)
        else if ps_evt = ESP_POWER_SAVE_ON then
          (let h = call_cb (on_prepare_cb cbs) h;
               h = (if hp_sem h \<noteq> None then snd (sem_take h) else h);
               h = h\<lparr>hp_on := True\<rparr>
           in case sc_if c of
                None \<Rightarrow> None
              | Some state \<Rightarrow>
                  let (h, c) = (if state = IF_DEINIT then (h, c)
                                else case dei of None \<Rightarrow> (h, c) | Some d \<Rightarrow> (ps_log PS_Bus_Deinit h, d c))
                  in Some (call_cb (on_ready_cb cbs) h, c))
        else if ps_evt = ESP_POWER_SAVE_OFF \<or> ps_evt = ESP_OPEN_DATA_PATH then
          (if sc_if c = None then None
           else let h = call_cb (off_prepare_cb cbs) h;
                    h = h\<lparr>hp_on := False\<rparr>;
                    h = (if hp_sem h \<noteq> None then sem_give h else h)
                in Some (call_cb (off_ready_cb cbs) h, c))
        else Some (h, c))"

text \<open>The task started by \<open>event_handler\<close> for the oldest alert.\<close>

definition power_save_alert_task ::
  "(slave_core \<Rightarrow> slave_core) option \<Rightarrow> ps_state \<Rightarrow> ps_state option" where
  "power_save_alert_task dei s =
     (case s of (h, c) \<Rightarrow>
        case sc_alerts c of
          [] \<Rightarrow> Some (h, c)
        | e # es \<Rightarrow>
            map_option (\<lambda>(h, c). (h, if e = ESP_POWER_SAVE_OFF then c\<lparr>sc_sem := 1\<rparr> else c))
              (host_power_save_alert dei e (h, c\<lparr>sc_alerts := es\<rparr>)))"

definition h_uart_deinit :: "bool \<Rightarrow> slave_core \<Rightarrow> slave_core" where
  "h_uart_deinit unload c =
     (if \<not> unload \<or> sc_if c = Some IF_DEINIT then c
      else case event_handler ESP_CLOSE_DATA_PATH (c\<lparr>sc_if := Some IF_DEINIT\<rparr>) of Some c' \<Rightarrow> c' | None \<Rightarrow> c)"

text \<open>
  One round of the wake-up loop: the results of creating and starting the timer, whether the timer's callback
  runs during the delay, the alerts that arrive while the semaphore is waited for, and the clock (in
  microseconds) at its end.
\<close>

record wake_round =
  wr_create :: esp_err
  wr_start :: esp_err
  wr_fired :: bool
  wr_alerts :: "host_interrupt list"
  wr_now :: "64 word"

primrec alerts :: "(slave_core \<Rightarrow> slave_core) option \<Rightarrow> host_interrupt list \<Rightarrow> ps_state \<Rightarrow> ps_state option" where
  "alerts dei [] s = Some s"
| "alerts dei (e # es) s = do { s \<leftarrow> host_power_save_alert dei e s; alerts dei es s }"

text \<open>The clock macro \<open>GET_CURR_TIME_IN_MS\<close> on a reading in microseconds.\<close>

definition curr_time_in_ms :: "64 word \<Rightarrow> 64 word" where
  "curr_time_in_ms us = us div 100"

text \<open>The \<open>do\<close> loop of \<open>trigger_host_wakeup\<close>; \<open>timer\<close>: the timer has been created. \<open>None\<close>: it has not ended yet.\<close>

fun wakeup_loop ::
  "(slave_core \<Rightarrow> slave_core) option \<Rightarrow> 64 word \<Rightarrow> u32 \<Rightarrow> wake_round list \<Rightarrow> bool \<Rightarrow> ps_state \<Rightarrow> (bool \<times> ps_state) option" where
  "wakeup_loop dei start timeout_ms [] timer s = None"
| "wakeup_loop dei start timeout_ms (r # rs) timer (h, c) =
     (let h = set_host_wakeup_gpio h in
      if \<not> timer \<and> wr_create r \<noteq> ESP_OK then Some (False, h, c)
      else if wr_start r \<noteq> ESP_OK then Some (False, h, c)
      else do {
        let h = (if wr_fired r then reset_host_wakeup_gpio h else h);
        (h, c) \<leftarrow> alerts dei (wr_alerts r) (h, c);
        let (taken, h) = sem_take h;
        if taken then Some (True, sem_give h, c)
        else if curr_time_in_ms (wr_now r) - start > ucast timeout_ms then Some (False, h, c)
        else wakeup_loop dei start timeout_ms rs True (h, c)
      })"

definition trigger_host_wakeup ::
  "(slave_core \<Rightarrow> slave_core) option \<Rightarrow> 64 word \<Rightarrow> wake_round list \<Rightarrow> u32 \<Rightarrow> ps_state \<Rightarrow> (bool \<times> ps_state) option" where
  "trigger_host_wakeup dei now rs timeout_ms s = wakeup_loop dei (curr_time_in_ms now) timeout_ms rs False s"

text \<open>\<open>ini\<close>: the \<open>init\<close> operation of the bus driver.\<close>

definition wakeup_host ::
  "(slave_core \<Rightarrow> slave_core) option \<Rightarrow> (slave_core \<Rightarrow> slave_core) \<Rightarrow> 64 word \<Rightarrow> wake_round list \<Rightarrow> u32 \<Rightarrow>
   ps_state \<Rightarrow> (int \<times> ps_state) option" where
  "wakeup_host dei ini now rs timeout_ms s =
     (case s of (h, c) \<Rightarrow>
        if \<not> is_host_power_saving h then Some (1, h, c)
        else if \<not> pc_enable (hp_config h) then Some (1, h, c)
        else case sc_if c of
            None \<Rightarrow> Some (0, h, c)
          | Some state \<Rightarrow>
              let (h, c) = (if state = IF_DEINIT then (ps_log PS_Bus_Init h, ini c) else (h, c))
              in if sc_if c = None then Some (-1, h, c)
                 else if is_host_power_saving h then
                   map_option (\<lambda>(ok, s). (of_bool ok, s)) (trigger_host_wakeup dei now rs timeout_ms (h, c))
                 else Some (of_bool (state = IF_DEINIT), h, c))"

definition wakeup_host_mandate ::
  "(slave_core \<Rightarrow> slave_core) option \<Rightarrow> esp_err \<Rightarrow> 64 word \<Rightarrow> wake_round list \<Rightarrow> u32 \<Rightarrow> ps_state \<Rightarrow>
   ((esp_err + bool) \<times> ps_state) option" where
  "wakeup_host_mandate dei gpio_ret now rs timeout_ms s =
     (if gpio_ret \<noteq> ESP_OK then Some (Inl gpio_ret, s)
      else map_option (\<lambda>(ok, s). (Inr ok, s)) (trigger_host_wakeup dei now rs timeout_ms s))"

text \<open>\<open>process_tx_pkt\<close> of the main module with the module's own answers; the wake-up has no time limit.\<close>

definition power_save_tx ::
  "(slave_core \<Rightarrow> slave_core) option \<Rightarrow> (slave_core \<Rightarrow> slave_core) \<Rightarrow> 64 word \<Rightarrow> wake_round list \<Rightarrow> bool \<Rightarrow>
   interface_buffer_handle \<Rightarrow> ps_state \<Rightarrow> ps_state option" where
  "power_save_tx dei ini now rs ready bh s =
     (case s of (h, c) \<Rightarrow>
        if sc_datapath c \<and> ready \<and> is_host_power_saving h \<and> is_host_wakeup_needed False bh then
          map_option (\<lambda>(r, h, c). (h, process_tx_pkt ready True (\<lambda>_. True) (r \<noteq> 0) bh c))
            (wakeup_host dei ini now rs 0xFFFFFFFF s)
        else Some (h, process_tx_pkt ready False (\<lambda>_. False) True bh c))"

section \<open>The host's state\<close>

text \<open>
  \<open>pd_told\<close>: what the host has told the co-processor; \<open>pd_intr\<close>: the handler of the wake-up GPIO is installed;
  \<open>pd_hold\<close>: the reset pin of the co-processor is held; \<open>pd_timer\<close>: the sleep timer.
\<close>

record ps_drv =
  pd_on :: bool
  pd_init :: bool
  pd_reset :: bool
  pd_wake_time :: u32
  pd_intr :: bool
  pd_hold :: bool
  pd_timer :: "nat option"
  pd_restarts :: nat
  pd_told :: "host_interrupt list"

datatype ps_type = PS_NONE | PS_LIGHT_SLEEP | PS_DEEP_SLEEP

datatype ps_outcome = PS_Returns int | PS_Sleeps

section \<open>The host's operations\<close>

definition wakeup_gpio_isr_handler :: "u32 \<Rightarrow> bool \<Rightarrow> bool \<Rightarrow> ps_drv \<Rightarrow> ps_drv" where
  "wakeup_gpio_isr_handler current_time current_level wakeup_level d =
     (if current_time - pd_wake_time d < 500 then d
      else if \<not> pd_on d \<and> \<not> pd_reset d then
        (if current_level = wakeup_level
         then d\<lparr>pd_reset := True, pd_intr := False, pd_restarts := pd_restarts d + 1\<rparr> else d)
      else d)"

definition esp_hosted_power_save_init :: "int \<Rightarrow> ps_drv \<Rightarrow> int \<times> ps_drv" where
  "esp_hosted_power_save_init intr_ret d =
     (if pd_init d then (0, d)
      else (0, d\<lparr>pd_on := False, pd_reset := False, pd_intr := (intr_ret = 0 \<or> pd_intr d), pd_init := True\<rparr>))"

definition esp_hosted_power_save_deinit :: "ps_drv \<Rightarrow> int \<times> ps_drv" where
  "esp_hosted_power_save_deinit d =
     (if pd_on d then (-1, d) else (0, d\<lparr>pd_init := False, pd_intr := False\<rparr>))"

definition hold_slave_reset_gpio :: "bool \<Rightarrow> int option \<Rightarrow> int \<Rightarrow> ps_drv \<Rightarrow> int \<times> ps_drv" where
  "hold_slave_reset_gpio hold reset_pin hold_ret d =
     (case reset_pin of
        None \<Rightarrow> (-1, d)
      | Some pin \<Rightarrow> if pin = -1 then (-1, d)
                    else (hold_ret, if hold_ret = 0 then d\<lparr>pd_hold := hold\<rparr> else d))"

text \<open>
  \<open>told\<close>: the result of \<open>bus_inform_slave_host_power_save_start\<close>, which sends a packet with the flag
  \<open>FLAG_POWER_SAVE_STARTED\<close>; \<open>hal_ret\<close>: of the platform's sleep set-up. After the platform's sleep call the
  function stays in an endless loop.
\<close>

definition esp_hosted_power_save_start ::
  "int \<Rightarrow> int option \<Rightarrow> int \<Rightarrow> int \<Rightarrow> ps_type \<Rightarrow> ps_drv \<Rightarrow> ps_outcome \<times> ps_drv" where
  "esp_hosted_power_save_start told reset_pin hold_ret hal_ret type d =
     (if pd_on d then (PS_Returns 0, d)
      else if \<not> pd_init d then (PS_Returns (-1), d)
      else if type \<noteq> PS_DEEP_SLEEP then (PS_Returns (-1), d)
      else if told \<noteq> 0 then (PS_Returns (-1), d)
      else
        let d = d\<lparr>pd_told := pd_told d @ [ESP_POWER_SAVE_ON]\<rparr> in
        if pd_reset d then (PS_Returns (-1), d)
        else
          let d = d\<lparr>pd_intr := False\<rparr>;
              (ret, d) = hold_slave_reset_gpio True reset_pin hold_ret d
          in if ret \<noteq> 0 then (PS_Returns (-1), d)
             else if hal_ret \<noteq> 0 then (PS_Returns (-1), d)
             else (PS_Sleeps, d\<lparr>pd_on := True\<rparr>))"

definition stop_host_power_save :: "int \<Rightarrow> u32 \<Rightarrow> ps_drv \<Rightarrow> int \<times> ps_drv" where
  "stop_host_power_save told now d =
     (if told \<noteq> 0 then (-1, d)
      else (0, d\<lparr>pd_told := pd_told d @ [ESP_POWER_SAVE_OFF], pd_on := False, pd_wake_time := now\<rparr>))"

text \<open>\<open>created\<close>: the timer \<open>h_timer_create\<close> returns, if any; \<open>start_ret\<close>: the result of \<open>h_timer_start\<close>.\<close>

definition esp_hosted_power_save_timer_start :: "nat option \<Rightarrow> h_err \<Rightarrow> u32 \<Rightarrow> ps_drv \<Rightarrow> int \<times> ps_drv" where
  "esp_hosted_power_save_timer_start created start_ret time_ms d =
     (if time_ms = 0 then (-1, d)
      else if pd_timer d \<noteq> None then (-1, d\<lparr>pd_timer := None\<rparr>)
      else case created of
          None \<Rightarrow> (-1, d)
        | Some t \<Rightarrow> if start_ret \<noteq> H_OK then (-1, d\<lparr>pd_timer := None\<rparr>) else (0, d\<lparr>pd_timer := Some t\<rparr>))"

definition esp_hosted_power_save_timer_stop :: "h_err \<Rightarrow> ps_drv \<Rightarrow> int \<times> ps_drv" where
  "esp_hosted_power_save_timer_stop stop_ret d =
     (if pd_timer d = None then (-1, d)
      else if stop_ret \<noteq> H_OK then (h_err_code stop_ret, d)
      else (0, d\<lparr>pd_timer := None\<rparr>))"

definition power_save_timer_callback :: "int \<Rightarrow> int option \<Rightarrow> int \<Rightarrow> int \<Rightarrow> ps_drv \<Rightarrow> ps_outcome \<times> ps_drv" where
  "power_save_timer_callback told reset_pin hold_ret hal_ret d =
     esp_hosted_power_save_start told reset_pin hold_ret hal_ret PS_DEEP_SLEEP d"

section \<open>Lemmas: the semaphore\<close>

text \<open>The semaphore is available exactly while the host is awake.\<close>

definition sem_inv :: "host_ps \<Rightarrow> bool" where
  "sem_inv h = (hp_sem h = Some (if hp_on h then 0 else 1))"

lemma ps_log_fields [simp]:
  "hp_sem (ps_log e h) = hp_sem h" "hp_on (ps_log e h) = hp_on h" "hp_config (ps_log e h) = hp_config h"
  by (simp_all add: ps_log_def)

lemma ps_quiet_ops [simp]:
  "hp_sem (call_cb f h) = hp_sem h" "hp_on (call_cb f h) = hp_on h" "hp_config (call_cb f h) = hp_config h"
  "hp_sem (set_host_wakeup_gpio h) = hp_sem h" "hp_on (set_host_wakeup_gpio h) = hp_on h"
  "hp_config (set_host_wakeup_gpio h) = hp_config h"
  "hp_sem (reset_host_wakeup_gpio h) = hp_sem h" "hp_on (reset_host_wakeup_gpio h) = hp_on h"
  "hp_config (reset_host_wakeup_gpio h) = hp_config h"
  by (simp_all add: call_cb_def set_host_wakeup_gpio_def reset_host_wakeup_gpio_def)

lemma sem_ops [simp]:
  "hp_on (sem_give h) = hp_on h" "hp_config (sem_give h) = hp_config h"
  "hp_on (snd (sem_take h)) = hp_on h" "hp_config (snd (sem_take h)) = hp_config h"
  by (simp_all add: sem_give_def sem_take_def split: option.splits nat.splits)

lemma sem_take_inv:
  assumes "sem_inv h"
  shows "sem_take h = (\<not> hp_on h, h\<lparr>hp_sem := Some 0\<rparr>)"
  using assms by (cases h) (auto simp: sem_take_def sem_inv_def)

lemma sem_give_take: "sem_inv h \<Longrightarrow> \<not> hp_on h \<Longrightarrow> sem_give (h\<lparr>hp_sem := Some 0\<rparr>) = h"
  by (cases h) (simp add: sem_give_def sem_inv_def)

text \<open>The effect of the two alerts.\<close>

lemma alert_on:
  assumes "host_power_save_alert dei ESP_POWER_SAVE_ON (h, c) = Some (h', c')" "pc_enable (hp_config h)" "sem_inv h"
  shows "sem_inv h' \<and> hp_on h' \<and> hp_config h' = hp_config h"
  using assms by (auto simp: host_power_save_alert_def sem_take_def sem_inv_def Let_def split: option.splits if_splits nat.splits)

lemma alert_off:
  assumes "host_power_save_alert dei ESP_POWER_SAVE_OFF (h, c) = Some (h', c')" "pc_enable (hp_config h)" "sem_inv h"
  shows "sem_inv h' \<and> \<not> hp_on h' \<and> hp_config h' = hp_config h \<and> c' = c"
  using assms by (auto simp: host_power_save_alert_def sem_give_def sem_inv_def Let_def split: if_splits)

lemma alert_inv:
  assumes "host_power_save_alert dei e (h, c) = Some (h', c')" "sem_inv h"
  shows "sem_inv h'"
  using assms
  by (cases e)
    (auto simp: host_power_save_alert_def sem_take_def sem_give_def sem_inv_def Let_def
      split: option.splits if_splits nat.splits)

lemma alerts_inv: "alerts dei es (h, c) = Some (h', c') \<Longrightarrow> sem_inv h \<Longrightarrow> sem_inv h'"
proof (induction es arbitrary: h c)
  case Nil
  then show ?case by simp
next
  case (Cons e es)
  then obtain h1 c1 where "host_power_save_alert dei e (h, c) = Some (h1, c1)" "alerts dei es (h1, c1) = Some (h', c')"
    by (auto simp: bind_eq_Some_conv)
  then show ?case using Cons alert_inv by blast
qed

definition round_start :: "wake_round \<Rightarrow> host_ps \<Rightarrow> host_ps" where
  "round_start r h = (if wr_fired r then reset_host_wakeup_gpio (set_host_wakeup_gpio h) else set_host_wakeup_gpio h)"

lemma round_start_fields [simp]:
  "hp_sem (round_start r h) = hp_sem h" "hp_on (round_start r h) = hp_on h" "hp_config (round_start r h) = hp_config h"
  by (simp_all add: round_start_def)

lemma sem_inv_quiet [simp]: "sem_inv (round_start r h) = sem_inv h" "sem_inv (set_host_wakeup_gpio h) = sem_inv h"
  by (simp_all add: sem_inv_def)

text \<open>One round of the wake-up loop under the invariant.\<close>

lemma wakeup_loop_round:
  assumes "alerts dei (wr_alerts r) (round_start r h, c) = Some (h2, c2)" "sem_inv h2"
    and "timer \<or> wr_create r = ESP_OK" "wr_start r = ESP_OK"
  shows "wakeup_loop dei start tmo (r # rs) timer (h, c) =
    (if \<not> hp_on h2 then Some (True, h2, c2)
     else if curr_time_in_ms (wr_now r) - start > ucast tmo then Some (False, h2, c2)
     else wakeup_loop dei start tmo rs True (h2, c2))"
proof -
  have "h2\<lparr>hp_sem := Some 0\<rparr> = h2" if "hp_on h2" using assms(2) that by (cases h2) (simp add: sem_inv_def)
  then show ?thesis
    using assms sem_give_take [OF assms(2)] by (auto simp: Let_def round_start_def sem_take_inv)
qed

lemma wakeup_loop_stuck:
  "\<not> timer \<and> wr_create r \<noteq> ESP_OK \<or> wr_start r \<noteq> ESP_OK \<Longrightarrow>
   wakeup_loop dei start tmo (r # rs) timer (h, c) = Some (False, set_host_wakeup_gpio h, c)"
  by (auto simp: Let_def)

lemma wakeup_loop_abort:
  "timer \<or> wr_create r = ESP_OK \<Longrightarrow> wr_start r = ESP_OK \<Longrightarrow> alerts dei (wr_alerts r) (round_start r h, c) = None \<Longrightarrow>
   wakeup_loop dei start tmo (r # rs) timer (h, c) = None"
  by (auto simp: Let_def round_start_def)

declare wakeup_loop.simps(2) [simp del]

lemma wakeup_loop_inv:
  "wakeup_loop dei start tmo rs timer (h, c) = Some (ok, h', c') \<Longrightarrow> sem_inv h \<Longrightarrow> sem_inv h'"
proof (induction rs arbitrary: timer h c)
  case Nil
  then show ?case by simp
next
  case (Cons r rs)
  consider (stuck) "\<not> timer \<and> wr_create r \<noteq> ESP_OK \<or> wr_start r \<noteq> ESP_OK"
    | (go) "timer \<or> wr_create r = ESP_OK" "wr_start r = ESP_OK" by blast
  then show ?case
  proof cases
    case stuck
    then show ?thesis using Cons.prems by (auto simp: wakeup_loop_stuck)
  next
    case go
    then obtain h2 c2 where a: "alerts dei (wr_alerts r) (round_start r h, c) = Some (h2, c2)"
      using Cons.prems(1) wakeup_loop_abort [OF go] by fastforce
    then have i: "sem_inv h2" using alerts_inv Cons.prems(2) by simp
    show ?thesis
      using Cons.prems(1) Cons.IH [OF _ i] i by (simp add: wakeup_loop_round [OF a i go] split: if_splits)
  qed
qed

lemma wakeup_host_inv:
  assumes "wakeup_host dei ini now rs tmo (h, c) = Some (r, h', c')" "sem_inv h"
  shows "sem_inv h'"
proof -
  have l: "sem_inv (ps_log e h)" for e using assms(2) by (simp add: sem_inv_def)
  show ?thesis
    using assms l
    by (auto simp: wakeup_host_def trigger_host_wakeup_def Let_def
        elim!: wakeup_loop_inv split: option.splits if_splits)
qed

section \<open>Lemmas: waking the host\<close>

text \<open>A round in which the host does not answer and the time is not up.\<close>

definition silent :: "64 word \<Rightarrow> u32 \<Rightarrow> wake_round \<Rightarrow> bool" where
  "silent start tmo r = (wr_start r = ESP_OK \<and> wr_alerts r = [] \<and> curr_time_in_ms (wr_now r) - start \<le> ucast tmo)"

lemma wakeup_loop_silent:
  assumes "list_all (silent start tmo) pre" "sem_inv h" "hp_on h" "timer \<or> (case pre @ rs of r # _ \<Rightarrow> wr_create r = ESP_OK | [] \<Rightarrow> False)"
  shows "\<exists>h1. wakeup_loop dei start tmo (pre @ rs) timer (h, c) = wakeup_loop dei start tmo rs (timer \<or> pre \<noteq> []) (h1, c) \<and>
    sem_inv h1 \<and> hp_on h1 \<and> hp_config h1 = hp_config h"
  using assms
proof (induction pre arbitrary: timer h)
  case Nil
  then show ?case by auto
next
  case (Cons r pre)
  have i: "sem_inv (round_start r h)" using Cons.prems(2) by simp
  have "wakeup_loop dei start tmo (r # pre @ rs) timer (h, c) = wakeup_loop dei start tmo (pre @ rs) True (round_start r h, c)"
    using Cons.prems by (subst wakeup_loop_round [OF _ i]) (auto simp: silent_def not_less)
  moreover obtain h1 where "wakeup_loop dei start tmo (pre @ rs) True (round_start r h, c) =
      wakeup_loop dei start tmo rs True (h1, c)" "sem_inv h1" "hp_on h1" "hp_config h1 = hp_config h"
    using Cons.IH [of "round_start r h" True] Cons.prems by auto
  ultimately show ?case by auto
qed

text \<open>The host answers in the round behind \<open>pre\<close>, or the time is up in it.\<close>

lemma wakeup_loop_answer:
  assumes "list_all (silent start tmo) pre" "sem_inv h" "hp_on h" "wr_create (hd (pre @ [r])) = ESP_OK" "wr_start r = ESP_OK"
    and "wr_alerts r = [ESP_POWER_SAVE_OFF]" "pc_enable (hp_config h)" "sc_if c \<noteq> None"
  shows "\<exists>h'. wakeup_loop dei start tmo (pre @ r # rs) False (h, c) = Some (True, h', c) \<and> sem_inv h' \<and> \<not> hp_on h' \<and>
    hp_config h' = hp_config h"
proof -
  obtain h1 where l: "wakeup_loop dei start tmo (pre @ r # rs) False (h, c) = wakeup_loop dei start tmo (r # rs) (pre \<noteq> []) (h1, c)"
    and i1: "sem_inv h1" "hp_on h1" "hp_config h1 = hp_config h"
    using wakeup_loop_silent [OF assms(1-3), of False "r # rs" dei c] assms(4) by (cases pre) auto
  obtain h2 where a: "host_power_save_alert dei ESP_POWER_SAVE_OFF (round_start r h1, c) = Some (h2, c)"
    using assms(7,8) i1 by (auto simp: host_power_save_alert_def Let_def)
  have j: "sem_inv h2 \<and> \<not> hp_on h2 \<and> hp_config h2 = hp_config h"
    using alert_off [OF a] i1 assms(7) by simp
  have "alerts dei (wr_alerts r) (round_start r h1, c) = Some (h2, c)" using a assms(6) by simp
  moreover have "pre \<noteq> [] \<or> wr_create r = ESP_OK" using assms(4) by (cases pre) auto
  ultimately show ?thesis using l j assms(5) by (simp add: wakeup_loop_round)
qed

lemma wakeup_loop_timeout:
  assumes "list_all (silent start tmo) pre" "sem_inv h" "hp_on h" "wr_create (hd (pre @ [r])) = ESP_OK" "wr_start r = ESP_OK"
    and "wr_alerts r = []" "curr_time_in_ms (wr_now r) - start > ucast tmo"
  shows "\<exists>h'. wakeup_loop dei start tmo (pre @ r # rs) False (h, c) = Some (False, h', c) \<and> sem_inv h' \<and> hp_on h'"
proof -
  obtain h1 where l: "wakeup_loop dei start tmo (pre @ r # rs) False (h, c) = wakeup_loop dei start tmo (r # rs) (pre \<noteq> []) (h1, c)"
    and i1: "sem_inv h1" "hp_on h1"
    using wakeup_loop_silent [OF assms(1-3), of False "r # rs" dei c] assms(4) by (cases pre) auto
  have "alerts dei (wr_alerts r) (round_start r h1, c) = Some (round_start r h1, c)" using assms(6) by simp
  moreover have "pre \<noteq> [] \<or> wr_create r = ESP_OK" using assms(4) by (cases pre) auto
  ultimately show ?thesis using l i1 assms(5,7) by (simp add: wakeup_loop_round)
qed

section \<open>Steps of the co-processor\<close>

text \<open>
  What can happen to the pair of modules: an interrupt of the host, one of the alert tasks, a wake-up on demand,
  new callbacks, a second initialisation, a packet for the host.
\<close>

inductive ps_step :: "(slave_core \<Rightarrow> slave_core) option \<Rightarrow> (slave_core \<Rightarrow> slave_core) \<Rightarrow> ps_state \<Rightarrow> ps_state \<Rightarrow> bool"
  for dei ini where
  Interrupt: "event_handler e c = Some c' \<Longrightarrow> ps_step dei ini (h, c) (h, c')"
| Alert: "power_save_alert_task dei (h, c) = Some (h', c') \<Longrightarrow> ps_step dei ini (h, c) (h', c')"
| Wakeup: "wakeup_host dei ini now rs tmo (h, c) = Some (r, h', c') \<Longrightarrow> ps_step dei ini (h, c) (h', c')"
| Callbacks: "host_power_save_set_callbacks cbs h = (r, h') \<Longrightarrow> ps_step dei ini (h, c) (h', c)"
| Init: "host_power_save_init gpio level gret sok config h = Some (r, h') \<Longrightarrow> ps_step dei ini (h, c) (h', c)"
| Packet: "power_save_tx dei ini now rs ready bh (h, c) = Some (h', c') \<Longrightarrow> ps_step dei ini (h, c) (h', c')"

inductive_cases ps_stepE: "ps_step dei ini s s'"

inductive ps_steps :: "(slave_core \<Rightarrow> slave_core) option \<Rightarrow> (slave_core \<Rightarrow> slave_core) \<Rightarrow> ps_state \<Rightarrow> ps_state \<Rightarrow> bool"
  for dei ini where
  Refl: "ps_steps dei ini s s"
| Step: "ps_steps dei ini s s' \<Longrightarrow> ps_step dei ini s' s'' \<Longrightarrow> ps_steps dei ini s s''"

lemma ps_step_inv: "ps_step dei ini s s' \<Longrightarrow> sem_inv (fst s) \<Longrightarrow> sem_inv (fst s')"
proof (induction rule: ps_step.induct)
  case (Alert h c h' c')
  then show ?case
    by (auto simp: power_save_alert_task_def split: list.splits if_splits elim: alert_inv)
next
  case (Wakeup now rs tmo h c r h' c')
  then show ?case using wakeup_host_inv by simp
next
  case (Packet now rs ready bh h c h' c')
  then show ?case by (auto simp: power_save_tx_def split: if_splits elim: wakeup_host_inv)
next
  case (Init gpio level gret sok config h r h' c)
  have "sem_inv (reset_host_wakeup_gpio (h\<lparr>hp_config := cf\<rparr>))" "sem_inv (h\<lparr>hp_config := cf\<rparr>)" "hp_sem h \<noteq> None" for cf
    using Init(2) by (simp_all add: sem_inv_def)
  then show ?case using Init(1) by (auto simp: host_power_save_init_def Let_def split: if_splits option.splits)
qed (auto simp: host_power_save_set_callbacks_def sem_inv_def split: option.splits)

lemma first_init:
  assumes "host_power_save_init gpio level ESP_OK sok config h = Some (r, h')" "hp_sem h = None" "\<not> hp_on h"
    and "config = None \<or> pc_enable (the config)"
  shows "sem_inv h' \<and> pc_enable (hp_config h')"
  using assms
  by (auto simp: host_power_save_init_def default_ps_config_def sem_inv_def sem_give_def Let_def split: if_splits option.splits)

section \<open>Lemmas: the defects of the module\<close>

text \<open>The unit of the clock is a tenth of a millisecond: a time limit of 100 ms is over after 10.1 ms.\<close>

lemma wakeup_timeout_tenth:
  assumes "wr_start r = ESP_OK" "wr_create r = ESP_OK" "wr_alerts r = []" "wr_now r = 10100" "sem_inv h" "hp_on h"
  shows "\<exists>h'. trigger_host_wakeup dei 0 (r # rs) 100 (h, c) = Some (False, h', c)"
  using wakeup_loop_timeout [of 0 100 "[]" h r dei rs c] assms
  by (auto simp: trigger_host_wakeup_def curr_time_in_ms_def)

text \<open>
  When the UART driver is unloaded while the host sleeps, the data path is closed with it, and packets for the
  host are dropped before the wake-up is considered.
\<close>

lemma unload_never_wakes:
  assumes "host_power_save_alert (Some (h_uart_deinit True)) ESP_POWER_SAVE_ON (h, c) = Some (h', c')"
    and "pc_enable (hp_config h)" "sc_if c = Some IF_ACTIVE"
    and "power_save_tx dei ini now rs ready bh (h', c') = Some (h'', c'')"
  shows "h'' = h' \<and> sc_written c'' = sc_written c \<and> hp_on h''"
  using assms
  by (auto simp: host_power_save_alert_def power_save_tx_def process_tx_pkt_def h_uart_deinit_def event_handler_def Let_def
      call_cb_def ps_log_def split: if_splits)

text \<open>A second initialisation after the shutdown, while the host sleeps, makes the semaphore available.\<close>

lemma reinit_while_saving:
  assumes "host_power_save_deinit h = Some h1" "sem_inv h" "pc_enable (hp_config h)" "pc_gpio (hp_config h) \<noteq> -1"
    and "sc_if c = Some IF_ACTIVE" "host_power_save_alert None ESP_POWER_SAVE_ON (h1, c) = Some (h2, c2)"
    and "host_power_save_init gpio level ESP_OK True (Some (hp_config h)) h2 = Some (r, h3)"
  shows "hp_on h3 \<and> hp_sem h3 = Some 1"
proof -
  have "hp_sem h1 = None \<and> pc_enable (hp_config h1)"
    using assms(1-3) by (auto simp: host_power_save_deinit_def sem_inv_def sem_take_def split: if_splits)
  then have "hp_sem h2 = None \<and> hp_on h2"
    using assms(5,6) by (auto simp: host_power_save_alert_def Let_def)
  then show ?thesis
    using assms(3,4,7) by (auto simp: host_power_save_init_def sem_give_def Let_def)
qed

section \<open>Properties\<close>

text \<open>
  Once the module is initialised, the wake-up semaphore is available exactly while the host is awake, after
  any sequence of host interrupts, alert tasks, wake-ups, packets, new callbacks and further initialisations.
\<close>
lemma ps_semaphore:
  assumes "host_power_save_init gpio level ESP_OK sok config h = Some (r, h0)" "hp_sem h = None" "\<not> hp_on h"
    and "config = None \<or> pc_enable (the config)" "ps_steps dei ini (h0, c0) (h', c')"
  shows "hp_sem h' = Some (if is_host_power_saving h' then 0 else 1)"
proof -
  have "sem_inv (fst (h0, c0))" using first_init [OF assms(1-4)] by simp
  with assms(5) have "sem_inv (fst (h', c'))"
    by (induction "(h0, c0)" "(h', c')" arbitrary: h' c' rule: ps_steps.induct) (auto dest: ps_step_inv)
  then show ?thesis by (simp add: sem_inv_def is_host_power_saving_def)
qed

text \<open>
  C16: a packet for a sleeping host starts the wake-up; if the host answers in some round before the time is up,
  the packet is written once, marked as the cause of the wake-up, and the host is awake afterwards; if the time
  is up first, the packet is dropped and the host is still taken to be asleep. Its buffer is released either
  way, and the loop always ends.
\<close>
theorem ps_wakeup:
  assumes "sem_inv h" "hp_on h" "pc_enable (hp_config h)" "sc_if c = Some st" "st \<noteq> IF_DEINIT" "sc_datapath c"
    and "is_host_wakeup_needed False bh"
    and "list_all (silent (curr_time_in_ms now) 0xFFFFFFFF) pre" "wr_create (hd (pre @ [r])) = ESP_OK" "wr_start r = ESP_OK"
    and "wr_alerts r = (if answer then [ESP_POWER_SAVE_OFF] else [])"
    and "answer \<or> curr_time_in_ms (wr_now r) - curr_time_in_ms now > 0xFFFFFFFF"
  shows "\<exists>h'. power_save_tx dei ini now (pre @ r # rs) True bh (h, c) = Some (h', c\<lparr>
      sc_written := sc_written c @ (if answer then [bh\<lparr>bh_flag := bh_flag bh OR FLAG_WAKEUP_PKT\<rparr>] else []),
      sc_frees := sc_frees c @ snd (free_handle bh)\<rparr>) \<and>
    is_host_power_saving h' = (\<not> answer) \<and> hp_sem h' = Some (of_bool answer)"
proof -
  let ?t = "curr_time_in_ms now"
  have e: "sc_if c \<noteq> None" using assms(4) by simp
  have p: "power_save_tx dei ini now (pre @ r # rs) True bh (h, c) =
      map_option (\<lambda>(ok, h', c'). (h', process_tx_pkt True True (\<lambda>_. True) ok bh c'))
        (wakeup_loop dei ?t 0xFFFFFFFF (pre @ r # rs) False (h, c))"
    using assms(2-7)
    by (auto simp: power_save_tx_def is_host_power_saving_def wakeup_host_def trigger_host_wakeup_def
        option.map_comp comp_def intro!: map_option_cong [OF refl])
  show ?thesis
  proof (cases answer)
    case True
    obtain h' where "wakeup_loop dei ?t 0xFFFFFFFF (pre @ r # rs) False (h, c) = Some (True, h', c)" "sem_inv h'" "\<not> hp_on h'"
      using wakeup_loop_answer [OF assms(8,1,2,9,10) _ assms(3) e] assms(11) True by auto
    then show ?thesis
      using p True assms(6) by (auto simp: process_tx_pkt_def sem_inv_def is_host_power_saving_def)
  next
    case False
    obtain h' where "wakeup_loop dei ?t 0xFFFFFFFF (pre @ r # rs) False (h, c) = Some (False, h', c)" "sem_inv h'" "hp_on h'"
      using wakeup_loop_timeout [OF assms(8,1,2,9,10), of dei rs c] assms(11,12) False by auto
    then show ?thesis
      using p False assms(6) by (auto simp: process_tx_pkt_def sem_inv_def is_host_power_saving_def)
  qed
qed

text \<open>
  The host tells the co-processor that it goes to sleep before it makes sure that it can: afterwards the
  co-processor takes the host to be asleep exactly if the message was sent, but the host sleeps only if no reset
  is in progress and the reset pin and the platform's sleep are set up. Leaving the sleep brings both back to
  the same view.
\<close>
lemma ps_start_stop:
  assumes "pc_enable (hp_config h)" "sem_inv h" "\<not> hp_on h" "sc_if c = Some IF_ACTIVE"
    and "\<not> pd_on d" "pd_init d" "pd_told d = []"
    and "esp_hosted_power_save_start told reset_pin hold_ret hal_ret PS_DEEP_SLEEP d = (out, d1)"
    and "stop_host_power_save 0 now d1 = (r2, d2)"
  shows "\<exists>h1 h2. alerts None (pd_told d1) (h, c) = Some (h1, c) \<and>
    is_host_power_saving h1 = (told = 0) \<and>
    (out = PS_Sleeps) = (told = 0 \<and> \<not> pd_reset d \<and> reset_pin \<noteq> None \<and> reset_pin \<noteq> Some (-1) \<and> hold_ret = 0 \<and> hal_ret = 0) \<and>
    pd_on d1 = (out = PS_Sleeps) \<and> (out \<noteq> PS_Sleeps \<longrightarrow> out = PS_Returns (-1)) \<and>
    alerts None (pd_told d2) (h, c) = Some (h2, c) \<and> \<not> is_host_power_saving h2 \<and> \<not> pd_on d2 \<and> sem_inv h2"
proof -
  obtain h1 where a: "host_power_save_alert None ESP_POWER_SAVE_ON (h, c) = Some (h1, c)"
    using assms(1,4) by (auto simp: host_power_save_alert_def Let_def)
  have i: "sem_inv h1" "hp_on h1" "hp_config h1 = hp_config h" using alert_on [OF a] assms by auto
  have off: "\<exists>x'. host_power_save_alert None ESP_POWER_SAVE_OFF (x, c) = Some (x', c) \<and> sem_inv x' \<and> \<not> hp_on x'"
    if "sem_inv x" "pc_enable (hp_config x)" for x
  proof -
    have "\<exists>x'. host_power_save_alert None ESP_POWER_SAVE_OFF (x, c) = Some (x', c)"
      using that(2) assms(4) by (simp add: host_power_save_alert_def Let_def)
    then obtain x' where x: "host_power_save_alert None ESP_POWER_SAVE_OFF (x, c) = Some (x', c)" ..
    then show ?thesis using alert_off [OF x] that by auto
  qed
  have t: "pd_told d1 = (if told = 0 then [ESP_POWER_SAVE_ON] else [])" "pd_told d2 = pd_told d1 @ [ESP_POWER_SAVE_OFF]" "\<not> pd_on d2"
    and o: "(out = PS_Sleeps) = (told = 0 \<and> \<not> pd_reset d \<and> reset_pin \<noteq> None \<and> reset_pin \<noteq> Some (-1) \<and> hold_ret = 0 \<and> hal_ret = 0)"
      "pd_on d1 = (out = PS_Sleeps)" "out \<noteq> PS_Sleeps \<longrightarrow> out = PS_Returns (-1)"
    using assms(5-9)
    by (auto simp: esp_hosted_power_save_start_def stop_host_power_save_def hold_slave_reset_gpio_def Let_def
        split: if_splits option.splits)
  show ?thesis
  proof (cases "told = 0")
    case True
    then show ?thesis using t o a i off [OF i(1)] assms(1) by (auto simp: is_host_power_saving_def)
  next
    case False
    then show ?thesis using t o off [OF assms(2,1)] assms(3) by (auto simp: is_host_power_saving_def)
  qed
qed

definition ps_demo_slave :: slave_core where
  "ps_demo_slave = \<lparr>sc_valid = False, sc_cur_seq = 0, sc_len = 0, sc_data = replicate R_SIZE 0, sc_reqs = [],
     sc_datapath = True, sc_if = Some IF_ACTIVE, sc_high = 0, sc_low = 0, sc_sta = True, sc_ap = False, sc_wifi = [],
     sc_written = [], sc_frees = [], sc_seq = 0, sc_sem = 0, sc_alerts = []\<rparr>"

definition demo_ps :: "bool \<Rightarrow> host_ps" where
  "demo_ps on = \<lparr>hp_config = default_ps_config True 5 True, hp_on = on, hp_sem = Some (if on then 0 else 1), hp_log = []\<rparr>"

definition demo_round :: "host_interrupt list \<Rightarrow> 64 word \<Rightarrow> wake_round" where
  "demo_round es now = \<lparr>wr_create = ESP_OK, wr_start = ESP_OK, wr_fired = True, wr_alerts = es, wr_now = now\<rparr>"

definition demo_tx :: interface_buffer_handle where
  "demo_tx = zero_handle\<lparr>bh_if_type := 1, bh_payload := Some [1, 2], bh_payload_len := 2, bh_priv := 9, bh_free := True\<rparr>"

theorem ps_wakeup_witness:
  "\<exists>h'. power_save_tx None id 0 ([demo_round [] 200000] @ demo_round [ESP_POWER_SAVE_OFF] 400000 # []) True demo_tx
      (demo_ps True, ps_demo_slave) = Some (h', ps_demo_slave\<lparr>sc_written := [demo_tx\<lparr>bh_flag := 2\<rparr>], sc_frees := [9]\<rparr>) \<and>
    \<not> is_host_power_saving h' \<and> hp_sem h' = Some 1"
  using ps_wakeup [of "demo_ps True" ps_demo_slave IF_ACTIVE demo_tx 0 "[demo_round [] 200000]" "demo_round [ESP_POWER_SAVE_OFF] 400000"
      True None id "[]"]
  by (simp add: demo_ps_def ps_demo_slave_def demo_tx_def demo_round_def sem_inv_def default_ps_config_def silent_def
      is_host_wakeup_needed_def curr_time_in_ms_def zero_handle_def free_handle_def)

definition demo_drv :: ps_drv where
  "demo_drv = \<lparr>pd_on = False, pd_init = True, pd_reset = False, pd_wake_time = 0, pd_intr = True, pd_hold = False,
     pd_timer = None, pd_restarts = 0, pd_told = []\<rparr>"

definition demo_ps0 :: host_ps where
  "demo_ps0 = \<lparr>hp_config = default_ps_config False 5 True, hp_on = False, hp_sem = None, hp_log = []\<rparr>"

lemma demo_init:
  "host_power_save_init 5 True ESP_OK True None demo_ps0 = Some (ESP_OK, (demo_ps False)\<lparr>hp_log := [PS_Gpio False]\<rparr>)"
  by (simp add: host_power_save_init_def demo_ps0_def demo_ps_def default_ps_config_def reset_host_wakeup_gpio_def
      ps_log_def sem_give_def)

end
