(* ===== verification/Bus_Queue.thy ===== *)
theory Bus_Queue
  imports Uart_Frame "HOL-Library.Multiset"
begin

unbundle bit_operations_syntax

text \<open>
  What the bus drivers of the host (\<open>sdio_drv.c\<close>, \<open>uart_drv.c\<close>) have in common: the three priority queues with
  their semaphore, in both directions, and the dispatch of a received packet to the modules above. The semaphore
  counts the queued packets, so a task that gets it finds one.
\<close>

section \<open>Priority queues\<close>

record prio_q =
  pq_serial :: "interface_buffer_handle list"
  pq_bt :: "interface_buffer_handle list"
  pq_others :: "interface_buffer_handle list"
  pq_sem :: nat

definition prio_send :: "interface_buffer_handle \<Rightarrow> prio_q \<Rightarrow> prio_q" where
  "prio_send bh q =
     (let q = (if bh_if_type bh = if_code ESP_SERIAL_IF then q\<lparr>pq_serial := pq_serial q @ [bh]\<rparr>
               else if bh_if_type bh = if_code ESP_HCI_IF then q\<lparr>pq_bt := pq_bt q @ [bh]\<rparr>
               else q\<lparr>pq_others := pq_others q @ [bh]\<rparr>)
      in q\<lparr>pq_sem := pq_sem q + 1\<rparr>)"

definition prio_recv :: "prio_q \<Rightarrow> interface_buffer_handle option \<times> prio_q" where
  "prio_recv q =
     (case pq_serial q of b # bs \<Rightarrow> (Some b, q\<lparr>pq_serial := bs\<rparr>)
      | [] \<Rightarrow> (case pq_bt q of b # bs \<Rightarrow> (Some b, q\<lparr>pq_bt := bs\<rparr>)
        | [] \<Rightarrow> (case pq_others q of b # bs \<Rightarrow> (Some b, q\<lparr>pq_others := bs\<rparr>)
          | [] \<Rightarrow> (None, q))))"

definition empty_prio_q :: prio_q where
  "empty_prio_q = \<lparr>pq_serial = [], pq_bt = [], pq_others = [], pq_sem = 0\<rparr>"

definition drain :: "prio_q \<Rightarrow> nat list" where
  "drain q = concat (map (\<lambda>bh. snd (free_handle bh)) (pq_serial q @ pq_bt q @ pq_others q))"

definition q_all :: "prio_q \<Rightarrow> interface_buffer_handle list" where
  "q_all q = pq_serial q @ pq_bt q @ pq_others q"

lemma q_all_send [simp]:
  "mset (q_all (prio_send bh q)) = add_mset bh (mset (q_all q))"
  "length (q_all (prio_send bh q)) = length (q_all q) + 1" "pq_sem (prio_send bh q) = pq_sem q + 1"
  "pq_others q \<noteq> [] \<Longrightarrow> pq_others (prio_send bh q) \<noteq> []"
  for bh :: interface_buffer_handle
  by (auto simp: q_all_def prio_send_def Let_def)

lemma prio_recv_all:
  assumes "prio_recv q = (got, q')"
  shows "pq_sem q' = pq_sem q" "q_all q = (case got of None \<Rightarrow> [] | Some b \<Rightarrow> b # q_all q')"
  using assms by (auto simp: prio_recv_def q_all_def split: list.splits)

lemma q_all_sem [simp]: "q_all (q\<lparr>pq_sem := n\<rparr>) = q_all q"
  by (simp add: q_all_def)

section \<open>Dispatch\<close>

text \<open>What a received packet is handed to: the serial link (with the number of its callbacks), a channel, ...\<close>

datatype rx_action = RX_Serial nat | RX_Net u8 bytes | RX_Priv bytes | RX_Hci bytes u16 | RX_None

text \<open>
  The body of \<open>sdio_process_rx_task\<close> and \<open>h_uart_process_rx_task\<close> for one packet: \<open>mem\<close>, \<open>sbuf\<close>, \<open>qok\<close> are the
  resources of the serial link \<open>ll\<close>, \<open>chan t\<close> says whether interface \<open>t\<close> has a channel with a receive function,
  which is given a copy. The result: the action, what is freed, whether the write task is started (the first private
  packet), and the link. \<open>None\<close> is a failed assertion or an access outside the payload.
\<close>

definition bus_rx_dispatch ::
  "bool \<Rightarrow> nat \<Rightarrow> bool \<Rightarrow> (u8 \<Rightarrow> bool) \<Rightarrow> interface_buffer_handle \<Rightarrow> serial_ll \<Rightarrow>
   (rx_action \<times> nat list \<times> bool \<times> serial_ll) option" where
  "bus_rx_dispatch mem sbuf qok chan bh ll =
     (let t = bh_if_type bh in do {
        (act, bh, fr, start, ll) \<leftarrow>
          (if t = if_code ESP_SERIAL_IF then
             (case serial_ll_rx_handler mem sbuf qok (Some bh) ll of
                None \<Rightarrow> None
              | Some (_, bh, ll, fr, n) \<Rightarrow> Some (RX_Serial n, bh, fr, False, ll))
           else if t = if_code ESP_STA_IF \<or> t = if_code ESP_AP_IF then
             (if chan t then do {
                p \<leftarrow> bh_payload bh;
                d \<leftarrow> mem_slice p 0 (unat (bh_payload_len bh));
                if d = [] then None
                else Some (RX_Net t d, fst (free_handle bh), snd (free_handle bh), False, ll)
              } else Some (RX_None, bh, [], False, ll))
           else if t = if_code ESP_PRIV_IF then do {
             p \<leftarrow> bh_payload bh;
             d \<leftarrow> mem_slice p 0 (unat (bh_payload_len bh));
             Some (RX_Priv d, bh, [], True, ll)
           } else if t = if_code ESP_HCI_IF then do {
             p \<leftarrow> bh_payload bh;
             Some (RX_Hci p (bh_payload_len bh), bh, [], False, ll)
           } else Some (RX_None, bh, [], False, ll));
        Some (act, fr @ (if bh_zcopy bh = 0 then snd (free_handle bh) else []), start, ll)
      })"

lemma bus_rx_dispatch_frees:
  assumes "bus_rx_dispatch mem sbuf qok chan bh ll = Some (act, fr, start, ll')"
    and "bh_free bh" "bh_priv bh \<noteq> 0" "bh_zcopy bh = 0" "sbuf \<noteq> bh_priv bh"
  shows "count_list fr (bh_priv bh) = 1"
proof (cases "bh_if_type bh = if_code ESP_SERIAL_IF")
  case True
  then obtain r bh' f n where s: "serial_ll_rx_handler mem sbuf qok (Some bh) ll = Some (r, bh', ll', f, n)"
    and f: "fr = f @ (if bh_zcopy bh' = 0 then snd (free_handle bh') else [])"
    using assms(1) by (auto simp: bus_rx_dispatch_def split: option.splits)
  have "bh_zcopy bh' = bh_zcopy bh"
    using s by (auto simp: serial_ll_rx_handler_def serial_buff_cleanup_def free_handle_def Let_def
        split: if_splits option.splits rx_ptr.splits prod.splits)
  then show ?thesis using serial_rx_frees [OF s assms(2) refl assms(3)] assms(4,5) f by simp
next
  case False
  then show ?thesis
    using assms by (auto simp: bus_rx_dispatch_def Let_def bind_eq_Some_conv free_handle_def split: if_splits)
qed

section \<open>The packet of a handle\<close>

text \<open>Header and payload of the frame that carries the packet of a handle.\<close>

definition tx_hdr :: "interface_buffer_handle \<Rightarrow> esp_payload_header" where
  "tx_hdr bh = zero_header\<lparr>ph_if_type := ucast (bh_if_type bh), ph_if_num := ucast (bh_if_num bh),
     ph_len := bh_payload_len bh, ph_offset := 12, ph_seq_num := bh_seq_num bh, ph_flags := bh_flag bh\<rparr>"

definition tx_payload :: "interface_buffer_handle \<Rightarrow> bytes" where
  "tx_payload bh = take (unat (bh_payload_len bh)) (the (bh_payload bh))"

lemma encode_zero_header: "encode_header zero_header = replicate 12 0"
  by (simp add: encode_header_def zero_header_def nibbles_def throttle_byte_def lo8_def hi8_def numeral_eq_Suc)

end
