(* ===== verification/Sdio_Drv.thy ===== *)
theory Sdio_Drv
  imports Bus_Queue
begin

unbundle bit_operations_syntax

text \<open>
  The SDIO transport of the host (\<open>src/host/drivers/transport/sdio/sdio_drv.c\<close>) in its streaming mode with
  combined register reads and block-only transfers: the two modular counters shared with the co-processor
  (transmit buffers used, octets received), the write task, the read task with its double buffer, the splitting
  of the received stream into packets, and the set-up and shutdown of the driver.

  Register values, the octets of a block read and the results of bus operations are arguments, since they come
  from the platform's SDIO driver. \<open>cks\<close> is the build option \<open>H_SDIO_CHECKSUM\<close>. \<open>None\<close> is a read or write
  outside a buffer, a failed assertion, or a task that waits. A buffer of the driver's pool is a positive number.
\<close>

section \<open>State\<close>

record double_buf =
  db_buf :: "nat \<Rightarrow> bytes"
  db_read_index :: int
  db_read_len :: u32
  db_write_index :: nat

text \<open>
  \<open>sd_avail\<close> is the static \<open>buf_available\<close>; \<open>sd_tx_needed\<close>, \<open>sd_len\<close>, \<open>sd_flag\<close> and \<open>sd_handle\<close> are the locals of
  the write task, which keep their values from turn to turn. \<open>sd_bus\<close>: address and octets of each block write.
\<close>

record sdio_drv =
  sd_tx_count :: u32
  sd_rx_count :: u32
  sd_avail :: u32
  sd_start :: bool
  sd_to_slave :: prio_q
  sd_from_slave :: prio_q
  sd_dbuf :: double_buf
  sd_xfer_sem :: nat
  sd_throttle :: bool
  sd_tx_needed :: bool
  sd_len :: u16
  sd_flag :: u8
  sd_handle :: interface_buffer_handle
  sd_bus :: "(nat \<times> bytes) list"

abbreviation (input) ESP_SLAVE_CMD53_END_ADDR :: nat where "ESP_SLAVE_CMD53_END_ADDR \<equiv> 0x1F800"
abbreviation (input) ESP_SLAVE_LEN_MASK :: u32 where "ESP_SLAVE_LEN_MASK \<equiv> 0xFFFFF"
abbreviation (input) ESP_RX_BYTE_MAX :: u32 where "ESP_RX_BYTE_MAX \<equiv> 0x100000"
abbreviation (input) ESP_TX_BUFFER_MASK :: u32 where "ESP_TX_BUFFER_MASK \<equiv> 0xFFF"
abbreviation (input) ESP_TX_BUFFER_MAX :: u32 where "ESP_TX_BUFFER_MAX \<equiv> 0x1000"
abbreviation (input) ESP_BLOCK_SIZE :: nat where "ESP_BLOCK_SIZE \<equiv> 512"
abbreviation (input) ESP_RX_BUFFER_SIZE :: nat where "ESP_RX_BUFFER_SIZE \<equiv> 1536"
abbreviation (input) MAX_SDIO_BUFFER_SIZE :: nat where "MAX_SDIO_BUFFER_SIZE \<equiv> 1536"
abbreviation (input) MAX_SDIO_PAYLOAD :: nat where "MAX_SDIO_PAYLOAD \<equiv> 1524"
abbreviation (input) ESP_HOSTED_SDIO_UNRESPONSIVE_CODE :: int where "ESP_HOSTED_SDIO_UNRESPONSIVE_CODE \<equiv> 0x107"

definition block_len :: "nat \<Rightarrow> nat" where
  "block_len n = (n + ESP_BLOCK_SIZE - 1) div ESP_BLOCK_SIZE * ESP_BLOCK_SIZE"

text \<open>\<open>esp_hosted_tx\<close> of this bus: \<open>up\<close> is \<open>is_transport_tx_ready\<close>. The second result: what is freed.\<close>

definition sdio_esp_hosted_tx ::
  "bool \<Rightarrow> u8 \<Rightarrow> u8 \<Rightarrow> bytes option \<Rightarrow> u16 \<Rightarrow> u8 \<Rightarrow> nat \<Rightarrow> bool \<Rightarrow> u8 \<Rightarrow> sdio_drv \<Rightarrow> h_err \<times> nat list \<times> sdio_drv" where
  "sdio_esp_hosted_tx up iface_type iface_num payload_buf payload_len zcopy buffer_to_free free_func flags st =
     (let bh = zero_handle\<lparr>bh_zcopy := zcopy, bh_if_type := iface_type, bh_if_num := iface_num,
            bh_payload_len := payload_len, bh_payload := payload_buf, bh_priv := buffer_to_free,
            bh_free := free_func, bh_flag := flags\<rparr>
      in if payload_buf = None \<or> payload_len = 0 \<or> unat payload_len > MAX_SDIO_PAYLOAD \<or> \<not> up
         then (H_FAIL, snd (free_handle bh), st)
         else (H_OK, [], st\<lparr>sd_to_slave := prio_send bh (sd_to_slave st)\<rparr>))"

section \<open>Transmit buffers of the co-processor\<close>

definition sdio_get_tx_buffer_num :: "int \<Rightarrow> u32 \<Rightarrow> u32 \<Rightarrow> int + u32" where
  "sdio_get_tx_buffer_num ret reg tx_buf_count =
     (if ret \<noteq> 0 then Inl ret
      else Inr (((drop_bit 16 reg AND ESP_TX_BUFFER_MASK) + ESP_TX_BUFFER_MAX - tx_buf_count) mod ESP_TX_BUFFER_MAX))"

text \<open>
  The retry loop of \<open>sdio_is_write_buffer_available\<close> on the readings \<open>rs\<close> of the token register (result and
  value). The result: whether the loop was left because the bus does not respond, the remaining retries, and the
  new \<open>buf_available\<close>.
\<close>

fun fetch_buffers :: "u32 \<Rightarrow> u32 \<Rightarrow> nat \<Rightarrow> nat \<Rightarrow> u32 \<Rightarrow> (int \<times> u32) list \<Rightarrow> (bool \<times> nat \<times> u32) option" where
  "fetch_buffers buf_needed cnt 0 unresponsive avail rs = Some (False, 0, avail)"
| "fetch_buffers buf_needed cnt (Suc retry) unresponsive avail [] = None"
| "fetch_buffers buf_needed cnt (Suc retry) unresponsive avail ((ret, reg) # rs) =
     (if ret = ESP_HOSTED_SDIO_UNRESPONSIVE_CODE then
        (if unresponsive - 1 = 0 then Some (True, Suc retry, avail)
         else fetch_buffers buf_needed cnt (Suc retry) (unresponsive - 1) avail rs)
      else
        let avail = (case sdio_get_tx_buffer_num ret reg cnt of Inr n \<Rightarrow> n | Inl _ \<Rightarrow> avail)
        in if avail < buf_needed then fetch_buffers buf_needed cnt retry unresponsive avail rs
           else Some (False, Suc retry, avail))"

definition sdio_is_write_buffer_available :: "u32 \<Rightarrow> u32 \<Rightarrow> u32 \<Rightarrow> (int \<times> u32) list \<Rightarrow> (bool \<times> u32) option" where
  "sdio_is_write_buffer_available buf_needed cnt avail rs =
     (case (if avail < buf_needed then fetch_buffers buf_needed cnt 50 2 avail rs else Some (False, 50, avail)) of
        None \<Rightarrow> None
      | Some (unresponsive, retry, avail) \<Rightarrow>
          if unresponsive then Some (False, avail)
          else Some (retry \<noteq> 0, if avail \<ge> buf_needed then avail - buf_needed else avail))"

section \<open>Write task\<close>

text \<open>
  The frame: header fields are assigned in place (a zero-copy buffer brings its own room for them), the payload
  is copied unless the packet is zero-copy. The result is the new length and the buffer.
\<close>

definition sdio_build :: "bool \<Rightarrow> interface_buffer_handle \<Rightarrow> u16 \<Rightarrow> bytes \<Rightarrow> (u16 \<times> bytes) option" where
  "sdio_build cks bh len sendbuf = do {
     h0 \<leftarrow> decode_header sendbuf;
     let zc = (bh_zcopy bh \<noteq> 0);
     let h = h0\<lparr>ph_len := len, ph_offset := of_nat HDR_SIZE, ph_if_type := ucast (bh_if_type bh),
                ph_if_num := ucast (bh_if_num bh), ph_seq_num := bh_seq_num bh, ph_flags := bh_flag bh\<rparr>;
     let sendbuf = put_header h sendbuf;
     (h, len, sendbuf) \<leftarrow>
       (if ph_if_type h = ucast (if_code ESP_HCI_IF) then
          (if zc then Some (h, len, sendbuf)
           else do {
             p \<leftarrow> bh_payload bh;
             t \<leftarrow> peek p 0;
             let len = len - 1;
             d \<leftarrow> mem_slice p 1 (unat len);
             sendbuf \<leftarrow> poke HDR_SIZE d sendbuf;
             Some (h\<lparr>ph_pkt_type := t, ph_len := len\<rparr>, len, sendbuf)
           })
        else if \<not> zc then do {
          p \<leftarrow> bh_payload bh;
          d \<leftarrow> mem_slice p 0 (unat len);
          sendbuf \<leftarrow> poke HDR_SIZE d sendbuf;
          Some (h, len, sendbuf)
        } else Some (h, len, sendbuf));
     let sendbuf = put_header h sendbuf;
     if \<not> cks then Some (len, sendbuf)
     else do {
       c \<leftarrow> compute_checksum sendbuf (of_nat (HDR_SIZE + unat len));
       Some (len, put_header (h\<lparr>ph_checksum := c\<rparr>) sendbuf)
     }
   }"

text \<open>The block write with its single retry; \<open>wr\<close> are the results of the bus. \<open>None\<close>: no result yet.\<close>

fun sdio_block_write :: "nat \<Rightarrow> nat \<times> bytes \<Rightarrow> int list \<Rightarrow> (bool \<times> (nat \<times> bytes) list) option" where
  "sdio_block_write retries d [] = None"
| "sdio_block_write retries d (r # rs) =
     (if r = 0 then Some (True, [d])
      else if retries + 1 < 2 then sdio_block_write (retries + 1) d rs
      else Some (False, []))"

text \<open>The label \<open>done\<close>: the packet's own buffer is freed unless it is sent in place, then the frame buffer.\<close>

definition sdio_tx_done :: "tx_free list \<Rightarrow> u16 \<Rightarrow> sdio_drv \<Rightarrow> tx_free list \<times> sdio_drv" where
  "sdio_tx_done sendbuf len st =
     (let bh = sd_handle st in
      if len \<noteq> 0 \<and> bh_zcopy bh = 0 \<and> bh_free bh \<and> bh_priv bh \<noteq> 0
      then (F_Priv # sendbuf, st\<lparr>sd_len := len, sd_handle := bh\<lparr>bh_priv := 0\<rparr>\<rparr>)
      else (sendbuf, st\<lparr>sd_len := len\<rparr>))"

text \<open>
  The built frame: buffers of the co-processor are reserved, the frame is written in whole blocks, and the
  counter of used buffers is moved. \<open>fr\<close>: what is freed at the end.
\<close>

definition sdio_transmit ::
  "(int \<times> u32) list \<Rightarrow> int list \<Rightarrow> tx_free list \<Rightarrow> u16 \<Rightarrow> bytes \<Rightarrow> sdio_drv \<Rightarrow> (tx_free list \<times> sdio_drv) option" where
  "sdio_transmit regs wr fr len sendbuf st = do {
     let total = unat len + HDR_SIZE;
     let buf_needed = (of_nat ((total + ESP_RX_BUFFER_SIZE - 1) div ESP_RX_BUFFER_SIZE) :: u32);
     (ok, avail) \<leftarrow> sdio_is_write_buffer_available buf_needed (sd_tx_count st) (sd_avail st) regs;
     let st = st\<lparr>sd_avail := avail\<rparr>;
     if \<not> ok then Some (sdio_tx_done fr len st)
     else do {
       d \<leftarrow> mem_slice sendbuf 0 (block_len total);
       (sent, ds) \<leftarrow> sdio_block_write 0 (ESP_SLAVE_CMD53_END_ADDR - total, d) wr;
       let st = st\<lparr>sd_bus := sd_bus st @ ds\<rparr>;
       Some (sdio_tx_done fr len
         (if sent then st\<lparr>sd_tx_count := (sd_tx_count st + buf_needed) mod ESP_TX_BUFFER_MAX\<rparr> else st))
     }
   }"

text \<open>One turn of \<open>sdio_write_task\<close> for the packet in \<open>sd_handle\<close>; \<open>mem\<close>: the pool has a buffer.\<close>

definition sdio_write_packet ::
  "bool \<Rightarrow> bool \<Rightarrow> (int \<times> u32) list \<Rightarrow> int list \<Rightarrow> sdio_drv \<Rightarrow> (tx_free list \<times> sdio_drv) option" where
  "sdio_write_packet cks mem regs wr st =
     (let bh = sd_handle st; len = sd_len st; zc = (bh_zcopy bh \<noteq> 0) in
      if sd_flag st = 0 \<and> len = 0 then Some (sdio_tx_done [] len st)
      else if (if zc then bh_payload bh = None else \<not> mem) then Some (sdio_tx_done [] len st)
      else
        let fr = (if \<not> zc then [F_Send] else if bh_free bh then [F_Payload] else []) in
        if unat (bh_payload_len bh) > MAX_SDIO_BUFFER_SIZE - HDR_SIZE then Some (sdio_tx_done fr len st)
        else do {
          (len, sendbuf) \<leftarrow> sdio_build cks bh len (if zc then the (bh_payload bh) else replicate MAX_SDIO_BUFFER_SIZE 0);
          sdio_transmit regs wr fr len sendbuf st
        })"

text \<open>One turn of the loop: \<open>None\<close> while the task has not been started or waits for the semaphore.\<close>

definition sdio_write_step ::
  "bool \<Rightarrow> bool \<Rightarrow> (int \<times> u32) list \<Rightarrow> int list \<Rightarrow> sdio_drv \<Rightarrow> (tx_free list \<times> sdio_drv) option" where
  "sdio_write_step cks mem regs wr st =
     (if \<not> sd_start st \<or> pq_sem (sd_to_slave st) = 0 then None
      else
        case prio_recv (sd_to_slave st) of (got, q) \<Rightarrow>
          let st = st\<lparr>sd_to_slave := q\<lparr>pq_sem := pq_sem q - 1\<rparr>,
                      sd_tx_needed := (sd_tx_needed st \<and> got \<noteq> None),
                      sd_handle := (case got of Some bh \<Rightarrow> bh | None \<Rightarrow> sd_handle st)\<rparr>;
              st = (if sd_tx_needed st
                    then st\<lparr>sd_len := bh_payload_len (sd_handle st), sd_flag := bh_flag (sd_handle st)\<rparr> else st)
          in sdio_write_packet cks mem regs wr st)"

section \<open>Read task\<close>

definition sdio_get_len_from_slave :: "u32 \<Rightarrow> u32 \<Rightarrow> u32" where
  "sdio_get_len_from_slave reg_val rx_byte_count =
     (let len = reg_val AND ESP_SLAVE_LEN_MASK in
      if len \<ge> rx_byte_count then (len + ESP_RX_BYTE_MAX - rx_byte_count) mod ESP_RX_BYTE_MAX
      else (ESP_RX_BYTE_MAX - rx_byte_count) + len)"

definition sdio_rx_get_buffer :: "bool \<Rightarrow> nat \<Rightarrow> double_buf \<Rightarrow> double_buf option" where
  "sdio_rx_get_buffer mem len db =
     (let len = block_len len; index = db_write_index db in
      if len > length (db_buf db index) then
        (if mem then Some (db\<lparr>db_buf := (db_buf db)(index := replicate len 0)\<rparr>) else None)
      else Some db)"

text \<open>
  One turn of \<open>sdio_read_task\<close> after an interrupt: \<open>regs\<close> are the interrupt and packet length registers
  (\<open>None\<close>: the wait or the read failed), \<open>data\<close> the octets of the block read (\<open>None\<close>: it failed).
\<close>

definition sdio_read_step :: "bool \<Rightarrow> (u32 \<times> u32) option \<Rightarrow> bytes option \<Rightarrow> sdio_drv \<Rightarrow> sdio_drv option" where
  "sdio_read_step mem regs data st =
     (case regs of
        None \<Rightarrow> Some st
      | Some (intr, len_reg) \<Rightarrow>
          let st = (if bit intr 7 then st\<lparr>sd_throttle := True\<rparr> else st);
              st = (if bit intr 6 then st\<lparr>sd_throttle := False\<rparr> else st);
              len = sdio_get_len_from_slave len_reg (sd_rx_count st)
          in if \<not> bit intr 23 \<or> len = 0 then Some st
             else do {
               db \<leftarrow> sdio_rx_get_buffer mem (unat len) (sd_dbuf st);
               let w = db_write_index db;
               buf \<leftarrow> (case data of None \<Rightarrow> Some (db_buf db w)
                       | Some d \<Rightarrow> poke 0 (take (block_len (unat len)) d) (db_buf db w));
               let db = db\<lparr>db_buf := (db_buf db)(w := buf)\<rparr>;
               let st = st\<lparr>sd_rx_count := (sd_rx_count st + len) mod ESP_RX_BYTE_MAX, sd_dbuf := db\<rparr>;
               if data = None then Some st
               else if db_read_index db < 0 then
                 Some (st\<lparr>sd_dbuf := db\<lparr>db_read_index := int w, db_read_len := len,
                            db_write_index := (if w \<noteq> 0 then 0 else 1)\<rparr>, sd_xfer_sem := 1\<rparr>)
               else Some st
             })"

section \<open>Splitting the stream\<close>

text \<open>
  \<open>is_valid_sdio_rx_packet\<close> at the front of \<open>buf\<close>: \<open>None\<close> reads behind the buffer; otherwise the length and
  offset of a valid packet, and the buffer with the checksum field cleared by the check.
\<close>

definition is_valid_sdio_rx_packet :: "bool \<Rightarrow> bytes \<Rightarrow> ((u16 \<times> u16) option \<times> bytes) option" where
  "is_valid_sdio_rx_packet cks buf = do {
     h \<leftarrow> decode_header buf;
     let len = ph_len h; let offset = ph_offset h;
     if len = 0 \<or> unat len > MAX_SDIO_PAYLOAD \<or> unat offset \<noteq> HDR_SIZE then Some (None, buf)
     else if \<not> cks then Some (Some (len, offset), buf)
     else do {
       let buf = put_header (h\<lparr>ph_checksum := 0\<rparr>) buf;
       checksum \<leftarrow> compute_checksum buf (len + offset);
       Some (if checksum \<noteq> ph_checksum h then None else Some (len, offset), buf)
     }
   }"

definition sdio_push_pkt_to_queue :: "nat \<Rightarrow> bytes \<Rightarrow> u16 \<Rightarrow> u16 \<Rightarrow> prio_q \<Rightarrow> prio_q option" where
  "sdio_push_pkt_to_queue rxbuff pkt len offset q = do {
     h \<leftarrow> decode_header pkt;
     Some (prio_send (zero_handle\<lparr>bh_priv := rxbuff, bh_free := True, bh_payload_len := len,
       bh_if_type := ucast (ph_if_type h), bh_if_num := ucast (ph_if_num h),
       bh_payload := Some (drop (unat offset) pkt), bh_seq_num := ph_seq_num h, bh_flag := ph_flags h\<rparr>) q)
   }"

lemma valid_packet_offset:
  "is_valid_sdio_rx_packet cks buf = Some (Some (len, offset), buf') \<Longrightarrow> unat offset = 12"
  by (auto simp: is_valid_sdio_rx_packet_def bind_eq_Some_conv Let_def split: if_splits)

text \<open>
  \<open>sdio_push_data_to_queue\<close> on the stream \<open>buf\<close> with \<open>buf_len\<close> octets left; \<open>bufs i\<close> is the pool buffer the
  \<open>i\<close>-th allocation gives (0: none).
\<close>

function sdio_push_data_to_queue ::
  "bool \<Rightarrow> (nat \<Rightarrow> nat) \<Rightarrow> nat \<Rightarrow> bytes \<Rightarrow> nat \<Rightarrow> prio_q \<Rightarrow> (h_err \<times> prio_q) option" where
  "sdio_push_data_to_queue cks bufs i buf buf_len q =
     (case is_valid_sdio_rx_packet cks buf of
        None \<Rightarrow> None
      | Some (None, buf) \<Rightarrow> Some (H_FAIL, q)
      | Some (Some (len, offset), buf) \<Rightarrow>
          let packet_size = unat len + unat offset in
          if packet_size > buf_len then Some (H_FAIL, q)
          else if bufs i = 0 then
            (if buf_len - packet_size = 0 then Some (H_OK, q)
             else sdio_push_data_to_queue cks bufs (i + 1) (drop packet_size buf) (buf_len - packet_size) q)
          else
            case mem_slice buf 0 packet_size of
              None \<Rightarrow> None
            | Some pkt \<Rightarrow>
                case sdio_push_pkt_to_queue (bufs i) pkt len offset q of
                  None \<Rightarrow> None
                | Some q \<Rightarrow>
                    if buf_len - packet_size = 0 then Some (H_OK, q)
                    else sdio_push_data_to_queue cks bufs (i + 1) (drop packet_size buf) (buf_len - packet_size) q)"
  by pat_completeness auto
termination
  by (relation "measure (\<lambda>(cks, bufs, i, buf, buf_len, q). buf_len)") (auto dest: valid_packet_offset)

declare sdio_push_data_to_queue.simps [simp del]

text \<open>One turn of \<open>sdio_data_to_rx_buf_task\<close>.\<close>

definition sdio_data_to_rx_buf_step :: "bool \<Rightarrow> (nat \<Rightarrow> nat) \<Rightarrow> sdio_drv \<Rightarrow> sdio_drv option" where
  "sdio_data_to_rx_buf_step cks bufs st =
     (if sd_xfer_sem st = 0 then None
      else
        let st = st\<lparr>sd_xfer_sem := sd_xfer_sem st - 1\<rparr>; db = sd_dbuf st in
        if db_read_index db < 0 then Some st
        else do {
          (_, q) \<leftarrow> sdio_push_data_to_queue cks bufs 0 (db_buf db (nat (db_read_index db))) (unat (db_read_len db))
                   (sd_from_slave st);
          Some (st\<lparr>sd_from_slave := q, sd_dbuf := db\<lparr>db_read_index := -1\<rparr>\<rparr>)
        })"

section \<open>Dispatch\<close>

text \<open>One turn of \<open>sdio_process_rx_task\<close>: \<open>None\<close> while it waits. The link \<open>ll\<close> is the serial layer's state.\<close>

definition sdio_process_rx_step ::
  "bool \<Rightarrow> nat \<Rightarrow> bool \<Rightarrow> (u8 \<Rightarrow> bool) \<Rightarrow> sdio_drv \<times> serial_ll \<Rightarrow> (rx_action \<times> nat list \<times> sdio_drv \<times> serial_ll) option" where
  "sdio_process_rx_step mem sbuf qok chan c =
     (case c of (st, ll) \<Rightarrow>
      if pq_sem (sd_from_slave st) = 0 then None
      else case prio_recv (sd_from_slave st) of (got, q) \<Rightarrow>
        let st = st\<lparr>sd_from_slave := q\<lparr>pq_sem := pq_sem q - 1\<rparr>\<rparr> in
        case got of
          None \<Rightarrow> Some (RX_None, [], st, ll)
        | Some bh \<Rightarrow> do {
            (act, fr, start, ll) \<leftarrow> bus_rx_dispatch mem sbuf qok chan bh ll;
            Some (act, fr, if start then st\<lparr>sd_start := True\<rparr> else st, ll)
          })"

section \<open>Set-up and shutdown\<close>

definition reset_double_buf :: double_buf where
  "reset_double_buf = \<lparr>db_buf = (\<lambda>_. []), db_read_index = -1, db_read_len = 0, db_write_index = 0\<rparr>"

text \<open>
  \<open>bus_deinit_internal\<close>: the buffers that are freed and the state that is left. The static \<open>buf_available\<close> of
  \<open>sdio_is_write_buffer_available\<close> is out of its reach; the tasks, with their locals, are gone.
\<close>

definition sdio_bus_deinit :: "sdio_drv \<Rightarrow> nat list \<times> sdio_drv" where
  "sdio_bus_deinit st =
     (drain (sd_to_slave st) @ drain (sd_from_slave st),
      st\<lparr>sd_tx_count := 0, sd_rx_count := 0, sd_start := False, sd_to_slave := empty_prio_q,
         sd_from_slave := empty_prio_q, sd_dbuf := reset_double_buf, sd_xfer_sem := 0\<rparr>)"

text \<open>\<open>bus_init_internal\<close>: \<open>ok i\<close> is the result of its \<open>i\<close>-th resource; a failure undoes the rest.\<close>

definition sdio_bus_init :: "(nat \<Rightarrow> bool) \<Rightarrow> sdio_drv \<Rightarrow> bool \<times> nat list \<times> sdio_drv" where
  "sdio_bus_init ok st =
     (let st1 = st\<lparr>sd_tx_count := 0, sd_rx_count := 0\<rparr>;
          st2 = st1\<lparr>sd_to_slave := empty_prio_q, sd_from_slave := empty_prio_q, sd_dbuf := reset_double_buf,
                    sd_xfer_sem := 0, sd_tx_needed := True, sd_len := 0, sd_flag := 0, sd_handle := zero_handle\<rparr>
      in if \<forall>i \<in> set [0..<15]. ok i then (True, [], st2)
         else (False, sdio_bus_deinit st1))"

definition sdio_generate_slave_intr :: "(u8 \<Rightarrow> int) \<Rightarrow> u8 \<Rightarrow> int" where
  "sdio_generate_slave_intr write_reg intr_no =
     (if unat intr_no \<ge> 2 ^ 5 then 0x102 else write_reg (push_bit (unat intr_no) 1))"

text \<open>The loop of \<open>transport_card_init\<close>: \<open>attempt i\<close> is the result of attempt \<open>i\<close>, which is always made once.\<close>

function card_init_loop :: "(nat \<Rightarrow> int) \<Rightarrow> nat \<Rightarrow> nat \<Rightarrow> int \<times> nat" where
  "card_init_loop attempt num_loops i =
     (if attempt i = 0 then (0, i + 1)
      else if i + 1 < num_loops then card_init_loop attempt num_loops (i + 1)
      else (attempt i, i + 1))"
  by pat_completeness auto
termination
  by (relation "measure (\<lambda>(attempt, n, i). n - i)") auto

declare card_init_loop.simps [simp del]

definition transport_card_init :: "(nat \<Rightarrow> int) \<Rightarrow> nat \<Rightarrow> int \<times> nat" where
  "transport_card_init attempt timeout_ms = card_init_loop attempt (timeout_ms div 100) 0"

text \<open>
  \<open>ensure_slave_bus_ready\<close>: the result, the number of resets of the co-processor, whether the link state is set,
  and whether the end of the power save is signalled. \<open>lazy\<close> is the option to reset only if necessary, \<open>woke\<close>
  a wake-up from power save; \<open>again\<close> are the attempts after a reset.
\<close>

definition ensure_slave_bus_ready ::
  "bool \<Rightarrow> bool \<Rightarrow> bool \<Rightarrow> (nat \<Rightarrow> int) \<Rightarrow> (nat \<Rightarrow> int) \<Rightarrow> int \<times> nat \<times> bool \<times> bool" where
  "ensure_slave_bus_ready config lazy woke attempt again =
     (if \<not> config then (-1, 0, False, False)
      else if lazy then
        (if fst (transport_card_init attempt 1500) = 0 then (0, 0, True, False)
         else let r = fst (transport_card_init again 1500) in (r, 1, r = 0, False))
      else if woke then
        (let r = fst (transport_card_init attempt 1500) in (r, 0, r = 0, r = 0))
      else (let r = fst (transport_card_init again 1500) in (r, 1, r = 0, False)))"

section \<open>Lemmas: the modular counters\<close>

lemma and_mask_nat: "unat (w AND 0xFFFFF :: u32) = unat w mod 0x100000"
proof -
  have "w AND 0xFFFFF = take_bit 20 w" by (simp add: take_bit_eq_mask mask_eq_exp_minus_1)
  then show ?thesis by (simp add: take_bit_eq_mod unat_mod)
qed

lemma and_mask12_nat: "unat (w AND 0xFFF :: u32) = unat w mod 0x1000"
proof -
  have "w AND 0xFFF = take_bit 12 w" by (simp add: take_bit_eq_mask mask_eq_exp_minus_1)
  then show ?thesis by (simp add: take_bit_eq_mod unat_mod)
qed

lemma unat_u32_less: "unat (w :: u32) < 2 ^ 32"
  using unsigned_less [of w, where ?'a = nat] by simp

text \<open>Two counters modulo \<open>m\<close> that are less than \<open>m\<close> apart determine their distance.\<close>

lemma mod_distance:
  fixes s h m :: nat
  assumes "h \<le> s" "s - h < m"
  shows "(if s mod m \<ge> h mod m then s mod m - h mod m else m - h mod m + s mod m) = s - h"
proof -
  define d where "d = s - h"
  have s: "s = h + d" "d < m" using assms by (simp_all add: d_def)
  have h: "h mod m < m" using s(2) by simp
  show ?thesis
  proof (cases "h mod m + d < m")
    case True
    then have "s mod m = h mod m + d" using s(1) by (metis mod_add_left_eq mod_less)
    then show ?thesis by (simp add: d_def)
  next
    case False
    then have "(h mod m + d) mod m = (h mod m + d - m) mod m" by (intro le_mod_geq) simp
    also have "\<dots> = h mod m + d - m" using False h s(2) by (intro mod_less) linarith
    finally have "(h mod m + d) mod m = h mod m + d - m" .
    then have "s mod m = h mod m + d - m" using s(1) by (simp add: mod_add_left_eq)
    then show ?thesis using False h s(2) by (simp add: d_def)
  qed
qed

lemma sdio_len_distance:
  assumes "unat (reg AND ESP_SLAVE_LEN_MASK) = s mod 0x100000" "unat cnt = h mod 0x100000" "h \<le> s" "s - h < 0x100000"
  shows "unat (sdio_get_len_from_slave reg cnt) = s - h"
proof -
  let ?l = "reg AND ESP_SLAVE_LEN_MASK"
  have b: "unat ?l < 0x100000" "unat cnt < 0x100000" using assms by simp_all
  have ge: "?l \<ge> cnt \<longleftrightarrow> unat ?l \<ge> unat cnt" by (simp add: word_le_nat_alt)
  have k: "cnt \<le> 0x100000" using b(2) by (simp add: word_le_nat_alt)
  show ?thesis
  proof (cases "unat ?l \<ge> unat cnt")
    case True
    have "unat (?l + ESP_RX_BYTE_MAX) = unat ?l + 0x100000" using b by (subst unat_word_ariths) simp
    moreover from this have "cnt \<le> ?l + ESP_RX_BYTE_MAX" using b by (simp add: word_le_nat_alt)
    ultimately have "unat (?l + ESP_RX_BYTE_MAX - cnt) = (unat ?l - unat cnt) + 0x100000"
      using True by (simp add: unat_sub)
    then have "unat ((?l + ESP_RX_BYTE_MAX - cnt) mod ESP_RX_BYTE_MAX) = ((unat ?l - unat cnt) + 0x100000) mod 0x100000"
      by (simp only: unat_mod) simp
    also have "\<dots> = unat ?l - unat cnt" using b by simp
    finally have "unat ((?l + ESP_RX_BYTE_MAX - cnt) mod ESP_RX_BYTE_MAX) = unat ?l - unat cnt" .
    then show ?thesis
      using True ge mod_distance [OF assms(3,4)] assms(1,2) by (simp add: sdio_get_len_from_slave_def Let_def)
  next
    case False
    have "unat (ESP_RX_BYTE_MAX - cnt) = 0x100000 - unat cnt" using k by (simp add: unat_sub)
    then have "unat (ESP_RX_BYTE_MAX - cnt + ?l) = 0x100000 - unat cnt + unat ?l"
      using b by (subst unat_word_ariths) simp
    then show ?thesis
      using False ge mod_distance [OF assms(3,4)] assms(1,2) by (simp add: sdio_get_len_from_slave_def Let_def)
  qed
qed

lemma sdio_tokens_distance:
  assumes "unat (drop_bit 16 reg AND ESP_TX_BUFFER_MASK) = g mod 0x1000" "unat cnt = u mod 0x1000" "u \<le> g" "g - u < 0x1000"
  shows "\<exists>n. sdio_get_tx_buffer_num 0 reg cnt = Inr n \<and> unat n = g - u"
proof -
  let ?l = "drop_bit 16 reg AND ESP_TX_BUFFER_MASK"
  have b: "unat ?l < 0x1000" "unat cnt < 0x1000" using assms by simp_all
  have "unat (?l + ESP_TX_BUFFER_MAX) = unat ?l + 0x1000" using b by (subst unat_word_ariths) simp
  moreover from this have "cnt \<le> ?l + ESP_TX_BUFFER_MAX" using b by (simp add: word_le_nat_alt)
  ultimately have "unat (?l + ESP_TX_BUFFER_MAX - cnt) = unat ?l + 0x1000 - unat cnt" by (simp add: unat_sub)
  then have "unat ((?l + ESP_TX_BUFFER_MAX - cnt) mod ESP_TX_BUFFER_MAX) = (unat ?l + 0x1000 - unat cnt) mod 0x1000"
    by (simp only: unat_mod) simp
  also have "\<dots> = (if unat ?l \<ge> unat cnt then unat ?l - unat cnt else 0x1000 - unat cnt + unat ?l)"
  proof (cases "unat ?l \<ge> unat cnt")
    case True
    then have e: "unat ?l + 0x1000 - unat cnt = (unat ?l - unat cnt) + 0x1000" by simp
    have m: "(x + 0x1000) mod 0x1000 = x" if "x < 0x1000" for x :: nat using that by simp
    have "unat ?l - unat cnt < 0x1000" using b by simp
    from m [OF this] show ?thesis using True by (simp only: e if_True)
  next
    case False
    then show ?thesis using b by simp
  qed
  also have "\<dots> = g - u" using mod_distance [OF assms(3,4)] unfolding assms(1,2) .
  finally show ?thesis by (simp add: sdio_get_tx_buffer_num_def)
qed

section \<open>Lemmas: flow control\<close>

text \<open>
  \<open>g\<close> is the number of buffers the co-processor has provided since the start, \<open>u\<close> the number the host has used;
  the driver keeps \<open>u\<close> modulo 4096 and a lower bound of \<open>g - u\<close>.
\<close>

definition credit_inv :: "nat \<Rightarrow> nat \<Rightarrow> sdio_drv \<Rightarrow> bool" where
  "credit_inv g u st = (u \<le> g \<and> g - u < 0x1000 \<and> unat (sd_tx_count st) = u mod 0x1000 \<and> unat (sd_avail st) \<le> g - u)"

text \<open>Every successful reading of the token register shows a number of provided buffers between \<open>g\<close> and \<open>g'\<close>.\<close>

definition tokens_ok :: "nat \<Rightarrow> nat \<Rightarrow> (int \<times> u32) list \<Rightarrow> bool" where
  "tokens_ok g g' rs = (\<forall>(ret, reg) \<in> set rs. ret = 0 \<longrightarrow>
     (\<exists>k. g \<le> k \<and> k \<le> g' \<and> unat (drop_bit 16 reg AND ESP_TX_BUFFER_MASK) = k mod 0x1000))"

lemma fetch_buffers_credit:
  assumes "fetch_buffers need cnt retry unresp avail rs = Some (un, retry', avail')" "tokens_ok g g' rs"
    and "u \<le> g" "g \<le> g'" "g' - u < 0x1000" "unat cnt = u mod 0x1000" "unat avail \<le> g' - u"
  shows "unat avail' \<le> g' - u \<and> (\<not> un \<and> retry' \<noteq> 0 \<longrightarrow> avail' \<ge> need)"
  using assms
proof (induction need cnt retry unresp avail rs rule: fetch_buffers.induct)
  case (3 need cnt retry unresp avail ret reg rs)
  have t: "tokens_ok g g' rs" using "3.prems"(2) by (simp add: tokens_ok_def)
  define av where "av = (case sdio_get_tx_buffer_num ret reg cnt of Inr n \<Rightarrow> n | Inl _ \<Rightarrow> avail)"
  have av: "unat av \<le> g' - u"
  proof (cases "ret = 0")
    case True
    then obtain k where k: "g \<le> k" "k \<le> g'" "unat (drop_bit 16 reg AND ESP_TX_BUFFER_MASK) = k mod 0x1000"
      using "3.prems"(2) by (auto simp: tokens_ok_def)
    have "u \<le> k" "k - u < 0x1000" using k "3.prems"(3-5) by linarith+
    then obtain n where "sdio_get_tx_buffer_num 0 reg cnt = Inr n" "unat n = k - u"
      using sdio_tokens_distance [OF k(3) "3.prems"(6)] by blast
    then show ?thesis using True k by (simp add: av_def)
  next
    case False
    then show ?thesis using "3.prems"(7) by (simp add: av_def sdio_get_tx_buffer_num_def)
  qed
  show ?case
  proof (cases "ret = ESP_HOSTED_SDIO_UNRESPONSIVE_CODE")
    case True
    then show ?thesis using 3 t by (auto split: if_splits)
  next
    case False
    then show ?thesis using 3 t av by (auto simp: av_def [symmetric] Let_def not_less split: if_splits)
  qed
qed auto

lemma write_buffer_credit:
  assumes "sdio_is_write_buffer_available need cnt avail rs = Some (ok, avail')" "tokens_ok g g' rs"
    and "u \<le> g" "g \<le> g'" "g' - u < 0x1000" "unat cnt = u mod 0x1000" "unat avail \<le> g - u"
  shows "unat avail' \<le> g' - u \<and> (ok \<longrightarrow> unat need + unat avail' \<le> g' - u)"
proof -
  have a: "unat avail \<le> g' - u" using assms(4,7) by linarith
  obtain un retry av where f: "(if avail < need then fetch_buffers need cnt 50 2 avail rs else Some (False, 50, avail)) =
      Some (un, retry, av)"
    using assms(1) by (auto simp: sdio_is_write_buffer_available_def split: option.splits)
  have b: "unat av \<le> g' - u \<and> (\<not> un \<and> retry \<noteq> 0 \<longrightarrow> av \<ge> need)"
    using f fetch_buffers_credit [OF _ assms(2-6) a] a by (auto split: if_splits)
  have s: "unat (av - need) = unat av - unat need" "unat need \<le> unat av" if "need \<le> av"
    using that by (simp_all add: unat_sub word_le_nat_alt)
  show ?thesis
    using assms(1) f b s by (auto simp: sdio_is_write_buffer_available_def split: if_splits)
qed

lemma sdio_block_write_result: "sdio_block_write n d rs = Some (ok, ds) \<Longrightarrow> ds = (if ok then [d] else [])"
  by (induction n d rs rule: sdio_block_write.induct) (auto split: if_splits)

lemma tx_done_fields [simp]:
  "sd_tx_count (snd (sdio_tx_done fr len st)) = sd_tx_count st" "sd_avail (snd (sdio_tx_done fr len st)) = sd_avail st"
  "sd_bus (snd (sdio_tx_done fr len st)) = sd_bus st"
  by (simp_all add: sdio_tx_done_def Let_def)

text \<open>The number of co-processor buffers a block write takes, from its address.\<close>

definition frame_buffers :: "nat \<times> bytes \<Rightarrow> nat" where
  "frame_buffers w = (ESP_SLAVE_CMD53_END_ADDR - fst w + ESP_RX_BUFFER_SIZE - 1) div ESP_RX_BUFFER_SIZE"

definition used :: "sdio_drv \<Rightarrow> nat" where
  "used st = sum_list (map frame_buffers (sd_bus st))"

lemma used_append: "sd_bus st' = sd_bus st @ ds \<Longrightarrow> used st' = used st + sum_list (map frame_buffers ds)"
  by (simp add: used_def)

lemma tx_count_add:
  assumes "unat cnt = u mod 0x1000" "unat need < 0x1000"
  shows "unat ((cnt + need) mod ESP_TX_BUFFER_MAX) = (u + unat need) mod 0x1000"
proof -
  have "unat cnt < 0x1000" using assms(1) by simp
  then have "unat (cnt + need) = unat cnt + unat need" using assms(2) by (subst unat_word_ariths) simp
  then show ?thesis using assms(1) by (simp add: unat_mod mod_add_left_eq)
qed

lemma credit_keep:
  assumes "credit_inv g (used st) st" "g \<le> g'" "g' - used st < 0x1000"
    and "sd_bus s = sd_bus st" "sd_tx_count s = sd_tx_count st" "unat (sd_avail s) \<le> g' - used st"
  shows "credit_inv g' (used s) s"
  using assms by (simp add: credit_inv_def used_def)

lemma transmit_credit:
  assumes "sdio_transmit regs wr fr0 len sendbuf st = Some (fr, st')" "credit_inv g (used st) st" "tokens_ok g g' regs"
    and "g \<le> g'" "g' - used st < 0x1000"
  shows "credit_inv g' (used st') st'"
proof -
  let ?u = "used st"
  note keep = credit_keep [OF assms(2,4,5)]
  define total where "total = unat len + HDR_SIZE"
  define need where "need = (of_nat ((total + ESP_RX_BUFFER_SIZE - 1) div ESP_RX_BUFFER_SIZE) :: u32)"
  have tb: "total < 65548" using unat_u16_less [of len] by (simp add: total_def)
  have b44: "(total + 1535) div 1536 < 44" using tb by (simp add: less_mult_imp_div_less)
  then have nb: "unat need = (total + 1535) div 1536" "unat need < 0x1000"
    by (simp_all add: need_def unat_of_nat)
  obtain ok avail where w: "sdio_is_write_buffer_available need (sd_tx_count st) (sd_avail st) regs = Some (ok, avail)"
    using assms(1) by (auto simp: sdio_transmit_def need_def total_def Let_def bind_eq_Some_conv)
  have c: "unat avail \<le> g' - ?u \<and> (ok \<longrightarrow> unat need + unat avail \<le> g' - ?u)"
    using write_buffer_credit [OF w assms(3) _ assms(4,5)] assms(2) by (simp add: credit_inv_def)
  show ?thesis
  proof (cases ok)
    case False
    then have "st' = snd (sdio_tx_done fr0 len (st\<lparr>sd_avail := avail\<rparr>))"
      using assms(1) w by (simp add: sdio_transmit_def need_def total_def Let_def)
    then show ?thesis using keep c by simp
  next
    case True
    let ?s = "\<lambda>ds. st\<lparr>sd_avail := avail, sd_bus := sd_bus st @ ds\<rparr>"
    let ?e = "\<lambda>sent ds. if sent then (?s ds)\<lparr>sd_tx_count := (sd_tx_count st + need) mod ESP_TX_BUFFER_MAX\<rparr> else ?s ds"
    have "sdio_transmit regs wr fr0 len sendbuf st = do {
        d \<leftarrow> mem_slice sendbuf 0 (block_len total);
        (sent, ds) \<leftarrow> sdio_block_write 0 (ESP_SLAVE_CMD53_END_ADDR - total, d) wr;
        Some (sdio_tx_done fr0 len (?e sent ds))
      }"
      unfolding sdio_transmit_def Let_def
      unfolding total_def [symmetric]
      unfolding need_def [symmetric] w
      using True by (simp add: split_beta cong: if_cong)
    from trans [OF this [symmetric] assms(1)]
    obtain d sent ds where d: "sdio_block_write 0 (ESP_SLAVE_CMD53_END_ADDR - total, d) wr = Some (sent, ds)"
      and e: "sdio_tx_done fr0 len (?e sent ds) = (fr, st')"
      by (auto simp: bind_eq_Some_conv)
    have st': "st' = snd (sdio_tx_done fr0 len (?e sent ds))" by (simp only: e snd_conv)
    have ds: "ds = (if sent then [(ESP_SLAVE_CMD53_END_ADDR - total, d)] else [])" using sdio_block_write_result [OF d] .
    show ?thesis
    proof (cases sent)
      case False
      then show ?thesis using st' ds keep c by simp
    next
      case True
      have fb: "frame_buffers (ESP_SLAVE_CMD53_END_ADDR - total, d) = unat need"
        using tb nb(1) by (simp add: frame_buffers_def)
      have u': "used st' = ?u + unat need" using st' ds True fb by (simp add: used_def)
      have "unat (sd_tx_count st') = (?u + unat need) mod 0x1000"
        using st' True assms(2) tx_count_add [OF _ nb(2)] by (simp add: credit_inv_def)
      moreover have "unat (sd_avail st') = unat avail" using st' True by simp
      ultimately show ?thesis
        using u' c \<open>ok\<close> assms(2,4,5) unfolding credit_inv_def by auto
    qed
  qed
qed

lemma write_packet_credit:
  assumes "sdio_write_packet cks mem regs wr st = Some (fr, st')" "credit_inv g (used st) st" "tokens_ok g g' regs"
    and "g \<le> g'" "g' - used st < 0x1000"
  shows "credit_inv g' (used st') st'"
proof -
  have old: "unat (sd_avail st) \<le> g' - used st" using assms(2,4) unfolding credit_inv_def by linarith
  have early: "credit_inv g' (used (snd (sdio_tx_done fr0 len st))) (snd (sdio_tx_done fr0 len st))" for fr0 len
    using credit_keep [OF assms(2,4,5)] old by simp
  have built: "credit_inv g' (used s) s" if "sdio_transmit regs wr fr0 len sendbuf st = Some (f, s)" for fr0 len sendbuf f s
    using transmit_credit [OF that assms(2-5)] .
  show ?thesis
    using assms(1) early built
    by (auto simp: sdio_write_packet_def Let_def bind_eq_Some_conv split: if_splits) (metis snd_conv)+
qed

lemma write_step_credit:
  assumes "sdio_write_step cks mem regs wr st = Some (fr, st')" "credit_inv g (used st) st" "tokens_ok g g' regs"
    and "g \<le> g'" "g' - used st < 0x1000"
  shows "credit_inv g' (used st') st'"
proof -
  obtain s where w: "sdio_write_packet cks mem regs wr s = Some (fr, st')"
    and s: "sd_bus s = sd_bus st" "sd_tx_count s = sd_tx_count st" "sd_avail s = sd_avail st"
    using assms(1) by (auto simp: sdio_write_step_def Let_def split: if_splits prod.splits)
  then have "used s = used st" "credit_inv g (used s) s" using assms(2) by (simp_all add: used_def credit_inv_def)
  then show ?thesis using write_packet_credit [OF w _ assms(3,4)] assms(5) by simp
qed

section \<open>Lemmas: the stream\<close>

definition sdio_rx_handle :: "nat \<Rightarrow> esp_payload_header \<Rightarrow> bytes \<Rightarrow> interface_buffer_handle" where
  "sdio_rx_handle buf h p = zero_handle\<lparr>bh_priv := buf, bh_free := True, bh_payload_len := of_nat (length p),
     bh_if_type := ucast (ph_if_type h), bh_if_num := ucast (ph_if_num h), bh_payload := Some p,
     bh_seq_num := ph_seq_num h, bh_flag := ph_flags h\<rparr>"

text \<open>A packet of the co-processor that fits the bus: its header describes its payload.\<close>

definition sdio_ok :: "esp_payload_header \<times> bytes \<Rightarrow> bool" where
  "sdio_ok f = (snd f \<noteq> [] \<and> length (snd f) \<le> MAX_SDIO_PAYLOAD \<and> ph_len (fst f) = of_nat (length (snd f)) \<and>
     ph_offset (fst f) = 12)"

definition sdio_image :: "esp_payload_header \<times> bytes \<Rightarrow> bytes" where
  "sdio_image f = seal_frame (fst f) (snd f)"

lemma length_sdio_image [simp]: "length (sdio_image f) = 12 + length (snd f)"
  by (simp add: sdio_image_def)

lemma sdio_ok_len:
  assumes "sdio_ok (h, p)"
  shows "unat (ph_len h) = length p" "unat (ph_len h + ph_offset h) = 12 + length p"
proof -
  have l: "length p \<le> 1524" "ph_len h = of_nat (length p)" "ph_offset h = 12" using assms by (simp_all add: sdio_ok_def)
  then show 1: "unat (ph_len h) = length p" by (simp add: unat_of_nat)
  show "unat (ph_len h + ph_offset h) = 12 + length p" using l 1 by (subst unat_word_ariths) simp
qed

lemma valid_sdio_image:
  assumes "sdio_ok (h, p)"
  shows "\<exists>c. is_valid_sdio_rx_packet cks (sdio_image (h, p) @ rest) =
    Some (Some (ph_len h, 12), encode_header (h\<lparr>ph_checksum := c\<rparr>) @ p @ rest)"
proof -
  define c where "c = octet_sum (encode_header (h\<lparr>ph_checksum := 0\<rparr>) @ p)"
  have im: "sdio_image (h, p) = encode_header (h\<lparr>ph_checksum := c\<rparr>) @ p"
    by (simp add: sdio_image_def seal_frame_def Let_def c_def)
  have l: "length p \<noteq> 0" "length p \<le> 1524" "ph_offset h = 12" using assms by (simp_all add: sdio_ok_def)
  note u = sdio_ok_len [OF assms]
  have nz: "ph_len h \<noteq> 0" using u(1) l(1) by auto
  have "unat (ph_len h + 12) = 12 + length p" using u(2) l(3) by simp
  then have ck: "compute_checksum (encode_header (h\<lparr>ph_checksum := 0\<rparr>) @ p @ rest) (ph_len h + 12) = Some c"
    by (subst compute_checksum_eq) (simp_all add: c_def)
  show ?thesis
    using l u nz ck
    by (auto simp: is_valid_sdio_rx_packet_def im put_header_def Let_def)
qed

lemma push_pkt_image:
  assumes "sdio_ok (h, p)"
  shows "sdio_push_pkt_to_queue b (encode_header (h\<lparr>ph_checksum := c\<rparr>) @ p) (ph_len h) 12 q =
    Some (prio_send (sdio_rx_handle b h p) q)"
  using assms by (simp add: sdio_push_pkt_to_queue_def sdio_rx_handle_def sdio_ok_def)

lemma push_data_step:
  assumes "sdio_ok (h, p)"
  shows "sdio_push_data_to_queue cks bufs i (sdio_image (h, p) @ rest) (12 + length p + n) q =
    (let q' = (if bufs i = 0 then q else prio_send (sdio_rx_handle (bufs i) h p) q) in
     if n = 0 then Some (H_OK, q') else sdio_push_data_to_queue cks bufs (i + 1) rest n q')"
proof -
  obtain c where v: "is_valid_sdio_rx_packet cks (sdio_image (h, p) @ rest) =
      Some (Some (ph_len h, 12), encode_header (h\<lparr>ph_checksum := c\<rparr>) @ p @ rest)"
    using valid_sdio_image [OF assms(1)] by blast
  have u: "unat (ph_len h) = length p" using sdio_ok_len [OF assms(1)] by simp
  have sl: "mem_slice (encode_header (h\<lparr>ph_checksum := c\<rparr>) @ p @ rest) 0 (length p + 12) =
      Some (encode_header (h\<lparr>ph_checksum := c\<rparr>) @ p)"
    by (simp add: mem_slice_def add.commute)
  show ?thesis
    using v sl
    by (subst sdio_push_data_to_queue.simps) (simp add: u push_pkt_image [OF assms(1)] Let_def)
qed

text \<open>
  The packets \<open>fs\<close> on the queue, the \<open>j\<close>-th in the buffer \<open>bufs j\<close>; a packet for which the pool has no buffer is
  skipped.
\<close>

primrec deliver :: "(nat \<Rightarrow> nat) \<Rightarrow> nat \<Rightarrow> (esp_payload_header \<times> bytes) list \<Rightarrow> prio_q \<Rightarrow> prio_q" where
  "deliver bufs i [] q = q"
| "deliver bufs i (f # fs) q = deliver bufs (i + 1) fs
     (if bufs i = 0 then q else prio_send (sdio_rx_handle (bufs i) (fst f) (snd f)) q)"

lemma push_data_images:
  assumes "fs \<noteq> []" "\<forall>f \<in> set fs. sdio_ok f"
  shows "sdio_push_data_to_queue cks bufs i (concat (map sdio_image fs) @ pad) (length (concat (map sdio_image fs))) q =
    Some (H_OK, deliver bufs i fs q)"
  using assms
proof (induction fs arbitrary: i q)
  case Nil
  then show ?case by simp
next
  case (Cons f fs)
  obtain h p where f: "f = (h, p)" by (cases f)
  have ok: "sdio_ok (h, p)" using Cons.prems(2) f by simp
  define n where "n = length (concat (map sdio_image fs))"
  define q1 where "q1 = (if bufs i = 0 then q else prio_send (sdio_rx_handle (bufs i) h p) q)"
  have step: "sdio_push_data_to_queue cks bufs i (concat (map sdio_image (f # fs)) @ pad)
      (length (concat (map sdio_image (f # fs)))) q =
    (if n = 0 then Some (H_OK, q1)
     else sdio_push_data_to_queue cks bufs (i + 1) (concat (map sdio_image fs) @ pad) n q1)"
    using push_data_step [where bufs = bufs and i = i and rest = "concat (map sdio_image fs) @ pad" and n = n and q = q, OF ok]
    by (simp add: f n_def q1_def Let_def)
  show ?case
  proof (cases "fs = []")
    case True
    then show ?thesis unfolding step by (simp add: n_def f q1_def)
  next
    case False
    then have "n \<noteq> 0" by (cases fs) (simp_all add: n_def)
    moreover have "sdio_push_data_to_queue cks bufs (i + 1) (concat (map sdio_image fs) @ pad) n q' =
        Some (H_OK, deliver bufs (i + 1) fs q')" for q'
      unfolding n_def using False Cons.prems(2) by (intro Cons.IH) auto
    ultimately show ?thesis unfolding step by (simp add: f q1_def)
  qed
qed

text \<open>The host has read \<open>h\<close> octets, and no stream waits to be split.\<close>

definition sdio_idle :: "nat \<Rightarrow> sdio_drv \<Rightarrow> bool" where
  "sdio_idle h st = (unat (sd_rx_count st) = h mod 0x100000 \<and> db_read_index (sd_dbuf st) = -1)"

text \<open>
  A batch: the registers, the packets the co-processor has written since the last read, and what the block read
  returns behind them. \<open>h\<close> is the number of octets the host has read so far.
\<close>

record sdio_batch =
  ba_intr :: u32
  ba_reg :: u32
  ba_pkts :: "(esp_payload_header \<times> bytes) list"
  ba_pad :: bytes

definition ba_len :: "sdio_batch \<Rightarrow> nat" where
  "ba_len b = length (concat (map sdio_image (ba_pkts b)))"

definition ba_data :: "sdio_batch \<Rightarrow> bytes" where
  "ba_data b = concat (map sdio_image (ba_pkts b)) @ ba_pad b"

definition good_batch :: "nat \<Rightarrow> sdio_batch \<Rightarrow> bool" where
  "good_batch h b = (bit (ba_intr b) 23 \<and> ba_pkts b \<noteq> [] \<and> (\<forall>f \<in> set (ba_pkts b). sdio_ok f) \<and>
     unat (ba_reg b AND ESP_SLAVE_LEN_MASK) = (h + ba_len b) mod 0x100000 \<and> ba_len b < 0x100000 \<and>
     length (ba_data b) = block_len (ba_len b))"

lemma block_len_ge: "n \<le> block_len n"
proof -
  have "(n + 511) div 512 * 512 + (n + 511) mod 512 = n + 511" by (rule div_mult_mod_eq)
  moreover have "(n + 511) mod 512 < 512" by simp
  ultimately have "n \<le> (n + 511) div 512 * 512" by linarith
  then show ?thesis by (simp add: block_len_def)
qed

lemma poke_front: "length d \<le> length buf \<Longrightarrow> poke 0 d buf = Some (d @ drop (length d) buf)"
  by (simp add: poke_def)

text \<open>
  The two receive tasks in any order: the read task handles an interrupt with its report of octets, whose block read
  succeeds, or the splitting task completes a turn, with the pool buffers \<open>bufs\<close>. The splitting task waits
  while it has not been triggered.
\<close>

datatype sdio_rx_event = Rx_Report sdio_batch | Rx_Split "nat \<Rightarrow> nat"

definition sdio_rx_event_step :: "bool \<Rightarrow> sdio_rx_event \<Rightarrow> sdio_drv \<Rightarrow> sdio_drv option" where
  "sdio_rx_event_step cks e st =
     (case e of
        Rx_Report b \<Rightarrow> sdio_read_step True (Some (ba_intr b, ba_reg b)) (Some (ba_data b)) st
      | Rx_Split bufs \<Rightarrow> if sd_xfer_sem st = 0 then Some st else sdio_data_to_rx_buf_step cks bufs st)"

primrec sdio_rx_events :: "bool \<Rightarrow> sdio_rx_event list \<Rightarrow> sdio_drv \<Rightarrow> sdio_drv option" where
  "sdio_rx_events cks [] st = Some st"
| "sdio_rx_events cks (e # es) st = do {
     st \<leftarrow> sdio_rx_event_step cks e st;
     sdio_rx_events cks es st
   }"

text \<open>
  What becomes of the reports, from the stream \<open>w\<close> that waits to be split: those that are split, with the buffers of
  that turn; those that are dropped, because a stream was still waiting or being split; the one that waits at the end.
\<close>

fun rx_split :: "sdio_batch option \<Rightarrow> sdio_rx_event list \<Rightarrow> (sdio_batch \<times> (nat \<Rightarrow> nat)) list" where
  "rx_split w [] = []"
| "rx_split None (Rx_Report b # es) = rx_split (Some b) es"
| "rx_split (Some w) (Rx_Report b # es) = rx_split (Some w) es"
| "rx_split None (Rx_Split bufs # es) = rx_split None es"
| "rx_split (Some w) (Rx_Split bufs # es) = (w, bufs) # rx_split None es"

fun rx_dropped :: "sdio_batch option \<Rightarrow> sdio_rx_event list \<Rightarrow> sdio_batch list" where
  "rx_dropped w [] = []"
| "rx_dropped None (Rx_Report b # es) = rx_dropped (Some b) es"
| "rx_dropped (Some w) (Rx_Report b # es) = b # rx_dropped (Some w) es"
| "rx_dropped w (Rx_Split bufs # es) = rx_dropped None es"

fun rx_waiting :: "sdio_batch option \<Rightarrow> sdio_rx_event list \<Rightarrow> sdio_batch option" where
  "rx_waiting w [] = w"
| "rx_waiting w (Rx_Report b # es) = rx_waiting (if w = None then Some b else w) es"
| "rx_waiting w (Rx_Split bufs # es) = rx_waiting None es"

primrec reports :: "sdio_rx_event list \<Rightarrow> sdio_batch list" where
  "reports [] = []"
| "reports (e # es) = (case e of Rx_Report b \<Rightarrow> [b] | Rx_Split bufs \<Rightarrow> []) @ reports es"

text \<open>The splitting task completes a turn between any two reports.\<close>

fun rx_paced :: "sdio_rx_event list \<Rightarrow> bool" where
  "rx_paced (Rx_Report b # Rx_Report b' # es) = False"
| "rx_paced (e # es) = rx_paced es"
| "rx_paced [] = True"

definition deliver_split :: "(sdio_batch \<times> (nat \<Rightarrow> nat)) list \<Rightarrow> prio_q \<Rightarrow> prio_q" where
  "deliver_split ts q = fold (\<lambda>(b, bufs). deliver bufs 0 (ba_pkts b)) ts q"

primrec good_batches :: "nat \<Rightarrow> sdio_batch list \<Rightarrow> bool" where
  "good_batches h [] = True"
| "good_batches h (b # bs) = (good_batch h b \<and> good_batches (h + ba_len b) bs)"

text \<open>The driver between two events: the stream that waits stands in the buffer that is not written next.\<close>

definition rx_rel :: "nat \<Rightarrow> sdio_batch option \<Rightarrow> sdio_drv \<Rightarrow> bool" where
  "rx_rel h w st \<longleftrightarrow> unat (sd_rx_count st) = h mod 0x100000 \<and>
     (case w of None \<Rightarrow> db_read_index (sd_dbuf st) = -1
      | Some b \<Rightarrow> ba_pkts b \<noteq> [] \<and> (\<forall>f \<in> set (ba_pkts b). sdio_ok f) \<and> sd_xfer_sem st = 1 \<and>
          db_read_index (sd_dbuf st) \<ge> 0 \<and> nat (db_read_index (sd_dbuf st)) \<noteq> db_write_index (sd_dbuf st) \<and>
          unat (db_read_len (sd_dbuf st)) = ba_len b \<and>
          (\<exists>stale. db_buf (sd_dbuf st) (nat (db_read_index (sd_dbuf st))) = ba_data b @ stale))"

lemma rx_report:
  assumes "rx_rel h w st" "good_batch h b"
  shows "\<exists>st'. sdio_rx_event_step cks (Rx_Report b) st = Some st' \<and>
    rx_rel (h + ba_len b) (if w = None then Some b else w) st' \<and> sd_from_slave st' = sd_from_slave st"
proof -
  let ?n = "ba_len b" and ?d = "ba_data b"
  let ?w = "db_write_index (sd_dbuf st)"
  have c: "unat (sd_rx_count st) = h mod 0x100000" using assms(1) by (simp add: rx_rel_def)
  have n0: "?n \<noteq> 0" using assms(2) by (cases "ba_pkts b") (auto simp: good_batch_def ba_len_def)
  define l where "l = sdio_get_len_from_slave (ba_reg b) (sd_rx_count st)"
  have l: "unat l = ?n" "l \<noteq> 0"
    using sdio_len_distance [of "ba_reg b" "h + ?n" "sd_rx_count st" h] c assms(2) n0
    by (auto simp: good_batch_def l_def)
  have ld: "length ?d = block_len ?n" using assms(2) by (simp add: good_batch_def)
  obtain db where db: "sdio_rx_get_buffer True ?n (sd_dbuf st) = Some db" "db_write_index db = ?w"
    "db_read_index db = db_read_index (sd_dbuf st)" "db_read_len db = db_read_len (sd_dbuf st)"
    "\<And>i. i \<noteq> ?w \<Longrightarrow> db_buf db i = db_buf (sd_dbuf st) i" "block_len ?n \<le> length (db_buf db ?w)"
    by (cases "block_len ?n > length (db_buf (sd_dbuf st) ?w)") (auto simp: sdio_rx_get_buffer_def Let_def)
  define buf where "buf = ?d @ drop (block_len ?n) (db_buf db ?w)"
  have pk: "poke 0 ?d (db_buf db ?w) = Some buf" using poke_front [of ?d "db_buf db ?w"] db(6) ld by (simp add: buf_def)
  have cnt: "unat ((sd_rx_count st + l) mod ESP_RX_BYTE_MAX) = (h + ?n) mod 0x100000"
  proof -
    have "unat (sd_rx_count st) < 0x100000" "unat l < 0x100000"
      using c assms(2) l by (simp_all add: good_batch_def)
    then have "unat (sd_rx_count st + l) = unat (sd_rx_count st) + unat l" by (subst unat_word_ariths) simp
    then show ?thesis using c l by (simp add: unat_mod mod_add_left_eq)
  qed
  have ok: "bit (ba_intr b) 23" "ba_pkts b \<noteq> []" "\<forall>f \<in> set (ba_pkts b). sdio_ok f" using assms(2) by (simp_all add: good_batch_def)
  show ?thesis
    using assms(1) ok l ld db pk cnt n0
    by (cases w) (auto simp: sdio_rx_event_step_def sdio_read_step_def l_def [symmetric] rx_rel_def Let_def buf_def)
qed

lemma rx_split_step:
  assumes "rx_rel h w st"
  shows "\<exists>st'. sdio_rx_event_step cks (Rx_Split bufs) st = Some st' \<and> rx_rel h None st' \<and>
    sd_from_slave st' = (case w of None \<Rightarrow> sd_from_slave st | Some b \<Rightarrow> deliver bufs 0 (ba_pkts b) (sd_from_slave st))"
proof (cases w)
  case None
  then show ?thesis
    using assms by (auto simp: sdio_rx_event_step_def sdio_data_to_rx_buf_step_def rx_rel_def Let_def)
next
  case (Some b)
  obtain stale where d: "db_buf (sd_dbuf st) (nat (db_read_index (sd_dbuf st))) = ba_data b @ stale"
    using assms Some by (auto simp: rx_rel_def)
  have "sdio_push_data_to_queue cks bufs 0 (ba_data b @ stale) (ba_len b) q = Some (H_OK, deliver bufs 0 (ba_pkts b) q)" for q
    using push_data_images [of "ba_pkts b" cks bufs 0 "ba_pad b @ stale" q] assms Some
    by (simp add: rx_rel_def ba_data_def ba_len_def)
  then show ?thesis
    using assms Some d by (auto simp: sdio_rx_event_step_def sdio_data_to_rx_buf_step_def rx_rel_def Let_def)
qed

lemma sdio_rx_deliver:
  assumes "rx_rel h w st" "good_batches h (reports es)"
  shows "\<exists>st'. sdio_rx_events cks es st = Some st' \<and> rx_rel (h + sum_list (map ba_len (reports es))) (rx_waiting w es) st' \<and>
    sd_from_slave st' = deliver_split (rx_split w es) (sd_from_slave st)"
  using assms
proof (induction es arbitrary: h w st)
  case Nil
  then show ?case by (simp add: deliver_split_def)
next
  case (Cons e es)
  show ?case
  proof (cases e)
    case (Rx_Report b)
    obtain st1 where 1: "sdio_rx_event_step cks e st = Some st1" "rx_rel (h + ba_len b) (if w = None then Some b else w) st1"
      "sd_from_slave st1 = sd_from_slave st"
      using rx_report [OF Cons.prems(1)] Cons.prems(2) Rx_Report by fastforce
    show ?thesis using Cons.IH [OF 1(2)] Cons.prems(2) 1 Rx_Report by (cases w) (auto simp: add.assoc)
  next
    case (Rx_Split bufs)
    obtain st1 where 1: "sdio_rx_event_step cks e st = Some st1" "rx_rel h None st1"
      "sd_from_slave st1 = (case w of None \<Rightarrow> sd_from_slave st | Some b \<Rightarrow> deliver bufs 0 (ba_pkts b) (sd_from_slave st))"
      using rx_split_step [OF Cons.prems(1)] Rx_Split by blast
    show ?thesis using Cons.IH [OF 1(2)] Cons.prems(2) 1 Rx_Split by (cases w) (auto simp: deliver_split_def)
  qed
qed

text \<open>Every report is split, dropped or waiting; with a turn of the splitting task between two reports none is dropped.\<close>

lemma rx_all_reports:
  "mset (map fst (rx_split w es)) + mset (rx_dropped w es) + mset (case rx_waiting w es of None \<Rightarrow> [] | Some b \<Rightarrow> [b]) =
   mset (case w of None \<Rightarrow> [] | Some b \<Rightarrow> [b]) + mset (reports es)"
proof (induction w es rule: rx_split.induct)
  case (3 w b es)
  then show ?case by (simp add: union_assoc)
qed simp_all

lemma rx_paced_reports:
  assumes "rx_paced es"
  shows "map fst (rx_split None es) @ (case rx_waiting None es of None \<Rightarrow> [] | Some b \<Rightarrow> [b]) = reports es"
  using assms by (induction es rule: rx_paced.induct) (auto split: sdio_rx_event.splits)

lemma sdio_idle_rel: "sdio_idle h st = rx_rel h None st"
  by (simp add: sdio_idle_def rx_rel_def)

section \<open>Lemmas: the defects of the driver\<close>

text \<open>
  The number of free buffers survives a shutdown: after a new start the host sends to a co-processor that has
  not provided any buffer yet, without asking.
\<close>

lemma sdio_stale_credit:
  assumes "sdio_bus_init (\<lambda>_. True) (snd (sdio_bus_deinit st)) = (True, fr, st')" "sd_avail st = 1"
  shows "sdio_is_write_buffer_available 1 (sd_tx_count st') (sd_avail st') [] = Some (True, 0)"
  using assms by (auto simp: sdio_bus_init_def sdio_bus_deinit_def sdio_is_write_buffer_available_def Let_def)

text \<open>
  \<open>tx_needed\<close> is never set again: once a turn has found no packet, every later packet is sent with the length
  of an older one.
\<close>

lemma tx_done_needed [simp]: "sd_tx_needed (snd (sdio_tx_done f len s)) = sd_tx_needed s"
  by (simp add: sdio_tx_done_def Let_def)

lemma transmit_needed: "sdio_transmit regs wr f len sb s = Some r \<Longrightarrow> sd_tx_needed (snd r) = sd_tx_needed s"
  by (auto simp: sdio_transmit_def Let_def bind_eq_Some_conv split: if_splits)

lemma tx_needed_sticks:
  assumes "sdio_write_step cks mem regs wr st = Some r" "\<not> sd_tx_needed st"
  shows "\<not> sd_tx_needed (snd r)"
  using assms
  by (auto simp: sdio_write_step_def sdio_write_packet_def Let_def bind_eq_Some_conv transmit_needed split: if_splits prod.splits)

section \<open>Runs of the driver\<close>

text \<open>
  The driver from a fresh start, with the number \<open>g\<close> of buffers the co-processor has provided. The co-processor
  never has 4096 unused buffers; apart from that it may provide buffers at any time, also while the host reads the
  token register.
\<close>

inductive sdio_run :: "bool \<Rightarrow> nat \<Rightarrow> sdio_drv \<Rightarrow> bool" for cks where
  Init: "sdio_bus_init ok st = (True, fr, st') \<Longrightarrow> sd_avail st = 0 \<Longrightarrow> sd_bus st = [] \<Longrightarrow> g < 0x1000 \<Longrightarrow> sdio_run cks g st'"
| Queue: "sdio_run cks g st \<Longrightarrow> sdio_esp_hosted_tx up ty num p len zc b fn fl st = (r, fr, st') \<Longrightarrow> sdio_run cks g st'"
| Write: "sdio_run cks g st \<Longrightarrow> g \<le> g' \<Longrightarrow> g' - used st < 0x1000 \<Longrightarrow> tokens_ok g g' regs \<Longrightarrow>
    sdio_write_step cks mem regs wr st = Some (fr, st') \<Longrightarrow> sdio_run cks g' st'"
| Read: "sdio_run cks g st \<Longrightarrow> sdio_read_step mem rg data st = Some st' \<Longrightarrow> sdio_run cks g st'"
| Transfer: "sdio_run cks g st \<Longrightarrow> sdio_data_to_rx_buf_step cks bufs st = Some st' \<Longrightarrow> sdio_run cks g st'"
| Dispatch: "sdio_run cks g st \<Longrightarrow> sdio_process_rx_step m sb qok chan (st, ll) = Some (act, fr, st', ll') \<Longrightarrow> sdio_run cks g st'"

lemma credit_inv_cong:
  "sd_bus s' = sd_bus s \<Longrightarrow> sd_tx_count s' = sd_tx_count s \<Longrightarrow> sd_avail s' = sd_avail s \<Longrightarrow>
   credit_inv g (used s') s' = credit_inv g (used s) s"
  by (simp add: credit_inv_def used_def)

lemma if_Some_elim:
  "(if b then Some x else Some y) = Some z \<Longrightarrow> (z = x \<Longrightarrow> R) \<Longrightarrow> (z = y \<Longrightarrow> R) \<Longrightarrow> R"
  by (auto split: if_split_asm)

lemma read_step_tx:
  assumes "sdio_read_step mem regs data st = Some st'"
  shows "sd_bus st' = sd_bus st \<and> sd_tx_count st' = sd_tx_count st \<and> sd_avail st' = sd_avail st"
proof (cases regs)
  case None
  then show ?thesis using assms by (simp add: sdio_read_step_def)
next
  case (Some r)
  obtain intr len_reg where r: "r = (intr, len_reg)" by (cases r)
  define s where "s = (if bit intr 6 then (if bit intr 7 then st\<lparr>sd_throttle := True\<rparr> else st)\<lparr>sd_throttle := False\<rparr>
    else if bit intr 7 then st\<lparr>sd_throttle := True\<rparr> else st)"
  have s: "sd_bus s = sd_bus st" "sd_tx_count s = sd_tx_count st" "sd_avail s = sd_avail st" by (simp_all add: s_def)
  let ?l = "sdio_get_len_from_slave len_reg (sd_rx_count s)"
  note u = assms [unfolded Some r sdio_read_step_def option.case prod.case Let_def s_def [symmetric]]
  have "sd_bus st' = sd_bus s \<and> sd_tx_count st' = sd_tx_count s \<and> sd_avail st' = sd_avail s"
  proof (cases "\<not> bit intr 23 \<or> ?l = 0")
    case True
    then show ?thesis using u by simp
  next
    case False
    note u = u [unfolded if_not_P [OF False] bind_eq_Some_conv]
    show ?thesis
    proof (cases data)
      case None
      then show ?thesis using u by force
    next
      case (Some d)
      show ?thesis
        using u unfolding Some option.case
        by (elim exE conjE) (simp only: option.distinct if_False; erule if_Some_elim; simp)
    qed
  qed
  then show ?thesis using s by simp
qed

lemma transfer_step_tx:
  "sdio_data_to_rx_buf_step cks bufs st = Some st' \<Longrightarrow>
     sd_bus st' = sd_bus st \<and> sd_tx_count st' = sd_tx_count st \<and> sd_avail st' = sd_avail st"
  by (auto simp: sdio_data_to_rx_buf_step_def Let_def bind_eq_Some_conv split: if_splits)

lemmas other_steps_tx = read_step_tx transfer_step_tx

lemma process_rx_tx:
  "sdio_process_rx_step m sb qok chan (st, ll) = Some (act, fr, st', ll') \<Longrightarrow>
     sd_bus st' = sd_bus st \<and> sd_tx_count st' = sd_tx_count st \<and> sd_avail st' = sd_avail st"
  by (auto simp: sdio_process_rx_step_def Let_def bind_eq_Some_conv split: option.splits if_splits prod.splits)

lemma sdio_run_credit: "sdio_run cks g st \<Longrightarrow> credit_inv g (used st) st"
proof (induction rule: sdio_run.induct)
  case (Init ok st fr st' g)
  then show ?case by (auto simp: sdio_bus_init_def Let_def credit_inv_def used_def split: if_splits)
next
  case (Queue g st up ty num p len zc b fn fl r fr st')
  then show ?case using credit_inv_cong [of st' st g] by (auto simp: sdio_esp_hosted_tx_def Let_def split: if_splits)
next
  case (Write g st g' regs mem wr fr st')
  then show ?case using write_step_credit by blast
next
  case (Read g st mem rg data st')
  then show ?case using credit_inv_cong [of st' st g] other_steps_tx(1) by blast
next
  case (Transfer g st bufs st')
  then show ?case using credit_inv_cong [of st' st g] other_steps_tx(2) by blast
next
  case (Dispatch g st m sb qok chan ll act fr st' ll')
  then show ?case using credit_inv_cong [of st' st g] process_rx_tx by blast
qed

section \<open>Properties\<close>

text \<open>
  C17: whatever the driver does from a fresh start, it never uses more buffers of the co-processor than the
  co-processor has provided, although both sides cnt them modulo 4096 and the host reads the counter only when
  it needs to; the number of free buffers it remembers is never too high.
\<close>
theorem sdio_flow_control:
  assumes "sdio_run cks g st"
  shows "used st \<le> g \<and> used st + unat (sd_avail st) \<le> g \<and> unat (sd_tx_count st) = used st mod 4096"
  using sdio_run_credit [OF assms] by (auto simp: credit_inv_def)

text \<open>
  C18: however the read task and the splitting task take turns, and whatever buffers the pool has. Each time the
  co-processor reports octets (and the block read succeeds), the host reads and counts exactly those it has not read before,
  across the roll-over of the 20-bit counter. A report that finds no stream waiting is split by the next turn of the
  splitting task, once: its packets are queued whole, in order and by priority, each in a buffer of its own, but for
  those the pool has no buffer for. A report that comes while a stream waits or is being split is dropped, with
  its octets counted; every report is split, dropped or, as the last accepted one, waiting. If the splitting task completes
  a turn between any two reports, none is dropped and they are split in order.
\<close>
theorem sdio_stream_delivery:
  assumes "sdio_idle h st" "good_batches h (reports es)"
  shows "\<exists>st'. sdio_rx_events cks es st = Some st' \<and>
    sd_from_slave st' = deliver_split (rx_split None es) (sd_from_slave st) \<and>
    unat (sd_rx_count st') = (h + sum_list (map ba_len (reports es))) mod 2 ^ 20 \<and>
    mset (reports es) = mset (map fst (rx_split None es)) + mset (rx_dropped None es) +
      mset (case rx_waiting None es of None \<Rightarrow> [] | Some b \<Rightarrow> [b]) \<and>
    (rx_waiting None es = None \<longrightarrow> sdio_idle (h + sum_list (map ba_len (reports es))) st') \<and>
    (rx_paced es \<longrightarrow> rx_dropped None es = [] \<and>
      reports es = map fst (rx_split None es) @ (case rx_waiting None es of None \<Rightarrow> [] | Some b \<Rightarrow> [b]))"
proof -
  obtain st' where r: "sdio_rx_events cks es st = Some st'"
    "rx_rel (h + sum_list (map ba_len (reports es))) (rx_waiting None es) st'"
    "sd_from_slave st' = deliver_split (rx_split None es) (sd_from_slave st)"
    using sdio_rx_deliver [of h None st es cks] assms by (auto simp: sdio_idle_rel)
  have m: "mset (reports es) = mset (map fst (rx_split None es)) + mset (rx_dropped None es) +
      mset (case rx_waiting None es of None \<Rightarrow> [] | Some b \<Rightarrow> [b])"
    using rx_all_reports [of None es] by simp
  have "mset (rx_dropped None es) = {#}" if "rx_paced es"
    using m arg_cong [OF rx_paced_reports [OF that], of mset] by simp
  then show ?thesis
    using r m rx_paced_reports [of es] by (auto simp: rx_rel_def sdio_idle_rel)
qed

definition demo_sdio :: sdio_drv where
  "demo_sdio = \<lparr>sd_tx_count = 0, sd_rx_count = 0xFFFF0, sd_avail = 0, sd_start = False, sd_to_slave = empty_prio_q,
     sd_from_slave = empty_prio_q, sd_dbuf = reset_double_buf, sd_xfer_sem = 0, sd_throttle = False,
     sd_tx_needed = True, sd_len = 0, sd_flag = 0, sd_handle = zero_handle, sd_bus = []\<rparr>"

definition demo_pkt :: "esp_payload_header \<times> bytes" where
  "demo_pkt = (zero_header\<lparr>ph_if_type := 3, ph_len := 2, ph_offset := 12\<rparr>, [7, 9])"

definition demo_batch :: "u32 \<Rightarrow> sdio_batch" where
  "demo_batch reg = \<lparr>ba_intr = 0x800000, ba_reg = reg, ba_pkts = [demo_pkt], ba_pad = replicate 498 0\<rparr>"

lemma demo_batch_len: "ba_len (demo_batch r) = 14"
  by (simp add: ba_len_def demo_batch_def demo_pkt_def sdio_image_def)

lemma demo_good: "good_batch 0xFFFF0 (demo_batch 0xFFFFE)" "good_batch 0xFFFFE (demo_batch 0xABC0000C)"
proof -
  have b: "bit (0x800000 :: u32) 23" by (simp add: bit_iff_odd_drop_bit)
  have o: "sdio_ok demo_pkt" by (simp add: sdio_ok_def demo_pkt_def)
  have d: "length (ba_data (demo_batch r)) = block_len 14" for r
    by (simp add: ba_data_def demo_batch_def demo_pkt_def sdio_image_def block_len_def)
  show "good_batch 0xFFFF0 (demo_batch 0xFFFFE)"
    using b o d [of "0xFFFFE"] demo_batch_len [of "0xFFFFE"] unfolding good_batch_def and_mask_nat
    by (simp add: demo_batch_def and_mask_nat)
  show "good_batch 0xFFFFE (demo_batch 0xABC0000C)"
    using b o d [of "0xABC0000C"] demo_batch_len [of "0xABC0000C"] unfolding good_batch_def and_mask_nat
    by (simp add: demo_batch_def and_mask_nat)
qed

text \<open>Two reports with the splitting task behind: the second is counted and lost.\<close>

definition demo_events :: "sdio_rx_event list" where
  "demo_events = [Rx_Report (demo_batch 0xFFFFE), Rx_Report (demo_batch 0xABC0000C), Rx_Split (\<lambda>j. j + 1)]"

theorem sdio_stream_delivery_witness:
  "\<exists>st'. sdio_rx_events True demo_events demo_sdio = Some st' \<and>
    sd_from_slave st' = deliver (\<lambda>j. j + 1) 0 [demo_pkt] empty_prio_q \<and>
    unat (sd_rx_count st') = (0xFFFF0 + 28) mod 2 ^ 20 \<and> rx_dropped None demo_events = [demo_batch 0xABC0000C]"
proof -
  have i: "sdio_idle 0xFFFF0 demo_sdio" by (simp add: sdio_idle_def demo_sdio_def reset_double_buf_def)
  have rs: "reports demo_events = [demo_batch 0xFFFFE, demo_batch 0xABC0000C]"
    "rx_split None demo_events = [(demo_batch 0xFFFFE, \<lambda>j. j + 1)]" "rx_dropped None demo_events = [demo_batch 0xABC0000C]"
    by (simp_all add: demo_events_def)
  have g: "good_batches 0xFFFF0 (reports demo_events)"
    using demo_good by (simp add: demo_batch_len rs)
  have e: "ba_pkts (demo_batch r) = [demo_pkt]" for r by (simp add: demo_batch_def)
  have q: "sd_from_slave demo_sdio = empty_prio_q" by (simp add: demo_sdio_def)
  show ?thesis
    using sdio_stream_delivery [OF i g, of True] by (auto simp: rs e q deliver_split_def demo_batch_len)
qed

lemma sdio_demo_run: "sdio_run True 3 (demo_sdio\<lparr>sd_rx_count := 0\<rparr>)"
proof (rule sdio_run.Init)
  show "sdio_bus_init (\<lambda>_. True) demo_sdio = (True, [], demo_sdio\<lparr>sd_rx_count := 0\<rparr>)"
    by (simp add: sdio_bus_init_def demo_sdio_def Let_def)
qed (simp_all add: demo_sdio_def)

theorem sdio_flow_control_witness:
  "used (demo_sdio\<lparr>sd_rx_count := 0\<rparr>) \<le> 3"
  using sdio_flow_control [OF sdio_demo_run] by simp

end
