(* ===== verification/Slave_Uart.thy ===== *)
theory Slave_Uart
  imports Slave_Core
begin

unbundle bit_operations_syntax

text \<open>
  The UART driver of the co-processor (\<open>src/slave/main/uart_slave_api.c\<close>): the receive task with its
  three priority queues, the read and write operations the main module uses, and the start-up event.

  \<open>uart_read_bytes\<close> belongs to the platform: it is the parameter \<open>rd\<close>, and what the theorems need of it
  is the contract \<open>byte_source\<close>. \<open>rd\<close> may return fewer octets than asked; \<open>None\<close> is a read that never
  returns.
\<close>

section \<open>State\<close>

record slave_uart =
  su_serial :: "interface_buffer_handle list"
  su_bt :: "interface_buffer_handle list"
  su_others :: "interface_buffer_handle list"
  su_sem :: nat
  su_events :: "host_interrupt list"

abbreviation (input) BUFFER_SIZE :: nat where "BUFFER_SIZE \<equiv> 1600"

definition su_push :: "interface_buffer_handle \<Rightarrow> slave_uart \<Rightarrow> slave_uart" where
  "su_push bh su =
     (let su = (if bh_if_type bh = if_code ESP_SERIAL_IF then su\<lparr>su_serial := su_serial su @ [bh]\<rparr>
                else if bh_if_type bh = if_code ESP_HCI_IF then su\<lparr>su_bt := su_bt su @ [bh]\<rparr>
                else su\<lparr>su_others := su_others su @ [bh]\<rparr>)
      in su\<lparr>su_sem := su_sem su + 1\<rparr>)"

section \<open>Receive\<close>

definition rx_flag_event :: "u8 \<Rightarrow> host_interrupt list" where
  "rx_flag_event flags =
     (if flags AND FLAG_POWER_SAVE_STARTED \<noteq> 0 then [ESP_POWER_SAVE_ON]
      else if flags AND FLAG_POWER_SAVE_STOPPED \<noteq> 0 then [ESP_POWER_SAVE_OFF] else [])"

text \<open>
  The second half of a turn, once the payload \<open>pb\<close> was read: flags, checksum, and delivery in the
  receive buffer \<open>buf\<close> (\<open>0\<close>: none left, the assertion fails). The checksum field of the delivered
  packet has been cleared.
\<close>

definition uart_rx_finish ::
  "nat \<Rightarrow> bytes \<Rightarrow> esp_payload_header \<Rightarrow> bytes \<Rightarrow> slave_uart \<Rightarrow> slave_uart option" where
  "uart_rx_finish buf hb header pb su =
     (let len = unat (ph_len header) in
      if length pb < len then Some su
      else
        let su = su\<lparr>su_events := su_events su @ rx_flag_event (ph_flags header)\<rparr>;
            scratch = put_header (header\<lparr>ph_checksum := 0\<rparr>) (hb @ pb)
        in case compute_checksum scratch (of_nat (len + HDR_SIZE)) of
             None \<Rightarrow> None
           | Some checksum \<Rightarrow>
               if checksum \<noteq> ph_checksum header then Some su
               else if buf = 0 then None
               else Some (su_push (zero_handle\<lparr>bh_payload := Some (take (len + HDR_SIZE) scratch),
                      bh_payload_len := of_nat (len + HDR_SIZE), bh_if_type := ucast (ph_if_type header),
                      bh_if_num := ucast (ph_if_num header), bh_free := True, bh_priv := buf\<rparr>) su))"

text \<open>One turn of the loop of \<open>uart_rx_task\<close>.\<close>

definition uart_rx_step ::
  "(nat \<Rightarrow> 's \<Rightarrow> (bytes \<times> 's) option) \<Rightarrow> nat \<Rightarrow> 's \<times> slave_uart \<Rightarrow> ('s \<times> slave_uart) option" where
  "uart_rx_step rd buf c = do {
     let s = fst c; let su = snd c;
     (hb, s) \<leftarrow> rd HDR_SIZE s;
     if length hb < HDR_SIZE then Some (s, su)
     else do {
       header \<leftarrow> decode_header hb;
       let len = unat (ph_len header);
       if unat (ph_offset header) \<noteq> HDR_SIZE then Some (s, su)
       else if len + HDR_SIZE > BUFFER_SIZE then Some (s, su)
       else do {
         (pb, s) \<leftarrow> (if len \<noteq> 0 then rd len s else Some ([], s));
         su \<leftarrow> uart_rx_finish buf hb header pb su;
         Some (s, su)
       }
     }
   }"

text \<open>\<open>h_uart_read\<close>: \<open>None\<close> while the semaphore is taken; a negative result is \<open>ESP_FAIL\<close>.\<close>

definition h_uart_read ::
  "if_state option \<Rightarrow> slave_uart \<Rightarrow> ((int \<times> interface_buffer_handle option) \<times> slave_uart) option" where
  "h_uart_read handle su =
     (if handle \<noteq> Some IF_ACTIVE then Some ((-1, None), su)
      else if su_sem su = 0 then None
      else
        let su = su\<lparr>su_sem := su_sem su - 1\<rparr> in
        (case su_serial su of
           b # q \<Rightarrow> Some ((int (unat (bh_payload_len b)), Some b), su\<lparr>su_serial := q\<rparr>)
         | [] \<Rightarrow>
           (case su_bt su of
              b # q \<Rightarrow> Some ((int (unat (bh_payload_len b)), Some b), su\<lparr>su_bt := q\<rparr>)
            | [] \<Rightarrow>
              (case su_others su of
                 b # q \<Rightarrow> Some ((int (unat (bh_payload_len b)), Some b), su\<lparr>su_others := q\<rparr>)
               | [] \<Rightarrow> Some ((-1, None), su)))))"

section \<open>Transmit\<close>

text \<open>
  \<open>h_uart_write\<close>. \<open>flow\<close> is \<open>wifi_flow_ctrl_en\<close>; \<open>mem\<close>: a transmit buffer is available for the size (the
  pool refuses more than a block); \<open>wr\<close> is the number of octets \<open>uart_write_bytes\<close> reports. The result is
  the return value and the frame written.
\<close>

definition h_uart_write ::
  "bool \<Rightarrow> (bytes \<Rightarrow> int) \<Rightarrow> if_state option \<Rightarrow> 2 word \<Rightarrow> interface_buffer_handle option \<Rightarrow> (int \<times> bytes list) option" where
  "h_uart_write mem wr handle flow buf_handle =
     (case (handle, buf_handle) of
        (Some hst, Some bh) \<Rightarrow>
          if hst \<noteq> IF_ACTIVE then Some (-1, [])
          else if flow = 0 \<and> (bh_payload_len bh = 0 \<or> bh_payload bh = None) then Some (-1, [])
          else
            let total_len = unat (bh_payload_len bh) + HDR_SIZE in
            if \<not> mem \<or> total_len > BUFFER_SIZE then Some (-1, [])
            else do {
              payload \<leftarrow> (if bh_payload_len bh = 0 then Some []
                          else bh_payload bh \<bind> (\<lambda>p. mem_slice p 0 (unat (bh_payload_len bh))));
              let header = zero_header\<lparr>ph_if_type := ucast (bh_if_type bh), ph_if_num := ucast (bh_if_num bh),
                     ph_len := bh_payload_len bh, ph_offset := of_nat HDR_SIZE, ph_seq_num := bh_seq_num bh,
                     ph_flags := bh_flag bh, ph_throttle_cmd := flow\<rparr>;
              sendbuf \<leftarrow> poke HDR_SIZE payload (put_header header (replicate total_len 0));
              checksum \<leftarrow> compute_checksum sendbuf (of_nat total_len);
              let frame = put_header (header\<lparr>ph_checksum := checksum\<rparr>) sendbuf;
              if wr frame < 0 \<or> wr frame \<noteq> int total_len then Some (-1, [frame])
              else Some (int (unat (bh_payload_len bh)), [frame])
            }
      | _ \<Rightarrow> Some (-1, []))"

section \<open>Start-up event\<close>

abbreviation (input) ESP_PRIV_CAPABILITY :: u8 where "ESP_PRIV_CAPABILITY \<equiv> 0x11"
abbreviation (input) ESP_PRIV_FIRMWARE_CHIP_ID :: u8 where "ESP_PRIV_FIRMWARE_CHIP_ID \<equiv> 0x12"
abbreviation (input) ESP_PRIV_TEST_RAW_TP :: u8 where "ESP_PRIV_TEST_RAW_TP \<equiv> 0x13"
abbreviation (input) ESP_PRIV_RX_Q_SIZE :: u8 where "ESP_PRIV_RX_Q_SIZE \<equiv> 0x14"
abbreviation (input) ESP_PRIV_TX_Q_SIZE :: u8 where "ESP_PRIV_TX_Q_SIZE \<equiv> 0x15"
abbreviation (input) ESP_PRIV_CAP_EXT :: u8 where "ESP_PRIV_CAP_EXT \<equiv> 0x16"
abbreviation (input) ESP_PRIV_FIRMWARE_VERSION :: u8 where "ESP_PRIV_FIRMWARE_VERSION \<equiv> 0x17"
abbreviation (input) ESP_PACKET_TYPE_EVENT :: u8 where "ESP_PACKET_TYPE_EVENT \<equiv> 0x33"

text \<open>\<open>chip\<close>, \<open>rxq\<close>, \<open>txq\<close> and \<open>fw\<close> are the build's chip identifier, queue sizes and firmware version.\<close>

definition startup_tlvs :: "u8 \<Rightarrow> u8 \<Rightarrow> u8 \<Rightarrow> u32 \<Rightarrow> u8 \<Rightarrow> u32 \<Rightarrow> u8 \<Rightarrow> bytes" where
  "startup_tlvs chip rxq txq fw cap ext_cap raw_tp_cap =
     [ESP_PRIV_FIRMWARE_CHIP_ID, 1, chip] @ [ESP_PRIV_CAPABILITY, 1, cap AND 0xFF] @
     [ESP_PRIV_CAP_EXT, 4] @ le32_bytes ext_cap @
     [ESP_PRIV_TEST_RAW_TP, 1, raw_tp_cap] @ [ESP_PRIV_RX_Q_SIZE, 1, rxq] @ [ESP_PRIV_TX_Q_SIZE, 1, txq] @
     [ESP_PRIV_FIRMWARE_VERSION, 4] @ le32_bytes fw"

text \<open>
  \<open>generate_startup_event\<close>: the frame written to the bus. The buffer it is built in is taken from the
  transmit pool and never given back; the second component is the list of buffers released.
\<close>

definition generate_startup_event ::
  "u8 \<Rightarrow> u8 \<Rightarrow> u8 \<Rightarrow> u32 \<Rightarrow> u8 \<Rightarrow> u32 \<Rightarrow> u8 \<Rightarrow> nat \<Rightarrow> (bytes \<times> nat list) option" where
  "generate_startup_event chip rxq txq fw cap ext_cap raw_tp_cap buf =
     (if buf = 0 then None
      else do {
        let tlvs = startup_tlvs chip rxq txq fw cap ext_cap raw_tp_cap;
        let len = (of_nat (length tlvs) :: u16);
        let event = ESP_PRIV_EVENT_INIT # ucast len # tlvs;
        let len = len + 2;
        let header = zero_header\<lparr>ph_if_type := ucast (if_code ESP_PRIV_IF), ph_offset := of_nat HDR_SIZE,
               ph_pkt_type := ESP_PACKET_TYPE_EVENT, ph_len := len\<rparr>;
        payload \<leftarrow> poke HDR_SIZE event (put_header header (replicate 512 0));
        checksum \<leftarrow> compute_checksum payload (len + of_nat HDR_SIZE);
        frame \<leftarrow> mem_slice (put_header (header\<lparr>ph_checksum := checksum\<rparr>) payload) 0 (unat len + HDR_SIZE);
        Some (frame, [])
      })"

section \<open>Lemmas\<close>

definition su_inv :: "slave_uart \<Rightarrow> bool" where
  "su_inv su = (su_sem su = length (su_serial su) + length (su_bt su) + length (su_others su))"

lemma su_push_inv: "su_inv su \<Longrightarrow> su_inv (su_push bh su)"
  by (simp add: su_inv_def su_push_def Let_def)

lemma uart_rx_finish_inv:
  assumes "uart_rx_finish buf hb h pb su = Some su'" "su_inv su"
  shows "su_inv su'"
proof -
  have "su_inv (su\<lparr>su_events := es\<rparr>)" for es using assms(2) by (simp add: su_inv_def)
  then show ?thesis
    using assms by (auto simp: uart_rx_finish_def Let_def su_push_inv split: if_splits option.splits)
qed

lemma uart_rx_step_inv:
  assumes "uart_rx_step rd buf (s, su) = Some (s', su')" "su_inv su"
  shows "su_inv su'"
  using assms by (auto simp: uart_rx_step_def Let_def bind_eq_Some_conv split: if_splits
      intro: uart_rx_finish_inv)

lemma uart_rx_step_frame:
  assumes src: "byte_source rd avail ready" and r: "ready s" "avail s = seal_frame h p @ rest"
    and h: "ph_offset h = 12" "ph_len h = of_nat (length p)" "length p \<le> 1588" "buf \<noteq> 0"
  shows "\<exists>s'. uart_rx_step rd buf (s, su) = Some (s', su_push (zero_handle\<lparr>
      bh_payload := Some (encode_header (h\<lparr>ph_checksum := 0\<rparr>) @ p), bh_payload_len := of_nat (12 + length p),
      bh_if_type := ucast (ph_if_type h), bh_if_num := ucast (ph_if_num h), bh_free := True, bh_priv := buf\<rparr>)
      (su\<lparr>su_events := su_events su @ rx_flag_event (ph_flags h)\<rparr>)) \<and> avail s' = rest \<and> ready s'"
proof -
  let ?h = "sealed h p"
  have u: "unat (of_nat (length p) :: u16) = length p" "unat (of_nat (length p + 12) :: u16) = length p + 12"
    using h by (simp_all only: unat_of_nat) simp_all
  obtain s1 s2 where rd: "rd 12 s = Some (encode_header ?h, s1)" "rd (length p) s1 = Some (p, s2)"
    "ready s1" "avail s2 = rest" "ready s2"
    using byte_source.read_header_payload [OF src r(1), of "encode_header ?h" p rest] r(2)
    by (auto simp: seal_frame_split)
  have av1: "avail s1 = p @ rest"
    using byte_source.read_block [OF src r(1), of "encode_header ?h" "p @ rest"] r(2) rd(1)
    by (auto simp: seal_frame_split)
  have ck: "compute_checksum (put_header (?h\<lparr>ph_checksum := 0\<rparr>) (encode_header ?h @ p)) (of_nat (length p + 12)) =
      Some (ph_checksum ?h)"
    using u by (subst compute_checksum_eq) (simp_all add: put_header_def)
  have pt: "take (length p + 12) (put_header (?h\<lparr>ph_checksum := 0\<rparr>) (encode_header ?h @ p)) =
      encode_header (h\<lparr>ph_checksum := 0\<rparr>) @ p"
    by (simp add: put_header_def)
  have o12: "unat (12 :: u16) = 12" by simp
  show ?thesis
  proof (cases "p = []")
    case True
    then show ?thesis
      using h rd(1,3) av1 ck pt by (simp add: uart_rx_step_def uart_rx_finish_def Let_def del: octet_sum_append)
  next
    case False
    then show ?thesis
      using h rd u ck pt o12
      by (simp add: uart_rx_step_def uart_rx_finish_def Let_def add.commute [of 12] del: octet_sum_append of_nat_add)
  qed
qed

lemma h_uart_write_frame:
  assumes "bh_payload bh = Some q" "unat (bh_payload_len bh) \<le> length q" "bh_payload_len bh \<noteq> 0"
    "unat (bh_payload_len bh) \<le> 1588"
  shows "\<exists>h. h_uart_write True (\<lambda>f. int (length f)) (Some IF_ACTIVE) flow (Some bh) =
      Some (int (unat (bh_payload_len bh)), [seal_frame h (take (unat (bh_payload_len bh)) q)]) \<and>
    h = zero_header\<lparr>ph_if_type := ucast (bh_if_type bh), ph_if_num := ucast (bh_if_num bh),
       ph_len := bh_payload_len bh, ph_offset := 12, ph_seq_num := bh_seq_num bh,
       ph_flags := bh_flag bh, ph_throttle_cmd := flow\<rparr>"
proof -
  let ?n = "unat (bh_payload_len bh)" and ?p = "take (unat (bh_payload_len bh)) q"
  define h where "h = zero_header\<lparr>ph_if_type := ucast (bh_if_type bh), ph_if_num := ucast (bh_if_num bh),
       ph_len := bh_payload_len bh, ph_offset := 12, ph_seq_num := bh_seq_num bh,
       ph_flags := bh_flag bh, ph_throttle_cmd := flow\<rparr>"
  have c0: "h\<lparr>ph_checksum := 0\<rparr> = h" by (simp add: h_def zero_header_def)
  have lp: "length ?p = ?n" using assms(2) by simp
  have u: "unat (of_nat (?n + 12) :: u16) = ?n + 12"
    using assms(4) by (simp only: unat_of_nat) simp
  have sl: "mem_slice q 0 ?n = Some ?p" using assms(2) by (simp add: mem_slice_def)
  have pk: "poke 12 ?p (put_header h (replicate (?n + 12) 0)) = Some (encode_header h @ ?p)"
    using lp by (simp add: poke_def put_header_def)
  have ck: "compute_checksum (encode_header h @ ?p) (of_nat (?n + 12)) = Some (octet_sum (encode_header h @ ?p))"
    using u lp by (subst compute_checksum_eq) simp_all
  have fr: "put_header (h\<lparr>ph_checksum := octet_sum (encode_header h @ ?p)\<rparr>) (encode_header h @ ?p) = seal_frame h ?p"
    using c0 by (simp add: put_header_def seal_frame_split)
  have "h_uart_write True (\<lambda>f. int (length f)) (Some IF_ACTIVE) flow (Some bh) = Some (int ?n, [seal_frame h ?p])"
    using assms lp
    by (simp add: h_uart_write_def Let_def sl h_def [symmetric] pk ck fr del: octet_sum_append of_nat_add)
  then show ?thesis using h_def by blast
qed

lemma length_startup_tlvs [simp]: "length (startup_tlvs chip rxq txq fw cap ext_cap raw) = 27"
  by (simp add: startup_tlvs_def le32_bytes_def)

definition startup_header :: esp_payload_header where
  "startup_header = zero_header\<lparr>ph_if_type := ucast (if_code ESP_PRIV_IF), ph_offset := 12,
     ph_pkt_type := ESP_PACKET_TYPE_EVENT, ph_len := 29\<rparr>"

lemma startup_frame:
  assumes "buf \<noteq> 0"
  shows "generate_startup_event chip rxq txq fw cap ext_cap raw buf =
    Some (seal_frame startup_header (ESP_PRIV_EVENT_INIT # 27 # startup_tlvs chip rxq txq fw cap ext_cap raw), [])"
proof -
  let ?ev = "ESP_PRIV_EVENT_INIT # 27 # startup_tlvs chip rxq txq fw cap ext_cap raw"
  let ?h = startup_header
  have c0: "?h\<lparr>ph_checksum := 0\<rparr> = ?h" by (simp add: startup_header_def zero_header_def)
  have pk: "poke 12 ?ev (put_header ?h (replicate 512 0)) = Some (encode_header ?h @ ?ev @ replicate 471 0)"
    by (simp add: poke_def put_header_def)
  have ck: "compute_checksum (encode_header ?h @ ?ev @ replicate 471 0) 41 = Some (octet_sum (encode_header ?h @ ?ev))"
    by (subst compute_checksum_eq) simp_all
  have fr: "mem_slice (put_header (?h\<lparr>ph_checksum := octet_sum (encode_header ?h @ ?ev)\<rparr>)
      (encode_header ?h @ ?ev @ replicate 471 0)) 0 41 = Some (seal_frame ?h ?ev)"
    using c0 by (simp add: mem_slice_def put_header_def seal_frame_split)
  have h: "zero_header\<lparr>ph_if_type := ucast (if_code ESP_PRIV_IF), ph_offset := 12,
     ph_pkt_type := ESP_PACKET_TYPE_EVENT, ph_len := 29\<rparr> = ?h" by (simp add: startup_header_def)
  show ?thesis
    using assms pk ck fr h
    by (simp add: generate_startup_event_def Let_def del: octet_sum_append octet_sum_Cons if_code.simps)
qed

section \<open>Runs\<close>

text \<open>Any interleaving of completed receive turns and reads, from empty queues.\<close>

inductive su_run :: "slave_uart \<Rightarrow> bool" where
  su_start: "su_run \<lparr>su_serial = [], su_bt = [], su_others = [], su_sem = 0, su_events = es\<rparr>"
| su_rx: "su_run su \<Longrightarrow> uart_rx_finish buf hb h pb su = Some su' \<Longrightarrow> su_run su'"
| su_read: "su_run su \<Longrightarrow> h_uart_read hst su = Some (r, su') \<Longrightarrow> su_run su'"

lemma h_uart_read_inv:
  "h_uart_read hst su = Some (r, su') \<Longrightarrow> su_inv su \<Longrightarrow> su_inv su'"
  by (auto simp: h_uart_read_def su_inv_def Let_def split: if_splits list.splits)

lemma su_run_inv: "su_run su \<Longrightarrow> su_inv su"
proof (induction rule: su_run.induct)
  case (su_start es)
  then show ?case by (simp add: su_inv_def)
qed (auto intro: uart_rx_finish_inv h_uart_read_inv)

section \<open>Properties\<close>

text \<open>
  From any byte source that delivers what is asked, a frame of up to 1588 payload octets with a
  correct checksum is received in one turn of the receive task: exactly its octets are consumed, its
  power-save flag is reported, and the packet, with the checksum field cleared, is put in the queue of
  its interface and announced on the semaphore.
\<close>
lemma slave_uart_receive:
  assumes "byte_source rd avail ready" "ready s" "avail s = seal_frame h p @ rest"
    and "ph_offset h = 12" "ph_len h = of_nat (length p)" "length p \<le> 1588" "buf \<noteq> 0"
  shows "\<exists>s'. uart_rx_step rd buf (s, su) = Some (s', su_push (zero_handle\<lparr>
      bh_payload := Some (encode_header (h\<lparr>ph_checksum := 0\<rparr>) @ p), bh_payload_len := of_nat (12 + length p),
      bh_if_type := ucast (ph_if_type h), bh_if_num := ucast (ph_if_num h), bh_free := True, bh_priv := buf\<rparr>)
      (su\<lparr>su_events := su_events su @ rx_flag_event (ph_flags h)\<rparr>)) \<and> avail s' = rest"
  using uart_rx_step_frame [OF assms, of su] by blast

definition demo_su :: slave_uart where
  "demo_su = \<lparr>su_serial = [], su_bt = [], su_others = [], su_sem = 0, su_events = []\<rparr>"

text \<open>
  Whatever packets are received and read in whatever order, a read on the active interface that
  gets the semaphore always finds a packet (the error path for empty queues is unreachable), and it
  takes the oldest control packet first, then the oldest Bluetooth packet, then the others.
\<close>
lemma uart_read_priority:
  assumes "su_run su" "0 < su_sem su"
  shows "\<exists>b su'. h_uart_read (Some IF_ACTIVE) su = Some ((int (unat (bh_payload_len b)), Some b), su') \<and>
    b = hd (su_serial su @ su_bt su @ su_others su) \<and>
    su_serial su' @ su_bt su' @ su_others su' = tl (su_serial su @ su_bt su @ su_others su)"
  using su_run_inv [OF assms(1)] assms(2)
  by (auto simp: su_inv_def h_uart_read_def Let_def split: list.splits)

definition demo_hdr :: esp_payload_header where
  "demo_hdr = zero_header\<lparr>ph_checksum := octet_sum (encode_header zero_header)\<rparr>"

text \<open>
  The receive task acts on the power-save flag of a frame before it verifies the checksum: a frame
  whose checksum is wrong is dropped, but the power-save event it carries has been raised.
\<close>

lemma ps_flag_before_checksum:
  assumes "decode_header hb = Some h" "length hb = 12" "length pb = unat (ph_len h)" "length pb \<le> 1588"
    and "ph_flags h AND 4 \<noteq> 0" "ph_checksum h \<noteq> octet_sum (encode_header (h\<lparr>ph_checksum := 0\<rparr>) @ pb)"
  shows "uart_rx_finish buf hb h pb su = Some (su\<lparr>su_events := su_events su @ [ESP_POWER_SAVE_ON]\<rparr>)"
proof -
  have u: "unat (of_nat (unat (ph_len h) + 12) :: u16) = unat (ph_len h) + 12"
    using assms(3,4) by (simp only: unat_of_nat) simp
  have "compute_checksum (put_header (h\<lparr>ph_checksum := 0\<rparr>) (hb @ pb)) (of_nat (unat (ph_len h) + 12)) =
      Some (octet_sum (encode_header (h\<lparr>ph_checksum := 0\<rparr>) @ pb))"
    using u assms(2,3) by (subst compute_checksum_eq) (simp_all add: put_header_def)
  then show ?thesis
    using assms by (simp add: uart_rx_finish_def Let_def rx_flag_event_def del: octet_sum_append of_nat_add)
qed

end
