(* ===== verification/Slave_Sdio.thy ===== *)
theory Slave_Sdio
  imports Sdio_Drv Slave_Uart "HOL-Library.Multiset"
begin

unbundle bit_operations_syntax

text \<open>
  The SDIO driver of the co-processor (\<open>src/slave/main/sdio_slave_api.c\<close>) in its default, queued variant
  (\<open>SIMPLIFIED_SDIO_SLAVE\<close> undefined): receive task, read and write operations of the main module, the task that
  reclaims transmit buffers, the throttling of the host, the start-up event, and the life cycle.

  The peripheral driver (\<open>sdio_slave_*\<close>) is not part of the repository. Its answers are arguments and the calls
  to it are recorded: \<open>ss_loaded\<close>, the receive buffers given to it; \<open>ss_ints\<close>, the interrupts to the host;
  \<open>ss_sent\<close>, the transmit buffers (address and octets) it has accepted. \<open>None\<close> is an access outside a buffer, a
  failed assertion, or an operation that waits.
\<close>

section \<open>State\<close>

record slave_sdio =
  ss_if :: if_state
  ss_created :: bool
  ss_rx :: prio_q
  ss_send_sem :: nat
  ss_throttling :: bool
  ss_tasks :: bool
  ss_loaded :: "nat list"
  ss_ints :: "nat list"
  ss_sent :: "(nat \<times> bytes) list"
  ss_freed :: "nat list"
  ss_events :: "host_interrupt list"

abbreviation (input) SDIO_RX_BUFFER_SIZE :: nat where "SDIO_RX_BUFFER_SIZE \<equiv> 1536"
abbreviation (input) HOST_INT_START_THROTTLE :: nat where "HOST_INT_START_THROTTLE \<equiv> 7"
abbreviation (input) HOST_INT_STOP_THROTTLE :: nat where "HOST_INT_STOP_THROTTLE \<equiv> 6"

section \<open>Throttling of the host\<close>

text \<open>\<open>nrx\<close> is \<open>SDIO_NUM_RX_BUFFERS\<close>; \<open>high\<close> and \<open>low\<close> are the thresholds the host has configured.\<close>

definition start_rx_data_throttling_if_needed :: "nat \<Rightarrow> u8 \<Rightarrow> slave_sdio \<Rightarrow> slave_sdio" where
  "start_rx_data_throttling_if_needed nrx high st =
     (if high > 0 \<and> \<not> ss_throttling st then
        let load_percent = (of_nat (length (pq_others (ss_rx st)) * 100 div nrx) :: u8) in
        if load_percent > high
        then st\<lparr>ss_throttling := True, ss_ints := ss_ints st @ [HOST_INT_START_THROTTLE]\<rparr> else st
      else st)"

definition stop_rx_data_throttling_if_needed :: "nat \<Rightarrow> u8 \<Rightarrow> slave_sdio \<Rightarrow> slave_sdio" where
  "stop_rx_data_throttling_if_needed nrx low st =
     (if ss_throttling st then
        let load_percent = (of_nat (length (pq_others (ss_rx st)) * 100 div nrx) :: u8) in
        if load_percent < low
        then st\<lparr>ss_throttling := False, ss_ints := ss_ints st @ [HOST_INT_STOP_THROTTLE]\<rparr> else st
      else st)"

section \<open>Receive\<close>

definition sdio_read_done :: "nat \<Rightarrow> slave_sdio \<Rightarrow> slave_sdio" where
  "sdio_read_done handle st = st\<lparr>ss_loaded := ss_loaded st @ [handle]\<rparr>"

text \<open>
  One turn of \<open>sdio_rx_task\<close>: \<open>recv\<close> is the result of \<open>sdio_slave_recv\<close>, the buffer's handle, its octets
  (also those behind the received ones) and the number of octets received.
\<close>

definition sdio_rx_step :: "bool \<Rightarrow> nat \<Rightarrow> u8 \<Rightarrow> (nat \<times> bytes \<times> nat) option \<Rightarrow> slave_sdio \<Rightarrow> slave_sdio option" where
  "sdio_rx_step cks nrx high recv st =
     (if ss_if st = IF_DEINIT then Some st
      else case recv of
        None \<Rightarrow> Some st
      | Some (handle, buf, sdio_read_len) \<Rightarrow> do {
          let payload_len = (of_nat sdio_read_len :: u16);
          header \<leftarrow> decode_header buf;
          let st = st\<lparr>ss_events := ss_events st @ rx_flag_event (ph_flags header)\<rparr>;
          let len = ph_len header; let offset = ph_offset header;
          if len = 0 then Some (sdio_read_done handle st)
          else if unat payload_len < unat len + unat offset then Some (sdio_read_done handle st)
          else do {
            (ok, buf) \<leftarrow>
              (if cks then do {
                 let buf = put_header (header\<lparr>ph_checksum := 0\<rparr>) buf;
                 checksum \<leftarrow> compute_checksum buf (len + offset);
                 Some (checksum = ph_checksum header, buf)
               } else Some (True, buf));
            if \<not> ok then Some (sdio_read_done handle st)
            else
              let bh = zero_handle\<lparr>bh_priv := handle, bh_payload := Some buf, bh_payload_len := payload_len,
                     bh_if_type := ucast (ph_if_type header), bh_if_num := ucast (ph_if_num header), bh_free := True\<rparr>;
                  st = start_rx_data_throttling_if_needed nrx high st
              in Some (st\<lparr>ss_rx := prio_send bh (ss_rx st)\<rparr>)
          }
        })"

text \<open>\<open>sdio_read\<close>; \<open>handle\<close>: the interface handle is not null. A negative result is \<open>ESP_FAIL\<close>.\<close>

definition sdio_read ::
  "nat \<Rightarrow> u8 \<Rightarrow> bool \<Rightarrow> slave_sdio \<Rightarrow> ((int \<times> interface_buffer_handle option) \<times> slave_sdio) option" where
  "sdio_read nrx low handle st =
     (if \<not> handle \<or> ss_if st = IF_DEINIT then Some ((-1, None), st)
      else if pq_sem (ss_rx st) = 0 then None
      else case prio_recv (ss_rx st) of (got, q) \<Rightarrow>
        let st = st\<lparr>ss_rx := q\<lparr>pq_sem := pq_sem q - 1\<rparr>\<rparr> in
        case got of
          None \<Rightarrow> Some ((-1, None), st)
        | Some bh \<Rightarrow> Some ((int (unat (bh_payload_len bh)), Some bh), stop_rx_data_throttling_if_needed nrx low st))"

section \<open>Transmit\<close>

text \<open>
  \<open>update_tx_header\<close> on the frame with its payload. The checksum covers the octets as they are, with the checksum
  field zero.
\<close>

definition update_tx_header :: "bool \<Rightarrow> bytes \<Rightarrow> interface_buffer_handle \<Rightarrow> bytes option" where
  "update_tx_header cks sendbuf bh = do {
     let header = zero_header\<lparr>ph_if_type := ucast (bh_if_type bh), ph_if_num := ucast (bh_if_num bh),
            ph_len := bh_payload_len bh, ph_offset := of_nat HDR_SIZE, ph_seq_num := bh_seq_num bh,
            ph_flags := bh_flag bh\<rparr>;
     let sendbuf = put_header header sendbuf;
     if cks then do {
       checksum \<leftarrow> compute_checksum sendbuf (of_nat HDR_SIZE + bh_payload_len bh);
       Some (put_header (header\<lparr>ph_checksum := checksum\<rparr>) sendbuf)
     } else Some sendbuf
   }"

text \<open>
  \<open>sdio_write\<close>. \<open>saving\<close>: \<open>is_host_power_saving\<close>; \<open>buf\<close>: the transmit buffer the pool gives (0: none; the pool
  refuses more than a block); \<open>ret\<close>: the result of \<open>sdio_slave_send_queue\<close>.
\<close>

definition sdio_write ::
  "bool \<Rightarrow> bool \<Rightarrow> nat \<Rightarrow> int \<Rightarrow> bool \<Rightarrow> interface_buffer_handle option \<Rightarrow> slave_sdio \<Rightarrow> (int \<times> slave_sdio) option" where
  "sdio_write cks saving buf ret handle buf_handle st =
     (case buf_handle of
        None \<Rightarrow> Some (-1, st)
      | Some bh \<Rightarrow>
          if \<not> handle then Some (-1, st)
          else if ss_if st \<noteq> IF_ACTIVE then Some (-1, st)
          else if saving then Some (-1, st)
          else if bh_payload_len bh = 0 \<and> bh_payload bh = None \<and> bh_flag bh = 0 then Some (-1, st)
          else
            let total_len = unat (bh_payload_len bh) + HDR_SIZE in
            if buf = 0 \<or> total_len > SDIO_RX_BUFFER_SIZE then Some (-1, st)
            else do {
              payload \<leftarrow> (if bh_payload_len bh = 0 then Some []
                          else bh_payload bh \<bind> (\<lambda>p. mem_slice p 0 (unat (bh_payload_len bh))));
              sendbuf \<leftarrow> poke HDR_SIZE payload (replicate total_len 0);
              sendbuf \<leftarrow> update_tx_header cks sendbuf bh;
              if ss_send_sem st = 0 then None
              else if ret \<noteq> 0 then Some (-1, st\<lparr>ss_freed := ss_freed st @ [buf]\<rparr>)
              else Some (int (unat (bh_payload_len bh)),
                     st\<lparr>ss_send_sem := ss_send_sem st - 1, ss_sent := ss_sent st @ [(buf, sendbuf)]\<rparr>)
            })"

text \<open>One turn of \<open>sdio_tx_done_task\<close>: \<open>fin\<close> is the buffer the peripheral has sent (\<open>None\<close>: an error).\<close>

definition sdio_tx_done_step :: "nat option \<Rightarrow> slave_sdio \<Rightarrow> slave_sdio" where
  "sdio_tx_done_step fin st =
     (if ss_if st = IF_DEINIT then st
      else case fin of
        None \<Rightarrow> st
      | Some sendbuf \<Rightarrow> st\<lparr>ss_send_sem := ss_send_sem st + 1, ss_freed := ss_freed st @ [sendbuf]\<rparr>)"

section \<open>Start-up event\<close>

abbreviation (input) ESP_PRIV_TRANS_SDIO_MODE :: u8 where "ESP_PRIV_TRANS_SDIO_MODE \<equiv> 0x18"

definition sdio_startup_tlvs :: "u8 \<Rightarrow> u8 \<Rightarrow> u8 \<Rightarrow> u8 \<Rightarrow> u32 \<Rightarrow> u8 \<Rightarrow> u32 \<Rightarrow> u8 \<Rightarrow> bytes" where
  "sdio_startup_tlvs chip sdio_mode txq rxq fw cap ext_cap raw_tp_cap =
     [ESP_PRIV_FIRMWARE_CHIP_ID, 1, chip] @ [ESP_PRIV_TRANS_SDIO_MODE, 1, sdio_mode] @ [ESP_PRIV_CAPABILITY, 1, cap] @
     [ESP_PRIV_CAP_EXT, 4] @ le32_bytes ext_cap @ [ESP_PRIV_TEST_RAW_TP, 1, raw_tp_cap] @
     [ESP_PRIV_TX_Q_SIZE, 1, txq] @ [ESP_PRIV_RX_Q_SIZE, 1, rxq] @ [ESP_PRIV_FIRMWARE_VERSION, 4] @ le32_bytes fw"

text \<open>
  \<open>generate_startup_event\<close> with the elements \<open>tlvs\<close>. A failure frees the buffer, but keeps the semaphore.
\<close>

definition sdio_startup_event :: "bool \<Rightarrow> bytes \<Rightarrow> nat \<Rightarrow> int \<Rightarrow> slave_sdio \<Rightarrow> slave_sdio option" where
  "sdio_startup_event cks tlvs buf ret st =
     (if buf = 0 then None
      else do {
        let len = (of_nat (length tlvs) :: u16);
        let event = ESP_PRIV_EVENT_INIT # ucast len # tlvs;
        let len = len + 2;
        let header = zero_header\<lparr>ph_if_type := ucast (if_code ESP_PRIV_IF), ph_offset := of_nat HDR_SIZE,
               ph_pkt_type := ESP_PACKET_TYPE_EVENT, ph_len := len\<rparr>;
        payload \<leftarrow> poke HDR_SIZE event (put_header header (replicate 512 0));
        let payload_len = len + of_nat HDR_SIZE;
        payload \<leftarrow> (if cks then do {
            checksum \<leftarrow> compute_checksum payload payload_len;
            Some (put_header (header\<lparr>ph_checksum := checksum\<rparr>) payload)
          } else Some payload);
        frame \<leftarrow> mem_slice payload 0 (unat payload_len);
        if ss_send_sem st = 0 then None
        else
          let st = st\<lparr>ss_send_sem := ss_send_sem st - 1\<rparr> in
          if ret \<noteq> 0 then Some (st\<lparr>ss_freed := ss_freed st @ [buf]\<rparr>)
          else Some (st\<lparr>ss_sent := ss_sent st @ [(buf, frame)]\<rparr>)
      })"

section \<open>Life cycle\<close>

text \<open>
  \<open>sdio_init\<close>: \<open>r_init\<close>, \<open>r_load\<close> and \<open>r_start\<close> are the results of the peripheral driver, \<open>hs\<close> the handles it
  registers (one for each receive buffer), \<open>ntx\<close> is \<open>SDIO_DRIVER_TX_QUEUE_SIZE\<close>. The result: an interface handle
  is returned.
\<close>

fun load_buffers :: "(nat \<Rightarrow> int) \<Rightarrow> nat \<Rightarrow> nat list \<Rightarrow> slave_sdio \<Rightarrow> bool \<times> slave_sdio" where
  "load_buffers r_load i [] st = (True, st)"
| "load_buffers r_load i (h # hs) st =
     (let st = st\<lparr>ss_loaded := ss_loaded st @ [h]\<rparr> in
      if r_load i \<noteq> 0 then (False, st) else load_buffers r_load (i + 1) hs st)"

definition sdio_init ::
  "nat \<Rightarrow> int \<Rightarrow> (nat \<Rightarrow> int) \<Rightarrow> int \<Rightarrow> nat list \<Rightarrow> slave_sdio \<Rightarrow> bool \<times> slave_sdio" where
  "sdio_init ntx r_init r_load r_start hs st =
     (if ss_if st \<noteq> IF_DEINIT then (True, st)
      else
        let st = (if ss_created st then st else st\<lparr>ss_send_sem := ntx, ss_rx := empty_prio_q\<rparr>) in
        if r_init \<noteq> 0 then (False, st)
        else case load_buffers r_load 0 hs st of (loaded, st) \<Rightarrow>
          if \<not> loaded \<or> r_start \<noteq> 0 then (False, st)
          else (True, st\<lparr>ss_if := IF_ACTIVE, ss_created := True, ss_tasks := True\<rparr>))"

text \<open>The result of the first failing step of \<open>sdio_reset\<close>; a handle in use is only deactivated.\<close>

definition sdio_reset :: "int \<Rightarrow> int \<Rightarrow> slave_sdio \<Rightarrow> int \<times> slave_sdio" where
  "sdio_reset r_reset r_start st =
     (if ss_if st \<noteq> IF_DEINIT then (0, st\<lparr>ss_if := IF_DEACTIVE\<rparr>)
      else if r_reset \<noteq> 0 then (r_reset, st)
      else if r_start \<noteq> 0 then (r_start, st)
      else (0, st\<lparr>ss_if := IF_ACTIVE\<rparr>))"

text \<open>
  The loop of \<open>sdio_deinit\<close> over what \<open>sdio_slave_send_get_finished\<close> returns: \<open>Inl True\<close> is its timeout, \<open>Inl False\<close>
  another error, \<open>Inr b\<close> a buffer (0: null).
\<close>

fun deinit_reclaim :: "nat \<Rightarrow> (bool + nat) list \<Rightarrow> slave_sdio \<Rightarrow> slave_sdio" where
  "deinit_reclaim 0 rs st = st"
| "deinit_reclaim (Suc retry) [] st = st"
| "deinit_reclaim (Suc retry) (r # rs) st =
     (case r of
        Inl True \<Rightarrow> deinit_reclaim retry rs st
      | Inl False \<Rightarrow> st
      | Inr b \<Rightarrow> if b = 0 then st
                 else deinit_reclaim retry rs (st\<lparr>ss_send_sem := ss_send_sem st + 1, ss_freed := ss_freed st @ [b]\<rparr>))"

definition sdio_deinit :: "(bool + nat) list \<Rightarrow> slave_sdio \<Rightarrow> slave_sdio" where
  "sdio_deinit rs st =
     (if ss_if st = IF_DEINIT then st
      else (deinit_reclaim 3 rs (st\<lparr>ss_tasks := False\<rparr>))\<lparr>ss_if := IF_DEINIT\<rparr>)"

section \<open>Lemmas\<close>

lemma throttle_fields [simp]:
  "ss_if (start_rx_data_throttling_if_needed nrx high st) = ss_if st"
  "ss_rx (start_rx_data_throttling_if_needed nrx high st) = ss_rx st"
  "ss_loaded (start_rx_data_throttling_if_needed nrx high st) = ss_loaded st"
  "ss_send_sem (start_rx_data_throttling_if_needed nrx high st) = ss_send_sem st"
  "ss_sent (start_rx_data_throttling_if_needed nrx high st) = ss_sent st"
  "ss_if (stop_rx_data_throttling_if_needed nrx low st) = ss_if st"
  "ss_rx (stop_rx_data_throttling_if_needed nrx low st) = ss_rx st"
  "ss_loaded (stop_rx_data_throttling_if_needed nrx low st) = ss_loaded st"
  "ss_send_sem (stop_rx_data_throttling_if_needed nrx low st) = ss_send_sem st"
  "ss_sent (stop_rx_data_throttling_if_needed nrx low st) = ss_sent st"
  by (simp_all add: start_rx_data_throttling_if_needed_def stop_rx_data_throttling_if_needed_def Let_def)

text \<open>Where the receive buffers are: loaded and not yet received, queued, or held by the reader.\<close>

definition buffers_inv :: "nat list \<Rightarrow> nat multiset \<Rightarrow> nat multiset \<Rightarrow> slave_sdio \<Rightarrow> bool" where
  "buffers_inv hs rcvd held st = (rcvd \<subseteq># mset (ss_loaded st) \<and>
     (mset (ss_loaded st) - rcvd) + mset (map bh_priv (q_all (ss_rx st))) + held = mset hs \<and>
     pq_sem (ss_rx st) = length (q_all (ss_rx st)))"

definition sends_inv :: "nat \<Rightarrow> nat multiset \<Rightarrow> slave_sdio \<Rightarrow> bool" where
  "sends_inv ntx fin st = (fin \<subseteq># mset (map fst (ss_sent st)) \<and> ss_send_sem st + length (ss_sent st) = ntx + size fin)"

text \<open>The interrupts to the host alternate, and the host is not throttled while no packet waits.\<close>

definition throttle_inv :: "u8 \<Rightarrow> slave_sdio \<Rightarrow> bool" where
  "throttle_inv low st =
     ((\<exists>n. ss_ints st = concat (replicate n [HOST_INT_START_THROTTLE, HOST_INT_STOP_THROTTLE]) @
        (if ss_throttling st then [HOST_INT_START_THROTTLE] else [])) \<and>
      (low > 0 \<and> ss_throttling st \<longrightarrow> pq_others (ss_rx st) \<noteq> []))"

lemma throttle_inv_start:
  assumes "throttle_inv low st"
  shows "throttle_inv low (start_rx_data_throttling_if_needed nrx high st)"
proof (cases "high > 0 \<and> \<not> ss_throttling st \<and> (of_nat (length (pq_others (ss_rx st)) * 100 div nrx) :: u8) > high")
  case True
  then have "pq_others (ss_rx st) \<noteq> []" by auto
  then show ?thesis using True assms by (auto simp: throttle_inv_def start_rx_data_throttling_if_needed_def Let_def)
next
  case False
  then show ?thesis using assms by (auto simp: start_rx_data_throttling_if_needed_def Let_def)
qed

lemma start_stop_pairs: "concat (replicate n [a, b]) @ [a, b] = concat (replicate (Suc n) [a, b])"
  by (induction n) auto

lemma throttle_inv_stop:
  assumes "throttle_inv low (st\<lparr>ss_rx := q\<rparr>)" "lo \<ge> low"
  shows "throttle_inv low (stop_rx_data_throttling_if_needed nrx lo (st\<lparr>ss_rx := q'\<rparr>))"
proof (cases "ss_throttling st")
  case True
  obtain n where n: "ss_ints st = concat (replicate n [7, 6]) @ [7]"
    using assms(1) True by (auto simp: throttle_inv_def)
  then have "ss_ints st @ [6] = concat (replicate (Suc n) [7, 6])" using start_stop_pairs [of n 7 6] by simp
  then have e: "\<exists>k. ss_ints st @ [6] = concat (replicate k [7, 6])" by blast
  show ?thesis
  proof (cases "(of_nat (length (pq_others q') * 100 div nrx) :: u8) < lo")
    case True
    then show ?thesis using \<open>ss_throttling st\<close> e
      by (simp add: throttle_inv_def stop_rx_data_throttling_if_needed_def Let_def)
  next
    case False
    have "low > 0 \<longrightarrow> pq_others q' \<noteq> []" using False assms(2) by (cases "pq_others q'") auto
    then show ?thesis using False \<open>ss_throttling st\<close> n
      by (auto simp: throttle_inv_def stop_rx_data_throttling_if_needed_def Let_def)
  qed
next
  case False
  then show ?thesis using assms(1) by (auto simp: throttle_inv_def stop_rx_data_throttling_if_needed_def Let_def)
qed

text \<open>A turn of the receive task hands the received buffer back or queues it.\<close>

lemma rx_step_cases:
  fixes st :: slave_sdio
  assumes "sdio_rx_step cks nrx high (Some (h, buf, n)) st = Some st'" "ss_if st \<noteq> IF_DEINIT"
    and "\<And>es. P (sdio_read_done h (st\<lparr>ss_events := es\<rparr>))"
    and "\<And>es (bh :: interface_buffer_handle). bh_priv bh = h \<Longrightarrow>
      P (let s = start_rx_data_throttling_if_needed nrx high (st\<lparr>ss_events := es\<rparr>) in s\<lparr>ss_rx := prio_send bh (ss_rx s)\<rparr>)"
  shows "P st'"
  using assms(1,2,3) assms(4) [unfolded Let_def throttle_fields]
  by (auto simp: sdio_rx_step_def Let_def bind_eq_Some_conv split: if_splits)

section \<open>Runs of the driver\<close>

text \<open>
  A session of the driver with \<open>nrx\<close> receive buffers \<open>hs\<close> and \<open>ntx\<close> transmit buffers. \<open>rcvd\<close>: the buffers the
  peripheral has handed out; it hands out only buffers it was given. \<open>held\<close>: the buffers of the packets the main
  module has read and not freed. \<open>fin\<close>: the transmit buffers it has reported as sent. The low threshold may change,
  but stays at least \<open>lmin\<close>.
\<close>

inductive ss_run ::
  "bool \<Rightarrow> nat \<Rightarrow> nat \<Rightarrow> nat list \<Rightarrow> u8 \<Rightarrow> nat multiset \<Rightarrow> nat multiset \<Rightarrow> nat multiset \<Rightarrow> slave_sdio \<Rightarrow> bool"
  for cks nrx ntx hs lmin where
  Init: "sdio_init ntx r_init r_load r_start hs st = (True, st') \<Longrightarrow> length hs = nrx \<Longrightarrow> ss_if st = IF_DEINIT \<Longrightarrow>
    \<not> ss_created st \<Longrightarrow> ss_loaded st = [] \<Longrightarrow> ss_sent st = [] \<Longrightarrow> ss_ints st = [] \<Longrightarrow> \<not> ss_throttling st \<Longrightarrow>
    ss_run cks nrx ntx hs lmin {#} {#} {#} st'"
| Receive: "ss_run cks nrx ntx hs lmin rcvd held fin st \<Longrightarrow> add_mset h rcvd \<subseteq># mset (ss_loaded st) \<Longrightarrow>
    sdio_rx_step cks nrx high (Some (h, buf, n)) st = Some st' \<Longrightarrow>
    ss_run cks nrx ntx hs lmin (add_mset h rcvd) held fin st'"
| Read: "ss_run cks nrx ntx hs lmin rcvd held fin st \<Longrightarrow> sdio_read nrx low True st = Some ((r, Some bh), st') \<Longrightarrow>
    lmin \<le> low \<Longrightarrow> ss_run cks nrx ntx hs lmin rcvd (add_mset (bh_priv bh) held) fin st'"
| Free: "ss_run cks nrx ntx hs lmin rcvd held fin st \<Longrightarrow> h \<in># held \<Longrightarrow>
    ss_run cks nrx ntx hs lmin rcvd (held - {#h#}) fin (sdio_read_done h st)"
| Write: "ss_run cks nrx ntx hs lmin rcvd held fin st \<Longrightarrow> sdio_write cks saving buf ret handle bh st = Some (r, st') \<Longrightarrow>
    ss_run cks nrx ntx hs lmin rcvd held fin st'"
| Startup: "ss_run cks nrx ntx hs lmin rcvd held fin st \<Longrightarrow> sdio_startup_event cks tlvs buf 0 st = Some st' \<Longrightarrow>
    ss_run cks nrx ntx hs lmin rcvd held fin st'"
| Done: "ss_run cks nrx ntx hs lmin rcvd held fin st \<Longrightarrow> add_mset b fin \<subseteq># mset (map fst (ss_sent st)) \<Longrightarrow>
    ss_run cks nrx ntx hs lmin rcvd held (add_mset b fin) (sdio_tx_done_step (Some b) st)"
| Reset: "ss_run cks nrx ntx hs lmin rcvd held fin st \<Longrightarrow> sdio_reset r1 r2 st = (r, st') \<Longrightarrow>
    ss_run cks nrx ntx hs lmin rcvd held fin st'"

definition ss_inv :: "nat \<Rightarrow> nat list \<Rightarrow> u8 \<Rightarrow> nat multiset \<Rightarrow> nat multiset \<Rightarrow> nat multiset \<Rightarrow> slave_sdio \<Rightarrow> bool" where
  "ss_inv ntx hs lmin rcvd held fin st =
     (ss_if st \<noteq> IF_DEINIT \<and> buffers_inv hs rcvd held st \<and> sends_inv ntx fin st \<and> throttle_inv lmin st)"

lemma load_buffers_all:
  "load_buffers r_load i hs st = (True, st') \<Longrightarrow> st' = st\<lparr>ss_loaded := ss_loaded st @ hs\<rparr>"
  by (induction r_load i hs st rule: load_buffers.induct) (auto simp: Let_def split: if_splits)

lemma ss_inv_init:
  assumes "sdio_init ntx r_init r_load r_start hs st = (True, st')" "ss_if st = IF_DEINIT" "\<not> ss_created st"
    and "ss_loaded st = []" "ss_sent st = []" "ss_ints st = []" "\<not> ss_throttling st"
  shows "ss_inv ntx hs lmin {#} {#} {#} st'"
proof -
  have "st' = st\<lparr>ss_send_sem := ntx, ss_rx := empty_prio_q, ss_loaded := hs, ss_if := IF_ACTIVE, ss_created := True, ss_tasks := True\<rparr>"
    using assms(1-4) load_buffers_all [of r_load 0 hs "st\<lparr>ss_send_sem := ntx, ss_rx := empty_prio_q\<rparr>"]
    by (auto simp: sdio_init_def Let_def split: if_splits prod.splits)
  then show ?thesis
    using assms by (auto simp: ss_inv_def buffers_inv_def sends_inv_def throttle_inv_def empty_prio_q_def q_all_def intro: exI [of _ 0])
qed

lemma diff_add_mset_subset:
  assumes "add_mset h R \<subseteq># M"
  shows "M - R = add_mset h (M - add_mset h R)"
proof (rule multiset_eqI)
  fix x
  show "count (M - R) x = count (add_mset h (M - add_mset h R)) x"
    using mset_subset_eq_count [OF assms, of x] by auto
qed

lemma subset_add_msetI: "R \<subseteq># M \<Longrightarrow> R \<subseteq># add_mset h M"
  by (metis add_mset_add_single mset_subset_eq_add_left subset_mset.order_trans)

lemma add_mset_diff_subset: "R \<subseteq># M \<Longrightarrow> add_mset h M - R = add_mset h (M - R)"
  by (simp add: multiset_eq_iff subseteq_mset_def Suc_diff_le)

lemma ss_inv_read_done:
  assumes "ss_inv ntx hs lmin rcvd (add_mset h held) fin st"
  shows "ss_inv ntx hs lmin rcvd held fin (sdio_read_done h st)"
  using assms
  by (auto simp: ss_inv_def buffers_inv_def sends_inv_def throttle_inv_def sdio_read_done_def
      add_mset_diff_subset subset_add_msetI)

lemma ss_inv_receive:
  assumes "sdio_rx_step cks nrx high (Some (h, buf, n)) st = Some st'" "ss_inv ntx hs lmin rcvd held fin st"
    and "add_mset h rcvd \<subseteq># mset (ss_loaded st)"
  shows "ss_inv ntx hs lmin (add_mset h rcvd) held fin st'"
proof -
  define s where "s es = st\<lparr>ss_events := es\<rparr>" for es
  note split = diff_add_mset_subset [OF assms(3)]
  have s: "ss_inv ntx hs lmin (add_mset h rcvd) (add_mset h held) fin (s es)" for es
    using assms(2,3) split by (auto simp: ss_inv_def buffers_inv_def sends_inv_def throttle_inv_def s_def)
  show ?thesis
  proof (rule rx_step_cases [OF assms(1), where P = "ss_inv ntx hs lmin (add_mset h rcvd) held fin"])
    show "ss_if st \<noteq> IF_DEINIT" using assms(2) by (simp add: ss_inv_def)
    show "ss_inv ntx hs lmin (add_mset h rcvd) held fin (sdio_read_done h (st\<lparr>ss_events := es\<rparr>))" for es
      using ss_inv_read_done [OF s] by (simp add: s_def)
    fix es and bh :: interface_buffer_handle
    assume bh: "bh_priv bh = h"
    define t where "t = start_rx_data_throttling_if_needed nrx high (s es)"
    let ?st = "t\<lparr>ss_rx := prio_send bh (ss_rx t)\<rparr>"
    have "throttle_inv lmin t" using s [of es] throttle_inv_start by (simp add: ss_inv_def t_def)
    then have "throttle_inv lmin ?st" by (auto simp: throttle_inv_def)
    moreover have "buffers_inv hs (add_mset h rcvd) held ?st"
      using s [of es] bh by (auto simp: ss_inv_def buffers_inv_def t_def)
    ultimately have "ss_inv ntx hs lmin (add_mset h rcvd) held fin ?st"
      using s [of es] by (auto simp: ss_inv_def sends_inv_def t_def)
    then show "ss_inv ntx hs lmin (add_mset h rcvd) held fin
      (let s = start_rx_data_throttling_if_needed nrx high (st\<lparr>ss_events := es\<rparr>) in s\<lparr>ss_rx := prio_send bh (ss_rx s)\<rparr>)"
      by (simp add: t_def s_def Let_def)
  qed
qed

lemma ss_inv_read:
  assumes "sdio_read nrx low True st = Some ((r, Some bh), st')" "ss_inv ntx hs lmin rcvd held fin st" "lmin \<le> low"
  shows "ss_inv ntx hs lmin rcvd (add_mset (bh_priv bh) held) fin st'"
proof -
  obtain q where q: "prio_recv (ss_rx st) = (Some bh, q)" "pq_sem (ss_rx st) \<noteq> 0"
    "st' = stop_rx_data_throttling_if_needed nrx low (st\<lparr>ss_rx := q\<lparr>pq_sem := pq_sem q - 1\<rparr>\<rparr>)"
    using assms(1) by (auto simp: sdio_read_def Let_def split: if_splits prod.splits option.splits)
  have t: "throttle_inv lmin st'"
    using throttle_inv_stop [where st = st and q = "ss_rx st" and low = lmin and lo = low and nrx = nrx] assms(2,3) q(3) by (simp add: ss_inv_def)
  note a = prio_recv_all [OF q(1)]
  show ?thesis
    using assms(2) t a q by (auto simp: ss_inv_def buffers_inv_def sends_inv_def)
qed

lemma ss_inv_write:
  assumes "sdio_write cks saving buf ret handle bh st = Some (r, st')" "ss_inv ntx hs lmin rcvd held fin st"
  shows "ss_inv ntx hs lmin rcvd held fin st'"
proof -
  have "(\<exists>fr. st' = st\<lparr>ss_freed := fr\<rparr>) \<or> st' = st \<or>
      (ss_send_sem st \<noteq> 0 \<and> (\<exists>b f. st' = st\<lparr>ss_send_sem := ss_send_sem st - 1, ss_sent := ss_sent st @ [(b, f)]\<rparr>))"
    using assms(1) by (auto simp: sdio_write_def Let_def bind_eq_Some_conv split: option.splits if_splits)
  then show ?thesis
    using assms(2)
    by (auto simp: ss_inv_def buffers_inv_def sends_inv_def throttle_inv_def subset_add_msetI)
qed

lemma ss_inv_startup:
  assumes "sdio_startup_event cks tlvs buf 0 st = Some st'" "ss_inv ntx hs lmin rcvd held fin st"
  shows "ss_inv ntx hs lmin rcvd held fin st'"
proof -
  have "ss_send_sem st \<noteq> 0 \<and> (\<exists>b f. st' = st\<lparr>ss_send_sem := ss_send_sem st - 1, ss_sent := ss_sent st @ [(b, f)]\<rparr>)"
    using assms(1) by (auto simp: sdio_startup_event_def Let_def bind_eq_Some_conv split: if_splits)
  then show ?thesis
    using assms(2)
    by (auto simp: ss_inv_def buffers_inv_def sends_inv_def throttle_inv_def subset_add_msetI)
qed

lemma ss_inv_done:
  assumes "ss_inv ntx hs lmin rcvd held fin st" "add_mset b fin \<subseteq># mset (map fst (ss_sent st))"
  shows "ss_inv ntx hs lmin rcvd held (add_mset b fin) (sdio_tx_done_step (Some b) st)"
  using assms by (auto simp: ss_inv_def buffers_inv_def sends_inv_def throttle_inv_def sdio_tx_done_step_def)

lemma ss_inv_reset:
  "sdio_reset r1 r2 st = (r, st') \<Longrightarrow> ss_inv ntx hs lmin rcvd held fin st \<Longrightarrow> ss_inv ntx hs lmin rcvd held fin st'"
  by (auto simp: sdio_reset_def ss_inv_def buffers_inv_def sends_inv_def throttle_inv_def split: if_splits)

lemma ss_run_inv: "ss_run cks nrx ntx hs lmin rcvd held fin st \<Longrightarrow> ss_inv ntx hs lmin rcvd held fin st"
proof (induction rule: ss_run.induct)
  case (Init r_init r_load r_start st st')
  then show ?case by (blast intro: ss_inv_init)
next
  case (Receive rcvd held fin st h high buf n st')
  then show ?case using ss_inv_receive by blast
next
  case (Free rcvd held fin st h)
  then show ?case by (intro ss_inv_read_done) simp
qed (blast intro: ss_inv_read ss_inv_write ss_inv_startup ss_inv_done ss_inv_reset)+

lemma ss_run_length: "ss_run cks nrx ntx hs lmin rcvd held fin st \<Longrightarrow> length hs = nrx"
  by (induction rule: ss_run.induct) simp_all

text \<open>
  The read task of the host on the interrupts of the co-processor: each element of \<open>gs\<close> holds those that are pending when
  it reads the interrupt register, which has one bit for each and is cleared.
\<close>

definition int_bits :: "nat list \<Rightarrow> u32" where
  "int_bits is = foldr (\<lambda>i w. push_bit i 1 OR w) is 0"

definition host_ints :: "nat list list \<Rightarrow> sdio_drv \<Rightarrow> sdio_drv" where
  "host_ints gs h = fold (\<lambda>is h. the (sdio_read_step True (Some (int_bits is, 0)) None h)) gs h"

lemma int_bits_bit: "n < 32 \<Longrightarrow> bit (int_bits is) n \<longleftrightarrow> n \<in> set is"
  by (induction "is") (auto simp: int_bits_def bit_simps)

text \<open>One reading acts on the start bit first, then on the stop bit.\<close>

lemma host_int_flag:
  assumes "set is \<subseteq> {6, 7}"
  shows "sd_throttle (the (sdio_read_step True (Some (int_bits is, 0)) None h)) =
    (if 6 \<in> set is then False else if 7 \<in> set is then True else sd_throttle h)"
proof -
  have "\<not> bit (int_bits is) 23" using assms by (auto simp: int_bits_bit)
  then show ?thesis by (simp add: sdio_read_step_def Let_def int_bits_bit)
qed

lemma host_ints_snoc: "host_ints (gs @ [is]) h = the (sdio_read_step True (Some (int_bits is, 0)) None (host_ints gs h))"
  by (simp add: host_ints_def)

section \<open>Lemmas: the defects of the driver\<close>

text \<open>A start-up event that cannot be queued takes a transmit buffer out of use for ever.\<close>

lemma startup_failure_loses_buffer:
  assumes "sdio_startup_event cks tlvs buf ret st = Some st'" "ret \<noteq> 0"
  shows "ss_send_sem st' + 1 = ss_send_sem st \<and> ss_sent st' = ss_sent st \<and> ss_freed st' = ss_freed st @ [buf]"
  using assms by (auto simp: sdio_startup_event_def Let_def bind_eq_Some_conv split: if_splits)

text \<open>
  A shutdown unregisters the receive buffers but leaves the queued packets, whose handles are those buffers: they
  are read, and the old handles given to the peripheral, after the next start.
\<close>

lemma reclaim_fields: "ss_rx (deinit_reclaim n rs st) = ss_rx st \<and> ss_created (deinit_reclaim n rs st) = ss_created st \<and>
    ss_throttling (deinit_reclaim n rs st) = ss_throttling st"
  by (induction n rs st rule: deinit_reclaim.induct) (auto split: sum.splits bool.splits)

lemma deinit_keeps_packets:
  assumes "sdio_init ntx 0 (\<lambda>_. 0) 0 hs (sdio_deinit rs st) = (True, st')" "ss_created st" "ss_if st \<noteq> IF_DEINIT"
  shows "ss_rx st' = ss_rx st \<and> ss_throttling st' = ss_throttling st"
proof -
  define d where "d = deinit_reclaim 3 rs (st\<lparr>ss_tasks := False\<rparr>)"
  have d: "ss_rx d = ss_rx st" "ss_created d = ss_created st" "ss_throttling d = ss_throttling st"
    using reclaim_fields [of 3 rs "st\<lparr>ss_tasks := False\<rparr>"] by (simp_all add: d_def)
  obtain s where "load_buffers (\<lambda>_. 0) 0 hs (d\<lparr>ss_if := IF_DEINIT\<rparr>) = (True, s)"
    "st' = s\<lparr>ss_if := IF_ACTIVE, ss_created := True, ss_tasks := True\<rparr>"
    using assms d by (auto simp: sdio_init_def sdio_deinit_def d_def [symmetric] Let_def split: if_splits prod.splits)
  then show ?thesis using load_buffers_all [of "\<lambda>_. 0" 0 hs "d\<lparr>ss_if := IF_DEINIT\<rparr>"] d by auto
qed

text \<open>At most three of the transmit buffers that were still queued are reclaimed.\<close>

lemma reclaim_at_most: "ss_send_sem (deinit_reclaim n rs st) \<le> ss_send_sem st + n"
proof (induction n rs st rule: deinit_reclaim.induct)
  case (3 retry r rs st)
  then show ?case by (auto split: sum.splits bool.splits intro: le_SucI)
qed simp_all

section \<open>Properties\<close>

text \<open>
  In every session of the driver each of its receive buffers is in exactly one place: with the peripheral, in
  one of the three queues, or with the main module; the semaphore counts the queued packets, so a read that gets it
  always finds one; and the transmit buffers in flight are never more than the queue of the peripheral holds.
\<close>
lemma slave_sdio_buffers:
  assumes "ss_run cks nrx ntx hs lmin rcvd held fin st"
  shows "(mset (ss_loaded st) - rcvd) + mset (map bh_priv (q_all (ss_rx st))) + held = mset hs \<and>
    length (q_all (ss_rx st)) \<le> nrx \<and>
    (0 < pq_sem (ss_rx st) \<longrightarrow> (\<exists>bh st'. sdio_read nrx low True st = Some ((int (unat (bh_payload_len bh)), Some bh), st'))) \<and>
    ss_send_sem st + (length (ss_sent st) - size fin) = ntx"
proof -
  have i: "buffers_inv hs rcvd held st" "sends_inv ntx fin st" "ss_if st \<noteq> IF_DEINIT"
    using ss_run_inv [OF assms] by (simp_all add: ss_inv_def)
  note n = ss_run_length [OF assms]
  have "size (mset hs) = nrx" using n by simp
  then have "length (q_all (ss_rx st)) \<le> nrx" using i(1) unfolding buffers_inv_def
    by (metis le_add1 le_add2 length_map order_trans size_mset size_union)
  moreover have "size fin \<le> length (ss_sent st)"
    using i(2) size_mset_mono [of fin "mset (map fst (ss_sent st))"] by (simp add: sends_inv_def)
  moreover have "\<exists>bh st'. sdio_read nrx low True st = Some ((int (unat (bh_payload_len bh)), Some bh), st')"
    if "0 < pq_sem (ss_rx st)"
  proof -
    obtain got q where "prio_recv (ss_rx st) = (got, q)" by fastforce
    then show ?thesis
      using that i prio_recv_all [of "ss_rx st" got q]
      by (cases got) (auto simp: buffers_inv_def sdio_read_def Let_def)
  qed
  ultimately show ?thesis using i by (auto simp: buffers_inv_def sends_inv_def)
qed

lemma last_pairs: "n \<noteq> 0 \<Longrightarrow> last (concat (replicate n [a, b])) = b"
  by (cases n) (simp_all add: replicate_append_same [symmetric])

text \<open>
  C21: the throttling of the host has no deadlock. In every session with a positive low threshold the interrupts
  to the host alternate between start and stop, and the co-processor throttles only while a packet waits to be read.
  However the interrupts are grouped into readings of the host's interrupt register, once the host has seen them it
  is throttled only if the co-processor throttles; it misses the throttling exactly when its last reading found a
  stop and the start after it together, because it acts on the two bits in the fixed order start, stop. If every stop
  is read before the next start is sent, the two sides agree.
\<close>
theorem slave_sdio_throttle:
  assumes "ss_run cks nrx ntx hs lmin rcvd held fin st" "0 < lmin" "\<not> sd_throttle h"
    and "concat gs = ss_ints st" "[] \<notin> set gs"
  shows "(\<exists>n. ss_ints st = concat (replicate n [7, 6]) @ (if ss_throttling st then [7] else [])) \<and>
    (sd_throttle (host_ints gs h) \<longleftrightarrow> ss_throttling st \<and> 6 \<notin> set (last gs)) \<and>
    ((\<forall>is \<in> set gs. \<not> (6 \<in> set is \<and> last is = 7)) \<longrightarrow> sd_throttle (host_ints gs h) = ss_throttling st) \<and>
    (ss_throttling st \<longrightarrow> 0 < pq_sem (ss_rx st) \<and> pq_others (ss_rx st) \<noteq> [])"
proof -
  have i: "throttle_inv lmin st" "buffers_inv hs rcvd held st" using ss_run_inv [OF assms(1)] by (simp_all add: ss_inv_def)
  obtain n where n: "ss_ints st = concat (replicate n [7, 6]) @ (if ss_throttling st then [7] else [])"
    using i(1) by (auto simp: throttle_inv_def)
  have bits: "set (ss_ints st) \<subseteq> {6, 7}" using n by auto
  have flag: "(sd_throttle (host_ints gs h) \<longleftrightarrow> ss_throttling st \<and> 6 \<notin> set (last gs)) \<and>
      (ss_throttling st \<and> 6 \<in> set (last gs) \<longrightarrow> gs \<noteq> [] \<and> last (last gs) = 7)"
  proof (cases gs rule: rev_cases)
    case Nil
    then have "ss_ints st = []" using assms(4) by simp
    then have "\<not> ss_throttling st" using n by (auto split: if_splits)
    then show ?thesis using Nil assms(3) by (simp add: host_ints_def)
  next
    case (snoc gs' g)
    have ss: "ss_ints st = concat gs' @ g" using assms(4) snoc by simp
    have g: "g \<noteq> []" using assms(5) snoc by auto
    have g: "g \<noteq> []" "set g \<subseteq> {6, 7}" "last g = last (ss_ints st)" "ss_ints st \<noteq> []"
      using g bits unfolding ss by auto
    have l: "ss_throttling st \<longleftrightarrow> last g = 7"
      using g(3,4) n last_pairs [of n "7 :: nat" 6] by (cases "n = 0"; cases "ss_throttling st") simp_all
    have "7 \<in> set g" if "6 \<notin> set g" using g(1,2) that by (cases g) auto
    moreover have "last g \<noteq> 6" if "6 \<notin> set g" using g(1) that by (metis last_in_set)
    moreover have "last g \<in> {6, 7}" using g(1,2) last_in_set by blast
    ultimately show ?thesis
      using snoc l host_int_flag [OF g(2), of "host_ints gs' h"] by (auto simp: host_ints_snoc)
  qed
  moreover have "ss_throttling st \<longrightarrow> pq_others (ss_rx st) \<noteq> []" using i(1) assms(2) by (simp add: throttle_inv_def)
  moreover have "pq_others (ss_rx st) \<noteq> [] \<Longrightarrow> 0 < pq_sem (ss_rx st)" using i(2) by (simp add: buffers_inv_def q_all_def)
  ultimately show ?thesis using n last_in_set by blast
qed

text \<open>A stop and the next start in one reading leave the host unthrottled.\<close>

lemma host_misses_start: "\<not> sd_throttle (host_ints [[7], [6, 7]] h)"
  using host_int_flag [of "[6, 7]"] by (simp add: host_ints_def)

definition cold_sdio :: slave_sdio where
  "cold_sdio = \<lparr>ss_if = IF_DEINIT, ss_created = False, ss_rx = empty_prio_q, ss_send_sem = 0, ss_throttling = False,
     ss_tasks = False, ss_loaded = [], ss_ints = [], ss_sent = [], ss_freed = [], ss_events = []\<rparr>"

definition sdio_demo_rx :: bytes where
  "sdio_demo_rx = encode_header (zero_header\<lparr>ph_if_type := 1, ph_len := 2, ph_offset := 12\<rparr>) @ [7, 9, 0, 0]"

definition sdio_demo_handle :: "nat \<Rightarrow> interface_buffer_handle" where
  "sdio_demo_handle h = zero_handle\<lparr>bh_priv := h, bh_payload := Some sdio_demo_rx, bh_payload_len := 14, bh_if_type := 1,
     bh_free := True\<rparr>"

definition warm_sdio :: slave_sdio where
  "warm_sdio = snd (sdio_init 2 0 (\<lambda>_. 0) 0 [1, 2] cold_sdio)"

lemma warm_sdio_eval:
  "warm_sdio = cold_sdio\<lparr>ss_if := IF_ACTIVE, ss_created := True, ss_send_sem := 2, ss_tasks := True, ss_loaded := [1, 2]\<rparr>"
  by (simp add: warm_sdio_def sdio_init_def cold_sdio_def Let_def)

lemma sdio_demo_rx_step:
  "ss_if st \<noteq> IF_DEINIT \<Longrightarrow> sdio_rx_step False 2 10 (Some (h, sdio_demo_rx, 14)) st =
    Some (let s = start_rx_data_throttling_if_needed 2 10 st in s\<lparr>ss_rx := prio_send (sdio_demo_handle h) (ss_rx s)\<rparr>)"
  by (simp add: sdio_rx_step_def sdio_demo_rx_def sdio_demo_handle_def rx_flag_event_def zero_header_def zero_handle_def Let_def)

lemma warm_run: "ss_run False 2 2 [1, 2] 1 {#} {#} {#} warm_sdio"
proof (rule ss_run.Init)
  show "sdio_init 2 0 (\<lambda>_. 0) 0 [1, 2] cold_sdio = (True, warm_sdio)"
    by (simp add: warm_sdio_def sdio_init_def cold_sdio_def Let_def)
qed (simp_all add: cold_sdio_def)

definition busy_sdio :: slave_sdio where
  "busy_sdio = warm_sdio\<lparr>ss_throttling := True, ss_ints := [7],
     ss_rx := prio_send (sdio_demo_handle 1) (prio_send (sdio_demo_handle 2) empty_prio_q)\<rparr>"

lemma busy_run: "ss_run False 2 2 [1, 2] 1 {#1, 2#} {#} {#} busy_sdio"
proof -
  define s1 where "s1 = warm_sdio\<lparr>ss_rx := prio_send (sdio_demo_handle 2) empty_prio_q\<rparr>"
  have 1: "sdio_rx_step False 2 10 (Some (2, sdio_demo_rx, 14)) warm_sdio = Some s1"
    by (subst sdio_demo_rx_step)
      (simp_all add: warm_sdio_eval s1_def start_rx_data_throttling_if_needed_def cold_sdio_def empty_prio_q_def Let_def)
  have r1: "ss_run False 2 2 [1, 2] 1 {#2#} {#} {#} s1"
    using ss_run.Receive [OF warm_run _ 1] by (simp add: warm_sdio_eval)
  have 2: "sdio_rx_step False 2 10 (Some (1, sdio_demo_rx, 14)) s1 = Some busy_sdio"
    by (subst sdio_demo_rx_step)
      (simp_all add: warm_sdio_eval s1_def busy_sdio_def start_rx_data_throttling_if_needed_def cold_sdio_def empty_prio_q_def
        prio_send_def sdio_demo_handle_def zero_handle_def Let_def)
  show ?thesis using ss_run.Receive [OF r1 _ 2] by (simp add: s1_def warm_sdio_eval)
qed

theorem slave_sdio_throttle_witness:
  "sd_throttle (host_ints [[7]] (demo_sdio\<lparr>sd_throttle := False\<rparr>)) \<and> pq_others (ss_rx busy_sdio) \<noteq> []"
proof -
  have "ss_throttling busy_sdio" "ss_ints busy_sdio = [7]" by (simp_all add: busy_sdio_def)
  then show ?thesis using slave_sdio_throttle [OF busy_run, of "demo_sdio\<lparr>sd_throttle := False\<rparr>" "[[7]]"] by simp
qed

end
