(* ===== verification/Sdio_Link.thy ===== *)
theory Sdio_Link
  imports Slave_Sdio
begin

unbundle bit_operations_syntax

text \<open>
  Both ends of the SDIO link (\<open>sdio_drv.c\<close> of the host, \<open>sdio_slave_api.c\<close> of the co-processor): what one driver
  writes the other one delivers. Both sides are built with the checksum.
\<close>

section \<open>From the co-processor to the host\<close>

definition tx_pkt :: "nat \<times> interface_buffer_handle \<Rightarrow> esp_payload_header \<times> bytes" where
  "tx_pkt w = (tx_hdr (snd w), tx_payload (snd w))"

text \<open>A packet with its transmit buffer that fits the bus.\<close>

definition tx_ok :: "nat \<times> interface_buffer_handle \<Rightarrow> bool" where
  "tx_ok w = (fst w \<noteq> 0 \<and> bh_payload (snd w) \<noteq> None \<and> 0 < unat (bh_payload_len (snd w)) \<and>
     unat (bh_payload_len (snd w)) \<le> length (the (bh_payload (snd w))) \<and>
     unat (bh_payload_len (snd w)) \<le> MAX_SDIO_PAYLOAD \<and> unat (bh_if_type (snd w)) < 16)"

lemma tx_okD:
  assumes "tx_ok (b, bh)"
  shows "b \<noteq> 0" "0 < unat (bh_payload_len bh)" "length (tx_payload bh) = unat (bh_payload_len bh)"
    "unat (bh_payload_len bh) \<le> 1524" "sdio_ok (tx_pkt (b, bh))"
    "\<exists>p. bh_payload bh = Some p \<and> mem_slice p 0 (unat (bh_payload_len bh)) = Some (tx_payload bh)"
  using assms by (auto simp: tx_ok_def tx_payload_def sdio_ok_def tx_pkt_def tx_hdr_def mem_slice_def)

lemma sdio_write_frame:
  assumes "tx_ok (b, bh)" "ss_if st = IF_ACTIVE" "ss_send_sem st \<noteq> 0"
  shows "sdio_write True False b 0 True (Some bh) st = Some (int (unat (bh_payload_len bh)),
    st\<lparr>ss_send_sem := ss_send_sem st - 1, ss_sent := ss_sent st @ [(b, sdio_image (tx_pkt (b, bh)))]\<rparr>)"
proof -
  note t = tx_okD [OF assms(1)]
  let ?n = "unat (bh_payload_len bh)" and ?h = "tx_hdr bh" and ?p = "tx_payload bh"
  obtain p where p: "bh_payload bh = Some p" "mem_slice p 0 ?n = Some ?p" using t(6) by blast
  have nz: "bh_payload_len bh \<noteq> 0" using t(2) by auto
  have c0: "?h\<lparr>ph_checksum := 0\<rparr> = ?h" by (simp add: tx_hdr_def zero_header_def)
  have u: "unat (12 + bh_payload_len bh) = 12 + ?n" using t(4) by (subst unat_word_ariths) simp
  have pk: "poke 12 ?p (replicate (?n + 12) 0) = Some (replicate 12 0 @ ?p)"
    using t(3) by (simp add: poke_def)
  have ph: "put_header x (replicate 12 0 @ ?p) = encode_header x @ ?p" for x by (simp add: put_header_def)
  have ck: "compute_checksum (encode_header ?h @ ?p) (12 + bh_payload_len bh) = Some (octet_sum (encode_header ?h @ ?p))"
    using u t(3) by (subst compute_checksum_eq) simp_all
  have fr: "put_header (?h\<lparr>ph_checksum := octet_sum (encode_header ?h @ ?p)\<rparr>) (encode_header ?h @ ?p) = sdio_image (tx_pkt (b, bh))"
    using c0 by (simp add: put_header_def sdio_image_def tx_pkt_def seal_frame_def Let_def)
  have up: "update_tx_header True (replicate 12 0 @ ?p) bh = Some (sdio_image (tx_pkt (b, bh)))"
    unfolding update_tx_header_def
    by (simp add: tx_hdr_def [symmetric] ph ck fr Let_def del: octet_sum_append)
  show ?thesis
    using assms t p nz pk up by (simp add: sdio_write_def Let_def)
qed

primrec sdio_writes :: "(nat \<times> interface_buffer_handle) list \<Rightarrow> slave_sdio \<Rightarrow> slave_sdio option" where
  "sdio_writes [] st = Some st"
| "sdio_writes (w # ws) st = do {
     (r, st) \<leftarrow> sdio_write True False (fst w) 0 True (Some (snd w)) st;
     sdio_writes ws st
   }"

lemma sdio_writes_frames:
  assumes "\<forall>w \<in> set ws. tx_ok w" "ss_if st = IF_ACTIVE" "length ws \<le> ss_send_sem st"
  shows "sdio_writes ws st = Some (st\<lparr>ss_send_sem := ss_send_sem st - length ws,
    ss_sent := ss_sent st @ map (\<lambda>w. (fst w, sdio_image (tx_pkt w))) ws\<rparr>)"
  using assms
proof (induction ws arbitrary: st)
  case (Cons w ws)
  obtain b bh where w: "w = (b, bh)" by (cases w)
  show ?case
    using Cons.prems Cons.IH [of "st\<lparr>ss_send_sem := ss_send_sem st - 1, ss_sent := ss_sent st @ [(b, sdio_image (tx_pkt (b, bh)))]\<rparr>"]
      sdio_write_frame [of b bh st]
    by (auto simp: w)
qed simp

definition of_type :: "(u8 \<Rightarrow> bool) \<Rightarrow> (esp_payload_header \<times> bytes) list \<Rightarrow> bytes option list" where
  "of_type P fs = map (\<lambda>f. Some (snd f)) (filter (\<lambda>f. P (ucast (ph_if_type (fst f)))) fs)"

abbreviation (input) serial_type :: "u8 \<Rightarrow> bool" where "serial_type t \<equiv> t = if_code ESP_SERIAL_IF"
abbreviation (input) bt_type :: "u8 \<Rightarrow> bool" where "bt_type t \<equiv> t = if_code ESP_HCI_IF"
abbreviation (input) other_type :: "u8 \<Rightarrow> bool" where "other_type t \<equiv> \<not> serial_type t \<and> \<not> bt_type t"

lemma deliver_payloads:
  assumes "\<forall>j. bufs j \<noteq> 0"
  shows "map bh_payload (pq_serial (deliver bufs i fs q)) = map bh_payload (pq_serial q) @ of_type serial_type fs"
  "map bh_payload (pq_bt (deliver bufs i fs q)) = map bh_payload (pq_bt q) @ of_type bt_type fs"
  "map bh_payload (pq_others (deliver bufs i fs q)) = map bh_payload (pq_others q) @ of_type other_type fs"
proof -
  have nz: "bufs j \<noteq> 0" for j using assms by simp
  show "map bh_payload (pq_serial (deliver bufs i fs q)) = map bh_payload (pq_serial q) @ of_type serial_type fs"
    "map bh_payload (pq_bt (deliver bufs i fs q)) = map bh_payload (pq_bt q) @ of_type bt_type fs"
    "map bh_payload (pq_others (deliver bufs i fs q)) = map bh_payload (pq_others q) @ of_type other_type fs"
    by (induction fs arbitrary: i q) (auto simp: nz of_type_def prio_send_def sdio_rx_handle_def Let_def)
qed

lemma deliver_split_payloads:
  assumes "\<forall>t \<in> set ts. \<forall>j. snd t j \<noteq> 0"
  shows "map bh_payload (pq_serial (deliver_split ts q)) = map bh_payload (pq_serial q) @ of_type serial_type (concat (map (ba_pkts \<circ> fst) ts))"
    "map bh_payload (pq_bt (deliver_split ts q)) = map bh_payload (pq_bt q) @ of_type bt_type (concat (map (ba_pkts \<circ> fst) ts))"
    "map bh_payload (pq_others (deliver_split ts q)) = map bh_payload (pq_others q) @ of_type other_type (concat (map (ba_pkts \<circ> fst) ts))"
  using assms unfolding deliver_split_def
  by (induction ts arbitrary: q) (auto simp: deliver_payloads, auto simp: of_type_def)

text \<open>The buffers of a turn that splits are those of one of the events.\<close>

lemma rx_split_bufs: "t \<in> set (rx_split w es) \<Longrightarrow> Rx_Split (snd t) \<in> set es"
  by (induction w es rule: rx_split.induct) auto

lemma of_type_tx_pkt:
  assumes "\<forall>w \<in> set ws. tx_ok w"
  shows "of_type P (map tx_pkt ws) = map (\<lambda>w. Some (tx_payload (snd w))) (filter (\<lambda>w. P (bh_if_type (snd w))) ws)"
proof -
  have "(ucast (ucast t :: 4 word) :: u8) = t" if "unat t < 16" for t :: u8
    using that by (simp add: word_unat_eq_iff unsigned_ucast_eq unsigned_take_bit_eq take_bit_nat_eq_self)
  then have "P (ucast (ph_if_type (fst (tx_pkt w)))) = P (bh_if_type (snd w))" if "w \<in> set ws" for w
    using that assms by (simp add: tx_pkt_def tx_hdr_def tx_ok_def)
  then have "filter (\<lambda>w. P (ucast (ph_if_type (fst (tx_pkt w))))) ws = filter (\<lambda>w. P (bh_if_type (snd w))) ws"
    by (auto intro: filter_cong)
  then show ?thesis by (simp add: of_type_def filter_map comp_def) (simp add: tx_pkt_def)
qed

section \<open>From the host to the co-processor\<close>






lemma block_len_1536: "n \<le> 1536 \<Longrightarrow> block_len n \<le> 1536"
proof -
  assume "n \<le> 1536"
  then have "(n + 511) div 512 \<le> (1536 + 511) div 512" by (intro div_le_mono) simp
  then show ?thesis by (simp add: block_len_def)
qed


section \<open>Properties\<close>

text \<open>
  C19: packets that the co-processor writes (any number for which it has transmit buffers) arrive at the host whole,
  each in the queue of its interface and in order, however the peripheral groups the octets into block reads and
  wherever the 20-bit counter of octets stands; provided that the block reads succeed, that the splitting task of the
  host completes a turn between any two of its reports and after the last, and that the pool of the host has a buffer for each
  packet. Otherwise packets are lost, as \<open>sdio_stream_delivery\<close> says.
\<close>
theorem sdio_to_host:
  assumes "\<forall>w \<in> set ws. tx_ok w" "ss_if ss = IF_ACTIVE" "length ws \<le> ss_send_sem ss"
    and "concat (map ba_pkts (reports es)) = map tx_pkt ws" "sdio_idle h st" "good_batches h (reports es)"
    and "rx_paced es" "rx_waiting None es = None" "\<forall>bufs j. Rx_Split bufs \<in> set es \<longrightarrow> bufs j \<noteq> 0"
  shows "\<exists>ss' st'. sdio_writes ws ss = Some ss' \<and>
    map snd (ss_sent ss') = map snd (ss_sent ss) @ map sdio_image (concat (map ba_pkts (reports es))) \<and>
    sdio_rx_events cks es st = Some st' \<and>
    (let arrived = (\<lambda>P. map (\<lambda>w. Some (tx_payload (snd w))) (filter (\<lambda>w. P (bh_if_type (snd w))) ws)) in
     map bh_payload (pq_serial (sd_from_slave st')) = map bh_payload (pq_serial (sd_from_slave st)) @ arrived serial_type \<and>
     map bh_payload (pq_bt (sd_from_slave st')) = map bh_payload (pq_bt (sd_from_slave st)) @ arrived bt_type \<and>
     map bh_payload (pq_others (sd_from_slave st')) = map bh_payload (pq_others (sd_from_slave st)) @ arrived other_type)"
proof -
  let ?ts = "rx_split None es"
  obtain st' where st': "sdio_rx_events cks es st = Some st'"
    "sd_from_slave st' = deliver_split ?ts (sd_from_slave st)"
    using sdio_rx_deliver [of h None st es cks] assms(5,6) by (auto simp: sdio_idle_rel)
  have ts: "map fst ?ts = reports es" using rx_paced_reports [OF assms(7)] assms(8) by simp
  have c: "concat (map (\<lambda>t. ba_pkts (fst t)) ?ts) = map tx_pkt ws" using assms(4) by (simp add: ts [symmetric] comp_def)
  have b: "\<forall>t \<in> set ?ts. \<forall>j. snd t j \<noteq> 0" using rx_split_bufs [of _ None es] assms(9) by blast
  show ?thesis
    using sdio_writes_frames [OF assms(1-3)] st' deliver_split_payloads [OF b] of_type_tx_pkt [OF assms(1)]
    by (simp add: assms(4) c Let_def comp_def)
qed


definition demo_w :: "nat \<times> interface_buffer_handle" where
  "demo_w = (5, zero_handle\<lparr>bh_if_type := 3, bh_payload := Some [7, 9], bh_payload_len := 2\<rparr>)"

lemma demo_w_pkt: "tx_ok demo_w" "tx_pkt demo_w = demo_pkt" "tx_payload (snd demo_w) = [7, 9]" "bh_if_type (snd demo_w) = 3"
  by (simp_all add: demo_w_def tx_ok_def tx_pkt_def tx_hdr_def tx_payload_def demo_pkt_def zero_header_def zero_handle_def)

theorem sdio_to_host_witness:
  "\<exists>ss' st'. sdio_writes [demo_w] warm_sdio = Some ss' \<and>
     sdio_rx_events True [Rx_Report (demo_batch 0xFFFFE), Rx_Split (\<lambda>j. j + 1)] demo_sdio = Some st' \<and>
     map bh_payload (pq_serial (sd_from_slave st')) = [Some [7, 9]]"
proof -
  let ?es = "[Rx_Report (demo_batch 0xFFFFE), Rx_Split (\<lambda>j. j + 1)]"
  have c: "concat (map ba_pkts (reports ?es)) = map tx_pkt [demo_w]"
    by (simp add: demo_batch_def demo_w_pkt)
  have i: "sdio_idle 0xFFFF0 demo_sdio" by (simp add: sdio_idle_def demo_sdio_def reset_double_buf_def)
  have g: "good_batches 0xFFFF0 (reports ?es)" using demo_good by simp
  have w: "\<forall>w \<in> set [demo_w]. tx_ok w" "ss_if warm_sdio = IF_ACTIVE" "length [demo_w] \<le> ss_send_sem warm_sdio"
    by (simp_all add: demo_w_pkt warm_sdio_eval)
  have e: "rx_paced ?es" "rx_waiting None ?es = None" "\<forall>bufs j. Rx_Split bufs \<in> set ?es \<longrightarrow> bufs j \<noteq> 0" by auto
  have q: "sd_from_slave demo_sdio = empty_prio_q" by (simp add: demo_sdio_def)
  show ?thesis
    using sdio_to_host [OF w c i g e, of True]
    by (auto simp: q demo_w_pkt empty_prio_q_def Let_def simp del: sdio_rx_events.simps sdio_writes.simps)
qed






end
