(* ===== verification/Uart_Drv.thy ===== *)
theory Uart_Drv
  imports Bus_Queue
begin

unbundle bit_operations_syntax

text \<open>
  The UART transport of the ESP-IDF host (\<open>src/host/drivers/transport/uart/uart_drv.c\<close>): the write task, the read
  task with its checks, the dispatch, the power-save messages, set-up and shutdown; and its relation to the UART
  transport of the JL port (\<open>h_transport_task.c\<close>), which talks to the same co-processor.

  \<open>cks\<close> is the build option \<open>H_UART_CHECKSUM\<close>; reads come from a source \<open>rd\<close> that may return fewer octets than
  asked; \<open>None\<close> is an access outside a buffer, a failed assertion, or a task that waits. A buffer of the pool is a
  positive number.
\<close>

section \<open>State\<close>

text \<open>\<open>ud_tx_needed\<close> is the local of the write task; \<open>ud_bus\<close> holds the frames written.\<close>

record uart_drv =
  ud_start :: bool
  ud_to_slave :: prio_q
  ud_from_slave :: prio_q
  ud_tx_needed :: bool
  ud_bus :: "bytes list"

section \<open>Write\<close>

text \<open>
  The frame in \<open>sendbuf\<close>: header fields are assigned in place, the payload is copied unless the packet is zero-copy.
  The result is the new length and the buffer.
\<close>

definition uart_build :: "bool \<Rightarrow> interface_buffer_handle \<Rightarrow> bytes \<Rightarrow> (u16 \<times> bytes) option" where
  "uart_build cks bh sendbuf = do {
     h0 \<leftarrow> decode_header sendbuf;
     let len = bh_payload_len bh;
     let zc = (bh_zcopy bh \<noteq> 0);
     let h = h0\<lparr>ph_len := len, ph_offset := of_nat HDR_SIZE, ph_if_type := ucast (bh_if_type bh),
                ph_if_num := ucast (bh_if_num bh), ph_seq_num := bh_seq_num bh, ph_flags := bh_flag bh\<rparr>;
     let sendbuf = put_header h sendbuf;
     (h, len, sendbuf) \<leftarrow>
       (if zc then Some (h, len, sendbuf)
        else if ph_if_type h = ucast (if_code ESP_HCI_IF) then do {
          p \<leftarrow> bh_payload bh;
          t \<leftarrow> peek p 0;
          let len = len - 1;
          d \<leftarrow> mem_slice p 1 (unat len);
          sendbuf \<leftarrow> poke HDR_SIZE d sendbuf;
          Some (h\<lparr>ph_pkt_type := t, ph_len := len\<rparr>, len, sendbuf)
        } else do {
          d \<leftarrow> (if len = 0 then Some [] else bh_payload bh \<bind> (\<lambda>p. mem_slice p 0 (unat len)));
          sendbuf \<leftarrow> poke HDR_SIZE d sendbuf;
          Some (h, len, sendbuf)
        });
     let sendbuf = put_header h sendbuf;
     if \<not> cks then Some (len, sendbuf)
     else do {
       c \<leftarrow> compute_checksum sendbuf (of_nat (HDR_SIZE + unat len));
       Some (len, put_header (h\<lparr>ph_checksum := c\<rparr>) sendbuf)
     }
   }"

text \<open>The label \<open>done\<close>: what is freed for a packet of (remaining) length \<open>len\<close>.\<close>

definition uart_done :: "interface_buffer_handle \<Rightarrow> u16 \<Rightarrow> tx_free list" where
  "uart_done bh len =
     (if len \<noteq> 0 \<and> bh_zcopy bh = 0 \<and> bh_free bh \<and> bh_priv bh \<noteq> 0 then [F_Priv] else []) @
     (if bh_zcopy bh = 0 then [F_Send] else if bh_free bh then [F_Payload] else [])"

text \<open>\<open>h_uart_write_packet\<close>: \<open>mem\<close>: the pool has a buffer; \<open>bus_write\<close>: the number of octets \<open>h_uart_write\<close> reports.\<close>

definition h_uart_write_packet ::
  "bool \<Rightarrow> bool \<Rightarrow> (bytes \<Rightarrow> nat) \<Rightarrow> interface_buffer_handle option \<Rightarrow> (h_err \<times> bytes list \<times> tx_free list) option" where
  "h_uart_write_packet cks mem bus_write buf_handle =
     (case buf_handle of None \<Rightarrow> Some (H_FAIL, [], [])
      | Some bh \<Rightarrow>
          if bh_flag bh = 0 \<and> bh_payload_len bh = 0 then Some (H_FAIL, [], [])
          else if bh_zcopy bh = 0 \<and> \<not> mem then Some (H_FAIL, [], [])
          else if unat (bh_payload_len bh) > MAX_UART_BUFFER_SIZE - HDR_SIZE then
            Some (H_FAIL, [], uart_done bh (bh_payload_len bh))
          else do {
            sendbuf \<leftarrow> (if bh_zcopy bh = 0 then Some (replicate MAX_UART_BUFFER_SIZE 0) else bh_payload bh);
            (len, sendbuf) \<leftarrow> uart_build cks bh sendbuf;
            frame \<leftarrow> mem_slice sendbuf 0 (unat len + HDR_SIZE);
            Some (if bus_write frame \<noteq> unat len + HDR_SIZE then H_FAIL else H_OK, [frame], uart_done bh len)
          })"

text \<open>One turn of \<open>h_uart_write_task\<close>: \<open>None\<close> while it has not been started or waits.\<close>

definition uart_write_step ::
  "bool \<Rightarrow> bool \<Rightarrow> (bytes \<Rightarrow> nat) \<Rightarrow> uart_drv \<Rightarrow> (tx_free list \<times> uart_drv) option" where
  "uart_write_step cks mem bus_write st =
     (if \<not> ud_start st \<or> pq_sem (ud_to_slave st) = 0 then None
      else case prio_recv (ud_to_slave st) of (got, q) \<Rightarrow>
        let st = st\<lparr>ud_to_slave := q\<lparr>pq_sem := pq_sem q - 1\<rparr>, ud_tx_needed := (ud_tx_needed st \<and> got \<noteq> None)\<rparr> in
        if \<not> ud_tx_needed st then Some ([], st)
        else do {
          (_, fs, fr) \<leftarrow> h_uart_write_packet cks mem bus_write got;
          Some (fr, st\<lparr>ud_bus := ud_bus st @ fs\<rparr>)
        })"

text \<open>
  \<open>esp_hosted_tx\<close> of this bus: \<open>up\<close> is \<open>is_transport_tx_ready\<close>. Packets with other flags than \<open>MORE_FRAGMENT\<close> are
  not checked. The second result: what is freed.
\<close>

definition uart_esp_hosted_tx ::
  "bool \<Rightarrow> u8 \<Rightarrow> u8 \<Rightarrow> bytes option \<Rightarrow> u16 \<Rightarrow> u8 \<Rightarrow> nat \<Rightarrow> bool \<Rightarrow> u8 \<Rightarrow> uart_drv \<Rightarrow> h_err \<times> nat list \<times> uart_drv" where
  "uart_esp_hosted_tx up iface_type iface_num payload_buf payload_len zcopy buffer_to_free free_func flags st =
     (let bh = zero_handle\<lparr>bh_zcopy := zcopy, bh_if_type := iface_type, bh_if_num := iface_num,
            bh_payload_len := payload_len, bh_payload := payload_buf, bh_priv := buffer_to_free,
            bh_free := free_func, bh_flag := flags\<rparr>
      in if (flags = 0 \<or> flags = MORE_FRAGMENT) \<and>
            (payload_buf = None \<or> payload_len = 0 \<or> unat payload_len > MAX_PAYLOAD_SIZE \<or> \<not> up)
         then (H_FAIL, snd (free_handle bh), st)
         else (H_OK, [], st\<lparr>ud_to_slave := prio_send bh (ud_to_slave st)\<rparr>))"

text \<open>
  \<open>bus_inform_slave_host_power_save_start\<close> and \<open>_stop\<close>: the flag is sent directly while the write task has not been
  started.
\<close>

definition bus_inform_slave_host_power_save ::
  "u8 \<Rightarrow> bool \<Rightarrow> bool \<Rightarrow> (bytes \<Rightarrow> nat) \<Rightarrow> bool \<Rightarrow> uart_drv \<Rightarrow> (h_err \<times> uart_drv) option" where
  "bus_inform_slave_host_power_save flag cks mem bus_write up st =
     (if \<not> ud_start st then do {
        (ret, fs, _) \<leftarrow> h_uart_write_packet cks mem bus_write
          (Some (zero_handle\<lparr>bh_if_type := if_code ESP_SERIAL_IF, bh_flag := flag\<rparr>));
        Some (ret, st\<lparr>ud_bus := ud_bus st @ fs\<rparr>)
      } else case uart_esp_hosted_tx up (if_code ESP_SERIAL_IF) 0 None 0 0 0 False flag st of (ret, _, st) \<Rightarrow> Some (ret, st))"

section \<open>Read\<close>

text \<open>
  \<open>is_valid_uart_rx_packet\<close>: \<open>None\<close> reads behind the buffer; otherwise the length and offset of a valid packet, and the
  buffer with the checksum field cleared by the check.
\<close>

definition is_valid_uart_rx_packet :: "bool \<Rightarrow> bytes \<Rightarrow> ((u16 \<times> u16) option \<times> bytes) option" where
  "is_valid_uart_rx_packet cks rxbuff = do {
     h \<leftarrow> decode_header rxbuff;
     let len = ph_len h; let offset = ph_offset h;
     if len = 0 \<or> unat len > MAX_PAYLOAD_SIZE \<or> unat offset \<noteq> HDR_SIZE then Some (None, rxbuff)
     else if \<not> cks then Some (Some (len, offset), rxbuff)
     else do {
       let rxbuff = put_header (h\<lparr>ph_checksum := 0\<rparr>) rxbuff;
       checksum \<leftarrow> compute_checksum rxbuff (len + offset);
       Some (if checksum \<noteq> ph_checksum h then None else Some (len, offset), rxbuff)
     }
   }"

definition push_to_rx_queue :: "nat \<Rightarrow> bytes \<Rightarrow> u16 \<Rightarrow> u16 \<Rightarrow> prio_q \<Rightarrow> prio_q option" where
  "push_to_rx_queue rxbuff pkt len offset q = do {
     h \<leftarrow> decode_header pkt;
     Some (prio_send (zero_handle\<lparr>bh_priv := rxbuff, bh_free := True, bh_payload_len := len,
       bh_if_type := ucast (ph_if_type h), bh_if_num := ucast (ph_if_num h),
       bh_payload := Some (drop (unat offset) pkt), bh_seq_num := ph_seq_num h, bh_flag := ph_flags h\<rparr>) q)
   }"

text \<open>
  One turn of \<open>h_uart_read_task\<close>: \<open>buf\<close> is the pool's buffer (0: none, the assertion fails). The result: the source,
  what is freed, and the driver.
\<close>

definition uart_read_step ::
  "(nat \<Rightarrow> 's \<Rightarrow> (bytes \<times> 's) option) \<Rightarrow> bool \<Rightarrow> nat \<Rightarrow> 's \<times> uart_drv \<Rightarrow> ('s \<times> nat list \<times> uart_drv) option" where
  "uart_read_step rd cks buf c = do {
     let s = fst c; let st = snd c;
     (hb, s) \<leftarrow> rd HDR_SIZE s;
     if length hb < HDR_SIZE then Some (s, [], st)
     else do {
       header \<leftarrow> decode_header hb;
       let len = unat (ph_len header);
       if unat (ph_offset header) \<noteq> HDR_SIZE then Some (s, [], st)
       else if len + HDR_SIZE > MAX_UART_BUFFER_SIZE then Some (s, [], st)
       else do {
         (pb, s) \<leftarrow> (if len \<noteq> 0 then rd len s else Some ([], s));
         if length pb < len then Some (s, [], st)
         else if buf = 0 then None
         else do {
           let rxbuff = take (len + HDR_SIZE) (hb @ pb) @ replicate (MAX_UART_BUFFER_SIZE - (len + HDR_SIZE)) 0;
           (valid, rxbuff) \<leftarrow> is_valid_uart_rx_packet cks rxbuff;
           case valid of
             None \<Rightarrow> Some (s, [buf], st)
           | Some (len, offset) \<Rightarrow> do {
               q \<leftarrow> push_to_rx_queue buf rxbuff len offset (ud_from_slave st);
               Some (s, [], st\<lparr>ud_from_slave := q\<rparr>)
             }
         }
       }
     }
   }"

text \<open>One turn of \<open>h_uart_process_rx_task\<close>.\<close>

definition uart_process_rx_step ::
  "bool \<Rightarrow> nat \<Rightarrow> bool \<Rightarrow> (u8 \<Rightarrow> bool) \<Rightarrow> uart_drv \<times> serial_ll \<Rightarrow> (rx_action \<times> nat list \<times> uart_drv \<times> serial_ll) option" where
  "uart_process_rx_step mem sbuf qok chan c =
     (case c of (st, ll) \<Rightarrow>
      if pq_sem (ud_from_slave st) = 0 then None
      else case prio_recv (ud_from_slave st) of (got, q) \<Rightarrow>
        let st = st\<lparr>ud_from_slave := q\<lparr>pq_sem := pq_sem q - 1\<rparr>\<rparr> in
        case got of
          None \<Rightarrow> Some (RX_None, [], st, ll)
        | Some bh \<Rightarrow> do {
            (act, fr, start, ll) \<leftarrow> bus_rx_dispatch mem sbuf qok chan bh ll;
            Some (act, fr, if start then st\<lparr>ud_start := True\<rparr> else st, ll)
          })"

section \<open>Set-up and shutdown\<close>

text \<open>
  \<open>bus_deinit_internal\<close>: the queues are deleted with the packets in them, whose buffers are not freed, and the trigger
  of the write task is kept.
\<close>

definition uart_bus_deinit :: "uart_drv \<Rightarrow> uart_drv" where
  "uart_bus_deinit st = st\<lparr>ud_to_slave := empty_prio_q, ud_from_slave := empty_prio_q\<rparr>"

text \<open>\<open>bus_init_internal\<close>: \<open>ok i\<close> is the result of its \<open>i\<close>-th resource; the write task starts with its locals.\<close>

definition uart_bus_init :: "(nat \<Rightarrow> bool) \<Rightarrow> uart_drv \<Rightarrow> bool \<times> uart_drv" where
  "uart_bus_init ok st =
     (if \<forall>i \<in> set [0..<12]. ok i
      then (True, st\<lparr>ud_to_slave := empty_prio_q, ud_from_slave := empty_prio_q, ud_tx_needed := True\<rparr>)
      else (False, uart_bus_deinit st))"

text \<open>
  \<open>ensure_slave_bus_ready\<close>: the result, whether the co-processor was reset and the input flushed, and whether the end
  of the power save is signalled.
\<close>

definition uart_ensure_slave_bus_ready :: "bool \<Rightarrow> bool \<Rightarrow> bool \<Rightarrow> h_err \<times> bool \<times> bool \<times> bool" where
  "uart_ensure_slave_bus_ready config woke handle =
     (if \<not> config then (H_FAIL, False, False, False)
      else if \<not> woke then (H_OK, True, handle, False)
      else (H_OK, False, False, True))"

section \<open>Lemmas: transmit\<close>

lemma decode_zeros: "decode_header (replicate 1600 0) = Some zero_header"
proof -
  have "encode_header zero_header = replicate 12 0"
    by (simp add: encode_header_def zero_header_def nibbles_def throttle_byte_def lo8_def hi8_def numeral_eq_Suc)
  then show ?thesis
    using decode_encode [of zero_header "replicate 1588 0"] replicate_add [of 12 1588 "0 :: u8"] by simp
qed

lemma poke_zeros:
  assumes "length d \<le> 1588"
  shows "poke 12 d (put_header h (replicate 1600 0)) = Some (encode_header h @ d @ replicate (1588 - length d) 0)"
    and "poke 12 d (replicate 1600 0) = Some (replicate 12 0 @ d @ replicate (1588 - length d) 0)"
  using assms by (simp_all add: poke_def put_header_def)

lemma put_header_zeros: "put_header h (replicate 12 0 @ xs) = encode_header h @ xs"
  "put_header h (encode_header h' @ xs) = encode_header h @ xs"
  by (simp_all add: put_header_def)

text \<open>The end of both write functions, on the frame with its header.\<close>

definition frame_result ::
  "(bytes \<Rightarrow> nat) \<Rightarrow> esp_payload_header \<Rightarrow> u16 \<Rightarrow> bytes \<Rightarrow> (h_err \<times> bytes list) option" where
  "frame_result bus_write h len xs = do {
     c \<leftarrow> compute_checksum (encode_header h @ xs) (of_nat (12 + unat len));
     frame \<leftarrow> mem_slice (encode_header (h\<lparr>ph_checksum := c\<rparr>) @ xs) 0 (unat len + 12);
     Some (if bus_write frame \<noteq> unat len + 12 then H_FAIL else H_OK, [frame])
   }"

definition frame_of :: "interface_buffer_handle \<Rightarrow> (esp_payload_header \<times> u16 \<times> bytes) option" where
  "frame_of bh = do {
     p \<leftarrow> bh_payload bh;
     let h = zero_header\<lparr>ph_len := bh_payload_len bh, ph_offset := 12, ph_if_type := ucast (bh_if_type bh),
               ph_if_num := ucast (bh_if_num bh), ph_seq_num := bh_seq_num bh, ph_flags := bh_flag bh\<rparr>;
     if (ucast (bh_if_type bh) :: 4 word) = ucast (if_code ESP_HCI_IF) then do {
       t \<leftarrow> peek p 0;
       let len = bh_payload_len bh - 1;
       d \<leftarrow> mem_slice p 1 (unat len);
       if length d > 1588 then None
       else Some (h\<lparr>ph_pkt_type := t, ph_len := len\<rparr>, len, d @ replicate (1588 - length d) 0)
     } else do {
       d \<leftarrow> mem_slice p 0 (unat (bh_payload_len bh));
       Some (h, bh_payload_len bh, d @ replicate (1588 - length d) 0)
     }
   }"

lemma mem_slice_length: "mem_slice b i n = Some d \<Longrightarrow> length d = n"
  by (auto simp: mem_slice_def split: if_splits)

lemma poke_too_long: "1588 < length d \<Longrightarrow> poke 12 d (put_header h (replicate 1600 0)) = None"
  "1588 < length d \<Longrightarrow> poke 12 d (replicate 1600 0) = None"
  by (simp_all add: poke_def put_header_def)

abbreviation (input) "sent \<equiv> map_option (\<lambda>(e, fs, fr). (e, fs))"

lemma uart_write_frame:
  assumes "bh_zcopy bh = 0" "bh_payload bh \<noteq> None" "bh_flag bh \<noteq> 0 \<or> bh_payload_len bh \<noteq> 0"
    and "unat (bh_payload_len bh) \<le> 1588"
  shows "sent (h_uart_write_packet True True bus_write (Some bh)) =
    frame_of bh \<bind> (\<lambda>(h, len, xs). frame_result bus_write h len xs)"
proof -
  obtain p where p: "bh_payload bh = Some p" using assms(2) by blast
  have m0: "mem_slice p 0 0 = Some []" by (simp add: mem_slice_def)
  show ?thesis
  proof (cases "(ucast (bh_if_type bh) :: 4 word) = 4")
    case True
    show ?thesis
    proof (cases "peek p 0 \<bind> (\<lambda>t. map_option (Pair t) (mem_slice p 1 (unat (bh_payload_len bh - 1))))")
      case None
      then show ?thesis
        using assms p True
        by (auto simp: h_uart_write_packet_def uart_build_def decode_zeros frame_of_def Let_def split: bind_splits)
    next
      case (Some td)
      obtain t d where td: "td = (t, d)" "peek p 0 = Some t" "mem_slice p (Suc 0) (unat (bh_payload_len bh - 1)) = Some d"
        using Some by (auto simp: bind_eq_Some_conv)
      show ?thesis
        using assms p True td(2,3) mem_slice_length [OF td(3)]
        by (cases "length d \<le> 1588"; cases "bh_flag bh = 0")
          (simp_all add: h_uart_write_packet_def uart_build_def decode_zeros frame_of_def Let_def poke_zeros poke_too_long
            put_header_zeros frame_result_def option.map_comp comp_def map_option_bind bind_assoc not_le)
    qed
  next
    case False
    show ?thesis
    proof (cases "mem_slice p 0 (unat (bh_payload_len bh))")
      case None
      then show ?thesis
        using assms p False
        by (auto simp: h_uart_write_packet_def uart_build_def decode_zeros frame_of_def Let_def m0 split: bind_splits)
    next
      case (Some d)
      have d: "(if bh_payload_len bh = 0 then Some [] else bh_payload bh \<bind> (\<lambda>p. mem_slice p 0 (unat (bh_payload_len bh)))) = Some d"
        using Some p m0 by (cases "bh_payload_len bh = 0") auto
      show ?thesis
        using assms p False Some mem_slice_length [OF Some]
        by (cases "bh_flag bh = 0")
          (simp_all add: h_uart_write_packet_def uart_build_def decode_zeros frame_of_def Let_def poke_zeros d
            put_header_zeros frame_result_def option.map_comp comp_def map_option_bind)
    qed
  qed
qed

lemma mem_slice_header: "mem_slice (replicate 12 0 @ xs) 0 12 = Some (replicate 12 0)"
  by (simp add: mem_slice_def)

lemma jl_write_frame:
  assumes "bh_zcopy bh = 0" "bh_payload bh \<noteq> None" "bh_flag bh \<noteq> 0 \<or> bh_payload_len bh \<noteq> 0"
    and "unat (bh_payload_len bh) \<le> 1588"
  shows "sent (jl_uart_write_packet True bus_write (Some bh)) =
    frame_of bh \<bind> (\<lambda>(h, len, xs). frame_result bus_write h len xs)"
proof -
  obtain p where p: "bh_payload bh = Some p" using assms(2) by blast
  have m0: "mem_slice p 0 0 = Some []" by (simp add: mem_slice_def)
  note defs = jl_uart_write_packet_def frame_of_def Let_def poke_zeros poke_too_long put_header_zeros frame_result_def
    mem_slice_header option.map_comp comp_def map_option_bind not_le
  show ?thesis
  proof (cases "(ucast (bh_if_type bh) :: 4 word) = 4")
    case True
    show ?thesis
    proof (cases "peek p 0 \<bind> (\<lambda>t. map_option (Pair t) (mem_slice p 1 (unat (bh_payload_len bh - 1))))")
      case None
      then show ?thesis
        using assms p True by (auto simp: jl_uart_write_packet_def frame_of_def Let_def split: bind_splits)
    next
      case (Some td)
      obtain t d where td: "td = (t, d)" "peek p 0 = Some t" "mem_slice p (Suc 0) (unat (bh_payload_len bh - 1)) = Some d"
        using Some by (auto simp: bind_eq_Some_conv)
      show ?thesis
        using assms p True td(2,3) mem_slice_length [OF td(3)]
        by (cases "length d \<le> 1588"; cases "bh_flag bh = 0") (simp_all add: defs)
    qed
  next
    case False
    show ?thesis
    proof (cases "mem_slice p 0 (unat (bh_payload_len bh))")
      case None
      then show ?thesis
        using assms p False m0
        by (cases "bh_payload_len bh = 0") (auto simp: jl_uart_write_packet_def frame_of_def Let_def split: bind_splits)
    next
      case (Some d)
      show ?thesis
        using assms p False Some mem_slice_length [OF Some] m0
        by (cases "bh_flag bh = 0"; cases "bh_payload_len bh = 0") (simp_all add: defs)
    qed
  qed
qed

lemma plain_equiv:
  assumes "bh_zcopy bh = 0" "bh_payload bh \<noteq> None"
  shows "sent (h_uart_write_packet True mem bus_write (Some bh)) = sent (jl_uart_write_packet mem bus_write (Some bh))"
proof (cases "mem \<and> \<not> (bh_flag bh = 0 \<and> bh_payload_len bh = 0) \<and> unat (bh_payload_len bh) \<le> 1588")
  case True
  then show ?thesis using uart_write_frame [OF assms] jl_write_frame [OF assms] by auto
next
  case False
  then show ?thesis using assms(1) by (auto simp: h_uart_write_packet_def jl_uart_write_packet_def Let_def)
qed

text \<open>A packet without payload: a null pointer is only read for an HCI packet.\<close>

lemma null_payload_equiv:
  assumes "bh_zcopy bh = 0" "bh_payload bh = None"
  shows "sent (h_uart_write_packet True mem bus_write (Some bh)) = sent (jl_uart_write_packet mem bus_write (Some bh))"
proof (cases "bh_payload_len bh = 0 \<and> (ucast (bh_if_type bh) :: 4 word) \<noteq> 4")
  case True
  let ?bh = "bh\<lparr>bh_payload := Some []\<rparr>"
  have m0: "mem_slice [] 0 0 = Some []" by (simp add: mem_slice_def)
  have "h_uart_write_packet True mem bus_write (Some bh) = h_uart_write_packet True mem bus_write (Some ?bh)"
    using assms True by (simp add: h_uart_write_packet_def uart_build_def decode_zeros Let_def uart_done_def)
  moreover have "jl_uart_write_packet mem bus_write (Some bh) = jl_uart_write_packet mem bus_write (Some ?bh)"
    using assms True by (simp add: jl_uart_write_packet_def Let_def)
  ultimately show ?thesis using plain_equiv [of ?bh] assms(1) by simp
next
  case False
  then show ?thesis
    using assms by (auto simp: h_uart_write_packet_def uart_build_def jl_uart_write_packet_def decode_zeros Let_def)
qed

text \<open>
  A zero-copy packet is sent from the buffer of its payload, whose first octets become the header. The ESP-IDF driver
  assigns some fields of that header only, the JL port clears it first: a cleared header has zero in the others.
\<close>

definition cleared_header :: "interface_buffer_handle \<Rightarrow> bool" where
  "cleared_header bh =
     (case bh_payload bh \<bind> decode_header of None \<Rightarrow> True
      | Some h \<Rightarrow> h\<lparr>ph_len := 0, ph_offset := 0, ph_if_type := 0, ph_if_num := 0, ph_seq_num := 0, ph_flags := 0\<rparr> = zero_header)"

lemma put_header_twice: "12 \<le> length p \<Longrightarrow> put_header h (put_header h' p) = put_header h p"
  by (simp add: put_header_def)

lemma cleared_fields:
  "h\<lparr>ph_len := 0, ph_offset := 0, ph_if_type := 0, ph_if_num := 0, ph_seq_num := 0, ph_flags := 0\<rparr> = zero_header \<Longrightarrow>
   h\<lparr>ph_len := l, ph_offset := off, ph_if_type := t, ph_if_num := n, ph_seq_num := s, ph_flags := f\<rparr> =
   zero_header\<lparr>ph_len := l, ph_offset := off, ph_if_type := t, ph_if_num := n, ph_seq_num := s, ph_flags := f\<rparr>"
  by (cases h) (simp add: zero_header_def)

lemma zcopy_equiv:
  assumes "bh_zcopy bh \<noteq> 0" "cleared_header bh"
  shows "sent (h_uart_write_packet True mem bus_write (Some bh)) = sent (jl_uart_write_packet mem bus_write (Some bh))"
proof (cases "bh_payload bh \<bind> decode_header")
  case None
  then show ?thesis
  proof (cases "bh_payload bh")
    case (Some p)
    then have "decode_header p = None" using None by simp
    moreover from this have "mem_slice p 0 12 = None" by (simp add: mem_slice_def decode_header_None_iff)
    ultimately show ?thesis
      using assms(1) Some by (auto simp: h_uart_write_packet_def uart_build_def jl_uart_write_packet_def Let_def)
  qed (use assms(1) in \<open>auto simp: h_uart_write_packet_def jl_uart_write_packet_def Let_def\<close>)
next
  case (Some h)
  then obtain p where p: "bh_payload bh = Some p" "decode_header p = Some h" by (auto simp: bind_eq_Some_conv)
  then have l: "12 \<le> length p" "mem_slice p 0 12 = Some (take 12 p)"
    using decode_header_None_iff [of p] by (auto simp: mem_slice_def)
  have c: "h\<lparr>ph_len := 0, ph_offset := 0, ph_if_type := 0, ph_if_num := 0, ph_seq_num := 0, ph_flags := 0\<rparr> = zero_header"
    using assms(2) p by (simp add: cleared_header_def)
  show ?thesis
    using assms(1) p l
    by (auto simp: h_uart_write_packet_def uart_build_def jl_uart_write_packet_def Let_def cleared_fields [OF c] put_header_twice
        map_option_bind comp_def option.map_comp)
qed

text \<open>Both drivers return the same result and write the same frame, on every branch.\<close>

lemma write_packet_equiv:
  assumes "bh_zcopy bh \<noteq> 0 \<longrightarrow> cleared_header bh"
  shows "sent (h_uart_write_packet True mem bus_write (Some bh)) = sent (jl_uart_write_packet mem bus_write (Some bh))"
  using assms plain_equiv null_payload_equiv zcopy_equiv by (cases "bh_zcopy bh = 0"; cases "bh_payload bh") auto

text \<open>\<open>n\<close> turns of the write task; \<open>mem i\<close>: the pool has a buffer at turn \<open>i\<close>.\<close>

primrec uart_write_turns ::
  "(nat \<Rightarrow> bool) \<Rightarrow> (bytes \<Rightarrow> nat) \<Rightarrow> nat \<Rightarrow> nat \<Rightarrow> uart_drv \<Rightarrow> (tx_free list \<times> uart_drv) option" where
  "uart_write_turns mem bus_write i 0 st = Some ([], st)"
| "uart_write_turns mem bus_write i (Suc n) st = do {
     (fr, st) \<leftarrow> uart_write_step True (mem i) bus_write st;
     (fr', st) \<leftarrow> uart_write_turns mem bus_write (i + 1) n st;
     Some (fr @ fr', st)
   }"

definition ud_ready :: "uart_drv \<Rightarrow> bool" where
  "ud_ready st = (ud_start st \<and> ud_tx_needed st \<and> pq_sem (ud_to_slave st) = length (q_all (ud_to_slave st)))"

lemma uart_write_step_ready:
  assumes "ud_ready st" "q_all (ud_to_slave st) = bh # bhs"
  shows "\<exists>q. q_all q = bhs \<and> pq_sem q = length bhs \<and> uart_write_step cks mem bus_write st =
    map_option (\<lambda>(e, fs, fr). (fr, st\<lparr>ud_to_slave := q, ud_tx_needed := True, ud_bus := ud_bus st @ fs\<rparr>))
      (h_uart_write_packet cks mem bus_write (Some bh))"
proof -
  obtain got q where r: "prio_recv (ud_to_slave st) = (got, q)" by fastforce
  have g: "got = Some bh" "q_all q = bhs" "pq_sem q = Suc (length bhs)"
    using prio_recv_all [OF r] assms by (auto simp: ud_ready_def split: option.splits)
  let ?q = "q\<lparr>pq_sem := pq_sem q - 1\<rparr>"
  have "uart_write_step cks mem bus_write st =
    map_option (\<lambda>(e, fs, fr). (fr, st\<lparr>ud_to_slave := ?q, ud_tx_needed := True, ud_bus := ud_bus st @ fs\<rparr>))
      (h_uart_write_packet cks mem bus_write (Some bh))"
    using assms r g
    by (cases "h_uart_write_packet cks mem bus_write (Some bh)")
      (auto simp: uart_write_step_def ud_ready_def Let_def)
  then show ?thesis using g by (intro exI [of _ ?q]) simp
qed

section \<open>Lemmas: receive\<close>

definition uart_pkt :: "interface_buffer_handle \<Rightarrow> interface_buffer_handle" where
  "uart_pkt bh = bh\<lparr>bh_payload := map_option (take (unat (bh_payload_len bh))) (bh_payload bh)\<rparr>"

lemma uart_read_step_frame:
  assumes src: "byte_source rd avail ready" and r: "ready s" "avail s = seal_frame h p @ rest"
    and h: "frame_ok h p" "buf \<noteq> 0"
  shows "\<exists>s' bh. uart_read_step rd True buf (s, st) = Some (s', [], st\<lparr>ud_from_slave := prio_send bh (ud_from_slave st)\<rparr>) \<and>
    uart_pkt bh = rx_handle buf (sealed h p) p \<and> avail s' = rest \<and> ready s'"
proof -
  let ?h = "sealed h p" and ?z = "replicate (1588 - length p) 0 :: bytes"
  have l: "p \<noteq> []" "length p \<le> 1588" "ph_len h = of_nat (length p)" "ph_offset h = 12" using h by (simp_all add: frame_ok_def)
  have u: "unat (ph_len h) = length p" using l by (simp add: unat_of_nat_u16)
  have u12: "unat (ph_len h + 12) = length p + 12" using u l(2) by (subst unat_word_ariths) simp
  have nz: "ph_len h \<noteq> 0" using u l(1) by auto
  obtain s1 s2 where rd: "rd 12 s = Some (encode_header ?h, s1)" "rd (length p) s1 = Some (p, s2)"
    "avail s2 = rest" "ready s2"
    using byte_source.read_header_payload [OF src r(1), of "encode_header ?h" p rest] r(2)
    by (auto simp: seal_frame_split)
  define c where "c = ph_checksum ?h"
  have ck: "compute_checksum (encode_header (?h\<lparr>ph_checksum := 0\<rparr>) @ p @ ?z) (ph_len h + 12) = Some c"
    using u12 by (subst compute_checksum_eq) (simp_all add: c_def)
  have v: "is_valid_uart_rx_packet True (encode_header ?h @ p @ ?z) =
      Some (Some (ph_len h, 12), encode_header (?h\<lparr>ph_checksum := 0\<rparr>) @ p @ ?z)"
    using l u nz ck by (simp add: is_valid_uart_rx_packet_def put_header_def c_def Let_def)
  define bh where "bh = zero_handle\<lparr>bh_priv := buf, bh_free := True, bh_payload_len := ph_len h,
    bh_if_type := ucast (ph_if_type h), bh_if_num := ucast (ph_if_num h), bh_payload := Some (p @ ?z),
    bh_seq_num := ph_seq_num h, bh_flag := ph_flags h\<rparr>"
  have pq: "push_to_rx_queue buf (encode_header (?h\<lparr>ph_checksum := 0\<rparr>) @ p @ ?z) (ph_len h) 12 (ud_from_slave st) =
      Some (prio_send bh (ud_from_slave st))"
    by (simp add: push_to_rx_queue_def bh_def)
  have "uart_read_step rd True buf (s, st) = Some (s2, [], st\<lparr>ud_from_slave := prio_send bh (ud_from_slave st)\<rparr>)"
    using rd l u h(2) v pq by (simp add: uart_read_step_def Let_def)
  moreover have "uart_pkt bh = rx_handle buf ?h p"
    using u l by (simp add: uart_pkt_def bh_def rx_handle_def zero_handle_def)
  ultimately show ?thesis using rd by blast
qed

text \<open>\<open>n\<close> turns of the read task, with the buffers \<open>bufs\<close>.\<close>

primrec uart_read_turns ::
  "(nat \<Rightarrow> 's \<Rightarrow> (bytes \<times> 's) option) \<Rightarrow> nat list \<Rightarrow> 's \<times> uart_drv \<Rightarrow> ('s \<times> uart_drv) option" where
  "uart_read_turns rd [] c = Some c"
| "uart_read_turns rd (b # bufs) c = do {
     (s, fr, st) \<leftarrow> uart_read_step rd True b c;
     uart_read_turns rd bufs (s, st)
   }"

section \<open>Lemmas: the defects of the driver\<close>

text \<open>Once a turn of the write task has found no packet, it only empties the queue: nothing is sent or freed.\<close>

lemma uart_tx_dead:
  assumes "uart_write_step cks mem bus_write st = Some (fr, st')" "\<not> ud_tx_needed st"
  shows "\<not> ud_tx_needed st' \<and> fr = [] \<and> ud_bus st' = ud_bus st"
  using assms by (auto simp: uart_write_step_def Let_def split: if_splits prod.splits)

text \<open>A packet for which the pool has no frame buffer is dropped with its own buffer; the JL port frees it.\<close>

lemma uart_no_buffer_leak:
  assumes "bh_zcopy bh = 0" "bh_free bh" "bh_priv bh \<noteq> 0" "bh_payload_len bh \<noteq> 0"
  shows "h_uart_write_packet cks False bus_write (Some bh) = Some (H_FAIL, [], [])"
    "jl_uart_tx_task (\<lambda>_. False) bus_write i [bh] = Some ([], [F_Priv])"
  using assms by (auto simp: h_uart_write_packet_def jl_uart_write_packet_def Let_def)

text \<open>
  A zero-copy packet whose buffer has octets left in the header's checksum field: the JL port sends a frame that a
  receiver accepts, the frame of the ESP-IDF driver is dropped by its checksum.
\<close>

definition stale_bh :: interface_buffer_handle where
  "stale_bh = zero_handle\<lparr>bh_zcopy := 1, bh_if_type := 1, bh_payload_len := 2,
     bh_payload := Some (encode_header (zero_header\<lparr>ph_checksum := 9\<rparr>) @ [7, 8])\<rparr>"

definition accepted :: "(h_err \<times> bytes list \<times> tx_free list) option \<Rightarrow> bool list" where
  "accepted r = (case r of None \<Rightarrow> [] | Some (e, fs, fr) \<Rightarrow>
     map (\<lambda>f. case is_valid_uart_rx_packet True f of Some (Some _, _) \<Rightarrow> True | _ \<Rightarrow> False) fs)"

lemma uart_stale_header:
  "accepted (h_uart_write_packet True True length (Some stale_bh)) = [False]"
  "accepted (jl_uart_write_packet True length (Some stale_bh)) = [True]"
  by code_simp+

text \<open>After a shutdown and a new start the write task sends before the co-processor has announced itself.\<close>

lemma uart_restart_started:
  "uart_bus_init ok (uart_bus_deinit st) = (True, st') \<Longrightarrow> ud_start st' = ud_start st"
  by (auto simp: uart_bus_init_def uart_bus_deinit_def split: if_splits)

section \<open>Properties\<close>

text \<open>
  C22: the two UART transports are equivalent senders: for any packets in the queues of the ESP-IDF driver, any
  allocations and any results of the bus, its write task puts the same frames on the wire as the transmit task of the JL
  port given the same packets in the order of their priority; also when packets are too long, empty, only carry flags,
  have no payload, or cannot be sent. Two conditions: a packet is not the one the JL port uses to stop its task, and a
  zero-copy packet has zero in the header fields neither sender assigns (the ESP-IDF driver sends whatever is there, see
  \<open>uart_stale_header\<close>).
\<close>
theorem uart_tx_equivalent:
  assumes "ud_ready st" "q_all (ud_to_slave st) = bhs"
    and "\<forall>bh \<in> set bhs. bh_zcopy bh \<noteq> H_STOP_SENTINEL \<and> (bh_zcopy bh \<noteq> 0 \<longrightarrow> cleared_header bh)"
  shows "map_option (\<lambda>(fr, st'). ud_bus st') (uart_write_turns mem bus_write i (length bhs) st) =
    map_option (\<lambda>(fs, fr). ud_bus st @ fs) (jl_uart_tx_task mem bus_write i bhs)"
  using assms
proof (induction bhs arbitrary: st i)
  case Nil
  then show ?case by simp
next
  case (Cons bh bhs)
  have z: "bh_zcopy bh \<noteq> H_STOP_SENTINEL" "bh_zcopy bh \<noteq> 0 \<longrightarrow> cleared_header bh" using Cons.prems(3) by simp_all
  note eq = write_packet_equiv [OF z(2), of "mem i" bus_write]
  obtain q where q: "q_all q = bhs" "pq_sem q = length bhs" and step: "uart_write_step True (mem i) bus_write st =
      map_option (\<lambda>(e, fs, fr). (fr, st\<lparr>ud_to_slave := q, ud_tx_needed := True, ud_bus := ud_bus st @ fs\<rparr>))
        (h_uart_write_packet True (mem i) bus_write (Some bh))"
    using uart_write_step_ready [OF Cons.prems(1,2)] by blast
  show ?case
  proof (cases "h_uart_write_packet True (mem i) bus_write (Some bh)")
    case None
    then show ?thesis using eq step z by simp
  next
    case (Some r)
    obtain e fs fr where r: "r = (e, fs, fr)" by (cases r)
    obtain fr2 where jl: "jl_uart_write_packet (mem i) bus_write (Some bh) = Some (e, fs, fr2)"
      using eq Some r by (auto simp: map_option_case split: option.splits)
    let ?st = "st\<lparr>ud_to_slave := q, ud_tx_needed := True, ud_bus := ud_bus st @ fs\<rparr>"
    have "ud_ready ?st" using Cons.prems(1) q by (simp add: ud_ready_def)
    from Cons.IH [OF this _ ] q Cons.prems(3)
    have ih: "map_option (\<lambda>(fr, st'). ud_bus st') (uart_write_turns mem bus_write (i + 1) (length bhs) ?st) =
      map_option (\<lambda>(fs', fr). ud_bus ?st @ fs') (jl_uart_tx_task mem bus_write (i + 1) bhs)" by simp
    have u: "uart_write_turns mem bus_write i (length (bh # bhs)) st = do {
        (fr', st) \<leftarrow> uart_write_turns mem bus_write (i + 1) (length bhs) ?st;
        Some (fr @ fr', st)
      }" by (simp add: step Some r)
    show ?thesis
      unfolding u using ih z
      by (cases "uart_write_turns mem bus_write (i + 1) (length bhs) ?st";
          cases "jl_uart_tx_task mem bus_write (i + 1) bhs") (auto simp: jl)
  qed
qed

text \<open>
  And equivalent receivers: from the same well-formed frames, however the two buses cut the octet stream, both
  consume exactly the frames and deliver the same packets: types, numbers, flags, sequence numbers and payloads, in
  order (the ESP-IDF driver sorts them into its queues).
\<close>
lemma uart_rx_equivalent:
  assumes "byte_source rd avail ready" "ready s" "ev_clean evs" "0 \<notin> set bufs"
    and "list_all2 (\<lambda>(h, p) b. frame_ok h p) fs bufs"
    and "avail s = concat (map (\<lambda>(h, p). seal_frame h p) fs) @ rest"
    and "ev_bytes evs = concat (map (\<lambda>(h, p). seal_frame h p) fs) @ rest'"
  shows "\<exists>s' st' bhs ps evs'. uart_read_turns rd bufs (s, st) = Some (s', st') \<and> avail s' = rest \<and>
    read_packets (length fs) evs = Some (ps, evs') \<and> ev_bytes evs' = rest' \<and>
    ud_from_slave st' = fold prio_send bhs (ud_from_slave st) \<and>
    map uart_pkt bhs = map2 (\<lambda>b (h, p). rx_handle b h p) bufs ps"
  using assms(5) assms(1-4,6,7)
proof (induction fs bufs arbitrary: s evs st rule: list_all2_induct)
  case Nil
  then show ?case by (intro exI [of _ s] exI [of _ st] exI [of _ "[]"] exI [of _ "[]"] exI [of _ evs]) simp
next
  case (Cons f fs b bufs)
  obtain h p where f: "f = (h, p)" by (cases f)
  let ?tail = "concat (map (\<lambda>(h, p). seal_frame h p) fs)"
  have ok: "frame_ok h p" "b \<noteq> 0" using Cons.hyps(1) Cons.prems(4) f by auto
  obtain s1 bh where s1: "uart_read_step rd True b (s, st) = Some (s1, [], st\<lparr>ud_from_slave := prio_send bh (ud_from_slave st)\<rparr>)"
    "uart_pkt bh = rx_handle b (sealed h p) p" "avail s1 = ?tail @ rest" "ready s1"
    using uart_read_step_frame [OF Cons.prems(1,2) _ ok, of "?tail @ rest" st] Cons.prems(5) f by auto
  obtain e1 where e1: "jl_uart_read_packet (\<lambda>_. True) 0 evs = Some (Some (sealed h p, p), e1)"
    "ev_bytes e1 = ?tail @ rest'" "ev_clean e1"
    using read_packet_frame [OF ok(1), of "\<lambda>_. True" 0 evs "?tail @ rest'"] Cons.prems(3,6) f by auto
  obtain s' st' bhs ps evs' where ih: "uart_read_turns rd bufs (s1, st\<lparr>ud_from_slave := prio_send bh (ud_from_slave st)\<rparr>) = Some (s', st')"
    "avail s' = rest" "read_packets (length fs) e1 = Some (ps, evs')" "ev_bytes evs' = rest'"
    "ud_from_slave st' = fold prio_send bhs (prio_send bh (ud_from_slave st))"
    "map uart_pkt bhs = map2 (\<lambda>b (h, p). rx_handle b h p) bufs ps"
    using Cons.IH [OF Cons.prems(1) s1(4) e1(3) _ s1(3) e1(2), of "st\<lparr>ud_from_slave := prio_send bh (ud_from_slave st)\<rparr>"]
      Cons.prems(4) by auto
  have "map uart_pkt (bh # bhs) = map2 (\<lambda>b (h, p). rx_handle b h p) (b # bufs) ((sealed h p, p) # ps)"
    using ih(6) s1(2) by simp
  then show ?case
    using s1 e1 ih
    by (intro exI [of _ s'] exI [of _ st'] exI [of _ "bh # bhs"] exI [of _ "(sealed h p, p) # ps"] exI [of _ evs'])
      (simp add: f)
qed

definition demo_ud :: uart_drv where
  "demo_ud = \<lparr>ud_start = True, ud_to_slave = prio_send demo_bh empty_prio_q, ud_from_slave = empty_prio_q,
     ud_tx_needed = True, ud_bus = []\<rparr>"

theorem uart_tx_equivalent_witness:
  "map_option (\<lambda>(fr, st'). ud_bus st') (uart_write_turns (\<lambda>_. True) length 0 (length [demo_bh]) demo_ud) =
    Some [seal_frame (tx_header demo_bh) [7, 8, 9]]"
proof -
  have r: "ud_ready demo_ud" "q_all (ud_to_slave demo_ud) = [demo_bh]"
    by (simp_all add: ud_ready_def demo_ud_def demo_bh_def zero_handle_def empty_prio_q_def prio_send_def q_all_def Let_def)
  have pl: "plain_packet demo_bh [7, 8, 9]" by (simp add: plain_packet_def demo_bh_def zero_handle_def)
  have t: "jl_uart_tx_task (\<lambda>_. True) length 0 [demo_bh] = Some ([seal_frame (tx_header demo_bh) [7, 8, 9]], [F_Send])"
    using write_packet_plain [OF pl, of length] by (simp add: demo_bh_def zero_handle_def)
  have "map_option (\<lambda>(fr, st'). ud_bus st') (uart_write_turns (\<lambda>_. True) length 0 (length [demo_bh]) demo_ud) =
      map_option (\<lambda>(fs, fr). ud_bus demo_ud @ fs) (jl_uart_tx_task (\<lambda>_. True) length 0 [demo_bh])"
    by (rule uart_tx_equivalent [OF r]) (simp add: demo_bh_def zero_handle_def)
  then show ?thesis unfolding t by (simp add: demo_ud_def)
qed

end
