(* ===== verification/Spi_Drv.thy ===== *)
theory Spi_Drv
  imports Bus_Queue
begin

unbundle bit_operations_syntax

text \<open>
  The full-duplex SPI transport of the host (\<open>src/host/drivers/transport/spi/spi_drv.c\<close>). The host clocks a
  transaction of one buffer in each direction whenever the handshake line of the co-processor is up and one side has
  something to say; both lines raise interrupts that wake the transaction task.

  Lines, results of the bus and received octets are arguments, since they come from the platform; \<open>mem\<close>: the pool has
  a buffer; a buffer of the pool is a positive number. \<open>None\<close> is an access outside a buffer, a failed assertion, or a
  task that waits. A blocking send to a full queue is a step that is taken later.
\<close>

section \<open>State\<close>

text \<open>
  \<open>sp_ready\<close> is the binary semaphore \<open>spi_trans_ready_sem\<close>, \<open>sp_dummy_tx\<close> the static of the transaction function.
\<close>

record spi_drv =
  sp_to_slave :: prio_q
  sp_from_slave :: prio_q
  sp_ready :: bool
  sp_dr_isr :: bool
  sp_dummy_rx :: bool
  sp_dummy_tx :: bool
  sp_throttling :: "2 word"

abbreviation (input) MAX_SPI_BUFFER_SIZE :: nat where "MAX_SPI_BUFFER_SIZE \<equiv> 1600"

section \<open>Interrupts\<close>

definition gpio_hs_isr_handler :: "spi_drv \<Rightarrow> spi_drv" where
  "gpio_hs_isr_handler st = st\<lparr>sp_ready := True\<rparr>"

definition gpio_dr_isr_handler :: "spi_drv \<Rightarrow> spi_drv" where
  "gpio_dr_isr_handler st = st\<lparr>sp_ready := True, sp_dr_isr := True\<rparr>"

section \<open>Receive\<close>

text \<open>
  \<open>process_spi_rx_buf\<close> for the octets in the pool's buffer \<open>rxbuff\<close> (0: null). The result: its code, what is freed,
  and the driver.
\<close>

definition process_spi_rx_buf :: "nat \<Rightarrow> bytes \<Rightarrow> spi_drv \<Rightarrow> (int \<times> nat list \<times> spi_drv) option" where
  "process_spi_rx_buf rxbuff buf st =
     (if rxbuff = 0 then Some (-1, [], st)
      else do {
        h \<leftarrow> decode_header buf;
        let len = ph_len h; let offset = ph_offset h;
        let st = (if ph_if_type h = ucast (if_code ESP_MAX_IF) then st\<lparr>sp_dummy_rx := False\<rparr> else st);
        if len = 0 then Some (-5, [rxbuff], st\<lparr>sp_throttling := ph_throttle_cmd h\<rparr>)
        else if unat len > MAX_PAYLOAD_SIZE \<or> unat offset \<noteq> HDR_SIZE then Some (-2, [rxbuff], st)
        else do {
          let st = st\<lparr>sp_dr_isr := False\<rparr>;
          let buf = put_header (h\<lparr>ph_checksum := 0\<rparr>) buf;
          checksum \<leftarrow> compute_checksum buf (len + offset);
          if checksum \<noteq> ph_checksum h then Some (-4, [rxbuff], st)
          else
            let bh = zero_handle\<lparr>bh_priv := rxbuff, bh_free := True, bh_payload_len := len,
                   bh_if_type := ucast (ph_if_type h), bh_if_num := ucast (ph_if_num h),
                   bh_payload := Some (drop (unat offset) buf), bh_seq_num := ph_seq_num h, bh_flag := ph_flags h\<rparr>
            in Some (0, [], st\<lparr>sp_throttling := ph_throttle_cmd h, sp_from_slave := prio_send bh (sp_from_slave st)\<rparr>)
        }
      })"

section \<open>Transmit\<close>

text \<open>
  The frame in \<open>sendbuf\<close>: header fields are assigned in place (the sequence number is not), the payload is copied
  unless the packet is zero-copy. The result is the new length and the buffer.
\<close>

definition spi_build :: "interface_buffer_handle \<Rightarrow> u16 \<Rightarrow> bytes \<Rightarrow> (u16 \<times> bytes) option" where
  "spi_build bh len sendbuf = do {
     h0 \<leftarrow> decode_header sendbuf;
     let zc = (bh_zcopy bh \<noteq> 0);
     let h = h0\<lparr>ph_len := len, ph_offset := of_nat HDR_SIZE, ph_if_type := ucast (bh_if_type bh),
                ph_if_num := ucast (bh_if_num bh), ph_flags := bh_flag bh\<rparr>;
     let sendbuf = put_header h sendbuf;
     (h, len, sendbuf) \<leftarrow>
       (if ph_if_type h = ucast (if_code ESP_HCI_IF) then
          (if zc then Some (h, len, sendbuf)
           else do {
             p \<leftarrow> bh_payload bh;
             t \<leftarrow> peek p 0;
             let len = len - 1;
             d \<leftarrow> mem_slice p 1 (unat len);
             sendbuf \<leftarrow> poke HDR_SIZE d sendbuf;
             Some (h\<lparr>ph_pkt_type := t, ph_len := len\<rparr>, len, sendbuf)
           })
        else if \<not> zc \<and> len \<noteq> 0 then do {
          p \<leftarrow> bh_payload bh;
          d \<leftarrow> mem_slice p 0 (min (unat len) MAX_PAYLOAD_SIZE);
          sendbuf \<leftarrow> poke HDR_SIZE d sendbuf;
          Some (h, len, sendbuf)
        } else Some (h, len, sendbuf));
     let sendbuf = put_header h sendbuf;
     c \<leftarrow> compute_checksum sendbuf (of_nat (HDR_SIZE + unat len));
     Some (len, put_header (h\<lparr>ph_checksum := c\<rparr>) sendbuf)
   }"

text \<open>
  \<open>get_next_tx_buffer\<close>: whether the buffer is valid, the buffer with the function that frees it (\<open>F_Send\<close>: the
  pool's), and what is freed at once.
\<close>

definition spi_get_next_tx_buffer ::
  "bool \<Rightarrow> spi_drv \<Rightarrow> ((bool \<times> (bytes \<times> tx_free list) option \<times> nat list) \<times> spi_drv) option" where
  "spi_get_next_tx_buffer mem st =
     (let (got, st) = (if pq_sem (sp_to_slave st) = 0 then (None, st)
          else case prio_recv (sp_to_slave st) of (got, q) \<Rightarrow>
            (got, st\<lparr>sp_to_slave := q\<lparr>pq_sem := pq_sem q - 1\<rparr>\<rparr>));
          bh = (case got of None \<Rightarrow> zero_handle | Some b \<Rightarrow> b);
          len = bh_payload_len bh
      in if bh_flag bh = 0 \<and> len = 0 then Some ((False, None, []), st)
      else if bh_zcopy bh = 0 then
        (if \<not> mem then None
         else do {
           (len, sendbuf) \<leftarrow> spi_build bh len (replicate MAX_SPI_BUFFER_SIZE 0);
           Some ((True, Some (sendbuf, [F_Send]), if len \<noteq> 0 then snd (free_handle bh) else []), st)
         })
      else (case bh_payload bh of
         None \<Rightarrow> Some ((True, None, []), st)
       | Some sendbuf \<Rightarrow> do {
           (len, sendbuf) \<leftarrow> spi_build bh len sendbuf;
           Some ((True, Some (sendbuf, if bh_free bh then [F_Payload] else []), []), st)
         }))"

section \<open>Transactions\<close>

definition spi_dummy_frame :: bytes where
  "spi_dummy_frame = put_header (zero_header\<lparr>ph_if_type := ucast (if_code ESP_MAX_IF)\<rparr>) (replicate MAX_SPI_BUFFER_SIZE 0)"

text \<open>
  What \<open>check_and_execute_spi_transaction\<close> does: the frame clocked out, how its buffer is freed, the buffers freed on
  the way, and the driver. \<open>handshake\<close> and \<open>data_ready\<close> are the lines, \<open>rxbuff\<close> is the pool's buffer for the octets
  \<open>rx\<close> and \<open>ret\<close> the result of \<open>h_spi_transfer\<close>. A receive buffer whose transfer fails is not freed.
\<close>

definition check_and_execute_spi_transaction ::
  "bool \<Rightarrow> nat \<Rightarrow> bool \<Rightarrow> bool \<Rightarrow> int \<times> bytes \<Rightarrow> spi_drv \<Rightarrow>
   (bytes option \<times> tx_free list \<times> nat list \<times> spi_drv) option" where
  "check_and_execute_spi_transaction mem rxbuff handshake data_ready xfer st =
     (let data_ready_active = (data_ready \<or> sp_dr_isr st); (ret, rx) = xfer in do {
        (frame, tf, fr, st) \<leftarrow>
          (if \<not> handshake then Some (None, [], [], st)
           else do {
             ((valid, txbuff, fr), st) \<leftarrow> spi_get_next_tx_buffer mem st;
             if data_ready_active \<or> valid \<or> sp_dummy_tx st \<or> sp_dummy_rx st then do {
               let st = st\<lparr>sp_dummy_tx := (txbuff \<noteq> None)\<rparr>;
               (txb, tf) \<leftarrow> (case txbuff of Some b \<Rightarrow> Some b | None \<Rightarrow> if mem then Some (spi_dummy_frame, [F_Send]) else None);
               if rxbuff = 0 then None
               else do {
                 out \<leftarrow> mem_slice txb 0 MAX_SPI_BUFFER_SIZE;
                 (_, fr2, st) \<leftarrow> (if ret = 0 then process_spi_rx_buf rxbuff rx st else Some (ret, [], st));
                 Some (Some out, tf, fr @ fr2, st)
               }
             } else Some (None, case txbuff of Some b \<Rightarrow> snd b | None \<Rightarrow> [], fr, st)
           });
        Some (frame, tf, fr,
          if \<not> handshake \<or> sp_dummy_tx st \<or> sp_dummy_rx st then st\<lparr>sp_ready := True\<rparr> else st)
      })"

text \<open>One turn of \<open>spi_transaction_task\<close>; \<open>up\<close> is \<open>is_transport_rx_ready\<close>.\<close>

definition spi_transaction_step ::
  "bool \<Rightarrow> bool \<Rightarrow> nat \<Rightarrow> bool \<Rightarrow> bool \<Rightarrow> int \<times> bytes \<Rightarrow> spi_drv \<Rightarrow>
   (bytes option \<times> tx_free list \<times> nat list \<times> spi_drv) option" where
  "spi_transaction_step up mem rxbuff handshake data_ready xfer st =
     (if \<not> up then Some (None, [], [], st)
      else if \<not> sp_ready st then None
      else check_and_execute_spi_transaction mem rxbuff handshake data_ready xfer (st\<lparr>sp_ready := False\<rparr>))"

text \<open>\<open>esp_hosted_tx\<close> of this bus. The second result: what is freed.\<close>

definition spi_esp_hosted_tx ::
  "u8 \<Rightarrow> u8 \<Rightarrow> bytes option \<Rightarrow> u16 \<Rightarrow> u8 \<Rightarrow> nat \<Rightarrow> bool \<Rightarrow> u8 \<Rightarrow> spi_drv \<Rightarrow> int \<times> nat list \<times> spi_drv" where
  "spi_esp_hosted_tx iface_type iface_num payload_buf payload_len zcopy buffer_to_free free_func flags st =
     (let bh = zero_handle\<lparr>bh_zcopy := zcopy, bh_if_type := iface_type, bh_if_num := iface_num,
            bh_payload_len := payload_len, bh_payload := payload_buf, bh_priv := buffer_to_free,
            bh_free := free_func, bh_flag := flags\<rparr>
      in if (flags = 0 \<or> flags = MORE_FRAGMENT) \<and>
            (payload_buf = None \<or> payload_len = 0 \<or> unat payload_len > MAX_PAYLOAD_SIZE)
         then (-1, snd (free_handle bh), st)
         else (0, [], st\<lparr>sp_to_slave := prio_send bh (sp_to_slave st), sp_ready := True\<rparr>))"

text \<open>
  \<open>bus_inform_slave_host_power_save_start\<close> and \<open>_stop\<close>: while the transport is not ready (\<open>up\<close>), the flag is clocked
  out directly. The result: the code, the frame, what is freed, and the driver.
\<close>

definition spi_inform_slave_host_power_save ::
  "u8 \<Rightarrow> bool \<Rightarrow> bool \<Rightarrow> nat \<Rightarrow> int \<times> bytes \<Rightarrow> spi_drv \<Rightarrow> (int \<times> bytes option \<times> nat list \<times> spi_drv) option" where
  "spi_inform_slave_host_power_save flag up mem rxbuff xfer st =
     (if \<not> up then
        if \<not> mem \<or> rxbuff = 0 then None
        else let h = zero_header\<lparr>ph_if_type := ucast (if_code ESP_SERIAL_IF), ph_offset := of_nat HDR_SIZE, ph_flags := flag\<rparr>;
                 txbuff = put_header h (replicate MAX_SPI_BUFFER_SIZE 0)
        in if fst xfer \<noteq> 0 then Some (fst xfer, Some txbuff, [], st)
           else do {
             (_, fr, st) \<leftarrow> process_spi_rx_buf rxbuff (snd xfer) st;
             Some (fst xfer, Some txbuff, fr, st)
           }
      else case spi_esp_hosted_tx (if_code ESP_SERIAL_IF) 0 None 0 0 0 False flag st of
        (ret, fr, st) \<Rightarrow> Some (ret, None, fr, st))"

section \<open>Dispatch\<close>

text \<open>One turn of \<open>spi_process_rx_task\<close>.\<close>

definition spi_process_rx_step ::
  "bool \<Rightarrow> nat \<Rightarrow> bool \<Rightarrow> (u8 \<Rightarrow> bool) \<Rightarrow> spi_drv \<times> serial_ll \<Rightarrow> (rx_action \<times> nat list \<times> spi_drv \<times> serial_ll) option" where
  "spi_process_rx_step mem sbuf qok chan c =
     (case c of (st, ll) \<Rightarrow>
      if pq_sem (sp_from_slave st) = 0 then None
      else case prio_recv (sp_from_slave st) of (got, q) \<Rightarrow>
        let st = st\<lparr>sp_from_slave := q\<lparr>pq_sem := pq_sem q - 1\<rparr>\<rparr> in
        case got of
          None \<Rightarrow> Some (RX_None, [], st, ll)
        | Some bh \<Rightarrow> do {
            let st = (if bh_if_type bh \<in> {if_code ESP_SERIAL_IF, if_code ESP_STA_IF, if_code ESP_AP_IF}
                      then st\<lparr>sp_dummy_rx := True\<rparr> else st);
            (act, fr, _, ll) \<leftarrow> bus_rx_dispatch mem sbuf qok chan bh ll;
            Some (act, fr, st, ll)
          })"

section \<open>Set-up and shutdown\<close>

text \<open>
  \<open>bus_deinit_internal\<close>: the queues are deleted with the packets in them, whose buffers are not freed; the flags
  \<open>dr_isr_triggered\<close>, \<open>schedule_dummy_rx\<close> and \<open>schedule_dummy_tx\<close> and the throttling are kept.
\<close>

definition spi_bus_deinit :: "bool \<Rightarrow> spi_drv \<Rightarrow> spi_drv" where
  "spi_bus_deinit bus_handle st =
     (if \<not> bus_handle then st
      else st\<lparr>sp_to_slave := empty_prio_q, sp_from_slave := empty_prio_q, sp_ready := False\<rparr>)"

text \<open>\<open>bus_init_internal\<close>: \<open>ok i\<close> is the result of its \<open>i\<close>-th resource; every failure is a failed assertion.\<close>

definition spi_bus_init :: "(nat \<Rightarrow> bool) \<Rightarrow> spi_drv \<Rightarrow> spi_drv option" where
  "spi_bus_init ok st =
     (if \<forall>i \<in> set [0..<14]. ok i
      then Some (st\<lparr>sp_to_slave := empty_prio_q, sp_from_slave := empty_prio_q, sp_ready := False\<rparr>)
      else None)"

text \<open>\<open>ensure_slave_bus_ready\<close>: the result, whether the co-processor was reset, whether the end of the power save is signalled.\<close>

definition spi_ensure_slave_bus_ready :: "bool \<Rightarrow> bool \<Rightarrow> bool \<Rightarrow> (h_err \<times> bool \<times> bool) option" where
  "spi_ensure_slave_bus_ready config pin woke =
     (if \<not> config then Some (H_FAIL, False, False)
      else if \<not> pin then None
      else if woke then Some (H_OK, False, True) else Some (H_OK, True, False))"

end
