(* ===== verification/Slave_Spi.thy ===== *)
theory Slave_Spi
  imports Spi_Drv Slave_Uart
begin

unbundle bit_operations_syntax

text \<open>
  The full-duplex SPI driver of the co-processor (\<open>src/slave/main/spi_slave_api.c\<close>) with the handshake line lowered
  on chip select (\<open>HS_DEASSERT_ON_CS\<close>, the default): a transaction with one buffer in each direction is always queued
  at the peripheral; the data-ready line tells the host that a packet waits.

  The peripheral driver (\<open>spi_slave_*\<close>) is not part of the repository: \<open>sl_queued\<close> are the transactions given to it
  (transmit octets and receive buffer), its results are arguments. \<open>None\<close> is an access outside a buffer, a failed
  assertion, or a task that waits. A blocking send to a full queue is a step that is taken later.
\<close>

section \<open>State\<close>

text \<open>
  \<open>data_ready_flag\<close> follows the data-ready line and is the same bit here. \<open>sl_tx_bufs\<close> and \<open>sl_rx_bufs\<close> are the
  driver's counters \<open>tx_buf_allocated\<close> and \<open>rx_buf_allocated\<close>, \<open>sl_cs_sem\<close> is \<open>wait_cs_deassert_sem\<close>.
\<close>

record slave_spi =
  sl_state :: if_state
  sl_created :: bool
  sl_tx :: prio_q
  sl_rx :: prio_q
  sl_throttling :: bool
  sl_data_ready :: bool
  sl_handshake :: bool
  sl_cs_sem :: bool
  sl_queued :: "(bytes \<times> nat) list"
  sl_tx_bufs :: int
  sl_rx_bufs :: int
  sl_events :: "host_interrupt list"

abbreviation (input) SPI_BUFFER_SIZE :: nat where "SPI_BUFFER_SIZE \<equiv> 1600"

definition spi_dma_aligned :: "nat \<Rightarrow> nat" where
  "spi_dma_aligned n = (if n mod 4 = 0 then n else n + (4 - n mod 4))"

section \<open>Buffers, lines and interrupts\<close>

definition spi_buffer_tx_alloc :: "slave_spi \<Rightarrow> slave_spi" where
  "spi_buffer_tx_alloc st = st\<lparr>sl_tx_bufs := sl_tx_bufs st + 1\<rparr>"

definition spi_buffer_rx_alloc :: "slave_spi \<Rightarrow> slave_spi" where
  "spi_buffer_rx_alloc st = st\<lparr>sl_rx_bufs := sl_rx_bufs st + 1\<rparr>"

definition spi_buffer_tx_free :: "slave_spi \<Rightarrow> slave_spi" where
  "spi_buffer_tx_free st = st\<lparr>sl_tx_bufs := sl_tx_bufs st - 1\<rparr>"

definition spi_buffer_rx_free :: "slave_spi \<Rightarrow> slave_spi" where
  "spi_buffer_rx_free st = st\<lparr>sl_rx_bufs := sl_rx_bufs st - 1\<rparr>"

definition set_dataready_gpio :: "slave_spi \<Rightarrow> slave_spi" where
  "set_dataready_gpio st = st\<lparr>sl_data_ready := True\<rparr>"

definition reset_dataready_gpio :: "slave_spi \<Rightarrow> slave_spi" where
  "reset_dataready_gpio st = st\<lparr>sl_data_ready := False\<rparr>"

definition spi_post_setup_cb :: "slave_spi \<Rightarrow> slave_spi" where
  "spi_post_setup_cb st = st\<lparr>sl_handshake := True\<rparr>"

text \<open>\<open>gpio_disable_hs_isr_handler\<close>, at both edges of chip select: \<open>level\<close> is its level, low while it is asserted.\<close>

definition gpio_disable_hs_isr_handler :: "bool \<Rightarrow> slave_spi \<Rightarrow> slave_spi" where
  "gpio_disable_hs_isr_handler level st =
     (if \<not> level then st\<lparr>sl_handshake := False\<rparr>
      else if sl_created st then st\<lparr>sl_cs_sem := True\<rparr> else st)"

section \<open>Throttling of the host\<close>

text \<open>\<open>nrx\<close> is \<open>SPI_RX_QUEUE_SIZE\<close>; \<open>high\<close> and \<open>low\<close> are the thresholds the host has configured.\<close>

definition find_wifi_tx_throttling_to_be_set :: "nat \<Rightarrow> u8 \<Rightarrow> u8 \<Rightarrow> slave_spi \<Rightarrow> 2 word \<times> slave_spi" where
  "find_wifi_tx_throttling_to_be_set nrx high low st =
     (if high = 0 then (0, st)
      else
        let queue_load = (of_nat (length (pq_others (sl_rx st))) :: u16);
            load_percent = (of_nat (unat queue_load * 100 div nrx) :: u8);
            st = (if load_percent > high then st\<lparr>sl_throttling := True\<rparr> else st);
            st = (if load_percent < low then st\<lparr>sl_throttling := False\<rparr> else st)
        in (if sl_throttling st then 1 else 0, st))"

section \<open>Transactions\<close>

text \<open>
  \<open>get_next_tx_buffer\<close>: the next packet or, with the data-ready line lowered, a dummy (\<open>None\<close>: no memory for it).
  \<open>cfg\<close>: the size of the receive queue and the thresholds.
\<close>

definition slave_get_next_tx_buffer ::
  "bool \<Rightarrow> nat \<times> u8 \<times> u8 \<Rightarrow> slave_spi \<Rightarrow> bytes option \<times> slave_spi" where
  "slave_get_next_tx_buffer mem cfg st =
     (let (got, st) = (if pq_sem (sl_tx st) = 0 then (None, st)
          else case prio_recv (sl_tx st) of (got, q) \<Rightarrow> (got, st\<lparr>sl_tx := q\<lparr>pq_sem := pq_sem q - 1\<rparr>\<rparr>))
      in case (case got of None \<Rightarrow> None | Some bh \<Rightarrow> bh_payload bh) of
           Some payload \<Rightarrow> (Some payload, st)
         | None \<Rightarrow>
             let st = spi_buffer_tx_alloc (reset_dataready_gpio st) in
             if \<not> mem then (None, st)
             else case cfg of (nrx, high, low) \<Rightarrow>
               (case find_wifi_tx_throttling_to_be_set nrx high low st of (t, st) \<Rightarrow>
                 (Some (put_header (zero_header\<lparr>ph_if_type := ucast (if_code ESP_MAX_IF), ph_if_num := 0xF,
                    ph_throttle_cmd := t\<rparr>) (replicate SPI_BUFFER_SIZE 0)), st)))"

text \<open>\<open>queue_next_transaction\<close>; \<open>rxbuff\<close>: the receive buffer (0: none, the assertion fails).\<close>

definition queue_next_transaction ::
  "bool \<Rightarrow> nat \<times> u8 \<times> u8 \<Rightarrow> nat \<Rightarrow> slave_spi \<Rightarrow> slave_spi option" where
  "queue_next_transaction mem cfg rxbuff st =
     (case slave_get_next_tx_buffer mem cfg st of
        (None, st) \<Rightarrow> Some st
      | (Some tx_buffer, st) \<Rightarrow>
          let st = spi_buffer_rx_alloc st in
          if \<not> mem \<or> rxbuff = 0 then None
          else Some (spi_post_setup_cb (st\<lparr>sl_queued := sl_queued st @ [(tx_buffer, rxbuff)]\<rparr>)))"

text \<open>
  \<open>process_spi_rx\<close> for the received octets \<open>buf\<close> in the buffer \<open>rxbuff\<close>; \<open>cks\<close> is \<open>CONFIG_ESP_SPI_CHECKSUM\<close>. The
  result: its code and the driver.
\<close>

definition process_spi_rx :: "bool \<Rightarrow> nat \<Rightarrow> bytes \<Rightarrow> slave_spi \<Rightarrow> (int \<times> slave_spi) option" where
  "process_spi_rx cks rxbuff buf st = do {
     header \<leftarrow> decode_header buf;
     let len = ph_len header; let offset = ph_offset header;
     let st = st\<lparr>sl_events := sl_events st @ rx_flag_event (ph_flags header)\<rparr>;
     if len = 0 then Some (-1, st)
     else if unat len + unat offset > SPI_BUFFER_SIZE then Some (-1, st)
     else do {
       (ok, buf) \<leftarrow>
         (if cks then do {
            let buf = put_header (header\<lparr>ph_checksum := 0\<rparr>) buf;
            checksum \<leftarrow> compute_checksum buf (len + offset);
            Some (checksum = ph_checksum header, buf)
          } else Some (True, buf));
       if \<not> ok then Some (-1, st)
       else
         let bh = zero_handle\<lparr>bh_priv := rxbuff, bh_payload := Some buf, bh_payload_len := len + offset,
                bh_if_type := ucast (ph_if_type header), bh_if_num := ucast (ph_if_num header), bh_free := True\<rparr>
         in Some (0, st\<lparr>sl_rx := prio_send bh (sl_rx st)\<rparr>)
     }
   }"

text \<open>
  One turn of \<open>spi_transaction_post_process_task\<close> for the finished transaction with receive buffer \<open>fst fin\<close> and
  received octets \<open>snd fin\<close>. \<open>rxbuff\<close> is the receive buffer of the next transaction.
\<close>

definition spi_post_process_step ::
  "bool \<Rightarrow> bool \<Rightarrow> nat \<times> u8 \<times> u8 \<Rightarrow> nat \<Rightarrow> nat \<times> bytes \<Rightarrow> slave_spi \<Rightarrow> slave_spi option" where
  "spi_post_process_step cks mem cfg rxbuff fin st =
     (if sl_state st = IF_DEINIT then Some st
      else if \<not> sl_cs_sem st then None
      else do {
        st \<leftarrow> queue_next_transaction mem cfg rxbuff (st\<lparr>sl_cs_sem := False\<rparr>);
        let st = spi_buffer_tx_free st;
        (ret, st) \<leftarrow> process_spi_rx cks (fst fin) (snd fin) st;
        Some (if ret \<noteq> 0 then spi_buffer_rx_free st else st)
      })"

section \<open>Operations of the interface\<close>

text \<open>The frame \<open>esp_spi_write\<close> builds in a cleared buffer, once the arguments are checked.\<close>

definition spi_write_frame :: "bool \<Rightarrow> interface_buffer_handle \<Rightarrow> bytes \<Rightarrow> bytes option" where
  "spi_write_frame cks bh payload = do {
     let header = zero_header\<lparr>ph_if_type := ucast (bh_if_type bh), ph_if_num := ucast (bh_if_num bh),
            ph_len := bh_payload_len bh, ph_offset := of_nat HDR_SIZE, ph_seq_num := bh_seq_num bh, ph_flags := bh_flag bh\<rparr>;
     d \<leftarrow> mem_slice payload 0 (unat (bh_payload_len bh));
     buf \<leftarrow> poke HDR_SIZE d (put_header header (replicate SPI_BUFFER_SIZE 0));
     if cks then do {
       checksum \<leftarrow> compute_checksum buf (of_nat HDR_SIZE + bh_payload_len bh);
       Some (put_header (header\<lparr>ph_checksum := checksum\<rparr>) buf)
     } else Some buf
   }"

text \<open>
  \<open>esp_spi_write\<close> up to the send to the queue: the result and, when it goes on, the driver with the packet in its
  queue but not yet announced (the semaphore is given later).
\<close>

definition spi_write_enqueue ::
  "bool \<Rightarrow> bool \<Rightarrow> nat \<times> u8 \<times> u8 \<Rightarrow> bool \<Rightarrow> interface_buffer_handle option \<Rightarrow> slave_spi \<Rightarrow> (int \<times> slave_spi) option" where
  "spi_write_enqueue cks mem cfg handle buf_handle st =
     (if \<not> handle then None
      else if sl_state st \<noteq> IF_ACTIVE then Some (-1, st)
      else case buf_handle of
        None \<Rightarrow> Some (-1, st)
      | Some bh \<Rightarrow> (case bh_payload bh of
          None \<Rightarrow> Some (-1, st)
        | Some payload \<Rightarrow>
            let total_len = spi_dma_aligned (unat (bh_payload_len bh) + HDR_SIZE) in
            if bh_payload_len bh = 0 then Some (-1, st)
            else if total_len > SPI_BUFFER_SIZE then Some (-1, st)
            else if \<not> mem then None
            else do {
              let st = spi_buffer_tx_alloc st;
              let st = (case cfg of (nrx, high, low) \<Rightarrow> snd (find_wifi_tx_throttling_to_be_set nrx high low st));
              frame \<leftarrow> spi_write_frame cks bh payload;
              let tx = zero_handle\<lparr>bh_if_type := bh_if_type bh, bh_if_num := bh_if_num bh,
                     bh_payload_len := of_nat total_len, bh_payload := Some frame\<rparr>;
              Some (int (unat (bh_payload_len bh)),
                    st\<lparr>sl_tx := (prio_send tx (sl_tx st))\<lparr>pq_sem := pq_sem (sl_tx st)\<rparr>\<rparr>)
            }))"

definition spi_tx_sem_give :: "slave_spi \<Rightarrow> slave_spi" where
  "spi_tx_sem_give st = st\<lparr>sl_tx := (sl_tx st)\<lparr>pq_sem := pq_sem (sl_tx st) + 1\<rparr>\<rparr>"

definition esp_spi_write ::
  "bool \<Rightarrow> bool \<Rightarrow> nat \<times> u8 \<times> u8 \<Rightarrow> bool \<Rightarrow> interface_buffer_handle option \<Rightarrow> slave_spi \<Rightarrow> (int \<times> slave_spi) option" where
  "esp_spi_write cks mem cfg handle buf_handle st = do {
     (ret, st) \<leftarrow> spi_write_enqueue cks mem cfg handle buf_handle st;
     Some (ret, if ret < 0 then st else spi_tx_sem_give (set_dataready_gpio st))
   }"

text \<open>\<open>esp_spi_read\<close>; a negative result is \<open>ESP_FAIL\<close>.\<close>

definition esp_spi_read :: "bool \<Rightarrow> slave_spi \<Rightarrow> ((int \<times> interface_buffer_handle option) \<times> slave_spi) option" where
  "esp_spi_read if_handle st =
     (if \<not> if_handle then Some ((-1, None), st)
      else if pq_sem (sl_rx st) = 0 then None
      else
        let st = st\<lparr>sl_rx := (sl_rx st)\<lparr>pq_sem := pq_sem (sl_rx st) - 1\<rparr>\<rparr> in
        if sl_state st = IF_DEINIT then Some ((-1, None), st)
        else case prio_recv (sl_rx st) of
          (None, q) \<Rightarrow> Some ((-1, None), st\<lparr>sl_rx := q\<rparr>)
        | (Some bh, q) \<Rightarrow> Some ((int (unat (bh_payload_len bh)), Some bh), st\<lparr>sl_rx := q\<rparr>))"

definition esp_spi_read_done :: "slave_spi \<Rightarrow> slave_spi" where
  "esp_spi_read_done st = spi_buffer_rx_free st"

text \<open>\<open>generate_startup_event\<close> with the elements \<open>tlvs\<close>; \<open>rxbuff\<close> is the receive buffer of the first transaction.\<close>

definition spi_startup_frame :: "bool \<Rightarrow> bytes \<Rightarrow> (u16 \<times> bytes) option" where
  "spi_startup_frame cks tlvs = do {
     let len = (of_nat (length tlvs) :: u16);
     let event = ESP_PRIV_EVENT_INIT # ucast len # tlvs;
     let len = len + 2;
     let header = zero_header\<lparr>ph_if_type := ucast (if_code ESP_PRIV_IF), ph_offset := of_nat HDR_SIZE,
            ph_pkt_type := ESP_PACKET_TYPE_EVENT, ph_len := len\<rparr>;
     payload \<leftarrow> poke HDR_SIZE event (put_header header (replicate SPI_BUFFER_SIZE 0));
     if cks then do {
       checksum \<leftarrow> compute_checksum payload (len + of_nat HDR_SIZE);
       Some (len, put_header (header\<lparr>ph_checksum := checksum\<rparr>) payload)
     } else Some (len, payload)
   }"

definition spi_startup_event ::
  "bool \<Rightarrow> bool \<Rightarrow> nat \<times> u8 \<times> u8 \<Rightarrow> nat \<Rightarrow> bytes \<Rightarrow> slave_spi \<Rightarrow> slave_spi option" where
  "spi_startup_event cks mem cfg rxbuff tlvs st =
     (if \<not> mem then None
      else do {
        let st = spi_buffer_tx_alloc st;
        (len, frame) \<leftarrow> spi_startup_frame cks tlvs;
        let bh = zero_handle\<lparr>bh_payload := Some frame, bh_payload_len := of_nat (spi_dma_aligned (unat len + HDR_SIZE))\<rparr>;
        let st = set_dataready_gpio (st\<lparr>sl_tx := prio_send bh (sl_tx st)\<rparr>);
        queue_next_transaction mem cfg rxbuff st
      })"

section \<open>Life cycle\<close>

text \<open>
  \<open>esp_spi_init\<close>: \<open>unload\<close> is \<open>H_PS_UNLOAD_BUS_WHILE_PS\<close>, \<open>ok i\<close> the result of the \<open>i\<close>-th resource, all of them
  asserted. The first initialisation creates queues and task and lowers both lines.
\<close>

definition esp_spi_init :: "bool \<Rightarrow> (nat \<Rightarrow> bool) \<Rightarrow> slave_spi \<Rightarrow> slave_spi option" where
  "esp_spi_init unload ok st =
     (if sl_state st \<noteq> IF_DEINIT then Some st
      else if unload \<and> sl_created st then Some (st\<lparr>sl_state := IF_ACTIVE\<rparr>)
      else if sl_created st then if ok 1 then Some (st\<lparr>sl_state := IF_ACTIVE\<rparr>) else None
      else if \<forall>i \<in> set [0..<12]. ok i then
        Some (reset_dataready_gpio (st\<lparr>sl_state := IF_ACTIVE, sl_created := True, sl_handshake := False,
          sl_cs_sem := False, sl_tx := empty_prio_q, sl_rx := empty_prio_q\<rparr>))
      else None)"

text \<open>\<open>esp_spi_deinit\<close>: without \<open>unload\<close> it does nothing.\<close>

definition esp_spi_deinit :: "bool \<Rightarrow> bool \<Rightarrow> slave_spi \<Rightarrow> slave_spi" where
  "esp_spi_deinit unload handle st =
     (if \<not> handle \<or> \<not> unload \<or> sl_state st = IF_DEINIT then st else st\<lparr>sl_state := IF_DEINIT\<rparr>)"

end
