(* ===== verification/Spi_Frame.thy ===== *)
theory Spi_Frame
  imports Slave_Spi
begin

unbundle bit_operations_syntax

text \<open>
  What both SPI links (full and half duplex) need of packets and frames: a packet as its frame carries it, what the
  drivers of the full-duplex link make of a frame and how they build one, and the packets of a queue by priority. Both
  sides are built with the checksum.
\<close>

section \<open>Frames\<close>

type_synonym pkt = "esp_payload_header \<times> bytes"

text \<open>A packet as its frame carries it.\<close>

definition pkt_ok :: "pkt \<Rightarrow> bool" where
  "pkt_ok pk = (ph_offset (fst pk) = 12 \<and> ph_len (fst pk) = of_nat (length (snd pk)) \<and> snd pk \<noteq> [] \<and>
     length (snd pk) \<le> MAX_PAYLOAD_SIZE \<and> ph_checksum (fst pk) = 0 \<and> ph_throttle_cmd (fst pk) = 0 \<and> ph_reserved2 (fst pk) = 0)"

definition frame_of_pkt :: "pkt \<Rightarrow> bytes \<Rightarrow> bool" where
  "frame_of_pkt pk f = (pkt_ok pk \<and> length f = 1600 \<and> take (12 + length (snd pk)) f = seal_frame (fst pk) (snd pk))"

definition frame_pkt :: "bytes \<Rightarrow> pkt" where
  "frame_pkt f = (let h = the (decode_header f) in (h\<lparr>ph_checksum := 0\<rparr>, take (unat (ph_len h)) (drop 12 f)))"

definition real_frame :: "bytes \<Rightarrow> bool" where
  "real_frame f = (ph_len (the (decode_header f)) \<noteq> 0)"

text \<open>The dummies of the two sides.\<close>

definition dummy_frame :: "bytes \<Rightarrow> bool" where
  "dummy_frame f = (\<exists>n t. f = put_header (zero_header\<lparr>ph_if_type := 8, ph_if_num := n, ph_throttle_cmd := t\<rparr>) (replicate 1600 0))"

lemma frame_of_pktE:
  assumes "frame_of_pkt pk f"
  obtains h p rest where "pk = (h, p)" "f = seal_frame h p @ rest" "length rest = 1588 - length p"
    "ph_offset h = 12" "ph_len h = of_nat (length p)" "unat (ph_len h) = length p" "ph_len h \<noteq> 0" "p \<noteq> []" "length p \<le> 1588"
    "ph_checksum h = 0" "ph_throttle_cmd h = 0" "ph_reserved2 h = 0"
proof -
  obtain h p where pk: "pk = (h, p)" by (cases pk)
  have p: "p \<noteq> []" "length p \<le> 1588" "ph_len h = of_nat (length p)" using assms pk by (auto simp: frame_of_pkt_def pkt_ok_def)
  have u: "unat (ph_len h) = length p" using p by (simp add: unat_of_nat_u16)
  moreover have "ph_len h \<noteq> 0" using u p(1) by auto
  ultimately show thesis
    using assms pk p that [of h p "drop (12 + length p) f"]
    by (auto simp: frame_of_pkt_def pkt_ok_def) (metis append_take_drop_id)
qed

lemma frame_of_pkt_intro:
  assumes "pkt_ok (h, p)" "length rest = 1588 - length p"
  shows "frame_of_pkt (h, p) (seal_frame h p @ rest)"
  using assms by (auto simp: frame_of_pkt_def pkt_ok_def)

lemma decode_seal_append:
  "decode_header (seal_frame h p @ rest) =
     Some (h\<lparr>ph_checksum := octet_sum (encode_header (h\<lparr>ph_checksum := 0\<rparr>) @ p)\<rparr>)"
  by (simp add: seal_frame_def Let_def)

lemma drop_seal_append [simp]: "drop 12 (seal_frame h p @ rest) = p @ rest"
  by (simp add: seal_frame_def Let_def)

lemma frame_pkt_eq:
  assumes "frame_of_pkt pk f"
  shows "frame_pkt f = pk" "real_frame f"
  using assms by (auto elim!: frame_of_pktE simp: frame_pkt_def real_frame_def decode_seal_append)

lemma dummy_not_real: "dummy_frame f \<Longrightarrow> \<not> real_frame f"
  by (auto simp: dummy_frame_def real_frame_def zero_header_def)

lemma frame_checksum:
  assumes "frame_of_pkt (h, p) f" "decode_header f = Some h'"
  shows "compute_checksum (put_header (h'\<lparr>ph_checksum := 0\<rparr>) f) (ph_len h + 12) = Some (ph_checksum h')"
    "put_header (h'\<lparr>ph_checksum := 0\<rparr>) f = encode_header h @ drop 12 f"
proof -
  obtain rest where f: "f = seal_frame h p @ rest" and l: "unat (ph_len h) = length p" "length p \<le> 1588" "ph_checksum h = 0"
    using assms(1) by (auto elim!: frame_of_pktE)
  have c0: "h\<lparr>ph_checksum := 0\<rparr> = h" using l(3) by (cases h) simp
  have h: "h' = h\<lparr>ph_checksum := octet_sum (encode_header h @ p)\<rparr>"
    using assms(2) f by (simp add: decode_seal_append c0 del: octet_sum_append)
  have h0: "h'\<lparr>ph_checksum := 0\<rparr> = h" using h c0 by simp
  show e: "put_header (h'\<lparr>ph_checksum := 0\<rparr>) f = encode_header h @ drop 12 f" by (simp only: h0) (simp add: put_header_def)
  have u: "unat (ph_len h + 12) = 12 + length p" using l by (subst unat_word_ariths) simp
  show "compute_checksum (put_header (h'\<lparr>ph_checksum := 0\<rparr>) f) (ph_len h + 12) = Some (ph_checksum h')"
    unfolding e using u f l(1) by (subst compute_checksum_eq) (simp_all add: h)
qed

section \<open>Receiving a frame\<close>

definition spi_rx_handle :: "nat \<Rightarrow> pkt \<Rightarrow> bytes \<Rightarrow> interface_buffer_handle" where
  "spi_rx_handle rxbuff pk f = zero_handle\<lparr>bh_priv := rxbuff, bh_free := True, bh_payload_len := ph_len (fst pk),
     bh_if_type := ucast (ph_if_type (fst pk)), bh_if_num := ucast (ph_if_num (fst pk)), bh_payload := Some (drop 12 f),
     bh_seq_num := ph_seq_num (fst pk), bh_flag := ph_flags (fst pk)\<rparr>"

lemma host_receives_real:
  assumes "frame_of_pkt pk f" "rxbuff \<noteq> 0"
  shows "process_spi_rx_buf rxbuff f st = Some (0, [], st\<lparr>sp_dummy_rx := (sp_dummy_rx st \<and> ph_if_type (fst pk) \<noteq> 8),
      sp_dr_isr := False, sp_throttling := 0,
      sp_from_slave := prio_send (spi_rx_handle rxbuff pk f) (sp_from_slave st)\<rparr>)"
proof -
  obtain h p rest where e: "pk = (h, p)" "f = seal_frame h p @ rest" "ph_offset h = 12" "ph_len h \<noteq> 0"
      "unat (ph_len h) = length p" "length p \<le> 1588" "ph_throttle_cmd h = 0"
    using assms(1) by (auto elim!: frame_of_pktE)
  obtain h' where h': "decode_header f = Some h'" "h' = h\<lparr>ph_checksum := ph_checksum h'\<rparr>"
    using e(2) by (simp add: decode_seal_append)
  have fields: "ph_len h' = ph_len h" "ph_offset h' = 12" "ph_if_type h' = ph_if_type h" "ph_if_num h' = ph_if_num h"
      "ph_seq_num h' = ph_seq_num h" "ph_flags h' = ph_flags h" "ph_throttle_cmd h' = 0"
    using h'(2) e by (metis esp_payload_header.simps(1-22) esp_payload_header.surjective)+
  note ck = frame_checksum [OF assms(1) [unfolded e(1)] h'(1)]
  show ?thesis
  proof (cases "ph_if_type h = 8")
    case True
    then show ?thesis
      using assms(2) h'(1) e(1,4-6) fields ck
      by (simp add: process_spi_rx_buf_def spi_rx_handle_def Let_def)
  next
    case False
    then have same: "st\<lparr>sp_dummy_rx := (sp_dummy_rx st \<and> ph_if_type (fst pk) \<noteq> 8), sp_dr_isr := False\<rparr> = st\<lparr>sp_dr_isr := False\<rparr>"
      using e(1) by (cases st) simp
    show ?thesis
      unfolding same
      using assms(2) h'(1) e(1,4-6) fields ck False
      by (simp add: process_spi_rx_buf_def spi_rx_handle_def Let_def)
  qed
qed

lemma dummy_decode:
  assumes "dummy_frame f"
  obtains n t where "decode_header f = Some (zero_header\<lparr>ph_if_type := 8, ph_if_num := n, ph_throttle_cmd := t\<rparr>)"
  using assms by (auto simp: dummy_frame_def)

lemma host_receives_dummy:
  assumes "dummy_frame f" "rxbuff \<noteq> 0"
  shows "\<exists>t. process_spi_rx_buf rxbuff f st = Some (-5, [rxbuff], st\<lparr>sp_dummy_rx := False, sp_throttling := t\<rparr>)"
proof -
  obtain n t where "decode_header f = Some (zero_header\<lparr>ph_if_type := 8, ph_if_num := n, ph_throttle_cmd := t\<rparr>)"
    using dummy_decode [OF assms(1)] .
  then show ?thesis using assms(2) by (auto simp: process_spi_rx_buf_def zero_header_def Let_def)
qed

definition slave_rx_handle :: "nat \<Rightarrow> pkt \<Rightarrow> bytes \<Rightarrow> interface_buffer_handle" where
  "slave_rx_handle rxbuff pk f = zero_handle\<lparr>bh_priv := rxbuff, bh_payload := Some (encode_header (fst pk) @ drop 12 f),
     bh_payload_len := ph_len (fst pk) + 12, bh_if_type := ucast (ph_if_type (fst pk)),
     bh_if_num := ucast (ph_if_num (fst pk)), bh_free := True\<rparr>"

lemma slave_receives_real:
  assumes "frame_of_pkt pk f"
  shows "\<exists>es. process_spi_rx True rxbuff f st =
    Some (0, st\<lparr>sl_events := es, sl_rx := prio_send (slave_rx_handle rxbuff pk f) (sl_rx st)\<rparr>)"
proof -
  obtain h p rest where e: "pk = (h, p)" "f = seal_frame h p @ rest" "ph_offset h = 12" "ph_len h \<noteq> 0"
      "unat (ph_len h) = length p" "length p \<le> 1588"
    using assms(1) by (auto elim!: frame_of_pktE)
  obtain h' where h': "decode_header f = Some h'" "h' = h\<lparr>ph_checksum := ph_checksum h'\<rparr>"
    using e(2) by (simp add: decode_seal_append)
  have fields: "ph_len h' = ph_len h" "ph_offset h' = 12" "ph_if_type h' = ph_if_type h" "ph_if_num h' = ph_if_num h"
    using h'(2) e by (metis esp_payload_header.simps(1-22) esp_payload_header.surjective)+
  note ck = frame_checksum [OF assms(1) [unfolded e(1)] h'(1)]
  show ?thesis
    using h'(1) e(1,4-6) fields ck
    by (auto simp: process_spi_rx_def slave_rx_handle_def Let_def)
qed

lemma slave_receives_dummy:
  assumes "dummy_frame f"
  shows "\<exists>es. process_spi_rx True rxbuff f st = Some (-1, st\<lparr>sl_events := es\<rparr>)"
proof -
  obtain n t where "decode_header f = Some (zero_header\<lparr>ph_if_type := 8, ph_if_num := n, ph_throttle_cmd := t\<rparr>)"
    using dummy_decode [OF assms(1)] .
  then show ?thesis by (auto simp: process_spi_rx_def zero_header_def Let_def)
qed

text \<open>What is read from the delivered handles again.\<close>

lemma ucast_4_8_4 [simp]: "(ucast (ucast (w :: 4 word) :: u8) :: 4 word) = w"
  by (simp add: word_unat_eq_iff unsigned_ucast_eq unsigned_take_bit_eq take_bit_nat_eq_self unat_u4_less less_trans [OF unat_u4_less])

lemma rx_handle_pkt:
  assumes "frame_of_pkt pk f"
  shows "(tx_hdr (spi_rx_handle b pk f), tx_payload (spi_rx_handle b pk f)) = ((fst pk)\<lparr>ph_pkt_type := 0\<rparr>, snd pk)"
    "frame_pkt (the (bh_payload (slave_rx_handle b pk f))) = pk"
  using assms
  by (auto elim!: frame_of_pktE simp: tx_hdr_def tx_payload_def spi_rx_handle_def slave_rx_handle_def frame_pkt_def zero_header_def)

text \<open>The host does not see the packet type of a private packet.\<close>

definition untyped :: "pkt \<Rightarrow> pkt" where
  "untyped p = ((fst p)\<lparr>ph_pkt_type := 0\<rparr>, snd p)"

definition slave_rx_pkt :: "interface_buffer_handle \<Rightarrow> pkt" where
  "slave_rx_pkt bh = frame_pkt (the (bh_payload bh))"

section \<open>Sending a packet\<close>

text \<open>A packet given to the host driver: copied from its payload, or built in place behind twelve cleared octets.\<close>

definition host_ok :: "interface_buffer_handle \<Rightarrow> bool" where
  "host_ok bh = (case bh_payload bh of None \<Rightarrow> False | Some p \<Rightarrow>
     0 < unat (bh_payload_len bh) \<and> unat (bh_payload_len bh) \<le> MAX_PAYLOAD_SIZE \<and> unat (bh_if_type bh) < 16 \<and>
     (if bh_zcopy bh = 0 then unat (bh_payload_len bh) \<le> length p \<and>
        (bh_if_type bh = if_code ESP_HCI_IF \<longrightarrow> 1 < unat (bh_payload_len bh))
      else length p = 1600 \<and> take 12 p = replicate 12 0))"

definition host_pkt :: "interface_buffer_handle \<Rightarrow> pkt" where
  "host_pkt bh = (let p = the (bh_payload bh); h = (tx_hdr bh)\<lparr>ph_seq_num := 0\<rparr> in
     if bh_zcopy bh \<noteq> 0 then (h, take (unat (bh_payload_len bh)) (drop 12 p))
     else if bh_if_type bh = if_code ESP_HCI_IF
     then (h\<lparr>ph_len := bh_payload_len bh - 1, ph_pkt_type := hd p\<rparr>, tl (take (unat (bh_payload_len bh)) p))
     else (h, take (unat (bh_payload_len bh)) p))"

lemma put_header_cleared:
  "take 12 buf = replicate 12 0 \<Longrightarrow> decode_header buf = Some zero_header"
  by (metis append_take_drop_id decode_encode encode_zero_header)

text \<open>The checksum step of both senders.\<close>

lemma seal_step:
  assumes "pkt_ok (h, p)" "take (length p) xs = p" "length xs = 1588" "n = 12 + length p"
  shows "compute_checksum (encode_header h @ xs) (of_nat n) = Some (octet_sum (encode_header h @ p))"
    "frame_of_pkt (h, p) (put_header (h\<lparr>ph_checksum := octet_sum (encode_header h @ p)\<rparr>) (encode_header h @ xs))"
proof -
  have l: "length p \<le> 1588" "ph_checksum h = 0" using assms(1) by (simp_all add: pkt_ok_def)
  have u: "unat (of_nat n :: u16) = 12 + length p" using l assms(4) by (simp only: unat_of_nat) simp
  show "compute_checksum (encode_header h @ xs) (of_nat n) = Some (octet_sum (encode_header h @ p))"
    using u l assms(2,3) by (subst compute_checksum_eq) simp_all
  have c0: "h\<lparr>ph_checksum := 0\<rparr> = h" using l(2) by (cases h) simp
  show "frame_of_pkt (h, p) (put_header (h\<lparr>ph_checksum := octet_sum (encode_header h @ p)\<rparr>) (encode_header h @ xs))"
    using assms l by (simp add: frame_of_pkt_def put_header_def seal_frame_def c0 Let_def del: octet_sum_append)
qed

lemma ucast_8_4_8: "unat (t :: u8) < 16 \<Longrightarrow> (ucast (ucast t :: 4 word) :: u8) = t"
  by (simp add: word_unat_eq_iff unsigned_ucast_eq unsigned_take_bit_eq take_bit_nat_eq_self)

lemma hci_type:
  assumes "unat (t :: u8) < 16"
  shows "(ucast t :: 4 word) = 4 \<longleftrightarrow> t = 4"
proof
  assume "(ucast t :: 4 word) = 4"
  then have "(ucast (ucast t :: 4 word) :: u8) = 4" by simp
  then show "t = 4" using ucast_8_4_8 [OF assms] by simp
qed simp

lemma spi_build_frame:
  assumes "host_ok bh" "sendbuf = (if bh_zcopy bh = 0 then replicate 1600 0 else the (bh_payload bh))"
  shows "\<exists>len f. spi_build bh (bh_payload_len bh) sendbuf = Some (len, f) \<and> len \<noteq> 0 \<and> frame_of_pkt (host_pkt bh) f"
proof -
  obtain p where p: "bh_payload bh = Some p" using assms(1) by (auto simp: host_ok_def split: option.splits)
  let ?n = "unat (bh_payload_len bh)"
  define h where "h = zero_header\<lparr>ph_len := bh_payload_len bh, ph_offset := of_nat 12, ph_if_type := ucast (bh_if_type bh),
      ph_if_num := ucast (bh_if_num bh), ph_flags := bh_flag bh\<rparr>"
  have n: "0 < ?n" "?n \<le> 1588" "unat (bh_if_type bh) < 16" using assms(1) p by (auto simp: host_ok_def)
  have d0: "decode_header sendbuf = Some zero_header"
    using assms p replicate_add [of 12 1588 "0 :: u8"] by (intro put_header_cleared) (auto simp: host_ok_def)
  have hh: "(tx_hdr bh)\<lparr>ph_seq_num := 0\<rparr> = h" by (simp add: tx_hdr_def zero_header_def h_def)
  have hf: "ph_if_type h = ucast (bh_if_type bh)" "ph_len h = bh_payload_len bh" "ph_offset h = 12" "ph_checksum h = 0"
      "ph_throttle_cmd h = 0" "ph_reserved2 h = 0"
    by (simp_all add: h_def zero_header_def)
  note ty = hci_type [OF n(3)]
  have lz: "length sendbuf = 1600" using assms p by (auto simp: host_ok_def)
  note bd = spi_build_def [of bh "bh_payload_len bh" sendbuf, unfolded d0 Option.bind.bind_lunit Let_def, folded h_def]
  show ?thesis
  proof (cases "bh_zcopy bh = 0")
    case zc: True
    have l: "?n \<le> length p" using assms(1) p zc by (auto simp: host_ok_def)
    have poked: "poke 12 d (put_header h sendbuf) = Some (encode_header h @ d @ replicate (1588 - length d) 0)"
      if "length d \<le> 1588" for d
      using assms(2) zc that by (simp add: poke_def put_header_def)
    show ?thesis
    proof (cases "bh_if_type bh = 4")
      case True
      have n1: "1 < ?n" using assms(1) p zc True by (auto simp: host_ok_def)
      define d where "d = take (?n - 1) (drop 1 p)"
      define k where "k = h\<lparr>ph_pkt_type := hd p, ph_len := bh_payload_len bh - 1\<rparr>"
      have u: "unat (bh_payload_len bh - 1) = ?n - 1" using n1 by (simp add: unat_sub word_le_nat_alt)
      have m1: "bh_payload_len bh - 1 \<noteq> 0" using u n1 by auto
      have td: "tl (take ?n p) = d" using l n1 by (cases p) (auto simp: d_def take_Cons')
      have pk: "host_pkt bh = (k, d)" using p zc True td hh by (simp add: host_pkt_def Let_def k_def)
      have ld: "length d = ?n - 1" using l n1 by (simp add: d_def)
      have ok: "pkt_ok (k, d)"
        using ld n n1 u by (auto simp: pkt_ok_def k_def hf word_unat_eq_iff unat_of_nat_u16)
      have ms: "mem_slice p 1 (unat (bh_payload_len bh - 1)) = Some d" using l n1 u by (simp add: mem_slice_def d_def)
      have pe: "peek p 0 = Some (hd p)" using l n1 by (cases p) (auto simp: peek_def)
      let ?xs = "d @ replicate (1588 - length d) 0"
      note st = seal_step [OF ok, of ?xs "12 + unat (bh_payload_len bh - 1)"]
      have ph: "put_header k (encode_header h @ ?xs) = encode_header k @ ?xs" by (simp add: put_header_def)
      have ty4: "ph_if_type h = ucast (if_code ESP_HCI_IF)" using True hf by simp
      show ?thesis
        unfolding pk bd using p zc True ms pe m1 ph st ld n u poked [of d]
        by (simp add: ty4 k_def [symmetric] del: octet_sum_append of_nat_add)
    next
      case False
      define d where "d = take ?n p"
      have pk: "host_pkt bh = (h, d)" using p zc False hh by (simp add: host_pkt_def Let_def d_def)
      have ld: "length d = ?n" using l by (simp add: d_def)
      have ok: "pkt_ok (h, d)"
        using ld n by (auto simp: pkt_ok_def hf word_unat_eq_iff unat_of_nat_u16)
      have ms: "mem_slice p 0 (min ?n 1588) = Some d" using l n by (simp add: mem_slice_def d_def min_def)
      let ?xs = "d @ replicate (1588 - length d) 0"
      note st = seal_step [OF ok, of ?xs "12 + ?n"]
      have ph: "put_header h (encode_header h @ ?xs) = encode_header h @ ?xs" by (simp add: put_header_def)
      have ty4: "ph_if_type h \<noteq> ucast (if_code ESP_HCI_IF)" using False hf ty by simp
      have nz: "bh_payload_len bh \<noteq> 0" using n by auto
      show ?thesis
        unfolding pk bd using p zc False ms ph st ld n nz poked [of d]
        by (simp add: ty4 del: octet_sum_append of_nat_add if_code.simps)
    qed
  next
    case False
    define d where "d = take ?n (drop 12 sendbuf)"
    have sb: "sendbuf = p" using assms(2) False p by simp
    have pk: "host_pkt bh = (h, d)" using p False hh sb by (simp add: host_pkt_def Let_def d_def)
    have ld: "length d = ?n" using lz n by (simp add: d_def)
    have ok: "pkt_ok (h, d)" using ld n by (auto simp: pkt_ok_def hf word_unat_eq_iff unat_of_nat_u16)
    have xs: "put_header h sendbuf = encode_header h @ drop 12 sendbuf" by (simp add: put_header_def)
    have ph: "put_header h (encode_header h @ drop 12 sendbuf) = encode_header h @ drop 12 sendbuf" by (simp add: put_header_def)
    note st = seal_step [OF ok, of "drop 12 sendbuf" "12 + ?n"]
    have nz: "bh_payload_len bh \<noteq> 0" using n by auto
    show ?thesis
      unfolding pk bd using False xs ph st ld lz n nz
      by (simp add: d_def [symmetric] del: octet_sum_append of_nat_add)
  qed
qed

lemma spi_next_frame:
  assumes "prio_recv (sp_to_slave st) = (Some bh, q)" "pq_sem (sp_to_slave st) \<noteq> 0" "host_ok bh"
  shows "\<exists>f tf fr. spi_get_next_tx_buffer True st =
    Some ((True, Some (f, tf), fr), st\<lparr>sp_to_slave := q\<lparr>pq_sem := pq_sem q - 1\<rparr>\<rparr>) \<and> frame_of_pkt (host_pkt bh) f"
proof -
  obtain p where p: "bh_payload bh = Some p" "bh_payload_len bh \<noteq> 0"
    using assms(3) by (cases "bh_payload_len bh = 0") (auto simp: host_ok_def split: option.splits)
  obtain len f where "spi_build bh (bh_payload_len bh) (if bh_zcopy bh = 0 then replicate 1600 0 else the (bh_payload bh)) = Some (len, f)"
      "len \<noteq> 0" "frame_of_pkt (host_pkt bh) f"
    using spi_build_frame [OF assms(3) refl] by blast
  then show ?thesis
    using assms(1,2) p by (cases "bh_zcopy bh = 0") (simp_all add: spi_get_next_tx_buffer_def Let_def)
qed

lemma spi_next_none:
  assumes "pq_sem (sp_to_slave st) = 0"
  shows "spi_get_next_tx_buffer True st = Some ((False, None, []), st)"
  using assms by (simp add: spi_get_next_tx_buffer_def zero_handle_def Let_def)

text \<open>A packet given to the co-processor's driver.\<close>

definition slave_ok :: "interface_buffer_handle \<Rightarrow> bool" where
  "slave_ok bh = (case bh_payload bh of None \<Rightarrow> False | Some p \<Rightarrow> 0 < unat (bh_payload_len bh) \<and>
     unat (bh_payload_len bh) \<le> length p \<and> unat (bh_payload_len bh) \<le> MAX_PAYLOAD_SIZE \<and> unat (bh_if_type bh) < 16)"

definition slave_pkt :: "interface_buffer_handle \<Rightarrow> pkt" where
  "slave_pkt bh = (tx_hdr bh, tx_payload bh)"

lemma slave_okD:
  assumes "slave_ok bh"
  obtains p where "bh_payload bh = Some p" "bh_payload_len bh \<noteq> 0" "spi_dma_aligned (unat (bh_payload_len bh) + 12) \<le> 1600"
    "pkt_ok (slave_pkt bh)" "mem_slice p 0 (unat (bh_payload_len bh)) = Some (tx_payload bh)"
    "length (tx_payload bh) = unat (bh_payload_len bh)" "length (tx_payload bh) \<le> 1588" "unat (bh_if_type bh) < 16"
proof -
  obtain p where p: "bh_payload bh = Some p" using assms by (auto simp: slave_ok_def split: option.splits)
  let ?n = "unat (bh_payload_len bh)"
  have n: "0 < ?n" "?n \<le> length p" "?n \<le> 1588" "unat (bh_if_type bh) < 16" using assms p by (auto simp: slave_ok_def)
  have a: "spi_dma_aligned (?n + 12) \<le> 1600" using n(3) unfolding spi_dma_aligned_def by presburger
  have l: "length (tx_payload bh) = ?n" using n p by (simp add: tx_payload_def)
  have ok: "pkt_ok (slave_pkt bh)"
    using l n by (auto simp: pkt_ok_def slave_pkt_def tx_hdr_def zero_header_def word_unat_eq_iff unat_of_nat_u16)
  show thesis
    using that [of p] p n a l ok by (cases "bh_payload_len bh = 0") (auto simp: mem_slice_def tx_payload_def)
qed

lemma spi_write_frame_pkt:
  assumes "slave_ok bh" "bh_payload bh = Some p"
  shows "\<exists>f. spi_write_frame True bh p = Some f \<and> frame_of_pkt (slave_pkt bh) f"
proof -
  obtain q where s: "bh_payload bh = Some q" "pkt_ok (slave_pkt bh)" "mem_slice q 0 (unat (bh_payload_len bh)) = Some (tx_payload bh)"
      "length (tx_payload bh) = unat (bh_payload_len bh)" "length (tx_payload bh) \<le> 1588"
    using slave_okD [OF assms(1)] .
  define h where "h = tx_hdr bh"
  have hd: "zero_header\<lparr>ph_if_type := ucast (bh_if_type bh), ph_if_num := ucast (bh_if_num bh), ph_len := bh_payload_len bh,
      ph_offset := of_nat 12, ph_seq_num := bh_seq_num bh, ph_flags := bh_flag bh\<rparr> = h"
    by (simp add: h_def tx_hdr_def)
  let ?d = "tx_payload bh"
  let ?xs = "?d @ replicate (1588 - length ?d) 0"
  have poked: "poke 12 ?d (put_header h (replicate 1600 0)) = Some (encode_header h @ ?xs)"
    using s(5) by (simp add: poke_def put_header_def)
  have ok: "pkt_ok (h, ?d)" using s(2) by (simp add: slave_pkt_def h_def)
  note st = seal_step [OF ok, of ?xs "12 + length ?d"]
  have e: "of_nat (12 + length ?d) = (of_nat 12 + bh_payload_len bh :: u16)" using s(4) by simp
  show ?thesis
    unfolding spi_write_frame_def hd Let_def slave_pkt_def h_def [symmetric]
    using s(1,3) assms(2) poked st s(5) unfolding e
    by (simp del: octet_sum_append of_nat_add)
qed

definition startup_pkt :: "bytes \<Rightarrow> pkt" where
  "startup_pkt tlvs = (zero_header\<lparr>ph_if_type := 5, ph_offset := 12, ph_pkt_type := ESP_PACKET_TYPE_EVENT,
     ph_len := of_nat (length tlvs + 2)\<rparr>, ESP_PRIV_EVENT_INIT # of_nat (length tlvs) # tlvs)"

lemma spi_startup_frame_pkt:
  assumes "length tlvs \<le> 255"
  shows "\<exists>len f. spi_startup_frame True tlvs = Some (len, f) \<and> frame_of_pkt (startup_pkt tlvs) f"
proof -
  let ?d = "ESP_PRIV_EVENT_INIT # of_nat (length tlvs) # tlvs"
  define h where "h = zero_header\<lparr>ph_if_type := ucast (if_code ESP_PRIV_IF), ph_offset := of_nat 12,
    ph_pkt_type := ESP_PACKET_TYPE_EVENT, ph_len := of_nat (length tlvs) + 2\<rparr>"
  have e: "startup_pkt tlvs = (h, ?d)" unfolding startup_pkt_def h_def by (simp only: if_code.simps of_nat_add of_nat_numeral) simp
  have u8: "(ucast (of_nat (length tlvs) :: u16) :: u8) = of_nat (length tlvs)"
    using assms by (simp only: unsigned_of_nat) (simp add: take_bit_nat_eq_self)
  have "ph_len h = of_nat (length ?d)" unfolding h_def by (simp only: list.size of_nat_add of_nat_1 esp_payload_header.simps) simp
  then have ok: "pkt_ok (h, ?d)" using assms by (simp add: pkt_ok_def h_def zero_header_def)
  let ?xs = "?d @ replicate (1588 - length ?d) 0"
  have poked: "poke 12 ?d (put_header h (replicate 1600 0)) = Some (encode_header h @ ?xs)"
    using assms by (simp add: poke_def put_header_def)
  note st = seal_step [OF ok, of ?xs "12 + length ?d"]
  have n: "of_nat (12 + length ?d) = (of_nat (length tlvs) + 2 + of_nat 12 :: u16)" by simp
  show ?thesis
    unfolding spi_startup_frame_def Let_def h_def [symmetric] u8 e
    using poked st(1) [unfolded n] st(2) assms by (simp del: octet_sum_append octet_sum_Cons of_nat_add append.simps length_Cons)
qed

section \<open>Packets by priority\<close>

text \<open>The queue of an interface type: \<open>PRIO_Q_SERIAL\<close>, \<open>PRIO_Q_BT\<close> or \<open>PRIO_Q_OTHERS\<close>.\<close>

definition prio_of :: "u8 \<Rightarrow> nat" where
  "prio_of t = (if t = if_code ESP_SERIAL_IF then 0 else if t = if_code ESP_HCI_IF then 1 else 2)"

definition pkt_prio :: "pkt \<Rightarrow> nat" where
  "pkt_prio p = prio_of (ucast (ph_if_type (fst p)))"

definition of_prio :: "nat \<Rightarrow> pkt list \<Rightarrow> pkt list" where
  "of_prio k = filter (\<lambda>p. pkt_prio p = k)"

lemma of_prio_simps [simp]: "of_prio k [] = []" "of_prio k (xs @ ys) = of_prio k xs @ of_prio k ys"
  by (simp_all add: of_prio_def)

text \<open>A queue whose semaphore counts it and whose packets, seen through \<open>V\<close>, are in the list of their priority.\<close>

definition sorted_q :: "(interface_buffer_handle \<Rightarrow> pkt) \<Rightarrow> prio_q \<Rightarrow> bool" where
  "sorted_q V q = ((\<forall>b \<in> set (pq_serial q). pkt_prio (V b) = 0) \<and> (\<forall>b \<in> set (pq_bt q). pkt_prio (V b) = 1) \<and>
     (\<forall>b \<in> set (pq_others q). pkt_prio (V b) = 2) \<and> pq_sem q = length (q_all q))"

lemma of_prio_none: "\<forall>b \<in> set xs. pkt_prio (V b) \<noteq> k \<Longrightarrow> of_prio k (map V xs) = []"
  by (induction xs) (auto simp: of_prio_def)

lemma prio_of_cases: "prio_of t = 0 \<and> t = 3 \<or> prio_of t = 1 \<and> t = 4 \<or> prio_of t = 2 \<and> t \<noteq> 3 \<and> t \<noteq> 4"
  by (simp add: prio_of_def)

lemma sorted_q_send:
  assumes "sorted_q V q" "pkt_prio (V b) = prio_of (bh_if_type b)"
  shows "sorted_q V (prio_send b q)"
    "of_prio k (map V (q_all (prio_send b q))) = of_prio k (map V (q_all q)) @ of_prio k [V b]"
proof -
  have s: "\<forall>b \<in> set (pq_serial q). pkt_prio (V b) = 0" "\<forall>b \<in> set (pq_bt q). pkt_prio (V b) = 1"
      "\<forall>b \<in> set (pq_others q). pkt_prio (V b) = 2"
    using assms(1) by (auto simp: sorted_q_def)
  show "sorted_q V (prio_send b q)"
    using assms prio_of_cases [of "bh_if_type b"] by (auto simp: sorted_q_def prio_send_def q_all_def Let_def)
  show "of_prio k (map V (q_all (prio_send b q))) = of_prio k (map V (q_all q)) @ of_prio k [V b]"
  proof (cases "pkt_prio (V b) = k")
    case True
    have n: "of_prio k (map V xs) = []" if "\<forall>b \<in> set xs. pkt_prio (V b) = j" "j \<noteq> k" for xs j
      using that by (intro of_prio_none) auto
    show ?thesis
      using True assms(2) prio_of_cases [of "bh_if_type b"] n [OF s(1)] n [OF s(2)] n [OF s(3)]
      by (auto simp: prio_send_def q_all_def Let_def)
  next
    case False
    then have "of_prio k [V b] = []" by (simp add: of_prio_def)
    then show ?thesis by (auto simp: prio_send_def q_all_def Let_def)
  qed
qed

lemma sorted_q_recv:
  assumes "sorted_q V q" "pq_sem q \<noteq> 0" "prio_recv q = (got, q')"
  obtains b where "got = Some b" "q_all q = b # q_all q'" "sorted_q V (q'\<lparr>pq_sem := pq_sem q' - 1\<rparr>)"
    "of_prio k (map V (q_all q)) = of_prio k [V b] @ of_prio k (map V (q_all q'))"
proof -
  have l: "pq_sem q = length (q_all q)" using assms(1) by (simp add: sorted_q_def)
  obtain b where b: "got = Some b" "q_all q = b # q_all q'"
    using prio_recv_all [OF assms(3)] l assms(2) by (cases got) auto
  have "pq_sem q' = length (q_all q)" using prio_recv_all(1) [OF assms(3)] l by simp
  then have "sorted_q V (q'\<lparr>pq_sem := pq_sem q' - 1\<rparr>)"
    using assms(1,3) b(2) by (auto simp: sorted_q_def prio_recv_def split: list.splits)
  then show thesis using b that by (simp add: of_prio_def)
qed

lemma sorted_q_empty: "sorted_q V empty_prio_q" "q_all empty_prio_q = []"
  by (simp_all add: sorted_q_def empty_prio_q_def q_all_def)

lemma host_pkt_prio:
  assumes "host_ok bh"
  shows "pkt_prio (host_pkt bh) = prio_of (bh_if_type bh)"
proof -
  have "unat (bh_if_type bh) < 16" using assms by (auto simp: host_ok_def split: option.splits)
  then have "ucast (ph_if_type (fst (host_pkt bh))) = bh_if_type bh"
    using ucast_8_4_8 by (simp add: host_pkt_def tx_hdr_def Let_def)
  then show ?thesis by (simp add: pkt_prio_def)
qed

lemma host_seq_irrelevant [simp]:
  "host_ok (bh\<lparr>bh_seq_num := n\<rparr>) = host_ok bh" "host_pkt (bh\<lparr>bh_seq_num := n\<rparr>) = host_pkt bh"
  by (cases "bh_payload bh"; simp add: host_ok_def) (simp add: host_pkt_def tx_hdr_def Let_def)

end
