(* ===== verification/Spi_Link.thy ===== *)
theory Spi_Link
  imports Spi_Frame
begin

unbundle bit_operations_syntax

text \<open>
  Both ends of the SPI link (\<open>spi_drv.c\<close> of the host, \<open>spi_slave_api.c\<close> of the co-processor) with the two lines
  between them: every packet arrives, in order within its priority, and no side waits for ever; and the race of
  \<open>esp_spi_write\<close> that breaks the latter. Both sides are built with the checksum.
\<close>

section \<open>The two drivers with their lines\<close>

text \<open>The interrupts at the host when the lines of the co-processor change from \<open>s\<close> to \<open>s'\<close>: both are rising edges.\<close>

definition line_edges :: "slave_spi \<Rightarrow> slave_spi \<Rightarrow> spi_drv \<Rightarrow> spi_drv" where
  "line_edges s s' h =
     (let h = (if \<not> sl_handshake s \<and> sl_handshake s' then gpio_hs_isr_handler h else h)
      in if \<not> sl_data_ready s \<and> sl_data_ready s' then gpio_dr_isr_handler h else h)"

text \<open>
  Host, co-processor, and the finished transactions the co-processor has still to process (receive buffer and octets).
\<close>

type_synonym spi_link = "spi_drv \<times> slave_spi \<times> (nat \<times> bytes) list"

text \<open>
  A turn of the host's transaction task: the frame it clocks out is exchanged with that of the transaction queued at
  the co-processor, while chip select goes down and up again.
\<close>

definition spi_turn :: "nat \<Rightarrow> spi_link \<Rightarrow> spi_link option" where
  "spi_turn rxbuff c = (case c of (h, s, fin) \<Rightarrow> do {
     let rx = (case sl_queued s of [] \<Rightarrow> [] | t # _ \<Rightarrow> fst t);
     (frame, _, _, h) \<leftarrow> spi_transaction_step True True rxbuff (sl_handshake s) (sl_data_ready s) (0, rx) h;
     case frame of
       None \<Rightarrow> Some (h, s, fin)
     | Some f \<Rightarrow> (case sl_queued s of
         [] \<Rightarrow> None
       | t # ts \<Rightarrow> Some (h, gpio_disable_hs_isr_handler True (gpio_disable_hs_isr_handler False (s\<lparr>sl_queued := ts\<rparr>)),
                        fin @ [(snd t, f)]))
   })"

text \<open>A turn of the co-processor's post-process task.\<close>

definition spi_post :: "nat \<times> u8 \<times> u8 \<Rightarrow> nat \<Rightarrow> spi_link \<Rightarrow> spi_link option" where
  "spi_post cfg rxbuff c = (case c of (h, s, fin) \<Rightarrow> (case fin of
     [] \<Rightarrow> None
   | f # fs \<Rightarrow> do {
       s' \<leftarrow> spi_post_process_step True True cfg rxbuff f s;
       Some (line_edges s s' h, s', fs)
     }))"

definition slave_tx_pkt :: "interface_buffer_handle \<Rightarrow> pkt" where
  "slave_tx_pkt bh = untyped (frame_pkt (the (bh_payload bh)))"

definition loaded :: "bytes list \<Rightarrow> pkt list" where
  "loaded fs = map frame_pkt (filter real_frame fs)"

text \<open>
  Runs of the link from the start-up event on, with the packets given to the host driver, those the co-processor has
  read, those given to the driver of the co-processor, and those the host has dispatched. Each operation is atomic.
\<close>

inductive spi_run :: "pkt list \<Rightarrow> pkt list \<Rightarrow> pkt list \<Rightarrow> pkt list \<Rightarrow> spi_link \<Rightarrow> bool" where
  Start: "spi_bus_init ok h0 = Some h \<Longrightarrow> sl_state s0 = IF_DEINIT \<Longrightarrow> \<not> sl_created s0 \<Longrightarrow> sl_queued s0 = [] \<Longrightarrow>
    esp_spi_init unload ok' s0 = Some s \<Longrightarrow> length tlvs \<le> 255 \<Longrightarrow>
    spi_startup_event True True cfg rb tlvs s = Some s' \<Longrightarrow>
    spi_run [] [] [untyped (startup_pkt tlvs)] [] (line_edges s s' h, s', [])"
| Host_Tx: "spi_run hs hr ss sr (h, s, fin) \<Longrightarrow> host_ok bh \<Longrightarrow>
    spi_esp_hosted_tx (bh_if_type bh) (bh_if_num bh) (bh_payload bh) (bh_payload_len bh) (bh_zcopy bh) (bh_priv bh)
      (bh_free bh) (bh_flag bh) h = (r, fr, h') \<Longrightarrow>
    spi_run (hs @ [host_pkt bh]) hr ss sr (h', s, fin)"
| Host_Rx: "spi_run hs hr ss sr (h, s, fin) \<Longrightarrow> spi_process_rx_step mem sbuf qok chan (h, ll) = Some (act, fr, h', ll') \<Longrightarrow>
    prio_recv (sp_from_slave h) = (Some bh, q) \<Longrightarrow> spi_run hs hr ss (sr @ [slave_pkt bh]) (h', s, fin)"
| Slave_Tx: "spi_run hs hr ss sr (h, s, fin) \<Longrightarrow> slave_ok bh \<Longrightarrow> esp_spi_write True True cfg True (Some bh) s = Some (r, s') \<Longrightarrow>
    spi_run hs hr (ss @ [slave_pkt bh]) sr (line_edges s s' h, s', fin)"
| Slave_Rx: "spi_run hs hr ss sr (h, s, fin) \<Longrightarrow> esp_spi_read True s = Some ((r, Some bh), s') \<Longrightarrow>
    spi_run hs (hr @ [slave_rx_pkt bh]) ss sr (h, s', fin)"
| Turn: "spi_run hs hr ss sr c \<Longrightarrow> spi_turn rb c = Some c' \<Longrightarrow> spi_run hs hr ss sr c'"
| Post: "spi_run hs hr ss sr c \<Longrightarrow> spi_post cfg rb c = Some c' \<Longrightarrow> spi_run hs hr ss sr c'"

section \<open>The invariant\<close>

definition good_frame :: "bytes \<Rightarrow> bool" where
  "good_frame f = (dummy_frame f \<or> frame_of_pkt (frame_pkt f) f)"

text \<open>One transaction is either queued at the co-processor, with the handshake up, or finished.\<close>

definition link_shape :: "spi_link \<Rightarrow> bool" where
  "link_shape c = (case c of (h, s, fin) \<Rightarrow> sl_state s = IF_ACTIVE \<and> sl_created s \<and>
     (if sl_handshake s then fin = [] \<and> (\<exists>f rb. sl_queued s = [(f, rb)] \<and> good_frame f)
      else sl_queued s = [] \<and> sl_cs_sem s \<and> (\<exists>rb f. fin = [(rb, f)] \<and> good_frame f)))"

definition link_queues :: "spi_link \<Rightarrow> bool" where
  "link_queues c = (case c of (h, s, fin) \<Rightarrow> sorted_q host_pkt (sp_to_slave h) \<and> sorted_q slave_pkt (sp_from_slave h) \<and>
     sorted_q slave_tx_pkt (sl_tx s) \<and> sorted_q slave_rx_pkt (sl_rx s) \<and> (\<forall>b \<in> set (q_all (sp_to_slave h)). host_ok b) \<and>
     (\<forall>b \<in> set (q_all (sl_tx s)). \<exists>f. bh_payload b = Some f \<and> frame_of_pkt (frame_pkt f) f))"

definition link_signals :: "spi_link \<Rightarrow> bool" where
  "link_signals c = (case c of (h, s, fin) \<Rightarrow>
     (q_all (sl_tx s) \<noteq> [] \<or> loaded (map fst (sl_queued s)) \<noteq> [] \<longrightarrow> sl_data_ready s) \<and>
     (sl_handshake s \<and> (sl_data_ready s \<or> q_all (sp_to_slave h) \<noteq> []) \<longrightarrow> sp_ready h))"

definition to_host :: "spi_link \<Rightarrow> pkt list" where
  "to_host c = (case c of (h, s, fin) \<Rightarrow> map slave_pkt (q_all (sp_from_slave h)) @
     map untyped (loaded (map fst (sl_queued s))) @ map slave_tx_pkt (q_all (sl_tx s)))"

definition to_slave :: "spi_link \<Rightarrow> pkt list" where
  "to_slave c = (case c of (h, s, fin) \<Rightarrow> map slave_rx_pkt (q_all (sl_rx s)) @ loaded (map snd fin) @
     map host_pkt (q_all (sp_to_slave h)))"

definition link_fifo :: "pkt list \<Rightarrow> pkt list \<Rightarrow> pkt list \<Rightarrow> pkt list \<Rightarrow> spi_link \<Rightarrow> bool" where
  "link_fifo hs hr ss sr c = (\<forall>k. of_prio k ss = of_prio k sr @ of_prio k (to_host c) \<and>
     of_prio k hs = of_prio k hr @ of_prio k (to_slave c))"

definition link_inv :: "pkt list \<Rightarrow> pkt list \<Rightarrow> pkt list \<Rightarrow> pkt list \<Rightarrow> spi_link \<Rightarrow> bool" where
  "link_inv hs hr ss sr c = (link_shape c \<and> link_queues c \<and> link_signals c \<and> link_fifo hs hr ss sr c)"

lemma host_tx_accepted:
  assumes "host_ok bh" "spi_esp_hosted_tx (bh_if_type bh) (bh_if_num bh) (bh_payload bh) (bh_payload_len bh) (bh_zcopy bh)
      (bh_priv bh) (bh_free bh) (bh_flag bh) h = (r, fr, h')"
  shows "h' = h\<lparr>sp_to_slave := prio_send (bh\<lparr>bh_seq_num := 0\<rparr>) (sp_to_slave h), sp_ready := True\<rparr>"
proof -
  have z: "zero_handle\<lparr>bh_zcopy := bh_zcopy bh, bh_if_type := bh_if_type bh, bh_if_num := bh_if_num bh,
      bh_payload_len := bh_payload_len bh, bh_payload := bh_payload bh, bh_priv := bh_priv bh, bh_free := bh_free bh,
      bh_flag := bh_flag bh\<rparr> = bh\<lparr>bh_seq_num := 0\<rparr>"
    by (cases bh) (simp add: zero_handle_def)
  have "bh_payload bh \<noteq> None" "bh_payload_len bh \<noteq> 0" "unat (bh_payload_len bh) \<le> 1588"
    using assms(1) by (cases "bh_payload_len bh = 0"; auto simp: host_ok_def split: option.splits)+
  then show ?thesis using assms(2) unfolding spi_esp_hosted_tx_def z Let_def by auto
qed

lemma link_shape_host: "link_shape (h, s, fin) \<Longrightarrow> link_shape (h', s, fin)"
  unfolding link_shape_def prod.case by assumption

lemma link_shape_cong:
  assumes "link_shape (h, s, fin)" "sl_state s' = sl_state s" "sl_created s' = sl_created s"
    "sl_handshake s' = sl_handshake s" "sl_queued s' = sl_queued s" "sl_cs_sem s' = sl_cs_sem s"
  shows "link_shape (h', s', fin)"
  using assms by (auto simp: link_shape_def split: if_splits)

lemma link_shape_queues [simp]: "link_shape (h, s\<lparr>sl_rx := q\<rparr>, fin) = link_shape (h, s, fin)"
  "link_shape (h, s\<lparr>sl_tx := q\<rparr>, fin) = link_shape (h, s, fin)"
  by (simp_all add: link_shape_def)

lemmas link_defs = link_queues_def link_signals_def link_fifo_def to_host_def to_slave_def

lemma q_all_set_send: "set (q_all (prio_send b q)) = insert b (set (q_all q))"
  by (auto simp: q_all_def prio_send_def Let_def)

lemma inv_host_tx:
  assumes "link_inv hs hr ss sr (h, s, fin)" "host_ok bh"
    and "spi_esp_hosted_tx (bh_if_type bh) (bh_if_num bh) (bh_payload bh) (bh_payload_len bh) (bh_zcopy bh)
      (bh_priv bh) (bh_free bh) (bh_flag bh) h = (r, fr, h')"
  shows "link_inv (hs @ [host_pkt bh]) hr ss sr (h', s, fin)"
proof -
  let ?b = "bh\<lparr>bh_seq_num := 0\<rparr>"
  have h': "h' = h\<lparr>sp_to_slave := prio_send ?b (sp_to_slave h), sp_ready := True\<rparr>"
    by (rule host_tx_accepted [OF assms(2,3)])
  have q: "sorted_q host_pkt (sp_to_slave h)" using assms(1) by (simp add: link_inv_def link_queues_def)
  have p: "pkt_prio (host_pkt ?b) = prio_of (bh_if_type ?b)" using host_pkt_prio [OF assms(2)] by simp
  note send = sorted_q_send [OF q p]
  show ?thesis
    using assms(1,2) send link_shape_host [of h s fin h'] unfolding link_inv_def
    by (simp add: h' link_defs q_all_set_send)
qed

lemma inv_host_rx:
  assumes "link_inv hs hr ss sr (h, s, fin)" "spi_process_rx_step mem sbuf qok chan (h, ll) = Some (act, fr, h', ll')"
    and "prio_recv (sp_from_slave h) = (Some bh, q)"
  shows "link_inv hs hr ss (sr @ [slave_pkt bh]) (h', s, fin)"
proof -
  have sq: "sorted_q slave_pkt (sp_from_slave h)" using assms(1) by (simp add: link_inv_def link_queues_def)
  have ne: "pq_sem (sp_from_slave h) \<noteq> 0" using assms(2) by (intro notI) (simp add: spi_process_rx_step_def)
  obtain b where b: "h' = h\<lparr>sp_from_slave := q\<lparr>pq_sem := pq_sem q - 1\<rparr>, sp_dummy_rx := b\<rparr>"
  proof -
    have same: "h\<lparr>sp_from_slave := q'\<rparr> = h\<lparr>sp_from_slave := q', sp_dummy_rx := sp_dummy_rx h\<rparr>" for q' by (cases h) simp
    show thesis
      using assms(2,3) ne that [of True] that [of "sp_dummy_rx h"]
      by (auto simp: spi_process_rx_step_def Let_def bind_eq_Some_conv same [symmetric] split: if_splits)
  qed
  obtain b' where r: "Some bh = Some b'" "q_all (sp_from_slave h) = b' # q_all q" "sorted_q slave_pkt (q\<lparr>pq_sem := pq_sem q - 1\<rparr>)"
    using sorted_q_recv [OF sq ne assms(3)] by blast
  have f: "of_prio k (map slave_pkt (q_all (sp_from_slave h))) = of_prio k [slave_pkt bh] @ of_prio k (map slave_pkt (q_all q))" for k
    using r by (simp add: of_prio_def)
  show ?thesis
    using assms(1) r(3) link_shape_host [of h s fin h'] unfolding link_inv_def
    by (simp add: b link_defs f)
qed

lemma inv_slave_rx:
  assumes "link_inv hs hr ss sr (h, s, fin)" "esp_spi_read True s = Some ((r, Some bh), s')"
  shows "link_inv hs (hr @ [slave_rx_pkt bh]) ss sr (h, s', fin)"
proof -
  have sq: "sorted_q slave_rx_pkt (sl_rx s)" using assms(1) by (simp add: link_inv_def link_queues_def)
  have ne: "pq_sem (sl_rx s) \<noteq> 0" using assms(2) by (intro notI) (simp add: esp_spi_read_def)
  let ?q0 = "(sl_rx s)\<lparr>pq_sem := pq_sem (sl_rx s) - 1\<rparr>"
  obtain q where q: "prio_recv (sl_rx s) = (Some bh, q)" "s' = s\<lparr>sl_rx := q\<lparr>pq_sem := pq_sem q - 1\<rparr>\<rparr>"
  proof -
    obtain got q where pr: "prio_recv (sl_rx s) = (got, q)" by (cases "prio_recv (sl_rx s)")
    have "prio_recv ?q0 = (got, q\<lparr>pq_sem := pq_sem q - 1\<rparr>)" using pr by (auto simp: prio_recv_def split: list.splits)
    then show thesis
      using assms(2) ne pr that by (auto simp: esp_spi_read_def Let_def split: if_splits option.splits)
  qed
  obtain b' where r: "Some bh = Some b'" "q_all (sl_rx s) = b' # q_all q" "sorted_q slave_rx_pkt (q\<lparr>pq_sem := pq_sem q - 1\<rparr>)"
    using sorted_q_recv [OF sq ne q(1)] by blast
  have f: "of_prio k (map slave_rx_pkt (q_all (sl_rx s))) = of_prio k [slave_rx_pkt bh] @ of_prio k (map slave_rx_pkt (q_all q))" for k
    using r by (simp add: of_prio_def)
  show ?thesis
    using assms(1) r(3) unfolding link_inv_def by (simp add: q(2) link_defs f)
qed

lemma throttling_only:
  "\<exists>t. snd (find_wifi_tx_throttling_to_be_set nrx high low st) = st\<lparr>sl_throttling := t\<rparr>"
proof -
  have "\<exists>t. st = st\<lparr>sl_throttling := t\<rparr>" by (intro exI [of _ "sl_throttling st"]) (cases st, simp)
  then show ?thesis by (auto simp: find_wifi_tx_throttling_to_be_set_def Let_def)
qed

lemma prio_sem_back: "(prio_send b q)\<lparr>pq_sem := Suc (pq_sem q)\<rparr> = prio_send b q"
proof -
  have "pq_sem (prio_send b q) = Suc (pq_sem q)" by simp
  then show ?thesis by (metis prio_q.surjective prio_q.update_convs(4))
qed

definition slave_tx_handle :: "interface_buffer_handle \<Rightarrow> bytes \<Rightarrow> interface_buffer_handle" where
  "slave_tx_handle bh f = zero_handle\<lparr>bh_if_type := bh_if_type bh, bh_if_num := bh_if_num bh,
     bh_payload_len := of_nat (spi_dma_aligned (unat (bh_payload_len bh) + 12)), bh_payload := Some f\<rparr>"

lemma slave_tx_handle_pkt:
  assumes "frame_of_pkt (slave_pkt bh) f" "slave_ok bh"
  shows "slave_tx_pkt (slave_tx_handle bh f) = slave_pkt bh"
    "pkt_prio (slave_tx_pkt (slave_tx_handle bh f)) = prio_of (bh_if_type (slave_tx_handle bh f))"
    "\<exists>g. bh_payload (slave_tx_handle bh f) = Some g \<and> frame_of_pkt (frame_pkt g) g"
proof -
  have t: "unat (bh_if_type bh) < 16" using assms(2) by (auto simp: slave_ok_def split: option.splits)
  show e: "slave_tx_pkt (slave_tx_handle bh f) = slave_pkt bh"
    using frame_pkt_eq(1) [OF assms(1)]
    by (simp add: slave_tx_pkt_def slave_tx_handle_def untyped_def slave_pkt_def tx_hdr_def zero_header_def)
  show "pkt_prio (slave_tx_pkt (slave_tx_handle bh f)) = prio_of (bh_if_type (slave_tx_handle bh f))"
    using ucast_8_4_8 [OF t] unfolding e by (simp add: pkt_prio_def slave_pkt_def tx_hdr_def slave_tx_handle_def)
  show "\<exists>g. bh_payload (slave_tx_handle bh f) = Some g \<and> frame_of_pkt (frame_pkt g) g"
    using assms(1) frame_pkt_eq(1) [OF assms(1)] by (simp add: slave_tx_handle_def)
qed

lemma enqueue_accepted:
  assumes "slave_ok bh" "sl_state s = IF_ACTIVE"
  obtains f n t where "spi_write_enqueue True True cfg True (Some bh) s = Some (int (unat (bh_payload_len bh)),
      s\<lparr>sl_tx_bufs := n, sl_throttling := t, sl_tx := (prio_send (slave_tx_handle bh f) (sl_tx s))\<lparr>pq_sem := pq_sem (sl_tx s)\<rparr>\<rparr>)"
    "frame_of_pkt (slave_pkt bh) f"
proof -
  obtain p where p: "bh_payload bh = Some p" "bh_payload_len bh \<noteq> 0" "spi_dma_aligned (unat (bh_payload_len bh) + 12) \<le> 1600"
    using slave_okD [OF assms(1)] .
  obtain f where f: "spi_write_frame True bh p = Some f" "frame_of_pkt (slave_pkt bh) f"
    using spi_write_frame_pkt [OF assms(1) p(1)] by blast
  obtain nrx high low where c: "cfg = (nrx, high, low)" by (cases cfg)
  obtain t where t: "snd (find_wifi_tx_throttling_to_be_set nrx high low (spi_buffer_tx_alloc s)) =
      (spi_buffer_tx_alloc s)\<lparr>sl_throttling := t\<rparr>"
    using throttling_only by blast
  show thesis
    using that [where n = "sl_tx_bufs s + 1" and t = t and f = f] p f t assms(2) c
    by (simp add: spi_write_enqueue_def Let_def spi_buffer_tx_alloc_def slave_tx_handle_def)
qed

lemma line_edges_queues [simp]:
  "sp_to_slave (line_edges s s' h) = sp_to_slave h" "sp_from_slave (line_edges s s' h) = sp_from_slave h"
  by (simp_all add: line_edges_def gpio_hs_isr_handler_def gpio_dr_isr_handler_def Let_def)

lemma line_edges_ready:
  "sp_ready (line_edges s s' h) =
    (sp_ready h \<or> (\<not> sl_handshake s \<and> sl_handshake s') \<or> (\<not> sl_data_ready s \<and> sl_data_ready s'))"
  by (simp add: line_edges_def gpio_hs_isr_handler_def gpio_dr_isr_handler_def Let_def)

lemma inv_slave_tx:
  assumes "link_inv hs hr ss sr (h, s, fin)" "slave_ok bh" "esp_spi_write True True cfg True (Some bh) s = Some (r, s')"
  shows "link_inv hs hr (ss @ [slave_pkt bh]) sr (line_edges s s' h, s', fin)"
proof -
  have sh: "link_shape (h, s, fin)" using assms(1) unfolding link_inv_def by blast
  then have act: "sl_state s = IF_ACTIVE" by (simp add: link_shape_def)
  obtain f n t where e: "spi_write_enqueue True True cfg True (Some bh) s = Some (int (unat (bh_payload_len bh)),
      s\<lparr>sl_tx_bufs := n, sl_throttling := t, sl_tx := (prio_send (slave_tx_handle bh f) (sl_tx s))\<lparr>pq_sem := pq_sem (sl_tx s)\<rparr>\<rparr>)"
    and f: "frame_of_pkt (slave_pkt bh) f"
    using enqueue_accepted [OF assms(2) act] by blast
  let ?b = "slave_tx_handle bh f"
  have s': "s' = s\<lparr>sl_tx_bufs := n, sl_throttling := t, sl_tx := prio_send ?b (sl_tx s), sl_data_ready := True\<rparr>"
    using assms(3) e
    by (auto simp: esp_spi_write_def set_dataready_gpio_def spi_tx_sem_give_def prio_sem_back)
  have q: "sorted_q slave_tx_pkt (sl_tx s)" using assms(1) by (simp add: link_inv_def link_queues_def)
  note b = slave_tx_handle_pkt [OF f assms(2)]
  note send = sorted_q_send [OF q b(2)]
  have "link_shape (line_edges s s' h, s', fin)" by (rule link_shape_cong [OF sh]) (simp_all add: s')
  then show ?thesis
    using assms(1) send b(1,3) unfolding link_inv_def
    by (auto simp: s' link_defs q_all_set_send line_edges_ready)
qed

text \<open>What the host does with the frame it receives.\<close>

lemma host_receives:
  assumes "good_frame f" "rxbuff \<noteq> 0"
  shows "\<exists>r fr h'. process_spi_rx_buf rxbuff f h = Some (r, fr, h') \<and> sp_to_slave h' = sp_to_slave h \<and>
    sp_from_slave h' = (if real_frame f then prio_send (spi_rx_handle rxbuff (frame_pkt f) f) (sp_from_slave h) else sp_from_slave h)"
proof (cases "dummy_frame f")
  case True
  then show ?thesis using host_receives_dummy [OF True assms(2), of h] dummy_not_real [OF True] by auto
next
  case False
  then have g: "frame_of_pkt (frame_pkt f) f" using assms(1) by (simp add: good_frame_def)
  then show ?thesis using host_receives_real [OF g assms(2), of h] frame_pkt_eq(2) [OF g] by auto
qed

lemma rx_handle_class:
  assumes "good_frame f" "real_frame f"
  shows "slave_pkt (spi_rx_handle b (frame_pkt f) f) = untyped (frame_pkt f)"
    "pkt_prio (slave_pkt (spi_rx_handle b (frame_pkt f) f)) = prio_of (bh_if_type (spi_rx_handle b (frame_pkt f) f))"
    "slave_rx_pkt (slave_rx_handle b (frame_pkt f) f) = frame_pkt f"
    "pkt_prio (slave_rx_pkt (slave_rx_handle b (frame_pkt f) f)) = prio_of (bh_if_type (slave_rx_handle b (frame_pkt f) f))"
proof -
  have g: "frame_of_pkt (frame_pkt f) f" using assms dummy_not_real by (auto simp: good_frame_def)
  show e: "slave_pkt (spi_rx_handle b (frame_pkt f) f) = untyped (frame_pkt f)"
    using rx_handle_pkt(1) [OF g] by (simp add: slave_pkt_def untyped_def)
  show "pkt_prio (slave_pkt (spi_rx_handle b (frame_pkt f) f)) = prio_of (bh_if_type (spi_rx_handle b (frame_pkt f) f))"
    unfolding e by (simp add: pkt_prio_def untyped_def spi_rx_handle_def)
  show e: "slave_rx_pkt (slave_rx_handle b (frame_pkt f) f) = frame_pkt f"
    using rx_handle_pkt(2) [OF g] by (simp add: slave_rx_pkt_def)
  show "pkt_prio (slave_rx_pkt (slave_rx_handle b (frame_pkt f) f)) = prio_of (bh_if_type (slave_rx_handle b (frame_pkt f) f))"
    unfolding e by (simp add: pkt_prio_def slave_rx_handle_def)
qed

lemma host_dummy: "dummy_frame spi_dummy_frame" "length spi_dummy_frame = 1600"
proof -
  have "zero_header\<lparr>ph_if_type := ucast (if_code ESP_MAX_IF)\<rparr> = zero_header\<lparr>ph_if_type := 8, ph_if_num := 0, ph_throttle_cmd := 0\<rparr>"
    by (simp add: zero_header_def)
  then show "dummy_frame spi_dummy_frame" unfolding dummy_frame_def spi_dummy_frame_def by metis
qed (simp add: spi_dummy_frame_def)

text \<open>The frame the host has next, and its queue without it.\<close>

lemma host_next:
  assumes "sorted_q host_pkt (sp_to_slave h)" "\<forall>b \<in> set (q_all (sp_to_slave h)). host_ok b"
  obtains (none) "q_all (sp_to_slave h) = []" "spi_get_next_tx_buffer True h = Some ((False, None, []), h)"
  | (packet) f tf fr q where "spi_get_next_tx_buffer True h = Some ((True, Some (f, tf), fr), h\<lparr>sp_to_slave := q\<rparr>)"
      "q_all (sp_to_slave h) \<noteq> []" "sorted_q host_pkt q" "\<forall>b \<in> set (q_all q). host_ok b" "good_frame f" "real_frame f" "length f = 1600"
      "length (q_all (sp_to_slave h)) = Suc (length (q_all q))"
      "\<And>k. of_prio k (map host_pkt (q_all (sp_to_slave h))) = of_prio k [frame_pkt f] @ of_prio k (map host_pkt (q_all q))"
proof (cases "pq_sem (sp_to_slave h) = 0")
  case True
  then show thesis using none assms(1) spi_next_none by (simp add: sorted_q_def)
next
  case False
  obtain got q where pr: "prio_recv (sp_to_slave h) = (got, q)" by (cases "prio_recv (sp_to_slave h)")
  obtain b where b: "got = Some b" "q_all (sp_to_slave h) = b # q_all q" "sorted_q host_pkt (q\<lparr>pq_sem := pq_sem q - 1\<rparr>)"
    using sorted_q_recv [OF assms(1) False pr] by blast
  have ok: "host_ok b" using assms(2) b(2) by simp
  obtain f tf fr where f: "spi_get_next_tx_buffer True h = Some ((True, Some (f, tf), fr), h\<lparr>sp_to_slave := q\<lparr>pq_sem := pq_sem q - 1\<rparr>\<rparr>)"
      "frame_of_pkt (host_pkt b) f"
    using spi_next_frame [OF pr [unfolded b(1)] False ok] by blast
  note fp = frame_pkt_eq [OF f(2)]
  show thesis
    using packet [OF f(1)] b(2,3) assms(2) f(2) fp by (simp add: good_frame_def frame_of_pkt_def of_prio_def)
qed

text \<open>A turn of the host: nothing happens, or the loaded frame is exchanged with the next one of the host.\<close>

lemma spi_turn_cases:
  assumes "spi_turn rb (h, s, fin) = Some c'" "link_shape (h, s, fin)"
    and "sorted_q host_pkt (sp_to_slave h)" "\<forall>b \<in> set (q_all (sp_to_slave h)). host_ok b"
  obtains (down) h' where "c' = (h', s, fin)" "\<not> sl_handshake s" "sp_ready h'" "sp_to_slave h' = sp_to_slave h" "sp_from_slave h' = sp_from_slave h"
  | (idle) h' where "c' = (h', s, fin)" "sl_handshake s" "\<not> sl_data_ready s" "q_all (sp_to_slave h) = []"
      "sp_to_slave h' = sp_to_slave h" "sp_from_slave h' = sp_from_slave h"
  | (exchange) h' f r g where "c' = (h', s\<lparr>sl_queued := [], sl_handshake := False, sl_cs_sem := True\<rparr>, [(r, g)])"
      "sl_handshake s" "sl_queued s = [(f, r)]" "good_frame f" "fin = []" "good_frame g"
      "sp_from_slave h' = (if real_frame f then prio_send (spi_rx_handle rb (frame_pkt f) f) (sp_from_slave h) else sp_from_slave h)"
      "sorted_q host_pkt (sp_to_slave h')" "\<forall>b \<in> set (q_all (sp_to_slave h')). host_ok b"
      "length (q_all (sp_to_slave h)) = length (loaded [g]) + length (q_all (sp_to_slave h'))"
      "\<And>k. of_prio k (map host_pkt (q_all (sp_to_slave h))) = of_prio k (loaded [g]) @ of_prio k (map host_pkt (q_all (sp_to_slave h')))"
      "real_frame g = (q_all (sp_to_slave h) \<noteq> [])"
proof -
  let ?h1 = "h\<lparr>sp_ready := False\<rparr>"
  define rx where "rx = (case sl_queued s of [] \<Rightarrow> [] | t # _ \<Rightarrow> fst t)"
  define x where "x = check_and_execute_spi_transaction True rb (sl_handshake s) (sl_data_ready s) (0, rx) ?h1"
  obtain frame tf fr h' where x1: "x = Some (frame, tf, fr, h')"
    and c': "(case frame of None \<Rightarrow> Some (h', s, fin) | Some f \<Rightarrow> (case sl_queued s of [] \<Rightarrow> None
       | t # ts \<Rightarrow> Some (h', gpio_disable_hs_isr_handler True (gpio_disable_hs_isr_handler False (s\<lparr>sl_queued := ts\<rparr>)),
                        fin @ [(snd t, f)]))) = Some c'"
    using assms(1) by (auto simp: spi_turn_def spi_transaction_step_def x_def rx_def Let_def bind_eq_Some_conv split: if_splits)
  show thesis
  proof (cases "sl_handshake s")
    case False
    then have "frame = None" "h' = ?h1\<lparr>sp_ready := True\<rparr>"
      using x1 by (auto simp: x_def check_and_execute_spi_transaction_def)
    then show thesis using c' False down [of h'] by simp
  next
    case hs: True
    then obtain f r where q: "sl_queued s = [(f, r)]" "good_frame f" "fin = []" and cr: "sl_created s"
      using assms(2) by (auto simp: link_shape_def)
    have rx: "rx = f" using q(1) by (simp add: rx_def)
    have sq: "sorted_q host_pkt (sp_to_slave ?h1)" "\<forall>b \<in> set (q_all (sp_to_slave ?h1)). host_ok b" using assms(3,4) by simp_all
    have s2: "gpio_disable_hs_isr_handler True (gpio_disable_hs_isr_handler False (s\<lparr>sl_queued := []\<rparr>)) =
        s\<lparr>sl_queued := [], sl_handshake := False, sl_cs_sem := True\<rparr>"
      using cr by (simp add: gpio_disable_hs_isr_handler_def)
    have swap: thesis
      if "frame = Some g" "good_frame g" "rb \<noteq> 0" "process_spi_rx_buf rb f h2 = Some (ret, fr2, h3)"
        "sp_to_slave h' = sp_to_slave h3" "sp_from_slave h' = sp_from_slave h3"
        "sorted_q host_pkt (sp_to_slave h2)" "\<forall>b \<in> set (q_all (sp_to_slave h2)). host_ok b" "sp_from_slave h2 = sp_from_slave h"
        "length (q_all (sp_to_slave h)) = length (loaded [g]) + length (q_all (sp_to_slave h2))"
        "\<And>k. of_prio k (map host_pkt (q_all (sp_to_slave h))) = of_prio k (loaded [g]) @ of_prio k (map host_pkt (q_all (sp_to_slave h2)))"
        "real_frame g = (q_all (sp_to_slave h) \<noteq> [])"
      for g h2 ret fr2 h3
    proof -
      have "sp_to_slave h3 = sp_to_slave h2"
        "sp_from_slave h3 = (if real_frame f then prio_send (spi_rx_handle rb (frame_pkt f) f) (sp_from_slave h2) else sp_from_slave h2)"
        using host_receives [OF q(2) that(3), of h2] that(4) by auto
      then show thesis
        using exchange [where h' = h' and f = f and r = r and g = g] c' that q hs s2 by simp
    qed
    from sq show thesis
    proof (cases rule: host_next [consumes 2])
      case none
      show thesis
      proof (cases "sl_data_ready s \<or> sp_dr_isr h \<or> sp_dummy_tx h \<or> sp_dummy_rx h")
        case True
        then have "rb \<noteq> 0" using x1 none(2) hs by (intro notI) (auto simp: x_def check_and_execute_spi_transaction_def Let_def)
        obtain ret fr2 h3 where p: "process_spi_rx_buf rb f (?h1\<lparr>sp_dummy_tx := False\<rparr>) = Some (ret, fr2, h3)"
          using host_receives [OF q(2) \<open>rb \<noteq> 0\<close>] by metis
        have "frame = Some spi_dummy_frame" "h' = h3 \<or> h' = h3\<lparr>sp_ready := True\<rparr>"
          using x1 none(2) hs True p \<open>rb \<noteq> 0\<close> host_dummy(2)
          by (auto simp: x_def rx check_and_execute_spi_transaction_def Let_def mem_slice_def split: if_splits)
        moreover have "loaded [spi_dummy_frame] = []" using dummy_not_real [OF host_dummy(1)] by (simp add: loaded_def)
        ultimately show thesis
          using swap [OF _ _ \<open>rb \<noteq> 0\<close> p] host_dummy(1) dummy_not_real [OF host_dummy(1)] sq none(1) by (auto simp: good_frame_def)
      next
        case False
        then have "frame = None" "sp_to_slave h' = sp_to_slave h" "sp_from_slave h' = sp_from_slave h"
          using x1 none(2) hs by (auto simp: x_def check_and_execute_spi_transaction_def Let_def)
        then show thesis using idle [of h'] c' False hs none(1) by simp
      qed
    next
      case (packet g tf' fr' q')
      have "rb \<noteq> 0" using x1 packet(1) hs by (intro notI) (auto simp: x_def check_and_execute_spi_transaction_def Let_def)
      let ?h2 = "?h1\<lparr>sp_to_slave := q', sp_dummy_tx := True\<rparr>"
      obtain ret fr2 h3 where p: "process_spi_rx_buf rb f ?h2 = Some (ret, fr2, h3)"
        using host_receives [OF q(2) \<open>rb \<noteq> 0\<close>] by metis
      have "frame = Some g" "h' = h3 \<or> h' = h3\<lparr>sp_ready := True\<rparr>"
        using x1 packet(1,7) hs p \<open>rb \<noteq> 0\<close>
        by (auto simp: x_def rx check_and_execute_spi_transaction_def Let_def mem_slice_def split: if_splits)
      moreover have "loaded [g] = [frame_pkt g]" using packet(6) by (simp add: loaded_def)
      ultimately show thesis
        using swap [OF _ packet(5) \<open>rb \<noteq> 0\<close> p] packet(2,3,4,6,8,9) by auto
    qed
  qed
qed

lemma inv_turn:
  assumes "link_inv hs hr ss sr c" "spi_turn rb c = Some c'"
  shows "link_inv hs hr ss sr c'"
proof -
  obtain h s fin where c: "c = (h, s, fin)" by (cases c)
  have sh: "link_shape (h, s, fin)" and qu: "link_queues (h, s, fin)" and sg: "link_signals (h, s, fin)"
    and ff: "link_fifo hs hr ss sr (h, s, fin)"
    using assms(1) unfolding c link_inv_def by blast+
  have q: "sorted_q host_pkt (sp_to_slave h)" "\<forall>b \<in> set (q_all (sp_to_slave h)). host_ok b" "sorted_q slave_pkt (sp_from_slave h)"
    using qu by (simp_all add: link_queues_def)
  show ?thesis
  proof (cases rule: spi_turn_cases [OF assms(2) [unfolded c] sh q(1,2)])
    case (1 h')
    then show ?thesis using qu sg ff link_shape_host [OF sh, of h'] unfolding link_inv_def by (simp add: link_defs)
  next
    case (2 h')
    then show ?thesis using qu sg ff link_shape_host [OF sh, of h'] unfolding link_inv_def by (simp add: link_defs)
  next
    case (3 h' f r g)
    let ?s = "s\<lparr>sl_queued := [], sl_handshake := False, sl_cs_sem := True\<rparr>"
    let ?b = "spi_rx_handle rb (frame_pkt f) f"
    have "sorted_q slave_pkt (sp_from_slave h')" and
      sr: "of_prio k (map slave_pkt (q_all (sp_from_slave h'))) =
        of_prio k (map slave_pkt (q_all (sp_from_slave h))) @ of_prio k (map untyped (loaded [f]))" for k
      using 3(7) q(3) rx_handle_class(1,2) [OF 3(4)] sorted_q_send [OF q(3), of ?b]
      by (cases "real_frame f"; simp add: loaded_def)+
    then have "link_queues (h', ?s, [(r, g)])" using qu 3(8,9) by (simp add: link_queues_def)
    moreover have "link_shape (h', ?s, [(r, g)])" using sh 3(6) by (simp add: link_shape_def)
    moreover have "link_signals (h', ?s, [(r, g)])" using sg by (simp add: link_signals_def loaded_def)
    moreover have "link_fifo hs hr ss sr (h', ?s, [(r, g)])"
      using ff sr 3(3,5,11) by (simp add: link_fifo_def to_host_def to_slave_def loaded_def)
    ultimately show ?thesis unfolding 3(1) link_inv_def by blast
  qed
qed

lemma slave_next_dummy:
  assumes "pq_sem (sl_tx s) = 0"
  shows "\<exists>f n t. dummy_frame f \<and> slave_get_next_tx_buffer True cfg s =
    (Some f, s\<lparr>sl_data_ready := False, sl_tx_bufs := n, sl_throttling := t\<rparr>)"
proof -
  obtain nrx high low where c: "cfg = (nrx, high, low)" by (cases cfg)
  let ?s = "spi_buffer_tx_alloc (reset_dataready_gpio s)"
  obtain t where t: "snd (find_wifi_tx_throttling_to_be_set nrx high low ?s) = ?s\<lparr>sl_throttling := t\<rparr>" using throttling_only by blast
  obtain w where w: "find_wifi_tx_throttling_to_be_set nrx high low ?s = (w, ?s\<lparr>sl_throttling := t\<rparr>)"
    using t by (cases "find_wifi_tx_throttling_to_be_set nrx high low ?s") simp
  have "dummy_frame (put_header (zero_header\<lparr>ph_if_type := ucast (if_code ESP_MAX_IF), ph_if_num := 0xF, ph_throttle_cmd := w\<rparr>) (replicate 1600 0))"
    by (auto simp: dummy_frame_def)
  then show ?thesis
    using assms w c
    by (intro exI [of _ "put_header (zero_header\<lparr>ph_if_type := ucast (if_code ESP_MAX_IF), ph_if_num := 0xF, ph_throttle_cmd := w\<rparr>) (replicate 1600 0)"]
        exI [of _ "sl_tx_bufs s + 1"] exI [of _ t])
      (simp add: slave_get_next_tx_buffer_def spi_buffer_tx_alloc_def reset_dataready_gpio_def Let_def)
qed

text \<open>The frame the co-processor loads next.\<close>

lemma slave_next:
  assumes "sorted_q slave_tx_pkt (sl_tx s)"
    and "\<forall>b \<in> set (q_all (sl_tx s)). \<exists>f. bh_payload b = Some f \<and> frame_of_pkt (frame_pkt f) f"
  obtains (none) f n t where "q_all (sl_tx s) = []" "dummy_frame f" "slave_get_next_tx_buffer True cfg s =
      (Some f, s\<lparr>sl_data_ready := False, sl_tx_bufs := n, sl_throttling := t\<rparr>)"
  | (packet) f q where "slave_get_next_tx_buffer True cfg s = (Some f, s\<lparr>sl_tx := q\<rparr>)" "q_all (sl_tx s) \<noteq> []"
      "frame_of_pkt (frame_pkt f) f" "sorted_q slave_tx_pkt q" "set (q_all q) \<subseteq> set (q_all (sl_tx s))"
      "length (q_all (sl_tx s)) = Suc (length (q_all q))"
      "\<And>k. of_prio k (map slave_tx_pkt (q_all (sl_tx s))) = of_prio k [untyped (frame_pkt f)] @ of_prio k (map slave_tx_pkt (q_all q))"
proof (cases "pq_sem (sl_tx s) = 0")
  case True
  then have "q_all (sl_tx s) = []" using assms(1) by (simp add: sorted_q_def)
  then show thesis using slave_next_dummy [OF True, of cfg] none by blast
next
  case False
  obtain got q where pr: "prio_recv (sl_tx s) = (got, q)" by (cases "prio_recv (sl_tx s)")
  obtain b where b: "got = Some b" "q_all (sl_tx s) = b # q_all q" "sorted_q slave_tx_pkt (q\<lparr>pq_sem := pq_sem q - 1\<rparr>)"
    using sorted_q_recv [OF assms(1) False pr] by blast
  obtain f where f: "bh_payload b = Some f" "frame_of_pkt (frame_pkt f) f" using assms(2) b(2) by auto
  have "slave_get_next_tx_buffer True cfg s = (Some f, s\<lparr>sl_tx := q\<lparr>pq_sem := pq_sem q - 1\<rparr>\<rparr>)"
    using False pr b(1) f(1) by (simp add: slave_get_next_tx_buffer_def)
  moreover have "of_prio k (map slave_tx_pkt (q_all (sl_tx s))) = of_prio k [untyped (frame_pkt f)] @ of_prio k (map slave_tx_pkt (q_all q))" for k
    using b(2) f(1) by (simp add: of_prio_def slave_tx_pkt_def)
  moreover have "set (q_all q) \<subseteq> set (q_all (sl_tx s))" using b(2) by auto
  ultimately show thesis
    using packet [where f = f and q = "q\<lparr>pq_sem := pq_sem q - 1\<rparr>"] b f by simp
qed

lemma slave_receives:
  assumes "good_frame f"
  shows "\<exists>r es. process_spi_rx True rb f s = Some (r, s\<lparr>sl_events := es, sl_rx :=
      (if real_frame f then prio_send (slave_rx_handle rb (frame_pkt f) f) (sl_rx s) else sl_rx s)\<rparr>)"
proof (cases "dummy_frame f")
  case True
  have same: "s\<lparr>sl_events := es\<rparr> = s\<lparr>sl_events := es, sl_rx := sl_rx s\<rparr>" for es by (cases s) simp
  show ?thesis using slave_receives_dummy [OF True, of rb s] dummy_not_real [OF True] same by fastforce
next
  case False
  then have g: "frame_of_pkt (frame_pkt f) f" using assms(1) by (simp add: good_frame_def)
  then show ?thesis using slave_receives_real [OF g, of rb s] frame_pkt_eq(2) [OF g] by auto
qed

text \<open>A turn of the post-process task loads the next frame and queues what was received.\<close>

lemma spi_post_result:
  assumes "spi_post cfg rb (h, s, [(r, g)]) = Some c'" "link_shape (h, s, [(r, g)])" "link_queues (h, s, [(r, g)])"
  shows "\<exists>s' f. c' = (line_edges s s' h, s', []) \<and> sl_state s' = IF_ACTIVE \<and> sl_created s' \<and> sl_handshake s' \<and>
    sl_queued s' = [(f, rb)] \<and> good_frame f \<and> real_frame f = (q_all (sl_tx s) \<noteq> []) \<and>
    sl_rx s' = (if real_frame g then prio_send (slave_rx_handle r (frame_pkt g) g) (sl_rx s) else sl_rx s) \<and>
    sorted_q slave_tx_pkt (sl_tx s') \<and> set (q_all (sl_tx s')) \<subseteq> set (q_all (sl_tx s)) \<and>
    sl_data_ready s' = (sl_data_ready s \<and> q_all (sl_tx s) \<noteq> []) \<and>
    length (q_all (sl_tx s)) = length (loaded [f]) + length (q_all (sl_tx s')) \<and>
    (\<forall>k. of_prio k (map slave_tx_pkt (q_all (sl_tx s))) =
       of_prio k (map untyped (loaded [f])) @ of_prio k (map slave_tx_pkt (q_all (sl_tx s'))))"
proof -
  have sh: "sl_state s = IF_ACTIVE" "sl_created s" "sl_queued s = []" "sl_cs_sem s" "good_frame g"
    using assms(2) by (auto simp: link_shape_def split: if_splits)
  let ?s = "s\<lparr>sl_cs_sem := False\<rparr>"
  have q: "sorted_q slave_tx_pkt (sl_tx ?s)" "\<forall>b \<in> set (q_all (sl_tx ?s)). \<exists>f. bh_payload b = Some f \<and> frame_of_pkt (frame_pkt f) f"
    using assms(3) by (simp_all add: link_queues_def)
  obtain s1 s' where p: "queue_next_transaction True cfg rb ?s = Some s1"
      "c' = (line_edges s s' h, s', [])"
      "sl_rx s' = (if real_frame g then prio_send (slave_rx_handle r (frame_pkt g) g) (sl_rx s1) else sl_rx s1)"
      "sl_state s' = sl_state s1" "sl_created s' = sl_created s1" "sl_handshake s' = sl_handshake s1" "sl_queued s' = sl_queued s1"
      "sl_tx s' = sl_tx s1" "sl_data_ready s' = sl_data_ready s1"
  proof -
    obtain s' where s': "spi_post_process_step True True cfg rb (r, g) s = Some s'" "c' = (line_edges s s' h, s', [])"
      using assms(1) by (auto simp: spi_post_def bind_eq_Some_conv)
    obtain s1 where s1: "queue_next_transaction True cfg rb ?s = Some s1"
      using s'(1) sh by (auto simp: spi_post_process_step_def bind_eq_Some_conv)
    obtain ret es where x: "process_spi_rx True r g (spi_buffer_tx_free s1) = Some (ret, (spi_buffer_tx_free s1)\<lparr>sl_events := es, sl_rx :=
        (if real_frame g then prio_send (slave_rx_handle r (frame_pkt g) g) (sl_rx (spi_buffer_tx_free s1)) else sl_rx (spi_buffer_tx_free s1))\<rparr>)"
      using slave_receives [OF sh(5)] by blast
    show thesis
      using that [OF s1 s'(2)] s'(1) s1 x sh(1,4)
      by (auto simp: spi_post_process_step_def spi_buffer_tx_free_def spi_buffer_rx_free_def Let_def)
  qed
  from q show ?thesis
  proof (cases rule: slave_next [consumes 2, where cfg = cfg])
    case (none f n t)
    then have "rb \<noteq> 0" "s1 = spi_post_setup_cb ((spi_buffer_rx_alloc (?s\<lparr>sl_data_ready := False, sl_tx_bufs := n, sl_throttling := t\<rparr>))
        \<lparr>sl_queued := [(f, rb)]\<rparr>)"
      using p(1) sh(3) by (auto simp: queue_next_transaction_def spi_buffer_rx_alloc_def Let_def split: if_splits)
    then show ?thesis
      using p none(1,2) sh q dummy_not_real [OF none(2)]
      by (intro exI [of _ s'] exI [of _ f])
        (simp add: spi_post_setup_cb_def spi_buffer_rx_alloc_def good_frame_def loaded_def)
  next
    case (packet f q')
    then have "rb \<noteq> 0" "s1 = spi_post_setup_cb ((spi_buffer_rx_alloc (?s\<lparr>sl_tx := q'\<rparr>))\<lparr>sl_queued := [(f, rb)]\<rparr>)"
      using p(1) sh(3) by (auto simp: queue_next_transaction_def spi_buffer_rx_alloc_def Let_def split: if_splits)
    then show ?thesis
      using p packet(2-7) sh frame_pkt_eq(2) [OF packet(3)]
      by (intro exI [of _ s'] exI [of _ f])
        (simp add: spi_post_setup_cb_def spi_buffer_rx_alloc_def good_frame_def loaded_def)
  qed
qed

lemma inv_post:
  assumes "link_inv hs hr ss sr c" "spi_post cfg rb c = Some c'"
  shows "link_inv hs hr ss sr c'"
proof -
  obtain h s fin where c: "c = (h, s, fin)" by (cases c)
  have sh: "link_shape (h, s, fin)" and qu: "link_queues (h, s, fin)" and sg: "link_signals (h, s, fin)"
    and ff: "link_fifo hs hr ss sr (h, s, fin)"
    using assms(1) unfolding c link_inv_def by blast+
  obtain r g fs where fin: "fin = (r, g) # fs" using assms(2) by (auto simp: c spi_post_def split: list.splits)
  have f1: "fin = [(r, g)]" and lo: "\<not> sl_handshake s" "sl_queued s = []" "good_frame g"
    using sh fin by (auto simp: link_shape_def split: if_splits)
  obtain s' f where p: "c' = (line_edges s s' h, s', [])" "sl_state s' = IF_ACTIVE" "sl_created s'" "sl_handshake s'"
      "sl_queued s' = [(f, rb)]" "good_frame f" "real_frame f = (q_all (sl_tx s) \<noteq> [])"
      "sl_rx s' = (if real_frame g then prio_send (slave_rx_handle r (frame_pkt g) g) (sl_rx s) else sl_rx s)"
      "sorted_q slave_tx_pkt (sl_tx s')" "set (q_all (sl_tx s')) \<subseteq> set (q_all (sl_tx s))"
      "sl_data_ready s' = (sl_data_ready s \<and> q_all (sl_tx s) \<noteq> [])"
      "length (q_all (sl_tx s)) = length (loaded [f]) + length (q_all (sl_tx s'))"
      "\<forall>k. of_prio k (map slave_tx_pkt (q_all (sl_tx s))) =
         of_prio k (map untyped (loaded [f])) @ of_prio k (map slave_tx_pkt (q_all (sl_tx s')))"
    using spi_post_result [OF assms(2) [unfolded c f1] sh [unfolded f1] qu [unfolded f1]] by metis
  let ?b = "slave_rx_handle r (frame_pkt g) g"
  have sq: "sorted_q slave_rx_pkt (sl_rx s)" using qu by (simp add: link_queues_def)
  have "sorted_q slave_rx_pkt (sl_rx s') \<and>
    (\<forall>k. of_prio k (map slave_rx_pkt (q_all (sl_rx s'))) = of_prio k (map slave_rx_pkt (q_all (sl_rx s))) @ of_prio k (loaded [g]))"
  proof (cases "real_frame g")
    case True
    note cl = rx_handle_class(3,4) [OF lo(3) True, of r]
    show ?thesis using p(8) True sorted_q_send [OF sq cl(2)] cl(1) by (simp add: loaded_def)
  next
    case False
    then show ?thesis using p(8) sq by (simp add: loaded_def)
  qed
  then have sr: "sorted_q slave_rx_pkt (sl_rx s')" and
    rr: "of_prio k (map slave_rx_pkt (q_all (sl_rx s'))) = of_prio k (map slave_rx_pkt (q_all (sl_rx s))) @ of_prio k (loaded [g])" for k
    by blast+
  from sr have "link_queues (line_edges s s' h, s', [])" using qu p(9,10) by (auto simp: link_queues_def)
  moreover have "link_shape (line_edges s s' h, s', [])" using p(2-6) by (simp add: link_shape_def)
  moreover have "link_signals (line_edges s s' h, s', [])"
    using sg p(4,5,7,10,11) lo by (auto simp: link_signals_def line_edges_ready loaded_def)
  moreover have "link_fifo hs hr ss sr (line_edges s s' h, s', [])"
    using ff rr p(5,13) lo(2) f1 by (simp add: link_fifo_def to_host_def to_slave_def loaded_def)
  ultimately show ?thesis unfolding p(1) link_inv_def by blast
qed

lemma spi_started:
  assumes "spi_bus_init ok h0 = Some h" "sl_state s0 = IF_DEINIT" "\<not> sl_created s0" "sl_queued s0 = []"
    and "esp_spi_init unload ok' s0 = Some s" "length tlvs \<le> 255" "spi_startup_event True True cfg rb tlvs s = Some s'"
  shows "\<exists>f. sl_state s' = IF_ACTIVE \<and> sl_created s' \<and> sl_handshake s' \<and> sl_queued s' = [(f, rb)] \<and> sl_tx s' = empty_prio_q \<and>
    sl_rx s' = empty_prio_q \<and> sl_data_ready s' \<and> \<not> sl_handshake s \<and> \<not> sl_data_ready s \<and> frame_of_pkt (startup_pkt tlvs) f \<and>
    sp_to_slave h = empty_prio_q \<and> sp_from_slave h = empty_prio_q"
proof -
  have h: "sp_to_slave h = empty_prio_q" "sp_from_slave h = empty_prio_q"
    using assms(1) by (auto simp: spi_bus_init_def split: if_splits)
  have s: "s = s0\<lparr>sl_state := IF_ACTIVE, sl_created := True, sl_handshake := False, sl_cs_sem := False,
      sl_tx := empty_prio_q, sl_rx := empty_prio_q, sl_data_ready := False\<rparr>"
    using assms(2,3,5) by (auto simp: esp_spi_init_def reset_dataready_gpio_def split: if_splits)
  obtain len f where f: "spi_startup_frame True tlvs = Some (len, f)" "frame_of_pkt (startup_pkt tlvs) f"
    using spi_startup_frame_pkt [OF assms(6)] by blast
  let ?bh = "zero_handle\<lparr>bh_payload := Some f, bh_payload_len := of_nat (spi_dma_aligned (unat len + 12))\<rparr>"
  let ?s = "set_dataready_gpio ((spi_buffer_tx_alloc s)\<lparr>sl_tx := prio_send ?bh (sl_tx s)\<rparr>)"
  have q: "queue_next_transaction True cfg rb ?s = Some s'"
    using assms(7) f(1) by (simp add: spi_startup_event_def spi_buffer_tx_alloc_def Let_def)
  have pr: "prio_recv (prio_send ?bh empty_prio_q) = (Some ?bh, empty_prio_q\<lparr>pq_sem := 1\<rparr>)"
    by (simp add: prio_send_def prio_recv_def empty_prio_q_def zero_handle_def)
  have nx: "slave_get_next_tx_buffer True cfg ?s = (Some f, ?s\<lparr>sl_tx := empty_prio_q\<rparr>)"
    using pr by (simp add: slave_get_next_tx_buffer_def s set_dataready_gpio_def spi_buffer_tx_alloc_def empty_prio_q_def)
  have s': "s' = spi_post_setup_cb ((spi_buffer_rx_alloc (?s\<lparr>sl_tx := empty_prio_q\<rparr>))\<lparr>sl_queued := [(f, rb)]\<rparr>)"
    using q nx s assms(4)
    by (auto simp: queue_next_transaction_def spi_buffer_rx_alloc_def set_dataready_gpio_def spi_buffer_tx_alloc_def Let_def split: if_splits)
  show ?thesis
    using f(2) h by (intro exI [of _ f])
      (simp add: s' s spi_post_setup_cb_def spi_buffer_rx_alloc_def set_dataready_gpio_def spi_buffer_tx_alloc_def)
qed

lemma inv_start:
  assumes "spi_bus_init ok h0 = Some h" "sl_state s0 = IF_DEINIT" "\<not> sl_created s0" "sl_queued s0 = []"
    and "esp_spi_init unload ok' s0 = Some s" "length tlvs \<le> 255" "spi_startup_event True True cfg rb tlvs s = Some s'"
  shows "link_inv [] [] [untyped (startup_pkt tlvs)] [] (line_edges s s' h, s', [])"
proof -
  obtain f where fields: "sl_state s' = IF_ACTIVE" "sl_created s'" "sl_handshake s'" "sl_queued s' = [(f, rb)]" "sl_tx s' = empty_prio_q"
      "sl_rx s' = empty_prio_q" "sl_data_ready s'" "\<not> sl_handshake s" and f: "frame_of_pkt (startup_pkt tlvs) f"
      and h: "sp_to_slave h = empty_prio_q" "sp_from_slave h = empty_prio_q"
    using spi_started [OF assms] by blast
  note fp = frame_pkt_eq [OF f]
  have good: "good_frame f" using f fp by (simp add: good_frame_def)
  show ?thesis
    using fields h good fp
    by (simp add: link_inv_def link_shape_def link_queues_def link_signals_def link_fifo_def to_host_def to_slave_def
        sorted_q_empty line_edges_ready loaded_def)
qed

lemma spi_run_inv: "spi_run hs hr ss sr c \<Longrightarrow> link_inv hs hr ss sr c"
proof (induction rule: spi_run.induct)
  case Start
  then show ?case by (rule inv_start)
next
  case Host_Tx
  then show ?case using inv_host_tx by blast
next
  case Host_Rx
  then show ?case using inv_host_rx by blast
next
  case Slave_Tx
  then show ?case using inv_slave_tx by blast
next
  case Slave_Rx
  then show ?case using inv_slave_rx by blast
next
  case Turn
  then show ?case using inv_turn by blast
next
  case Post
  then show ?case using inv_post by blast
qed

section \<open>Progress\<close>

text \<open>The next step of the bus: the post-process task, when a transaction has finished, otherwise the host.\<close>

definition spi_step :: "nat \<times> u8 \<times> u8 \<Rightarrow> nat \<Rightarrow> spi_link \<Rightarrow> spi_link option" where
  "spi_step cfg rb c = (if snd (snd c) = [] then spi_turn rb c else spi_post cfg rb c)"

primrec spi_steps :: "nat \<times> u8 \<times> u8 \<Rightarrow> nat \<Rightarrow> nat \<Rightarrow> spi_link \<Rightarrow> spi_link option" where
  "spi_steps cfg rb 0 c = Some c"
| "spi_steps cfg rb (Suc n) c = spi_step cfg rb c \<bind> spi_steps cfg rb n"

definition unsent :: "spi_link \<Rightarrow> nat" where
  "unsent c = (case c of (h, s, fin) \<Rightarrow> length (q_all (sl_tx s)) + length (loaded (map fst (sl_queued s))) +
     length (q_all (sp_to_slave h)) + length (loaded (map snd fin)))"

lemma loaded_Nil [simp]: "loaded [] = []"
  by (simp add: loaded_def)

text \<open>A packet waiting behind a dummy costs one step more, on either side.\<close>

definition spi_measure :: "spi_link \<Rightarrow> nat" where
  "spi_measure c = (case c of (h, s, fin) \<Rightarrow>
     4 * length (q_all (sl_tx s)) + 2 * length (loaded (map fst (sl_queued s))) +
     4 * length (q_all (sp_to_slave h)) + 2 * length (loaded (map snd fin)) +
     (if fin = [] then (if loaded (map fst (sl_queued s)) = [] \<and> q_all (sl_tx s) \<noteq> [] then 1 else 0)
      else (if loaded (map snd fin) = [] \<and> q_all (sl_tx s) = [] \<and> q_all (sp_to_slave h) \<noteq> [] then 1 else 0)))"

lemma turn_defined:
  assumes "link_inv hs hr ss sr (h, s, [])" "rb \<noteq> 0" "sl_data_ready s \<or> q_all (sp_to_slave h) \<noteq> []"
  shows "\<exists>c'. spi_turn rb (h, s, []) = Some c'"
proof -
  have sh: "link_shape (h, s, [])" and qu: "link_queues (h, s, [])" and sg: "link_signals (h, s, [])"
    using assms(1) unfolding link_inv_def by blast+
  obtain f r where f: "sl_handshake s" "sl_queued s = [(f, r)]" "good_frame f" using sh by (auto simp: link_shape_def split: if_splits)
  have rdy: "sp_ready h" using sg assms(3) f(1) by (auto simp: link_signals_def)
  let ?h1 = "h\<lparr>sp_ready := False\<rparr>"
  have q: "sorted_q host_pkt (sp_to_slave ?h1)" "\<forall>b \<in> set (q_all (sp_to_slave ?h1)). host_ok b"
    using qu by (simp_all add: link_queues_def)
  from q have "\<exists>g tf fr h'. check_and_execute_spi_transaction True rb True (sl_data_ready s) (0, f) ?h1 = Some (Some g, tf, fr, h')"
  proof (cases rule: host_next [consumes 2])
    case none
    obtain x y h3 where "process_spi_rx_buf rb f (?h1\<lparr>sp_dummy_tx := False\<rparr>) = Some (x, y, h3)"
      using host_receives [OF f(3) assms(2)] by metis
    then show ?thesis
      using none assms(2,3) host_dummy(2) by (auto simp: check_and_execute_spi_transaction_def mem_slice_def Let_def)
  next
    case (packet g tf fr q')
    obtain x y h3 where "process_spi_rx_buf rb f (?h1\<lparr>sp_to_slave := q', sp_dummy_tx := True\<rparr>) = Some (x, y, h3)"
      using host_receives [OF f(3) assms(2)] by metis
    then show ?thesis
      using packet assms(2) by (auto simp: check_and_execute_spi_transaction_def mem_slice_def Let_def)
  qed
  then show ?thesis using f rdy by (auto simp: spi_turn_def spi_transaction_step_def)
qed

lemma post_defined:
  assumes "link_inv hs hr ss sr (h, s, fin)" "fin \<noteq> []" "rb \<noteq> 0"
  shows "\<exists>c'. spi_post cfg rb (h, s, fin) = Some c'"
proof -
  have sh: "link_shape (h, s, fin)" and qu: "link_queues (h, s, fin)" using assms(1) unfolding link_inv_def by blast+
  obtain r g where g: "fin = [(r, g)]" "good_frame g" "sl_state s = IF_ACTIVE" "sl_cs_sem s"
    using sh assms(2) by (auto simp: link_shape_def split: if_splits)
  let ?s = "s\<lparr>sl_cs_sem := False\<rparr>"
  have q: "sorted_q slave_tx_pkt (sl_tx ?s)" "\<forall>b \<in> set (q_all (sl_tx ?s)). \<exists>f. bh_payload b = Some f \<and> frame_of_pkt (frame_pkt f) f"
    using qu by (simp_all add: link_queues_def)
  from q have "\<exists>f s1. slave_get_next_tx_buffer True cfg ?s = (Some f, s1)"
    by (cases rule: slave_next [consumes 2, where cfg = cfg]) blast+
  then obtain s2 where "queue_next_transaction True cfg rb ?s = Some s2"
    using assms(3) by (auto simp: queue_next_transaction_def Let_def)
  moreover obtain x y where "process_spi_rx True r g (spi_buffer_tx_free s2) = Some (x, y)" using slave_receives [OF g(2)] by blast
  ultimately show ?thesis using g by (simp add: spi_post_def spi_post_process_step_def Let_def)
qed

lemma spi_step_progress:
  assumes "link_inv hs hr ss sr c" "rb \<noteq> 0" "unsent c \<noteq> 0"
  shows "\<exists>c'. spi_step cfg rb c = Some c' \<and> spi_measure c' < spi_measure c"
proof -
  obtain h s fin where c: "c = (h, s, fin)" by (cases c)
  note inv = assms(1) [unfolded c]
  have sh: "link_shape (h, s, fin)" and qu: "link_queues (h, s, fin)" and sg: "link_signals (h, s, fin)"
    using inv unfolding link_inv_def by blast+
  have q: "sorted_q host_pkt (sp_to_slave h)" "\<forall>b \<in> set (q_all (sp_to_slave h)). host_ok b"
    using qu by (simp_all add: link_queues_def)
  show ?thesis
  proof (cases "fin = []")
    case True
    have act: "sl_data_ready s \<or> q_all (sp_to_slave h) \<noteq> []"
      using assms(3) sg True by (auto simp: c unsent_def link_signals_def)
    obtain c' where c': "spi_turn rb (h, s, fin) = Some c'" using turn_defined [OF inv [unfolded True] assms(2) act] True by blast
    have up: "sl_handshake s" using sh True by (auto simp: link_shape_def split: if_splits)
    have "spi_measure c' < spi_measure c"
    proof (cases rule: spi_turn_cases [OF c' sh q])
      case (3 h' f r g)
      have "length (loaded [g]) \<le> 1" by (simp add: loaded_def)
      then show ?thesis
        using 3(1,3,5,10,12) assms(3) act
        by (auto simp: c spi_measure_def unsent_def loaded_def split: if_splits)
    qed (use up act in auto)
    then show ?thesis using c' True by (simp add: c spi_step_def)
  next
    case False
    obtain c' where c': "spi_post cfg rb (h, s, fin) = Some c'" using post_defined [OF inv False assms(2)] by blast
    obtain r g where g: "fin = [(r, g)]" "sl_queued s = []" using sh False by (auto simp: link_shape_def split: if_splits)
    obtain s' f where p: "c' = (line_edges s s' h, s', [])" "sl_queued s' = [(f, rb)]"
      "real_frame f = (q_all (sl_tx s) \<noteq> [])" "length (q_all (sl_tx s)) = length (loaded [f]) + length (q_all (sl_tx s'))"
      using spi_post_result [OF c' [unfolded g(1)] sh [unfolded g(1)] qu [unfolded g(1)]] by blast
    have "spi_measure c' < spi_measure c"
      using assms(3) g p by (auto simp: c spi_measure_def unsent_def loaded_def split: if_splits)
    then show ?thesis using c' False by (simp add: c spi_step_def)
  qed
qed

lemma spi_step_run:
  "spi_run hs hr ss sr c \<Longrightarrow> spi_step cfg rb c = Some c' \<Longrightarrow> spi_run hs hr ss sr c'"
  by (auto simp: spi_step_def intro: spi_run.intros split: if_splits)

lemma spi_steps_drain:
  assumes "spi_run hs hr ss sr c" "rb \<noteq> 0"
  shows "\<exists>n c'. n \<le> spi_measure c \<and> spi_steps cfg rb n c = Some c' \<and> spi_run hs hr ss sr c' \<and> unsent c' = 0"
  using assms(1)
proof (induction "spi_measure c" arbitrary: c rule: less_induct)
  case less
  show ?case
  proof (cases "unsent c = 0")
    case True
    then show ?thesis using less.prems by (intro exI [of _ 0] exI [of _ c]) simp
  next
    case False
    obtain c1 where c1: "spi_step cfg rb c = Some c1" "spi_measure c1 < spi_measure c"
      using spi_step_progress [OF spi_run_inv [OF less.prems] assms(2) False] by blast
    obtain n c' where "n \<le> spi_measure c1" "spi_steps cfg rb n c1 = Some c'" "spi_run hs hr ss sr c'" "unsent c' = 0"
      using less.hyps [OF c1(2) spi_step_run [OF less.prems c1(1)]] by blast
    then show ?thesis using c1 by (intro exI [of _ "Suc n"] exI [of _ c']) simp
  qed
qed

lemma spi_measure_bound: "spi_measure c \<le> 4 * unsent c + 1"
  by (auto simp: spi_measure_def unsent_def split: prod.splits)

text \<open>A host with nothing of its own to do.\<close>

definition host_quiet :: "spi_drv \<Rightarrow> bool" where
  "host_quiet h = (pq_sem (sp_to_slave h) = 0 \<and> \<not> sp_dr_isr h \<and> \<not> sp_dummy_rx h \<and> \<not> sp_dummy_tx h)"

section \<open>Properties\<close>

definition demo_spi :: spi_drv where
  "demo_spi = \<lparr>sp_to_slave = empty_prio_q, sp_from_slave = empty_prio_q, sp_ready = False, sp_dr_isr = False,
     sp_dummy_rx = False, sp_dummy_tx = False, sp_throttling = 0\<rparr>"

definition demo_slave_spi :: slave_spi where
  "demo_slave_spi = \<lparr>sl_state = IF_DEINIT, sl_created = False, sl_tx = empty_prio_q, sl_rx = empty_prio_q, sl_throttling = False,
     sl_data_ready = False, sl_handshake = False, sl_cs_sem = False, sl_queued = [], sl_tx_bufs = 0, sl_rx_bufs = 0, sl_events = []\<rparr>"

text \<open>The link after the start-up event has been exchanged for a dummy.\<close>

lemma demo_exchange:
  "\<exists>h s r g. spi_run [] [] [untyped (startup_pkt [1, 2, 3])] [] (h, s, [(r, g)]) \<and> sl_data_ready s \<and> q_all (sl_tx s) = [] \<and> host_quiet h"
proof -
  obtain s where s: "esp_spi_init False (\<lambda>_. True) demo_slave_spi = Some s" "sl_queued s = []" "sl_tx s = empty_prio_q"
    by (simp add: esp_spi_init_def demo_slave_spi_def reset_dataready_gpio_def)
  obtain len f where f: "spi_startup_frame True [1, 2, 3] = Some (len, f)" using spi_startup_frame_pkt [of "[1, 2, 3]"] by auto
  obtain s' where s': "spi_startup_event True True (20, 80, 60) 5 [1, 2, 3] s = Some s'"
    using f s(3)
    by (simp add: spi_startup_event_def queue_next_transaction_def slave_get_next_tx_buffer_def set_dataready_gpio_def
        spi_buffer_tx_alloc_def prio_send_def prio_recv_def empty_prio_q_def zero_handle_def Let_def)
  have b: "spi_bus_init (\<lambda>_. True) demo_spi = Some demo_spi" by (simp add: spi_bus_init_def demo_spi_def)
  have d: "sl_state demo_slave_spi = IF_DEINIT" "\<not> sl_created demo_slave_spi" "sl_queued demo_slave_spi = []"
    by (simp_all add: demo_slave_spi_def)
  have run: "spi_run [] [] [untyped (startup_pkt [1, 2, 3])] [] (line_edges s s' demo_spi, s', [])"
    by (rule Start [OF b d s(1) _ s']) simp
  obtain f where st: "sl_state s' = IF_ACTIVE" "sl_created s'" "sl_handshake s'" "sl_queued s' = [(f, 5)]" "sl_tx s' = empty_prio_q"
      "sl_data_ready s'" "frame_of_pkt (startup_pkt [1, 2, 3]) f" "\<not> sl_handshake s"
    using spi_started [OF b d s(1) _ s'] by auto
  let ?h = "line_edges s s' demo_spi"
  have rdy: "sp_ready ?h" "pq_sem (sp_to_slave ?h) = 0" "\<not> sp_dummy_rx ?h" "\<not> sp_dummy_tx ?h"
    using st(3,8) by (simp_all add: line_edges_ready)
      (simp_all add: line_edges_def gpio_hs_isr_handler_def gpio_dr_isr_handler_def demo_spi_def empty_prio_q_def Let_def)
  have nx: "spi_get_next_tx_buffer True (?h\<lparr>sp_ready := False\<rparr>) = Some ((False, None, []), ?h\<lparr>sp_ready := False\<rparr>)"
    using rdy(2) by (intro spi_next_none) simp
  obtain h2 where t: "spi_turn 9 (?h, s', []) = Some (h2, s'\<lparr>sl_queued := [], sl_handshake := False, sl_cs_sem := True\<rparr>, [(5, spi_dummy_frame)])"
      "host_quiet h2"
    using st rdy nx host_receives_real [OF st(7), of 9 "?h\<lparr>sp_ready := False, sp_dummy_tx := False\<rparr>"] host_dummy(2)
    by (simp add: spi_turn_def spi_transaction_step_def check_and_execute_spi_transaction_def mem_slice_def
        gpio_disable_hs_isr_handler_def host_quiet_def Let_def)
  then show ?thesis
    using Turn [OF run t(1)] st(5,6) sorted_q_empty(2)
    by (intro exI [of _ h2] exI [of _ "s'\<lparr>sl_queued := [], sl_handshake := False, sl_cs_sem := True\<rparr>"] exI [of _ 5]
        exI [of _ spi_dummy_frame]) simp
qed


text \<open>
  C23: in every run of the SPI link whose operations are atomic, for each priority the packets given to one
  driver are those the other side has taken, followed by those on their way (in a queue or in a loaded frame), each
  exactly once, whole and in order, in both directions.
\<close>
theorem spi_link_exchange:
  assumes "spi_run hs hr ss sr c"
  shows "of_prio k ss = of_prio k sr @ of_prio k (to_host c) \<and> of_prio k hs = of_prio k hr @ of_prio k (to_slave c)"
  using spi_run_inv [OF assms] by (simp add: link_inv_def link_fifo_def)

theorem spi_link_exchange_witness:
  "\<exists>c. spi_run [] [] [untyped (startup_pkt [1, 2, 3])] [] c \<and>
     of_prio 2 [untyped (startup_pkt [1, 2, 3])] = of_prio 2 [] @ of_prio 2 (to_host c)"
proof -
  obtain h s r g where "spi_run [] [] [untyped (startup_pkt [1, 2, 3])] [] (h, s, [(r, g)])" using demo_exchange by blast
  from this and spi_link_exchange [OF this, of 2] show ?thesis by blast
qed

text \<open>
  C24: no packet is stranded while the operations are atomic: from every state of the link the transaction task of
  the host and the post-process task of the co-processor, woken by the two lines alone, bring all packets to the receive
  queues, in at most four steps for each packet on its way and one more.
\<close>
theorem spi_link_delivers:
  assumes "spi_run hs hr ss sr c" "rb \<noteq> 0"
  shows "\<exists>n h s fin. n \<le> 4 * unsent c + 1 \<and> spi_steps cfg rb n c = Some (h, s, fin) \<and>
    (\<forall>k. of_prio k ss = of_prio k (sr @ map slave_pkt (q_all (sp_from_slave h))) \<and>
         of_prio k hs = of_prio k (hr @ map slave_rx_pkt (q_all (sl_rx s))))"
proof -
  obtain n c' where n: "n \<le> spi_measure c" "spi_steps cfg rb n c = Some c'" "spi_run hs hr ss sr c'" "unsent c' = 0"
    using spi_steps_drain [OF assms] by blast
  obtain h s fin where c': "c' = (h, s, fin)" by (cases c')
  have "n \<le> 4 * unsent c + 1" using n(1) spi_measure_bound [of c] by simp
  moreover have "link_fifo hs hr ss sr (h, s, fin)" using spi_run_inv [OF n(3)] by (simp add: link_inv_def c')
  ultimately show ?thesis
    using n(2,4) unfolding c' by (auto simp: unsent_def link_fifo_def to_host_def to_slave_def)
qed

theorem spi_link_delivers_witness:
  "\<exists>c n h s fin. spi_run [] [] [untyped (startup_pkt [1, 2, 3])] [] c \<and> spi_steps (20, 80, 60) 3 n c = Some (h, s, fin) \<and>
     of_prio 2 [untyped (startup_pkt [1, 2, 3])] = of_prio 2 (map slave_pkt (q_all (sp_from_slave h)))"
proof -
  obtain h s r g where run: "spi_run [] [] [untyped (startup_pkt [1, 2, 3])] [] (h, s, [(r, g)])" using demo_exchange by blast
  then show ?thesis using spi_link_delivers [OF run, of 3 "(20, 80, 60)"] by (metis append_Nil zero_neq_numeral)
qed

section \<open>The race of the co-processor's write\<close>

lemma quiet_turn:
  assumes "host_quiet h" "sp_ready h" "sl_handshake s" "\<not> sl_data_ready s"
  shows "spi_turn rb (h, s, fin) = Some (h\<lparr>sp_ready := False\<rparr>, s, fin)"
    "spi_turn rb (h\<lparr>sp_ready := False\<rparr>, s, fin) = None"
  using assms spi_next_none [of "h\<lparr>sp_ready := False\<rparr>"]
  by (simp_all add: spi_turn_def spi_transaction_step_def check_and_execute_spi_transaction_def host_quiet_def Let_def)

text \<open>
  C25: \<open>esp_spi_write\<close> gives its semaphore only after it has raised the data-ready line. When the line is still up
  from an earlier packet and the post-process task runs between the two, it finds no count, loads a dummy and lowers the
  line again: the packet is then in the queue with its count, but a host that is otherwise idle looks once, clocks no
  transaction, and waits for ever.
\<close>
theorem spi_write_race:
  assumes "spi_run hs hr ss sr (h, s, [fin])" "sl_data_ready s" "q_all (sl_tx s) = []" "host_quiet h" "slave_ok bh" "rb \<noteq> 0"
  shows "\<exists>n s1 h3 s3 h5. spi_write_enqueue True True cfg True (Some bh) s = Some (n, s1) \<and> 0 \<le> n \<and>
    spi_post cfg rb (line_edges s1 (set_dataready_gpio s1) h, set_dataready_gpio s1, [fin]) = Some (h3, s3, []) \<and>
    (let s4 = spi_tx_sem_give s3 in pq_sem (sl_tx s4) = 1 \<and> map slave_tx_pkt (q_all (sl_tx s4)) = [slave_pkt bh] \<and>
      spi_turn rb (h3, s4, []) = Some (h5, s4, []) \<and> spi_turn rb (h5, s4, []) = None)"
proof -
  obtain r g where fin: "fin = (r, g)" by (cases fin)
  have inv: "link_inv hs hr ss sr (h, s, [(r, g)])" using spi_run_inv [OF assms(1)] fin by simp
  have sh: "link_shape (h, s, [(r, g)])" and qu: "link_queues (h, s, [(r, g)])" using inv unfolding link_inv_def by blast+
  have st: "sl_state s = IF_ACTIVE" "\<not> sl_handshake s" "sl_cs_sem s" "sl_queued s = []" "good_frame g"
    using sh by (auto simp: link_shape_def split: if_splits)
  have sem: "pq_sem (sl_tx s) = 0" using qu assms(3) by (simp add: link_queues_def sorted_q_def)
  obtain f k t where e: "spi_write_enqueue True True cfg True (Some bh) s = Some (int (unat (bh_payload_len bh)),
      s\<lparr>sl_tx_bufs := k, sl_throttling := t, sl_tx := (prio_send (slave_tx_handle bh f) (sl_tx s))\<lparr>pq_sem := pq_sem (sl_tx s)\<rparr>\<rparr>)"
      and f: "frame_of_pkt (slave_pkt bh) f"
    using enqueue_accepted [OF assms(5) st(1)] by blast
  let ?b = "slave_tx_handle bh f"
  let ?q = "(prio_send ?b (sl_tx s))\<lparr>pq_sem := pq_sem (sl_tx s)\<rparr>"
  define s1 where "s1 = s\<lparr>sl_tx_bufs := k, sl_throttling := t, sl_tx := ?q\<rparr>"
  have s2: "set_dataready_gpio s1 = s1" "line_edges s1 s1 h = h"
    using assms(2) by (cases s; simp add: s1_def set_dataready_gpio_def) (simp add: line_edges_def Let_def)
  let ?s = "s1\<lparr>sl_cs_sem := False\<rparr>"
  have "pq_sem (sl_tx ?s) = 0" using sem by (simp add: s1_def)
  then obtain d n' t' where d: "slave_get_next_tx_buffer True cfg ?s =
      (Some d, ?s\<lparr>sl_data_ready := False, sl_tx_bufs := n', sl_throttling := t'\<rparr>)"
    using slave_next_dummy by blast
  define s3 where "s3 = spi_post_setup_cb ((spi_buffer_rx_alloc (?s\<lparr>sl_data_ready := False, sl_tx_bufs := n', sl_throttling := t'\<rparr>))
      \<lparr>sl_queued := [(d, rb)]\<rparr>)"
  have q: "queue_next_transaction True cfg rb ?s = Some s3"
    using d assms(6) st(4) by (simp add: queue_next_transaction_def s3_def s1_def spi_buffer_rx_alloc_def Let_def)
  obtain x es where x: "process_spi_rx True r g (spi_buffer_tx_free s3) = Some (x, (spi_buffer_tx_free s3)\<lparr>sl_events := es, sl_rx :=
        (if real_frame g then prio_send (slave_rx_handle r (frame_pkt g) g) (sl_rx (spi_buffer_tx_free s3)) else sl_rx (spi_buffer_tx_free s3))\<rparr>)"
    using slave_receives [OF st(5)] by blast
  obtain s' where s': "spi_post_process_step True True cfg rb (r, g) s1 = Some s'" "sl_tx s' = ?q" "sl_handshake s'" "\<not> sl_data_ready s'"
    using q x st(1,3)
    by (simp add: spi_post_process_step_def s1_def [symmetric] Let_def)
      (simp add: s1_def s3_def spi_post_setup_cb_def spi_buffer_rx_alloc_def spi_buffer_rx_free_def spi_buffer_tx_free_def)
  let ?h3 = "line_edges s1 s' h"
  have h3: "?h3 = gpio_hs_isr_handler h" using s'(3,4) st(2) by (simp add: line_edges_def s1_def Let_def)
  have quiet: "host_quiet ?h3" "sp_ready ?h3" using assms(4) by (simp_all add: h3 host_quiet_def gpio_hs_isr_handler_def)
  have s4: "sl_handshake (spi_tx_sem_give s')" "\<not> sl_data_ready (spi_tx_sem_give s')" "sl_tx (spi_tx_sem_give s') = prio_send ?b (sl_tx s)"
    using s'(2-4) sem prio_sem_back [of "sl_tx s" ?b] by (simp_all add: spi_tx_sem_give_def)
  have p: "map slave_tx_pkt (q_all (prio_send ?b (sl_tx s))) = [slave_pkt bh]"
    using assms(3) slave_tx_handle_pkt(1) [OF f assms(5)] by (auto simp: q_all_def prio_send_def Let_def)
  have post: "spi_post cfg rb (h, s1, [(r, g)]) = Some (?h3, s', [])" using s'(1) by (simp add: spi_post_def)
  show ?thesis
    using e [folded s1_def] post quiet_turn [OF quiet s4(1,2), of rb "[]"] s4(3) p sem
    by (intro exI [of _ "int (unat (bh_payload_len bh))"] exI [of _ s1] exI [of _ ?h3] exI [of _ s'] exI [of _ "?h3\<lparr>sp_ready := False\<rparr>"])
      (simp add: s2 fin Let_def)
qed

theorem spi_write_race_witness:
  "\<exists>hs hr ss sr h s fin n s1 h3 s3 h5. spi_run hs hr ss sr (h, s, [fin]) \<and>
     spi_write_enqueue True True (20, 80, 60) True (Some (zero_handle\<lparr>bh_if_type := 3, bh_payload := Some [7], bh_payload_len := 1\<rparr>)) s = Some (n, s1) \<and>
     spi_post (20, 80, 60) 4 (line_edges s1 (set_dataready_gpio s1) h, set_dataready_gpio s1, [fin]) = Some (h3, s3, []) \<and>
     spi_turn 4 (h5, spi_tx_sem_give s3, []) = None"
proof -
  obtain h s r g where d: "spi_run [] [] [untyped (startup_pkt [1, 2, 3])] [] (h, s, [(r, g)])"
      "sl_data_ready s" "q_all (sl_tx s) = []" "host_quiet h"
    using demo_exchange by blast
  have "slave_ok (zero_handle\<lparr>bh_if_type := 3, bh_payload := Some [7], bh_payload_len := 1\<rparr>)" by (simp add: slave_ok_def)
  from d(1) and spi_write_race [OF d this, of 4 "(20, 80, 60)"] show ?thesis unfolding Let_def by fastforce
qed

end
