(* ===== verification/Spi_Hd_Drv.thy ===== *)
theory Spi_Hd_Drv
  imports Sdio_Drv
begin

unbundle bit_operations_syntax

text \<open>
  The half-duplex SPI transport of the host (\<open>src/host/drivers/transport/spi_hd/spi_hd_drv.c\<close>). The co-processor
  publishes two counters in shared registers: the receive buffers it has given to its DMA, from which the host
  reckons its credit, and the octets it has loaded for the host; it raises the data-ready line for the latter.

  Register values, the octets of a DMA read and the results of bus operations are arguments, since they come from the
  platform's driver. \<open>cks\<close> is the build option \<open>H_SPI_HD_CHECKSUM\<close>. \<open>None\<close> is an access outside a buffer, a failed
  assertion, or a task that waits. A buffer of the driver's pool is a positive number. The driver's lock makes a
  transmission and a reception atomic.
\<close>

section \<open>State\<close>

text \<open>
  \<open>hd_avail\<close> is the static \<open>buf_available\<close>; \<open>hd_tx_needed\<close> and \<open>hd_handle\<close> are the locals of the write task, which
  keep their values from turn to turn. \<open>hd_dr_sem\<close> is \<open>spi_hd_data_ready_sem\<close>, \<open>hd_bus\<close> the frames written by DMA.
\<close>

record spi_hd_drv =
  hd_tx_count :: u32
  hd_rx_count :: u32
  hd_avail :: u32
  hd_start :: bool
  hd_to_slave :: prio_q
  hd_from_slave :: prio_q
  hd_dr_sem :: nat
  hd_throttle :: bool
  hd_tx_needed :: bool
  hd_handle :: interface_buffer_handle
  hd_bus :: "bytes list"

abbreviation (input) MAX_SPI_HD_BUFFER_SIZE :: nat where "MAX_SPI_HD_BUFFER_SIZE \<equiv> 1600"
abbreviation (input) MAX_WRITE_BUF_RETRIES :: nat where "MAX_WRITE_BUF_RETRIES \<equiv> 25"
abbreviation (input) SPI_HD_TX_BUF_LEN_MASK :: u32 where "SPI_HD_TX_BUF_LEN_MASK \<equiv> 0xFFFFFF"
abbreviation (input) H_FLOW_CTRL_ON :: "2 word" where "H_FLOW_CTRL_ON \<equiv> 1"
abbreviation (input) H_FLOW_CTRL_OFF :: "2 word" where "H_FLOW_CTRL_OFF \<equiv> 2"

text \<open>\<open>gpio_dr_isr_handler\<close>; \<open>lim\<close> is the limit of the semaphore.\<close>

definition hd_gpio_dr_isr_handler :: "nat \<Rightarrow> spi_hd_drv \<Rightarrow> spi_hd_drv" where
  "hd_gpio_dr_isr_handler lim st = (if hd_dr_sem st < lim then st\<lparr>hd_dr_sem := hd_dr_sem st + 1\<rparr> else st)"

section \<open>Buffers of the co-processor\<close>

definition spi_hd_get_tx_buffer_num :: "int \<Rightarrow> u32 \<Rightarrow> u32 \<Rightarrow> int + u32" where
  "spi_hd_get_tx_buffer_num ret reg tx_buf_count = (if ret \<noteq> 0 then Inl ret else Inr (reg - tx_buf_count))"

text \<open>
  The retry loop of \<open>spi_hd_is_write_buffer_available\<close> on the readings \<open>rs\<close> of the register (result and value):
  the remaining retries and the new \<open>buf_available\<close>.
\<close>

fun hd_fetch_buffers :: "u32 \<Rightarrow> u32 \<Rightarrow> nat \<Rightarrow> u32 \<Rightarrow> (int \<times> u32) list \<Rightarrow> (nat \<times> u32) option" where
  "hd_fetch_buffers buf_needed cnt 0 avail rs = Some (0, avail)"
| "hd_fetch_buffers buf_needed cnt (Suc retry) avail [] = None"
| "hd_fetch_buffers buf_needed cnt (Suc retry) avail ((ret, reg) # rs) =
     (let avail = (case spi_hd_get_tx_buffer_num ret reg cnt of Inr n \<Rightarrow> n | Inl _ \<Rightarrow> avail)
      in if avail < buf_needed then hd_fetch_buffers buf_needed cnt retry avail rs
         else Some (Suc retry, avail))"

definition spi_hd_is_write_buffer_available :: "u32 \<Rightarrow> u32 \<Rightarrow> u32 \<Rightarrow> (int \<times> u32) list \<Rightarrow> (bool \<times> u32) option" where
  "spi_hd_is_write_buffer_available buf_needed cnt avail rs =
     (case (if avail < buf_needed then hd_fetch_buffers buf_needed cnt MAX_WRITE_BUF_RETRIES avail rs
            else Some (MAX_WRITE_BUF_RETRIES, avail)) of
        None \<Rightarrow> None
      | Some (retry, avail) \<Rightarrow> Some (retry \<noteq> 0, if avail \<ge> buf_needed then avail - buf_needed else avail))"

section \<open>Write task\<close>

text \<open>
  The frame: header fields are assigned in place (a zero-copy buffer brings its own room for them), the payload
  is copied unless the packet is zero-copy. The result is the new length and the buffer.
\<close>

definition spi_hd_build :: "bool \<Rightarrow> interface_buffer_handle \<Rightarrow> u16 \<Rightarrow> bytes \<Rightarrow> (u16 \<times> bytes) option" where
  "spi_hd_build cks bh len sendbuf = do {
     h0 \<leftarrow> decode_header sendbuf;
     let zc = (bh_zcopy bh \<noteq> 0);
     let h = h0\<lparr>ph_len := len, ph_offset := of_nat HDR_SIZE, ph_if_type := ucast (bh_if_type bh),
                ph_if_num := ucast (bh_if_num bh), ph_seq_num := bh_seq_num bh, ph_flags := bh_flag bh\<rparr>;
     let sendbuf = put_header h sendbuf;
     (h, len, sendbuf) \<leftarrow>
       (if ph_if_type h = ucast (if_code ESP_HCI_IF) then
          (if zc then Some (h, len, sendbuf)
           else do {
             p \<leftarrow> bh_payload bh;
             t \<leftarrow> peek p 0;
             let len = len - 1;
             d \<leftarrow> mem_slice p 1 (unat len);
             sendbuf \<leftarrow> poke HDR_SIZE d sendbuf;
             Some (h\<lparr>ph_pkt_type := t, ph_len := len\<rparr>, len, sendbuf)
           })
        else if \<not> zc then do {
          d \<leftarrow> (if len = 0 then Some [] else bh_payload bh \<bind> (\<lambda>p. mem_slice p 0 (unat len)));
          sendbuf \<leftarrow> poke HDR_SIZE d sendbuf;
          Some (h, len, sendbuf)
        } else Some (h, len, sendbuf));
     let sendbuf = put_header h sendbuf;
     if \<not> cks then Some (len, sendbuf)
     else do {
       c \<leftarrow> compute_checksum sendbuf (of_nat (HDR_SIZE + unat len));
       Some (len, put_header (h\<lparr>ph_checksum := c\<rparr>) sendbuf)
     }
   }"

text \<open>
  From the label \<open>done\<close> on: the packet's own buffer is freed unless it is sent in place, then the frame buffer
  (\<open>fr\<close>).
\<close>

definition hd_write_done :: "interface_buffer_handle \<Rightarrow> u16 \<Rightarrow> tx_free list \<Rightarrow> tx_free list" where
  "hd_write_done bh len fr =
     (if len \<noteq> 0 \<and> bh_zcopy bh = 0 \<and> bh_free bh \<and> bh_priv bh \<noteq> 0 then F_Priv # fr else fr)"

text \<open>
  \<open>spi_hd_write_packet\<close>; \<open>mem\<close>: the pool has a buffer, \<open>wr\<close> is the result of \<open>h_spi_hd_write_dma\<close>. The result: its
  code, what is freed, and the driver.
\<close>

definition spi_hd_write_packet ::
  "bool \<Rightarrow> bool \<Rightarrow> (int \<times> u32) list \<Rightarrow> int \<Rightarrow> interface_buffer_handle \<Rightarrow> spi_hd_drv \<Rightarrow>
   (h_err \<times> tx_free list \<times> spi_hd_drv) option" where
  "spi_hd_write_packet cks mem regs wr bh st =
     (let len = bh_payload_len bh; zc = (bh_zcopy bh \<noteq> 0) in
      if bh_flag bh = 0 \<and> len = 0 then Some (H_FAIL, [], st)
      else if \<not> zc \<and> \<not> mem then Some (H_FAIL, [], st)
      else
        let fr = (if \<not> zc then [F_Send] else if bh_free bh \<and> bh_payload bh \<noteq> None then [F_Payload] else []) in
        if unat len > MAX_SPI_HD_BUFFER_SIZE - HDR_SIZE then Some (H_FAIL, hd_write_done bh len fr, st)
        else do {
          sendbuf \<leftarrow> (if zc then bh_payload bh else Some (replicate MAX_SPI_HD_BUFFER_SIZE 0));
          (len, sendbuf) \<leftarrow> spi_hd_build cks bh len sendbuf;
          let data_left = unat len + HDR_SIZE;
          let buf_needed = (of_nat ((data_left + MAX_SPI_HD_BUFFER_SIZE - 1) div MAX_SPI_HD_BUFFER_SIZE) :: u32);
          (ok, avail) \<leftarrow> spi_hd_is_write_buffer_available buf_needed (hd_tx_count st) (hd_avail st) regs;
          let st = st\<lparr>hd_avail := avail\<rparr>;
          if \<not> ok then Some (H_FAIL, hd_write_done bh len fr, st)
          else do {
            d \<leftarrow> mem_slice sendbuf 0 data_left;
            if wr \<noteq> 0 then Some (H_FAIL, hd_write_done bh len fr, st)
            else Some (H_OK, hd_write_done bh len fr,
                   st\<lparr>hd_bus := hd_bus st @ [d], hd_tx_count := hd_tx_count st + buf_needed\<rparr>)
          }
        })"

text \<open>One turn of \<open>spi_hd_write_task\<close>: \<open>None\<close> while the task has not been started or waits for the semaphore.\<close>

definition spi_hd_write_step ::
  "bool \<Rightarrow> bool \<Rightarrow> (int \<times> u32) list \<Rightarrow> int \<Rightarrow> spi_hd_drv \<Rightarrow> (tx_free list \<times> spi_hd_drv) option" where
  "spi_hd_write_step cks mem regs wr st =
     (if \<not> hd_start st \<or> pq_sem (hd_to_slave st) = 0 then None
      else
        case prio_recv (hd_to_slave st) of (got, q) \<Rightarrow>
          let st = st\<lparr>hd_to_slave := q\<lparr>pq_sem := pq_sem q - 1\<rparr>,
                      hd_tx_needed := (hd_tx_needed st \<and> got \<noteq> None),
                      hd_handle := (case got of Some bh \<Rightarrow> bh | None \<Rightarrow> hd_handle st)\<rparr>
          in if \<not> hd_tx_needed st then Some ([], st)
             else do {
               (_, fr, st) \<leftarrow> spi_hd_write_packet cks mem regs wr (hd_handle st) st;
               Some (fr, st)
             })"

text \<open>\<open>esp_hosted_tx\<close> of this bus: \<open>up\<close> is \<open>is_transport_tx_ready\<close>. The second result: what is freed.\<close>

definition spi_hd_esp_hosted_tx ::
  "bool \<Rightarrow> u8 \<Rightarrow> u8 \<Rightarrow> bytes option \<Rightarrow> u16 \<Rightarrow> u8 \<Rightarrow> nat \<Rightarrow> bool \<Rightarrow> u8 \<Rightarrow> spi_hd_drv \<Rightarrow> h_err \<times> nat list \<times> spi_hd_drv" where
  "spi_hd_esp_hosted_tx up iface_type iface_num payload_buf payload_len zcopy buffer_to_free free_func flags st =
     (let bh = zero_handle\<lparr>bh_zcopy := zcopy, bh_if_type := iface_type, bh_if_num := iface_num,
            bh_payload_len := payload_len, bh_payload := payload_buf, bh_priv := buffer_to_free,
            bh_free := free_func, bh_flag := flags\<rparr>
      in if (flags = 0 \<or> flags = MORE_FRAGMENT) \<and>
            (payload_buf = None \<or> payload_len = 0 \<or> unat payload_len > MAX_PAYLOAD_SIZE \<or> \<not> up)
         then (H_FAIL, snd (free_handle bh), st)
         else (H_OK, [], st\<lparr>hd_to_slave := prio_send bh (hd_to_slave st)\<rparr>))"

text \<open>
  \<open>bus_inform_slave_host_power_save_start\<close> and \<open>_stop\<close>: before the write task runs the flag is sent directly.
\<close>

definition spi_hd_inform_slave_host_power_save ::
  "u8 \<Rightarrow> bool \<Rightarrow> bool \<Rightarrow> bool \<Rightarrow> (int \<times> u32) list \<Rightarrow> int \<Rightarrow> spi_hd_drv \<Rightarrow> (h_err \<times> spi_hd_drv) option" where
  "spi_hd_inform_slave_host_power_save flag cks up mem regs wr st =
     (if \<not> hd_start st then do {
        (ret, _, st) \<leftarrow> spi_hd_write_packet cks mem regs wr
          (zero_handle\<lparr>bh_if_type := if_code ESP_SERIAL_IF, bh_flag := flag\<rparr>) st;
        Some (ret, st)
      } else case spi_hd_esp_hosted_tx up (if_code ESP_SERIAL_IF) 0 None 0 0 0 False flag st of
        (ret, _, st) \<Rightarrow> Some (ret, st))"

section \<open>Read task\<close>

text \<open>\<open>is_valid_spi_hd_rx_packet\<close>: length and offset of a valid packet, and the buffer with the checksum field cleared.\<close>

definition is_valid_spi_hd_rx_packet :: "bool \<Rightarrow> bytes \<Rightarrow> ((u16 \<times> u16) option \<times> bytes) option" where
  "is_valid_spi_hd_rx_packet cks buf = do {
     h \<leftarrow> decode_header buf;
     let len = ph_len h; let offset = ph_offset h;
     if len = 0 \<or> unat len > MAX_PAYLOAD_SIZE \<or> unat offset \<noteq> HDR_SIZE then Some (None, buf)
     else if \<not> cks then Some (Some (len, offset), buf)
     else do {
       let buf = put_header (h\<lparr>ph_checksum := 0\<rparr>) buf;
       checksum \<leftarrow> compute_checksum buf (len + offset);
       Some (if checksum \<noteq> ph_checksum h then None else Some (len, offset), buf)
     }
   }"

definition update_flow_ctrl :: "bytes \<Rightarrow> spi_hd_drv \<Rightarrow> (bool \<times> spi_hd_drv) option" where
  "update_flow_ctrl buf st = do {
     h \<leftarrow> decode_header buf;
     if ph_throttle_cmd h \<noteq> 0 then
       let st = (if ph_throttle_cmd h = H_FLOW_CTRL_ON then st\<lparr>hd_throttle := True\<rparr> else st);
           st = (if ph_throttle_cmd h = H_FLOW_CTRL_OFF then st\<lparr>hd_throttle := False\<rparr> else st)
       in Some (True, st)
     else Some (False, st)
   }"

definition spi_hd_push_pkt_to_queue :: "nat \<Rightarrow> bytes \<Rightarrow> u16 \<Rightarrow> u16 \<Rightarrow> spi_hd_drv \<Rightarrow> spi_hd_drv option" where
  "spi_hd_push_pkt_to_queue rxbuff buf len offset st = do {
     h \<leftarrow> decode_header buf;
     Some (st\<lparr>hd_from_slave := prio_send (zero_handle\<lparr>bh_priv := rxbuff, bh_free := True, bh_payload_len := len,
       bh_if_type := ucast (ph_if_type h), bh_if_num := ucast (ph_if_num h),
       bh_payload := Some (drop (unat offset) buf), bh_seq_num := ph_seq_num h, bh_flag := ph_flags h\<rparr>) (hd_from_slave st)\<rparr>)
   }"

text \<open>\<open>spi_hd_push_data_to_queue\<close> for the octets in the pool's buffer \<open>rxbuff\<close>: its code, what is freed, the driver.\<close>

definition spi_hd_push_data_to_queue :: "bool \<Rightarrow> nat \<Rightarrow> bytes \<Rightarrow> spi_hd_drv \<Rightarrow> (h_err \<times> nat list \<times> spi_hd_drv) option" where
  "spi_hd_push_data_to_queue cks rxbuff buf st = do {
     (flow, st) \<leftarrow> update_flow_ctrl buf st;
     if flow then Some (H_OK, [rxbuff], st)
     else do {
       (valid, buf) \<leftarrow> is_valid_spi_hd_rx_packet cks buf;
       case valid of
         None \<Rightarrow> Some (H_FAIL, [rxbuff], st)
       | Some (len, offset) \<Rightarrow> do {
           st \<leftarrow> spi_hd_push_pkt_to_queue rxbuff buf len offset st;
           Some (H_OK, [], st)
         }
     }
   }"

text \<open>
  One turn of the loop of \<open>spi_hd_read_task\<close>. \<open>dr\<close>: the data-ready line is in use (otherwise the task polls and does
  not wait for it); \<open>reg\<close>: the value of \<open>SPI_HD_REG_TX_BUF_LEN\<close> if it can be read; \<open>rxbuff\<close>: the pool's buffer;
  \<open>dma n\<close>: the octets a read of \<open>n\<close> gives, \<open>None\<close> if it fails. The result: whether the interrupts of the co-processor
  were cleared, the size of the read, what is freed, and the driver.
\<close>

definition spi_hd_read_step ::
  "bool \<Rightarrow> bool \<Rightarrow> u32 option \<Rightarrow> nat \<Rightarrow> (nat \<Rightarrow> bytes option) \<Rightarrow> spi_hd_drv \<Rightarrow>
   (bool \<times> nat \<times> nat list \<times> spi_hd_drv) option" where
  "spi_hd_read_step cks dr reg rxbuff dma st =
     (if dr \<and> hd_dr_sem st = 0 then None
      else
        let st = st\<lparr>hd_dr_sem := hd_dr_sem st - 1\<rparr> in
        case reg of
          None \<Rightarrow> Some (False, 0, [], st)
        | Some v \<Rightarrow>
            let st = (if bit v 24 then st\<lparr>hd_throttle := True\<rparr> else st);
                st = (if bit v 25 then st\<lparr>hd_throttle := False\<rparr> else st);
                curr = v AND SPI_HD_TX_BUF_LEN_MASK;
                size = (curr - hd_rx_count st) AND SPI_HD_TX_BUF_LEN_MASK
            in if size = 0 then Some (True, 0, [], st)
               else if unat size > MAX_SPI_HD_BUFFER_SIZE then Some (True, 0, [], st)
               else if rxbuff = 0 then None
               else
                 let st = st\<lparr>hd_rx_count := (hd_rx_count st + size) AND SPI_HD_TX_BUF_LEN_MASK\<rparr> in
                 case dma (unat size) of
                   None \<Rightarrow> Some (True, unat size, [rxbuff], st)
                 | Some d \<Rightarrow> do {
                     buf \<leftarrow> poke 0 (take (unat size) d) (replicate MAX_SPI_HD_BUFFER_SIZE 0);
                     (_, fr, st) \<leftarrow> spi_hd_push_data_to_queue cks rxbuff buf st;
                     Some (True, unat size, fr, st)
                   })"

section \<open>Dispatch\<close>

text \<open>One turn of \<open>spi_hd_process_rx_task\<close>: \<open>None\<close> while it waits. The link \<open>ll\<close> is the serial layer's state.\<close>

definition spi_hd_process_rx_step ::
  "bool \<Rightarrow> nat \<Rightarrow> bool \<Rightarrow> (u8 \<Rightarrow> bool) \<Rightarrow> spi_hd_drv \<times> serial_ll \<Rightarrow> (rx_action \<times> nat list \<times> spi_hd_drv \<times> serial_ll) option" where
  "spi_hd_process_rx_step mem sbuf qok chan c =
     (case c of (st, ll) \<Rightarrow>
      if pq_sem (hd_from_slave st) = 0 then None
      else case prio_recv (hd_from_slave st) of (got, q) \<Rightarrow>
        let st = st\<lparr>hd_from_slave := q\<lparr>pq_sem := pq_sem q - 1\<rparr>\<rparr> in
        case got of
          None \<Rightarrow> Some (RX_None, [], st, ll)
        | Some bh \<Rightarrow> do {
            (act, fr, start, ll) \<leftarrow> bus_rx_dispatch mem sbuf qok chan bh ll;
            Some (act, fr, if start then st\<lparr>hd_start := True\<rparr> else st, ll)
          })"

section \<open>Set-up and shutdown\<close>

text \<open>
  \<open>bus_init_internal\<close>: \<open>ok i\<close> is the result of its \<open>i\<close>-th resource; every failure is a failed assertion. Counters,
  \<open>spi_hd_start_write_thread\<close> and \<open>buf_available\<close> keep their values.
\<close>

definition spi_hd_bus_init :: "(nat \<Rightarrow> bool) \<Rightarrow> spi_hd_drv \<Rightarrow> spi_hd_drv option" where
  "spi_hd_bus_init ok st =
     (if \<forall>i \<in> set [0..<15]. ok i
      then Some (st\<lparr>hd_to_slave := empty_prio_q, hd_from_slave := empty_prio_q, hd_dr_sem := 0,
                    hd_tx_needed := True, hd_handle := zero_handle\<rparr>)
      else None)"

text \<open>\<open>bus_deinit_internal\<close>: the queues are deleted with the packets in them, whose buffers are not freed.\<close>

definition spi_hd_bus_deinit :: "spi_hd_drv \<Rightarrow> spi_hd_drv" where
  "spi_hd_bus_deinit st = st\<lparr>hd_to_slave := empty_prio_q, hd_from_slave := empty_prio_q, hd_dr_sem := 0\<rparr>"

text \<open>\<open>ensure_slave_bus_ready\<close>: the result, whether the co-processor was reset, whether the end of the power save is signalled.\<close>

definition spi_hd_ensure_slave_bus_ready :: "bool \<Rightarrow> bool \<Rightarrow> bool \<Rightarrow> (h_err \<times> bool \<times> bool) option" where
  "spi_hd_ensure_slave_bus_ready config pin woke =
     (if \<not> config then Some (H_FAIL, False, False)
      else if \<not> pin then None
      else if woke then Some (H_OK, False, True) else Some (H_OK, True, False))"

text \<open>The driver before its first initialisation.\<close>

definition spi_hd_boot :: spi_hd_drv where
  "spi_hd_boot = \<lparr>hd_tx_count = 0, hd_rx_count = 0, hd_avail = 0, hd_start = False, hd_to_slave = empty_prio_q,
     hd_from_slave = empty_prio_q, hd_dr_sem = 0, hd_throttle = False, hd_tx_needed = True, hd_handle = zero_handle,
     hd_bus = []\<rparr>"

end
