(* ===== verification/Slave_Spi_Hd.thy ===== *)
theory Slave_Spi_Hd
  imports Slave_Uart Bus_Queue
begin

unbundle bit_operations_syntax

text \<open>
  The half-duplex SPI driver of the co-processor (\<open>src/slave/main/spi_hd_slave_api.c\<close>): the callbacks of the
  peripheral, which publish the counters of loaded buffers and octets, the receive task, the read and write operations
  of the main module, the task that reclaims transmit buffers, the throttling of the host, the start-up event and the
  life cycle. The data-ready line is in use.

  The peripheral driver (\<open>spi_slave_hd_*\<close>) is not part of the repository: \<open>sh_tx_q\<close> and \<open>sh_rx_q\<close> are the
  transactions given to its two channels (buffer and octets; buffer), its results are arguments. \<open>None\<close> is an access
  outside a buffer, a failed assertion, or a task that waits. A blocking send to a full queue is a step that is taken
  later.
\<close>

section \<open>State\<close>

text \<open>
  \<open>sh_tx_size\<close> and \<open>sh_rx_num\<close> are \<open>tx_ready_buf_size\<close> and \<open>rx_ready_buf_num\<close>; \<open>sh_reg_tx\<close> and \<open>sh_reg_rx\<close> the shared
  registers the host reads. \<open>sh_tx_sem\<close> is \<open>mempool_tx_sem\<close>; \<open>sh_flow_sem\<close> is \<open>flow_ctrl_sem\<close>, \<open>None\<close> until its task
  runs.
\<close>

record slave_spi_hd =
  sh_state :: if_state
  sh_rx :: prio_q
  sh_tx_size :: u32
  sh_rx_num :: u32
  sh_reg_tx :: u32
  sh_reg_rx :: u32
  sh_data_ready :: bool
  sh_tx_sem :: nat
  sh_throttling :: bool
  sh_flow :: bool
  sh_flow_sem :: "bool option"
  sh_tx_q :: "(nat \<times> bytes) list"
  sh_rx_q :: "nat list"
  sh_events :: "host_interrupt list"

abbreviation (input) SPI_HD_BUFFER_SIZE :: nat where "SPI_HD_BUFFER_SIZE \<equiv> 1600"
abbreviation (input) TX_BUF_LEN_MASK :: u32 where "TX_BUF_LEN_MASK \<equiv> 0xFFFFFF"
abbreviation (input) SPI_HD_INT_MASK :: u32 where "SPI_HD_INT_MASK \<equiv> 0x3000000"

section \<open>Callbacks of the peripheral\<close>

text \<open>A receive buffer was loaded; a transmit buffer of \<open>len\<close> octets was loaded; the host has sent CMD9.\<close>

definition cb_rx_ready :: "slave_spi_hd \<Rightarrow> slave_spi_hd" where
  "cb_rx_ready st = (let n = sh_rx_num st + 1 in st\<lparr>sh_rx_num := n, sh_reg_rx := n\<rparr>)"

definition cb_tx_ready :: "nat \<Rightarrow> slave_spi_hd \<Rightarrow> slave_spi_hd" where
  "cb_tx_ready len st =
     (let int_mask = sh_tx_size st AND SPI_HD_INT_MASK;
          n = ((sh_tx_size st AND TX_BUF_LEN_MASK) + of_nat len) AND TX_BUF_LEN_MASK;
          n = n OR int_mask
      in st\<lparr>sh_tx_size := n, sh_reg_tx := n, sh_data_ready := True\<rparr>)"

definition cb_cmd9_recv :: "slave_spi_hd \<Rightarrow> slave_spi_hd" where
  "cb_cmd9_recv st = st\<lparr>sh_tx_size := sh_tx_size st AND TX_BUF_LEN_MASK, sh_data_ready := False\<rparr>"

section \<open>Throttling of the host\<close>

text \<open>\<open>TRIGGER_FLOW_CTRL\<close>; \<open>nq\<close> is \<open>SPI_HD_QUEUE_SIZE\<close>, \<open>high\<close> and \<open>low\<close> the thresholds the host has configured.\<close>

definition trigger_flow_ctrl :: "bool \<Rightarrow> slave_spi_hd \<Rightarrow> slave_spi_hd" where
  "trigger_flow_ctrl on st =
     st\<lparr>sh_throttling := on, sh_flow := on, sh_flow_sem := map_option (\<lambda>_. True) (sh_flow_sem st)\<rparr>"

definition hd_start_rx_data_throttling_if_needed :: "nat \<Rightarrow> u8 \<Rightarrow> slave_spi_hd \<Rightarrow> slave_spi_hd" where
  "hd_start_rx_data_throttling_if_needed nq high st =
     (if high > 0 \<and> \<not> sh_throttling st then
        let load_percent = (of_nat (length (pq_others (sh_rx st)) * 100 div nq) :: u8)
        in if load_percent > high then trigger_flow_ctrl True st else st
      else st)"

definition hd_stop_rx_data_throttling_if_needed :: "nat \<Rightarrow> u8 \<Rightarrow> slave_spi_hd \<Rightarrow> slave_spi_hd" where
  "hd_stop_rx_data_throttling_if_needed nq low st =
     (if sh_throttling st then
        let load_percent = (of_nat (length (pq_others (sh_rx st)) * 100 div nq) :: u8)
        in if load_percent < low then trigger_flow_ctrl False st else st
      else st)"

text \<open>One turn of \<open>flow_ctrl_task\<close>: the command of the packet it gives to \<open>send_to_host_queue\<close>.\<close>

definition flow_ctrl_step :: "slave_spi_hd \<Rightarrow> (2 word \<times> slave_spi_hd) option" where
  "flow_ctrl_step st =
     (case sh_flow_sem st of
        None \<Rightarrow> Some (0, st\<lparr>sh_flow_sem := Some False\<rparr>)
      | Some False \<Rightarrow> None
      | Some True \<Rightarrow> Some (if sh_flow st then 1 else 2, st\<lparr>sh_flow_sem := Some False\<rparr>))"

section \<open>Receive\<close>

text \<open>\<open>spi_hd_read_done\<close>; \<open>rc\<close> is the result of \<open>spi_slave_hd_queue_trans\<close>. A buffer that is refused is freed.\<close>

definition spi_hd_read_done :: "int \<Rightarrow> nat \<Rightarrow> slave_spi_hd \<Rightarrow> slave_spi_hd" where
  "spi_hd_read_done rc handle st = (if rc \<noteq> 0 then st else st\<lparr>sh_rx_q := sh_rx_q st @ [handle]\<rparr>)"

text \<open>The first part of \<open>spi_hd_rx_task\<close>: the receive buffers \<open>bufs\<close>, with the results, are given to the peripheral.\<close>

definition spi_hd_preload :: "(nat \<times> int) list \<Rightarrow> slave_spi_hd \<Rightarrow> slave_spi_hd" where
  "spi_hd_preload bufs st =
     (fold (\<lambda>(b, rc). spi_hd_read_done rc b) bufs st)\<lparr>sh_events := sh_events st @ [ESP_OPEN_DATA_PATH]\<rparr>"

text \<open>
  One turn of its loop for the transaction \<open>fin\<close> that \<open>spi_slave_hd_get_trans_res\<close> gives: buffer, octets (also those
  behind the received ones) and their number; \<open>rc\<close> as above. The task tests another variable than the result of the
  call, so a failure is not noticed: with \<open>fin = None\<close> it reads through a null pointer.
\<close>

definition spi_hd_rx_step ::
  "bool \<Rightarrow> nat \<times> u8 \<Rightarrow> int \<Rightarrow> (nat \<times> bytes \<times> nat) option \<Rightarrow> slave_spi_hd \<Rightarrow> slave_spi_hd option" where
  "spi_hd_rx_step cks cfg rc fin st =
     (case fin of
        None \<Rightarrow> None
      | Some (handle, buf, trans_len) \<Rightarrow>
          if trans_len = 0 then Some (spi_hd_read_done rc handle st)
          else do {
            let payload_len = (of_nat trans_len :: u16);
            header \<leftarrow> decode_header buf;
            let len = ph_len header; let offset = ph_offset header; let flags = ph_flags header;
            let st = st\<lparr>sh_events := sh_events st @ rx_flag_event flags\<rparr>;
            let st = (if flags AND FLAG_POWER_SAVE_STARTED = 0 \<and> flags AND FLAG_POWER_SAVE_STOPPED \<noteq> 0
                      then st\<lparr>sh_tx_size := 0\<rparr> else st);
            if unat payload_len < unat len + unat offset then Some (spi_hd_read_done rc handle st)
            else do {
              (ok, buf) \<leftarrow>
                (if cks then do {
                   let buf = put_header (header\<lparr>ph_checksum := 0\<rparr>) buf;
                   checksum \<leftarrow> compute_checksum buf (len + offset);
                   Some (checksum = ph_checksum header, buf)
                 } else Some (True, buf));
              if \<not> ok then Some (spi_hd_read_done rc handle st)
              else
                let bh = zero_handle\<lparr>bh_priv := handle, bh_payload := Some buf, bh_payload_len := payload_len,
                       bh_if_type := ucast (ph_if_type header), bh_if_num := ucast (ph_if_num header), bh_free := True\<rparr>;
                    st = hd_start_rx_data_throttling_if_needed (fst cfg) (snd cfg) st
                in Some (st\<lparr>sh_rx := prio_send bh (sh_rx st)\<rparr>)
            }
          })"

text \<open>\<open>esp_spi_hd_read\<close>; \<open>if_handle\<close>: the interface handle is not null. A negative result is \<open>ESP_FAIL\<close>.\<close>

definition esp_spi_hd_read ::
  "nat \<times> u8 \<Rightarrow> bool \<Rightarrow> slave_spi_hd \<Rightarrow> ((int \<times> interface_buffer_handle option) \<times> slave_spi_hd) option" where
  "esp_spi_hd_read cfg if_handle st =
     (if \<not> if_handle \<or> sh_state st \<noteq> IF_ACTIVE then Some ((-1, None), st)
      else if pq_sem (sh_rx st) = 0 then None
      else case prio_recv (sh_rx st) of (got, q) \<Rightarrow>
        let st = st\<lparr>sh_rx := q\<lparr>pq_sem := pq_sem q - 1\<rparr>\<rparr> in
        case got of
          None \<Rightarrow> Some ((-1, None), st)
        | Some bh \<Rightarrow> Some ((int (unat (bh_payload_len bh)), Some bh),
            hd_stop_rx_data_throttling_if_needed (fst cfg) (snd cfg) st))"

section \<open>Transmit\<close>

text \<open>The frame of \<open>esp_spi_hd_write\<close>, built in a cleared buffer; \<open>flow\<close> is \<open>wifi_flow_ctrl_en\<close>.\<close>

definition spi_hd_write_frame :: "bool \<Rightarrow> 2 word \<Rightarrow> interface_buffer_handle \<Rightarrow> bytes option" where
  "spi_hd_write_frame cks flow bh = do {
     let len = unat (bh_payload_len bh);
     let header = zero_header\<lparr>ph_if_type := ucast (bh_if_type bh), ph_if_num := ucast (bh_if_num bh),
            ph_len := bh_payload_len bh, ph_offset := of_nat HDR_SIZE, ph_seq_num := bh_seq_num bh,
            ph_flags := bh_flag bh, ph_throttle_cmd := flow\<rparr>;
     d \<leftarrow> (if len = 0 then Some [] else bh_payload bh \<bind> (\<lambda>p. mem_slice p 0 len));
     buf \<leftarrow> poke HDR_SIZE d (put_header header (replicate (len + HDR_SIZE) 0));
     if cks then do {
       checksum \<leftarrow> compute_checksum buf (of_nat HDR_SIZE + bh_payload_len bh);
       Some (put_header (header\<lparr>ph_checksum := checksum\<rparr>) buf)
     } else Some buf
   }"

text \<open>
  \<open>esp_spi_hd_write\<close>: \<open>sendbuf\<close> is the transmit buffer (\<open>0\<close>: none left; the pool refuses more than a block), \<open>rc\<close> the
  result of the peripheral. The error returns behind the semaphore do not give it back.
\<close>

definition esp_spi_hd_write ::
  "bool \<Rightarrow> nat \<Rightarrow> int \<Rightarrow> bool \<Rightarrow> 2 word \<Rightarrow> interface_buffer_handle option \<Rightarrow> slave_spi_hd \<Rightarrow> (int \<times> slave_spi_hd) option" where
  "esp_spi_hd_write cks sendbuf rc handle flow buf_handle st =
     (case buf_handle of
        None \<Rightarrow> Some (-1, st)
      | Some bh \<Rightarrow>
          if \<not> handle \<or> sh_state st \<noteq> IF_ACTIVE then Some (-1, st)
          else if flow = 0 \<and> (bh_payload_len bh = 0 \<or> bh_payload bh = None) then Some (-1, st)
          else if sh_tx_sem st = 0 then None
          else
            let st = st\<lparr>sh_tx_sem := sh_tx_sem st - 1\<rparr> in
            if sendbuf = 0 \<or> unat (bh_payload_len bh) + HDR_SIZE > SPI_HD_BUFFER_SIZE then Some (-1, st)
            else do {
              frame \<leftarrow> spi_hd_write_frame cks flow bh;
              if rc \<noteq> 0 then Some (-1, st)
              else Some (int (unat (bh_payload_len bh)), st\<lparr>sh_tx_q := sh_tx_q st @ [(sendbuf, frame)]\<rparr>)
            })"

text \<open>One turn of \<open>spi_hd_tx_done_task\<close> for the finished transaction, if there is one: its buffer is freed.\<close>

definition spi_hd_tx_done_step :: "nat option \<Rightarrow> slave_spi_hd \<Rightarrow> nat list \<times> slave_spi_hd" where
  "spi_hd_tx_done_step fin st =
     (case fin of
        None \<Rightarrow> ([], st)
      | Some b \<Rightarrow> ([b], st\<lparr>sh_tx_sem := sh_tx_sem st + 1\<rparr>))"

text \<open>
  \<open>generate_startup_event\<close> with the elements \<open>tlvs\<close>; it sends a multiple of four octets. \<open>sendbuf\<close> (\<open>0\<close>: none, the
  assertion fails) has 512.
\<close>

definition spi_hd_startup_frame :: "bool \<Rightarrow> bytes \<Rightarrow> bytes option" where
  "spi_hd_startup_frame cks tlvs = do {
     let len = (of_nat (length tlvs) :: u16);
     let event = ESP_PRIV_EVENT_INIT # ucast len # tlvs;
     let len = len + 2;
     let header = zero_header\<lparr>ph_if_type := ucast (if_code ESP_PRIV_IF), ph_offset := of_nat HDR_SIZE,
            ph_pkt_type := ESP_PACKET_TYPE_EVENT, ph_len := len\<rparr>;
     payload \<leftarrow> poke HDR_SIZE event (put_header header (replicate 512 0));
     payload \<leftarrow>
       (if cks then do {
          checksum \<leftarrow> compute_checksum payload (len + of_nat HDR_SIZE);
          Some (put_header (header\<lparr>ph_checksum := checksum\<rparr>) payload)
        } else Some payload);
     let total_len = unat len + HDR_SIZE;
     mem_slice payload 0 (if total_len mod 4 = 0 then total_len else total_len + (4 - total_len mod 4))
   }"

definition spi_hd_startup_event :: "bool \<Rightarrow> nat \<Rightarrow> int \<Rightarrow> bytes \<Rightarrow> slave_spi_hd \<Rightarrow> slave_spi_hd option" where
  "spi_hd_startup_event cks sendbuf rc tlvs st =
     (if sh_tx_sem st = 0 \<or> sendbuf = 0 then None
      else do {
        let st = st\<lparr>sh_tx_sem := sh_tx_sem st - 1\<rparr>;
        frame \<leftarrow> spi_hd_startup_frame cks tlvs;
        Some (if rc \<noteq> 0 then st else st\<lparr>sh_tx_q := sh_tx_q st @ [(sendbuf, frame)]\<rparr>)
      })"

section \<open>Life cycle\<close>

text \<open>
  \<open>esp_spi_hd_init\<close>: \<open>nq\<close> is \<open>SPI_HD_QUEUE_SIZE\<close>, \<open>ok i\<close> the result of the \<open>i\<close>-th resource, all of them asserted;
  \<open>ctrl\<close> are the values of \<open>SPI_HD_REG_SLAVE_CTRL\<close> it reads until the host has opened the data path (\<open>None\<close>: it still
  waits). The shared registers are cleared; the counters behind them keep their values.
\<close>

definition esp_spi_hd_init :: "nat \<Rightarrow> (nat \<Rightarrow> bool) \<Rightarrow> u32 list \<Rightarrow> slave_spi_hd \<Rightarrow> slave_spi_hd option" where
  "esp_spi_hd_init nq ok ctrl st =
     (if sh_state st \<noteq> IF_DEINIT then Some st
      else if \<not> list_ex (\<lambda>v. bit v 0) ctrl then None
      else if \<forall>i \<in> set [0..<13]. ok i then
        Some (st\<lparr>sh_data_ready := False, sh_reg_tx := 0, sh_reg_rx := 0, sh_tx_sem := nq, sh_rx := empty_prio_q,
          sh_state := IF_ACTIVE\<rparr>)
      else None)"

text \<open>\<open>esp_spi_hd_deinit\<close>: \<open>unload\<close> is \<open>H_PS_UNLOAD_BUS_WHILE_PS\<close>, without which it does nothing; \<open>rc\<close> is asserted.\<close>

definition esp_spi_hd_deinit :: "bool \<Rightarrow> int \<Rightarrow> slave_spi_hd \<Rightarrow> slave_spi_hd option" where
  "esp_spi_hd_deinit unload rc st =
     (if \<not> unload \<or> sh_state st = IF_DEINIT then Some st
      else if rc \<noteq> 0 then None
      else Some (st\<lparr>sh_state := IF_DEINIT, sh_tx_sem := 0, sh_events := sh_events st @ [ESP_CLOSE_DATA_PATH]\<rparr>))"

definition esp_spi_hd_reset :: "int \<Rightarrow> int \<Rightarrow> int" where
  "esp_spi_hd_reset deinit_rc init_rc = (if deinit_rc \<noteq> 0 then deinit_rc else init_rc)"

text \<open>The driver before its first initialisation.\<close>

definition slave_spi_hd_boot :: slave_spi_hd where
  "slave_spi_hd_boot = \<lparr>sh_state = IF_DEINIT, sh_rx = empty_prio_q, sh_tx_size = 0, sh_rx_num = 0, sh_reg_tx = 0,
     sh_reg_rx = 0, sh_data_ready = False, sh_tx_sem = 0, sh_throttling = False, sh_flow = False, sh_flow_sem = None,
     sh_tx_q = [], sh_rx_q = [], sh_events = []\<rparr>"

end
