(* ===== verification/Spi_Hd_Link.thy ===== *)
theory Spi_Hd_Link
  imports Spi_Frame Spi_Hd_Drv Slave_Spi_Hd
begin

unbundle bit_operations_syntax

text \<open>
  Both ends of the half-duplex SPI link (\<open>spi_hd_drv.c\<close> of the host, \<open>spi_hd_slave_api.c\<close> of the co-processor) with
  the peripheral between them: it has one transmit transaction and one receive buffer loaded at a time, calls the
  co-processor back when it loads one, and finishes it when the host has read or written it. Both sides are built with
  the checksum.
\<close>

section \<open>Frames\<close>

text \<open>The host reads a frame into a cleared buffer. A frame with a throttle command carries no packet.\<close>

definition hd_pad :: "bytes \<Rightarrow> bytes" where
  "hd_pad f = f @ replicate (1600 - length f) 0"

definition flow_cmd :: "bytes \<Rightarrow> bool" where
  "flow_cmd f = (ph_throttle_cmd (the (decode_header f)) \<noteq> 0)"

definition good_tx :: "bytes \<Rightarrow> bool" where
  "good_tx f = (12 \<le> length f \<and> length f \<le> 1600 \<and> (flow_cmd f \<or> frame_of_pkt (frame_pkt (hd_pad f)) (hd_pad f)))"

lemma decode_pad:
  assumes "12 \<le> length f"
  shows "decode_header (hd_pad f) = decode_header f"
proof -
  obtain h where h: "decode_header f = Some h" using assms decode_header_None_iff [of f] by fastforce
  then have "hd_pad f = encode_header h @ drop 12 f @ replicate (1600 - length f) 0"
    by (metis append.assoc decode_header_split hd_pad_def)
  then show ?thesis using h by simp
qed

lemma length_hd_pad: "length f \<le> 1600 \<Longrightarrow> length (hd_pad f) = 1600"
  by (simp add: hd_pad_def)

lemma flow_cmd_pad: "12 \<le> length f \<Longrightarrow> flow_cmd (hd_pad f) = flow_cmd f"
  by (simp add: flow_cmd_def decode_pad)

lemma pkt_no_flow: "frame_of_pkt pk f \<Longrightarrow> \<not> flow_cmd f"
  by (auto elim!: frame_of_pktE simp: flow_cmd_def decode_seal_append)

text \<open>Host and co-processor queue a packet as it is.\<close>

lemma hd_receives_pkt:
  assumes "frame_of_pkt pk f"
  shows "spi_hd_push_data_to_queue True rxbuff f st =
    Some (H_OK, [], st\<lparr>hd_from_slave := prio_send (spi_rx_handle rxbuff pk f) (hd_from_slave st)\<rparr>)"
proof -
  obtain h p rest where e: "pk = (h, p)" "f = seal_frame h p @ rest" "ph_offset h = 12" "ph_len h \<noteq> 0"
      "unat (ph_len h) = length p" "length p \<le> 1588" "ph_throttle_cmd h = 0"
    using assms(1) by (auto elim!: frame_of_pktE)
  obtain h' where h': "decode_header f = Some h'" "h' = h\<lparr>ph_checksum := ph_checksum h'\<rparr>"
    using e(2) by (simp add: decode_seal_append)
  have fields: "ph_len h' = ph_len h" "ph_offset h' = 12" "ph_if_type h' = ph_if_type h" "ph_if_num h' = ph_if_num h"
      "ph_seq_num h' = ph_seq_num h" "ph_flags h' = ph_flags h" "ph_throttle_cmd h' = 0"
    using h'(2) e by (metis esp_payload_header.simps(1-22) esp_payload_header.surjective)+
  note ck = frame_checksum [OF assms(1) [unfolded e(1)] h'(1)]
  show ?thesis
    using h'(1) e(1,4-6) fields ck
    by (simp add: spi_hd_push_data_to_queue_def update_flow_ctrl_def is_valid_spi_hd_rx_packet_def
        spi_hd_push_pkt_to_queue_def spi_rx_handle_def Let_def)
qed

lemma hd_receives_flow:
  assumes "flow_cmd f" "12 \<le> length f"
  shows "\<exists>t. spi_hd_push_data_to_queue True rxbuff f st = Some (H_OK, [rxbuff], st\<lparr>hd_throttle := t\<rparr>)"
proof -
  obtain h where h: "decode_header f = Some h" using assms(2) decode_header_None_iff [of f] by fastforce
  then have "ph_throttle_cmd h \<noteq> 0" using assms(1) by (simp add: flow_cmd_def)
  moreover have "\<exists>t. st = st\<lparr>hd_throttle := t\<rparr>" by (rule exI [of _ "hd_throttle st"]) simp
  ultimately show ?thesis
    using h by (auto simp: spi_hd_push_data_to_queue_def update_flow_ctrl_def Let_def)
qed

lemma start_throttle_fields:
  "\<exists>th fl fs. hd_start_rx_data_throttling_if_needed nq high st = st\<lparr>sh_throttling := th, sh_flow := fl, sh_flow_sem := fs\<rparr>"
proof -
  have "st = st\<lparr>sh_throttling := sh_throttling st, sh_flow := sh_flow st, sh_flow_sem := sh_flow_sem st\<rparr>" by simp
  then show ?thesis
    unfolding hd_start_rx_data_throttling_if_needed_def trigger_flow_ctrl_def Let_def by metis
qed

lemma stop_throttle_fields:
  "\<exists>th fl fs. hd_stop_rx_data_throttling_if_needed nq low st = st\<lparr>sh_throttling := th, sh_flow := fl, sh_flow_sem := fs\<rparr>"
proof -
  have "st = st\<lparr>sh_throttling := sh_throttling st, sh_flow := sh_flow st, sh_flow_sem := sh_flow_sem st\<rparr>" by simp
  then show ?thesis
    unfolding hd_stop_rx_data_throttling_if_needed_def trigger_flow_ctrl_def Let_def by metis
qed

lemma slave_hd_receives:
  assumes "frame_of_pkt pk f" "n = 12 + length (snd pk)" "ph_flags (fst pk) AND FLAG_POWER_SAVE_STOPPED = 0"
  shows "\<exists>es th fl fs. spi_hd_rx_step True cfg rc (Some (b, f, n)) st =
    Some (st\<lparr>sh_events := es, sh_throttling := th, sh_flow := fl, sh_flow_sem := fs,
             sh_rx := prio_send (slave_rx_handle b pk f) (sh_rx st)\<rparr>)"
proof -
  obtain h p rest where e: "pk = (h, p)" "f = seal_frame h p @ rest" "ph_offset h = 12" "ph_len h \<noteq> 0"
      "unat (ph_len h) = length p" "length p \<le> 1588"
    using assms(1) by (auto elim!: frame_of_pktE)
  obtain h' where h': "decode_header f = Some h'" "h' = h\<lparr>ph_checksum := ph_checksum h'\<rparr>"
    using e(2) by (simp add: decode_seal_append)
  have fields: "ph_len h' = ph_len h" "ph_offset h' = 12" "ph_if_type h' = ph_if_type h" "ph_if_num h' = ph_if_num h"
      "ph_flags h' = ph_flags h"
    using h'(2) e by (metis esp_payload_header.simps(1-22) esp_payload_header.surjective)+
  note ck = frame_checksum [OF assms(1) [unfolded e(1)] h'(1)]
  have n: "n \<noteq> 0" "unat (of_nat n :: u16) = 12 + length p" "of_nat n = ph_len h + 12"
    using assms(2) e by (simp_all add: unat_of_nat_u16 word_unat_eq_iff unat_word_ariths)
  let ?st = "st\<lparr>sh_events := sh_events st @ rx_flag_event (ph_flags h)\<rparr>"
  obtain th fl fs where t: "hd_start_rx_data_throttling_if_needed (fst cfg) (snd cfg) ?st =
      ?st\<lparr>sh_throttling := th, sh_flow := fl, sh_flow_sem := fs\<rparr>"
    using start_throttle_fields by blast
  have "spi_hd_rx_step True cfg rc (Some (b, f, n)) st =
      Some (?st\<lparr>sh_throttling := th, sh_flow := fl, sh_flow_sem := fs,
             sh_rx := prio_send (slave_rx_handle b pk f) (sh_rx st)\<rparr>)"
    using h'(1) e(1,4-6) fields ck n t assms(3)
    by (simp add: spi_hd_rx_step_def slave_rx_handle_def Let_def)
  then show ?thesis by auto
qed

section \<open>Sending a packet\<close>

text \<open>
  The host's frame is the one of the full-duplex driver, without a sequence number. A packet that says the host woke
  up makes the co-processor restart its counter, so it is sent by a host that has restarted, and not here.
\<close>

definition hd_host_ok :: "interface_buffer_handle \<Rightarrow> bool" where
  "hd_host_ok bh = (host_ok bh \<and> bh_seq_num bh = 0 \<and> bh_flag bh AND FLAG_POWER_SAVE_STOPPED = 0)"

lemma spi_build_len:
  assumes "spi_build bh len sendbuf = Some (len', f)"
  shows "\<exists>h. decode_header f = Some h \<and> ph_len h = len'"
  using assms by (auto simp: spi_build_def bind_eq_Some_conv Let_def split: if_splits)

lemma hd_build_same:
  assumes "hd_host_ok bh" "decode_header sendbuf = Some zero_header"
  shows "spi_hd_build True bh (bh_payload_len bh) sendbuf = spi_build bh (bh_payload_len bh) sendbuf"
proof -
  obtain p where p: "bh_payload bh = Some p" using assms(1) by (auto simp: hd_host_ok_def host_ok_def split: option.splits)
  have n: "bh_payload_len bh \<noteq> 0" "min (unat (bh_payload_len bh)) 1588 = unat (bh_payload_len bh)"
    using assms(1) p by (auto simp: hd_host_ok_def host_ok_def)
  have z: "zero_header\<lparr>ph_len := a, ph_offset := b, ph_if_type := c, ph_if_num := d, ph_seq_num := 0, ph_flags := e\<rparr> =
      zero_header\<lparr>ph_len := a, ph_offset := b, ph_if_type := c, ph_if_num := d, ph_flags := e\<rparr>" for a b c d e
    by (simp add: zero_header_def)
  have s: "bh_seq_num bh = 0" using assms(1) by (simp add: hd_host_ok_def)
  show ?thesis
    unfolding spi_hd_build_def spi_build_def assms(2) Option.bind.bind_lunit Let_def s z
    using n p by (simp cong: if_cong)
qed

lemma hd_build_frame:
  assumes "hd_host_ok bh" "sendbuf = (if bh_zcopy bh = 0 then replicate 1600 0 else the (bh_payload bh))"
  shows "\<exists>f. spi_hd_build True bh (bh_payload_len bh) sendbuf = Some (ph_len (fst (host_pkt bh)), f) \<and>
    frame_of_pkt (host_pkt bh) f"
proof -
  have ok: "host_ok bh" using assms(1) by (simp add: hd_host_ok_def)
  have "decode_header sendbuf = Some zero_header"
    using assms(2) ok replicate_add [of 12 1588 "0 :: u8"]
    by (intro put_header_cleared) (auto simp: host_ok_def split: option.splits)
  then have same: "spi_hd_build True bh (bh_payload_len bh) sendbuf = spi_build bh (bh_payload_len bh) sendbuf"
    by (rule hd_build_same [OF assms(1)])
  obtain len f where f: "spi_build bh (bh_payload_len bh) sendbuf = Some (len, f)" "frame_of_pkt (host_pkt bh) f"
    using spi_build_frame [OF ok assms(2)] by blast
  obtain h p rest where e: "host_pkt bh = (h, p)" "f = seal_frame h p @ rest" using f(2) by (auto elim!: frame_of_pktE)
  have "len = ph_len h" using spi_build_len [OF f(1)] e(2) by (auto simp: decode_seal_append)
  then show ?thesis using same f e(1) by simp
qed

text \<open>The frame on the bus ends with the packet.\<close>

lemma frame_prefix:
  assumes "frame_of_pkt pk f"
  shows "mem_slice f 0 (unat (ph_len (fst pk)) + 12) = Some (seal_frame (fst pk) (snd pk))"
  using assms by (auto elim!: frame_of_pktE simp: mem_slice_def)

text \<open>The credit of the host: a single buffer is loaded at a time.\<close>

lemma fetch_one:
  assumes "hd_fetch_buffers 1 cnt n 0 rs = Some (k, a)" "\<forall>r \<in> set rs. fst r = 0 \<longrightarrow> snd r = reg" "reg - cnt = 0 \<or> reg - cnt = 1"
  shows "k = 0 \<and> a = 0 \<or> k \<noteq> 0 \<and> a = 1 \<and> reg - cnt = 1"
  using assms
proof (induction n arbitrary: rs)
  case (Suc n)
  then obtain r rs' where rs: "rs = r # rs'" by (cases rs) auto
  obtain c v where r: "r = (c, v)" by (cases r)
  show ?case
  proof (cases "c = 0 \<and> reg - cnt = 1")
    case True
    then have "reg \<noteq> cnt" by auto
    then show ?thesis using True Suc.prems by (auto simp: rs r spi_hd_get_tx_buffer_num_def)
  next
    case False
    then have "hd_fetch_buffers 1 cnt n 0 rs' = Some (k, a)"
      using Suc.prems by (cases "c = 0") (auto simp: rs r spi_hd_get_tx_buffer_num_def)
    then show ?thesis using Suc.IH Suc.prems(2,3) by (simp add: rs)
  qed
qed simp

text \<open>Unless the pool is empty, a packet is sent when there is a buffer for it and the bus takes it.\<close>

definition hd_sent :: "interface_buffer_handle \<Rightarrow> spi_hd_drv \<Rightarrow> spi_hd_drv" where
  "hd_sent bh st = st\<lparr>hd_bus := hd_bus st @ [seal_frame (fst (host_pkt bh)) (snd (host_pkt bh))], hd_tx_count := hd_tx_count st + 1\<rparr>"

lemma write_packet_eq:
  assumes "hd_host_ok bh" "hd_avail st = 0" "bh_zcopy bh = 0 \<longrightarrow> mem"
  shows "\<exists>fr. spi_hd_write_packet True mem regs wr bh st = do {
    (ok, avail) \<leftarrow> spi_hd_is_write_buffer_available 1 (hd_tx_count st) 0 regs;
    Some (if ok \<and> wr = 0 then (H_OK, fr, hd_sent bh (st\<lparr>hd_avail := avail\<rparr>)) else (H_FAIL, fr, st\<lparr>hd_avail := avail\<rparr>))
  }"
proof -
  have ok: "host_ok bh" using assms(1) by (simp add: hd_host_ok_def)
  then obtain p where p: "bh_payload bh = Some p" "bh_payload_len bh \<noteq> 0" "unat (bh_payload_len bh) \<le> 1588"
    by (cases "bh_payload_len bh = 0") (auto simp: host_ok_def split: option.splits)
  define sendbuf where "sendbuf = (if bh_zcopy bh = 0 then replicate 1600 0 else the (bh_payload bh))"
  obtain f where f: "spi_hd_build True bh (bh_payload_len bh) sendbuf = Some (ph_len (fst (host_pkt bh)), f)"
      "frame_of_pkt (host_pkt bh) f"
    using hd_build_frame [OF assms(1) sendbuf_def] by blast
  have l: "unat (ph_len (fst (host_pkt bh))) \<le> 1588" using f(2) by (auto elim!: frame_of_pktE)
  have b1: "spi_hd_build True bh (bh_payload_len bh) p = Some (ph_len (fst (host_pkt bh)), f)" if "bh_zcopy bh \<noteq> 0"
    using f(1) that p by (simp add: sendbuf_def)
  have b2: "spi_hd_build True bh (bh_payload_len bh) (replicate 1600 0) = Some (ph_len (fst (host_pkt bh)), f)"
    if "bh_zcopy bh = 0"
    using f(1) that by (simp add: sendbuf_def)
  have one: "(1611 + unat (ph_len (fst (host_pkt bh)))) div 1600 = 1" "(1599 + (unat (ph_len (fst (host_pkt bh))) + 12)) div 1600 = 1"
    using l by simp_all
  let ?fr = "hd_write_done bh (ph_len (fst (host_pkt bh)))
          (if bh_zcopy bh = 0 then [F_Send] else if bh_free bh \<and> bh_payload bh \<noteq> None then [F_Payload] else [])"
  have e: "spi_hd_write_packet True mem regs wr bh st = do {
        (ok, avail) \<leftarrow> spi_hd_is_write_buffer_available 1 (hd_tx_count st) 0 regs;
        if \<not> ok then Some (H_FAIL, ?fr, st\<lparr>hd_avail := avail\<rparr>)
        else if wr \<noteq> 0 then Some (H_FAIL, ?fr, st\<lparr>hd_avail := avail\<rparr>)
        else Some (H_OK, ?fr, hd_sent bh (st\<lparr>hd_avail := avail\<rparr>))
      }"
    using assms(3) p
    by (simp add: spi_hd_write_packet_def hd_sent_def Let_def b1 b2 one frame_prefix [OF f(2)] assms(2)
        cong: if_cong del: One_nat_def)
  show ?thesis
    unfolding e by (intro exI [of _ ?fr] arg_cong [where f = "Option.bind _"]) (auto simp: fun_eq_iff)
qed

lemma write_packet_cases:
  assumes "spi_hd_write_packet True mem regs wr bh st = Some (r, fr, st')" "hd_host_ok bh" "hd_avail st = 0"
    and "\<forall>x \<in> set regs. fst x = 0 \<longrightarrow> snd x = reg" "reg - hd_tx_count st = 0 \<or> reg - hd_tx_count st = 1"
  shows "st' = st \<or> reg - hd_tx_count st = 1 \<and> st' = hd_sent bh st"
proof (cases "bh_zcopy bh = 0 \<longrightarrow> mem")
  case False
  have "bh_payload_len bh \<noteq> 0"
    using assms(2) by (cases "bh_payload_len bh = 0") (auto simp: hd_host_ok_def host_ok_def split: option.splits)
  then show ?thesis using assms(1) False by (simp add: spi_hd_write_packet_def)
next
  case True
  have av: "a = 0 \<and> (b \<longrightarrow> reg - hd_tx_count st = 1)"
    if b: "spi_hd_is_write_buffer_available 1 (hd_tx_count st) 0 regs = Some (b, a)" for a b
  proof -
    obtain k a' where k: "hd_fetch_buffers 1 (hd_tx_count st) 25 0 regs = Some (k, a')"
        "b = (k \<noteq> 0)" "a = (if a' \<ge> 1 then a' - 1 else a')"
      using b by (auto simp: spi_hd_is_write_buffer_available_def split: option.splits)
    show ?thesis using fetch_one [OF k(1) assms(4,5)] k(2,3) by auto
  qed
  have st0: "st\<lparr>hd_avail := 0\<rparr> = st" using assms(3) by (cases st) simp
  obtain b a where ba: "spi_hd_is_write_buffer_available 1 (hd_tx_count st) 0 regs = Some (b, a)"
      "st' = (if b \<and> wr = 0 then hd_sent bh (st\<lparr>hd_avail := a\<rparr>) else st\<lparr>hd_avail := a\<rparr>)"
  proof -
    obtain fr' where "(do {
        (ok, avail) \<leftarrow> spi_hd_is_write_buffer_available 1 (hd_tx_count st) 0 regs;
        Some (if ok \<and> wr = 0 then (H_OK, fr', hd_sent bh (st\<lparr>hd_avail := avail\<rparr>)) else (H_FAIL, fr', st\<lparr>hd_avail := avail\<rparr>))
      }) = Some (r, fr, st')"
      using write_packet_eq [OF assms(2,3) True, of regs wr] assms(1) by auto
    then show thesis using that by (auto simp: bind_eq_Some_conv split: if_splits)
  qed
  then show ?thesis using av [OF ba(1)] st0 by auto
qed

lemma write_packet_sent:
  assumes "hd_host_ok bh" "hd_avail st = 0" "reg - hd_tx_count st = 1"
  shows "\<exists>fr. spi_hd_write_packet True True [(0, reg)] 0 bh st = Some (H_OK, fr, hd_sent bh st)"
proof -
  have "spi_hd_is_write_buffer_available 1 (hd_tx_count st) 0 [(0, reg)] = Some (True, 0)"
    using assms(3) by (simp add: spi_hd_is_write_buffer_available_def spi_hd_get_tx_buffer_num_def numeral_eq_Suc)
  moreover have "st\<lparr>hd_avail := 0\<rparr> = st" using assms(2) by (cases st) simp
  ultimately show ?thesis using write_packet_eq [OF assms(1,2), of True "[(0, reg)]" 0] by simp
qed

lemma slave_hd_frame:
  assumes "slave_ok bh"
  shows "spi_hd_write_frame True 0 bh = Some (seal_frame (tx_hdr bh) (tx_payload bh))"
    "12 + unat (bh_payload_len bh) \<le> 1600"
proof -
  obtain p where s: "bh_payload bh = Some p" "bh_payload_len bh \<noteq> 0" "pkt_ok (slave_pkt bh)"
      "mem_slice p 0 (unat (bh_payload_len bh)) = Some (tx_payload bh)"
      "length (tx_payload bh) = unat (bh_payload_len bh)" "length (tx_payload bh) \<le> 1588"
    using slave_okD [OF assms(1)] .
  show "12 + unat (bh_payload_len bh) \<le> 1600" using s by simp
  define h where "h = tx_hdr bh"
  have hd: "zero_header\<lparr>ph_if_type := ucast (bh_if_type bh), ph_if_num := ucast (bh_if_num bh), ph_len := bh_payload_len bh,
      ph_offset := of_nat 12, ph_seq_num := bh_seq_num bh, ph_flags := bh_flag bh, ph_throttle_cmd := 0\<rparr> = h"
    by (simp add: h_def tx_hdr_def zero_header_def)
  let ?d = "tx_payload bh"
  have c0: "h\<lparr>ph_checksum := 0\<rparr> = h" by (simp add: h_def tx_hdr_def zero_header_def)
  have nz: "unat (bh_payload_len bh) \<noteq> 0" using s(2) by (simp add: unat_eq_0)
  have poked: "poke 12 ?d (put_header h (replicate (unat (bh_payload_len bh) + 12) 0)) = Some (encode_header h @ ?d)"
    using s(5) by (simp add: poke_def put_header_def)
  have u: "unat (of_nat 12 + bh_payload_len bh :: u16) = 12 + unat (bh_payload_len bh)"
    using s(5,6) by (subst unat_word_ariths) simp
  have ck: "compute_checksum (encode_header h @ ?d) (of_nat 12 + bh_payload_len bh) = Some (octet_sum (encode_header h @ ?d))"
    using u s(5) by (subst compute_checksum_eq) simp_all
  show "spi_hd_write_frame True 0 bh = Some (seal_frame (tx_hdr bh) (tx_payload bh))"
    unfolding spi_hd_write_frame_def hd Let_def h_def [symmetric]
    using s(1,4) nz poked ck c0 by (simp add: seal_frame_def put_header_def Let_def del: octet_sum_append of_nat_numeral)
qed

lemma flow_frame:
  assumes "flow \<noteq> 0"
  shows "\<exists>f. spi_hd_write_frame True flow zero_handle = Some f \<and> length f = 12 \<and> flow_cmd f"
proof -
  define h where "h = zero_header\<lparr>ph_offset := 12, ph_throttle_cmd := flow\<rparr>"
  have hd: "zero_header\<lparr>ph_if_type := ucast (bh_if_type zero_handle), ph_if_num := ucast (bh_if_num zero_handle),
      ph_len := bh_payload_len zero_handle, ph_offset := of_nat 12, ph_seq_num := bh_seq_num zero_handle,
      ph_flags := bh_flag zero_handle, ph_throttle_cmd := flow\<rparr> = h"
    by (simp add: h_def zero_header_def zero_handle_def)
  have poked: "poke 12 [] (put_header h (replicate (0 + 12) 0)) = Some (encode_header h)"
    by (simp add: poke_def put_header_def)
  have ck: "compute_checksum (encode_header h) (of_nat 12 + 0) = Some (octet_sum (encode_header h))"
    by (subst compute_checksum_eq) simp_all
  have z: "bh_payload_len zero_handle = 0" by (simp add: zero_handle_def)
  show ?thesis
    unfolding spi_hd_write_frame_def Let_def hd unfolding z unat_0
    using poked ck assms
    by (simp add: put_header_def flow_cmd_def h_def decode_encode_nil zero_header_def del: of_nat_numeral)
qed

section \<open>The two drivers with the peripheral\<close>

text \<open>
  \<open>hl_tx\<close> and \<open>hl_rx\<close> are loaded, \<open>hl_tx_done\<close> and \<open>hl_rx_done\<close> finished but not yet fetched by the co-processor,
  \<open>hl_held\<close> the receive buffers its main module has read and not given back. \<open>hl_overrun\<close>: the host has written
  while no buffer was loaded.
\<close>

record hd_link =
  hl_host :: spi_hd_drv
  hl_slave :: slave_spi_hd
  hl_tx :: "(nat \<times> bytes) option"
  hl_tx_done :: "nat list"
  hl_rx :: "nat option"
  hl_rx_done :: "(nat \<times> bytes) list"
  hl_held :: "nat list"
  hl_overrun :: bool

text \<open>The peripheral loads a transaction; the rising edge of the data-ready line interrupts the host.\<close>

definition hd_load_tx :: "nat \<Rightarrow> hd_link \<Rightarrow> hd_link option" where
  "hd_load_tx lim c =
     (case (hl_tx c, sh_tx_q (hl_slave c)) of
        (None, t # ts) \<Rightarrow>
          let s = hl_slave c; s' = cb_tx_ready (length (snd t)) (s\<lparr>sh_tx_q := ts\<rparr>)
          in Some (c\<lparr>hl_tx := Some t, hl_slave := s',
               hl_host := (if \<not> sh_data_ready s \<and> sh_data_ready s' then hd_gpio_dr_isr_handler lim (hl_host c) else hl_host c)\<rparr>)
      | _ \<Rightarrow> None)"

definition hd_load_rx :: "hd_link \<Rightarrow> hd_link option" where
  "hd_load_rx c =
     (case (hl_rx c, sh_rx_q (hl_slave c)) of
        (None, b # bs) \<Rightarrow> Some (c\<lparr>hl_rx := Some b, hl_slave := cb_rx_ready ((hl_slave c)\<lparr>sh_rx_q := bs\<rparr>)\<rparr>)
      | _ \<Rightarrow> None)"

text \<open>A turn of the host's write task, of its read task, and of the two tasks of the co-processor.\<close>

definition hd_write :: "bool \<Rightarrow> (int \<times> u32) list \<Rightarrow> int \<Rightarrow> hd_link \<Rightarrow> hd_link option" where
  "hd_write mem regs wr c = do {
     (_, h) \<leftarrow> spi_hd_write_step True mem regs wr (hl_host c);
     Some (case drop (length (hd_bus (hl_host c))) (hd_bus h) of
             [] \<Rightarrow> c\<lparr>hl_host := h\<rparr>
           | f # _ \<Rightarrow> (case hl_rx c of
                 None \<Rightarrow> c\<lparr>hl_host := h, hl_overrun := True\<rparr>
               | Some b \<Rightarrow> c\<lparr>hl_host := h, hl_rx := None, hl_rx_done := hl_rx_done c @ [(b, f)]\<rparr>))
   }"

definition hd_read :: "nat \<Rightarrow> hd_link \<Rightarrow> hd_link option" where
  "hd_read rxbuff c = do {
     (cmd9, n, _, h) \<leftarrow> spi_hd_read_step True True (Some (sh_reg_tx (hl_slave c))) rxbuff
       (\<lambda>n. Some (case hl_tx c of None \<Rightarrow> [] | Some t \<Rightarrow> take n (snd t))) (hl_host c);
     let c = c\<lparr>hl_host := h, hl_slave := (if cmd9 then cb_cmd9_recv (hl_slave c) else hl_slave c)\<rparr>;
     Some (if n = 0 then c else case hl_tx c of
             None \<Rightarrow> c
           | Some t \<Rightarrow> c\<lparr>hl_tx := None, hl_tx_done := hl_tx_done c @ [fst t]\<rparr>)
   }"

definition hd_reclaim :: "hd_link \<Rightarrow> hd_link option" where
  "hd_reclaim c =
     (case hl_tx_done c of
        [] \<Rightarrow> None
      | b # bs \<Rightarrow> Some (c\<lparr>hl_tx_done := bs, hl_slave := snd (spi_hd_tx_done_step (Some b) (hl_slave c))\<rparr>))"

text \<open>\<open>stale\<close>: the octets of earlier packets behind the received ones.\<close>

definition hd_rx_turn :: "nat \<times> u8 \<Rightarrow> bytes \<Rightarrow> hd_link \<Rightarrow> hd_link option" where
  "hd_rx_turn cfg stale c =
     (case hl_rx_done c of
        [] \<Rightarrow> None
      | (b, f) # fs \<Rightarrow> do {
          s \<leftarrow> spi_hd_rx_step True cfg 0 (Some (b, f @ drop (length f) stale, length f)) (hl_slave c);
          Some (c\<lparr>hl_slave := s, hl_rx_done := fs\<rparr>)
        })"

text \<open>
  Runs of the link from the start-up event on: the packets given to the host driver, those its write task has dropped,
  those the co-processor has read, those accepted by the driver of the co-processor, and those the host has dispatched.
  A reading of the register that succeeds gives its value. The bus may refuse a write; its reads succeed. The
  co-processor's operations may find no buffer (\<open>sb = 0\<close>) or be refused by the peripheral (\<open>rc\<close>).
\<close>

inductive hd_run :: "pkt list \<Rightarrow> pkt list \<Rightarrow> pkt list \<Rightarrow> pkt list \<Rightarrow> pkt list \<Rightarrow> hd_link \<Rightarrow> bool" where
  Hd_Start: "spi_hd_bus_init ok spi_hd_boot = Some h \<Longrightarrow> esp_spi_hd_init nq ok' ctrl slave_spi_hd_boot = Some s \<Longrightarrow>
    length tlvs \<le> 255 \<Longrightarrow> spi_hd_startup_event True sb 0 tlvs (spi_hd_preload bufs s) = Some s' \<Longrightarrow>
    hd_run [] [] [] [untyped (startup_pkt tlvs)] []
      \<lparr>hl_host = h, hl_slave = s', hl_tx = None, hl_tx_done = [], hl_rx = None, hl_rx_done = [], hl_held = [],
       hl_overrun = False\<rparr>"
| Hd_Host_Tx: "hd_run hs dp hr ss sr c \<Longrightarrow> host_ok bh \<Longrightarrow> bh_flag bh AND FLAG_POWER_SAVE_STOPPED = 0 \<Longrightarrow>
    spi_hd_esp_hosted_tx True (bh_if_type bh) (bh_if_num bh) (bh_payload bh) (bh_payload_len bh) (bh_zcopy bh) (bh_priv bh)
      (bh_free bh) (bh_flag bh) (hl_host c) = (r, fr, h') \<Longrightarrow>
    hd_run (hs @ [host_pkt bh]) dp hr ss sr (c\<lparr>hl_host := h'\<rparr>)"
| Hd_Host_Write: "hd_run hs dp hr ss sr c \<Longrightarrow> prio_recv (hd_to_slave (hl_host c)) = (Some bh, q) \<Longrightarrow>
    \<forall>x \<in> set regs. fst x = 0 \<longrightarrow> snd x = sh_reg_rx (hl_slave c) \<Longrightarrow> hd_write mem regs wr c = Some c' \<Longrightarrow>
    hd_run hs (if hd_bus (hl_host c') = hd_bus (hl_host c) then dp @ [host_pkt bh] else dp) hr ss sr c'"
| Hd_Host_Read: "hd_run hs dp hr ss sr c \<Longrightarrow> hd_read rxbuff c = Some c' \<Longrightarrow> hd_run hs dp hr ss sr c'"
| Hd_Host_Rx: "hd_run hs dp hr ss sr c \<Longrightarrow>
    spi_hd_process_rx_step mem sbuf qok chan (hl_host c, ll) = Some (act, fr, h', ll') \<Longrightarrow>
    prio_recv (hd_from_slave (hl_host c)) = (Some bh, q) \<Longrightarrow>
    hd_run hs dp hr ss (sr @ [slave_pkt bh]) (c\<lparr>hl_host := h'\<rparr>)"
| Hd_Slave_Tx: "hd_run hs dp hr ss sr c \<Longrightarrow> slave_ok bh \<Longrightarrow>
    esp_spi_hd_write True sb rc True 0 (Some bh) (hl_slave c) = Some (r, s') \<Longrightarrow>
    hd_run hs dp hr (if 0 \<le> r then ss @ [slave_pkt bh] else ss) sr (c\<lparr>hl_slave := s'\<rparr>)"
| Hd_Slave_Flow: "hd_run hs dp hr ss sr c \<Longrightarrow> flow_ctrl_step (hl_slave c) = Some (cmd, s) \<Longrightarrow>
    s' = s \<or> cmd \<noteq> 0 \<and> (\<exists>r. esp_spi_hd_write True sb rc True cmd (Some zero_handle) s = Some (r, s')) \<Longrightarrow>
    hd_run hs dp hr ss sr (c\<lparr>hl_slave := s'\<rparr>)"
| Hd_Slave_Rx: "hd_run hs dp hr ss sr c \<Longrightarrow> esp_spi_hd_read cfg True (hl_slave c) = Some ((r, Some bh), s') \<Longrightarrow>
    hd_run hs dp (hr @ [slave_rx_pkt bh]) ss sr (c\<lparr>hl_slave := s', hl_held := hl_held c @ [bh_priv bh]\<rparr>)"
| Hd_Slave_Done: "hd_run hs dp hr ss sr c \<Longrightarrow> b \<in> set (hl_held c) \<Longrightarrow>
    hd_run hs dp hr ss sr (c\<lparr>hl_held := remove1 b (hl_held c), hl_slave := spi_hd_read_done rc b (hl_slave c)\<rparr>)"
| Hd_Load_Tx: "hd_run hs dp hr ss sr c \<Longrightarrow> hd_load_tx (Suc lim) c = Some c' \<Longrightarrow> hd_run hs dp hr ss sr c'"
| Hd_Load_Rx: "hd_run hs dp hr ss sr c \<Longrightarrow> hd_load_rx c = Some c' \<Longrightarrow> hd_run hs dp hr ss sr c'"
| Hd_Reclaim: "hd_run hs dp hr ss sr c \<Longrightarrow> hd_reclaim c = Some c' \<Longrightarrow> hd_run hs dp hr ss sr c'"
| Hd_Rx_Turn: "hd_run hs dp hr ss sr c \<Longrightarrow> length stale = 1600 \<Longrightarrow> hd_rx_turn cfg stale c = Some c' \<Longrightarrow>
    hd_run hs dp hr ss sr c'"

section \<open>The invariant\<close>

text \<open>The counters of both sides, and the signal that tells the host of a loaded transaction.\<close>

definition hd_counters :: "hd_link \<Rightarrow> bool" where
  "hd_counters c = (let h = hl_host c; s = hl_slave c in
     sh_reg_rx s = sh_rx_num s \<and> sh_rx_num s - hd_tx_count h = (if hl_rx c = None then 0 else 1) \<and> hd_avail h = 0 \<and>
     sh_reg_tx s = sh_tx_size s \<and> take_bit 24 (sh_tx_size s) = sh_tx_size s \<and> take_bit 24 (hd_rx_count h) = hd_rx_count h \<and>
     take_bit 24 (sh_tx_size s - hd_rx_count h) = (case hl_tx c of None \<Rightarrow> 0 | Some t \<Rightarrow> of_nat (length (snd t))) \<and>
     (sh_data_ready s \<longleftrightarrow> hl_tx c \<noteq> None) \<and> hd_dr_sem h = (if hl_tx c = None then 0 else 1) \<and> \<not> hl_overrun c \<and> sh_state s = IF_ACTIVE)"

definition hd_txs :: "hd_link \<Rightarrow> (nat \<times> bytes) list" where
  "hd_txs c = (case hl_tx c of None \<Rightarrow> [] | Some t \<Rightarrow> [t]) @ sh_tx_q (hl_slave c)"

definition sent_frame :: "bytes \<Rightarrow> bool" where
  "sent_frame f = (\<exists>pk. pkt_ok pk \<and> f = seal_frame (fst pk) (snd pk) \<and> ph_flags (fst pk) AND FLAG_POWER_SAVE_STOPPED = 0)"

definition hd_queues :: "hd_link \<Rightarrow> bool" where
  "hd_queues c = (let h = hl_host c; s = hl_slave c in
     sorted_q host_pkt (hd_to_slave h) \<and> sorted_q slave_pkt (hd_from_slave h) \<and> sorted_q slave_rx_pkt (sh_rx s) \<and>
     (\<forall>b \<in> set (q_all (hd_to_slave h)). hd_host_ok b) \<and> (\<forall>t \<in> set (hd_txs c). good_tx (snd t)) \<and>
     (\<forall>w \<in> set (hl_rx_done c). sent_frame (snd w)) \<and> hd_tx_needed h)"

text \<open>The packets under way in both directions.\<close>

definition tx_pkts :: "(nat \<times> bytes) list \<Rightarrow> pkt list" where
  "tx_pkts ts = map (\<lambda>t. untyped (frame_pkt (hd_pad (snd t)))) (filter (\<lambda>t. \<not> flow_cmd (snd t)) ts)"

definition hd_up :: "hd_link \<Rightarrow> pkt list" where
  "hd_up c = map slave_pkt (q_all (hd_from_slave (hl_host c))) @ tx_pkts (hd_txs c)"

definition hd_down :: "hd_link \<Rightarrow> pkt list" where
  "hd_down c = map slave_rx_pkt (q_all (sh_rx (hl_slave c))) @ map (\<lambda>w. frame_pkt (snd w)) (hl_rx_done c)"

definition hd_fifo_up :: "pkt list \<Rightarrow> pkt list \<Rightarrow> hd_link \<Rightarrow> bool" where
  "hd_fifo_up ss sr c = (\<forall>k. of_prio k ss = of_prio k sr @ of_prio k (hd_up c))"

definition hd_fifo_down :: "pkt list \<Rightarrow> pkt list \<Rightarrow> pkt list \<Rightarrow> hd_link \<Rightarrow> bool" where
  "hd_fifo_down hs dp hr c = (\<forall>k. \<exists>zs. of_prio k hs = zs @ of_prio k (map host_pkt (q_all (hd_to_slave (hl_host c)))) \<and>
     zs \<in> shuffles (of_prio k dp) (of_prio k hr @ of_prio k (hd_down c)))"

text \<open>The buffers of the co-processor: a receive buffer is in one place, a transmit buffer has its unit of the semaphore.\<close>

definition rx_buffers :: "hd_link \<Rightarrow> nat multiset" where
  "rx_buffers c = mset (sh_rx_q (hl_slave c)) + mset (case hl_rx c of None \<Rightarrow> [] | Some b \<Rightarrow> [b]) +
     mset (map fst (hl_rx_done c)) + image_mset bh_priv (mset (q_all (sh_rx (hl_slave c)))) + mset (hl_held c)"

definition tx_buffers :: "hd_link \<Rightarrow> nat" where
  "tx_buffers c = sh_tx_sem (hl_slave c) + length (hd_txs c) + length (hl_tx_done c)"

lemma shuffles_snoc:
  "zs \<in> shuffles xs ys \<Longrightarrow> zs @ [a] \<in> shuffles (xs @ [a]) ys"
  "zs \<in> shuffles xs ys \<Longrightarrow> zs @ [a] \<in> shuffles xs (ys @ [a])"
proof -
  show l: "zs \<in> shuffles xs ys \<Longrightarrow> zs @ [a] \<in> shuffles (xs @ [a]) ys" for xs ys :: "'a list"
  proof (induction xs ys arbitrary: zs rule: shuffles.induct)
    case (1 ys)
    have "ys @ [a] \<in> shuffles [a] ys" by (induction ys) auto
    then show ?case using 1 by simp
  qed auto
  show "zs \<in> shuffles xs ys \<Longrightarrow> zs @ [a] \<in> shuffles xs (ys @ [a])"
    using l [of ys xs] by (simp add: shuffles_commutes)
qed

definition hd_inv :: "pkt list \<Rightarrow> pkt list \<Rightarrow> pkt list \<Rightarrow> pkt list \<Rightarrow> pkt list \<Rightarrow> hd_link \<Rightarrow> bool" where
  "hd_inv hs dp hr ss sr c = (hd_counters c \<and> hd_queues c \<and> hd_fifo_up ss sr c \<and> hd_fifo_down hs dp hr c)"

lemmas hd_inv_defs = hd_inv_def hd_counters_def hd_queues_def hd_fifo_up_def hd_fifo_down_def hd_up_def hd_down_def hd_txs_def

section \<open>Start\<close>

lemma preload_fields: "\<exists>q es. spi_hd_preload bufs s = s\<lparr>sh_rx_q := q, sh_events := es\<rparr>"
proof -
  have "\<exists>q. fold (\<lambda>(b, rc). spi_hd_read_done rc b) bufs s = s\<lparr>sh_rx_q := q\<rparr>"
  proof (induction bufs arbitrary: s)
    case Nil
    show ?case by (rule exI [of _ "sh_rx_q s"]) simp
  next
    case (Cons a bufs)
    have "\<exists>q. spi_hd_read_done rc b s = s\<lparr>sh_rx_q := q\<rparr>" for rc b
    proof (cases "rc = 0")
      case False
      then show ?thesis by (intro exI [of _ "sh_rx_q s"]) (simp add: spi_hd_read_done_def)
    qed (auto simp: spi_hd_read_done_def)
    then obtain q where q: "(\<lambda>(b, rc). spi_hd_read_done rc b) a s = s\<lparr>sh_rx_q := q\<rparr>" by (cases a) auto
    obtain q' where "fold (\<lambda>(b, rc). spi_hd_read_done rc b) bufs (s\<lparr>sh_rx_q := q\<rparr>) = s\<lparr>sh_rx_q := q\<rparr>\<lparr>sh_rx_q := q'\<rparr>"
      using Cons.IH by blast
    then show ?case using q by auto
  qed
  then obtain q where "fold (\<lambda>(b, rc). spi_hd_read_done rc b) bufs s = s\<lparr>sh_rx_q := q\<rparr>" by blast
  then show ?thesis
    unfolding spi_hd_preload_def by (intro exI [of _ q] exI [of _ "sh_events s @ [ESP_OPEN_DATA_PATH]"]) simp
qed

lemma hd_startup_pkt:
  assumes "length tlvs \<le> 255" "spi_hd_startup_frame True tlvs = Some f"
  shows "good_tx f" "frame_of_pkt (startup_pkt tlvs) (hd_pad f)"
proof -
  let ?d = "ESP_PRIV_EVENT_INIT # of_nat (length tlvs) # tlvs"
  define h where "h = zero_header\<lparr>ph_if_type := ucast (if_code ESP_PRIV_IF), ph_offset := of_nat 12,
    ph_pkt_type := ESP_PACKET_TYPE_EVENT, ph_len := of_nat (length tlvs) + 2\<rparr>"
  have e: "startup_pkt tlvs = (h, ?d)" unfolding startup_pkt_def h_def by (simp only: if_code.simps of_nat_add of_nat_numeral) simp
  have u8: "(ucast (of_nat (length tlvs) :: u16) :: u8) = of_nat (length tlvs)"
    using assms by (simp only: unsigned_of_nat) (simp add: take_bit_nat_eq_self)
  have len: "ph_len h = of_nat (length ?d)" unfolding h_def by (simp only: list.size of_nat_add of_nat_1 esp_payload_header.simps) simp
  then have ok: "pkt_ok (h, ?d)" using assms by (simp add: pkt_ok_def h_def zero_header_def)
  let ?z = "replicate (500 - length ?d) 0"
  have ld: "length ?d = length tlvs + 2" by simp
  have a: "(of_nat (length tlvs) + 2 :: u16) = of_nat (length tlvs + 2)" by (simp only: of_nat_add of_nat_numeral)
  have u: "unat (of_nat (length tlvs) + 2 :: u16) = length ?d"
    using assms(1) unfolding a ld by (subst unat_of_nat_u16) simp_all
  have poked: "poke 12 ?d (put_header h (replicate 512 0)) = Some (encode_header h @ ?d @ ?z)"
    using assms(1) by (simp add: poke_def put_header_def)
  have u2: "unat (of_nat (length tlvs) + 2 + of_nat 12 :: u16) = 12 + length ?d"
    using u assms(1) by (subst unat_word_ariths) simp
  have ck: "compute_checksum (encode_header h @ ?d @ ?z) (of_nat (length tlvs) + 2 + of_nat 12) =
      Some (octet_sum (encode_header h @ ?d))"
    using u2 assms(1) by (subst compute_checksum_eq) simp_all
  have c0: "h\<lparr>ph_checksum := 0\<rparr> = h" by (simp add: h_def zero_header_def)
  have seal: "put_header (h\<lparr>ph_checksum := octet_sum (encode_header h @ ?d)\<rparr>) (encode_header h @ ?d @ ?z) = seal_frame h ?d @ ?z"
    by (simp add: put_header_def seal_frame_def c0 Let_def del: octet_sum_append octet_sum_Cons)
  define m where "m = (if (length ?d + 12) mod 4 = 0 then length ?d + 12 else length ?d + 12 + (4 - (length ?d + 12) mod 4))"
  have m: "12 + length ?d \<le> m" "m \<le> 272" using assms(1) unfolding m_def ld by presburger+
  have f: "f = take m (seal_frame h ?d @ ?z)"
    using assms(2) poked ck seal u
    unfolding spi_hd_startup_frame_def Let_def u8 h_def [symmetric]
    by (auto simp: mem_slice_def m_def split: if_splits simp del: octet_sum_append octet_sum_Cons append.simps)
  have lf: "length f = m" using f m assms(1) by simp
  have "hd_pad f = seal_frame h ?d @ replicate (1588 - length ?d) 0"
    using f m assms(1) lf by (simp add: hd_pad_def replicate_add [symmetric])
  moreover have "length (replicate (1588 - length ?d) 0 :: bytes) = 1588 - length ?d" by simp
  ultimately show p: "frame_of_pkt (startup_pkt tlvs) (hd_pad f)"
    unfolding e by (metis frame_of_pkt_intro [OF ok])
  show "good_tx f" using p frame_pkt_eq [OF p] lf m by (simp add: good_tx_def)
qed

lemma startup_good:
  assumes "length tlvs \<le> 255" "spi_hd_startup_event True sb 0 tlvs s = Some s'"
  obtains f where "s' = s\<lparr>sh_tx_sem := sh_tx_sem s - 1, sh_tx_q := sh_tx_q s @ [(sb, f)]\<rparr>" "good_tx f"
    "frame_of_pkt (startup_pkt tlvs) (hd_pad f)" "sh_tx_sem s \<noteq> 0"
  using assms hd_startup_pkt [OF assms(1)]
  by (auto simp: spi_hd_startup_event_def bind_eq_Some_conv Let_def split: if_splits)

lemma tx_pkts_simps [simp]:
  "tx_pkts [] = []" "tx_pkts (xs @ ys) = tx_pkts xs @ tx_pkts ys"
  by (simp_all add: tx_pkts_def)

lemma tx_pkts_one:
  assumes "frame_of_pkt pk (hd_pad f)" "12 \<le> length f"
  shows "tx_pkts [(b, f)] = [untyped pk]"
  using assms pkt_no_flow [OF assms(1)] frame_pkt_eq(1) [OF assms(1)] by (simp add: tx_pkts_def flow_cmd_pad)

lemma inv_hd_start:
  assumes "spi_hd_bus_init ok spi_hd_boot = Some h" "esp_spi_hd_init nq ok' ctrl slave_spi_hd_boot = Some s"
    "length tlvs \<le> 255" "spi_hd_startup_event True sb 0 tlvs (spi_hd_preload bufs s) = Some s'"
  shows "hd_inv [] [] [] [untyped (startup_pkt tlvs)] []
      \<lparr>hl_host = h, hl_slave = s', hl_tx = None, hl_tx_done = [], hl_rx = None, hl_rx_done = [], hl_held = [],
       hl_overrun = False\<rparr>"
proof -
  have h: "h = spi_hd_boot" using assms(1) by (auto simp: spi_hd_bus_init_def spi_hd_boot_def split: if_splits)
  have s: "s = slave_spi_hd_boot\<lparr>sh_tx_sem := nq, sh_state := IF_ACTIVE\<rparr>"
    using assms(2) by (auto simp: esp_spi_hd_init_def slave_spi_hd_boot_def split: if_splits)
  obtain q es where q: "spi_hd_preload bufs s = s\<lparr>sh_rx_q := q, sh_events := es\<rparr>" using preload_fields by blast
  obtain f where f: "s' = (s\<lparr>sh_rx_q := q, sh_events := es\<rparr>)\<lparr>sh_tx_sem := nq - 1, sh_tx_q := [(sb, f)]\<rparr>"
      "good_tx f" "frame_of_pkt (startup_pkt tlvs) (hd_pad f)"
    using startup_good [OF assms(3,4)] unfolding q by (auto simp: s slave_spi_hd_boot_def)
  have "12 \<le> length f" using f(2) by (simp add: good_tx_def)
  then show ?thesis
    using f sorted_q_empty tx_pkts_one [OF f(3)]
    by (simp add: hd_inv_defs h spi_hd_boot_def s slave_spi_hd_boot_def Let_def)
qed

section \<open>Steps of the host\<close>

lemma inv_hd_host_tx:
  assumes "hd_inv hs dp hr ss sr c" "host_ok bh" "bh_flag bh AND FLAG_POWER_SAVE_STOPPED = 0"
    "spi_hd_esp_hosted_tx True (bh_if_type bh) (bh_if_num bh) (bh_payload bh) (bh_payload_len bh) (bh_zcopy bh) (bh_priv bh)
      (bh_free bh) (bh_flag bh) (hl_host c) = (r, fr, h')"
  shows "hd_inv (hs @ [host_pkt bh]) dp hr ss sr (c\<lparr>hl_host := h'\<rparr>)"
proof -
  let ?h = "hl_host c" and ?b = "bh\<lparr>bh_seq_num := 0\<rparr>"
  have z: "zero_handle\<lparr>bh_zcopy := bh_zcopy bh, bh_if_type := bh_if_type bh, bh_if_num := bh_if_num bh,
      bh_payload_len := bh_payload_len bh, bh_payload := bh_payload bh, bh_priv := bh_priv bh, bh_free := bh_free bh,
      bh_flag := bh_flag bh\<rparr> = ?b"
    by (cases bh) (simp add: zero_handle_def)
  have "bh_payload bh \<noteq> None" "bh_payload_len bh \<noteq> 0" "unat (bh_payload_len bh) \<le> 1588"
    using assms(2) by (cases "bh_payload_len bh = 0"; auto simp: host_ok_def split: option.splits)+
  then have h': "h' = ?h\<lparr>hd_to_slave := prio_send ?b (hd_to_slave ?h)\<rparr>"
    using assms(4) unfolding spi_hd_esp_hosted_tx_def z Let_def by auto
  have ok: "hd_host_ok ?b" "host_pkt ?b = host_pkt bh" using assms(2,3) by (simp_all add: hd_host_ok_def)
  have pr: "pkt_prio (host_pkt ?b) = prio_of (bh_if_type ?b)"
    using host_pkt_prio [OF assms(2)] ok(2) by simp
  have sq: "sorted_q host_pkt (hd_to_slave ?h)" using assms(1) by (simp add: hd_inv_defs Let_def)
  note snd = sorted_q_send [of host_pkt, OF sq pr]
  have all: "set (q_all (prio_send ?b (hd_to_slave ?h))) = insert ?b (set (q_all (hd_to_slave ?h)))"
    using q_all_send(1) [of ?b "hd_to_slave ?h"] by (metis set_mset_add_mset_insert set_mset_mset)
  show ?thesis
    using assms(1) snd all ok
    by (auto simp: hd_inv_defs h' Let_def)
qed

lemma sent_frame_pkt:
  assumes "pkt_ok pk"
  shows "frame_pkt (seal_frame (fst pk) (snd pk)) = pk"
proof -
  obtain h p where pk: "pk = (h, p)" by (cases pk)
  have "unat (ph_len h) = length p" "h\<lparr>ph_checksum := 0\<rparr> = h"
    using assms pk by (auto simp: pkt_ok_def unat_of_nat_u16)
  then show ?thesis
    using decode_seal_append [of h p "[]"] drop_seal_append [of h p "[]"] by (simp add: pk frame_pkt_def del: octet_sum_append)
qed

lemma host_ok_pkt:
  assumes "hd_host_ok bh"
  shows "pkt_ok (host_pkt bh)" "ph_flags (fst (host_pkt bh)) AND FLAG_POWER_SAVE_STOPPED = 0"
proof -
  show "pkt_ok (host_pkt bh)" using hd_build_frame [OF assms refl] by (auto simp: frame_of_pkt_def)
  show "ph_flags (fst (host_pkt bh)) AND FLAG_POWER_SAVE_STOPPED = 0"
    using assms by (simp add: hd_host_ok_def host_pkt_def tx_hdr_def Let_def)
qed

lemma write_step_cases:
  assumes "hd_inv hs dp hr ss sr c" "prio_recv (hd_to_slave (hl_host c)) = (Some bh, q)"
    "\<forall>x \<in> set regs. fst x = 0 \<longrightarrow> snd x = sh_reg_rx (hl_slave c)" "hd_write mem regs wr c = Some c'"
  defines "h1 \<equiv> (hl_host c)\<lparr>hd_to_slave := q\<lparr>pq_sem := pq_sem q - 1\<rparr>, hd_tx_needed := True, hd_handle := bh\<rparr>"
  shows "pq_sem (hd_to_slave (hl_host c)) \<noteq> 0"
    "c' = c\<lparr>hl_host := h1\<rparr> \<or>
     (\<exists>b. hl_rx c = Some b \<and> c' = c\<lparr>hl_host := h1\<lparr>hd_bus := hd_bus h1 @ [seal_frame (fst (host_pkt bh)) (snd (host_pkt bh))],
         hd_tx_count := hd_tx_count h1 + 1\<rparr>, hl_rx := None,
         hl_rx_done := hl_rx_done c @ [(b, seal_frame (fst (host_pkt bh)) (snd (host_pkt bh)))]\<rparr>)"
proof -
  let ?h = "hl_host c" and ?s = "hl_slave c"
  have inv: "sh_reg_rx ?s - hd_tx_count ?h = (if hl_rx c = None then 0 else 1)" "hd_avail ?h = 0" "hd_tx_needed ?h"
      "sorted_q host_pkt (hd_to_slave ?h)" "\<forall>b \<in> set (q_all (hd_to_slave ?h)). hd_host_ok b"
    using assms(1) by (auto simp: hd_inv_defs Let_def)
  obtain fr h' where w: "spi_hd_write_step True mem regs wr ?h = Some (fr, h')"
    and c': "c' = (case drop (length (hd_bus ?h)) (hd_bus h') of
             [] \<Rightarrow> c\<lparr>hl_host := h'\<rparr>
           | f # _ \<Rightarrow> (case hl_rx c of
                 None \<Rightarrow> c\<lparr>hl_host := h', hl_overrun := True\<rparr>
               | Some b \<Rightarrow> c\<lparr>hl_host := h', hl_rx := None, hl_rx_done := hl_rx_done c @ [(b, f)]\<rparr>))"
    using assms(4) by (auto simp: hd_write_def bind_eq_Some_conv)
  show sem: "pq_sem (hd_to_slave ?h) \<noteq> 0" using w by (auto simp: spi_hd_write_step_def split: if_splits)
  have bh: "hd_host_ok bh"
    using sorted_q_recv [OF inv(4) sem assms(2), of thesis] inv(5) by (metis list.set_intros(1) option.inject)
  have "\<exists>r. spi_hd_write_packet True mem regs wr bh h1 = Some (r, fr, h')"
    using w inv(3) assms(2) sem by (auto simp: spi_hd_write_step_def h1_def bind_eq_Some_conv Let_def split: if_splits)
  then obtain r where wp: "spi_hd_write_packet True mem regs wr bh h1 = Some (r, fr, h')" by blast
  have "h' = h1 \<or> sh_reg_rx ?s - hd_tx_count h1 = 1 \<and> h' = hd_sent bh h1"
    using inv by (intro write_packet_cases [OF wp bh _ assms(3)]) (auto simp: h1_def)
  moreover have "hd_bus h1 = hd_bus ?h" "hd_tx_count h1 = hd_tx_count ?h" by (simp_all add: h1_def)
  ultimately show "c' = c\<lparr>hl_host := h1\<rparr> \<or>
     (\<exists>b. hl_rx c = Some b \<and> c' = c\<lparr>hl_host := h1\<lparr>hd_bus := hd_bus h1 @ [seal_frame (fst (host_pkt bh)) (snd (host_pkt bh))],
         hd_tx_count := hd_tx_count h1 + 1\<rparr>, hl_rx := None,
         hl_rx_done := hl_rx_done c @ [(b, seal_frame (fst (host_pkt bh)) (snd (host_pkt bh)))]\<rparr>)"
    using c' inv(1) by (auto simp: hd_sent_def split: option.splits if_splits)
qed

lemma of_prio_single: "of_prio k [p] = (if pkt_prio p = k then [p] else [])"
  by (simp add: of_prio_def)

lemma inv_hd_write:
  assumes "hd_inv hs dp hr ss sr c" "prio_recv (hd_to_slave (hl_host c)) = (Some bh, q)"
    "\<forall>x \<in> set regs. fst x = 0 \<longrightarrow> snd x = sh_reg_rx (hl_slave c)" "hd_write mem regs wr c = Some c'"
  shows "hd_inv hs (if hd_bus (hl_host c') = hd_bus (hl_host c) then dp @ [host_pkt bh] else dp) hr ss sr c'"
proof -
  let ?h = "hl_host c" and ?pk = "host_pkt bh" and ?q = "q\<lparr>pq_sem := pq_sem q - 1\<rparr>"
  note cs = write_step_cases [OF assms]
  have sq: "sorted_q host_pkt (hd_to_slave ?h)" using assms(1) by (simp add: hd_inv_defs Let_def)
  have "q_all (hd_to_slave ?h) = bh # q_all q \<and> sorted_q host_pkt ?q \<and>
      of_prio k (map host_pkt (q_all (hd_to_slave ?h))) = of_prio k [?pk] @ of_prio k (map host_pkt (q_all q))" for k
    by (rule sorted_q_recv [OF sq cs(1) assms(2), where k = k]) simp
  then have qq: "q_all (hd_to_slave ?h) = bh # q_all q" "sorted_q host_pkt ?q"
      "of_prio k (map host_pkt (q_all (hd_to_slave ?h))) = of_prio k [?pk] @ of_prio k (map host_pkt (q_all q))" for k
    by blast+
  have bh: "hd_host_ok bh" using assms(1) qq(1) by (simp add: hd_inv_defs Let_def)
  have down: "\<exists>zs. of_prio k hs = zs @ of_prio k [?pk] @ of_prio k (map host_pkt (q_all q)) \<and>
      zs \<in> shuffles (of_prio k dp) (of_prio k hr @ of_prio k (hd_down c))" for k
    using assms(1) qq(3) by (auto simp: hd_inv_def hd_fifo_down_def)
  from cs(2) show ?thesis
  proof
    assume c': "c' = c\<lparr>hl_host := ?h\<lparr>hd_to_slave := ?q, hd_tx_needed := True, hd_handle := bh\<rparr>\<rparr>"
    have "\<exists>zs. of_prio k hs = zs @ of_prio k (map host_pkt (q_all q)) \<and>
      zs \<in> shuffles (of_prio k (dp @ [?pk])) (of_prio k hr @ of_prio k (hd_down c))" for k
      using down [of k] shuffles_snoc(1) by (cases "pkt_prio ?pk = k") (auto simp: of_prio_single)
    moreover have "hd_down c' = hd_down c" by (simp add: c' hd_down_def)
    moreover have "hd_bus (hl_host c') = hd_bus ?h" by (simp add: c')
    moreover have "hd_counters c'" "hd_fifo_up ss sr c'" using assms(1) by (simp_all add: hd_inv_defs c' Let_def)
    moreover have "hd_queues c'" using assms(1) qq(1,2) by (simp add: hd_inv_defs c' Let_def)
    ultimately show ?thesis by (simp add: hd_inv_def hd_fifo_down_def c')
  next
    assume "\<exists>b. hl_rx c = Some b \<and> c' = c\<lparr>hl_host := ?h\<lparr>hd_to_slave := ?q, hd_tx_needed := True, hd_handle := bh\<rparr>
        \<lparr>hd_bus := hd_bus (?h\<lparr>hd_to_slave := ?q, hd_tx_needed := True, hd_handle := bh\<rparr>) @ [seal_frame (fst ?pk) (snd ?pk)],
         hd_tx_count := hd_tx_count (?h\<lparr>hd_to_slave := ?q, hd_tx_needed := True, hd_handle := bh\<rparr>) + 1\<rparr>, hl_rx := None,
         hl_rx_done := hl_rx_done c @ [(b, seal_frame (fst ?pk) (snd ?pk))]\<rparr>"
    then obtain b where b: "hl_rx c = Some b"
      and c': "c' = c\<lparr>hl_host := ?h\<lparr>hd_to_slave := ?q, hd_tx_needed := True, hd_handle := bh,
          hd_bus := hd_bus ?h @ [seal_frame (fst ?pk) (snd ?pk)], hd_tx_count := hd_tx_count ?h + 1\<rparr>, hl_rx := None,
         hl_rx_done := hl_rx_done c @ [(b, seal_frame (fst ?pk) (snd ?pk))]\<rparr>"
      by auto
    have "hd_down c' = hd_down c @ [?pk]" by (simp add: c' hd_down_def sent_frame_pkt [OF host_ok_pkt(1) [OF bh]])
    moreover have "\<exists>zs. of_prio k hs = zs @ of_prio k (map host_pkt (q_all q)) \<and>
      zs \<in> shuffles (of_prio k dp) (of_prio k hr @ of_prio k (hd_down c @ [?pk]))" for k
      using down [of k] shuffles_snoc(2) [of _ "of_prio k dp" "of_prio k hr @ of_prio k (hd_down c)" ?pk]
      by (cases "pkt_prio ?pk = k") (auto simp: of_prio_single)
    ultimately have "hd_fifo_down hs dp hr c'" by (simp add: hd_fifo_down_def c')
    moreover have "sent_frame (seal_frame (fst ?pk) (snd ?pk))" unfolding sent_frame_def using host_ok_pkt [OF bh] by blast
    then have "hd_queues c'" using assms(1) qq(1,2) by (auto simp: hd_inv_def hd_queues_def hd_txs_def c' Let_def)
    moreover have "sh_rx_num (hl_slave c) = hd_tx_count ?h + 1"
      using assms(1) b by (simp add: hd_inv_def hd_counters_def Let_def diff_eq_eq add.commute)
    then have "hd_counters c'" using assms(1) b by (simp add: hd_inv_def hd_counters_def c' Let_def)
    moreover have "hd_fifo_up ss sr c'" using assms(1) by (simp add: hd_inv_defs c')
    moreover have "hd_bus (hl_host c') \<noteq> hd_bus ?h" by (simp add: c')
    ultimately show ?thesis by (simp add: hd_inv_def)
  qed
qed

lemma and_24 [simp]: "x AND 0xFFFFFF = take_bit 24 (x :: u32)"
  by (simp add: take_bit_eq_mask mask_eq_exp_minus_1)

lemma slave_pkt_rx_handle:
  assumes "frame_of_pkt pk f"
  shows "slave_pkt (spi_rx_handle b pk f) = untyped pk"
    "pkt_prio (slave_pkt (spi_rx_handle b pk f)) = prio_of (bh_if_type (spi_rx_handle b pk f))"
proof -
  show e: "slave_pkt (spi_rx_handle b pk f) = untyped pk" using rx_handle_pkt(1) [OF assms] by (simp add: slave_pkt_def untyped_def)
  show "pkt_prio (slave_pkt (spi_rx_handle b pk f)) = prio_of (bh_if_type (spi_rx_handle b pk f))"
    unfolding e by (simp add: pkt_prio_def untyped_def spi_rx_handle_def)
qed

lemma take_bit_diff_u32: "take_bit 24 (take_bit 24 k - take_bit 24 l) = take_bit 24 (k - l :: u32)"
  by transfer (simp add: take_bit_diff)

text \<open>The counters of the host when a loaded transaction of \<open>n\<close> octets is read.\<close>

lemma read_counters:
  fixes tx rx :: u32
  assumes "take_bit 24 tx = tx" "take_bit 24 rx = rx" "take_bit 24 (tx - rx) = of_nat n" "12 \<le> n" "n \<le> 1600"
  shows "\<not> bit tx 24" "\<not> bit tx 25" "unat (of_nat n :: u32) = n" "(of_nat n :: u32) \<noteq> 0"
    "take_bit 24 (tx - take_bit 24 (rx + of_nat n)) = 0"
proof -
  have b: "bit tx k \<Longrightarrow> k < 24" for k using assms(1) by (metis bit_take_bit_iff)
  show "\<not> bit tx 24" "\<not> bit tx 25" using b [of 24] b [of 25] by auto
  show u: "unat (of_nat n :: u32) = n" using assms(5) by (simp add: unat_of_nat take_bit_nat_eq_self)
  show "(of_nat n :: u32) \<noteq> 0" using u assms(4) by auto
  have "take_bit 24 (tx - take_bit 24 (rx + of_nat n)) = take_bit 24 (take_bit 24 tx - take_bit 24 (rx + of_nat n))"
    by (simp add: assms(1))
  also have "\<dots> = take_bit 24 (tx - (rx + of_nat n))" by (rule take_bit_diff_u32)
  also have "\<dots> = take_bit 24 (tx - rx - of_nat n)" by (simp add: algebra_simps)
  also have "\<dots> = take_bit 24 (take_bit 24 (tx - rx) - take_bit 24 (of_nat n))" by (rule take_bit_diff_u32 [symmetric])
  also have "take_bit 24 (of_nat n :: u32) = of_nat n" using assms(3) by (metis take_bit_take_bit min.idem)
  finally show "take_bit 24 (tx - take_bit 24 (rx + of_nat n)) = 0" using assms(3) by simp
qed

text \<open>A turn of the read task while a transaction is loaded: it waits only for a buffer of the pool.\<close>

lemma read_turn:
  assumes "hd_inv hs dp hr ss sr c" "hl_tx c = Some (b, f)" "rxbuff \<noteq> 0"
  shows "\<exists>t. hd_read rxbuff c = Some (c\<lparr>hl_host := (hl_host c)\<lparr>hd_dr_sem := 0,
        hd_rx_count := take_bit 24 (hd_rx_count (hl_host c) + of_nat (length f)), hd_throttle := t,
        hd_from_slave := (if flow_cmd f then hd_from_slave (hl_host c)
          else prio_send (spi_rx_handle rxbuff (frame_pkt (hd_pad f)) (hd_pad f)) (hd_from_slave (hl_host c)))\<rparr>,
        hl_slave := cb_cmd9_recv (hl_slave c), hl_tx := None, hl_tx_done := hl_tx_done c @ [b]\<rparr>)"
    "hd_read 0 c = None"
proof -
  let ?h = "hl_host c" and ?s = "hl_slave c"
  have inv: "sh_reg_tx ?s = sh_tx_size ?s" "take_bit 24 (sh_tx_size ?s) = sh_tx_size ?s" "hd_dr_sem ?h = 1"
      "take_bit 24 (hd_rx_count ?h) = hd_rx_count ?h" "take_bit 24 (sh_tx_size ?s - hd_rx_count ?h) = of_nat (length f)" "good_tx f"
    using assms(1,2) by (auto simp: hd_inv_defs Let_def)
  have l: "12 \<le> length f" "length f \<le> 1600" using inv(6) by (simp_all add: good_tx_def)
  note rc = read_counters [OF inv(2,4,5) l]
  let ?h1 = "?h\<lparr>hd_dr_sem := 0, hd_rx_count := take_bit 24 (hd_rx_count ?h + of_nat (length f))\<rparr>"
  have buf: "poke 0 f (replicate 1600 0) = Some (hd_pad f)" using l by (simp add: poke_def hd_pad_def)
  have R: "spi_hd_read_step True True (Some (sh_reg_tx ?s)) rb
      (\<lambda>n. Some (case hl_tx c of None \<Rightarrow> [] | Some t \<Rightarrow> take n (snd t))) ?h = (if rb = 0 then None else do {
      (_, fr, st) \<leftarrow> spi_hd_push_data_to_queue True rb (hd_pad f) ?h1;
      Some (True, length f, fr, st)})" for rb
    using inv rc(1-4) l assms(2) buf by (simp add: spi_hd_read_step_def Let_def cong: if_cong)
  show "hd_read 0 c = None" by (simp add: hd_read_def R)
  let ?q = "if flow_cmd f then hd_from_slave ?h
          else prio_send (spi_rx_handle rxbuff (frame_pkt (hd_pad f)) (hd_pad f)) (hd_from_slave ?h)"
  have "\<exists>r fr t. spi_hd_push_data_to_queue True rxbuff (hd_pad f) ?h1 = Some (r, fr, ?h1\<lparr>hd_throttle := t, hd_from_slave := ?q\<rparr>)"
  proof (cases "flow_cmd f")
    case True
    then obtain t where "spi_hd_push_data_to_queue True rxbuff (hd_pad f) ?h1 = Some (H_OK, [rxbuff], ?h1\<lparr>hd_throttle := t\<rparr>)"
      using hd_receives_flow [of "hd_pad f" rxbuff ?h1] l by (auto simp: flow_cmd_pad length_hd_pad)
    then show ?thesis using True by (intro exI [of _ H_OK] exI [of _ "[rxbuff]"] exI [of _ t]) simp
  next
    case False
    then have "frame_of_pkt (frame_pkt (hd_pad f)) (hd_pad f)" using inv(6) by (simp add: good_tx_def)
    from hd_receives_pkt [OF this, of rxbuff ?h1] show ?thesis
      using False by (intro exI [of _ H_OK] exI [of _ "[]"] exI [of _ "hd_throttle ?h"]) simp
  qed
  then obtain r fr t where push: "spi_hd_push_data_to_queue True rxbuff (hd_pad f) ?h1 =
      Some (r, fr, ?h1\<lparr>hd_throttle := t, hd_from_slave := ?q\<rparr>)" by blast
  have "length f \<noteq> 0" using l by auto
  moreover have "spi_hd_read_step True True (Some (sh_reg_tx ?s)) rxbuff
      (\<lambda>n. Some (case hl_tx c of None \<Rightarrow> [] | Some t \<Rightarrow> take n (snd t))) ?h =
      Some (True, length f, fr, ?h1\<lparr>hd_throttle := t, hd_from_slave := ?q\<rparr>)"
    using assms(3) push by (simp add: R)
  ultimately show "\<exists>t. hd_read rxbuff c = Some (c\<lparr>hl_host := ?h\<lparr>hd_dr_sem := 0,
        hd_rx_count := take_bit 24 (hd_rx_count ?h + of_nat (length f)), hd_throttle := t, hd_from_slave := ?q\<rparr>,
        hl_slave := cb_cmd9_recv ?s, hl_tx := None, hl_tx_done := hl_tx_done c @ [b]\<rparr>)"
    using assms(2) by (intro exI [of _ t]) (simp add: hd_read_def Let_def)
qed

lemma read_step_cases:
  assumes "hd_inv hs dp hr ss sr c" "hd_read rxbuff c = Some c'"
  obtains b f t q where "hl_tx c = Some (b, f)" "good_tx f" "rxbuff \<noteq> 0"
    "c' = c\<lparr>hl_host := (hl_host c)\<lparr>hd_dr_sem := 0, hd_rx_count := take_bit 24 (hd_rx_count (hl_host c) + of_nat (length f)),
        hd_throttle := t, hd_from_slave := q\<rparr>, hl_slave := cb_cmd9_recv (hl_slave c), hl_tx := None,
        hl_tx_done := hl_tx_done c @ [b]\<rparr>"
    "q = (if flow_cmd f then hd_from_slave (hl_host c)
          else prio_send (spi_rx_handle rxbuff (frame_pkt (hd_pad f)) (hd_pad f)) (hd_from_slave (hl_host c)))"
proof -
  have sem: "hd_dr_sem (hl_host c) \<noteq> 0"
    using assms(2) by (auto simp: hd_read_def spi_hd_read_step_def bind_eq_Some_conv split: if_splits)
  then obtain b f where tx: "hl_tx c = Some (b, f)" using assms(1) by (auto simp: hd_inv_defs Let_def split: if_splits)
  have g: "good_tx f" using assms(1) tx by (auto simp: hd_inv_defs Let_def)
  have rb: "rxbuff \<noteq> 0" using assms(2) read_turn(2) [OF assms(1) tx, of 1] by (cases "rxbuff = 0") auto
  show thesis using read_turn(1) [OF assms(1) tx rb] assms(2) that [OF tx g rb] by auto
qed

lemma inv_hd_read:
  assumes "hd_inv hs dp hr ss sr c" "hd_read rxbuff c = Some c'"
  shows "hd_inv hs dp hr ss sr c'"
proof -
  let ?h = "hl_host c" and ?s = "hl_slave c"
  obtain b f t q where tx: "hl_tx c = Some (b, f)" "good_tx f" "rxbuff \<noteq> 0"
    and c': "c' = c\<lparr>hl_host := ?h\<lparr>hd_dr_sem := 0, hd_rx_count := take_bit 24 (hd_rx_count ?h + of_nat (length f)),
        hd_throttle := t, hd_from_slave := q\<rparr>, hl_slave := cb_cmd9_recv ?s, hl_tx := None,
        hl_tx_done := hl_tx_done c @ [b]\<rparr>"
    and q: "q = (if flow_cmd f then hd_from_slave ?h
          else prio_send (spi_rx_handle rxbuff (frame_pkt (hd_pad f)) (hd_pad f)) (hd_from_slave ?h))"
    using read_step_cases [OF assms] .
  have l: "12 \<le> length f" "length f \<le> 1600" using tx(2) by (simp_all add: good_tx_def)
  have inv: "take_bit 24 (sh_tx_size ?s) = sh_tx_size ?s" "take_bit 24 (hd_rx_count ?h) = hd_rx_count ?h"
      "take_bit 24 (sh_tx_size ?s - hd_rx_count ?h) = of_nat (length f)" "sorted_q slave_pkt (hd_from_slave ?h)"
    using assms(1) tx by (auto simp: hd_inv_defs Let_def)
  have cnt: "hd_counters c'"
    using assms(1) tx(1) read_counters(5) [OF inv(1-3) l]
    by (simp add: hd_inv_def hd_counters_def c' cb_cmd9_recv_def Let_def)
  have up: "sorted_q slave_pkt q \<and> of_prio k (map slave_pkt (q_all q)) =
      of_prio k (map slave_pkt (q_all (hd_from_slave ?h))) @ of_prio k (tx_pkts [(b, f)])" for k
  proof (cases "flow_cmd f")
    case True
    then show ?thesis using inv(4) q by (simp add: tx_pkts_def)
  next
    case False
    then have fp: "frame_of_pkt (frame_pkt (hd_pad f)) (hd_pad f)" using tx(2) by (simp add: good_tx_def)
    show ?thesis
      using sorted_q_send [OF inv(4) slave_pkt_rx_handle(2) [OF fp]] slave_pkt_rx_handle(1) [OF fp] tx_pkts_one [OF fp l(1)] False q
      by simp
  qed
  have txs: "hd_txs c = (b, f) # hd_txs c'" by (simp add: hd_txs_def tx(1) c' cb_cmd9_recv_def)
  have "of_prio k (hd_up c') = of_prio k (hd_up c)" for k
    using up [of k] tx_pkts_simps(2) [of "[(b, f)]" "hd_txs c'"] by (simp add: hd_up_def txs) (simp add: c')
  then have "hd_fifo_up ss sr c'" using assms(1) by (simp add: hd_inv_def hd_fifo_up_def)
  moreover have "hd_queues c'" using assms(1) up by (auto simp: hd_inv_def hd_queues_def txs c' cb_cmd9_recv_def Let_def)
  moreover have "hd_fifo_down hs dp hr c'" using assms(1) by (simp add: hd_inv_defs c' cb_cmd9_recv_def)
  ultimately show ?thesis using cnt by (simp add: hd_inv_def)
qed

lemma of_prio_Cons: "of_prio k (x # xs) = of_prio k [x] @ of_prio k xs"
  by (simp add: of_prio_def)

lemma inv_hd_host_rx:
  assumes "hd_inv hs dp hr ss sr c" "spi_hd_process_rx_step mem sbuf qok chan (hl_host c, ll) = Some (act, fr, h', ll')"
    "prio_recv (hd_from_slave (hl_host c)) = (Some bh, q)"
  shows "hd_inv hs dp hr ss (sr @ [slave_pkt bh]) (c\<lparr>hl_host := h'\<rparr>)"
proof -
  let ?h = "hl_host c"
  have sem: "pq_sem (hd_from_slave ?h) \<noteq> 0"
    using assms(2) by (cases "pq_sem (hd_from_slave ?h) = 0") (simp_all add: spi_hd_process_rx_step_def)
  have sq: "sorted_q slave_pkt (hd_from_slave ?h)" using assms(1) by (simp add: hd_inv_def hd_queues_def Let_def)
  have qq: "q_all (hd_from_slave ?h) = bh # q_all q \<and> sorted_q slave_pkt (q\<lparr>pq_sem := pq_sem q - 1\<rparr>)"
    by (rule sorted_q_recv [OF sq sem assms(3)]) simp
  obtain stt where h': "h' = ?h\<lparr>hd_from_slave := q\<lparr>pq_sem := pq_sem q - 1\<rparr>, hd_start := stt\<rparr>"
  proof -
    have "\<exists>stt. h' = ?h\<lparr>hd_from_slave := q\<lparr>pq_sem := pq_sem q - 1\<rparr>, hd_start := stt\<rparr>"
    proof (cases "hd_start h'")
      case True
      show ?thesis using assms(2,3) sem by (intro exI [of _ "hd_start h'"])
          (auto simp: spi_hd_process_rx_step_def bind_eq_Some_conv Let_def split: if_splits)
    next
      case False
      show ?thesis using assms(2,3) sem by (intro exI [of _ "hd_start h'"])
          (auto simp: spi_hd_process_rx_step_def bind_eq_Some_conv Let_def split: if_splits)
    qed
    then show thesis using that by blast
  qed
  have "hd_up c = slave_pkt bh # hd_up (c\<lparr>hl_host := h'\<rparr>)" using qq by (simp add: hd_up_def hd_txs_def h')
  then have "of_prio k (hd_up c) = of_prio k [slave_pkt bh] @ of_prio k (hd_up (c\<lparr>hl_host := h'\<rparr>))" for k
    by (metis of_prio_Cons)
  then have "hd_fifo_up ss (sr @ [slave_pkt bh]) (c\<lparr>hl_host := h'\<rparr>)"
    using assms(1) by (simp add: hd_inv_def hd_fifo_up_def)
  moreover have "hd_counters (c\<lparr>hl_host := h'\<rparr>)" "hd_queues (c\<lparr>hl_host := h'\<rparr>)" "hd_fifo_down hs dp hr (c\<lparr>hl_host := h'\<rparr>)"
    using assms(1) qq by (simp_all add: hd_inv_defs h' Let_def)
  ultimately show ?thesis by (simp add: hd_inv_def)
qed

section \<open>Steps of the co-processor\<close>

text \<open>Operations that leave what the invariant speaks of alone.\<close>

lemma inv_hd_slave_cong:
  assumes "hd_inv hs dp hr ss sr c" "sh_reg_rx s' = sh_reg_rx (hl_slave c)" "sh_rx_num s' = sh_rx_num (hl_slave c)"
    "sh_reg_tx s' = sh_reg_tx (hl_slave c)" "sh_tx_size s' = sh_tx_size (hl_slave c)"
    "sh_data_ready s' = sh_data_ready (hl_slave c)" "sh_tx_q s' = sh_tx_q (hl_slave c)" "sh_rx s' = sh_rx (hl_slave c)"
    "sh_state s' = sh_state (hl_slave c)"
  shows "hd_inv hs dp hr ss sr (c\<lparr>hl_slave := s'\<rparr>)"
  using assms by (simp add: hd_inv_defs Let_def)

lemma inv_hd_done_cong [simp]:
  "hd_inv hs dp hr ss sr (c\<lparr>hl_tx_done := d\<rparr>) = hd_inv hs dp hr ss sr c"
  "hd_inv hs dp hr ss sr (c\<lparr>hl_held := b\<rparr>) = hd_inv hs dp hr ss sr c"
  "hd_inv hs dp hr ss sr (c\<lparr>hl_held := b, hl_slave := s\<rparr>) = hd_inv hs dp hr ss sr (c\<lparr>hl_slave := s\<rparr>)"
  "hd_inv hs dp hr ss sr (c\<lparr>hl_tx_done := d, hl_slave := s\<rparr>) = hd_inv hs dp hr ss sr (c\<lparr>hl_slave := s\<rparr>)"
  by (simp_all add: hd_inv_defs)

text \<open>A transaction is queued for the host.\<close>

lemma inv_hd_queue_tx:
  assumes "hd_inv hs dp hr ss sr c" "good_tx f" "tx_pkts [(b, f)] = pks"
  shows "hd_inv hs dp hr (ss @ pks) sr (c\<lparr>hl_slave := (hl_slave c)\<lparr>sh_tx_sem := n, sh_tx_q := sh_tx_q (hl_slave c) @ [(b, f)]\<rparr>\<rparr>)"
    (is "hd_inv hs dp hr (ss @ pks) sr ?c")
proof -
  have txs: "hd_txs ?c = hd_txs c @ [(b, f)]" by (simp add: hd_txs_def split: option.splits)
  have "hd_up ?c = hd_up c @ pks" by (simp add: hd_up_def txs assms(3))
  then have "hd_fifo_up (ss @ pks) sr ?c" using assms(1) by (simp add: hd_inv_def hd_fifo_up_def)
  moreover have "hd_queues ?c" using assms(1,2) by (auto simp: hd_inv_def hd_queues_def txs Let_def)
  moreover have "hd_counters ?c" using assms(1) by (simp add: hd_inv_def hd_counters_def Let_def)
  moreover have "hd_fifo_down hs dp hr ?c" using assms(1) by (simp add: hd_inv_def hd_fifo_down_def hd_down_def)
  ultimately show ?thesis by (simp add: hd_inv_def)
qed

lemma write_result:
  assumes "esp_spi_hd_write True sb rc True flow (Some bh) s = Some (r, s')"
  shows "r = -1 \<and> (s' = s \<or> s' = s\<lparr>sh_tx_sem := sh_tx_sem s - 1\<rparr> \<and> sh_tx_sem s \<noteq> 0) \<or>
    (\<exists>f. spi_hd_write_frame True flow bh = Some f \<and> r = int (unat (bh_payload_len bh)) \<and> sh_tx_sem s \<noteq> 0 \<and>
      s' = s\<lparr>sh_tx_sem := sh_tx_sem s - 1, sh_tx_q := sh_tx_q s @ [(sb, f)]\<rparr>)"
  using assms by (auto simp: esp_spi_hd_write_def bind_eq_Some_conv Let_def split: if_splits)

lemma inv_hd_slave_tx:
  assumes "hd_inv hs dp hr ss sr c" "slave_ok bh" "esp_spi_hd_write True sb rc True 0 (Some bh) (hl_slave c) = Some (r, s')"
  shows "hd_inv hs dp hr (if 0 \<le> r then ss @ [slave_pkt bh] else ss) sr (c\<lparr>hl_slave := s'\<rparr>)"
  using write_result [OF assms(3)]
proof
  assume "r = -1 \<and> (s' = hl_slave c \<or> s' = (hl_slave c)\<lparr>sh_tx_sem := sh_tx_sem (hl_slave c) - 1\<rparr> \<and> sh_tx_sem (hl_slave c) \<noteq> 0)"
  then show ?thesis using inv_hd_slave_cong [OF assms(1), of s'] by auto
next
  assume "\<exists>f. spi_hd_write_frame True 0 bh = Some f \<and> r = int (unat (bh_payload_len bh)) \<and> sh_tx_sem (hl_slave c) \<noteq> 0 \<and>
      s' = (hl_slave c)\<lparr>sh_tx_sem := sh_tx_sem (hl_slave c) - 1, sh_tx_q := sh_tx_q (hl_slave c) @ [(sb, f)]\<rparr>"
  then obtain f where f: "f = seal_frame (tx_hdr bh) (tx_payload bh)" "0 \<le> r"
    and s': "s' = (hl_slave c)\<lparr>sh_tx_sem := sh_tx_sem (hl_slave c) - 1, sh_tx_q := sh_tx_q (hl_slave c) @ [(sb, f)]\<rparr>"
    using slave_hd_frame(1) [OF assms(2)] by auto
  obtain p where ok: "pkt_ok (slave_pkt bh)" "length (tx_payload bh) = unat (bh_payload_len bh)"
    using slave_okD [OF assms(2)] by metis
  have l: "length f = 12 + unat (bh_payload_len bh)" "length f \<le> 1600"
    using slave_hd_frame(2) [OF assms(2)] ok(2) by (simp_all add: f)
  have "hd_pad f = seal_frame (tx_hdr bh) (tx_payload bh) @ replicate (1588 - length (tx_payload bh)) 0"
    using l ok(2) by (simp add: hd_pad_def f)
  then have fp: "frame_of_pkt (slave_pkt bh) (hd_pad f)"
    using frame_of_pkt_intro [of "tx_hdr bh" "tx_payload bh"] ok(1) by (simp add: slave_pkt_def)
  have "good_tx f" using fp frame_pkt_eq(1) [OF fp] l by (simp add: good_tx_def)
  moreover have "tx_pkts [(sb, f)] = [slave_pkt bh]"
    using tx_pkts_one [OF fp] l by (simp add: untyped_def slave_pkt_def tx_hdr_def zero_header_def)
  ultimately show ?thesis using inv_hd_queue_tx [OF assms(1)] f(2) s' by simp
qed

lemma inv_hd_slave_flow:
  assumes "hd_inv hs dp hr ss sr c" "flow_ctrl_step (hl_slave c) = Some (cmd, s)"
    "s' = s \<or> cmd \<noteq> 0 \<and> (\<exists>r. esp_spi_hd_write True sb rc True cmd (Some zero_handle) s = Some (r, s'))"
  shows "hd_inv hs dp hr ss sr (c\<lparr>hl_slave := s'\<rparr>)"
proof -
  have s: "s = (hl_slave c)\<lparr>sh_flow_sem := Some False\<rparr>"
    using assms(2) by (auto simp: flow_ctrl_step_def split: option.splits bool.splits)
  have i: "hd_inv hs dp hr ss sr (c\<lparr>hl_slave := s\<rparr>)" by (rule inv_hd_slave_cong [OF assms(1)]) (simp_all add: s)
  from assms(3) show ?thesis
  proof
    assume "s' = s"
    then show ?thesis using i by simp
  next
    assume "cmd \<noteq> 0 \<and> (\<exists>r. esp_spi_hd_write True sb rc True cmd (Some zero_handle) s = Some (r, s'))"
    then obtain r where c: "cmd \<noteq> 0" and w: "esp_spi_hd_write True sb rc True cmd (Some zero_handle) s = Some (r, s')" by blast
    from write_result [OF w] show ?thesis
    proof
      assume "r = -1 \<and> (s' = s \<or> s' = s\<lparr>sh_tx_sem := sh_tx_sem s - 1\<rparr> \<and> sh_tx_sem s \<noteq> 0)"
      then show ?thesis using inv_hd_slave_cong [OF i, of s'] by auto
    next
      assume "\<exists>f. spi_hd_write_frame True cmd zero_handle = Some f \<and> r = int (unat (bh_payload_len zero_handle)) \<and>
        sh_tx_sem s \<noteq> 0 \<and> s' = s\<lparr>sh_tx_sem := sh_tx_sem s - 1, sh_tx_q := sh_tx_q s @ [(sb, f)]\<rparr>"
      then obtain f where f: "length f = 12" "flow_cmd f"
        and s': "s' = s\<lparr>sh_tx_sem := sh_tx_sem s - 1, sh_tx_q := sh_tx_q s @ [(sb, f)]\<rparr>"
        using flow_frame [OF c] by auto
      have "hd_inv hs dp hr (ss @ []) sr (c\<lparr>hl_slave := s\<rparr>\<lparr>hl_slave := s\<lparr>sh_tx_sem := sh_tx_sem s - 1, sh_tx_q := sh_tx_q s @ [(sb, f)]\<rparr>\<rparr>)"
        using inv_hd_queue_tx [OF i, of f sb "[]"] f by (simp add: good_tx_def tx_pkts_def)
      then show ?thesis by (simp add: s')
    qed
  qed
qed

lemma inv_hd_slave_rx:
  assumes "hd_inv hs dp hr ss sr c" "esp_spi_hd_read cfg True (hl_slave c) = Some ((r, Some bh), s')"
  shows "hd_inv hs dp (hr @ [slave_rx_pkt bh]) ss sr (c\<lparr>hl_slave := s'\<rparr>)"
proof -
  let ?s = "hl_slave c"
  obtain q where q: "prio_recv (sh_rx ?s) = (Some bh, q)" "pq_sem (sh_rx ?s) \<noteq> 0"
    and s1: "s' = hd_stop_rx_data_throttling_if_needed (fst cfg) (snd cfg) (?s\<lparr>sh_rx := q\<lparr>pq_sem := pq_sem q - 1\<rparr>\<rparr>)"
    using assms(2) by (auto simp: esp_spi_hd_read_def Let_def split: if_splits prod.splits option.splits)
  obtain th fl fs where s': "s' = ?s\<lparr>sh_rx := q\<lparr>pq_sem := pq_sem q - 1\<rparr>, sh_throttling := th, sh_flow := fl, sh_flow_sem := fs\<rparr>"
    using stop_throttle_fields s1 by metis
  have sq: "sorted_q slave_rx_pkt (sh_rx ?s)" using assms(1) by (simp add: hd_inv_def hd_queues_def Let_def)
  have qq: "q_all (sh_rx ?s) = bh # q_all q \<and> sorted_q slave_rx_pkt (q\<lparr>pq_sem := pq_sem q - 1\<rparr>)"
    by (rule sorted_q_recv [OF sq q(2,1)]) simp
  have "hd_down c = slave_rx_pkt bh # hd_down (c\<lparr>hl_slave := s'\<rparr>)" using qq by (simp add: hd_down_def s')
  then have "of_prio k (hd_down c) = of_prio k [slave_rx_pkt bh] @ of_prio k (hd_down (c\<lparr>hl_slave := s'\<rparr>))" for k
    by (metis of_prio_Cons)
  then have "hd_fifo_down hs dp (hr @ [slave_rx_pkt bh]) (c\<lparr>hl_slave := s'\<rparr>)"
    using assms(1) by (simp add: hd_inv_def hd_fifo_down_def)
  moreover have "hd_counters (c\<lparr>hl_slave := s'\<rparr>)" "hd_queues (c\<lparr>hl_slave := s'\<rparr>)" "hd_fifo_up ss sr (c\<lparr>hl_slave := s'\<rparr>)"
    using assms(1) qq by (simp_all add: hd_inv_defs s' Let_def)
  ultimately show ?thesis by (simp add: hd_inv_def)
qed

lemma load_counters:
  fixes tx rx :: u32
  assumes "take_bit 24 tx = tx" "take_bit 24 rx = rx" "take_bit 24 (tx - rx) = 0" "n \<le> 1600"
  shows "take_bit 24 (tx + of_nat n) OR (tx AND 0x3000000) = take_bit 24 (tx + of_nat n)"
    "take_bit 24 (take_bit 24 (tx + of_nat n) - rx) = of_nat n"
proof -
  have "tx AND 0x3000000 = take_bit 24 tx AND 0x3000000" by (simp add: assms(1))
  also have "\<dots> = tx AND (0xFFFFFF AND 0x3000000)" unfolding and_24 [symmetric] by (simp only: and.assoc)
  finally show "take_bit 24 (tx + of_nat n) OR (tx AND 0x3000000) = take_bit 24 (tx + of_nat n)" by simp
  have n: "take_bit 24 (of_nat n :: u32) = of_nat n"
    using assms(4) by (simp add: word_unat_eq_iff unsigned_take_bit_eq unat_of_nat take_bit_nat_eq_self)
  have "take_bit 24 (take_bit 24 (tx + of_nat n) - rx) = take_bit 24 (tx + of_nat n - rx)"
    using take_bit_diff_u32 [of "tx + of_nat n" rx] assms(2) by simp
  also have "\<dots> = take_bit 24 (of_nat n - (rx - tx))" by (simp add: algebra_simps)
  also have "\<dots> = take_bit 24 (take_bit 24 (of_nat n) - take_bit 24 (rx - tx))" by (rule take_bit_diff_u32 [symmetric])
  also have "take_bit 24 (rx - tx) = take_bit 24 (0 - take_bit 24 (tx - rx))"
    using take_bit_diff_u32 [of 0 "tx - rx"] by simp
  finally show "take_bit 24 (take_bit 24 (tx + of_nat n) - rx) = of_nat n" using assms(3) n by simp
qed

lemma load_tx_cases:
  assumes "hd_inv hs dp hr ss sr c" "hd_load_tx (Suc lim) c = Some c'"
  obtains t ts where "hl_tx c = None" "sh_tx_q (hl_slave c) = t # ts"
    "c' = c\<lparr>hl_tx := Some t, hl_slave := (hl_slave c)\<lparr>sh_tx_q := ts, sh_tx_size := take_bit 24 (sh_tx_size (hl_slave c) + of_nat (length (snd t))),
        sh_reg_tx := take_bit 24 (sh_tx_size (hl_slave c) + of_nat (length (snd t))), sh_data_ready := True\<rparr>,
      hl_host := (hl_host c)\<lparr>hd_dr_sem := 1\<rparr>\<rparr>"
proof -
  let ?h = "hl_host c" and ?s = "hl_slave c"
  obtain t ts where t: "hl_tx c = None" "sh_tx_q ?s = t # ts"
    using assms(2) by (auto simp: hd_load_tx_def split: option.splits list.splits)
  have inv: "take_bit 24 (sh_tx_size ?s) = sh_tx_size ?s" "take_bit 24 (hd_rx_count ?h) = hd_rx_count ?h"
      "take_bit 24 (sh_tx_size ?s - hd_rx_count ?h) = 0" "\<not> sh_data_ready ?s" "hd_dr_sem ?h = 0" "length (snd t) \<le> 1600"
    using assms(1) t by (auto simp: hd_inv_defs good_tx_def Let_def)
  note lc = load_counters [OF inv(1-3,6)]
  show thesis
    using that [OF t] assms(2) t inv(1,4,5) lc(1)
    by (simp add: hd_load_tx_def cb_tx_ready_def hd_gpio_dr_isr_handler_def Let_def)
qed

lemma inv_hd_load_tx:
  assumes "hd_inv hs dp hr ss sr c" "hd_load_tx (Suc lim) c = Some c'"
  shows "hd_inv hs dp hr ss sr c'"
proof -
  let ?h = "hl_host c" and ?s = "hl_slave c"
  obtain t ts where t: "hl_tx c = None" "sh_tx_q ?s = t # ts"
    and c': "c' = c\<lparr>hl_tx := Some t, hl_slave := (hl_slave c)\<lparr>sh_tx_q := ts, sh_tx_size := take_bit 24 (sh_tx_size (hl_slave c) + of_nat (length (snd t))),
        sh_reg_tx := take_bit 24 (sh_tx_size (hl_slave c) + of_nat (length (snd t))), sh_data_ready := True\<rparr>,
      hl_host := (hl_host c)\<lparr>hd_dr_sem := 1\<rparr>\<rparr>"
    using load_tx_cases [OF assms] .
  have inv: "take_bit 24 (sh_tx_size ?s) = sh_tx_size ?s" "take_bit 24 (hd_rx_count ?h) = hd_rx_count ?h"
      "take_bit 24 (sh_tx_size ?s - hd_rx_count ?h) = 0" "length (snd t) \<le> 1600"
    using assms(1) t by (auto simp: hd_inv_defs good_tx_def Let_def)
  have txs: "hd_txs c' = hd_txs c" by (simp add: hd_txs_def t c')
  have "hd_counters c'" using assms(1) t load_counters(2) [OF inv] by (simp add: hd_inv_def hd_counters_def c' Let_def)
  moreover have "hd_queues c'" using assms(1) txs by (simp add: hd_inv_def hd_queues_def Let_def) (simp add: c')
  moreover have "hd_fifo_up ss sr c'" using assms(1) txs by (simp add: hd_inv_def hd_fifo_up_def hd_up_def) (simp add: c')
  moreover have "hd_fifo_down hs dp hr c'" using assms(1) by (simp add: hd_inv_defs c')
  ultimately show ?thesis by (simp add: hd_inv_def)
qed

lemma inv_hd_load_rx:
  assumes "hd_inv hs dp hr ss sr c" "hd_load_rx c = Some c'"
  shows "hd_inv hs dp hr ss sr c'"
proof -
  obtain b bs where c': "hl_rx c = None" "c' = c\<lparr>hl_rx := Some b, hl_slave := cb_rx_ready ((hl_slave c)\<lparr>sh_rx_q := bs\<rparr>)\<rparr>"
    using assms(2) by (auto simp: hd_load_rx_def split: option.splits list.splits)
  then show ?thesis using assms(1) by (simp add: hd_inv_defs cb_rx_ready_def Let_def)
qed

lemma rx_turn_eq:
  assumes "hd_inv hs dp hr ss sr c" "length stale = 1600" "hl_rx_done c = w # ws"
  obtains pk es th fl fs where "w = (fst w, seal_frame (fst pk) (snd pk))" "pkt_ok pk"
    "hd_rx_turn cfg stale c = Some (c\<lparr>hl_slave := (hl_slave c)\<lparr>sh_events := es, sh_throttling := th, sh_flow := fl,
       sh_flow_sem := fs, sh_rx := prio_send (slave_rx_handle (fst w) pk
         (seal_frame (fst pk) (snd pk) @ drop (12 + length (snd pk)) stale)) (sh_rx (hl_slave c))\<rparr>, hl_rx_done := ws\<rparr>)"
    "frame_of_pkt pk (seal_frame (fst pk) (snd pk) @ drop (12 + length (snd pk)) stale)"
proof -
  obtain b f where w: "w = (b, f)" by (cases w)
  have "sent_frame f" using assms(1,3) w by (simp add: hd_inv_def hd_queues_def Let_def)
  then obtain pk where pk: "pkt_ok pk" "f = seal_frame (fst pk) (snd pk)" "ph_flags (fst pk) AND FLAG_POWER_SAVE_STOPPED = 0"
    unfolding sent_frame_def by blast
  have l: "length (snd pk) \<le> 1588" using pk(1) by (simp add: pkt_ok_def)
  have fp: "frame_of_pkt pk (f @ drop (12 + length (snd pk)) stale)"
    using frame_of_pkt_intro [of "fst pk" "snd pk" "drop (12 + length (snd pk)) stale"] pk(1,2) assms(2) by simp
  obtain es th fl fs where r: "spi_hd_rx_step True cfg 0 (Some (b, f @ drop (12 + length (snd pk)) stale, 12 + length (snd pk))) (hl_slave c) =
    Some ((hl_slave c)\<lparr>sh_events := es, sh_throttling := th, sh_flow := fl, sh_flow_sem := fs,
             sh_rx := prio_send (slave_rx_handle b pk (f @ drop (12 + length (snd pk)) stale)) (sh_rx (hl_slave c))\<rparr>)"
    using slave_hd_receives [OF fp refl pk(3)] by blast
  have lf: "length f = 12 + length (snd pk)" by (simp add: pk(2))
  have t: "hd_rx_turn cfg stale c = Some (c\<lparr>hl_slave := (hl_slave c)\<lparr>sh_events := es, sh_throttling := th, sh_flow := fl, sh_flow_sem := fs,
       sh_rx := prio_send (slave_rx_handle b pk (f @ drop (12 + length (snd pk)) stale)) (sh_rx (hl_slave c))\<rparr>, hl_rx_done := ws\<rparr>)"
    using r by (simp add: hd_rx_turn_def assms(3) w lf)
  show thesis by (rule that [where pk = pk and es = es and th = th and fl = fl and fs = fs]) (use t fp pk(1) in \<open>simp_all add: w pk(2)\<close>)
qed

lemma rx_turn_cases:
  assumes "hd_inv hs dp hr ss sr c" "length stale = 1600" "hd_rx_turn cfg stale c = Some c'"
  obtains b pk ws es th fl fs where "hl_rx_done c = (b, seal_frame (fst pk) (snd pk)) # ws" "pkt_ok pk"
    "c' = c\<lparr>hl_slave := (hl_slave c)\<lparr>sh_events := es, sh_throttling := th, sh_flow := fl, sh_flow_sem := fs,
       sh_rx := prio_send (slave_rx_handle b pk (seal_frame (fst pk) (snd pk) @ drop (12 + length (snd pk)) stale)) (sh_rx (hl_slave c))\<rparr>,
       hl_rx_done := ws\<rparr>"
    "frame_of_pkt pk (seal_frame (fst pk) (snd pk) @ drop (12 + length (snd pk)) stale)"
proof -
  obtain w ws where w: "hl_rx_done c = w # ws" using assms(3) by (auto simp: hd_rx_turn_def split: list.splits)
  show thesis
    by (rule rx_turn_eq [OF assms(1,2) w, where cfg = cfg]) (use that [where b = "fst w"] w assms(3) in auto)
qed

lemma inv_hd_rx_turn:
  assumes "hd_inv hs dp hr ss sr c" "length stale = 1600" "hd_rx_turn cfg stale c = Some c'"
  shows "hd_inv hs dp hr ss sr c'"
proof -
  let ?s = "hl_slave c"
  obtain b pk ws es th fl fs where w: "hl_rx_done c = (b, seal_frame (fst pk) (snd pk)) # ws" "pkt_ok pk"
    and c': "c' = c\<lparr>hl_slave := ?s\<lparr>sh_events := es, sh_throttling := th, sh_flow := fl, sh_flow_sem := fs,
       sh_rx := prio_send (slave_rx_handle b pk (seal_frame (fst pk) (snd pk) @ drop (12 + length (snd pk)) stale)) (sh_rx ?s)\<rparr>,
       hl_rx_done := ws\<rparr>"
    and fp: "frame_of_pkt pk (seal_frame (fst pk) (snd pk) @ drop (12 + length (snd pk)) stale)"
    using rx_turn_cases [OF assms] .
  define b' where "b' = slave_rx_handle b pk (seal_frame (fst pk) (snd pk) @ drop (12 + length (snd pk)) stale)"
  have e: "slave_rx_pkt b' = pk" using rx_handle_pkt(2) [OF fp] by (simp add: slave_rx_pkt_def b'_def)
  have pr: "pkt_prio (slave_rx_pkt b') = prio_of (bh_if_type b')"
    unfolding e by (simp add: pkt_prio_def b'_def slave_rx_handle_def)
  have sq: "sorted_q slave_rx_pkt (sh_rx ?s)" using assms(1) by (simp add: hd_inv_def hd_queues_def Let_def)
  note snd = sorted_q_send [of slave_rx_pkt, OF sq pr]
  have "of_prio k (hd_down c') = of_prio k (hd_down c)" for k
    using snd(2) of_prio_Cons [of k pk "map (\<lambda>w. frame_pkt (snd w)) ws"] w
    by (simp add: hd_down_def c' b'_def [symmetric] e sent_frame_pkt)
  then have "hd_fifo_down hs dp hr c'" using assms(1) by (simp add: hd_inv_def hd_fifo_down_def) (simp add: c')
  moreover have "hd_queues c'" using assms(1) w snd(1) by (simp add: hd_inv_def hd_queues_def hd_txs_def c' b'_def Let_def)
  moreover have "hd_counters c'" using assms(1) by (simp add: hd_inv_def hd_counters_def c' Let_def)
  moreover have "hd_fifo_up ss sr c'" using assms(1) by (simp add: hd_inv_def hd_fifo_up_def hd_up_def hd_txs_def c')
  ultimately show ?thesis by (simp add: hd_inv_def)
qed

lemma hd_run_inv: "hd_run hs dp hr ss sr c \<Longrightarrow> hd_inv hs dp hr ss sr c"
proof (induction rule: hd_run.induct)
  case (Hd_Slave_Rx hs dp hr ss sr c cfg r bh s')
  then have "hd_inv hs dp (hr @ [slave_rx_pkt bh]) ss sr (c\<lparr>hl_slave := s'\<rparr>\<lparr>hl_held := hl_held c @ [bh_priv bh]\<rparr>)"
    using inv_hd_slave_rx by (simp only: inv_hd_done_cong)
  then show ?case by simp
next
  case (Hd_Slave_Done hs dp hr ss sr c b rc)
  have "hd_inv hs dp hr ss sr (c\<lparr>hl_slave := spi_hd_read_done rc b (hl_slave c)\<rparr>)"
    by (rule inv_hd_slave_cong [OF Hd_Slave_Done.IH]) (simp_all add: spi_hd_read_done_def)
  then show ?case by simp
next
  case (Hd_Reclaim hs dp hr ss sr c c')
  then obtain b bs where "c' = c\<lparr>hl_tx_done := bs, hl_slave := (hl_slave c)\<lparr>sh_tx_sem := sh_tx_sem (hl_slave c) + 1\<rparr>\<rparr>"
    by (auto simp: hd_reclaim_def spi_hd_tx_done_step_def split: list.splits)
  then show ?case using inv_hd_slave_cong [OF Hd_Reclaim.IH] by simp
qed (blast intro: inv_hd_start inv_hd_host_tx inv_hd_write inv_hd_read inv_hd_host_rx inv_hd_slave_tx inv_hd_slave_flow
    inv_hd_load_tx inv_hd_load_rx inv_hd_rx_turn)+

section \<open>Progress\<close>

text \<open>
  Turns of the two drivers when nothing else happens. Upwards the peripheral loads the next transaction and the host
  reads it; downwards the co-processor takes what it has received and gives the buffers back, and the host writes into
  the buffer that is loaded.
\<close>

definition hd_up_turn :: "nat \<Rightarrow> hd_link \<Rightarrow> hd_link option" where
  "hd_up_turn rb c = (case hl_tx c of None \<Rightarrow> hd_load_tx 1 c | Some _ \<Rightarrow> hd_read rb c)"

definition hd_slave_read :: "nat \<times> u8 \<Rightarrow> hd_link \<Rightarrow> (interface_buffer_handle \<times> hd_link) option" where
  "hd_slave_read cfg c = do {
     ((r, got), s) \<leftarrow> esp_spi_hd_read cfg True (hl_slave c);
     bh \<leftarrow> got;
     Some (bh, c\<lparr>hl_slave := s, hl_held := hl_held c @ [bh_priv bh]\<rparr>)
   }"

definition hd_down_turn :: "nat \<times> u8 \<Rightarrow> nat \<times> u8 \<Rightarrow> bytes \<Rightarrow> hd_link \<Rightarrow> hd_link option" where
  "hd_down_turn high low stale c =
     (if hl_rx_done c \<noteq> [] then hd_rx_turn high stale c
      else if q_all (sh_rx (hl_slave c)) \<noteq> [] then map_option snd (hd_slave_read low c)
      else if hl_held c \<noteq> []
      then Some (c\<lparr>hl_held := remove1 (hd (hl_held c)) (hl_held c), hl_slave := spi_hd_read_done 0 (hd (hl_held c)) (hl_slave c)\<rparr>)
      else if hl_rx c = None then hd_load_rx c
      else hd_write True [(0, sh_reg_rx (hl_slave c))] 0 c)"

primrec hd_turns :: "(hd_link \<Rightarrow> hd_link option) \<Rightarrow> nat \<Rightarrow> hd_link \<Rightarrow> hd_link option" where
  "hd_turns turn 0 c = Some c"
| "hd_turns turn (Suc n) c = turn c \<bind> hd_turns turn n"

lemma up_turns:
  assumes "hd_run hs dp hr ss sr c" "rb \<noteq> 0" "n = 2 * length (sh_tx_q (hl_slave c)) + (if hl_tx c = None then 0 else 1)"
  shows "\<exists>c'. hd_turns (hd_up_turn rb) n c = Some c' \<and> hd_run hs dp hr ss sr c' \<and> hd_txs c' = []"
  using assms(1,3)
proof (induction n arbitrary: c)
  case 0
  then show ?case by (auto simp: hd_txs_def split: if_splits)
next
  case (Suc n)
  note i = hd_run_inv [OF Suc.prems(1)]
  show ?case
  proof (cases "hl_tx c")
    case None
    then obtain t ts where q: "sh_tx_q (hl_slave c) = t # ts" using Suc.prems(2) by (cases "sh_tx_q (hl_slave c)") auto
    obtain c1 where c1: "hd_load_tx (Suc 0) c = Some c1" using None q by (simp add: hd_load_tx_def Let_def)
    have "hl_tx c1 \<noteq> None \<and> sh_tx_q (hl_slave c1) = ts"
      by (rule load_tx_cases [OF i c1]) (simp add: q)
    then have "n = 2 * length (sh_tx_q (hl_slave c1)) + (if hl_tx c1 = None then 0 else 1)" using Suc.prems(2) None q by simp
    then show ?thesis
      using Suc.IH [OF Hd_Load_Tx [OF Suc.prems(1) c1]] c1 None by (auto simp: hd_up_turn_def)
  next
    case (Some t)
    obtain b f where t: "t = (b, f)" by (cases t)
    obtain c1 where c1: "hd_read rb c = Some c1" using read_turn(1) [OF i Some [unfolded t] assms(2)] by blast
    have "hl_tx c1 = None \<and> sh_tx_q (hl_slave c1) = sh_tx_q (hl_slave c)"
      by (rule read_step_cases [OF i c1]) (simp add: cb_cmd9_recv_def)
    then have "n = 2 * length (sh_tx_q (hl_slave c1)) + (if hl_tx c1 = None then 0 else 1)" using Suc.prems(2) Some by simp
    then show ?thesis
      using Suc.IH [OF Hd_Host_Read [OF Suc.prems(1) c1]] c1 Some by (auto simp: hd_up_turn_def)
  qed
qed

text \<open>The turns that are left, at most, until everything sent downwards has been read.\<close>

definition hd_down_work :: "hd_link \<Rightarrow> nat" where
  "hd_down_work c = 5 * length (q_all (hd_to_slave (hl_host c))) + 3 * length (hl_rx_done c) +
     2 * length (q_all (sh_rx (hl_slave c))) + length (hl_held c) + (if hl_rx c = None then 1 else 0)"

definition hd_down_idle :: "hd_link \<Rightarrow> bool" where
  "hd_down_idle c = (q_all (hd_to_slave (hl_host c)) = [] \<and> hl_rx_done c = [] \<and> q_all (sh_rx (hl_slave c)) = [])"

text \<open>What a turn keeps.\<close>

definition hd_down_ok :: "hd_link \<Rightarrow> hd_link \<Rightarrow> bool" where
  "hd_down_ok c c' = (hd_start (hl_host c') = hd_start (hl_host c) \<and> rx_buffers c' = rx_buffers c \<and>
     hd_down_work c' < hd_down_work c)"

lemma down_turn_receive:
  assumes "hd_run hs dp hr ss sr c" "length stale = 1600" "hl_rx_done c = w # ws"
  shows "\<exists>c'. hd_rx_turn cfg stale c = Some c' \<and> hd_run hs dp hr ss sr c' \<and> hd_down_ok c c'"
proof (rule rx_turn_eq [OF hd_run_inv [OF assms(1)] assms(2,3), where cfg = cfg])
  fix pk es th fl fs
  let ?c' = "c\<lparr>hl_slave := (hl_slave c)\<lparr>sh_events := es, sh_throttling := th, sh_flow := fl,
       sh_flow_sem := fs, sh_rx := prio_send (slave_rx_handle (fst w) pk
         (seal_frame (fst pk) (snd pk) @ drop (12 + length (snd pk)) stale)) (sh_rx (hl_slave c))\<rparr>, hl_rx_done := ws\<rparr>"
  assume t: "hd_rx_turn cfg stale c = Some ?c'"
  have "bh_priv (slave_rx_handle (fst w) pk g) = fst w" for g by (simp add: slave_rx_handle_def)
  then have "hd_down_ok c ?c'" using assms(3) by (simp add: hd_down_ok_def hd_down_work_def rx_buffers_def)
  then show ?thesis using t Hd_Rx_Turn [OF assms(1,2) t] by blast
qed

lemma down_turn_read:
  assumes "hd_run hs dp hr ss sr c" "q_all (sh_rx (hl_slave c)) \<noteq> []"
  shows "\<exists>bh c'. hd_slave_read cfg c = Some (bh, c') \<and> hd_run hs dp (hr @ [slave_rx_pkt bh]) ss sr c' \<and> hd_down_ok c c'"
proof -
  let ?s = "hl_slave c"
  have i: "sorted_q slave_rx_pkt (sh_rx ?s)" "sh_state ?s = IF_ACTIVE"
    using hd_run_inv [OF assms(1)] by (simp_all add: hd_inv_def hd_queues_def hd_counters_def Let_def)
  have sem: "pq_sem (sh_rx ?s) \<noteq> 0" using i(1) assms(2) by (simp add: sorted_q_def)
  obtain got q where q: "prio_recv (sh_rx ?s) = (got, q)" by fastforce
  obtain bh where bh: "got = Some bh" "q_all (sh_rx ?s) = bh # q_all q"
    using sorted_q_recv [OF i(1) sem q, where thesis = thesis] by metis
  let ?s1 = "hd_stop_rx_data_throttling_if_needed (fst cfg) (snd cfg) (?s\<lparr>sh_rx := q\<lparr>pq_sem := pq_sem q - 1\<rparr>\<rparr>)"
  obtain th fl fs where s1: "?s1 = ?s\<lparr>sh_rx := q\<lparr>pq_sem := pq_sem q - 1\<rparr>, sh_throttling := th, sh_flow := fl, sh_flow_sem := fs\<rparr>"
    using stop_throttle_fields by metis
  have r: "esp_spi_hd_read cfg True ?s = Some ((int (unat (bh_payload_len bh)), Some bh), ?s1)"
    using i(2) sem q bh(1) by (simp add: esp_spi_hd_read_def)
  have "hd_down_ok c (c\<lparr>hl_slave := ?s1, hl_held := hl_held c @ [bh_priv bh]\<rparr>)"
    unfolding s1 using bh(2) by (simp add: hd_down_ok_def hd_down_work_def rx_buffers_def)
  then show ?thesis
    using r Hd_Slave_Rx [OF assms(1) r] by (auto simp: hd_slave_read_def)
qed

lemma down_turn_write:
  assumes "hd_run hs dp hr ss sr c" "q_all (hd_to_slave (hl_host c)) \<noteq> []" "hl_rx c = Some b" "hd_start (hl_host c)"
  shows "\<exists>c'. hd_write True [(0, sh_reg_rx (hl_slave c))] 0 c = Some c' \<and> hd_run hs dp hr ss sr c' \<and> hd_down_ok c c'"
proof -
  let ?h = "hl_host c" and ?reg = "sh_reg_rx (hl_slave c)"
  have i: "sorted_q host_pkt (hd_to_slave ?h)" "hd_avail ?h = 0" "hd_tx_needed ?h" "?reg - hd_tx_count ?h = 1"
      "\<forall>b \<in> set (q_all (hd_to_slave ?h)). hd_host_ok b"
    using hd_run_inv [OF assms(1)] assms(3) by (simp_all add: hd_inv_def hd_queues_def hd_counters_def Let_def)
  have sem: "pq_sem (hd_to_slave ?h) \<noteq> 0" using i(1) assms(2) by (simp add: sorted_q_def)
  obtain got q where q: "prio_recv (hd_to_slave ?h) = (got, q)" by fastforce
  obtain bh where bh: "got = Some bh" "q_all (hd_to_slave ?h) = bh # q_all q"
    using sorted_q_recv [OF i(1) sem q, where thesis = thesis] by metis
  define h1 where "h1 = ?h\<lparr>hd_to_slave := q\<lparr>pq_sem := pq_sem q - 1\<rparr>, hd_tx_needed := True, hd_handle := bh\<rparr>"
  have "hd_host_ok bh" using i(5) bh(2) by simp
  then obtain fr where "spi_hd_write_packet True True [(0, ?reg)] 0 bh h1 = Some (H_OK, fr, hd_sent bh h1)"
    using write_packet_sent [of bh h1 ?reg] i(2,4) by (auto simp: h1_def)
  then have "spi_hd_write_step True True [(0, ?reg)] 0 ?h = Some (fr, hd_sent bh h1)"
    using assms(4) sem q bh(1) i(3) by (simp add: spi_hd_write_step_def h1_def)
  then have w: "hd_write True [(0, ?reg)] 0 c = Some (c\<lparr>hl_host := hd_sent bh h1, hl_rx := None,
      hl_rx_done := hl_rx_done c @ [(b, seal_frame (fst (host_pkt bh)) (snd (host_pkt bh)))]\<rparr>)"
    using assms(3) by (simp add: hd_write_def hd_sent_def h1_def)
  have "hd_down_ok c (c\<lparr>hl_host := hd_sent bh h1, hl_rx := None,
      hl_rx_done := hl_rx_done c @ [(b, seal_frame (fst (host_pkt bh)) (snd (host_pkt bh)))]\<rparr>)"
    using bh(2) assms(3) by (simp add: hd_down_ok_def hd_down_work_def rx_buffers_def hd_sent_def h1_def)
  moreover have "hd_run hs dp hr ss sr (c\<lparr>hl_host := hd_sent bh h1, hl_rx := None,
      hl_rx_done := hl_rx_done c @ [(b, seal_frame (fst (host_pkt bh)) (snd (host_pkt bh)))]\<rparr>)"
    using Hd_Host_Write [OF assms(1) q [unfolded bh(1)] _ w] by (simp add: hd_sent_def h1_def)
  ultimately show ?thesis using w by blast
qed

lemma down_turn:
  assumes "hd_run hs dp hr ss sr c" "hd_start (hl_host c)" "rx_buffers c \<noteq> {#}" "length stale = 1600" "\<not> hd_down_idle c"
  shows "\<exists>c' zs. hd_down_turn high low stale c = Some c' \<and> hd_run hs dp (hr @ zs) ss sr c' \<and> hd_down_ok c c'"
proof -
  have nil: "hd_run hs dp hr ss sr c1 \<Longrightarrow> \<exists>zs. hd_run hs dp (hr @ zs) ss sr c1" for c1 by (metis append_Nil2)
  consider (rx) w ws where "hl_rx_done c = w # ws"
    | (rd) "hl_rx_done c = []" "q_all (sh_rx (hl_slave c)) \<noteq> []"
    | (held) b bs where "hl_rx_done c = []" "q_all (sh_rx (hl_slave c)) = []" "hl_held c = b # bs"
    | (load) "hl_rx_done c = []" "q_all (sh_rx (hl_slave c)) = []" "hl_held c = []" "hl_rx c = None"
    | (wr) b where "hl_rx_done c = []" "q_all (sh_rx (hl_slave c)) = []" "hl_held c = []" "hl_rx c = Some b"
    by (metis list.exhaust option.exhaust)
  then show ?thesis
  proof cases
    case rx
    then show ?thesis using down_turn_receive [OF assms(1,4) rx, of high] rx nil by (auto simp: hd_down_turn_def)
  next
    case rd
    then show ?thesis using down_turn_read [OF assms(1) rd(2), of low] rd by (auto simp: hd_down_turn_def)
  next
    case held
    let ?c' = "c\<lparr>hl_held := remove1 b (hl_held c), hl_slave := spi_hd_read_done 0 b (hl_slave c)\<rparr>"
    have "hd_down_ok c ?c'" using held by (simp add: hd_down_ok_def hd_down_work_def rx_buffers_def spi_hd_read_done_def)
    moreover have "hd_run hs dp hr ss sr ?c'" using held by (intro Hd_Slave_Done [OF assms(1)]) simp
    ultimately show ?thesis using held nil by (auto simp: hd_down_turn_def)
  next
    case load
    then obtain b bs where b: "sh_rx_q (hl_slave c) = b # bs"
      using assms(3) by (cases "sh_rx_q (hl_slave c)") (auto simp: rx_buffers_def)
    then have l: "hd_load_rx c = Some (c\<lparr>hl_rx := Some b, hl_slave := cb_rx_ready ((hl_slave c)\<lparr>sh_rx_q := bs\<rparr>)\<rparr>)"
      using load(4) by (simp add: hd_load_rx_def)
    have "hd_down_ok c (c\<lparr>hl_rx := Some b, hl_slave := cb_rx_ready ((hl_slave c)\<lparr>sh_rx_q := bs\<rparr>)\<rparr>)"
      using load b by (simp add: hd_down_ok_def hd_down_work_def rx_buffers_def cb_rx_ready_def Let_def)
    then show ?thesis using load l Hd_Load_Rx [OF assms(1) l] nil by (auto simp: hd_down_turn_def)
  next
    case wr
    then have "q_all (hd_to_slave (hl_host c)) \<noteq> []" using assms(5) by (simp add: hd_down_idle_def)
    from down_turn_write [OF assms(1) this wr(4) assms(2)] show ?thesis using wr nil by (auto simp: hd_down_turn_def)
  qed
qed

lemma down_turns:
  assumes "hd_run hs dp hr ss sr c" "hd_start (hl_host c)" "rx_buffers c \<noteq> {#}" "length stale = 1600"
  shows "\<exists>n c' zs. n \<le> hd_down_work c \<and> hd_turns (hd_down_turn high low stale) n c = Some c' \<and>
    hd_run hs dp (hr @ zs) ss sr c' \<and> hd_down_idle c'"
  using assms(1-3)
proof (induction "hd_down_work c" arbitrary: c hr rule: less_induct)
  case less
  show ?case
  proof (cases "hd_down_idle c")
    case True
    then show ?thesis using less.prems(1) by (intro exI [of _ 0] exI [of _ c] exI [of _ "[]"]) simp
  next
    case False
    obtain c1 ys where c1: "hd_down_turn high low stale c = Some c1" "hd_run hs dp (hr @ ys) ss sr c1" "hd_down_ok c c1"
      using down_turn [OF less.prems assms(4) False] by blast
    then obtain n c' zs where "n \<le> hd_down_work c1" "hd_turns (hd_down_turn high low stale) n c1 = Some c'"
        "hd_run hs dp ((hr @ ys) @ zs) ss sr c'" "hd_down_idle c'"
      using less.hyps [of c1 "hr @ ys"] less.prems by (auto simp: hd_down_ok_def)
    then show ?thesis
      using c1 by (intro exI [of _ "Suc n"] exI [of _ c'] exI [of _ "ys @ zs"]) (auto simp: hd_down_ok_def)
  qed
qed

section \<open>Properties\<close>

text \<open>
  A run: the co-processor announces itself with its start-up event, the host reads it and opens the data path, and a
  station packet is given to the host driver.
\<close>

definition hd_demo_start :: "hd_link option" where
  "hd_demo_start = do {
     h \<leftarrow> spi_hd_bus_init (\<lambda>_. True) spi_hd_boot;
     s \<leftarrow> esp_spi_hd_init 2 (\<lambda>_. True) [1] slave_spi_hd_boot;
     s \<leftarrow> spi_hd_startup_event True 4 0 [1, 1, 2] (spi_hd_preload [(1, 0)] s);
     Some \<lparr>hl_host = h, hl_slave = s, hl_tx = None, hl_tx_done = [], hl_rx = None, hl_rx_done = [], hl_held = [],
       hl_overrun = False\<rparr>
   }"

definition hd_demo_read :: "hd_link option" where
  "hd_demo_read = hd_demo_start \<bind> hd_turns (hd_up_turn 3) 2"

definition demo_hd_bh :: interface_buffer_handle where
  "demo_hd_bh = zero_handle\<lparr>bh_payload := Some [7, 8], bh_payload_len := 2, bh_if_type := 1, bh_priv := 5, bh_free := True\<rparr>"

text \<open>What the host has read then, and what it makes of it.\<close>

definition hd_demo_ok :: "hd_link \<Rightarrow> bool" where
  "hd_demo_ok c = (let q = hd_from_slave (hl_host c) in pq_sem q \<noteq> 0 \<and> rx_buffers c \<noteq> {#} \<and>
     (case fst (prio_recv q) of None \<Rightarrow> False
      | Some bh \<Rightarrow> bh_if_type bh = if_code ESP_PRIV_IF \<and> slave_pkt bh = untyped (startup_pkt [1, 1, 2]) \<and>
          (case bh_payload bh of None \<Rightarrow> False | Some p \<Rightarrow> mem_slice p 0 (unat (bh_payload_len bh)) \<noteq> None)))"

lemma demo_hd_read:
  "\<exists>c. hd_run [] [] [] [untyped (startup_pkt [1, 1, 2])] [] c \<and> hd_demo_ok c"
proof -
  have r: "case hd_demo_read of None \<Rightarrow> False | Some c \<Rightarrow> hd_demo_ok c" by code_simp
  have l: "case hd_demo_start of None \<Rightarrow> False | Some c \<Rightarrow> length (sh_tx_q (hl_slave c)) = 1 \<and> hl_tx c = None" by code_simp
  obtain c1 where c1: "hd_demo_read = Some c1" "hd_demo_ok c1" using r that by (simp split: option.splits)
  then obtain c0 where c0: "hd_demo_start = Some c0" "hd_turns (hd_up_turn 3) 2 c0 = Some c1"
    unfolding hd_demo_read_def bind_eq_Some_conv by blast
  have r0: "hd_run [] [] [] [untyped (startup_pkt [1, 1, 2])] [] c0"
    using c0(1) by (auto simp: hd_demo_start_def bind_eq_Some_conv intro: Hd_Start)
  have "(2 :: nat) = 2 * length (sh_tx_q (hl_slave c0)) + (if hl_tx c0 = None then 0 else 1)" using l unfolding c0(1) by simp
  then obtain c' where "hd_turns (hd_up_turn 3) 2 c0 = Some c'" "hd_run [] [] [] [untyped (startup_pkt [1, 1, 2])] [] c'"
    using up_turns [OF r0, of 3 2] by auto
  then show ?thesis using c0(2) c1(2) by auto
qed

lemma demo_hd_run:
  "\<exists>c. hd_run [host_pkt demo_hd_bh] [] [] [untyped (startup_pkt [1, 1, 2])] [untyped (startup_pkt [1, 1, 2])] c \<and>
     hd_start (hl_host c) \<and> rx_buffers c \<noteq> {#}"
proof -
  obtain c where c: "hd_run [] [] [] [untyped (startup_pkt [1, 1, 2])] [] c" "hd_demo_ok c" using demo_hd_read by blast
  let ?h = "hl_host c"
  obtain bh q where bh: "prio_recv (hd_from_slave ?h) = (Some bh, q)" "bh_if_type bh = if_code ESP_PRIV_IF"
      "slave_pkt bh = untyped (startup_pkt [1, 1, 2])" and sem: "pq_sem (hd_from_slave ?h) \<noteq> 0"
      and p: "case bh_payload bh of None \<Rightarrow> False | Some p \<Rightarrow> mem_slice p 0 (unat (bh_payload_len bh)) \<noteq> None"
    using c(2) unfolding hd_demo_ok_def Let_def
    by (cases "prio_recv (hd_from_slave ?h)"; cases "fst (prio_recv (hd_from_slave ?h))") simp_all
  obtain pl d where pl: "bh_payload bh = Some pl" "mem_slice pl 0 (unat (bh_payload_len bh)) = Some d"
    using p by (cases "bh_payload bh") auto
  define h1 where "h1 = ?h\<lparr>hd_from_slave := q\<lparr>pq_sem := pq_sem q - 1\<rparr>, hd_start := True\<rparr>"
  have "\<exists>fr. spi_hd_process_rx_step True 9 True (\<lambda>_. False) (?h, ll) = Some (RX_Priv d, fr, h1, ll)" for ll
    using bh(1,2) pl sem by (simp add: spi_hd_process_rx_step_def bus_rx_dispatch_def h1_def Let_def)
  then have r: "hd_run [] [] [] [untyped (startup_pkt [1, 1, 2])] [untyped (startup_pkt [1, 1, 2])] (c\<lparr>hl_host := h1\<rparr>)"
    using Hd_Host_Rx [OF c(1) _ bh(1)] bh(3) by (metis append_Nil)
  obtain res fr h2 where t: "spi_hd_esp_hosted_tx True (bh_if_type demo_hd_bh) (bh_if_num demo_hd_bh) (bh_payload demo_hd_bh)
      (bh_payload_len demo_hd_bh) (bh_zcopy demo_hd_bh) (bh_priv demo_hd_bh) (bh_free demo_hd_bh) (bh_flag demo_hd_bh) h1 = (res, fr, h2)"
    by (metis prod.exhaust)
  have ok: "host_ok demo_hd_bh" "bh_flag demo_hd_bh AND FLAG_POWER_SAVE_STOPPED = 0" by code_simp+
  have "hd_start h2" using t by (simp add: spi_hd_esp_hosted_tx_def demo_hd_bh_def h1_def zero_handle_def Let_def) (auto simp: h1_def)
  then show ?thesis
    using Hd_Host_Tx [OF r ok, of res fr h2] t c(2) by (auto simp: hd_demo_ok_def rx_buffers_def Let_def)
qed

text \<open>
  C35: the half-duplex SPI link loses, duplicates and reorders nothing within a priority: whatever the co-processor's
  driver has accepted has been dispatched by the host or is on its way, and whatever the host driver was given is in its
  queue, was dropped by its write task (no credit after all retries, or the bus failed), has been read by the co-processor
  or is on its way. The host never writes while the co-processor has no buffer loaded.
\<close>
theorem spi_hd_exchange:
  assumes "hd_run hs dp hr ss sr c"
  shows "(\<forall>k. of_prio k ss = of_prio k sr @ of_prio k (hd_up c)) \<and>
    (\<forall>k. \<exists>zs. of_prio k hs = zs @ of_prio k (map host_pkt (q_all (hd_to_slave (hl_host c)))) \<and>
       zs \<in> shuffles (of_prio k dp) (of_prio k hr @ of_prio k (hd_down c))) \<and> \<not> hl_overrun c"
  using hd_run_inv [OF assms] by (simp add: hd_inv_def hd_fifo_up_def hd_fifo_down_def hd_counters_def Let_def)

theorem spi_hd_exchange_witness:
  "\<exists>c. hd_run [host_pkt demo_hd_bh] [] [] [untyped (startup_pkt [1, 1, 2])] [untyped (startup_pkt [1, 1, 2])] c \<and>
     of_prio 2 (hd_up c) = [] \<and> \<not> hl_overrun c"
proof -
  obtain c where c: "hd_run [host_pkt demo_hd_bh] [] [] [untyped (startup_pkt [1, 1, 2])] [untyped (startup_pkt [1, 1, 2])] c"
    using demo_hd_run by blast
  then show ?thesis using spi_hd_exchange [OF c] by (metis append_self_conv)
qed

text \<open>
  C36: nothing accepted is stranded on the half-duplex link, from any state of it in which the start-up event has
  started the write task of the host, while memory can be allocated and bus transfers succeed. Reading whenever the
  data-ready interrupt calls for it, the host has everything the co-processor has accepted after two turns for each packet that
  waits, and one for a transaction already loaded. With a receive buffer in circulation the data path reaches a state
  where the co-processor has read everything the host was given but has not dropped; the turns are at most five for
  each packet queued at the host, three for each that has been received, two for each that waits to be read, one for
  each buffer to give back, and one to load a buffer when none is loaded.
\<close>
theorem spi_hd_delivers:
  assumes "hd_run hs dp hr ss sr c" "rb \<noteq> 0" "hd_start (hl_host c)" "rx_buffers c \<noteq> {#}" "length stale = 1600"
  shows "(\<exists>c'. hd_turns (hd_up_turn rb) (2 * length (sh_tx_q (hl_slave c)) + (if hl_tx c = None then 0 else 1)) c = Some c' \<and>
       (\<forall>k. of_prio k ss = of_prio k (sr @ map slave_pkt (q_all (hd_from_slave (hl_host c')))))) \<and>
    (\<exists>n c' zs. n \<le> 5 * length (q_all (hd_to_slave (hl_host c))) + 3 * length (hl_rx_done c) +
         2 * length (q_all (sh_rx (hl_slave c))) + length (hl_held c) + (if hl_rx c = None then 1 else 0) \<and>
       hd_turns (hd_down_turn high low stale) n c = Some c' \<and> hd_run hs dp (hr @ zs) ss sr c' \<and>
       (\<forall>k. of_prio k hs \<in> shuffles (of_prio k dp) (of_prio k (hr @ zs))))"
proof (intro conjI)
  obtain c1 where u: "hd_turns (hd_up_turn rb) (2 * length (sh_tx_q (hl_slave c)) + (if hl_tx c = None then 0 else 1)) c = Some c1"
      "hd_run hs dp hr ss sr c1" "hd_txs c1 = []"
    using up_turns [OF assms(1,2) refl] by blast
  then have "\<forall>k. of_prio k ss = of_prio k (sr @ map slave_pkt (q_all (hd_from_slave (hl_host c1))))"
    using hd_run_inv [OF u(2)] by (simp add: hd_inv_def hd_fifo_up_def hd_up_def tx_pkts_def)
  then show "\<exists>c'. hd_turns (hd_up_turn rb) (2 * length (sh_tx_q (hl_slave c)) + (if hl_tx c = None then 0 else 1)) c = Some c' \<and>
       (\<forall>k. of_prio k ss = of_prio k (sr @ map slave_pkt (q_all (hd_from_slave (hl_host c')))))" using u(1) by blast
next
  obtain n c1 zs where d: "n \<le> hd_down_work c" "hd_turns (hd_down_turn high low stale) n c = Some c1"
      "hd_run hs dp (hr @ zs) ss sr c1" "hd_down_idle c1"
    using down_turns [OF assms(1,3-5)] by blast
  have "\<forall>k. of_prio k hs \<in> shuffles (of_prio k dp) (of_prio k (hr @ zs))"
    using hd_run_inv [OF d(3)] d(4)
    by (auto simp: hd_inv_def hd_fifo_down_def hd_down_def hd_down_idle_def of_prio_def)
  then show "\<exists>n c' zs. n \<le> 5 * length (q_all (hd_to_slave (hl_host c))) + 3 * length (hl_rx_done c) +
         2 * length (q_all (sh_rx (hl_slave c))) + length (hl_held c) + (if hl_rx c = None then 1 else 0) \<and>
       hd_turns (hd_down_turn high low stale) n c = Some c' \<and> hd_run hs dp (hr @ zs) ss sr c' \<and>
       (\<forall>k. of_prio k hs \<in> shuffles (of_prio k dp) (of_prio k (hr @ zs)))"
    using d(1-3) unfolding hd_down_work_def by blast
qed

theorem spi_hd_delivers_witness:
  "\<exists>c n c' zs. hd_run [host_pkt demo_hd_bh] [] [] [untyped (startup_pkt [1, 1, 2])] [untyped (startup_pkt [1, 1, 2])] c \<and>
     n \<le> hd_down_work c \<and> hd_turns (hd_down_turn (80, 1) (60, 1) (replicate 1600 0)) n c = Some c' \<and>
     of_prio 2 [host_pkt demo_hd_bh] \<in> shuffles [] (of_prio 2 zs)"
proof -
  obtain c where c: "hd_run [host_pkt demo_hd_bh] [] [] [untyped (startup_pkt [1, 1, 2])] [untyped (startup_pkt [1, 1, 2])] c"
      "hd_start (hl_host c)" "rx_buffers c \<noteq> {#}"
    using demo_hd_run by blast
  have "of_prio 2 [] = ([] :: pkt list)" by (simp add: of_prio_def)
  then show ?thesis
    using spi_hd_delivers [OF c(1) _ c(2,3), of 3 "replicate 1600 0" "(80, 1)" "(60, 1)", folded hd_down_work_def] c(1)
    by (metis append_Nil length_replicate zero_neq_numeral)
qed

end
