(* ===== verification/Slave_Ota.thy ===== *)
theory Slave_Ota
  imports Serial_Tlv
begin

text \<open>
  The over-the-air update requests of the co-processor (\<open>src/slave/main/slave_control.c\<close>): begin, write,
  end and activate, with the state they share (\<open>ota_status\<close>, \<open>update_partition\<close>, \<open>first_ota_write\<close>,
  \<open>handle\<close>).

  The update library of ESP-IDF enters through its results, which are arguments; \<open>ot_log\<close> records the
  calls the handlers make, in order. A handler returns its own result, the \<open>resp\<close> field of the reply
  (\<open>None\<close>: no reply payload was attached) and the new state; \<open>None\<close> as a whole is a read through a null
  pointer.
\<close>

section \<open>State\<close>

datatype ota_status =
    OTA_NOT_STARTED
  | OTA_IN_PROGRESS
  | OTA_FAILED
  | OTA_COMPLETED
  | OTA_ACTIVATED

text \<open>
  The calls: \<open>esp_ota_begin\<close> (partition, result, handle), \<open>esp_ota_write\<close> (handle, data, result),
  \<open>esp_ota_end\<close> (handle, result), \<open>esp_ota_set_boot_partition\<close> (partition, result), and the creation of the
  restart timer with the success of its start.
\<close>

datatype ota_call =
    Ota_Begin nat esp_err nat
  | Ota_Write nat bytes esp_err
  | Ota_End nat esp_err
  | Set_Boot "nat option" esp_err
  | Restart_Timer bool

record ota =
  ot_status :: ota_status
  ot_part :: "nat option"
  ot_first :: bool
  ot_handle :: nat
  ot_log :: "ota_call list"

definition ota_init :: ota where
  "ota_init = \<lparr>ot_status = OTA_NOT_STARTED, ot_part = None, ot_first = False, ot_handle = 0, ot_log = []\<rparr>"

definition log_call :: "ota_call \<Rightarrow> ota \<Rightarrow> ota" where
  "log_call c st = st\<lparr>ot_log := ot_log st @ [c]\<rparr>"

type_synonym ota_result = "esp_err \<times> esp_err option \<times> ota"

abbreviation (input) ESP_ERR_INVALID_SIZE :: esp_err where "ESP_ERR_INVALID_SIZE \<equiv> ESP_ERR_OTHER 0x104"

section \<open>Handlers\<close>

text \<open>
  \<open>ptrs\<close>: request and response are not null. \<open>mem\<close>: the reply payload can be allocated. \<open>next_part\<close>: the
  result of \<open>esp_ota_get_next_update_partition\<close>. \<open>ret\<close>, \<open>h\<close>: the result of \<open>esp_ota_begin\<close> and the handle
  after it.
\<close>

definition req_ota_begin_handler :: "bool \<Rightarrow> bool \<Rightarrow> nat option \<Rightarrow> esp_err \<Rightarrow> nat \<Rightarrow> ota \<Rightarrow> ota_result" where
  "req_ota_begin_handler ptrs mem next_part ret h st =
     (if \<not> ptrs then (ESP_FAIL, None, st)
      else if \<not> mem then (ESP_ERR_NO_MEM, None, st)
      else
        let st = st\<lparr>ot_part := next_part\<rparr> in
        case next_part of
          None \<Rightarrow> (ESP_OK, Some ESP_FAIL, st)
        | Some p \<Rightarrow>
            let st = log_call (Ota_Begin p ret h) (st\<lparr>ot_handle := h\<rparr>) in
            if ret \<noteq> ESP_OK then (ESP_OK, Some ret, st)
            else (ESP_OK, Some ESP_OK, st\<lparr>ot_status := OTA_IN_PROGRESS, ot_first := True\<rparr>))"

text \<open>
  \<open>chk\<close>: \<open>H_OTA_CHECK_IMAGE_VALIDITY\<close>; \<open>hdr\<close>: the size of the three headers; \<open>body\<close>: \<open>req->req_ota_write\<close>,
  dereferenced without a check; \<open>validity\<close>: the result of the image check, which reads the type of
  \<open>update_partition\<close>.
\<close>

definition ota_first_check :: "bool \<Rightarrow> nat \<Rightarrow> bytes \<Rightarrow> esp_err \<Rightarrow> ota \<Rightarrow> esp_err option" where
  "ota_first_check chk hdr d validity st =
     (if \<not> chk then Some ESP_OK
      else if length d < hdr then Some ESP_ERR_INVALID_SIZE
      else if ot_part st = None then None
      else Some validity)"

definition req_ota_write_handler ::
  "bool \<Rightarrow> nat \<Rightarrow> bool \<Rightarrow> bool \<Rightarrow> bytes option \<Rightarrow> esp_err \<Rightarrow> esp_err \<Rightarrow> ota \<Rightarrow> ota_result option" where
  "req_ota_write_handler chk hdr ptrs mem body validity ret st =
     (if \<not> ptrs then Some (ESP_FAIL, None, st)
      else if \<not> mem then Some (ESP_ERR_NO_MEM, None, st)
      else case body of None \<Rightarrow> None
        | Some d \<Rightarrow>
            (case (if ot_first st then ota_first_check chk hdr d validity st else Some ESP_OK) of
               None \<Rightarrow> None
             | Some v \<Rightarrow>
                 let st = st\<lparr>ot_first := False\<rparr> in
                 if v \<noteq> ESP_OK then Some (ESP_OK, Some v, st)
                 else Some (ESP_OK, Some ret, log_call (Ota_Write (ot_handle st) d ret) st)))"

definition req_ota_end_handler :: "bool \<Rightarrow> bool \<Rightarrow> esp_err \<Rightarrow> ota \<Rightarrow> ota_result" where
  "req_ota_end_handler ptrs mem ret st =
     (if \<not> ptrs then (ESP_FAIL, None, st)
      else if \<not> mem then (ESP_ERR_NO_MEM, None, st)
      else
        let st = log_call (Ota_End (ot_handle st) ret) st in
        if ret \<noteq> ESP_OK then (ESP_OK, Some ret, st\<lparr>ot_status := OTA_FAILED\<rparr>)
        else (ESP_OK, Some ESP_OK, st\<lparr>ot_status := OTA_COMPLETED\<rparr>))"

text \<open>\<open>tcreate\<close>, \<open>tstart\<close>: the restart timer can be created and started. The reply of the early exits is the
  \<open>ESP_OK\<close> that \<open>ret\<close> was set to before the \<open>switch\<close>.\<close>

definition req_ota_activate_handler :: "bool \<Rightarrow> bool \<Rightarrow> esp_err \<Rightarrow> bool \<Rightarrow> bool \<Rightarrow> ota \<Rightarrow> ota_result" where
  "req_ota_activate_handler ptrs mem ret tcreate tstart st =
     (if \<not> ptrs then (ESP_FAIL, None, st)
      else if \<not> mem then (ESP_ERR_NO_MEM, None, st)
      else case ot_status st of
          OTA_COMPLETED \<Rightarrow>
            (let st = log_call (Set_Boot (ot_part st) ret) st in
             if ret \<noteq> ESP_OK then (ESP_OK, Some ret, st)
             else
               let st = st\<lparr>ot_status := OTA_ACTIVATED\<rparr> in
               if \<not> tcreate then (ESP_OK, Some ESP_FAIL, st)
               else
                 let st = log_call (Restart_Timer tstart) st in
                 if \<not> tstart then (ESP_OK, Some (ESP_ERR_OTHER (- 2)), st)
                 else (ESP_OK, Some ESP_OK, st))
        | _ \<Rightarrow> (ESP_OK, Some ESP_OK, st))"

section \<open>Requests in sequence\<close>

text \<open>One update request with the answers of the platform.\<close>

datatype ota_request =
    OTABegin bool "nat option" esp_err nat
  | OTAWrite bool "bytes option" esp_err esp_err
  | OTAEnd bool esp_err
  | OTAActivate bool esp_err bool bool

primrec ota_step :: "bool \<Rightarrow> nat \<Rightarrow> ota_request \<Rightarrow> ota \<Rightarrow> ota_result option" where
  "ota_step chk hdr (OTABegin mem p ret h) st = Some (req_ota_begin_handler True mem p ret h st)"
| "ota_step chk hdr (OTAWrite mem d v ret) st = req_ota_write_handler chk hdr True mem d v ret st"
| "ota_step chk hdr (OTAEnd mem ret) st = Some (req_ota_end_handler True mem ret st)"
| "ota_step chk hdr (OTAActivate mem ret tc ts) st = Some (req_ota_activate_handler True mem ret tc ts st)"

fun ota_run :: "bool \<Rightarrow> nat \<Rightarrow> ota_request list \<Rightarrow> ota \<Rightarrow> ota option" where
  "ota_run chk hdr [] st = Some st"
| "ota_run chk hdr (r # rs) st =
     (case ota_step chk hdr r st of None \<Rightarrow> None | Some (_, _, st') \<Rightarrow> ota_run chk hdr rs st')"

section \<open>The image that was written\<close>

text \<open>
  The abstract view of a log: the update that is under way, as partition, handle, the octets accepted so
  far, and whether it has been closed successfully. This is what the log did to the flash, independently of
  the variables of the handlers.
\<close>

record image =
  im_part :: nat
  im_handle :: nat
  im_data :: bytes
  im_closed :: bool

fun image_step :: "ota_call \<Rightarrow> image option \<Rightarrow> image option" where
  "image_step (Ota_Begin p ret h) im =
     (if ret = ESP_OK then Some \<lparr>im_part = p, im_handle = h, im_data = [], im_closed = False\<rparr> else im)"
| "image_step (Ota_Write h d ret) (Some im) =
     (if ret = ESP_OK \<and> h = im_handle im \<and> \<not> im_closed im then Some (im\<lparr>im_data := im_data im @ d\<rparr>) else Some im)"
| "image_step (Ota_End h ret) (Some im) =
     (if ret = ESP_OK \<and> h = im_handle im then Some (im\<lparr>im_closed := True\<rparr>) else Some im)"
| "image_step _ im = im"

definition image_of :: "ota_call list \<Rightarrow> image option" where
  "image_of log = fold image_step log None"

text \<open>A condition on every call of a log, which may depend on the image at that point.\<close>

fun log_all :: "(image option \<Rightarrow> ota_call \<Rightarrow> bool) \<Rightarrow> image option \<Rightarrow> ota_call list \<Rightarrow> bool" where
  "log_all P im [] = True"
| "log_all P im (c # cs) = (P im c \<and> log_all P (image_step c im) cs)"

text \<open>Every choice of a boot partition is that of the image last begun, and that image was closed.\<close>

fun boot_ok :: "image option \<Rightarrow> ota_call \<Rightarrow> bool" where
  "boot_ok (Some im) (Set_Boot p ret) = (im_closed im \<and> p = Some (im_part im))"
| "boot_ok None (Set_Boot p ret) = False"
| "boot_ok _ _ = True"

text \<open>The contract of the platform: it closes only an update it has begun.\<close>

fun end_known :: "image option \<Rightarrow> ota_call \<Rightarrow> bool" where
  "end_known im (Ota_End h ret) = (ret = ESP_OK \<longrightarrow> im \<noteq> None)"
| "end_known _ _ = True"

definition boots_written_image :: "ota_call list \<Rightarrow> bool" where
  "boots_written_image log = log_all boot_ok None log"

definition ends_known :: "ota_call list \<Rightarrow> bool" where
  "ends_known log = log_all end_known None log"

text \<open>No \<open>begin\<close> is refused: there is a partition, and the library accepts it.\<close>

definition begins_granted :: "ota_request list \<Rightarrow> bool" where
  "begins_granted rs =
     list_all (\<lambda>r. case r of OTABegin mem p ret h \<Rightarrow> mem \<longrightarrow> p \<noteq> None \<and> ret = ESP_OK | _ \<Rightarrow> True) rs"

section \<open>Lemmas\<close>

lemma log_all_append:
  "log_all P im (xs @ ys) = (log_all P im xs \<and> log_all P (fold image_step xs im) ys)"
  by (induction xs arbitrary: im) auto

lemma image_of_append [simp]: "image_of (log @ cs) = fold image_step cs (image_of log)"
  by (simp add: image_of_def)

lemma boots_append [simp]:
  "boots_written_image (log @ cs) = (boots_written_image log \<and> log_all boot_ok (image_of log) cs)"
  by (simp add: boots_written_image_def log_all_append image_of_def)

lemma ends_append [simp]: "ends_known (log @ cs) = (ends_known log \<and> log_all end_known (image_of log) cs)"
  by (simp add: ends_known_def log_all_append image_of_def)

lemma begins_granted_Cons: "begins_granted (r # rs) = (begins_granted [r] \<and> begins_granted rs)"
  by (simp add: begins_granted_def)

text \<open>The variables of the handlers describe the image of the log.\<close>

definition ota_inv :: "ota \<Rightarrow> bool" where
  "ota_inv st = (boots_written_image (ot_log st) \<and>
     (\<forall>im. image_of (ot_log st) = Some im \<longrightarrow> ot_part st = Some (im_part im) \<and> ot_handle st = im_handle im) \<and>
     (ot_status st = OTA_COMPLETED \<longrightarrow> (\<exists>im. image_of (ot_log st) = Some im \<and> im_closed im)))"

lemma ota_init_inv: "ota_inv ota_init"
  by (simp add: ota_inv_def ota_init_def boots_written_image_def image_of_def)

lemma begin_inv:
  assumes "ota_inv st" "req_ota_begin_handler True mem p ret h st = (e, r, st')"
    and "mem \<longrightarrow> p \<noteq> None \<and> ret = ESP_OK"
  shows "ota_inv st'"
  using assms by (auto simp: req_ota_begin_handler_def ota_inv_def log_call_def Let_def split: if_splits option.splits)

lemma write_inv:
  assumes "ota_inv st" "req_ota_write_handler chk hdr True mem d v ret st = Some (e, r, st')"
  shows "ota_inv st'"
  using assms
  by (cases "image_of (ot_log st)")
    (auto simp: req_ota_write_handler_def ota_inv_def log_call_def Let_def split: if_splits option.splits)

lemma end_inv:
  assumes "ota_inv st" "req_ota_end_handler True mem ret st = (e, r, st')" "ends_known (ot_log st')"
  shows "ota_inv st'"
  using assms
  by (cases "image_of (ot_log st)")
    (auto simp: req_ota_end_handler_def ota_inv_def log_call_def Let_def split: if_splits option.splits)

lemma activate_inv:
  assumes "ota_inv st" "req_ota_activate_handler True mem ret tc ts st = (e, r, st')"
  shows "ota_inv st'"
  using assms
  by (cases "image_of (ot_log st)"; cases "ot_status st")
    (auto simp: req_ota_activate_handler_def ota_inv_def log_call_def Let_def split: if_splits)

lemma ota_step_log: "ota_step chk hdr r st = Some (e, x, st') \<Longrightarrow> \<exists>ys. ot_log st' = ot_log st @ ys"
  by (cases r) (auto simp: req_ota_begin_handler_def req_ota_write_handler_def req_ota_end_handler_def
      req_ota_activate_handler_def log_call_def Let_def split: if_splits option.splits ota_status.splits)

lemma ota_run_log: "ota_run chk hdr rs st = Some st' \<Longrightarrow> \<exists>ys. ot_log st' = ot_log st @ ys"
proof (induction rs arbitrary: st)
  case (Cons r rs)
  then obtain e x st1 where s: "ota_step chk hdr r st = Some (e, x, st1)" "ota_run chk hdr rs st1 = Some st'"
    by (auto split: option.splits)
  obtain ys zs where "ot_log st1 = ot_log st @ ys" "ot_log st' = ot_log st1 @ zs"
    using ota_step_log [OF s(1)] Cons.IH [OF s(2)] by blast
  then show ?case by simp
qed simp

lemma ota_step_inv:
  assumes "ota_inv st" "ota_step chk hdr r st = Some (e, x, st')" "begins_granted [r]" "ends_known (ot_log st')"
  shows "ota_inv st'"
proof (cases r)
  case (OTABegin mem p ret h)
  then show ?thesis using assms begin_inv [of st mem p ret h e x st'] by (simp add: begins_granted_def)
next
  case (OTAWrite mem d v ret)
  then show ?thesis using assms write_inv [of st chk hdr mem d v ret e x st'] by simp
next
  case (OTAEnd mem ret)
  then show ?thesis using assms end_inv [of st mem ret e x st'] by simp
next
  case (OTAActivate mem ret tc ts)
  then show ?thesis using assms activate_inv [of st mem ret tc ts e x st'] by simp
qed

lemma ota_run_inv:
  "ota_run chk hdr rs st = Some st' \<Longrightarrow> ota_inv st \<Longrightarrow> begins_granted rs \<Longrightarrow> ends_known (ot_log st') \<Longrightarrow> ota_inv st'"
proof (induction rs arbitrary: st)
  case (Cons r rs)
  then obtain e x st1 where s: "ota_step chk hdr r st = Some (e, x, st1)" "ota_run chk hdr rs st1 = Some st'"
    by (auto split: option.splits)
  obtain ys where "ot_log st' = ot_log st1 @ ys" using ota_run_log [OF s(2)] by blast
  then have "ends_known (ot_log st1)" using Cons.prems(4) by simp
  moreover have g: "begins_granted [r]" "begins_granted rs" using Cons.prems(3) by (subst (asm) begins_granted_Cons, simp)+
  ultimately have "ota_inv st1" using ota_step_inv [OF Cons.prems(2) s(1)] by simp
  then show ?case using Cons.IH [OF s(2) _ g(2) Cons.prems(4)] by simp
qed simp

section \<open>Properties\<close>

text \<open>
  C28: in every sequence of update requests in which no begin is refused and the platform closes only
  updates it has begun, every boot partition the co-processor selects holds the image that was begun last and
  was closed successfully; the variables of the handlers name that partition and its handle.
\<close>
theorem ota_boots_written_image:
  assumes "ota_run chk hdr rs ota_init = Some st" "begins_granted rs" "ends_known (ot_log st)"
  shows "boots_written_image (ot_log st) \<and>
    (\<forall>im. image_of (ot_log st) = Some im \<longrightarrow> ot_part st = Some (im_part im) \<and> ot_handle st = im_handle im)"
  using ota_run_inv [OF assms(1) ota_init_inv assms(2,3)] by (simp add: ota_inv_def)

theorem ota_boots_written_image_witness:
  "\<exists>st. ota_run True 2 [OTABegin True (Some 5) ESP_OK 7, OTAWrite True (Some [1, 2, 3]) ESP_OK ESP_OK,
      OTAEnd True ESP_OK, OTAActivate True ESP_OK True True] ota_init = Some st \<and>
    Set_Boot (Some 5) ESP_OK \<in> set (ot_log st) \<and> boots_written_image (ot_log st)"
proof -
  let ?rs = "[OTABegin True (Some 5) ESP_OK 7, OTAWrite True (Some [1, 2, 3]) ESP_OK ESP_OK,
      OTAEnd True ESP_OK, OTAActivate True ESP_OK True True]"
  let ?st = "\<lparr>ot_status = OTA_ACTIVATED, ot_part = Some 5, ot_first = False, ot_handle = 7,
      ot_log = [Ota_Begin 5 ESP_OK 7, Ota_Write 7 [1, 2, 3] ESP_OK, Ota_End 7 ESP_OK, Set_Boot (Some 5) ESP_OK,
        Restart_Timer True]\<rparr>"
  have r: "ota_run True 2 ?rs ota_init = Some ?st"
    by (simp add: req_ota_begin_handler_def req_ota_write_handler_def req_ota_end_handler_def
        req_ota_activate_handler_def ota_first_check_def log_call_def ota_init_def Let_def)
  have "begins_granted ?rs" "ends_known (ot_log ?st)"
    by (simp_all add: begins_granted_def ends_known_def)
  then have "boots_written_image (ot_log ?st)" using ota_boots_written_image [OF r] by blast
  with r show ?thesis by (intro exI [of _ ?st]) simp
qed

text \<open>
  Without the hypothesis on begin the guarantee fails: when an update is complete, a further begin that
  the library refuses leaves the status complete but has already replaced the partition, so that an
  activation selects a partition to which nothing was written; and an activation in any other state answers
  with success although it selects nothing.
\<close>
lemma ota_refused_begin_boots_stale_partition:
  assumes "ot_status st = OTA_COMPLETED" "ret \<noteq> ESP_OK"
  shows "\<exists>st1 st2. ota_step chk hdr (OTABegin True (Some p) ret h) st = Some (ESP_OK, Some ret, st1) \<and>
    ota_step chk hdr (OTAActivate True ESP_OK True True) st1 = Some (ESP_OK, Some ESP_OK, st2) \<and>
    ot_log st2 = ot_log st @ [Ota_Begin p ret h, Set_Boot (Some p) ESP_OK, Restart_Timer True] \<and>
    image_of (ot_log st2) = image_of (ot_log st) \<and>
    (\<forall>st'. ot_status st' \<noteq> OTA_COMPLETED \<longrightarrow>
       ota_step chk hdr (OTAActivate True e tc ts) st' = Some (ESP_OK, Some ESP_OK, st'))"
proof -
  have other: "\<forall>st'. ot_status st' \<noteq> OTA_COMPLETED \<longrightarrow>
       ota_step chk hdr (OTAActivate True e tc ts) st' = Some (ESP_OK, Some ESP_OK, st')"
    by (simp add: req_ota_activate_handler_def split: ota_status.splits)
  then show ?thesis
    using assms
    by (simp add: req_ota_begin_handler_def req_ota_activate_handler_def log_call_def Let_def)
qed

text \<open>A first chunk that fails the image check is dropped, and the next chunk is written without any check.\<close>

lemma ota_check_skipped_after_rejection:
  assumes "ot_first st" "length d1 < hdr"
  shows "\<exists>st1. ota_step True hdr (OTAWrite True (Some d1) v ESP_OK) st = Some (ESP_OK, Some ESP_ERR_INVALID_SIZE, st1) \<and>
    ota_step True hdr (OTAWrite True (Some d2) v2 ESP_OK) st1 =
      Some (ESP_OK, Some ESP_OK, log_call (Ota_Write (ot_handle st) d2 ESP_OK) (st\<lparr>ot_first := False\<rparr>))"
  using assms by (simp add: req_ota_write_handler_def ota_first_check_def log_call_def Let_def)

text \<open>A write request without a body is a read through a null pointer.\<close>

lemma ota_write_without_body: "ota_step chk hdr (OTAWrite True None v ret) st = None"
  by (simp add: req_ota_write_handler_def)

end
