(* ===== verification/Rpc_Ids.thy ===== *)
theory Rpc_Ids
  imports Rpc_Core
begin

text \<open>
  Message identifiers (\<open>RpcId\<close>) and the numbers of the members of the payload union (\<open>Rpc__PayloadCase\<close>) as
  \<open>src/common/proto/esp_hosted_rpc.pb-c.h\<close> numbers them, for the messages either processor handles. A
  member is named after its field, so \<open>F_req_ota_begin\<close> is the number of \<open>req_ota_begin\<close>.
\<close>

section \<open>Identifiers\<close>

abbreviation (input) RPC_ID_Req_Max :: int where "RPC_ID_Req_Max \<equiv> 397"
abbreviation (input) RPC_ID_Req_GetMACAddress :: int where "RPC_ID_Req_GetMACAddress \<equiv> 257"
abbreviation (input) RPC_ID_Req_SetMacAddress :: int where "RPC_ID_Req_SetMacAddress \<equiv> 258"
abbreviation (input) RPC_ID_Req_GetWifiMode :: int where "RPC_ID_Req_GetWifiMode \<equiv> 259"
abbreviation (input) RPC_ID_Req_SetWifiMode :: int where "RPC_ID_Req_SetWifiMode \<equiv> 260"
abbreviation (input) RPC_ID_Req_SuppDppInit :: int where "RPC_ID_Req_SuppDppInit \<equiv> 261"
abbreviation (input) RPC_ID_Req_SuppDppDeinit :: int where "RPC_ID_Req_SuppDppDeinit \<equiv> 262"
abbreviation (input) RPC_ID_Req_SuppDppBootstrapGen :: int where "RPC_ID_Req_SuppDppBootstrapGen \<equiv> 263"
abbreviation (input) RPC_ID_Req_SuppDppStartListen :: int where "RPC_ID_Req_SuppDppStartListen \<equiv> 264"
abbreviation (input) RPC_ID_Req_SuppDppStopListen :: int where "RPC_ID_Req_SuppDppStopListen \<equiv> 265"
abbreviation (input) RPC_ID_Req_OTAActivate :: int where "RPC_ID_Req_OTAActivate \<equiv> 266"
abbreviation (input) RPC_ID_Req_AppGetDesc :: int where "RPC_ID_Req_AppGetDesc \<equiv> 267"
abbreviation (input) RPC_ID_Req_MemMonitor :: int where "RPC_ID_Req_MemMonitor \<equiv> 268"
abbreviation (input) RPC_ID_Req_WifiScanParams :: int where "RPC_ID_Req_WifiScanParams \<equiv> 269"
abbreviation (input) RPC_ID_Req_WifiSetPs :: int where "RPC_ID_Req_WifiSetPs \<equiv> 270"
abbreviation (input) RPC_ID_Req_WifiGetPs :: int where "RPC_ID_Req_WifiGetPs \<equiv> 271"
abbreviation (input) RPC_ID_Req_OTABegin :: int where "RPC_ID_Req_OTABegin \<equiv> 272"
abbreviation (input) RPC_ID_Req_OTAWrite :: int where "RPC_ID_Req_OTAWrite \<equiv> 273"
abbreviation (input) RPC_ID_Req_OTAEnd :: int where "RPC_ID_Req_OTAEnd \<equiv> 274"
abbreviation (input) RPC_ID_Req_WifiSetMaxTxPower :: int where "RPC_ID_Req_WifiSetMaxTxPower \<equiv> 275"
abbreviation (input) RPC_ID_Req_WifiGetMaxTxPower :: int where "RPC_ID_Req_WifiGetMaxTxPower \<equiv> 276"
abbreviation (input) RPC_ID_Req_ConfigHeartbeat :: int where "RPC_ID_Req_ConfigHeartbeat \<equiv> 277"
abbreviation (input) RPC_ID_Req_WifiInit :: int where "RPC_ID_Req_WifiInit \<equiv> 278"
abbreviation (input) RPC_ID_Req_WifiDeinit :: int where "RPC_ID_Req_WifiDeinit \<equiv> 279"
abbreviation (input) RPC_ID_Req_WifiStart :: int where "RPC_ID_Req_WifiStart \<equiv> 280"
abbreviation (input) RPC_ID_Req_WifiStop :: int where "RPC_ID_Req_WifiStop \<equiv> 281"
abbreviation (input) RPC_ID_Req_WifiConnect :: int where "RPC_ID_Req_WifiConnect \<equiv> 282"
abbreviation (input) RPC_ID_Req_WifiDisconnect :: int where "RPC_ID_Req_WifiDisconnect \<equiv> 283"
abbreviation (input) RPC_ID_Req_WifiSetConfig :: int where "RPC_ID_Req_WifiSetConfig \<equiv> 284"
abbreviation (input) RPC_ID_Req_WifiGetConfig :: int where "RPC_ID_Req_WifiGetConfig \<equiv> 285"
abbreviation (input) RPC_ID_Req_WifiScanStart :: int where "RPC_ID_Req_WifiScanStart \<equiv> 286"
abbreviation (input) RPC_ID_Req_WifiScanStop :: int where "RPC_ID_Req_WifiScanStop \<equiv> 287"
abbreviation (input) RPC_ID_Req_WifiScanGetApNum :: int where "RPC_ID_Req_WifiScanGetApNum \<equiv> 288"
abbreviation (input) RPC_ID_Req_WifiScanGetApRecords :: int where "RPC_ID_Req_WifiScanGetApRecords \<equiv> 289"
abbreviation (input) RPC_ID_Req_WifiClearApList :: int where "RPC_ID_Req_WifiClearApList \<equiv> 290"
abbreviation (input) RPC_ID_Req_WifiRestore :: int where "RPC_ID_Req_WifiRestore \<equiv> 291"
abbreviation (input) RPC_ID_Req_WifiClearFastConnect :: int where "RPC_ID_Req_WifiClearFastConnect \<equiv> 292"
abbreviation (input) RPC_ID_Req_WifiDeauthSta :: int where "RPC_ID_Req_WifiDeauthSta \<equiv> 293"
abbreviation (input) RPC_ID_Req_WifiStaGetApInfo :: int where "RPC_ID_Req_WifiStaGetApInfo \<equiv> 294"
abbreviation (input) RPC_ID_Req_WifiSetProtocol :: int where "RPC_ID_Req_WifiSetProtocol \<equiv> 297"
abbreviation (input) RPC_ID_Req_WifiGetProtocol :: int where "RPC_ID_Req_WifiGetProtocol \<equiv> 298"
abbreviation (input) RPC_ID_Req_WifiSetBandwidth :: int where "RPC_ID_Req_WifiSetBandwidth \<equiv> 299"
abbreviation (input) RPC_ID_Req_WifiGetBandwidth :: int where "RPC_ID_Req_WifiGetBandwidth \<equiv> 300"
abbreviation (input) RPC_ID_Req_WifiSetChannel :: int where "RPC_ID_Req_WifiSetChannel \<equiv> 301"
abbreviation (input) RPC_ID_Req_WifiGetChannel :: int where "RPC_ID_Req_WifiGetChannel \<equiv> 302"
abbreviation (input) RPC_ID_Req_WifiSetCountry :: int where "RPC_ID_Req_WifiSetCountry \<equiv> 303"
abbreviation (input) RPC_ID_Req_WifiGetCountry :: int where "RPC_ID_Req_WifiGetCountry \<equiv> 304"
abbreviation (input) RPC_ID_Req_WifiApGetStaList :: int where "RPC_ID_Req_WifiApGetStaList \<equiv> 311"
abbreviation (input) RPC_ID_Req_WifiApGetStaAid :: int where "RPC_ID_Req_WifiApGetStaAid \<equiv> 312"
abbreviation (input) RPC_ID_Req_WifiSetStorage :: int where "RPC_ID_Req_WifiSetStorage \<equiv> 313"
abbreviation (input) RPC_ID_Req_WifiSetInactiveTime :: int where "RPC_ID_Req_WifiSetInactiveTime \<equiv> 325"
abbreviation (input) RPC_ID_Req_WifiGetInactiveTime :: int where "RPC_ID_Req_WifiGetInactiveTime \<equiv> 326"
abbreviation (input) RPC_ID_Req_WifiSetCountryCode :: int where "RPC_ID_Req_WifiSetCountryCode \<equiv> 334"
abbreviation (input) RPC_ID_Req_WifiGetCountryCode :: int where "RPC_ID_Req_WifiGetCountryCode \<equiv> 335"
abbreviation (input) RPC_ID_Req_WifiStaGetAid :: int where "RPC_ID_Req_WifiStaGetAid \<equiv> 338"
abbreviation (input) RPC_ID_Req_WifiStaGetNegotiatedPhymode :: int where "RPC_ID_Req_WifiStaGetNegotiatedPhymode \<equiv> 339"
abbreviation (input) RPC_ID_Req_WifiStaGetRssi :: int where "RPC_ID_Req_WifiStaGetRssi \<equiv> 341"
abbreviation (input) RPC_ID_Req_WifiSetProtocols :: int where "RPC_ID_Req_WifiSetProtocols \<equiv> 342"
abbreviation (input) RPC_ID_Req_WifiGetProtocols :: int where "RPC_ID_Req_WifiGetProtocols \<equiv> 343"
abbreviation (input) RPC_ID_Req_WifiSetBandwidths :: int where "RPC_ID_Req_WifiSetBandwidths \<equiv> 344"
abbreviation (input) RPC_ID_Req_WifiGetBandwidths :: int where "RPC_ID_Req_WifiGetBandwidths \<equiv> 345"
abbreviation (input) RPC_ID_Req_WifiSetBand :: int where "RPC_ID_Req_WifiSetBand \<equiv> 346"
abbreviation (input) RPC_ID_Req_WifiGetBand :: int where "RPC_ID_Req_WifiGetBand \<equiv> 347"
abbreviation (input) RPC_ID_Req_WifiSetBandMode :: int where "RPC_ID_Req_WifiSetBandMode \<equiv> 348"
abbreviation (input) RPC_ID_Req_WifiGetBandMode :: int where "RPC_ID_Req_WifiGetBandMode \<equiv> 349"
abbreviation (input) RPC_ID_Req_GetCoprocessorFwVersion :: int where "RPC_ID_Req_GetCoprocessorFwVersion \<equiv> 350"
abbreviation (input) RPC_ID_Req_WifiScanGetApRecord :: int where "RPC_ID_Req_WifiScanGetApRecord \<equiv> 351"
abbreviation (input) RPC_ID_Req_SetDhcpDnsStatus :: int where "RPC_ID_Req_SetDhcpDnsStatus \<equiv> 352"
abbreviation (input) RPC_ID_Req_GetDhcpDnsStatus :: int where "RPC_ID_Req_GetDhcpDnsStatus \<equiv> 353"
abbreviation (input) RPC_ID_Req_WifiStaTwtConfig :: int where "RPC_ID_Req_WifiStaTwtConfig \<equiv> 354"
abbreviation (input) RPC_ID_Req_WifiStaItwtSetup :: int where "RPC_ID_Req_WifiStaItwtSetup \<equiv> 355"
abbreviation (input) RPC_ID_Req_WifiStaItwtTeardown :: int where "RPC_ID_Req_WifiStaItwtTeardown \<equiv> 356"
abbreviation (input) RPC_ID_Req_WifiStaItwtSuspend :: int where "RPC_ID_Req_WifiStaItwtSuspend \<equiv> 357"
abbreviation (input) RPC_ID_Req_WifiStaItwtGetFlowIdStatus :: int where "RPC_ID_Req_WifiStaItwtGetFlowIdStatus \<equiv> 358"
abbreviation (input) RPC_ID_Req_WifiStaItwtSendProbeReq :: int where "RPC_ID_Req_WifiStaItwtSendProbeReq \<equiv> 359"
abbreviation (input) RPC_ID_Req_WifiStaItwtSetTargetWakeTimeOffset :: int where "RPC_ID_Req_WifiStaItwtSetTargetWakeTimeOffset \<equiv> 360"
abbreviation (input) RPC_ID_Req_WifiStaEnterpriseEnable :: int where "RPC_ID_Req_WifiStaEnterpriseEnable \<equiv> 361"
abbreviation (input) RPC_ID_Req_WifiStaEnterpriseDisable :: int where "RPC_ID_Req_WifiStaEnterpriseDisable \<equiv> 362"
abbreviation (input) RPC_ID_Req_EapSetIdentity :: int where "RPC_ID_Req_EapSetIdentity \<equiv> 363"
abbreviation (input) RPC_ID_Req_EapClearIdentity :: int where "RPC_ID_Req_EapClearIdentity \<equiv> 364"
abbreviation (input) RPC_ID_Req_EapSetUsername :: int where "RPC_ID_Req_EapSetUsername \<equiv> 365"
abbreviation (input) RPC_ID_Req_EapClearUsername :: int where "RPC_ID_Req_EapClearUsername \<equiv> 366"
abbreviation (input) RPC_ID_Req_EapSetPassword :: int where "RPC_ID_Req_EapSetPassword \<equiv> 367"
abbreviation (input) RPC_ID_Req_EapClearPassword :: int where "RPC_ID_Req_EapClearPassword \<equiv> 368"
abbreviation (input) RPC_ID_Req_EapSetNewPassword :: int where "RPC_ID_Req_EapSetNewPassword \<equiv> 369"
abbreviation (input) RPC_ID_Req_EapClearNewPassword :: int where "RPC_ID_Req_EapClearNewPassword \<equiv> 370"
abbreviation (input) RPC_ID_Req_EapSetCaCert :: int where "RPC_ID_Req_EapSetCaCert \<equiv> 371"
abbreviation (input) RPC_ID_Req_EapClearCaCert :: int where "RPC_ID_Req_EapClearCaCert \<equiv> 372"
abbreviation (input) RPC_ID_Req_EapSetCertificateAndKey :: int where "RPC_ID_Req_EapSetCertificateAndKey \<equiv> 373"
abbreviation (input) RPC_ID_Req_EapClearCertificateAndKey :: int where "RPC_ID_Req_EapClearCertificateAndKey \<equiv> 374"
abbreviation (input) RPC_ID_Req_EapGetDisableTimeCheck :: int where "RPC_ID_Req_EapGetDisableTimeCheck \<equiv> 375"
abbreviation (input) RPC_ID_Req_EapSetTtlsPhase2Method :: int where "RPC_ID_Req_EapSetTtlsPhase2Method \<equiv> 376"
abbreviation (input) RPC_ID_Req_EapSetSuitebCertification :: int where "RPC_ID_Req_EapSetSuitebCertification \<equiv> 377"
abbreviation (input) RPC_ID_Req_EapSetPacFile :: int where "RPC_ID_Req_EapSetPacFile \<equiv> 378"
abbreviation (input) RPC_ID_Req_EapSetFastParams :: int where "RPC_ID_Req_EapSetFastParams \<equiv> 379"
abbreviation (input) RPC_ID_Req_EapUseDefaultCertBundle :: int where "RPC_ID_Req_EapUseDefaultCertBundle \<equiv> 380"
abbreviation (input) RPC_ID_Req_WifiSetOkcSupport :: int where "RPC_ID_Req_WifiSetOkcSupport \<equiv> 381"
abbreviation (input) RPC_ID_Req_EapSetDomainName :: int where "RPC_ID_Req_EapSetDomainName \<equiv> 382"
abbreviation (input) RPC_ID_Req_EapSetDisableTimeCheck :: int where "RPC_ID_Req_EapSetDisableTimeCheck \<equiv> 383"
abbreviation (input) RPC_ID_Req_EapSetEapMethods :: int where "RPC_ID_Req_EapSetEapMethods \<equiv> 384"
abbreviation (input) RPC_ID_Req_IfaceMacAddrSetGet :: int where "RPC_ID_Req_IfaceMacAddrSetGet \<equiv> 385"
abbreviation (input) RPC_ID_Req_IfaceMacAddrLenGet :: int where "RPC_ID_Req_IfaceMacAddrLenGet \<equiv> 386"
abbreviation (input) RPC_ID_Req_FeatureControl :: int where "RPC_ID_Req_FeatureControl \<equiv> 387"
abbreviation (input) RPC_ID_Req_CustomRpc :: int where "RPC_ID_Req_CustomRpc \<equiv> 388"
abbreviation (input) RPC_ID_Req_GpioConfig :: int where "RPC_ID_Req_GpioConfig \<equiv> 389"
abbreviation (input) RPC_ID_Req_GpioResetPin :: int where "RPC_ID_Req_GpioResetPin \<equiv> 390"
abbreviation (input) RPC_ID_Req_GpioSetLevel :: int where "RPC_ID_Req_GpioSetLevel \<equiv> 391"
abbreviation (input) RPC_ID_Req_GpioGetLevel :: int where "RPC_ID_Req_GpioGetLevel \<equiv> 392"
abbreviation (input) RPC_ID_Req_GpioSetDirection :: int where "RPC_ID_Req_GpioSetDirection \<equiv> 393"
abbreviation (input) RPC_ID_Req_GpioInputEnable :: int where "RPC_ID_Req_GpioInputEnable \<equiv> 394"
abbreviation (input) RPC_ID_Req_GpioSetPullMode :: int where "RPC_ID_Req_GpioSetPullMode \<equiv> 395"
abbreviation (input) RPC_ID_Req_ExtCoex :: int where "RPC_ID_Req_ExtCoex \<equiv> 396"
abbreviation (input) RPC_ID_Resp_GetMACAddress :: int where "RPC_ID_Resp_GetMACAddress \<equiv> 513"
abbreviation (input) RPC_ID_Resp_SetMacAddress :: int where "RPC_ID_Resp_SetMacAddress \<equiv> 514"
abbreviation (input) RPC_ID_Resp_GetWifiMode :: int where "RPC_ID_Resp_GetWifiMode \<equiv> 515"
abbreviation (input) RPC_ID_Resp_SetWifiMode :: int where "RPC_ID_Resp_SetWifiMode \<equiv> 516"
abbreviation (input) RPC_ID_Resp_SuppDppInit :: int where "RPC_ID_Resp_SuppDppInit \<equiv> 517"
abbreviation (input) RPC_ID_Resp_SuppDppDeinit :: int where "RPC_ID_Resp_SuppDppDeinit \<equiv> 518"
abbreviation (input) RPC_ID_Resp_SuppDppBootstrapGen :: int where "RPC_ID_Resp_SuppDppBootstrapGen \<equiv> 519"
abbreviation (input) RPC_ID_Resp_SuppDppStartListen :: int where "RPC_ID_Resp_SuppDppStartListen \<equiv> 520"
abbreviation (input) RPC_ID_Resp_SuppDppStopListen :: int where "RPC_ID_Resp_SuppDppStopListen \<equiv> 521"
abbreviation (input) RPC_ID_Resp_OTAActivate :: int where "RPC_ID_Resp_OTAActivate \<equiv> 522"
abbreviation (input) RPC_ID_Resp_AppGetDesc :: int where "RPC_ID_Resp_AppGetDesc \<equiv> 523"
abbreviation (input) RPC_ID_Resp_MemMonitor :: int where "RPC_ID_Resp_MemMonitor \<equiv> 524"
abbreviation (input) RPC_ID_Resp_WifiScanParams :: int where "RPC_ID_Resp_WifiScanParams \<equiv> 525"
abbreviation (input) RPC_ID_Resp_WifiSetPs :: int where "RPC_ID_Resp_WifiSetPs \<equiv> 526"
abbreviation (input) RPC_ID_Resp_WifiGetPs :: int where "RPC_ID_Resp_WifiGetPs \<equiv> 527"
abbreviation (input) RPC_ID_Resp_OTABegin :: int where "RPC_ID_Resp_OTABegin \<equiv> 528"
abbreviation (input) RPC_ID_Resp_OTAWrite :: int where "RPC_ID_Resp_OTAWrite \<equiv> 529"
abbreviation (input) RPC_ID_Resp_OTAEnd :: int where "RPC_ID_Resp_OTAEnd \<equiv> 530"
abbreviation (input) RPC_ID_Resp_WifiSetMaxTxPower :: int where "RPC_ID_Resp_WifiSetMaxTxPower \<equiv> 531"
abbreviation (input) RPC_ID_Resp_WifiGetMaxTxPower :: int where "RPC_ID_Resp_WifiGetMaxTxPower \<equiv> 532"
abbreviation (input) RPC_ID_Resp_ConfigHeartbeat :: int where "RPC_ID_Resp_ConfigHeartbeat \<equiv> 533"
abbreviation (input) RPC_ID_Resp_WifiInit :: int where "RPC_ID_Resp_WifiInit \<equiv> 534"
abbreviation (input) RPC_ID_Resp_WifiDeinit :: int where "RPC_ID_Resp_WifiDeinit \<equiv> 535"
abbreviation (input) RPC_ID_Resp_WifiStart :: int where "RPC_ID_Resp_WifiStart \<equiv> 536"
abbreviation (input) RPC_ID_Resp_WifiStop :: int where "RPC_ID_Resp_WifiStop \<equiv> 537"
abbreviation (input) RPC_ID_Resp_WifiConnect :: int where "RPC_ID_Resp_WifiConnect \<equiv> 538"
abbreviation (input) RPC_ID_Resp_WifiDisconnect :: int where "RPC_ID_Resp_WifiDisconnect \<equiv> 539"
abbreviation (input) RPC_ID_Resp_WifiSetConfig :: int where "RPC_ID_Resp_WifiSetConfig \<equiv> 540"
abbreviation (input) RPC_ID_Resp_WifiGetConfig :: int where "RPC_ID_Resp_WifiGetConfig \<equiv> 541"
abbreviation (input) RPC_ID_Resp_WifiScanStart :: int where "RPC_ID_Resp_WifiScanStart \<equiv> 542"
abbreviation (input) RPC_ID_Resp_WifiScanStop :: int where "RPC_ID_Resp_WifiScanStop \<equiv> 543"
abbreviation (input) RPC_ID_Resp_WifiScanGetApNum :: int where "RPC_ID_Resp_WifiScanGetApNum \<equiv> 544"
abbreviation (input) RPC_ID_Resp_WifiScanGetApRecords :: int where "RPC_ID_Resp_WifiScanGetApRecords \<equiv> 545"
abbreviation (input) RPC_ID_Resp_WifiClearApList :: int where "RPC_ID_Resp_WifiClearApList \<equiv> 546"
abbreviation (input) RPC_ID_Resp_WifiRestore :: int where "RPC_ID_Resp_WifiRestore \<equiv> 547"
abbreviation (input) RPC_ID_Resp_WifiClearFastConnect :: int where "RPC_ID_Resp_WifiClearFastConnect \<equiv> 548"
abbreviation (input) RPC_ID_Resp_WifiDeauthSta :: int where "RPC_ID_Resp_WifiDeauthSta \<equiv> 549"
abbreviation (input) RPC_ID_Resp_WifiStaGetApInfo :: int where "RPC_ID_Resp_WifiStaGetApInfo \<equiv> 550"
abbreviation (input) RPC_ID_Resp_WifiSetProtocol :: int where "RPC_ID_Resp_WifiSetProtocol \<equiv> 553"
abbreviation (input) RPC_ID_Resp_WifiGetProtocol :: int where "RPC_ID_Resp_WifiGetProtocol \<equiv> 554"
abbreviation (input) RPC_ID_Resp_WifiSetBandwidth :: int where "RPC_ID_Resp_WifiSetBandwidth \<equiv> 555"
abbreviation (input) RPC_ID_Resp_WifiGetBandwidth :: int where "RPC_ID_Resp_WifiGetBandwidth \<equiv> 556"
abbreviation (input) RPC_ID_Resp_WifiSetChannel :: int where "RPC_ID_Resp_WifiSetChannel \<equiv> 557"
abbreviation (input) RPC_ID_Resp_WifiGetChannel :: int where "RPC_ID_Resp_WifiGetChannel \<equiv> 558"
abbreviation (input) RPC_ID_Resp_WifiSetCountry :: int where "RPC_ID_Resp_WifiSetCountry \<equiv> 559"
abbreviation (input) RPC_ID_Resp_WifiGetCountry :: int where "RPC_ID_Resp_WifiGetCountry \<equiv> 560"
abbreviation (input) RPC_ID_Resp_WifiApGetStaList :: int where "RPC_ID_Resp_WifiApGetStaList \<equiv> 567"
abbreviation (input) RPC_ID_Resp_WifiApGetStaAid :: int where "RPC_ID_Resp_WifiApGetStaAid \<equiv> 568"
abbreviation (input) RPC_ID_Resp_WifiSetStorage :: int where "RPC_ID_Resp_WifiSetStorage \<equiv> 569"
abbreviation (input) RPC_ID_Resp_WifiSetInactiveTime :: int where "RPC_ID_Resp_WifiSetInactiveTime \<equiv> 581"
abbreviation (input) RPC_ID_Resp_WifiGetInactiveTime :: int where "RPC_ID_Resp_WifiGetInactiveTime \<equiv> 582"
abbreviation (input) RPC_ID_Resp_WifiSetCountryCode :: int where "RPC_ID_Resp_WifiSetCountryCode \<equiv> 590"
abbreviation (input) RPC_ID_Resp_WifiGetCountryCode :: int where "RPC_ID_Resp_WifiGetCountryCode \<equiv> 591"
abbreviation (input) RPC_ID_Resp_WifiStaGetAid :: int where "RPC_ID_Resp_WifiStaGetAid \<equiv> 594"
abbreviation (input) RPC_ID_Resp_WifiStaGetNegotiatedPhymode :: int where "RPC_ID_Resp_WifiStaGetNegotiatedPhymode \<equiv> 595"
abbreviation (input) RPC_ID_Resp_WifiStaGetRssi :: int where "RPC_ID_Resp_WifiStaGetRssi \<equiv> 597"
abbreviation (input) RPC_ID_Resp_WifiSetProtocols :: int where "RPC_ID_Resp_WifiSetProtocols \<equiv> 598"
abbreviation (input) RPC_ID_Resp_WifiGetProtocols :: int where "RPC_ID_Resp_WifiGetProtocols \<equiv> 599"
abbreviation (input) RPC_ID_Resp_WifiSetBandwidths :: int where "RPC_ID_Resp_WifiSetBandwidths \<equiv> 600"
abbreviation (input) RPC_ID_Resp_WifiGetBandwidths :: int where "RPC_ID_Resp_WifiGetBandwidths \<equiv> 601"
abbreviation (input) RPC_ID_Resp_WifiSetBand :: int where "RPC_ID_Resp_WifiSetBand \<equiv> 602"
abbreviation (input) RPC_ID_Resp_WifiGetBand :: int where "RPC_ID_Resp_WifiGetBand \<equiv> 603"
abbreviation (input) RPC_ID_Resp_WifiSetBandMode :: int where "RPC_ID_Resp_WifiSetBandMode \<equiv> 604"
abbreviation (input) RPC_ID_Resp_WifiGetBandMode :: int where "RPC_ID_Resp_WifiGetBandMode \<equiv> 605"
abbreviation (input) RPC_ID_Resp_GetCoprocessorFwVersion :: int where "RPC_ID_Resp_GetCoprocessorFwVersion \<equiv> 606"
abbreviation (input) RPC_ID_Resp_WifiScanGetApRecord :: int where "RPC_ID_Resp_WifiScanGetApRecord \<equiv> 607"
abbreviation (input) RPC_ID_Resp_SetDhcpDnsStatus :: int where "RPC_ID_Resp_SetDhcpDnsStatus \<equiv> 608"
abbreviation (input) RPC_ID_Resp_WifiStaTwtConfig :: int where "RPC_ID_Resp_WifiStaTwtConfig \<equiv> 610"
abbreviation (input) RPC_ID_Resp_WifiStaItwtSetup :: int where "RPC_ID_Resp_WifiStaItwtSetup \<equiv> 611"
abbreviation (input) RPC_ID_Resp_WifiStaItwtTeardown :: int where "RPC_ID_Resp_WifiStaItwtTeardown \<equiv> 612"
abbreviation (input) RPC_ID_Resp_WifiStaItwtSuspend :: int where "RPC_ID_Resp_WifiStaItwtSuspend \<equiv> 613"
abbreviation (input) RPC_ID_Resp_WifiStaItwtGetFlowIdStatus :: int where "RPC_ID_Resp_WifiStaItwtGetFlowIdStatus \<equiv> 614"
abbreviation (input) RPC_ID_Resp_WifiStaItwtSendProbeReq :: int where "RPC_ID_Resp_WifiStaItwtSendProbeReq \<equiv> 615"
abbreviation (input) RPC_ID_Resp_WifiStaItwtSetTargetWakeTimeOffset :: int where "RPC_ID_Resp_WifiStaItwtSetTargetWakeTimeOffset \<equiv> 616"
abbreviation (input) RPC_ID_Resp_WifiStaEnterpriseEnable :: int where "RPC_ID_Resp_WifiStaEnterpriseEnable \<equiv> 617"
abbreviation (input) RPC_ID_Resp_WifiStaEnterpriseDisable :: int where "RPC_ID_Resp_WifiStaEnterpriseDisable \<equiv> 618"
abbreviation (input) RPC_ID_Resp_EapSetIdentity :: int where "RPC_ID_Resp_EapSetIdentity \<equiv> 619"
abbreviation (input) RPC_ID_Resp_EapClearIdentity :: int where "RPC_ID_Resp_EapClearIdentity \<equiv> 620"
abbreviation (input) RPC_ID_Resp_EapSetUsername :: int where "RPC_ID_Resp_EapSetUsername \<equiv> 621"
abbreviation (input) RPC_ID_Resp_EapClearUsername :: int where "RPC_ID_Resp_EapClearUsername \<equiv> 622"
abbreviation (input) RPC_ID_Resp_EapSetPassword :: int where "RPC_ID_Resp_EapSetPassword \<equiv> 623"
abbreviation (input) RPC_ID_Resp_EapClearPassword :: int where "RPC_ID_Resp_EapClearPassword \<equiv> 624"
abbreviation (input) RPC_ID_Resp_EapSetNewPassword :: int where "RPC_ID_Resp_EapSetNewPassword \<equiv> 625"
abbreviation (input) RPC_ID_Resp_EapClearNewPassword :: int where "RPC_ID_Resp_EapClearNewPassword \<equiv> 626"
abbreviation (input) RPC_ID_Resp_EapSetCaCert :: int where "RPC_ID_Resp_EapSetCaCert \<equiv> 627"
abbreviation (input) RPC_ID_Resp_EapClearCaCert :: int where "RPC_ID_Resp_EapClearCaCert \<equiv> 628"
abbreviation (input) RPC_ID_Resp_EapSetCertificateAndKey :: int where "RPC_ID_Resp_EapSetCertificateAndKey \<equiv> 629"
abbreviation (input) RPC_ID_Resp_EapClearCertificateAndKey :: int where "RPC_ID_Resp_EapClearCertificateAndKey \<equiv> 630"
abbreviation (input) RPC_ID_Resp_EapGetDisableTimeCheck :: int where "RPC_ID_Resp_EapGetDisableTimeCheck \<equiv> 631"
abbreviation (input) RPC_ID_Resp_EapSetTtlsPhase2Method :: int where "RPC_ID_Resp_EapSetTtlsPhase2Method \<equiv> 632"
abbreviation (input) RPC_ID_Resp_EapSetSuitebCertification :: int where "RPC_ID_Resp_EapSetSuitebCertification \<equiv> 633"
abbreviation (input) RPC_ID_Resp_EapSetPacFile :: int where "RPC_ID_Resp_EapSetPacFile \<equiv> 634"
abbreviation (input) RPC_ID_Resp_EapSetFastParams :: int where "RPC_ID_Resp_EapSetFastParams \<equiv> 635"
abbreviation (input) RPC_ID_Resp_EapUseDefaultCertBundle :: int where "RPC_ID_Resp_EapUseDefaultCertBundle \<equiv> 636"
abbreviation (input) RPC_ID_Resp_WifiSetOkcSupport :: int where "RPC_ID_Resp_WifiSetOkcSupport \<equiv> 637"
abbreviation (input) RPC_ID_Resp_EapSetDomainName :: int where "RPC_ID_Resp_EapSetDomainName \<equiv> 638"
abbreviation (input) RPC_ID_Resp_EapSetDisableTimeCheck :: int where "RPC_ID_Resp_EapSetDisableTimeCheck \<equiv> 639"
abbreviation (input) RPC_ID_Resp_EapSetEapMethods :: int where "RPC_ID_Resp_EapSetEapMethods \<equiv> 640"
abbreviation (input) RPC_ID_Resp_IfaceMacAddrSetGet :: int where "RPC_ID_Resp_IfaceMacAddrSetGet \<equiv> 641"
abbreviation (input) RPC_ID_Resp_IfaceMacAddrLenGet :: int where "RPC_ID_Resp_IfaceMacAddrLenGet \<equiv> 642"
abbreviation (input) RPC_ID_Resp_FeatureControl :: int where "RPC_ID_Resp_FeatureControl \<equiv> 643"
abbreviation (input) RPC_ID_Resp_CustomRpc :: int where "RPC_ID_Resp_CustomRpc \<equiv> 644"
abbreviation (input) RPC_ID_Resp_GpioConfig :: int where "RPC_ID_Resp_GpioConfig \<equiv> 645"
abbreviation (input) RPC_ID_Resp_GpioResetPin :: int where "RPC_ID_Resp_GpioResetPin \<equiv> 646"
abbreviation (input) RPC_ID_Resp_GpioSetLevel :: int where "RPC_ID_Resp_GpioSetLevel \<equiv> 647"
abbreviation (input) RPC_ID_Resp_GpioGetLevel :: int where "RPC_ID_Resp_GpioGetLevel \<equiv> 648"
abbreviation (input) RPC_ID_Resp_GpioSetDirection :: int where "RPC_ID_Resp_GpioSetDirection \<equiv> 649"
abbreviation (input) RPC_ID_Resp_GpioInputEnable :: int where "RPC_ID_Resp_GpioInputEnable \<equiv> 650"
abbreviation (input) RPC_ID_Resp_GpioSetPullMode :: int where "RPC_ID_Resp_GpioSetPullMode \<equiv> 651"
abbreviation (input) RPC_ID_Resp_ExtCoex :: int where "RPC_ID_Resp_ExtCoex \<equiv> 652"

section \<open>Members of the payload union\<close>

abbreviation (input) F_req_get_mac_address :: int where "F_req_get_mac_address \<equiv> 257"
abbreviation (input) F_req_set_mac_address :: int where "F_req_set_mac_address \<equiv> 258"
abbreviation (input) F_req_set_wifi_mode :: int where "F_req_set_wifi_mode \<equiv> 260"
abbreviation (input) F_req_supp_dpp_init :: int where "F_req_supp_dpp_init \<equiv> 261"
abbreviation (input) F_req_supp_dpp_bootstrap_gen :: int where "F_req_supp_dpp_bootstrap_gen \<equiv> 263"
abbreviation (input) F_req_mem_monitor :: int where "F_req_mem_monitor \<equiv> 268"
abbreviation (input) F_req_wifi_scan_params :: int where "F_req_wifi_scan_params \<equiv> 269"
abbreviation (input) F_req_wifi_set_ps :: int where "F_req_wifi_set_ps \<equiv> 270"
abbreviation (input) F_req_ota_write :: int where "F_req_ota_write \<equiv> 273"
abbreviation (input) F_req_set_wifi_max_tx_power :: int where "F_req_set_wifi_max_tx_power \<equiv> 275"
abbreviation (input) F_req_config_heartbeat :: int where "F_req_config_heartbeat \<equiv> 277"
abbreviation (input) F_req_wifi_init :: int where "F_req_wifi_init \<equiv> 278"
abbreviation (input) F_req_wifi_set_config :: int where "F_req_wifi_set_config \<equiv> 284"
abbreviation (input) F_req_wifi_get_config :: int where "F_req_wifi_get_config \<equiv> 285"
abbreviation (input) F_req_wifi_scan_start :: int where "F_req_wifi_scan_start \<equiv> 286"
abbreviation (input) F_req_wifi_scan_get_ap_records :: int where "F_req_wifi_scan_get_ap_records \<equiv> 289"
abbreviation (input) F_req_wifi_deauth_sta :: int where "F_req_wifi_deauth_sta \<equiv> 293"
abbreviation (input) F_req_wifi_set_protocol :: int where "F_req_wifi_set_protocol \<equiv> 297"
abbreviation (input) F_req_wifi_get_protocol :: int where "F_req_wifi_get_protocol \<equiv> 298"
abbreviation (input) F_req_wifi_set_bandwidth :: int where "F_req_wifi_set_bandwidth \<equiv> 299"
abbreviation (input) F_req_wifi_get_bandwidth :: int where "F_req_wifi_get_bandwidth \<equiv> 300"
abbreviation (input) F_req_wifi_set_channel :: int where "F_req_wifi_set_channel \<equiv> 301"
abbreviation (input) F_req_wifi_set_country :: int where "F_req_wifi_set_country \<equiv> 303"
abbreviation (input) F_req_wifi_ap_get_sta_aid :: int where "F_req_wifi_ap_get_sta_aid \<equiv> 312"
abbreviation (input) F_req_wifi_set_storage :: int where "F_req_wifi_set_storage \<equiv> 313"
abbreviation (input) F_req_wifi_set_inactive_time :: int where "F_req_wifi_set_inactive_time \<equiv> 325"
abbreviation (input) F_req_wifi_get_inactive_time :: int where "F_req_wifi_get_inactive_time \<equiv> 326"
abbreviation (input) F_req_wifi_set_country_code :: int where "F_req_wifi_set_country_code \<equiv> 334"
abbreviation (input) F_req_wifi_set_protocols :: int where "F_req_wifi_set_protocols \<equiv> 342"
abbreviation (input) F_req_wifi_get_protocols :: int where "F_req_wifi_get_protocols \<equiv> 343"
abbreviation (input) F_req_wifi_set_bandwidths :: int where "F_req_wifi_set_bandwidths \<equiv> 344"
abbreviation (input) F_req_wifi_get_bandwidths :: int where "F_req_wifi_get_bandwidths \<equiv> 345"
abbreviation (input) F_req_wifi_set_band :: int where "F_req_wifi_set_band \<equiv> 346"
abbreviation (input) F_req_wifi_set_bandmode :: int where "F_req_wifi_set_bandmode \<equiv> 348"
abbreviation (input) F_req_get_coprocessor_fwversion :: int where "F_req_get_coprocessor_fwversion \<equiv> 350"
abbreviation (input) F_req_set_dhcp_dns :: int where "F_req_set_dhcp_dns \<equiv> 352"
abbreviation (input) F_req_get_dhcp_dns :: int where "F_req_get_dhcp_dns \<equiv> 353"
abbreviation (input) F_req_wifi_sta_twt_config :: int where "F_req_wifi_sta_twt_config \<equiv> 354"
abbreviation (input) F_req_wifi_sta_itwt_setup :: int where "F_req_wifi_sta_itwt_setup \<equiv> 355"
abbreviation (input) F_req_wifi_sta_itwt_teardown :: int where "F_req_wifi_sta_itwt_teardown \<equiv> 356"
abbreviation (input) F_req_wifi_sta_itwt_suspend :: int where "F_req_wifi_sta_itwt_suspend \<equiv> 357"
abbreviation (input) F_req_wifi_sta_itwt_get_flow_id_status :: int where "F_req_wifi_sta_itwt_get_flow_id_status \<equiv> 358"
abbreviation (input) F_req_wifi_sta_itwt_send_probe_req :: int where "F_req_wifi_sta_itwt_send_probe_req \<equiv> 359"
abbreviation (input) F_req_wifi_sta_itwt_set_target_wake_time_offset :: int where "F_req_wifi_sta_itwt_set_target_wake_time_offset \<equiv> 360"
abbreviation (input) F_req_eap_set_identity :: int where "F_req_eap_set_identity \<equiv> 363"
abbreviation (input) F_req_eap_set_username :: int where "F_req_eap_set_username \<equiv> 365"
abbreviation (input) F_req_eap_set_password :: int where "F_req_eap_set_password \<equiv> 367"
abbreviation (input) F_req_eap_set_new_password :: int where "F_req_eap_set_new_password \<equiv> 369"
abbreviation (input) F_req_eap_set_ca_cert :: int where "F_req_eap_set_ca_cert \<equiv> 371"
abbreviation (input) F_req_eap_set_certificate_and_key :: int where "F_req_eap_set_certificate_and_key \<equiv> 373"
abbreviation (input) F_req_eap_set_ttls_phase2_method :: int where "F_req_eap_set_ttls_phase2_method \<equiv> 376"
abbreviation (input) F_req_eap_set_suiteb_certification :: int where "F_req_eap_set_suiteb_certification \<equiv> 377"
abbreviation (input) F_req_eap_set_pac_file :: int where "F_req_eap_set_pac_file \<equiv> 378"
abbreviation (input) F_req_eap_set_fast_params :: int where "F_req_eap_set_fast_params \<equiv> 379"
abbreviation (input) F_req_eap_use_default_cert_bundle :: int where "F_req_eap_use_default_cert_bundle \<equiv> 380"
abbreviation (input) F_req_wifi_set_okc_support :: int where "F_req_wifi_set_okc_support \<equiv> 381"
abbreviation (input) F_req_eap_set_domain_name :: int where "F_req_eap_set_domain_name \<equiv> 382"
abbreviation (input) F_req_eap_set_disable_time_check :: int where "F_req_eap_set_disable_time_check \<equiv> 383"
abbreviation (input) F_req_eap_set_eap_methods :: int where "F_req_eap_set_eap_methods \<equiv> 384"
abbreviation (input) F_req_iface_mac_addr_set_get :: int where "F_req_iface_mac_addr_set_get \<equiv> 385"
abbreviation (input) F_req_iface_mac_addr_len_get :: int where "F_req_iface_mac_addr_len_get \<equiv> 386"
abbreviation (input) F_req_feature_control :: int where "F_req_feature_control \<equiv> 387"
abbreviation (input) F_req_custom_rpc :: int where "F_req_custom_rpc \<equiv> 388"
abbreviation (input) F_req_gpio_config :: int where "F_req_gpio_config \<equiv> 389"
abbreviation (input) F_req_gpio_reset_pin :: int where "F_req_gpio_reset_pin \<equiv> 390"
abbreviation (input) F_req_gpio_set_level :: int where "F_req_gpio_set_level \<equiv> 391"
abbreviation (input) F_req_gpio_get_level :: int where "F_req_gpio_get_level \<equiv> 392"
abbreviation (input) F_req_gpio_set_direction :: int where "F_req_gpio_set_direction \<equiv> 393"
abbreviation (input) F_req_gpio_input_enable :: int where "F_req_gpio_input_enable \<equiv> 394"
abbreviation (input) F_req_gpio_set_pull_mode :: int where "F_req_gpio_set_pull_mode \<equiv> 395"
abbreviation (input) F_req_ext_coex :: int where "F_req_ext_coex \<equiv> 396"
abbreviation (input) F_resp_get_mac_address :: int where "F_resp_get_mac_address \<equiv> 513"
abbreviation (input) F_resp_set_mac_address :: int where "F_resp_set_mac_address \<equiv> 514"
abbreviation (input) F_resp_get_wifi_mode :: int where "F_resp_get_wifi_mode \<equiv> 515"
abbreviation (input) F_resp_set_wifi_mode :: int where "F_resp_set_wifi_mode \<equiv> 516"
abbreviation (input) F_resp_supp_dpp_init :: int where "F_resp_supp_dpp_init \<equiv> 517"
abbreviation (input) F_resp_supp_dpp_deinit :: int where "F_resp_supp_dpp_deinit \<equiv> 518"
abbreviation (input) F_resp_supp_dpp_bootstrap_gen :: int where "F_resp_supp_dpp_bootstrap_gen \<equiv> 519"
abbreviation (input) F_resp_supp_dpp_start_listen :: int where "F_resp_supp_dpp_start_listen \<equiv> 520"
abbreviation (input) F_resp_supp_dpp_stop_listen :: int where "F_resp_supp_dpp_stop_listen \<equiv> 521"
abbreviation (input) F_resp_ota_activate :: int where "F_resp_ota_activate \<equiv> 522"
abbreviation (input) F_resp_app_get_desc :: int where "F_resp_app_get_desc \<equiv> 523"
abbreviation (input) F_resp_mem_monitor :: int where "F_resp_mem_monitor \<equiv> 524"
abbreviation (input) F_resp_wifi_scan_params :: int where "F_resp_wifi_scan_params \<equiv> 525"
abbreviation (input) F_resp_wifi_set_ps :: int where "F_resp_wifi_set_ps \<equiv> 526"
abbreviation (input) F_resp_wifi_get_ps :: int where "F_resp_wifi_get_ps \<equiv> 527"
abbreviation (input) F_resp_ota_begin :: int where "F_resp_ota_begin \<equiv> 528"
abbreviation (input) F_resp_ota_write :: int where "F_resp_ota_write \<equiv> 529"
abbreviation (input) F_resp_ota_end :: int where "F_resp_ota_end \<equiv> 530"
abbreviation (input) F_resp_set_wifi_max_tx_power :: int where "F_resp_set_wifi_max_tx_power \<equiv> 531"
abbreviation (input) F_resp_get_wifi_max_tx_power :: int where "F_resp_get_wifi_max_tx_power \<equiv> 532"
abbreviation (input) F_resp_config_heartbeat :: int where "F_resp_config_heartbeat \<equiv> 533"
abbreviation (input) F_resp_wifi_init :: int where "F_resp_wifi_init \<equiv> 534"
abbreviation (input) F_resp_wifi_deinit :: int where "F_resp_wifi_deinit \<equiv> 535"
abbreviation (input) F_resp_wifi_start :: int where "F_resp_wifi_start \<equiv> 536"
abbreviation (input) F_resp_wifi_stop :: int where "F_resp_wifi_stop \<equiv> 537"
abbreviation (input) F_resp_wifi_connect :: int where "F_resp_wifi_connect \<equiv> 538"
abbreviation (input) F_resp_wifi_disconnect :: int where "F_resp_wifi_disconnect \<equiv> 539"
abbreviation (input) F_resp_wifi_set_config :: int where "F_resp_wifi_set_config \<equiv> 540"
abbreviation (input) F_resp_wifi_get_config :: int where "F_resp_wifi_get_config \<equiv> 541"
abbreviation (input) F_resp_wifi_scan_start :: int where "F_resp_wifi_scan_start \<equiv> 542"
abbreviation (input) F_resp_wifi_scan_stop :: int where "F_resp_wifi_scan_stop \<equiv> 543"
abbreviation (input) F_resp_wifi_scan_get_ap_num :: int where "F_resp_wifi_scan_get_ap_num \<equiv> 544"
abbreviation (input) F_resp_wifi_scan_get_ap_records :: int where "F_resp_wifi_scan_get_ap_records \<equiv> 545"
abbreviation (input) F_resp_wifi_clear_ap_list :: int where "F_resp_wifi_clear_ap_list \<equiv> 546"
abbreviation (input) F_resp_wifi_restore :: int where "F_resp_wifi_restore \<equiv> 547"
abbreviation (input) F_resp_wifi_clear_fast_connect :: int where "F_resp_wifi_clear_fast_connect \<equiv> 548"
abbreviation (input) F_resp_wifi_deauth_sta :: int where "F_resp_wifi_deauth_sta \<equiv> 549"
abbreviation (input) F_resp_wifi_sta_get_ap_info :: int where "F_resp_wifi_sta_get_ap_info \<equiv> 550"
abbreviation (input) F_resp_wifi_set_protocol :: int where "F_resp_wifi_set_protocol \<equiv> 553"
abbreviation (input) F_resp_wifi_get_protocol :: int where "F_resp_wifi_get_protocol \<equiv> 554"
abbreviation (input) F_resp_wifi_set_bandwidth :: int where "F_resp_wifi_set_bandwidth \<equiv> 555"
abbreviation (input) F_resp_wifi_get_bandwidth :: int where "F_resp_wifi_get_bandwidth \<equiv> 556"
abbreviation (input) F_resp_wifi_set_channel :: int where "F_resp_wifi_set_channel \<equiv> 557"
abbreviation (input) F_resp_wifi_get_channel :: int where "F_resp_wifi_get_channel \<equiv> 558"
abbreviation (input) F_resp_wifi_set_country :: int where "F_resp_wifi_set_country \<equiv> 559"
abbreviation (input) F_resp_wifi_get_country :: int where "F_resp_wifi_get_country \<equiv> 560"
abbreviation (input) F_resp_wifi_ap_get_sta_list :: int where "F_resp_wifi_ap_get_sta_list \<equiv> 567"
abbreviation (input) F_resp_wifi_ap_get_sta_aid :: int where "F_resp_wifi_ap_get_sta_aid \<equiv> 568"
abbreviation (input) F_resp_wifi_set_storage :: int where "F_resp_wifi_set_storage \<equiv> 569"
abbreviation (input) F_resp_wifi_set_inactive_time :: int where "F_resp_wifi_set_inactive_time \<equiv> 581"
abbreviation (input) F_resp_wifi_get_inactive_time :: int where "F_resp_wifi_get_inactive_time \<equiv> 582"
abbreviation (input) F_resp_wifi_set_country_code :: int where "F_resp_wifi_set_country_code \<equiv> 590"
abbreviation (input) F_resp_wifi_get_country_code :: int where "F_resp_wifi_get_country_code \<equiv> 591"
abbreviation (input) F_resp_wifi_sta_get_aid :: int where "F_resp_wifi_sta_get_aid \<equiv> 594"
abbreviation (input) F_resp_wifi_sta_get_negotiated_phymode :: int where "F_resp_wifi_sta_get_negotiated_phymode \<equiv> 595"
abbreviation (input) F_resp_wifi_sta_get_rssi :: int where "F_resp_wifi_sta_get_rssi \<equiv> 597"
abbreviation (input) F_resp_wifi_set_protocols :: int where "F_resp_wifi_set_protocols \<equiv> 598"
abbreviation (input) F_resp_wifi_get_protocols :: int where "F_resp_wifi_get_protocols \<equiv> 599"
abbreviation (input) F_resp_wifi_set_bandwidths :: int where "F_resp_wifi_set_bandwidths \<equiv> 600"
abbreviation (input) F_resp_wifi_get_bandwidths :: int where "F_resp_wifi_get_bandwidths \<equiv> 601"
abbreviation (input) F_resp_wifi_set_band :: int where "F_resp_wifi_set_band \<equiv> 602"
abbreviation (input) F_resp_wifi_get_band :: int where "F_resp_wifi_get_band \<equiv> 603"
abbreviation (input) F_resp_wifi_set_bandmode :: int where "F_resp_wifi_set_bandmode \<equiv> 604"
abbreviation (input) F_resp_wifi_get_bandmode :: int where "F_resp_wifi_get_bandmode \<equiv> 605"
abbreviation (input) F_resp_get_coprocessor_fwversion :: int where "F_resp_get_coprocessor_fwversion \<equiv> 606"
abbreviation (input) F_resp_wifi_scan_get_ap_record :: int where "F_resp_wifi_scan_get_ap_record \<equiv> 607"
abbreviation (input) F_resp_set_dhcp_dns :: int where "F_resp_set_dhcp_dns \<equiv> 608"
abbreviation (input) F_resp_get_dhcp_dns :: int where "F_resp_get_dhcp_dns \<equiv> 609"
abbreviation (input) F_resp_wifi_sta_twt_config :: int where "F_resp_wifi_sta_twt_config \<equiv> 610"
abbreviation (input) F_resp_wifi_sta_itwt_setup :: int where "F_resp_wifi_sta_itwt_setup \<equiv> 611"
abbreviation (input) F_resp_wifi_sta_itwt_teardown :: int where "F_resp_wifi_sta_itwt_teardown \<equiv> 612"
abbreviation (input) F_resp_wifi_sta_itwt_suspend :: int where "F_resp_wifi_sta_itwt_suspend \<equiv> 613"
abbreviation (input) F_resp_wifi_sta_itwt_get_flow_id_status :: int where "F_resp_wifi_sta_itwt_get_flow_id_status \<equiv> 614"
abbreviation (input) F_resp_wifi_sta_itwt_send_probe_req :: int where "F_resp_wifi_sta_itwt_send_probe_req \<equiv> 615"
abbreviation (input) F_resp_wifi_sta_itwt_set_target_wake_time_offset :: int where "F_resp_wifi_sta_itwt_set_target_wake_time_offset \<equiv> 616"
abbreviation (input) F_resp_wifi_sta_enterprise_enable :: int where "F_resp_wifi_sta_enterprise_enable \<equiv> 617"
abbreviation (input) F_resp_wifi_sta_enterprise_disable :: int where "F_resp_wifi_sta_enterprise_disable \<equiv> 618"
abbreviation (input) F_resp_eap_set_identity :: int where "F_resp_eap_set_identity \<equiv> 619"
abbreviation (input) F_resp_eap_clear_identity :: int where "F_resp_eap_clear_identity \<equiv> 620"
abbreviation (input) F_resp_eap_set_username :: int where "F_resp_eap_set_username \<equiv> 621"
abbreviation (input) F_resp_eap_clear_username :: int where "F_resp_eap_clear_username \<equiv> 622"
abbreviation (input) F_resp_eap_set_password :: int where "F_resp_eap_set_password \<equiv> 623"
abbreviation (input) F_resp_eap_clear_password :: int where "F_resp_eap_clear_password \<equiv> 624"
abbreviation (input) F_resp_eap_set_new_password :: int where "F_resp_eap_set_new_password \<equiv> 625"
abbreviation (input) F_resp_eap_clear_new_password :: int where "F_resp_eap_clear_new_password \<equiv> 626"
abbreviation (input) F_resp_eap_set_ca_cert :: int where "F_resp_eap_set_ca_cert \<equiv> 627"
abbreviation (input) F_resp_eap_clear_ca_cert :: int where "F_resp_eap_clear_ca_cert \<equiv> 628"
abbreviation (input) F_resp_eap_set_certificate_and_key :: int where "F_resp_eap_set_certificate_and_key \<equiv> 629"
abbreviation (input) F_resp_eap_clear_certificate_and_key :: int where "F_resp_eap_clear_certificate_and_key \<equiv> 630"
abbreviation (input) F_resp_eap_get_disable_time_check :: int where "F_resp_eap_get_disable_time_check \<equiv> 631"
abbreviation (input) F_resp_eap_set_ttls_phase2_method :: int where "F_resp_eap_set_ttls_phase2_method \<equiv> 632"
abbreviation (input) F_resp_eap_set_suiteb_certification :: int where "F_resp_eap_set_suiteb_certification \<equiv> 633"
abbreviation (input) F_resp_eap_set_pac_file :: int where "F_resp_eap_set_pac_file \<equiv> 634"
abbreviation (input) F_resp_eap_set_fast_params :: int where "F_resp_eap_set_fast_params \<equiv> 635"
abbreviation (input) F_resp_eap_use_default_cert_bundle :: int where "F_resp_eap_use_default_cert_bundle \<equiv> 636"
abbreviation (input) F_resp_wifi_set_okc_support :: int where "F_resp_wifi_set_okc_support \<equiv> 637"
abbreviation (input) F_resp_eap_set_domain_name :: int where "F_resp_eap_set_domain_name \<equiv> 638"
abbreviation (input) F_resp_eap_set_disable_time_check :: int where "F_resp_eap_set_disable_time_check \<equiv> 639"
abbreviation (input) F_resp_eap_set_eap_methods :: int where "F_resp_eap_set_eap_methods \<equiv> 640"
abbreviation (input) F_resp_iface_mac_addr_set_get :: int where "F_resp_iface_mac_addr_set_get \<equiv> 641"
abbreviation (input) F_resp_iface_mac_addr_len_get :: int where "F_resp_iface_mac_addr_len_get \<equiv> 642"
abbreviation (input) F_resp_feature_control :: int where "F_resp_feature_control \<equiv> 643"
abbreviation (input) F_resp_custom_rpc :: int where "F_resp_custom_rpc \<equiv> 644"
abbreviation (input) F_resp_gpio_config :: int where "F_resp_gpio_config \<equiv> 645"
abbreviation (input) F_resp_gpio_reset :: int where "F_resp_gpio_reset \<equiv> 646"
abbreviation (input) F_resp_gpio_set_level :: int where "F_resp_gpio_set_level \<equiv> 647"
abbreviation (input) F_resp_gpio_get_level :: int where "F_resp_gpio_get_level \<equiv> 648"
abbreviation (input) F_resp_gpio_set_direction :: int where "F_resp_gpio_set_direction \<equiv> 649"
abbreviation (input) F_resp_gpio_input_enable :: int where "F_resp_gpio_input_enable \<equiv> 650"
abbreviation (input) F_resp_gpio_set_pull_mode :: int where "F_resp_gpio_set_pull_mode \<equiv> 651"
abbreviation (input) F_resp_ext_coex :: int where "F_resp_ext_coex \<equiv> 652"

end
