(* ===== verification/Rpc_Message.thy ===== *)
theory Rpc_Message
  imports Rpc_Ids
begin

text \<open>
  The remote procedure call message (\<open>Rpc\<close>) and its composition and parsing on the host:
  \<open>compose_rpc_req\<close> (\<open>src/host/core/src/h_rpc_req.c\<close>), the message part of \<open>process_rpc_tx_msg\<close>
  (\<open>src/host/core/src/h_rpc_core.c\<close>) and the status of \<open>rpc_parse_rsp\<close> (\<open>src/host/core/src/h_rpc_rsp.c\<close>).

  The payload is a C union of pointers. The model keeps the number of the member through which the pointer
  was written, so that a read through another member is visible. The contents of a payload are its status
  field \<open>resp\<close>, which the responses share, and opaque data; how the members of each payload are filled from
  the application structure is not modelled.
\<close>

section \<open>Messages\<close>

record rpc_body =
  bd_tag :: int
  bd_resp :: int
  bd_data :: bytes

record rpc =
  rp_type :: rpc_type
  rp_id :: int
  rp_uid :: u32
  rp_case :: int
  rp_union :: "rpc_body option"

definition rpc_init :: rpc where
  "rpc_init = \<lparr>rp_type = RPC_Invalid, rp_id = 0, rp_uid = 0, rp_case = 0, rp_union = None\<rparr>"

text \<open>The pointer in the union is of the type \<open>payload_case\<close> announces.\<close>

definition rpc_well_typed :: "rpc \<Rightarrow> bool" where
  "rpc_well_typed m = (case rp_union m of None \<Rightarrow> True | Some b \<Rightarrow> rp_case m = bd_tag b)"

text \<open>What arrives when a message is packed and unpacked: a null pointer in the union is not sent.\<close>

definition wire :: "rpc \<Rightarrow> rpc" where
  "wire m = (if rp_union m = None then m\<lparr>rp_case := 0\<rparr> else m)"

text \<open>
  The contract of the protobuf library: packing a well-typed message with an identifier gives some octets,
  and unpacking them gives the message back.
\<close>

definition codec_ok :: "(rpc \<Rightarrow> bytes) \<Rightarrow> (bytes \<Rightarrow> rpc option) \<Rightarrow> bool" where
  "codec_ok pack unpack = (\<forall>m. rpc_well_typed m \<and> rp_id m \<noteq> 0 \<longrightarrow> pack m \<noteq> [] \<and> unpack (pack m) = Some (wire m))"

section \<open>Composing a request\<close>

text \<open>Requests without a payload: the labels that fall through to the first \<open>break\<close>.\<close>

definition compose_no_body :: "int list" where
  "compose_no_body =
   [RPC_ID_Req_GetWifiMode, RPC_ID_Req_WifiGetPs, RPC_ID_Req_OTABegin, RPC_ID_Req_OTAEnd, RPC_ID_Req_OTAActivate,
    RPC_ID_Req_WifiDeinit, RPC_ID_Req_WifiStart, RPC_ID_Req_WifiStop, RPC_ID_Req_WifiConnect,
    RPC_ID_Req_WifiDisconnect, RPC_ID_Req_WifiScanStop, RPC_ID_Req_WifiScanGetApNum, RPC_ID_Req_WifiClearApList,
    RPC_ID_Req_WifiRestore, RPC_ID_Req_WifiClearFastConnect, RPC_ID_Req_WifiStaGetApInfo,
    RPC_ID_Req_WifiGetMaxTxPower, RPC_ID_Req_WifiGetChannel, RPC_ID_Req_WifiGetCountryCode,
    RPC_ID_Req_WifiGetCountry, RPC_ID_Req_WifiApGetStaList, RPC_ID_Req_WifiStaGetRssi,
    RPC_ID_Req_WifiStaGetNegotiatedPhymode, RPC_ID_Req_WifiStaGetAid, RPC_ID_Req_WifiGetBand,
    RPC_ID_Req_WifiGetBandMode, RPC_ID_Req_AppGetDesc, RPC_ID_Req_WifiStaEnterpriseEnable,
    RPC_ID_Req_WifiStaEnterpriseDisable, RPC_ID_Req_EapClearIdentity, RPC_ID_Req_EapClearUsername,
    RPC_ID_Req_EapClearPassword, RPC_ID_Req_EapClearNewPassword, RPC_ID_Req_EapClearCaCert,
    RPC_ID_Req_EapClearCertificateAndKey, RPC_ID_Req_SuppDppDeinit, RPC_ID_Req_SuppDppStartListen,
    RPC_ID_Req_SuppDppStopListen, RPC_ID_Req_WifiScanGetApRecord]"

text \<open>Requests with a payload, and the member \<open>RPC_ALLOC_ASSIGN\<close> fills.\<close>

definition compose_body :: "(int \<times> int) list" where
  "compose_body =
   [(RPC_ID_Req_GetMACAddress, F_req_get_mac_address), (RPC_ID_Req_SetMacAddress, F_req_set_mac_address),
    (RPC_ID_Req_SetWifiMode, F_req_set_wifi_mode), (RPC_ID_Req_WifiSetPs, F_req_wifi_set_ps),
    (RPC_ID_Req_OTAWrite, F_req_ota_write), (RPC_ID_Req_WifiSetMaxTxPower, F_req_set_wifi_max_tx_power),
    (RPC_ID_Req_ConfigHeartbeat, F_req_config_heartbeat), (RPC_ID_Req_WifiInit, F_req_wifi_init),
    (RPC_ID_Req_WifiGetConfig, F_req_wifi_get_config), (RPC_ID_Req_WifiScanParams, F_req_wifi_scan_params),
    (RPC_ID_Req_WifiSetConfig, F_req_wifi_set_config), (RPC_ID_Req_WifiScanStart, F_req_wifi_scan_start),
    (RPC_ID_Req_WifiScanGetApRecords, F_req_wifi_scan_get_ap_records),
    (RPC_ID_Req_WifiDeauthSta, F_req_wifi_deauth_sta), (RPC_ID_Req_WifiSetStorage, F_req_wifi_set_storage),
    (RPC_ID_Req_WifiSetBandwidth, F_req_wifi_set_bandwidth),
    (RPC_ID_Req_WifiGetBandwidth, F_req_wifi_get_bandwidth), (RPC_ID_Req_WifiSetChannel, F_req_wifi_set_channel),
    (RPC_ID_Req_WifiSetCountryCode, F_req_wifi_set_country_code),
    (RPC_ID_Req_WifiSetCountry, F_req_wifi_set_country), (RPC_ID_Req_WifiApGetStaAid, F_req_wifi_ap_get_sta_aid),
    (RPC_ID_Req_WifiSetProtocol, F_req_wifi_set_protocol), (RPC_ID_Req_WifiGetProtocol, F_req_wifi_get_protocol),
    (RPC_ID_Req_GetCoprocessorFwVersion, F_req_get_coprocessor_fwversion),
    (RPC_ID_Req_WifiSetInactiveTime, F_req_wifi_set_inactive_time),
    (RPC_ID_Req_WifiGetInactiveTime, F_req_wifi_get_inactive_time),
    (RPC_ID_Req_WifiStaTwtConfig, F_req_wifi_sta_twt_config),
    (RPC_ID_Req_WifiStaItwtSetup, F_req_wifi_sta_itwt_setup),
    (RPC_ID_Req_WifiStaItwtTeardown, F_req_wifi_sta_itwt_teardown),
    (RPC_ID_Req_WifiStaItwtSuspend, F_req_wifi_sta_itwt_suspend),
    (RPC_ID_Req_WifiStaItwtGetFlowIdStatus, F_req_wifi_sta_itwt_get_flow_id_status),
    (RPC_ID_Req_WifiStaItwtSendProbeReq, F_req_wifi_sta_itwt_send_probe_req),
    (RPC_ID_Req_WifiStaItwtSetTargetWakeTimeOffset, F_req_wifi_sta_itwt_set_target_wake_time_offset),
    (RPC_ID_Req_WifiSetProtocols, F_req_wifi_set_protocols),
    (RPC_ID_Req_WifiGetProtocols, F_req_wifi_get_protocols),
    (RPC_ID_Req_WifiSetBandwidths, F_req_wifi_set_bandwidths),
    (RPC_ID_Req_WifiGetBandwidths, F_req_wifi_get_bandwidths), (RPC_ID_Req_WifiSetBand, F_req_wifi_set_band),
    (RPC_ID_Req_WifiSetBandMode, F_req_wifi_set_bandmode),
    (RPC_ID_Req_IfaceMacAddrSetGet, F_req_iface_mac_addr_set_get),
    (RPC_ID_Req_FeatureControl, F_req_feature_control),
    (RPC_ID_Req_IfaceMacAddrLenGet, F_req_iface_mac_addr_len_get),
    (RPC_ID_Req_SetDhcpDnsStatus, F_req_set_dhcp_dns), (RPC_ID_Req_MemMonitor, F_req_mem_monitor),
    (RPC_ID_Req_EapSetIdentity, F_req_eap_set_identity), (RPC_ID_Req_EapSetUsername, F_req_eap_set_username),
    (RPC_ID_Req_EapSetPassword, F_req_eap_set_password),
    (RPC_ID_Req_EapSetNewPassword, F_req_eap_set_new_password), (RPC_ID_Req_EapSetCaCert, F_req_eap_set_ca_cert),
    (RPC_ID_Req_EapSetCertificateAndKey, F_req_eap_set_certificate_and_key),
    (RPC_ID_Req_EapSetDisableTimeCheck, F_req_eap_set_disable_time_check),
    (RPC_ID_Req_EapSetTtlsPhase2Method, F_req_eap_set_ttls_phase2_method),
    (RPC_ID_Req_EapSetSuitebCertification, F_req_eap_set_suiteb_certification),
    (RPC_ID_Req_EapSetPacFile, F_req_eap_set_pac_file), (RPC_ID_Req_EapSetFastParams, F_req_eap_set_fast_params),
    (RPC_ID_Req_EapUseDefaultCertBundle, F_req_eap_use_default_cert_bundle),
    (RPC_ID_Req_WifiSetOkcSupport, F_req_wifi_set_okc_support),
    (RPC_ID_Req_EapSetDomainName, F_req_eap_set_domain_name),
    (RPC_ID_Req_EapSetEapMethods, F_req_eap_set_eap_methods), (RPC_ID_Req_SuppDppInit, F_req_supp_dpp_init),
    (RPC_ID_Req_SuppDppBootstrapGen, F_req_supp_dpp_bootstrap_gen), (RPC_ID_Req_CustomRpc, F_req_custom_rpc),
    (RPC_ID_Req_GpioConfig, F_req_gpio_config), (RPC_ID_Req_GpioResetPin, F_req_gpio_reset_pin),
    (RPC_ID_Req_GpioSetLevel, F_req_gpio_set_level), (RPC_ID_Req_GpioGetLevel, F_req_gpio_get_level),
    (RPC_ID_Req_GpioSetDirection, F_req_gpio_set_direction),
    (RPC_ID_Req_GpioInputEnable, F_req_gpio_input_enable),
    (RPC_ID_Req_GpioSetPullMode, F_req_gpio_set_pull_mode), (RPC_ID_Req_ExtCoex, F_req_ext_coex)]"

abbreviation (input) RPC_ERR_UNSUPPORTED_MSG :: int where "RPC_ERR_UNSUPPORTED_MSG \<equiv> 7"
abbreviation (input) RPC_ERR_INCORRECT_ARG :: int where "RPC_ERR_INCORRECT_ARG \<equiv> 8"

text \<open>
  \<open>mem\<close>: the payload can be allocated; \<open>args\<close>: the contents taken from the application structure, or \<open>None\<close> when
  a case rejects them. The result is the error code, the failure status and the request.
\<close>

definition compose_rpc_req :: "bool \<Rightarrow> bytes option \<Rightarrow> rpc \<Rightarrow> h_err \<times> int \<times> rpc" where
  "compose_rpc_req mem args req =
     (if rp_id req \<in> set compose_no_body then (H_OK, 0, req)
      else case map_of compose_body (rp_id req) of
          None \<Rightarrow> (H_FAIL, RPC_ERR_UNSUPPORTED_MSG, req)
        | Some f \<Rightarrow>
            if \<not> mem then (H_FAIL, RPC_ERR_MEMORY_FAILURE, req)
            else (case args of None \<Rightarrow>
                  (H_FAIL, RPC_ERR_INCORRECT_ARG, req\<lparr>rp_union := Some \<lparr>bd_tag = f, bd_resp = 0, bd_data = []\<rparr>\<rparr>)
              | Some d \<Rightarrow> (H_OK, 0, req\<lparr>rp_union := Some \<lparr>bd_tag = f, bd_resp = 0, bd_data = d\<rparr>\<rparr>)))"

text \<open>
  The message \<open>process_rpc_tx_msg\<close> builds for request \<open>i\<close>: the message type is set before \<open>rpc__init\<close>, which
  resets it.
\<close>

definition build_rpc_req :: "bool \<Rightarrow> bytes option \<Rightarrow> int \<Rightarrow> u32 \<Rightarrow> h_err \<times> int \<times> rpc" where
  "build_rpc_req mem args i uid =
     (let req = rpc_init\<lparr>rp_type := RPC_Req\<rparr>;
          req = rpc_init;
          req = req\<lparr>rp_id := i, rp_uid := uid, rp_case := i\<rparr>
      in compose_rpc_req mem args req)"

section \<open>Parsing a response\<close>

text \<open>The member each case tests with \<open>RPC_FAIL_ON_NULL\<close> and reads the status from with \<open>RPC_ERR_IN_RESP\<close>.\<close>

definition parse_table :: "(int \<times> int) list" where
  "parse_table =
   [(RPC_ID_Resp_GetMACAddress, F_resp_get_mac_address), (RPC_ID_Resp_SetMacAddress, F_resp_set_mac_address),
    (RPC_ID_Resp_GetWifiMode, F_resp_get_wifi_mode), (RPC_ID_Resp_SetWifiMode, F_resp_set_wifi_mode),
    (RPC_ID_Resp_WifiSetPs, F_resp_wifi_set_ps), (RPC_ID_Resp_WifiGetPs, F_resp_wifi_get_ps),
    (RPC_ID_Resp_OTABegin, F_resp_ota_begin), (RPC_ID_Resp_OTAWrite, F_resp_ota_write),
    (RPC_ID_Resp_OTAEnd, F_resp_ota_end), (RPC_ID_Resp_OTAActivate, F_resp_ota_activate),
    (RPC_ID_Resp_WifiSetMaxTxPower, F_resp_set_wifi_max_tx_power),
    (RPC_ID_Resp_WifiGetMaxTxPower, F_resp_get_wifi_max_tx_power),
    (RPC_ID_Resp_ConfigHeartbeat, F_resp_config_heartbeat), (RPC_ID_Resp_WifiInit, F_resp_wifi_init),
    (RPC_ID_Resp_WifiDeinit, F_resp_wifi_deinit), (RPC_ID_Resp_WifiStart, F_resp_wifi_start),
    (RPC_ID_Resp_WifiStop, F_resp_wifi_stop), (RPC_ID_Resp_WifiConnect, F_resp_wifi_connect),
    (RPC_ID_Resp_WifiDisconnect, F_resp_wifi_disconnect), (RPC_ID_Resp_WifiSetConfig, F_resp_wifi_set_config),
    (RPC_ID_Resp_WifiScanParams, F_resp_wifi_scan_params), (RPC_ID_Resp_WifiGetConfig, F_resp_wifi_get_config),
    (RPC_ID_Resp_WifiScanStart, F_resp_wifi_scan_start), (RPC_ID_Resp_WifiScanStop, F_resp_wifi_scan_stop),
    (RPC_ID_Resp_WifiScanGetApNum, F_resp_wifi_scan_get_ap_num),
    (RPC_ID_Resp_WifiScanGetApRecord, F_resp_wifi_scan_get_ap_records),
    (RPC_ID_Resp_WifiScanGetApRecords, F_resp_wifi_scan_get_ap_records),
    (RPC_ID_Resp_WifiStaGetApInfo, F_resp_wifi_sta_get_ap_info),
    (RPC_ID_Resp_WifiClearApList, F_resp_wifi_clear_ap_list), (RPC_ID_Resp_WifiRestore, F_resp_wifi_restore),
    (RPC_ID_Resp_WifiClearFastConnect, F_resp_wifi_clear_fast_connect),
    (RPC_ID_Resp_WifiDeauthSta, F_resp_wifi_deauth_sta), (RPC_ID_Resp_WifiSetStorage, F_resp_wifi_set_storage),
    (RPC_ID_Resp_WifiSetBandwidth, F_resp_wifi_set_bandwidth),
    (RPC_ID_Resp_WifiGetBandwidth, F_resp_wifi_get_bandwidth),
    (RPC_ID_Resp_WifiSetChannel, F_resp_wifi_set_channel), (RPC_ID_Resp_WifiGetChannel, F_resp_wifi_get_channel),
    (RPC_ID_Resp_WifiSetCountryCode, F_resp_wifi_set_country_code),
    (RPC_ID_Resp_WifiGetCountryCode, F_resp_wifi_get_country_code),
    (RPC_ID_Resp_WifiSetCountry, F_resp_wifi_set_country), (RPC_ID_Resp_WifiGetCountry, F_resp_wifi_get_country),
    (RPC_ID_Resp_WifiApGetStaList, F_resp_wifi_ap_get_sta_list),
    (RPC_ID_Resp_WifiApGetStaAid, F_resp_wifi_ap_get_sta_aid),
    (RPC_ID_Resp_WifiStaGetRssi, F_resp_wifi_sta_get_rssi),
    (RPC_ID_Resp_WifiSetProtocol, F_resp_wifi_set_protocol),
    (RPC_ID_Resp_WifiGetProtocol, F_resp_wifi_get_protocol),
    (RPC_ID_Resp_WifiStaGetNegotiatedPhymode, F_resp_wifi_sta_get_negotiated_phymode),
    (RPC_ID_Resp_WifiStaGetAid, F_resp_wifi_sta_get_aid),
    (RPC_ID_Resp_GetCoprocessorFwVersion, F_resp_get_coprocessor_fwversion),
    (RPC_ID_Resp_WifiSetInactiveTime, F_resp_wifi_set_inactive_time),
    (RPC_ID_Resp_WifiGetInactiveTime, F_resp_wifi_get_inactive_time),
    (RPC_ID_Resp_WifiStaTwtConfig, F_resp_wifi_sta_twt_config),
    (RPC_ID_Resp_WifiStaItwtSetup, F_resp_wifi_sta_itwt_setup),
    (RPC_ID_Resp_WifiStaItwtTeardown, F_resp_wifi_sta_itwt_teardown),
    (RPC_ID_Resp_WifiStaItwtSuspend, F_resp_wifi_sta_itwt_suspend),
    (RPC_ID_Resp_WifiStaItwtGetFlowIdStatus, F_resp_wifi_sta_itwt_get_flow_id_status),
    (RPC_ID_Resp_WifiStaItwtSendProbeReq, F_resp_wifi_sta_itwt_suspend),
    (RPC_ID_Resp_WifiStaItwtSetTargetWakeTimeOffset, F_resp_wifi_sta_itwt_set_target_wake_time_offset),
    (RPC_ID_Resp_WifiSetProtocols, F_resp_wifi_set_protocols),
    (RPC_ID_Resp_WifiGetProtocols, F_resp_wifi_get_protocols),
    (RPC_ID_Resp_WifiSetBandwidths, F_resp_wifi_set_bandwidths),
    (RPC_ID_Resp_WifiGetBandwidths, F_resp_wifi_get_bandwidths),
    (RPC_ID_Resp_WifiSetBand, F_resp_wifi_set_country_code), (RPC_ID_Resp_WifiGetBand, F_resp_wifi_get_band),
    (RPC_ID_Resp_WifiSetBandMode, F_resp_wifi_set_country_code),
    (RPC_ID_Resp_WifiGetBandMode, F_resp_wifi_get_bandmode),
    (RPC_ID_Resp_IfaceMacAddrSetGet, F_resp_iface_mac_addr_set_get),
    (RPC_ID_Resp_IfaceMacAddrLenGet, F_resp_iface_mac_addr_len_get),
    (RPC_ID_Resp_FeatureControl, F_resp_feature_control), (RPC_ID_Resp_CustomRpc, F_resp_custom_rpc),
    (RPC_ID_Resp_AppGetDesc, F_resp_app_get_desc), (RPC_ID_Resp_SetDhcpDnsStatus, F_resp_set_dhcp_dns),
    (RPC_ID_Resp_MemMonitor, F_resp_mem_monitor),
    (RPC_ID_Resp_WifiStaEnterpriseEnable, F_resp_wifi_sta_enterprise_enable),
    (RPC_ID_Resp_WifiStaEnterpriseDisable, F_resp_wifi_sta_enterprise_disable),
    (RPC_ID_Resp_EapSetIdentity, F_resp_eap_set_identity),
    (RPC_ID_Resp_EapClearIdentity, F_resp_eap_clear_identity),
    (RPC_ID_Resp_EapSetUsername, F_resp_eap_set_username),
    (RPC_ID_Resp_EapClearUsername, F_resp_eap_clear_username),
    (RPC_ID_Resp_EapSetPassword, F_resp_eap_set_password),
    (RPC_ID_Resp_EapClearPassword, F_resp_eap_clear_password),
    (RPC_ID_Resp_EapSetNewPassword, F_resp_eap_set_new_password),
    (RPC_ID_Resp_EapClearNewPassword, F_resp_eap_clear_new_password),
    (RPC_ID_Resp_EapSetCaCert, F_resp_eap_set_ca_cert), (RPC_ID_Resp_EapClearCaCert, F_resp_eap_clear_ca_cert),
    (RPC_ID_Resp_EapSetCertificateAndKey, F_resp_eap_set_certificate_and_key),
    (RPC_ID_Resp_EapClearCertificateAndKey, F_resp_eap_clear_certificate_and_key),
    (RPC_ID_Resp_EapGetDisableTimeCheck, F_resp_eap_get_disable_time_check),
    (RPC_ID_Resp_EapSetTtlsPhase2Method, F_resp_eap_set_ttls_phase2_method),
    (RPC_ID_Resp_EapSetSuitebCertification, F_resp_eap_set_suiteb_certification),
    (RPC_ID_Resp_EapSetPacFile, F_resp_eap_set_pac_file),
    (RPC_ID_Resp_EapSetFastParams, F_resp_eap_set_fast_params),
    (RPC_ID_Resp_EapUseDefaultCertBundle, F_resp_eap_use_default_cert_bundle),
    (RPC_ID_Resp_WifiSetOkcSupport, F_resp_wifi_set_okc_support),
    (RPC_ID_Resp_EapSetDomainName, F_resp_eap_set_domain_name),
    (RPC_ID_Resp_EapSetDisableTimeCheck, F_resp_eap_set_disable_time_check),
    (RPC_ID_Resp_EapSetEapMethods, F_resp_eap_set_eap_methods), (RPC_ID_Resp_SuppDppInit, F_resp_supp_dpp_init),
    (RPC_ID_Resp_SuppDppDeinit, F_resp_supp_dpp_deinit),
    (RPC_ID_Resp_SuppDppBootstrapGen, F_resp_supp_dpp_bootstrap_gen),
    (RPC_ID_Resp_SuppDppStartListen, F_resp_supp_dpp_start_listen),
    (RPC_ID_Resp_SuppDppStopListen, F_resp_supp_dpp_stop_listen), (RPC_ID_Resp_GpioConfig, F_resp_gpio_config),
    (RPC_ID_Resp_GpioResetPin, F_resp_gpio_reset), (RPC_ID_Resp_GpioSetLevel, F_resp_gpio_set_level),
    (RPC_ID_Resp_GpioGetLevel, F_resp_gpio_get_level), (RPC_ID_Resp_GpioSetDirection, F_resp_gpio_set_direction),
    (RPC_ID_Resp_GpioInputEnable, F_resp_gpio_input_enable),
    (RPC_ID_Resp_GpioSetPullMode, F_resp_gpio_set_pull_mode), (RPC_ID_Resp_ExtCoex, F_resp_ext_coex)]"

text \<open>
  The status the application gets. The structure is zeroed, every failure jumps to a label that returns
  \<open>H_OK\<close>, and only two failures have set the status before. A payload read through another member is read all
  the same: \<open>resp\<close> is the first field of the payloads concerned.
\<close>

definition rpc_parse_rsp :: "rpc \<Rightarrow> h_err \<times> int" where
  "rpc_parse_rsp m =
     (if rp_id m = RPC_ID_Resp_Base then (H_OK, h_err_code H_ERR_NOT_SUP)
      else case map_of parse_table (rp_id m) of
          None \<Rightarrow> (H_OK, 0)
        | Some f \<Rightarrow>
            (case rp_union m of None \<Rightarrow> (H_OK, 0)
             | Some b \<Rightarrow> if bd_resp b \<noteq> 0 then (H_OK, bd_resp b) else (H_OK, h_err_code H_OK)))"

definition rpc_header :: "rpc \<Rightarrow> rpc_msg" where
  "rpc_header m = \<lparr>pm_type = rp_type m, pm_msg_id = rp_id m, pm_uid = rp_uid m\<rparr>"

end
