(* ===== verification/Slave_Control.thy ===== *)
theory Slave_Control
  imports Rpc_Message Serial_Tlv
begin

text \<open>
  The request side of the co-processor's control endpoint (\<open>src/slave/main/slave_control.c\<close>): the request table,
  its lookup, the dispatcher and \<open>data_transfer_handler\<close>, with the prologue every handler has from the macros
  \<open>RPC_TEMPLATE\<close> and \<open>RPC_TEMPLATE_SIMPLE\<close> (\<open>src/slave/main/slave_control.h\<close>).

  What a handler does after its prologue is a parameter: from the request it makes the return value, the \<open>resp\<close>
  field and the data of the reply. \<open>None\<close> stands for a read through a null pointer or through a member of the
  payload union that was not written.
\<close>

section \<open>Handlers\<close>

text \<open>
  A handler by the members it names: the reply member its prologue fills, and the request member it reads.
  \<open>RPC_TEMPLATE\<close> tests that the request has a payload; \<open>RPC_TEMPLATE_SIMPLE\<close> does not, and two of its handlers read
  the payload all the same. The update handlers have a prologue of their own, which also sets \<open>payload_case\<close>
  and tests nothing.
\<close>

datatype rpc_handler =
    Template int int
  | Template_Simple int "int option"
  | Ota_Handler int "int option"

primrec reply_tag :: "rpc_handler \<Rightarrow> int" where
  "reply_tag (Template r q) = r"
| "reply_tag (Template_Simple r q) = r"
| "reply_tag (Ota_Handler r q) = r"

type_synonym 's handler_impl = "int \<Rightarrow> bytes \<Rightarrow> 's \<Rightarrow> (esp_err \<times> int \<times> bytes) \<times> 's"

definition read_member :: "int \<Rightarrow> rpc \<Rightarrow> bytes option" where
  "read_member f m = (case rp_union m of None \<Rightarrow> None | Some b \<Rightarrow> if bd_tag b = f then Some (bd_data b) else None)"

text \<open>A read of the payload without a test; \<open>None\<close> as the member: the handler reads nothing.\<close>

definition read_unchecked :: "int option \<Rightarrow> rpc \<Rightarrow> bytes option" where
  "read_unchecked q m = (case q of None \<Rightarrow> Some [] | Some f \<Rightarrow> read_member f m)"

definition fill_reply :: "'s handler_impl \<Rightarrow> int \<Rightarrow> int \<Rightarrow> bytes \<Rightarrow> rpc \<Rightarrow> 's \<Rightarrow> esp_err \<times> rpc \<times> 's" where
  "fill_reply impl i f d resp s =
     (case impl i d s of ((e, r, out), s') \<Rightarrow>
        (e, resp\<lparr>rp_union := Some \<lparr>bd_tag = f, bd_resp = r, bd_data = out\<rparr>\<rparr>, s'))"

fun command_handler ::
  "'s handler_impl \<Rightarrow> bool \<Rightarrow> rpc_handler \<Rightarrow> rpc \<Rightarrow> rpc \<Rightarrow> 's \<Rightarrow> (esp_err \<times> rpc \<times> 's) option" where
  "command_handler impl mem (Template rf qf) req resp s =
     (if rp_union req = None then Some (ESP_FAIL, resp, s)
      else if \<not> mem then Some (ESP_ERR_NO_MEM, resp, s)
      else map_option (\<lambda>d. fill_reply impl (rp_id req) rf d resp s) (read_member qf req))"
| "command_handler impl mem (Template_Simple rf qf) req resp s =
     (if \<not> mem then Some (ESP_ERR_NO_MEM, resp, s)
      else map_option (\<lambda>d. fill_reply impl (rp_id req) rf d resp s) (read_unchecked qf req))"
| "command_handler impl mem (Ota_Handler rf qf) req resp s =
     (if \<not> mem then Some (ESP_ERR_NO_MEM, resp, s)
      else map_option (\<lambda>d. fill_reply impl (rp_id req) rf d (resp\<lparr>rp_case := rf\<rparr>) s)
             (read_unchecked qf req))"

section \<open>The request table\<close>

definition req_table :: "(int \<times> rpc_handler) list" where
  "req_table =
   [(RPC_ID_Req_OTABegin, Ota_Handler F_resp_ota_begin None),
    (RPC_ID_Req_OTAWrite, Ota_Handler F_resp_ota_write (Some F_req_ota_write)),
    (RPC_ID_Req_OTAEnd, Ota_Handler F_resp_ota_end None),
    (RPC_ID_Req_OTAActivate, Ota_Handler F_resp_ota_activate None),
    (RPC_ID_Req_ConfigHeartbeat, Template F_resp_config_heartbeat F_req_config_heartbeat),
    (RPC_ID_Req_GetCoprocessorFwVersion, Template_Simple F_resp_get_coprocessor_fwversion None),
    (RPC_ID_Req_IfaceMacAddrSetGet, Template F_resp_iface_mac_addr_set_get F_req_iface_mac_addr_set_get),
    (RPC_ID_Req_IfaceMacAddrLenGet, Template F_resp_iface_mac_addr_len_get F_req_iface_mac_addr_len_get),
    (RPC_ID_Req_FeatureControl, Template F_resp_feature_control F_req_feature_control),
    (RPC_ID_Req_AppGetDesc, Template_Simple F_resp_app_get_desc None),
    (RPC_ID_Req_GetMACAddress, Template_Simple F_resp_get_mac_address (Some F_req_get_mac_address)),
    (RPC_ID_Req_GetWifiMode, Template_Simple F_resp_get_wifi_mode None),
    (RPC_ID_Req_SetWifiMode, Template F_resp_set_wifi_mode F_req_set_wifi_mode),
    (RPC_ID_Req_SetMacAddress, Template F_resp_set_mac_address F_req_set_mac_address),
    (RPC_ID_Req_WifiSetPs, Template F_resp_wifi_set_ps F_req_wifi_set_ps),
    (RPC_ID_Req_WifiGetPs, Template_Simple F_resp_wifi_get_ps None),
    (RPC_ID_Req_WifiSetMaxTxPower, Template F_resp_set_wifi_max_tx_power F_req_set_wifi_max_tx_power),
    (RPC_ID_Req_WifiGetMaxTxPower, Template_Simple F_resp_get_wifi_max_tx_power None),
    (RPC_ID_Req_WifiInit, Template F_resp_wifi_init F_req_wifi_init),
    (RPC_ID_Req_WifiDeinit, Template_Simple F_resp_wifi_deinit None),
    (RPC_ID_Req_WifiStart, Template_Simple F_resp_wifi_start None),
    (RPC_ID_Req_WifiStop, Template_Simple F_resp_wifi_stop None),
    (RPC_ID_Req_WifiConnect, Template_Simple F_resp_wifi_connect None),
    (RPC_ID_Req_WifiDisconnect, Template_Simple F_resp_wifi_disconnect None),
    (RPC_ID_Req_WifiSetConfig, Template F_resp_wifi_set_config F_req_wifi_set_config),
    (RPC_ID_Req_WifiScanParams, Template F_resp_wifi_scan_params F_req_wifi_scan_params),
    (RPC_ID_Req_WifiGetConfig, Template F_resp_wifi_get_config F_req_wifi_get_config),
    (RPC_ID_Req_WifiScanStart, Template F_resp_wifi_scan_start F_req_wifi_scan_start),
    (RPC_ID_Req_WifiScanStop, Template_Simple F_resp_wifi_scan_stop None),
    (RPC_ID_Req_WifiScanGetApNum, Template_Simple F_resp_wifi_scan_get_ap_num None),
    (RPC_ID_Req_WifiScanGetApRecord, Template_Simple F_resp_wifi_scan_get_ap_record None),
    (RPC_ID_Req_WifiScanGetApRecords, Template_Simple F_resp_wifi_scan_get_ap_records (Some F_req_wifi_scan_get_ap_records)),
    (RPC_ID_Req_WifiClearApList, Template_Simple F_resp_wifi_clear_ap_list None),
    (RPC_ID_Req_WifiRestore, Template_Simple F_resp_wifi_restore None),
    (RPC_ID_Req_WifiClearFastConnect, Template_Simple F_resp_wifi_clear_fast_connect None),
    (RPC_ID_Req_WifiStaGetApInfo, Template_Simple F_resp_wifi_sta_get_ap_info None),
    (RPC_ID_Req_WifiDeauthSta, Template F_resp_wifi_deauth_sta F_req_wifi_deauth_sta),
    (RPC_ID_Req_WifiSetStorage, Template F_resp_wifi_set_storage F_req_wifi_set_storage),
    (RPC_ID_Req_WifiSetProtocol, Template F_resp_wifi_set_protocol F_req_wifi_set_protocol),
    (RPC_ID_Req_WifiGetProtocol, Template F_resp_wifi_get_protocol F_req_wifi_get_protocol),
    (RPC_ID_Req_WifiSetBandwidth, Template F_resp_wifi_set_bandwidth F_req_wifi_set_bandwidth),
    (RPC_ID_Req_WifiGetBandwidth, Template F_resp_wifi_get_bandwidth F_req_wifi_get_bandwidth),
    (RPC_ID_Req_WifiSetChannel, Template F_resp_wifi_set_channel F_req_wifi_set_channel),
    (RPC_ID_Req_WifiGetChannel, Template_Simple F_resp_wifi_get_channel None),
    (RPC_ID_Req_WifiSetCountryCode, Template F_resp_wifi_set_country_code F_req_wifi_set_country_code),
    (RPC_ID_Req_WifiGetCountryCode, Template_Simple F_resp_wifi_get_country_code None),
    (RPC_ID_Req_WifiSetCountry, Template F_resp_wifi_set_country F_req_wifi_set_country),
    (RPC_ID_Req_WifiGetCountry, Template_Simple F_resp_wifi_get_country None),
    (RPC_ID_Req_WifiApGetStaList, Template_Simple F_resp_wifi_ap_get_sta_list None),
    (RPC_ID_Req_WifiApGetStaAid, Template F_resp_wifi_ap_get_sta_aid F_req_wifi_ap_get_sta_aid),
    (RPC_ID_Req_WifiStaGetRssi, Template_Simple F_resp_wifi_sta_get_rssi None),
    (RPC_ID_Req_WifiStaGetAid, Template_Simple F_resp_wifi_sta_get_aid None),
    (RPC_ID_Req_WifiStaGetNegotiatedPhymode, Template_Simple F_resp_wifi_sta_get_negotiated_phymode None),
    (RPC_ID_Req_WifiSetProtocols, Template F_resp_wifi_set_protocols F_req_wifi_set_protocols),
    (RPC_ID_Req_WifiGetProtocols, Template F_resp_wifi_get_protocols F_req_wifi_get_protocols),
    (RPC_ID_Req_WifiSetBandwidths, Template F_resp_wifi_set_bandwidths F_req_wifi_set_bandwidths),
    (RPC_ID_Req_WifiGetBandwidths, Template F_resp_wifi_get_bandwidths F_req_wifi_get_bandwidths),
    (RPC_ID_Req_WifiSetBand, Template F_resp_wifi_set_band F_req_wifi_set_band),
    (RPC_ID_Req_WifiGetBand, Template_Simple F_resp_wifi_get_band None),
    (RPC_ID_Req_WifiSetBandMode, Template F_resp_wifi_set_bandmode F_req_wifi_set_bandmode),
    (RPC_ID_Req_WifiGetBandMode, Template_Simple F_resp_wifi_get_bandmode None),
    (RPC_ID_Req_WifiSetInactiveTime, Template F_resp_wifi_set_inactive_time F_req_wifi_set_inactive_time),
    (RPC_ID_Req_WifiGetInactiveTime, Template F_resp_wifi_get_inactive_time F_req_wifi_get_inactive_time),
    (RPC_ID_Req_SetDhcpDnsStatus, Template F_resp_set_dhcp_dns F_req_set_dhcp_dns),
    (RPC_ID_Req_GetDhcpDnsStatus, Template F_resp_get_dhcp_dns F_req_get_dhcp_dns),
    (RPC_ID_Req_WifiStaTwtConfig, Template F_resp_wifi_sta_twt_config F_req_wifi_sta_twt_config),
    (RPC_ID_Req_WifiStaItwtSetup, Template F_resp_wifi_sta_itwt_setup F_req_wifi_sta_itwt_setup),
    (RPC_ID_Req_WifiStaItwtTeardown, Template F_resp_wifi_sta_itwt_teardown F_req_wifi_sta_itwt_teardown),
    (RPC_ID_Req_WifiStaItwtSuspend, Template F_resp_wifi_sta_itwt_suspend F_req_wifi_sta_itwt_suspend),
    (RPC_ID_Req_WifiStaItwtGetFlowIdStatus, Template_Simple F_resp_wifi_sta_itwt_get_flow_id_status None),
    (RPC_ID_Req_WifiStaItwtSendProbeReq, Template F_resp_wifi_sta_itwt_send_probe_req F_req_wifi_sta_itwt_send_probe_req),
    (RPC_ID_Req_WifiStaItwtSetTargetWakeTimeOffset, Template F_resp_wifi_sta_itwt_set_target_wake_time_offset F_req_wifi_sta_itwt_set_target_wake_time_offset),
    (RPC_ID_Req_WifiStaEnterpriseEnable, Template_Simple F_resp_wifi_sta_enterprise_enable None),
    (RPC_ID_Req_WifiStaEnterpriseDisable, Template_Simple F_resp_wifi_sta_enterprise_disable None),
    (RPC_ID_Req_EapSetIdentity, Template F_resp_eap_set_identity F_req_eap_set_identity),
    (RPC_ID_Req_EapClearIdentity, Template_Simple F_resp_eap_clear_identity None),
    (RPC_ID_Req_EapSetUsername, Template F_resp_eap_set_username F_req_eap_set_username),
    (RPC_ID_Req_EapClearUsername, Template_Simple F_resp_eap_clear_username None),
    (RPC_ID_Req_EapSetPassword, Template F_resp_eap_set_password F_req_eap_set_password),
    (RPC_ID_Req_EapClearPassword, Template_Simple F_resp_eap_clear_password None),
    (RPC_ID_Req_EapSetNewPassword, Template F_resp_eap_set_new_password F_req_eap_set_new_password),
    (RPC_ID_Req_EapClearNewPassword, Template_Simple F_resp_eap_clear_new_password None),
    (RPC_ID_Req_EapSetCaCert, Template F_resp_eap_set_ca_cert F_req_eap_set_ca_cert),
    (RPC_ID_Req_EapClearCaCert, Template_Simple F_resp_eap_clear_ca_cert None),
    (RPC_ID_Req_EapSetCertificateAndKey, Template F_resp_eap_set_certificate_and_key F_req_eap_set_certificate_and_key),
    (RPC_ID_Req_EapClearCertificateAndKey, Template_Simple F_resp_eap_clear_certificate_and_key None),
    (RPC_ID_Req_EapGetDisableTimeCheck, Template_Simple F_resp_eap_get_disable_time_check None),
    (RPC_ID_Req_EapSetTtlsPhase2Method, Template F_resp_eap_set_ttls_phase2_method F_req_eap_set_ttls_phase2_method),
    (RPC_ID_Req_EapSetSuitebCertification, Template F_resp_eap_set_suiteb_certification F_req_eap_set_suiteb_certification),
    (RPC_ID_Req_EapSetPacFile, Template F_resp_eap_set_pac_file F_req_eap_set_pac_file),
    (RPC_ID_Req_EapSetFastParams, Template F_resp_eap_set_fast_params F_req_eap_set_fast_params),
    (RPC_ID_Req_EapUseDefaultCertBundle, Template F_resp_eap_use_default_cert_bundle F_req_eap_use_default_cert_bundle),
    (RPC_ID_Req_WifiSetOkcSupport, Template F_resp_wifi_set_okc_support F_req_wifi_set_okc_support),
    (RPC_ID_Req_EapSetDomainName, Template F_resp_eap_set_domain_name F_req_eap_set_domain_name),
    (RPC_ID_Req_EapSetDisableTimeCheck, Template F_resp_eap_set_disable_time_check F_req_eap_set_disable_time_check),
    (RPC_ID_Req_EapSetEapMethods, Template F_resp_eap_set_eap_methods F_req_eap_set_eap_methods),
    (RPC_ID_Req_SuppDppInit, Template F_resp_supp_dpp_init F_req_supp_dpp_init),
    (RPC_ID_Req_SuppDppDeinit, Template_Simple F_resp_supp_dpp_deinit None),
    (RPC_ID_Req_SuppDppDeinit, Template_Simple F_resp_supp_dpp_deinit None),
    (RPC_ID_Req_SuppDppBootstrapGen, Template F_resp_supp_dpp_bootstrap_gen F_req_supp_dpp_bootstrap_gen),
    (RPC_ID_Req_SuppDppStartListen, Template_Simple F_resp_supp_dpp_start_listen None),
    (RPC_ID_Req_SuppDppStopListen, Template_Simple F_resp_supp_dpp_stop_listen None),
    (RPC_ID_Req_MemMonitor, Template F_resp_mem_monitor F_req_mem_monitor),
    (RPC_ID_Req_CustomRpc, Template F_resp_custom_rpc F_req_custom_rpc),
    (RPC_ID_Req_GpioConfig, Template F_resp_gpio_config F_req_gpio_config),
    (RPC_ID_Req_GpioResetPin, Template F_resp_gpio_reset F_req_gpio_reset_pin),
    (RPC_ID_Req_GpioSetLevel, Template F_resp_gpio_set_level F_req_gpio_set_level),
    (RPC_ID_Req_GpioGetLevel, Template F_resp_gpio_get_level F_req_gpio_get_level),
    (RPC_ID_Req_GpioSetDirection, Template F_resp_gpio_set_direction F_req_gpio_set_direction),
    (RPC_ID_Req_GpioInputEnable, Template F_resp_gpio_input_enable F_req_gpio_input_enable),
    (RPC_ID_Req_GpioSetPullMode, Template F_resp_gpio_set_pull_mode F_req_gpio_set_pull_mode),
    (RPC_ID_Req_ExtCoex, Template F_resp_ext_coex F_req_ext_coex)]"

definition lookup_req_handler :: "int \<Rightarrow> int" where
  "lookup_req_handler req_id =
     (case first_slot (\<lambda>e. fst e = req_id) req_table of None \<Rightarrow> - 1 | Some i \<Rightarrow> int i)"

text \<open>The dispatcher: the handler's own error is dropped, and an unsupported request gets \<open>RPC_ID__Resp_Base\<close>.\<close>

definition esp_rpc_command_dispatcher ::
  "'s handler_impl \<Rightarrow> bool \<Rightarrow> rpc \<Rightarrow> rpc \<Rightarrow> 's \<Rightarrow> (esp_err \<times> rpc \<times> 's) option" where
  "esp_rpc_command_dispatcher impl mem req resp s =
     (if rp_id req \<le> RPC_ID_Req_Base \<or> rp_id req \<ge> RPC_ID_Req_Max
      then Some (ESP_OK, resp\<lparr>rp_id := RPC_ID_Resp_Base\<rparr>, s)
      else
        let i = lookup_req_handler (rp_id req) in
        if i < 0 then Some (ESP_OK, resp\<lparr>rp_id := RPC_ID_Resp_Base\<rparr>, s)
        else map_option (\<lambda>(e, resp, s). (ESP_OK, resp, s))
               (command_handler impl mem (snd (req_table ! nat i)) req resp s))"

text \<open>
  \<open>data_transfer_handler\<close>: \<open>m1\<close>, \<open>m2\<close>, \<open>m3\<close>: the response, the reply payload and the output buffer can be allocated;
  \<open>ptrs\<close>: the output pointers are not null. The result is the return value, the output buffer, the number of
  messages left allocated, and the state.
\<close>

definition data_transfer_handler ::
  "(bytes \<Rightarrow> rpc option) \<Rightarrow> (rpc \<Rightarrow> bytes) \<Rightarrow> 's handler_impl \<Rightarrow> bool \<times> bool \<times> bool \<Rightarrow> bool \<Rightarrow> bytes option \<Rightarrow> 's \<Rightarrow>
     (esp_err \<times> bytes option \<times> nat \<times> 's) option" where
  "data_transfer_handler unpack pack impl mems ptrs inbuf s =
     (case mems of (m1, m2, m3) \<Rightarrow>
      if \<not> m1 then Some (ESP_FAIL, None, 0, s)
      else if inbuf = None \<or> \<not> ptrs then Some (ESP_FAIL, None, 1, s)
      else case unpack (the inbuf) of
          None \<Rightarrow> Some (ESP_FAIL, None, 1, s)
        | Some req \<Rightarrow>
            let resp = rpc_init\<lparr>rp_type := RPC_Resp, rp_id := rp_id req - RPC_ID_Req_Base + RPC_ID_Resp_Base,
                         rp_uid := rp_uid req\<rparr>;
                resp = resp\<lparr>rp_case := rp_id resp\<rparr>
            in
            (case esp_rpc_command_dispatcher impl m2 req resp s of
               None \<Rightarrow> None
             | Some (ret, resp, s) \<Rightarrow>
                 if ret \<noteq> ESP_OK then Some (ESP_FAIL, None, 1, s)
                 else if pack resp = [] then Some (ESP_FAIL, None, 0, s)
                 else if \<not> m3 then Some (ESP_ERR_NO_MEM, None, 0, s)
                 else Some (ESP_OK, Some (pack resp), 0, s)))"

section \<open>Lemmas\<close>

lemma first_slot_map_of:
  "first_slot (\<lambda>e. fst e = x) xs = None \<longleftrightarrow> map_of xs x = None"
  "first_slot (\<lambda>e. fst e = x) xs = Some k \<Longrightarrow> map_of xs x = Some (snd (xs ! k))"
proof -
  show "first_slot (\<lambda>e. fst e = x) xs = None \<longleftrightarrow> map_of xs x = None"
    by (induction xs) auto
  show "first_slot (\<lambda>e. fst e = x) xs = Some k \<Longrightarrow> map_of xs x = Some (snd (xs ! k))"
  proof (induction xs arbitrary: k)
    case (Cons e xs)
    then show ?case by (cases e) (auto split: if_splits)
  qed simp
qed

text \<open>The members a handler of request \<open>i\<close> may name.\<close>

primrec handler_of :: "int \<Rightarrow> rpc_handler \<Rightarrow> bool" where
  "handler_of i (Template r q) = (r = i + 256 \<and> q = i)"
| "handler_of i (Template_Simple r q) = (r = i + 256 \<and> (q = None \<or> q = Some i))"
| "handler_of i (Ota_Handler r q) = (r = i + 256 \<and> (q = None \<or> q = Some i))"

primrec tests_payload :: "rpc_handler \<Rightarrow> bool" where
  "tests_payload (Template r q) = True"
| "tests_payload (Template_Simple r q) = False"
| "tests_payload (Ota_Handler r q) = False"

primrec reads_payload :: "rpc_handler \<Rightarrow> bool" where
  "reads_payload (Template r q) = True"
| "reads_payload (Template_Simple r q) = (q \<noteq> None)"
| "reads_payload (Ota_Handler r q) = (q \<noteq> None)"

lemma req_table_types: "list_all (\<lambda>(i, h). 256 < i \<and> i < 397 \<and> handler_of i h) req_table"
  by (simp add: req_table_def)

lemma req_table_entry:
  assumes "map_of req_table i = Some h"
  shows "256 < i" "i < 397" "handler_of i h"
  using req_table_types map_of_SomeD [OF assms] by (auto simp: list_all_iff)

text \<open>The search of the table, its index and the range test amount to the map the table denotes.\<close>

lemma dispatcher_map_of:
  "esp_rpc_command_dispatcher impl mem req resp s =
     (case map_of req_table (rp_id req) of
        None \<Rightarrow> Some (ESP_OK, resp\<lparr>rp_id := RPC_ID_Resp_Base\<rparr>, s)
      | Some h \<Rightarrow> map_option (\<lambda>(e, resp, s). (ESP_OK, resp, s)) (command_handler impl mem h req resp s))"
proof (cases "first_slot (\<lambda>e. fst e = rp_id req) req_table")
  case None
  then have "map_of req_table (rp_id req) = None" by (simp only: first_slot_map_of)
  with None show ?thesis by (simp add: esp_rpc_command_dispatcher_def lookup_req_handler_def)
next
  case (Some k)
  note h = first_slot_map_of(2) [OF Some]
  then show ?thesis using Some req_table_entry(1,2) [OF h]
    by (simp add: esp_rpc_command_dispatcher_def lookup_req_handler_def Let_def)
qed

text \<open>
  A request is well formed: its payload is that of its identifier, and there is one if the handler reads it
  without a test.
\<close>

definition rpc_req_ok :: "rpc \<Rightarrow> bool" where
  "rpc_req_ok req =
     (case rp_union req of
        None \<Rightarrow> (case map_of req_table (rp_id req) of None \<Rightarrow> True | Some h \<Rightarrow> reads_payload h \<longrightarrow> tests_payload h)
      | Some b \<Rightarrow> bd_tag b = rp_id req)"

text \<open>The data a handler is called with.\<close>

definition handler_input :: "rpc_handler \<Rightarrow> rpc \<Rightarrow> bytes" where
  "handler_input h req =
     (if reads_payload h then (case rp_union req of None \<Rightarrow> [] | Some b \<Rightarrow> bd_data b) else [])"

lemma rp_case_same: "rp_case m = c \<Longrightarrow> m\<lparr>rp_case := c\<rparr> = m"
  by auto

lemma read_payload:
  assumes "rp_union req = Some b" "bd_tag b = i" "q = None \<or> q = Some i"
  shows "read_unchecked q req = Some (if q \<noteq> None then bd_data b else [])" "read_member i req = Some (bd_data b)"
  using assms by (auto simp: read_unchecked_def read_member_def)

lemma command_handler_runs:
  assumes "handler_of (rp_id req) h" "rpc_req_ok req" "reads_payload h \<longrightarrow> rp_union req \<noteq> None" "rp_case resp = rp_id req + 256"
  shows "command_handler impl True h req resp s =
    Some (fill_reply impl (rp_id req) (rp_id req + 256) (handler_input h req) resp s)"
proof (cases "rp_union req")
  case None
  then show ?thesis using assms
    by (cases h) (auto simp: handler_input_def read_unchecked_def rp_case_same)
next
  case (Some b)
  then have "bd_tag b = rp_id req" using assms(2) by (simp add: rpc_req_ok_def)
  then show ?thesis using assms(1,4) Some read_payload [OF Some]
    by (cases h) (auto simp: handler_input_def rp_case_same read_member_def read_unchecked_def)
qed

lemma command_handler_no_mem:
  "tests_payload h \<longrightarrow> rp_union req \<noteq> None \<Longrightarrow> command_handler impl False h req resp s = Some (ESP_ERR_NO_MEM, resp, s)"
  by (cases h) auto

lemma command_handler_no_payload:
  "rp_union req = None \<Longrightarrow> tests_payload h \<Longrightarrow> command_handler impl mem h req resp s = Some (ESP_FAIL, resp, s)"
  by (cases h) auto

lemma fill_reply_obtains:
  obtains e r out s' where "impl i d s = ((e, r, out), s')"
    "fill_reply impl i f d resp s = (e, resp\<lparr>rp_union := Some \<lparr>bd_tag = f, bd_resp = r, bd_data = out\<rparr>\<rparr>, s')"
proof (cases "impl i d s")
  case (Pair x s')
  obtain e r out where "x = (e, r, out)" by (cases x)
  with Pair that show ?thesis by (simp add: fill_reply_def)
qed

section \<open>Properties\<close>

text \<open>
  C27: a request whose payload is of the type its identifier announces is dispatched without a read through a
  null pointer or a wrong member of the payload union, whatever its handler does: the dispatcher succeeds and
  the reply is well typed, keeps the identifier of the call, and is numbered either as the response to the
  request, when the table has a handler for it, or as unsupported.
\<close>
theorem rpc_dispatch_type_safe:
  assumes "rpc_req_ok req" "rp_union resp = None" "rp_id resp = rp_id req + 256" "rp_case resp = rp_id resp"
  shows "\<exists>resp' s'. esp_rpc_command_dispatcher impl mem req resp s = Some (ESP_OK, resp', s') \<and>
    rpc_well_typed resp' \<and> rp_uid resp' = rp_uid resp \<and> rp_type resp' = rp_type resp \<and>
    rp_id resp' = (if map_of req_table (rp_id req) = None then RPC_ID_Resp_Base else rp_id req + 256)"
proof (cases "map_of req_table (rp_id req)")
  case None
  then show ?thesis using assms by (simp add: dispatcher_map_of rpc_well_typed_def)
next
  case (Some h)
  note t = req_table_entry(3) [OF Some]
  have u: "rp_union req = None \<Longrightarrow> reads_payload h \<Longrightarrow> tests_payload h"
    using assms(1) Some by (simp add: rpc_req_ok_def)
  have "\<exists>e resp' s'. command_handler impl mem h req resp s = Some (e, resp', s') \<and>
      rpc_well_typed resp' \<and> rp_uid resp' = rp_uid resp \<and> rp_type resp' = rp_type resp \<and> rp_id resp' = rp_id resp"
  proof (cases "tests_payload h \<and> rp_union req = None")
    case True
    then show ?thesis
      using command_handler_no_payload [of req h impl mem resp s] assms(2) by (simp add: rpc_well_typed_def)
  next
    case f: False
    show ?thesis
    proof (cases mem)
      case True
      obtain e r out s' where "fill_reply impl (rp_id req) (rp_id req + 256) (handler_input h req) resp s =
          (e, resp\<lparr>rp_union := Some \<lparr>bd_tag = rp_id req + 256, bd_resp = r, bd_data = out\<rparr>\<rparr>, s')"
        by (rule fill_reply_obtains)
      moreover have "reads_payload h \<longrightarrow> rp_union req \<noteq> None" using f u by auto
      ultimately show ?thesis
        using command_handler_runs [OF t assms(1), of resp impl s] True assms(3,4) by (simp add: rpc_well_typed_def)
    next
      case False
      then show ?thesis
        using command_handler_no_mem [of h req impl resp s] f assms(2) by (auto simp: rpc_well_typed_def)
    qed
  qed
  then show ?thesis using Some assms(3) by (auto simp: dispatcher_map_of)
qed

theorem rpc_dispatch_type_safe_witness:
  "\<exists>resp' s'. esp_rpc_command_dispatcher (\<lambda>i d s. ((ESP_OK, 0, d), s)) True
      \<lparr>rp_type = RPC_Invalid, rp_id = 257, rp_uid = 1, rp_case = 257, rp_union = Some \<lparr>bd_tag = 257, bd_resp = 0, bd_data = [3]\<rparr>\<rparr>
      \<lparr>rp_type = RPC_Resp, rp_id = 513, rp_uid = 1, rp_case = 513, rp_union = None\<rparr> () = Some (ESP_OK, resp', s') \<and>
    rp_id resp' = 513 \<and> rpc_well_typed resp'"
proof -
  let ?q = "\<lparr>rp_type = RPC_Invalid, rp_id = 257, rp_uid = 1, rp_case = 257, rp_union = Some \<lparr>bd_tag = 257, bd_resp = 0, bd_data = [3]\<rparr>\<rparr>"
  have "map_of req_table 257 \<noteq> None" by (simp add: req_table_def)
  then show ?thesis
    using rpc_dispatch_type_safe [of ?q "\<lparr>rp_type = RPC_Resp, rp_id = 513, rp_uid = 1, rp_case = 513, rp_union = None\<rparr>"
        "\<lambda>i d s. ((ESP_OK, 0, d), s)" True "()"]
    by (auto simp: rpc_req_ok_def)
qed

end
