(* ===== verification/Rpc_Call.thy ===== *)
theory Rpc_Call
  imports Slave_Control
begin

text \<open>
  A remote procedure call from the host application to a handler of the co-processor and back: the request
  composed by the host, served by \<open>data_transfer_handler\<close>, parsed by the host and handed to the caller that
  waits for it. The octets of both messages are carried by the serial link, whose delivery the other theories
  show.
\<close>

section \<open>Composed requests\<close>

lemma compose_tables:
  "list_all (\<lambda>i. 256 < i \<and> i < 397 \<and> (case map_of req_table i of None \<Rightarrow> False | Some h \<Rightarrow> \<not> reads_payload h)) compose_no_body"
  "list_all (\<lambda>(i, f). 256 < i \<and> i < 397 \<and> f = i \<and> map_of req_table i \<noteq> None) compose_body"
  "list_all (\<lambda>i. map_of parse_table (i + 256) \<noteq> None) (compose_no_body @ map fst compose_body)"
  by code_simp+

lemma compose_no_body_entry:
  assumes "i \<in> set compose_no_body"
  obtains h where "map_of req_table i = Some h" "\<not> reads_payload h" "map_of parse_table (i + 256) \<noteq> None" "256 < i" "i < 397"
proof -
  have "256 < i \<and> i < 397 \<and> (case map_of req_table i of None \<Rightarrow> False | Some h \<Rightarrow> \<not> reads_payload h)"
    using compose_tables(1) assms by (simp only: list_all_iff)
  moreover have "map_of parse_table (i + 256) \<noteq> None"
    using compose_tables(3) assms by (simp only: list_all_iff set_append Un_iff simp_thms)
  ultimately show ?thesis using that by (simp split: option.splits)
qed

lemma compose_body_entry:
  assumes "map_of compose_body i = Some f"
  obtains h where "map_of req_table i = Some h" "f = i" "map_of parse_table (i + 256) \<noteq> None" "256 < i" "i < 397"
proof -
  have m: "(i, f) \<in> set compose_body" using assms by (rule map_of_SomeD)
  then have "256 < i \<and> i < 397 \<and> f = i \<and> map_of req_table i \<noteq> None"
    using compose_tables(2) by (auto simp only: list_all_iff)
  moreover have "i \<in> set (map fst compose_body)" using m by force
  then have "map_of parse_table (i + 256) \<noteq> None"
    using compose_tables(3) by (simp only: list_all_iff set_append Un_iff simp_thms)
  ultimately show ?thesis using that by blast
qed

definition composed :: "bytes option \<Rightarrow> int \<Rightarrow> u32 \<Rightarrow> rpc" where
  "composed b i uid = \<lparr>rp_type = RPC_Invalid, rp_id = i, rp_uid = uid, rp_case = i,
     rp_union = map_option (\<lambda>d. \<lparr>bd_tag = i, bd_resp = 0, bd_data = d\<rparr>) b\<rparr>"

text \<open>What a request composed by the host looks like; its type field is the one \<open>rpc__init\<close> left.\<close>

lemma build_obtains:
  assumes "build_rpc_req mem args i uid = (H_OK, fs, req)"
  obtains h b where "map_of req_table i = Some h" "req = composed b i uid" "reads_payload h \<longrightarrow> b \<noteq> None"
    "map_of parse_table (i + 256) \<noteq> None" "256 < i" "i < 397" "b = None \<longrightarrow> i \<in> set compose_no_body"
    "b \<noteq> None \<longrightarrow> b = args"
proof (cases "i \<in> set compose_no_body")
  case True
  obtain h where h: "map_of req_table i = Some h" "\<not> reads_payload h" "map_of parse_table (i + 256) \<noteq> None"
      "256 < i" "i < 397"
    using True by (rule compose_no_body_entry)
  have "req = composed None i uid"
    using assms True by (simp add: build_rpc_req_def compose_rpc_req_def composed_def rpc_init_def Let_def)
  then show ?thesis using that [of h None] h True by simp
next
  case False
  then obtain f d where f: "map_of compose_body i = Some f" "args = Some d"
      "req = rpc_init\<lparr>rp_id := i, rp_uid := uid, rp_case := i, rp_union := Some \<lparr>bd_tag = f, bd_resp = 0, bd_data = d\<rparr>\<rparr>"
    using assms by (auto simp: build_rpc_req_def compose_rpc_req_def Let_def rpc_init_def split: option.splits if_splits)
  obtain h where h: "map_of req_table i = Some h" "f = i" "map_of parse_table (i + 256) \<noteq> None" "256 < i" "i < 397"
    using f(1) by (rule compose_body_entry)
  have "req = composed (Some d) i uid" using f(3) h(2) by (simp add: composed_def rpc_init_def)
  then show ?thesis using that [of h "Some d"] h f(2) by simp
qed

lemma rp_union_wire [simp]: "rp_union (wire m) = rp_union m"
  by (simp add: wire_def)

lemma handler_input_wire [simp]: "handler_input h (wire m) = handler_input h m"
  by (simp add: handler_input_def)

lemma composed_simps [simp]:
  "rp_id (wire (composed b i uid)) = i" "rp_uid (wire (composed b i uid)) = uid"
  "rp_union (composed b i uid) = map_option (\<lambda>d. \<lparr>bd_tag = i, bd_resp = 0, bd_data = d\<rparr>) b"
  by (simp_all add: wire_def composed_def)

lemma composed_ok:
  assumes "map_of req_table i = Some h" "reads_payload h \<longrightarrow> b \<noteq> None"
  shows "rpc_req_ok (wire (composed b i uid))"
  using assms by (cases b) (auto simp: rpc_req_ok_def)

lemma codec_sent:
  assumes "codec_ok pack unpack" "256 < i"
  shows "pack (composed b i uid) \<noteq> []" "unpack (pack (composed b i uid)) = Some (wire (composed b i uid))"
  using assms by (auto simp: codec_ok_def composed_def rpc_well_typed_def split: option.splits)

section \<open>Served requests\<close>

definition reply :: "int \<Rightarrow> u32 \<Rightarrow> rpc_body option \<Rightarrow> rpc" where
  "reply i uid b = \<lparr>rp_type = RPC_Resp, rp_id = i, rp_uid = uid, rp_case = i, rp_union = b\<rparr>"

lemma reply_sent:
  assumes "codec_ok pack unpack" "i \<noteq> 0" "b = None \<or> (\<exists>r d. b = Some \<lparr>bd_tag = i, bd_resp = r, bd_data = d\<rparr>)"
  shows "pack (reply i uid b) \<noteq> []" "unpack (pack (reply i uid b)) = Some (wire (reply i uid b))"
  using assms by (auto simp: codec_ok_def reply_def rpc_well_typed_def)

lemma data_transfer_reply:
  assumes "unpack inp = Some req" "map_of req_table (rp_id req) = Some h"
    "command_handler impl m2 h req (reply (rp_id req + 256) (rp_uid req) None) s = Some (e, resp, s')"
    "pack resp \<noteq> []"
  shows "data_transfer_handler unpack pack impl (True, m2, True) True (Some inp) s = Some (ESP_OK, Some (pack resp), 0, s')"
  using assms by (simp add: data_transfer_handler_def dispatcher_map_of rpc_init_def reply_def Let_def add.commute)

lemma sync_call_reply:
  assumes "can_call sem p st" "rc_rxq st = []" "256 < i" "i < 397"
    and "m = wire (reply (i + 256) (next_uid (rc_uid st)) b)"
  shows "\<exists>st'. sync_call sem tmo status (rpc_header m) p st =
      Some (Some \<lparr>rs_msg_id = i + 256, rs_uid = next_uid (rc_uid st), rs_status = status\<rparr>, st')"
proof -
  have "good_rsp (next_uid (rc_uid st)) (rpc_header m)"
    using assms(3-5) by (simp add: good_rsp_def rpc_header_def wire_def reply_def)
  then show ?thesis
    using sync_call_result [OF assms(1), of "rpc_header m" tmo status] assms(2,5)
    by (auto simp: rsp_of_def rpc_header_def wire_def reply_def)
qed

text \<open>The call as the co-processor serves it, and the reply as the caller gets it.\<close>

abbreviation (input) reply_body :: "int \<Rightarrow> int \<Rightarrow> bytes \<Rightarrow> rpc_body option" where
  "reply_body i r out \<equiv> Some \<lparr>bd_tag = i + 256, bd_resp = r, bd_data = out\<rparr>"

lemma request_served:
  assumes "codec_ok pack unpack" "build_rpc_req True args i uid = (H_OK, fs, req)"
    and "impl i (handler_input (the (map_of req_table i)) req) s = ((e, r, out), s')"
  shows "data_transfer_handler unpack pack impl (True, True, True) True (Some (pack req)) s =
    Some (ESP_OK, Some (pack (reply (i + 256) uid (reply_body i r out))), 0, s')"
proof -
  obtain h b where h: "map_of req_table i = Some h" "req = composed b i uid" "reads_payload h \<longrightarrow> b \<noteq> None"
      "map_of parse_table (i + 256) \<noteq> None" "256 < i" "i < 397"
    using assms(2) by (rule build_obtains)
  have ok: "rpc_req_ok (wire req)" using composed_ok [OF h(1,3)] h(2) by simp
  have run: "command_handler impl True h (wire req) (reply (i + 256) uid None) s =
      Some (e, reply (i + 256) uid (reply_body i r out), s')"
    using command_handler_runs [OF _ ok, of h "reply (i + 256) uid None" impl s] h(2,3) assms(3) h(1)
      req_table_entry(3) [OF h(1)]
    by (simp add: fill_reply_def reply_def)
  have rep: "pack (reply (i + 256) uid (reply_body i r out)) \<noteq> []"
    using reply_sent(1) [OF assms(1), of "i + 256" "reply_body i r out" uid] h(5) by simp
  show ?thesis
    by (rule data_transfer_reply [where req = "wire req" and h = h and e = e])
      (use codec_sent(2) [OF assms(1) h(5)] h(1,2) run rep in \<open>simp_all\<close>)
qed

lemma packed_nonempty:
  assumes "codec_ok pack unpack" "build_rpc_req True args i uid = (H_OK, fs, req)"
  shows "pack req \<noteq> []" "pack (reply (i + 256) uid (reply_body i r out)) \<noteq> []"
proof -
  obtain h b where "256 < i" "req = composed b i uid" using assms(2) by (rule build_obtains) blast
  then show "pack req \<noteq> []" "pack (reply (i + 256) uid (reply_body i r out)) \<noteq> []"
    using codec_sent(1) [OF assms(1)] reply_sent(1) [OF assms(1), of "i + 256" "reply_body i r out" uid] by auto
qed

lemma reply_delivered:
  assumes "codec_ok pack unpack" "can_call sem p st" "rc_rxq st = []"
    and "build_rpc_req True args i (next_uid (rc_uid st)) = (H_OK, fs, req)"
  shows "\<exists>m st'. unpack (pack (reply (i + 256) (next_uid (rc_uid st)) (reply_body i r out))) = Some m \<and>
    rp_union m = reply_body i r out \<and>
    sync_call sem tmo (snd (rpc_parse_rsp m)) (rpc_header m) p st =
      Some (Some \<lparr>rs_msg_id = i + 256, rs_uid = next_uid (rc_uid st), rs_status = r\<rparr>, st')"
proof -
  obtain h where h: "map_of parse_table (i + 256) \<noteq> None" "256 < i" "i < 397"
    using assms(4) by (rule build_obtains) blast
  let ?rep = "reply (i + 256) (next_uid (rc_uid st)) (reply_body i r out)"
  have w: "?rep = wire ?rep" by (simp add: wire_def reply_def)
  have "snd (rpc_parse_rsp ?rep) = r"
    using h(1,2) by (auto simp: rpc_parse_rsp_def reply_def split: option.splits)
  then show ?thesis
    using sync_call_reply [OF assms(2,3) h(2,3) w, of tmo r] reply_sent(2) [OF assms(1), of "i + 256" "reply_body i r out"] w h(2)
    by (auto simp: reply_def)
qed

section \<open>An example codec\<close>

text \<open>A simple encoding in unary that satisfies the contract of the protobuf library, for the examples.\<close>

definition enc_nat :: "nat \<Rightarrow> bytes \<Rightarrow> bytes" where
  "enc_nat n xs = replicate n 1 @ 0 # xs"

definition dec_nat :: "bytes \<Rightarrow> nat \<times> bytes" where
  "dec_nat xs = (length (takeWhile ((=) 1) xs), tl (dropWhile ((=) 1) xs))"

lemma dec_enc_nat [simp]: "dec_nat (enc_nat n xs) = (n, xs)"
  by (induction n) (auto simp: dec_nat_def enc_nat_def)

definition enc_int :: "int \<Rightarrow> bytes \<Rightarrow> bytes" where
  "enc_int i xs = enc_nat (nat i) (enc_nat (nat (- i)) xs)"

definition dec_int :: "bytes \<Rightarrow> int \<times> bytes" where
  "dec_int xs = (case dec_nat xs of (a, xs) \<Rightarrow> case dec_nat xs of (b, xs) \<Rightarrow> (int a - int b, xs))"

lemma dec_enc_int [simp]: "dec_int (enc_int i xs) = (i, xs)"
  by (simp add: dec_int_def enc_int_def)

primrec enc_type :: "rpc_type \<Rightarrow> int" where
  "enc_type RPC_Req = 1" | "enc_type RPC_Resp = 2" | "enc_type RPC_Event = 3" | "enc_type RPC_Invalid = 0"

definition dec_type :: "int \<Rightarrow> rpc_type" where
  "dec_type i = (if i = 1 then RPC_Req else if i = 2 then RPC_Resp else if i = 3 then RPC_Event else RPC_Invalid)"

lemma dec_enc_type [simp]: "dec_type (enc_type t) = t"
  by (cases t) (simp_all add: dec_type_def)

definition demo_pack :: "rpc \<Rightarrow> bytes" where
  "demo_pack m0 = (let m = wire m0 in
     enc_int (enc_type (rp_type m)) (enc_int (rp_id m) (enc_nat (unat (rp_uid m)) (enc_int (rp_case m)
       (case rp_union m of None \<Rightarrow> enc_nat 0 []
        | Some b \<Rightarrow> enc_nat 1 (enc_int (bd_tag b) (enc_int (bd_resp b) (bd_data b))))))))"

definition demo_unpack :: "bytes \<Rightarrow> rpc option" where
  "demo_unpack xs =
     (case dec_int xs of (t, xs) \<Rightarrow> case dec_int xs of (i, xs) \<Rightarrow> case dec_nat xs of (u, xs) \<Rightarrow>
      case dec_int xs of (c, xs) \<Rightarrow> case dec_nat xs of (k, xs) \<Rightarrow>
      Some \<lparr>rp_type = dec_type t, rp_id = i, rp_uid = of_nat u, rp_case = c,
        rp_union = (if k = 0 then None
          else case dec_int xs of (f, xs) \<Rightarrow> case dec_int xs of (r, xs) \<Rightarrow>
            Some \<lparr>bd_tag = f, bd_resp = r, bd_data = xs\<rparr>)\<rparr>)"

lemma demo_codec: "codec_ok demo_pack demo_unpack"
proof -
  have "demo_unpack (demo_pack m) = Some (wire m)" for m
    by (cases "rp_union m") (simp_all add: demo_pack_def demo_unpack_def Let_def wire_def)
  moreover have "demo_pack m \<noteq> []" for m
    by (simp add: demo_pack_def Let_def enc_int_def enc_nat_def)
  ultimately show ?thesis by (simp add: codec_ok_def)
qed

definition demo_impl :: "nat handler_impl" where
  "demo_impl i d n = ((ESP_OK, 0, rev d), Suc n)"

lemma demo_built:
  "build_rpc_req True (Some [3, 4]) 258 (next_uid (rc_uid demo_rc)) = (H_OK, 0, composed (Some [3, 4]) 258 1)"
  by (simp add: build_rpc_req_def compose_rpc_req_def compose_no_body_def compose_body_def rpc_init_def composed_def
      next_uid_def demo_rc_def)

section \<open>Properties\<close>

text \<open>
  C26: a call the host can compose is transparent: the co-processor has a handler for it, runs it exactly once
  on the data the application passed, and the caller gets the handler's status, with the identifier of its own
  request, from the reply the handler's output was packed into; no message is left allocated.
\<close>
theorem rpc_call_transparent:
  assumes "codec_ok pack unpack" "can_call sem p st" "rc_rxq st = []"
    and "build_rpc_req True args i (next_uid (rc_uid st)) = (H_OK, fs, req)"
    and "impl i (handler_input (the (map_of req_table i)) req) s = ((e, r, out), s')"
  shows "\<exists>ob m st'. data_transfer_handler unpack pack impl (True, True, True) True (Some (pack req)) s =
      Some (ESP_OK, Some ob, 0, s') \<and>
    unpack ob = Some m \<and> rp_union m = Some \<lparr>bd_tag = i + 256, bd_resp = r, bd_data = out\<rparr> \<and>
    sync_call sem tmo (snd (rpc_parse_rsp m)) (rpc_header m) p st =
      Some (Some \<lparr>rs_msg_id = i + 256, rs_uid = next_uid (rc_uid st), rs_status = r\<rparr>, st')"
  using request_served [OF assms(1,4), where impl = impl, OF assms(5)] reply_delivered [OF assms(1-4), of r out tmo] by blast

theorem rpc_call_transparent_witness:
  "\<exists>ob m st'. data_transfer_handler demo_unpack demo_pack demo_impl (True, True, True) True
      (Some (demo_pack (composed (Some [3, 4]) 258 1))) 0 = Some (ESP_OK, Some ob, 0, 1) \<and>
    demo_unpack ob = Some m \<and> rp_union m = Some \<lparr>bd_tag = 514, bd_resp = 0, bd_data = [4, 3]\<rparr> \<and>
    sync_call 20 (- 4) (snd (rpc_parse_rsp m)) (rpc_header m) 10 demo_rc =
      Some (Some \<lparr>rs_msg_id = 514, rs_uid = 1, rs_status = 0\<rparr>, st')"
proof -
  have rx: "rc_rxq demo_rc = []" and u: "next_uid (rc_uid demo_rc) = 1" by (simp_all add: demo_rc_def next_uid_def)
  have h: "map_of req_table 258 = Some (Template 514 258)" by (simp add: req_table_def)
  then have "demo_impl 258 (handler_input (the (map_of req_table 258)) (composed (Some [3, 4]) 258 1)) 0 =
      ((ESP_OK, 0, [4, 3]), 1)"
    by (simp add: handler_input_def demo_impl_def)
  from rpc_call_transparent [of demo_pack demo_unpack 20 10 demo_rc "Some [3, 4]" 258 0 "composed (Some [3, 4]) 258 1"
      demo_impl 0 ESP_OK 0 "[4, 3]" 1 "- 4", OF demo_codec demo_can_call rx demo_built this] show ?thesis by (simp add: u)
qed

text \<open>
  When the co-processor cannot allocate the reply payload, the handler does not run and its error is
  dropped on the way: the dispatcher succeeds with an empty reply, the host's parser leaves the zeroed status
  as it is, and the caller is told that the call succeeded.
\<close>
lemma rpc_lost_handler_error:
  assumes "codec_ok pack unpack" "can_call sem p st" "rc_rxq st = []"
    and "build_rpc_req True args i (next_uid (rc_uid st)) = (H_OK, fs, req)"
  shows "\<exists>ob m st'. data_transfer_handler unpack pack impl (True, False, True) True (Some (pack req)) s =
      Some (ESP_OK, Some ob, 0, s) \<and>
    unpack ob = Some m \<and> rp_union m = None \<and>
    sync_call sem tmo (snd (rpc_parse_rsp m)) (rpc_header m) p st =
      Some (Some \<lparr>rs_msg_id = i + 256, rs_uid = next_uid (rc_uid st), rs_status = h_err_code H_OK\<rparr>, st')"
proof -
  obtain h b where h: "map_of req_table i = Some h" "req = composed b i (next_uid (rc_uid st))" "reads_payload h \<longrightarrow> b \<noteq> None"
      "map_of parse_table (i + 256) \<noteq> None" "256 < i" "i < 397" "b = None \<longrightarrow> i \<in> set compose_no_body"
    using assms(4) by (rule build_obtains)
  let ?uid = "next_uid (rc_uid st)"
  let ?rep = "reply (i + 256) ?uid None"
  have run: "command_handler impl False h (wire req) ?rep s = Some (ESP_ERR_NO_MEM, ?rep, s)"
    using h(2,3) by (intro command_handler_no_mem) (cases h, auto)
  have rep: "pack ?rep \<noteq> []" "unpack (pack ?rep) = Some (wire ?rep)"
    using reply_sent [OF assms(1), of "i + 256" None ?uid] h(5) by simp_all
  have "data_transfer_handler unpack pack impl (True, False, True) True (Some (pack req)) s =
      Some (ESP_OK, Some (pack ?rep), 0, s)"
    by (rule data_transfer_reply [where req = "wire req" and h = h and e = ESP_ERR_NO_MEM])
      (use codec_sent(2) [OF assms(1) h(5)] h(1,2) run rep(1) in \<open>simp_all\<close>)
  moreover have "snd (rpc_parse_rsp (wire ?rep)) = 0"
    using h(5) by (auto simp: rpc_parse_rsp_def reply_def wire_def split: option.splits)
  ultimately show ?thesis
    using sync_call_reply [OF assms(2,3) h(5,6) refl, where b = None and tmo = tmo and status = 0] rep(2)
    by (auto simp: reply_def wire_def)
qed

text \<open>The message type the host sets is lost: every request goes out with the invalid type.\<close>

lemma request_type_lost: "build_rpc_req mem args i uid = (H_OK, fs, req) \<Longrightarrow> rp_type req = RPC_Invalid"
  by (rule build_obtains [where mem = mem and args = args and i = i and uid = uid]) (auto simp: composed_def)

end
