(* ===== verification/Transport_Drv.thy ===== *)
theory Transport_Drv
  imports Slave_Uart
begin

unbundle bit_operations_syntax

text \<open>
  The transport core of the host (\<open>src/host/core/src/h_transport_drv.c\<close>): the state machine of the link,
  the connection loop, the channels with their shared memory pool, the data transmit functions, and the
  start-up event of the slave with the configuration sent back.

  The bus, the allocator, \<open>h_transmit\<close> and the build's configuration are arguments. \<open>None\<close> stands for
  undefined behaviour (an access outside a buffer) and for the abort on a chip mismatch.
\<close>

section \<open>State\<close>

datatype transport_state = TRANSPORT_INACTIVE | TRANSPORT_RX_ACTIVE | TRANSPORT_TX_ACTIVE

record channel =
  ch_id :: nat
  ch_api :: nat
  ch_if :: nat
  ch_memp :: nat

text \<open>
  \<open>tr_up\<close>: \<open>transport_esp_hosted_up_cb\<close> is set; \<open>tr_up_calls\<close>: how often it was called. \<open>tr_retry\<close>: the
  static counter of the connection loop. \<open>tr_ref\<close>, \<open>tr_pool\<close>: the reference count and the common pool;
  \<open>tr_pools\<close>: the pools created so far. \<open>tr_sent\<close>: what was given to \<open>h_transmit\<close> (interface, octets).
  \<open>tr_rpc_started\<close>, \<open>tr_ps_init\<close>: how often \<open>rpc_start\<close> and \<open>h_ps_init\<close> were called.
\<close>

record transport =
  tr_state :: transport_state
  tr_bus :: bool
  tr_up :: bool
  tr_up_calls :: nat
  tr_retry :: nat
  tr_chip :: u8
  tr_chan :: "nat \<Rightarrow> channel option"
  tr_ref :: int
  tr_pool :: nat
  tr_pools :: "nat list"
  tr_sent :: "(nat \<times> bytes) list"
  tr_rpc_started :: nat
  tr_ps_init :: nat
  tr_throttle :: bool

section \<open>State machine\<close>

definition is_transport_rx_ready :: "transport \<Rightarrow> bool" where
  "is_transport_rx_ready tr = (tr_state tr \<noteq> TRANSPORT_INACTIVE)"

definition is_transport_tx_ready :: "transport \<Rightarrow> bool" where
  "is_transport_tx_ready tr = (tr_state tr = TRANSPORT_TX_ACTIVE)"

definition transport_driver_event_handler :: "transport_state \<Rightarrow> transport \<Rightarrow> transport" where
  "transport_driver_event_handler event tr =
     (case event of
        TRANSPORT_TX_ACTIVE \<Rightarrow>
          tr\<lparr>tr_up_calls := tr_up_calls tr + (if tr_up tr then 1 else 0), tr_state := TRANSPORT_TX_ACTIVE\<rparr>
      | _ \<Rightarrow> tr\<lparr>tr_state := event\<rparr>)"

definition set_transport_state :: "transport_state \<Rightarrow> transport \<Rightarrow> transport" where
  "set_transport_state s tr = transport_driver_event_handler s tr"

text \<open>\<open>bus\<close>: \<open>h_transport_init\<close> succeeds and gives a handle.\<close>

definition transport_drv_init :: "bool \<Rightarrow> transport \<Rightarrow> h_err \<times> transport" where
  "transport_drv_init bus tr = (if bus then (H_OK, tr\<lparr>tr_bus := True\<rparr>) else (H_FAIL, tr))"

definition teardown_transport :: "transport \<Rightarrow> h_err \<times> transport" where
  "teardown_transport tr = (H_OK, tr\<lparr>tr_bus := False, tr_state := TRANSPORT_INACTIVE\<rparr>)"

definition setup_transport :: "bool \<Rightarrow> bool \<Rightarrow> transport \<Rightarrow> h_err \<times> transport" where
  "setup_transport bus up tr =
     (let tr = tr\<lparr>tr_up := up\<rparr> in
      if tr_state tr \<noteq> TRANSPORT_INACTIVE then (H_OK, tr) else transport_drv_init bus tr)"

abbreviation (input) MAX_RETRY_TRANSPORT_ACTIVE :: nat where "MAX_RETRY_TRANSPORT_ACTIVE \<equiv> 100"

text \<open>
  The waiting loop of \<open>transport_drv_reconfigure\<close>. \<open>ready i\<close>: by the \<open>i\<close>-th check the receive task has
  processed the slave's start-up event (the state is then \<open>TX_ACTIVE\<close>); \<open>bus i\<close>: the result of
  \<open>h_bus_ready\<close> if it is called after check \<open>i\<close>.
\<close>

function reconfigure_loop :: "(nat \<Rightarrow> bool) \<Rightarrow> (nat \<Rightarrow> bool) \<Rightarrow> nat \<Rightarrow> transport \<Rightarrow> h_err \<times> transport" where
  "reconfigure_loop ready bus i tr =
     (let tr = (if ready i then tr\<lparr>tr_state := TRANSPORT_TX_ACTIVE\<rparr> else tr) in
      if is_transport_tx_ready tr then (H_OK, tr\<lparr>tr_retry := 0\<rparr>)
      else if tr_retry tr < MAX_RETRY_TRANSPORT_ACTIVE then
        (let tr = tr\<lparr>tr_retry := tr_retry tr + 1\<rparr> in
         if tr_retry tr mod 50 = 0 \<and> \<not> bus i then (H_FAIL, tr)
         else reconfigure_loop ready bus (i + 1) tr)
      else (H_FAIL, tr))"
  by pat_completeness auto
termination
  by (relation "measure (\<lambda>(ready, bus, i, tr). MAX_RETRY_TRANSPORT_ACTIVE - tr_retry tr)") (auto simp: Let_def split: if_splits)

declare reconfigure_loop.simps [simp del]

text \<open>\<open>bus0\<close> is the first \<open>h_bus_ready\<close>. The loop that waits for power save to end only spends time.\<close>

definition transport_drv_reconfigure ::
  "bool \<Rightarrow> (nat \<Rightarrow> bool) \<Rightarrow> (nat \<Rightarrow> bool) \<Rightarrow> transport \<Rightarrow> h_err \<times> transport" where
  "transport_drv_reconfigure bus0 ready bus tr =
     (if \<not> is_transport_tx_ready tr then
        (if \<not> bus0 then (H_FAIL, tr)
         else reconfigure_loop ready bus 0 (tr\<lparr>tr_state := TRANSPORT_RX_ACTIVE\<rparr>))
      else (H_OK, tr\<lparr>tr_retry := 0\<rparr>))"

section \<open>Channels\<close>

text \<open>\<open>pool\<close> is the result of \<open>hosted_mempool_create\<close> when it is called (\<open>0\<close>: null).\<close>

definition transport_drv_common_mempool_create :: "nat \<Rightarrow> transport \<Rightarrow> nat \<times> transport" where
  "transport_drv_common_mempool_create pool tr =
     (if tr_ref tr = 0 then
        (if pool = 0 then (0, tr\<lparr>tr_pool := 0\<rparr>)
         else (pool, tr\<lparr>tr_pool := pool, tr_pools := tr_pools tr @ [pool], tr_ref := tr_ref tr + 1\<rparr>))
      else (tr_pool tr, tr\<lparr>tr_ref := tr_ref tr + 1\<rparr>))"

definition transport_drv_common_mempool_destroy :: "transport \<Rightarrow> transport" where
  "transport_drv_common_mempool_destroy tr = tr\<lparr>tr_ref := tr_ref tr - 1\<rparr>"

text \<open>
  \<open>transport_drv_add_channel\<close> with the pool enabled: \<open>tx\<close> and \<open>rx\<close> say that the function pointers are
  non-null, \<open>new\<close> is the allocated channel object.
\<close>

definition transport_drv_add_channel ::
  "nat \<Rightarrow> nat \<Rightarrow> bool \<Rightarrow> bool \<Rightarrow> nat \<Rightarrow> nat \<Rightarrow> transport \<Rightarrow> nat \<times> transport" where
  "transport_drv_add_channel api if_type tx rx new pool tr =
     (if if_type \<ge> unat (if_code ESP_MAX_IF) then (0, tr)
      else if \<not> tx \<or> \<not> rx then (0, tr)
      else
        let tr1 = (case tr_chan tr if_type of
                     None \<Rightarrow> tr
                   | Some c \<Rightarrow>
                       (if ch_memp c \<noteq> 0 then transport_drv_common_mempool_destroy tr else tr)
                         \<lparr>tr_chan := (tr_chan tr)(if_type := None)\<rparr>)
        in if new = 0 then (0, tr1)
           else if if_type \<notin> {unat (if_code ESP_STA_IF), unat (if_code ESP_AP_IF), unat (if_code ESP_SERIAL_IF)} then
             (0, tr1\<lparr>tr_chan := (tr_chan tr1)(if_type \<mapsto> \<lparr>ch_id = new, ch_api = 0, ch_if = 0, ch_memp = 0\<rparr>)\<rparr>)
           else
             (case transport_drv_common_mempool_create pool tr1 of
                (memp, tr2) \<Rightarrow>
                  if memp = 0 then (0, tr2\<lparr>tr_chan := (tr_chan tr2)(if_type := None)\<rparr>)
                  else (new, tr2\<lparr>tr_chan := (tr_chan tr2)(if_type \<mapsto>
                         \<lparr>ch_id = new, ch_api = api, ch_if = if_type, ch_memp = memp\<rparr>)\<rparr>)))"

definition transport_drv_remove_channel :: "channel option \<Rightarrow> transport \<Rightarrow> h_err \<times> transport" where
  "transport_drv_remove_channel c tr =
     (case c of None \<Rightarrow> (H_FAIL, tr)
      | Some ch \<Rightarrow>
          if map_option ch_id (tr_chan tr (ch_if ch)) \<noteq> Some (ch_id ch) then (H_FAIL, tr)
          else (H_OK, (transport_drv_common_mempool_destroy tr)\<lparr>tr_chan := (tr_chan tr)(ch_if ch := None)\<rparr>))"

section \<open>Data transmit\<close>

text \<open>
  \<open>transport_drv_sta_tx\<close> and \<open>transport_drv_ap_tx\<close>: \<open>copy\<close> is the pool block (\<open>0\<close>: none), \<open>txret\<close> the result
  of \<open>h_transmit\<close>. The length is not checked against the block: \<open>None\<close> when the copy overflows it.
\<close>

definition net_tx :: "bool \<Rightarrow> nat \<Rightarrow> nat \<Rightarrow> nat \<Rightarrow> h_err \<Rightarrow> bytes option \<Rightarrow> nat \<Rightarrow> transport \<Rightarrow> (h_err \<times> transport) option" where
  "net_tx throttled ifc h copy txret buffer len tr =
     (case buffer of None \<Rightarrow> Some (H_OK, tr)
      | Some b \<Rightarrow>
        if len = 0 then Some (H_OK, tr)
        else (case tr_chan tr ifc of
            None \<Rightarrow> Some (H_ERR_BUSY, tr)
          | Some ch \<Rightarrow>
              if \<not> is_transport_tx_ready tr then Some (H_ERR_BUSY, tr)
              else if throttled then Some (H_ERR_BUSY, tr)
              else if h = 0 \<or> h \<noteq> ch_api ch then Some (H_FAIL, tr)
              else if copy = 0 then Some (H_ERR_BUSY, tr)
              else do {
                d \<leftarrow> mem_slice b 0 len;
                blk \<leftarrow> poke HDR_SIZE d (replicate MAX_UART_BUFFER_SIZE 0);
                Some (txret, tr\<lparr>tr_sent := tr_sent tr @ [(ifc, take len (drop HDR_SIZE blk))]\<rparr>)
              }))"

definition transport_drv_sta_tx :: "nat \<Rightarrow> nat \<Rightarrow> h_err \<Rightarrow> bytes option \<Rightarrow> nat \<Rightarrow> transport \<Rightarrow> (h_err \<times> transport) option" where
  "transport_drv_sta_tx h copy txret buffer len tr =
     net_tx (tr_throttle tr) (unat (if_code ESP_STA_IF)) h copy txret buffer len tr"

definition transport_drv_ap_tx :: "nat \<Rightarrow> nat \<Rightarrow> h_err \<Rightarrow> bytes option \<Rightarrow> nat \<Rightarrow> transport \<Rightarrow> (h_err \<times> transport) option" where
  "transport_drv_ap_tx h copy txret buffer len tr =
     net_tx False (unat (if_code ESP_AP_IF)) h copy txret buffer len tr"

definition transport_drv_serial_tx :: "nat \<Rightarrow> h_err \<Rightarrow> bytes \<Rightarrow> transport \<Rightarrow> h_err \<times> transport" where
  "transport_drv_serial_tx h txret buffer tr =
     (case tr_chan tr (unat (if_code ESP_SERIAL_IF)) of
        None \<Rightarrow> (H_ERR_BUSY, tr)
      | Some ch \<Rightarrow>
          if \<not> is_transport_tx_ready tr then (H_ERR_BUSY, tr)
          else if h = 0 \<or> h \<noteq> ch_api ch then (H_FAIL, tr)
          else (txret, tr\<lparr>tr_sent := tr_sent tr @ [(unat (if_code ESP_SERIAL_IF), buffer)]\<rparr>))"

section \<open>Start-up event\<close>

definition process_ext_capabilities :: "bytes \<Rightarrow> nat \<Rightarrow> u32 option" where
  "process_ext_capabilities buf p = do {
     a \<leftarrow> peek buf p; b \<leftarrow> peek buf (p + 1); c \<leftarrow> peek buf (p + 2); d \<leftarrow> peek buf (p + 3);
     Some (le32 a b c d)
   }"

definition get_chip_str_from_id :: "u8 \<Rightarrow> (h_err \<times> string)" where
  "get_chip_str_from_id chip_id =
     (if chip_id = 0 then (H_OK, ''esp32'')
      else if chip_id = 0xC then (H_OK, ''esp32c2'')
      else if chip_id = 5 then (H_OK, ''esp32c3'')
      else if chip_id = 0xD then (H_OK, ''esp32c6'')
      else if chip_id = 2 then (H_OK, ''esp32s2'')
      else if chip_id = 9 then (H_OK, ''esp32s3'')
      else if chip_id = 0x17 then (H_OK, ''esp32c5'')
      else if chip_id = 0x14 then (H_OK, ''esp32c61'')
      else if chip_id = 0x10 then (H_OK, ''esp32h2'')
      else if chip_id = 0x1C then (H_OK, ''esp32h4'')
      else (H_FAIL, ''unsupported''))"

text \<open>\<open>exp\<close>: the chip the host was configured for. A mismatch aborts.\<close>

definition verify_host_config_for_slave :: "u8 \<Rightarrow> u8 \<Rightarrow> unit option" where
  "verify_host_config_for_slave expected chip_type = (if chip_type \<noteq> expected then None else Some ())"

definition compare_fw_version :: "u32 \<Rightarrow> u32 \<Rightarrow> int" where
  "compare_fw_version host_version slave_version =
     (let slave_version = slave_version AND 0xFFFFFF00;
          host_version = host_version AND 0xFFFFFF00
      in if host_version = slave_version then 0
         else if host_version > slave_version then -1 else 1)"

text \<open>\<open>send_slave_config\<close>: \<open>mem\<close>: the aligned buffer is available; \<open>txret\<close>: the result of \<open>h_transmit\<close>.\<close>

definition send_slave_config ::
  "bool \<Rightarrow> h_err \<Rightarrow> u8 \<Rightarrow> u8 \<Rightarrow> u8 \<Rightarrow> u8 \<Rightarrow> u8 \<Rightarrow> transport \<Rightarrow> h_err \<times> transport" where
  "send_slave_config mem txret host_cap firmware_chip_id raw_tp_direction low_thr high_thr tr =
     (if \<not> mem then (H_FAIL, tr)
      else
        let tlvs = [HOST_CAPABILITIES, 1, host_cap] @ [RCVD_ESP_FIRMWARE_CHIP_ID, 1, firmware_chip_id] @
              [SLV_CONFIG_TEST_RAW_TP, 1, raw_tp_direction] @
              [SLV_CONFIG_THROTTLE_HIGH_THRESHOLD, 1, high_thr] @
              [SLV_CONFIG_THROTTLE_LOW_THRESHOLD, 1, low_thr];
            event = ESP_PRIV_EVENT_INIT # of_nat (length tlvs) # tlvs
        in (txret, tr\<lparr>tr_sent := tr_sent tr @ [(unat (if_code ESP_PRIV_IF), event)]\<rparr>))"

text \<open>
  The loop of \<open>process_init_event\<close> at offset \<open>pos\<close> with the 8-bit \<open>len_left\<close>. It yields the chip type, the
  extended capabilities and the firmware version. \<open>expected\<close> is the configured chip.
\<close>

function init_event_loop ::
  "u8 \<Rightarrow> bytes \<Rightarrow> nat \<Rightarrow> u8 \<Rightarrow> u8 \<times> u32 \<times> u32 \<Rightarrow> (u8 \<times> u32 \<times> u32) option" where
  "init_event_loop expected buf pos len_left (chip, ext_cap, fw) =
     (if len_left = 0 then Some (chip, ext_cap, fw)
      else case (peek buf pos, peek buf (pos + 1)) of
        (Some tag, Some tag_len) \<Rightarrow>
          (let pos' = pos + (unat tag_len + 2); left' = len_left - (tag_len + 2) in
           if tag = ESP_PRIV_CAP_EXT then
             (case process_ext_capabilities buf (pos + 2) of
                None \<Rightarrow> None
              | Some e \<Rightarrow> init_event_loop expected buf pos' left' (chip, e, fw))
           else if tag = ESP_PRIV_FIRMWARE_CHIP_ID then
             (case peek buf (pos + 2) of
                None \<Rightarrow> None
              | Some c \<Rightarrow>
                  (case verify_host_config_for_slave expected c of
                     None \<Rightarrow> None
                   | Some _ \<Rightarrow> init_event_loop expected buf pos' left' (c, ext_cap, fw)))
           else if tag = ESP_PRIV_FIRMWARE_VERSION then
             (case process_ext_capabilities buf (pos + 2) of
                None \<Rightarrow> None
              | Some v \<Rightarrow> init_event_loop expected buf pos' left' (chip, ext_cap, v))
           else if tag \<in> {ESP_PRIV_CAPABILITY, ESP_PRIV_TEST_RAW_TP, ESP_PRIV_RX_Q_SIZE, ESP_PRIV_TX_Q_SIZE} then
             (case peek buf (pos + 2) of
                None \<Rightarrow> None
              | Some _ \<Rightarrow> init_event_loop expected buf pos' left' (chip, ext_cap, fw))
           else init_event_loop expected buf pos' left' (chip, ext_cap, fw))
      | _ \<Rightarrow> None)"
  by pat_completeness auto
termination
  by (relation "measure (\<lambda>(e, buf, pos, l, acc). length buf - pos)")
    (auto simp: peek_def split: if_splits)

declare init_event_loop.simps [simp del]

definition known_chip :: "u8 \<Rightarrow> bool" where
  "known_chip c = (c \<in> {0, 2, 9, 0xC, 5, 0xD, 0x17, 0x14, 0x10, 0x1C})"

abbreviation (input) ESP_PRIV_FIRMWARE_CHIP_UNRECOGNIZED :: u8 where
  "ESP_PRIV_FIRMWARE_CHIP_UNRECOGNIZED \<equiv> 0xFF"

text \<open>
  \<open>process_init_event\<close>: \<open>expected\<close> is the chip of the host's configuration, \<open>cap\<close>, \<open>low\<close>, \<open>high\<close> the values
  sent to the slave. The raw throughput test is off. The result of \<open>compare_fw_version\<close> is only logged.
\<close>

definition process_init_event ::
  "u8 \<Rightarrow> u8 \<Rightarrow> u8 \<Rightarrow> u8 \<Rightarrow> bool \<Rightarrow> h_err \<Rightarrow> bytes \<Rightarrow> u16 \<Rightarrow> transport \<Rightarrow> (h_err \<times> transport) option" where
  "process_init_event expected cap low high mem txret evt_buf len tr =
     (if unat len \<ge> 64 then Some (H_FAIL, tr)
      else do {
        (chip, ext_cap, fw) \<leftarrow> init_event_loop expected evt_buf 0 (ucast len) (tr_chip tr, 0, 0);
        if \<not> known_chip chip then
          Some (H_FAIL, tr\<lparr>tr_chip := ESP_PRIV_FIRMWARE_CHIP_UNRECOGNIZED\<rparr>)
        else
          let tr = transport_driver_event_handler TRANSPORT_TX_ACTIVE (tr\<lparr>tr_chip := chip\<rparr>) in
          (case send_slave_config mem txret cap chip 0 low high tr of
             (ret, tr) \<Rightarrow>
               if ret \<noteq> H_OK then Some (ret, tr)
               else Some (H_OK, tr\<lparr>tr_rpc_started := tr_rpc_started tr + 1\<rparr>))
      })"

text \<open>\<open>process_event\<close> and \<open>process_priv_communication\<close> on a private packet.\<close>

definition process_event ::
  "u8 \<Rightarrow> u8 \<Rightarrow> u8 \<Rightarrow> u8 \<Rightarrow> bool \<Rightarrow> h_err \<Rightarrow> bytes \<Rightarrow> nat \<Rightarrow> transport \<Rightarrow> transport option" where
  "process_event expected cap low high mem txret evt_buf len tr =
     (if len = 0 then Some tr
      else do {
        event_type \<leftarrow> peek evt_buf 0;
        if event_type = ESP_PRIV_EVENT_INIT then do {
          event_len \<leftarrow> peek evt_buf 1;
          (ret, tr) \<leftarrow> process_init_event expected cap low high mem txret (drop 2 evt_buf) (ucast event_len) tr;
          Some (if ret \<noteq> H_OK then tr else tr\<lparr>tr_ps_init := tr_ps_init tr + 1\<rparr>)
        } else Some tr
      })"

definition process_priv_communication ::
  "u8 \<Rightarrow> u8 \<Rightarrow> u8 \<Rightarrow> u8 \<Rightarrow> bool \<Rightarrow> h_err \<Rightarrow> interface_buffer_handle option \<Rightarrow> transport \<Rightarrow> transport option" where
  "process_priv_communication expected cap low high mem txret bh tr =
     (case bh of None \<Rightarrow> Some tr
      | Some h \<Rightarrow>
          (case bh_payload h of None \<Rightarrow> Some tr
           | Some p \<Rightarrow>
               if bh_payload_len h = 0 then Some tr
               else process_event expected cap low high mem txret p (unat (bh_payload_len h)) tr))"

section \<open>Lemmas: connection\<close>

lemma reconfigure_loop_result:
  assumes "\<forall>i. bus i" "tr_state tr = TRANSPORT_RX_ACTIVE" "tr_retry tr + n = 100"
  shows "reconfigure_loop ready bus i tr =
    (if \<exists>k\<le>n. ready (i + k) then (H_OK, tr\<lparr>tr_state := TRANSPORT_TX_ACTIVE, tr_retry := 0\<rparr>)
     else (H_FAIL, tr\<lparr>tr_retry := 100\<rparr>))"
  using assms
proof (induction n arbitrary: i tr)
  case 0
  then show ?case
    by (subst reconfigure_loop.simps) (simp add: is_transport_tx_ready_def Let_def)
next
  case (Suc n)
  let ?tr = "tr\<lparr>tr_retry := tr_retry tr + 1\<rparr>"
  have IH: "reconfigure_loop ready bus (i + 1) ?tr =
    (if \<exists>k\<le>n. ready (i + 1 + k) then (H_OK, ?tr\<lparr>tr_state := TRANSPORT_TX_ACTIVE, tr_retry := 0\<rparr>)
     else (H_FAIL, ?tr\<lparr>tr_retry := 100\<rparr>))"
    using Suc.prems by (intro Suc.IH) simp_all
  have ex: "(\<exists>k\<le>Suc n. ready (i + k)) = (ready i \<or> (\<exists>k\<le>n. ready (i + 1 + k)))"
  proof
    assume "\<exists>k\<le>Suc n. ready (i + k)"
    then obtain k where "k \<le> Suc n" "ready (i + k)" by blast
    then show "ready i \<or> (\<exists>k\<le>n. ready (i + 1 + k))" by (cases k) auto
  next
    assume "ready i \<or> (\<exists>k\<le>n. ready (i + 1 + k))"
    then show "\<exists>k\<le>Suc n. ready (i + k)"
      by (auto intro: exI [of _ 0] exI [of _ "Suc _"])
  qed
  show ?case
    using Suc.prems IH unfolding ex
    by (subst reconfigure_loop.simps) (auto simp: is_transport_tx_ready_def Let_def)
qed

section \<open>Lemmas: channels\<close>

definition data_ifs :: "nat set" where
  "data_ifs = {1, 2, 3}"

definition pooled :: "transport \<Rightarrow> nat set" where
  "pooled tr = {i \<in> data_ifs. tr_chan tr i \<noteq> None}"

definition chan_ok :: "transport \<Rightarrow> bool" where
  "chan_ok tr =
     (tr_ref tr = int (card (pooled tr)) \<and>
      (\<forall>i c. tr_chan tr i = Some c \<longrightarrow>
         (if i \<in> data_ifs then ch_if c = i \<and> ch_memp c = tr_pool tr \<and> tr_pool tr \<noteq> 0 else ch_memp c = 0)))"

lemma finite_pooled [simp]: "finite (pooled tr)"
  by (simp add: pooled_def data_ifs_def)

lemma pooled_upd:
  "pooled (tr\<lparr>tr_chan := (tr_chan tr)(i := v)\<rparr>) =
     (if i \<in> data_ifs \<and> v \<noteq> None then insert i (pooled tr) else pooled tr - {i})"
  by (auto simp: pooled_def)

lemma pooled_cong: "tr_chan tr = tr_chan tr' \<Longrightarrow> pooled tr = pooled tr'"
  by (simp add: pooled_def)

lemma pooled_ref [simp]: "pooled (tr\<lparr>tr_ref := r\<rparr>) = pooled tr"
  by (simp add: pooled_def)

lemma pooled_pool [simp]: "pooled (tr\<lparr>tr_pool := r\<rparr>) = pooled tr" "pooled (tr\<lparr>tr_pools := q\<rparr>) = pooled tr"
  by (simp_all add: pooled_def)

lemma chan_ok_drop:
  assumes "chan_ok tr" "i \<in> data_ifs" "tr_chan tr i = Some c"
  shows "chan_ok ((transport_drv_common_mempool_destroy tr)\<lparr>tr_chan := (tr_chan tr)(i := None)\<rparr>)"
proof -
  have i: "i \<in> pooled tr" using assms by (simp add: pooled_def)
  have "card (pooled tr - {i}) = card (pooled tr) - 1" "0 < card (pooled tr)"
    using i by (auto simp: card_gt_0_iff)
  moreover have "pooled ((transport_drv_common_mempool_destroy tr)\<lparr>tr_chan := (tr_chan tr)(i := None)\<rparr>) = pooled tr - {i}"
    by (auto simp: pooled_def transport_drv_common_mempool_destroy_def)
  ultimately show ?thesis
    using assms(1) unfolding chan_ok_def transport_drv_common_mempool_destroy_def by (auto split: if_splits)
qed

lemma chan_ok_set_other:
  assumes "chan_ok tr" "i \<notin> data_ifs" "\<forall>c. v = Some c \<longrightarrow> ch_memp c = 0"
  shows "chan_ok (tr\<lparr>tr_chan := (tr_chan tr)(i := v)\<rparr>)"
proof -
  have "pooled (tr\<lparr>tr_chan := (tr_chan tr)(i := v)\<rparr>) = pooled tr"
    using assms(2) by (auto simp: pooled_def)
  then show ?thesis using assms by (auto simp: chan_ok_def split: if_splits)
qed

lemma chan_ok_create:
  assumes "chan_ok tr" "tr_chan tr i = None" "i \<in> data_ifs"
    and "transport_drv_common_mempool_create pool tr = (memp, tr')" "memp \<noteq> 0"
  shows "chan_ok (tr'\<lparr>tr_chan := (tr_chan tr')(i \<mapsto> \<lparr>ch_id = new, ch_api = api, ch_if = i, ch_memp = memp\<rparr>)\<rparr>)"
proof -
  let ?tr = "tr'\<lparr>tr_chan := (tr_chan tr')(i \<mapsto> \<lparr>ch_id = new, ch_api = api, ch_if = i, ch_memp = memp\<rparr>)\<rparr>"
  have ch: "tr_chan tr' = tr_chan tr" "tr_ref tr' = tr_ref tr + 1" "tr_pool tr' = memp"
    "tr_ref tr = 0 \<or> tr_pool tr = memp"
    using assms(4,5) by (auto simp: transport_drv_common_mempool_create_def split: if_splits)
  have i: "i \<notin> pooled tr" using assms(2) by (simp add: pooled_def)
  have p: "pooled ?tr = insert i (pooled tr)"
    using assms(3) ch(1) by (auto simp: pooled_def)
  have old: "ch_memp c = memp \<and> ch_if c = j" if "tr_chan tr j = Some c" "j \<in> data_ifs" for j c
  proof -
    have "j \<in> pooled tr" using that by (simp add: pooled_def)
    then have "tr_ref tr \<noteq> 0" using assms(1) by (auto simp: chan_ok_def)
    then show ?thesis using assms(1) that ch(4) by (auto simp: chan_ok_def)
  qed
  show ?thesis
    using assms(1,3,5) i p ch(1-3) old by (auto simp: chan_ok_def split: if_splits)
qed

lemma chan_ok_create_fail:
  assumes "chan_ok tr" "transport_drv_common_mempool_create pool tr = (0, tr')" "tr_chan tr i = None"
  shows "chan_ok (tr'\<lparr>tr_chan := (tr_chan tr')(i := None)\<rparr>)"
proof (cases "tr_ref tr = 0")
  case True
  have "tr' = tr\<lparr>tr_pool := 0\<rparr>"
    using True assms(2) by (auto simp: transport_drv_common_mempool_create_def split: if_splits)
  moreover have "pooled tr = {}" using True assms(1) by (simp add: chan_ok_def)
  then have "tr_chan tr j = None" if "j \<in> data_ifs" for j using that by (auto simp: pooled_def)
  moreover have "pooled (tr\<lparr>tr_pool := 0, tr_chan := (tr_chan tr)(i := None)\<rparr>) = pooled tr"
    using assms(3) by (auto simp: pooled_def)
  ultimately show ?thesis
    using assms(1) by (auto simp: chan_ok_def split: if_splits)
next
  case False
  then have "pooled tr \<noteq> {}" using assms(1) by (auto simp: chan_ok_def)
  then obtain j c where "j \<in> data_ifs" "tr_chan tr j = Some c" by (auto simp: pooled_def)
  then have "tr_pool tr \<noteq> 0" using assms(1) unfolding chan_ok_def by metis
  then show ?thesis
    using False assms(2) by (auto simp: transport_drv_common_mempool_create_def split: if_splits)
qed

lemma add_channel_ok:
  assumes "chan_ok tr"
  shows "chan_ok (snd (transport_drv_add_channel api i tx rx new pool tr))"
proof -
  define tr1 where "tr1 = (case tr_chan tr i of
                     None \<Rightarrow> tr
                   | Some c \<Rightarrow>
                       (if ch_memp c \<noteq> 0 then transport_drv_common_mempool_destroy tr else tr)
                         \<lparr>tr_chan := (tr_chan tr)(i := None)\<rparr>)"
  have n1: "tr_chan tr1 i = None" by (auto simp: tr1_def split: option.splits)
  have ok1: "chan_ok tr1"
  proof (cases "tr_chan tr i")
    case None
    then show ?thesis using assms by (simp add: tr1_def)
  next
    case (Some c)
    show ?thesis
    proof (cases "i \<in> data_ifs")
      case True
      then have "ch_memp c \<noteq> 0" using assms Some by (auto simp: chan_ok_def)
      then show ?thesis using chan_ok_drop [OF assms True Some] Some by (simp add: tr1_def)
    next
      case False
      then have "ch_memp c = 0" using assms Some by (auto simp: chan_ok_def)
      then show ?thesis using chan_ok_set_other [OF assms False, of None] Some by (simp add: tr1_def)
    qed
  qed
  obtain memp tr2 where cr: "transport_drv_common_mempool_create pool tr1 = (memp, tr2)" by fastforce
  show ?thesis
    unfolding transport_drv_add_channel_def tr1_def [symmetric] Let_def
    using assms ok1 cr chan_ok_create [OF ok1 n1 _ cr] chan_ok_create_fail [OF ok1 _ n1, of pool tr2]
      chan_ok_set_other [OF ok1, of i]
    by (auto simp: data_ifs_def)
qed

lemma remove_channel_ok:
  assumes "chan_ok tr" "i \<in> data_ifs"
  shows "chan_ok (snd (transport_drv_remove_channel (tr_chan tr i) tr))"
proof (cases "tr_chan tr i")
  case None
  then show ?thesis using assms(1) by (simp add: transport_drv_remove_channel_def)
next
  case (Some c)
  then have "ch_if c = i" using assms by (simp add: chan_ok_def)
  then show ?thesis
    using Some chan_ok_drop [OF assms Some] by (simp add: transport_drv_remove_channel_def)
qed

text \<open>Channels are added with any arguments and removed through the handle that is in use.\<close>

inductive chan_run :: "transport \<Rightarrow> bool" where
  chan_start: "tr_chan tr = (\<lambda>_. None) \<Longrightarrow> tr_ref tr = 0 \<Longrightarrow> chan_run tr"
| chan_add: "chan_run tr \<Longrightarrow> chan_run (snd (transport_drv_add_channel api i tx rx new pool tr))"
| chan_remove: "chan_run tr \<Longrightarrow> i \<in> data_ifs \<Longrightarrow> chan_run (snd (transport_drv_remove_channel (tr_chan tr i) tr))"

lemma chan_run_ok: "chan_run tr \<Longrightarrow> chan_ok tr"
proof (induction rule: chan_run.induct)
  case (chan_start tr)
  then have "pooled tr = {}" by (simp add: pooled_def)
  then show ?case using chan_start by (simp add: chan_ok_def)
qed (auto intro: add_channel_ok remove_channel_ok)

text \<open>One channel is opened and closed again.\<close>

definition chan_cycle :: "nat \<Rightarrow> nat \<Rightarrow> nat \<Rightarrow> nat \<Rightarrow> transport \<Rightarrow> transport" where
  "chan_cycle api i new pool tr =
     (let tr = snd (transport_drv_add_channel api i True True new pool tr)
      in snd (transport_drv_remove_channel (tr_chan tr i) tr))"

lemma chan_cycle_fields:
  assumes "tr_chan tr = (\<lambda>_. None)" "tr_ref tr = 0" "i \<in> {1, 2, 3}" "new \<noteq> 0" "pool \<noteq> 0"
  shows "tr_pools (chan_cycle api i new pool tr) = tr_pools tr @ [pool]" "tr_ref (chan_cycle api i new pool tr) = 0"
    "tr_chan (chan_cycle api i new pool tr) = (\<lambda>_. None)"
proof -
  have i: "\<not> 8 \<le> i" "i = 1 \<or> i = 2 \<or> i = 3" using assms(3) by auto
  note defs = chan_cycle_def transport_drv_add_channel_def transport_drv_remove_channel_def Let_def
    transport_drv_common_mempool_create_def transport_drv_common_mempool_destroy_def fun_upd_def
  show "tr_pools (chan_cycle api i new pool tr) = tr_pools tr @ [pool]"
    using assms(1,2,4,5) i by (simp add: defs)
  show "tr_ref (chan_cycle api i new pool tr) = 0"
    using assms(1,2,4,5) i by (simp add: defs)
  show "tr_chan (chan_cycle api i new pool tr) = (\<lambda>_. None)"
    using assms(1,2,4,5) i by (auto simp add: defs)
qed

section \<open>Lemmas: start-up event\<close>

lemma init_event_startup:
  "init_event_loop expected (startup_tlvs chip rxq txq fw cap ext_cap raw) 0 27 (c, e, v) =
     (if chip = expected then Some (chip, le32 (ucast (ext_cap AND 0xFF)) (ucast (drop_bit 8 ext_cap AND 0xFF))
          (ucast (drop_bit 16 ext_cap AND 0xFF)) (ucast (drop_bit 24 ext_cap AND 0xFF)),
        le32 (ucast (fw AND 0xFF)) (ucast (drop_bit 8 fw AND 0xFF))
          (ucast (drop_bit 16 fw AND 0xFF)) (ucast (drop_bit 24 fw AND 0xFF))) else None)"
  by (simp add: startup_tlvs_def le32_bytes_def init_event_loop.simps peek_def process_ext_capabilities_def
      verify_host_config_for_slave_def Let_def)

text \<open>What the host sends back, and what the co-processor makes of it.\<close>

definition slave_config_event :: "u8 \<Rightarrow> u8 \<Rightarrow> u8 \<Rightarrow> u8 \<Rightarrow> bytes" where
  "slave_config_event cap chip low high =
     [0x22, 15, 0x44, 1, cap, 0x45, 1, chip, 0x46, 1, 0, 0x47, 1, high, 0x48, 1, low]"

lemma length_slave_config_event [simp]: "length (slave_config_event cap chip low high) = 17"
  by (simp add: slave_config_event_def)

lemma process_priv_pkt_config:
  "process_priv_pkt (slave_config_event cap chip low high @ rest) 17 st = Some (st\<lparr>sc_high := high, sc_low := low\<rparr>)"
  by (simp add: slave_config_event_def process_priv_pkt_def host_to_slave_reconfig_def reconfig_loop.simps peek_def)

lemma process_event_startup:
  assumes "known_chip chip"
  shows "process_event chip cap low high True H_OK
      (ESP_PRIV_EVENT_INIT # 27 # startup_tlvs chip rxq txq fw scap ext_cap raw) 29 tr =
    Some (tr\<lparr>tr_chip := chip, tr_up_calls := tr_up_calls tr + (if tr_up tr then 1 else 0),
      tr_state := TRANSPORT_TX_ACTIVE, tr_sent := tr_sent tr @ [(5, slave_config_event cap chip low high)],
      tr_rpc_started := tr_rpc_started tr + 1, tr_ps_init := tr_ps_init tr + 1\<rparr>)"
  using assms
  by (simp add: process_event_def process_init_event_def init_event_startup transport_driver_event_handler_def
      send_slave_config_def slave_config_event_def Let_def)

section \<open>Properties\<close>

text \<open>
  With a bus that stays ready, the connection attempt of an inactive link succeeds exactly when the
  start-up event has been processed by one of the remaining checks (100 minus the failed attempts counted
  so far, plus one), and then clears the counter; otherwise it fails and leaves the counter at its limit,
  so that the next attempt waits for nothing and fails unless the slave is ready at once.
\<close>
lemma reconfigure_retries:
  assumes "tr_state tr \<noteq> TRANSPORT_TX_ACTIVE" "\<forall>i. bus i" "tr_retry tr \<le> 100"
  shows "transport_drv_reconfigure True ready bus tr =
    (if \<exists>k\<le>100 - tr_retry tr. ready k then (H_OK, tr\<lparr>tr_state := TRANSPORT_TX_ACTIVE, tr_retry := 0\<rparr>)
     else (H_FAIL, tr\<lparr>tr_state := TRANSPORT_RX_ACTIVE, tr_retry := 100\<rparr>))"
  using assms reconfigure_loop_result [of bus "tr\<lparr>tr_state := TRANSPORT_RX_ACTIVE\<rparr>" "100 - tr_retry tr" ready 0]
  by (simp add: transport_drv_reconfigure_def is_transport_tx_ready_def)

definition demo_tr :: transport where
  "demo_tr = \<lparr>tr_state = TRANSPORT_INACTIVE, tr_bus = True, tr_up = True, tr_up_calls = 0, tr_retry = 0, tr_chip = 0xFF,
     tr_chan = (\<lambda>_. None), tr_ref = 0, tr_pool = 0, tr_pools = [], tr_sent = [], tr_rpc_started = 0, tr_ps_init = 0,
     tr_throttle = False\<rparr>"

text \<open>
  However channels are added, replaced and removed, the reference count of the common pool is the
  number of open station, access-point and serial channels, and each of them holds the current pool,
  which exists.
\<close>
lemma channel_pool_refcount:
  assumes "chan_run tr"
  shows "tr_ref tr = int (card {i \<in> {1, 2, 3}. tr_chan tr i \<noteq> None}) \<and>
    list_all (\<lambda>i. case tr_chan tr i of None \<Rightarrow> True
       | Some c \<Rightarrow> ch_if c = i \<and> ch_memp c = tr_pool tr \<and> tr_pool tr \<noteq> 0) [1, 2, 3]"
  using chan_run_ok [OF assms]
  by (auto simp: chan_ok_def pooled_def data_ifs_def split: option.splits)

text \<open>
  The common pool is never destroyed: each time the only channel is opened and closed again, one more
  pool has been created and none released, although no channel uses any of them.
\<close>

lemma channel_pool_leak:
  assumes "tr_chan tr = (\<lambda>_. None)" "tr_ref tr = 0" "i \<in> {1, 2, 3}" "new \<noteq> 0" "pool \<noteq> 0"
  shows "tr_pools ((chan_cycle api i new pool ^^ n) tr) = tr_pools tr @ replicate n pool \<and>
    tr_ref ((chan_cycle api i new pool ^^ n) tr) = 0 \<and>
    tr_chan ((chan_cycle api i new pool ^^ n) tr) = (\<lambda>_. None)"
proof (induction n)
  case 0
  then show ?case using assms by simp
next
  case (Suc n)
  then show ?case
    using chan_cycle_fields [OF _ _ assms(3-5), of "(chan_cycle api i new pool ^^ n) tr" api]
    by (simp add: replicate_append_same)
qed

text \<open>
  A station packet is accepted on an open link exactly when the handle is the channel's and the link
  is not throttled; it reaches \<open>h_transmit\<close> unchanged when it fits the block, and overflows the pool block
  when it is longer than 1588 octets, because its length is never checked.
\<close>
lemma sta_tx_length:
  assumes "tr_state tr = TRANSPORT_TX_ACTIVE" "tr_chan tr 1 = Some ch" "copy \<noteq> 0" "b \<noteq> []" "h \<noteq> 0"
  shows "transport_drv_sta_tx h copy txret (Some b) (length b) tr =
    (if tr_throttle tr then Some (H_ERR_BUSY, tr)
     else if h \<noteq> ch_api ch then Some (H_FAIL, tr)
     else if length b \<le> 1588 then Some (txret, tr\<lparr>tr_sent := tr_sent tr @ [(1, b)]\<rparr>)
     else None)"
  using assms
  by (auto simp: transport_drv_sta_tx_def net_tx_def is_transport_tx_ready_def mem_slice_def poke_def)

text \<open>
  A start-up event whose element length exceeds what is left makes the 8-bit counter wrap: the parser
  goes on behind the event and reads outside the buffer (two octets are all there is).
\<close>

lemma init_event_overread:
  assumes "tag \<notin> {ESP_PRIV_CAP_EXT, ESP_PRIV_FIRMWARE_CHIP_ID, ESP_PRIV_FIRMWARE_VERSION, ESP_PRIV_CAPABILITY,
     ESP_PRIV_TEST_RAW_TP, ESP_PRIV_RX_Q_SIZE, ESP_PRIV_TX_Q_SIZE}" "0 < l" "l < 254"
  shows "process_event expected cap low high mem txret [ESP_PRIV_EVENT_INIT, 2, tag, l] 4 tr = None"
proof -
  have "(2 :: u8) - (l + 2) \<noteq> 0" using assms(2) by auto
  moreover have "0 < unat l" using assms(2) by (simp add: word_less_nat_alt)
  ultimately show ?thesis
    using assms by (simp add: process_event_def process_init_event_def init_event_loop.simps peek_def)
qed

end
