(* ===== verification/Hosted_System.thy ===== *)
theory Hosted_System
  imports Transport_Drv
begin

unbundle bit_operations_syntax

text \<open>
  The two processors joined by the wire: the host's control channel with its transmit queue
  (\<open>esp_hosted_tx\<close>), the receive loop of the co-processor (\<open>recv_task\<close> of
  \<open>src/slave/main/esp_hosted_coprocessor.c\<close>) behind its UART driver, and the receive loop of the host
  (\<open>jl_uart_rx_task\<close> of \<open>src/host/port/jl/h_transport_task.c\<close>). The definitions only compose operations of
  the component theories; the lemmas carry one control message across each direction.
\<close>

section \<open>Host to co-processor\<close>

text \<open>\<open>h_transmit\<close> on the JL port for the control channel; \<open>buf\<close> is the message buffer, released with the last piece.\<close>

definition host_packet :: "nat \<Rightarrow> bytes \<Rightarrow> u8 \<Rightarrow> bool \<Rightarrow> interface_buffer_handle" where
  "host_packet buf p flags final = zero_handle\<lparr>bh_if_type := if_code ESP_SERIAL_IF, bh_payload := Some p,
     bh_payload_len := of_nat (length p), bh_flag := flags, bh_priv := (if final then buf else 0), bh_free := final\<rparr>"

definition host_transmit ::
  "nat \<Rightarrow> bytes \<Rightarrow> u8 \<Rightarrow> bool \<Rightarrow> interface_buffer_handle list option \<Rightarrow> h_err \<times> interface_buffer_handle list option" where
  "host_transmit buf p flags final q = esp_hosted_tx True (host_packet buf p flags final) q"

text \<open>\<open>h_serial_if_send\<close> over \<open>h_control_serial_drv_write\<close> and \<open>serial_ll_write\<close>.\<close>

definition host_request ::
  "nat \<Rightarrow> ctrl_serial \<Rightarrow> bytes \<Rightarrow> interface_buffer_handle list option \<Rightarrow>
   (h_err \<times> interface_buffer_handle list option) option" where
  "host_request buf cs d q =
     h_serial_if_send True True
       (\<lambda>b n s. case h_control_serial_drv_write MAX_PAYLOAD_SIZE (host_transmit buf) True (Some b) n cs s of
          (e, count, _, s') \<Rightarrow> Some (e, count, s'))
       (Some d) (of_nat (length d)) q"

definition frag_packet :: "nat \<Rightarrow> bytes \<times> bool \<Rightarrow> interface_buffer_handle" where
  "frag_packet buf f = host_packet buf (fst f) (if snd f then 1 else 0) (\<not> snd f)"

definition ctrl_ready :: "ctrl_serial \<Rightarrow> bool" where
  "ctrl_ready cs = (cs_if cs = Some 0 \<and>
     (case sl_handle (cs_ll cs) 0 of None \<Rightarrow> False | Some h \<Rightarrow> sh_state h = SL_ACTIVE))"

lemma transmit_frags:
  "fold (\<lambda>f s. snd (tx_piece (host_transmit buf) f s)) fs (Some q) = Some (q @ map (frag_packet buf) fs)"
  by (induction fs arbitrary: q)
    (simp_all add: tx_piece_def host_transmit_def esp_hosted_tx_def frag_packet_def)

lemma write_loop_queue:
  assumes "m \<noteq> []"
  shows "serial_ll_write_loop 1588 (host_transmit buf) (pre @ m) (length pre) (length m) (Some q) =
    (H_OK, False, Some (q @ map (frag_packet buf) (frags 1588 m)))"
proof -
  have "0 < (1588 :: nat)" by simp
  then show ?thesis
    using assms
  proof (induction m arbitrary: pre q rule: frags_induct)
    case (short m)
    then show ?case
      by (subst write_loop_step)
        (simp_all add: write_loop_done frags_short host_transmit_def esp_hosted_tx_def frag_packet_def min_def)
  next
    case (long m)
    have "serial_ll_write_loop 1588 (host_transmit buf) ((pre @ take 1588 m) @ drop 1588 m)
        (length (pre @ take 1588 m)) (length (drop 1588 m)) (Some (q @ [frag_packet buf (take 1588 m, True)])) =
      (H_OK, False, Some ((q @ [frag_packet buf (take 1588 m, True)]) @ map (frag_packet buf) (frags 1588 (drop 1588 m))))"
      by (rule long.IH) (use long in simp)
    then show ?case
      using long
      by (subst write_loop_step)
        (simp_all add: frags_long min_def host_transmit_def esp_hosted_tx_def frag_packet_def)
  qed
qed

lemma host_request_packets:
  assumes "ctrl_ready cs" "d \<noteq> []" "length d \<le> 8180"
  shows "host_request buf cs d (Some q) = Some (H_OK, Some (q @ map (frag_packet buf) (frags 1588 (tlv_image ep_rsp d))))"
proof -
  obtain h where h: "cs_if cs = Some 0" "sl_handle (cs_ll cs) 0 = Some h" "sh_state h = SL_ACTIVE"
    using assms(1) by (auto simp: ctrl_ready_def split: option.splits)
  let ?m = "tlv_image ep_rsp d"
  have l: "length ?m = 12 + length d" "?m \<noteq> []" by (simp_all add: tlv_image_def)
  have u: "unat (of_nat (length d) :: u16) = length d" "unat (of_nat (12 + length d) :: u16) = 12 + length d"
    using assms(3) by (simp_all only: unat_of_nat) simp_all
  have nz: "(of_nat (length d) :: u16) \<noteq> 0" "(of_nat (12 + length d) :: u16) \<noteq> 0" using assms(2) u by auto
  have w: "serial_ll_write 1588 (host_transmit buf) (Some h) (Some ?m) (of_nat (12 + length d)) (Some q) =
      (H_OK, False, Some (q @ map (frag_packet buf) (frags 1588 ?m)))"
    using write_loop_queue [OF l(2), of buf "[]" q] u nz h(3) l(1) assms(3) by (simp add: serial_ll_write_def)
  have c: "serial_compose_tlv (replicate (unat (12 + of_nat (length d) :: u16)) 0) d (of_nat (length d)) =
      Some (?m, of_nat (12 + length d))"
    using assms by (intro serial_compose_tlv_image) (simp_all add: unat_12_add)
  have b: "h_control_serial_drv_write 1588 (host_transmit buf) True (Some ?m) (12 + length d) cs (Some q) =
      (H_OK, 12 + length d, False, Some (q @ map (frag_packet buf) (frags 1588 ?m)))"
    using w h by (simp add: h_control_serial_drv_write_def)
  show ?thesis
    using c b nz u by (simp add: host_request_def h_serial_if_send_def Let_def)
qed

text \<open>The frames the transmit task makes of these packets.\<close>

lemma frag_packet_plain:
  "fst f \<noteq> [] \<Longrightarrow> length (fst f) \<le> 1588 \<Longrightarrow> plain_packet (frag_packet buf f) (fst f)"
  by (simp add: plain_packet_def frag_packet_def host_packet_def zero_handle_def)

lemma frag_packet_header: "tx_header (frag_packet buf f) = slave_hdr f"
  by (simp add: tx_header_def frag_packet_def host_packet_def zero_handle_def slave_hdr_def zero_header_def)

definition wire_frame :: "bytes \<times> bool \<Rightarrow> bytes" where
  "wire_frame f = seal_frame (slave_hdr f) (fst f)"

lemma tx_task_frames:
  assumes "\<forall>f\<in>set fs. fst f \<noteq> [] \<and> length (fst f) \<le> 1588"
  shows "\<exists>frees. jl_uart_tx_task (\<lambda>_. True) bus_write i (map (frag_packet buf) fs) = Some (map wire_frame fs, frees)"
  using assms
proof (induction fs arbitrary: i)
  case Nil
  then show ?case by simp
next
  case (Cons f fs)
  obtain fr where fr: "jl_uart_tx_task (\<lambda>_. True) bus_write (i + 1) (map (frag_packet buf) fs) = Some (map wire_frame fs, fr)"
    using Cons.IH [of "i + 1"] Cons.prems by auto
  have z: "bh_zcopy (frag_packet buf f) \<noteq> 0xFF"
    by (simp add: frag_packet_def host_packet_def zero_handle_def)
  have "plain_packet (frag_packet buf f) (fst f)" using Cons.prems by (intro frag_packet_plain) auto
  from write_packet_plain [OF this, of bus_write]
  show ?case using fr z by (simp add: frag_packet_header wire_frame_def)
qed

lemma frags_nonempty: "0 < n \<Longrightarrow> m \<noteq> [] \<Longrightarrow> \<forall>f\<in>set (frags n m). fst f \<noteq> [] \<and> length (fst f) \<le> n"
  by (induction m rule: frags_induct) (auto simp: frags_short frags_long)

text \<open>
  One turn of the co-processor: the UART task receives a frame (into the buffer \<open>buf\<close>), \<open>recv_task\<close> reads it
  and dispatches it, and the request task reads a completed message.
\<close>

definition slave_turn ::
  "(nat \<Rightarrow> 's \<Rightarrow> (bytes \<times> 's) option) \<Rightarrow> nat \<Rightarrow> 's \<times> slave_uart \<times> slave_core \<Rightarrow> ('s \<times> slave_uart \<times> slave_core) option" where
  "slave_turn rd buf c = do {
     let (s, su, st) = c;
     (s, su) \<leftarrow> uart_rx_step rd buf (s, su);
     ((ret, b), su) \<leftarrow> h_uart_read (Some IF_ACTIVE) su;
     bh \<leftarrow> b;
     st \<leftarrow> process_rx_pkt True True False (\<lambda>_. 0) bh st;
     Some (s, su, if sc_valid st then snd (snd (serial_read_data (sc_len st) st)) else st)
   }"

primrec slave_turns ::
  "(nat \<Rightarrow> 's \<Rightarrow> (bytes \<times> 's) option) \<Rightarrow> nat \<Rightarrow> nat \<Rightarrow> 's \<times> slave_uart \<times> slave_core \<Rightarrow> ('s \<times> slave_uart \<times> slave_core) option" where
  "slave_turns rd buf 0 c = Some c"
| "slave_turns rd buf (Suc n) c = slave_turn rd buf c \<bind> slave_turns rd buf n"

definition su_empty :: "slave_uart \<Rightarrow> bool" where
  "su_empty su = (su_serial su = [] \<and> su_bt su = [] \<and> su_others su = [] \<and> su_sem su = 0)"

text \<open>A frame that arrives with empty queues is dispatched in the same turn.\<close>

lemma slave_turn_frame:
  assumes src: "byte_source rd avail ready" and r: "ready s" "avail s = seal_frame h p @ rest"
    and h: "ph_offset h = 12" "ph_len h = of_nat (length p)" "length p \<le> 1588" "buf \<noteq> 0" and su: "su_empty su"
  shows "\<exists>s' su'. slave_turn rd buf (s, su, st) =
      map_option (\<lambda>st. (s', su', if sc_valid st then snd (snd (serial_read_data (sc_len st) st)) else st))
        (process_rx_pkt True True False (\<lambda>_. 0) (zero_handle\<lparr>
          bh_payload := Some (encode_header (h\<lparr>ph_checksum := 0\<rparr>) @ p), bh_payload_len := of_nat (12 + length p),
          bh_if_type := ucast (ph_if_type h), bh_if_num := ucast (ph_if_num h), bh_free := True, bh_priv := buf\<rparr>) st) \<and>
    avail s' = rest \<and> ready s' \<and> su_empty su'"
proof -
  let ?bh = "zero_handle\<lparr>bh_payload := Some (encode_header (h\<lparr>ph_checksum := 0\<rparr>) @ p),
    bh_payload_len := of_nat (12 + length p), bh_if_type := ucast (ph_if_type h), bh_if_num := ucast (ph_if_num h),
    bh_free := True, bh_priv := buf\<rparr>"
  let ?su = "su_push ?bh (su\<lparr>su_events := su_events su @ rx_flag_event (ph_flags h)\<rparr>)"
  obtain s' where s': "uart_rx_step rd buf (s, su) = Some (s', ?su)" "avail s' = rest" "ready s'"
    using uart_rx_step_frame [OF src r h, of su] by blast
  have "\<exists>ret su'. h_uart_read (Some IF_ACTIVE) ?su = Some ((ret, Some ?bh), su') \<and> su_empty su'"
    using su by (auto simp: su_empty_def h_uart_read_def su_push_def Let_def)
  then obtain ret su' where "h_uart_read (Some IF_ACTIVE) ?su = Some ((ret, Some ?bh), su')" "su_empty su'" by blast
  then show ?thesis
    using s' by (intro exI [of _ s'] exI [of _ su'])
      (cases "process_rx_pkt True True False (\<lambda>_. 0) ?bh st"; simp add: slave_turn_def)
qed

lemma process_rx_serial:
  assumes "process_serial_rx_pkt True True (slave_frame f) st = Some st'" "buf \<noteq> 0"
  shows "process_rx_pkt True True False (\<lambda>_. 0) (zero_handle\<lparr>bh_payload := Some (slave_frame f), bh_payload_len := l,
      bh_if_type := 3, bh_if_num := n, bh_free := True, bh_priv := buf\<rparr>) st =
    Some (st'\<lparr>sc_frees := sc_frees st' @ [buf]\<rparr>)"
  using assms by (simp add: process_rx_pkt_def zero_handle_def decode_slave_frame free_handle_def)

lemma sacc_frees [simp]: "sacc d (st\<lparr>sc_frees := fr\<rparr>) = sacc d st"
  by (simp add: sacc_def)

lemma slave_turn_fragment:
  assumes src: "byte_source rd avail ready" and r: "ready s" "avail s = wire_frame (p, mf) @ rest"
    and a: "sacc d st" "p \<noteq> []" "length p \<le> 1588" "length d + length p \<le> 8192" "buf \<noteq> 0" "su_empty su"
  shows "\<exists>s' su'. slave_turn rd buf (s, su, st) = Some (s', su', (slave_collect (p, mf) st)\<lparr>sc_frees := sc_frees st @ [buf]\<rparr>) \<and>
    avail s' = rest \<and> ready s' \<and> su_empty su'"
proof -
  let ?h = "slave_hdr (p, mf)"
  have h: "ph_offset ?h = 12" "ph_len ?h = of_nat (length p)" "?h\<lparr>ph_checksum := 0\<rparr> = ?h"
    "ucast (ph_if_type ?h) = (3 :: u8)"
    by (simp_all add: slave_hdr_def zero_header_def)
  obtain st' where st': "process_serial_rx_pkt True True (slave_frame (p, mf)) st = Some st'" "sc_frees st' = sc_frees st"
    using serial_rx_store [OF a(1), of p True True mf] a(3,4)
    by (auto simp: parse_protobuf_req_def split: if_splits)
  have c: "(if sc_valid (st'\<lparr>sc_frees := sc_frees st' @ [buf]\<rparr>)
      then snd (snd (serial_read_data (sc_len (st'\<lparr>sc_frees := sc_frees st' @ [buf]\<rparr>)) (st'\<lparr>sc_frees := sc_frees st' @ [buf]\<rparr>)))
      else st'\<lparr>sc_frees := sc_frees st' @ [buf]\<rparr>) = (slave_collect (p, mf) st)\<lparr>sc_frees := sc_frees st @ [buf]\<rparr>"
    using st' by (simp add: slave_collect_def serial_read_data_def Let_def)
  from slave_turn_frame [OF src r(1) r(2) [unfolded wire_frame_def fst_conv] h(1,2) a(3,5,6), of st]
  obtain s' su' where t: "slave_turn rd buf (s, su, st) =
      map_option (\<lambda>st. (s', su', if sc_valid st then snd (snd (serial_read_data (sc_len st) st)) else st))
        (process_rx_pkt True True False (\<lambda>_. 0) (zero_handle\<lparr>bh_payload := Some (slave_frame (p, mf)),
          bh_payload_len := of_nat (12 + length p),
          bh_if_type := 3, bh_if_num := ucast (ph_if_num ?h), bh_free := True, bh_priv := buf\<rparr>) st)"
    "avail s' = rest" "ready s'" "su_empty su'"
    unfolding h(3,4) by (auto simp: slave_frame_def)
  show ?thesis
    using t(2-4) t(1) [unfolded process_rx_serial [OF st'(1) a(5)]] c
    by (intro exI [of _ s'] exI [of _ su']) simp
qed

lemma slave_turns_frags:
  assumes src: "byte_source rd avail ready" and buf: "buf \<noteq> 0"
    and "ready s" "avail s = concat (map wire_frame (frags 1588 m)) @ rest" "m \<noteq> []"
    and "sacc d st" "length d + length m \<le> 8192" "su_empty su"
  shows "\<exists>s' su' st'. slave_turns rd buf (length (frags 1588 m)) (s, su, st) = Some (s', su', st') \<and>
    avail s' = rest \<and> ready s' \<and> su_empty su' \<and> sacc [] st' \<and> sc_reqs st' = sc_reqs st @ [d @ m]"
proof -
  have "0 < (1588 :: nat)" by simp
  then show ?thesis
    using assms(3-)
  proof (induction m arbitrary: d s su st rule: frags_induct)
    case (short m)
    then obtain s' su' where t: "slave_turn rd buf (s, su, st) =
        Some (s', su', (slave_collect (m, False) st)\<lparr>sc_frees := sc_frees st @ [buf]\<rparr>)"
      "avail s' = rest" "ready s'" "su_empty su'"
      using slave_turn_fragment [OF src short(2) _ short(5,4) _ short(6) buf short(7), of False rest]
      by (auto simp: frags_short)
    then show ?case
      using short slave_collect_last [of d st m] by (auto simp: frags_short)
  next
    case (long m)
    let ?p = "take 1588 m"
    have p: "?p \<noteq> []" "length ?p \<le> 1588" "length d + length ?p \<le> 8192" using long by auto
    obtain s' su' where t: "slave_turn rd buf (s, su, st) =
        Some (s', su', (slave_collect (?p, True) st)\<lparr>sc_frees := sc_frees st @ [buf]\<rparr>)"
      "avail s' = concat (map wire_frame (frags 1588 (drop 1588 m))) @ rest" "ready s'" "su_empty su'"
      using slave_turn_fragment [OF src long.prems(1) _ long.prems(4) p buf long.prems(6), of True
          "concat (map wire_frame (frags 1588 (drop 1588 m))) @ rest"] long by (auto simp: frags_long)
    note c = slave_collect_more [OF long.prems(4) p(1) _ p(3)]
    let ?st = "(slave_collect (?p, True) st)\<lparr>sc_frees := sc_frees st @ [buf]\<rparr>"
    have "\<exists>s'' su'' st''. slave_turns rd buf (length (frags 1588 (drop 1588 m))) (s', su', ?st) = Some (s'', su'', st'') \<and>
        avail s'' = rest \<and> ready s'' \<and> su_empty su'' \<and> sacc [] st'' \<and>
        sc_reqs st'' = sc_reqs ?st @ [(d @ ?p) @ drop 1588 m]"
      using t(2-4) c p long by (intro long.IH) auto
    then show ?case
      using t(1) c(2) p(2) long by (simp add: frags_long)
  qed
qed

section \<open>Co-processor to host\<close>

text \<open>The frames \<open>h_uart_write\<close> puts on the wire for a list of packets.\<close>

definition slave_wire :: "interface_buffer_handle \<Rightarrow> bytes list" where
  "slave_wire bh = (case h_uart_write True (\<lambda>f. int (length f)) (Some IF_ACTIVE) 0 (Some bh) of
     Some (_, fs) \<Rightarrow> fs | None \<Rightarrow> [])"

definition up_header :: "interface_buffer_handle \<Rightarrow> esp_payload_header" where
  "up_header bh = zero_header\<lparr>ph_if_type := ucast (bh_if_type bh), ph_if_num := ucast (bh_if_num bh),
     ph_len := bh_payload_len bh, ph_offset := 12, ph_seq_num := bh_seq_num bh, ph_flags := bh_flag bh\<rparr>"

definition serial_packet :: "interface_buffer_handle \<Rightarrow> bool" where
  "serial_packet bh = (bh_if_type bh = if_code ESP_SERIAL_IF \<and> bh_if_num bh = 0 \<and> bh_payload bh \<noteq> None \<and>
     unat (bh_payload_len bh) \<le> length (the (bh_payload bh)))"

lemma slave_wire_frame:
  assumes "serial_packet bh" "fst (handle_frag bh) \<noteq> []" "length (fst (handle_frag bh)) \<le> 1500"
  shows "slave_wire bh = [seal_frame (up_header bh) (fst (handle_frag bh))]"
    "frame_ok (up_header bh) (fst (handle_frag bh))"
proof -
  obtain q where q: "bh_payload bh = Some q" "unat (bh_payload_len bh) \<le> length q"
    using assms(1) by (auto simp: serial_packet_def)
  have l: "length (fst (handle_frag bh)) = unat (bh_payload_len bh)" using q by (simp add: handle_frag_def)
  have nz: "bh_payload_len bh \<noteq> 0" using assms(2) l by auto
  have h: "zero_header\<lparr>ph_if_type := ucast (bh_if_type bh), ph_if_num := ucast (bh_if_num bh),
       ph_len := bh_payload_len bh, ph_offset := 12, ph_seq_num := bh_seq_num bh,
       ph_flags := bh_flag bh, ph_throttle_cmd := 0\<rparr> = up_header bh"
    by (simp add: up_header_def zero_header_def)
  show "slave_wire bh = [seal_frame (up_header bh) (fst (handle_frag bh))]"
    using h_uart_write_frame [OF q nz, of 0] l assms(3) q(1) by (auto simp: slave_wire_def h handle_frag_def)
  have ty: "bh_if_type bh = 3" using assms(1) by (simp add: serial_packet_def)
  have "(of_nat (length (fst (handle_frag bh))) :: u16) = bh_payload_len bh" using l by simp
  then show "frame_ok (up_header bh) (fst (handle_frag bh))"
    using assms(2,3) ty by (simp add: frame_ok_def up_header_def)
qed

text \<open>
  One turn of the receive task of the host; \<open>pkt\<close> is the packet buffer. The serial handler's new buffer and
  its allocations are available.
\<close>

definition host_turn :: "nat \<Rightarrow> uart_ev list \<times> jl_rx \<Rightarrow> (uart_ev list \<times> jl_rx) option" where
  "host_turn pkt c = do {
     (r, evs) \<leftarrow> jl_uart_read_packet (\<lambda>_. True) 0 (fst c);
     (hdr, p) \<leftarrow> r;
     rx \<leftarrow> jl_rx_dispatch True 1 True 0 (\<lambda>_. None) pkt hdr p (snd c);
     Some (evs, rx)
   }"

primrec host_turns :: "nat \<Rightarrow> nat \<Rightarrow> uart_ev list \<times> jl_rx \<Rightarrow> (uart_ev list \<times> jl_rx) option" where
  "host_turns pkt 0 c = Some c"
| "host_turns pkt (Suc n) c = host_turn pkt c \<bind> host_turns pkt n"

text \<open>What the serial handler does with the link state depends on the contents of a packet only.\<close>

lemma serial_rx_state_cong:
  assumes "bh_payload_len h = bh_payload_len h'" "bh_if_num h = bh_if_num h'" "bh_payload h = bh_payload h'"
    "bh_flag h AND 1 = bh_flag h' AND 1"
  shows "map_option (\<lambda>(r, b, st, fr, n). (r, st, n)) (serial_ll_rx_handler mem sb q (Some h) st) =
    map_option (\<lambda>(r, b, st, fr, n). (r, st, n)) (serial_ll_rx_handler mem sb q (Some h') st)"
  using assms
  by (auto simp: serial_ll_rx_handler_def serial_buff_cleanup_def Let_def split: option.splits rx_ptr.splits prod.splits)

lemma frag_accepted:
  assumes "rx_link st h" "rx_acc d st" "p \<noteq> []" "length p < 65536"
  shows "\<exists>b fr n. serial_ll_rx_handler True 1 True (Some (frag_handle 2 (p, mf))) st = Some (0, b, rx_frag (p, mf) st, fr, n)"
  using rx_frag_more [OF assms, of True 1 True 2] rx_frag_last [OF assms, of 1 2]
  by (cases mf) (simp_all add: rx_frag_def)

lemma host_turn_fragment:
  assumes f: "serial_packet bh" "handle_frag bh = (p, mf)" "p \<noteq> []" "length p \<le> 1500"
    and e: "ev_clean evs" "ev_bytes evs = concat (slave_wire bh) @ rest"
    and l: "rx_link (jr_serial rx) h" "rx_acc d (jr_serial rx)"
  shows "\<exists>evs' rx'. host_turn pkt (evs, rx) = Some (evs', rx') \<and> ev_bytes evs' = rest \<and> ev_clean evs' \<and>
    jr_serial rx' = rx_frag (p, mf) (jr_serial rx)"
proof -
  have w: "slave_wire bh = [seal_frame (up_header bh) p]" "frame_ok (up_header bh) p"
    using slave_wire_frame [OF f(1)] f by simp_all
  let ?hd = "sealed (up_header bh) p"
  obtain evs' where r: "jl_uart_read_packet (\<lambda>_. True) 0 evs = Some (Some (?hd, p), evs')"
    "ev_bytes evs' = rest" "ev_clean evs'"
    using read_packet_frame [OF w(2), of "\<lambda>_. True" 0 evs rest] e w(1) by auto
  let ?bh = "rx_handle pkt ?hd p"
  have fl: "(bh_flag bh AND 1 \<noteq> 0) = mf" using f(2) by (simp add: handle_frag_def)
  have "bh_flag bh AND 1 = (if mf then 1 else 0)"
  proof (cases mf)
    case False
    then show ?thesis using fl by simp
  next
    case True
    have "bh_flag bh AND 1 = of_bool (odd (bh_flag bh))" by (simp add: and_one_eq mod_2_eq_odd)
    then show ?thesis using True fl by (cases "odd (bh_flag bh)") simp_all
  qed
  then have "bh_flag ?bh AND 1 = bh_flag (frag_handle 2 (p, mf)) AND 1"
    by (simp add: rx_handle_def up_header_def frag_handle_def)
  moreover have n0: "bh_if_num bh = 0" "bh_if_type bh = 3" using f(1) by (simp_all add: serial_packet_def)
  ultimately have cong: "map_option (\<lambda>(r, b, st, fr, n). (r, st, n)) (serial_ll_rx_handler True 1 True (Some ?bh) (jr_serial rx)) =
    map_option (\<lambda>(r, b, st, fr, n). (r, st, n)) (serial_ll_rx_handler True 1 True (Some (frag_handle 2 (p, mf))) (jr_serial rx))"
    by (intro serial_rx_state_cong) (simp_all add: rx_handle_def up_header_def frag_handle_def zero_handle_def zero_header_def)
  have ty: "bh_if_type ?bh = if_code ESP_SERIAL_IF"
    using n0 by (simp add: rx_handle_def up_header_def)
  obtain r2 b2 fr2 n2 where h2: "serial_ll_rx_handler True 1 True (Some ?bh) (jr_serial rx) =
      Some (r2, b2, rx_frag (p, mf) (jr_serial rx), fr2, n2)"
    using cong frag_accepted [OF l f(3), of mf] f(4) by auto
  show ?thesis
    using r h2 ty by (simp add: host_turn_def jl_rx_dispatch_def Let_def del: if_code.simps)
qed

lemma rx_frag_link:
  assumes "rx_link st h" "rx_acc d st" "p \<noteq> []" "length p < 65536"
  shows "rx_link (rx_frag (p, True) st) h" "rx_acc (d @ p) (rx_frag (p, True) st)"
  using assms rx_frag_more [OF assms, of True 1 True 2]
  by (simp_all add: rx_frag_def rx_link_def rx_acc_def)

lemma host_turns_frags:
  assumes "\<forall>bh\<in>set bhs. serial_packet bh" "map handle_frag bhs = frags 1500 m" "m \<noteq> []"
    and "ev_clean evs" "ev_bytes evs = concat (concat (map slave_wire bhs)) @ rest"
    and "rx_link (jr_serial rx) h" "rx_acc d (jr_serial rx)"
  shows "\<exists>evs' rx'. host_turns pkt (length bhs) (evs, rx) = Some (evs', rx') \<and> ev_bytes evs' = rest \<and> ev_clean evs' \<and>
    jr_serial rx' = fold rx_frag (frags 1500 m) (jr_serial rx)"
  using eth_len_pos assms
proof (induction m arbitrary: bhs d evs rx rule: frags_induct)
  case (short m)
  then obtain bh where bh: "bhs = [bh]" "handle_frag bh = (m, False)" by (auto simp: frags_short)
  then show ?case
    using short host_turn_fragment [of bh m False evs rest rx h d pkt] by (fastforce simp: frags_short)
next
  case (long m)
  let ?p = "take 1500 m"
  obtain bh bhs' where bh: "bhs = bh # bhs'" "handle_frag bh = (?p, True)" "map handle_frag bhs' = frags 1500 (drop 1500 m)"
    using long.prems(2) long.hyps by (auto simp: frags_long)
  have p: "?p \<noteq> []" "length ?p \<le> 1500" "length ?p < 65536" using long by auto
  obtain evs1 rx1 where t: "host_turn pkt (evs, rx) = Some (evs1, rx1)"
    "ev_bytes evs1 = concat (concat (map slave_wire bhs')) @ rest" "ev_clean evs1"
    "jr_serial rx1 = rx_frag (?p, True) (jr_serial rx)"
    using host_turn_fragment [of bh ?p True evs "concat (concat (map slave_wire bhs')) @ rest" rx h d pkt] bh p long
    by auto
  note lk = rx_frag_link [OF long.prems(6,7) p(1,3)]
  have "\<exists>evs' rx'. host_turns pkt (length bhs') (evs1, rx1) = Some (evs', rx') \<and> ev_bytes evs' = rest \<and> ev_clean evs' \<and>
      jr_serial rx' = fold rx_frag (frags 1500 (drop 1500 m)) (jr_serial rx1)"
    using long.IH [of bhs' evs1 rx1 "d @ ?p"] long bh t(2-4) lk by auto
  then show ?case
    using t(1,4) bh(1) long.hyps by (simp add: frags_long)
qed

text \<open>The queue of the link after a whole message, and the reader that takes and decodes it.\<close>

definition queued_message :: "bytes \<Rightarrow> interface_buffer_handle" where
  "queued_message m = zero_handle\<lparr>bh_if_type := if_code ESP_SERIAL_IF, bh_payload_len := of_nat (length m),
     bh_payload := Some m, bh_priv := 1, bh_free := True\<rparr>"

lemma rx_frags_queue:
  assumes "rx_link st h" "sh_queue h = Some q" "rx_acc d st" "m \<noteq> []" "length d + length m < 65536"
  shows "sl_handle (fold rx_frag (frags 1500 m) st) 0 = Some (h\<lparr>sh_queue := Some (q @ [queued_message (d @ m)])\<rparr>)"
  using eth_len_pos assms
proof (induction m arbitrary: d st rule: frags_induct)
  case (short m)
  have "length m < 65536" using short by simp
  from rx_frag_last [OF short.prems(1,3,4) this, of 1 2]
  show ?case using short by (simp add: frags_short rx_frag_def queued_message_def)
next
  case (long m)
  have p: "take 1500 m \<noteq> []" "length (take 1500 m) < 65536" using long by auto
  show ?case
    using long.IH [OF _ long.prems(2), of "rx_frag (take 1500 m, True) st" "d @ take 1500 m"] long
      rx_frag_link [OF long.prems(1,3) p]
    by (auto simp: frags_long)
qed

lemma host_read_response:
  assumes "sl_handle ll 0 = Some h" "sh_state h = SL_ACTIVE" "sh_queue h = Some (queued_message (tlv_image ep d) # q)"
    and "ep = ep_rsp \<or> ep = ep_evt" "d \<noteq> []" "length d \<le> 65523" "cs_if cs = Some 0" "cs_sem cs = Some (Suc n)" "cs_ll cs = ll"
  shows "h_control_serial_drv_read True True True cs =
    Some (Some d, cs\<lparr>cs_sem := Some n, cs_ll := ll\<lparr>sl_handle := (sl_handle ll)(0 \<mapsto> h\<lparr>sh_queue := Some q\<rparr>)\<rparr>\<rparr>)"
proof -
  have l: "length ep = 6" using assms(4) by auto
  have u: "unat (of_nat (12 + length d) :: u16) = 12 + length d" using assms(6) by (simp only: unat_of_nat) simp
  then have nz: "(of_nat (12 + length d) :: u16) \<noteq> 0" by (metis add_is_0 unat_0 zero_neq_numeral)
  show ?thesis
    using assms control_read_decode_image [OF assms(4,5)] nz l
    by (simp add: h_control_serial_drv_read_def serial_ll_read_def queued_message_def Let_def del: of_nat_add)
qed

section \<open>Start-up\<close>

text \<open>The start-up event as the host receives it.\<close>

lemma startup_received:
  assumes "generate_startup_event chip rxq txq fw scap ext_cap raw txb = Some (frame, fr)"
    and "ev_clean evs" "ev_bytes evs = frame @ rest"
  shows "\<exists>hdr evs' rx'. jl_uart_read_packet (\<lambda>_. True) 0 evs =
      Some (Some (hdr, ESP_PRIV_EVENT_INIT # 27 # startup_tlvs chip rxq txq fw scap ext_cap raw), evs') \<and>
    ucast (ph_if_type hdr) = (5 :: u8) \<and>
    host_turn pkt (evs, rx) = Some (evs', rx') \<and> ev_bytes evs' = rest \<and>
    jr_priv rx' = jr_priv rx @ [ESP_PRIV_EVENT_INIT # 27 # startup_tlvs chip rxq txq fw scap ext_cap raw]"
proof -
  let ?p = "ESP_PRIV_EVENT_INIT # 27 # startup_tlvs chip rxq txq fw scap ext_cap raw"
  have "txb \<noteq> 0"
  proof
    assume "txb = 0"
    then show False using assms(1) by (simp add: generate_startup_event_def)
  qed
  then have fr: "frame = seal_frame startup_header ?p" using startup_frame assms(1) by simp
  have ok: "frame_ok startup_header ?p" by (simp add: frame_ok_def startup_header_def)
  obtain evs' where r: "jl_uart_read_packet (\<lambda>_. True) 0 evs = Some (Some (sealed startup_header ?p, ?p), evs')"
    "ev_bytes evs' = rest"
    using read_packet_frame [OF ok, of "\<lambda>_. True" 0 evs rest] assms(2,3) fr by auto
  have ty: "ucast (ph_if_type (sealed startup_header ?p)) = (5 :: u8)" by (simp add: startup_header_def)
  let ?rx = "rx\<lparr>jr_priv := jr_priv rx @ [?p]\<rparr>"
  have "jl_rx_dispatch True 1 True 0 (\<lambda>_. None) pkt (sealed startup_header ?p) ?p rx =
      Some (?rx\<lparr>jr_frees := jr_frees ?rx @ snd (free_handle (rx_handle pkt (sealed startup_header ?p) ?p))\<rparr>)"
    by (simp add: jl_rx_dispatch_def Let_def rx_handle_def startup_header_def)
  then show ?thesis
    using r ty by (intro exI [of _ "sealed startup_header ?p"] exI [of _ evs']) (simp add: host_turn_def)
qed

text \<open>A private packet of the host, as the transmit task frames it and as the co-processor receives it.\<close>

definition priv_packet :: "bytes \<Rightarrow> interface_buffer_handle" where
  "priv_packet p = zero_handle\<lparr>bh_if_type := if_code ESP_PRIV_IF, bh_payload := Some p, bh_payload_len := of_nat (length p)\<rparr>"

lemma config_received:
  assumes src: "byte_source rd avail ready" and r: "ready s" "avail s = concat frames @ rest"
    and w: "jl_uart_write_packet True length (Some (priv_packet (slave_config_event cap chip low high))) = Some (e, frames, fr)"
    and a: "buf \<noteq> 0" "su_empty su" "\<not> sc_valid st"
  shows "\<exists>s' su'. slave_turn rd buf (s, su, st) =
      Some (s', su', st\<lparr>sc_high := high, sc_low := low, sc_frees := sc_frees st @ [buf]\<rparr>) \<and> avail s' = rest"
proof -
  let ?p = "slave_config_event cap chip low high"
  let ?h = "tx_header (priv_packet ?p)"
  have "plain_packet (priv_packet ?p) ?p"
    by (simp add: plain_packet_def priv_packet_def zero_handle_def slave_config_event_def)
  from write_packet_plain [OF this, of length] w have fr: "frames = [seal_frame ?h ?p]" by auto
  have h: "ph_offset ?h = 12" "ph_len ?h = of_nat (length ?p)" "?h\<lparr>ph_checksum := 0\<rparr> = ?h" "ph_len ?h = 17"
    "ucast (ph_if_type ?h) = (5 :: u8)"
    by (simp_all add: tx_header_def priv_packet_def zero_handle_def zero_header_def)
  have "process_rx_pkt True True False (\<lambda>_. 0) (zero_handle\<lparr>bh_payload := Some (encode_header ?h @ ?p),
      bh_payload_len := of_nat (12 + length ?p), bh_if_type := 5, bh_if_num := n, bh_free := True, bh_priv := buf\<rparr>) st =
    Some (st\<lparr>sc_high := high, sc_low := low, sc_frees := sc_frees st @ [buf]\<rparr>)" for n
    using h a(1) process_priv_pkt_config [of cap chip low high "[]" st]
    by (simp add: process_rx_pkt_def zero_handle_def free_handle_def)
  then show ?thesis
    using slave_turn_frame [OF src r(1), of ?h ?p rest buf su st] fr r(2) h a by auto
qed

end
