(* ===== verification/Remote_Call.thy ===== *)
theory Remote_Call
  imports Rpc_Call Hosted_System
begin

text \<open>
  Remote procedure calls over the control channel: the request and the response of a call travel as TLV
  messages in fragments over the UART, and the host's caller gets what the handler on the co-processor
  returned. This composes the call (\<open>Rpc_Call\<close>) with the serial link of both processors
  (\<open>Hosted_System\<close>).
\<close>

section \<open>The way to the co-processor and back\<close>

text \<open>
  A control request of 1 to 8180 octets that the host application sends over the open control channel
  is framed, fragmented and queued; when the octets of the frames reach the co-processor through any UART
  that delivers what is asked for, its receive loop reassembles exactly one request, and the request
  handler passes the unchanged octets to the endpoint and answers with its result.
\<close>
lemma control_request_end_to_end:
  assumes "byte_source rd avail ready" "ctrl_ready cs" "d \<noteq> []" "length d \<le> 8180"
    and "sacc [] st" "su_empty su" "buf \<noteq> 0"
  shows "\<exists>q frames frees. host_request mb cs d (Some []) = Some (H_OK, Some q) \<and>
    jl_uart_tx_task (\<lambda>_. True) bus_write 0 q = Some (frames, frees) \<and>
    (\<forall>s. ready s \<and> avail s = concat frames \<longrightarrow>
      (\<exists>s' su' st' r. slave_turns rd buf (length frames) (s, su, st) = Some (s', su', st') \<and>
        avail s' = [] \<and> su_empty su' \<and> sacc [] st' \<and> sc_reqs st' = sc_reqs st @ [r] \<and>
        rpc_req_handler mem req_handle xmit r (of_nat (length r)) x = rpc_reply mem ep_rsp xmit (req_handle ep_rsp 0 d x)))"
proof -
  let ?m = "tlv_image ep_rsp d"
  let ?fs = "frags 1588 ?m"
  have m: "?m \<noteq> []" "length ?m = 12 + length d" by (simp_all add: tlv_image_def)
  have ne: "\<forall>f\<in>set ?fs. fst f \<noteq> [] \<and> length (fst f) \<le> 1588" using m(1) by (intro frags_nonempty) simp_all
  obtain frees where t: "jl_uart_tx_task (\<lambda>_. True) bus_write 0 (map (frag_packet mb) ?fs) = Some (map wire_frame ?fs, frees)"
    using tx_task_frames [OF ne] by blast
  have h: "rpc_req_handler mem req_handle xmit ?m (of_nat (length ?m)) x = rpc_reply mem ep_rsp xmit (req_handle ep_rsp 0 d x)"
    using rpc_req_decode_image [of ep_rsp d] assms(3,4) m(2) by (simp add: rpc_req_handler_def)
  have s: "\<exists>s' su' st'. slave_turns rd buf (length (map wire_frame ?fs)) (s, su, st) = Some (s', su', st') \<and>
      avail s' = [] \<and> su_empty su' \<and> sacc [] st' \<and> sc_reqs st' = sc_reqs st @ [?m]"
    if "ready s" "avail s = concat (map wire_frame ?fs)" for s
    using slave_turns_frags [OF assms(1,7) that(1), of ?m "[]" "[]" st su] that(2) assms(4-6) m by auto
  show ?thesis
    using host_request_packets [OF assms(2-4), of mb "[]"] t s h
    by (intro exI [of _ "map (frag_packet mb) ?fs"] exI [of _ "map wire_frame ?fs"] exI [of _ frees]) fastforce
qed

text \<open>
  A response of 1 to 65523 octets that the endpoint of the co-processor returns is framed and handed to
  the open bus in pieces; when the octets the UART driver writes reach the host, in whatever chunks, the
  receive task reassembles them and the reader of the control channel gets exactly the endpoint's octets.
\<close>
lemma control_response_end_to_end:
  assumes "d \<noteq> []" "length d \<le> 65523" "sc_datapath st" "b \<noteq> 0"
    and "rx_link (jr_serial rx) h" "rx_acc [] (jr_serial rx)" "sh_queue h = Some []"
    and "cs_if cs = Some 0" "cs_sem cs = Some (Suc n)"
  shows "\<exists>st' bhs. rpc_reply True ep_rsp
      (\<lambda>out. serial_write_data (send_to_host_queue True False (\<lambda>_. False) True) b out (length out)) (ESP_OK, d, st) =
      Some (ESP_OK, st') \<and>
    sc_written st' = sc_written st @ bhs \<and> sc_frees st' = sc_frees st @ [b] \<and>
    (\<forall>evs. ev_clean evs \<and> ev_bytes evs = concat (concat (map slave_wire bhs)) \<longrightarrow>
      (\<exists>evs' rx' cs'. host_turns pkt (length bhs) (evs, rx) = Some (evs', rx') \<and> ev_bytes evs' = [] \<and>
        h_control_serial_drv_read True True True (cs\<lparr>cs_ll := jr_serial rx'\<rparr>) = Some (Some d, cs')))"
proof -
  let ?m = "tlv_image ep_rsp d"
  have m: "?m \<noteq> []" "length ?m = 12 + length d" by (simp_all add: tlv_image_def)
  obtain bhs where b: "sc_written (serial_write_loop send_open b ?m 0 (length ?m) st) = sc_written st @ bhs"
    "map handle_frag bhs = frags 1500 ?m" "sc_frees (serial_write_loop send_open b ?m 0 (length ?m) st) = sc_frees st @ [b]"
    "\<forall>bh\<in>set bhs. serial_packet bh"
    using serial_write_loop_frags [OF assms(3,4), of "[]" ?m] by (auto simp: serial_packet_def)
  have c: "rpc_reply True ep_rsp (\<lambda>out. serial_write_data send_open b out (length out)) (ESP_OK, d, st) =
      Some (ESP_OK, serial_write_loop send_open b ?m 0 (length ?m) st)"
    using assms(2) by (simp add: rpc_reply_def slave_compose_tlv_image serial_write_data_def)
  have r: "\<exists>evs' rx' cs'. host_turns pkt (length bhs) (evs, rx) = Some (evs', rx') \<and> ev_bytes evs' = [] \<and>
      h_control_serial_drv_read True True True (cs\<lparr>cs_ll := jr_serial rx'\<rparr>) = Some (Some d, cs')"
    if e: "ev_clean evs" "ev_bytes evs = concat (concat (map slave_wire bhs))" for evs
  proof -
    obtain evs' rx' where t: "host_turns pkt (length bhs) (evs, rx) = Some (evs', rx')" "ev_bytes evs' = []"
      "jr_serial rx' = fold rx_frag (frags 1500 ?m) (jr_serial rx)"
      using host_turns_frags [OF b(4,2) m(1) e(1), of "[]" rx h "[]" pkt] e(2) assms(5,6) by auto
    have "sl_handle (jr_serial rx') 0 = Some (h\<lparr>sh_queue := Some [queued_message ?m]\<rparr>)"
      using rx_frags_queue [OF assms(5,7,6) m(1)] t(3) m(2) assms(2) by simp
    from host_read_response [OF this, of ep_rsp d "[]" "cs\<lparr>cs_ll := jr_serial rx'\<rparr>" n] assms(1,2,5,8,9)
    show ?thesis using t(1,2) by (auto simp: rx_link_def)
  qed
  show ?thesis using c b(1,3) r by blast
qed

section \<open>The endpoint\<close>

text \<open>
  The control endpoint as the protocol library calls it, on the state of the co-processor's core and of the
  application behind the handlers; and the transmit function, which works on the core alone.
\<close>

definition rpc_endpoint ::
  "(bytes \<Rightarrow> rpc option) \<Rightarrow> (rpc \<Rightarrow> bytes) \<Rightarrow> 'a handler_impl \<Rightarrow> bytes \<Rightarrow> int \<Rightarrow> bytes \<Rightarrow> slave_core \<times> 'a \<Rightarrow>
     esp_err \<times> bytes \<times> slave_core \<times> 'a" where
  "rpc_endpoint unpack pack impl ep session d = (\<lambda>(sc, a).
     case data_transfer_handler unpack pack impl (True, True, True) True (Some d) a of
       None \<Rightarrow> (ESP_FAIL, [], (sc, a))
     | Some (e, ob, leaked, a') \<Rightarrow> (e, (case ob of None \<Rightarrow> [] | Some out \<Rightarrow> out), (sc, a')))"

definition on_core :: "(bytes \<Rightarrow> slave_core \<Rightarrow> esp_err \<times> slave_core) \<Rightarrow> bytes \<Rightarrow> slave_core \<times> 'a \<Rightarrow> esp_err \<times> slave_core \<times> 'a" where
  "on_core xmit out = (\<lambda>(sc, a). case xmit out sc of (e, sc') \<Rightarrow> (e, (sc', a)))"

definition core_xmit :: "nat \<Rightarrow> bytes \<Rightarrow> slave_core \<Rightarrow> esp_err \<times> slave_core" where
  "core_xmit b out = serial_write_data (send_to_host_queue True False (\<lambda>_. False) True) b out (length out)"

lemma rpc_reply_on_core:
  "rpc_reply mem ep xmit (e0, out, sc) = Some (e, sc') \<Longrightarrow>
     rpc_reply mem ep (on_core xmit) (e0, out, (sc, a)) = Some (e, (sc', a))"
  by (auto simp: rpc_reply_def on_core_def split: if_splits prod.splits Option.bind_splits)

section \<open>Properties\<close>

text \<open>
  C1: a remote procedure call over the UART. The host application's request is composed, packed, framed,
  fragmented and written; whatever the timing of the octets, the co-processor reassembles exactly one request
  and its handler runs once, on the data the application passed; the reply is packed and written in
  fragments; whatever the chunks in which its octets reach the host, the control channel is read whole, the
  reply carries the handler's data, and the caller that waits gets the handler's status with the identifier of
  its own request.
\<close>
theorem remote_call_over_uart:
  assumes codec: "codec_ok pack unpack"
    and caller: "can_call sem p st" "rc_rxq st = []" "build_rpc_req True args i (next_uid (rc_uid st)) = (H_OK, fs, req)"
    and handler: "impl i (handler_input (the (map_of req_table i)) req) a = ((e, r, out), a')"
    and sizes: "length (pack req) \<le> 8180"
      "length (pack (reply (i + 256) (next_uid (rc_uid st)) (reply_body i r out))) \<le> 65523"
    and host: "ctrl_ready cs" "cs_sem cs = Some (Suc n)" "rx_link (jr_serial rx) h" "rx_acc [] (jr_serial rx)" "sh_queue h = Some []"
    and slave: "byte_source rd avail ready" "sacc [] sc" "su_empty su" "buf \<noteq> 0" "sc_datapath sc2" "b \<noteq> 0"
  shows "\<exists>q frames frees. host_request mb cs (pack req) (Some []) = Some (H_OK, Some q) \<and>
    jl_uart_tx_task (\<lambda>_. True) bus_write 0 q = Some (frames, frees) \<and>
    (\<forall>s. ready s \<and> avail s = concat frames \<longrightarrow>
      (\<exists>s' su' sc' rq sc3 bhs. slave_turns rd buf (length frames) (s, su, sc) = Some (s', su', sc') \<and>
        avail s' = [] \<and> sc_reqs sc' = sc_reqs sc @ [rq] \<and>
        rpc_req_handler True (rpc_endpoint unpack pack impl) (on_core (core_xmit b)) rq (of_nat (length rq)) (sc2, a) =
          Some (ESP_OK, (sc3, a')) \<and>
        sc_written sc3 = sc_written sc2 @ bhs \<and>
        (\<forall>evs. ev_clean evs \<and> ev_bytes evs = concat (concat (map slave_wire bhs)) \<longrightarrow>
          (\<exists>evs' rx' cs' ob m st'. host_turns pkt (length bhs) (evs, rx) = Some (evs', rx') \<and> ev_bytes evs' = [] \<and>
            h_control_serial_drv_read True True True (cs\<lparr>cs_ll := jr_serial rx'\<rparr>) = Some (Some ob, cs') \<and>
            unpack ob = Some m \<and> rp_union m = reply_body i r out \<and>
            sync_call sem tmo (snd (rpc_parse_rsp m)) (rpc_header m) p st =
              Some (Some \<lparr>rs_msg_id = i + 256, rs_uid = next_uid (rc_uid st), rs_status = r\<rparr>, st')))))"
    (is "\<exists>q frames frees. _ \<and> _ \<and> (\<forall>s. _ \<longrightarrow> ?P frames s)")
proof -
  let ?rep = "pack (reply (i + 256) (next_uid (rc_uid st)) (reply_body i r out))"
  let ?ep = "rpc_endpoint unpack pack impl"
  have ne: "pack req \<noteq> []" "?rep \<noteq> []" and cif: "cs_if cs = Some 0"
    using packed_nonempty [OF codec caller(3)] host(1) by (auto simp: ctrl_ready_def)
  have served: "?ep ep_rsp 0 (pack req) (sc2, a) = (ESP_OK, ?rep, (sc2, a'))"
    using request_served [OF codec caller(3), where impl = impl, OF handler] by (simp add: rpc_endpoint_def)
  obtain sc3 bhs where bk: "rpc_reply True ep_rsp (core_xmit b) (ESP_OK, ?rep, sc2) = Some (ESP_OK, sc3)"
      "sc_written sc3 = sc_written sc2 @ bhs"
      "\<forall>evs. ev_clean evs \<and> ev_bytes evs = concat (concat (map slave_wire bhs)) \<longrightarrow>
        (\<exists>evs' rx' cs'. host_turns pkt (length bhs) (evs, rx) = Some (evs', rx') \<and> ev_bytes evs' = [] \<and>
          h_control_serial_drv_read True True True (cs\<lparr>cs_ll := jr_serial rx'\<rparr>) = Some (Some ?rep, cs'))"
    using control_response_end_to_end [OF ne(2) sizes(2) slave(5,6) host(3-5) cif host(2), of pkt]
    unfolding core_xmit_def by blast
  have answered: "rpc_reply True ep_rsp (on_core (core_xmit b)) (?ep ep_rsp 0 (pack req) (sc2, a)) = Some (ESP_OK, (sc3, a'))"
    unfolding served by (rule rpc_reply_on_core) (rule bk(1))
  obtain m st' where m: "unpack ?rep = Some m" "rp_union m = reply_body i r out"
      "sync_call sem tmo (snd (rpc_parse_rsp m)) (rpc_header m) p st =
        Some (Some \<lparr>rs_msg_id = i + 256, rs_uid = next_uid (rc_uid st), rs_status = r\<rparr>, st')"
    using reply_delivered [OF codec caller, of r out tmo] by blast
  obtain q frames frees where req: "host_request mb cs (pack req) (Some []) = Some (H_OK, Some q)"
      "jl_uart_tx_task (\<lambda>_. True) bus_write 0 q = Some (frames, frees)"
      "\<And>s. ready s \<and> avail s = concat frames \<Longrightarrow>
        \<exists>s' su' sc' rq. slave_turns rd buf (length frames) (s, su, sc) = Some (s', su', sc') \<and>
          avail s' = [] \<and> sc_reqs sc' = sc_reqs sc @ [rq] \<and>
          rpc_req_handler True ?ep (on_core (core_xmit b)) rq (of_nat (length rq)) (sc2, a) =
            rpc_reply True ep_rsp (on_core (core_xmit b)) (?ep ep_rsp 0 (pack req) (sc2, a))"
    using control_request_end_to_end [OF slave(1) host(1) ne(1) sizes(1) slave(2-4), of mb bus_write True ?ep
        "on_core (core_xmit b)" "(sc2, a)"] by blast
  have ret: "\<exists>evs' rx' cs' ob m st'. host_turns pkt (length bhs) (evs, rx) = Some (evs', rx') \<and> ev_bytes evs' = [] \<and>
      h_control_serial_drv_read True True True (cs\<lparr>cs_ll := jr_serial rx'\<rparr>) = Some (Some ob, cs') \<and>
      unpack ob = Some m \<and> rp_union m = reply_body i r out \<and>
      sync_call sem tmo (snd (rpc_parse_rsp m)) (rpc_header m) p st =
        Some (Some \<lparr>rs_msg_id = i + 256, rs_uid = next_uid (rc_uid st), rs_status = r\<rparr>, st')"
    if "ev_clean evs \<and> ev_bytes evs = concat (concat (map slave_wire bhs))" for evs
    using bk(3) that m by blast
  have "?P frames s" if "ready s \<and> avail s = concat frames" for s
  proof -
    from req(3) [OF that] obtain s' su' sc' rq where
        "slave_turns rd buf (length frames) (s, su, sc) = Some (s', su', sc')" "avail s' = []" "sc_reqs sc' = sc_reqs sc @ [rq]"
        "rpc_req_handler True ?ep (on_core (core_xmit b)) rq (of_nat (length rq)) (sc2, a) = Some (ESP_OK, (sc3, a'))"
      unfolding answered by blast
    then show ?thesis using bk(2) ret
      by (intro exI [of _ s'] exI [of _ su'] exI [of _ sc'] exI [of _ rq] exI [of _ sc3] exI [of _ bhs]) simp
  qed
  with req(1,2) show ?thesis by blast
qed

section \<open>Example\<close>

definition demo_cs :: ctrl_serial where
  "demo_cs = \<lparr>cs_open = True, cs_drv = True, cs_if = Some 0, cs_sem = Some 1, cs_ll = demo_ll_state\<rparr>"

lemma length_enc [simp]:
  "length (enc_nat n xs) = n + 1 + length xs"
  "length (enc_int i xs) = nat i + nat (- i) + 2 + length xs"
  by (simp_all add: enc_nat_def enc_int_def)

lemma demo_sizes:
  "length (demo_pack (composed (Some [3, 4]) 258 1)) \<le> 8180"
  "length (demo_pack (reply (258 + 256) 1 (reply_body 258 0 [4, 3]))) \<le> 65523"
  by (simp_all add: demo_pack_def wire_def composed_def reply_def Let_def)

lemma demo_parts:
  "rc_rxq demo_rc = []" "ctrl_ready demo_cs" "cs_sem demo_cs = Some (Suc 0)" "rx_link (jr_serial demo_rx) demo_hdl"
  "rx_acc [] (jr_serial demo_rx)" "sh_queue demo_hdl = Some []" "sacc [] demo_slave" "su_empty demo_su"
  "sc_datapath (demo_slave\<lparr>sc_datapath := True\<rparr>)"
  by (simp_all add: ctrl_ready_def demo_cs_def demo_ll_state_def demo_hdl_def demo_rx_def rx_link_def rx_acc_def sacc_def
      demo_slave_def su_empty_def demo_su_def demo_rc_def)

lemma demo_uid: "next_uid (rc_uid demo_rc) = 1"
  by (simp add: next_uid_def demo_rc_def)

lemma demo_handled:
  "demo_impl 258 (handler_input (the (map_of req_table 258)) (composed (Some [3, 4]) 258 1)) 0 = ((ESP_OK, 0, [4, 3]), 1)"
proof -
  have "map_of req_table 258 = Some (Template 514 258)" by (simp add: req_table_def)
  then show ?thesis by (simp add: handler_input_def demo_impl_def composed_def)
qed

theorem remote_call_over_uart_witness:
  "\<exists>q frames frees rq sc3 (rx' :: jl_rx) cs' ob m (st' :: rpc_core).
    host_request 9 demo_cs (demo_pack (composed (Some [3, 4]) 258 1)) (Some []) = Some (H_OK, Some q) \<and>
    jl_uart_tx_task (\<lambda>_. True) length 0 q = Some (frames, frees) \<and>
    rpc_req_handler True (rpc_endpoint demo_unpack demo_pack demo_impl) (on_core (core_xmit 3)) rq (of_nat (length rq))
      (demo_slave\<lparr>sc_datapath := True\<rparr>, 0) = Some (ESP_OK, (sc3, 1)) \<and>
    h_control_serial_drv_read True True True (demo_cs\<lparr>cs_ll := jr_serial rx'\<rparr>) = Some (Some ob, cs') \<and>
    demo_unpack ob = Some m \<and> rp_union m = reply_body 258 0 [4, 3] \<and>
    sync_call 20 (- 4) (snd (rpc_parse_rsp m)) (rpc_header m) 10 demo_rc =
      Some (Some \<lparr>rs_msg_id = 258 + 256, rs_uid = next_uid (rc_uid demo_rc), rs_status = 0\<rparr>, st')"
proof -
  have n: "(5 :: nat) \<noteq> 0" "(3 :: nat) \<noteq> 0" by simp_all
  obtain q frames frees where r: "host_request 9 demo_cs (demo_pack (composed (Some [3, 4]) 258 1)) (Some []) = Some (H_OK, Some q)"
      "jl_uart_tx_task (\<lambda>_. True) length 0 q = Some (frames, frees)"
    and s: "\<forall>s. ev_clean s \<and> ev_bytes s = concat frames \<longrightarrow>
      (\<exists>s' su' sc' rq sc3 bhs. slave_turns uart_read 5 (length frames) (s, demo_su, demo_slave) = Some (s', su', sc') \<and>
        ev_bytes s' = [] \<and> sc_reqs sc' = sc_reqs demo_slave @ [rq] \<and>
        rpc_req_handler True (rpc_endpoint demo_unpack demo_pack demo_impl) (on_core (core_xmit 3)) rq (of_nat (length rq))
          (demo_slave\<lparr>sc_datapath := True\<rparr>, 0) = Some (ESP_OK, (sc3, 1)) \<and>
        sc_written sc3 = sc_written (demo_slave\<lparr>sc_datapath := True\<rparr>) @ bhs \<and>
        (\<forall>evs. ev_clean evs \<and> ev_bytes evs = concat (concat (map slave_wire bhs)) \<longrightarrow>
          (\<exists>evs' rx' cs' ob m st'. host_turns 7 (length bhs) (evs, demo_rx) = Some (evs', rx') \<and> ev_bytes evs' = [] \<and>
            h_control_serial_drv_read True True True (demo_cs\<lparr>cs_ll := jr_serial rx'\<rparr>) = Some (Some ob, cs') \<and>
            demo_unpack ob = Some m \<and> rp_union m = reply_body 258 0 [4, 3] \<and>
            sync_call 20 (- 4) (snd (rpc_parse_rsp m)) (rpc_header m) 10 demo_rc =
              Some (Some \<lparr>rs_msg_id = 258 + 256, rs_uid = next_uid (rc_uid demo_rc), rs_status = 0\<rparr>, st'))))"
    using remote_call_over_uart [OF demo_codec demo_can_call demo_parts(1) demo_built, where impl = demo_impl,
      OF demo_handled demo_sizes(1) demo_sizes(2) [folded demo_uid] demo_parts(2-6) uart.byte_source_axioms demo_parts(7,8) n(1)
        demo_parts(9) n(2), of 9 length 7 "- 4"]
    by (elim exE conjE) (rule that)
  have c: "ev_clean [U_Data (concat frames)] \<and> ev_bytes [U_Data (concat frames)] = concat frames" by simp
  from s [rule_format, OF c] obtain rq sc3 bhs where
      h: "rpc_req_handler True (rpc_endpoint demo_unpack demo_pack demo_impl) (on_core (core_xmit 3)) rq (of_nat (length rq))
          (demo_slave\<lparr>sc_datapath := True\<rparr>, 0) = Some (ESP_OK, (sc3, 1))"
    and b: "\<And>evs. ev_clean evs \<and> ev_bytes evs = concat (concat (map slave_wire bhs)) \<Longrightarrow>
          (\<exists>evs' rx' cs' ob m st'. host_turns 7 (length bhs) (evs, demo_rx) = Some (evs', rx') \<and> ev_bytes evs' = [] \<and>
            h_control_serial_drv_read True True True (demo_cs\<lparr>cs_ll := jr_serial rx'\<rparr>) = Some (Some ob, cs') \<and>
            demo_unpack ob = Some m \<and> rp_union m = reply_body 258 0 [4, 3] \<and>
            sync_call 20 (- 4) (snd (rpc_parse_rsp m)) (rpc_header m) 10 demo_rc =
              Some (Some \<lparr>rs_msg_id = 258 + 256, rs_uid = next_uid (rc_uid demo_rc), rs_status = 0\<rparr>, st'))"
    by blast
  have "ev_clean [U_Data (concat (concat (map slave_wire bhs)))] \<and>
      ev_bytes [U_Data (concat (concat (map slave_wire bhs)))] = concat (concat (map slave_wire bhs))" by simp
  from b [OF this] obtain rx' :: jl_rx and cs' ob m and st' :: rpc_core where
      "h_control_serial_drv_read True True True (demo_cs\<lparr>cs_ll := jr_serial rx'\<rparr>) = Some (Some ob, cs')"
      "demo_unpack ob = Some m" "rp_union m = reply_body 258 0 [4, 3]"
      "sync_call 20 (- 4) (snd (rpc_parse_rsp m)) (rpc_header m) 10 demo_rc =
        Some (Some \<lparr>rs_msg_id = 258 + 256, rs_uid = next_uid (rc_uid demo_rc), rs_status = 0\<rparr>, st')"
    by (elim exE conjE) (erule (3) that)
  with r h show ?thesis
    by (intro exI [of _ q] exI [of _ frames] exI [of _ frees] exI [of _ rq] exI [of _ sc3] exI [of _ rx'] exI [of _ cs']
        exI [of _ ob] exI [of _ m] exI [of _ st'] conjI)
qed

end
