(* ===== verification/Custom_Msg.thy ===== *)
theory Custom_Msg
  imports Rpc_Core Serial_Tlv
begin

text \<open>
  Peer data transfer: the tables of callbacks for application messages on both processors
  (\<open>esp_hosted_register_custom_callback\<close> and \<open>handle_custom_rpc_request\<close> in
  \<open>src/slave/main/slave_control.c\<close>, \<open>rpc_evt_register_custom_callback\<close> and the custom case of
  \<open>rpc_parse_evt\<close> in \<open>src/host/core/src/h_rpc_evt.c\<close>), and the path of a message from the co-processor's
  application to the host's callback.

  The locale \<open>message_registry\<close> states what both tables promise: they implement a finite map of bounded size
  from message identifiers to callbacks.
\<close>

section \<open>Slots\<close>

text \<open>A callback and its context are addresses; \<open>0\<close> is the null pointer.\<close>

record custom_slot =
  cu_id :: u32
  cu_cb :: nat
  cu_ctx :: nat

record custom_reg =
  cr_slots :: "custom_slot list"
  cr_mutex :: bool

definition empty_slot :: custom_slot where
  "empty_slot = \<lparr>cu_id = - 1, cu_cb = 0, cu_ctx = 0\<rparr>"

text \<open>The table of \<open>n\<close> slots before any registration; the mutex does not exist yet.\<close>

definition custom_reg_init :: "nat \<Rightarrow> custom_reg" where
  "custom_reg_init n = \<lparr>cr_slots = replicate n empty_slot, cr_mutex = False\<rparr>"

abbreviation (input) ESP_ERR_NOT_FOUND :: esp_err where "ESP_ERR_NOT_FOUND \<equiv> ESP_ERR_OTHER 0x105"
abbreviation (input) ESP_ERR_INVALID_SIZE_CUSTOM :: esp_err where "ESP_ERR_INVALID_SIZE_CUSTOM \<equiv> ESP_ERR_OTHER 0x104"

section \<open>Co-processor\<close>

text \<open>\<open>mk\<close>, \<open>lk\<close>: the mutex can be created and taken.\<close>

definition esp_hosted_register_custom_callback ::
  "bool \<Rightarrow> bool \<Rightarrow> u32 \<Rightarrow> nat \<Rightarrow> nat \<Rightarrow> custom_reg \<Rightarrow> esp_err \<times> custom_reg" where
  "esp_hosted_register_custom_callback mk lk i cb ctx r =
     (if i = - 1 then (ESP_ERR_INVALID_ARG, r)
      else if \<not> cr_mutex r \<and> \<not> mk then (ESP_ERR_NO_MEM, r)
      else
        let r = r\<lparr>cr_mutex := True\<rparr> in
        if \<not> lk then (ESP_FAIL, r)
        else case first_slot (\<lambda>s. cu_id s = i) (cr_slots r) of
            Some k \<Rightarrow>
              if cb = 0 then (ESP_OK, r\<lparr>cr_slots := (cr_slots r)[k := empty_slot]\<rparr>)
              else (ESP_OK, r\<lparr>cr_slots := (cr_slots r)[k := (cr_slots r ! k)\<lparr>cu_cb := cb, cu_ctx := ctx\<rparr>]\<rparr>)
          | None \<Rightarrow>
              if cb = 0 then (ESP_ERR_NOT_FOUND, r)
              else (case first_slot (\<lambda>s. cu_cb s = 0) (cr_slots r) of
                  Some k \<Rightarrow> (ESP_OK, r\<lparr>cr_slots := (cr_slots r)[k := \<lparr>cu_id = i, cu_cb = cb, cu_ctx = ctx\<rparr>]\<rparr>)
                | None \<Rightarrow> (ESP_ERR_NO_MEM, r)))"

text \<open>The search both dispatchers make under the mutex, and the call: callback, identifier, data, context.\<close>

type_synonym custom_call = "nat \<times> u32 \<times> bytes \<times> nat"

definition find_callback :: "u32 \<Rightarrow> custom_reg \<Rightarrow> (nat \<times> nat) option" where
  "find_callback i r =
     map_option (\<lambda>k. (cu_cb (cr_slots r ! k), cu_ctx (cr_slots r ! k)))
       (first_slot (\<lambda>s. cu_id s = i \<and> cu_cb s \<noteq> 0) (cr_slots r))"

definition handle_custom_rpc_request :: "bool \<Rightarrow> u32 \<Rightarrow> bytes \<Rightarrow> custom_reg \<Rightarrow> esp_err \<times> custom_call option" where
  "handle_custom_rpc_request lk i d r =
     (if i = - 1 then (ESP_ERR_INVALID_ARG, None)
      else case (if cr_mutex r \<and> lk then find_callback i r else None) of
          Some (cb, ctx) \<Rightarrow> (ESP_OK, Some (cb, i, d, ctx))
        | None \<Rightarrow> (ESP_ERR_NOT_FOUND, None))"

text \<open>
  Sending: \<open>data\<close> is the pointer (\<open>None\<close>: null) with \<open>len\<close> octets behind it, \<open>mem\<close>: the buffer can be allocated.
  The result is the error code and the event data handed to \<open>send_event_data_to_host\<close>.
\<close>

definition esp_hosted_send_custom_data :: "bool \<Rightarrow> u32 \<Rightarrow> bytes option \<Rightarrow> nat \<Rightarrow> esp_err \<times> bytes option" where
  "esp_hosted_send_custom_data mem i data len =
     (if (data = None \<and> len \<noteq> 0) \<or> (data \<noteq> None \<and> len = 0) then (ESP_ERR_INVALID_ARG, None)
      else if len > 8166 then (ESP_ERR_INVALID_SIZE_CUSTOM, None)
      else if \<not> mem then (ESP_ERR_NO_MEM, None)
      else (ESP_OK, Some (le32_bytes i @ (if len > 0 then take len (the data) else []))))"

text \<open>The event message, and its construction from the event data; \<open>m1\<close>, \<open>m2\<close>: payload and copy can be allocated.\<close>

record custom_evt =
  ce_id :: u32
  ce_resp :: int
  ce_data :: bytes

definition rpc_evt_custom_rpc :: "bool \<Rightarrow> bool \<Rightarrow> bytes \<Rightarrow> (esp_err \<times> custom_evt option) option" where
  "rpc_evt_custom_rpc m1 m2 d =
     (if \<not> m1 then Some (ESP_ERR_NO_MEM, None)
      else case d of
          b0 # b1 # b2 # b3 # rest \<Rightarrow>
            let e = \<lparr>ce_id = le32 b0 b1 b2 b3, ce_resp = 0, ce_data = []\<rparr> in
            if rest = [] then Some (ESP_OK, Some e)
            else if \<not> m2 then Some (ESP_OK, Some (e\<lparr>ce_resp := - 1\<rparr>))
            else Some (ESP_OK, Some (e\<lparr>ce_data := rest\<rparr>))
        | _ \<Rightarrow> None)"

section \<open>Host\<close>

text \<open>\<open>mk\<close>: the mutex can be created; the result of taking it is ignored.\<close>

definition rpc_evt_register_custom_callback :: "bool \<Rightarrow> u32 \<Rightarrow> nat \<Rightarrow> nat \<Rightarrow> custom_reg \<Rightarrow> h_err \<times> custom_reg" where
  "rpc_evt_register_custom_callback mk i cb ctx r =
     (if i = - 1 then (H_FAIL, r)
      else if \<not> cr_mutex r \<and> \<not> mk then (H_FAIL, r)
      else
        let r = r\<lparr>cr_mutex := True\<rparr> in
        case first_slot (\<lambda>s. cu_id s = i) (cr_slots r) of
            Some k \<Rightarrow>
              if cb = 0 then (H_OK, r\<lparr>cr_slots := (cr_slots r)[k := empty_slot]\<rparr>)
              else (H_OK, r\<lparr>cr_slots := (cr_slots r)[k := (cr_slots r ! k)\<lparr>cu_cb := cb, cu_ctx := ctx\<rparr>]\<rparr>)
          | None \<Rightarrow>
              if cb = 0 then (H_FAIL, r)
              else (case first_slot (\<lambda>s. cu_cb s = 0) (cr_slots r) of
                  Some k \<Rightarrow> (H_OK, r\<lparr>cr_slots := (cr_slots r)[k := \<lparr>cu_id = i, cu_cb = cb, cu_ctx = ctx\<rparr>]\<rparr>)
                | None \<Rightarrow> (H_FAIL, r)))"

text \<open>The custom case of \<open>rpc_parse_evt\<close>: result, status for the application, and the call.\<close>

definition rpc_parse_custom_evt :: "custom_evt option \<Rightarrow> custom_reg \<Rightarrow> h_err \<times> int \<times> custom_call option" where
  "rpc_parse_custom_evt e r =
     (case e of
        None \<Rightarrow> (H_FAIL, h_err_code H_FAIL, None)
      | Some e \<Rightarrow>
          (H_OK, ce_resp e,
           map_option (\<lambda>(cb, ctx). (cb, ce_id e, ce_data e, ctx))
             (if cr_mutex r then find_callback (ce_id e) r else None)))"

section \<open>The contract of a table\<close>

text \<open>A registration by identifier, callback and context, on a map of at most \<open>n\<close> entries.\<close>

type_synonym reg_op = "u32 \<times> nat \<times> nat"

definition map_register :: "nat \<Rightarrow> reg_op \<Rightarrow> (u32 \<rightharpoonup> nat \<times> nat) \<Rightarrow> (u32 \<rightharpoonup> nat \<times> nat)" where
  "map_register n = (\<lambda>(i, cb, ctx) m.
     if i = - 1 then m
     else if cb = 0 then m(i := None)
     else if m i \<noteq> None \<or> card (dom m) < n then m(i \<mapsto> (cb, ctx))
     else m)"

locale message_registry =
  fixes valid :: "'r \<Rightarrow> bool"
    and capacity :: "'r \<Rightarrow> nat"
    and reg :: "reg_op \<Rightarrow> 'r \<Rightarrow> 'r"
    and find :: "u32 \<Rightarrow> 'r \<Rightarrow> (nat \<times> nat) option"
  assumes reg_valid: "valid r \<Longrightarrow> valid (reg op r)"
    and reg_capacity: "valid r \<Longrightarrow> capacity (reg op r) = capacity r"
    and reg_find: "valid r \<Longrightarrow> (\<lambda>i. find i (reg op r)) = map_register (capacity r) op (\<lambda>i. find i r)"
    and find_bound: "valid r \<Longrightarrow> card (dom (\<lambda>i. find i r)) \<le> capacity r"
begin

lemma regs_valid: "valid r \<Longrightarrow> valid (fold reg ops r) \<and> capacity (fold reg ops r) = capacity r"
  by (induction ops arbitrary: r) (simp_all add: reg_valid reg_capacity)

lemma regs_find: "valid r \<Longrightarrow> (\<lambda>i. find i (fold reg ops r)) = fold (map_register (capacity r)) ops (\<lambda>i. find i r)"
  by (induction ops arbitrary: r) (simp_all add: reg_valid reg_capacity reg_find)

lemma regs_bound: "valid r \<Longrightarrow> card (dom (\<lambda>i. find i (fold reg ops r))) \<le> capacity r"
  using regs_valid [of r ops] find_bound [of "fold reg ops r"] by simp

text \<open>The last registration of an identifier decides, once it has an entry.\<close>

lemma reg_same:
  assumes "valid r" "find i r \<noteq> None" "i \<noteq> - 1" "cb \<noteq> 0"
  shows "find i (reg (i, cb, ctx) r) = Some (cb, ctx)"
  using reg_find [OF assms(1), of "(i, cb, ctx)"] assms(2-) by (simp add: map_register_def fun_eq_iff)

lemma reg_other:
  assumes "valid r" "j \<noteq> i"
  shows "find j (reg (i, cb, ctx) r) = find j r"
proof -
  have "find j (reg (i, cb, ctx) r) = map_register (capacity r) (i, cb, ctx) (\<lambda>i. find i r) j"
    using reg_find [OF assms(1), of "(i, cb, ctx)"] by (metis (mono_tags))
  then show ?thesis using assms(2) by (simp add: map_register_def)
qed

end

section \<open>The tables meet the contract\<close>

text \<open>A slot is free exactly when it has the invalid identifier, and no two slots in use share one.\<close>

definition used_slots :: "custom_slot list \<Rightarrow> nat set" where
  "used_slots xs = {k. k < length xs \<and> cu_cb (xs ! k) \<noteq> 0}"

definition slots_ok :: "custom_slot list \<Rightarrow> bool" where
  "slots_ok xs = ((\<forall>k<length xs. cu_cb (xs ! k) = 0 \<longleftrightarrow> cu_id (xs ! k) = - 1) \<and>
     inj_on (\<lambda>k. cu_id (xs ! k)) (used_slots xs))"

definition slot_find :: "u32 \<Rightarrow> custom_slot list \<Rightarrow> (nat \<times> nat) option" where
  "slot_find i xs = map_option (\<lambda>k. (cu_cb (xs ! k), cu_ctx (xs ! k))) (first_slot (\<lambda>s. cu_id s = i \<and> cu_cb s \<noteq> 0) xs)"

text \<open>The transition of the slots that both registrations make.\<close>

definition slot_reg :: "reg_op \<Rightarrow> custom_slot list \<Rightarrow> custom_slot list" where
  "slot_reg = (\<lambda>(i, cb, ctx) xs.
     if i = - 1 then xs
     else case first_slot (\<lambda>s. cu_id s = i) xs of
         Some k \<Rightarrow> if cb = 0 then xs[k := empty_slot] else xs[k := (xs ! k)\<lparr>cu_cb := cb, cu_ctx := ctx\<rparr>]
       | None \<Rightarrow>
           if cb = 0 then xs
           else (case first_slot (\<lambda>s. cu_cb s = 0) xs of
               Some k \<Rightarrow> xs[k := \<lparr>cu_id = i, cu_cb = cb, cu_ctx = ctx\<rparr>]
             | None \<Rightarrow> xs))"

lemma slot_find_at:
  assumes "slots_ok xs" "k \<in> used_slots xs"
  shows "slot_find (cu_id (xs ! k)) xs = Some (cu_cb (xs ! k), cu_ctx (xs ! k))"
proof -
  have k: "k < length xs" "cu_cb (xs ! k) \<noteq> 0" using assms(2) by (simp_all add: used_slots_def)
  have "first_slot (\<lambda>s. cu_id s = cu_id (xs ! k) \<and> cu_cb s \<noteq> 0) xs = Some k"
  proof (rule first_slot_SomeI)
    fix j assume j: "j < k"
    show "\<not> (cu_id (xs ! j) = cu_id (xs ! k) \<and> cu_cb (xs ! j) \<noteq> 0)"
    proof
      assume a: "cu_id (xs ! j) = cu_id (xs ! k) \<and> cu_cb (xs ! j) \<noteq> 0"
      then have "j \<in> used_slots xs" using j k by (simp add: used_slots_def)
      then show False using assms a j inj_onD [of "\<lambda>k. cu_id (xs ! k)" "used_slots xs" j k] by (simp add: slots_ok_def)
    qed
  qed (use k in simp_all)
  then show ?thesis by (simp add: slot_find_def)
qed

lemma slot_find_none:
  "slot_find i xs = None \<longleftrightarrow> (\<forall>k\<in>used_slots xs. cu_id (xs ! k) \<noteq> i)"
  unfolding slot_find_def option.map_disc_iff first_slot_None all_set_conv_all_nth used_slots_def by blast

text \<open>Two tables that agree on the slots in use find the same.\<close>

lemma slot_find_cong:
  assumes "slots_ok xs" "slots_ok ys"
    and "\<And>k. k \<in> used_slots xs \<Longrightarrow> cu_id (xs ! k) = i \<Longrightarrow> k \<in> used_slots ys \<and> ys ! k = xs ! k"
    and "\<And>k. k \<in> used_slots ys \<Longrightarrow> cu_id (ys ! k) = i \<Longrightarrow> k \<in> used_slots xs \<and> ys ! k = xs ! k"
  shows "slot_find i ys = slot_find i xs"
proof (cases "\<exists>k\<in>used_slots xs. cu_id (xs ! k) = i")
  case True
  then obtain k where k: "k \<in> used_slots xs" "cu_id (xs ! k) = i" by blast
  then have "k \<in> used_slots ys" "ys ! k = xs ! k" using assms(3) by blast+
  then show ?thesis using slot_find_at [OF assms(1) k(1)] slot_find_at [OF assms(2), of k] k(2) by simp
next
  case False
  then have "slot_find i xs = None" by (simp add: slot_find_none)
  moreover have "slot_find i ys = None"
    unfolding slot_find_none
  proof (intro ballI notI)
    fix k assume k: "k \<in> used_slots ys" "cu_id (ys ! k) = i"
    then have "k \<in> used_slots xs" "ys ! k = xs ! k" using assms(4) by blast+
    then show False using False k(2) by simp
  qed
  ultimately show ?thesis by simp
qed

lemma finite_used [simp]: "finite (used_slots xs)"
  by (simp add: used_slots_def)

lemma used_update:
  assumes "k < length xs"
  shows "used_slots (xs[k := v]) = (if cu_cb v = 0 then used_slots xs - {k} else insert k (used_slots xs))"
  using assms by (auto simp: used_slots_def nth_list_update)

lemma dom_slot_find: "dom (\<lambda>i. slot_find i xs) = (\<lambda>k. cu_id (xs ! k)) ` used_slots xs"
proof (intro set_eqI)
  fix i
  show "i \<in> dom (\<lambda>i. slot_find i xs) \<longleftrightarrow> i \<in> (\<lambda>k. cu_id (xs ! k)) ` used_slots xs"
    unfolding domIff slot_find_none image_iff by blast
qed

lemma card_dom_slot_find: "slots_ok xs \<Longrightarrow> card (dom (\<lambda>i. slot_find i xs)) = card (used_slots xs)"
  by (simp add: dom_slot_find slots_ok_def card_image)

lemma card_used: "card (used_slots xs) \<le> length xs" "card (used_slots xs) < length xs \<longleftrightarrow> (\<exists>k<length xs. cu_cb (xs ! k) = 0)"
proof -
  have sub: "used_slots xs \<subseteq> {..<length xs}" by (auto simp: used_slots_def)
  then show "card (used_slots xs) \<le> length xs" using card_mono [OF _ sub] by simp
  show "card (used_slots xs) < length xs \<longleftrightarrow> (\<exists>k<length xs. cu_cb (xs ! k) = 0)"
  proof
    assume "card (used_slots xs) < length xs"
    then have "\<not> {..<length xs} \<subseteq> used_slots xs"
      using card_mono [OF finite_used, of "{..<length xs}" xs] by (intro notI) simp
    then obtain k where "k \<in> {..<length xs}" "k \<notin> used_slots xs" by blast
    then have "k < length xs" "cu_cb (xs ! k) = 0" by (simp_all add: used_slots_def)
    then show "\<exists>k<length xs. cu_cb (xs ! k) = 0" by blast
  next
    assume "\<exists>k<length xs. cu_cb (xs ! k) = 0"
    then obtain k where "k \<in> {..<length xs}" "k \<notin> used_slots xs" unfolding used_slots_def by blast
    with sub have "used_slots xs \<subset> {..<length xs}" by blast
    then show "card (used_slots xs) < length xs" using psubset_card_mono [of "{..<length xs}"] by simp
  qed
qed

text \<open>Writing slot \<open>k\<close> with an identifier no other slot in use has.\<close>

lemma slot_update:
  assumes ok: "slots_ok xs" and k: "k < length xs" and v: "cu_cb v = 0 \<longleftrightarrow> cu_id v = - 1"
    and fresh: "\<And>j. j \<in> used_slots xs \<Longrightarrow> j \<noteq> k \<Longrightarrow> cu_id (xs ! j) \<noteq> cu_id v"
  shows "slots_ok (xs[k := v])"
    "slot_find i (xs[k := v]) =
       (if cu_cb v \<noteq> 0 \<and> i = cu_id v then Some (cu_cb v, cu_ctx v)
        else if k \<in> used_slots xs \<and> i = cu_id (xs ! k) then None else slot_find i xs)"
proof -
  have inj: "inj_on (\<lambda>j. cu_id (xs ! j)) (used_slots xs)" using ok by (simp add: slots_ok_def)
  have used: "used_slots (xs[k := v]) = (if cu_cb v = 0 then used_slots xs - {k} else insert k (used_slots xs))"
    by (rule used_update [OF k])
  show ok': "slots_ok (xs[k := v])"
    unfolding slots_ok_def
  proof
    show "\<forall>j<length (xs[k := v]). cu_cb (xs[k := v] ! j) = 0 \<longleftrightarrow> cu_id (xs[k := v] ! j) = - 1"
      using ok v k by (auto simp: slots_ok_def nth_list_update)
    have rest: "inj_on (\<lambda>j. cu_id (xs[k := v] ! j)) (used_slots xs - {k})"
      using inj_on_subset [OF inj, of "used_slots xs - {k}"] by (auto simp: inj_on_def nth_list_update)
    moreover have "cu_id (xs[k := v] ! k) \<notin> (\<lambda>j. cu_id (xs[k := v] ! j)) ` (used_slots xs - {k})"
    proof
      assume "cu_id (xs[k := v] ! k) \<in> (\<lambda>j. cu_id (xs[k := v] ! j)) ` (used_slots xs - {k})"
      then obtain j where j: "j \<in> used_slots xs" "j \<noteq> k" "cu_id (xs[k := v] ! k) = cu_id (xs[k := v] ! j)" by blast
      then show False using fresh [OF j(1,2)] k by simp
    qed
    ultimately have "inj_on (\<lambda>j. cu_id (xs[k := v] ! j)) (insert k (used_slots xs - {k}))"
      unfolding inj_on_insert by simp
    then show "inj_on (\<lambda>j. cu_id (xs[k := v] ! j)) (used_slots (xs[k := v]))"
      using used rest by (simp split: if_splits)
  qed
  consider (new) "cu_cb v \<noteq> 0" "i = cu_id v" | (old) "\<not> (cu_cb v \<noteq> 0 \<and> i = cu_id v)" "k \<in> used_slots xs" "i = cu_id (xs ! k)"
    | (other) "\<not> (cu_cb v \<noteq> 0 \<and> i = cu_id v)" "\<not> (k \<in> used_slots xs \<and> i = cu_id (xs ! k))" by blast
  then show "slot_find i (xs[k := v]) =
       (if cu_cb v \<noteq> 0 \<and> i = cu_id v then Some (cu_cb v, cu_ctx v)
        else if k \<in> used_slots xs \<and> i = cu_id (xs ! k) then None else slot_find i xs)"
  proof cases
    case new
    then have "k \<in> used_slots (xs[k := v])" using used by simp
    from slot_find_at [OF ok' this] show ?thesis using new k by simp
  next
    case old
    have "cu_id (xs[k := v] ! j) \<noteq> i" if j: "j \<in> used_slots (xs[k := v])" for j
    proof (cases "j = k")
      case True
      then show ?thesis using j used old(1) k by (auto split: if_splits)
    next
      case False
      then have "j \<in> used_slots xs" using j used by (auto split: if_splits)
      then show ?thesis using False inj_onD [OF inj, of j k] old(2,3) by (auto simp: nth_list_update)
    qed
    then have "slot_find i (xs[k := v]) = None" by (simp add: slot_find_none)
    then show ?thesis using old by (metis (full_types))
  next
    case other
    have "slot_find i (xs[k := v]) = slot_find i xs"
    proof (rule slot_find_cong [OF ok ok'])
      fix j assume "j \<in> used_slots xs" "cu_id (xs ! j) = i"
      then show "j \<in> used_slots (xs[k := v]) \<and> xs[k := v] ! j = xs ! j"
        using other used k by (auto simp: nth_list_update)
    next
      fix j assume "j \<in> used_slots (xs[k := v])" "cu_id (xs[k := v] ! j) = i"
      then show "j \<in> used_slots xs \<and> xs[k := v] ! j = xs ! j"
        using other used k by (auto simp: nth_list_update split: if_splits)
    qed
    then show ?thesis using other by auto
  qed
qed

lemma slot_reg_found:
  assumes ok: "slots_ok xs" and i: "i \<noteq> - 1" and k: "first_slot (\<lambda>s. cu_id s = i) xs = Some k"
  shows "slots_ok (slot_reg (i, cb, ctx) xs) \<and>
    (\<lambda>j. slot_find j (slot_reg (i, cb, ctx) xs)) = map_register (length xs) (i, cb, ctx) (\<lambda>j. slot_find j xs)"
proof -
  have kl: "k < length xs" "cu_id (xs ! k) = i" using first_slot_SomeD [OF k] by simp_all
  then have ku: "k \<in> used_slots xs" using ok i by (auto simp: slots_ok_def used_slots_def)
  have fresh: "cu_id (xs ! j) \<noteq> i" if "j \<in> used_slots xs" "j \<noteq> k" for j
    using ok that ku kl(2) by (auto simp: slots_ok_def inj_on_def)
  have found: "slot_find i xs \<noteq> None" using ku kl(2) by (auto simp: slot_find_none)
  show ?thesis
  proof (cases "cb = 0")
    case True
    have e: "slot_reg (i, cb, ctx) xs = xs[k := empty_slot]" using i k True by (simp add: slot_reg_def)
    have "cu_id (xs ! j) \<noteq> cu_id empty_slot" if "j \<in> used_slots xs" for j
      using ok that by (auto simp: slots_ok_def used_slots_def empty_slot_def)
    then have "slots_ok (xs[k := empty_slot])" "\<And>j. slot_find j (xs[k := empty_slot]) = (if j = i then None else slot_find j xs)"
      using slot_update [OF ok kl(1), of empty_slot] ku kl(2) by (simp_all add: empty_slot_def)
    then show ?thesis unfolding e using True i by (auto simp: map_register_def)
  next
    case False
    let ?v = "(xs ! k)\<lparr>cu_cb := cb, cu_ctx := ctx\<rparr>"
    have e: "slot_reg (i, cb, ctx) xs = xs[k := ?v]" using i k False by (simp add: slot_reg_def)
    have "slots_ok (xs[k := ?v])" "\<And>j. slot_find j (xs[k := ?v]) = (if j = i then Some (cb, ctx) else slot_find j xs)"
      using slot_update [OF ok kl(1), of ?v] fresh kl(2) i False by simp_all
    then show ?thesis unfolding e using False i found by (auto simp: map_register_def)
  qed
qed

lemma slot_reg_new:
  assumes ok: "slots_ok xs" and i: "i \<noteq> - 1" and n: "first_slot (\<lambda>s. cu_id s = i) xs = None"
  shows "slots_ok (slot_reg (i, cb, ctx) xs) \<and>
    (\<lambda>j. slot_find j (slot_reg (i, cb, ctx) xs)) = map_register (length xs) (i, cb, ctx) (\<lambda>j. slot_find j xs)"
proof -
  have no: "cu_id (xs ! j) \<noteq> i" if "j < length xs" for j using n that by (simp add: first_slot_None)
  then have none: "slot_find i xs = None" by (simp add: slot_find_none used_slots_def)
  have room: "card (dom (\<lambda>j. slot_find j xs)) < length xs \<longleftrightarrow> (\<exists>k<length xs. cu_cb (xs ! k) = 0)"
    using card_used(2) [of xs] card_dom_slot_find [OF ok] by simp
  consider (remove) "cb = 0" | (full) "cb \<noteq> 0" "first_slot (\<lambda>s. cu_cb s = 0) xs = None"
    | (add) k where "cb \<noteq> 0" "first_slot (\<lambda>s. cu_cb s = 0) xs = Some k" by (cases "first_slot (\<lambda>s. cu_cb s = 0) xs") auto
  then show ?thesis
  proof cases
    case remove
    then show ?thesis using ok i n none by (simp add: slot_reg_def map_register_def fun_upd_idem)
  next
    case full
    then have "\<not> (\<exists>k<length xs. cu_cb (xs ! k) = 0)" by (simp add: first_slot_None all_set_conv_all_nth)
    then have "\<not> card (dom (\<lambda>j. slot_find j xs)) < length xs" using room by blast
    then show ?thesis using ok i n none full by (simp add: slot_reg_def map_register_def)
  next
    case add
    let ?v = "\<lparr>cu_id = i, cu_cb = cb, cu_ctx = ctx\<rparr>"
    have k: "k < length xs" "cu_cb (xs ! k) = 0" using first_slot_SomeD [OF add(2)] by simp_all
    have e: "slot_reg (i, cb, ctx) xs = xs[k := ?v]" using i n add by (simp add: slot_reg_def)
    have "slots_ok (xs[k := ?v])" "\<And>j. slot_find j (xs[k := ?v]) = (if j = i then Some (cb, ctx) else slot_find j xs)"
      using slot_update [OF ok k(1), of ?v] no k i add(1) by (simp_all add: used_slots_def)
    moreover have "card (dom (\<lambda>j. slot_find j xs)) < length xs" using room k by blast
    ultimately show ?thesis using add(1) i by (auto simp: e map_register_def)
  qed
qed

lemma slot_reg_correct:
  assumes "slots_ok xs"
  shows "slots_ok (slot_reg op xs)"
    "(\<lambda>j. slot_find j (slot_reg op xs)) = map_register (length xs) op (\<lambda>j. slot_find j xs)"
proof -
  obtain i cb ctx where op: "op = (i, cb, ctx)" by (cases op)
  have "slots_ok (slot_reg op xs) \<and>
      (\<lambda>j. slot_find j (slot_reg op xs)) = map_register (length xs) op (\<lambda>j. slot_find j xs)"
  proof (cases "i = - 1")
    case True
    then show ?thesis using assms op by (simp add: slot_reg_def map_register_def)
  next
    case False
    then show ?thesis
      using slot_reg_found [OF assms False] slot_reg_new [OF assms False] op
      by (cases "first_slot (\<lambda>s. cu_id s = i) xs") auto
  qed
  then show "slots_ok (slot_reg op xs)"
    "(\<lambda>j. slot_find j (slot_reg op xs)) = map_register (length xs) op (\<lambda>j. slot_find j xs)" by blast+
qed

lemma slot_reg_length [simp]: "length (slot_reg op xs) = length xs"
  by (cases op) (auto simp: slot_reg_def split: option.splits)

text \<open>Both registrations, when the mutex works, make that transition.\<close>

definition reg_valid_state :: "custom_reg \<Rightarrow> bool" where
  "reg_valid_state r = slots_ok (cr_slots r)"

definition slave_register :: "reg_op \<Rightarrow> custom_reg \<Rightarrow> custom_reg" where
  "slave_register = (\<lambda>(i, cb, ctx) r. snd (esp_hosted_register_custom_callback True True i cb ctx r))"

definition host_register :: "reg_op \<Rightarrow> custom_reg \<Rightarrow> custom_reg" where
  "host_register = (\<lambda>(i, cb, ctx) r. snd (rpc_evt_register_custom_callback True i cb ctx r))"

lemma slave_register_slots: "cr_slots (slave_register op r) = slot_reg op (cr_slots r)"
  by (cases op)
    (auto simp: slave_register_def esp_hosted_register_custom_callback_def slot_reg_def Let_def split: option.splits)

lemma host_register_slots: "cr_slots (host_register op r) = slot_reg op (cr_slots r)"
  by (cases op)
    (auto simp: host_register_def rpc_evt_register_custom_callback_def slot_reg_def Let_def split: option.splits)

lemma find_callback_slots: "find_callback i r = slot_find i (cr_slots r)"
  by (simp add: find_callback_def slot_find_def)

lemmas registry_facts = reg_valid_state_def slave_register_slots host_register_slots find_callback_slots
  slot_reg_correct card_dom_slot_find card_used(1)

interpretation slave_table: message_registry reg_valid_state "\<lambda>r. length (cr_slots r)" slave_register find_callback
  by unfold_locales (simp_all add: registry_facts)

interpretation host_table: message_registry reg_valid_state "\<lambda>r. length (cr_slots r)" host_register find_callback
  by unfold_locales (simp_all add: registry_facts)

section \<open>Properties\<close>

lemma custom_reg_init_valid: "reg_valid_state (custom_reg_init n)"
proof -
  have "used_slots (replicate n empty_slot) = {}" by (auto simp: used_slots_def empty_slot_def)
  then show ?thesis by (simp add: reg_valid_state_def custom_reg_init_def slots_ok_def empty_slot_def)
qed

lemma custom_reg_init_find: "(\<lambda>i. find_callback i (custom_reg_init n)) = Map.empty"
proof
  fix i
  have "first_slot (\<lambda>s. cu_id s = i \<and> cu_cb s \<noteq> 0) (replicate n empty_slot) = None"
    by (simp add: first_slot_None empty_slot_def)
  then show "find_callback i (custom_reg_init n) = None"
    by (simp add: find_callback_def custom_reg_init_def)
qed

lemma custom_reg_init_length [simp]: "length (cr_slots (custom_reg_init n)) = n"
  by (simp add: custom_reg_init_def)

text \<open>While the mutex does not exist nothing has been registered.\<close>

definition unlocked_empty :: "custom_reg \<Rightarrow> bool" where
  "unlocked_empty r = (cr_mutex r \<or> (\<forall>i. find_callback i r = None))"

lemma slave_unlocked: "unlocked_empty r \<Longrightarrow> unlocked_empty (slave_register op r)"
  by (cases op) (auto simp: unlocked_empty_def slave_register_def esp_hosted_register_custom_callback_def Let_def
      split: option.splits)

lemma host_unlocked: "unlocked_empty r \<Longrightarrow> unlocked_empty (host_register op r)"
  by (cases op) (auto simp: unlocked_empty_def host_register_def rpc_evt_register_custom_callback_def Let_def
      split: option.splits)

lemma unlocked_fold:
  "unlocked_empty r \<Longrightarrow> unlocked_empty (fold slave_register ops r)"
  "unlocked_empty r \<Longrightarrow> unlocked_empty (fold host_register ops r)"
  by (induction ops arbitrary: r) (simp_all add: slave_unlocked host_unlocked)

lemma unlocked_find: "unlocked_empty r \<Longrightarrow> (if cr_mutex r then find_callback i r else None) = find_callback i r"
  by (auto simp: unlocked_empty_def)

lemma unlocked_init: "unlocked_empty (custom_reg_init n)"
  using custom_reg_init_find [of n] by (simp add: unlocked_empty_def fun_eq_iff)

text \<open>
  C29: after any sequence of registrations and removals on a table of \<open>n\<close> slots, both processors hand a message
  to exactly the callback and the context that a finite map of capacity \<open>n\<close> has for its identifier, and to
  none if the map has none.
\<close>
theorem custom_registry_refines_map:
  "handle_custom_rpc_request True i d (fold slave_register ops (custom_reg_init n)) =
     (if i = - 1 then (ESP_ERR_INVALID_ARG, None)
      else case fold (map_register n) ops Map.empty i of
          Some (cb, ctx) \<Rightarrow> (ESP_OK, Some (cb, i, d, ctx))
        | None \<Rightarrow> (ESP_ERR_NOT_FOUND, None)) \<and>
   rpc_parse_custom_evt (Some \<lparr>ce_id = i, ce_resp = x, ce_data = d\<rparr>) (fold host_register ops (custom_reg_init n)) =
     (H_OK, x, map_option (\<lambda>(cb, ctx). (cb, i, d, ctx)) (fold (map_register n) ops Map.empty i))"
proof
  let ?s = "fold slave_register ops (custom_reg_init n)" and ?h = "fold host_register ops (custom_reg_init n)"
  have fs: "find_callback i ?s = fold (map_register n) ops Map.empty i"
    using slave_table.regs_find [OF custom_reg_init_valid [of n], of ops] by (simp add: custom_reg_init_find fun_eq_iff)
  have fh: "find_callback i ?h = fold (map_register n) ops Map.empty i"
    using host_table.regs_find [OF custom_reg_init_valid [of n], of ops] by (simp add: custom_reg_init_find fun_eq_iff)
  have "(if cr_mutex ?s then find_callback i ?s else None) = find_callback i ?s"
    by (intro unlocked_find unlocked_fold unlocked_init)
  then show "handle_custom_rpc_request True i d ?s =
     (if i = - 1 then (ESP_ERR_INVALID_ARG, None)
      else case fold (map_register n) ops Map.empty i of
          Some (cb, ctx) \<Rightarrow> (ESP_OK, Some (cb, i, d, ctx))
        | None \<Rightarrow> (ESP_ERR_NOT_FOUND, None))"
    by (simp add: handle_custom_rpc_request_def fs)
  have g: "(if cr_mutex ?h then find_callback i ?h else None) = fold (map_register n) ops Map.empty i"
    by (rule trans [OF _ fh]) (intro unlocked_find unlocked_fold unlocked_init)
  show "rpc_parse_custom_evt (Some \<lparr>ce_id = i, ce_resp = x, ce_data = d\<rparr>) ?h =
     (H_OK, x, map_option (\<lambda>(cb, ctx). (cb, i, d, ctx)) (fold (map_register n) ops Map.empty i))"
    by (simp only: rpc_parse_custom_evt_def option.case custom_evt.simps g)
qed

text \<open>
  A message the co-processor's application sends, of 1 to 8166 octets, becomes an event from which the
  host calls the callback registered for its identifier with exactly those octets; an empty message likewise
  without data. When the event cannot copy its data, the callback is called all the same, with none.
\<close>
lemma custom_message_delivered:
  assumes "i \<noteq> - 1" "d \<noteq> []" "length d \<le> 8166" "cr_mutex r" "find_callback i r = Some (cb, ctx)"
  shows "\<exists>ev e e0 e1. esp_hosted_send_custom_data True i (Some d) (length d) = (ESP_OK, Some ev) \<and>
    rpc_evt_custom_rpc True True ev = Some (ESP_OK, Some e) \<and>
    rpc_parse_custom_evt (Some e) r = (H_OK, 0, Some (cb, i, d, ctx)) \<and>
    rpc_evt_custom_rpc True False ev = Some (ESP_OK, Some e1) \<and>
    rpc_parse_custom_evt (Some e1) r = (H_OK, - 1, Some (cb, i, [], ctx)) \<and>
    Option.bind (snd (esp_hosted_send_custom_data True i None 0)) (rpc_evt_custom_rpc True True) = Some (ESP_OK, Some e0) \<and>
    rpc_parse_custom_evt (Some e0) r = (H_OK, 0, Some (cb, i, [], ctx))"
proof -
  obtain b0 b1 b2 b3 where b: "le32_bytes i = [b0, b1, b2, b3]" by (simp add: le32_bytes_def)
  then have i: "le32 b0 b1 b2 b3 = i" by (rule le32_le32_bytes)
  let ?ev = "[b0, b1, b2, b3] @ d" and ?e = "\<lparr>ce_id = i, ce_resp = 0, ce_data = d\<rparr>"
  have "esp_hosted_send_custom_data True i (Some d) (length d) = (ESP_OK, Some ?ev)"
    "snd (esp_hosted_send_custom_data True i None 0) = Some [b0, b1, b2, b3]"
    using assms(2,3) b by (simp_all add: esp_hosted_send_custom_data_def)
  moreover have "rpc_evt_custom_rpc True True ?ev = Some (ESP_OK, Some ?e)"
    "rpc_evt_custom_rpc True False ?ev = Some (ESP_OK, Some (?e\<lparr>ce_resp := - 1, ce_data := []\<rparr>))"
    "rpc_evt_custom_rpc True True [b0, b1, b2, b3] = Some (ESP_OK, Some (?e\<lparr>ce_data := []\<rparr>))"
    using assms(2) i by (simp_all add: rpc_evt_custom_rpc_def Let_def)
  ultimately show ?thesis
    using assms(4,5) by (simp add: rpc_parse_custom_evt_def)
qed

end
