(* ===== verification/Slave_Monitor.thy ===== *)
theory Slave_Monitor
  imports Serial_Tlv
begin

text \<open>
  The periodic services of the co-processor that the host configures (\<open>src/slave/main/slave_control.c\<close>): the
  heartbeat (\<open>configure_heartbeat\<close> and its parts) and the memory monitor (\<open>mem_monitor_check_params\<close>,
  \<open>mem_monitor_setup\<close>, \<open>mem_monitor_timer_cb\<close>). Each keeps one software timer of FreeRTOS in a global
  handle.

  The timers that exist are a map from handles to their period and whether they are active; \<open>0\<close> is the null
  handle. What the timer library answers is an argument; \<open>None\<close> as a result is the use of a timer that does
  not exist. The locale \<open>timer_service\<close> states what a service keeps of its timers.
\<close>

type_synonym timers = "nat \<Rightarrow> (nat \<times> bool) option"

definition timer_active :: "nat \<Rightarrow> timers \<Rightarrow> bool" where
  "timer_active h ts = (case ts h of None \<Rightarrow> False | Some (p, a) \<Rightarrow> a)"

section \<open>Heartbeat\<close>

record heartbeat =
  hb_handle :: nat
  hb_num :: u32
  hb_timers :: timers

abbreviation (input) MIN_HEARTBEAT_INTERVAL :: int where "MIN_HEARTBEAT_INTERVAL \<equiv> 1"
abbreviation (input) MAX_HEARTBEAT_INTERVAL :: int where "MAX_HEARTBEAT_INTERVAL \<equiv> 24 * 60 * 60"

text \<open>The callback counts; the event carries the number before it is counted.\<close>

definition heartbeat_timer_cb :: "heartbeat \<Rightarrow> u32 \<times> heartbeat" where
  "heartbeat_timer_cb st = (hb_num st, st\<lparr>hb_num := hb_num st + 1\<rparr>)"

definition stop_heartbeat :: "heartbeat \<Rightarrow> heartbeat option" where
  "stop_heartbeat st =
     (if hb_handle st \<noteq> 0 then
        (case hb_timers st (hb_handle st) of
           None \<Rightarrow> None
         | Some (p, a) \<Rightarrow>
             if a then Some (st\<lparr>hb_timers := (hb_timers st)(hb_handle st := None), hb_handle := 0, hb_num := 0\<rparr>)
             else Some (st\<lparr>hb_num := 0\<rparr>))
      else Some (st\<lparr>hb_num := 0\<rparr>))"

text \<open>\<open>h\<close>: the handle \<open>xTimerCreate\<close> returns; \<open>ok\<close>: the timer can be started; \<open>tick\<close>: \<open>TIMEOUT_IN_SEC\<close>.\<close>

definition start_heartbeat :: "nat \<Rightarrow> nat \<Rightarrow> bool \<Rightarrow> int \<Rightarrow> heartbeat \<Rightarrow> esp_err \<times> heartbeat" where
  "start_heartbeat tick h ok duration st =
     (let st = st\<lparr>hb_handle := h\<rparr> in
      if h = 0 then (ESP_FAIL, st)
      else
        let st = st\<lparr>hb_timers := (hb_timers st)(h \<mapsto> (nat duration * tick, ok))\<rparr> in
        if \<not> ok then (ESP_FAIL, st) else (ESP_OK, st))"

definition configure_heartbeat ::
  "nat \<Rightarrow> nat \<Rightarrow> bool \<Rightarrow> bool \<Rightarrow> int \<Rightarrow> heartbeat \<Rightarrow> (esp_err \<times> heartbeat) option" where
  "configure_heartbeat tick h ok enable duration st =
     (if \<not> enable then map_option (\<lambda>st. (ESP_OK, st)) (stop_heartbeat st)
      else if duration < MIN_HEARTBEAT_INTERVAL \<or> duration > MAX_HEARTBEAT_INTERVAL then Some (ESP_ERR_INVALID_ARG, st)
      else map_option (start_heartbeat tick h ok duration) (stop_heartbeat st))"

section \<open>Memory monitor\<close>

record mem_params =
  internal_mem_dma :: u32
  internal_mem_8bit :: u32
  external_mem_dma :: u32
  external_mem_8bit :: u32

datatype mem_config = MEMMONITOR_NO_CHANGE | MEMMONITOR_DISABLE | MEMMONITOR_ENABLE

text \<open>The request: the thresholds for internal and external memory, \<open>None\<close> when the message has none.\<close>

record mem_req =
  mr_config :: mem_config
  mr_report_always :: bool
  mr_interval :: u32
  mr_internal :: "(u32 \<times> u32) option"
  mr_external :: "(u32 \<times> u32) option"

record mem_monitor =
  mm_handle :: nat
  mm_params :: mem_params
  mm_report_always :: bool
  mm_interval :: u32
  mm_timers :: timers

definition mem_monitor_check_params :: "mem_req \<Rightarrow> esp_err" where
  "mem_monitor_check_params req =
     (case (mr_internal req, mr_external req) of
        (Some (idma, i8), Some (edma, e8)) \<Rightarrow>
          if mr_config req = MEMMONITOR_ENABLE then
            (if mr_interval req = 0 then ESP_ERR_INVALID_ARG
             else if \<not> mr_report_always req \<and> idma = 0 \<and> i8 = 0 \<and> edma = 0 \<and> e8 = 0 then ESP_ERR_INVALID_ARG
             else ESP_OK)
          else ESP_OK
      | _ \<Rightarrow> ESP_ERR_INVALID_ARG)"

text \<open>The first part of \<open>mem_monitor_setup\<close>: the present timer goes when the monitor is disabled or enabled again.\<close>

definition mem_monitor_stop :: "mem_monitor \<Rightarrow> mem_monitor option" where
  "mem_monitor_stop st =
     (if mm_handle st = 0 then Some st
      else case mm_timers st (mm_handle st) of
          None \<Rightarrow> None
        | Some _ \<Rightarrow> Some (st\<lparr>mm_timers := (mm_timers st)(mm_handle st := None), mm_handle := 0\<rparr>))"

text \<open>\<open>ticks\<close>: \<open>pdMS_TO_TICKS\<close>, applied to the wrapped product; \<open>h\<close>, \<open>ok\<close> as above.\<close>

definition mem_monitor_setup ::
  "(u32 \<Rightarrow> nat) \<Rightarrow> nat \<Rightarrow> bool \<Rightarrow> mem_req \<Rightarrow> mem_monitor \<Rightarrow> (esp_err \<times> mem_monitor) option" where
  "mem_monitor_setup ticks h ok req st =
     (if mr_config req = MEMMONITOR_NO_CHANGE then Some (ESP_OK, st)
      else case mem_monitor_stop st of
          None \<Rightarrow> None
        | Some st \<Rightarrow>
            if mr_config req = MEMMONITOR_DISABLE then Some (ESP_OK, st)
            else (case (mr_internal req, mr_external req) of
                (Some (idma, i8), Some (edma, e8)) \<Rightarrow>
                  let st = st\<lparr>mm_params := \<lparr>internal_mem_dma = idma, internal_mem_8bit = i8,
                                external_mem_dma = edma, external_mem_8bit = e8\<rparr>,
                              mm_report_always := mr_report_always req, mm_interval := mr_interval req, mm_handle := h\<rparr> in
                  if h = 0 then Some (ESP_FAIL, st)
                  else if \<not> ok then Some (ESP_FAIL, st\<lparr>mm_handle := 0\<rparr>)
                  else Some (ESP_OK, st\<lparr>mm_timers := (mm_timers st)(h \<mapsto> (ticks (mr_interval req * 1000), True))\<rparr>)
              | _ \<Rightarrow> None))"

text \<open>The handler checks and then sets up; the result is the \<open>resp\<close> field.\<close>

definition req_mem_monitor ::
  "(u32 \<Rightarrow> nat) \<Rightarrow> nat \<Rightarrow> bool \<Rightarrow> mem_req \<Rightarrow> mem_monitor \<Rightarrow> (esp_err \<times> mem_monitor) option" where
  "req_mem_monitor ticks h ok req st =
     (if mem_monitor_check_params req \<noteq> ESP_OK then Some (mem_monitor_check_params req, st)
      else mem_monitor_setup ticks h ok req st)"

text \<open>\<open>spiram\<close>: external memory is enabled. The result says whether an event is sent.\<close>

definition mem_monitor_timer_cb :: "bool \<Rightarrow> mem_params \<Rightarrow> mem_monitor \<Rightarrow> bool" where
  "mem_monitor_timer_cb spiram cur st =
     (let thr = mm_params st;
          low = (internal_mem_dma cur < internal_mem_dma thr \<or> internal_mem_8bit cur < internal_mem_8bit thr);
          ext = (external_mem_dma cur < external_mem_dma thr \<or> external_mem_8bit cur < external_mem_8bit thr)
      in (low \<or> (spiram \<and> ext)) \<or> mm_report_always st)"

section \<open>What a service keeps of its timers\<close>

text \<open>Only the timer of the handle can be active, and the handle names a timer that exists.\<close>

definition one_timer :: "nat \<Rightarrow> timers \<Rightarrow> bool" where
  "one_timer h ts = ((\<forall>k. timer_active k ts \<longrightarrow> k = h) \<and> (h \<noteq> 0 \<longrightarrow> ts h \<noteq> None) \<and> ts 0 = None)"

text \<open>A service that also leaves nothing behind: no other timer exists.\<close>

definition sole_timer :: "nat \<Rightarrow> timers \<Rightarrow> bool" where
  "sole_timer h ts = ((\<forall>k. ts k \<noteq> None \<longrightarrow> k = h) \<and> (h \<noteq> 0 \<longrightarrow> ts h \<noteq> None) \<and> ts 0 = None)"

text \<open>The requests of a run, each with the answers of the timer library, and the state they lead to.\<close>

fun run_confs :: "('q \<Rightarrow> 's \<Rightarrow> ('e \<times> 's) option) \<Rightarrow> 'q list \<Rightarrow> 's \<Rightarrow> 's option" where
  "run_confs conf [] s = Some s"
| "run_confs conf (q # qs) s = (case conf q s of None \<Rightarrow> None | Some (e, s') \<Rightarrow> run_confs conf qs s')"

text \<open>The contract of the timer library: a new timer gets the handle of no timer that exists.\<close>

fun fresh_confs :: "('q \<Rightarrow> 's \<Rightarrow> ('e \<times> 's) option) \<Rightarrow> ('q \<Rightarrow> nat) \<Rightarrow> ('s \<Rightarrow> timers) \<Rightarrow> 'q list \<Rightarrow> 's \<Rightarrow> bool" where
  "fresh_confs conf new tms [] s = True"
| "fresh_confs conf new tms (q # qs) s =
     (tms s (new q) = None \<and> (case conf q s of None \<Rightarrow> True | Some (e, s') \<Rightarrow> fresh_confs conf new tms qs s'))"

locale timer_service =
  fixes good :: "nat \<Rightarrow> timers \<Rightarrow> bool"
    and conf :: "'q \<Rightarrow> 's \<Rightarrow> ('e \<times> 's) option"
    and new :: "'q \<Rightarrow> nat"
    and handle :: "'s \<Rightarrow> nat"
    and tms :: "'s \<Rightarrow> timers"
  assumes conf_total: "good (handle s) (tms s) \<Longrightarrow> conf q s \<noteq> None"
    and conf_keeps: "good (handle s) (tms s) \<Longrightarrow> tms s (new q) = None \<Longrightarrow> conf q s = Some (e, s') \<Longrightarrow>
      good (handle s') (tms s')"
begin

lemma confs_keep:
  "good (handle s) (tms s) \<Longrightarrow> fresh_confs conf new tms qs s \<Longrightarrow>
     \<exists>s'. run_confs conf qs s = Some s' \<and> good (handle s') (tms s')"
proof (induction qs arbitrary: s)
  case Nil
  then show ?case by simp
next
  case (Cons q qs)
  obtain e s1 where c: "conf q s = Some (e, s1)" using conf_total [OF Cons.prems(1), of q] by auto
  have "good (handle s1) (tms s1)" using conf_keeps [OF Cons.prems(1) _ c] Cons.prems(2) by simp
  then show ?case using Cons.IH [of s1] Cons.prems(2) c by simp
qed

end

text \<open>A heartbeat request with the answers of the timer library.\<close>

record hb_req =
  hq_new :: nat
  hq_start :: bool
  hq_enable :: bool
  hq_duration :: int

definition hb_conf :: "nat \<Rightarrow> hb_req \<Rightarrow> heartbeat \<Rightarrow> (esp_err \<times> heartbeat) option" where
  "hb_conf tick q = configure_heartbeat tick (hq_new q) (hq_start q) (hq_enable q) (hq_duration q)"

definition mm_conf :: "(u32 \<Rightarrow> nat) \<Rightarrow> nat \<times> bool \<times> mem_req \<Rightarrow> mem_monitor \<Rightarrow> (esp_err \<times> mem_monitor) option" where
  "mm_conf ticks q = req_mem_monitor ticks (fst q) (fst (snd q)) (snd (snd q))"

lemma timer_active_upd [simp]:
  "timer_active k (ts(h := None)) = (k \<noteq> h \<and> timer_active k ts)"
  "timer_active k (ts(h \<mapsto> (p, a))) = (if k = h then a else timer_active k ts)"
  by (simp_all add: timer_active_def)

lemma stop_heartbeat_keeps:
  assumes "one_timer (hb_handle st) (hb_timers st)"
  obtains st' where "stop_heartbeat st = Some st'" "one_timer (hb_handle st') (hb_timers st')"
    "\<And>k. \<not> timer_active k (hb_timers st')" "\<And>k. hb_timers st k = None \<Longrightarrow> hb_timers st' k = None"
proof (cases "hb_timers st (hb_handle st)")
  case None
  then have h: "hb_handle st = 0" using assms by (auto simp: one_timer_def)
  then have "\<not> timer_active k (hb_timers st)" for k
    using assms None by (auto simp: one_timer_def timer_active_def)
  then show ?thesis using that [of "st\<lparr>hb_num := 0\<rparr>"] h assms by (simp add: stop_heartbeat_def)
next
  case (Some x)
  obtain p a where x: "x = (p, a)" by (cases x)
  have h: "hb_handle st \<noteq> 0" using assms Some by (intro notI) (simp add: one_timer_def)
  show ?thesis
  proof (cases a)
    case True
    show ?thesis
      by (rule that [of "st\<lparr>hb_timers := (hb_timers st)(hb_handle st := None), hb_handle := 0, hb_num := 0\<rparr>"])
        (use assms Some x h True in \<open>auto simp: stop_heartbeat_def one_timer_def\<close>)
  next
    case False
    have "\<not> timer_active k (hb_timers st)" for k
      using assms Some x False by (auto simp: one_timer_def timer_active_def)
    then show ?thesis using that [of "st\<lparr>hb_num := 0\<rparr>"] assms Some x h False by (simp add: stop_heartbeat_def)
  qed
qed

interpretation hb: timer_service one_timer "hb_conf tick" hq_new hb_handle hb_timers
proof unfold_locales
  fix s :: heartbeat and q assume o: "one_timer (hb_handle s) (hb_timers s)"
  obtain s1 where "stop_heartbeat s = Some s1" using o by (rule stop_heartbeat_keeps)
  then show "hb_conf tick q s \<noteq> None" by (simp add: hb_conf_def configure_heartbeat_def)
next
  fix s s' :: heartbeat and q e assume o: "one_timer (hb_handle s) (hb_timers s)" and f: "hb_timers s (hq_new q) = None"
    and c: "hb_conf tick q s = Some (e, s')"
  obtain s1 where s1: "stop_heartbeat s = Some s1" "one_timer (hb_handle s1) (hb_timers s1)"
      "\<And>k. \<not> timer_active k (hb_timers s1)" "\<And>k. hb_timers s k = None \<Longrightarrow> hb_timers s1 k = None"
    using o by (rule stop_heartbeat_keeps) blast
  show "one_timer (hb_handle s') (hb_timers s')"
    using c s1 o f
    by (auto simp: hb_conf_def configure_heartbeat_def start_heartbeat_def one_timer_def Let_def split: if_splits)
qed

lemma mem_monitor_stop_keeps:
  assumes "sole_timer (mm_handle st) (mm_timers st)"
  obtains st' where "mem_monitor_stop st = Some st'" "mm_handle st' = 0" "mm_timers st' = Map.empty"
proof -
  have none: "mm_timers st k = None" if "k \<noteq> mm_handle st" for k using assms that unfolding sole_timer_def by blast
  then have e: "(mm_timers st)(mm_handle st := None) = Map.empty" by (intro ext) simp
  show ?thesis
  proof (cases "mm_handle st = 0")
    case True
    have "mm_timers st k = None" for k using none [of k] assms True by (cases "k = 0") (simp_all add: sole_timer_def)
    then have "mm_timers st = Map.empty" by (intro ext)
    then show ?thesis using that [of st] True by (simp add: mem_monitor_stop_def)
  next
    case False
    then obtain x where "mm_timers st (mm_handle st) = Some x" using assms by (auto simp: sole_timer_def)
    then show ?thesis
      using that [of "st\<lparr>mm_timers := (mm_timers st)(mm_handle st := None), mm_handle := 0\<rparr>"] e False
      by (simp add: mem_monitor_stop_def)
  qed
qed

lemma checked_params:
  assumes "mem_monitor_check_params req = ESP_OK"
  obtains a b c d where "mr_internal req = Some (a, b)" "mr_external req = Some (c, d)"
  using assms by (auto simp: mem_monitor_check_params_def split: option.splits)

lemma mem_monitor_setup_sole:
  assumes "sole_timer (mm_handle st) (mm_timers st)" "mem_monitor_check_params req = ESP_OK"
  shows "\<exists>e st'. mem_monitor_setup ticks h ok req st = Some (e, st') \<and>
    sole_timer (mm_handle st') (mm_timers st')"
proof (cases "mr_config req")
  case MEMMONITOR_NO_CHANGE
  then show ?thesis using assms by (simp add: mem_monitor_setup_def)
next
  case MEMMONITOR_DISABLE
  obtain st1 where "mem_monitor_stop st = Some st1" "mm_handle st1 = 0" "mm_timers st1 = Map.empty"
    using assms(1) by (rule mem_monitor_stop_keeps)
  then show ?thesis using MEMMONITOR_DISABLE by (simp add: mem_monitor_setup_def sole_timer_def)
next
  case MEMMONITOR_ENABLE
  obtain st1 where "mem_monitor_stop st = Some st1" "mm_handle st1 = 0" "mm_timers st1 = Map.empty"
    using assms(1) by (rule mem_monitor_stop_keeps)
  moreover obtain a b c d where "mr_internal req = Some (a, b)" "mr_external req = Some (c, d)"
    using assms(2) by (rule checked_params)
  ultimately show ?thesis using MEMMONITOR_ENABLE by (simp add: mem_monitor_setup_def sole_timer_def Let_def ex_bool_eq)
qed

interpretation mm: timer_service sole_timer "mm_conf ticks" fst mm_handle mm_timers
proof unfold_locales
  fix s :: mem_monitor and q :: "nat \<times> bool \<times> mem_req" assume o: "sole_timer (mm_handle s) (mm_timers s)"
  show "mm_conf ticks q s \<noteq> None"
    using mem_monitor_setup_sole [OF o, of "snd (snd q)" ticks "fst q" "fst (snd q)"]
    by (auto simp: mm_conf_def req_mem_monitor_def)
next
  fix s s' :: mem_monitor and q :: "nat \<times> bool \<times> mem_req" and e
  assume o: "sole_timer (mm_handle s) (mm_timers s)" and c: "mm_conf ticks q s = Some (e, s')"
  show "sole_timer (mm_handle s') (mm_timers s')"
    using mem_monitor_setup_sole [OF o, of "snd (snd q)" ticks "fst q" "fst (snd q)"] o c
    by (auto simp: mm_conf_def req_mem_monitor_def split: if_splits)
qed

section \<open>Properties\<close>

text \<open>
  Whatever sequence of requests the host sends, and whether or not timers can be created and started, both
  services answer every request, at most one heartbeat timer is active, and it is the one the handle names; the
  memory monitor moreover never leaves another timer behind.
\<close>
lemma timer_services_keep_one_timer:
  assumes "one_timer (hb_handle h0) (hb_timers h0)" "fresh_confs (hb_conf tick) hq_new hb_timers qs h0"
    and "sole_timer (mm_handle m0) (mm_timers m0)" "fresh_confs (mm_conf ticks) fst mm_timers rs m0"
  shows "\<exists>h m. run_confs (hb_conf tick) qs h0 = Some h \<and> (\<forall>k. timer_active k (hb_timers h) \<longrightarrow> k = hb_handle h) \<and>
    run_confs (mm_conf ticks) rs m0 = Some m \<and> (\<forall>k. mm_timers m k \<noteq> None \<longrightarrow> k = mm_handle m)"
proof -
  obtain h where "run_confs (hb_conf tick) qs h0 = Some h" "one_timer (hb_handle h) (hb_timers h)"
    using hb.confs_keep [OF assms(1,2)] by blast
  moreover obtain m where "run_confs (mm_conf ticks) rs m0 = Some m" "sole_timer (mm_handle m) (mm_timers m)"
    using mm.confs_keep [OF assms(3,4)] by blast
  ultimately show ?thesis by (auto simp: one_timer_def sole_timer_def)
qed

definition hb_init :: heartbeat where
  "hb_init = \<lparr>hb_handle = 0, hb_num = 0, hb_timers = Map.empty\<rparr>"

definition mm_init :: mem_monitor where
  "mm_init = \<lparr>mm_handle = 0, mm_params = \<lparr>internal_mem_dma = 0, internal_mem_8bit = 0, external_mem_dma = 0, external_mem_8bit = 0\<rparr>,
     mm_report_always = False, mm_interval = 0, mm_timers = Map.empty\<rparr>"

lemmas service_init = hb_init_def mm_init_def one_timer_def sole_timer_def timer_active_def

definition hb_demo :: "hb_req list" where
  "hb_demo = [\<lparr>hq_new = 4, hq_start = True, hq_enable = True, hq_duration = 30\<rparr>,
     \<lparr>hq_new = 5, hq_start = True, hq_enable = True, hq_duration = 10\<rparr>]"

text \<open>A heartbeat timer that cannot be started is forgotten by the next request, not deleted.\<close>

lemma heartbeat_start_failure_leaks:
  assumes "h1 \<noteq> h2" "h1 \<noteq> 0"
  shows "\<exists>h. run_confs (hb_conf tick) [\<lparr>hq_new = h1, hq_start = False, hq_enable = True, hq_duration = 30\<rparr>,
      \<lparr>hq_new = h2, hq_start = True, hq_enable = True, hq_duration = 30\<rparr>] hb_init = Some h \<and>
    hb_handle h = h2 \<and> hb_timers h h1 \<noteq> None"
  using assms
  by (simp add: hb_init_def hb_conf_def configure_heartbeat_def start_heartbeat_def stop_heartbeat_def Let_def ex_bool_eq)

text \<open>An interval that is a multiple of \<open>2 ^ 29\<close> seconds passes the check and asks for a timer with period 0.\<close>

lemma mem_monitor_interval_wraps:
  "mem_monitor_check_params \<lparr>mr_config = MEMMONITOR_ENABLE, mr_report_always = True, mr_interval = 536870912,
     mr_internal = Some (0, 0), mr_external = Some (0, 0)\<rparr> = ESP_OK \<and> (536870912 * 1000 :: u32) = 0"
  by (simp add: mem_monitor_check_params_def)

end
