(* ===== verification/Slave_Wifi_Rx.thy ===== *)
theory Slave_Wifi_Rx
  imports Slave_Core Nw_Split "HOL-Library.Multiset"
begin

text \<open>
  The receive callbacks of the co-processor's Wi-Fi driver (\<open>wlan_ap_rx_callback\<close>, \<open>wlan_sta_rx_callback\<close> in
  \<open>src/slave/main/esp_hosted_coprocessor.c\<close>): the router decides whether a frame goes to the local network
  stack, to the host or to both, and the buffer of the driver changes owner accordingly.

  Buffers are addresses: \<open>eb\<close> is the driver's, \<open>copy\<close> the one \<open>malloc\<close> returns (\<open>0\<close>: it fails, and the assertion
  stops the program). \<open>wr_netif\<close> records what the local stack is given; it releases the buffer itself. \<open>None\<close>
  stands for a failed assertion, and for a read of the router outside the frame.
\<close>

section \<open>Callbacks\<close>

record wifi_rx =
  wr_core :: slave_core
  wr_ns :: nw_split
  wr_netif :: "(bytes \<times> nat) list"

definition free_rx_buffer :: "nat \<Rightarrow> slave_core \<Rightarrow> slave_core" where
  "free_rx_buffer eb st = (if eb \<noteq> 0 then st\<lparr>sc_frees := sc_frees st @ [eb]\<rparr> else st)"

definition populate_buff_handle :: "u8 \<Rightarrow> bytes \<Rightarrow> nat \<Rightarrow> interface_buffer_handle" where
  "populate_buff_handle if_type d priv =
     zero_handle\<lparr>bh_if_type := if_type, bh_payload := Some d, bh_payload_len := of_nat (length d),
       bh_priv := priv, bh_free := True, bh_flag := 0, bh_if_num := 0, bh_seq_num := 0\<rparr>"

definition wlan_ap_rx_callback ::
  "(interface_buffer_handle \<Rightarrow> slave_core \<Rightarrow> slave_core) \<Rightarrow> bytes option \<Rightarrow> nat \<Rightarrow> slave_core \<Rightarrow> slave_core" where
  "wlan_ap_rx_callback send buffer eb st =
     (case buffer of
        None \<Rightarrow> free_rx_buffer eb st
      | Some d \<Rightarrow>
          if eb = 0 \<or> \<not> sc_datapath st then free_rx_buffer eb st
          else send (populate_buff_handle (if_code ESP_AP_IF) d eb) st)"

text \<open>\<open>netif\<close>: the interface of the local stack exists.\<close>

definition netif_receive :: "bool \<Rightarrow> bytes \<Rightarrow> nat \<Rightarrow> wifi_rx \<Rightarrow> wifi_rx" where
  "netif_receive netif d eb w =
     (if \<not> netif then w\<lparr>wr_core := free_rx_buffer eb (wr_core w)\<rparr>
      else w\<lparr>wr_netif := wr_netif w @ [(d, eb)]\<rparr>)"

definition wlan_sta_rx_callback ::
  "route_env \<Rightarrow> bool \<Rightarrow> nat \<Rightarrow> (interface_buffer_handle \<Rightarrow> slave_core \<Rightarrow> slave_core) \<Rightarrow> bytes option \<Rightarrow> nat \<Rightarrow>
     wifi_rx \<Rightarrow> wifi_rx option" where
  "wlan_sta_rx_callback e netif copy send buffer eb w =
     (if buffer = None \<or> eb = 0 then Some (w\<lparr>wr_core := free_rx_buffer eb (wr_core w)\<rparr>)
      else
        let d = the buffer in
        case nw_split_filter_and_route_packet e d (wr_ns w) of
          None \<Rightarrow> None
        | Some (bridge, ns) \<Rightarrow>
            let w = w\<lparr>wr_ns := ns\<rparr> in
            (case bridge of
               HOST_LWIP_BRIDGE \<Rightarrow>
                 if \<not> sc_datapath (wr_core w) then Some (w\<lparr>wr_core := free_rx_buffer eb (wr_core w)\<rparr>)
                 else Some (w\<lparr>wr_core := send (populate_buff_handle (if_code ESP_STA_IF) d eb) (wr_core w)\<rparr>)
             | SLAVE_LWIP_BRIDGE \<Rightarrow> Some (netif_receive netif d eb w)
             | BOTH_LWIP_BRIDGE \<Rightarrow>
                 if copy = 0 then None
                 else
                   let w = netif_receive netif d eb w in
                   Some (w\<lparr>wr_core := send (populate_buff_handle (if_code ESP_STA_IF) d copy) (wr_core w)\<rparr>)
             | INVALID_BRIDGE \<Rightarrow> Some (w\<lparr>wr_core := free_rx_buffer eb (wr_core w)\<rparr>)))"

section \<open>Lemmas\<close>

text \<open>What the bus is given for a packet, and the release of its buffer.\<close>

definition bus_packets ::
  "bool \<Rightarrow> bool \<Rightarrow> (interface_buffer_handle \<Rightarrow> bool) \<Rightarrow> bool \<Rightarrow> interface_buffer_handle \<Rightarrow> slave_core \<Rightarrow> interface_buffer_handle list" where
  "bus_packets ready ps needed awake bh st =
     (if \<not> sc_datapath st \<or> \<not> ready then []
      else if ps \<and> needed bh then (if awake then [bh\<lparr>bh_flag := bh_flag bh OR FLAG_WAKEUP_PKT\<rparr>] else [])
      else [bh])"

lemma send_populated:
  assumes "b \<noteq> 0"
  shows "sc_written (send_to_host_queue ready ps needed awake (populate_buff_handle t d b) st) =
      sc_written st @ bus_packets ready ps needed awake (populate_buff_handle t d b) st"
    "sc_frees (send_to_host_queue ready ps needed awake (populate_buff_handle t d b) st) = sc_frees st @ [b]"
  using assms
  by (simp_all add: send_to_host_queue_def process_tx_pkt_def bus_packets_def free_handle_def populate_buff_handle_def Let_def)

lemma free_rx_fields [simp]:
  "sc_datapath (free_rx_buffer eb st) = sc_datapath st" "sc_written (free_rx_buffer eb st) = sc_written st"
  "eb \<noteq> 0 \<Longrightarrow> sc_frees (free_rx_buffer eb st) = sc_frees st @ [eb]"
  by (simp_all add: free_rx_buffer_def)

lemma bus_packets_cong: "sc_datapath s = sc_datapath t \<Longrightarrow> bus_packets ready ps needed awake bh s = bus_packets ready ps needed awake bh t"
  by (simp add: bus_packets_def)

lemma netif_fields [simp]:
  "sc_datapath (wr_core (netif_receive netif d eb w)) = sc_datapath (wr_core w)"
  "sc_written (wr_core (netif_receive netif d eb w)) = sc_written (wr_core w)"
  "wr_ns (netif_receive netif d eb w) = wr_ns w"
  "wr_netif (netif_receive netif d eb w) = wr_netif w @ (if netif then [(d, eb)] else [])"
  "eb \<noteq> 0 \<Longrightarrow> sc_frees (wr_core (netif_receive netif d eb w)) = sc_frees (wr_core w) @ (if netif then [] else [eb])"
  by (simp_all add: netif_receive_def)

section \<open>Properties\<close>

text \<open>
  C30: every frame the station receives goes where the router says and nowhere else, and its buffer ends with
  exactly one owner: it is released once, or given to the local stack once; the copy made for both stacks is
  released once as well. The host gets the frame only over an open data path, and while it sleeps only if it
  was woken up.
\<close>
theorem wifi_frame_routed_once:
  assumes "wlan_sta_rx_callback e netif copy (send_to_host_queue ready ps needed awake) (Some d) eb w = Some w'"
    and "eb \<noteq> 0"
  shows "\<exists>r. nw_split_filter_and_route_packet e d (wr_ns w) = Some (r, wr_ns w') \<and>
    mset (sc_frees (wr_core w')) + mset (map snd (wr_netif w')) =
      mset (sc_frees (wr_core w)) + mset (map snd (wr_netif w)) + {#eb#} + (if r = BOTH_LWIP_BRIDGE then {#copy#} else {#}) \<and>
    map fst (wr_netif w') = map fst (wr_netif w) @
      (if netif \<and> (r = SLAVE_LWIP_BRIDGE \<or> r = BOTH_LWIP_BRIDGE) then [d] else []) \<and>
    sc_written (wr_core w') = sc_written (wr_core w) @
      (if r = HOST_LWIP_BRIDGE \<or> r = BOTH_LWIP_BRIDGE
       then bus_packets ready ps needed awake
         (populate_buff_handle (if_code ESP_STA_IF) d (if r = BOTH_LWIP_BRIDGE then copy else eb)) (wr_core w)
       else [])"
proof -
  obtain r ns where n: "nw_split_filter_and_route_packet e d (wr_ns w) = Some (r, ns)"
    using assms by (auto simp: wlan_sta_rx_callback_def Let_def split: option.splits)
  show ?thesis
  proof (cases r)
    case HOST_LWIP_BRIDGE
    with assms n have "w' = w\<lparr>wr_ns := ns, wr_core := (if sc_datapath (wr_core w)
        then send_to_host_queue ready ps needed awake (populate_buff_handle (if_code ESP_STA_IF) d eb) (wr_core w)
        else free_rx_buffer eb (wr_core w))\<rparr>"
      by (simp add: wlan_sta_rx_callback_def Let_def split: if_splits)
    then show ?thesis using assms(2) n HOST_LWIP_BRIDGE by (simp add: send_populated) (simp add: bus_packets_def)
  next
    case SLAVE_LWIP_BRIDGE
    with assms n have "w' = netif_receive netif d eb (w\<lparr>wr_ns := ns\<rparr>)"
      by (simp add: wlan_sta_rx_callback_def Let_def)
    then show ?thesis using assms(2) n SLAVE_LWIP_BRIDGE by simp
  next
    case BOTH_LWIP_BRIDGE
    let ?w = "netif_receive netif d eb (w\<lparr>wr_ns := ns\<rparr>)"
    from BOTH_LWIP_BRIDGE assms n have "copy \<noteq> 0" "w' = ?w\<lparr>wr_core := send_to_host_queue ready ps needed awake
        (populate_buff_handle (if_code ESP_STA_IF) d copy) (wr_core ?w)\<rparr>"
      by (auto simp: wlan_sta_rx_callback_def Let_def split: if_splits)
    then show ?thesis using assms(2) n BOTH_LWIP_BRIDGE by (simp add: send_populated) (simp add: bus_packets_def)
  next
    case INVALID_BRIDGE
    with assms n have "w' = w\<lparr>wr_ns := ns, wr_core := free_rx_buffer eb (wr_core w)\<rparr>"
      by (simp add: wlan_sta_rx_callback_def Let_def)
    then show ?thesis using assms(2) n INVALID_BRIDGE by simp
  qed
qed

theorem wifi_frame_routed_once_witness:
  "\<exists>w'. wlan_sta_rx_callback (demo_env True) True 9 (send_to_host_queue True True (\<lambda>_. True) True) (Some demo_frame_tcp) 4
      \<lparr>wr_core = demo_slave\<lparr>sc_datapath := True\<rparr>, wr_ns = demo_ns, wr_netif = []\<rparr> = Some w' \<and>
    length (sc_written (wr_core w')) = 1 \<and> sc_frees (wr_core w') = [4]"
proof -
  let ?w = "\<lparr>wr_core = demo_slave\<lparr>sc_datapath := True\<rparr>, wr_ns = demo_ns, wr_netif = []\<rparr>"
  have r: "nw_split_filter_and_route_packet (demo_env True) demo_frame_tcp demo_ns = Some (HOST_LWIP_BRIDGE, demo_ns)"
    by (simp add: nw_split_filter_and_route_packet_def demo_frame_eval peek16_def peek_def route_tcp_def le16_def demo_ns_def)
  then obtain w' where c: "wlan_sta_rx_callback (demo_env True) True 9 (send_to_host_queue True True (\<lambda>_. True) True)
      (Some demo_frame_tcp) 4 ?w = Some w'"
    by (simp add: wlan_sta_rx_callback_def Let_def)
  from wifi_frame_routed_once [OF c] r have "length (sc_written (wr_core w')) = 1"
      "mset (sc_frees (wr_core w')) + mset (map snd (wr_netif w')) = {#4#}" "map fst (wr_netif w') = []"
    by (auto simp: bus_packets_def demo_slave_def)
  then show ?thesis using c by auto
qed

end
