(* ===== verification/Wifi_Config.thy ===== *)
theory Wifi_Config
  imports Hosted_Prelude
begin

text \<open>
  The station and soft-AP configuration on its way through the remote procedure call: the host's structure
  (\<open>src/host/core/include/h_public/h_wifi_types.h\<close>), the message structures, the structure of the Wi-Fi driver, and
  the four conversions between them: \<open>compose_rpc_req\<close> on the host (\<open>src/host/core/src/h_rpc_req.c\<close>),
  \<open>req_wifi_set_config\<close> and \<open>copy_wifi_sta_cfg_to_rpc_struct\<close> on the co-processor
  (\<open>src/slave/main/slave_wifi_std.c\<close>), and \<open>rpc_copy_wifi_sta_config\<close> and \<open>rpc_parse_rsp\<close> on the host again.

  An octet field of a message is a list, empty when it is not set. Of the driver's structure the model has the
  members the source names, for a driver of ESP-IDF 5.5. Enumerations and \<open>int32_t\<close> members are 32-bit words.
\<close>

section \<open>Octets, strings and bits\<close>

text \<open>The C string in an array. A string that fills its array has no terminator; the callers cut it to the array.\<close>

definition c_str :: "bytes \<Rightarrow> bytes" where
  "c_str a = takeWhile (\<lambda>b. b \<noteq> 0) a"

text \<open>\<open>RPC_REQ_COPY_STR\<close> of the host: the string with its terminator, at most \<open>n\<close> octets.\<close>

definition req_copy_str :: "bytes \<Rightarrow> nat \<Rightarrow> bytes" where
  "req_copy_str src n = take (min (length (c_str src) + 1) n) (c_str src @ [0])"

text \<open>\<open>RPC_RESP_COPY_STR\<close> of the co-processor: \<open>strndup\<close>, and the length of the string with its terminator.\<close>

definition resp_copy_str :: "bytes \<Rightarrow> nat \<Rightarrow> bytes" where
  "resp_copy_str src n = take (min n (length (c_str src) + 1)) (take n (c_str src) @ [0])"

text \<open>\<open>RPC_REQ_COPY_BYTES\<close> of the co-processor and \<open>RPC_UTILS_COPY_BYTES\<close> of the host, into a zeroed array of \<open>n\<close>.\<close>

definition copy_into :: "nat \<Rightarrow> bytes \<Rightarrow> bytes" where
  "copy_into n src = (let d = take n src in d @ replicate (n - length d) 0)"

definition h_set_bit :: "nat \<Rightarrow> bool \<Rightarrow> u32 \<Rightarrow> u32" where
  "h_set_bit pos b val = (if b then val OR push_bit pos 1 else val)"

definition h_get_bit :: "nat \<Rightarrow> u32 \<Rightarrow> bool" where
  "h_get_bit pos val = (val AND push_bit pos 1 \<noteq> 0)"

abbreviation (input) SSID_LENGTH :: nat where "SSID_LENGTH \<equiv> 32"
abbreviation (input) PASSWORD_LENGTH :: nat where "PASSWORD_LENGTH \<equiv> 64"
abbreviation (input) BSSID_BYTES_SIZE :: nat where "BSSID_BYTES_SIZE \<equiv> 6"
abbreviation (input) SAE_H2E_IDENTIFIER_LEN :: nat where "SAE_H2E_IDENTIFIER_LEN \<equiv> 32"

section \<open>The structures\<close>

record h_sta_config =
  hs_ssid :: bytes
  hs_ssid_len :: u8
  hs_password :: bytes
  hs_bssid :: bytes
  hs_channel :: u8
  hs_listen_interval :: u8
  hs_pmf_capable :: u8
  hs_pmf_required :: u8

record h_ap_config =
  ha_ssid :: bytes
  ha_ssid_len :: u8
  ha_password :: bytes
  ha_channel :: u8
  ha_hidden_ssid :: u8
  ha_max_connection :: u8
  ha_beacon_interval :: u16

text \<open>\<open>WifiStaConfig\<close> and \<open>WifiApConfig\<close>; the nested messages are present or not.\<close>

record pb_sta_config =
  pw_ssid :: bytes
  pw_password :: bytes
  pw_scan_method :: u32
  pw_bssid_set :: bool
  pw_bssid :: bytes
  pw_channel :: u32
  pw_listen_interval :: u32
  pw_sort_method :: u32
  pw_threshold :: "(u32 \<times> u32 \<times> u32) option"
  pw_pmf :: "(bool \<times> bool) option"
  pw_bitmask :: u32
  pw_sae_pwe_h2e :: u32
  pw_failure_retry_cnt :: u32
  pw_he_bitmask :: u32
  pw_h2e_id :: bytes
  pw_sae_pk_mode :: u32

record pb_ap_config =
  pa_ssid :: bytes
  pa_password :: bytes
  pa_ssid_len :: u32
  pa_channel :: u32
  pa_authmode :: u32
  pa_ssid_hidden :: u32
  pa_max_connection :: u32
  pa_beacon_interval :: u32
  pa_pairwise_cipher :: u32
  pa_ftm_responder :: bool
  pa_pmf :: "(bool \<times> bool) option"
  pa_sae_pwe_h2e :: u32
  pa_csa_count :: u32
  pa_dtim_period :: u32
  pa_transition_disable :: u32
  pa_sae_ext :: u32
  pa_bss_max_idle :: "(u32 \<times> bool) option"
  pa_gtk_rekey_interval :: u32

text \<open>
  The driver's \<open>wifi_sta_config_t\<close> and \<open>wifi_ap_config_t\<close>; single bits are Booleans. The reserved members, which have no
  meaning and do not overlap the others, are left out.
\<close>

record sta_config =
  st_ssid :: bytes
  st_password :: bytes
  st_scan_method :: u32
  st_bssid_set :: bool
  st_bssid :: bytes
  st_channel :: u8
  st_listen_interval :: u16
  st_sort_method :: u32
  st_rssi :: u8
  st_authmode :: u32
  st_rssi_5g_adjustment :: u8
  st_pmf_capable :: bool
  st_pmf_required :: bool
  st_rm_enabled :: bool
  st_btm_enabled :: bool
  st_mbo_enabled :: bool
  st_ft_enabled :: bool
  st_owe_enabled :: bool
  st_transition_disable :: bool
  st_sae_pwe_h2e :: u32
  st_sae_pk_mode :: u32
  st_failure_retry_cnt :: u8
  st_he_dcm_set :: bool
  st_he_dcm_tx :: "2 word"
  st_he_dcm_rx :: "2 word"
  st_he_mcs9_enabled :: bool
  st_he_su_beamformee_disabled :: bool
  st_he_trig_su_disabled :: bool
  st_he_trig_mu_disabled :: bool
  st_he_trig_cqi_disabled :: bool
  st_vht_su_beamformee_disabled :: bool
  st_vht_mu_beamformee_disabled :: bool
  st_vht_mcs8_enabled :: bool
  st_h2e_id :: bytes

record ap_config =
  ap_ssid :: bytes
  ap_ssid_len :: u8
  ap_password :: bytes
  ap_channel :: u8
  ap_authmode :: u32
  ap_ssid_hidden :: u8
  ap_max_connection :: u8
  ap_beacon_interval :: u16
  ap_csa_count :: u8
  ap_dtim_period :: u8
  ap_pairwise_cipher :: u32
  ap_ftm_responder :: bool
  ap_pmf_capable :: bool
  ap_pmf_required :: bool
  ap_sae_pwe_h2e :: u32
  ap_transition_disable :: bool
  ap_sae_ext :: bool
  ap_idle_period :: u16
  ap_idle_protected :: bool
  ap_gtk_rekey_interval :: u16

section \<open>Host to co-processor\<close>

text \<open>\<open>wifi_sta_config__init\<close> and \<open>wifi_ap_config__init\<close>.\<close>

definition pb_sta_init :: pb_sta_config where
  "pb_sta_init = \<lparr>pw_ssid = [], pw_password = [], pw_scan_method = 0, pw_bssid_set = False, pw_bssid = [],
     pw_channel = 0, pw_listen_interval = 0, pw_sort_method = 0, pw_threshold = None, pw_pmf = None, pw_bitmask = 0,
     pw_sae_pwe_h2e = 0, pw_failure_retry_cnt = 0, pw_he_bitmask = 0, pw_h2e_id = [], pw_sae_pk_mode = 0\<rparr>"

definition pb_ap_init :: pb_ap_config where
  "pb_ap_init = \<lparr>pa_ssid = [], pa_password = [], pa_ssid_len = 0, pa_channel = 0, pa_authmode = 0, pa_ssid_hidden = 0,
     pa_max_connection = 0, pa_beacon_interval = 0, pa_pairwise_cipher = 0, pa_ftm_responder = False, pa_pmf = None,
     pa_sae_pwe_h2e = 0, pa_csa_count = 0, pa_dtim_period = 0, pa_transition_disable = 0, pa_sae_ext = 0,
     pa_bss_max_idle = None, pa_gtk_rekey_interval = 0\<rparr>"

definition h_rpc_mac_is_set :: "bytes \<Rightarrow> bool" where
  "h_rpc_mac_is_set mac = list_ex (\<lambda>b. b \<noteq> 0) (take BSSID_BYTES_SIZE mac)"

definition compose_sta_config :: "h_sta_config \<Rightarrow> pb_sta_config" where
  "compose_sta_config c = pb_sta_init\<lparr>
     pw_ssid := req_copy_str (hs_ssid c) SSID_LENGTH,
     pw_password := req_copy_str (hs_password c) PASSWORD_LENGTH,
     pw_bssid_set := h_rpc_mac_is_set (hs_bssid c),
     pw_bssid := (if h_rpc_mac_is_set (hs_bssid c) then take BSSID_BYTES_SIZE (hs_bssid c) else []),
     pw_channel := ucast (hs_channel c),
     pw_listen_interval := ucast (hs_listen_interval c),
     pw_pmf := Some (hs_pmf_capable c \<noteq> 0, hs_pmf_required c \<noteq> 0)\<rparr>"

definition compose_ap_config :: "h_ap_config \<Rightarrow> pb_ap_config" where
  "compose_ap_config c = pb_ap_init\<lparr>
     pa_ssid := req_copy_str (ha_ssid c) SSID_LENGTH,
     pa_password := req_copy_str (ha_password c) PASSWORD_LENGTH,
     pa_ssid_len := ucast (ha_ssid_len c),
     pa_channel := ucast (ha_channel c),
     pa_ssid_hidden := ucast (ha_hidden_ssid c),
     pa_max_connection := ucast (ha_max_connection c),
     pa_beacon_interval := ucast (ha_beacon_interval c)\<rparr>"

text \<open>The station part of \<open>req_wifi_set_config\<close>, into a zeroed structure.\<close>

definition decode_sta_config :: "pb_sta_config \<Rightarrow> sta_config" where
  "decode_sta_config p = \<lparr>
     st_ssid = copy_into SSID_LENGTH (pw_ssid p),
     st_password = copy_into PASSWORD_LENGTH (pw_password p),
     st_scan_method = pw_scan_method p,
     st_bssid_set = pw_bssid_set p,
     st_bssid = (if pw_bssid_set p then copy_into BSSID_BYTES_SIZE (pw_bssid p) else replicate BSSID_BYTES_SIZE 0),
     st_channel = ucast (pw_channel p),
     st_listen_interval = ucast (pw_listen_interval p),
     st_sort_method = pw_sort_method p,
     st_rssi = (case pw_threshold p of None \<Rightarrow> 0 | Some (r, a, g) \<Rightarrow> ucast r),
     st_authmode = (case pw_threshold p of None \<Rightarrow> 0 | Some (r, a, g) \<Rightarrow> a),
     st_rssi_5g_adjustment = (case pw_threshold p of None \<Rightarrow> 0 | Some (r, a, g) \<Rightarrow> ucast g),
     st_pmf_capable = (case pw_pmf p of None \<Rightarrow> False | Some (c, r) \<Rightarrow> c),
     st_pmf_required = (case pw_pmf p of None \<Rightarrow> False | Some (c, r) \<Rightarrow> r),
     st_rm_enabled = h_get_bit 0 (pw_bitmask p),
     st_btm_enabled = h_get_bit 1 (pw_bitmask p),
     st_mbo_enabled = h_get_bit 2 (pw_bitmask p),
     st_ft_enabled = h_get_bit 3 (pw_bitmask p),
     st_owe_enabled = h_get_bit 4 (pw_bitmask p),
     st_transition_disable = h_get_bit 5 (pw_bitmask p),
     st_sae_pwe_h2e = pw_sae_pwe_h2e p,
     st_sae_pk_mode = pw_sae_pk_mode p,
     st_failure_retry_cnt = ucast (pw_failure_retry_cnt p),
     st_he_dcm_set = h_get_bit 0 (pw_he_bitmask p),
     st_he_dcm_tx = ucast (drop_bit 1 (pw_he_bitmask p) AND 3),
     st_he_dcm_rx = ucast (drop_bit 3 (pw_he_bitmask p) AND 3),
     st_he_mcs9_enabled = h_get_bit 5 (pw_he_bitmask p),
     st_he_su_beamformee_disabled = h_get_bit 6 (pw_he_bitmask p),
     st_he_trig_su_disabled = h_get_bit 7 (pw_he_bitmask p),
     st_he_trig_mu_disabled = h_get_bit 8 (pw_he_bitmask p),
     st_he_trig_cqi_disabled = h_get_bit 9 (pw_he_bitmask p),
     st_vht_su_beamformee_disabled = h_get_bit 10 (pw_he_bitmask p),
     st_vht_mu_beamformee_disabled = h_get_bit 11 (pw_he_bitmask p),
     st_vht_mcs8_enabled = h_get_bit 12 (pw_he_bitmask p),
     st_h2e_id = copy_into SAE_H2E_IDENTIFIER_LEN (pw_h2e_id p)\<rparr>"

definition decode_ap_config :: "pb_ap_config \<Rightarrow> ap_config" where
  "decode_ap_config p = \<lparr>
     ap_ssid = copy_into SSID_LENGTH (pa_ssid p),
     ap_ssid_len = ucast (pa_ssid_len p),
     ap_password = copy_into PASSWORD_LENGTH (pa_password p),
     ap_channel = ucast (pa_channel p),
     ap_authmode = pa_authmode p,
     ap_ssid_hidden = ucast (pa_ssid_hidden p),
     ap_max_connection = ucast (pa_max_connection p),
     ap_beacon_interval = ucast (pa_beacon_interval p),
     ap_csa_count = ucast (pa_csa_count p),
     ap_dtim_period = ucast (pa_dtim_period p),
     ap_pairwise_cipher = pa_pairwise_cipher p,
     ap_ftm_responder = pa_ftm_responder p,
     ap_pmf_capable = (case pa_pmf p of None \<Rightarrow> False | Some (c, r) \<Rightarrow> c),
     ap_pmf_required = (case pa_pmf p of None \<Rightarrow> False | Some (c, r) \<Rightarrow> r),
     ap_sae_pwe_h2e = pa_sae_pwe_h2e p,
     ap_transition_disable = odd (pa_transition_disable p),
     ap_sae_ext = odd (pa_sae_ext p),
     ap_idle_period = (case pa_bss_max_idle p of None \<Rightarrow> 0 | Some (n, k) \<Rightarrow> ucast n),
     ap_idle_protected = (case pa_bss_max_idle p of None \<Rightarrow> False | Some (n, k) \<Rightarrow> k),
     ap_gtk_rekey_interval = ucast (pa_gtk_rekey_interval p)\<rparr>"

section \<open>Co-processor to host\<close>

text \<open>
  \<open>copy_wifi_sta_cfg_to_rpc_struct\<close> for the reply to \<open>req_wifi_get_config\<close>, when every allocation succeeds. The
  identifier of the SAE password is not copied.
\<close>

definition encode_bitmask :: "sta_config \<Rightarrow> u32" where
  "encode_bitmask s =
     (let m = h_set_bit 0 (st_rm_enabled s) 0;
          m = h_set_bit 1 (st_btm_enabled s) m;
          m = h_set_bit 2 (st_mbo_enabled s) m;
          m = h_set_bit 3 (st_ft_enabled s) m;
          m = h_set_bit 4 (st_owe_enabled s) m
      in h_set_bit 5 (st_transition_disable s) m)"

definition encode_he_bitmask :: "sta_config \<Rightarrow> u32" where
  "encode_he_bitmask s =
     (let m = h_set_bit 0 (st_he_dcm_set s) 0;
          m = (if st_he_dcm_tx s AND 3 \<noteq> 0 then m OR push_bit 1 (ucast (st_he_dcm_tx s AND 3)) else m);
          m = (if st_he_dcm_rx s AND 3 \<noteq> 0 then m OR push_bit 3 (ucast (st_he_dcm_rx s AND 3)) else m);
          m = h_set_bit 5 (st_he_mcs9_enabled s) m;
          m = h_set_bit 6 (st_he_su_beamformee_disabled s) m;
          m = h_set_bit 7 (st_he_trig_su_disabled s) m;
          m = h_set_bit 8 (st_he_trig_mu_disabled s) m;
          m = h_set_bit 9 (st_he_trig_cqi_disabled s) m;
          m = h_set_bit 10 (st_vht_su_beamformee_disabled s) m;
          m = h_set_bit 11 (st_vht_mu_beamformee_disabled s) m
      in h_set_bit 12 (st_vht_mcs8_enabled s) m)"

definition encode_sta_config :: "sta_config \<Rightarrow> pb_sta_config" where
  "encode_sta_config s = pb_sta_init\<lparr>
     pw_ssid := resp_copy_str (st_ssid s) SSID_LENGTH,
     pw_password := resp_copy_str (st_password s) PASSWORD_LENGTH,
     pw_bssid := take BSSID_BYTES_SIZE (st_bssid s),
     pw_scan_method := st_scan_method s,
     pw_bssid_set := st_bssid_set s,
     pw_channel := ucast (st_channel s),
     pw_listen_interval := ucast (st_listen_interval s),
     pw_sort_method := st_sort_method s,
     pw_threshold := Some (scast (st_rssi s), st_authmode s, ucast (st_rssi_5g_adjustment s)),
     pw_pmf := Some (st_pmf_capable s, st_pmf_required s),
     pw_bitmask := encode_bitmask s,
     pw_sae_pwe_h2e := st_sae_pwe_h2e s,
     pw_sae_pk_mode := st_sae_pk_mode s,
     pw_failure_retry_cnt := ucast (st_failure_retry_cnt s),
     pw_he_bitmask := encode_he_bitmask s\<rparr>"

text \<open>The soft-AP part of \<open>req_wifi_get_config\<close>: the name is only copied when its length is set.\<close>

definition encode_ap_config :: "ap_config \<Rightarrow> pb_ap_config" where
  "encode_ap_config s = \<lparr>
     pa_ssid = (if ap_ssid_len s \<noteq> 0 then resp_copy_str (ap_ssid s) SSID_LENGTH else []),
     pa_password = resp_copy_str (ap_password s) PASSWORD_LENGTH,
     pa_ssid_len = ucast (ap_ssid_len s),
     pa_channel = ucast (ap_channel s),
     pa_authmode = ap_authmode s,
     pa_ssid_hidden = ucast (ap_ssid_hidden s),
     pa_max_connection = ucast (ap_max_connection s),
     pa_beacon_interval = ucast (ap_beacon_interval s),
     pa_pairwise_cipher = ap_pairwise_cipher s,
     pa_ftm_responder = ap_ftm_responder s,
     pa_pmf = Some (ap_pmf_capable s, ap_pmf_required s),
     pa_sae_pwe_h2e = ap_sae_pwe_h2e s,
     pa_csa_count = ucast (ap_csa_count s),
     pa_dtim_period = ucast (ap_dtim_period s),
     pa_transition_disable = of_bool (ap_transition_disable s),
     pa_sae_ext = of_bool (ap_sae_ext s),
     pa_bss_max_idle = Some (ucast (ap_idle_period s), ap_idle_protected s),
     pa_gtk_rekey_interval = ucast (ap_gtk_rekey_interval s)\<rparr>"

text \<open>
  \<open>rpc_copy_wifi_sta_config\<close>, and the soft-AP part of \<open>rpc_parse_rsp\<close>. The latter copies as many octets as arrive
  (\<open>RPC_RSP_COPY_BYTES\<close>) into the zeroed reply: \<open>None\<close> when they do not fit.
\<close>

definition rpc_copy_wifi_sta_config :: "pb_sta_config \<Rightarrow> h_sta_config" where
  "rpc_copy_wifi_sta_config p = \<lparr>
     hs_ssid = copy_into 32 (pw_ssid p),
     hs_ssid_len = of_nat (min (length (pw_ssid p)) 32),
     hs_password = copy_into 64 (pw_password p),
     hs_bssid = copy_into 6 (pw_bssid p),
     hs_channel = ucast (pw_channel p),
     hs_listen_interval = ucast (pw_listen_interval p),
     hs_pmf_capable = (case pw_pmf p of None \<Rightarrow> 0 | Some (c, r) \<Rightarrow> of_bool c),
     hs_pmf_required = (case pw_pmf p of None \<Rightarrow> 0 | Some (c, r) \<Rightarrow> of_bool r)\<rparr>"

definition parse_ap_config :: "pb_ap_config \<Rightarrow> h_ap_config option" where
  "parse_ap_config p =
     (if length (pa_ssid p) > 32 \<or> length (pa_password p) > 64 then None
      else Some \<lparr>
        ha_ssid = copy_into 32 (pa_ssid p),
        ha_ssid_len = ucast (pa_ssid_len p),
        ha_password = copy_into 64 (pa_password p),
        ha_channel = ucast (pa_channel p),
        ha_hidden_ssid = ucast (pa_ssid_hidden p),
        ha_max_connection = ucast (pa_max_connection p),
        ha_beacon_interval = ucast (pa_beacon_interval p)\<rparr>)"

section \<open>Lemmas\<close>

lemma c_str_length: "length (c_str a) \<le> length a"
  by (simp add: c_str_def length_takeWhile_le)

lemma c_str_no_zero: "0 \<notin> set (c_str a)"
  by (auto simp: c_str_def dest: set_takeWhileD)

lemma takeWhile_zeros: "takeWhile (\<lambda>b. b \<noteq> (0 :: u8)) (replicate n 0) = []"
  by (cases n) simp_all

lemma takeWhile_all: "0 \<notin> set s \<Longrightarrow> takeWhile (\<lambda>b. b \<noteq> (0 :: u8)) (s @ z) = s @ takeWhile (\<lambda>b. b \<noteq> 0) z"
  by (induction s) auto

lemma length_copy_into [simp]: "length (copy_into n d) = n"
  by (simp add: copy_into_def Let_def)

text \<open>Copying a string of an array into a cleared array of the same size pads it with zeros.\<close>

lemma copy_req_str:
  assumes "length a \<le> n"
  shows "copy_into n (req_copy_str a n) = copy_into n (c_str a)"
proof (cases "length (c_str a) < n")
  case True
  then obtain k where "n - length (c_str a) = Suc k"
    by (metis Suc_diff_Suc)
  moreover from this have "n - Suc (length (c_str a)) = k" by simp
  ultimately show ?thesis using True by (simp add: req_copy_str_def copy_into_def Let_def)
next
  case False
  with c_str_length [of a] assms have "length (c_str a) = n" by simp
  then show ?thesis by (simp add: req_copy_str_def copy_into_def Let_def)
qed

lemma resp_copy_str_eq: "length a \<le> n \<Longrightarrow> resp_copy_str a n = req_copy_str a n"
  using c_str_length [of a] by (simp add: resp_copy_str_def req_copy_str_def min.commute)

lemma length_req_copy_str: "length (req_copy_str a n) = min (length (c_str a) + 1) n"
  by (simp add: req_copy_str_def)

lemma c_str_padded: "length (c_str a) \<le> n \<Longrightarrow> c_str (copy_into n (c_str a)) = c_str a"
  by (simp add: copy_into_def Let_def c_str_def [of "_ @ _"] takeWhile_all c_str_no_zero takeWhile_zeros)

lemma copy_into_Nil [simp]: "copy_into n [] = replicate n 0"
  by (simp add: copy_into_def)

lemma copy_into_same: "length d = n \<Longrightarrow> copy_into n d = d"
  by (simp add: copy_into_def)

lemma copy_into_idem: "copy_into n (copy_into n d) = copy_into n d"
  by (simp add: copy_into_same)

lemma h_get_bit_eq: "h_get_bit j m \<longleftrightarrow> bit m j"
  by (simp add: h_get_bit_def and_exp_eq_0_iff_not_bit)

lemma bit_h_set_bit: "bit (h_set_bit k b m) i \<longleftrightarrow> bit m i \<or> b \<and> i = k \<and> i < 32"
  by (auto simp: h_set_bit_def bit_simps)

text \<open>The bit masks of a message hold each flag of the configuration at its own position.\<close>

lemma bitmask_flags:
  "h_get_bit 0 (encode_bitmask s) = st_rm_enabled s" "h_get_bit 1 (encode_bitmask s) = st_btm_enabled s"
  "h_get_bit 2 (encode_bitmask s) = st_mbo_enabled s" "h_get_bit 3 (encode_bitmask s) = st_ft_enabled s"
  "h_get_bit 4 (encode_bitmask s) = st_owe_enabled s" "h_get_bit 5 (encode_bitmask s) = st_transition_disable s"
  by (simp_all add: encode_bitmask_def Let_def h_get_bit_eq bit_h_set_bit)

lemma and_3: "x AND 3 = take_bit 2 (x :: 'a :: len word)"
  by (simp add: take_bit_eq_mask mask_eq_exp_minus_1)

lemma two_bits: "(t :: 2 word) AND 3 = t"
  by (simp add: and_3 take_bit_word_eq_self)

lemma bit_if_or:
  "bit (if t \<noteq> 0 then m OR push_bit k (ucast (t :: 2 word)) else m :: u32) i \<longleftrightarrow>
     bit m i \<or> (k \<le> i \<and> i < 32 \<and> i - k < 2 \<and> bit t (i - k))"
  using bit_imp_le_length [of t "i - k"] by (auto simp: bit_simps)

lemma he_bitmask_bits:
  "bit (encode_he_bitmask s) i \<longleftrightarrow>
     ((((((((((st_he_dcm_set s \<and> i = 0 \<or> (1 \<le> i \<and> i < 32 \<and> i - 1 < 2 \<and> bit (st_he_dcm_tx s) (i - 1))) \<or>
     (3 \<le> i \<and> i < 32 \<and> i - 3 < 2 \<and> bit (st_he_dcm_rx s) (i - 3))) \<or>
     st_he_mcs9_enabled s \<and> i = 5) \<or> st_he_su_beamformee_disabled s \<and> i = 6) \<or> st_he_trig_su_disabled s \<and> i = 7) \<or>
     st_he_trig_mu_disabled s \<and> i = 8) \<or> st_he_trig_cqi_disabled s \<and> i = 9) \<or> st_vht_su_beamformee_disabled s \<and> i = 10) \<or>
     st_vht_mu_beamformee_disabled s \<and> i = 11) \<or> st_vht_mcs8_enabled s \<and> i = 12)"
proof -
  have k: "b \<and> i = k \<and> i < 32 \<longleftrightarrow> b \<and> i = k" if "k < 32" for b and k :: nat
    using that by auto
  show ?thesis
    unfolding encode_he_bitmask_def Let_def two_bits bit_h_set_bit bit_if_or by (simp only: k bit_0_eq) simp
qed

lemma he_bitmask_flags:
  "h_get_bit 0 (encode_he_bitmask s) = st_he_dcm_set s" "h_get_bit 5 (encode_he_bitmask s) = st_he_mcs9_enabled s"
  "h_get_bit 6 (encode_he_bitmask s) = st_he_su_beamformee_disabled s"
  "h_get_bit 7 (encode_he_bitmask s) = st_he_trig_su_disabled s"
  "h_get_bit 8 (encode_he_bitmask s) = st_he_trig_mu_disabled s"
  "h_get_bit 9 (encode_he_bitmask s) = st_he_trig_cqi_disabled s"
  "h_get_bit 10 (encode_he_bitmask s) = st_vht_su_beamformee_disabled s"
  "h_get_bit 11 (encode_he_bitmask s) = st_vht_mu_beamformee_disabled s"
  "h_get_bit 12 (encode_he_bitmask s) = st_vht_mcs8_enabled s"
  by (simp_all add: h_get_bit_eq bit_h_set_bit he_bitmask_bits)

lemma he_bitmask_fields:
  "ucast (drop_bit 1 (encode_he_bitmask s) AND 3) = st_he_dcm_tx s"
  "ucast (drop_bit 3 (encode_he_bitmask s) AND 3) = st_he_dcm_rx s"
  by (rule bit_word_eqI; auto simp: bit_simps he_bitmask_bits and_3)+

lemmas flags_1 = bitmask_flags(2) [unfolded One_nat_def] he_bitmask_fields(1) [unfolded One_nat_def]

lemma ucast_back:
  "ucast (ucast (x :: u8) :: u32) = x" "ucast (ucast (y :: u16) :: u32) = y"
  "ucast (ucast (ucast x :: u16) :: u32) = x" "ucast (scast x :: u32) = x"
  by (rule bit_word_eqI; simp add: bit_simps)+

text \<open>The structures as the applications and the driver hold them: arrays of their declared sizes.\<close>

definition h_sta_ok :: "h_sta_config \<Rightarrow> bool" where
  "h_sta_ok c = (length (hs_ssid c) = 32 \<and> length (hs_password c) = 64 \<and> length (hs_bssid c) = 6)"

definition h_ap_ok :: "h_ap_config \<Rightarrow> bool" where
  "h_ap_ok c = (length (ha_ssid c) = 32 \<and> length (ha_password c) = 64)"

definition sta_ok :: "sta_config \<Rightarrow> bool" where
  "sta_ok s = (length (st_ssid s) = 32 \<and> length (st_password s) = 64 \<and> length (st_bssid s) = 6)"

lemma mac_not_set: "length m = 6 \<Longrightarrow> \<not> h_rpc_mac_is_set m \<Longrightarrow> m = replicate 6 0"
  by (auto simp: h_rpc_mac_is_set_def list_ex_iff intro: replicate_eqI)

lemma c_str_bound: "length (c_str (hs_ssid c)) \<le> 32 \<and> length (c_str (hs_password c)) \<le> 64" if "h_sta_ok c"
  using that c_str_length [of "hs_ssid c"] c_str_length [of "hs_password c"] by (simp add: h_sta_ok_def)

lemma resp_copy_padded:
  assumes "length a = n"
  shows "resp_copy_str (copy_into n (c_str a)) n = req_copy_str a n"
    "copy_into n (resp_copy_str a n) = copy_into n (c_str a)"
  using assms c_str_length [of a]
  by (simp_all add: resp_copy_str_eq copy_req_str) (simp add: req_copy_str_def c_str_padded)

text \<open>What the driver gets for a configuration of the host.\<close>

lemma driver_sta_config:
  assumes "h_sta_ok c"
  shows "decode_sta_config (compose_sta_config c) = \<lparr>
     st_ssid = copy_into 32 (c_str (hs_ssid c)), st_password = copy_into 64 (c_str (hs_password c)),
     st_scan_method = 0, st_bssid_set = (hs_bssid c \<noteq> replicate 6 0), st_bssid = hs_bssid c,
     st_channel = hs_channel c, st_listen_interval = ucast (hs_listen_interval c), st_sort_method = 0,
     st_rssi = 0, st_authmode = 0, st_rssi_5g_adjustment = 0,
     st_pmf_capable = (hs_pmf_capable c \<noteq> 0), st_pmf_required = (hs_pmf_required c \<noteq> 0),
     st_rm_enabled = False, st_btm_enabled = False, st_mbo_enabled = False, st_ft_enabled = False,
     st_owe_enabled = False, st_transition_disable = False, st_sae_pwe_h2e = 0, st_sae_pk_mode = 0,
     st_failure_retry_cnt = 0, st_he_dcm_set = False, st_he_dcm_tx = 0, st_he_dcm_rx = 0,
     st_he_mcs9_enabled = False, st_he_su_beamformee_disabled = False, st_he_trig_su_disabled = False,
     st_he_trig_mu_disabled = False, st_he_trig_cqi_disabled = False, st_vht_su_beamformee_disabled = False,
     st_vht_mu_beamformee_disabled = False, st_vht_mcs8_enabled = False, st_h2e_id = replicate 32 0\<rparr>"
proof -
  have "h_rpc_mac_is_set (hs_bssid c) \<longleftrightarrow> hs_bssid c \<noteq> replicate 6 0"
    using mac_not_set [of "hs_bssid c"] assms by (auto simp: h_sta_ok_def h_rpc_mac_is_set_def list_ex_iff)
  moreover have "ucast (ucast (hs_listen_interval c) :: u32) = (ucast (hs_listen_interval c) :: u16)"
    by (rule bit_word_eqI) (simp add: bit_simps)
  ultimately show ?thesis
    using assms by (simp add: decode_sta_config_def compose_sta_config_def pb_sta_init_def h_sta_ok_def copy_req_str
      copy_into_same ucast_back h_get_bit_eq)
qed

section \<open>Properties\<close>

text \<open>
  C31: a station configuration survives the remote procedure call. The driver of the co-processor gets the name,
  password, peer address, channel, listen interval and protection flags the host set; reading the configuration
  back gives them to the host again, strings padded with zeros and flags as 0 or 1. In the messages all flags and
  fields of the driver's structure, the ones packed into bit masks included, are kept apart.
\<close>
theorem wifi_sta_config_roundtrip:
  assumes "h_sta_ok c" "sta_ok s"
  shows "c_str (st_ssid (decode_sta_config (compose_sta_config c))) = c_str (hs_ssid c) \<and>
    c_str (st_password (decode_sta_config (compose_sta_config c))) = c_str (hs_password c) \<and>
    rpc_copy_wifi_sta_config (encode_sta_config (decode_sta_config (compose_sta_config c))) =
      c\<lparr>hs_ssid := copy_into 32 (c_str (hs_ssid c)), hs_ssid_len := of_nat (min (length (c_str (hs_ssid c)) + 1) 32),
        hs_password := copy_into 64 (c_str (hs_password c)),
        hs_pmf_capable := of_bool (hs_pmf_capable c \<noteq> 0), hs_pmf_required := of_bool (hs_pmf_required c \<noteq> 0)\<rparr> \<and>
    decode_sta_config (encode_sta_config s) =
      s\<lparr>st_ssid := copy_into 32 (c_str (st_ssid s)), st_password := copy_into 64 (c_str (st_password s)),
        st_bssid := (if st_bssid_set s then st_bssid s else replicate 6 0), st_h2e_id := replicate 32 0\<rparr>"
proof (intro conjI)
  note [simp] = driver_sta_config [OF assms(1)]
  show "c_str (st_ssid (decode_sta_config (compose_sta_config c))) = c_str (hs_ssid c)"
    "c_str (st_password (decode_sta_config (compose_sta_config c))) = c_str (hs_password c)"
    using c_str_bound [OF assms(1)] by (simp_all add: c_str_padded)
  show "rpc_copy_wifi_sta_config (encode_sta_config (decode_sta_config (compose_sta_config c))) =
      c\<lparr>hs_ssid := copy_into 32 (c_str (hs_ssid c)), hs_ssid_len := of_nat (min (length (c_str (hs_ssid c)) + 1) 32),
        hs_password := copy_into 64 (c_str (hs_password c)),
        hs_pmf_capable := of_bool (hs_pmf_capable c \<noteq> 0), hs_pmf_required := of_bool (hs_pmf_required c \<noteq> 0)\<rparr>"
    using assms(1) by (intro h_sta_config.equality) (simp_all add: rpc_copy_wifi_sta_config_def encode_sta_config_def
      pb_sta_init_def h_sta_ok_def resp_copy_padded copy_req_str length_req_copy_str copy_into_same ucast_back)
  show "decode_sta_config (encode_sta_config s) =
      s\<lparr>st_ssid := copy_into 32 (c_str (st_ssid s)), st_password := copy_into 64 (c_str (st_password s)),
        st_bssid := (if st_bssid_set s then st_bssid s else replicate 6 0), st_h2e_id := replicate 32 0\<rparr>"
    using assms(2) by (intro sta_config.equality) (simp_all add: decode_sta_config_def encode_sta_config_def pb_sta_init_def
      sta_ok_def resp_copy_padded copy_into_same ucast_back bitmask_flags he_bitmask_flags he_bitmask_fields flags_1)
qed

definition demo_sta :: h_sta_config where
  "demo_sta = \<lparr>hs_ssid = copy_into 32 [104, 111, 109, 101], hs_ssid_len = 4, hs_password = copy_into 64 [115, 101, 99],
     hs_bssid = [2, 0, 0, 0, 0, 1], hs_channel = 6, hs_listen_interval = 3, hs_pmf_capable = 1, hs_pmf_required = 0\<rparr>"

theorem wifi_sta_config_roundtrip_witness:
  "c_str (st_ssid (decode_sta_config (compose_sta_config demo_sta))) = [104, 111, 109, 101] \<and>
   hs_ssid_len (rpc_copy_wifi_sta_config (encode_sta_config (decode_sta_config (compose_sta_config demo_sta)))) = 5"
proof -
  have ok: "h_sta_ok demo_sta" by (simp add: h_sta_ok_def demo_sta_def)
  then have "sta_ok (decode_sta_config (compose_sta_config demo_sta))"
    by (simp add: driver_sta_config) (simp add: sta_ok_def h_sta_ok_def)
  moreover have "c_str (hs_ssid demo_sta) = [104, 111, 109, 101]"
    by (simp add: demo_sta_def copy_into_def c_str_def takeWhile_zeros)
  ultimately show ?thesis
    using wifi_sta_config_roundtrip [OF ok] by simp
qed

text \<open>
  The soft-AP: name, password, channel, visibility, number of stations and beacon interval of the host reach the
  driver. The host's structure has no authentication mode and the message is sent with 0, which is
  \<open>WIFI_AUTH_OPEN\<close>; the periods the driver documents defaults of 1 and more for are sent as 0 as well.
\<close>

lemma driver_ap_config:
  assumes "h_ap_ok c"
  shows "decode_ap_config (compose_ap_config c) = \<lparr>
     ap_ssid = copy_into 32 (c_str (ha_ssid c)), ap_ssid_len = ha_ssid_len c,
     ap_password = copy_into 64 (c_str (ha_password c)), ap_channel = ha_channel c, ap_authmode = 0,
     ap_ssid_hidden = ha_hidden_ssid c, ap_max_connection = ha_max_connection c,
     ap_beacon_interval = ha_beacon_interval c, ap_csa_count = 0, ap_dtim_period = 0, ap_pairwise_cipher = 0,
     ap_ftm_responder = False, ap_pmf_capable = False, ap_pmf_required = False, ap_sae_pwe_h2e = 0,
     ap_transition_disable = False, ap_sae_ext = False, ap_idle_period = 0, ap_idle_protected = False,
     ap_gtk_rekey_interval = 0\<rparr>"
  using assms by (simp add: decode_ap_config_def compose_ap_config_def pb_ap_init_def h_ap_ok_def copy_req_str ucast_back)

lemma ap_password_fits: "h_ap_ok c \<Longrightarrow> length (c_str (ha_password c)) \<le> 64 \<and> length (c_str (ha_ssid c)) \<le> 32"
  using c_str_length [of "ha_password c"] c_str_length [of "ha_ssid c"] by (simp add: h_ap_ok_def)

text \<open>
  C32: a soft-AP whose application set a password is configured without authentication. The driver gets the
  password, but the mode in the message is always the open one, whatever the application asks for; a name without
  a length is lost when the configuration is read back.
\<close>
theorem softap_always_open:
  assumes "h_ap_ok c"
  shows "c_str (ap_password (decode_ap_config (compose_ap_config c))) = c_str (ha_password c) \<and>
    c_str (ap_ssid (decode_ap_config (compose_ap_config c))) = c_str (ha_ssid c) \<and>
    ap_authmode (decode_ap_config (compose_ap_config c)) = 0 \<and>
    parse_ap_config (encode_ap_config (decode_ap_config (compose_ap_config c))) =
      Some (c\<lparr>ha_ssid := (if ha_ssid_len c = 0 then replicate 32 0 else copy_into 32 (c_str (ha_ssid c))),
        ha_password := copy_into 64 (c_str (ha_password c))\<rparr>)"
proof -
  have "parse_ap_config (encode_ap_config (decode_ap_config (compose_ap_config c))) =
      Some (c\<lparr>ha_ssid := (if ha_ssid_len c = 0 then replicate 32 0 else copy_into 32 (c_str (ha_ssid c))),
        ha_password := copy_into 64 (c_str (ha_password c))\<rparr>)"
    using assms by (cases c) (simp add: driver_ap_config parse_ap_config_def encode_ap_config_def h_ap_ok_def
      resp_copy_padded copy_req_str length_req_copy_str ucast_back)
  then show ?thesis
    using ap_password_fits [OF assms] by (simp add: driver_ap_config [OF assms] c_str_padded)
qed

definition demo_ap :: h_ap_config where
  "demo_ap = \<lparr>ha_ssid = copy_into 32 [97, 112], ha_ssid_len = 2, ha_password = copy_into 64 [115, 101, 99],
     ha_channel = 1, ha_hidden_ssid = 0, ha_max_connection = 4, ha_beacon_interval = 100\<rparr>"

theorem softap_always_open_witness:
  "c_str (ap_password (decode_ap_config (compose_ap_config demo_ap))) = [115, 101, 99] \<and>
   ap_authmode (decode_ap_config (compose_ap_config demo_ap)) = 0"
proof -
  have "h_ap_ok demo_ap" by (simp add: h_ap_ok_def demo_ap_def)
  moreover have "c_str (ha_password demo_ap) = [115, 101, 99]"
    by (simp add: demo_ap_def copy_into_def c_str_def takeWhile_zeros)
  ultimately show ?thesis
    using softap_always_open [of demo_ap] by simp
qed

end
