(* ===== verification/Slave_Wifi.thy ===== *)
theory Slave_Wifi
  imports Wifi_Config
begin

text \<open>
  Control of the Wi-Fi driver on the co-processor (\<open>src/slave/main/slave_wifi_std.c\<close>): the initialisation with its
  cached configuration, the requests that start, configure, connect and disconnect the station, and the handler
  of the driver's events (\<open>event_handler_wifi\<close>), which applies a configuration that came while a connection was
  being made and tells the host what happened.

  The driver is not part of the repository: its calls are recorded in \<open>wc_calls\<close> and their results are arguments.
  \<open>wc_events\<close> are the events given to \<open>send_event_data_to_host\<close>. iTWT and DPP events are configured out.
\<close>

section \<open>State\<close>

text \<open>\<open>wifi_event_sta_connected_t\<close> and \<open>wifi_event_sta_disconnected_t\<close>, the members the events carry to the host.\<close>

record sta_connected =
  ec_ssid :: bytes
  ec_ssid_len :: u8
  ec_bssid :: bytes
  ec_channel :: u8
  ec_authmode :: u32
  ec_aid :: u16

record sta_disconnected =
  ed_ssid :: bytes
  ed_ssid_len :: u8
  ed_bssid :: bytes
  ed_reason :: u8
  ed_rssi :: u8

text \<open>\<open>wifi_init_config_t\<close>.\<close>

record init_config =
  ic_static_rx_buf_num :: u32
  ic_dynamic_rx_buf_num :: u32
  ic_tx_buf_type :: u32
  ic_static_tx_buf_num :: u32
  ic_dynamic_tx_buf_num :: u32
  ic_rx_mgmt_buf_type :: u32
  ic_rx_mgmt_buf_num :: u32
  ic_cache_tx_buf_num :: u32
  ic_csi_enable :: u32
  ic_ampdu_rx_enable :: u32
  ic_ampdu_tx_enable :: u32
  ic_amsdu_tx_enable :: u32
  ic_nvs_enable :: u32
  ic_nano_enable :: u32
  ic_rx_ba_win :: u32
  ic_wifi_task_core_id :: u32
  ic_beacon_max_len :: u32
  ic_mgmt_sbuf_num :: u32
  ic_feature_caps :: "64 word"
  ic_sta_disconnected_pm :: bool
  ic_espnow_max_encrypt_num :: u32
  ic_tx_hetb_queue_num :: u32
  ic_dump_hesigb_enable :: u32
  ic_magic :: u32

datatype wifi_call =
    Drv_init init_config int
  | Drv_deinit
  | Drv_start
  | Drv_stop
  | Drv_set_config sta_config
  | Drv_set_ap_config ap_config
  | Drv_connect
  | Drv_disconnect
  | Drv_rxcb bool bool

datatype host_event =
    Evt_StaConnected sta_connected
  | Evt_StaDisconnected sta_disconnected
  | Evt_AP_StaConnected bytes u8
  | Evt_AP_StaDisconnected bytes u8 u16
  | Evt_StaScanDone u32 u8 u8
  | Evt_NoArgs u8

datatype wifi_event =
    WIFI_EVENT_AP_STACONNECTED bytes u8
  | WIFI_EVENT_AP_STADISCONNECTED bytes u8 u16
  | WIFI_EVENT_SCAN_DONE u32 u8 u8
  | WIFI_EVENT_STA_CONNECTED sta_connected
  | WIFI_EVENT_STA_DISCONNECTED sta_disconnected
  | WIFI_EVENT_AP_START
  | WIFI_EVENT_AP_STOP
  | WIFI_EVENT_STA_START
  | WIFI_EVENT_STA_STOP
  | WIFI_EVENT_OTHER u8

text \<open>The identifiers the driver gives the events without arguments.\<close>

abbreviation (input) ID_STA_START :: u8 where "ID_STA_START \<equiv> 2"
abbreviation (input) ID_STA_STOP :: u8 where "ID_STA_STOP \<equiv> 3"
abbreviation (input) ID_AP_START :: u8 where "ID_AP_START \<equiv> 12"
abbreviation (input) ID_AP_STOP :: u8 where "ID_AP_STOP \<equiv> 13"

abbreviation (input) ESP_ERR_WIFI_NOT_INIT :: int where "ESP_ERR_WIFI_NOT_INIT \<equiv> 0x3001"
abbreviation (input) ESP_ERR_WIFI_CONN :: int where "ESP_ERR_WIFI_CONN \<equiv> 0x3007"
abbreviation (input) ESP_ERR_WIFI_SSID :: int where "ESP_ERR_WIFI_SSID \<equiv> 0x300A"

text \<open>The two options: connect when the station starts, and reconnect up to a number of times.\<close>

record wifi_opts =
  wo_auto_start :: bool
  wo_auto_retry :: "nat option"

record wifi_ctl =
  wc_new :: "sta_config option"
  wc_new_recvd :: bool
  wc_suppress :: bool
  wc_retries :: nat
  wc_connecting :: bool
  wc_connected :: bool
  wc_softap :: bool
  wc_lkg :: sta_connected
  wc_initialized :: bool
  wc_cached :: "init_config option"
  wc_calls :: "wifi_call list"
  wc_events :: "host_event list"

text \<open>\<open>wc_new\<close> is \<open>new_wifi_config\<close>, \<open>None\<close> before the first one; \<open>wc_cached\<close> is \<open>None\<close> while \<open>has_cached_config\<close> is false.\<close>

definition zero_connected :: sta_connected where
  "zero_connected = \<lparr>ec_ssid = replicate 32 0, ec_ssid_len = 0, ec_bssid = replicate 6 0, ec_channel = 0,
     ec_authmode = 0, ec_aid = 0\<rparr>"

definition wifi_boot :: wifi_ctl where
  "wifi_boot = \<lparr>wc_new = None, wc_new_recvd = False, wc_suppress = False, wc_retries = 0, wc_connecting = False,
     wc_connected = False, wc_softap = False, wc_lkg = zero_connected, wc_initialized = False, wc_cached = None,
     wc_calls = [], wc_events = []\<rparr>"

definition drv_call :: "wifi_call \<Rightarrow> wifi_ctl \<Rightarrow> wifi_ctl" where
  "drv_call c st = st\<lparr>wc_calls := wc_calls st @ [c]\<rparr>"

definition send_event_data_to_host :: "host_event \<Rightarrow> wifi_ctl \<Rightarrow> wifi_ctl" where
  "send_event_data_to_host e st = st\<lparr>wc_events := wc_events st @ [e]\<rparr>"

section \<open>Initialisation\<close>

text \<open>
  \<open>get_merged_init_config\<close>: every member is taken from the message, except that a driver without cached transmit
  buffers (\<open>cache_tx = False\<close>) keeps its own number and capabilities when the capabilities differ.
\<close>

definition get_merged_init_config :: "bool \<Rightarrow> 64 word \<Rightarrow> u32 \<Rightarrow> init_config \<Rightarrow> init_config" where
  "get_merged_init_config cache_tx caps cache_num src =
     (if cache_tx \<or> caps = ic_feature_caps src then src
      else src\<lparr>ic_cache_tx_buf_num := cache_num, ic_feature_caps := caps\<rparr>)"

definition wifi_init_config_changed :: "init_config option \<Rightarrow> init_config \<Rightarrow> bool" where
  "wifi_init_config_changed new_cfg old =
     (case new_cfg of
        None \<Rightarrow> True
      | Some new \<Rightarrow>
          ic_static_rx_buf_num new \<noteq> ic_static_rx_buf_num old \<or>
          ic_dynamic_rx_buf_num new \<noteq> ic_dynamic_rx_buf_num old \<or>
          ic_tx_buf_type new \<noteq> ic_tx_buf_type old \<or>
          ic_static_tx_buf_num new \<noteq> ic_static_tx_buf_num old \<or>
          ic_dynamic_tx_buf_num new \<noteq> ic_dynamic_tx_buf_num old \<or>
          ic_cache_tx_buf_num new \<noteq> ic_cache_tx_buf_num old \<or>
          ic_csi_enable new \<noteq> ic_csi_enable old \<or>
          ic_ampdu_rx_enable new \<noteq> ic_ampdu_rx_enable old \<or>
          ic_ampdu_tx_enable new \<noteq> ic_ampdu_tx_enable old \<or>
          ic_amsdu_tx_enable new \<noteq> ic_amsdu_tx_enable old \<or>
          ic_nvs_enable new \<noteq> ic_nvs_enable old \<or>
          ic_nano_enable new \<noteq> ic_nano_enable old \<or>
          ic_rx_ba_win new \<noteq> ic_rx_ba_win old \<or>
          ic_wifi_task_core_id new \<noteq> ic_wifi_task_core_id old \<or>
          ic_beacon_max_len new \<noteq> ic_beacon_max_len old \<or>
          ic_mgmt_sbuf_num new \<noteq> ic_mgmt_sbuf_num old \<or>
          ic_feature_caps new \<noteq> ic_feature_caps old \<or>
          ic_sta_disconnected_pm new \<noteq> ic_sta_disconnected_pm old \<or>
          ic_espnow_max_encrypt_num new \<noteq> ic_espnow_max_encrypt_num old \<or>
          ic_magic new \<noteq> ic_magic old)"

text \<open>\<open>__wrap_esp_wifi_init\<close>; \<open>rc\<close> is the result of the driver's own initialisation.\<close>

definition wrap_esp_wifi_init :: "int \<Rightarrow> init_config \<Rightarrow> wifi_ctl \<Rightarrow> int \<times> wifi_ctl" where
  "wrap_esp_wifi_init rc config st =
     (if wc_initialized st \<and>
         \<not> (case wc_cached st of None \<Rightarrow> False | Some old \<Rightarrow> wifi_init_config_changed (Some config) old)
      then (0, st)
      else
        let st = (if wc_initialized st then (drv_call Drv_deinit (drv_call Drv_stop st))\<lparr>wc_initialized := False\<rparr> else st);
            st = st\<lparr>wc_cached := Some config\<rparr>;
            st = drv_call (Drv_init config rc) st
        in (rc, if rc = 0 then st\<lparr>wc_initialized := True\<rparr> else st))"

text \<open>The requests give the status they put into the reply.\<close>

definition req_wifi_init :: "bool \<Rightarrow> 64 word \<Rightarrow> u32 \<Rightarrow> int \<Rightarrow> init_config option \<Rightarrow> wifi_ctl \<Rightarrow> int \<times> wifi_ctl" where
  "req_wifi_init cache_tx caps cache_num rc cfg st =
     (case cfg of
        None \<Rightarrow> (1, st)
      | Some src \<Rightarrow> wrap_esp_wifi_init rc (get_merged_init_config cache_tx caps cache_num src) st)"

definition req_wifi_deinit :: "int \<Rightarrow> wifi_ctl \<Rightarrow> int \<times> wifi_ctl" where
  "req_wifi_deinit rc st = (rc, drv_call Drv_deinit (st\<lparr>wc_initialized := False\<rparr>))"

section \<open>Station\<close>

definition esp_hosted_set_sta_config :: "int \<Rightarrow> sta_config \<Rightarrow> wifi_ctl \<Rightarrow> wifi_ctl" where
  "esp_hosted_set_sta_config rc cfg st =
     (if wc_connecting st then st\<lparr>wc_new := Some cfg, wc_new_recvd := True\<rparr>
      else
        let st = drv_call (Drv_set_config cfg) st in
        if rc \<noteq> 0 then st\<lparr>wc_new := Some cfg, wc_new_recvd := True\<rparr> else st\<lparr>wc_new_recvd := False\<rparr>)"

text \<open>The configuration of a request: a union of two pointers, of which none or one is set.\<close>

datatype pb_wifi_config = Pb_Unset | Pb_Sta pb_sta_config | Pb_Ap pb_ap_config

text \<open>
  \<open>req_wifi_set_config\<close> for interface \<open>ifx\<close> (0: station, 1: soft-AP). The discriminator of the union is not
  looked at: \<open>None\<close> when the pointer is used as the type it does not have.
\<close>

definition req_wifi_set_config :: "int \<Rightarrow> u32 \<Rightarrow> pb_wifi_config option \<Rightarrow> wifi_ctl \<Rightarrow> (int \<times> wifi_ctl) option" where
  "req_wifi_set_config rc ifx cfg st =
     (if ifx \<noteq> 0 \<and> ifx \<noteq> 1 then Some (1, st)
      else case cfg of
        None \<Rightarrow> Some (1, st)
      | Some Pb_Unset \<Rightarrow> Some (1, st)
      | Some (Pb_Sta p) \<Rightarrow>
          if ifx = 0 then Some (0, esp_hosted_set_sta_config rc (decode_sta_config p) st) else None
      | Some (Pb_Ap p) \<Rightarrow>
          if ifx = 1 then Some (rc, drv_call (Drv_set_ap_config (decode_ap_config p)) st) else None)"

text \<open>
  \<open>req_wifi_connect\<close> in two parts, between which the task of the driver's events may run: up to the test of
  \<open>station_connected\<close>, whose result is an error or what was read, and what follows. \<open>cfg\<close>: the configuration
  \<open>esp_wifi_get_config\<close> gives, if it succeeds; \<open>rc\<close>: the result of \<open>esp_wifi_connect\<close>.
\<close>

definition wifi_connect_test :: "sta_config option \<Rightarrow> wifi_ctl \<Rightarrow> int + bool" where
  "wifi_connect_test cfg st =
     (case cfg of
        None \<Rightarrow> Inl ESP_ERR_WIFI_NOT_INIT
      | Some c \<Rightarrow> if c_str (st_ssid c) = [] then Inl ESP_ERR_WIFI_SSID else Inr (wc_connected st))"

definition wifi_connect_act :: "int + bool \<Rightarrow> int \<Rightarrow> wifi_ctl \<Rightarrow> int \<times> wifi_ctl" where
  "wifi_connect_act test rc st =
     (case test of
        Inl e \<Rightarrow> (e, st)
      | Inr connected \<Rightarrow>
          if \<not> connected then
            let st = drv_call Drv_connect (st\<lparr>wc_connecting := True\<rparr>);
                st = (if rc \<noteq> 0 \<and> rc \<noteq> ESP_ERR_WIFI_CONN then st\<lparr>wc_connecting := False\<rparr> else st)
            in (if rc \<noteq> ESP_ERR_WIFI_CONN then rc else 0, st)
          else (0, send_event_data_to_host (Evt_StaConnected (wc_lkg st)) st))"

definition req_wifi_connect :: "sta_config option \<Rightarrow> int \<Rightarrow> wifi_ctl \<Rightarrow> int \<times> wifi_ctl" where
  "req_wifi_connect cfg rc st = wifi_connect_act (wifi_connect_test cfg st) rc st"

definition req_wifi_disconnect :: "int \<Rightarrow> wifi_ctl \<Rightarrow> int \<times> wifi_ctl" where
  "req_wifi_disconnect rc st = (rc, drv_call Drv_disconnect st)"

text \<open>The modes of the driver: 1 is station, 2 soft-AP, 3 both; \<open>None\<close>: the mode cannot be read.\<close>

definition req_wifi_start :: "int \<Rightarrow> nat option \<Rightarrow> wifi_ctl \<Rightarrow> int \<times> wifi_ctl" where
  "req_wifi_start rc mode st =
     (let st = drv_call Drv_start st in
      if rc \<noteq> 0 then (rc, st)
      else
        let st = (if mode = Some 1 \<or> mode = Some 3 then send_event_data_to_host (Evt_NoArgs ID_STA_START) st else st);
            st = (if mode = Some 2 \<or> mode = Some 3 then send_event_data_to_host (Evt_NoArgs ID_AP_START) st else st)
        in (0, st))"

definition req_wifi_stop :: "int \<Rightarrow> wifi_ctl \<Rightarrow> int \<times> wifi_ctl" where
  "req_wifi_stop rc st = (rc, drv_call Drv_stop st)"

section \<open>Events of the driver\<close>

text \<open>\<open>rc\<close>: the result of \<open>esp_wifi_set_config\<close> where the handler calls it. \<open>wc_new\<close> is set when it is used.\<close>

definition on_connected :: "wifi_opts \<Rightarrow> sta_connected \<Rightarrow> wifi_ctl \<Rightarrow> wifi_ctl" where
  "on_connected opts c st =
     (if wc_new_recvd st then
        (drv_call Drv_disconnect (drv_call (Drv_set_config (the (wc_new st))) st))\<lparr>wc_suppress := True\<rparr>
      else
        let st = st\<lparr>wc_connecting := False\<rparr>;
            st = (if wo_auto_retry opts \<noteq> None then st\<lparr>wc_retries := 0\<rparr> else st);
            st = send_event_data_to_host (Evt_StaConnected c) st;
            st = drv_call (Drv_rxcb True True) (st\<lparr>wc_lkg := c\<rparr>)
        in st\<lparr>wc_connected := True\<rparr>)"

definition apply_new_config :: "int \<Rightarrow> wifi_ctl \<Rightarrow> bool \<times> wifi_ctl" where
  "apply_new_config rc st =
     (if wc_new_recvd st then
        let st = drv_call (Drv_set_config (the (wc_new st))) st in
        if rc \<noteq> 0 then (False, st) else (True, st\<lparr>wc_new_recvd := False\<rparr>)
      else (False, st))"

definition on_disconnected :: "wifi_opts \<Rightarrow> int \<Rightarrow> sta_disconnected \<Rightarrow> wifi_ctl \<Rightarrow> wifi_ctl" where
  "on_disconnected opts rc d st =
     (let (reconnect_pending, st) = apply_new_config rc st;
          st = drv_call (Drv_rxcb True False) (st\<lparr>wc_connected := False\<rparr>);
          st = (if reconnect_pending then drv_call Drv_connect (st\<lparr>wc_connecting := True\<rparr>) else st\<lparr>wc_connecting := False\<rparr>)
      in if wc_suppress st then st\<lparr>wc_suppress := False\<rparr>
         else
           let st = send_event_data_to_host (Evt_StaDisconnected d) st in
           case wo_auto_retry opts of
             None \<Rightarrow> st
           | Some n \<Rightarrow>
               if wc_retries st < n then drv_call Drv_connect st\<lparr>wc_retries := wc_retries st + 1\<rparr>
               else st\<lparr>wc_retries := 0\<rparr>)"

definition event_handler_wifi :: "wifi_opts \<Rightarrow> int \<Rightarrow> wifi_event \<Rightarrow> wifi_ctl \<Rightarrow> wifi_ctl" where
  "event_handler_wifi opts rc ev st =
     (case ev of
        WIFI_EVENT_AP_STACONNECTED mac aid \<Rightarrow> send_event_data_to_host (Evt_AP_StaConnected mac aid) st
      | WIFI_EVENT_AP_STADISCONNECTED mac aid reason \<Rightarrow> send_event_data_to_host (Evt_AP_StaDisconnected mac aid reason) st
      | WIFI_EVENT_SCAN_DONE s n i \<Rightarrow> send_event_data_to_host (Evt_StaScanDone s n i) st
      | WIFI_EVENT_STA_CONNECTED c \<Rightarrow> on_connected opts c st
      | WIFI_EVENT_STA_DISCONNECTED d \<Rightarrow> on_disconnected opts rc d st
      | WIFI_EVENT_AP_START \<Rightarrow>
          if wc_softap st then st
          else send_event_data_to_host (Evt_NoArgs ID_AP_START) (drv_call (Drv_rxcb False True) st\<lparr>wc_softap := True\<rparr>)
      | WIFI_EVENT_AP_STOP \<Rightarrow>
          if \<not> wc_softap st then st
          else send_event_data_to_host (Evt_NoArgs ID_AP_STOP) (drv_call (Drv_rxcb False False) st\<lparr>wc_softap := False\<rparr>)
      | WIFI_EVENT_STA_START \<Rightarrow>
          if wc_connecting st then st
          else
            let st = (if wo_auto_start opts then drv_call Drv_connect (st\<lparr>wc_connecting := True\<rparr>) else st)
            in send_event_data_to_host (Evt_NoArgs ID_STA_START) st
      | WIFI_EVENT_STA_STOP \<Rightarrow> send_event_data_to_host (Evt_NoArgs ID_STA_STOP) (st\<lparr>wc_connecting := False\<rparr>)
      | WIFI_EVENT_OTHER n \<Rightarrow> send_event_data_to_host (Evt_NoArgs n) st)"

end
