(* ===== verification/Host_Wifi.thy ===== *)
theory Host_Wifi
  imports Slave_Wifi
begin

text \<open>
  The Wi-Fi events on the host: their parsing (\<open>rpc_parse_evt\<close> and \<open>h_rpc_wire_event_to_host\<close> in
  \<open>src/host/core/src/h_rpc_evt.c\<close>), and \<open>rpc_event_callback\<close> in \<open>src/host/core/src/h_rpc_wrap.c\<close>, which keeps
  what the host knows of the network interfaces and posts the events to the application.
\<close>

section \<open>Events on the wire\<close>

text \<open>The identifiers of the host (\<open>H_EVENT_WIFI_*\<close> in \<open>src/host/core/include/h_public/h_event.h\<close>).\<close>

abbreviation (input) H_EVENT_WIFI_READY :: int where "H_EVENT_WIFI_READY \<equiv> 0"
abbreviation (input) H_EVENT_WIFI_SCAN_DONE :: int where "H_EVENT_WIFI_SCAN_DONE \<equiv> 1"
abbreviation (input) H_EVENT_WIFI_STA_START :: int where "H_EVENT_WIFI_STA_START \<equiv> 2"
abbreviation (input) H_EVENT_WIFI_STA_STOP :: int where "H_EVENT_WIFI_STA_STOP \<equiv> 3"
abbreviation (input) H_EVENT_WIFI_STA_CONNECTED :: int where "H_EVENT_WIFI_STA_CONNECTED \<equiv> 4"
abbreviation (input) H_EVENT_WIFI_STA_DISCONNECTED :: int where "H_EVENT_WIFI_STA_DISCONNECTED \<equiv> 5"
abbreviation (input) H_EVENT_WIFI_AP_START :: int where "H_EVENT_WIFI_AP_START \<equiv> 6"
abbreviation (input) H_EVENT_WIFI_AP_STOP :: int where "H_EVENT_WIFI_AP_STOP \<equiv> 7"
abbreviation (input) H_EVENT_WIFI_AP_STACONNECTED :: int where "H_EVENT_WIFI_AP_STACONNECTED \<equiv> 8"
abbreviation (input) H_EVENT_WIFI_AP_STADISCONNECTED :: int where "H_EVENT_WIFI_AP_STADISCONNECTED \<equiv> 9"
abbreviation (input) H_EVENT_WIFI_AUTHMODE_CHANGE :: int where "H_EVENT_WIFI_AUTHMODE_CHANGE \<equiv> 12"
abbreviation (input) H_EVENT_WIFI_HOME_CHANNEL_CHANGE :: int where "H_EVENT_WIFI_HOME_CHANNEL_CHANGE \<equiv> 13"
abbreviation (input) H_EVENT_WIFI_ITWT_SETUP :: int where "H_EVENT_WIFI_ITWT_SETUP \<equiv> 14"
abbreviation (input) H_EVENT_WIFI_ITWT_TEARDOWN :: int where "H_EVENT_WIFI_ITWT_TEARDOWN \<equiv> 15"
abbreviation (input) H_EVENT_WIFI_ITWT_SUSPEND :: int where "H_EVENT_WIFI_ITWT_SUSPEND \<equiv> 16"
abbreviation (input) H_EVENT_WIFI_ITWT_PROBE :: int where "H_EVENT_WIFI_ITWT_PROBE \<equiv> 17"

text \<open>\<open>h_rpc_wire_event_to_host\<close>; the identifier is \<open>-1\<close> when the event is not known.\<close>

definition h_rpc_wire_event_to_host :: "int \<Rightarrow> h_err \<times> int" where
  "h_rpc_wire_event_to_host wire_id =
     (case map_of [(0, H_EVENT_WIFI_READY), (1, H_EVENT_WIFI_SCAN_DONE), (2, H_EVENT_WIFI_STA_START),
        (3, H_EVENT_WIFI_STA_STOP), (4, H_EVENT_WIFI_STA_CONNECTED), (5, H_EVENT_WIFI_STA_DISCONNECTED),
        (6, H_EVENT_WIFI_AUTHMODE_CHANGE), (12, H_EVENT_WIFI_AP_START), (13, H_EVENT_WIFI_AP_STOP),
        (14, H_EVENT_WIFI_AP_STACONNECTED), (15, H_EVENT_WIFI_AP_STADISCONNECTED), (28, H_EVENT_WIFI_ITWT_SETUP),
        (29, H_EVENT_WIFI_ITWT_TEARDOWN), (30, H_EVENT_WIFI_ITWT_PROBE), (31, H_EVENT_WIFI_ITWT_SUSPEND),
        (40, H_EVENT_WIFI_HOME_CHANNEL_CHANGE)] wire_id of
        None \<Rightarrow> (H_FAIL, - 1)
      | Some host_id \<Rightarrow> (H_OK, host_id))"

datatype app_event =
    App_AP_StaConnected bytes u8
  | App_AP_StaDisconnected bytes u8 u16
  | App_StaConnected sta_connected
  | App_StaDisconnected sta_disconnected
  | App_Simple int
  | App_StaScanDone u32 u8 u8

text \<open>
  An event composed by \<open>rpc_evt_sta_connected\<close> and its siblings on the co-processor and parsed by \<open>rpc_parse_evt\<close>.
  Both copy member by member and arrays whole. An event without arguments is sent as the first octet of its
  identifier, and translated.
\<close>

definition rpc_parse_evt :: "host_event \<Rightarrow> app_event" where
  "rpc_parse_evt e =
     (case e of
        Evt_StaConnected c \<Rightarrow> App_StaConnected \<lparr>ec_ssid = ec_ssid c, ec_ssid_len = ec_ssid_len c,
          ec_bssid = ec_bssid c, ec_channel = ec_channel c, ec_authmode = ec_authmode c, ec_aid = ec_aid c\<rparr>
      | Evt_StaDisconnected d \<Rightarrow> App_StaDisconnected \<lparr>ed_ssid = ed_ssid d, ed_ssid_len = ed_ssid_len d,
          ed_bssid = ed_bssid d, ed_reason = ed_reason d, ed_rssi = ed_rssi d\<rparr>
      | Evt_AP_StaConnected mac aid \<Rightarrow> App_AP_StaConnected mac aid
      | Evt_AP_StaDisconnected mac aid reason \<Rightarrow> App_AP_StaDisconnected mac aid reason
      | Evt_StaScanDone s n i \<Rightarrow> App_StaScanDone s n i
      | Evt_NoArgs n \<Rightarrow> App_Simple (snd (h_rpc_wire_event_to_host (uint n))))"

section \<open>The event callback\<close>

text \<open>\<open>netif_started\<close>, \<open>netif_connected\<close> and \<open>softap_started\<close>; \<open>hw_posted\<close> is what \<open>h_event_wifi_post\<close> was given.\<close>

record host_wifi =
  hw_started :: bool
  hw_connected :: bool
  hw_softap :: bool
  hw_posted :: "app_event list"

definition h_event_wifi_post :: "app_event \<Rightarrow> host_wifi \<Rightarrow> host_wifi" where
  "h_event_wifi_post e hw = hw\<lparr>hw_posted := hw_posted hw @ [e]\<rparr>"

text \<open>\<open>rpc_start\<close>; the static \<open>softap_started\<close> of the callback is not reset.\<close>

definition rpc_start :: "host_wifi \<Rightarrow> host_wifi" where
  "rpc_start hw = hw\<lparr>hw_started := False, hw_connected := False\<rparr>"

definition h_mac_is_nonzero :: "bytes \<Rightarrow> bool" where
  "h_mac_is_nonzero mac = list_ex (\<lambda>b. b \<noteq> 0) (take 6 mac)"

text \<open>The inner switch over events without arguments; \<open>is_wifi_netif_started\<close> is a stub that gives false.\<close>

definition rpc_simple_event :: "int \<Rightarrow> host_wifi \<Rightarrow> host_wifi" where
  "rpc_simple_event i hw =
     (if i = H_EVENT_WIFI_STA_START then
        (if \<not> hw_started hw then (h_event_wifi_post (App_Simple i) hw)\<lparr>hw_started := True\<rparr> else hw)
      else if i = H_EVENT_WIFI_STA_STOP then
        h_event_wifi_post (App_Simple i) (hw\<lparr>hw_started := False, hw_connected := False\<rparr>)
      else if i = H_EVENT_WIFI_AP_START then
        (if \<not> hw_softap hw then (h_event_wifi_post (App_Simple i) hw)\<lparr>hw_softap := True\<rparr> else hw)
      else if i = H_EVENT_WIFI_AP_STOP then h_event_wifi_post (App_Simple i) (hw\<lparr>hw_softap := False\<rparr>)
      else if i = H_EVENT_WIFI_HOME_CHANNEL_CHANGE then h_event_wifi_post (App_Simple i) hw
      else hw)"

definition rpc_event_callback :: "app_event \<Rightarrow> host_wifi \<Rightarrow> host_wifi" where
  "rpc_event_callback e hw =
     (case e of
        App_AP_StaConnected mac aid \<Rightarrow> if h_mac_is_nonzero mac then h_event_wifi_post e hw else hw
      | App_AP_StaDisconnected mac aid reason \<Rightarrow> if h_mac_is_nonzero mac then h_event_wifi_post e hw else hw
      | App_StaConnected c \<Rightarrow>
          if \<not> hw_connected hw \<and> hw_started hw then (h_event_wifi_post e hw)\<lparr>hw_connected := True\<rparr> else hw
      | App_StaDisconnected d \<Rightarrow> (h_event_wifi_post e hw)\<lparr>hw_connected := False\<rparr>
      | App_Simple i \<Rightarrow> rpc_simple_event i hw
      | App_StaScanDone s n k \<Rightarrow> h_event_wifi_post e hw)"

definition host_handle_event :: "host_event \<Rightarrow> host_wifi \<Rightarrow> host_wifi" where
  "host_handle_event e hw = rpc_event_callback (rpc_parse_evt e) hw"

definition host_boot :: host_wifi where
  "host_boot = \<lparr>hw_started = False, hw_connected = False, hw_softap = False, hw_posted = []\<rparr>"

section \<open>Lemmas\<close>

lemma wire_ids [simp]:
  "h_rpc_wire_event_to_host 2 = (H_OK, 2)" "h_rpc_wire_event_to_host 3 = (H_OK, 3)"
  "h_rpc_wire_event_to_host 12 = (H_OK, 6)" "h_rpc_wire_event_to_host 13 = (H_OK, 7)"
  by (simp_all add: h_rpc_wire_event_to_host_def)

text \<open>The translation is one to one on the events it knows, and only a start event of the wire starts the interface.\<close>

lemma wire_start_stop:
  "snd (h_rpc_wire_event_to_host i) = 2 \<longleftrightarrow> i = 2" "snd (h_rpc_wire_event_to_host i) = 3 \<longleftrightarrow> i = 3"
  by (simp_all add: h_rpc_wire_event_to_host_def)

lemma post_fields [simp]:
  "hw_started (h_event_wifi_post e hw) = hw_started hw" "hw_connected (h_event_wifi_post e hw) = hw_connected hw"
  "hw_softap (h_event_wifi_post e hw) = hw_softap hw"
  by (simp_all add: h_event_wifi_post_def)

lemma simple_event_flags:
  "hw_connected (rpc_simple_event i hw) \<longleftrightarrow> hw_connected hw \<and> i \<noteq> 3"
  "hw_started (rpc_simple_event i hw) \<longleftrightarrow> i = 2 \<or> hw_started hw \<and> i \<noteq> 3"
  by (auto simp: rpc_simple_event_def)

text \<open>How an event changes what the host knows of the station.\<close>

lemma host_handle_event_flags:
  "hw_connected (host_handle_event e hw) \<longleftrightarrow>
     (case e of
        Evt_StaConnected c \<Rightarrow> hw_connected hw \<or> hw_started hw
      | Evt_StaDisconnected d \<Rightarrow> False
      | Evt_NoArgs n \<Rightarrow> hw_connected hw \<and> n \<noteq> 3
      | _ \<Rightarrow> hw_connected hw)"
  "hw_started (host_handle_event e hw) \<longleftrightarrow>
     (case e of Evt_NoArgs n \<Rightarrow> n = 2 \<or> hw_started hw \<and> n \<noteq> 3 | _ \<Rightarrow> hw_started hw)"
proof -
  have n: "uint (n :: u8) = 3 \<longleftrightarrow> n = 3" "uint n = 2 \<longleftrightarrow> n = 2" for n
    by (simp_all add: word_uint_eq_iff)
  show "hw_connected (host_handle_event e hw) \<longleftrightarrow>
     (case e of
        Evt_StaConnected c \<Rightarrow> hw_connected hw \<or> hw_started hw
      | Evt_StaDisconnected d \<Rightarrow> False
      | Evt_NoArgs n \<Rightarrow> hw_connected hw \<and> n \<noteq> 3
      | _ \<Rightarrow> hw_connected hw)"
    by (cases e) (auto simp: host_handle_event_def rpc_parse_evt_def rpc_event_callback_def simple_event_flags wire_start_stop n)
  show "hw_started (host_handle_event e hw) \<longleftrightarrow>
     (case e of Evt_NoArgs n \<Rightarrow> n = 2 \<or> hw_started hw \<and> n \<noteq> 3 | _ \<Rightarrow> hw_started hw)"
    by (cases e) (auto simp: host_handle_event_def rpc_parse_evt_def rpc_event_callback_def simple_event_flags wire_start_stop n)
qed

end
