(* ===== verification/Wifi_System.thy ===== *)
theory Wifi_System
  imports Host_Wifi
begin

text \<open>
  The station on both processors: requests of the host, events of the driver, the events on their way to the host
  and the host's own view, in every order. The transport delivers the events one at a time and in order; a host
  that restarts loses the ones on the way. One request is handled at a time, in the task of the control channel; the
  handler of the driver's events runs in a task of its own. Each step is a handler run to completion, except that
  \<open>req_wifi_connect\<close> can be preempted by events after its test of \<open>station_connected\<close>.
\<close>

section \<open>Steps\<close>

text \<open>
  \<open>wy_link\<close>: the station of the driver is associated, seen from the events of the driver; \<open>wy_pending\<close>: the interrupt
  point of \<open>req_wifi_connect\<close>, what it has tested; \<open>wy_raced\<close>: since the host started, it was sent a connection that had
  ended between the test and the sending.
\<close>

record wifi_sys =
  wy_slave :: wifi_ctl
  wy_delivered :: nat
  wy_host :: host_wifi
  wy_link :: bool
  wy_pending :: "(int + bool) option"
  wy_raced :: bool

definition wifi_sys_boot :: wifi_sys where
  "wifi_sys_boot = \<lparr>wy_slave = wifi_boot, wy_delivered = 0, wy_host = host_boot, wy_link = False,
     wy_pending = None, wy_raced = False\<rparr>"

definition link_after :: "wifi_event \<Rightarrow> bool \<Rightarrow> bool" where
  "link_after ev link =
     (case ev of WIFI_EVENT_STA_CONNECTED c \<Rightarrow> True | WIFI_EVENT_STA_DISCONNECTED d \<Rightarrow> False | _ \<Rightarrow> link)"

inductive wifi_step :: "wifi_opts \<Rightarrow> wifi_sys \<Rightarrow> wifi_sys \<Rightarrow> bool" for opts where
  driver: "(\<exists>c. ev = WIFI_EVENT_STA_CONNECTED c) \<longrightarrow> \<not> wy_link s \<Longrightarrow>
     wifi_step opts s (s\<lparr>wy_slave := event_handler_wifi opts rc ev (wy_slave s), wy_link := link_after ev (wy_link s)\<rparr>)"
| init: "wy_pending s = None \<Longrightarrow> wifi_step opts s (s\<lparr>wy_slave := snd (req_wifi_init cache_tx caps num rc cfg (wy_slave s))\<rparr>)"
| deinit: "wy_pending s = None \<Longrightarrow> wifi_step opts s (s\<lparr>wy_slave := snd (req_wifi_deinit rc (wy_slave s))\<rparr>)"
| start: "wy_pending s = None \<Longrightarrow> wifi_step opts s (s\<lparr>wy_slave := snd (req_wifi_start rc mode (wy_slave s))\<rparr>)"
| stop: "wy_pending s = None \<Longrightarrow> wifi_step opts s (s\<lparr>wy_slave := snd (req_wifi_stop rc (wy_slave s))\<rparr>)"
| set_config: "wy_pending s = None \<Longrightarrow> req_wifi_set_config rc ifx pb (wy_slave s) = Some (resp, st) \<Longrightarrow> wifi_step opts s (s\<lparr>wy_slave := st\<rparr>)"
| connect_test: "wy_pending s = None \<Longrightarrow>
     wifi_step opts s (s\<lparr>wy_pending := Some (wifi_connect_test cur (wy_slave s))\<rparr>)"
| connect_act: "wy_pending s = Some test \<Longrightarrow>
     wifi_step opts s (s\<lparr>wy_slave := snd (wifi_connect_act test rc (wy_slave s)), wy_pending := None,
       wy_raced := (wy_raced s \<or> test = Inr True \<and> \<not> wc_connected (wy_slave s))\<rparr>)"
| disconnect: "wy_pending s = None \<Longrightarrow> wifi_step opts s (s\<lparr>wy_slave := snd (req_wifi_disconnect rc (wy_slave s))\<rparr>)"
| deliver: "wy_delivered s < length (wc_events (wy_slave s)) \<Longrightarrow>
     wifi_step opts s (s\<lparr>wy_host := host_handle_event (wc_events (wy_slave s) ! wy_delivered s) (wy_host s),
       wy_delivered := wy_delivered s + 1\<rparr>)"
| restart: "wifi_step opts s (s\<lparr>wy_host := host_boot, wy_delivered := length (wc_events (wy_slave s)), wy_raced := False\<rparr>)"

inductive wifi_reach :: "wifi_opts \<Rightarrow> wifi_sys \<Rightarrow> bool" for opts where
  boot: "wifi_reach opts wifi_sys_boot"
| step: "wifi_reach opts s \<Longrightarrow> wifi_step opts s s' \<Longrightarrow> wifi_reach opts s'"

text \<open>The host after all events on the way.\<close>

definition host_settled :: "wifi_sys \<Rightarrow> host_wifi" where
  "host_settled s = fold host_handle_event (drop (wy_delivered s) (wc_events (wy_slave s))) (wy_host s)"

text \<open>The receive callback of an interface as the driver was last told.\<close>

definition rxcb_on :: "bool \<Rightarrow> wifi_call list \<Rightarrow> bool" where
  "rxcb_on sta calls = fold (\<lambda>c b. case c of Drv_rxcb i v \<Rightarrow> if i = sta then v else b | _ \<Rightarrow> b) calls False"

section \<open>Invariant\<close>

definition wifi_ctl_ok :: "bool \<Rightarrow> wifi_ctl \<Rightarrow> bool" where
  "wifi_ctl_ok link st = ((wc_suppress st \<longrightarrow> \<not> wc_connected st \<and> link) \<and> (wc_connected st \<longrightarrow> link) \<and>
     rxcb_on True (wc_calls st) = wc_connected st \<and> rxcb_on False (wc_calls st) = wc_softap st \<and>
     (wc_new_recvd st \<longrightarrow> wc_new st \<noteq> None))"

definition agree :: "bool \<Rightarrow> wifi_ctl \<Rightarrow> host_wifi \<Rightarrow> bool" where
  "agree link st hw = (wifi_ctl_ok link st \<and> (hw_connected hw \<longrightarrow> wc_connected st \<and> hw_started hw))"

text \<open>What a step of the co-processor does: it appends events, and keeps the agreement once they arrive.\<close>

definition keeps_agree :: "bool \<Rightarrow> bool \<Rightarrow> wifi_ctl \<Rightarrow> wifi_ctl \<Rightarrow> bool" where
  "keeps_agree link link' st st' =
     (\<exists>es. wc_events st' = wc_events st @ es \<and>
       (\<forall>hw. agree link st hw \<longrightarrow> agree link' st' (fold host_handle_event es hw)))"

lemma rxcb_append [simp]:
  "rxcb_on sta (cs @ [c]) = (case c of Drv_rxcb i v \<Rightarrow> if i = sta then v else rxcb_on sta cs | _ \<Rightarrow> rxcb_on sta cs)"
  by (cases c) (simp_all add: rxcb_on_def)

lemma rxcb_Nil [simp]: "\<not> rxcb_on sta []"
  by (simp add: rxcb_on_def)

lemma call_fields [simp]:
  "rxcb_on i (wc_calls (drv_call c st)) = (case c of Drv_rxcb j v \<Rightarrow> if j = i then v else rxcb_on i (wc_calls st)
     | _ \<Rightarrow> rxcb_on i (wc_calls st))"
  "wc_events (drv_call c st) = wc_events st"
  "wc_connected (drv_call c st) = wc_connected st" "wc_softap (drv_call c st) = wc_softap st"
  "wc_suppress (drv_call c st) = wc_suppress st" "wc_new_recvd (drv_call c st) = wc_new_recvd st"
  "wc_new (drv_call c st) = wc_new st" "wc_connecting (drv_call c st) = wc_connecting st"
  "wc_retries (drv_call c st) = wc_retries st" "wc_lkg (drv_call c st) = wc_lkg st"
  "wc_initialized (drv_call c st) = wc_initialized st" "wc_cached (drv_call c st) = wc_cached st"
  by (simp_all add: drv_call_def)

lemma send_fields [simp]:
  "wc_calls (send_event_data_to_host e st) = wc_calls st" "wc_events (send_event_data_to_host e st) = wc_events st @ [e]"
  "wc_connected (send_event_data_to_host e st) = wc_connected st" "wc_softap (send_event_data_to_host e st) = wc_softap st"
  "wc_suppress (send_event_data_to_host e st) = wc_suppress st" "wc_new_recvd (send_event_data_to_host e st) = wc_new_recvd st"
  "wc_new (send_event_data_to_host e st) = wc_new st" "wc_connecting (send_event_data_to_host e st) = wc_connecting st"
  "wc_retries (send_event_data_to_host e st) = wc_retries st" "wc_lkg (send_event_data_to_host e st) = wc_lkg st"
  "wc_initialized (send_event_data_to_host e st) = wc_initialized st" "wc_cached (send_event_data_to_host e st) = wc_cached st"
  by (simp_all add: send_event_data_to_host_def)

text \<open>Steps that send nothing, and steps that send one event.\<close>

lemma keeps_quiet:
  assumes "wc_events st' = wc_events st" "wc_connected st' = wc_connected st"
    and "wifi_ctl_ok link st \<Longrightarrow> wifi_ctl_ok link' st'"
  shows "keeps_agree link link' st st'"
  using assms by (auto simp: keeps_agree_def agree_def)

lemma keeps_event:
  assumes "wc_events st' = wc_events st @ [e]"
    and "\<And>hw. agree link st hw \<Longrightarrow> agree link' st' (host_handle_event e hw)"
  shows "keeps_agree link link' st st'"
  using assms by (auto simp: keeps_agree_def)

lemma keeps_trans: "keeps_agree a b st st' \<Longrightarrow> keeps_agree b c st' st'' \<Longrightarrow> keeps_agree a c st st''"
  unfolding keeps_agree_def by (metis append.assoc fold_append o_apply)

lemma agree_slave: "agree link st hw \<Longrightarrow> wifi_ctl_ok link st"
  by (simp add: agree_def)

lemmas host_flags = agree_def host_handle_event_flags

lemma connected_keeps:
  assumes "\<not> link"
  shows "keeps_agree link True st (on_connected opts c st)"
proof (cases "wc_new_recvd st")
  case True
  then show ?thesis
    using assms by (intro keeps_quiet) (auto simp: on_connected_def wifi_ctl_ok_def)
next
  case False
  then show ?thesis
    using assms by (intro keeps_event [where e = "Evt_StaConnected c"]) (auto simp: on_connected_def Let_def host_flags wifi_ctl_ok_def)
qed

lemma apply_new_fields:
  assumes "apply_new_config rc st = (p, st1)"
  shows "wc_events st1 = wc_events st" "wc_connected st1 = wc_connected st" "wc_softap st1 = wc_softap st"
    "wc_suppress st1 = wc_suppress st" "wc_new st1 = wc_new st" "wc_new_recvd st1 \<longrightarrow> wc_new_recvd st"
    "rxcb_on i (wc_calls st1) = rxcb_on i (wc_calls st)" "wc_lkg st1 = wc_lkg st"
  using assms by (auto simp: apply_new_config_def Let_def split: if_splits)

lemma disconnected_keeps: "keeps_agree link False st (on_disconnected opts rc d st)"
proof -
  obtain p st1 where a: "apply_new_config rc st = (p, st1)"
    by fastforce
  note f = apply_new_fields [OF a]
  show ?thesis
  proof (cases "wc_suppress st")
    case True
    then show ?thesis
      using f unfolding keeps_agree_def
      by (intro exI [of _ "[]"]) (auto simp: on_disconnected_def a Let_def agree_def wifi_ctl_ok_def)
  next
    case False
    then show ?thesis
      using f by (intro keeps_event [where e = "Evt_StaDisconnected d"])
        (auto simp: on_disconnected_def a Let_def host_flags wifi_ctl_ok_def split: option.splits)
  qed
qed

lemma wifi_ctl_ok_cong:
  "\<lbrakk>wc_suppress st' = wc_suppress st; wc_connected st' = wc_connected st; wc_softap st' = wc_softap st;
    rxcb_on True (wc_calls st') = rxcb_on True (wc_calls st); rxcb_on False (wc_calls st') = rxcb_on False (wc_calls st);
    wc_new_recvd st' \<longrightarrow> wc_new st' \<noteq> None\<rbrakk> \<Longrightarrow> wifi_ctl_ok link st \<Longrightarrow> wifi_ctl_ok link st'"
  by (simp add: wifi_ctl_ok_def)

lemma driver_keeps:
  assumes "(\<exists>c. ev = WIFI_EVENT_STA_CONNECTED c) \<longrightarrow> \<not> link"
  shows "keeps_agree link (link_after ev link) st (event_handler_wifi opts rc ev st)"
proof (cases ev)
  case (WIFI_EVENT_STA_CONNECTED c)
  then show ?thesis using connected_keeps assms by (simp add: event_handler_wifi_def link_after_def)
next
  case (WIFI_EVENT_STA_DISCONNECTED d)
  then show ?thesis using disconnected_keeps by (simp add: event_handler_wifi_def link_after_def)
next
  case WIFI_EVENT_AP_START
  then show ?thesis
    by (cases "wc_softap st") (auto simp: event_handler_wifi_def link_after_def host_flags wifi_ctl_ok_def
      intro: keeps_quiet keeps_event [where e = "Evt_NoArgs 12"])
next
  case WIFI_EVENT_AP_STOP
  then show ?thesis
    by (cases "wc_softap st") (auto simp: event_handler_wifi_def link_after_def host_flags wifi_ctl_ok_def
      intro: keeps_quiet keeps_event [where e = "Evt_NoArgs 13"])
next
  case WIFI_EVENT_STA_START
  then show ?thesis
    by (cases "wc_connecting st") (auto simp: event_handler_wifi_def link_after_def host_flags wifi_ctl_ok_def Let_def
      intro: keeps_quiet keeps_event [where e = "Evt_NoArgs 2"])
qed (auto simp: event_handler_wifi_def link_after_def host_flags wifi_ctl_ok_def keeps_agree_def)

lemma start_keeps: "keeps_agree link link st (snd (req_wifi_start rc mode st))"
  by (auto simp: req_wifi_start_def Let_def keeps_agree_def host_flags wifi_ctl_ok_def)

lemma connect_keeps:
  assumes "\<not> (test = Inr True \<and> \<not> wc_connected st)"
  shows "keeps_agree link link st (snd (wifi_connect_act test rc st))"
proof (cases "test = Inr True")
  case True
  then show ?thesis
    using assms by (intro keeps_event [where e = "Evt_StaConnected (wc_lkg st)"]) (auto simp: wifi_connect_act_def host_flags wifi_ctl_ok_def)
next
  case False
  then show ?thesis
    by (intro keeps_quiet) (auto simp: wifi_connect_act_def Let_def wifi_ctl_ok_def split: sum.splits)
qed

lemma connect_ok: "wifi_ctl_ok link st \<Longrightarrow> wifi_ctl_ok link (snd (wifi_connect_act test rc st))"
  by (auto simp: wifi_connect_act_def Let_def wifi_ctl_ok_def split: sum.splits)

lemma set_sta_keeps: "keeps_agree link link st (esp_hosted_set_sta_config rc cfg st)"
  by (intro keeps_quiet) (auto simp: esp_hosted_set_sta_config_def Let_def wifi_ctl_ok_def)

lemma set_config_keeps:
  "req_wifi_set_config rc ifx pb st = Some (resp, st') \<Longrightarrow> keeps_agree link link st st'"
  using set_sta_keeps
  by (auto simp: req_wifi_set_config_def wifi_ctl_ok_def intro: keeps_quiet split: if_splits option.splits pb_wifi_config.splits)

lemma wrap_init_keeps: "keeps_agree link link st (snd (wrap_esp_wifi_init rc c st))"
  by (intro keeps_quiet) (auto simp: wrap_esp_wifi_init_def Let_def wifi_ctl_ok_def)

lemma init_keeps: "keeps_agree link link st (snd (req_wifi_init cache_tx caps num rc cfg st))"
  using wrap_init_keeps by (auto simp: req_wifi_init_def intro: keeps_quiet split: option.splits)

lemma calls_keep:
  "keeps_agree link link st (snd (req_wifi_deinit rc st))" "keeps_agree link link st (snd (req_wifi_stop rc st))"
  "keeps_agree link link st (snd (req_wifi_disconnect rc st))"
  by (auto simp: req_wifi_deinit_def req_wifi_stop_def req_wifi_disconnect_def wifi_ctl_ok_def intro: keeps_quiet)

text \<open>The invariant of the system: without a race the settled host agrees with the co-processor.\<close>

definition sys_ok :: "wifi_sys \<Rightarrow> bool" where
  "sys_ok s = (wy_delivered s \<le> length (wc_events (wy_slave s)) \<and> wifi_ctl_ok (wy_link s) (wy_slave s) \<and>
     (\<not> wy_raced s \<longrightarrow> agree (wy_link s) (wy_slave s) (host_settled s)))"

lemma keeps_ok: "keeps_agree link link' st st' \<Longrightarrow> wifi_ctl_ok link st \<Longrightarrow> wifi_ctl_ok link' st'"
proof -
  assume k: "keeps_agree link link' st st'" and ok: "wifi_ctl_ok link st"
  have "agree link st host_boot" using ok by (simp add: agree_def host_boot_def)
  then show ?thesis using k agree_slave by (auto simp: keeps_agree_def)
qed

lemma sys_ok_slave:
  assumes "sys_ok s" "keeps_agree (wy_link s) link (wy_slave s) st"
  shows "sys_ok (s\<lparr>wy_slave := st, wy_link := link, wy_pending := p\<rparr>)"
  using assms keeps_ok [OF assms(2)] by (auto simp: sys_ok_def keeps_agree_def host_settled_def)

lemma sys_ok_request:
  assumes "sys_ok s" "keeps_agree (wy_link s) (wy_link s) (wy_slave s) st"
  shows "sys_ok (s\<lparr>wy_slave := st\<rparr>)"
  using sys_ok_slave [OF assms, of "wy_pending s"] by simp

lemma sys_ok_connect:
  assumes "sys_ok s"
  shows "sys_ok (s\<lparr>wy_slave := snd (wifi_connect_act test rc (wy_slave s)), wy_pending := None,
    wy_raced := (wy_raced s \<or> test = Inr True \<and> \<not> wc_connected (wy_slave s))\<rparr>)"
proof (cases "test = Inr True \<and> \<not> wc_connected (wy_slave s)")
  case True
  then show ?thesis
    using assms connect_ok [of "wy_link s" "wy_slave s" test rc] by (simp add: sys_ok_def) (simp add: wifi_connect_act_def)
next
  case False
  have "sys_ok (s\<lparr>wy_slave := snd (wifi_connect_act test rc (wy_slave s)), wy_link := wy_link s, wy_pending := None\<rparr>)"
    using sys_ok_slave [OF assms connect_keeps] False by blast
  moreover have "(wy_raced s \<or> test = Inr True \<and> \<not> wc_connected (wy_slave s)) = wy_raced s" using False by blast
  ultimately show ?thesis unfolding \<open>(wy_raced s \<or> _) = _\<close> by (simp add: sys_ok_def host_settled_def)
qed

lemma sys_ok_step: "wifi_step opts s s' \<Longrightarrow> sys_ok s \<Longrightarrow> sys_ok s'"
proof (induction rule: wifi_step.induct)
  case (driver ev s rc)
  then show ?case using sys_ok_slave [where p = "wy_pending s", OF driver.prems driver_keeps [OF driver.hyps]] by simp
next
  case (deliver s)
  then show ?case
    by (simp add: sys_ok_def host_settled_def Cons_nth_drop_Suc [symmetric])
next
  case (restart s)
  then show ?case by (simp add: sys_ok_def host_settled_def agree_def host_boot_def)
next
  case (connect_test s cur)
  then show ?case by (simp add: sys_ok_def host_settled_def)
next
  case (connect_act s test rc)
  then show ?case by (blast intro: sys_ok_connect)
qed (blast intro: sys_ok_request init_keeps calls_keep start_keeps set_config_keeps)+

lemma reach_ok: "wifi_reach opts s \<Longrightarrow> sys_ok s"
proof (induction rule: wifi_reach.induct)
  case boot
  show ?case
    by (simp add: sys_ok_def host_settled_def wifi_sys_boot_def wifi_boot_def agree_def wifi_ctl_ok_def host_boot_def)
qed (rule sys_ok_step)

text \<open>The events that make a connected host give up its connection.\<close>

definition disconnecting :: "host_event \<Rightarrow> bool" where
  "disconnecting e = (case e of Evt_StaDisconnected d \<Rightarrow> True | Evt_NoArgs n \<Rightarrow> n = 3 | _ \<Rightarrow> False)"

lemma connected_until:
  "hw_connected hw \<Longrightarrow> \<forall>e \<in> set es. \<not> disconnecting e \<Longrightarrow> hw_connected (fold host_handle_event es hw)"
  by (induction es arbitrary: hw) (auto simp: host_handle_event_flags disconnecting_def split: host_event.splits)

section \<open>Initialisation of the driver\<close>

text \<open>The configuration the driver runs with.\<close>

definition driver_config :: "wifi_call list \<Rightarrow> init_config option" where
  "driver_config calls = fold (\<lambda>c d. case c of
     Drv_init cfg rc \<Rightarrow> if rc = 0 then Some cfg else d | Drv_deinit \<Rightarrow> None | _ \<Rightarrow> d) calls None"

lemma driver_config_call [simp]:
  "driver_config (wc_calls (drv_call c st)) =
     (case c of Drv_init cfg rc \<Rightarrow> if rc = 0 then Some cfg else driver_config (wc_calls st)
      | Drv_deinit \<Rightarrow> None | _ \<Rightarrow> driver_config (wc_calls st))"
  by (cases c) (simp_all add: drv_call_def driver_config_def)

definition init_ok :: "wifi_ctl \<Rightarrow> bool" where
  "init_ok st = (wc_initialized st \<longrightarrow> wc_cached st \<noteq> None \<and> driver_config (wc_calls st) = wc_cached st)"

lemma init_ok_cong:
  "wc_initialized st' = wc_initialized st \<Longrightarrow> wc_cached st' = wc_cached st \<Longrightarrow>
   driver_config (wc_calls st') = driver_config (wc_calls st) \<Longrightarrow> init_ok st \<Longrightarrow> init_ok st'"
  by (simp add: init_ok_def)

lemma wrap_init_ok: "init_ok st \<Longrightarrow> init_ok (snd (wrap_esp_wifi_init rc c st))"
  by (auto simp: wrap_esp_wifi_init_def Let_def init_ok_def)

lemma disconnected_init: "init_ok st \<Longrightarrow> init_ok (on_disconnected opts rc d st)"
  by (auto simp: on_disconnected_def apply_new_config_def Let_def init_ok_def split: option.splits if_splits)

lemma event_init_ok: "init_ok st \<Longrightarrow> init_ok (event_handler_wifi opts rc ev st)"
  using disconnected_init
  by (cases ev) (auto simp: event_handler_wifi_def on_connected_def Let_def init_ok_def)

lemma step_init_ok: "wifi_step opts s s' \<Longrightarrow> init_ok (wy_slave s) \<Longrightarrow> init_ok (wy_slave s')"
proof (induction rule: wifi_step.induct)
  case (driver ev s rc)
  then show ?case using event_init_ok by simp
next
  case (init s cache_tx caps num rc cfg)
  then show ?case using wrap_init_ok by (auto simp: req_wifi_init_def split: option.splits)
next
  case (deinit s rc)
  then show ?case by (simp add: req_wifi_deinit_def init_ok_def)
next
  case (set_config rc ifx pb s resp st)
  then show ?case
    by (auto simp: req_wifi_set_config_def esp_hosted_set_sta_config_def Let_def init_ok_def
      split: if_splits option.splits pb_wifi_config.splits)
qed (auto simp: req_wifi_start_def req_wifi_stop_def wifi_connect_act_def req_wifi_disconnect_def Let_def init_ok_def
  split: option.splits sum.splits)

lemma reach_init_ok: "wifi_reach opts s \<Longrightarrow> init_ok (wy_slave s)"
proof (induction rule: wifi_reach.induct)
  case boot
  show ?case by (simp add: wifi_sys_boot_def wifi_boot_def init_ok_def)
qed (rule step_init_ok)

lemma not_changed_refl: "\<not> wifi_init_config_changed (Some c) c"
  by (simp add: wifi_init_config_changed_def)

section \<open>Properties\<close>

text \<open>
  C33: the host never takes the station for connected when it is not, but for one race. Requests are handled one at a
  time; handlers run to completion, but \<open>req_wifi_connect\<close> may be preempted by any events of the driver after
  its test of \<open>station_connected\<close>. In whatever order requests, driver events, deliveries and host restarts come, unless
  a connect request has found the station connected and was preempted by the end of that connection: once
  the events on the way have arrived, a connected host means a connected co-processor, an associated driver and a
  started interface; until then a connected host is wrong only while an event that corrects it is on the way. The receive
  callbacks of both interfaces are, race or not, registered exactly while the station is connected and the soft-AP is up.
\<close>
theorem station_view_agrees:
  assumes "wifi_reach opts s"
  shows "(\<not> wy_raced s \<longrightarrow>
      (hw_connected (host_settled s) \<longrightarrow> wc_connected (wy_slave s) \<and> wy_link s \<and> hw_started (host_settled s)) \<and>
      (hw_connected (wy_host s) \<longrightarrow> wc_connected (wy_slave s) \<or>
        (\<exists>e \<in> set (drop (wy_delivered s) (wc_events (wy_slave s))). disconnecting e))) \<and>
    (rxcb_on True (wc_calls (wy_slave s)) \<longleftrightarrow> wc_connected (wy_slave s)) \<and>
    (rxcb_on False (wc_calls (wy_slave s)) \<longleftrightarrow> wc_softap (wy_slave s))"
  using reach_ok [OF assms] connected_until [of "wy_host s" "drop (wy_delivered s) (wc_events (wy_slave s))"]
  unfolding sys_ok_def agree_def wifi_ctl_ok_def host_settled_def by blast

definition demo_gone :: sta_disconnected where
  "demo_gone = \<lparr>ed_ssid = replicate 32 0, ed_ssid_len = 0, ed_bssid = replicate 6 0, ed_reason = 8, ed_rssi = 0\<rparr>"

text \<open>
  The race: a connect request finds the station connected, the station is disconnected, and the request then sends the
  host the connection that has ended. No event that would correct the host is on the way.
\<close>

lemma connect_preempted:
  assumes "wifi_reach opts s" "wy_pending s = None" "wc_connected (wy_slave s)" "\<not> wc_new_recvd (wy_slave s)"
    and "c_str (st_ssid (c :: sta_config)) \<noteq> []" "hw_started (host_settled s)" "wo_auto_retry opts = None"
  shows "\<exists>s'. wifi_reach opts s' \<and> wy_raced s' \<and> wy_pending s' = None \<and> hw_connected (host_settled s') \<and>
    \<not> wc_connected (wy_slave s') \<and> \<not> wc_connecting (wy_slave s') \<and> \<not> wy_link s'"
proof -
  let ?t = "wifi_connect_test (Some c) (wy_slave s)" and ?gone = "WIFI_EVENT_STA_DISCONNECTED demo_gone"
  define s1 where "s1 = s\<lparr>wy_pending := Some ?t\<rparr>"
  define s2 where "s2 = s1\<lparr>wy_slave := event_handler_wifi opts 0 ?gone (wy_slave s1), wy_link := link_after ?gone (wy_link s1)\<rparr>"
  define s3 where "s3 = s2\<lparr>wy_slave := snd (wifi_connect_act ?t 0 (wy_slave s2)), wy_pending := None,
    wy_raced := (wy_raced s2 \<or> ?t = Inr True \<and> \<not> wc_connected (wy_slave s2))\<rparr>"
  have t: "?t = Inr True" using assms(3,5) by (simp add: wifi_connect_test_def)
  have sup: "\<not> wc_suppress (wy_slave s)" using reach_ok [OF assms(1)] assms(3) by (auto simp: sys_ok_def wifi_ctl_ok_def)
  have d: "wy_delivered s \<le> length (wc_events (wy_slave s))" using reach_ok [OF assms(1)] by (simp add: sys_ok_def)
  have "wifi_step opts s s1" unfolding s1_def by (rule wifi_step.connect_test [OF assms(2)])
  moreover have "wifi_step opts s1 s2" unfolding s2_def by (rule wifi_step.driver) simp
  moreover have "wifi_step opts s2 s3" unfolding s3_def by (rule wifi_step.connect_act) (simp add: s2_def s1_def)
  ultimately have "wifi_reach opts s3" using assms(1) by (blast intro: wifi_reach.step)
  moreover have "wy_slave s2 = (wy_slave s)\<lparr>wc_connected := False, wc_connecting := False,
      wc_calls := wc_calls (wy_slave s) @ [Drv_rxcb True False], wc_events := wc_events (wy_slave s) @ [Evt_StaDisconnected demo_gone]\<rparr>"
    using sup assms(4,7) by (simp add: s2_def s1_def event_handler_wifi_def on_disconnected_def apply_new_config_def Let_def
      drv_call_def send_event_data_to_host_def)
  ultimately show ?thesis
    using t d assms(6)
    by (intro exI [of _ s3]) (simp add: s3_def s2_def s1_def link_after_def wifi_connect_act_def host_settled_def
      send_event_data_to_host_def host_handle_event_flags)
qed

text \<open>
  A host that restarts finds its station again. Starting the driver and connecting, the requests an application
  makes anyway, give it a start event and, if the co-processor stayed connected, the event of that connection; the
  driver is not asked to connect again.
\<close>
lemma host_restart_resyncs:
  assumes "mode = 1 \<or> mode = 3" "c_str (st_ssid c) \<noteq> []" "wc_connected st"
    and "st' = snd (req_wifi_connect (Some c) rc (snd (req_wifi_start 0 (Some mode) st)))"
    and "hw = fold host_handle_event (drop (length (wc_events st)) (wc_events st')) host_boot"
  shows "hw_started hw \<and> hw_connected hw \<and> wc_calls st' = wc_calls st @ [Drv_start] \<and>
    hw_posted hw = [App_Simple H_EVENT_WIFI_STA_START] @ (if mode = 3 then [App_Simple H_EVENT_WIFI_AP_START] else []) @
      [App_StaConnected (wc_lkg st)]"
  using assms(1)
proof
  assume "mode = 1"
  then show ?thesis
    using assms(2-5) by (simp add: req_wifi_start_def req_wifi_connect_def wifi_connect_test_def wifi_connect_act_def drv_call_def send_event_data_to_host_def
      host_handle_event_def rpc_parse_evt_def rpc_event_callback_def rpc_simple_event_def h_event_wifi_post_def host_boot_def)
next
  assume "mode = 3"
  then show ?thesis
    using assms(2-5) by (simp add: req_wifi_start_def req_wifi_connect_def wifi_connect_test_def wifi_connect_act_def drv_call_def send_event_data_to_host_def
      host_handle_event_def rpc_parse_evt_def rpc_event_callback_def rpc_simple_event_def h_event_wifi_post_def host_boot_def)
qed

text \<open>A run of the demonstration: connect, a disconnection on the way, and a host that still believes in its connection.\<close>

definition demo_opts :: wifi_opts where
  "demo_opts = \<lparr>wo_auto_start = False, wo_auto_retry = None\<rparr>"

definition demo_sys :: wifi_sys where
  "demo_sys = \<lparr>wy_slave = event_handler_wifi demo_opts 0 (WIFI_EVENT_STA_DISCONNECTED demo_gone)
       (event_handler_wifi demo_opts 0 (WIFI_EVENT_STA_CONNECTED zero_connected)
         (event_handler_wifi demo_opts 0 WIFI_EVENT_STA_START wifi_boot)),
     wy_delivered = 2,
     wy_host = host_handle_event (Evt_StaConnected zero_connected) (host_handle_event (Evt_NoArgs 2) host_boot),
     wy_link = False, wy_pending = None, wy_raced = False\<rparr>"

lemma demo_wifi_slave:
  "event_handler_wifi demo_opts 0 WIFI_EVENT_STA_START wifi_boot = wifi_boot\<lparr>wc_events := [Evt_NoArgs 2]\<rparr>"
  "event_handler_wifi demo_opts 0 (WIFI_EVENT_STA_CONNECTED zero_connected) (wifi_boot\<lparr>wc_events := [Evt_NoArgs 2]\<rparr>) =
     wifi_boot\<lparr>wc_events := [Evt_NoArgs 2, Evt_StaConnected zero_connected], wc_calls := [Drv_rxcb True True],
       wc_connected := True\<rparr>"
  by (simp_all add: event_handler_wifi_def on_connected_def send_event_data_to_host_def drv_call_def wifi_boot_def
    demo_opts_def Let_def)

lemma demo_gone_slave:
  "event_handler_wifi demo_opts 0 (WIFI_EVENT_STA_DISCONNECTED demo_gone)
     (wifi_boot\<lparr>wc_events := [Evt_NoArgs 2, Evt_StaConnected zero_connected], wc_calls := [Drv_rxcb True True],
       wc_connected := True\<rparr>) =
   wifi_boot\<lparr>wc_events := [Evt_NoArgs 2, Evt_StaConnected zero_connected, Evt_StaDisconnected demo_gone],
     wc_calls := [Drv_rxcb True True, Drv_rxcb True False]\<rparr>"
  by (simp add: event_handler_wifi_def on_disconnected_def apply_new_config_def send_event_data_to_host_def drv_call_def
    wifi_boot_def demo_opts_def Let_def)

lemma demo_reach: "wifi_reach demo_opts demo_sys"
proof -
  let ?s1 = "wifi_sys_boot\<lparr>wy_slave := wifi_boot\<lparr>wc_events := [Evt_NoArgs 2]\<rparr>\<rparr>"
  let ?st2 = "wifi_boot\<lparr>wc_events := [Evt_NoArgs 2, Evt_StaConnected zero_connected], wc_calls := [Drv_rxcb True True],
       wc_connected := True\<rparr>"
  let ?s2 = "?s1\<lparr>wy_slave := ?st2, wy_link := True\<rparr>"
  let ?s3 = "?s2\<lparr>wy_host := host_handle_event (Evt_NoArgs 2) host_boot, wy_delivered := 1\<rparr>"
  let ?s4 = "?s3\<lparr>wy_host := host_handle_event (Evt_StaConnected zero_connected) (host_handle_event (Evt_NoArgs 2) host_boot),
      wy_delivered := 2\<rparr>"
  have "wifi_step demo_opts wifi_sys_boot ?s1"
    using wifi_step.driver [of WIFI_EVENT_STA_START wifi_sys_boot demo_opts 0]
    by (simp add: wifi_sys_boot_def link_after_def demo_wifi_slave)
  then have 1: "wifi_reach demo_opts ?s1" by (rule wifi_reach.step [OF wifi_reach.boot])
  have "wifi_step demo_opts ?s1 ?s2"
    using wifi_step.driver [of "WIFI_EVENT_STA_CONNECTED zero_connected" ?s1 demo_opts 0]
    by (simp add: wifi_sys_boot_def link_after_def demo_wifi_slave)
  then have 2: "wifi_reach demo_opts ?s2" by (rule wifi_reach.step [OF 1])
  have "wifi_step demo_opts ?s2 ?s3"
    using wifi_step.deliver [of ?s2 demo_opts] by (simp add: wifi_sys_boot_def)
  then have 3: "wifi_reach demo_opts ?s3" by (rule wifi_reach.step [OF 2])
  have "wifi_step demo_opts ?s3 ?s4"
    using wifi_step.deliver [of ?s3 demo_opts] by (simp add: numeral_2_eq_2)
  then have 4: "wifi_reach demo_opts ?s4" by (rule wifi_reach.step [OF 3])
  have "wifi_step demo_opts ?s4 demo_sys"
    using wifi_step.driver [of "WIFI_EVENT_STA_DISCONNECTED demo_gone" ?s4 demo_opts 0]
    by (simp add: wifi_sys_boot_def link_after_def demo_wifi_slave demo_gone_slave demo_sys_def)
  then show ?thesis by (rule wifi_reach.step [OF 4])
qed

theorem station_view_agrees_witness:
  "hw_connected (wy_host demo_sys) \<and> \<not> wc_connected (wy_slave demo_sys) \<and>
   (\<exists>e \<in> set (drop (wy_delivered demo_sys) (wc_events (wy_slave demo_sys))). disconnecting e)"
proof -
  have "hw_connected (wy_host demo_sys)" "\<not> wc_connected (wy_slave demo_sys)"
    by (simp_all add: demo_sys_def demo_wifi_slave demo_gone_slave host_handle_event_flags) (simp add: wifi_boot_def)
  moreover have "\<not> wy_raced demo_sys" by (simp add: demo_sys_def)
  ultimately show ?thesis using station_view_agrees [OF demo_reach] by blast
qed

text \<open>Configurations that come while the station is connecting wait; the last one counts.\<close>

lemma set_while_connecting:
  "wc_connecting st \<Longrightarrow> cfgs \<noteq> [] \<Longrightarrow>
   fold (\<lambda>(rc, c). esp_hosted_set_sta_config rc c) cfgs st = st\<lparr>wc_new := Some (snd (last cfgs)), wc_new_recvd := True\<rparr>"
proof (induction cfgs arbitrary: st)
  case (Cons a cfgs)
  then show ?case
    by (cases "cfgs = []") (auto simp: esp_hosted_set_sta_config_def split: prod.splits)
qed simp

text \<open>What the automatic reconnection does at the end of a connection: whether it connects, and the retries it has counted.\<close>

definition auto_retries :: "wifi_opts \<Rightarrow> wifi_ctl \<Rightarrow> bool" where
  "auto_retries opts st = (case wo_auto_retry opts of None \<Rightarrow> False | Some n \<Rightarrow> wc_retries st < n)"

definition next_retries :: "wifi_opts \<Rightarrow> wifi_ctl \<Rightarrow> nat" where
  "next_retries opts st =
     (case wo_auto_retry opts of None \<Rightarrow> wc_retries st | Some n \<Rightarrow> if wc_retries st < n then wc_retries st + 1 else 0)"

text \<open>
  C34: a configuration set while the station is connecting is not lost. It waits until the attempt ends: if the
  attempt succeeds after all, the driver gets the new configuration and is disconnected, and the host sees neither
  the connection nor its end; if it fails, the host sees the failure. If the driver accepts the configuration at the end
  of the attempt (\<open>rc\<close> is zero), it starts connecting with it, and the host is told when that succeeds. If the driver
  refuses it, no connection is started but by the automatic reconnection, and the configuration stays pending: the driver
  gets it again at the end of the next attempt, and then connects with it. The first attempt of an automatic
  reconnection, if that is enabled, comes after the new configuration has been given to the driver. Handlers run to
  completion.
\<close>
theorem new_config_applied:
  assumes "wc_connecting st" "\<not> wc_suppress st" "cfgs \<noteq> []"
    and "waiting = fold (\<lambda>(rc, c). esp_hosted_set_sta_config rc c) cfgs st" "new = snd (last cfgs)"
    and "succeeded = event_handler_wifi opts rc (WIFI_EVENT_STA_DISCONNECTED d)
      (event_handler_wifi opts rc0 (WIFI_EVENT_STA_CONNECTED c) waiting)"
    and "failed = event_handler_wifi opts rc (WIFI_EVENT_STA_DISCONNECTED d) waiting"
    and "ended \<in> {succeeded, failed}"
  shows "wc_calls waiting = wc_calls st \<and>
    wc_calls succeeded = wc_calls st @ [Drv_set_config new, Drv_disconnect, Drv_set_config new, Drv_rxcb True False] @
      (if rc = 0 then [Drv_connect] else []) \<and>
    wc_events succeeded = wc_events st \<and>
    wc_calls failed = wc_calls st @ [Drv_set_config new, Drv_rxcb True False] @
      (if rc = 0 then [Drv_connect] else []) @ (if auto_retries opts st then [Drv_connect] else []) \<and>
    wc_events failed = wc_events st @ [Evt_StaDisconnected d] \<and> \<not> wc_suppress ended \<and> \<not> wc_connected ended \<and>
    (rc = 0 \<longrightarrow> wc_connecting ended \<and> \<not> wc_new_recvd ended \<and>
      wc_events (event_handler_wifi opts rc' (WIFI_EVENT_STA_CONNECTED c') ended) = wc_events ended @ [Evt_StaConnected c'] \<and>
      wc_connected (event_handler_wifi opts rc' (WIFI_EVENT_STA_CONNECTED c') ended)) \<and>
    (rc \<noteq> 0 \<longrightarrow> \<not> wc_connecting ended \<and> wc_new_recvd ended \<and>
      wc_calls (event_handler_wifi opts 0 (WIFI_EVENT_STA_DISCONNECTED d') ended) =
        wc_calls ended @ [Drv_set_config new, Drv_rxcb True False, Drv_connect] @
          (if auto_retries opts ended then [Drv_connect] else []))"
proof -
  have 1: "waiting = st\<lparr>wc_new := Some new, wc_new_recvd := True\<rparr>"
    using set_while_connecting [OF assms(1,3)] assms(4,5) by simp
  have 2: "succeeded = st\<lparr>wc_new := Some new, wc_new_recvd := (rc \<noteq> 0), wc_connected := False, wc_connecting := (rc = 0),
      wc_suppress := False,
      wc_calls := wc_calls st @ [Drv_set_config new, Drv_disconnect, Drv_set_config new, Drv_rxcb True False] @
        (if rc = 0 then [Drv_connect] else [])\<rparr>"
    by (simp add: assms(6) 1 event_handler_wifi_def on_connected_def on_disconnected_def apply_new_config_def Let_def
      drv_call_def)
  have 3: "failed = st\<lparr>wc_new := Some new, wc_new_recvd := (rc \<noteq> 0), wc_connected := False, wc_connecting := (rc = 0),
      wc_calls := wc_calls st @ [Drv_set_config new, Drv_rxcb True False] @
        (if rc = 0 then [Drv_connect] else []) @ (if auto_retries opts st then [Drv_connect] else []),
      wc_events := wc_events st @ [Evt_StaDisconnected d], wc_retries := next_retries opts st\<rparr>"
    using assms(2) by (simp add: assms(7) 1 event_handler_wifi_def on_disconnected_def apply_new_config_def Let_def
      drv_call_def send_event_data_to_host_def auto_retries_def next_retries_def split: option.splits)
  have 4: "wc_new_recvd ended = (rc \<noteq> 0)" "\<not> wc_suppress ended" "wc_connecting ended = (rc = 0)" "\<not> wc_connected ended"
      "wc_new ended = Some new"
    using assms(2,8) 2 3 by auto
  have 5: "wc_events (event_handler_wifi opts rc' (WIFI_EVENT_STA_CONNECTED c') ended) = wc_events ended @ [Evt_StaConnected c'] \<and>
    wc_connected (event_handler_wifi opts rc' (WIFI_EVENT_STA_CONNECTED c') ended)" if "rc = 0"
    using 4(1) that by (simp add: event_handler_wifi_def on_connected_def Let_def)
  have 6: "wc_calls (event_handler_wifi opts 0 (WIFI_EVENT_STA_DISCONNECTED d') ended) =
        wc_calls ended @ [Drv_set_config new, Drv_rxcb True False, Drv_connect] @
          (if auto_retries opts ended then [Drv_connect] else [])" if "rc \<noteq> 0"
    using 4 that by (simp add: event_handler_wifi_def on_disconnected_def apply_new_config_def Let_def drv_call_def
      send_event_data_to_host_def auto_retries_def split: option.splits)
  show ?thesis using 1 2 3 4 5 6 by simp
qed

theorem new_config_applied_witness:
  "\<exists>st cfg. wc_calls st = [Drv_set_config cfg, Drv_rxcb True False, Drv_connect] \<and>
     wc_connected (event_handler_wifi demo_opts 0 (WIFI_EVENT_STA_CONNECTED zero_connected) st)"
proof -
  let ?st = "wifi_boot\<lparr>wc_connecting := True\<rparr>" and ?cfg = "decode_sta_config (compose_sta_config demo_sta)"
  define st3 where "st3 = event_handler_wifi demo_opts 0 (WIFI_EVENT_STA_DISCONNECTED demo_gone)
      (fold (\<lambda>(rc, c). esp_hosted_set_sta_config rc c) [(0, ?cfg)] ?st)"
  have pre: "\<not> wc_suppress ?st" "[(0 :: int, ?cfg)] \<noteq> []" "wc_connecting ?st" "wc_calls ?st = []" "\<not> auto_retries demo_opts ?st"
    by (simp_all add: wifi_boot_def demo_opts_def auto_retries_def)
  note app = new_config_applied [OF pre(3,1,2) refl refl refl refl insertI2 [OF insertI1],
      where opts = demo_opts and d = demo_gone and c = zero_connected and c' = zero_connected and rc = 0 and rc0 = 0 and rc' = 0,
      folded st3_def]
  have "wc_calls st3 = [Drv_set_config ?cfg, Drv_rxcb True False, Drv_connect]"
    using app pre(4,5) by simp
  moreover have "wc_connected (event_handler_wifi demo_opts 0 (WIFI_EVENT_STA_CONNECTED zero_connected) st3)"
    using app by blast
  ultimately show ?thesis by (intro exI conjI)
qed

text \<open>
  An initialisation that is answered with success leaves the driver running with a configuration that agrees
  with the request, as merged with the driver's own, on every member that is compared. A request that only differs
  from the running configuration in the number or type of management buffers, the HE queue or the HE-SIG-B dump is
  answered with success and does nothing, though these members are taken over from the host as well.
\<close>
lemma init_applies_compared_fields:
  assumes "wifi_reach opts s" "req_wifi_init cache_tx caps num rc (Some src) (wy_slave s) = (0, st')"
    and "merged = get_merged_init_config cache_tx caps num src"
  shows "(\<exists>c. driver_config (wc_calls st') = Some c \<and> \<not> wifi_init_config_changed (Some merged) c) \<and>
    wc_initialized st' \<and>
    (\<forall>n t q h. req_wifi_init cache_tx caps num rc' (Some (src\<lparr>ic_rx_mgmt_buf_num := n, ic_rx_mgmt_buf_type := t,
        ic_tx_hetb_queue_num := q, ic_dump_hesigb_enable := h\<rparr>)) st' = (0, st'))"
proof -
  have ok: "init_ok (wy_slave s)" by (rule reach_init_ok [OF assms(1)])
  have w: "wrap_esp_wifi_init rc merged (wy_slave s) = (0, st')"
    using assms(2,3) by (simp add: req_wifi_init_def)
  have "wc_initialized st' \<and> (\<exists>c. driver_config (wc_calls st') = Some c \<and> wc_cached st' = Some c \<and>
      \<not> wifi_init_config_changed (Some merged) c)"
    using w ok not_changed_refl
    by (auto simp: wrap_esp_wifi_init_def Let_def init_ok_def split: if_splits option.splits)
  then obtain c where c: "wc_initialized st'" "driver_config (wc_calls st') = Some c" "wc_cached st' = Some c"
      "\<not> wifi_init_config_changed (Some merged) c"
    by blast
  have "req_wifi_init cache_tx caps num rc' (Some (src\<lparr>ic_rx_mgmt_buf_num := n, ic_rx_mgmt_buf_type := t,
        ic_tx_hetb_queue_num := q, ic_dump_hesigb_enable := h\<rparr>)) st' = (0, st')" for n t q h
  proof -
    let ?src = "src\<lparr>ic_rx_mgmt_buf_num := n, ic_rx_mgmt_buf_type := t, ic_tx_hetb_queue_num := q, ic_dump_hesigb_enable := h\<rparr>"
    have "\<not> wifi_init_config_changed (Some (get_merged_init_config cache_tx caps num ?src)) c"
      using c(4) unfolding assms(3)
      by (cases "cache_tx \<or> caps = ic_feature_caps src") (simp_all add: get_merged_init_config_def wifi_init_config_changed_def)
    then show ?thesis using c(1,3) by (simp add: req_wifi_init_def wrap_esp_wifi_init_def)
  qed
  with c show ?thesis by blast
qed

definition demo_init_config :: init_config where
  "demo_init_config = \<lparr>ic_static_rx_buf_num = 10, ic_dynamic_rx_buf_num = 32, ic_tx_buf_type = 1, ic_static_tx_buf_num = 0,
     ic_dynamic_tx_buf_num = 32, ic_rx_mgmt_buf_type = 0, ic_rx_mgmt_buf_num = 5, ic_cache_tx_buf_num = 0, ic_csi_enable = 0,
     ic_ampdu_rx_enable = 1, ic_ampdu_tx_enable = 1, ic_amsdu_tx_enable = 0, ic_nvs_enable = 1, ic_nano_enable = 0,
     ic_rx_ba_win = 6, ic_wifi_task_core_id = 0, ic_beacon_max_len = 752, ic_mgmt_sbuf_num = 32, ic_feature_caps = 1,
     ic_sta_disconnected_pm = True, ic_espnow_max_encrypt_num = 7, ic_tx_hetb_queue_num = 3, ic_dump_hesigb_enable = 0,
     ic_magic = 0x1F2F3F4F\<rparr>"

end
