(* ===== verification/Wifi_Scan.thy ===== *)
theory Wifi_Scan
  imports Wifi_Config Rpc_Message Serial_Tlv
begin

unbundle bit_operations_syntax

text \<open>
  Scanning for access points from the host: the request (\<open>compose_rpc_req\<close> of \<open>src/host/core/src/h_rpc_req.c\<close>,
  \<open>req_wifi_scan_start\<close> of \<open>src/slave/main/slave_wifi_std.c\<close>), the records the Wi-Fi driver has found on their way
  into the messages (\<open>copy_ap_record_to_rpc_struct\<close> and the three requests that use it), back into the structure of
  the host (\<open>rpc_copy_ap_record\<close>, \<open>rpc_parse_rsp\<close> of \<open>src/host/core/src/h_rpc_rsp.c\<close>) and to the application
  (\<open>src/host/core/src/h_rpc_wrap.c\<close>). Structures are represented as in \<open>Wifi_Config\<close>; 8-bit signed members are octets.
\<close>

section \<open>The structures\<close>

text \<open>\<open>wifi_ap_record_t\<close> of the driver, with its country and HE parts.\<close>

record ap_record =
  ar_bssid :: bytes
  ar_ssid :: bytes
  ar_primary :: u8
  ar_second :: u32
  ar_rssi :: u8
  ar_authmode :: u32
  ar_pairwise_cipher :: u32
  ar_group_cipher :: u32
  ar_ant :: u32
  ar_phy_11b :: bool
  ar_phy_11g :: bool
  ar_phy_11n :: bool
  ar_phy_lr :: bool
  ar_phy_11a :: bool
  ar_phy_11ac :: bool
  ar_phy_11ax :: bool
  ar_wps :: bool
  ar_ftm_responder :: bool
  ar_ftm_initiator :: bool
  ar_reserved :: "22 word"
  ar_cc :: bytes
  ar_schan :: u8
  ar_nchan :: u8
  ar_max_tx_power :: u8
  ar_policy :: u32
  ar_bss_color :: "6 word"
  ar_partial_bss_color :: bool
  ar_bss_color_disabled :: bool
  ar_bssid_index :: u8
  ar_bandwidth :: u32
  ar_vht_ch_freq1 :: u8
  ar_vht_ch_freq2 :: u8

text \<open>\<open>WifiApRecord\<close>; \<open>WifiCountry\<close> as a record, \<open>WifiHeApInfo\<close> as its two members.\<close>

record pb_country =
  pc_cc :: bytes
  pc_schan :: u32
  pc_nchan :: u32
  pc_max_tx_power :: u32
  pc_policy :: u32

record pb_ap_record =
  pr_bssid :: bytes
  pr_ssid :: bytes
  pr_primary :: u32
  pr_second :: u32
  pr_rssi :: u32
  pr_authmode :: u32
  pr_pairwise_cipher :: u32
  pr_group_cipher :: u32
  pr_ant :: u32
  pr_bitmask :: u32
  pr_country :: "pb_country option"
  pr_he_ap :: "(u32 \<times> u32) option"
  pr_bandwidth :: u32
  pr_vht_ch_freq1 :: u32
  pr_vht_ch_freq2 :: u32

text \<open>\<open>h_wifi_ap_record_t\<close>.\<close>

record h_ap_record =
  hr_bssid :: bytes
  hr_ssid :: bytes
  hr_ssid_len :: u8
  hr_primary_channel :: u8
  hr_second_channel :: u8
  hr_rssi :: u8
  hr_authmode :: u8
  hr_pairwise_cipher :: u8
  hr_group_cipher :: u8
  hr_beacon_interval :: u16
  hr_country :: bytes
  hr_country_len :: u8
  hr_phy_11b :: bool
  hr_phy_11g :: bool
  hr_phy_11n :: bool
  hr_phy_lr :: bool
  hr_wps :: bool

definition zero_ap_record :: h_ap_record where
  "zero_ap_record = \<lparr>hr_bssid = replicate 6 0, hr_ssid = replicate 32 0, hr_ssid_len = 0, hr_primary_channel = 0,
     hr_second_channel = 0, hr_rssi = 0, hr_authmode = 0, hr_pairwise_cipher = 0, hr_group_cipher = 0,
     hr_beacon_interval = 0, hr_country = replicate 3 0, hr_country_len = 0, hr_phy_11b = False, hr_phy_11g = False,
     hr_phy_11n = False, hr_phy_lr = False, hr_wps = False\<rparr>"

section \<open>Co-processor\<close>

definition ap_record_bitmask :: "ap_record \<Rightarrow> u32" where
  "ap_record_bitmask r =
     (let m = h_set_bit 0 (ar_phy_11b r) 0;
          m = h_set_bit 1 (ar_phy_11g r) m;
          m = h_set_bit 2 (ar_phy_11n r) m;
          m = h_set_bit 3 (ar_phy_lr r) m;
          m = h_set_bit 8 (ar_phy_11a r) m;
          m = h_set_bit 9 (ar_phy_11ac r) m;
          m = h_set_bit 4 (ar_phy_11ax r) m;
          m = h_set_bit 5 (ar_wps r) m;
          m = h_set_bit 6 (ar_ftm_responder r) m;
          m = h_set_bit 7 (ar_ftm_initiator r) m
      in m OR push_bit 10 (ucast (ar_reserved r)))"

definition he_ap_bitmask :: "ap_record \<Rightarrow> u32" where
  "he_ap_bitmask r =
     (let m = ucast (ar_bss_color r) AND 0x3F;
          m = h_set_bit 6 (ar_partial_bss_color r) m
      in h_set_bit 7 (ar_bss_color_disabled r) m)"

text \<open>
  \<open>copy_ap_record_to_rpc_struct\<close>: \<open>mem\<close> are the results of its three allocations; \<open>None\<close> is its \<open>FAILURE\<close>.
\<close>

definition copy_ap_record_to_rpc_struct :: "(nat \<Rightarrow> bool) \<Rightarrow> ap_record \<Rightarrow> pb_ap_record option" where
  "copy_ap_record_to_rpc_struct mem r =
     (if mem 0 \<and> mem 1 \<and> mem 2 then Some \<lparr>
        pr_bssid = take BSSID_BYTES_SIZE (ar_bssid r),
        pr_ssid = resp_copy_str (ar_ssid r) SSID_LENGTH,
        pr_primary = ucast (ar_primary r),
        pr_second = ar_second r,
        pr_rssi = scast (ar_rssi r),
        pr_authmode = ar_authmode r,
        pr_pairwise_cipher = ar_pairwise_cipher r,
        pr_group_cipher = ar_group_cipher r,
        pr_ant = ar_ant r,
        pr_bitmask = ap_record_bitmask r,
        pr_country = Some \<lparr>pc_cc = ar_cc r, pc_schan = ucast (ar_schan r), pc_nchan = ucast (ar_nchan r),
          pc_max_tx_power = scast (ar_max_tx_power r), pc_policy = ar_policy r\<rparr>,
        pr_he_ap = Some (he_ap_bitmask r, ucast (ar_bssid_index r)),
        pr_bandwidth = ar_bandwidth r,
        pr_vht_ch_freq1 = ucast (ar_vht_ch_freq1 r),
        pr_vht_ch_freq2 = ucast (ar_vht_ch_freq2 r)\<rparr>
      else None)"

abbreviation (input) SLAVE_FAILURE :: int where "SLAVE_FAILURE \<equiv> -1"

text \<open>
  Allocation and contents of the record of a reply: its status and the record, \<open>None\<close> when it is null or incomplete,
  which a status says. \<open>mem 0\<close>..\<open>mem 2\<close>: the three elements; \<open>mem 3\<close>..\<open>mem 5\<close>: the copies.
\<close>

definition fill_ap_record :: "(nat \<Rightarrow> bool) \<Rightarrow> ap_record \<Rightarrow> int \<times> pb_ap_record option" where
  "fill_ap_record mem r =
     (if \<not> mem 0 \<or> \<not> mem 1 \<or> \<not> mem 2 then (RPC_ERR_MEMORY_FAILURE, None)
      else case copy_ap_record_to_rpc_struct (\<lambda>i. mem (i + 3)) r of
          None \<Rightarrow> (SLAVE_FAILURE, None)
        | Some p \<Rightarrow> (0, Some p))"

text \<open>\<open>req_wifi_scan_get_ap_record\<close>: \<open>lmem\<close> is the allocation of the driver's record, \<open>drv\<close> the driver's answer.\<close>

definition req_wifi_scan_get_ap_record ::
  "bool \<Rightarrow> int \<times> ap_record \<Rightarrow> (nat \<Rightarrow> bool) \<Rightarrow> int \<times> pb_ap_record option" where
  "req_wifi_scan_get_ap_record lmem drv mem =
     (if \<not> lmem then (1, None) else if fst drv \<noteq> 0 then (fst drv, None) else fill_ap_record mem (snd drv))"

definition req_wifi_sta_get_ap_info :: "int \<times> ap_record \<Rightarrow> (nat \<Rightarrow> bool) \<Rightarrow> int \<times> pb_ap_record option" where
  "req_wifi_sta_get_ap_info drv mem = (if fst drv \<noteq> 0 then (fst drv, None) else fill_ap_record mem (snd drv))"

text \<open>The loop of \<open>req_wifi_scan_get_ap_records\<close> from record \<open>i\<close> on: the status and the records counted.\<close>

fun copy_ap_records :: "(nat \<Rightarrow> nat \<Rightarrow> bool) \<Rightarrow> nat \<Rightarrow> ap_record list \<Rightarrow> int \<times> pb_ap_record list" where
  "copy_ap_records mem i [] = (0, [])"
| "copy_ap_records mem i (r # rs) =
     (case fill_ap_record (mem i) r of
        (ret, None) \<Rightarrow> (ret, [])
      | (_, Some p) \<Rightarrow> (case copy_ap_records mem (Suc i) rs of (ret, ps) \<Rightarrow> (ret, p # ps)))"

text \<open>
  \<open>req_wifi_scan_get_ap_records\<close> for the \<open>number\<close> of the request: \<open>num\<close> is the answer of \<open>esp_wifi_scan_get_ap_num\<close>,
  \<open>drv\<close> that of \<open>esp_wifi_scan_get_ap_records\<close> with as many records as it leaves in \<open>number\<close>. The reply: status,
  number and records.
\<close>

definition req_wifi_scan_get_ap_records ::
  "bool \<Rightarrow> int \<times> u16 \<Rightarrow> int \<times> ap_record list \<Rightarrow> bool \<Rightarrow> (nat \<Rightarrow> nat \<Rightarrow> bool) \<Rightarrow> int \<times> nat \<times> pb_ap_record list" where
  "req_wifi_scan_get_ap_records lmem num drv amem mem =
     (if \<not> lmem then (1, 0, [])
      else if fst num \<noteq> 0 \<or> snd num = 0 then (0, 0, [])
      else if fst drv \<noteq> 0 then (0, 0, [])
      else let number = length (snd drv) in
        if \<not> amem then (RPC_ERR_MEMORY_FAILURE, number, [])
        else case copy_ap_records mem 0 (snd drv) of (ret, ps) \<Rightarrow> (ret, number, ps))"

section \<open>Host\<close>

text \<open>
  \<open>RPC_RSP_COPY_BYTES\<close> into a zeroed array of \<open>n\<close> octets: as many as arrive are copied, \<open>None\<close> when they do not fit.
\<close>

definition rsp_copy_bytes :: "nat \<Rightarrow> bytes \<Rightarrow> bytes option" where
  "rsp_copy_bytes n src = (if length src > n then None else Some (copy_into n src))"

text \<open>\<open>rpc_copy_ap_record\<close> into a zeroed record.\<close>

definition rpc_copy_ap_record :: "pb_ap_record \<Rightarrow> h_ap_record option" where
  "rpc_copy_ap_record p = do {
     ssid \<leftarrow> rsp_copy_bytes 32 (pr_ssid p);
     bssid \<leftarrow> rsp_copy_bytes 6 (pr_bssid p);
     (country, country_len) \<leftarrow> (case pr_country p of
         None \<Rightarrow> Some (replicate 3 0, 0)
       | Some c \<Rightarrow> map_option (\<lambda>d. (d, of_nat (min (length (pc_cc c)) 3))) (rsp_copy_bytes 3 (pc_cc c)));
     Some (zero_ap_record\<lparr>
       hr_ssid := ssid, hr_bssid := bssid, hr_ssid_len := of_nat (min (length (pr_ssid p)) 32),
       hr_primary_channel := ucast (pr_primary p), hr_second_channel := ucast (pr_second p),
       hr_rssi := ucast (pr_rssi p), hr_authmode := ucast (pr_authmode p),
       hr_pairwise_cipher := ucast (pr_pairwise_cipher p), hr_group_cipher := ucast (pr_group_cipher p),
       hr_phy_11b := h_get_bit 0 (pr_bitmask p), hr_phy_11g := h_get_bit 1 (pr_bitmask p),
       hr_phy_11n := h_get_bit 2 (pr_bitmask p), hr_phy_lr := h_get_bit 3 (pr_bitmask p), hr_wps := h_get_bit 5 (pr_bitmask p),
       hr_country := country, hr_country_len := country_len\<rparr>)
   }"

fun rpc_copy_ap_records :: "nat \<Rightarrow> pb_ap_record list \<Rightarrow> h_ap_record list option" where
  "rpc_copy_ap_records 0 ps = Some []"
| "rpc_copy_ap_records (Suc n) [] = None"
| "rpc_copy_ap_records (Suc n) (p # ps) = do {
     r \<leftarrow> rpc_copy_ap_record p;
     rs \<leftarrow> rpc_copy_ap_records n ps;
     Some (r # rs)
   }"

text \<open>
  The application's structure, as far as it matters here: type, identifier, status, the number and the list of
  \<open>wifi_scan_ap_list\<close>.
\<close>

record app_rsp =
  as_type :: rpc_type
  as_id :: int
  as_status :: int
  as_number :: nat
  as_list :: "h_ap_record list option"

text \<open>
  The cases \<open>Resp_WifiScanGetApRecords\<close> and \<open>Resp_WifiStaGetApInfo\<close> of \<open>rpc_parse_rsp\<close>: \<open>mem\<close> is the allocation of the
  list. Every early exit leaves the status as it is, zero unless the reply has one. An empty array arrives as a null
  pointer. The records behind the last one of the message are outside of it: \<open>None\<close>.
\<close>

definition parse_ap_records :: "bool \<Rightarrow> int \<times> nat \<times> pb_ap_record list \<Rightarrow> app_rsp option" where
  "parse_ap_records mem rsp =
     (case rsp of (ret, number, ps) \<Rightarrow>
        let app = \<lparr>as_type = RPC_Resp, as_id = RPC_ID_Resp_WifiScanGetApRecords, as_status = 0, as_number = 0,
                   as_list = None\<rparr> in
        if ret \<noteq> 0 then Some (app\<lparr>as_status := ret\<rparr>)
        else
          let app = app\<lparr>as_number := number\<rparr> in
          if number = 0 then Some app
          else if ps = [] then Some app
          else if \<not> mem then Some app
          else do {
            l \<leftarrow> rpc_copy_ap_records number ps;
            Some (app\<lparr>as_list := Some l\<rparr>)
          })"

definition parse_ap_info :: "bool \<Rightarrow> int \<times> pb_ap_record option \<Rightarrow> app_rsp option" where
  "parse_ap_info mem rsp =
     (let app = \<lparr>as_type = RPC_Resp, as_id = RPC_ID_Resp_WifiStaGetApInfo, as_status = 0, as_number = 0, as_list = None\<rparr> in
      if fst rsp \<noteq> 0 then Some (app\<lparr>as_status := fst rsp\<rparr>)
      else
        let app = app\<lparr>as_number := 1\<rparr> in
        case snd rsp of
          None \<Rightarrow> Some app
        | Some p \<Rightarrow>
            if \<not> mem then Some app
            else do { r \<leftarrow> rpc_copy_ap_record p; Some (app\<lparr>as_list := Some [r]\<rparr>) })"

text \<open>
  \<open>rpc_rsp_callback\<close>: the result of a call, taken from its reply. The identifiers it knows are the labels of its
  \<open>switch\<close>; \<open>process_failed_responses\<close> gives the status back.
\<close>

definition rsp_callback_ids :: "int list" where
  "rsp_callback_ids =
   [RPC_ID_Resp_Base, RPC_ID_Resp_GetMACAddress, RPC_ID_Resp_SetMacAddress, RPC_ID_Resp_GetWifiMode,
    RPC_ID_Resp_SetWifiMode, RPC_ID_Resp_WifiSetPs, RPC_ID_Resp_WifiGetPs, RPC_ID_Resp_OTABegin,
    RPC_ID_Resp_OTAWrite, RPC_ID_Resp_OTAEnd, RPC_ID_Resp_OTAActivate, RPC_ID_Resp_WifiSetMaxTxPower,
    RPC_ID_Resp_WifiGetMaxTxPower, RPC_ID_Resp_ConfigHeartbeat, RPC_ID_Resp_WifiScanGetApNum,
    RPC_ID_Resp_WifiScanGetApRecords, RPC_ID_Resp_WifiScanGetApRecord, RPC_ID_Resp_WifiInit, RPC_ID_Resp_WifiDeinit,
    RPC_ID_Resp_WifiStart, RPC_ID_Resp_WifiStop, RPC_ID_Resp_WifiConnect, RPC_ID_Resp_WifiDisconnect,
    RPC_ID_Resp_WifiGetConfig, RPC_ID_Resp_WifiScanStart, RPC_ID_Resp_WifiScanStop, RPC_ID_Resp_WifiClearApList,
    RPC_ID_Resp_WifiRestore, RPC_ID_Resp_WifiClearFastConnect, RPC_ID_Resp_WifiDeauthSta,
    RPC_ID_Resp_WifiStaGetApInfo, RPC_ID_Resp_WifiSetConfig, RPC_ID_Resp_WifiSetStorage,
    RPC_ID_Resp_WifiSetBandwidth, RPC_ID_Resp_WifiGetBandwidth, RPC_ID_Resp_WifiSetChannel,
    RPC_ID_Resp_WifiGetChannel, RPC_ID_Resp_WifiSetCountryCode, RPC_ID_Resp_WifiGetCountryCode,
    RPC_ID_Resp_WifiSetCountry, RPC_ID_Resp_WifiGetCountry, RPC_ID_Resp_WifiApGetStaList,
    RPC_ID_Resp_WifiApGetStaAid, RPC_ID_Resp_WifiStaGetRssi, RPC_ID_Resp_WifiSetProtocol,
    RPC_ID_Resp_WifiGetProtocol, RPC_ID_Resp_WifiStaGetNegotiatedPhymode, RPC_ID_Resp_WifiStaGetAid,
    RPC_ID_Resp_WifiSetProtocols, RPC_ID_Resp_WifiGetProtocols, RPC_ID_Resp_WifiSetBandwidths,
    RPC_ID_Resp_WifiGetBandwidths, RPC_ID_Resp_WifiSetBand, RPC_ID_Resp_WifiGetBand, RPC_ID_Resp_WifiSetBandMode,
    RPC_ID_Resp_WifiGetBandMode, RPC_ID_Resp_SetDhcpDnsStatus, RPC_ID_Resp_WifiSetInactiveTime,
    RPC_ID_Resp_WifiGetInactiveTime, RPC_ID_Resp_IfaceMacAddrSetGet, RPC_ID_Resp_IfaceMacAddrLenGet,
    RPC_ID_Resp_FeatureControl, RPC_ID_Resp_AppGetDesc, RPC_ID_Resp_MemMonitor, RPC_ID_Resp_WifiScanParams,
    RPC_ID_Resp_WifiStaTwtConfig, RPC_ID_Resp_WifiStaItwtSetup, RPC_ID_Resp_WifiStaItwtTeardown,
    RPC_ID_Resp_WifiStaItwtSuspend, RPC_ID_Resp_WifiStaItwtGetFlowIdStatus, RPC_ID_Resp_WifiStaItwtSendProbeReq,
    RPC_ID_Resp_WifiStaItwtSetTargetWakeTimeOffset, RPC_ID_Resp_WifiStaEnterpriseEnable,
    RPC_ID_Resp_WifiStaEnterpriseDisable, RPC_ID_Resp_EapSetIdentity, RPC_ID_Resp_EapClearIdentity,
    RPC_ID_Resp_EapSetUsername, RPC_ID_Resp_EapClearUsername, RPC_ID_Resp_EapSetPassword,
    RPC_ID_Resp_EapClearPassword, RPC_ID_Resp_EapSetNewPassword, RPC_ID_Resp_EapClearNewPassword,
    RPC_ID_Resp_EapSetCaCert, RPC_ID_Resp_EapClearCaCert, RPC_ID_Resp_EapSetCertificateAndKey,
    RPC_ID_Resp_EapClearCertificateAndKey, RPC_ID_Resp_EapGetDisableTimeCheck, RPC_ID_Resp_EapSetTtlsPhase2Method,
    RPC_ID_Resp_EapSetSuitebCertification, RPC_ID_Resp_EapSetPacFile, RPC_ID_Resp_EapSetFastParams,
    RPC_ID_Resp_EapUseDefaultCertBundle, RPC_ID_Resp_WifiSetOkcSupport, RPC_ID_Resp_EapSetDomainName,
    RPC_ID_Resp_EapSetDisableTimeCheck, RPC_ID_Resp_EapSetEapMethods, RPC_ID_Resp_SuppDppInit,
    RPC_ID_Resp_SuppDppDeinit, RPC_ID_Resp_SuppDppBootstrapGen, RPC_ID_Resp_SuppDppStartListen,
    RPC_ID_Resp_SuppDppStopListen, RPC_ID_Resp_CustomRpc, RPC_ID_Resp_GpioConfig, RPC_ID_Resp_GpioResetPin,
    RPC_ID_Resp_GpioSetLevel, RPC_ID_Resp_GpioGetLevel, RPC_ID_Resp_GpioSetDirection, RPC_ID_Resp_GpioInputEnable,
    RPC_ID_Resp_GpioSetPullMode, RPC_ID_Resp_ExtCoex, RPC_ID_Resp_GetCoprocessorFwVersion]"

definition process_failed_responses :: "app_rsp \<Rightarrow> int" where
  "process_failed_responses app = as_status app"

definition rpc_rsp_callback :: "app_rsp option \<Rightarrow> int" where
  "rpc_rsp_callback app_resp =
     (case app_resp of
        None \<Rightarrow> h_err_code H_FAIL
      | Some app \<Rightarrow>
          if as_type app \<noteq> RPC_Resp then h_err_code H_FAIL
          else if as_id app < RPC_ID_Resp_Base \<or> as_id app \<ge> RPC_ID_Resp_Max then h_err_code H_FAIL
          else if as_status app \<noteq> 0 then process_failed_responses app
          else if as_id app \<notin> set rsp_callback_ids then h_err_code H_FAIL
          else if as_id app = RPC_ID_Resp_WifiScanGetApRecords \<and> as_number app \<noteq> 0 \<and> as_list app = None then h_err_code H_FAIL
          else as_status app)"

text \<open>
  \<open>rpc_wifi_scan_get_ap_records\<close> for the \<open>number\<close> of records the caller's array has, and the reply it gets: result,
  the new number, the array. \<open>None\<close> is an access outside of a list or through a null pointer.
\<close>

definition rpc_wifi_scan_get_ap_records :: "u16 \<Rightarrow> app_rsp option \<Rightarrow> (int \<times> u16 \<times> h_ap_record list) option" where
  "rpc_wifi_scan_get_ap_records number rsp =
     (if number = 0 then Some (h_err_code H_ERR_INVALID_ARG, number, [])
      else
        let array = replicate (unat number) zero_ap_record in
        case rsp of
          Some app \<Rightarrow>
            if as_status app = 0 then
              let n = as_number app in
              (if n = 0 then Some (rpc_rsp_callback rsp, 0, array)
               else case as_list app of
                  None \<Rightarrow> None
                | Some l \<Rightarrow> if length array < n \<or> length l < n then None
                            else Some (rpc_rsp_callback rsp, of_nat n, take n l @ drop n array))
            else Some (rpc_rsp_callback rsp, number, array)
        | None \<Rightarrow> Some (rpc_rsp_callback rsp, number, array))"

definition rpc_wifi_sta_get_ap_info :: "app_rsp option \<Rightarrow> h_ap_record \<Rightarrow> (int \<times> h_ap_record) option" where
  "rpc_wifi_sta_get_ap_info rsp ap_info =
     (case rsp of
        Some app \<Rightarrow>
          if as_status app = 0 then
            (case as_list app of Some (r # rs) \<Rightarrow> Some (rpc_rsp_callback rsp, r) | _ \<Rightarrow> None)
          else Some (rpc_rsp_callback rsp, ap_info)
      | None \<Rightarrow> Some (rpc_rsp_callback rsp, ap_info))"

section \<open>The scan request\<close>

text \<open>
  \<open>h_wifi_scan_config_t\<close>: name and address are pointers, \<open>None\<close> for null. The message: \<open>None\<close> when no configuration is
  set. What the driver is given: its pointers go into the message.
\<close>

record h_scan_config =
  sc_bssid :: "bytes option"
  sc_ssid :: "bytes option"
  sc_ssid_len :: u8
  sc_channel :: u8
  sc_show_hidden :: bool
  sc_active_min :: u16
  sc_active_max :: u16
  sc_passive :: u16
  sc_home_chan_dwell :: u8

record pb_scan_config =
  ps_ssid :: bytes
  ps_bssid :: bytes
  ps_channel :: u32
  ps_show_hidden :: bool
  ps_scan_type :: u32
  ps_passive :: u32
  ps_active_min :: u32
  ps_active_max :: u32
  ps_home_chan_dwell :: u32
  ps_channel_bitmap :: "(u32 \<times> u32) option"

record scan_config =
  cf_ssid :: "bytes option"
  cf_bssid :: "bytes option"
  cf_channel :: u8
  cf_show_hidden :: bool
  cf_scan_type :: u32
  cf_passive :: u32
  cf_active_min :: u32
  cf_active_max :: u32
  cf_home_chan_dwell :: u8
  cf_channel_bitmap :: "u16 \<times> u32"

text \<open>\<open>RPC_REQ_COPY_BYTES\<close> only keeps the pointer; reading behind the caller's array is \<open>None\<close>.\<close>

definition compose_scan_config :: "h_scan_config \<Rightarrow> pb_scan_config option" where
  "compose_scan_config a = do {
     ssid \<leftarrow> (case sc_ssid a of
         None \<Rightarrow> Some []
       | Some s \<Rightarrow>
           let len = (if sc_ssid_len a \<noteq> 0 then unat (sc_ssid_len a) else min (length (c_str s) + 1) SSID_LENGTH)
           in mem_slice s 0 (min len SSID_LENGTH));
     bssid \<leftarrow> (case sc_bssid a of None \<Rightarrow> Some [] | Some b \<Rightarrow> mem_slice b 0 6);
     Some \<lparr>ps_ssid = ssid, ps_bssid = bssid, ps_channel = ucast (sc_channel a), ps_show_hidden = sc_show_hidden a,
       ps_scan_type = 0, ps_passive = ucast (sc_passive a), ps_active_min = ucast (sc_active_min a),
       ps_active_max = ucast (sc_active_max a), ps_home_chan_dwell = ucast (sc_home_chan_dwell a), ps_channel_bitmap = None\<rparr>
   }"

definition req_wifi_scan_start :: "pb_scan_config option \<Rightarrow> scan_config option" where
  "req_wifi_scan_start cfg =
     map_option (\<lambda>p. \<lparr>
       cf_ssid = (if ps_ssid p = [] then None else Some (ps_ssid p)),
       cf_bssid = (if ps_bssid p = [] then None else Some (ps_bssid p)),
       cf_channel = ucast (ps_channel p), cf_show_hidden = ps_show_hidden p, cf_scan_type = ps_scan_type p,
       cf_passive = ps_passive p, cf_active_min = ps_active_min p, cf_active_max = ps_active_max p,
       cf_home_chan_dwell = ucast (ps_home_chan_dwell p),
       cf_channel_bitmap = (case ps_channel_bitmap p of None \<Rightarrow> (0, 0) | Some (g2, g5) \<Rightarrow> (ucast g2, g5))\<rparr>) cfg"

section \<open>Records\<close>

text \<open>What the arrays of the driver's record hold, and what the host shows of a record.\<close>

definition ap_record_ok :: "ap_record \<Rightarrow> bool" where
  "ap_record_ok r = (length (ar_bssid r) = 6 \<and> length (ar_ssid r) = 33 \<and> length (c_str (ar_ssid r)) \<le> 32 \<and> length (ar_cc r) = 3)"

definition shown_as :: "ap_record \<Rightarrow> h_ap_record \<Rightarrow> bool" where
  "shown_as r h = (hr_bssid h = ar_bssid r \<and> length (hr_ssid h) = 32 \<and> c_str (hr_ssid h) = c_str (ar_ssid r) \<and>
     hr_primary_channel h = ar_primary r \<and> hr_second_channel h = ucast (ar_second r) \<and> hr_rssi h = ar_rssi r \<and>
     hr_authmode h = ucast (ar_authmode r) \<and> hr_pairwise_cipher h = ucast (ar_pairwise_cipher r) \<and>
     hr_group_cipher h = ucast (ar_group_cipher r) \<and> hr_country h = ar_cc r \<and>
     (hr_phy_11b h = ar_phy_11b r) \<and> (hr_phy_11g h = ar_phy_11g r) \<and> (hr_phy_11n h = ar_phy_11n r) \<and>
     (hr_phy_lr h = ar_phy_lr r) \<and> (hr_wps h = ar_wps r))"

lemma ap_bitmask_flags:
  "h_get_bit 0 (ap_record_bitmask r) = ar_phy_11b r" "h_get_bit 1 (ap_record_bitmask r) = ar_phy_11g r"
  "h_get_bit 2 (ap_record_bitmask r) = ar_phy_11n r" "h_get_bit 3 (ap_record_bitmask r) = ar_phy_lr r"
  "h_get_bit 5 (ap_record_bitmask r) = ar_wps r"
  by (simp_all add: ap_record_bitmask_def Let_def h_get_bit_eq bit_h_set_bit bit_simps)

lemma resp_copy_ssid:
  assumes "length (c_str a) \<le> 32"
  shows "length (resp_copy_str a 32) = min (length (c_str a) + 1) 32" "copy_into 32 (resp_copy_str a 32) = copy_into 32 (c_str a)"
proof -
  show "length (resp_copy_str a 32) = min (length (c_str a) + 1) 32" using assms by (simp add: resp_copy_str_def)
  show "copy_into 32 (resp_copy_str a 32) = copy_into 32 (c_str a)"
  proof (cases "length (c_str a) = 32")
    case False
    then obtain k where "32 - length (c_str a) = Suc k" using assms by (metis Suc_diff_Suc le_neq_implies_less)
    moreover from this have "32 - Suc (length (c_str a)) = k" by simp
    ultimately show ?thesis using assms False by (simp add: resp_copy_str_def copy_into_def Let_def)
  qed (simp add: resp_copy_str_def copy_into_def Let_def)
qed

lemma ap_record_arrives:
  assumes "ap_record_ok r"
  obtains p h where "fill_ap_record (\<lambda>_. True) r = (0, Some p)" "rpc_copy_ap_record p = Some h" "shown_as r h"
    "unat (hr_ssid_len h) = min (length (c_str (ar_ssid r)) + 1) 32"
proof -
  have l: "length (c_str (ar_ssid r)) \<le> 32" "length (ar_bssid r) = 6" "length (ar_cc r) = 3"
    using assms by (simp_all add: ap_record_ok_def)
  obtain p where p: "copy_ap_record_to_rpc_struct (\<lambda>_. True) r = Some p" by (simp add: copy_ap_record_to_rpc_struct_def)
  obtain h where h: "rpc_copy_ap_record p = Some h" "h = zero_ap_record\<lparr>
       hr_ssid := copy_into 32 (c_str (ar_ssid r)), hr_bssid := ar_bssid r,
       hr_ssid_len := of_nat (min (length (c_str (ar_ssid r)) + 1) 32),
       hr_primary_channel := ar_primary r, hr_second_channel := ucast (ar_second r), hr_rssi := ar_rssi r,
       hr_authmode := ucast (ar_authmode r), hr_pairwise_cipher := ucast (ar_pairwise_cipher r),
       hr_group_cipher := ucast (ar_group_cipher r),
       hr_phy_11b := ar_phy_11b r, hr_phy_11g := ar_phy_11g r, hr_phy_11n := ar_phy_11n r, hr_phy_lr := ar_phy_lr r,
       hr_wps := ar_wps r, hr_country := ar_cc r, hr_country_len := 3\<rparr>"
    using p l by (auto simp: copy_ap_record_to_rpc_struct_def rpc_copy_ap_record_def rsp_copy_bytes_def resp_copy_ssid
        copy_into_same ap_bitmask_flags [unfolded One_nat_def] ap_bitmask_flags ucast_back)
  have u: "unat (of_nat k :: u8) = k" if "k \<le> 32" for k using that by (simp add: unat_of_nat take_bit_nat_eq_self)
  have "shown_as r h" using l by (simp add: shown_as_def h(2) c_str_padded)
  moreover have "unat (hr_ssid_len h) = min (length (c_str (ar_ssid r)) + 1) 32"
    using u [of "min (length (c_str (ar_ssid r)) + 1) 32"] by (simp add: h(2))
  ultimately show thesis using that p h(1) by (simp add: fill_ap_record_def)
qed

lemma ap_records_arrive:
  assumes "\<forall>r \<in> set rs. ap_record_ok r"
  shows "\<exists>ps hs. copy_ap_records (\<lambda>_ _. True) i rs = (0, ps) \<and> rpc_copy_ap_records (length rs) ps = Some hs \<and>
    length ps = length rs \<and> list_all2 (\<lambda>r h. shown_as r h \<and> unat (hr_ssid_len h) = min (length (c_str (ar_ssid r)) + 1) 32) rs hs"
  using assms
proof (induction rs arbitrary: i)
  case (Cons r rs)
  have "ap_record_ok r" using Cons.prems by simp
  then obtain p h where p: "fill_ap_record (\<lambda>_. True) r = (0, Some p)" "rpc_copy_ap_record p = Some h" "shown_as r h"
      "unat (hr_ssid_len h) = min (length (c_str (ar_ssid r)) + 1) 32"
    by (rule ap_record_arrives)
  then show ?case using Cons.IH [of "Suc i"] Cons.prems by auto
qed simp

text \<open>Everything \<open>rpc_parse_rsp\<close> can parse has its label in \<open>rpc_rsp_callback\<close>, and nothing else has.\<close>

lemma callback_knows_parsed: "set rsp_callback_ids = insert RPC_ID_Resp_Base (set (map fst parse_table))"
  by (simp add: rsp_callback_ids_def parse_table_def) blast

text \<open>Without memory problems on the co-processor the reply to a request for records has them all.\<close>

lemma records_reply:
  assumes "\<forall>r \<in> set rs. ap_record_ok r" "rs \<noteq> []" "snd num \<noteq> 0" "fst num = 0"
  shows "\<exists>ps hs. req_wifi_scan_get_ap_records True num (0, rs) True (\<lambda>_ _. True) = (0, length rs, ps) \<and>
    ps \<noteq> [] \<and> rpc_copy_ap_records (length rs) ps = Some hs \<and> length hs = length rs \<and>
    list_all2 (\<lambda>r h. shown_as r h \<and> unat (hr_ssid_len h) = min (length (c_str (ar_ssid r)) + 1) 32) rs hs"
proof -
  obtain ps hs where ps: "copy_ap_records (\<lambda>_ _. True) 0 rs = (0, ps)" "rpc_copy_ap_records (length rs) ps = Some hs"
      "length ps = length rs" "list_all2 (\<lambda>r h. shown_as r h \<and> unat (hr_ssid_len h) = min (length (c_str (ar_ssid r)) + 1) 32) rs hs"
    using ap_records_arrive [OF assms(1)] by blast
  moreover have "ps \<noteq> []" using ps(3) assms(2) by auto
  ultimately show ?thesis
    using assms(3,4) list_all2_lengthD [OF ps(4)] by (simp add: req_wifi_scan_get_ap_records_def)
qed

section \<open>Properties\<close>

text \<open>
  C37: the records of a scan arrive. When the driver reports access points and gives \<open>rs\<close> of them, as many as were asked for
  at most, and memory suffices on both sides, the application gets \<open>H_OK\<close>, their number, and in order each record with the
  name, address, channels, signal strength, security, country and the flags the host knows; the rest of its array is cleared.
\<close>
theorem scan_records_delivered:
  assumes "\<forall>r \<in> set rs. ap_record_ok r" "rs \<noteq> []" "length rs \<le> unat number" "fst num = 0" "snd num \<noteq> 0"
  shows "\<exists>app hs. parse_ap_records True (req_wifi_scan_get_ap_records True num (0, rs) True (\<lambda>_ _. True)) = Some app \<and>
    rpc_wifi_scan_get_ap_records number (Some app) =
      Some (h_err_code H_OK, of_nat (length rs), hs @ replicate (unat number - length rs) zero_ap_record) \<and>
    list_all2 shown_as rs hs"
proof -
  obtain ps hs where r: "req_wifi_scan_get_ap_records True num (0, rs) True (\<lambda>_ _. True) = (0, length rs, ps)" "ps \<noteq> []"
      "rpc_copy_ap_records (length rs) ps = Some hs" "length hs = length rs"
      "list_all2 (\<lambda>r h. shown_as r h \<and> unat (hr_ssid_len h) = min (length (c_str (ar_ssid r)) + 1) 32) rs hs"
    using records_reply [OF assms(1,2,5,4)] by blast
  have n: "number \<noteq> 0" using assms(2,3) by auto
  have "list_all2 shown_as rs hs" by (rule list_all2_mono [OF r(5)]) simp
  then show ?thesis
    using r(1-4) assms(2,3) n
    by (simp add: parse_ap_records_def rpc_wifi_scan_get_ap_records_def rpc_rsp_callback_def callback_knows_parsed parse_table_def Let_def)
qed

definition demo_ap_record :: ap_record where
  "demo_ap_record = \<lparr>ar_bssid = [1, 2, 3, 4, 5, 6], ar_ssid = [104, 111, 109, 101] @ replicate 29 0, ar_primary = 6,
     ar_second = 1, ar_rssi = 200, ar_authmode = 3, ar_pairwise_cipher = 4, ar_group_cipher = 4, ar_ant = 0,
     ar_phy_11b = True, ar_phy_11g = True, ar_phy_11n = True, ar_phy_lr = False, ar_phy_11a = False, ar_phy_11ac = False,
     ar_phy_11ax = True, ar_wps = False, ar_ftm_responder = False, ar_ftm_initiator = False, ar_reserved = 0,
     ar_cc = [68, 69, 32], ar_schan = 1, ar_nchan = 13, ar_max_tx_power = 20, ar_policy = 0, ar_bss_color = 5,
     ar_partial_bss_color = False, ar_bss_color_disabled = True, ar_bssid_index = 0, ar_bandwidth = 1,
     ar_vht_ch_freq1 = 0, ar_vht_ch_freq2 = 0\<rparr>"

lemma demo_ap_record_ok: "ap_record_ok demo_ap_record" "c_str (ar_ssid demo_ap_record) = [104, 111, 109, 101]"
  by code_simp+

theorem scan_records_delivered_witness:
  "\<exists>app h1 h2. rpc_wifi_scan_get_ap_records 4 (Some app) = Some (0, 2, [h1, h2, zero_ap_record, zero_ap_record]) \<and>
     shown_as demo_ap_record h1 \<and> shown_as demo_ap_record h2"
proof -
  obtain app hs where r: "rpc_wifi_scan_get_ap_records 4 (Some app) =
      Some (h_err_code H_OK, of_nat (length [demo_ap_record, demo_ap_record]),
        hs @ replicate (unat (4 :: u16) - length [demo_ap_record, demo_ap_record]) zero_ap_record)"
      "list_all2 shown_as [demo_ap_record, demo_ap_record] hs"
    using scan_records_delivered [of "[demo_ap_record, demo_ap_record]" 4 "(0, 2)"] demo_ap_record_ok(1) by auto
  obtain h1 h2 where "hs = [h1, h2]" "shown_as demo_ap_record h1" "shown_as demo_ap_record h2"
    using r(2) by (auto simp: list_all2_Cons1)
  moreover have "replicate (unat (4 :: u16) - length [demo_ap_record, demo_ap_record]) zero_ap_record = [zero_ap_record, zero_ap_record]"
    by code_simp
  ultimately show ?thesis using r(1) by (auto simp del: unat_numeral)
qed

text \<open>
  C38: what goes wrong with a scan. The length of a name counts its terminator, unless the name fills all 32 octets. An error of
  the driver is reported to the application as success without access points. When the host has no memory for the list, the call reads
  through a null pointer.
\<close>
theorem scan_results_misreported:
  assumes "\<forall>r \<in> set rs. ap_record_ok r" "rs \<noteq> []" "length rs \<le> unat number" "fst num = 0" "snd num \<noteq> 0" "fst bad \<noteq> 0"
  shows "(\<exists>app hs z. parse_ap_records True (req_wifi_scan_get_ap_records True num (0, rs) True (\<lambda>_ _. True)) = Some app \<and>
       rpc_wifi_scan_get_ap_records number (Some app) = Some (h_err_code H_OK, of_nat (length rs), hs @ z) \<and>
       list_all2 (\<lambda>r h. length (c_str (ar_ssid r)) < 32 \<longrightarrow> unat (hr_ssid_len h) = length (c_str (ar_ssid r)) + 1) rs hs) \<and>
    (\<exists>app z. parse_ap_records mem (req_wifi_scan_get_ap_records True num bad amem rmem) = Some app \<and>
       rpc_wifi_scan_get_ap_records number (Some app) = Some (h_err_code H_OK, 0, z)) \<and>
    (\<exists>app. parse_ap_records False (req_wifi_scan_get_ap_records True num (0, rs) True (\<lambda>_ _. True)) = Some app \<and>
       rpc_wifi_scan_get_ap_records number (Some app) = None)"
proof -
  obtain ps hs where r: "req_wifi_scan_get_ap_records True num (0, rs) True (\<lambda>_ _. True) = (0, length rs, ps)" "ps \<noteq> []"
      "rpc_copy_ap_records (length rs) ps = Some hs" "length hs = length rs"
      "list_all2 (\<lambda>r h. shown_as r h \<and> unat (hr_ssid_len h) = min (length (c_str (ar_ssid r)) + 1) 32) rs hs"
    using records_reply [OF assms(1,2,5,4)] by blast
  have n: "number \<noteq> 0" using assms(2,3) by auto
  have l: "list_all2 (\<lambda>r h. length (c_str (ar_ssid r)) < 32 \<longrightarrow> unat (hr_ssid_len h) = length (c_str (ar_ssid r)) + 1) rs hs"
    by (rule list_all2_mono [OF r(5)]) auto
  note defs = parse_ap_records_def rpc_wifi_scan_get_ap_records_def rpc_rsp_callback_def callback_knows_parsed parse_table_def Let_def
  have "\<exists>app hs z. parse_ap_records True (0, length rs, ps) = Some app \<and>
       rpc_wifi_scan_get_ap_records number (Some app) = Some (h_err_code H_OK, of_nat (length rs), hs @ z) \<and>
       list_all2 (\<lambda>r h. length (c_str (ar_ssid r)) < 32 \<longrightarrow> unat (hr_ssid_len h) = length (c_str (ar_ssid r)) + 1) rs hs"
    using r(2-4) assms(2,3) n l by (auto simp: defs)
  moreover have "\<exists>app z. parse_ap_records mem (req_wifi_scan_get_ap_records True num bad amem rmem) = Some app \<and>
       rpc_wifi_scan_get_ap_records number (Some app) = Some (h_err_code H_OK, 0, z)"
    using assms(4-6) n by (simp add: req_wifi_scan_get_ap_records_def defs)
  moreover have "\<exists>app. parse_ap_records False (0, length rs, ps) = Some app \<and> rpc_wifi_scan_get_ap_records number (Some app) = None"
    using r(2) assms(2) n by (simp add: defs)
  ultimately show ?thesis by (simp add: r(1))
qed

theorem scan_results_misreported_witness:
  "(\<exists>app h z. rpc_wifi_scan_get_ap_records 1 (Some app) = Some (0, 1, h # z) \<and> unat (hr_ssid_len h) = 5) \<and>
   (\<exists>app. rpc_wifi_scan_get_ap_records 1 (Some app) = None)"
proof -
  have l: "length (c_str (ar_ssid demo_ap_record)) = 4" by (simp add: demo_ap_record_ok(2))
  have "(\<exists>app hs z. rpc_wifi_scan_get_ap_records 1 (Some app) = Some (h_err_code H_OK, of_nat (length [demo_ap_record]), hs @ z) \<and>
      list_all2 (\<lambda>r h. length (c_str (ar_ssid r)) < 32 \<longrightarrow> unat (hr_ssid_len h) = length (c_str (ar_ssid r)) + 1) [demo_ap_record] hs) \<and>
    (\<exists>app. rpc_wifi_scan_get_ap_records 1 (Some app) = None)"
    using scan_results_misreported [of "[demo_ap_record]" 1 "(0, 1)" "(258, [])" True True "\<lambda>_ _. True"] demo_ap_record_ok(1)
    by auto
  then obtain app hs z app' where r: "rpc_wifi_scan_get_ap_records 1 (Some app) = Some (0, 1, hs @ z)"
      "list_all2 (\<lambda>r h. length (c_str (ar_ssid r)) < 32 \<longrightarrow> unat (hr_ssid_len h) = length (c_str (ar_ssid r)) + 1) [demo_ap_record] hs"
      "rpc_wifi_scan_get_ap_records 1 (Some app') = None" by auto
  obtain h where h: "hs = [h]" "unat (hr_ssid_len h) = 5" using r(2) l by (auto simp: list_all2_Cons1)
  show ?thesis using r(1,3) h by (intro conjI exI [of _ app] exI [of _ h] exI [of _ z] exI [of _ app']) simp_all
qed

text \<open>
  A name that is given with its length reaches the driver without a terminator, which the driver looks for.
\<close>

lemma scan_name_unterminated:
  assumes "sc_ssid a = Some s" "length (c_str s) = unat (sc_ssid_len a)" "0 < unat (sc_ssid_len a)" "unat (sc_ssid_len a) \<le> 32"
    "compose_scan_config a = Some p" "req_wifi_scan_start (Some p) = Some cfg"
  shows "cf_ssid cfg = Some (c_str s) \<and> 0 \<notin> set (c_str s)"
proof -
  have "take (unat (sc_ssid_len a)) s = c_str s" using assms(2) by (metis c_str_def takeWhile_eq_take)
  then have "ps_ssid p = c_str s"
    using assms by (auto simp: compose_scan_config_def mem_slice_def bind_eq_Some_conv Let_def split: if_splits)
  then show ?thesis using assms(2,3,6) c_str_no_zero by (auto simp: req_wifi_scan_start_def)
qed

end
