(* ===== verification/Wifi_Values.thy ===== *)
theory Wifi_Values
  imports Wifi_Scan
begin

unbundle bit_operations_syntax

text \<open>
  The requests to the Wi-Fi driver that pass a few values: their members of the application structure, their messages
  (\<open>compose_rpc_req\<close> of \<open>src/host/core/src/h_rpc_req.c\<close>, \<open>rpc_parse_rsp\<close> of \<open>src/host/core/src/h_rpc_rsp.c\<close>) and
  their handlers on the co-processor (\<open>src/slave/main/slave_wifi_std.c\<close>).

  The driver is a parameter: \<open>drv\<close> takes a call and a state and gives its result, the values it stores and the new state.
  Integers and enumerations of the messages are words of 32 bits.
\<close>

section \<open>Calls\<close>

record h_country =
  hc_cc :: bytes
  hc_schan :: u8
  hc_nchan :: u8
  hc_max_tx_power :: u8
  hc_policy :: u8

record wifi_country =
  wc_cc :: bytes
  wc_schan :: u8
  wc_nchan :: u8
  wc_max_tx_power :: u8
  wc_policy_enum :: u32

record h_scan_times =
  hst_active_min :: u16
  hst_active_max :: u16
  hst_passive :: u16
  hst_dwell :: u8

record scan_times =
  sct_active_min :: u32
  sct_active_max :: u32
  sct_passive :: u32
  sct_dwell :: u8

record sta_info =
  si_mac :: bytes
  si_rssi :: u8
  si_phy_11b :: bool
  si_phy_11g :: bool
  si_phy_11n :: bool
  si_phy_lr :: bool
  si_phy_11ax :: bool
  si_is_mesh_child :: bool
  si_reserved :: u32

text \<open>
  The calls of the driver.
\<close>

datatype (plugins only: size code) driver_request =
    Wifi_get_mac u32
  | Wifi_set_mac u32 bytes
  | Wifi_set_mode u32
  | Wifi_get_mode
  | Wifi_set_ps u32
  | Wifi_get_ps
  | Wifi_set_max_tx_power u8
  | Wifi_get_max_tx_power
  | Wifi_set_scan_parameters "scan_times option"
  | Wifi_get_scan_parameters
  | Wifi_scan_stop
  | Wifi_scan_get_ap_num
  | Wifi_clear_ap_list
  | Wifi_restore
  | Wifi_clear_fast_connect
  | Wifi_deauth_sta u16
  | Wifi_set_storage u32
  | Wifi_set_bandwidth u32 u32
  | Wifi_get_bandwidth u32
  | Wifi_set_channel u8 u32
  | Wifi_get_channel
  | Wifi_set_country_code bytes bool
  | Wifi_get_country_code
  | Wifi_set_country wifi_country
  | Wifi_get_country
  | Wifi_ap_get_sta_list
  | Wifi_ap_get_sta_aid bytes
  | Wifi_sta_get_rssi
  | Wifi_sta_get_aid
  | Wifi_sta_get_negotiated_phymode
  | Wifi_set_protocol u32 u8
  | Wifi_get_protocol u32
  | Wifi_set_inactive_time u32 u16
  | Wifi_get_inactive_time u32
  | Wifi_set_protocols u32 u16 u16
  | Wifi_get_protocols u32
  | Wifi_set_bandwidths u32 u32 u32
  | Wifi_get_bandwidths u32
  | Wifi_set_band u32
  | Wifi_get_band
  | Wifi_set_band_mode u32
  | Wifi_get_band_mode

text \<open>What a call stores.\<close>

datatype (plugins only: size code) driver_out =
    Drv_none
  | Drv_bytes bytes
  | Drv_u8 u8
  | Drv_u16 u16
  | Drv_u32 u32
  | Drv_channel u8 u32
  | Drv_u16s u16 u16
  | Drv_u32s u32 u32
  | Drv_country wifi_country
  | Drv_scan_times scan_times
  | Drv_stas "sta_info list" u32

type_synonym 's wifi_driver = "driver_request \<Rightarrow> 's \<Rightarrow> int \<times> driver_out \<times> 's"

text \<open>The values in what the driver stored; the arrays of the addresses and of the country code have their lengths.\<close>

definition out_bytes :: "nat \<Rightarrow> driver_out \<Rightarrow> bytes" where
  "out_bytes n out = (case out of Drv_bytes b \<Rightarrow> copy_into n b | _ \<Rightarrow> replicate n 0)"

definition out_u8 :: "driver_out \<Rightarrow> u8" where "out_u8 out = (case out of Drv_u8 x \<Rightarrow> x | _ \<Rightarrow> 0)"
definition out_u16 :: "driver_out \<Rightarrow> u16" where "out_u16 out = (case out of Drv_u16 x \<Rightarrow> x | _ \<Rightarrow> 0)"
definition out_u32 :: "driver_out \<Rightarrow> u32" where "out_u32 out = (case out of Drv_u32 x \<Rightarrow> x | _ \<Rightarrow> 0)"
definition out_channel :: "driver_out \<Rightarrow> u8 \<times> u32" where "out_channel out = (case out of Drv_channel p s \<Rightarrow> (p, s) | _ \<Rightarrow> (0, 0))"
definition out_u16s :: "driver_out \<Rightarrow> u16 \<times> u16" where "out_u16s out = (case out of Drv_u16s a b \<Rightarrow> (a, b) | _ \<Rightarrow> (0, 0))"
definition out_u32s :: "driver_out \<Rightarrow> u32 \<times> u32" where "out_u32s out = (case out of Drv_u32s a b \<Rightarrow> (a, b) | _ \<Rightarrow> (0, 0))"

definition out_country :: "driver_out \<Rightarrow> wifi_country" where
  "out_country out = (case out of Drv_country c \<Rightarrow> c
     | _ \<Rightarrow> \<lparr>wc_cc = [0, 0, 0], wc_schan = 0, wc_nchan = 0, wc_max_tx_power = 0, wc_policy_enum = 0\<rparr>)"

definition out_scan_times :: "driver_out \<Rightarrow> scan_times" where
  "out_scan_times out = (case out of Drv_scan_times p \<Rightarrow> p
     | _ \<Rightarrow> \<lparr>sct_active_min = 0, sct_active_max = 0, sct_passive = 0, sct_dwell = 0\<rparr>)"

definition out_stas :: "driver_out \<Rightarrow> sta_info list \<times> u32" where
  "out_stas out = (case out of Drv_stas l n \<Rightarrow> (l, n) | _ \<Rightarrow> ([], 0))"

section \<open>Messages\<close>

text \<open>The union of the requests and replies in the application structure, for the members used here.\<close>

datatype (plugins only: size code) ctrl_u =
    U_none
  | U_wifi_mac u32 bytes
  | U_wifi_mode u32
  | U_wifi_ps u32
  | U_wifi_tx_power u32
  | U_wifi_scan_params u8 "h_scan_times" bool
  | U_wifi_scan_ap_list u32
  | U_wifi_deauth_sta u16
  | U_wifi_storage u32
  | U_wifi_bandwidth u32 u32
  | U_wifi_channel u8 u32
  | U_wifi_country_code bytes bool
  | U_wifi_country h_country
  | U_wifi_ap_sta_list "(bytes \<times> u8) list" u8
  | U_wifi_ap_get_sta_aid bytes u16
  | U_wifi_sta_get_rssi u32
  | U_wifi_sta_get_aid u16
  | U_wifi_sta_get_negotiated_phymode u32
  | U_wifi_protocol u32 u8
  | U_wifi_inactive_time u32 u16
  | U_wifi_protocols u32 u16 u16
  | U_wifi_bandwidths u32 u32 u32
  | U_wifi_band u32
  | U_wifi_band_mode u32

text \<open>Requests with a payload; \<open>WifiScanDefaultParams\<close> as passive, minimum, maximum and dwell time.\<close>

datatype (plugins only: size code) pb_request =
    Req_GetMacAddress u32
  | Req_SetMacAddress bytes u32
  | Req_SetMode u32
  | Req_SetPs u32
  | Req_WifiSetMaxTxPower u32
  | Req_WifiScanParams u32 "(u32 \<times> u32 \<times> u32 \<times> u32) option" bool
  | Req_WifiDeauthSta u32
  | Req_WifiSetStorage u32
  | Req_WifiSetBandwidth u32 u32
  | Req_WifiGetBandwidth u32
  | Req_WifiSetChannel u32 u32
  | Req_WifiSetCountryCode bytes bool
  | Req_WifiSetCountry "pb_country option"
  | Req_WifiApGetStaAid bytes
  | Req_WifiSetProtocol u32 u32
  | Req_WifiGetProtocol u32
  | Req_WifiSetInactiveTime u32 u32
  | Req_WifiGetInactiveTime u32
  | Req_WifiSetProtocols u32 "(u32 \<times> u32) option"
  | Req_WifiGetProtocols u32
  | Req_WifiSetBandwidths u32 "(u32 \<times> u32) option"
  | Req_WifiGetBandwidths u32
  | Req_WifiSetBand u32
  | Req_WifiSetBandMode u32

text \<open>Replies besides their status; \<open>Resp_only\<close> when there is nothing else.\<close>

datatype (plugins only: size code) pb_response =
    Resp_only
  | Resp_GetMacAddress bytes
  | Resp_GetMode u32
  | Resp_GetPs u32
  | Resp_WifiGetMaxTxPower u32
  | Resp_WifiScanParams "(u32 \<times> u32 \<times> u32 \<times> u32) option"
  | Resp_WifiScanGetApNum u32
  | Resp_WifiGetBandwidth u32
  | Resp_WifiGetChannel u32 u32
  | Resp_WifiGetCountryCode bytes
  | Resp_WifiGetCountry "pb_country option"
  | Resp_WifiApGetStaList "((bytes \<times> u32 \<times> u32) list \<times> u32) option"
  | Resp_WifiApGetStaAid u32
  | Resp_WifiStaGetRssi u32
  | Resp_WifiStaGetAid u32
  | Resp_WifiStaGetNegotiatedPhymode u32
  | Resp_WifiGetProtocol u32
  | Resp_WifiGetInactiveTime u32
  | Resp_WifiSetProtocols u32
  | Resp_WifiGetProtocols u32 "(u32 \<times> u32) option"
  | Resp_WifiSetBandwidths u32
  | Resp_WifiGetBandwidths u32 "(u32 \<times> u32) option"
  | Resp_WifiGetBand u32
  | Resp_WifiGetBandMode u32

section \<open>Host: composing the request\<close>

text \<open>
  The members of the union a case of \<open>compose_rpc_req\<close> reads. The application structure is zeroed, so a member nobody has
  set is zero.
\<close>

definition u_wifi_mac :: "ctrl_u \<Rightarrow> u32 \<times> bytes" where
  "u_wifi_mac u = (case u of U_wifi_mac m b \<Rightarrow> (m, b) | _ \<Rightarrow> (0, replicate 6 0))"
definition u_wifi_mode :: "ctrl_u \<Rightarrow> u32" where "u_wifi_mode u = (case u of U_wifi_mode m \<Rightarrow> m | _ \<Rightarrow> 0)"
definition u_wifi_ps :: "ctrl_u \<Rightarrow> u32" where "u_wifi_ps u = (case u of U_wifi_ps m \<Rightarrow> m | _ \<Rightarrow> 0)"
definition u_wifi_tx_power :: "ctrl_u \<Rightarrow> u32" where "u_wifi_tx_power u = (case u of U_wifi_tx_power m \<Rightarrow> m | _ \<Rightarrow> 0)"
definition u_wifi_scan_params :: "ctrl_u \<Rightarrow> u8 \<times> h_scan_times \<times> bool" where
  "u_wifi_scan_params u = (case u of U_wifi_scan_params c t n \<Rightarrow> (c, t, n)
     | _ \<Rightarrow> (0, \<lparr>hst_active_min = 0, hst_active_max = 0, hst_passive = 0, hst_dwell = 0\<rparr>, False))"
definition u_wifi_scan_ap_list :: "ctrl_u \<Rightarrow> u32" where "u_wifi_scan_ap_list u = (case u of U_wifi_scan_ap_list m \<Rightarrow> m | _ \<Rightarrow> 0)"
definition u_wifi_deauth_sta :: "ctrl_u \<Rightarrow> u16" where "u_wifi_deauth_sta u = (case u of U_wifi_deauth_sta m \<Rightarrow> m | _ \<Rightarrow> 0)"
definition u_wifi_storage :: "ctrl_u \<Rightarrow> u32" where "u_wifi_storage u = (case u of U_wifi_storage m \<Rightarrow> m | _ \<Rightarrow> 0)"
definition u_wifi_bandwidth :: "ctrl_u \<Rightarrow> u32 \<times> u32" where "u_wifi_bandwidth u = (case u of U_wifi_bandwidth i b \<Rightarrow> (i, b) | _ \<Rightarrow> (0, 0))"
definition u_wifi_channel :: "ctrl_u \<Rightarrow> u8 \<times> u32" where "u_wifi_channel u = (case u of U_wifi_channel p s \<Rightarrow> (p, s) | _ \<Rightarrow> (0, 0))"
definition u_wifi_country_code :: "ctrl_u \<Rightarrow> bytes \<times> bool" where
  "u_wifi_country_code u = (case u of U_wifi_country_code c d \<Rightarrow> (c, d) | _ \<Rightarrow> ([0, 0, 0], False))"
definition u_wifi_country :: "ctrl_u \<Rightarrow> h_country" where
  "u_wifi_country u = (case u of U_wifi_country c \<Rightarrow> c
     | _ \<Rightarrow> \<lparr>hc_cc = [0, 0, 0], hc_schan = 0, hc_nchan = 0, hc_max_tx_power = 0, hc_policy = 0\<rparr>)"
definition u_wifi_ap_sta_list :: "ctrl_u \<Rightarrow> (bytes \<times> u8) list \<times> u8" where
  "u_wifi_ap_sta_list u = (case u of U_wifi_ap_sta_list l n \<Rightarrow> (l, n) | _ \<Rightarrow> (replicate 10 (replicate 6 0, 0), 0))"
definition u_wifi_ap_get_sta_aid :: "ctrl_u \<Rightarrow> bytes \<times> u16" where
  "u_wifi_ap_get_sta_aid u = (case u of U_wifi_ap_get_sta_aid m a \<Rightarrow> (m, a) | _ \<Rightarrow> (replicate 6 0, 0))"
definition u_wifi_sta_get_rssi :: "ctrl_u \<Rightarrow> u32" where "u_wifi_sta_get_rssi u = (case u of U_wifi_sta_get_rssi m \<Rightarrow> m | _ \<Rightarrow> 0)"
definition u_wifi_sta_get_aid :: "ctrl_u \<Rightarrow> u16" where "u_wifi_sta_get_aid u = (case u of U_wifi_sta_get_aid m \<Rightarrow> m | _ \<Rightarrow> 0)"
definition u_wifi_phymode :: "ctrl_u \<Rightarrow> u32" where
  "u_wifi_phymode u = (case u of U_wifi_sta_get_negotiated_phymode m \<Rightarrow> m | _ \<Rightarrow> 0)"
definition u_wifi_protocol :: "ctrl_u \<Rightarrow> u32 \<times> u8" where "u_wifi_protocol u = (case u of U_wifi_protocol i p \<Rightarrow> (i, p) | _ \<Rightarrow> (0, 0))"
definition u_wifi_inactive_time :: "ctrl_u \<Rightarrow> u32 \<times> u16" where
  "u_wifi_inactive_time u = (case u of U_wifi_inactive_time i t \<Rightarrow> (i, t) | _ \<Rightarrow> (0, 0))"
definition u_wifi_protocols :: "ctrl_u \<Rightarrow> u32 \<times> u16 \<times> u16" where
  "u_wifi_protocols u = (case u of U_wifi_protocols i a b \<Rightarrow> (i, a, b) | _ \<Rightarrow> (0, 0, 0))"
definition u_wifi_bandwidths :: "ctrl_u \<Rightarrow> u32 \<times> u32 \<times> u32" where
  "u_wifi_bandwidths u = (case u of U_wifi_bandwidths i a b \<Rightarrow> (i, a, b) | _ \<Rightarrow> (0, 0, 0))"
definition u_wifi_band :: "ctrl_u \<Rightarrow> u32" where "u_wifi_band u = (case u of U_wifi_band m \<Rightarrow> m | _ \<Rightarrow> 0)"
definition u_wifi_band_mode :: "ctrl_u \<Rightarrow> u32" where "u_wifi_band_mode u = (case u of U_wifi_band_mode m \<Rightarrow> m | _ \<Rightarrow> 0)"

abbreviation (input) RPC_CMD_Set :: u8 where "RPC_CMD_Set \<equiv> 2"
abbreviation (input) RPC_CMD_Get :: u8 where "RPC_CMD_Get \<equiv> 1"

text \<open>
  The cases of \<open>compose_rpc_req\<close>, each by the identifier of its request: the payload, or none. \<open>None\<close> when the case fails.
  Allocations succeed.
\<close>

definition compose_value :: "int \<Rightarrow> ctrl_u \<Rightarrow> pb_request option option" where
  "compose_value i u =
     (if i \<in> set compose_no_body then Some None
      else if i = RPC_ID_Req_GetMACAddress then Some (Some (Req_GetMacAddress (fst (u_wifi_mac u))))
      else if i = RPC_ID_Req_SetMacAddress then Some (Some (Req_SetMacAddress (snd (u_wifi_mac u)) (fst (u_wifi_mac u))))
      else if i = RPC_ID_Req_SetWifiMode then
        (if sint (u_wifi_mode u) < 0 \<or> sint (u_wifi_mode u) > 4 then None else Some (Some (Req_SetMode (u_wifi_mode u))))
      else if i = RPC_ID_Req_WifiSetPs then Some (Some (Req_SetPs (u_wifi_ps u)))
      else if i = RPC_ID_Req_WifiSetMaxTxPower then Some (Some (Req_WifiSetMaxTxPower (u_wifi_tx_power u)))
      else if i = RPC_ID_Req_WifiScanParams then
        (case u_wifi_scan_params u of (cmd, t, null) \<Rightarrow>
           Some (Some (Req_WifiScanParams (ucast cmd)
             (if null then None
              else Some (ucast (hst_passive t), ucast (hst_active_min t), ucast (hst_active_max t), ucast (hst_dwell t))) null)))
      else if i = RPC_ID_Req_WifiDeauthSta then Some (Some (Req_WifiDeauthSta (ucast (u_wifi_deauth_sta u))))
      else if i = RPC_ID_Req_WifiSetStorage then Some (Some (Req_WifiSetStorage (u_wifi_storage u)))
      else if i = RPC_ID_Req_WifiSetBandwidth then
        Some (Some (Req_WifiSetBandwidth (fst (u_wifi_bandwidth u)) (snd (u_wifi_bandwidth u))))
      else if i = RPC_ID_Req_WifiGetBandwidth then Some (Some (Req_WifiGetBandwidth (fst (u_wifi_bandwidth u))))
      else if i = RPC_ID_Req_WifiSetChannel then
        Some (Some (Req_WifiSetChannel (ucast (fst (u_wifi_channel u))) (snd (u_wifi_channel u))))
      else if i = RPC_ID_Req_WifiSetCountryCode then
        Some (Some (Req_WifiSetCountryCode (fst (u_wifi_country_code u)) (snd (u_wifi_country_code u))))
      else if i = RPC_ID_Req_WifiSetCountry then
        (let c = u_wifi_country u in
         Some (Some (Req_WifiSetCountry (Some \<lparr>pc_cc = hc_cc c, pc_schan = ucast (hc_schan c), pc_nchan = ucast (hc_nchan c),
           pc_max_tx_power = ucast (hc_max_tx_power c), pc_policy = ucast (hc_policy c)\<rparr>))))
      else if i = RPC_ID_Req_WifiApGetStaAid then Some (Some (Req_WifiApGetStaAid (fst (u_wifi_ap_get_sta_aid u))))
      else if i = RPC_ID_Req_WifiSetProtocol then
        Some (Some (Req_WifiSetProtocol (fst (u_wifi_protocol u)) (ucast (snd (u_wifi_protocol u)))))
      else if i = RPC_ID_Req_WifiGetProtocol then Some (Some (Req_WifiGetProtocol (fst (u_wifi_protocol u))))
      else if i = RPC_ID_Req_WifiSetInactiveTime then
        Some (Some (Req_WifiSetInactiveTime (fst (u_wifi_inactive_time u)) (ucast (snd (u_wifi_inactive_time u)))))
      else if i = RPC_ID_Req_WifiGetInactiveTime then Some (Some (Req_WifiGetInactiveTime (fst (u_wifi_inactive_time u))))
      else if i = RPC_ID_Req_WifiSetProtocols then
        (case u_wifi_protocols u of (ifx, a, b) \<Rightarrow> Some (Some (Req_WifiSetProtocols ifx (Some (ucast a, ucast b)))))
      else if i = RPC_ID_Req_WifiGetProtocols then Some (Some (Req_WifiGetProtocols (fst (u_wifi_protocols u))))
      else if i = RPC_ID_Req_WifiSetBandwidths then
        (case u_wifi_bandwidths u of (ifx, a, b) \<Rightarrow> Some (Some (Req_WifiSetBandwidths ifx (Some (a, b)))))
      else if i = RPC_ID_Req_WifiGetBandwidths then Some (Some (Req_WifiGetBandwidths (fst (u_wifi_bandwidths u))))
      else if i = RPC_ID_Req_WifiSetBand then Some (Some (Req_WifiSetBand (u_wifi_band u)))
      else if i = RPC_ID_Req_WifiSetBandMode then Some (Some (Req_WifiSetBandMode (u_wifi_band_mode u)))
      else None)"

section \<open>Co-processor: the handlers\<close>

text \<open>
  A handler gives the reply, its status and payload, or none when it fails, and the state. \<open>mem\<close>: the results of its
  allocations, in order; the first is the reply. \<open>RPC_TEMPLATE\<close> fails without the payload of the request,
  \<open>RPC_TEMPLATE_SIMPLE\<close> does not look at it. \<open>RPC_RET_FAIL_IF\<close> answers with the status of a failed call.
  A reply with an error has an empty payload here, and no nested message that was allocated before the error.
\<close>

type_synonym wifi_reply = "(int \<times> pb_response) option"

definition rpc_template :: "(nat \<Rightarrow> bool) \<Rightarrow> 'q option \<Rightarrow> ('q \<Rightarrow> 's \<Rightarrow> 'r \<times> 's) \<Rightarrow> 's \<Rightarrow> 'r option \<times> 's" where
  "rpc_template mem req body s =
     (case req of None \<Rightarrow> (None, s)
      | Some q \<Rightarrow> if \<not> mem 0 then (None, s) else (case body q s of (r, s) \<Rightarrow> (Some r, s)))"

definition rpc_template_simple :: "(nat \<Rightarrow> bool) \<Rightarrow> ('s \<Rightarrow> (int \<times> pb_response) \<times> 's) \<Rightarrow> 's \<Rightarrow> wifi_reply \<times> 's" where
  "rpc_template_simple mem body s = (if \<not> mem 0 then (None, s) else (case body s of (r, s) \<Rightarrow> (Some r, s)))"

definition ret_fail_if :: "int \<times> driver_out \<times> 's \<Rightarrow> (driver_out \<Rightarrow> int \<times> pb_response) \<Rightarrow> (int \<times> pb_response) \<times> 's" where
  "ret_fail_if r f = (case r of (rc, out, s) \<Rightarrow> (if rc \<noteq> 0 then (rc, Resp_only) else f out, s))"

abbreviation (input) resp_ok :: "driver_out \<Rightarrow> int \<times> pb_response" where "resp_ok \<equiv> \<lambda>_. (0, Resp_only)"

abbreviation (input) ESP_INVALID_ARG :: int where "ESP_INVALID_ARG \<equiv> 0x102"

text \<open>\<open>req_wifi_get_mac\<close> reads the payload it has not tested: \<open>None\<close> is a read through a null pointer.\<close>

definition req_wifi_get_mac :: "'s wifi_driver \<Rightarrow> (nat \<Rightarrow> bool) \<Rightarrow> pb_request option \<Rightarrow> 's \<Rightarrow> (wifi_reply \<times> 's) option" where
  "req_wifi_get_mac drv mem q s =
     (if \<not> mem 0 then Some (None, s)
      else case q of
        Some (Req_GetMacAddress mode) \<Rightarrow>
          Some (rpc_template_simple mem (\<lambda>s. ret_fail_if (drv (Wifi_get_mac mode) s)
            (\<lambda>out. if mem 1 then (0, Resp_GetMacAddress (out_bytes 6 out)) else (SLAVE_FAILURE, Resp_GetMacAddress []))) s)
      | _ \<Rightarrow> None)"

definition req_wifi_get_mode :: "'s wifi_driver \<Rightarrow> (nat \<Rightarrow> bool) \<Rightarrow> 's \<Rightarrow> wifi_reply \<times> 's" where
  "req_wifi_get_mode drv mem =
     rpc_template_simple mem (\<lambda>s. ret_fail_if (drv Wifi_get_mode s) (\<lambda>out. (0, Resp_GetMode (out_u32 out))))"

definition req_wifi_set_mode :: "'s wifi_driver \<Rightarrow> (nat \<Rightarrow> bool) \<Rightarrow> pb_request option \<Rightarrow> 's \<Rightarrow> wifi_reply \<times> 's" where
  "req_wifi_set_mode drv mem q =
     rpc_template mem (case q of Some (Req_SetMode m) \<Rightarrow> Some m | _ \<Rightarrow> None)
       (\<lambda>m s. ret_fail_if (drv (Wifi_set_mode m) s) resp_ok)"

definition req_wifi_set_mac :: "'s wifi_driver \<Rightarrow> (nat \<Rightarrow> bool) \<Rightarrow> pb_request option \<Rightarrow> 's \<Rightarrow> wifi_reply \<times> 's" where
  "req_wifi_set_mac drv mem q =
     rpc_template mem (case q of Some (Req_SetMacAddress mac mode) \<Rightarrow> Some (mac, mode) | _ \<Rightarrow> None)
       (\<lambda>(mac, mode) s.
          if mac = [] \<or> length mac \<noteq> 6 then ((ESP_INVALID_ARG, Resp_only), s)
          else ret_fail_if (drv (Wifi_set_mac mode mac) s) resp_ok)"

definition req_wifi_set_ps :: "'s wifi_driver \<Rightarrow> (nat \<Rightarrow> bool) \<Rightarrow> pb_request option \<Rightarrow> 's \<Rightarrow> wifi_reply \<times> 's" where
  "req_wifi_set_ps drv mem q =
     rpc_template mem (case q of Some (Req_SetPs t) \<Rightarrow> Some t | _ \<Rightarrow> None)
       (\<lambda>t s. ret_fail_if (drv (Wifi_set_ps t) s) resp_ok)"

definition req_wifi_get_ps :: "'s wifi_driver \<Rightarrow> (nat \<Rightarrow> bool) \<Rightarrow> 's \<Rightarrow> wifi_reply \<times> 's" where
  "req_wifi_get_ps drv mem =
     rpc_template_simple mem (\<lambda>s. ret_fail_if (drv Wifi_get_ps s) (\<lambda>out. (0, Resp_GetPs (out_u32 out))))"

definition req_wifi_set_max_tx_power :: "'s wifi_driver \<Rightarrow> (nat \<Rightarrow> bool) \<Rightarrow> pb_request option \<Rightarrow> 's \<Rightarrow> wifi_reply \<times> 's" where
  "req_wifi_set_max_tx_power drv mem q =
     rpc_template mem (case q of Some (Req_WifiSetMaxTxPower p) \<Rightarrow> Some p | _ \<Rightarrow> None)
       (\<lambda>p s. ret_fail_if (drv (Wifi_set_max_tx_power (ucast p)) s) resp_ok)"

definition req_wifi_get_max_tx_power :: "'s wifi_driver \<Rightarrow> (nat \<Rightarrow> bool) \<Rightarrow> 's \<Rightarrow> wifi_reply \<times> 's" where
  "req_wifi_get_max_tx_power drv mem =
     rpc_template_simple mem (\<lambda>s. ret_fail_if (drv Wifi_get_max_tx_power s) (\<lambda>out. (0, Resp_WifiGetMaxTxPower (scast (out_u8 out)))))"

text \<open>\<open>req_wifi_scan_params\<close>: the command decides; the reply to a query has three nested messages.\<close>

definition req_wifi_scan_params :: "'s wifi_driver \<Rightarrow> (nat \<Rightarrow> bool) \<Rightarrow> pb_request option \<Rightarrow> 's \<Rightarrow> wifi_reply \<times> 's" where
  "req_wifi_scan_params drv mem q =
     rpc_template mem (case q of Some (Req_WifiScanParams cmd cfg null) \<Rightarrow> Some (cmd, cfg, null) | _ \<Rightarrow> None)
       (\<lambda>(cmd, cfg, null) s.
          if cmd = 2 then
            ret_fail_if (drv (Wifi_set_scan_parameters
              (if null then None
               else map_option (\<lambda>(passive, lo, hi, dwell).
                 \<lparr>sct_active_min = lo, sct_active_max = hi, sct_passive = passive, sct_dwell = ucast dwell\<rparr>) cfg)) s) resp_ok
          else if cmd = 1 then
            ret_fail_if (drv Wifi_get_scan_parameters s)
              (\<lambda>out. let t = out_scan_times out in
                 if mem 1 \<and> mem 2 \<and> mem 3 then
                   (0, Resp_WifiScanParams (Some (sct_passive t, sct_active_min t, sct_active_max t, ucast (sct_dwell t))))
                 else (RPC_ERR_MEMORY_FAILURE, Resp_WifiScanParams None))
          else ((ESP_INVALID_ARG, Resp_only), s))"

definition req_wifi_scan_stop :: "'s wifi_driver \<Rightarrow> (nat \<Rightarrow> bool) \<Rightarrow> 's \<Rightarrow> wifi_reply \<times> 's" where
  "req_wifi_scan_stop drv mem = rpc_template_simple mem (\<lambda>s. ret_fail_if (drv Wifi_scan_stop s) resp_ok)"

definition req_wifi_scan_get_ap_num :: "'s wifi_driver \<Rightarrow> (nat \<Rightarrow> bool) \<Rightarrow> 's \<Rightarrow> wifi_reply \<times> 's" where
  "req_wifi_scan_get_ap_num drv mem =
     rpc_template_simple mem (\<lambda>s. ret_fail_if (drv Wifi_scan_get_ap_num s) (\<lambda>out. (0, Resp_WifiScanGetApNum (ucast (out_u16 out)))))"

definition req_wifi_clear_ap_list :: "'s wifi_driver \<Rightarrow> (nat \<Rightarrow> bool) \<Rightarrow> 's \<Rightarrow> wifi_reply \<times> 's" where
  "req_wifi_clear_ap_list drv mem = rpc_template_simple mem (\<lambda>s. ret_fail_if (drv Wifi_clear_ap_list s) resp_ok)"

definition req_wifi_restore :: "'s wifi_driver \<Rightarrow> (nat \<Rightarrow> bool) \<Rightarrow> 's \<Rightarrow> wifi_reply \<times> 's" where
  "req_wifi_restore drv mem = rpc_template_simple mem (\<lambda>s. ret_fail_if (drv Wifi_restore s) resp_ok)"

definition req_wifi_clear_fast_connect :: "'s wifi_driver \<Rightarrow> (nat \<Rightarrow> bool) \<Rightarrow> 's \<Rightarrow> wifi_reply \<times> 's" where
  "req_wifi_clear_fast_connect drv mem = rpc_template_simple mem (\<lambda>s. ret_fail_if (drv Wifi_clear_fast_connect s) resp_ok)"

definition req_wifi_deauth_sta :: "'s wifi_driver \<Rightarrow> (nat \<Rightarrow> bool) \<Rightarrow> pb_request option \<Rightarrow> 's \<Rightarrow> wifi_reply \<times> 's" where
  "req_wifi_deauth_sta drv mem q =
     rpc_template mem (case q of Some (Req_WifiDeauthSta a) \<Rightarrow> Some a | _ \<Rightarrow> None)
       (\<lambda>a s. ret_fail_if (drv (Wifi_deauth_sta (ucast a)) s) resp_ok)"

definition req_wifi_set_storage :: "'s wifi_driver \<Rightarrow> (nat \<Rightarrow> bool) \<Rightarrow> pb_request option \<Rightarrow> 's \<Rightarrow> wifi_reply \<times> 's" where
  "req_wifi_set_storage drv mem q =
     rpc_template mem (case q of Some (Req_WifiSetStorage a) \<Rightarrow> Some a | _ \<Rightarrow> None)
       (\<lambda>a s. ret_fail_if (drv (Wifi_set_storage a) s) resp_ok)"

definition req_wifi_set_bandwidth :: "'s wifi_driver \<Rightarrow> (nat \<Rightarrow> bool) \<Rightarrow> pb_request option \<Rightarrow> 's \<Rightarrow> wifi_reply \<times> 's" where
  "req_wifi_set_bandwidth drv mem q =
     rpc_template mem (case q of Some (Req_WifiSetBandwidth i b) \<Rightarrow> Some (i, b) | _ \<Rightarrow> None)
       (\<lambda>(i, b) s. ret_fail_if (drv (Wifi_set_bandwidth i b) s) resp_ok)"

definition req_wifi_get_bandwidth :: "'s wifi_driver \<Rightarrow> (nat \<Rightarrow> bool) \<Rightarrow> pb_request option \<Rightarrow> 's \<Rightarrow> wifi_reply \<times> 's" where
  "req_wifi_get_bandwidth drv mem q =
     rpc_template mem (case q of Some (Req_WifiGetBandwidth i) \<Rightarrow> Some i | _ \<Rightarrow> None)
       (\<lambda>i s. ret_fail_if (drv (Wifi_get_bandwidth i) s) (\<lambda>out. (0, Resp_WifiGetBandwidth (out_u32 out))))"

definition req_wifi_set_channel :: "'s wifi_driver \<Rightarrow> (nat \<Rightarrow> bool) \<Rightarrow> pb_request option \<Rightarrow> 's \<Rightarrow> wifi_reply \<times> 's" where
  "req_wifi_set_channel drv mem q =
     rpc_template mem (case q of Some (Req_WifiSetChannel p c) \<Rightarrow> Some (p, c) | _ \<Rightarrow> None)
       (\<lambda>(p, c) s. ret_fail_if (drv (Wifi_set_channel (ucast p) c) s) resp_ok)"

definition req_wifi_get_channel :: "'s wifi_driver \<Rightarrow> (nat \<Rightarrow> bool) \<Rightarrow> 's \<Rightarrow> wifi_reply \<times> 's" where
  "req_wifi_get_channel drv mem =
     rpc_template_simple mem (\<lambda>s. ret_fail_if (drv Wifi_get_channel s)
       (\<lambda>out. (0, Resp_WifiGetChannel (ucast (fst (out_channel out))) (snd (out_channel out)))))"

text \<open>The first two octets of the country code, and a terminator.\<close>

definition req_wifi_set_country_code :: "'s wifi_driver \<Rightarrow> (nat \<Rightarrow> bool) \<Rightarrow> pb_request option \<Rightarrow> 's \<Rightarrow> wifi_reply \<times> 's" where
  "req_wifi_set_country_code drv mem q =
     rpc_template mem (case q of Some (Req_WifiSetCountryCode c d) \<Rightarrow> Some (c, d) | _ \<Rightarrow> None)
       (\<lambda>(c, d) s. if c = [] then ((1, Resp_only), s)
          else ret_fail_if (drv (Wifi_set_country_code (copy_into 3 (take 2 c)) d) s) resp_ok)"

definition req_wifi_get_country_code :: "'s wifi_driver \<Rightarrow> (nat \<Rightarrow> bool) \<Rightarrow> 's \<Rightarrow> wifi_reply \<times> 's" where
  "req_wifi_get_country_code drv mem =
     rpc_template_simple mem (\<lambda>s. ret_fail_if (drv Wifi_get_country_code s)
       (\<lambda>out. if mem 1 then (0, Resp_WifiGetCountryCode (resp_copy_str (out_bytes 3 out) 3))
              else (SLAVE_FAILURE, Resp_WifiGetCountryCode [])))"

definition req_wifi_set_country :: "'s wifi_driver \<Rightarrow> (nat \<Rightarrow> bool) \<Rightarrow> pb_request option \<Rightarrow> 's \<Rightarrow> wifi_reply \<times> 's" where
  "req_wifi_set_country drv mem q =
     rpc_template mem (case q of Some (Req_WifiSetCountry c) \<Rightarrow> Some c | _ \<Rightarrow> None)
       (\<lambda>c s. case c of None \<Rightarrow> ((1, Resp_only), s)
          | Some p \<Rightarrow> ret_fail_if (drv (Wifi_set_country \<lparr>wc_cc = copy_into 3 (pc_cc p), wc_schan = ucast (pc_schan p),
              wc_nchan = ucast (pc_nchan p), wc_max_tx_power = ucast (pc_max_tx_power p), wc_policy_enum = pc_policy p\<rparr>) s) resp_ok)"

definition req_wifi_get_country :: "'s wifi_driver \<Rightarrow> (nat \<Rightarrow> bool) \<Rightarrow> 's \<Rightarrow> wifi_reply \<times> 's" where
  "req_wifi_get_country drv mem =
     rpc_template_simple mem (\<lambda>s. ret_fail_if (drv Wifi_get_country s)
       (\<lambda>out. let c = out_country out in
          if \<not> mem 1 then (RPC_ERR_MEMORY_FAILURE, Resp_WifiGetCountry None)
          else if \<not> mem 2 then (SLAVE_FAILURE, Resp_WifiGetCountry (Some \<lparr>pc_cc = [], pc_schan = 0, pc_nchan = 0,
            pc_max_tx_power = 0, pc_policy = 0\<rparr>))
          else (0, Resp_WifiGetCountry (Some \<lparr>pc_cc = wc_cc c, pc_schan = ucast (wc_schan c), pc_nchan = ucast (wc_nchan c),
            pc_max_tx_power = scast (wc_max_tx_power c), pc_policy = wc_policy_enum c\<rparr>))))"

text \<open>
  \<open>req_wifi_ap_get_sta_list\<close>: every entry of the array of the driver is copied, whether it is valid or not. When the array
  of the message cannot be allocated the reply says success and has no entries.
\<close>

definition sta_bitmask :: "sta_info \<Rightarrow> u32" where
  "sta_bitmask i =
     (let m = h_set_bit 0 (si_phy_11b i) 0;
          m = h_set_bit 1 (si_phy_11g i) m;
          m = h_set_bit 2 (si_phy_11n i) m;
          m = h_set_bit 3 (si_phy_lr i) m;
          m = h_set_bit 4 (si_phy_11ax i) m;
          m = h_set_bit 5 (si_is_mesh_child i) m
      in m OR push_bit 6 (si_reserved i))"

fun copy_sta_infos :: "(nat \<Rightarrow> bool) \<Rightarrow> nat \<Rightarrow> sta_info list \<Rightarrow> int + (bytes \<times> u32 \<times> u32) list" where
  "copy_sta_infos mem k [] = Inr []"
| "copy_sta_infos mem k (i # is) =
     (if \<not> mem k then Inl RPC_ERR_MEMORY_FAILURE
      else if \<not> mem (k + 1) then Inl SLAVE_FAILURE
      else case copy_sta_infos mem (k + 2) is of
          Inl e \<Rightarrow> Inl e
        | Inr l \<Rightarrow> Inr ((si_mac i, scast (si_rssi i), sta_bitmask i) # l))"

definition req_wifi_ap_get_sta_list :: "'s wifi_driver \<Rightarrow> (nat \<Rightarrow> bool) \<Rightarrow> 's \<Rightarrow> wifi_reply \<times> 's" where
  "req_wifi_ap_get_sta_list drv mem =
     rpc_template_simple mem (\<lambda>s. ret_fail_if (drv Wifi_ap_get_sta_list s)
       (\<lambda>out. case out_stas out of (l, num) \<Rightarrow>
          if \<not> mem 1 then (RPC_ERR_MEMORY_FAILURE, Resp_WifiApGetStaList None)
          else if \<not> mem 2 then (0, Resp_WifiApGetStaList (Some ([], 0)))
          else case copy_sta_infos mem 3 l of
              Inl e \<Rightarrow> (e, Resp_WifiApGetStaList (Some ([], 0)))
            | Inr es \<Rightarrow> (0, Resp_WifiApGetStaList (Some (es, num)))))"

text \<open>\<open>junk\<close>: what the uninitialised array of the address held.\<close>

definition req_wifi_ap_get_sta_aid :: "bytes \<Rightarrow> 's wifi_driver \<Rightarrow> (nat \<Rightarrow> bool) \<Rightarrow> pb_request option \<Rightarrow> 's \<Rightarrow> wifi_reply \<times> 's" where
  "req_wifi_ap_get_sta_aid junk drv mem q =
     rpc_template mem (case q of Some (Req_WifiApGetStaAid m) \<Rightarrow> Some m | _ \<Rightarrow> None)
       (\<lambda>m s. ret_fail_if (drv (Wifi_ap_get_sta_aid (take 6 m @ drop (length (take 6 m)) junk)) s)
          (\<lambda>out. (0, Resp_WifiApGetStaAid (ucast (out_u16 out)))))"

definition req_wifi_sta_get_rssi :: "'s wifi_driver \<Rightarrow> (nat \<Rightarrow> bool) \<Rightarrow> 's \<Rightarrow> wifi_reply \<times> 's" where
  "req_wifi_sta_get_rssi drv mem =
     rpc_template_simple mem (\<lambda>s. ret_fail_if (drv Wifi_sta_get_rssi s) (\<lambda>out. (0, Resp_WifiStaGetRssi (out_u32 out))))"

definition req_wifi_sta_get_aid :: "'s wifi_driver \<Rightarrow> (nat \<Rightarrow> bool) \<Rightarrow> 's \<Rightarrow> wifi_reply \<times> 's" where
  "req_wifi_sta_get_aid drv mem =
     rpc_template_simple mem (\<lambda>s. ret_fail_if (drv Wifi_sta_get_aid s) (\<lambda>out. (0, Resp_WifiStaGetAid (ucast (out_u16 out)))))"

definition req_wifi_sta_get_negotiated_phymode :: "'s wifi_driver \<Rightarrow> (nat \<Rightarrow> bool) \<Rightarrow> 's \<Rightarrow> wifi_reply \<times> 's" where
  "req_wifi_sta_get_negotiated_phymode drv mem =
     rpc_template_simple mem (\<lambda>s. ret_fail_if (drv Wifi_sta_get_negotiated_phymode s)
       (\<lambda>out. (0, Resp_WifiStaGetNegotiatedPhymode (out_u32 out))))"

definition req_wifi_set_protocol :: "'s wifi_driver \<Rightarrow> (nat \<Rightarrow> bool) \<Rightarrow> pb_request option \<Rightarrow> 's \<Rightarrow> wifi_reply \<times> 's" where
  "req_wifi_set_protocol drv mem q =
     rpc_template mem (case q of Some (Req_WifiSetProtocol i p) \<Rightarrow> Some (i, p) | _ \<Rightarrow> None)
       (\<lambda>(i, p) s. ret_fail_if (drv (Wifi_set_protocol i (ucast p)) s) resp_ok)"

definition req_wifi_get_protocol :: "'s wifi_driver \<Rightarrow> (nat \<Rightarrow> bool) \<Rightarrow> pb_request option \<Rightarrow> 's \<Rightarrow> wifi_reply \<times> 's" where
  "req_wifi_get_protocol drv mem q =
     rpc_template mem (case q of Some (Req_WifiGetProtocol i) \<Rightarrow> Some i | _ \<Rightarrow> None)
       (\<lambda>i s. ret_fail_if (drv (Wifi_get_protocol i) s) (\<lambda>out. (0, Resp_WifiGetProtocol (ucast (out_u8 out)))))"

definition req_wifi_set_inactive_time :: "'s wifi_driver \<Rightarrow> (nat \<Rightarrow> bool) \<Rightarrow> pb_request option \<Rightarrow> 's \<Rightarrow> wifi_reply \<times> 's" where
  "req_wifi_set_inactive_time drv mem q =
     rpc_template mem (case q of Some (Req_WifiSetInactiveTime i t) \<Rightarrow> Some (i, t) | _ \<Rightarrow> None)
       (\<lambda>(i, t) s. ret_fail_if (drv (Wifi_set_inactive_time i (ucast t)) s) resp_ok)"

definition req_wifi_get_inactive_time :: "'s wifi_driver \<Rightarrow> (nat \<Rightarrow> bool) \<Rightarrow> pb_request option \<Rightarrow> 's \<Rightarrow> wifi_reply \<times> 's" where
  "req_wifi_get_inactive_time drv mem q =
     rpc_template mem (case q of Some (Req_WifiGetInactiveTime i) \<Rightarrow> Some i | _ \<Rightarrow> None)
       (\<lambda>i s. ret_fail_if (drv (Wifi_get_inactive_time i) s) (\<lambda>out. (0, Resp_WifiGetInactiveTime (ucast (out_u16 out)))))"

definition req_wifi_set_protocols :: "'s wifi_driver \<Rightarrow> (nat \<Rightarrow> bool) \<Rightarrow> pb_request option \<Rightarrow> 's \<Rightarrow> wifi_reply \<times> 's" where
  "req_wifi_set_protocols drv mem q =
     rpc_template mem (case q of Some (Req_WifiSetProtocols i p) \<Rightarrow> Some (i, p) | _ \<Rightarrow> None)
       (\<lambda>(i, p) s. case p of None \<Rightarrow> ((1, Resp_only), s)
          | Some (a, b) \<Rightarrow> ret_fail_if (drv (Wifi_set_protocols i (ucast a) (ucast b)) s) (\<lambda>_. (0, Resp_WifiSetProtocols i)))"

definition req_wifi_get_protocols :: "'s wifi_driver \<Rightarrow> (nat \<Rightarrow> bool) \<Rightarrow> pb_request option \<Rightarrow> 's \<Rightarrow> wifi_reply \<times> 's" where
  "req_wifi_get_protocols drv mem q =
     rpc_template mem (case q of Some (Req_WifiGetProtocols i) \<Rightarrow> Some i | _ \<Rightarrow> None)
       (\<lambda>i s. ret_fail_if (drv (Wifi_get_protocols i) s)
          (\<lambda>out. if mem 1 then (0, Resp_WifiGetProtocols i (Some (ucast (fst (out_u16s out)), ucast (snd (out_u16s out)))))
                 else (RPC_ERR_MEMORY_FAILURE, Resp_WifiGetProtocols i None)))"

definition req_wifi_set_bandwidths :: "'s wifi_driver \<Rightarrow> (nat \<Rightarrow> bool) \<Rightarrow> pb_request option \<Rightarrow> 's \<Rightarrow> wifi_reply \<times> 's" where
  "req_wifi_set_bandwidths drv mem q =
     rpc_template mem (case q of Some (Req_WifiSetBandwidths i p) \<Rightarrow> Some (i, p) | _ \<Rightarrow> None)
       (\<lambda>(i, p) s. case p of None \<Rightarrow> ((1, Resp_only), s)
          | Some (a, b) \<Rightarrow> ret_fail_if (drv (Wifi_set_bandwidths i a b) s) (\<lambda>_. (0, Resp_WifiSetBandwidths i)))"

definition req_wifi_get_bandwidths :: "'s wifi_driver \<Rightarrow> (nat \<Rightarrow> bool) \<Rightarrow> pb_request option \<Rightarrow> 's \<Rightarrow> wifi_reply \<times> 's" where
  "req_wifi_get_bandwidths drv mem q =
     rpc_template mem (case q of Some (Req_WifiGetBandwidths i) \<Rightarrow> Some i | _ \<Rightarrow> None)
       (\<lambda>i s. ret_fail_if (drv (Wifi_get_bandwidths i) s)
          (\<lambda>out. if mem 1 then (0, Resp_WifiGetBandwidths i (Some (out_u32s out)))
                 else (RPC_ERR_MEMORY_FAILURE, Resp_WifiGetBandwidths i None)))"

definition req_wifi_set_band :: "'s wifi_driver \<Rightarrow> (nat \<Rightarrow> bool) \<Rightarrow> pb_request option \<Rightarrow> 's \<Rightarrow> wifi_reply \<times> 's" where
  "req_wifi_set_band drv mem q =
     rpc_template mem (case q of Some (Req_WifiSetBand b) \<Rightarrow> Some b | _ \<Rightarrow> None)
       (\<lambda>b s. ret_fail_if (drv (Wifi_set_band b) s) resp_ok)"

definition req_wifi_get_band :: "'s wifi_driver \<Rightarrow> (nat \<Rightarrow> bool) \<Rightarrow> 's \<Rightarrow> wifi_reply \<times> 's" where
  "req_wifi_get_band drv mem =
     rpc_template_simple mem (\<lambda>s. ret_fail_if (drv Wifi_get_band s) (\<lambda>out. (0, Resp_WifiGetBand (out_u32 out))))"

definition req_wifi_set_band_mode :: "'s wifi_driver \<Rightarrow> (nat \<Rightarrow> bool) \<Rightarrow> pb_request option \<Rightarrow> 's \<Rightarrow> wifi_reply \<times> 's" where
  "req_wifi_set_band_mode drv mem q =
     rpc_template mem (case q of Some (Req_WifiSetBandMode b) \<Rightarrow> Some b | _ \<Rightarrow> None)
       (\<lambda>b s. ret_fail_if (drv (Wifi_set_band_mode b) s) resp_ok)"

definition req_wifi_get_band_mode :: "'s wifi_driver \<Rightarrow> (nat \<Rightarrow> bool) \<Rightarrow> 's \<Rightarrow> wifi_reply \<times> 's" where
  "req_wifi_get_band_mode drv mem =
     rpc_template_simple mem (\<lambda>s. ret_fail_if (drv Wifi_get_band_mode s) (\<lambda>out. (0, Resp_WifiGetBandMode (out_u32 out))))"

text \<open>The entries of \<open>req_table\<close> for these requests. A request of another identifier is not handled here.\<close>

definition handle_value ::
  "bytes \<Rightarrow> 's wifi_driver \<Rightarrow> (nat \<Rightarrow> bool) \<Rightarrow> int \<Rightarrow> pb_request option \<Rightarrow> 's \<Rightarrow> (wifi_reply \<times> 's) option" where
  "handle_value junk drv mem i q s =
     (if i = RPC_ID_Req_GetMACAddress then req_wifi_get_mac drv mem q s
      else if i = RPC_ID_Req_SetMacAddress then Some (req_wifi_set_mac drv mem q s)
      else if i = RPC_ID_Req_GetWifiMode then Some (req_wifi_get_mode drv mem s)
      else if i = RPC_ID_Req_SetWifiMode then Some (req_wifi_set_mode drv mem q s)
      else if i = RPC_ID_Req_WifiSetPs then Some (req_wifi_set_ps drv mem q s)
      else if i = RPC_ID_Req_WifiGetPs then Some (req_wifi_get_ps drv mem s)
      else if i = RPC_ID_Req_WifiSetMaxTxPower then Some (req_wifi_set_max_tx_power drv mem q s)
      else if i = RPC_ID_Req_WifiGetMaxTxPower then Some (req_wifi_get_max_tx_power drv mem s)
      else if i = RPC_ID_Req_WifiScanParams then Some (req_wifi_scan_params drv mem q s)
      else if i = RPC_ID_Req_WifiScanStop then Some (req_wifi_scan_stop drv mem s)
      else if i = RPC_ID_Req_WifiScanGetApNum then Some (req_wifi_scan_get_ap_num drv mem s)
      else if i = RPC_ID_Req_WifiClearApList then Some (req_wifi_clear_ap_list drv mem s)
      else if i = RPC_ID_Req_WifiRestore then Some (req_wifi_restore drv mem s)
      else if i = RPC_ID_Req_WifiClearFastConnect then Some (req_wifi_clear_fast_connect drv mem s)
      else if i = RPC_ID_Req_WifiDeauthSta then Some (req_wifi_deauth_sta drv mem q s)
      else if i = RPC_ID_Req_WifiSetStorage then Some (req_wifi_set_storage drv mem q s)
      else if i = RPC_ID_Req_WifiSetBandwidth then Some (req_wifi_set_bandwidth drv mem q s)
      else if i = RPC_ID_Req_WifiGetBandwidth then Some (req_wifi_get_bandwidth drv mem q s)
      else if i = RPC_ID_Req_WifiSetChannel then Some (req_wifi_set_channel drv mem q s)
      else if i = RPC_ID_Req_WifiGetChannel then Some (req_wifi_get_channel drv mem s)
      else if i = RPC_ID_Req_WifiSetCountryCode then Some (req_wifi_set_country_code drv mem q s)
      else if i = RPC_ID_Req_WifiGetCountryCode then Some (req_wifi_get_country_code drv mem s)
      else if i = RPC_ID_Req_WifiSetCountry then Some (req_wifi_set_country drv mem q s)
      else if i = RPC_ID_Req_WifiGetCountry then Some (req_wifi_get_country drv mem s)
      else if i = RPC_ID_Req_WifiApGetStaList then Some (req_wifi_ap_get_sta_list drv mem s)
      else if i = RPC_ID_Req_WifiApGetStaAid then Some (req_wifi_ap_get_sta_aid junk drv mem q s)
      else if i = RPC_ID_Req_WifiStaGetRssi then Some (req_wifi_sta_get_rssi drv mem s)
      else if i = RPC_ID_Req_WifiStaGetAid then Some (req_wifi_sta_get_aid drv mem s)
      else if i = RPC_ID_Req_WifiStaGetNegotiatedPhymode then Some (req_wifi_sta_get_negotiated_phymode drv mem s)
      else if i = RPC_ID_Req_WifiSetProtocol then Some (req_wifi_set_protocol drv mem q s)
      else if i = RPC_ID_Req_WifiGetProtocol then Some (req_wifi_get_protocol drv mem q s)
      else if i = RPC_ID_Req_WifiSetInactiveTime then Some (req_wifi_set_inactive_time drv mem q s)
      else if i = RPC_ID_Req_WifiGetInactiveTime then Some (req_wifi_get_inactive_time drv mem q s)
      else if i = RPC_ID_Req_WifiSetProtocols then Some (req_wifi_set_protocols drv mem q s)
      else if i = RPC_ID_Req_WifiGetProtocols then Some (req_wifi_get_protocols drv mem q s)
      else if i = RPC_ID_Req_WifiSetBandwidths then Some (req_wifi_set_bandwidths drv mem q s)
      else if i = RPC_ID_Req_WifiGetBandwidths then Some (req_wifi_get_bandwidths drv mem q s)
      else if i = RPC_ID_Req_WifiSetBand then Some (req_wifi_set_band drv mem q s)
      else if i = RPC_ID_Req_WifiGetBand then Some (req_wifi_get_band drv mem s)
      else if i = RPC_ID_Req_WifiSetBandMode then Some (req_wifi_set_band_mode drv mem q s)
      else if i = RPC_ID_Req_WifiGetBandMode then Some (req_wifi_get_band_mode drv mem s)
      else Some (None, s))"

end
