(* ===== verification/Wifi_Api.thy ===== *)
theory Wifi_Api
  imports Wifi_Values
begin

text \<open>
  The functions of the host API for the requests of \<open>Wifi_Values\<close>: parsing of the replies (\<open>rpc_parse_rsp\<close> of
  \<open>src/host/core/src/h_rpc_rsp.c\<close>), the functions that send a request and wait (\<open>src/host/drivers/rpc/slaveif/rpc_slave_if.c\<close>)
  and those the application calls (\<open>src/host/core/src/h_rpc_wrap.c\<close>, with the conversions of
  \<open>src/host/port/jl/h_wifi.c\<close>).
\<close>

section \<open>Parsing the reply\<close>

text \<open>
  The reply as the application structure: header and status with the member of the union. \<open>None\<close>: a write behind an array
  or a read through a null pointer. Every early exit leaves the rest zero, the status too unless the reply has one.
\<close>

type_synonym ctrl_resp = "app_rsp \<times> ctrl_u"

fun parse_sta_list :: "nat \<Rightarrow> (bytes \<times> u32 \<times> u32) list \<Rightarrow> (bytes \<times> u8) list option" where
  "parse_sta_list 0 ps = Some []"
| "parse_sta_list (Suc n) [] = None"
| "parse_sta_list (Suc n) ((mac, rssi, _) # ps) = do {
     m \<leftarrow> rsp_copy_bytes 6 mac;
     l \<leftarrow> parse_sta_list n ps;
     Some ((m, ucast rssi) # l)
   }"

definition parse_payload :: "pb_response \<Rightarrow> ctrl_u option" where
  "parse_payload p =
     (case p of
        Resp_only \<Rightarrow> Some U_none
      | Resp_GetMacAddress mac \<Rightarrow>
          (if mac = [] then Some U_none else map_option (U_wifi_mac 0) (rsp_copy_bytes 6 mac))
      | Resp_GetMode m \<Rightarrow> Some (U_wifi_mode m)
      | Resp_GetPs t \<Rightarrow> Some (U_wifi_ps t)
      | Resp_WifiGetMaxTxPower x \<Rightarrow> Some (U_wifi_tx_power x)
      | Resp_WifiScanParams c \<Rightarrow>
          Some (case c of None \<Rightarrow> U_none
            | Some (passive, lo, hi, dwell) \<Rightarrow> U_wifi_scan_params 0
                \<lparr>hst_active_min = ucast lo, hst_active_max = ucast hi, hst_passive = ucast passive, hst_dwell = ucast dwell\<rparr> False)
      | Resp_WifiScanGetApNum n \<Rightarrow> Some (U_wifi_scan_ap_list n)
      | Resp_WifiGetBandwidth b \<Rightarrow> Some (U_wifi_bandwidth 0 b)
      | Resp_WifiGetChannel pr se \<Rightarrow> Some (U_wifi_channel (ucast pr) se)
      | Resp_WifiGetCountryCode c \<Rightarrow> map_option (\<lambda>cc. U_wifi_country_code cc False) (rsp_copy_bytes 3 c)
      | Resp_WifiGetCountry c \<Rightarrow> do {
          p \<leftarrow> c;
          cc \<leftarrow> rsp_copy_bytes 3 (pc_cc p);
          Some (U_wifi_country \<lparr>hc_cc = cc, hc_schan = ucast (pc_schan p), hc_nchan = ucast (pc_nchan p),
            hc_max_tx_power = ucast (pc_max_tx_power p), hc_policy = ucast (pc_policy p)\<rparr>)
        }
      | Resp_WifiApGetStaList sl \<Rightarrow> do {
          (entries, num) \<leftarrow> sl;
          let n = min (unat num) 10;
          l \<leftarrow> parse_sta_list n entries;
          Some (U_wifi_ap_sta_list (l @ replicate (10 - n) (replicate 6 0, 0)) (of_nat n))
        }
      | Resp_WifiApGetStaAid a \<Rightarrow> Some (U_wifi_ap_get_sta_aid (replicate 6 0) (ucast a))
      | Resp_WifiStaGetRssi x \<Rightarrow> Some (U_wifi_sta_get_rssi x)
      | Resp_WifiStaGetAid a \<Rightarrow> Some (U_wifi_sta_get_aid (ucast a))
      | Resp_WifiStaGetNegotiatedPhymode m \<Rightarrow> Some (U_wifi_sta_get_negotiated_phymode m)
      | Resp_WifiGetProtocol b \<Rightarrow> Some (U_wifi_protocol 0 (ucast b))
      | Resp_WifiGetInactiveTime t \<Rightarrow> Some (U_wifi_inactive_time 0 (ucast t))
      | Resp_WifiSetProtocols i \<Rightarrow> Some (U_wifi_protocols i 0 0)
      | Resp_WifiGetProtocols i ps \<Rightarrow> map_option (\<lambda>(a, b). U_wifi_protocols i (ucast a) (ucast b)) ps
      | Resp_WifiSetBandwidths i \<Rightarrow> Some (U_wifi_bandwidths i 0 0)
      | Resp_WifiGetBandwidths i bs \<Rightarrow> map_option (\<lambda>(a, b). U_wifi_bandwidths i a b) bs
      | Resp_WifiGetBand b \<Rightarrow> Some (U_wifi_band b)
      | Resp_WifiGetBandMode b \<Rightarrow> Some (U_wifi_band_mode b))"

text \<open>The case of \<open>Resp_WifiScanParams\<close> reads \<open>config\<close> before it tests the payload for null.\<close>

definition parse_value :: "int \<Rightarrow> wifi_reply \<Rightarrow> ctrl_resp option" where
  "parse_value i r =
     (let app = \<lparr>as_type = RPC_Resp, as_id = i, as_status = 0, as_number = 0, as_list = None\<rparr> in
      case r of
        None \<Rightarrow> if i = RPC_ID_Resp_WifiScanParams then None else Some (app, U_none)
      | Some (resp, p) \<Rightarrow>
          if resp \<noteq> 0 then Some (app\<lparr>as_status := resp\<rparr>, U_none) else map_option (Pair app) (parse_payload p))"

text \<open>
  \<open>RPC_SEND_REQ\<close> and \<open>RPC_DECODE_RSP_IF_NOT_ASYNC\<close> with the request that arrives and the reply that is returned: the reply
  has the identifier of the request plus the distance of the two ranges. A request that cannot be composed has no reply.
\<close>

definition rpc_slaveif :: "bytes \<Rightarrow> 's wifi_driver \<Rightarrow> (nat \<Rightarrow> bool) \<Rightarrow> int \<Rightarrow> ctrl_u \<Rightarrow> 's \<Rightarrow> (ctrl_resp option \<times> 's) option" where
  "rpc_slaveif junk drv mem i u s =
     (case compose_value i u of
        None \<Rightarrow> Some (None, s)
      | Some q \<Rightarrow> do {
          (r, s) \<leftarrow> handle_value junk drv mem i q s;
          resp \<leftarrow> parse_value (i + (RPC_ID_Resp_Base - RPC_ID_Req_Base)) r;
          Some (Some resp, s)
        })"

section \<open>The API of the host\<close>

text \<open>
  What a call of the application gives: the result, the variable it passed a pointer to, and the state of the driver.
  \<open>call\<close> is \<open>rpc_slaveif\<close>; \<open>old\<close> is what the variable held, kept unless the status of the reply is zero.
  Arrays the caller passes are read with \<open>mem_slice\<close>: \<open>None\<close> behind their end.
\<close>

datatype (plugins only: size code) host_out =
    Out_none
  | Out_bytes bytes
  | Out_u8 u8
  | Out_u16 u16
  | Out_u32 u32
  | Out_channel u8 u32
  | Out_u16s u16 u16
  | Out_u32s u32 u32
  | Out_country h_country
  | Out_scan_times h_scan_times
  | Out_stas "(bytes \<times> u8) list" u8

type_synonym 's remote = "int \<Rightarrow> ctrl_u \<Rightarrow> 's \<Rightarrow> (ctrl_resp option \<times> 's) option"

definition rpc_finish :: "(ctrl_u \<Rightarrow> host_out) \<Rightarrow> host_out \<Rightarrow> (ctrl_resp option \<times> 's) option \<Rightarrow> (int \<times> host_out \<times> 's) option" where
  "rpc_finish f old r = do {
     (resp, s) \<leftarrow> r;
     let out = (case resp of Some (app, u) \<Rightarrow> if as_status app = 0 then f u else old | None \<Rightarrow> old);
     Some (rpc_rsp_callback (map_option fst resp), out, s)
   }"

definition rpc_set :: "(ctrl_resp option \<times> 's) option \<Rightarrow> (int \<times> host_out \<times> 's) option" where
  "rpc_set r = rpc_finish (\<lambda>_. Out_none) Out_none r"

abbreviation (input) H_WIFI_PS_MAX_MODEM :: u32 where "H_WIFI_PS_MAX_MODEM \<equiv> 2"

definition jl_enum_to_native :: "u32 \<Rightarrow> u8" where "jl_enum_to_native v = ucast v"
definition jl_enum_to_host :: "u8 \<Rightarrow> u32" where "jl_enum_to_host v = ucast v"

definition rpc_wifi_get_mac :: "'s remote \<Rightarrow> u32 \<Rightarrow> host_out \<Rightarrow> 's \<Rightarrow> (int \<times> host_out \<times> 's) option" where
  "rpc_wifi_get_mac call mode old s =
     rpc_finish (\<lambda>u. Out_bytes (snd (u_wifi_mac u))) old (call RPC_ID_Req_GetMACAddress (U_wifi_mac mode (replicate 6 0)) s)"

definition rpc_wifi_set_mac :: "'s remote \<Rightarrow> u32 \<Rightarrow> bytes \<Rightarrow> 's \<Rightarrow> (int \<times> host_out \<times> 's) option" where
  "rpc_wifi_set_mac call mode mac s = do {
     m \<leftarrow> mem_slice mac 0 6;
     rpc_set (call RPC_ID_Req_SetMacAddress (U_wifi_mac mode m) s)
   }"

definition rpc_set_wifi_mode :: "'s remote \<Rightarrow> u32 \<Rightarrow> 's \<Rightarrow> (int \<times> host_out \<times> 's) option" where
  "rpc_set_wifi_mode call mode s = rpc_set (call RPC_ID_Req_SetWifiMode (U_wifi_mode mode) s)"

definition rpc_wifi_get_mode :: "'s remote \<Rightarrow> host_out \<Rightarrow> 's \<Rightarrow> (int \<times> host_out \<times> 's) option" where
  "rpc_wifi_get_mode call old s = rpc_finish (\<lambda>u. Out_u32 (u_wifi_mode u)) old (call RPC_ID_Req_GetWifiMode U_none s)"

definition rpc_wifi_set_ps :: "'s remote \<Rightarrow> u32 \<Rightarrow> 's \<Rightarrow> (int \<times> host_out \<times> 's) option" where
  "rpc_wifi_set_ps call t s =
     (if t > H_WIFI_PS_MAX_MODEM then Some (h_err_code H_ERR_INVALID_ARG, Out_none, s)
      else rpc_set (call RPC_ID_Req_WifiSetPs (U_wifi_ps (ucast (jl_enum_to_native t))) s))"

text \<open>\<open>rpc_wifi_get_ps\<close> reads the reply without testing it, and stores the mode whatever its status is.\<close>

definition rpc_wifi_get_ps :: "'s remote \<Rightarrow> host_out \<Rightarrow> 's \<Rightarrow> (int \<times> host_out \<times> 's) option" where
  "rpc_wifi_get_ps call old s = do {
     (resp, s) \<leftarrow> call RPC_ID_Req_WifiGetPs U_none s;
     (app, u) \<leftarrow> resp;
     Some (rpc_rsp_callback (Some app), Out_u32 (jl_enum_to_host (ucast (u_wifi_ps u))), s)
   }"

definition rpc_wifi_set_max_tx_power :: "'s remote \<Rightarrow> u8 \<Rightarrow> 's \<Rightarrow> (int \<times> host_out \<times> 's) option" where
  "rpc_wifi_set_max_tx_power call p s = rpc_set (call RPC_ID_Req_WifiSetMaxTxPower (U_wifi_tx_power (scast p)) s)"

definition rpc_wifi_get_max_tx_power :: "'s remote \<Rightarrow> host_out \<Rightarrow> 's \<Rightarrow> (int \<times> host_out \<times> 's) option" where
  "rpc_wifi_get_max_tx_power call old s =
     rpc_finish (\<lambda>u. Out_u8 (ucast (u_wifi_tx_power u))) old (call RPC_ID_Req_WifiGetMaxTxPower U_none s)"

definition rpc_wifi_set_scan_parameters :: "'s remote \<Rightarrow> h_scan_times option \<Rightarrow> 's \<Rightarrow> (int \<times> host_out \<times> 's) option" where
  "rpc_wifi_set_scan_parameters call config s =
     rpc_set (call RPC_ID_Req_WifiScanParams
       (case config of
          Some t \<Rightarrow> U_wifi_scan_params RPC_CMD_Set t False
        | None \<Rightarrow> U_wifi_scan_params RPC_CMD_Set \<lparr>hst_active_min = 0, hst_active_max = 0, hst_passive = 0, hst_dwell = 0\<rparr> True) s)"

definition rpc_wifi_get_scan_parameters :: "'s remote \<Rightarrow> host_out \<Rightarrow> 's \<Rightarrow> (int \<times> host_out \<times> 's) option" where
  "rpc_wifi_get_scan_parameters call old s =
     rpc_finish (\<lambda>u. Out_scan_times (fst (snd (u_wifi_scan_params u)))) old
       (call RPC_ID_Req_WifiScanParams
         (U_wifi_scan_params RPC_CMD_Get \<lparr>hst_active_min = 0, hst_active_max = 0, hst_passive = 0, hst_dwell = 0\<rparr> False) s)"

definition rpc_wifi_scan_stop :: "'s remote \<Rightarrow> 's \<Rightarrow> (int \<times> host_out \<times> 's) option" where
  "rpc_wifi_scan_stop call s = rpc_set (call RPC_ID_Req_WifiScanStop U_none s)"

definition rpc_wifi_scan_get_ap_num :: "'s remote \<Rightarrow> host_out \<Rightarrow> 's \<Rightarrow> (int \<times> host_out \<times> 's) option" where
  "rpc_wifi_scan_get_ap_num call old s =
     rpc_finish (\<lambda>u. Out_u16 (ucast (u_wifi_scan_ap_list u))) old (call RPC_ID_Req_WifiScanGetApNum U_none s)"

definition rpc_wifi_clear_ap_list :: "'s remote \<Rightarrow> 's \<Rightarrow> (int \<times> host_out \<times> 's) option" where
  "rpc_wifi_clear_ap_list call s = rpc_set (call RPC_ID_Req_WifiClearApList U_none s)"

definition rpc_wifi_restore :: "'s remote \<Rightarrow> 's \<Rightarrow> (int \<times> host_out \<times> 's) option" where
  "rpc_wifi_restore call s = rpc_set (call RPC_ID_Req_WifiRestore U_none s)"

definition rpc_wifi_clear_fast_connect :: "'s remote \<Rightarrow> 's \<Rightarrow> (int \<times> host_out \<times> 's) option" where
  "rpc_wifi_clear_fast_connect call s = rpc_set (call RPC_ID_Req_WifiClearFastConnect U_none s)"

definition rpc_wifi_deauth_sta :: "'s remote \<Rightarrow> u16 \<Rightarrow> 's \<Rightarrow> (int \<times> host_out \<times> 's) option" where
  "rpc_wifi_deauth_sta call aid s = rpc_set (call RPC_ID_Req_WifiDeauthSta (U_wifi_deauth_sta aid) s)"

definition rpc_wifi_set_storage :: "'s remote \<Rightarrow> u32 \<Rightarrow> 's \<Rightarrow> (int \<times> host_out \<times> 's) option" where
  "rpc_wifi_set_storage call x s = rpc_set (call RPC_ID_Req_WifiSetStorage (U_wifi_storage x) s)"

definition rpc_wifi_set_bandwidth :: "'s remote \<Rightarrow> u32 \<Rightarrow> u32 \<Rightarrow> 's \<Rightarrow> (int \<times> host_out \<times> 's) option" where
  "rpc_wifi_set_bandwidth call ifx bw s =
     rpc_set (call RPC_ID_Req_WifiSetBandwidth (U_wifi_bandwidth ifx (ucast (jl_enum_to_native bw))) s)"

definition rpc_wifi_get_bandwidth :: "'s remote \<Rightarrow> u32 \<Rightarrow> host_out \<Rightarrow> 's \<Rightarrow> (int \<times> host_out \<times> 's) option" where
  "rpc_wifi_get_bandwidth call ifx old s =
     rpc_finish (\<lambda>u. Out_u32 (jl_enum_to_host (ucast (snd (u_wifi_bandwidth u))))) old
       (call RPC_ID_Req_WifiGetBandwidth (U_wifi_bandwidth ifx 0) s)"

definition rpc_wifi_set_channel :: "'s remote \<Rightarrow> u8 \<Rightarrow> u32 \<Rightarrow> 's \<Rightarrow> (int \<times> host_out \<times> 's) option" where
  "rpc_wifi_set_channel call primary second s = rpc_set (call RPC_ID_Req_WifiSetChannel (U_wifi_channel primary second) s)"

definition rpc_wifi_get_channel :: "'s remote \<Rightarrow> host_out \<Rightarrow> 's \<Rightarrow> (int \<times> host_out \<times> 's) option" where
  "rpc_wifi_get_channel call old s =
     rpc_finish (\<lambda>u. Out_channel (fst (u_wifi_channel u)) (snd (u_wifi_channel u))) old (call RPC_ID_Req_WifiGetChannel U_none s)"

text \<open>Three octets are taken from the caller's string; reading behind it is \<open>None\<close>.\<close>

definition rpc_wifi_set_country_code :: "'s remote \<Rightarrow> bytes \<Rightarrow> bool \<Rightarrow> 's \<Rightarrow> (int \<times> host_out \<times> 's) option" where
  "rpc_wifi_set_country_code call country ieee80211d s = do {
     cc \<leftarrow> mem_slice country 0 3;
     rpc_set (call RPC_ID_Req_WifiSetCountryCode (U_wifi_country_code cc ieee80211d) s)
   }"

definition rpc_wifi_get_country_code :: "'s remote \<Rightarrow> host_out \<Rightarrow> 's \<Rightarrow> (int \<times> host_out \<times> 's) option" where
  "rpc_wifi_get_country_code call old s =
     rpc_finish (\<lambda>u. Out_bytes (fst (u_wifi_country_code u))) old (call RPC_ID_Req_WifiGetCountryCode U_none s)"

definition rpc_wifi_set_country :: "'s remote \<Rightarrow> h_country \<Rightarrow> 's \<Rightarrow> (int \<times> host_out \<times> 's) option" where
  "rpc_wifi_set_country call c s = rpc_set (call RPC_ID_Req_WifiSetCountry (U_wifi_country c) s)"

definition rpc_wifi_get_country :: "'s remote \<Rightarrow> host_out \<Rightarrow> 's \<Rightarrow> (int \<times> host_out \<times> 's) option" where
  "rpc_wifi_get_country call old s =
     rpc_finish (\<lambda>u. Out_country (u_wifi_country u)) old (call RPC_ID_Req_WifiGetCountry U_none s)"

definition rpc_wifi_ap_get_sta_list :: "'s remote \<Rightarrow> host_out \<Rightarrow> 's \<Rightarrow> (int \<times> host_out \<times> 's) option" where
  "rpc_wifi_ap_get_sta_list call old s =
     rpc_finish (\<lambda>u. Out_stas (fst (u_wifi_ap_sta_list u)) (snd (u_wifi_ap_sta_list u))) old (call RPC_ID_Req_WifiApGetStaList U_none s)"

definition rpc_wifi_ap_get_sta_aid :: "'s remote \<Rightarrow> bytes \<Rightarrow> host_out \<Rightarrow> 's \<Rightarrow> (int \<times> host_out \<times> 's) option" where
  "rpc_wifi_ap_get_sta_aid call mac old s = do {
     m \<leftarrow> mem_slice mac 0 6;
     rpc_finish (\<lambda>u. Out_u16 (snd (u_wifi_ap_get_sta_aid u))) old
       (call RPC_ID_Req_WifiApGetStaAid (U_wifi_ap_get_sta_aid m 0) s)
   }"

definition rpc_wifi_sta_get_rssi :: "'s remote \<Rightarrow> host_out \<Rightarrow> 's \<Rightarrow> (int \<times> host_out \<times> 's) option" where
  "rpc_wifi_sta_get_rssi call old s =
     rpc_finish (\<lambda>u. Out_u32 (u_wifi_sta_get_rssi u)) old (call RPC_ID_Req_WifiStaGetRssi U_none s)"

definition rpc_wifi_sta_get_aid :: "'s remote \<Rightarrow> host_out \<Rightarrow> 's \<Rightarrow> (int \<times> host_out \<times> 's) option" where
  "rpc_wifi_sta_get_aid call old s =
     rpc_finish (\<lambda>u. Out_u16 (u_wifi_sta_get_aid u)) old (call RPC_ID_Req_WifiStaGetAid U_none s)"

definition rpc_wifi_sta_get_negotiated_phymode :: "'s remote \<Rightarrow> host_out \<Rightarrow> 's \<Rightarrow> (int \<times> host_out \<times> 's) option" where
  "rpc_wifi_sta_get_negotiated_phymode call old s =
     rpc_finish (\<lambda>u. Out_u32 (u_wifi_phymode u)) old (call RPC_ID_Req_WifiStaGetNegotiatedPhymode U_none s)"

definition rpc_wifi_set_protocol :: "'s remote \<Rightarrow> u32 \<Rightarrow> u8 \<Rightarrow> 's \<Rightarrow> (int \<times> host_out \<times> 's) option" where
  "rpc_wifi_set_protocol call ifx bm s = rpc_set (call RPC_ID_Req_WifiSetProtocol (U_wifi_protocol ifx bm) s)"

text \<open>The interface is not used: the member of the request stays zero.\<close>

definition rpc_wifi_get_protocol :: "'s remote \<Rightarrow> u32 \<Rightarrow> host_out \<Rightarrow> 's \<Rightarrow> (int \<times> host_out \<times> 's) option" where
  "rpc_wifi_get_protocol call ifx old s =
     rpc_finish (\<lambda>u. Out_u8 (snd (u_wifi_protocol u))) old (call RPC_ID_Req_WifiGetProtocol U_none s)"

definition rpc_wifi_set_inactive_time :: "'s remote \<Rightarrow> u32 \<Rightarrow> u16 \<Rightarrow> 's \<Rightarrow> (int \<times> host_out \<times> 's) option" where
  "rpc_wifi_set_inactive_time call ifx t s = rpc_set (call RPC_ID_Req_WifiSetInactiveTime (U_wifi_inactive_time ifx t) s)"

definition rpc_wifi_get_inactive_time :: "'s remote \<Rightarrow> u32 \<Rightarrow> host_out \<Rightarrow> 's \<Rightarrow> (int \<times> host_out \<times> 's) option" where
  "rpc_wifi_get_inactive_time call ifx old s =
     rpc_finish (\<lambda>u. Out_u16 (snd (u_wifi_inactive_time u))) old
       (call RPC_ID_Req_WifiGetInactiveTime (U_wifi_inactive_time ifx 0) s)"

definition rpc_wifi_set_protocols :: "'s remote \<Rightarrow> u32 \<Rightarrow> u16 \<Rightarrow> u16 \<Rightarrow> 's \<Rightarrow> (int \<times> host_out \<times> 's) option" where
  "rpc_wifi_set_protocols call ifx a b s = rpc_set (call RPC_ID_Req_WifiSetProtocols (U_wifi_protocols ifx a b) s)"

definition rpc_wifi_get_protocols :: "'s remote \<Rightarrow> u32 \<Rightarrow> host_out \<Rightarrow> 's \<Rightarrow> (int \<times> host_out \<times> 's) option" where
  "rpc_wifi_get_protocols call ifx old s =
     rpc_finish (\<lambda>u. Out_u16s (fst (snd (u_wifi_protocols u))) (snd (snd (u_wifi_protocols u)))) old
       (call RPC_ID_Req_WifiGetProtocols (U_wifi_protocols ifx 0 0) s)"

definition rpc_wifi_set_bandwidths :: "'s remote \<Rightarrow> u32 \<Rightarrow> u32 \<Rightarrow> u32 \<Rightarrow> 's \<Rightarrow> (int \<times> host_out \<times> 's) option" where
  "rpc_wifi_set_bandwidths call ifx a b s = rpc_set (call RPC_ID_Req_WifiSetBandwidths (U_wifi_bandwidths ifx a b) s)"

definition rpc_wifi_get_bandwidths :: "'s remote \<Rightarrow> u32 \<Rightarrow> host_out \<Rightarrow> 's \<Rightarrow> (int \<times> host_out \<times> 's) option" where
  "rpc_wifi_get_bandwidths call ifx old s =
     rpc_finish (\<lambda>u. Out_u32s (fst (snd (u_wifi_bandwidths u))) (snd (snd (u_wifi_bandwidths u)))) old
       (call RPC_ID_Req_WifiGetBandwidths (U_wifi_bandwidths ifx 0 0) s)"

definition rpc_wifi_set_band :: "'s remote \<Rightarrow> u32 \<Rightarrow> 's \<Rightarrow> (int \<times> host_out \<times> 's) option" where
  "rpc_wifi_set_band call b s = rpc_set (call RPC_ID_Req_WifiSetBand (U_wifi_band b) s)"

definition rpc_wifi_get_band :: "'s remote \<Rightarrow> host_out \<Rightarrow> 's \<Rightarrow> (int \<times> host_out \<times> 's) option" where
  "rpc_wifi_get_band call old s = rpc_finish (\<lambda>u. Out_u32 (u_wifi_band u)) old (call RPC_ID_Req_WifiGetBand U_none s)"

definition rpc_wifi_set_band_mode :: "'s remote \<Rightarrow> u32 \<Rightarrow> 's \<Rightarrow> (int \<times> host_out \<times> 's) option" where
  "rpc_wifi_set_band_mode call b s = rpc_set (call RPC_ID_Req_WifiSetBandMode (U_wifi_band_mode b) s)"

definition rpc_wifi_get_band_mode :: "'s remote \<Rightarrow> host_out \<Rightarrow> 's \<Rightarrow> (int \<times> host_out \<times> 's) option" where
  "rpc_wifi_get_band_mode call old s =
     rpc_finish (\<lambda>u. Out_u32 (u_wifi_band_mode u)) old (call RPC_ID_Req_WifiGetBandMode U_none s)"

text \<open>
  The call of the application by its name. Where the structures differ, the host's is the driver's with narrower members.
\<close>

definition country_to_host :: "wifi_country \<Rightarrow> h_country" where
  "country_to_host c = \<lparr>hc_cc = wc_cc c, hc_schan = wc_schan c, hc_nchan = wc_nchan c, hc_max_tx_power = wc_max_tx_power c,
     hc_policy = ucast (wc_policy_enum c)\<rparr>"

definition scan_times_to_host :: "scan_times \<Rightarrow> h_scan_times" where
  "scan_times_to_host t = \<lparr>hst_active_min = ucast (sct_active_min t), hst_active_max = ucast (sct_active_max t),
     hst_passive = ucast (sct_passive t), hst_dwell = sct_dwell t\<rparr>"

definition wifi_api :: "'s remote \<Rightarrow> driver_request \<Rightarrow> host_out \<Rightarrow> 's \<Rightarrow> (int \<times> host_out \<times> 's) option" where
  "wifi_api call c old s =
     (case c of
        Wifi_get_mac mode \<Rightarrow> rpc_wifi_get_mac call mode old s
      | Wifi_set_mac mode mac \<Rightarrow> rpc_wifi_set_mac call mode mac s
      | Wifi_set_mode m \<Rightarrow> rpc_set_wifi_mode call m s
      | Wifi_get_mode \<Rightarrow> rpc_wifi_get_mode call old s
      | Wifi_set_ps t \<Rightarrow> rpc_wifi_set_ps call t s
      | Wifi_get_ps \<Rightarrow> rpc_wifi_get_ps call old s
      | Wifi_set_max_tx_power p \<Rightarrow> rpc_wifi_set_max_tx_power call p s
      | Wifi_get_max_tx_power \<Rightarrow> rpc_wifi_get_max_tx_power call old s
      | Wifi_set_scan_parameters t \<Rightarrow> rpc_wifi_set_scan_parameters call (map_option scan_times_to_host t) s
      | Wifi_get_scan_parameters \<Rightarrow> rpc_wifi_get_scan_parameters call old s
      | Wifi_scan_stop \<Rightarrow> rpc_wifi_scan_stop call s
      | Wifi_scan_get_ap_num \<Rightarrow> rpc_wifi_scan_get_ap_num call old s
      | Wifi_clear_ap_list \<Rightarrow> rpc_wifi_clear_ap_list call s
      | Wifi_restore \<Rightarrow> rpc_wifi_restore call s
      | Wifi_clear_fast_connect \<Rightarrow> rpc_wifi_clear_fast_connect call s
      | Wifi_deauth_sta a \<Rightarrow> rpc_wifi_deauth_sta call a s
      | Wifi_set_storage x \<Rightarrow> rpc_wifi_set_storage call x s
      | Wifi_set_bandwidth i b \<Rightarrow> rpc_wifi_set_bandwidth call i b s
      | Wifi_get_bandwidth i \<Rightarrow> rpc_wifi_get_bandwidth call i old s
      | Wifi_set_channel p x \<Rightarrow> rpc_wifi_set_channel call p x s
      | Wifi_get_channel \<Rightarrow> rpc_wifi_get_channel call old s
      | Wifi_set_country_code cc d \<Rightarrow> rpc_wifi_set_country_code call cc d s
      | Wifi_get_country_code \<Rightarrow> rpc_wifi_get_country_code call old s
      | Wifi_set_country x \<Rightarrow> rpc_wifi_set_country call (country_to_host x) s
      | Wifi_get_country \<Rightarrow> rpc_wifi_get_country call old s
      | Wifi_ap_get_sta_list \<Rightarrow> rpc_wifi_ap_get_sta_list call old s
      | Wifi_ap_get_sta_aid mac \<Rightarrow> rpc_wifi_ap_get_sta_aid call mac old s
      | Wifi_sta_get_rssi \<Rightarrow> rpc_wifi_sta_get_rssi call old s
      | Wifi_sta_get_aid \<Rightarrow> rpc_wifi_sta_get_aid call old s
      | Wifi_sta_get_negotiated_phymode \<Rightarrow> rpc_wifi_sta_get_negotiated_phymode call old s
      | Wifi_set_protocol i p \<Rightarrow> rpc_wifi_set_protocol call i p s
      | Wifi_get_protocol i \<Rightarrow> rpc_wifi_get_protocol call i old s
      | Wifi_set_inactive_time i t \<Rightarrow> rpc_wifi_set_inactive_time call i t s
      | Wifi_get_inactive_time i \<Rightarrow> rpc_wifi_get_inactive_time call i old s
      | Wifi_set_protocols i a b \<Rightarrow> rpc_wifi_set_protocols call i a b s
      | Wifi_get_protocols i \<Rightarrow> rpc_wifi_get_protocols call i old s
      | Wifi_set_bandwidths i a b \<Rightarrow> rpc_wifi_set_bandwidths call i a b s
      | Wifi_get_bandwidths i \<Rightarrow> rpc_wifi_get_bandwidths call i old s
      | Wifi_set_band b \<Rightarrow> rpc_wifi_set_band call b s
      | Wifi_get_band \<Rightarrow> rpc_wifi_get_band call old s
      | Wifi_set_band_mode b \<Rightarrow> rpc_wifi_set_band_mode call b s
      | Wifi_get_band_mode \<Rightarrow> rpc_wifi_get_band_mode call old s)"

end
