(* ===== verification/Wifi_Transparent.thy ===== *)
theory Wifi_Transparent
  imports Wifi_Api
begin

text \<open>
  The API of the host against the API of the driver: every call of \<open>Wifi_Api\<close> is one call of the driver with the same
  arguments, and gives its result and values. The case of a reply that cannot be allocated.
\<close>

section \<open>A call of the application is a call of the driver\<close>

text \<open>
  The call the driver gets for a call of the application: the same, but the interface of \<open>Wifi_get_protocol\<close> is lost and
  the country code ends with a zero.
\<close>

definition native_call :: "driver_request \<Rightarrow> driver_request" where
  "native_call c =
     (case c of
        Wifi_get_protocol ifx \<Rightarrow> Wifi_get_protocol 0
      | Wifi_set_country_code cc d \<Rightarrow> Wifi_set_country_code (take 2 cc @ [0]) d
      | _ \<Rightarrow> c)"

text \<open>Arguments within the types and ranges of the API of the host.\<close>

definition wifi_call_ok :: "driver_request \<Rightarrow> bool" where
  "wifi_call_ok c =
     (case c of
        Wifi_set_mac mode mac \<Rightarrow> length mac = 6
      | Wifi_set_mode m \<Rightarrow> m \<le> 4
      | Wifi_set_ps t \<Rightarrow> t \<le> 2
      | Wifi_set_scan_parameters (Some t) \<Rightarrow> sct_active_min t < 0x10000 \<and> sct_active_max t < 0x10000 \<and> sct_passive t < 0x10000
      | Wifi_set_bandwidth i b \<Rightarrow> b < 0x100
      | Wifi_set_country_code cc d \<Rightarrow> length cc = 3
      | Wifi_set_country x \<Rightarrow> length (wc_cc x) = 3 \<and> wc_policy_enum x < 0x100
      | Wifi_ap_get_sta_aid mac \<Rightarrow> length mac = 6
      | _ \<Rightarrow> True)"

text \<open>What the driver may store for a call that succeeds.\<close>

definition driver_out_ok :: "driver_request \<Rightarrow> driver_out \<Rightarrow> bool" where
  "driver_out_ok c out =
     (case c of
        Wifi_get_mac mode \<Rightarrow> (case out of Drv_bytes b \<Rightarrow> length b = 6 | _ \<Rightarrow> False)
      | Wifi_get_mode \<Rightarrow> (case out of Drv_u32 x \<Rightarrow> True | _ \<Rightarrow> False)
      | Wifi_get_ps \<Rightarrow> (case out of Drv_u32 x \<Rightarrow> x < 0x100 | _ \<Rightarrow> False)
      | Wifi_get_max_tx_power \<Rightarrow> (case out of Drv_u8 x \<Rightarrow> True | _ \<Rightarrow> False)
      | Wifi_get_scan_parameters \<Rightarrow> (case out of Drv_scan_times t \<Rightarrow> True | _ \<Rightarrow> False)
      | Wifi_scan_get_ap_num \<Rightarrow> (case out of Drv_u16 x \<Rightarrow> True | _ \<Rightarrow> False)
      | Wifi_get_bandwidth i \<Rightarrow> (case out of Drv_u32 x \<Rightarrow> x < 0x100 | _ \<Rightarrow> False)
      | Wifi_get_channel \<Rightarrow> (case out of Drv_channel p x \<Rightarrow> True | _ \<Rightarrow> False)
      | Wifi_get_country_code \<Rightarrow> (case out of Drv_bytes b \<Rightarrow> length b = 3 | _ \<Rightarrow> False)
      | Wifi_get_country \<Rightarrow> (case out of Drv_country x \<Rightarrow> length (wc_cc x) = 3 | _ \<Rightarrow> False)
      | Wifi_ap_get_sta_list \<Rightarrow>
          (case out of Drv_stas l n \<Rightarrow> min (unat n) 10 \<le> length l \<and> (\<forall>i \<in> set l. length (si_mac i) = 6) | _ \<Rightarrow> False)
      | Wifi_ap_get_sta_aid mac \<Rightarrow> (case out of Drv_u16 x \<Rightarrow> True | _ \<Rightarrow> False)
      | Wifi_sta_get_rssi \<Rightarrow> (case out of Drv_u32 x \<Rightarrow> True | _ \<Rightarrow> False)
      | Wifi_sta_get_aid \<Rightarrow> (case out of Drv_u16 x \<Rightarrow> True | _ \<Rightarrow> False)
      | Wifi_sta_get_negotiated_phymode \<Rightarrow> (case out of Drv_u32 x \<Rightarrow> True | _ \<Rightarrow> False)
      | Wifi_get_protocol i \<Rightarrow> (case out of Drv_u8 x \<Rightarrow> True | _ \<Rightarrow> False)
      | Wifi_get_inactive_time i \<Rightarrow> (case out of Drv_u16 x \<Rightarrow> True | _ \<Rightarrow> False)
      | Wifi_get_protocols i \<Rightarrow> (case out of Drv_u16s x y \<Rightarrow> True | _ \<Rightarrow> False)
      | Wifi_get_bandwidths i \<Rightarrow> (case out of Drv_u32s x y \<Rightarrow> True | _ \<Rightarrow> False)
      | Wifi_get_band \<Rightarrow> (case out of Drv_u32 x \<Rightarrow> True | _ \<Rightarrow> False)
      | Wifi_get_band_mode \<Rightarrow> (case out of Drv_u32 x \<Rightarrow> True | _ \<Rightarrow> False)
      | _ \<Rightarrow> out = Drv_none)"

text \<open>
  How the application sees it: at most ten stations with address and strength, a country code up to its terminator, the
  structures of the host for those of the driver.
\<close>

definition stas_to_host :: "sta_info list \<Rightarrow> u32 \<Rightarrow> host_out" where
  "stas_to_host l n =
     (let k = min (unat n) 10 in
      Out_stas (map (\<lambda>i. (si_mac i, si_rssi i)) (take k l) @ replicate (10 - k) (replicate 6 0, 0)) (of_nat k))"

definition out_to_host :: "driver_request \<Rightarrow> driver_out \<Rightarrow> host_out" where
  "out_to_host c out =
     (case out of
        Drv_none \<Rightarrow> Out_none
      | Drv_bytes b \<Rightarrow> Out_bytes (if c = Wifi_get_country_code then copy_into 3 (c_str b) else b)
      | Drv_u8 x \<Rightarrow> Out_u8 x
      | Drv_u16 x \<Rightarrow> Out_u16 x
      | Drv_u32 x \<Rightarrow> Out_u32 x
      | Drv_channel p x \<Rightarrow> Out_channel p x
      | Drv_u16s x y \<Rightarrow> Out_u16s x y
      | Drv_u32s x y \<Rightarrow> Out_u32s x y
      | Drv_country x \<Rightarrow> Out_country (country_to_host x)
      | Drv_scan_times t \<Rightarrow> Out_scan_times (scan_times_to_host t)
      | Drv_stas l n \<Rightarrow> stas_to_host l n)"

text \<open>A zeroed variable, for the calls that have one; and what the variable holds after an error.\<close>

definition zero_out :: "driver_request \<Rightarrow> host_out" where
  "zero_out c =
     (case c of
        Wifi_get_mac mode \<Rightarrow> Out_bytes (replicate 6 0)
      | Wifi_get_mode \<Rightarrow> Out_u32 0
      | Wifi_get_ps \<Rightarrow> Out_u32 0
      | Wifi_get_max_tx_power \<Rightarrow> Out_u8 0
      | Wifi_get_scan_parameters \<Rightarrow> Out_scan_times \<lparr>hst_active_min = 0, hst_active_max = 0, hst_passive = 0, hst_dwell = 0\<rparr>
      | Wifi_scan_get_ap_num \<Rightarrow> Out_u16 0
      | Wifi_get_bandwidth i \<Rightarrow> Out_u32 0
      | Wifi_get_channel \<Rightarrow> Out_channel 0 0
      | Wifi_get_country_code \<Rightarrow> Out_bytes [0, 0, 0]
      | Wifi_get_country \<Rightarrow> Out_country \<lparr>hc_cc = [0, 0, 0], hc_schan = 0, hc_nchan = 0, hc_max_tx_power = 0, hc_policy = 0\<rparr>
      | Wifi_ap_get_sta_list \<Rightarrow> Out_stas (replicate 10 (replicate 6 0, 0)) 0
      | Wifi_ap_get_sta_aid mac \<Rightarrow> Out_u16 0
      | Wifi_sta_get_rssi \<Rightarrow> Out_u32 0
      | Wifi_sta_get_aid \<Rightarrow> Out_u16 0
      | Wifi_sta_get_negotiated_phymode \<Rightarrow> Out_u32 0
      | Wifi_get_protocol i \<Rightarrow> Out_u8 0
      | Wifi_get_inactive_time i \<Rightarrow> Out_u16 0
      | Wifi_get_protocols i \<Rightarrow> Out_u16s 0 0
      | Wifi_get_bandwidths i \<Rightarrow> Out_u32s 0 0
      | Wifi_get_band \<Rightarrow> Out_u32 0
      | Wifi_get_band_mode \<Rightarrow> Out_u32 0
      | _ \<Rightarrow> Out_none)"

definition kept_out :: "driver_request \<Rightarrow> host_out \<Rightarrow> host_out" where
  "kept_out c old = (if c = Wifi_get_ps \<or> zero_out c = Out_none then zero_out c else old)"

section \<open>Lemmas\<close>

lemma c_str_reply: "length b = 3 \<Longrightarrow> rsp_copy_bytes 3 (resp_copy_str b 3) = Some (copy_into 3 (c_str b))"
  by (cases b; cases "tl b"; cases "tl (tl b)") (auto simp: rsp_copy_bytes_def resp_copy_str_def copy_into_def c_str_def numeral_eq_Suc)

lemma ucast_narrow [simp]:
  "ucast (ucast (x :: u8) :: u32) = x" "ucast (ucast (y :: u16) :: u32) = y" "ucast (scast (x :: u8) :: u32) = x"
  by (auto intro!: bit_word_eqI simp: bit_unsigned_iff bit_signed_iff)

lemma ucast_narrow_small:
  "(z :: u32) < 0x100 \<Longrightarrow> ucast (ucast z :: u8) = z" "(z :: u32) < 0x10000 \<Longrightarrow> ucast (ucast z :: u16) = z"
  by (simp_all add: word_unat_eq_iff word_less_nat_alt unsigned_ucast_eq unsigned_take_bit_eq take_bit_nat_eq_self)

lemma whole_array [simp]:
  "length b = n \<Longrightarrow> copy_into n b = b" "length b = n \<Longrightarrow> rsp_copy_bytes n b = Some b" "length b = n \<Longrightarrow> mem_slice b 0 n = Some b"
  "length b = 3 \<Longrightarrow> copy_into 3 (take 2 b) = take 2 b @ [0]"
  by (auto simp: copy_into_def rsp_copy_bytes_def mem_slice_def)

lemma length_pos_not_Nil [simp]: "length b = 6 \<Longrightarrow> b \<noteq> []" "length b = 3 \<Longrightarrow> b \<noteq> []"
  by auto

lemma small_enums [simp]:
  "(m :: u32) \<le> 4 \<Longrightarrow> \<not> sint m < 0 \<and> \<not> 4 < sint m" "(t :: u32) \<le> 2 \<Longrightarrow> \<not> 2 < t \<and> ucast (ucast t :: u8) = t"
proof -
  show "\<not> sint m < 0 \<and> \<not> 4 < sint m" if "m \<le> 4"
  proof -
    have "sint m = uint m"
      using that unfolding sint_uint word_le_def by (intro signed_take_bit_int_eq_self) (auto intro: order_trans [OF _ uint_ge_0])
    then show ?thesis using that by (simp add: word_le_def not_less)
  qed
  show "\<not> 2 < t \<and> ucast (ucast t :: u8) = t" if "t \<le> 2"
    using that by (auto simp: not_less intro!: ucast_narrow_small elim: le_less_trans)
qed

lemma parse_sta_list_copied:
  "copy_sta_infos (\<lambda>_. True) k l = Inr (map (\<lambda>i. (si_mac i, scast (si_rssi i), sta_bitmask i)) l)"
  by (induction l arbitrary: k) auto

lemma parse_sta_list_view:
  "n \<le> length l \<Longrightarrow> \<forall>i \<in> set l. length (si_mac i) = 6 \<Longrightarrow>
     parse_sta_list n (map (\<lambda>i. (si_mac i, scast (si_rssi i), sta_bitmask i)) l) = Some (map (\<lambda>i. (si_mac i, si_rssi i)) (take n l))"
  by (induction n arbitrary: l) (auto simp: rsp_copy_bytes_def copy_into_def ucast_narrow Suc_le_length_iff)

lemmas handler_defs =
    req_wifi_get_mac_def req_wifi_get_mode_def req_wifi_set_mode_def req_wifi_set_mac_def req_wifi_set_ps_def
    req_wifi_get_ps_def req_wifi_set_max_tx_power_def req_wifi_get_max_tx_power_def req_wifi_scan_params_def
    req_wifi_scan_stop_def req_wifi_scan_get_ap_num_def req_wifi_clear_ap_list_def req_wifi_restore_def
    req_wifi_clear_fast_connect_def req_wifi_deauth_sta_def req_wifi_set_storage_def req_wifi_set_bandwidth_def
    req_wifi_get_bandwidth_def req_wifi_set_channel_def req_wifi_get_channel_def req_wifi_set_country_code_def
    req_wifi_get_country_code_def req_wifi_set_country_def req_wifi_get_country_def req_wifi_ap_get_sta_list_def
    req_wifi_ap_get_sta_aid_def req_wifi_sta_get_rssi_def req_wifi_sta_get_aid_def
    req_wifi_sta_get_negotiated_phymode_def req_wifi_set_protocol_def req_wifi_get_protocol_def
    req_wifi_set_inactive_time_def req_wifi_get_inactive_time_def req_wifi_set_protocols_def req_wifi_get_protocols_def
    req_wifi_set_bandwidths_def req_wifi_get_bandwidths_def req_wifi_set_band_def req_wifi_get_band_def
    req_wifi_set_band_mode_def req_wifi_get_band_mode_def

lemmas wrapper_defs =
    rpc_wifi_get_mac_def rpc_wifi_set_mac_def rpc_set_wifi_mode_def rpc_wifi_get_mode_def rpc_wifi_set_ps_def
    rpc_wifi_get_ps_def rpc_wifi_set_max_tx_power_def rpc_wifi_get_max_tx_power_def rpc_wifi_set_scan_parameters_def
    rpc_wifi_get_scan_parameters_def rpc_wifi_scan_stop_def rpc_wifi_scan_get_ap_num_def rpc_wifi_clear_ap_list_def
    rpc_wifi_restore_def rpc_wifi_clear_fast_connect_def rpc_wifi_deauth_sta_def rpc_wifi_set_storage_def
    rpc_wifi_set_bandwidth_def rpc_wifi_get_bandwidth_def rpc_wifi_set_channel_def rpc_wifi_get_channel_def
    rpc_wifi_set_country_code_def rpc_wifi_get_country_code_def rpc_wifi_set_country_def rpc_wifi_get_country_def
    rpc_wifi_ap_get_sta_list_def rpc_wifi_ap_get_sta_aid_def rpc_wifi_sta_get_rssi_def rpc_wifi_sta_get_aid_def
    rpc_wifi_sta_get_negotiated_phymode_def rpc_wifi_set_protocol_def rpc_wifi_get_protocol_def
    rpc_wifi_set_inactive_time_def rpc_wifi_get_inactive_time_def rpc_wifi_set_protocols_def rpc_wifi_get_protocols_def
    rpc_wifi_set_bandwidths_def rpc_wifi_get_bandwidths_def rpc_wifi_set_band_def rpc_wifi_get_band_def
    rpc_wifi_set_band_mode_def rpc_wifi_get_band_mode_def

lemmas member_defs =
    u_wifi_mac_def u_wifi_mode_def u_wifi_ps_def u_wifi_tx_power_def u_wifi_scan_params_def u_wifi_scan_ap_list_def
    u_wifi_deauth_sta_def u_wifi_storage_def u_wifi_bandwidth_def u_wifi_channel_def u_wifi_country_code_def
    u_wifi_country_def u_wifi_ap_sta_list_def u_wifi_ap_get_sta_aid_def u_wifi_sta_get_rssi_def u_wifi_sta_get_aid_def
    u_wifi_phymode_def u_wifi_protocol_def u_wifi_inactive_time_def u_wifi_protocols_def u_wifi_bandwidths_def
    u_wifi_band_def u_wifi_band_mode_def out_bytes_def out_u8_def out_u16_def out_u32_def out_channel_def out_u16s_def
    out_u32s_def out_country_def out_scan_times_def out_stas_def

lemmas remote_defs =
    wifi_api_def rpc_slaveif_def compose_value_def compose_no_body_def handle_value_def parse_value_def parse_payload_def
    rpc_set_def rpc_finish_def rpc_template_def rpc_template_simple_def ret_fail_if_def rpc_rsp_callback_def rsp_callback_ids_def
    process_failed_responses_def jl_enum_to_native_def jl_enum_to_host_def

section \<open>Properties\<close>

text \<open>
  C40: the API is transparent. A call of the application within the ranges of the API makes exactly one call of the driver of the
  co-processor, with the same arguments, but for the interface of \<open>rpc_wifi_get_protocol\<close> and the third octet of a country code. The
  application gets the result of the driver and, when it is zero, what the driver stored, in the structures of the host;
  otherwise its variable keeps what it held, but for \<open>rpc_wifi_get_ps\<close>.
\<close>
theorem api_is_driver_call:
  assumes "wifi_call_ok c" "length junk = 6"
    and "\<forall>out s'. drv (native_call c) s = (0, out, s') \<longrightarrow> driver_out_ok c out"
  shows "wifi_api (rpc_slaveif junk drv (\<lambda>_. True)) c old s =
    (case drv (native_call c) s of (rc, out, s') \<Rightarrow> Some (rc, if rc = 0 then out_to_host c out else kept_out c old, s'))"
proof -
  obtain rc out s' where d: "drv (native_call c) s = (rc, out, s')" by (metis prod_cases3)
  note defs = remote_defs wrapper_defs handler_defs member_defs native_call_def out_to_host_def kept_out_def zero_out_def
    driver_out_ok_def wifi_call_ok_def c_str_reply ucast_narrow_small country_to_host_def scan_times_to_host_def
  show ?thesis
    using assms d
  proof (cases c)
    case (Wifi_set_scan_parameters x)
    then show ?thesis
    proof (cases x)
      case (Some t)
      then show ?thesis using assms d Wifi_set_scan_parameters by (cases t) (simp add: defs)
    qed (use assms d Wifi_set_scan_parameters in \<open>simp add: defs\<close>)
  next
    case (Wifi_set_country x)
    then show ?thesis using assms d by (cases x) (simp add: defs)
  next
    case Wifi_ap_get_sta_list
    then show ?thesis using assms d
      by (auto simp: defs stas_to_host_def parse_sta_list_copied parse_sta_list_view Let_def split: driver_out.split_asm)
  qed (simp_all add: defs split: driver_out.split_asm)
qed

definition demo_driver :: "nat wifi_driver" where
  "demo_driver c s =
     (case c of
        Wifi_get_protocol i \<Rightarrow> (0, Drv_u8 (if i = 0 then 7 else 3), s + 1)
      | Wifi_get_channel \<Rightarrow> (0x3001, Drv_none, s)
      | _ \<Rightarrow> (0, Drv_none, s + 1))"

theorem api_is_driver_call_witness:
  "wifi_api (rpc_slaveif (replicate 6 0) demo_driver (\<lambda>_. True)) (Wifi_get_protocol 1) (Out_u8 0) 4 = Some (0, Out_u8 7, 5) \<and>
   wifi_api (rpc_slaveif (replicate 6 0) demo_driver (\<lambda>_. True)) (Wifi_set_channel 11 1) Out_none 4 = Some (0, Out_none, 5)"
  using api_is_driver_call [of "Wifi_get_protocol 1" "replicate 6 0" demo_driver 4 "Out_u8 0"]
    api_is_driver_call [of "Wifi_set_channel 11 1" "replicate 6 0" demo_driver 4 Out_none]
  by (simp add: demo_driver_def wifi_call_ok_def native_call_def driver_out_ok_def out_to_host_def)

text \<open>
  A lost reply counts as success. When the co-processor cannot allocate the reply the driver is not called, and the application gets
  the result zero and a zeroed variable for every call within the ranges of the API; only the calls for the scan times
  read through a null pointer instead.
\<close>
lemma reply_not_allocated:
  assumes "wifi_call_ok c" "\<not> mem 0"
  shows "wifi_api (rpc_slaveif junk drv mem) c old s =
    (case c of Wifi_set_scan_parameters t \<Rightarrow> None | Wifi_get_scan_parameters \<Rightarrow> None | _ \<Rightarrow> Some (0, zero_out c, s))"
proof -
  note defs = remote_defs wrapper_defs handler_defs member_defs zero_out_def wifi_call_ok_def Let_def
  show ?thesis
    using assms
  proof (cases c)
    case (Wifi_set_scan_parameters x)
    then show ?thesis using assms by (cases x) (simp_all add: defs)
  qed (simp_all add: defs)
qed

text \<open>Modes out of their range do not reach the co-processor.\<close>

lemma bad_modes_rejected:
  "sint m < 0 \<or> 4 < sint m \<Longrightarrow> wifi_api (rpc_slaveif junk drv mem) (Wifi_set_mode m) old s = Some (h_err_code H_FAIL, Out_none, s)"
  "2 < t \<Longrightarrow> wifi_api (rpc_slaveif junk drv mem) (Wifi_set_ps t) old s = Some (h_err_code H_ERR_INVALID_ARG, Out_none, s)"
  by (simp_all add: remote_defs wrapper_defs handler_defs member_defs)

end
