(* ===== verification/Slave_Gpio.thy ===== *)
theory Slave_Gpio
  imports Wifi_Values
begin

unbundle bit_operations_syntax

text \<open>
  The pins of the co-processor the host may use: the guard of the pins the transport needs
  (\<open>src/slave/main/slave_transport_gpio_pin_guard.c\<close>), the requests of the GPIO expander
  (\<open>src/slave/main/slave_gpio_expander.c\<close>) and of the external coexistence (\<open>src/slave/main/slave_ext_coex.c\<close>).

  A pin is an integer, as \<open>gpio_num_t\<close>. The calls of the drivers are recorded; \<open>res\<close> gives the result of a call
  after those before it.
\<close>

section \<open>The guard\<close>

text \<open>The transport of the build; half-duplex SPI with its number of data lines and whether the data-ready line is used.\<close>

datatype slave_bus = SDIO_BUS | SPI_BUS | SPI_HD_BUS nat bool | UART_BUS

text \<open>\<open>GPIO_NUM_MAX\<close>, the transport, and the pins of the build configuration by their names.\<close>

record board =
  bd_max :: int
  bd_bus :: slave_bus
  bd_pin :: "string \<Rightarrow> int"

definition transport_pins :: "board \<Rightarrow> int list" where
  "transport_pins b = map (bd_pin b)
     (case bd_bus b of
        SDIO_BUS \<Rightarrow> [''CONFIG_ESP_SDIO_PIN_CMD'', ''CONFIG_ESP_SDIO_PIN_CLK'', ''CONFIG_ESP_SDIO_PIN_D0'',
          ''CONFIG_ESP_SDIO_PIN_D1'', ''CONFIG_ESP_SDIO_PIN_D2'', ''CONFIG_ESP_SDIO_PIN_D3'']
      | SPI_BUS \<Rightarrow> [''CONFIG_ESP_SPI_GPIO_MOSI'', ''CONFIG_ESP_SPI_GPIO_MISO'', ''CONFIG_ESP_SPI_GPIO_CLK'',
          ''CONFIG_ESP_SPI_GPIO_CS'', ''CONFIG_ESP_SPI_GPIO_HANDSHAKE'', ''CONFIG_ESP_SPI_GPIO_DATA_READY'',
          ''CONFIG_ESP_SPI_GPIO_RESET'']
      | SPI_HD_BUS lines ready \<Rightarrow>
          [''CONFIG_ESP_SPI_HD_GPIO_CS'', ''CONFIG_ESP_SPI_HD_GPIO_CLK'', ''CONFIG_ESP_SPI_HD_GPIO_D0''] @
          (if lines \<ge> 2 then [''CONFIG_ESP_SPI_HD_GPIO_D1''] @
             (if lines = 4 then [''CONFIG_ESP_SPI_HD_GPIO_D2'', ''CONFIG_ESP_SPI_HD_GPIO_D3''] else []) else []) @
          (if ready then [''CONFIG_ESP_SPI_HD_GPIO_DATA_READY''] else []) @ [''CONFIG_ESP_SPI_HD_GPIO_RESET'']
      | UART_BUS \<Rightarrow> [''CONFIG_ESP_UART_PIN_TX'', ''CONFIG_ESP_UART_PIN_RX'', ''CONFIG_ESP_UART_GPIO_RESET''])"

text \<open>Configuration of pins, and the calls of the drivers.\<close>

record gpio_cfg =
  gc_mask :: "64 word"
  gc_mode :: u32
  gc_pull_up :: bool
  gc_pull_down :: bool
  gc_intr_type :: u32

datatype pin_call =
    Gpio_config gpio_cfg
  | Gpio_reset_pin int
  | Gpio_set_level int u32
  | Gpio_get_level int
  | Gpio_set_direction int u32
  | Gpio_input_enable int
  | Gpio_set_pull_mode int u32
  | Coex_enable_pins u32 "int list"
  | Coex_disable
  | Coex_set_work_mode u32
  | Coex_set_grant_delay u8
  | Coex_set_validate_high bool

text \<open>\<open>initialized\<close> and \<open>mask\<close> of \<open>get_reserved_pin_mask\<close>, and the calls made.\<close>

record pin_services =
  pg_init :: bool
  pg_mask :: "64 word"
  pg_calls :: "pin_call list"

definition add_pin :: "int \<Rightarrow> 64 word \<Rightarrow> int \<Rightarrow> 64 word" where
  "add_pin num_max m pin = (if pin \<ge> 0 \<and> pin < num_max then m OR push_bit (nat pin) 1 else m)"

definition get_reserved_pin_mask :: "board \<Rightarrow> pin_services \<Rightarrow> 64 word \<times> pin_services" where
  "get_reserved_pin_mask b st =
     (if pg_init st then (pg_mask st, st)
      else let mask = foldl (add_pin (bd_max b)) 0 (transport_pins b) in (mask, st\<lparr>pg_init := True, pg_mask := mask\<rparr>))"

definition transport_gpio_pin_guard_is_eligible :: "board \<Rightarrow> int \<Rightarrow> pin_services \<Rightarrow> bool \<times> pin_services" where
  "transport_gpio_pin_guard_is_eligible b pin st =
     (if pin < 0 \<or> pin \<ge> bd_max b then (False, st)
      else case get_reserved_pin_mask b st of (reserved, st) \<Rightarrow> (reserved AND push_bit (nat pin) 1 = 0, st))"

section \<open>The requests\<close>

datatype pin_request =
    Req_GpioConfig "gpio_cfg option"
  | Req_GpioResetPin u32
  | Req_GpioSetLevel u32 u32
  | Req_GpioGetLevel u32
  | Req_GpioSetDirection u32 u32
  | Req_GpioInputEnable u32
  | Req_GpioSetPullMode u32 u32
  | Req_ExtCoex u32 u32 u32 u32 u32 u32 u32 u32 bool

text \<open>A reply is its status and the level of a pin.\<close>

type_synonym pin_reply = "int \<times> u32"
type_synonym pin_results = "pin_call list \<Rightarrow> pin_call \<Rightarrow> int"

abbreviation (input) ESP_NOT_SUPPORTED :: int where "ESP_NOT_SUPPORTED \<equiv> 0x106"

definition make_pin_call :: "pin_results \<Rightarrow> pin_call \<Rightarrow> pin_services \<Rightarrow> int \<times> pin_services" where
  "make_pin_call res c st = (res (pg_calls st) c, st\<lparr>pg_calls := pg_calls st @ [c]\<rparr>)"

definition pin_checked :: "board \<Rightarrow> int \<Rightarrow> pin_results \<Rightarrow> pin_call \<Rightarrow> pin_services \<Rightarrow> pin_reply \<times> pin_services" where
  "pin_checked b pin res c st =
     (case transport_gpio_pin_guard_is_eligible b pin st of (ok, st) \<Rightarrow>
        if \<not> ok then ((ESP_INVALID_ARG, 0), st)
        else case make_pin_call res c st of (rc, st) \<Rightarrow> ((rc, 0), st))"

text \<open>The loop of \<open>req_gpio_config\<close> over the pins: whether all those in the mask are free.\<close>

fun mask_eligible :: "board \<Rightarrow> 64 word \<Rightarrow> int list \<Rightarrow> pin_services \<Rightarrow> bool \<times> pin_services" where
  "mask_eligible b m [] st = (True, st)"
| "mask_eligible b m (pin # pins) st =
     (if m AND push_bit (nat pin) 1 \<noteq> 0 then
        case transport_gpio_pin_guard_is_eligible b pin st of (ok, st) \<Rightarrow>
          if \<not> ok then (False, st) else mask_eligible b m pins st
      else mask_eligible b m pins st)"

text \<open>\<open>req_gpio_config\<close>: \<open>None\<close> when the configuration is a null pointer. Interrupts are refused.\<close>

definition req_gpio_config :: "board \<Rightarrow> pin_results \<Rightarrow> (nat \<Rightarrow> bool) \<Rightarrow> pin_request option \<Rightarrow> pin_services \<Rightarrow>
    (pin_reply option \<times> pin_services) option" where
  "req_gpio_config b res mem q st =
     (case q of
        Some (Req_GpioConfig config) \<Rightarrow>
          if \<not> mem 0 then Some (None, st)
          else (case config of None \<Rightarrow> None
            | Some c \<Rightarrow>
                if gc_intr_type c \<noteq> 0 then Some (Some (ESP_NOT_SUPPORTED, 0), st)
                else case mask_eligible b (gc_mask c) [0..bd_max b - 1] st of (ok, st) \<Rightarrow>
                  if \<not> ok then Some (Some (ESP_INVALID_ARG, 0), st)
                  else case make_pin_call res (Gpio_config c) st of (rc, st) \<Rightarrow> Some (Some (rc, 0), st))
      | _ \<Rightarrow> Some (None, st))"

definition req_gpio_reset :: "board \<Rightarrow> pin_results \<Rightarrow> (nat \<Rightarrow> bool) \<Rightarrow> pin_request option \<Rightarrow> pin_services \<Rightarrow> pin_reply option \<times> pin_services" where
  "req_gpio_reset b res mem q =
     rpc_template mem (case q of Some (Req_GpioResetPin n) \<Rightarrow> Some (sint n) | _ \<Rightarrow> None)
       (\<lambda>n. pin_checked b n res (Gpio_reset_pin n))"

definition req_gpio_set_level :: "board \<Rightarrow> pin_results \<Rightarrow> (nat \<Rightarrow> bool) \<Rightarrow> pin_request option \<Rightarrow> pin_services \<Rightarrow> pin_reply option \<times> pin_services" where
  "req_gpio_set_level b res mem q =
     rpc_template mem (case q of Some (Req_GpioSetLevel n l) \<Rightarrow> Some (sint n, l) | _ \<Rightarrow> None)
       (\<lambda>(n, l). pin_checked b n res (Gpio_set_level n l))"

text \<open>The level is no status: reading a pin succeeds.\<close>

definition req_gpio_get_level :: "board \<Rightarrow> pin_results \<Rightarrow> (nat \<Rightarrow> bool) \<Rightarrow> pin_request option \<Rightarrow> pin_services \<Rightarrow> pin_reply option \<times> pin_services" where
  "req_gpio_get_level b res mem q =
     rpc_template mem (case q of Some (Req_GpioGetLevel n) \<Rightarrow> Some (sint n) | _ \<Rightarrow> None)
       (\<lambda>n st. case transport_gpio_pin_guard_is_eligible b n st of (ok, st) \<Rightarrow>
          if \<not> ok then ((ESP_INVALID_ARG, 0), st)
          else case make_pin_call res (Gpio_get_level n) st of (level, st) \<Rightarrow> ((0, word_of_int level), st))"

definition req_gpio_set_direction :: "board \<Rightarrow> pin_results \<Rightarrow> (nat \<Rightarrow> bool) \<Rightarrow> pin_request option \<Rightarrow> pin_services \<Rightarrow> pin_reply option \<times> pin_services" where
  "req_gpio_set_direction b res mem q =
     rpc_template mem (case q of Some (Req_GpioSetDirection n m) \<Rightarrow> Some (sint n, m) | _ \<Rightarrow> None)
       (\<lambda>(n, m). pin_checked b n res (Gpio_set_direction n m))"

definition req_gpio_input_enable :: "board \<Rightarrow> pin_results \<Rightarrow> (nat \<Rightarrow> bool) \<Rightarrow> pin_request option \<Rightarrow> pin_services \<Rightarrow> pin_reply option \<times> pin_services" where
  "req_gpio_input_enable b res mem q =
     rpc_template mem (case q of Some (Req_GpioInputEnable n) \<Rightarrow> Some (sint n) | _ \<Rightarrow> None)
       (\<lambda>n. pin_checked b n res (Gpio_input_enable n))"

definition req_gpio_set_pull_mode :: "board \<Rightarrow> pin_results \<Rightarrow> (nat \<Rightarrow> bool) \<Rightarrow> pin_request option \<Rightarrow> pin_services \<Rightarrow> pin_reply option \<times> pin_services" where
  "req_gpio_set_pull_mode b res mem q =
     rpc_template mem (case q of Some (Req_GpioSetPullMode n m) \<Rightarrow> Some (sint n, m) | _ \<Rightarrow> None)
       (\<lambda>(n, m). pin_checked b n res (Gpio_set_pull_mode n m))"

text \<open>
  \<open>req_ext_coex\<close>: \<open>coex\<close> is \<open>CONFIG_EXTERNAL_COEX_ENABLE\<close> and \<open>advance\<close> is \<open>SOC_EXTERNAL_COEX_ADVANCE\<close>. The pins in the order
  request, priority, grant, transmit line; negative ones are unused.
\<close>

fun coex_pins_eligible :: "board \<Rightarrow> int list \<Rightarrow> pin_services \<Rightarrow> bool \<times> pin_services" where
  "coex_pins_eligible b [] st = (True, st)"
| "coex_pins_eligible b (pin # pins) st =
     (if pin < 0 then coex_pins_eligible b pins st
      else case transport_gpio_pin_guard_is_eligible b pin st of (ok, st) \<Rightarrow>
        if \<not> ok then (False, st) else coex_pins_eligible b pins st)"

abbreviation (input) EXTERNAL_COEXIST_WIRE_4 :: u32 where "EXTERNAL_COEXIST_WIRE_4 \<equiv> 3"

definition ext_coex_command :: "bool \<Rightarrow> bool \<Rightarrow> board \<Rightarrow> pin_results \<Rightarrow> u32 \<Rightarrow> u32 \<Rightarrow> int list \<Rightarrow> u32 \<Rightarrow> u32 \<Rightarrow> bool \<Rightarrow>
    pin_services \<Rightarrow> pin_reply \<times> pin_services" where
  "ext_coex_command coex advance b res cmd wty pins mode delay high st =
     (let run = (\<lambda>c st. case make_pin_call res c st of (rc, st) \<Rightarrow> ((rc, 0), st)) in
      if \<not> coex then ((ESP_NOT_SUPPORTED, 0), st)
      else if cmd = 0 then
        (if wty > EXTERNAL_COEXIST_WIRE_4 then ((ESP_INVALID_ARG, 0), st)
         else case coex_pins_eligible b pins st of (ok, st) \<Rightarrow>
           if \<not> ok then ((ESP_INVALID_ARG, 0), st) else run (Coex_enable_pins wty pins) st)
      else if cmd = 1 then run Coex_disable st
      else if cmd = 2 then run (Coex_set_work_mode mode) st
      else if cmd = 3 \<and> advance then run (Coex_set_grant_delay (ucast delay)) st
      else if cmd = 4 \<and> advance then run (Coex_set_validate_high high) st
      else if cmd = 3 \<or> cmd = 4 then ((ESP_NOT_SUPPORTED, 0), st)
      else ((ESP_INVALID_ARG, 0), st))"

definition req_ext_coex :: "bool \<Rightarrow> bool \<Rightarrow> board \<Rightarrow> pin_results \<Rightarrow> (nat \<Rightarrow> bool) \<Rightarrow> pin_request option \<Rightarrow> pin_services \<Rightarrow> pin_reply option \<times> pin_services" where
  "req_ext_coex coex advance b res mem q =
     rpc_template mem
       (case q of Some (Req_ExtCoex cmd wty p1 p2 p3 p4 mode delay high) \<Rightarrow>
          Some (cmd, wty, [sint p1, sint p2, sint p3, sint p4], mode, delay, high) | _ \<Rightarrow> None)
       (\<lambda>(cmd, wty, pins, mode, delay, high). ext_coex_command coex advance b res cmd wty pins mode delay high)"

text \<open>The requests by their members of the payload, and a sequence of them.\<close>

definition serve_pin_request :: "bool \<Rightarrow> bool \<Rightarrow> board \<Rightarrow> pin_results \<Rightarrow> (nat \<Rightarrow> bool) \<Rightarrow> pin_request \<Rightarrow> pin_services \<Rightarrow>
    (pin_reply option \<times> pin_services) option" where
  "serve_pin_request coex advance b res mem q st =
     (case q of
        Req_GpioConfig config \<Rightarrow> req_gpio_config b res mem (Some q) st
      | Req_GpioResetPin n \<Rightarrow> Some (req_gpio_reset b res mem (Some q) st)
      | Req_GpioSetLevel n l \<Rightarrow> Some (req_gpio_set_level b res mem (Some q) st)
      | Req_GpioGetLevel n \<Rightarrow> Some (req_gpio_get_level b res mem (Some q) st)
      | Req_GpioSetDirection n m \<Rightarrow> Some (req_gpio_set_direction b res mem (Some q) st)
      | Req_GpioInputEnable n \<Rightarrow> Some (req_gpio_input_enable b res mem (Some q) st)
      | Req_GpioSetPullMode n m \<Rightarrow> Some (req_gpio_set_pull_mode b res mem (Some q) st)
      | Req_ExtCoex _ _ _ _ _ _ _ _ _ \<Rightarrow> Some (req_ext_coex coex advance b res mem (Some q) st))"

fun pin_requests :: "bool \<Rightarrow> bool \<Rightarrow> board \<Rightarrow> pin_results \<Rightarrow> ((nat \<Rightarrow> bool) \<times> pin_request) list \<Rightarrow> pin_services \<Rightarrow> pin_services option" where
  "pin_requests coex advance b res [] st = Some st"
| "pin_requests coex advance b res ((mem, q) # qs) st =
     do { (_, st) \<leftarrow> serve_pin_request coex advance b res mem q st; pin_requests coex advance b res qs st }"

section \<open>The pins of the transport stay free\<close>

definition touches :: "pin_call \<Rightarrow> int \<Rightarrow> bool" where
  "touches c p = (case c of
       Gpio_config cfg \<Rightarrow> p \<ge> 0 \<and> bit (gc_mask cfg) (nat p)
     | Gpio_reset_pin n \<Rightarrow> n = p
     | Gpio_set_level n _ \<Rightarrow> n = p
     | Gpio_get_level n \<Rightarrow> n = p
     | Gpio_set_direction n _ \<Rightarrow> n = p
     | Gpio_input_enable n \<Rightarrow> n = p
     | Gpio_set_pull_mode n _ \<Rightarrow> n = p
     | Coex_enable_pins _ pins \<Rightarrow> p \<in> set pins
     | _ \<Rightarrow> False)"

text \<open>
  The pins the drivers of the co-processor use, apart from what the guard knows: the lines of the bus (\<open>spi_slave_api.c\<close>,
  \<open>spi_hd_slave_api.c\<close>, \<open>uart_slave_api.c\<close>; those of the SDIO peripheral as the configuration shows them) and the pin by
  which the host resets the co-processor, \<open>CONFIG_ESP_GPIO_SLAVE_RESET\<close>, on which \<open>register_reset_pin\<close> waits.
\<close>

definition bus_pins :: "board \<Rightarrow> int list" where
  "bus_pins b = (case bd_bus b of
       SDIO_BUS \<Rightarrow> map (\<lambda>n. bd_pin b (''CONFIG_ESP_SDIO_PIN_'' @ n)) [''CMD'', ''CLK'', ''D0'', ''D1'', ''D2'', ''D3'']
     | SPI_BUS \<Rightarrow> map (\<lambda>n. bd_pin b (''CONFIG_ESP_SPI_GPIO_'' @ n))
         [''MOSI'', ''MISO'', ''CLK'', ''CS'', ''DATA_READY'', ''HANDSHAKE'']
     | SPI_HD_BUS lines ready \<Rightarrow> map (\<lambda>n. bd_pin b (''CONFIG_ESP_SPI_HD_GPIO_'' @ n)) ([''CS'', ''CLK'', ''D0''] @
         (if lines \<ge> 2 then [''D1''] else []) @ (if lines = 4 then [''D2'', ''D3''] else [])) @
         [if ready then bd_pin b ''CONFIG_ESP_SPI_HD_GPIO_DATA_READY'' else -1]
     | UART_BUS \<Rightarrow> [bd_pin b ''CONFIG_ESP_UART_PIN_TX'', bd_pin b ''CONFIG_ESP_UART_PIN_RX''])"

definition slave_reset_pin :: "board \<Rightarrow> int" where
  "slave_reset_pin b = bd_pin b (case bd_bus b of
       SDIO_BUS \<Rightarrow> ''CONFIG_ESP_SDIO_GPIO_RESET''
     | SPI_BUS \<Rightarrow> ''CONFIG_ESP_SPI_GPIO_RESET''
     | SPI_HD_BUS _ _ \<Rightarrow> ''CONFIG_ESP_SPI_HD_GPIO_RESET''
     | UART_BUS \<Rightarrow> ''CONFIG_ESP_UART_GPIO_RESET'')"

lemma guard_covers:
  assumes "0 \<le> p"
  shows "p \<in> set (transport_pins b) \<longleftrightarrow> p \<in> set (bus_pins b) \<or> p = slave_reset_pin b \<and> bd_bus b \<noteq> SDIO_BUS"
  using assms by (cases "bd_bus b") (auto simp: transport_pins_def bus_pins_def slave_reset_pin_def)

text \<open>A pin the host may use, and a call that leaves the pins of the transport alone.\<close>

definition pin_free :: "board \<Rightarrow> int \<Rightarrow> bool" where
  "pin_free b p \<longleftrightarrow> 0 \<le> p \<and> p < bd_max b \<and> p \<notin> set (transport_pins b)"

definition call_safe :: "board \<Rightarrow> pin_call \<Rightarrow> bool" where
  "call_safe b c \<longleftrightarrow> (\<forall>p\<in>set (transport_pins b). 0 \<le> p \<and> p < bd_max b \<longrightarrow> \<not> touches c p)"

definition pins_safe :: "board \<Rightarrow> pin_services \<Rightarrow> bool" where
  "pins_safe b st \<longleftrightarrow>
     (pg_init st \<longrightarrow> pg_mask st = foldl (add_pin (bd_max b)) 0 (transport_pins b)) \<and> list_all (call_safe b) (pg_calls st)"

lemma add_pin_bit:
  "bit (add_pin N m p) (nat q) \<longleftrightarrow> bit m (nat q) \<or> p = q \<and> p < N" if "0 \<le> q" "q < 64"
  using that by (auto simp: add_pin_def bit_simps)

lemma reserved_bit:
  assumes "0 \<le> q" "q < 64"
  shows "bit (foldl (add_pin N) m ps) (nat q) \<longleftrightarrow> bit m (nat q) \<or> q \<in> set ps \<and> q < N"
  by (induction ps arbitrary: m) (auto simp: add_pin_bit assms)

lemma eligible_free:
  assumes "bd_max b \<le> 64" "pins_safe b st" "transport_gpio_pin_guard_is_eligible b p st = (ok, st')"
  shows "(ok \<longleftrightarrow> pin_free b p) \<and> pins_safe b st' \<and> pg_calls st' = pg_calls st"
proof (cases "p < 0 \<or> p \<ge> bd_max b")
  case True
  then show ?thesis using assms by (auto simp: transport_gpio_pin_guard_is_eligible_def pin_free_def)
next
  case False
  then show ?thesis using assms
    by (auto simp: transport_gpio_pin_guard_is_eligible_def get_reserved_pin_mask_def pin_free_def pins_safe_def Let_def
        and_exp_eq_0_iff_not_bit reserved_bit split: if_splits)
qed

lemma make_pin_call_safe:
  "make_pin_call res c st = (rc, st') \<Longrightarrow> pins_safe b st \<Longrightarrow> call_safe b c \<Longrightarrow> pins_safe b st'"
  by (auto simp: make_pin_call_def pins_safe_def)

lemma pin_checked_safe:
  assumes "bd_max b \<le> 64" "pins_safe b st" "\<And>p. touches c p \<longleftrightarrow> p = n" "pin_checked b n res c st = (r, st')"
  shows "pins_safe b st'"
proof -
  obtain ok st1 where E: "transport_gpio_pin_guard_is_eligible b n st = (ok, st1)" by force
  note F = eligible_free[OF assms(1,2) E]
  have "call_safe b c" if ok using F that assms(3) by (auto simp: call_safe_def pin_free_def)
  then show ?thesis using F E assms(4)
    by (auto simp: pin_checked_def split: if_splits prod.splits intro: make_pin_call_safe)
qed

lemma pin_checked_free:
  assumes "bd_max b \<le> 64" "pins_safe b st"
  shows "pin_checked b n res c st =
    (let st1 = snd (transport_gpio_pin_guard_is_eligible b n st) in
     if pin_free b n then case make_pin_call res c st1 of (rc, st2) \<Rightarrow> ((rc, 0), st2) else ((ESP_INVALID_ARG, 0), st1))"
  using eligible_free[OF assms, of n] by (cases "transport_gpio_pin_guard_is_eligible b n st") (auto simp: pin_checked_def)

lemma mask_eligible_free:
  assumes "bd_max b \<le> 64"
  shows "pins_safe b st \<Longrightarrow> \<forall>p\<in>set pins. 0 \<le> p \<and> p < 64 \<Longrightarrow> mask_eligible b m pins st = (ok, st') \<Longrightarrow>
    (ok \<longleftrightarrow> (\<forall>p\<in>set pins. bit m (nat p) \<longrightarrow> pin_free b p)) \<and> pins_safe b st' \<and> pg_calls st' = pg_calls st"
proof (induction pins arbitrary: st)
  case (Cons p pins)
  obtain ok1 st1 where E: "transport_gpio_pin_guard_is_eligible b p st = (ok1, st1)" by force
  note F = eligible_free[OF assms Cons.prems(1) E]
  show ?case using Cons.prems F Cons.IH[of st] Cons.IH[of st1] E
    by (auto simp: and_exp_eq_0_iff_not_bit split: if_splits)
qed simp

lemma coex_pins_free:
  assumes "bd_max b \<le> 64"
  shows "pins_safe b st \<Longrightarrow> coex_pins_eligible b pins st = (ok, st') \<Longrightarrow>
    (ok \<longleftrightarrow> (\<forall>p\<in>set pins. 0 \<le> p \<longrightarrow> pin_free b p)) \<and> pins_safe b st' \<and> pg_calls st' = pg_calls st"
proof (induction pins arbitrary: st)
  case (Cons p pins)
  obtain ok1 st1 where E: "transport_gpio_pin_guard_is_eligible b p st = (ok1, st1)" by force
  note F = eligible_free[OF assms Cons.prems(1) E]
  show ?case using Cons.prems F Cons.IH[of st] Cons.IH[of st1] E by (auto split: if_splits)
qed simp

lemma rpc_template_keeps:
  assumes "\<And>q s r s'. P s \<Longrightarrow> req = Some q \<Longrightarrow> body q s = (r, s') \<Longrightarrow> P s'" "P s" "rpc_template mem req body s = (r, s')"
  shows "P s'"
  using assms by (auto simp: rpc_template_def split: option.splits if_splits prod.splits)

lemma gpio_config_safe:
  assumes "bd_max b \<le> 64" "pins_safe b st" "req_gpio_config b res mem q st = Some (r, st')"
  shows "pins_safe b st'"
proof -
  have *: "call_safe b (Gpio_config c) \<and> pins_safe b st1"
    if "mask_eligible b (gc_mask c) [0..bd_max b - 1] st = (True, st1)" for c st1
    using mask_eligible_free[OF assms(1,2) _ that] assms(1) by (auto simp: call_safe_def touches_def pin_free_def)
  have **: "pins_safe b st1" if "mask_eligible b (gc_mask c) [0..bd_max b - 1] st = (ok, st1)" for c ok st1
    using mask_eligible_free[OF assms(1,2) _ that] assms(1) by auto
  show ?thesis using assms(2,3) * **
    by (fastforce simp: req_gpio_config_def split: option.splits pin_request.splits if_splits prod.splits
        intro: make_pin_call_safe)
qed

lemma ext_coex_safe:
  assumes bd: "bd_max b \<le> 64" and safe: "pins_safe b st"
    and run: "ext_coex_command coex advance b res cmd wty pins mode delay high st = (r, st')"
  shows "pins_safe b st'"
proof (cases "cmd = 0")
  case True
  obtain ok st1 where E: "coex_pins_eligible b pins st = (ok, st1)" by force
  have "(ok \<longrightarrow> call_safe b (Coex_enable_pins wty pins)) \<and> pins_safe b st1"
    using coex_pins_free[OF bd safe E] by (auto simp: call_safe_def touches_def pin_free_def)
  then show ?thesis using True E run safe
    by (auto simp: ext_coex_command_def Let_def split: if_splits prod.splits intro: make_pin_call_safe)
next
  case False
  have quiet [simp]: "call_safe b Coex_disable" "call_safe b (Coex_set_work_mode m)" "call_safe b (Coex_set_grant_delay d)"
    "call_safe b (Coex_set_validate_high h)" for m d h by (simp_all add: call_safe_def touches_def)
  show ?thesis using False run safe
    by (auto simp: ext_coex_command_def Let_def split: if_splits prod.splits elim!: make_pin_call_safe)
qed

lemma get_level_safe:
  assumes "bd_max b \<le> 64" "pins_safe b st" "req_gpio_get_level b res mem q st = (r, st')"
  shows "pins_safe b st'"
proof (rule rpc_template_keeps[where P = "pins_safe b", OF _ assms(2) assms(3)[unfolded req_gpio_get_level_def]])
  fix n s r s'
  assume s: "pins_safe b s" and run: "(case transport_gpio_pin_guard_is_eligible b n s of (ok, st) \<Rightarrow>
          if \<not> ok then ((ESP_INVALID_ARG, 0), st)
          else case make_pin_call res (Gpio_get_level n) st of (level, st) \<Rightarrow> ((0, word_of_int level), st)) = (r, s')"
  obtain ok st1 where E: "transport_gpio_pin_guard_is_eligible b n s = (ok, st1)" by force
  note F = eligible_free[OF assms(1) s E]
  have "call_safe b (Gpio_get_level n)" if ok using F that by (auto simp: call_safe_def touches_def pin_free_def)
  then show "pins_safe b s'" using run F E by (auto split: if_splits prod.splits intro: make_pin_call_safe)
qed

lemma serve_pin_request_safe:
  assumes bd: "bd_max b \<le> 64" and safe: "pins_safe b st"
    and run: "serve_pin_request coex advance b res mem q st = Some (r, st')"
  shows "pins_safe b st'"
proof -
  show ?thesis
  proof (cases q)
    case (Req_GpioConfig x1)
    then show ?thesis using run gpio_config_safe[OF bd safe] by (auto simp: serve_pin_request_def)
  next
    case (Req_GpioGetLevel x4)
    then show ?thesis using run get_level_safe[OF bd safe] by (auto simp: serve_pin_request_def)
  next
    case (Req_ExtCoex x1 x2 x3 x4 x5 x6 x7 x8 x9)
    then show ?thesis using run safe ext_coex_safe[OF bd]
      by (auto simp: serve_pin_request_def req_ext_coex_def elim!: rpc_template_keeps[where P = "pins_safe b", rotated 2])
  qed (use run safe in \<open>auto simp: serve_pin_request_def req_gpio_reset_def req_gpio_set_level_def
      req_gpio_set_direction_def req_gpio_input_enable_def req_gpio_set_pull_mode_def touches_def
      elim!: rpc_template_keeps[where P = "pins_safe b", rotated 2] elim: pin_checked_safe[OF bd, rotated 2]\<close>)
qed

lemma pin_requests_safe:
  assumes "bd_max b \<le> 64"
  shows "pins_safe b st \<Longrightarrow> pin_requests coex advance b res qs st = Some st' \<Longrightarrow> pins_safe b st'"
  using assms
  by (induction coex advance b res qs st rule: pin_requests.induct)
    (auto simp: bind_eq_Some_conv dest: serve_pin_request_safe)

lemma set_level_served:
  assumes "bd_max b \<le> 64" "pins_safe b st" "pin_free b n" "mem 0"
  shows "\<exists>st'. req_gpio_set_level b res mem (Some (Req_GpioSetLevel (word_of_int n) l)) st =
      (Some (res (pg_calls st) (Gpio_set_level n l), 0), st') \<and> pg_calls st' = pg_calls st @ [Gpio_set_level n l]"
proof -
  obtain ok st1 where E: "transport_gpio_pin_guard_is_eligible b n st = (ok, st1)" by force
  have n: "sint (word_of_int n :: u32) = n"
    using assms(1,3) by (simp add: pin_free_def sint_sbintrunc' signed_take_bit_int_eq_self)
  show ?thesis using eligible_free[OF assms(1,2) E] assms E
    by (auto simp: req_gpio_set_level_def rpc_template_def pin_checked_def make_pin_call_def n)
qed

text \<open>
  C39: whatever requests for pins and for external coexistence the host sends, in any order and with any results of the
  drivers and of the allocations, no driver call configures, drives or reads a line of the bus to the host or, but for
  SDIO, the reset pin of the co-processor; a pin that is neither is served at any time. For SDIO the reset pin is not
  guarded, against the documentation: a request for it is served as well.
\<close>
theorem transport_pins_guarded:
  assumes "bd_max b \<le> 64" "\<not> pg_init st" "pg_calls st = []"
    and "pin_requests coex advance b res qs st = Some st'"
  shows "(\<forall>c\<in>set (pg_calls st'). \<forall>p. 0 \<le> p \<and> p < bd_max b \<and> touches c p \<longrightarrow>
      p \<notin> set (bus_pins b) \<and> (p = slave_reset_pin b \<longrightarrow> bd_bus b = SDIO_BUS)) \<and>
    (\<forall>n l mem. 0 \<le> n \<and> n < bd_max b \<and> n \<notin> set (bus_pins b) \<and> (n = slave_reset_pin b \<longrightarrow> bd_bus b = SDIO_BUS) \<and> mem 0 \<longrightarrow>
      (\<exists>st''. req_gpio_set_level b res mem (Some (Req_GpioSetLevel (word_of_int n) l)) st' =
          (Some (res (pg_calls st') (Gpio_set_level n l), 0), st'') \<and>
        pg_calls st'' = pg_calls st' @ [Gpio_set_level n l]))"
proof -
  have safe: "pins_safe b st'"
    using pin_requests_safe[OF assms(1) _ assms(4)] assms(2,3) by (simp add: pins_safe_def)
  have "p \<notin> set (bus_pins b) \<and> (p = slave_reset_pin b \<longrightarrow> bd_bus b = SDIO_BUS)"
    if "c \<in> set (pg_calls st')" "0 \<le> p" "p < bd_max b" "touches c p" for c p
    using safe that guard_covers[of p b] by (auto simp: pins_safe_def call_safe_def list_all_iff)
  moreover have "pin_free b n" if "0 \<le> n" "n < bd_max b" "n \<notin> set (bus_pins b)" "n = slave_reset_pin b \<longrightarrow> bd_bus b = SDIO_BUS" for n
    using that guard_covers[of n b] by (auto simp: pin_free_def)
  ultimately show ?thesis using set_level_served[OF assms(1) safe] by blast
qed

definition uart_board :: board where
  "uart_board = \<lparr>bd_max = 31, bd_bus = UART_BUS,
     bd_pin = (\<lambda>name. if name = ''CONFIG_ESP_UART_PIN_TX'' then 5 else if name = ''CONFIG_ESP_UART_PIN_RX'' then 6 else -1)\<rparr>"

definition demo_requests :: "((nat \<Rightarrow> bool) \<times> pin_request) list" where
  "demo_requests = [
     (\<lambda>_. True, Req_GpioConfig (Some \<lparr>gc_mask = 0x81, gc_mode = 2, gc_pull_up = False, gc_pull_down = False, gc_intr_type = 0\<rparr>)),
     (\<lambda>_. True, Req_GpioConfig (Some \<lparr>gc_mask = 0x21, gc_mode = 2, gc_pull_up = False, gc_pull_down = False, gc_intr_type = 0\<rparr>)),
     (\<lambda>_. True, Req_GpioSetLevel 7 1), (\<lambda>_. True, Req_GpioSetLevel 6 1),
     (\<lambda>_. True, Req_ExtCoex 0 0 8 (-1) (-1) (-1) 0 0 False), (\<lambda>_. True, Req_ExtCoex 0 0 5 (-1) (-1) (-1) 0 0 False)]"

lemma demo_pin_calls:
  "map_option pg_calls (pin_requests True False uart_board (\<lambda>_ _. 0) demo_requests \<lparr>pg_init = False, pg_mask = 0, pg_calls = []\<rparr>) =
   Some [Gpio_config \<lparr>gc_mask = 0x81, gc_mode = 2, gc_pull_up = False, gc_pull_down = False, gc_intr_type = 0\<rparr>,
     Gpio_set_level 7 1, Coex_enable_pins 0 [8, -1, -1, -1]]"
  by code_simp

theorem transport_pins_guarded_witness:
  "\<exists>st'. pin_requests True False uart_board (\<lambda>_ _. 0) demo_requests \<lparr>pg_init = False, pg_mask = 0, pg_calls = []\<rparr> = Some st' \<and>
     length (pg_calls st') = 3 \<and> (\<forall>c\<in>set (pg_calls st'). \<not> touches c 5 \<and> \<not> touches c 6)"
proof -
  obtain st' where run: "pin_requests True False uart_board (\<lambda>_ _. 0) demo_requests \<lparr>pg_init = False, pg_mask = 0, pg_calls = []\<rparr> = Some st'"
    and n: "length (pg_calls st') = 3" using demo_pin_calls by auto
  have pins: "{5, 6} \<subseteq> set (bus_pins uart_board)" "bd_max uart_board = 31" by (simp_all add: bus_pins_def uart_board_def)
  have "\<not> touches c 5 \<and> \<not> touches c 6" if "c \<in> set (pg_calls st')" for c
    using transport_pins_guarded[OF _ _ _ run] that pins by auto
  then show ?thesis using run n by blast
qed

text \<open>With SDIO the host drives the reset pin of the co-processor.\<close>

definition sdio_board :: board where
  "sdio_board = \<lparr>bd_max = 31, bd_bus = SDIO_BUS,
     bd_pin = (\<lambda>name. if name = ''CONFIG_ESP_SDIO_GPIO_RESET'' then 9 else int (length name))\<rparr>"

lemma sdio_reset_unguarded:
  "slave_reset_pin sdio_board = 9"
  "map_option pg_calls (pin_requests True False sdio_board (\<lambda>_ _. 0) [(\<lambda>_. True, Req_GpioSetLevel 9 0)]
     \<lparr>pg_init = False, pg_mask = 0, pg_calls = []\<rparr>) = Some [Gpio_set_level 9 0]"
  by code_simp+

end
