(* ===== verification/Osal_Port.thy ===== *)
theory Osal_Port
  imports Osal_Queue
begin

unbundle bit_operations_syntax

text \<open>
  The rest of the JL port: memory, tasks, mutexes and semaphores of \<open>src/host/port/jl/h_osal.c\<close>, and the event bus of
  \<open>src/host/port/jl/h_event.c\<close>. Addresses and sizes are 32-bit words. What the operating system answers is an argument.
\<close>

section \<open>Memory\<close>

text \<open>\<open>jl_calloc\<close>: the size it asks \<open>malloc\<close> for, \<open>None\<close> when it returns null at once.\<close>

definition jl_calloc_size :: "u32 \<Rightarrow> u32 \<Rightarrow> u32 option" where
  "jl_calloc_size n sz = (if sz \<noteq> 0 \<and> n > 0xFFFFFFFF div sz then None else Some (n * sz))"

text \<open>
  \<open>jl_malloc_align\<close>: the size it asks for; and what it makes of the address \<open>raw\<close> it gets (\<open>0\<close>: null), which it keeps
  in front of the result. \<open>mem\<close> holds the pointers stored in memory, by address.
\<close>

abbreviation (input) PTR_SIZE :: u32 where "PTR_SIZE \<equiv> 4"

definition jl_min_align :: "u32 \<Rightarrow> u32" where
  "jl_min_align align = (if align < PTR_SIZE then PTR_SIZE else align)"

definition jl_malloc_align_size :: "u32 \<Rightarrow> u32 \<Rightarrow> u32" where
  "jl_malloc_align_size sz align = sz + jl_min_align align + PTR_SIZE"

definition jl_malloc_align :: "u32 \<Rightarrow> u32 \<Rightarrow> (u32 \<Rightarrow> u32) \<Rightarrow> u32 \<times> (u32 \<Rightarrow> u32)" where
  "jl_malloc_align align raw mem =
     (let align = jl_min_align align in
      if raw = 0 then (0, mem)
      else let aligned = (raw + PTR_SIZE + align - 1) AND NOT (align - 1)
           in (aligned, mem(aligned - PTR_SIZE := raw)))"

text \<open>\<open>jl_free_align\<close>: what is given back to \<open>free\<close>.\<close>

definition jl_free_align :: "u32 \<Rightarrow> (u32 \<Rightarrow> u32) \<Rightarrow> u32 option" where
  "jl_free_align ptr mem = (if ptr = 0 then None else Some (mem (ptr - PTR_SIZE)))"

section \<open>Tasks, mutexes and semaphores\<close>

text \<open>
  Handles are addresses, \<open>0\<close> is null. \<open>mem\<close>: the memory that \<open>malloc\<close> gives; \<open>os\<close>: the answer of the system call. The
  results: the code, the new handle, and what is freed. A task is known to the system by its name, of which 15 characters
  are kept.
\<close>

definition jl_thread_name :: "char list \<Rightarrow> char list" where
  "jl_thread_name name = take 15 name"

definition jl_thread_create :: "bool \<Rightarrow> nat \<Rightarrow> (char list \<Rightarrow> int) \<Rightarrow> char list \<Rightarrow> h_err \<times> nat option \<times> nat list" where
  "jl_thread_create fn mem os name =
     (if \<not> fn then (H_ERR_INVALID_ARG, None, [])
      else if mem = 0 then (H_ERR_NO_MEM, None, [])
      else if os (jl_thread_name name) \<noteq> 0 then (H_FAIL, None, [mem])
      else (H_OK, Some mem, []))"

definition jl_thread_delete :: "nat \<Rightarrow> int \<Rightarrow> h_err \<times> nat list" where
  "jl_thread_delete thread os = (if thread = 0 then (H_ERR_INVALID_ARG, []) else (if os = 0 then H_OK else H_FAIL, [thread]))"

definition jl_object_create :: "nat \<Rightarrow> int \<Rightarrow> h_err \<times> nat option \<times> nat list" where
  "jl_object_create mem os =
     (if mem = 0 then (H_ERR_NO_MEM, None, [])
      else if os \<noteq> 0 then (H_FAIL, None, [mem])
      else (H_OK, Some mem, []))"

definition jl_mutex_create :: "nat \<Rightarrow> int \<Rightarrow> h_err \<times> nat option \<times> nat list" where
  "jl_mutex_create mem os = jl_object_create mem os"

definition jl_sem_create :: "u32 \<Rightarrow> u32 \<Rightarrow> nat \<Rightarrow> int \<Rightarrow> h_err \<times> nat option \<times> nat list" where
  "jl_sem_create max_count init mem os = jl_object_create mem os"

text \<open>\<open>jl_mutex_lock\<close> and \<open>jl_sem_take\<close>; \<open>jl_mutex_unlock\<close> and \<open>jl_sem_give\<close>.\<close>

definition jl_pend :: "int \<Rightarrow> nat \<Rightarrow> (int \<Rightarrow> int) \<Rightarrow> int \<Rightarrow> h_err" where
  "jl_pend tps handle os timeout_ms =
     (if handle = 0 then H_ERR_INVALID_ARG
      else let ticks = jl_ms_to_ticks tps timeout_ms in
        if os ticks = 0 then H_OK else if ticks = 1 then H_ERR_TIMEOUT else H_FAIL)"

definition jl_post :: "nat \<Rightarrow> int \<Rightarrow> h_err" where
  "jl_post handle os = (if handle = 0 then H_ERR_INVALID_ARG else if os = 0 then H_OK else H_FAIL)"

definition jl_object_delete :: "nat \<Rightarrow> h_err \<times> nat list" where
  "jl_object_delete handle = (H_OK, if handle = 0 then [] else [handle])"

section \<open>Events\<close>

text \<open>
  \<open>g_handlers\<close>, newest first, and whether \<open>g_event_lock\<close> exists. A handler and its context are numbers, \<open>0\<close> is null.
\<close>

datatype h_event_base = H_EVENT_WIFI | H_EVENT_IP | H_EVENT_HOSTED | H_EVENT_MAX

record event_handler_entry =
  eh_base :: h_event_base
  eh_id :: int
  eh_handler :: nat
  eh_ctx :: nat

record event_bus =
  eb_handlers :: "event_handler_entry list"
  eb_lock :: bool

abbreviation (input) JL_EVENT_MAX_HANDLERS_PER_POST :: nat where "JL_EVENT_MAX_HANDLERS_PER_POST \<equiv> 8"

definition jl_event_register :: "bool \<Rightarrow> h_event_base \<Rightarrow> int \<Rightarrow> nat \<Rightarrow> nat \<Rightarrow> event_bus \<Rightarrow> h_err \<times> event_bus" where
  "jl_event_register mem base event_id handler user_ctx st =
     (if handler = 0 \<or> base = H_EVENT_MAX then (H_ERR_INVALID_ARG, st)
      else if \<not> eb_lock st then (H_ERR_INVALID_STATE, st)
      else if \<not> mem then (H_ERR_NO_MEM, st)
      else (H_OK, st\<lparr>eb_handlers :=
             \<lparr>eh_base = base, eh_id = event_id, eh_handler = handler, eh_ctx = user_ctx\<rparr> # eb_handlers st\<rparr>))"

text \<open>The search of \<open>jl_event_unregister\<close>: the list without the first entry that matches.\<close>

fun unlink_entry :: "h_event_base \<Rightarrow> int \<Rightarrow> nat \<Rightarrow> event_handler_entry list \<Rightarrow> event_handler_entry list option" where
  "unlink_entry base event_id handler [] = None"
| "unlink_entry base event_id handler (p # ps) =
     (if eh_base p = base \<and> eh_id p = event_id \<and> eh_handler p = handler then Some ps
      else map_option ((#) p) (unlink_entry base event_id handler ps))"

definition jl_event_unregister :: "h_event_base \<Rightarrow> int \<Rightarrow> nat \<Rightarrow> event_bus \<Rightarrow> h_err \<times> event_bus" where
  "jl_event_unregister base event_id handler st =
     (if handler = 0 \<or> base = H_EVENT_MAX \<or> \<not> eb_lock st then (H_ERR_INVALID_ARG, st)
      else case unlink_entry base event_id handler (eb_handlers st) of
          None \<Rightarrow> (H_ERR_INVALID_ARG, st)
        | Some hs \<Rightarrow> (H_OK, st\<lparr>eb_handlers := hs\<rparr>))"

text \<open>The snapshot of \<open>jl_event_post\<close>: handler and context of the matching entries while there is room for \<open>n\<close> more.\<close>

fun event_snapshot :: "h_event_base \<Rightarrow> int \<Rightarrow> nat \<Rightarrow> event_handler_entry list \<Rightarrow> (nat \<times> nat) list" where
  "event_snapshot base event_id 0 ps = []"
| "event_snapshot base event_id (Suc n) [] = []"
| "event_snapshot base event_id (Suc n) (p # ps) =
     (if eh_base p = base \<and> eh_id p = event_id
      then (eh_handler p, eh_ctx p) # event_snapshot base event_id n ps
      else event_snapshot base event_id (Suc n) ps)"

text \<open>\<open>cb h c\<close>: what handler \<open>h\<close> called with context \<open>c\<close> does to the registrations. The calls made come with the result.\<close>

definition jl_event_post ::
  "(nat \<Rightarrow> nat \<Rightarrow> event_bus \<Rightarrow> event_bus) \<Rightarrow> h_event_base \<Rightarrow> int \<Rightarrow> event_bus \<Rightarrow> h_err \<times> (nat \<times> nat) list \<times> event_bus" where
  "jl_event_post cb base event_id st =
     (if base = H_EVENT_MAX \<or> \<not> eb_lock st then (H_ERR_INVALID_ARG, [], st)
      else let snapshot = event_snapshot base event_id JL_EVENT_MAX_HANDLERS_PER_POST (eb_handlers st)
           in (H_OK, snapshot, fold (\<lambda>(h, c). cb h c) snapshot st))"

definition jl_event_wifi_post :: "(nat \<Rightarrow> nat \<Rightarrow> event_bus \<Rightarrow> event_bus) \<Rightarrow> int \<Rightarrow> event_bus \<Rightarrow> h_err \<times> (nat \<times> nat) list \<times> event_bus" where
  "jl_event_wifi_post cb event_id st = jl_event_post cb H_EVENT_WIFI event_id st"

text \<open>\<open>h_port_event_init\<close> (\<open>rc\<close>: the result of creating the mutex) and \<open>h_port_event_deinit\<close>.\<close>

definition h_port_event_init :: "h_err \<Rightarrow> event_bus \<Rightarrow> h_err \<times> event_bus" where
  "h_port_event_init rc st =
     (if eb_lock st then (H_OK, st) else if rc = H_OK then (H_OK, st\<lparr>eb_lock := True\<rparr>) else (rc, st))"

definition h_port_event_deinit :: "event_bus \<Rightarrow> event_bus" where
  "h_port_event_deinit st = (if \<not> eb_lock st then st else st\<lparr>eb_handlers := [], eb_lock := False\<rparr>)"

section \<open>Aligned memory\<close>

lemma unat_add_bound: "unat (a :: u32) + unat b < 2 ^ 32 \<Longrightarrow> unat (a + b) = unat a + unat b"
  by (simp add: unat_word_ariths take_bit_nat_eq_self)

lemma aligned_down: "unat ((x :: u32) AND NOT (2 ^ k - 1)) = unat x div 2 ^ k * 2 ^ k"
proof -
  have "x AND NOT (2 ^ k - 1) = push_bit k (drop_bit k x)"
    by (rule bit_word_eqI) (auto simp: mask_eq_exp_minus_1 [symmetric] bit_simps)
  moreover have "unat x div 2 ^ k * 2 ^ k < 2 ^ 32"
    by (rule le_less_trans [OF div_times_less_eq_dividend]) (use unsigned_less [of x] in simp)
  moreover have "take_bit 32 (unat x) = unat x" using unsigned_less [of x, where 'a = nat] by (simp add: take_bit_nat_eq_self)
  moreover from this have "unat (push_bit k (drop_bit k x)) = take_bit 32 (unat x div 2 ^ k * 2 ^ k)"
    by (simp only: unsigned_push_bit_eq unsigned_drop_bit_eq len_of_numeral_defs)
      (simp add: push_bit_eq_mult drop_bit_eq_div)
  ultimately show ?thesis by (simp add: take_bit_nat_eq_self)
qed

text \<open>
  The aligned block. For an alignment by a power of two and a request whose sum does not wrap, every block that \<open>malloc\<close>
  gives for the enlarged size yields an aligned address with room for \<open>sz\<close> octets and for the saved pointer inside the block,
  and whatever the owner stores in his octets, \<open>jl_free_align\<close> frees the block that was allocated.
\<close>
lemma aligned_block_sound:
  assumes "align = 2 ^ k" "k < 32" "unat sz + unat (jl_min_align align) + 4 < 2 ^ 32"
    and "raw \<noteq> 0" "unat raw + unat (jl_malloc_align_size sz align) \<le> 2 ^ 32"
    and "jl_malloc_align align raw mem = (p, mem')"
    and "\<forall>a. unat a < unat p \<or> unat p + unat sz \<le> unat a \<longrightarrow> mem2 a = mem' a"
  shows "unat align dvd unat p \<and> unat raw \<le> unat (p - 4) \<and>
    unat p + unat sz \<le> unat raw + unat (jl_malloc_align_size sz align) \<and> jl_free_align p mem2 = Some raw"
proof -
  have u: "unat (2 ^ n :: u32) = 2 ^ n" if "n < 32" for n using that unsigned_push_bit_eq [of n "1 :: u32", where 'a = nat]
    by (simp add: push_bit_eq_mult take_bit_nat_eq_self)
  obtain j where j: "jl_min_align align = 2 ^ j" "2 \<le> j" "j < 32" "k \<le> j"
  proof (cases "k < 2")
    case True
    then have "k = 0 \<or> k = 1" by auto
    then show ?thesis using that [of 2] assms(1) by (auto simp: jl_min_align_def)
  next
    case False
    then have "(2 :: nat) ^ 2 \<le> 2 ^ k" by (intro power_increasing) simp_all
    then show ?thesis using that [of k] assms(1,2) False by (simp add: jl_min_align_def word_less_nat_alt u)
  qed
  define x where "x = raw + 4 + 2 ^ j - 1"
  have ua: "unat (jl_min_align align) = 2 ^ j" by (simp add: j(1,3) u)
  have us: "unat (jl_malloc_align_size sz align) = unat sz + 2 ^ j + 4"
    using assms(3) unat_add_bound [of sz "jl_min_align align"] unat_add_bound [of "sz + jl_min_align align" 4]
    by (simp add: jl_malloc_align_size_def ua)
  have pos: "(4 :: nat) \<le> 2 ^ j" using power_increasing [of 2 j "2 :: nat"] j(2) by simp
  have ux: "unat x = unat raw + 3 + 2 ^ j"
  proof -
    have e: "x = raw + (3 + 2 ^ j)" by (simp add: x_def)
    have "unat (3 + 2 ^ j :: u32) = 3 + 2 ^ j" using unat_add_bound [of 3 "2 ^ j"] assms(3) ua j(3) by (simp add: u)
    then show ?thesis using unat_add_bound [of raw "3 + 2 ^ j"] assms(5) us by (simp add: e)
  qed
  have p: "p = x AND NOT (2 ^ j - 1)" "mem' = mem(p - 4 := raw)"
    using assms(4,6) by (auto simp: jl_malloc_align_def j(1) x_def Let_def)
  have up: "unat p = unat x div 2 ^ j * 2 ^ j" by (simp add: p(1) aligned_down)
  have "unat x mod 2 ^ j < 2 ^ j" by simp
  moreover have "unat p + unat x mod 2 ^ j = unat x" by (simp only: up div_mult_mod_eq)
  ultimately have b: "unat raw + 4 \<le> unat p" "unat p \<le> unat raw + 3 + 2 ^ j" using ux by linarith+
  have u4: "unat (p - 4) = unat p - 4" using b(1) by (simp add: unat_sub word_le_nat_alt)
  have d: "unat align dvd unat p"
    using le_imp_power_dvd [OF j(4), of "2 :: nat"] by (simp add: assms(1,2) u up dvd_mult)
  have "mem2 (p - 4) = raw" using assms(7) b(1) by (simp add: u4 p(2))
  moreover have "p \<noteq> 0" using b(1) by auto
  ultimately show ?thesis using d b us u4 by (simp add: jl_free_align_def)
qed

text \<open>\<open>jl_calloc\<close> never asks for less than it is asked.\<close>

lemma calloc_no_wrap:
  assumes "jl_calloc_size n sz = Some t"
  shows "unat t = unat n * unat sz"
proof (cases "sz = 0")
  case False
  have "n \<le> 0xFFFFFFFF div sz" using assms False by (simp add: jl_calloc_size_def split: if_splits)
  then have "unat n \<le> 0xFFFFFFFF div unat sz" by (simp add: word_le_nat_alt unat_div_distrib)
  then have "unat n * unat sz \<le> 0xFFFFFFFF div unat sz * unat sz" by (rule mult_le_mono1)
  also have "\<dots> \<le> 0xFFFFFFFF" by (rule div_times_less_eq_dividend)
  finally have "unat n * unat sz < 2 ^ 32" by simp
  then have "unat (n * sz) = unat n * unat sz" by (simp add: unat_mult_lem [THEN iffD1])
  then show ?thesis using assms by (auto simp: jl_calloc_size_def split: if_splits)
qed (use assms in \<open>simp add: jl_calloc_size_def\<close>)

section \<open>Delivery of events\<close>

definition matches_event :: "h_event_base \<Rightarrow> int \<Rightarrow> event_handler_entry \<Rightarrow> bool" where
  "matches_event base event_id e = (eh_base e = base \<and> eh_id e = event_id)"

lemma event_snapshot_eq:
  "event_snapshot base event_id n ps = take n (map (\<lambda>e. (eh_handler e, eh_ctx e)) (filter (matches_event base event_id) ps))"
  by (induction base event_id n ps rule: event_snapshot.induct) (simp_all add: matches_event_def)

lemma unlink_entry_eq:
  "unlink_entry base event_id handler ps = Some qs \<longleftrightarrow>
     (\<exists>us p vs. ps = us @ p # vs \<and> qs = us @ vs \<and> matches_event base event_id p \<and> eh_handler p = handler \<and>
       (\<forall>u \<in> set us. \<not> (matches_event base event_id u \<and> eh_handler u = handler)))"
proof (induction ps arbitrary: qs)
  case (Cons p ps)
  show ?case
  proof (cases "matches_event base event_id p \<and> eh_handler p = handler")
    case True
    then have "(\<exists>us q vs. p # ps = us @ q # vs \<and> qs = us @ vs \<and> matches_event base event_id q \<and>
        eh_handler q = handler \<and> (\<forall>u \<in> set us. \<not> (matches_event base event_id u \<and> eh_handler u = handler))) \<longleftrightarrow> qs = ps"
      by (metis append_Nil append_Cons hd_append list.sel(1,3) list.set_intros(1) list.set_sel(1) empty_iff list.set(1))
    then show ?thesis using True by (auto simp: matches_event_def)
  next
    case False
    have "unlink_entry base event_id handler (p # ps) = Some qs \<longleftrightarrow>
        (\<exists>rs. unlink_entry base event_id handler ps = Some rs \<and> qs = p # rs)"
      using False by (auto simp: matches_event_def)
    also have "\<dots> \<longleftrightarrow> (\<exists>us q vs. p # ps = us @ q # vs \<and> qs = us @ vs \<and> matches_event base event_id q \<and>
        eh_handler q = handler \<and> (\<forall>u \<in> set us. \<not> (matches_event base event_id u \<and> eh_handler u = handler)))"
      unfolding Cons.IH using False by (auto simp: Cons_eq_append_conv) (metis append_Cons set_ConsD)+
    finally show ?thesis .
  qed
qed simp

text \<open>
  An event reaches the eight newest of its handlers, newest first, whatever they do to the registrations; an older one never
  gets it while eight newer ones are registered. A handler that registers comes first and, unregistered, leaves the bus as it was.
\<close>

lemma event_post_calls:
  assumes "eb_lock st" "base \<noteq> H_EVENT_MAX"
  shows "fst (jl_event_post cb base i st) = H_OK"
    "fst (snd (jl_event_post cb base i st)) =
       take 8 (map (\<lambda>e. (eh_handler e, eh_ctx e)) (filter (matches_event base i) (eb_handlers st)))"
    "length (filter (matches_event base i) us) \<ge> 8 \<Longrightarrow> eb_handlers st = us @ vs \<Longrightarrow>
       fst (snd (jl_event_post cb base i st)) = take 8 (map (\<lambda>e. (eh_handler e, eh_ctx e)) (filter (matches_event base i) us))"
    "h \<noteq> 0 \<Longrightarrow> jl_event_register True base i h c st = (H_OK, st') \<Longrightarrow>
       hd (fst (snd (jl_event_post cb base i st'))) = (h, c) \<and> jl_event_unregister base i h st' = (H_OK, st)"
  using assms by (auto simp: jl_event_post_def jl_event_register_def jl_event_unregister_def event_snapshot_eq
      matches_event_def Let_def)

end
