(* ===== verification/Host_Init.thy ===== *)
theory Host_Init
  imports Osal_Port
begin

text \<open>
  Bringing the host up: validation of the port's tables and \<open>h_hosted_init\<close> with its roll-back
  (\<open>src/host/core/src/h_init.c\<close>), the hooks of the JL port (\<open>src/host/port/jl/port_init.c\<close>), and the configuration of
  the transport (\<open>src/host/api/src/esp_hosted_transport_config.c\<close>).
\<close>

section \<open>Validation\<close>

datatype transport_kind = H_TRANSPORT_NONE | H_TRANSPORT_SDIO | H_TRANSPORT_SPI_HD | H_TRANSPORT_SPI | H_TRANSPORT_UART

text \<open>The slots each table must fill; \<open>filled\<close>: those that are not null.\<close>

definition osal_slots :: "string list" where
  "osal_slots = [''osal.malloc'', ''osal.free'', ''osal.mutex_create'', ''osal.queue_create'', ''osal.sem_create'',
     ''osal.thread_create'']"

definition event_slots :: "string list" where
  "event_slots = [''event.register_handler'', ''event.post'']"

definition transport_slots :: "transport_kind \<Rightarrow> string list" where
  "transport_slots k = [''transport.init'', ''transport.deinit'', ''transport.bus_ready'', ''transport.transmit''] @
     (case k of
        H_TRANSPORT_SPI \<Rightarrow> [''transport.spi_transfer'', ''transport.gpio_config'', ''transport.gpio_set_intr'']
      | H_TRANSPORT_SPI_HD \<Rightarrow> [''transport.spi_hd_read_reg'', ''transport.spi_hd_write_reg'', ''transport.spi_hd_read_dma'',
          ''transport.spi_hd_write_dma'', ''transport.spi_hd_send_cmd9'', ''transport.gpio_config'', ''transport.gpio_set_intr'']
      | H_TRANSPORT_SDIO \<Rightarrow> [''transport.sdio_card_init'', ''transport.sdio_read_reg'', ''transport.sdio_write_reg'',
          ''transport.sdio_read_block'', ''transport.sdio_write_block'', ''transport.sdio_wait_intr'', ''transport.gpio_config'',
          ''transport.gpio_write'']
      | H_TRANSPORT_UART \<Rightarrow> [''transport.uart_read'', ''transport.uart_write'', ''transport.uart_flush'',
          ''transport.gpio_config'', ''transport.gpio_write'']
      | H_TRANSPORT_NONE \<Rightarrow> [])"

definition wifi_slots :: "string list" where
  "wifi_slots = [''wifi.init_config_to_req'', ''wifi.scan_config_to_req'', ''wifi.country_to_req'', ''wifi.ap_record_from_resp'',
     ''wifi.ap_record_from_resp_list'', ''wifi.country_from_resp'', ''wifi.sta_list_from_resp'', ''wifi.iface_to_native'',
     ''wifi.mode_to_native'', ''wifi.ps_to_native'', ''wifi.bw_to_native'', ''wifi.iface_to_host'', ''wifi.mode_to_host'',
     ''wifi.ps_to_host'', ''wifi.bw_to_host'']"

definition h_validate_contracts :: "transport_kind \<Rightarrow> (string \<Rightarrow> bool) \<Rightarrow> h_err" where
  "h_validate_contracts k filled =
     (if \<not> list_all filled osal_slots then H_ERR_INVALID_ARG
      else if \<not> list_all filled event_slots then H_ERR_INVALID_ARG
      else if \<not> list_all filled (transport_slots k) then H_ERR_INVALID_ARG
      else if \<not> list_all filled wifi_slots then H_ERR_INVALID_ARG
      else H_OK)"

text \<open>What the tables of the JL port fill.\<close>

definition jl_osal_table :: "string list" where
  "jl_osal_table = [''osal.malloc'', ''osal.calloc'', ''osal.realloc'', ''osal.free'', ''osal.memcpy'', ''osal.memset'',
     ''osal.malloc_align'', ''osal.free_align'', ''osal.thread_create'', ''osal.thread_delete'', ''osal.mutex_create'',
     ''osal.mutex_lock'', ''osal.mutex_unlock'', ''osal.mutex_delete'', ''osal.queue_create'', ''osal.queue_send'',
     ''osal.queue_recv'', ''osal.queue_msg_waiting'', ''osal.queue_reset'', ''osal.queue_delete'', ''osal.sem_create'',
     ''osal.sem_take'', ''osal.sem_give'', ''osal.sem_give_from_isr'', ''osal.sem_delete'', ''osal.enter_critical'',
     ''osal.exit_critical'', ''osal.timer_create'', ''osal.timer_start'', ''osal.timer_stop'', ''osal.timer_delete'',
     ''osal.get_time_ms'', ''osal.msleep'', ''osal.usleep'', ''osal.blocking_delay'', ''osal.log_write'']"

definition jl_event_table :: "string list" where
  "jl_event_table = [''event.register_handler'', ''event.unregister_handler'', ''event.post'', ''event.wifi_post'']"

definition jl_transport_table :: "string list" where
  "jl_transport_table = [''transport.init'', ''transport.deinit'', ''transport.bus_ready'', ''transport.transmit'',
     ''transport.uart_read'', ''transport.uart_write'', ''transport.uart_flush'', ''transport.gpio_config'',
     ''transport.gpio_set_intr'', ''transport.gpio_clear_intr'', ''transport.gpio_read'', ''transport.gpio_write'',
     ''transport.gpio_pull'', ''transport.gpio_hold'', ''transport.post_transport_init_hook'']"

definition jl_wifi_table :: "string list" where
  "jl_wifi_table = [''wifi.init_config_to_req'', ''wifi.scan_config_to_req'', ''wifi.country_to_req'', ''wifi.ap_record_from_resp'',
     ''wifi.ap_record_from_resp_list'', ''wifi.country_from_resp'', ''wifi.sta_list_from_resp'', ''wifi.iface_to_native'',
     ''wifi.mode_to_native'', ''wifi.ps_to_native'', ''wifi.bw_to_native'', ''wifi.iface_to_host'', ''wifi.mode_to_host'',
     ''wifi.ps_to_host'', ''wifi.bw_to_host'']"

text \<open>The JL port passes the validation for the UART and for no other bus.\<close>

lemma jl_port_valid:
  "h_validate_contracts k (\<lambda>s. s \<in> set (jl_osal_table @ jl_event_table @ jl_transport_table @ jl_wifi_table)) = H_OK \<longleftrightarrow>
     k = H_TRANSPORT_UART \<or> k = H_TRANSPORT_NONE"
  by (cases k; hypsubst; code_simp)

section \<open>Initialisation\<close>

text \<open>
  \<open>g_hosted_initialized\<close>, the event bus, whether \<open>bus_handle\<close> is set and \<open>g_rpc_initialized\<close>.
\<close>

record hosted =
  ho_initialized :: bool
  ho_events :: event_bus
  ho_transport :: bool
  ho_rpc :: bool

definition h_port_transport_init :: "h_err \<Rightarrow> hosted \<Rightarrow> h_err \<times> hosted" where
  "h_port_transport_init rc st = (rc, st\<lparr>ho_transport := (rc = H_OK)\<rparr>)"

definition h_port_transport_deinit :: "hosted \<Rightarrow> hosted" where
  "h_port_transport_deinit st = st\<lparr>ho_transport := False\<rparr>"

text \<open>\<open>init\<close> and \<open>start\<close>: the results of \<open>rpc_core_init\<close> and \<open>rpc_core_start\<close>.\<close>

definition h_port_rpc_init :: "h_err \<Rightarrow> h_err \<Rightarrow> hosted \<Rightarrow> h_err \<times> hosted" where
  "h_port_rpc_init init start st =
     (if ho_rpc st then (H_OK, st)
      else if init \<noteq> H_OK then (H_FAIL, st)
      else if start \<noteq> H_OK then (H_FAIL, st)
      else (H_OK, st\<lparr>ho_rpc := True\<rparr>))"

definition h_port_rpc_deinit :: "hosted \<Rightarrow> hosted" where
  "h_port_rpc_deinit st = (if \<not> ho_rpc st then st else st\<lparr>ho_rpc := False\<rparr>)"

definition on_events :: "(event_bus \<Rightarrow> event_bus) \<Rightarrow> hosted \<Rightarrow> hosted" where
  "on_events f st = st\<lparr>ho_events := f (ho_events st)\<rparr>"

text \<open>\<open>h_hosted_init\<close> for the result of the validation, of creating the mutex, of the bus and of the RPC core.\<close>

definition h_hosted_init :: "h_err \<Rightarrow> h_err \<Rightarrow> h_err \<Rightarrow> h_err \<times> h_err \<Rightarrow> hosted \<Rightarrow> h_err \<times> hosted" where
  "h_hosted_init valid ev tr rpc st =
     (if ho_initialized st then (H_OK, st)
      else if valid \<noteq> H_OK then (valid, st)
      else case h_port_event_init ev (ho_events st) of (err, bus) \<Rightarrow>
        let st = on_events (\<lambda>_. bus) st in
        if err \<noteq> H_OK then (err, st)
        else case h_port_transport_init tr st of (err, st) \<Rightarrow>
          if err \<noteq> H_OK then (err, on_events h_port_event_deinit st)
          else case h_port_rpc_init (fst rpc) (snd rpc) st of (err, st) \<Rightarrow>
            if err \<noteq> H_OK then (err, on_events h_port_event_deinit (h_port_transport_deinit st))
            else (H_OK, st\<lparr>ho_initialized := True\<rparr>))"

definition h_hosted_deinit :: "hosted \<Rightarrow> h_err \<times> hosted" where
  "h_hosted_deinit st =
     (if \<not> ho_initialized st then (H_OK, st)
      else (H_OK, (on_events h_port_event_deinit (h_port_transport_deinit (h_port_rpc_deinit st)))\<lparr>ho_initialized := False\<rparr>))"

text \<open>Before the first initialisation, and what can happen: the two calls, and registrations in between.\<close>

definition hosted_down :: hosted where
  "hosted_down = \<lparr>ho_initialized = False, ho_events = \<lparr>eb_handlers = [], eb_lock = False\<rparr>, ho_transport = False, ho_rpc = False\<rparr>"

inductive hosted_run :: "hosted \<Rightarrow> bool" where
  Down: "hosted_run hosted_down"
| Init: "hosted_run st \<Longrightarrow> h_hosted_init valid ev tr rpc st = (err, st') \<Longrightarrow> hosted_run st'"
| Deinit: "hosted_run st \<Longrightarrow> h_hosted_deinit st = (err, st') \<Longrightarrow> hosted_run st'"
| Register: "hosted_run st \<Longrightarrow> hosted_run (on_events (\<lambda>b. snd (jl_event_register mem base i h ctx b)) st)"
| Unregister: "hosted_run st \<Longrightarrow> hosted_run (on_events (\<lambda>b. snd (jl_event_unregister base i h b)) st)"

text \<open>All or nothing: whatever failed, either everything is up or the host is as before the first initialisation.\<close>

lemma hosted_all_or_nothing:
  assumes "hosted_run st"
  shows "if ho_initialized st then eb_lock (ho_events st) \<and> ho_transport st \<and> ho_rpc st else st = hosted_down"
  using assms
proof induction
  case (Init st valid ev tr rpc err st')
  then show ?case
    by (auto simp: h_hosted_init_def h_port_event_init_def h_port_transport_init_def h_port_rpc_init_def on_events_def
        h_port_event_deinit_def h_port_transport_deinit_def hosted_down_def Let_def split: if_splits)
next
  case (Deinit st err st')
  then show ?case
    by (auto simp: h_hosted_deinit_def h_port_rpc_deinit_def h_port_transport_deinit_def h_port_event_deinit_def on_events_def
        hosted_down_def split: if_splits)
qed (auto simp: hosted_down_def on_events_def jl_event_register_def jl_event_unregister_def split: option.splits if_splits)

section \<open>Transport configuration\<close>

text \<open>
  \<open>s_transport_config\<close> for the one transport \<open>k\<close> of the build, whose configurations are of type \<open>'c\<close>, and
  \<open>esp_hosted_transport_config_set\<close>. \<open>new\<close>: the caller's configuration or the default, with the changes of the variants for
  IOMUX and two lines.
\<close>

datatype transport_err = ESP_TRANSPORT_OK | ESP_TRANSPORT_ERR_ALREADY_SET

record 'c transport_config =
  tc_in_use :: transport_kind
  tc_config :: 'c
  tc_set :: bool

definition esp_hosted_set_config ::
  "transport_kind \<Rightarrow> ('c \<Rightarrow> 'c) \<Rightarrow> 'c \<Rightarrow> 'c option \<Rightarrow> 'c transport_config \<Rightarrow> transport_err \<times> 'c transport_config" where
  "esp_hosted_set_config k variant dflt config st =
     (let new_config = variant (case config of None \<Rightarrow> dflt | Some c \<Rightarrow> c) in
      if tc_set st then (if tc_config st = new_config then ESP_TRANSPORT_OK else ESP_TRANSPORT_ERR_ALREADY_SET, st)
      else (ESP_TRANSPORT_OK, st\<lparr>tc_config := new_config, tc_set := True, tc_in_use := k\<rparr>))"

text \<open>\<open>esp_hosted_transport_set_default_config\<close>: an error is fatal (\<open>ESP_ERROR_CHECK\<close>); \<open>z\<close> is the zeroed structure.\<close>

definition esp_hosted_transport_set_default_config ::
  "transport_kind \<Rightarrow> 'c \<Rightarrow> 'c \<Rightarrow> 'c transport_config \<Rightarrow> 'c transport_config option" where
  "esp_hosted_transport_set_default_config k z dflt st =
     (case esp_hosted_set_config k id dflt None (st\<lparr>tc_config := z, tc_in_use := H_TRANSPORT_NONE\<rparr>) of
        (ESP_TRANSPORT_OK, st) \<Rightarrow> Some st
      | (ESP_TRANSPORT_ERR_ALREADY_SET, _) \<Rightarrow> None)"

definition esp_hosted_transport_is_config_valid :: "'c transport_config \<Rightarrow> bool" where
  "esp_hosted_transport_is_config_valid st = tc_set st"

text \<open>\<open>esp_hosted_spi_hd_2lines_get_config\<close> gives the configuration and changes it.\<close>

definition esp_hosted_spi_hd_2lines_get_config :: "('c \<Rightarrow> 'c) \<Rightarrow> 'c transport_config \<Rightarrow> 'c \<times> 'c transport_config" where
  "esp_hosted_spi_hd_2lines_get_config two_lines st =
     (two_lines (tc_config st), st\<lparr>tc_config := two_lines (tc_config st)\<rparr>)"

definition esp_hosted_transport_get_reset_config :: "('c \<Rightarrow> 'p) \<Rightarrow> 'p \<Rightarrow> 'c transport_config \<Rightarrow> 'p" where
  "esp_hosted_transport_get_reset_config pin_reset default_pin st =
     (if tc_in_use st = H_TRANSPORT_NONE then default_pin else pin_reset (tc_config st))"

text \<open>A configuration that is set stays; and setting the default after it ends the program.\<close>

lemma config_stays:
  "tc_set st \<Longrightarrow> snd (esp_hosted_set_config k variant dflt config st) = st"
  "esp_hosted_set_config k variant dflt config st = (ESP_TRANSPORT_OK, st') \<Longrightarrow>
     tc_config st' = variant (case config of None \<Rightarrow> dflt | Some c \<Rightarrow> c) \<and> tc_set st'"
  by (auto simp: esp_hosted_set_config_def Let_def split: if_splits)

lemma default_after_config_aborts:
  "tc_set st \<Longrightarrow> z \<noteq> dflt \<Longrightarrow> esp_hosted_transport_set_default_config k z dflt st = None"
  by (simp add: esp_hosted_transport_set_default_config_def esp_hosted_set_config_def)

end
