(* ===== verification/Spec2Isabelle.thy ===== *)
theory Spec2Isabelle
  imports Payload_Header Mempool Osal_Queue Osal_Timer Serial_Tlv Serial_LL Uart_Frame Rpc_Core Nw_Split Power_Save Sdio_Link Uart_Drv Spi_Link Spi_Hd_Link Slave_Ota Remote_Call Custom_Msg Slave_Monitor Slave_Wifi_Rx Wifi_System Wifi_Transparent Slave_Gpio Host_Init Hosted_System
begin

text \<open>
  ESP-Hosted: a host processor without radio uses a co-processor (an ESP chip) as its network adapter. The two are
  joined by UART, SPI (full or half duplex) or SDIO. Over that bus run Ethernet frames, Bluetooth packets, private start-up and power-save
  messages, and a control channel on which the host calls procedures of the co-processor and receives events.

  The host is \<open>src/host\<close>: the core (\<open>core/src\<close>), the bus drivers (\<open>drivers/transport\<close>), the power-save
  driver and the port to the JL operating system (\<open>port/jl\<close>). The co-processor is \<open>src/slave/main\<close>. Both
  use \<open>src/common\<close>: header, checksum, memory pool, message definitions.

  \<^bold>\<open>How the parts interact.\<close> On the host an application request becomes an \<open>Rpc\<close> message (\<open>h_rpc_req.c\<close>,
  \<open>h_rpc_core.c\<close>), is wrapped in a TLV (\<open>h_serial_if.c\<close>), cut into fragments with a header
  (\<open>serial_ll_if.c\<close>) and queued at the bus driver, which seals each packet with a checksum. The bus driver of the
  co-processor queues what it receives by priority; the main module (\<open>esp_hosted_coprocessor.c\<close>) puts the fragments
  together and hands the TLV to \<open>protocomm_pserial.c\<close>, which calls the dispatcher of \<open>slave_control.c\<close>. The reply
  and the events take the way back. Frames of the Wi-Fi driver go to the host, to the local network stack or to both,
  as \<open>nw_split_router.c\<close> says. A sleeping host is woken through a GPIO (\<open>host_power_save.c\<close>).

  \<^bold>\<open>Theories, in the order of the code.\<close> A definition bears the name of the function it models; a record bears the
  name of the structure or, for the static variables of a file, that of the file. Octets are 8-bit words, a buffer is a
  list of them, integers keep the width of their C type, a null pointer is \<open>None\<close> or address 0. A result \<open>None\<close>
  is what the header of each theory names: an access outside an object, a use after release, a failed assertion, or a
  task that waits. What the program takes from libraries outside the repository (peripheral drivers, the Wi-Fi driver,
  the operating system, the update library, the protobuf encoding) is an argument: its results come in and the calls
  made to it are recorded.

  \<^item> \<open>Hosted_Prelude\<close>: octets and words, error codes (\<open>h_types.h\<close>), shared lemmas, \<open>hosted_simps\<close>, \<open>hosted_defs\<close>.
  \<^item> \<open>Payload_Header\<close>: \<open>struct esp_payload_header\<close> and the checksum (\<open>esp_hosted_header.h\<close>, \<open>esp_hosted_transport.h\<close>).
  \<^item> \<open>Mempool\<close>: the intrusive free list in an explicit store and the pool (\<open>mempool_ll.c\<close>, \<open>mempool.c\<close>).
  \<^item> \<open>Osal_Queue\<close>, \<open>Osal_Timer\<close>: queue and timer of the JL port (\<open>h_osal.c\<close>).
  \<^item> \<open>Serial_Tlv\<close>: the TLV of the control channel on both sides (\<open>h_serial_if.c\<close>, \<open>serial_if.c\<close>, \<open>protocomm_pserial.c\<close>).
  \<^item> \<open>Serial_LL\<close>: fragments, reassembly, sessions on the host (\<open>serial_ll_if.c\<close>, \<open>h_control_serial_adapter.c\<close>).
  \<^item> \<open>Uart_Frame\<close>: UART transport of the JL port (\<open>h_transport_task.c\<close>).
  \<^item> \<open>Slave_Core\<close>, \<open>Slave_Uart\<close>: main module and UART driver of the co-processor (\<open>esp_hosted_coprocessor.c\<close>, \<open>uart_slave_api.c\<close>).
  \<^item> \<open>Transport_Drv\<close>: link state, channels, start-up event of the host (\<open>h_transport_drv.c\<close>).
  \<^item> \<open>Hosted_System\<close>: one turn of each receive loop, both processors on the UART.
  \<^item> \<open>Rpc_Core\<close>, \<open>Rpc_Ids\<close>, \<open>Rpc_Message\<close>: request identifiers, tables of waiting callers and callbacks, timeouts,
    message numbers, composition and parsing (\<open>h_rpc_core.c\<close>, \<open>h_rpc_req.c\<close>, \<open>h_rpc_rsp.c\<close>).
  \<^item> \<open>Slave_Control\<close>, \<open>Rpc_Call\<close>, \<open>Remote_Call\<close>: request table and dispatcher (\<open>slave_control.c\<close>); one call from
    the application to the handler and back; the same over the UART.
  \<^item> \<open>Custom_Msg\<close>, \<open>Slave_Monitor\<close>, \<open>Slave_Ota\<close>: application messages, heartbeat and memory monitor, firmware update (\<open>slave_control.c\<close>, \<open>h_rpc_evt.c\<close>).
  \<^item> \<open>Nw_Split\<close>, \<open>Slave_Wifi_Rx\<close>: the router and the receive callbacks of the Wi-Fi driver (\<open>nw_split_router.c\<close>, \<open>esp_hosted_coprocessor.c\<close>).
  \<^item> \<open>Wifi_Config\<close>, \<open>Slave_Wifi\<close>, \<open>Host_Wifi\<close>, \<open>Wifi_System\<close>: configuration messages, control of the Wi-Fi driver
    with its events (\<open>slave_wifi_std.c\<close>), the host's view of the station (\<open>h_rpc_evt.c\<close>, \<open>h_rpc_wrap.c\<close>), both together.
  \<^item> \<open>Power_Save\<close>: both sides of the host's sleep (\<open>host_power_save.c\<close>, \<open>power_save_drv.c\<close>).
  \<^item> \<open>Bus_Queue\<close>: priority queues and dispatch the bus drivers of the host share.
  \<^item> \<open>Sdio_Drv\<close>, \<open>Slave_Sdio\<close>, \<open>Sdio_Link\<close>: \<open>sdio_drv.c\<close>, \<open>sdio_slave_api.c\<close>, both together.
  \<^item> \<open>Uart_Drv\<close>: \<open>uart_drv.c\<close> and its equivalence with \<open>Uart_Frame\<close>.
  \<^item> \<open>Spi_Drv\<close>, \<open>Slave_Spi\<close>, \<open>Spi_Link\<close>: \<open>spi_drv.c\<close>, \<open>spi_slave_api.c\<close>, both together with the two lines.
  \<^item> \<open>Spi_Frame\<close>, \<open>Spi_Hd_Drv\<close>, \<open>Slave_Spi_Hd\<close>, \<open>Spi_Hd_Link\<close>: the frames both SPI transports share; the
    half-duplex transport (\<open>spi_hd_drv.c\<close>, \<open>spi_hd_slave_api.c\<close>), both together with the registers and the interrupt line.
  \<^item> \<open>Wifi_Scan\<close>: start of a scan and the way of its records (\<open>slave_wifi_std.c\<close>, \<open>h_rpc_rsp.c\<close>, \<open>h_rpc_wrap.c\<close>), with the callback
    every synchronous reply passes.
  \<^item> \<open>Wifi_Values\<close>, \<open>Wifi_Api\<close>, \<open>Wifi_Transparent\<close>: the 42 requests to the Wi-Fi driver that pass a few values: messages and
    handlers, parsing and the functions of the host API, and their equivalence with calls of the driver.
  \<^item> \<open>Slave_Gpio\<close>: pins of the co-processor the host may use, with the guard of those of the transport
    (\<open>slave_transport_gpio_pin_guard.c\<close>, \<open>slave_gpio_expander.c\<close>, \<open>slave_ext_coex.c\<close>).
  \<^item> \<open>Osal_Port\<close>, \<open>Host_Init\<close>: memory, tasks, locks and event bus of the JL port (\<open>h_osal.c\<close>, \<open>h_event.c\<close>); validation,
    initialisation with its roll-back and the configuration of the transport (\<open>h_init.c\<close>, \<open>port_init.c\<close>, \<open>esp_hosted_transport_config.c\<close>).

  \<^bold>\<open>Interfaces.\<close> Where one part relies on another the contract is a locale, interpreted on the model of the code that
  provides it: \<open>block_pool\<close> (free list of \<open>Mempool\<close>), \<open>fifo_queue\<close> (ring buffer of \<open>Osal_Queue\<close>),
  \<open>message_codec\<close> (the TLV in each direction), \<open>fragment_link\<close> (reassembly on the host and on the co-processor),
  \<open>byte_source\<close> (exact reads from the UART), \<open>message_registry\<close> (both tables of callbacks), \<open>timer_service\<close>
  (heartbeat and memory monitor).

  \<^bold>\<open>What the lemmas show.\<close> Each theory first shows what every operation does on each branch and that it keeps the
  invariant of its state; the properties follow from those. They are of four groups.
  \<^item> Containers: no block is granted twice; the ring is a bounded queue; a timer is released once; the tables of
    callbacks are finite maps.
  \<^item> Links: over UART, both kinds of SPI and SDIO packets arrive whole, once, in order of their priority (over SDIO as long as the
    splitting task of the host keeps up), and a damaged UART frame is dropped;
    flow control never overruns the buffers of the co-processor, also when its counters wrap; every buffer has one owner.
  \<^item> Control channel: messages survive fragmentation and TLV in both directions; a call gets the reply to its own
    identifier, runs the handler once, and its callback is called once on response or timeout; a well-typed request is
    never read through the wrong member of the payload; the start-up handshake opens the link.
  \<^item> Services: the router lets a sleeping host sleep; a wake-up delivers or drops; the update boots the image
    last written; the Wi-Fi configuration and the records of a scan arrive unmixed, a call of the Wi-Fi API is a call of the driver, no request touches a line of the bus,
    the host's view of the station agrees with the driver's but for one race, a
    configuration that comes during a connection attempt is applied.

  Some lemmas show where the code departs from its intention, for instance \<open>spi_write_race\<close>,
  \<open>timer_restart_stop_uaf\<close>, \<open>slave_tlv_overread\<close>, \<open>softap_always_open\<close>, \<open>connect_preempted\<close>, \<open>host_misses_start\<close>,
  \<open>uart_stale_header\<close>, \<open>sdio_reset_unguarded\<close>.

  \<^bold>\<open>Interleaving.\<close> The parts that run in tasks of their own are steps in any order: the turns of the bus drivers, the
  tasks of the SDIO receiver, the requests and the events of the Wi-Fi driver. A step is one operation run to completion.
  Two operations are split at the point where a preemption changes the outcome: \<open>esp_spi_write\<close> between the data-ready
  line and the semaphore (\<open>spi_write_race\<close>), and \<open>req_wifi_connect\<close> between its test and what follows
  (\<open>station_view_agrees\<close>). Other preemptions inside an operation are not modelled.

  \<^bold>\<open>Bounds and fuel.\<close> Loops over buffers recurse on the list or on a count, so they end. Waiting loops take the
  sequence of what happens (clock, bus events, results) as an argument and are \<open>None\<close> when it ends: \<open>jl_queue_send\<close>
  returns once the clock reaches its timeout (\<open>jl_queue_send_returns\<close>). The reads of \<open>sdio_get_tx_buffer_num\<close> are
  bounded by the 50 retries of the source, the table loops by the table. \<open>spi_link_delivers\<close> needs four steps for
  each packet. The sizes assumed are those of the source: 1500-octet fragments from the host, 1588 from the
  co-processor, 8192 octets of request, 65523 of a message in a TLV, 2048-octet SDIO buffers. The host asks for free half-duplex
  buffers at most 25 times before it drops a packet; \<open>spi_hd_delivers\<close> needs two turns for each packet upwards, and downwards at most
  the turns of \<open>hd_down_work\<close>, five for each packet still queued at the host.

  \<^bold>\<open>Not modelled.\<close>
  \<^item> \<open>src/common/proto\<close>: generated by the protobuf compiler; the packed octets are a codec, a parameter of the
    call, whose hypotheses are that unpacking gives back what was packed.
  \<^item> \<open>src/host/drivers/rpc\<close>, the earlier RPC core, which \<open>src/host/core\<close> replaces function by function.
  \<^item> \<open>h_api.c\<close>, \<open>esp_hosted_api.c\<close> and the rest of \<open>h_rpc_wrap.c\<close>: functions that call one of the same kind; the wrappers of
    the update, of application messages, of enterprise authentication, iTWT, DPP and GPIO fill a request and wait as those
    of \<open>Wifi_Api\<close> do. Likewise the handlers of \<open>slave_wifi_enterprise.c\<close> and of iTWT.
  \<^item> \<open>slave_network_split.c\<close>: set-up of the interfaces and of DHCP in the IP stack.
  \<^item> The ports of the host to ESP-IDF and Linux: bindings of the tables the JL port fills.
  \<^item> Bluetooth (\<open>slave_bt*.c\<close>, \<open>vhci_drv.c\<close>, \<open>hci_stub_drv.c\<close>) and OpenThread: glue to their stacks; the transports carry
    Bluetooth packets and are modelled with them.
  \<^item> Light sleep, command line, statistics and raw throughput:
    calls of platform functions and counters.
  \<^item> Task creation, driver installation, logging, build options that are off by default (pool guards, packet mode of SDIO,
    simplified SDIO, DPP, iTWT), tests and examples.
\<close>

section \<open>Properties of the whole system\<close>

text \<open>
  C2: the start-up handshake. The event the co-processor generates is received by the host on any cutting of
  the octet stream; a host configured for that chip then opens its transmit path, calls the up callback and
  starts the remote procedure calls, and sends one configuration event; when the frame of that event
  reaches the co-processor, the two flow-control thresholds are the ones of the host's configuration.
\<close>
theorem startup_handshake:
  assumes "known_chip chip" "txb \<noteq> 0" "byte_source rd avail ready" "buf \<noteq> 0" "su_empty su" "\<not> sc_valid st"
  shows "\<exists>frame event frames fr tr'.
    generate_startup_event chip rxq txq fw scap ext_cap raw txb = Some (frame, []) \<and>
    (\<forall>evs. ev_clean evs \<and> ev_bytes evs = frame \<longrightarrow>
      (\<exists>hdr payload evs'. jl_uart_read_packet (\<lambda>_. True) 0 evs = Some (Some (hdr, payload), evs') \<and> ev_bytes evs' = [] \<and>
        process_priv_communication chip cap low high True H_OK (Some (rx_handle pkt hdr payload)) tr = Some tr')) \<and>
    is_transport_tx_ready tr' \<and> tr_chip tr' = chip \<and> tr_up_calls tr' = tr_up_calls tr + (if tr_up tr then 1 else 0) \<and>
    tr_rpc_started tr' = tr_rpc_started tr + 1 \<and> tr_ps_init tr' = tr_ps_init tr + 1 \<and>
    tr_sent tr' = tr_sent tr @ [(5, event)] \<and>
    jl_uart_write_packet True length (Some (priv_packet event)) = Some (H_OK, frames, fr) \<and>
    (\<forall>s. ready s \<and> avail s = concat frames \<longrightarrow>
      (\<exists>s' su' st'. slave_turn rd buf (s, su, st) = Some (s', su', st') \<and> avail s' = [] \<and>
        sc_high st' = high \<and> sc_low st' = low))"
proof -
  let ?p = "ESP_PRIV_EVENT_INIT # 27 # startup_tlvs chip rxq txq fw scap ext_cap raw"
  let ?f = "seal_frame startup_header ?p"
  let ?ev = "slave_config_event cap chip low high"
  let ?tr = "tr\<lparr>tr_chip := chip, tr_up_calls := tr_up_calls tr + (if tr_up tr then 1 else 0),
      tr_state := TRANSPORT_TX_ACTIVE, tr_sent := tr_sent tr @ [(5, ?ev)],
      tr_rpc_started := tr_rpc_started tr + 1, tr_ps_init := tr_ps_init tr + 1\<rparr>"
  have g: "generate_startup_event chip rxq txq fw scap ext_cap raw txb = Some (?f, [])"
    by (rule startup_frame [OF assms(2)])
  have up: "process_priv_communication chip cap low high True H_OK (Some (rx_handle pkt hdr ?p)) tr = Some ?tr" for hdr
    using process_event_startup [OF assms(1), of cap low high rxq txq fw scap ext_cap raw tr]
    by (simp add: process_priv_communication_def rx_handle_def)
  have rx: "\<exists>hdr payload evs'. jl_uart_read_packet (\<lambda>_. True) 0 evs = Some (Some (hdr, payload), evs') \<and> ev_bytes evs' = [] \<and>
        process_priv_communication chip cap low high True H_OK (Some (rx_handle pkt hdr payload)) tr = Some ?tr"
    if "ev_clean evs" "ev_bytes evs = ?f" for evs
  proof -
    have "ev_bytes evs = ?f @ []" using that(2) by simp
    from startup_received [OF g that(1) this, of pkt undefined] obtain hdr evs' where
      "jl_uart_read_packet (\<lambda>_. True) 0 evs = Some (Some (hdr, ?p), evs')" "ev_bytes evs' = []" by blast
    then show ?thesis using up by blast
  qed
  have "plain_packet (priv_packet ?ev) ?ev"
    by (simp add: plain_packet_def priv_packet_def zero_handle_def slave_config_event_def)
  note w = write_packet_plain [OF this, of length]
  have wr: "jl_uart_write_packet True length (Some (priv_packet ?ev)) = Some (H_OK, [seal_frame (tx_header (priv_packet ?ev)) ?ev], [F_Send])"
    using w by (simp add: seal_frame_split)
  have cf: "\<exists>s' su' st'. slave_turn rd buf (s, su, st) = Some (s', su', st') \<and> avail s' = [] \<and> sc_high st' = high \<and> sc_low st' = low"
    if "ready s" "avail s = concat [seal_frame (tx_header (priv_packet ?ev)) ?ev]" for s
    using config_received [OF assms(3) that(1) _ wr assms(4-6), of "[]"] that(2) by auto
  show ?thesis
    using g rx wr cf
    by (intro exI [of _ ?f] exI [of _ ?ev] exI [of _ "[seal_frame (tx_header (priv_packet ?ev)) ?ev]"] exI [of _ "[F_Send]"]
        exI [of _ ?tr]) (simp add: is_transport_tx_ready_def)
qed

theorem startup_handshake_witness:
  "\<exists>frame event frames fr (tr' :: transport). generate_startup_event 0xD 20 20 0x20900 0x88 0x300 0 4 = Some (frame, []) \<and>
     tr_sent tr' = [(5, event)] \<and> is_transport_tx_ready tr' \<and>
     jl_uart_write_packet True length (Some (priv_packet event)) = Some (H_OK, frames, fr) \<and>
     (\<exists>s' su' st'. slave_turn uart_read 5 ([U_Data (concat frames)], demo_su, demo_slave) = Some (s', su', st') \<and>
       sc_high st' = 80 \<and> sc_low st' = 60)"
proof -
  have a: "known_chip 0xD" "(4 :: nat) \<noteq> 0" "(5 :: nat) \<noteq> 0" "su_empty demo_su" "\<not> sc_valid demo_slave" "tr_sent demo_tr = []"
    by (simp_all add: known_chip_def su_empty_def demo_su_def demo_slave_def demo_tr_def)
  obtain frame event frames fr and tr' :: transport where e: "generate_startup_event 0xD 20 20 0x20900 0x88 0x300 0 4 = Some (frame, [])"
    "tr_sent tr' = tr_sent demo_tr @ [(5, event)]" "is_transport_tx_ready tr'"
    "jl_uart_write_packet True length (Some (priv_packet event)) = Some (H_OK, frames, fr)"
    and s: "\<forall>s. ev_clean s \<and> ev_bytes s = concat frames \<longrightarrow>
      (\<exists>s' su' st'. slave_turn uart_read 5 (s, demo_su, demo_slave) = Some (s', su', st') \<and> ev_bytes s' = [] \<and>
        sc_high st' = 80 \<and> sc_low st' = 60)"
    using startup_handshake [OF a(1,2) uart.byte_source_axioms a(3-5), where rxq = 20 and txq = 20 and fw = "0x20900" and scap = "0x88" and
      ext_cap = "0x300" and raw = 0 and cap = 0 and low = 60 and high = 80 and pkt = 7 and tr = demo_tr] by blast
  have "ev_clean [U_Data (concat frames)]" "ev_bytes [U_Data (concat frames)] = concat frames" by simp_all
  with s have "\<exists>s' su' st'. slave_turn uart_read 5 ([U_Data (concat frames)], demo_su, demo_slave) = Some (s', su', st') \<and>
        sc_high st' = 80 \<and> sc_low st' = 60" by blast
  moreover have "tr_sent tr' = [(5, event)]" using e(2) a(6) by simp
  ultimately show ?thesis using e(1,3,4) by blast
qed

end
